(* ===== verification/Prelude.thy ===== *)
theory Prelude
  imports Complex_Main "HOL-Library.AList" "HOL-Library.Product_Lexorder"
begin

section \<open>Shared vocabulary: Python dictionaries, text, errors\<close>

text \<open>
  What every component of the gateway uses.  A Python \<open>dict\<close> keeps its keys in insertion
  order, and several routines of the gateway depend on that order (which entry is evicted first,
  which component starts first), so a dictionary is an association list: \<open>map_of\<close> reads it,
  \<open>AList.update\<close> overwrites in place or appends, \<open>AList.delete\<close> removes.  The locale
  \<open>dict_store\<close> states what clients rely on; it is interpreted on these three operations.

  Text is a \<open>string\<close>: one \<open>char\<close> per code point, so the model covers the code points
  0 to 255 (Latin-1), on which \<open>strip\<close>, \<open>lower\<close> and the digit tests below are Python's.
  Floating-point numbers are idealised as \<open>real\<close>.
\<close>

named_theorems dict_simps \<open>reading a dictionary after an operation on it\<close>
named_theorems wf_intros \<open>well-formedness kept by operations\<close>

type_synonym ('k, 'v) dict = "('k \<times> 'v) list"

abbreviation keys :: "('k, 'v) dict \<Rightarrow> 'k list" where
  "keys d \<equiv> map fst d"

abbreviation dict_ok :: "('k, 'v) dict \<Rightarrow> bool" where
  "dict_ok d \<equiv> distinct (keys d)"

abbreviation dget :: "('k, 'v) dict \<Rightarrow> 'k \<Rightarrow> 'v \<Rightarrow> 'v" where
  "dget d k dflt \<equiv> (case map_of d k of None \<Rightarrow> dflt | Some v \<Rightarrow> v)"

subsection \<open>The dictionary interface\<close>

locale dict_store =
  fixes get :: "'d \<Rightarrow> 'k \<Rightarrow> 'v option"
    and put :: "'k \<Rightarrow> 'v \<Rightarrow> 'd \<Rightarrow> 'd"
    and del :: "'k \<Rightarrow> 'd \<Rightarrow> 'd"
    and ok :: "'d \<Rightarrow> bool"
  assumes get_put: "get (put k v d) = (get d)(k := Some v)"
    and get_del: "get (del k d) = (get d)(k := None)"
    and ok_put: "ok d \<Longrightarrow> ok (put k v d)"
    and ok_del: "ok d \<Longrightarrow> ok (del k d)"
begin

lemma get_put_same: "get (put k v d) k = Some v"
  by (simp add: get_put)

lemma get_put_other: "k' \<noteq> k \<Longrightarrow> get (put k v d) k' = get d k'"
  by (simp add: get_put)

lemma get_del_other: "k' \<noteq> k \<Longrightarrow> get (del k d) k' = get d k'"
  by (simp add: get_del)

lemma get_fold_del: "get (fold del ks d) k = (if k \<in> set ks then None else get d k)"
  by (induction ks arbitrary: d) (auto simp: get_del)

lemma ok_fold_del: "ok d \<Longrightarrow> ok (fold del ks d)"
  by (induction ks arbitrary: d) (auto intro: ok_del)

end

text \<open>The interface with a size, for the bounded stores.\<close>

locale sized_store = dict_store +
  fixes sz :: "'a \<Rightarrow> nat"
  assumes sz_put: "ok d \<Longrightarrow> sz (put k v d) = (if get d k = None then Suc (sz d) else sz d)"
    and sz_del: "ok d \<Longrightarrow> sz (del k d) = (if get d k = None then sz d else sz d - 1)"
begin

lemma sz_put_le: "ok d \<Longrightarrow> sz (put k v d) \<le> Suc (sz d)"
  by (simp add: sz_put)

lemma sz_fold_del_le: "ok d \<Longrightarrow> sz (fold del ks d) \<le> sz d"
proof (induction ks arbitrary: d)
  case Nil
  then show ?case by simp
next
  case (Cons k ks)
  have "sz (fold del ks (del k d)) \<le> sz (del k d)"
    using Cons by (blast intro: ok_del)
  also have "\<dots> \<le> sz d"
    using Cons.prems by (simp add: sz_del)
  finally show ?case by simp
qed

lemma sz_fold_del:
  assumes "ok d" and "distinct ks" and "\<forall>k \<in> set ks. get d k \<noteq> None"
  shows "sz (fold del ks d) = sz d - length ks"
  using assms
proof (induction ks arbitrary: d)
  case Nil
  then show ?case by simp
next
  case (Cons k ks)
  have "\<forall>k' \<in> set ks. get (del k d) k' \<noteq> None"
    using Cons.prems by (auto simp: get_del)
  with Cons have "sz (fold del ks (del k d)) = sz (del k d) - length ks"
    by (auto intro: ok_del)
  with Cons.prems show ?case by (auto simp: sz_del)
qed

end

lemma length_alist_update:
  "length (AList.update k v d) = (if map_of d k = None then Suc (length d) else length d)"
  by (induction d) (auto split: prod.splits)

lemma length_alist_delete:
  "distinct (map fst d) \<Longrightarrow>
   length (AList.delete k d) = (if map_of d k = None then length d else length d - 1)"
proof (induction d)
  case Nil
  then show ?case by simp
next
  case (Cons p d)
  obtain k' v' where p: "p = (k', v')" by (cases p)
  show ?case
  proof (cases "k' = k")
    case True
    with Cons.prems p have "k \<notin> fst ` set d" by simp
    with True p show ?thesis by (simp add: delete_idem)
  next
    case False
    then have "map_of d k \<noteq> None \<Longrightarrow> d \<noteq> []" by auto
    with False Cons p show ?thesis
      by (cases "length d") (auto simp: AList.delete_eq)
  qed
qed

interpretation pd: sized_store map_of AList.update AList.delete "\<lambda>d. distinct (map fst d)" length
  by unfold_locales
    (simp_all add: update_conv' delete_conv' distinct_update distinct_delete
      length_alist_update length_alist_delete del: fun_upd_apply)

lemmas dict_laws [dict_simps] =
  pd.get_put pd.get_del pd.get_fold_del

lemmas dict_ok_laws [wf_intros] =
  pd.ok_put pd.ok_del pd.ok_fold_del

lemma keys_update:
  "keys (AList.update k v d) = (if k \<in> set (keys d) then keys d else keys d @ [k])"
  by (induction d) auto

lemma update_fresh: "k \<notin> set (keys d) \<Longrightarrow> AList.update k v d = d @ [(k, v)]"
  by (induction d) auto

lemma set_keys_dom: "set (keys d) = dom (map_of d)"
  by (simp add: dom_map_of_conv_image_fst)

lemma keys_delete: "keys (AList.delete k d) = filter (\<lambda>k'. k' \<noteq> k) (keys d)"
  by (induction d) auto

lemma fst_image_delete: "fst ` set (AList.delete k d) = fst ` set d - {k}"
  by (auto simp: AList.delete_eq image_iff)

lemma map_of_eq_None_keys: "map_of d k = None \<longleftrightarrow> k \<notin> set (keys d)"
  by (simp add: map_of_eq_None_iff)

lemma map_of_map_key: "map_of (map (\<lambda>(k, v). (k, f k v)) xs) k = map_option (f k) (map_of xs k)"
  by (induction xs) auto

end
