(* ===== verification/Component_Runtime.thy ===== *)
theory Component_Runtime
  imports Prelude
begin

section \<open>The component runtime (src/api/runtime.py, src/api/component.py)\<close>

text \<open>
  Components declare the keys they read (\<open>crequires\<close>) and publish (\<open>cprovides\<close>); the runtime
  orders them, sets them up and replays their disposers in reverse.  What \<open>setup\<close> and a
  disposer do inside a component is outside this file: the outcome of \<open>setup\<close> is the parameter
  \<open>su\<close>, which may depend on the component and on everything that happened before, and
  \<open>rt_log\<close> records the calls the runtime makes to components.
\<close>

record component =
  cname :: string
  crequires :: "string list"
  cprovides :: "string list"

datatype setup_outcome = Raised | Returned "bool" \<comment> \<open>whether a disposer was returned\<close>

datatype rt_event =
    SetUp string
  | SetUpFailed string
  | Disposed string
  | Notified string string \<comment> \<open>dependent, name of the reloaded component\<close>

datatype rt_error =
    AlreadyRegistered string
  | ReservedName string
  | ProvidesReserved string string
  | KeyTaken string string
  | AlreadyStarted
  | NotRegistered string
  | NotActive string
  | UndeclaredDependency string

record runtime =
  components :: "(string, component) dict"
  published :: "(string, string) dict"
  setup_order :: "string list"
  disposers :: "(string, bool) dict" \<comment> \<open>True: a disposer is held, False: None\<close>
  active :: "(string, bool) dict"
  started :: bool
  rt_log :: "rt_event list"

type_synonym setup_fn = "component \<Rightarrow> rt_event list \<Rightarrow> setup_outcome"

definition ROOT_KEYS :: "string list" where
  "ROOT_KEYS = [''config'', ''engine'', ''data_dir'']"

definition new_runtime :: runtime where
  "new_runtime = \<lparr>components = [], published = [], setup_order = [], disposers = [],
     active = [], started = False, rt_log = []\<rparr>"

subsection \<open>Registration\<close>

fun check_provides :: "string \<Rightarrow> (string, string) dict \<Rightarrow> string list \<Rightarrow> rt_error option" where
  "check_provides n pub [] = None"
| "check_provides n pub (k # ks) =
     (if k \<in> set ROOT_KEYS then Some (ProvidesReserved n k)
      else case map_of pub k of
        Some owner \<Rightarrow> Some (KeyTaken k owner)
      | None \<Rightarrow> check_provides n pub ks)"

definition register :: "component \<Rightarrow> runtime \<Rightarrow> rt_error + runtime" where
  "register c rt =
     (if map_of (components rt) (cname c) \<noteq> None then Inl (AlreadyRegistered (cname c))
      else if cname c \<in> set ROOT_KEYS then Inl (ReservedName (cname c))
      else case check_provides (cname c) (published rt) (cprovides c) of
        Some e \<Rightarrow> Inl e
      | None \<Rightarrow> Inr (rt\<lparr>
          components := AList.update (cname c) c (components rt),
          active := AList.update (cname c) False (active rt),
          published := fold (\<lambda>k. AList.update k (cname c)) (cprovides c)
                         (AList.update (cname c) (cname c) (published rt))\<rparr>))"

fun register_all :: "component list \<Rightarrow> runtime \<Rightarrow> rt_error + runtime" where
  "register_all [] rt = Inr rt"
| "register_all (c # cs) rt =
     (case register c rt of Inl e \<Rightarrow> Inl e | Inr rt' \<Rightarrow> register_all cs rt')"

subsection \<open>Resolution\<close>

datatype resolved = RootDep string | Instance component

definition is_active :: "runtime \<Rightarrow> string \<Rightarrow> bool" where
  "is_active rt n = dget (active rt) n False"

definition resolve :: "runtime \<Rightarrow> string \<Rightarrow> rt_error + resolved" where
  "resolve rt k =
     (if k \<in> set ROOT_KEYS then Inr (RootDep k)
      else case map_of (published rt) k of
        None \<Rightarrow> Inl (UndeclaredDependency k)
      | Some owner \<Rightarrow>
          if \<not> is_active rt owner then Inl (UndeclaredDependency k)
          else case map_of (components rt) owner of
            Some c \<Rightarrow> Inr (Instance c)
          | None \<Rightarrow> Inl (NotRegistered owner))"

definition components_list :: "runtime \<Rightarrow> component list" where
  "components_list rt =
     List.map_filter (map_of (components rt)) (setup_order rt) @
     map snd (filter (\<lambda>(n, c). n \<notin> set (setup_order rt)) (components rt))"

text \<open>
  \<open>resolve_service\<close>: the service of the resolved component, or the fallback when there is no
  runtime, the key is not available or reading the service raises (\<open>svc c = None\<close>).
\<close>

definition resolve_service :: "(component \<Rightarrow> 's option) \<Rightarrow> runtime option \<Rightarrow> string \<Rightarrow> 's \<Rightarrow> 's" where
  "resolve_service svc act k fallback =
     (case act of
        None \<Rightarrow> fallback
      | Some rt \<Rightarrow>
          (case resolve rt k of
             Inr (Instance c) \<Rightarrow> (case svc c of Some s \<Rightarrow> s | None \<Rightarrow> fallback)
           | _ \<Rightarrow> fallback))"

subsection \<open>Setting up and disposing one component\<close>

definition setup_one :: "setup_fn \<Rightarrow> component \<Rightarrow> runtime \<Rightarrow> runtime" where
  "setup_one su c rt =
     (case su c (rt_log rt) of
        Returned d \<Rightarrow> rt\<lparr>disposers := AList.update (cname c) d (disposers rt),
                        active := AList.update (cname c) True (active rt),
                        rt_log := rt_log rt @ [SetUp (cname c)]\<rparr>
      | Raised \<Rightarrow> rt\<lparr>disposers := AList.update (cname c) False (disposers rt),
                    active := AList.update (cname c) False (active rt),
                    rt_log := rt_log rt @ [SetUpFailed (cname c)]\<rparr>)"

definition dispose_one :: "string \<Rightarrow> runtime \<Rightarrow> runtime" where
  "dispose_one n rt =
     (let rt' = (if dget (disposers rt) n False then rt\<lparr>rt_log := rt_log rt @ [Disposed n]\<rparr> else rt)
      in rt'\<lparr>disposers := AList.update n False (disposers rt'),
             active := AList.update n False (active rt')\<rparr>)"

definition dependents :: "runtime \<Rightarrow> string \<Rightarrow> component list" where
  "dependents rt n =
     (let pub = n # (case map_of (components rt) n of None \<Rightarrow> [] | Some c \<Rightarrow> cprovides c)
      in filter (\<lambda>c. \<exists>r \<in> set (crequires c). r \<in> set pub) (map snd (components rt)))"

subsection \<open>Start: repeated passes over the pending components\<close>

definition satisfied :: "string list \<Rightarrow> component \<Rightarrow> bool" where
  "satisfied ready c = (\<forall>r \<in> set (crequires c). r \<in> set ready \<or> r \<in> set ROOT_KEYS)"

type_synonym pass_state = "runtime \<times> (string, component) dict \<times> string list \<times> bool"

text \<open>One pass of the inner loop, over the snapshot of the pending names.\<close>

fun start_pass :: "setup_fn \<Rightarrow> (string, component) dict \<Rightarrow> pass_state \<Rightarrow> pass_state" where
  "start_pass su [] st = st"
| "start_pass su ((n, c) # rest) (rt, pending, ready, progressed) =
     (if satisfied ready c then
        let rt' = setup_one su c rt
        in start_pass su rest
             (rt'\<lparr>setup_order := setup_order rt' @ [n]\<rparr>, AList.delete n pending,
              n # cprovides c @ ready, True)
      else start_pass su rest (rt, pending, ready, progressed))"

lemma length_delete_le': "length (AList.delete k d) \<le> length d"
  by (simp add: AList.delete_eq)

lemma start_pass_length:
  "start_pass su snap (rt, p, r, b) = (rt', p', r', b') \<Longrightarrow> length p' \<le> length p"
proof (induction su snap "(rt, p, r, b)" arbitrary: rt p r b rule: start_pass.induct)
  case (2 su n c rest rt p r b)
  then show ?case
    by (auto simp: Let_def split: if_splits intro: order_trans [OF _ length_delete_le'])
qed simp

lemma length_delete_less: "k \<in> set (keys d) \<Longrightarrow> length (AList.delete k d) < length d"
  by (auto simp: AList.delete_eq intro!: length_filter_less)

lemma start_pass_progress:
  assumes "start_pass su snap (rt, p, r, False) = (rt', p', r', True)"
    and "set (keys snap) \<subseteq> set (keys p)"
  shows "length p' < length p"
  using assms
proof (induction su snap "(rt, p, r, False)" arbitrary: rt p r rule: start_pass.induct)
  case (2 su n c rest rt p r)
  show ?case
  proof (cases "satisfied r c")
    case True
    with "2.prems"(1) have "length p' \<le> length (AList.delete n p)"
      by (simp add: Let_def) (erule start_pass_length)
    also have "\<dots> < length p"
      using "2.prems"(2) by (intro length_delete_less) simp
    finally show ?thesis .
  next
    case False
    with 2 show ?thesis by auto
  qed
qed simp

function start_loop ::
  "setup_fn \<Rightarrow> runtime \<times> (string, component) dict \<times> string list
     \<Rightarrow> runtime \<times> (string, component) dict \<times> string list" where
  "start_loop su (rt, pending, ready) =
     (if pending = [] then (rt, pending, ready)
      else case start_pass su pending (rt, pending, ready, False) of
        (rt', pending', ready', progressed) \<Rightarrow>
          if progressed then start_loop su (rt', pending', ready')
          else (rt', pending', ready'))"
  by pat_completeness auto
termination
proof (relation "measure (\<lambda>(su, rt, p, r). length p)", goal_cases)
  case 1
  show ?case by simp
next
  case 2
  then show ?case
    by (auto dest!: sym [of _ "start_pass _ _ _"] intro: start_pass_progress)
qed

declare start_loop.simps [simp del]

definition start :: "setup_fn \<Rightarrow> runtime \<Rightarrow> rt_error + runtime" where
  "start su rt =
     (if started rt then Inl AlreadyStarted
      else case start_loop su (rt, components rt, ROOT_KEYS) of
        (rt', pending, ready) \<Rightarrow>
          Inr (rt'\<lparr>active := fold (\<lambda>n. AList.update n False) (keys pending) (active rt'),
                   started := True\<rparr>))"

definition shutdown :: "runtime \<Rightarrow> runtime" where
  "shutdown rt =
     (let rt' = fold dispose_one (rev (setup_order rt)) rt
      in rt'\<lparr>setup_order := [], disposers := [],
             active := map (\<lambda>(n, a). (n, False)) (active rt'), started := False\<rparr>)"

definition reload :: "setup_fn \<Rightarrow> string \<Rightarrow> runtime \<Rightarrow> rt_error + runtime" where
  "reload su n rt =
     (case map_of (components rt) n of
        None \<Rightarrow> Inl (NotRegistered n)
      | Some c \<Rightarrow>
          if \<not> is_active rt n then Inl (NotActive n)
          else let rt' = setup_one su c (dispose_one n rt)
               in Inr (rt'\<lparr>rt_log := rt_log rt' @
                     map (\<lambda>d. Notified (cname d) n) (dependents rt' n)\<rparr>))"

subsection \<open>What one set-up or disposal changes\<close>

lemma setup_one_frame [simp]:
  "components (setup_one su c rt) = components rt"
  "published (setup_one su c rt) = published rt"
  "setup_order (setup_one su c rt) = setup_order rt"
  "started (setup_one su c rt) = started rt"
  by (simp_all add: setup_one_def split: setup_outcome.split)

lemma dispose_one_frame [simp]:
  "components (dispose_one n rt) = components rt"
  "published (dispose_one n rt) = published rt"
  "setup_order (dispose_one n rt) = setup_order rt"
  "started (dispose_one n rt) = started rt"
  by (simp_all add: dispose_one_def Let_def)

lemma setup_one_active:
  "is_active (setup_one su c rt) n =
     (if n = cname c then su c (rt_log rt) \<noteq> Raised else is_active rt n)"
  by (simp add: setup_one_def is_active_def update_conv' split: setup_outcome.split)

lemma dispose_one_active: "is_active (dispose_one n rt) m = (m \<noteq> n \<and> is_active rt m)"
  by (simp add: dispose_one_def is_active_def update_conv' Let_def)

lemma keys_active_setup:
  "set (keys (active (setup_one su c rt))) = insert (cname c) (set (keys (active rt)))"
  by (simp add: setup_one_def dom_update split: setup_outcome.split)

lemma dispose_one_disposers:
  "dget (disposers (dispose_one n rt)) m False = (m \<noteq> n \<and> dget (disposers rt) m False)"
  by (simp add: dispose_one_def update_conv' Let_def)

lemma dispose_one_log:
  "rt_log (dispose_one n rt) = rt_log rt @ (if dget (disposers rt) n False then [Disposed n] else [])"
  by (simp add: dispose_one_def Let_def)

lemma fold_dispose_frame [simp]:
  "components (fold dispose_one ns rt) = components rt"
  "published (fold dispose_one ns rt) = published rt"
  by (induction ns arbitrary: rt) simp_all

lemma fold_dispose_log:
  "distinct ns \<Longrightarrow> rt_log (fold dispose_one ns rt) =
     rt_log rt @ map Disposed (filter (\<lambda>n. dget (disposers rt) n False) ns)"
proof (induction ns arbitrary: rt)
  case Nil
  then show ?case by simp
next
  case (Cons n ns)
  then have "filter (\<lambda>m. dget (disposers (dispose_one n rt)) m False) ns =
      filter (\<lambda>m. dget (disposers rt) m False) ns"
    by (intro filter_cong) (auto simp: dispose_one_disposers)
  with Cons show ?case by (simp add: dispose_one_log)
qed

subsection \<open>Dependency order\<close>

definition pubs :: "(string, component) dict \<Rightarrow> string list \<Rightarrow> string set" where
  "pubs comps ns = (\<Union>n \<in> set ns. insert n (case map_of comps n of None \<Rightarrow> {} | Some c \<Rightarrow> set (cprovides c)))"

definition supplied :: "(string, component) dict \<Rightarrow> string list \<Rightarrow> component \<Rightarrow> bool" where
  "supplied comps ns c \<longleftrightarrow> set (crequires c) \<subseteq> set ROOT_KEYS \<union> pubs comps ns"

text \<open>Every component of the order finds its requirements published before it.\<close>

definition dep_ordered :: "(string, component) dict \<Rightarrow> string list \<Rightarrow> bool" where
  "dep_ordered comps ns \<longleftrightarrow>
     (\<forall>i < length ns. \<exists>c. map_of comps (ns ! i) = Some c \<and> supplied comps (take i ns) c)"

lemma pubs_simps [simp]:
  "pubs comps [] = {}"
  "pubs comps (ns @ ms) = pubs comps ns \<union> pubs comps ms"
  "pubs comps [n] = insert n (case map_of comps n of None \<Rightarrow> {} | Some c \<Rightarrow> set (cprovides c))"
  by (simp_all add: pubs_def)

lemma dep_ordered_Nil [simp]: "dep_ordered comps []"
  by (simp add: dep_ordered_def)

lemma dep_ordered_snoc:
  "dep_ordered comps ns \<Longrightarrow> map_of comps n = Some c \<Longrightarrow> supplied comps ns c \<Longrightarrow>
   dep_ordered comps (ns @ [n])"
  by (auto simp: dep_ordered_def nth_append less_Suc_eq)

text \<open>The invariant of the loop of \<open>start\<close>.\<close>

definition start_inv :: "runtime \<Rightarrow> runtime \<Rightarrow> (string, component) dict \<Rightarrow> string list \<Rightarrow> bool" where
  "start_inv rt0 rt p r \<longleftrightarrow>
     components rt = components rt0 \<and> published rt = published rt0 \<and> dict_ok p \<and>
     (\<forall>(n, c) \<in> set p. map_of (components rt0) n = Some c \<and> cname c = n) \<and>
     set (keys p) \<union> set (setup_order rt) = set (keys (components rt0)) \<and>
     set (keys p) \<inter> set (setup_order rt) = {} \<and> distinct (setup_order rt) \<and>
     (\<forall>n. is_active rt n \<longrightarrow> n \<in> set (setup_order rt)) \<and>
     set r = set ROOT_KEYS \<union> pubs (components rt0) (setup_order rt) \<and>
     dep_ordered (components rt0) (setup_order rt)"

lemma is_active_order_upd [simp]: "is_active (rt\<lparr>setup_order := x\<rparr>) n = is_active rt n"
  by (simp add: is_active_def)

lemma start_inv_step:
  assumes inv: "start_inv rt0 rt p r" and nc: "(n, c) \<in> set p" and sat: "satisfied r c"
  shows "start_inv rt0 ((setup_one su c rt)\<lparr>setup_order := setup_order rt @ [n]\<rparr>)
           (AList.delete n p) (n # cprovides c @ r)"
proof -
  from nc have n: "n \<in> set (keys p)" by force
  with inv nc have c: "map_of (components rt0) n = Some c" "cname c = n" and fresh: "n \<notin> set (setup_order rt)"
    by (auto simp: start_inv_def)
  from inv sat have sup: "supplied (components rt0) (setup_order rt) c"
    by (auto simp: start_inv_def satisfied_def supplied_def)
  have ord: "dep_ordered (components rt0) (setup_order rt @ [n])"
    using inv c(1) sup by (simp add: start_inv_def dep_ordered_snoc)
  have del: "set (AList.delete n p) \<subseteq> set p" "fst ` set (AList.delete n p) = fst ` set p - {n}"
    by (auto simp: AList.delete_eq fst_image_delete)
  have act: "is_active (setup_one su c rt) m \<Longrightarrow> m = n \<or> m \<in> set (setup_order rt)" for m
    using inv c(2) by (auto simp: start_inv_def setup_one_active split: if_splits)
  have pub: "set (n # cprovides c @ r) = set ROOT_KEYS \<union> pubs (components rt0) (setup_order rt @ [n])"
    using inv c(1) by (auto simp: start_inv_def)
  have "(\<forall>(m, d) \<in> set (AList.delete n p). map_of (components rt0) m = Some d \<and> cname d = m)"
    using inv del(1) by (auto simp: start_inv_def)
  moreover have "fst ` set (AList.delete n p) \<union> set (setup_order rt @ [n]) = fst ` set (components rt0)"
    and "fst ` set (AList.delete n p) \<inter> set (setup_order rt @ [n]) = {}"
    using inv n by (auto simp: start_inv_def del(2))
  ultimately show ?thesis
    using inv ord act pub fresh unfolding start_inv_def
    by (simp add: distinct_delete)
qed

lemma start_pass_inv:
  "start_pass su snap (rt, p, r, b) = (rt', p', r', b') \<Longrightarrow> start_inv rt0 rt p r \<Longrightarrow>
   set snap \<subseteq> set p \<Longrightarrow> dict_ok snap \<Longrightarrow> start_inv rt0 rt' p' r'"
proof (induction su snap "(rt, p, r, b)" arbitrary: rt p r b rule: start_pass.induct)
  case (1 su)
  then show ?case by simp
next
  case (2 su n c rest rt p r b)
  show ?case
  proof (cases "satisfied r c")
    case True
    let ?rt = "(setup_one su c rt)\<lparr>setup_order := setup_order (setup_one su c rt) @ [n]\<rparr>"
    have inv: "start_inv rt0 ?rt (AList.delete n p) (n # cprovides c @ r)"
      using "2.prems" True by (auto intro: start_inv_step)
    have sub: "set rest \<subseteq> set (AList.delete n p)"
      using "2.prems"(3,4) by (force simp: AList.delete_eq)
    from True "2.prems"(1,4) inv sub show ?thesis
      by (intro "2.hyps"(1) [OF True refl]) (simp_all add: Let_def)
  next
    case False
    with 2 show ?thesis by (intro "2.hyps"(2) [OF False]) auto
  qed
qed

text \<open>A pass without progress leaves only components with an unmet requirement.\<close>

lemma start_pass_stuck:
  "start_pass su snap (rt, p, r, False) = (rt', p', r', False) \<Longrightarrow>
   rt' = rt \<and> p' = p \<and> r' = r \<and> (\<forall>(n, c) \<in> set snap. \<not> satisfied r c)"
proof (induction su snap "(rt, p, r, False)" arbitrary: rt p r rule: start_pass.induct)
  case (2 su n c rest rt p r)
  have keep: "start_pass su xs (q, s, t, True) = (rt', p', r', False) \<Longrightarrow> False" for xs q s t
    by (induction su xs "(q, s, t, True)" arbitrary: q s t rule: start_pass.induct)
      (auto simp: Let_def split: if_splits)
  with 2 show ?case by (auto simp: Let_def split: if_splits)
qed simp

lemma start_loop_inv:
  "start_loop su (rt, p, r) = (rt', p', r') \<Longrightarrow> start_inv rt0 rt p r \<Longrightarrow>
   start_inv rt0 rt' p' r' \<and> (\<forall>(n, c) \<in> set p'. \<not> satisfied r' c)"
proof (induction su "(rt, p, r)" arbitrary: rt p r rule: start_loop.induct)
  case (1 su rt p r)
  obtain rt1 p1 r1 b where pass: "start_pass su p (rt, p, r, False) = (rt1, p1, r1, b)"
    by (cases "start_pass su p (rt, p, r, False)")
  consider "p = []" | "p \<noteq> []" "\<not> b" | "p \<noteq> []" "b" by blast
  then show ?case
  proof cases
    case 1
    with "1.prems" show ?thesis by (auto simp: start_loop.simps [of su rt "[]" r])
  next
    case 2
    with "1.prems" pass show ?thesis
      by (auto simp: start_loop.simps [of su rt p r] dest!: start_pass_stuck)
  next
    case 3
    have inv: "start_inv rt0 rt1 p1 r1"
      using start_pass_inv [OF pass "1.prems"(2)] "1.prems"(2) by (simp add: start_inv_def)
    from 3 "1.prems"(1) pass have "start_loop su (rt1, p1, r1) = (rt', p', r')"
      by (simp add: start_loop.simps [of su rt p r])
    with 3 pass inv show ?thesis
      by (intro "1.hyps") auto
  qed
qed

lemma start_inv_init:
  assumes "dict_ok (components rt)" and "\<forall>(n, c) \<in> set (components rt). cname c = n"
    and "setup_order rt = []" and "\<forall>n. \<not> is_active rt n"
  shows "start_inv rt rt (components rt) ROOT_KEYS"
  using assms by (auto simp: start_inv_def)

lemma map_of_fold_update_const:
  "map_of (fold (\<lambda>n. AList.update n v) ns d) k = (if k \<in> set ns then Some v else map_of d k)"
  by (induction ns arbitrary: d) (auto simp: update_conv')

lemma start_result:
  assumes "start su rt = Inr rt'"
  obtains rt1 p r where "start_loop su (rt, components rt, ROOT_KEYS) = (rt1, p, r)"
    and "rt' = rt1\<lparr>active := fold (\<lambda>n. AList.update n False) (keys p) (active rt1), started := True\<rparr>"
    and "\<not> started rt"
  using assms by (auto simp: start_def split: if_splits prod.splits)

lemma start_returns: "\<not> started rt \<Longrightarrow> \<exists>rt'. start su rt = Inr rt'"
  by (simp add: start_def split_def)

subsection \<open>Reachable runtimes\<close>

inductive rt_reach :: "setup_fn \<Rightarrow> runtime \<Rightarrow> bool" for su where
  reach_new: "rt_reach su new_runtime"
| reach_register: "rt_reach su rt \<Longrightarrow> register c rt = Inr rt' \<Longrightarrow> rt_reach su rt'"
| reach_start: "rt_reach su rt \<Longrightarrow> start su rt = Inr rt' \<Longrightarrow> rt_reach su rt'"
| reach_reload: "rt_reach su rt \<Longrightarrow> reload su n rt = Inr rt' \<Longrightarrow> rt_reach su rt'"
| reach_shutdown: "rt_reach su rt \<Longrightarrow> rt_reach su (shutdown rt)"

definition rt_wf :: "runtime \<Rightarrow> bool" where
  "rt_wf rt \<longleftrightarrow>
     dict_ok (components rt) \<and> (\<forall>(n, c) \<in> set (components rt). cname c = n) \<and>
     (\<forall>k owner. map_of (published rt) k = Some owner \<longrightarrow>
        (\<exists>c. map_of (components rt) owner = Some c \<and> (k = owner \<or> k \<in> set (cprovides c)))) \<and>
     distinct (setup_order rt) \<and> set (setup_order rt) \<subseteq> set (keys (components rt)) \<and>
     (\<forall>n. is_active rt n \<longrightarrow> n \<in> set (setup_order rt)) \<and>
     (\<not> started rt \<longrightarrow> setup_order rt = []) \<and>
     dep_ordered (components rt) (setup_order rt)"

lemma register_cases:
  assumes "register c rt = Inr rt'"
  obtains "map_of (components rt) (cname c) = None"
    and "rt' = rt\<lparr>components := AList.update (cname c) c (components rt),
          active := AList.update (cname c) False (active rt),
          published := fold (\<lambda>k. AList.update k (cname c)) (cprovides c)
                         (AList.update (cname c) (cname c) (published rt))\<rparr>"
  using assms by (auto simp: register_def split: if_splits option.splits)

lemma pubs_more:
  assumes "map_of comps n = None"
  shows "pubs comps ms \<subseteq> pubs (AList.update n c comps) ms"
proof -
  have "insert m (case map_of comps m of None \<Rightarrow> {} | Some c \<Rightarrow> set (cprovides c)) \<subseteq>
      insert m (case map_of (AList.update n c comps) m of None \<Rightarrow> {} | Some c \<Rightarrow> set (cprovides c))" for m
    using assms by (cases "m = n") (auto simp: update_conv')
  then show ?thesis unfolding pubs_def by (rule UN_mono [OF subset_refl])
qed

lemma dep_ordered_more:
  assumes ord: "dep_ordered comps ns" and new: "map_of comps n = None"
  shows "dep_ordered (AList.update n c comps) ns"
  unfolding dep_ordered_def
proof (intro allI impI)
  fix i assume "i < length ns"
  with ord obtain d where d: "map_of comps (ns ! i) = Some d" "supplied comps (take i ns) d"
    unfolding dep_ordered_def by blast
  with new have "ns ! i \<noteq> n" by auto
  with d pubs_more [OF new, of "take i ns" c]
  show "\<exists>d. map_of (AList.update n c comps) (ns ! i) = Some d \<and>
          supplied (AList.update n c comps) (take i ns) d"
    by (auto simp: supplied_def update_conv')
qed

lemma rt_wf_register: "rt_wf rt \<Longrightarrow> register c rt = Inr rt' \<Longrightarrow> rt_wf rt'"
proof (erule register_cases)
  assume wf: "rt_wf rt" and new: "map_of (components rt) (cname c) = None"
    and rt': "rt' = rt\<lparr>components := AList.update (cname c) c (components rt),
          active := AList.update (cname c) False (active rt),
          published := fold (\<lambda>k. AList.update k (cname c)) (cprovides c)
                         (AList.update (cname c) (cname c) (published rt))\<rparr>"
  have "is_active rt' n \<Longrightarrow> is_active rt n" for n
    by (auto simp: rt' is_active_def update_conv' split: if_splits)
  moreover have "\<forall>(n, d) \<in> set (AList.update (cname c) c (components rt)). cname d = n"
  proof (clarify)
    fix n d assume "(n, d) \<in> set (AList.update (cname c) c (components rt))"
    then have "map_of (AList.update (cname c) c (components rt)) n = Some d"
      using wf by (auto simp: rt_wf_def intro!: map_of_is_SomeI distinct_update)
    then show "cname d = n"
      using wf by (auto simp: rt_wf_def update_conv' split: if_splits dest: map_of_SomeD)
  qed
  moreover have "\<exists>d. map_of (components rt') ow = Some d \<and> (k = ow \<or> k \<in> set (cprovides d))"
    if "map_of (published rt') k = Some ow" for k ow
  proof (cases "k = cname c \<or> k \<in> set (cprovides c)")
    case True
    with that have "ow = cname c"
      by (auto simp: rt' map_of_fold_update_const update_conv' split: if_splits)
    with True show ?thesis by (auto simp: rt' update_conv')
  next
    case False
    with that have "map_of (published rt) k = Some ow"
      by (simp add: rt' map_of_fold_update_const update_conv')
    with wf obtain d where "map_of (components rt) ow = Some d" "k = ow \<or> k \<in> set (cprovides d)"
      unfolding rt_wf_def by blast
    with new show ?thesis by (intro exI [of _ d]) (auto simp: rt' update_conv')
  qed
  moreover have "dep_ordered (AList.update (cname c) c (components rt)) (setup_order rt)"
    using wf new by (auto simp: rt_wf_def intro: dep_ordered_more)
  ultimately show ?thesis
    using wf unfolding rt_wf_def
    by (simp add: rt' dom_update distinct_update) blast
qed

lemma rt_wf_start:
  assumes wf: "rt_wf rt" and st: "start su rt = Inr rt'"
  obtains p r where "start_inv rt rt' p r" and "\<forall>(n, c) \<in> set p. \<not> satisfied r c"
    and "started rt'"
proof -
  from st obtain rt1 p r where loop: "start_loop su (rt, components rt, ROOT_KEYS) = (rt1, p, r)"
    and rt': "rt' = rt1\<lparr>active := fold (\<lambda>n. AList.update n False) (keys p) (active rt1), started := True\<rparr>"
    and fresh: "\<not> started rt"
    by (rule start_result)
  from wf fresh have "start_inv rt rt (components rt) ROOT_KEYS"
    by (intro start_inv_init) (auto simp: rt_wf_def)
  with loop have *: "start_inv rt rt1 p r" "\<forall>(n, c) \<in> set p. \<not> satisfied r c"
    by (auto dest: start_loop_inv)
  from *(1) have "start_inv rt rt' p r"
    by (auto simp: rt' start_inv_def is_active_def map_of_fold_update_const split: if_splits)
  with *(2) show ?thesis by (intro that) (auto simp: rt')
qed

lemma rt_wf_reload: "rt_wf rt \<Longrightarrow> reload su n rt = Inr rt' \<Longrightarrow> rt_wf rt'"
proof -
  assume wf: "rt_wf rt" and re: "reload su n rt = Inr rt'"
  from re obtain c where c: "map_of (components rt) n = Some c" and act: "is_active rt n"
    and rt': "rt' = (setup_one su c (dispose_one n rt))\<lparr>rt_log := rt_log (setup_one su c (dispose_one n rt)) @
                     map (\<lambda>d. Notified (cname d) n) (dependents (setup_one su c (dispose_one n rt)) n)\<rparr>"
    by (auto simp: reload_def Let_def split: option.splits if_splits)
  from wf c have "cname c = n" by (auto simp: rt_wf_def dest: map_of_SomeD)
  moreover have "is_active rt' m = is_active (setup_one su c (dispose_one n rt)) m" for m
    by (simp add: rt' is_active_def)
  ultimately show "rt_wf rt'"
    using wf act by (auto simp: rt' rt_wf_def setup_one_active dispose_one_active split: if_splits)
qed

lemma rt_wf_shutdown: "rt_wf rt \<Longrightarrow> rt_wf (shutdown rt)"
proof -
  have "map_of (map (\<lambda>(n, a). (n, False)) d) n \<noteq> Some True" for d :: "(string, bool) dict" and n
    by (induction d) auto
  then show "rt_wf rt \<Longrightarrow> rt_wf (shutdown rt)"
    by (auto simp: shutdown_def Let_def rt_wf_def is_active_def split: option.splits)
qed

lemma reach_wf: "rt_reach su rt \<Longrightarrow> rt_wf rt"
proof (induction rule: rt_reach.induct)
  case reach_new
  show ?case by (simp add: rt_wf_def new_runtime_def is_active_def)
next
  case (reach_start rt rt')
  then obtain p r where "start_inv rt rt' p r" "started rt'" by (blast elim: rt_wf_start)
  with reach_start.IH show ?case
    by (auto simp: rt_wf_def start_inv_def)
qed (auto intro: rt_wf_register rt_wf_reload rt_wf_shutdown)

lemma supplied_satisfied:
  "set r = set ROOT_KEYS \<union> pubs comps ns \<Longrightarrow> satisfied r c = supplied comps ns c"
  by (auto simp: satisfied_def supplied_def)

text \<open>The components of the gateway, as \<open>build_runtime\<close> in src/main.py registers them.\<close>

definition lcp_components :: "component list" where
  "lcp_components =
     [\<lparr>cname = ''settings'', crequires = [''engine''], cprovides = [''settings'']\<rparr>,
      \<lparr>cname = ''cost_cache'', crequires = [''engine''], cprovides = [''cost_cache'']\<rparr>,
      \<lparr>cname = ''refresher'', crequires = [''cost_cache'', ''settings''], cprovides = [''refresher'']\<rparr>,
      \<lparr>cname = ''circuit_breaker'', crequires = [''config'', ''engine''], cprovides = [''circuit_breaker'']\<rparr>,
      \<lparr>cname = ''key_manager'', crequires = [''engine'', ''data_dir''], cprovides = [''key_manager'']\<rparr>,
      \<lparr>cname = ''credential_store'', crequires = [''engine'', ''data_dir''], cprovides = [''credential_store'']\<rparr>,
      \<lparr>cname = ''alert_manager'', crequires = [''engine''], cprovides = [''alert_manager'']\<rparr>,
      \<lparr>cname = ''dynamic_router'', crequires = [''engine'', ''settings''], cprovides = [''dynamic_router'']\<rparr>,
      \<lparr>cname = ''memory'', crequires = [''config''], cprovides = [''memory'']\<rparr>,
      \<lparr>cname = ''cost_plugins'', crequires = [''engine''], cprovides = [''cost_plugins'', ''pricing'']\<rparr>,
      \<lparr>cname = ''prompt_cache'', crequires = [], cprovides = [''prompt_cache'']\<rparr>,
      \<lparr>cname = ''token_verifier'', crequires = [], cprovides = [''token_verifier'']\<rparr>,
      \<lparr>cname = ''reasoning_store'', crequires = [], cprovides = [''reasoning_store'']\<rparr>]"

text \<open>Registration in any order succeeds when no key is claimed twice.\<close>

abbreviation claims :: "component \<Rightarrow> string set" where
  "claims c \<equiv> insert (cname c) (set (cprovides c))"

lemma check_provides_None:
  "set ks \<inter> (set ROOT_KEYS \<union> set (keys pub)) = {} \<Longrightarrow> check_provides n pub ks = None"
  by (induction ks) (auto simp: map_of_eq_None_iff [THEN iffD2])

lemma keys_fold_update: "set (keys (fold (\<lambda>k. AList.update k v) ks d)) = set ks \<union> set (keys d)"
  by (induction ks arbitrary: d) (auto simp: dom_update)

lemma register_all_ok:
  assumes "distinct cs" and "\<forall>c \<in> set cs. claims c \<inter> set ROOT_KEYS = {}"
    and "\<forall>c \<in> set cs. \<forall>d \<in> set cs. c \<noteq> d \<longrightarrow> claims c \<inter> claims d = {}"
    and "\<forall>c \<in> set cs. claims c \<inter> (set (keys (published rt)) \<union> set (keys (components rt))) = {}"
  shows "\<exists>rt'. register_all cs rt = Inr rt' \<and>
           components rt' = components rt @ map (\<lambda>c. (cname c, c)) cs \<and> started rt' = started rt"
  using assms
proof (induction cs arbitrary: rt)
  case Nil
  then show ?case by simp
next
  case (Cons c cs)
  from Cons.prems(2,4) have chk: "check_provides (cname c) (published rt) (cprovides c) = None"
    and new: "cname c \<notin> set (keys (components rt))" and nr: "cname c \<notin> set ROOT_KEYS"
    by (auto intro!: check_provides_None)
  obtain rt1 where rt1: "register c rt = Inr rt1" "components rt1 = AList.update (cname c) c (components rt)"
      "set (keys (published rt1)) = claims c \<union> set (keys (published rt))" "started rt1 = started rt"
    using chk new nr
    by (simp add: register_def map_of_eq_None_keys keys_fold_update [unfolded set_map] dom_update)
  have comps: "components rt1 = components rt @ [(cname c, c)]"
    using new by (simp add: rt1(2) update_fresh)
  have "\<forall>d \<in> set cs. claims d \<inter> (set (keys (published rt1)) \<union> set (keys (components rt1))) = {}"
  proof
    fix d assume d: "d \<in> set cs"
    with Cons.prems(1) have "c \<noteq> d" by auto
    with d Cons.prems(3) have "claims c \<inter> claims d = {}" by (meson list.set_intros)
    moreover have "claims d \<inter> (set (keys (published rt)) \<union> set (keys (components rt))) = {}"
      using Cons.prems(4) d by (meson list.set_intros(2))
    moreover have "set (keys (components rt1)) \<subseteq> claims c \<union> set (keys (components rt))"
      by (auto simp: comps)
    ultimately show "claims d \<inter> (set (keys (published rt1)) \<union> set (keys (components rt1))) = {}"
      unfolding rt1(3) by blast
  qed
  moreover have "distinct cs" using Cons.prems(1) by simp
  moreover have "\<forall>c \<in> set cs. claims c \<inter> set ROOT_KEYS = {}"
    using Cons.prems(2) by (meson list.set_intros(2))
  moreover have "\<forall>c \<in> set cs. \<forall>d \<in> set cs. c \<noteq> d \<longrightarrow> claims c \<inter> claims d = {}"
    using Cons.prems(3) by (meson list.set_intros(2))
  ultimately obtain rt' where "register_all cs rt1 = Inr rt'"
      "components rt' = components rt1 @ map (\<lambda>c. (cname c, c)) cs" "started rt' = started rt1"
    using Cons.IH [of rt1] by blast
  with rt1 comps show ?case by simp
qed

lemma reach_register_all: "register_all cs rt = Inr rt' \<Longrightarrow> rt_reach su rt \<Longrightarrow> rt_reach su rt'"
  by (induction cs arbitrary: rt) (auto split: sum.splits intro: reach_register)

lemma pubs_memI:
  "m \<in> set ns \<Longrightarrow> map_of comps m = Some d \<Longrightarrow> q = m \<or> q \<in> set (cprovides d) \<Longrightarrow> q \<in> pubs comps ns"
  unfolding pubs_def by (rule UN_I) auto

text \<open>With a ranking of the dependencies nothing stays pending.\<close>

lemma start_complete:
  assumes reach: "rt_reach su rt" and st: "start su rt = Inr rt'"
    and rank: "\<forall>(n, c) \<in> set (components rt). \<forall>q \<in> set (crequires c). q \<in> set ROOT_KEYS \<or>
      (\<exists>m d. map_of (components rt) m = Some d \<and> (q = m \<or> q \<in> set (cprovides d)) \<and> rank m < (rank n :: nat))"
  shows "set (setup_order rt') = set (keys (components rt))"
proof -
  from reach_wf [OF reach] st obtain p r where inv: "start_inv rt rt' p r"
    and stuck: "\<forall>(n, c) \<in> set p. \<not> satisfied r c" by (rule rt_wf_start)
  have none: "n \<notin> set (keys p)" for n
  proof (induction n rule: measure_induct_rule [of rank])
    case (less n)
    show ?case
    proof
      assume "n \<in> set (keys p)"
      then obtain c where nc: "(n, c) \<in> set p" by auto
      with inv have "(n, c) \<in> set (components rt)"
        by (auto simp: start_inv_def dest: map_of_SomeD)
      with rank have rq: "q \<in> set ROOT_KEYS \<or> (\<exists>m d. map_of (components rt) m = Some d \<and>
          (q = m \<or> q \<in> set (cprovides d)) \<and> rank m < rank n)" if "q \<in> set (crequires c)" for q
        using that by fast
      have "q \<in> set r" if q: "q \<in> set (crequires c)" for q
      proof (cases "q \<in> set ROOT_KEYS")
        case True
        with inv show ?thesis by (simp add: start_inv_def)
      next
        case False
        with rq [OF q] obtain m d where md: "map_of (components rt) m = Some d"
            "q = m \<or> q \<in> set (cprovides d)" "rank m < rank n" by blast
        from md(1) have "m \<in> set (keys (components rt))" by (auto dest: map_of_SomeD simp: rev_image_eqI)
        with less [OF md(3)] inv have "m \<in> set (setup_order rt')"
          unfolding start_inv_def by blast
        then have "q \<in> pubs (components rt) (setup_order rt')"
          using md(1,2) by (rule pubs_memI)
        with inv show ?thesis by (simp add: start_inv_def)
      qed
      then have "satisfied r c" by (simp add: satisfied_def)
      with stuck nc show False by blast
    qed
  qed
  have "set (keys p) = {}" by (rule equals0I) (rule notE [OF none])
  with inv show ?thesis by (simp add: start_inv_def)
qed

subsection \<open>Properties\<close>

text \<open>Two small components for the witnesses: a store, and a user of the store.\<close>

definition demo_store :: component where
  "demo_store = \<lparr>cname = ''store'', crequires = [''engine''], cprovides = [''db'']\<rparr>"

definition demo_user :: component where
  "demo_user = \<lparr>cname = ''user'', crequires = [''db''], cprovides = []\<rparr>"

definition demo_rt :: runtime where
  "demo_rt = (case register_all [demo_user, demo_store] new_runtime of Inr rt \<Rightarrow> rt | Inl _ \<Rightarrow> new_runtime)"

definition demo_started :: runtime where
  "demo_started = (case start (\<lambda>c l. Returned True) demo_rt of Inr rt \<Rightarrow> rt | Inl _ \<Rightarrow> new_runtime)"

lemma demo_registered: "register_all [demo_user, demo_store] new_runtime = Inr demo_rt"
  by code_simp

lemma demo_start: "start (\<lambda>c l. Returned True) demo_rt = Inr demo_started"
  by code_simp

lemma demo_reach: "rt_reach su demo_rt"
  by (rule reach_register_all [OF demo_registered reach_new])

lemma demo_started_reach: "rt_reach (\<lambda>c l. Returned True) demo_started"
  by (rule reach_start [OF demo_reach demo_start])

text \<open>
  C25: whatever the components do when set up, and whatever was registered, started, reloaded or
  shut down before, the set-up order is a dependency order: every component of it finds each key
  it requires among the root keys or among the keys of the components before it.
\<close>

theorem setup_order_respects_dependencies:
  "rt_reach su rt \<Longrightarrow> dep_ordered (components rt) (setup_order rt) \<and>
     distinct (setup_order rt) \<and> (\<forall>n. is_active rt n \<longrightarrow> n \<in> set (setup_order rt))"
  using reach_wf by (auto simp: rt_wf_def)

theorem setup_order_respects_dependencies_witness:
  "dep_ordered (components demo_started) (setup_order demo_started) \<and>
   setup_order demo_started = [''store'', ''user''] \<and> is_active demo_started ''user''"
proof (intro conjI)
  show "dep_ordered (components demo_started) (setup_order demo_started)"
    using setup_order_respects_dependencies [OF demo_started_reach] by blast
  show "setup_order demo_started = [''store'', ''user'']" by code_simp
  show "is_active demo_started ''user''" by code_simp
qed

text \<open>
  Also: start is maximal.  A registered component that start leaves out of the order is inactive
  and has a requirement that no started component publishes (a missing key or a cycle); the
  whole start always returns, so boot never breaks.
\<close>

theorem start_leaves_out_only_unsatisfied:
  assumes "rt_reach su rt" and "\<not> started rt"
  shows "\<exists>rt'. start su rt = Inr rt' \<and> started rt' \<and> (\<forall>(n, c) \<in> set (components rt').
    n \<notin> set (setup_order rt') \<longrightarrow>
      \<not> supplied (components rt') (setup_order rt') c \<and> \<not> is_active rt' n)"
proof -
  obtain rt' where st: "start su rt = Inr rt'"
    using start_returns [OF assms(2)] by blast
  from reach_wf [OF assms(1)] st obtain p r where inv: "start_inv rt rt' p r"
    and stuck: "\<forall>(n, c) \<in> set p. \<not> satisfied r c" and "started rt'" by (rule rt_wf_start)
  have ok: "dict_ok (components rt)" using reach_wf [OF assms(1)] by (simp add: rt_wf_def)
  have "\<not> supplied (components rt') (setup_order rt') c \<and> \<not> is_active rt' n"
    if nc: "(n, c) \<in> set (components rt')" and out: "n \<notin> set (setup_order rt')" for n c
  proof -
    from inv nc have "n \<in> set (keys (components rt))" by (auto simp: start_inv_def rev_image_eqI)
    with inv out have "n \<in> set (keys p)" unfolding start_inv_def by blast
    then obtain d where d: "(n, d) \<in> set p" by auto
    with inv have "map_of (components rt) n = Some d" and "components rt' = components rt"
      unfolding start_inv_def by blast+
    with nc ok have "d = c" by (metis map_of_is_SomeI option.inject)
    with d stuck inv out show ?thesis
      by (auto simp: start_inv_def supplied_satisfied)
  qed
  with st \<open>started rt'\<close> show ?thesis by blast
qed

theorem start_leaves_out_only_unsatisfied_witness:
  "\<exists>rt'. start (\<lambda>c l. Raised) demo_rt = Inr rt' \<and> started rt'"
  using start_leaves_out_only_unsatisfied [OF demo_reach, of "\<lambda>c l. Raised"] demo_start
  by (auto simp: start_def split: if_splits)

definition lcp_rank :: "string \<Rightarrow> nat" where
  "lcp_rank n = (if n \<in> {''refresher'', ''dynamic_router''} then 1 else 0)"

lemma lcp_distinct_claims:
  "list_all (\<lambda>c. cname c \<notin> set ROOT_KEYS \<and> list_all (\<lambda>k. k \<notin> set ROOT_KEYS) (cprovides c)) lcp_components"
  "distinct (concat (map (\<lambda>c. remdups (cname c # cprovides c)) lcp_components))"
  by code_simp+

lemma lcp_ranked:
  "list_all (\<lambda>c. list_all (\<lambda>q. q \<in> set ROOT_KEYS \<or>
     list_ex (\<lambda>d. q = cname d \<and> lcp_rank (cname d) < lcp_rank (cname c)) lcp_components) (crequires c))
   lcp_components"
  by code_simp

lemma distinct_concat_disjoint:
  "distinct (concat (map f cs)) \<Longrightarrow> c \<in> set cs \<Longrightarrow> d \<in> set cs \<Longrightarrow> c \<noteq> d \<Longrightarrow> set (f c) \<inter> set (f d) = {}"
  by (induction cs) auto

text \<open>
  Also: the gateway boots completely whatever the registration order: for every arrangement of its
  thirteen components, registration succeeds and start sets up all of them.
\<close>

theorem gateway_boots_in_any_order:
  assumes "distinct cs" and "set cs = set lcp_components"
  shows "\<exists>rt rt'. register_all cs new_runtime = Inr rt \<and> start su rt = Inr rt' \<and>
           set (setup_order rt') = cname ` set lcp_components"
proof -
  have root: "\<forall>c \<in> set cs. claims c \<inter> set ROOT_KEYS = {}"
    using lcp_distinct_claims(1) by (auto simp: assms(2) list_all_iff)
  have disj: "\<forall>c \<in> set cs. \<forall>d \<in> set cs. c \<noteq> d \<longrightarrow> claims c \<inter> claims d = {}"
  proof (intro ballI impI)
    fix c d assume "c \<in> set cs" "d \<in> set cs" "c \<noteq> d"
    then have "set (remdups (cname c # cprovides c)) \<inter> set (remdups (cname d # cprovides d)) = {}"
      unfolding assms(2) by (rule distinct_concat_disjoint [OF lcp_distinct_claims(2)])
    then show "claims c \<inter> claims d = {}" by (simp only: set_remdups list.set)
  qed
  from register_all_ok [OF assms(1) root disj, of new_runtime] obtain rt where
    reg: "register_all cs new_runtime = Inr rt" and comps: "components rt = map (\<lambda>c. (cname c, c)) cs"
    and fresh: "\<not> started rt" by (auto simp: new_runtime_def)
  have reach: "rt_reach su rt" by (rule reach_register_all [OF reg reach_new])
  obtain rt' where st: "start su rt = Inr rt'"
    using start_returns [OF fresh] by blast
  have ok: "dict_ok (components rt)" using reach_wf [OF reach] by (simp add: rt_wf_def)
  have "q \<in> set ROOT_KEYS \<or> (\<exists>m d. map_of (components rt) m = Some d \<and>
      (q = m \<or> q \<in> set (cprovides d)) \<and> lcp_rank m < lcp_rank n)"
    if nc: "(n, c) \<in> set (components rt)" and q: "q \<in> set (crequires c)" for n c q
  proof (cases "q \<in> set ROOT_KEYS")
    case False
    with nc q obtain d where d: "d \<in> set cs" "q = cname d" "lcp_rank (cname d) < lcp_rank n"
      using lcp_ranked by (auto simp: comps assms(2) list_all_iff list_ex_iff)
    then have "map_of (components rt) (cname d) = Some d"
      using ok by (auto simp: comps intro!: map_of_is_SomeI)
    with d show ?thesis by blast
  qed simp
  then have "\<forall>(n, c) \<in> set (components rt). \<forall>q \<in> set (crequires c). q \<in> set ROOT_KEYS \<or>
      (\<exists>m d. map_of (components rt) m = Some d \<and> (q = m \<or> q \<in> set (cprovides d)) \<and> lcp_rank m < lcp_rank n)"
    by fast
  from start_complete [OF reach st this] show ?thesis
    using reg st by (auto simp: comps assms(2) image_image)
qed

theorem gateway_boots_in_any_order_witness:
  "\<exists>rt rt'. register_all (rev lcp_components) new_runtime = Inr rt \<and>
     start (\<lambda>c l. Returned False) rt = Inr rt' \<and> set (setup_order rt') = cname ` set lcp_components"
proof (rule gateway_boots_in_any_order)
  show "distinct (rev lcp_components)" by code_simp
qed simp

text \<open>
  Also: shutdown calls exactly the disposers that are held, in the reverse of the set-up order, and
  leaves every component inactive and the runtime ready to start again.
\<close>

theorem shutdown_reverses_setup:
  assumes "rt_reach su rt"
  shows "rt_log (shutdown rt) = rt_log rt @
           map Disposed (rev (filter (\<lambda>n. dget (disposers rt) n False) (setup_order rt))) \<and>
         (\<forall>n. \<not> is_active (shutdown rt) n) \<and> setup_order (shutdown rt) = [] \<and> \<not> started (shutdown rt)"
proof -
  have "distinct (setup_order rt)" using reach_wf [OF assms] by (simp add: rt_wf_def)
  moreover have "\<not> is_active (shutdown rt) n" for n
    using rt_wf_shutdown [OF reach_wf [OF assms]] by (auto simp: rt_wf_def shutdown_def Let_def)
  ultimately show ?thesis
    by (simp add: shutdown_def Let_def fold_dispose_log rev_filter is_active_def)
qed

theorem shutdown_reverses_setup_witness:
  "rt_log (shutdown demo_started) =
     [SetUp ''store'', SetUp ''user'', Disposed ''user'', Disposed ''store'']"
proof -
  have "rt_log demo_started @
      map Disposed (rev (filter (\<lambda>n. dget (disposers demo_started) n False) (setup_order demo_started))) =
      [SetUp ''store'', SetUp ''user'', Disposed ''user'', Disposed ''store'']" by code_simp
  with shutdown_reverses_setup [OF demo_started_reach] show ?thesis by simp
qed

text \<open>
  Also: in every reachable runtime a key resolves to a component only when that component is
  registered, active, set up, and is named by the key or declares it among what it provides.
\<close>

theorem resolve_only_active_providers:
  assumes "rt_reach su rt" and "resolve rt k = Inr (Instance c)"
  shows "map_of (components rt) (cname c) = Some c \<and> is_active rt (cname c) \<and>
         cname c \<in> set (setup_order rt) \<and> (k = cname c \<or> k \<in> set (cprovides c))"
proof -
  from assms(2) obtain ow where ow: "map_of (published rt) k = Some ow" "is_active rt ow"
      "map_of (components rt) ow = Some c"
    by (auto simp: resolve_def split: if_splits option.splits)
  from reach_wf [OF assms(1)] have wf: "rt_wf rt" .
  then have "cname c = ow" using ow(3) by (auto simp: rt_wf_def dest: map_of_SomeD)
  moreover from wf ow(1,3) have "k = ow \<or> k \<in> set (cprovides c)"
    unfolding rt_wf_def by (metis option.inject)
  moreover from wf ow(2) have "ow \<in> set (setup_order rt)" unfolding rt_wf_def by blast
  ultimately show ?thesis using ow by simp
qed

theorem resolve_only_active_providers_witness:
  "resolve demo_started ''db'' = Inr (Instance demo_store) \<and> is_active demo_started ''store''"
proof -
  have r: "resolve demo_started ''db'' = Inr (Instance demo_store)" by code_simp
  with resolve_only_active_providers [OF demo_started_reach r] show ?thesis
    by (simp add: demo_store_def)
qed

text \<open>
  Also: a failed set-up does not hold back the dependents.  The keys of a component whose
  \<open>setup\<close> raised still count as ready, so a component that requires them is set up and becomes
  active although its provider is inactive and resolving the key raises.
\<close>

theorem failed_setup_starts_dependents:
  "\<exists>su rt. start su demo_rt = Inr rt \<and> is_active rt ''user'' \<and> \<not> is_active rt ''store'' \<and>
     ''db'' \<in> set (crequires demo_user) \<and> resolve rt ''db'' = Inl (UndeclaredDependency ''db'')"
proof -
  let ?su = "\<lambda>c l. if cname c = ''store'' then Raised else Returned False"
  let ?rt = "case start ?su demo_rt of Inr rt \<Rightarrow> rt | Inl _ \<Rightarrow> new_runtime"
  have "start ?su demo_rt = Inr ?rt" by code_simp
  moreover have "is_active ?rt ''user'' \<and> \<not> is_active ?rt ''store''" by code_simp
  moreover have "''db'' \<in> set (crequires demo_user)" by code_simp
  moreover have "resolve ?rt ''db'' = Inl (UndeclaredDependency ''db'')" by code_simp
  ultimately show ?thesis by blast
qed

text \<open>
  Also: registration accepts a component whose \<^emph>\<open>name\<close> is a key another component provides, and
  silently takes the key over: the first provider is still registered but no longer resolvable
  by that key.
\<close>

theorem register_name_takes_over_key:
  "\<exists>a b rt1 rt2. register a new_runtime = Inr rt1 \<and> register b rt1 = Inr rt2 \<and>
     cname b \<in> set (cprovides a) \<and> map_of (published rt1) (cname b) = Some (cname a) \<and>
     map_of (published rt2) (cname b) = Some (cname b) \<and> cname a \<noteq> cname b"
proof -
  let ?b = "\<lparr>cname = ''db'', crequires = [], cprovides = []\<rparr>"
  let ?rt1 = "case register demo_store new_runtime of Inr rt \<Rightarrow> rt | Inl _ \<Rightarrow> new_runtime"
  let ?rt2 = "case register ?b ?rt1 of Inr rt \<Rightarrow> rt | Inl _ \<Rightarrow> new_runtime"
  have "register demo_store new_runtime = Inr ?rt1" "register ?b ?rt1 = Inr ?rt2"
    "cname ?b \<in> set (cprovides demo_store)" "map_of (published ?rt1) (cname ?b) = Some (cname demo_store)"
    "map_of (published ?rt2) (cname ?b) = Some (cname ?b)" "cname demo_store \<noteq> cname ?b"
    by code_simp+
  then show ?thesis by blast
qed

end
