(* ===== verification/Exceptions.thy ===== *)
theory Exceptions
  imports Json_Values
begin

section \<open>The exception hierarchy (src/api/exceptions.py)\<close>

text \<open>
  Every exception class carries a stable code, an HTTP status and, for two of them, a fixed text
  for the client that replaces the message it was raised with.
\<close>

datatype exn_class =
    LCPError | ConfigError | AuthError | ForbiddenError | CreditExhaustedError | ProviderError
  | ProviderTimeoutError | ProviderRateLimitError | ProviderAuthError | ProviderCreditsError
  | ProviderBadRequestError | ProviderInternalError | AllProvidersFailedError | ToolBlockedError
  | RequestTooLargeError

record lcp_exn =
  exn_cls :: exn_class
  exn_msg :: string
  exn_details :: obj

fun class_name :: "exn_class \<Rightarrow> string" where
  "class_name LCPError = ''LCPError''"
| "class_name ConfigError = ''ConfigError''"
| "class_name AuthError = ''AuthError''"
| "class_name ForbiddenError = ''ForbiddenError''"
| "class_name CreditExhaustedError = ''CreditExhaustedError''"
| "class_name ProviderError = ''ProviderError''"
| "class_name ProviderTimeoutError = ''ProviderTimeoutError''"
| "class_name ProviderRateLimitError = ''ProviderRateLimitError''"
| "class_name ProviderAuthError = ''ProviderAuthError''"
| "class_name ProviderCreditsError = ''ProviderCreditsError''"
| "class_name ProviderBadRequestError = ''ProviderBadRequestError''"
| "class_name ProviderInternalError = ''ProviderInternalError''"
| "class_name AllProvidersFailedError = ''AllProvidersFailedError''"
| "class_name ToolBlockedError = ''ToolBlockedError''"
| "class_name RequestTooLargeError = ''RequestTooLargeError''"

text \<open>The direct base class.\<close>

fun base_class :: "exn_class \<Rightarrow> exn_class option" where
  "base_class LCPError = None"
| "base_class ProviderTimeoutError = Some ProviderError"
| "base_class ProviderRateLimitError = Some ProviderError"
| "base_class ProviderAuthError = Some ProviderError"
| "base_class ProviderCreditsError = Some ProviderError"
| "base_class ProviderBadRequestError = Some ProviderError"
| "base_class ProviderInternalError = Some ProviderError"
| "base_class _ = Some LCPError"

fun exn_code :: "exn_class \<Rightarrow> string" where
  "exn_code LCPError = ''LCP-0000''"
| "exn_code ConfigError = ''LCP-4001''"
| "exn_code AuthError = ''LCP-1001''"
| "exn_code ForbiddenError = ''LCP-1003''"
| "exn_code CreditExhaustedError = ''LCP-1002''"
| "exn_code ProviderError = ''LCP-2000''"
| "exn_code ProviderTimeoutError = ''LCP-2001''"
| "exn_code ProviderRateLimitError = ''LCP-2002''"
| "exn_code ProviderAuthError = ''LCP-2003''"
| "exn_code ProviderCreditsError = ''LCP-2006''"
| "exn_code ProviderBadRequestError = ''LCP-2004''"
| "exn_code ProviderInternalError = ''LCP-2005''"
| "exn_code AllProvidersFailedError = ''LCP-3001''"
| "exn_code ToolBlockedError = ''LCP-4002''"
| "exn_code RequestTooLargeError = ''LCP-4003''"

fun status_code :: "exn_class \<Rightarrow> nat" where
  "status_code LCPError = 500"
| "status_code ConfigError = 500"
| "status_code AuthError = 401"
| "status_code ForbiddenError = 403"
| "status_code CreditExhaustedError = 429"
| "status_code ProviderError = 502"
| "status_code ProviderTimeoutError = 504"
| "status_code ProviderRateLimitError = 429"
| "status_code ProviderAuthError = 502"
| "status_code ProviderCreditsError = 402"
| "status_code ProviderBadRequestError = 400"
| "status_code ProviderInternalError = 502"
| "status_code AllProvidersFailedError = 502"
| "status_code ToolBlockedError = 403"
| "status_code RequestTooLargeError = 413"

fun client_message :: "exn_class \<Rightarrow> string option" where
  "client_message AllProvidersFailedError =
     Some ''All configured providers failed to fulfill the request. Please try again shortly.''"
| "client_message RequestTooLargeError =
     Some (''Request is too large for any model in this profile'' @ [CHR 0x27] @
       ''s context window. Compact or shorten the conversation and retry.'')"
| "client_message _ = None"

definition to_dict :: "lcp_exn \<Rightarrow> obj" where
  "to_dict e =
     (let message = (case client_message (exn_cls e) of
            Some m \<Rightarrow> m
          | None \<Rightarrow> if exn_msg e = [] then class_name (exn_cls e) else exn_msg e);
          payload = [(''code'', JStr (exn_code (exn_cls e))), (''message'', JStr message)]
      in if exn_details e \<noteq> [] then AList.update ''details'' (JObj (exn_details e)) payload else payload)"

lemma exn_code_inject: "exn_code a = exn_code b \<longleftrightarrow> a = b"
  by (cases a; cases b) simp_all

lemma class_name_inject: "class_name a = class_name b \<longleftrightarrow> a = b"
  by (cases a; cases b) simp_all

lemma to_dict_code: "map_of (to_dict e) ''code'' = Some (JStr (exn_code (exn_cls e)))"
  by (simp add: to_dict_def Let_def update_conv')

subsection \<open>Properties\<close>

text \<open>
  Also: the payload a client sees determines the exception class (the codes are pairwise
  different) and, for the two classes with a client text, nothing of the message the exception
  was raised with: provider names and failure details stay in the gateway.
\<close>

theorem payload_identifies_class_hides_message:
  "(map_of (to_dict e) ''code'' = map_of (to_dict e') ''code'' \<longleftrightarrow> exn_cls e = exn_cls e') \<and>
   (client_message (exn_cls e) = None \<or>
     to_dict (e\<lparr>exn_msg := m\<rparr>) = to_dict (e\<lparr>exn_msg := m'\<rparr>)) \<and>
   (map_of (to_dict e) ''message'' \<noteq> Some (JStr []))"
proof (intro conjI)
  show "map_of (to_dict e) ''code'' = map_of (to_dict e') ''code'' \<longleftrightarrow> exn_cls e = exn_cls e'"
    by (simp add: to_dict_code exn_code_inject)
  show "client_message (exn_cls e) = None \<or>
     to_dict (e\<lparr>exn_msg := m\<rparr>) = to_dict (e\<lparr>exn_msg := m'\<rparr>)"
    by (cases "client_message (exn_cls e)") (simp_all add: to_dict_def Let_def)
  show "map_of (to_dict e) ''message'' \<noteq> Some (JStr [])"
    by (cases "exn_cls e") (auto simp: to_dict_def Let_def update_conv')
qed

end
