(* ===== verification/Circuit_Breaker.thy ===== *)
theory Circuit_Breaker
  imports Prelude
begin

section \<open>The circuit breaker (src/api/circuit_breaker.py)\<close>

text \<open>
  One health entry per (provider, base URL, profile).  The clock is an argument (\<open>now\<close>, seconds)
  and the ISO text of a time is represented by the time itself.  The optional engine is the
  \<open>provider_health\<close> table and the fail-over log; \<open>db_up = False\<close> stands for a database on which
  every session raises, which the breaker swallows.
\<close>

datatype status = Healthy | Degraded | Dead

text \<open>Statuses are ordered by severity.\<close>

fun severity :: "status \<Rightarrow> nat" where
  "severity Healthy = 0"
| "severity Degraded = 1"
| "severity Dead = 2"

lemma severity_inject: "severity s = severity s' \<longleftrightarrow> s = s'"
  by (cases s; cases s') simp_all

instantiation status :: linorder
begin

definition less_eq_status :: "status \<Rightarrow> status \<Rightarrow> bool" where
  "s \<le> s' \<longleftrightarrow> severity s \<le> severity s'"

definition less_status :: "status \<Rightarrow> status \<Rightarrow> bool" where
  "s < s' \<longleftrightarrow> severity s < severity s'"

instance
  by intro_classes (auto simp: less_eq_status_def less_status_def simp flip: severity_inject)

end

type_synonym hkey = "string \<times> string \<times> string" \<comment> \<open>provider, base URL, profile\<close>

record health =
  consecutive_failures :: int
  last_failure :: "real option"
  last_failure_reason :: "string option"
  last_success :: "real option"
  hstatus :: status
  tripped_until :: "real option"
  manual_override :: "status option"

text \<open>A row of the table; the two columns the loader defaults may be NULL.\<close>

record health_row =
  row_failures :: "int option"
  row_last_failure :: "real option"
  row_last_failure_reason :: "string option"
  row_last_success :: "real option"
  row_status :: "status option"
  row_tripped_until :: "real option"
  row_manual_override :: "status option"
  row_updated_at :: real

record failover =
  fo_profile :: string
  fo_from :: string
  fo_to :: string
  fo_reason :: string
  fo_error :: "string option"
  fo_request :: "int option"

record health_db =
  db_up :: bool
  db_rows :: "(hkey, health_row) dict"
  db_failovers :: "failover list"

record breaker =
  entries :: "(hkey, health) dict"
  engine :: "health_db option"

record cb_config =
  failures_degraded :: int
  failures_dead :: int
  degraded_cooldown :: real
  dead_cooldown :: real

definition new_breaker :: breaker where
  "new_breaker = \<lparr>entries = [], engine = None\<rparr>"

definition ERROR_WEIGHTS :: "(string, int) dict" where
  "ERROR_WEIGHTS = [(''ProviderAuthError'', 3), (''ProviderCreditsError'', 3), (''ProviderTimeoutError'', 1),
     (''ProviderRateLimitError'', 1), (''ProviderInternalError'', 1), (''ProviderBadRequestError'', 1)]"

definition error_weight :: "string option \<Rightarrow> int" where
  "error_weight et = dget ERROR_WEIGHTS (case et of None \<Rightarrow> [] | Some t \<Rightarrow> t) 1"

subsection \<open>Persistence\<close>

definition of_row :: "health_row \<Rightarrow> health" where
  "of_row r = \<lparr>consecutive_failures = (case row_failures r of None \<Rightarrow> 0 | Some n \<Rightarrow> n),
     last_failure = row_last_failure r, last_failure_reason = row_last_failure_reason r,
     last_success = row_last_success r,
     hstatus = (case row_status r of None \<Rightarrow> Healthy | Some s \<Rightarrow> s),
     tripped_until = row_tripped_until r, manual_override = row_manual_override r\<rparr>"

definition to_row :: "real \<Rightarrow> health \<Rightarrow> health_row" where
  "to_row now h = \<lparr>row_failures = Some (consecutive_failures h), row_last_failure = last_failure h,
     row_last_failure_reason = last_failure_reason h, row_last_success = last_success h,
     row_status = Some (hstatus h), row_tripped_until = tripped_until h,
     row_manual_override = manual_override h, row_updated_at = now\<rparr>"

definition load_health :: "breaker \<Rightarrow> breaker" where
  "load_health b = (case engine b of
      None \<Rightarrow> b
    | Some d \<Rightarrow>
        if db_up d
        then b\<lparr>entries := fold (\<lambda>(k, r). AList.update k (of_row r)) (db_rows d) (entries b)\<rparr>
        else b)"

definition attach_engine :: "health_db \<Rightarrow> breaker \<Rightarrow> breaker" where
  "attach_engine d b = load_health (b\<lparr>engine := Some d\<rparr>)"

definition persist :: "real \<Rightarrow> hkey \<Rightarrow> breaker \<Rightarrow> breaker" where
  "persist now k b = (case engine b of
      None \<Rightarrow> b
    | Some d \<Rightarrow>
        (case map_of (entries b) k of
           None \<Rightarrow> b
         | Some h \<Rightarrow>
             if db_up d
             then b\<lparr>engine := Some (d\<lparr>db_rows := AList.update k (to_row now h) (db_rows d)\<rparr>)\<rparr>
             else b))"

subsection \<open>Reading health\<close>

definition default_health :: health where
  "default_health = \<lparr>consecutive_failures = 0, last_failure = None, last_failure_reason = None,
     last_success = None, hstatus = Healthy, tripped_until = None, manual_override = None\<rparr>"

definition get_health :: "hkey \<Rightarrow> breaker \<Rightarrow> health \<times> breaker" where
  "get_health k b = (case map_of (entries b) k of
      Some h \<Rightarrow> (h, b)
    | None \<Rightarrow> (default_health, b\<lparr>entries := AList.update k default_health (entries b)\<rparr>))"

definition peek :: "hkey \<Rightarrow> breaker \<Rightarrow> health" where
  "peek k b = (case map_of (entries b) k of None \<Rightarrow> default_health | Some h \<Rightarrow> h)"

definition status_of :: "hkey \<Rightarrow> breaker \<Rightarrow> status" where
  "status_of k b = (if fst k = [] then Healthy else hstatus (peek k b))"

text \<open>Storing a changed entry: the Python code mutates the dictionary entry in place.\<close>

definition set_entry :: "hkey \<Rightarrow> health \<Rightarrow> breaker \<Rightarrow> breaker" where
  "set_entry k h b = b\<lparr>entries := AList.update k h (entries b)\<rparr>"

definition promote :: "real \<Rightarrow> hkey \<Rightarrow> status \<Rightarrow> breaker \<Rightarrow> breaker" where
  "promote now k s b =
     persist now k (set_entry k ((peek k b)\<lparr>hstatus := s, tripped_until := None\<rparr>) b)"

definition is_available :: "real \<Rightarrow> hkey \<Rightarrow> breaker \<Rightarrow> bool \<times> breaker" where
  "is_available now k b =
     (if fst k = [] then (True, b)
      else let h = peek k b in
        if hstatus h = Healthy then (True, b)
        else if (case tripped_until h of None \<Rightarrow> False | Some t \<Rightarrow> t \<le> now)
        then (if hstatus h = Dead then (True, promote now k Degraded b)
              else (True, promote now k Healthy b))
        else if hstatus h = Degraded \<and> tripped_until h = None then (True, b)
        else (False, b))"

subsection \<open>Recording outcomes\<close>

definition record_success :: "real \<Rightarrow> hkey \<Rightarrow> breaker \<Rightarrow> breaker" where
  "record_success now k b =
     (let (h, b1) = get_health k b;
          h' = h\<lparr>hstatus := Healthy, consecutive_failures := 0, last_success := Some now,
                 tripped_until := None, last_failure_reason := None, manual_override := None\<rparr>
      in persist now k (set_entry k h' b1))"

definition record_failure ::
  "cb_config \<Rightarrow> real \<Rightarrow> hkey \<Rightarrow> string option \<Rightarrow> string option \<Rightarrow> breaker \<Rightarrow> breaker" where
  "record_failure cfg now k error_type reason b =
     (let (h, b1) = get_health k b;
          n = consecutive_failures h + error_weight error_type;
          h1 = h\<lparr>consecutive_failures := n, last_failure := Some now,
                 last_failure_reason := (case reason of
                     Some (c # cs) \<Rightarrow> Some (c # cs) | _ \<Rightarrow> last_failure_reason h)\<rparr>;
          h2 = (if failures_dead cfg \<le> n
                then h1\<lparr>hstatus := Dead, tripped_until := Some (now + dead_cooldown cfg)\<rparr>
                else if failures_degraded cfg \<le> n
                then h1\<lparr>hstatus := Degraded, tripped_until := Some (now + degraded_cooldown cfg)\<rparr>
                else h1)
      in persist now k (set_entry k h2 b1))"

definition forget_provider :: "string \<Rightarrow> breaker \<Rightarrow> nat \<times> breaker" where
  "forget_provider p b =
     (let in_memory = filter (\<lambda>k. fst k = p) (keys (entries b));
          b1 = b\<lparr>entries := fold AList.delete in_memory (entries b)\<rparr>
      in case engine b1 of
           None \<Rightarrow> (length in_memory, b1)
         | Some d \<Rightarrow>
             if \<not> db_up d then (length in_memory, b1)
             else let n = length (filter (\<lambda>(k, r). fst k = p) (db_rows d));
                      d' = d\<lparr>db_rows := filter (\<lambda>(k, r). fst k \<noteq> p) (db_rows d)\<rparr>
                  in (max n (length in_memory), b1\<lparr>engine := Some d'\<rparr>))"

definition reset :: "real \<Rightarrow> hkey \<Rightarrow> breaker \<Rightarrow> breaker" where
  "reset now k b =
     (let (h, b1) = get_health k b;
          h' = h\<lparr>hstatus := Healthy, consecutive_failures := 0, last_failure := None,
                 last_failure_reason := None, tripped_until := None, manual_override := None\<rparr>
      in persist now k (set_entry k h' b1))"

text \<open>An unknown action raises after the entry was created: the state changes anyway.\<close>

datatype action_error = UnknownAction string

definition force_status ::
  "cb_config \<Rightarrow> real \<Rightarrow> hkey \<Rightarrow> string \<Rightarrow> breaker \<Rightarrow> (action_error + status) \<times> breaker" where
  "force_status cfg now k action b =
     (let (h, b1) = get_health k b in
      if action = ''degrade'' then
        (Inr Degraded, persist now k (set_entry k (h\<lparr>hstatus := Degraded,
            tripped_until := Some (now + degraded_cooldown cfg), manual_override := Some Degraded\<rparr>) b1))
      else if action = ''kill'' then
        (Inr Dead, persist now k (set_entry k (h\<lparr>hstatus := Dead, tripped_until := None,
            manual_override := Some Dead\<rparr>) b1))
      else if action = ''resume'' then
        (Inr Healthy, persist now k (set_entry k (h\<lparr>hstatus := Healthy, consecutive_failures := 0,
            last_failure := None, last_failure_reason := None, tripped_until := None,
            manual_override := None\<rparr>) b1))
      else (Inl (UnknownAction action), b1))"

definition record_failover :: "failover \<Rightarrow> breaker \<Rightarrow> breaker" where
  "record_failover f b = (case engine b of
      None \<Rightarrow> b
    | Some d \<Rightarrow> if db_up d then b\<lparr>engine := Some (d\<lparr>db_failovers := db_failovers d @ [f]\<rparr>)\<rparr> else b)"

record breaker_stats =
  st_total :: nat
  st_healthy :: nat
  st_degraded :: nat
  st_dead :: nat

definition stats :: "breaker \<Rightarrow> breaker_stats" where
  "stats b = (let hs = map snd (entries b);
       count = (\<lambda>s. length (filter (\<lambda>h. hstatus h = s) hs))
     in \<lparr>st_total = length (entries b), st_healthy = count Healthy, st_degraded = count Degraded,
         st_dead = count Dead\<rparr>)"

subsection \<open>The dispatcher: one event on one key\<close>

text \<open>
  The calls clients make on one key, as events, so that histories are lists of events.
\<close>

datatype event =
    Probe
  | Success
  | Failure "string option" "string option"
  | Reset
  | Force string

definition cb_exec :: "cb_config \<Rightarrow> real \<Rightarrow> hkey \<Rightarrow> event \<Rightarrow> breaker \<Rightarrow> breaker" where
  "cb_exec cfg now k e b = (case e of
      Probe \<Rightarrow> snd (is_available now k b)
    | Success \<Rightarrow> record_success now k b
    | Failure t r \<Rightarrow> record_failure cfg now k t r b
    | Reset \<Rightarrow> reset now k b
    | Force a \<Rightarrow> snd (force_status cfg now k a b))"

text \<open>A history: time, key and event of each call, oldest first.\<close>

definition cb_run :: "cb_config \<Rightarrow> (real \<times> hkey \<times> event) list \<Rightarrow> breaker \<Rightarrow> breaker" where
  "cb_run cfg h b = fold (\<lambda>(t, k, e). cb_exec cfg t k e) h b"

subsection \<open>Abstract specification: the health ladder of a single provider\<close>

text \<open>
  What the breaker promises about one key, with no dictionary and no database: a function on one
  health value.  The refinement theorem below shows that the breaker is one independent ladder
  per key.
\<close>

definition expired :: "real \<Rightarrow> health \<Rightarrow> bool" where
  "expired now h = (case tripped_until h of None \<Rightarrow> False | Some t \<Rightarrow> t \<le> now)"

definition ladder_open :: "real \<Rightarrow> health \<Rightarrow> bool" where
  "ladder_open now h = (case hstatus h of
      Healthy \<Rightarrow> True
    | Degraded \<Rightarrow> tripped_until h = None \<or> expired now h
    | Dead \<Rightarrow> expired now h)"

definition cleared :: "health \<Rightarrow> health" where
  "cleared h = h\<lparr>hstatus := Healthy, consecutive_failures := 0, last_failure_reason := None,
     tripped_until := None, manual_override := None\<rparr>"

definition fail_status :: "cb_config \<Rightarrow> int \<Rightarrow> status \<Rightarrow> status" where
  "fail_status cfg n s =
     (if failures_dead cfg \<le> n then Dead else if failures_degraded cfg \<le> n then Degraded else s)"

definition fail_until :: "cb_config \<Rightarrow> real \<Rightarrow> int \<Rightarrow> real option \<Rightarrow> real option" where
  "fail_until cfg now n t =
     (if failures_dead cfg \<le> n then Some (now + dead_cooldown cfg)
      else if failures_degraded cfg \<le> n then Some (now + degraded_cooldown cfg) else t)"

definition ladder :: "cb_config \<Rightarrow> real \<Rightarrow> event \<Rightarrow> health \<Rightarrow> health" where
  "ladder cfg now e h = (case e of
      Probe \<Rightarrow>
        if hstatus h \<noteq> Healthy \<and> expired now h
        then h\<lparr>hstatus := (if hstatus h = Dead then Degraded else Healthy), tripped_until := None\<rparr>
        else h
    | Success \<Rightarrow> (cleared h)\<lparr>last_success := Some now\<rparr>
    | Failure t r \<Rightarrow>
        (let n = consecutive_failures h + error_weight t in
         h\<lparr>consecutive_failures := n, last_failure := Some now,
           last_failure_reason := (if r = None \<or> r = Some [] then last_failure_reason h else r),
           hstatus := fail_status cfg n (hstatus h),
           tripped_until := fail_until cfg now n (tripped_until h)\<rparr>)
    | Reset \<Rightarrow> (cleared h)\<lparr>last_failure := None\<rparr>
    | Force a \<Rightarrow>
        if a = ''degrade'' then h\<lparr>hstatus := Degraded,
          tripped_until := Some (now + degraded_cooldown cfg), manual_override := Some Degraded\<rparr>
        else if a = ''kill'' then h\<lparr>hstatus := Dead, tripped_until := None, manual_override := Some Dead\<rparr>
        else if a = ''resume'' then (cleared h)\<lparr>last_failure := None\<rparr>
        else h)"

subsection \<open>How each operation reads and writes the dictionary\<close>

named_theorems cb_simps \<open>entries and rows after a breaker operation\<close>

lemma entries_persist [cb_simps]: "entries (persist now k b) = entries b"
  by (simp add: persist_def split: option.split)

lemma peek_set_entry [cb_simps]: "peek k' (set_entry k h b) = (if k' = k then h else peek k' b)"
  by (simp add: peek_def set_entry_def dict_simps)

lemma peek_persist [cb_simps]: "peek k' (persist now k b) = peek k' b"
  by (simp add: peek_def entries_persist)

lemma fst_get_health [cb_simps]: "fst (get_health k b) = peek k b"
  by (simp add: get_health_def peek_def split: option.split)

lemma peek_get_health [cb_simps]: "peek k' (snd (get_health k b)) = peek k' b"
  by (simp add: get_health_def peek_def dict_simps split: option.split)

lemma engine_get_health [cb_simps]: "engine (snd (get_health k b)) = engine b"
  by (simp add: get_health_def split: option.split)

lemma set_entry_get_health [cb_simps]: "set_entry k h (snd (get_health k b)) = set_entry k h b"
  by (simp add: get_health_def set_entry_def split: option.split)

text \<open>Every writing operation is: compute the new entry, store it, persist it.\<close>

definition store :: "real \<Rightarrow> hkey \<Rightarrow> health \<Rightarrow> breaker \<Rightarrow> breaker" where
  "store now k h b = persist now k (set_entry k h b)"

lemma peek_store [cb_simps]: "peek k' (store now k h b) = (if k' = k then h else peek k' b)"
  by (simp add: store_def cb_simps)

lemma record_success_store:
  "record_success now k b = store now k (ladder cfg now Success (peek k b)) b"
  by (cases "peek k b") (simp add: record_success_def store_def ladder_def cleared_def case_prod_beta cb_simps)

lemma reset_store: "reset now k b = store now k (ladder cfg now Reset (peek k b)) b"
  by (cases "peek k b") (simp add: reset_def store_def ladder_def cleared_def case_prod_beta cb_simps)

lemma reason_case:
  "(case r of Some (c # cs) \<Rightarrow> Some (c # cs) | _ \<Rightarrow> x) = (if r = None \<or> r = Some [] then x else r)"
  by (simp split: option.split list.split)

lemma record_failure_store:
  "record_failure cfg now k t r b = store now k (ladder cfg now (Failure t r) (peek k b)) b"
  unfolding record_failure_def ladder_def store_def
  by (simp add: case_prod_beta cb_simps reason_case Let_def fail_status_def fail_until_def)

lemma force_status_store:
  "snd (force_status cfg now k a b) =
     (if a \<in> {''degrade'', ''kill'', ''resume''}
      then store now k (ladder cfg now (Force a) (peek k b)) b else snd (get_health k b))"
  unfolding force_status_def ladder_def store_def
  by (cases "peek k b") (simp add: case_prod_beta cb_simps cleared_def)

lemma is_available_store:
  "is_available now k b =
     (if fst k = [] then (True, b)
      else (ladder_open now (peek k b),
            if hstatus (peek k b) \<noteq> Healthy \<and> expired now (peek k b)
            then store now k (ladder cfg now Probe (peek k b)) b else b))"
  unfolding is_available_def ladder_def store_def promote_def ladder_open_def expired_def
  by (cases "hstatus (peek k b)"; cases "tripped_until (peek k b)") (simp_all add: Let_def)

lemma cb_exec_cases:
  assumes "fst k \<noteq> []"
  obtains "cb_exec cfg now k e b = store now k (ladder cfg now e (peek k b)) b"
  | "cb_exec cfg now k e b = b" and "ladder cfg now e (peek k b) = peek k b"
  | a where "e = Force a" and "cb_exec cfg now k e b = snd (get_health k b)"
      and "ladder cfg now e (peek k b) = peek k b"
proof (cases e)
  case Probe
  show ?thesis
  proof (cases "hstatus (peek k b) \<noteq> Healthy \<and> expired now (peek k b)")
    case True
    then show ?thesis
      using that(1) assms Probe
      by (simp add: cb_exec_def is_available_store[of now k b cfg])
  next
    case False
    with assms Probe have "cb_exec cfg now k e b = b"
      by (auto simp: cb_exec_def is_available_store[of now k b cfg])
    moreover have "ladder cfg now e (peek k b) = peek k b"
      unfolding Probe ladder_def using False by (simp only: event.case if_False)
    ultimately show ?thesis by (rule that(2))
  qed
next
  case Success
  then show ?thesis
    using that(1) by (simp add: cb_exec_def record_success_store[of _ _ _ cfg])
next
  case (Failure t r)
  then show ?thesis
    using that(1) by (simp add: cb_exec_def record_failure_store)
next
  case Reset
  then show ?thesis
    using that(1) by (simp add: cb_exec_def reset_store[of _ _ _ cfg])
next
  case (Force a)
  show ?thesis
  proof (cases "a \<in> {''degrade'', ''kill'', ''resume''}")
    case True
    then show ?thesis using that(1) Force by (simp add: cb_exec_def force_status_store)
  next
    case False
    then show ?thesis
      using that(3) Force by (simp add: cb_exec_def force_status_store) (simp add: ladder_def)
  qed
qed

lemma ladder_Force_unknown:
  "a \<notin> {''degrade'', ''kill'', ''resume''} \<Longrightarrow> ladder cfg now (Force a) h = h"
  by (simp add: ladder_def)

lemma peek_cb_exec:
  assumes "fst k' \<noteq> []"
  shows "peek k' (cb_exec cfg now k e b) = (if k = k' then ladder cfg now e (peek k' b) else peek k' b)"
proof (cases "fst k = []")
  case True
  then show ?thesis
    using assms
    by (cases e) (auto simp: cb_exec_def is_available_def record_success_store[of _ _ _ cfg]
        record_failure_store reset_store[of _ _ _ cfg] force_status_store cb_simps)
next
  case False
  then show ?thesis by (rule cb_exec_cases[of k cfg now e b]) (auto simp: cb_simps)
qed

lemma cb_run_simps [simp]:
  "cb_run cfg [] b = b"
  "cb_run cfg ((t, k, e) # h) b = cb_run cfg h (cb_exec cfg t k e b)"
  "cb_run cfg (h @ h') b = cb_run cfg h' (cb_run cfg h b)"
  by (simp_all add: cb_run_def)

lemma breaker_entry_run:
  assumes "fst k \<noteq> []"
  shows "peek k (cb_run cfg h b) =
    fold (\<lambda>(t, k', e). ladder cfg t e) (filter (\<lambda>(t, k', e). k' = k) h) (peek k b)"
  using assms
proof (induction h arbitrary: b)
  case Nil
  then show ?case by simp
next
  case (Cons c h)
  obtain t k' e where c: "c = (t, k', e)" by (cases c) auto
  show ?case
    using Cons.IH[OF Cons.prems, of "cb_exec cfg t k' e b"] Cons.prems
    by (cases "k' = k") (simp_all add: c peek_cb_exec)
qed

text \<open>
  C6: the breaker is one independent ladder per key.  After any history of calls, on any keys, the
  health of a key is what the ladder computes from the calls on this key alone; nothing leaks from
  one provider, base URL or profile to another, and the database never changes an answer.
\<close>

theorem breaker_refines_ladders:
  assumes "fst k \<noteq> []"
  shows "peek k (cb_run cfg h b) =
    fold (\<lambda>(t, k', e). ladder cfg t e) (filter (\<lambda>(t, k', e). k' = k) h) (peek k b)"
  using assms by (rule breaker_entry_run)

definition default_cb_config :: cb_config where
  "default_cb_config = \<lparr>failures_degraded = 3, failures_dead = 6, degraded_cooldown = 30,
     dead_cooldown = 120\<rparr>"

definition ds_key :: hkey where
  "ds_key = (''deepseek'', ''https://api.deepseek.com'', ''plan'')"

definition mm_key :: hkey where
  "mm_key = (''minimax'', ''https://api.minimax.io'', ''plan'')"

definition demo_history :: "(real \<times> hkey \<times> event) list" where
  "demo_history =
     [(1, ds_key, Failure (Some ''ProviderAuthError'') None),
      (2, mm_key, Failure (Some ''ProviderTimeoutError'') (Some ''HTTP 504'')),
      (3, ds_key, Failure (Some ''ProviderAuthError'') None), (4, mm_key, Success)]"

theorem breaker_refines_ladders_witness:
  "peek ds_key (cb_run default_cb_config demo_history new_breaker) =
     fold (\<lambda>(t, k', e). ladder default_cb_config t e)
       [(1, ds_key, Failure (Some ''ProviderAuthError'') None),
        (3, ds_key, Failure (Some ''ProviderAuthError'') None)] default_health"
proof -
  have f: "filter (\<lambda>(t, k', e). k' = ds_key) demo_history =
      [(1, ds_key, Failure (Some ''ProviderAuthError'') None),
       (3, ds_key, Failure (Some ''ProviderAuthError'') None)]"
    by (simp add: demo_history_def ds_key_def mm_key_def)
  have "fst ds_key \<noteq> []" by (simp add: ds_key_def)
  from breaker_refines_ladders[OF this, of default_cb_config demo_history new_breaker]
  show ?thesis by (simp only: f) (simp add: peek_def new_breaker_def)
qed

subsection \<open>Failure counting\<close>

lemma error_weight_pos: "1 \<le> error_weight t"
  by (simp add: error_weight_def ERROR_WEIGHTS_def)

lemma ladder_Failure_sel:
  "consecutive_failures (ladder cfg now (Failure t r) h) = consecutive_failures h + error_weight t"
  "hstatus (ladder cfg now (Failure t r) h) =
     fail_status cfg (consecutive_failures h + error_weight t) (hstatus h)"
  by (simp_all add: ladder_def Let_def)

text \<open>The total weight of a list of failures.\<close>

definition total_weight :: "string option list \<Rightarrow> int" where
  "total_weight ts = sum_list (map error_weight ts)"

lemma fail_status_mono:
  assumes "failures_degraded cfg \<le> failures_dead cfg" and "n \<le> m"
  shows "fail_status cfg m (fail_status cfg n Healthy) = fail_status cfg m Healthy"
  using assms by (simp add: fail_status_def)

lemma failures_fold:
  assumes "failures_degraded cfg \<le> failures_dead cfg"
    and "hstatus h = fail_status cfg (consecutive_failures h) Healthy"
  shows "consecutive_failures (fold (\<lambda>(t, e, r). ladder cfg t (Failure e r)) fs h) =
           consecutive_failures h + total_weight (map (\<lambda>(t, e, r). e) fs) \<and>
         hstatus (fold (\<lambda>(t, e, r). ladder cfg t (Failure e r)) fs h) =
           fail_status cfg (consecutive_failures h + total_weight (map (\<lambda>(t, e, r). e) fs)) Healthy"
  using assms(2)
proof (induction fs arbitrary: h)
  case Nil
  then show ?case by (simp add: total_weight_def)
next
  case (Cons f fs)
  obtain t e r where f: "f = (t, e, r)" by (cases f) auto
  let ?h = "ladder cfg t (Failure e r) h"
  have "consecutive_failures h \<le> consecutive_failures h + error_weight e"
    using error_weight_pos[of e] by simp
  from fail_status_mono[OF assms(1) this]
  have "hstatus ?h = fail_status cfg (consecutive_failures ?h) Healthy"
    using Cons.prems by (simp add: ladder_Failure_sel)
  from Cons.IH[OF this] show ?case
    by (simp add: f ladder_Failure_sel total_weight_def add.assoc)
qed

text \<open>
  Also: how many failures trip a provider.  Starting from an untracked key, any sequence of failures
  at any times leaves the key dead exactly when the weights of the error types reach
  \<open>failures_dead\<close>, degraded when they reach only \<open>failures_degraded\<close>, and healthy below that.
\<close>

theorem failure_weights_decide_status:
  assumes "failures_degraded cfg \<le> failures_dead cfg" and "0 < failures_degraded cfg"
    and "fst k \<noteq> []" and "map_of (entries b) k = None"
  shows "hstatus (peek k (cb_run cfg (map (\<lambda>(t, e, r). (t, k, Failure e r)) fs) b)) =
    fail_status cfg (total_weight (map (\<lambda>(t, e, r). e) fs)) Healthy"
proof -
  have fold_eq: "fold (\<lambda>(t, k', e). ladder cfg t e) (map (\<lambda>(t, e, r). (t, k, Failure e r)) fs) h =
      fold (\<lambda>(t, e, r). ladder cfg t (Failure e r)) fs h" for h
    by (induction fs arbitrary: h) auto
  have "filter (\<lambda>(t, k', e). k' = k) (map (\<lambda>(t, e, r). (t, k, Failure e r)) fs) =
      map (\<lambda>(t, e, r). (t, k, Failure e r)) fs"
    by (induction fs) auto
  moreover have "peek k b = default_health" using assms(4) by (simp add: peek_def)
  ultimately have "peek k (cb_run cfg (map (\<lambda>(t, e, r). (t, k, Failure e r)) fs) b) =
      fold (\<lambda>(t, e, r). ladder cfg t (Failure e r)) fs default_health"
    using breaker_entry_run[OF assms(3)] by (simp add: fold_eq)
  then show ?thesis
    using failures_fold[OF assms(1), of default_health fs] assms(1,2)
    by (simp add: default_health_def fail_status_def)
qed

theorem failure_weights_decide_status_witness:
  "hstatus (peek ds_key (cb_run default_cb_config
     [(1, ds_key, Failure (Some ''ProviderAuthError'') None),
      (2, ds_key, Failure (Some ''ProviderTimeoutError'') None)] new_breaker)) = Degraded"
  using failure_weights_decide_status[of default_cb_config ds_key new_breaker
      "[(1, Some ''ProviderAuthError'', None), (2, Some ''ProviderTimeoutError'', None)]"]
  by (simp add: default_cb_config_def ds_key_def new_breaker_def total_weight_def error_weight_def
      ERROR_WEIGHTS_def fail_status_def)

subsection \<open>Reachable breakers: entry invariant and agreement with the database\<close>

definition health_ok :: "cb_config \<Rightarrow> health \<Rightarrow> bool" where
  "health_ok cfg h \<longleftrightarrow> 0 \<le> consecutive_failures h \<and>
     (hstatus h = Healthy \<longrightarrow> tripped_until h = None) \<and>
     (hstatus h = Dead \<and> tripped_until h \<noteq> None \<longrightarrow> failures_dead cfg \<le> consecutive_failures h) \<and>
     (hstatus h = Dead \<and> tripped_until h = None \<longrightarrow> manual_override h = Some Dead)"

lemma health_ok_default: "health_ok cfg default_health"
  by (simp add: health_ok_def default_health_def)

lemma health_ok_ladder:
  assumes "health_ok cfg h"
  shows "health_ok cfg (ladder cfg now e h)"
proof (cases e)
  case Probe
  with assms show ?thesis
    by (cases "hstatus h") (auto simp: ladder_def health_ok_def)
next
  case (Failure t r)
  with assms error_weight_pos[of t] show ?thesis
    by (auto simp: ladder_def health_ok_def Let_def fail_status_def fail_until_def)
qed (use assms in \<open>auto simp: ladder_def health_ok_def cleared_def\<close>)

definition rows_of :: "breaker \<Rightarrow> (hkey, health_row) dict" where
  "rows_of b = (case engine b of None \<Rightarrow> [] | Some d \<Rightarrow> db_rows d)"

definition connected :: "breaker \<Rightarrow> bool" where
  "connected b \<longleftrightarrow> (case engine b of None \<Rightarrow> False | Some d \<Rightarrow> db_up d)"

definition synced :: "breaker \<Rightarrow> bool" where
  "synced b \<longleftrightarrow> connected b \<and> dict_ok (rows_of b) \<and>
     (\<forall>k. map_of (entries b) k = map_option of_row (map_of (rows_of b) k))"

lemma syncedD:
  assumes "synced b" and "engine b = Some d"
  shows "db_up d" and "dict_ok (db_rows d)"
    and "map_of (entries b) k = map_option of_row (map_of (db_rows d) k)"
proof -
  show "db_up d" "dict_ok (db_rows d)"
    using assms by (simp_all add: synced_def connected_def rows_of_def)
  have "map_of (entries b) k = map_option of_row (map_of (rows_of b) k)"
    using assms(1) unfolding synced_def by blast
  then show "map_of (entries b) k = map_option of_row (map_of (db_rows d) k)"
    using assms(2) by (simp add: rows_of_def)
qed

text \<open>
  The life of a breaker: boot on an empty table, serve events, forget deleted providers, log
  fail-overs, and restart: a fresh breaker loads the table the old one left.
\<close>

inductive cb_reach :: "cb_config \<Rightarrow> breaker \<Rightarrow> bool" for cfg where
  boot: "db_up d \<Longrightarrow> db_rows d = [] \<Longrightarrow> cb_reach cfg (attach_engine d new_breaker)"
| event: "cb_reach cfg b \<Longrightarrow>
    (\<And>a. e = Force a \<Longrightarrow> a \<in> {''degrade'', ''kill'', ''resume''}) \<Longrightarrow>
    cb_reach cfg (cb_exec cfg now k e b)"
| forget: "cb_reach cfg b \<Longrightarrow> cb_reach cfg (snd (forget_provider p b))"
| failover: "cb_reach cfg b \<Longrightarrow> cb_reach cfg (record_failover f b)"
| restart: "cb_reach cfg b \<Longrightarrow> engine b = Some d \<Longrightarrow> cb_reach cfg (attach_engine d new_breaker)"

lemma of_row_to_row: "of_row (to_row now h) = h"
  by (simp add: of_row_def to_row_def)

lemma map_of_load_fold:
  assumes "dict_ok rows"
  shows "map_of (fold (\<lambda>(k, r). AList.update k (of_row r)) rows es) k =
    (case map_of rows k of None \<Rightarrow> map_of es k | Some r \<Rightarrow> Some (of_row r))"
  using assms
proof (induction rows arbitrary: es)
  case Nil
  then show ?case by simp
next
  case (Cons p rows)
  obtain k' r where p: "p = (k', r)" by (cases p)
  from Cons.prems p have "map_of rows k' = None" and ok: "dict_ok rows"
    by (simp_all add: map_of_eq_None_iff)
  with Cons.IH[OF ok] p show ?case by (simp add: dict_simps split: option.split)
qed

lemma attach_engine_sel:
  assumes "db_up d" and "dict_ok (db_rows d)"
  shows "synced (attach_engine d new_breaker)"
    and "map_of (entries (attach_engine d new_breaker)) k = map_option of_row (map_of (db_rows d) k)"
proof -
  have e: "engine (attach_engine d new_breaker) = Some d"
    by (simp add: attach_engine_def load_health_def)
  show eq: "map_of (entries (attach_engine d new_breaker)) k =
      map_option of_row (map_of (db_rows d) k)" for k
    using map_of_load_fold[OF assms(2), of "[]" k] assms(1)
    by (simp add: attach_engine_def load_health_def new_breaker_def split: option.split)
  show "synced (attach_engine d new_breaker)"
    using eq assms by (simp add: synced_def connected_def rows_of_def e)
qed

lemma synced_store:
  assumes "synced b"
  shows "synced (store now k h b)"
proof -
  obtain d where d: "engine b = Some d" "db_up d"
    using assms by (auto simp: synced_def connected_def split: option.splits)
  have s: "store now k h b = b\<lparr>entries := AList.update k h (entries b),
      engine := Some (d\<lparr>db_rows := AList.update k (to_row now h) (db_rows d)\<rparr>)\<rparr>"
    using d by (simp add: store_def persist_def set_entry_def dict_simps)
  have eq: "\<forall>k. map_of (entries b) k = map_option of_row (map_of (db_rows d) k)"
    and ok: "dict_ok (db_rows d)"
    using assms d by (simp_all add: synced_def rows_of_def)
  show ?thesis
    unfolding s synced_def connected_def rows_of_def
    using eq d by (simp add: dict_simps of_row_to_row pd.ok_put[OF ok])
qed

lemma synced_exec:
  assumes "synced b" and "\<And>a. e = Force a \<Longrightarrow> a \<in> {''degrade'', ''kill'', ''resume''}"
  shows "synced (cb_exec cfg now k e b)"
proof (cases "fst k = [] \<and> e = Probe")
  case True
  with assms show ?thesis by (simp add: cb_exec_def is_available_def)
next
  case False
  with assms show ?thesis
    by (cases e)
      (auto simp: cb_exec_def is_available_store[of _ _ _ cfg] record_success_store[of _ _ _ cfg]
        record_failure_store reset_store[of _ _ _ cfg] force_status_store intro: synced_store)
qed

lemma map_of_fold_delete:
  "map_of (fold AList.delete ks d) k = (if k \<in> set ks then None else map_of d k)"
  by (rule pd.get_fold_del)

lemma forget_entries:
  "map_of (entries (snd (forget_provider p b))) k = (if fst k = p then None else map_of (entries b) k)"
proof -
  have e: "entries (snd (forget_provider p b)) =
      fold AList.delete (filter (\<lambda>k. fst k = p) (keys (entries b))) (entries b)"
    by (simp add: forget_provider_def Let_def split: option.split)
  show ?thesis
    unfolding e map_of_fold_delete by (auto simp: map_of_eq_None_iff)
qed

lemma map_of_filter_key:
  "map_of (filter (\<lambda>(k, r). P k) d) k = (if P k then map_of d k else None)"
  by (induction d) auto

lemma synced_forget:
  assumes "synced b"
  shows "synced (snd (forget_provider p b))"
proof -
  obtain d where d: "engine b = Some d" "db_up d"
    using assms by (auto simp: synced_def connected_def split: option.splits)
  let ?b = "snd (forget_provider p b)"
  have e: "engine ?b = Some (d\<lparr>db_rows := filter (\<lambda>(k, r). fst k \<noteq> p) (db_rows d)\<rparr>)"
    using d by (simp add: forget_provider_def Let_def)
  have "dict_ok (filter (\<lambda>(k, r). fst k \<noteq> p) (db_rows d))"
    using assms d by (simp add: synced_def rows_of_def distinct_map_filter)
  moreover have "map_of (entries ?b) k =
      map_option of_row (map_of (filter (\<lambda>(k, r). fst k \<noteq> p) (db_rows d)) k)" for k
    using syncedD(3)[OF assms d(1)] map_of_filter_key[of "\<lambda>k. fst k \<noteq> p" "db_rows d" k]
    by (simp add: forget_entries)
  ultimately show ?thesis using d by (simp add: synced_def connected_def rows_of_def e)
qed

lemma synced_failover: "synced b \<Longrightarrow> synced (record_failover f b)"
  unfolding synced_def connected_def rows_of_def record_failover_def
  by (cases "engine b") simp_all

lemma cb_reach_synced:
  assumes "cb_reach cfg b"
  shows "synced b"
  using assms
proof (induction rule: cb_reach.induct)
  case (boot d)
  then show ?case by (simp add: attach_engine_sel(1))
next
  case (event b e now k)
  then show ?case by (blast intro: synced_exec)
next
  case (restart b d)
  with syncedD(1,2) show ?case by (blast intro: attach_engine_sel(1))
next
  case (forget b p)
  then show ?case by (blast intro: synced_forget)
next
  case (failover b f)
  then show ?case by (blast intro: synced_failover)
qed

lemma restart_same_entries:
  assumes "cb_reach cfg b" and "engine b = Some d"
  shows "map_of (entries (attach_engine d new_breaker)) k = map_of (entries b) k"
proof -
  note sync = syncedD[OF cb_reach_synced[OF assms(1)] assms(2)]
  show ?thesis by (simp add: attach_engine_sel(2)[OF sync(1,2)] sync(3))
qed

text \<open>
  C15: breaker state survives a restart.  After any life of the breaker (calls, deletions,
  fail-overs, earlier restarts) on a working database, a fresh breaker attached to the same
  database answers every health query, on every key, as the old one did.
\<close>

theorem restart_keeps_health:
  assumes "cb_reach cfg b" and "engine b = Some d"
  shows "peek k (attach_engine d new_breaker) = peek k b \<and>
    status_of k (attach_engine d new_breaker) = status_of k b \<and>
    fst (is_available now k (attach_engine d new_breaker)) = fst (is_available now k b)"
proof -
  have p: "peek k (attach_engine d new_breaker) = peek k b"
    using restart_same_entries[OF assms] by (simp add: peek_def)
  then show ?thesis by (simp add: status_of_def is_available_store[of _ _ _ cfg])
qed

definition empty_db :: health_db where
  "empty_db = \<lparr>db_up = True, db_rows = [], db_failovers = []\<rparr>"

text \<open>A provider killed by two authentication failures.\<close>

definition demo_dead :: breaker where
  "demo_dead = cb_exec default_cb_config 3 ds_key (Failure (Some ''ProviderAuthError'') None)
     (cb_exec default_cb_config 1 ds_key (Failure (Some ''ProviderAuthError'') None)
       (attach_engine empty_db new_breaker))"

lemma demo_dead_reach: "cb_reach default_cb_config demo_dead"
  unfolding demo_dead_def
  by (intro cb_reach.event cb_reach.boot) (simp_all add: empty_db_def)

lemma demo_dead_health:
  "peek ds_key demo_dead = default_health\<lparr>consecutive_failures := 6, last_failure := Some 3,
     hstatus := Dead, tripped_until := Some 123\<rparr>"
proof -
  have "peek ds_key (attach_engine empty_db new_breaker) = default_health"
    by (simp add: peek_def attach_engine_def load_health_def empty_db_def new_breaker_def)
  then show ?thesis
    by (simp add: demo_dead_def peek_cb_exec ds_key_def default_health_def ladder_def
        error_weight_def ERROR_WEIGHTS_def fail_status_def fail_until_def default_cb_config_def)
qed

theorem restart_keeps_health_witness:
  "\<exists>d. engine demo_dead = Some d \<and> hstatus (peek ds_key (attach_engine d new_breaker)) = Dead"
proof -
  obtain d where d: "engine demo_dead = Some d"
    using cb_reach_synced[OF demo_dead_reach]
    by (auto simp: synced_def connected_def split: option.splits)
  from restart_keeps_health[OF demo_dead_reach d, of ds_key 0] demo_dead_health d
  show ?thesis by simp
qed

lemma peek_attach:
  assumes "db_up d" and "dict_ok (db_rows d)"
  shows "peek k (attach_engine d new_breaker) =
    (case map_of (db_rows d) k of None \<Rightarrow> default_health | Some r \<Rightarrow> of_row r)"
  by (simp add: peek_def attach_engine_sel(2)[OF assms] split: option.split)

lemma cb_reach_health_ok:
  assumes "cb_reach cfg b"
  shows "health_ok cfg (peek k b)"
  using assms
proof (induction rule: cb_reach.induct)
  case (boot d)
  then show ?case by (simp add: peek_attach health_ok_default)
next
  case (event b e now k')
  show ?case
  proof (cases "fst k = [] \<and> e = Probe \<and> k' = k")
    case True
    with event.IH show ?thesis by (simp add: cb_exec_def is_available_def)
  next
    case False
    have "peek k (cb_exec cfg now k' e b) \<in> {peek k b, ladder cfg now e (peek k b)}"
      by (cases e) (auto simp: cb_exec_def is_available_store[of _ _ _ cfg]
          record_success_store[of _ _ _ cfg] record_failure_store reset_store[of _ _ _ cfg]
          force_status_store cb_simps)
    with event.IH show ?thesis by (auto intro: health_ok_ladder)
  qed
next
  case (forget b p)
  then show ?case by (simp add: peek_def forget_entries health_ok_default)
next
  case (failover b f)
  have "entries (record_failover f b) = entries b"
    by (simp add: record_failover_def split: option.split)
  with failover.IH show ?case by (simp add: peek_def)
next
  case (restart b d)
  then show ?case using restart_same_entries[OF restart.hyps] by (simp add: peek_def)
qed

text \<open>
  Also: half-open probing.  On a reachable breaker, the first availability check after the cooldown
  of a dead provider answers yes and moves it to degraded with no cooldown, where further checks
  keep answering yes; a single failure of any kind then sends it back to dead for a full dead
  cooldown, and a single success makes it healthy with a cleared failure count.
\<close>

theorem half_open_probe:
  assumes "cb_reach cfg b" and "fst k \<noteq> []"
    and "hstatus (peek k b) = Dead" and "tripped_until (peek k b) = Some t" and "t \<le> now"
  shows "\<exists>b1. is_available now k b = (True, b1) \<and> status_of k b1 = Degraded \<and>
    is_available now' k b1 = (True, b1) \<and>
    status_of k (record_failure cfg now' k e r b1) = Dead \<and>
    fst (is_available now'' k (record_failure cfg now' k e r b1)) = (now' + dead_cooldown cfg \<le> now'') \<and>
    status_of k (record_success now' k b1) = Healthy \<and>
    consecutive_failures (peek k (record_success now' k b1)) = 0"
proof (intro exI conjI)
  let ?h = "(peek k b)\<lparr>hstatus := Degraded, tripped_until := None\<rparr>"
  let ?b1 = "store now k ?h b"
  show "is_available now k b = (True, ?b1)"
    using assms(2-5)
    by (simp add: is_available_store[of _ _ _ cfg] ladder_open_def expired_def ladder_def)
  show "status_of k ?b1 = Degraded" and "is_available now' k ?b1 = (True, ?b1)"
    using assms(2) by (simp_all add: status_of_def cb_simps is_available_def)
  have "failures_dead cfg \<le> consecutive_failures (peek k b) + error_weight e"
    using cb_reach_health_ok[OF assms(1), of k] assms(3,4) error_weight_pos[of e]
    by (simp add: health_ok_def)
  then show "status_of k (record_failure cfg now' k e r ?b1) = Dead"
    and "fst (is_available now'' k (record_failure cfg now' k e r ?b1)) =
      (now' + dead_cooldown cfg \<le> now'')"
    using assms(2)
    by (simp_all add: status_of_def record_failure_store cb_simps ladder_def Let_def fail_status_def
        fail_until_def is_available_store[of _ _ _ cfg] ladder_open_def expired_def)
  show "status_of k (record_success now' k ?b1) = Healthy"
    and "consecutive_failures (peek k (record_success now' k ?b1)) = 0"
    using assms(2) by (simp_all add: status_of_def record_success_store[of _ _ _ cfg] cb_simps
        ladder_def cleared_def)
qed

theorem half_open_probe_witness:
  "\<exists>b1. is_available 200 ds_key demo_dead = (True, b1) \<and>
    status_of ds_key (record_failure default_cb_config 201 ds_key None None b1) = Dead"
  using half_open_probe[OF demo_dead_reach, of ds_key 123 200 201 None None 202]
  by (auto simp: demo_dead_health) (auto simp: ds_key_def)

text \<open>
  Also: a manual kill is indefinite for probes.  After \<open>force_status(.., "kill")\<close>, no sequence of
  availability checks at any times, of any operation on other keys, and of repeated kills makes
  the provider available or changes its status.
\<close>

theorem kill_survives_probes:
  assumes "fst k \<noteq> []"
    and "\<forall>(t, k', e) \<in> set h. k' \<noteq> k \<or> e \<in> {Probe, Force ''kill''}"
  shows "status_of k (cb_run cfg h (snd (force_status cfg now k ''kill'' b))) = Dead \<and>
    \<not> fst (is_available now' k (cb_run cfg h (snd (force_status cfg now k ''kill'' b))))"
proof -
  let ?b = "snd (force_status cfg now k ''kill'' b)"
  let ?P = "\<lambda>h. hstatus h = Dead \<and> tripped_until h = None"
  have keep: "?P (fold (\<lambda>(t, k', e). ladder cfg t e) (filter (\<lambda>(t, k', e). k' = k) l) x)"
    if "?P x" and "\<forall>(t, k', e) \<in> set l. k' \<noteq> k \<or> e \<in> {Probe, Force ''kill''}" for l x
    using that
  proof (induction l arbitrary: x)
    case Nil
    then show ?case by simp
  next
    case (Cons c l)
    obtain t k' e where c: "c = (t, k', e)" by (cases c) auto
    from Cons.prems have "k' = k \<Longrightarrow> ?P (ladder cfg t e x)"
      by (auto simp: c ladder_def expired_def)
    with Cons show ?case by (cases "k' = k") (simp_all add: c)
  qed
  have "?P (peek k ?b)" by (simp add: force_status_store cb_simps ladder_def)
  from keep[OF this assms(2)] have "?P (peek k (cb_run cfg h ?b))"
    by (simp only: breaker_entry_run[OF assms(1)])
  with assms(1) show ?thesis by (simp add: status_of_def is_available_def)
qed

theorem kill_survives_probes_witness:
  "\<not> fst (is_available 999 ds_key (cb_run default_cb_config [(5, ds_key, Probe), (6, mm_key, Success)]
     (snd (force_status default_cb_config 1 ds_key ''kill'' new_breaker))))"
  using kill_survives_probes[of ds_key "[(5, ds_key, Probe), (6, mm_key, Success)]"
      default_cb_config 1 new_breaker 999]
  by (simp add: ds_key_def mm_key_def)

text \<open>
  Also: an outcome that arrives after a manual kill undoes it.  On a provider with no earlier
  failures, one authentication failure recorded after the kill (with the default thresholds) leaves
  it only degraded, hence available again after the cooldown; a success makes it healthy at once.
\<close>

theorem late_outcome_undoes_kill:
  "hstatus (ladder default_cb_config t (Failure (Some ''ProviderAuthError'') r)
      (ladder default_cb_config now (Force ''kill'') default_health)) = Degraded \<and>
   ladder_open (t + 30) (ladder default_cb_config t (Failure (Some ''ProviderAuthError'') r)
      (ladder default_cb_config now (Force ''kill'') default_health)) \<and>
   hstatus (ladder default_cb_config t Success
      (ladder default_cb_config now (Force ''kill'') h)) = Healthy"
  by (simp add: ladder_def default_cb_config_def default_health_def error_weight_def
      ERROR_WEIGHTS_def fail_status_def fail_until_def ladder_open_def expired_def cleared_def)

lemma failure_never_improves:
  assumes "hstatus h \<le> fail_status cfg (consecutive_failures h) Healthy"
    and "failures_degraded cfg \<le> failures_dead cfg"
  shows "hstatus h \<le> hstatus (ladder cfg now (Failure t r) h)"
  using assms error_weight_pos[of t]
  by (auto simp: ladder_Failure_sel fail_status_def less_eq_status_def split: if_splits)

subsection \<open>Deleting a provider\<close>

text \<open>
  Also: deleting a provider leaves no ghost.  On a reachable breaker \<open>forget_provider\<close> removes the
  provider's entries for every base URL and profile, in memory and in the table, so not even a
  restart brings one back, and every entry of any other provider stays as it was.
\<close>

theorem forget_provider_complete:
  assumes "cb_reach cfg b" and "engine (snd (forget_provider p b)) = Some d"
  shows "map_of (entries (attach_engine d new_breaker)) k =
      (if fst k = p then None else map_of (entries b) k) \<and>
    map_of (entries (snd (forget_provider p b))) k =
      (if fst k = p then None else map_of (entries b) k)"
  using restart_same_entries[OF cb_reach.forget[OF assms(1)] assms(2)]
  by (simp add: forget_entries)

theorem forget_provider_complete_witness:
  "\<exists>d. engine (snd (forget_provider ''deepseek'' demo_dead)) = Some d \<and>
     map_of (entries (attach_engine d new_breaker)) ds_key = None"
proof -
  obtain d where d: "engine (snd (forget_provider ''deepseek'' demo_dead)) = Some d"
    using cb_reach_synced[OF cb_reach.forget[OF demo_dead_reach], of "''deepseek''"]
    by (cases "engine (snd (forget_provider ''deepseek'' demo_dead))")
      (simp_all add: synced_def connected_def)
  from forget_provider_complete[OF demo_dead_reach d, of ds_key] d
  show ?thesis by (simp add: ds_key_def)
qed

subsection \<open>The interface the router and the provider chain rely on\<close>

text \<open>
  Clients ask for the status, probe availability (which may move the ladder), and record outcomes.
  They rely on: a positive answer stays positive under further probes, probes and outcomes touch
  one key, and success heals.
\<close>

locale provider_gate =
  fixes stat :: "'k \<Rightarrow> 's \<Rightarrow> status"
    and avail :: "real \<Rightarrow> 'k \<Rightarrow> 's \<Rightarrow> bool \<times> 's"
    and succ :: "real \<Rightarrow> 'k \<Rightarrow> 's \<Rightarrow> 's"
    and fail :: "real \<Rightarrow> 'k \<Rightarrow> string option \<Rightarrow> string option \<Rightarrow> 's \<Rightarrow> 's"
    and addressable :: "'k \<Rightarrow> bool"
  assumes avail_again: "avail now k s = (True, s') \<Longrightarrow> avail now' k s' = (True, s')"
    and avail_no: "avail now k s = (False, s') \<Longrightarrow> s' = s"
    and avail_other: "k' \<noteq> k \<Longrightarrow> stat k' (snd (avail now k s)) = stat k' s \<and>
          fst (avail now' k' (snd (avail now k s))) = fst (avail now' k' s)"
    and avail_healthy: "stat k s = Healthy \<Longrightarrow> avail now k s = (True, s)"
    and succ_heals: "addressable k \<Longrightarrow> stat k (succ now k s) = Healthy"
    and succ_other: "k' \<noteq> k \<Longrightarrow> stat k' (succ now k s) = stat k' s"
    and fail_other: "k' \<noteq> k \<Longrightarrow> stat k' (fail now k e r s) = stat k' s"
begin

lemma not_avail_not_healthy: "fst (avail now k s) = False \<Longrightarrow> stat k s \<noteq> Healthy"
  using avail_healthy[of k s now] by auto

lemma avail_after_probe:
  "fst (avail now' k (snd (avail now k s))) = fst (avail now' k s) \<or> fst (avail now k s)"
proof (cases "avail now k s")
  case (Pair a s')
  then show ?thesis using avail_no by (cases a) auto
qed

lemma avail_idem: "fst (avail now k' (snd (avail now k s))) = fst (avail now k' s)"
proof (cases "k' = k")
  case True
  obtain a s' where "avail now k s = (a, s')" by (cases "avail now k s")
  then show ?thesis
    using True avail_again[of now k s s' now] avail_no[of now k s s'] by (cases a) auto
next
  case False
  then show ?thesis using avail_other by blast
qed

end

text \<open>
  Filtering candidates by availability, each probe possibly moving the ladder:
  \<open>[p for p in chain if cb.is_available(..)]\<close>.
\<close>

fun probe_all :: "(real \<Rightarrow> 'k \<Rightarrow> 's \<Rightarrow> bool \<times> 's) \<Rightarrow> real \<Rightarrow> ('a \<Rightarrow> 'k) \<Rightarrow> 'a list \<Rightarrow> 's \<Rightarrow> 'a list \<times> 's" where
  "probe_all avail now key [] s = ([], s)"
| "probe_all avail now key (x # xs) s =
     (let (a, s1) = avail now (key x) s; (ys, s2) = probe_all avail now key xs s1
      in (if a then x # ys else ys, s2))"

context provider_gate
begin

lemma probe_all_is_filter:
  "fst (probe_all avail now key xs s) = filter (\<lambda>x. fst (avail now (key x) s)) xs"
proof (induction xs arbitrary: s)
  case Nil
  then show ?case by simp
next
  case (Cons x xs)
  then show ?case by (simp add: case_prod_beta Let_def avail_idem)
qed

lemma probe_all_keeps: "fst (avail now k (snd (probe_all avail now key xs s))) = fst (avail now k s)"
  by (induction xs arbitrary: s) (simp_all add: case_prod_beta Let_def avail_idem)

end

interpretation breaker_gate: provider_gate status_of is_available record_success "record_failure cfg"
  "\<lambda>k. fst k \<noteq> []" for cfg
proof unfold_locales
  fix now now' :: real and k :: hkey and s s' :: breaker
  assume "is_available now k s = (True, s')"
  then show "is_available now' k s' = (True, s')"
    by (auto simp: is_available_def promote_def cb_simps Let_def split: if_splits)
next
  fix now :: real and k :: hkey and s s' :: breaker
  assume "is_available now k s = (False, s')"
  then show "s' = s" by (auto simp: is_available_def Let_def split: if_splits)
next
  fix now now' :: real and k k' :: hkey and s :: breaker
  assume "k' \<noteq> k"
  then have "peek k' (snd (is_available now k s)) = peek k' s"
    by (auto simp: is_available_store[of _ _ _ cfg] cb_simps)
  then show "status_of k' (snd (is_available now k s)) = status_of k' s \<and>
      fst (is_available now' k' (snd (is_available now k s))) = fst (is_available now' k' s)"
    by (simp add: status_of_def is_available_store[of now' k' _ cfg])
next
  fix now :: real and k :: hkey and s :: breaker
  assume "status_of k s = Healthy"
  then show "is_available now k s = (True, s)"
    by (simp add: status_of_def is_available_def split: if_splits)
qed (simp_all add: status_of_def record_success_store[of _ _ _ cfg] record_failure_store cb_simps
    ladder_def cleared_def)

end
