(* ===== verification/Prompt_Cache.thy ===== *)
theory Prompt_Cache
  imports Json_Values
begin

section \<open>The prompt cache (src/api/prompt_cache.py)\<close>

text \<open>
  Responses kept for \<open>ttl\<close> seconds under a key computed from the request.  What the module calls
  but does not define is a parameter: \<open>json.dumps(.., sort_keys=True)\<close>, the text of a number in an
  f-string and SHA-256, collected in a record; nothing is assumed of them.
\<close>

record codec =
  cx_dumps :: "json \<Rightarrow> string"
  cx_str :: "json \<Rightarrow> string"
  cx_sha256 :: "string \<Rightarrow> string"

record prompt_cache =
  pc_entries :: "(string, real \<times> json) dict"
  pc_ttl :: real
  pc_max :: int
  pc_hits :: int
  pc_misses :: int

definition new_cache :: "real \<Rightarrow> int \<Rightarrow> prompt_cache" where
  "new_cache ttl n = \<lparr>pc_entries = [], pc_ttl = ttl, pc_max = n, pc_hits = 0, pc_misses = 0\<rparr>"

definition make_key :: "codec \<Rightarrow> string \<Rightarrow> string \<Rightarrow> obj \<Rightarrow> string" where
  "make_key cx profile model body =
     (let messages = cx_dumps cx (dget body ''messages'' (JList []));
          tools = (if truthy_opt (map_of body ''tools'')
                   then cx_dumps cx (dget body ''tools'' (JList [])) else []);
          max_tokens = cx_str cx (dget body ''max_tokens'' (JNum 0))
      in cx_sha256 cx (profile @ ''|'' @ model @ ''|'' @ max_tokens @ ''|'' @ messages @ ''|'' @ tools))"

definition cache_get :: "codec \<Rightarrow> real \<Rightarrow> string \<Rightarrow> string \<Rightarrow> obj \<Rightarrow> prompt_cache \<Rightarrow> json option \<times> prompt_cache" where
  "cache_get cx now profile model body c =
     (let k = make_key cx profile model body in
      case map_of (pc_entries c) k of
        None \<Rightarrow> (None, c\<lparr>pc_misses := pc_misses c + 1\<rparr>)
      | Some (expires, response) \<Rightarrow>
          if expires < now
          then (None, c\<lparr>pc_entries := AList.delete k (pc_entries c), pc_misses := pc_misses c + 1\<rparr>)
          else (Some response, c\<lparr>pc_hits := pc_hits c + 1\<rparr>))"

text \<open>\<open>min(d, key=f)\<close>: the first key in insertion order with the least value; raises when empty.\<close>

fun min_key :: "('v \<Rightarrow> real) \<Rightarrow> ('k, 'v) dict \<Rightarrow> 'k res" where
  "min_key f [] = Inl ValueError"
| "min_key f [(k, v)] = Inr k"
| "min_key f ((k, v) # (k', v') # d) =
     (if f v \<le> f v' then min_key f ((k, v) # d) else min_key f ((k', v') # d))"

definition cache_set ::
  "codec \<Rightarrow> real \<Rightarrow> string \<Rightarrow> string \<Rightarrow> obj \<Rightarrow> json \<Rightarrow> prompt_cache \<Rightarrow> prompt_cache res" where
  "cache_set cx now profile model body response c =
     rbind (if pc_max c \<le> int (length (pc_entries c))
            then rbind (min_key fst (pc_entries c)) (\<lambda>oldest. Inr (AList.delete oldest (pc_entries c)))
            else Inr (pc_entries c))
       (\<lambda>es. Inr (c\<lparr>pc_entries :=
          AList.update (make_key cx profile model body) (now + pc_ttl c, response) es\<rparr>))"

definition cache_clear :: "prompt_cache \<Rightarrow> prompt_cache" where
  "cache_clear c = c\<lparr>pc_entries := []\<rparr>"

record cache_stats =
  cs_entries :: nat
  cs_hits :: int
  cs_misses :: int
  cs_hit_rate :: real
  cs_max_entries :: int
  cs_ttl :: real

text \<open>\<open>round4\<close> is Python's \<open>round(x, 4)\<close>.\<close>

definition cache_stats_of :: "(real \<Rightarrow> real) \<Rightarrow> prompt_cache \<Rightarrow> cache_stats" where
  "cache_stats_of round4 c =
     (let total = pc_hits c + pc_misses c;
          rate = (if 0 < total then real_of_int (pc_hits c) / real_of_int total else 0)
      in \<lparr>cs_entries = length (pc_entries c), cs_hits = pc_hits c, cs_misses = pc_misses c,
          cs_hit_rate = round4 rate, cs_max_entries = pc_max c, cs_ttl = pc_ttl c\<rparr>)"

subsection \<open>Histories of calls\<close>

datatype cache_call =
    CGet real string string obj
  | CSet real string string obj json
  | CClear

fun cache_step :: "codec \<Rightarrow> cache_call \<Rightarrow> prompt_cache \<Rightarrow> prompt_cache res" where
  "cache_step cx (CGet now p m b) c = Inr (snd (cache_get cx now p m b c))"
| "cache_step cx (CSet now p m b r) c = cache_set cx now p m b r c"
| "cache_step cx CClear c = Inr (cache_clear c)"

fun cache_run :: "codec \<Rightarrow> cache_call list \<Rightarrow> prompt_cache \<Rightarrow> prompt_cache res" where
  "cache_run cx [] c = Inr c"
| "cache_run cx (x # xs) c = rbind (cache_step cx x c) (cache_run cx xs)"

lemma cache_run_snoc: "cache_run cx (xs @ [x]) c = rbind (cache_run cx xs c) (cache_step cx x)"
proof (induction xs arbitrary: c)
  case Nil
  then show ?case by (cases "cache_step cx x c") simp_all
next
  case (Cons y ys)
  then show ?case by (cases "cache_step cx y c") simp_all
qed

subsection \<open>The evicted entry\<close>

lemma min_key_mem:
  "min_key f d = Inr k \<Longrightarrow> \<exists>v. (k, v) \<in> set d \<and> (\<forall>(k', v') \<in> set d. f v \<le> f v')"
proof (induction f d rule: min_key.induct)
  case (3 f k1 v1 k2 v2 d)
  show ?case
  proof (cases "f v1 \<le> f v2")
    case True
    with 3 obtain v where "(k, v) \<in> set ((k1, v1) # d)"
      and "\<forall>(k', v') \<in> set ((k1, v1) # d). f v \<le> f v'" by auto
    with True show ?thesis by (intro exI[of _ v]) auto
  next
    case False
    with 3 obtain v where "(k, v) \<in> set ((k2, v2) # d)"
      and "\<forall>(k', v') \<in> set ((k2, v2) # d). f v \<le> f v'" by auto
    with False show ?thesis by (intro exI[of _ v]) auto
  qed
qed auto

lemma min_key_total: "d \<noteq> [] \<Longrightarrow> \<exists>k. min_key f d = Inr k"
  by (induction f d rule: min_key.induct) auto

lemma min_key_key: "min_key f d = Inr k \<Longrightarrow> map_of d k \<noteq> None"
  using min_key_mem[of f d k] weak_map_of_SomeI[of k _ d] by auto

subsection \<open>What an entry of a reachable cache is\<close>

text \<open>The time and response of the latest \<open>set\<close> of a key in a history, unless cleared since.\<close>

definition note_call :: "codec \<Rightarrow> string \<Rightarrow> cache_call \<Rightarrow> (real \<times> json) option \<Rightarrow> (real \<times> json) option" where
  "note_call cx k x acc = (case x of
      CGet t p m b \<Rightarrow> acc
    | CSet t p m b r \<Rightarrow> (if make_key cx p m b = k then Some (t, r) else acc)
    | CClear \<Rightarrow> None)"

definition last_set :: "codec \<Rightarrow> string \<Rightarrow> cache_call list \<Rightarrow> (real \<times> json) option" where
  "last_set cx k xs = fold (note_call cx k) xs None"

lemma last_set_snoc: "last_set cx k (xs @ [x]) = note_call cx k x (last_set cx k xs)"
  by (simp add: last_set_def)

definition is_get :: "cache_call \<Rightarrow> bool" where
  "is_get x = (case x of CGet t p m b \<Rightarrow> True | _ \<Rightarrow> False)"

text \<open>The invariant of a cache after the history \<open>xs\<close>.\<close>

definition cache_inv :: "codec \<Rightarrow> real \<Rightarrow> int \<Rightarrow> cache_call list \<Rightarrow> prompt_cache \<Rightarrow> bool" where
  "cache_inv cx ttl n xs c \<longleftrightarrow> pc_ttl c = ttl \<and> pc_max c = n \<and> dict_ok (pc_entries c) \<and>
     int (length (pc_entries c)) \<le> n \<and>
     pc_hits c + pc_misses c = int (length (filter is_get xs)) \<and>
     (\<forall>k e r. map_of (pc_entries c) k = Some (e, r) \<longrightarrow> last_set cx k xs = Some (e - ttl, r))"

text \<open>What \<open>set\<close> keeps after making room.\<close>

definition room :: "prompt_cache \<Rightarrow> (string, real \<times> json) dict res" where
  "room c = (if pc_max c \<le> int (length (pc_entries c))
     then rbind (min_key fst (pc_entries c)) (\<lambda>oldest. Inr (AList.delete oldest (pc_entries c)))
     else Inr (pc_entries c))"

lemma cache_set_room:
  "cache_set cx now p m b r c = rbind (room c) (\<lambda>es. Inr (c\<lparr>pc_entries :=
     AList.update (make_key cx p m b) (now + pc_ttl c, r) es\<rparr>))"
  by (simp add: cache_set_def room_def)

lemma room_props:
  assumes "1 \<le> pc_max c" and "int (length (pc_entries c)) \<le> pc_max c" and "dict_ok (pc_entries c)"
  obtains es where "room c = Inr es" and "dict_ok es" and "int (length es) < pc_max c"
    and "\<And>k v. map_of es k = Some v \<Longrightarrow> map_of (pc_entries c) k = Some v"
proof (cases "pc_max c \<le> int (length (pc_entries c))")
  case False
  then show ?thesis using that[of "pc_entries c"] assms by (simp add: room_def)
next
  case True
  with assms have "pc_entries c \<noteq> []" by auto
  then obtain k where k: "min_key fst (pc_entries c) = Inr k"
    using min_key_total by blast
  let ?es = "AList.delete k (pc_entries c)"
  have "room c = Inr ?es" using True by (simp add: room_def k)
  moreover have "dict_ok ?es" by (rule pd.ok_del[OF assms(3)])
  moreover have "int (length ?es) < pc_max c"
    using min_key_key[OF k] assms True pd.sz_del[OF assms(3), of k]
    by (cases "length (pc_entries c)") auto
  moreover have "\<And>k' v. map_of ?es k' = Some v \<Longrightarrow> map_of (pc_entries c) k' = Some v"
    by (simp add: dict_simps split: if_splits)
  ultimately show ?thesis by (rule that)
qed

lemma cache_inv_step:
  assumes "cache_inv cx ttl n xs c" and "1 \<le> n"
  shows "\<exists>c'. cache_step cx x c = Inr c' \<and> cache_inv cx ttl n (xs @ [x]) c'"
proof (cases x)
  case (CGet t p m b)
  let ?k = "make_key cx p m b"
  have "length (AList.delete ?k (pc_entries c)) \<le> length (pc_entries c)"
    by (rule AList.length_delete_le)
  then show ?thesis
    using assms pd.ok_del[of "pc_entries c" ?k]
    by (auto simp: CGet cache_get_def cache_inv_def is_get_def last_set_snoc note_call_def
        dict_simps Let_def simp del: map_of_eq_Some_iff split: option.split)
next
  case (CSet t p m b r)
  from assms obtain es where es: "room c = Inr es" "dict_ok es" "int (length es) < pc_max c"
    "\<And>k v. map_of es k = Some v \<Longrightarrow> map_of (pc_entries c) k = Some v"
    using room_props[of c] by (auto simp: cache_inv_def)
  let ?k = "make_key cx p m b"
  have "int (length (AList.update ?k (t + ttl, r) es)) \<le> n"
    using es(3) assms(1) pd.sz_put_le[OF es(2), of ?k "(t + ttl, r)"] by (simp add: cache_inv_def)
  then show ?thesis
    using assms(1) es pd.ok_put[OF es(2)]
    by (auto simp: CSet cache_set_room cache_inv_def is_get_def last_set_snoc note_call_def dict_simps)
next
  case CClear
  with assms show ?thesis
    by (auto simp: cache_clear_def cache_inv_def is_get_def)
qed

lemma cache_run_inv:
  assumes "1 \<le> n"
  shows "\<exists>c. cache_run cx xs (new_cache ttl n) = Inr c \<and> cache_inv cx ttl n xs c"
proof (induction xs rule: rev_induct)
  case Nil
  with assms show ?case by (simp add: new_cache_def cache_inv_def)
next
  case (snoc x xs)
  then show ?case using cache_inv_step[OF _ assms] by (auto simp: cache_run_snoc)
qed

text \<open>
  Also: the cache never grows beyond its limit and never fails.  With room for at least one entry,
  every history of calls runs without an exception, leaves at most \<open>max_entries\<close> entries, and the
  hit and miss counters add up to the number of lookups made.
\<close>

theorem cache_bounded_and_total:
  assumes "1 \<le> n"
  shows "\<exists>c. cache_run cx xs (new_cache ttl n) = Inr c \<and> int (length (pc_entries c)) \<le> n \<and>
    pc_hits c + pc_misses c = int (length (filter is_get xs))"
proof -
  obtain c where "cache_run cx xs (new_cache ttl n) = Inr c" and "cache_inv cx ttl n xs c"
    using cache_run_inv[OF assms] by blast
  then show ?thesis by (auto simp: cache_inv_def)
qed

text \<open>
  Also: a cached reply is the right one.  After any history, a lookup that answers returns the
  response of the latest \<open>set\<close> under the same key, and that \<open>set\<close> is at most \<open>ttl\<close> seconds old.
\<close>

theorem cache_hit_is_latest_set:
  assumes "1 \<le> n" and "cache_run cx xs (new_cache ttl n) = Inr c"
    and "fst (cache_get cx now p m b c) = Some r"
  shows "\<exists>t. last_set cx (make_key cx p m b) xs = Some (t, r) \<and> now \<le> t + ttl"
proof -
  have inv: "cache_inv cx ttl n xs c"
    using cache_run_inv[OF assms(1), of cx xs ttl] assms(2) by auto
  from assms(3) obtain e where "map_of (pc_entries c) (make_key cx p m b) = Some (e, r)" "now \<le> e"
    by (auto simp: cache_get_def Let_def split: option.splits if_splits)
  with inv show ?thesis by (intro exI[of _ "e - ttl"]) (simp add: cache_inv_def)
qed

text \<open>A demonstration codec: texts that tell the requests below apart.\<close>

definition demo_codec :: codec where
  "demo_codec = \<lparr>cx_dumps = (\<lambda>j. case j of JList (JStr s # _) \<Rightarrow> s | _ \<Rightarrow> ''[]''),
     cx_str = (\<lambda>j. ''0''), cx_sha256 = (\<lambda>s. s)\<rparr>"

definition ask :: "string \<Rightarrow> obj" where
  "ask q = [(''messages'', JList [JStr q])]"

definition demo_reply :: "string \<Rightarrow> json" where
  "demo_reply a = JObj [(''choices'', JStr a)]"

theorem cache_bounded_and_total_witness:
  "\<exists>c. cache_run demo_codec [CSet 1 ''p'' ''m'' (ask ''a'') (demo_reply ''x''),
      CSet 2 ''p'' ''m'' (ask ''b'') (demo_reply ''y'')] (new_cache 10 1) = Inr c \<and>
    int (length (pc_entries c)) \<le> 1"
  using cache_bounded_and_total[of 1 demo_codec
      "[CSet 1 ''p'' ''m'' (ask ''a'') (demo_reply ''x''), CSet 2 ''p'' ''m'' (ask ''b'') (demo_reply ''y'')]" 10]
  by blast

definition demo_cache :: prompt_cache where
  "demo_cache = (new_cache 10 1)\<lparr>pc_entries :=
     AList.update (make_key demo_codec ''p'' ''m'' (ask ''a'')) (11, demo_reply ''x'') []\<rparr>"

lemma demo_cache_run:
  "cache_run demo_codec [CSet 1 ''p'' ''m'' (ask ''a'') (demo_reply ''x'')] (new_cache 10 1) = Inr demo_cache"
  by (simp add: cache_set_def new_cache_def demo_cache_def)

theorem cache_hit_is_latest_set_witness:
  "\<exists>t. last_set demo_codec (make_key demo_codec ''p'' ''m'' (ask ''a''))
     [CSet 1 ''p'' ''m'' (ask ''a'') (demo_reply ''x'')] = Some (t, demo_reply ''x'') \<and> 5 \<le> t + 10"
proof (rule cache_hit_is_latest_set[OF _ demo_cache_run])
  show "fst (cache_get demo_codec 5 ''p'' ''m'' (ask ''a'') demo_cache) = Some (demo_reply ''x'')"
    by (simp add: cache_get_def demo_cache_def Let_def)
qed simp

subsection \<open>One store and one lookup\<close>

text \<open>
  Also: storing then asking.  A response stored at time \<open>t\<close> is served until \<open>t + ttl\<close> inclusive;
  after that the lookup misses and drops the entry.
\<close>

theorem set_then_get:
  assumes "cache_set cx t p m b r c = Inr c'"
  shows "fst (cache_get cx now p m b c') = (if now \<le> t + pc_ttl c then Some r else None) \<and>
    (t + pc_ttl c < now \<longleftrightarrow>
      map_of (pc_entries (snd (cache_get cx now p m b c'))) (make_key cx p m b) = None)"
  using assms by (auto simp: cache_set_room rbind_eq_Inr cache_get_def Let_def dict_simps)

theorem set_then_get_witness:
  "fst (cache_get demo_codec 12 ''p'' ''m'' (ask ''a'') demo_cache) = None"
proof -
  have "cache_set demo_codec 1 ''p'' ''m'' (ask ''a'') (demo_reply ''x'') (new_cache 10 1) = Inr demo_cache"
    using demo_cache_run by (simp add: rbind_def split: sum.splits)
  from set_then_get[OF this, of 12] show ?thesis by (simp add: new_cache_def)
qed

text \<open>
  Also: refreshing an entry of a full cache evicts another one.  Storing under a key that is already
  present needs no room, yet when the cache is full and another entry expires first, that entry is
  dropped and the cache shrinks by one.
\<close>

theorem refresh_evicts_another:
  assumes "dict_ok (pc_entries c)" and "pc_max c = int (length (pc_entries c))"
    and "min_key fst (pc_entries c) = Inr k'" and "k' \<noteq> make_key cx p m b"
    and "map_of (pc_entries c) (make_key cx p m b) = Some v"
  shows "\<exists>c'. cache_set cx now p m b r c = Inr c' \<and> map_of (pc_entries c) k' \<noteq> None \<and>
    map_of (pc_entries c') k' = None \<and> Suc (length (pc_entries c')) = length (pc_entries c)"
proof -
  let ?es = "AList.delete k' (pc_entries c)"
  have k': "map_of (pc_entries c) k' \<noteq> None" by (rule min_key_key[OF assms(3)])
  then have "pc_entries c \<noteq> []" by auto
  moreover have "length ?es = length (pc_entries c) - 1"
    using k' pd.sz_del[OF assms(1), of k'] by auto
  moreover have "length (AList.update (make_key cx p m b) x ?es) = length ?es" for x
    using assms(4,5) pd.sz_put[OF pd.ok_del[OF assms(1)]] by (simp add: dict_simps)
  ultimately show ?thesis
    using assms(2-4) k' by (cases "length (pc_entries c)") (auto simp: cache_set_def dict_simps)
qed

definition full_cache :: prompt_cache where
  "full_cache = (new_cache 10 2)\<lparr>pc_entries := [(make_key demo_codec ''p'' ''m'' (ask ''a''), (11, demo_reply ''x'')),
     (make_key demo_codec ''p'' ''m'' (ask ''b''), (12, demo_reply ''y''))]\<rparr>"

theorem refresh_evicts_another_witness:
  "\<exists>c'. cache_set demo_codec 3 ''p'' ''m'' (ask ''b'') (demo_reply ''z'') full_cache = Inr c' \<and>
     length (pc_entries c') = 1"
proof -
  have ne: "make_key demo_codec ''p'' ''m'' (ask ''a'') \<noteq> make_key demo_codec ''p'' ''m'' (ask ''b'')"
    by (simp add: make_key_def demo_codec_def ask_def)
  have "\<exists>c'. cache_set demo_codec 3 ''p'' ''m'' (ask ''b'') (demo_reply ''z'') full_cache = Inr c' \<and>
      map_of (pc_entries full_cache) (make_key demo_codec ''p'' ''m'' (ask ''a'')) \<noteq> None \<and>
      map_of (pc_entries c') (make_key demo_codec ''p'' ''m'' (ask ''a'')) = None \<and>
      Suc (length (pc_entries c')) = length (pc_entries full_cache)"
    using ne by (intro refresh_evicts_another[where v = "(12, demo_reply ''y'')"])
      (simp_all add: full_cache_def new_cache_def)
  then show ?thesis by (auto simp: full_cache_def)
qed

text \<open>
  Also: what the key looks at.  Two requests that agree on the messages, the tools and
  \<open>max_tokens\<close> share one cache entry whatever their other parameters (temperature, seed,
  response format, a system prompt outside the messages) are.
\<close>

theorem key_ignores_other_parameters:
  assumes "\<forall>f \<in> {''messages'', ''tools'', ''max_tokens''}. map_of b f = map_of b' f"
  shows "make_key cx p m b = make_key cx p m b' \<and>
    fst (cache_get cx now p m b c) = fst (cache_get cx now p m b' c)"
  using assms by (simp add: make_key_def cache_get_def)

theorem key_ignores_other_parameters_witness:
  "make_key cx p m ((''temperature'', JNum 0) # ask q) = make_key cx p m ((''temperature'', JNum 1) # ask q)"
  using key_ignores_other_parameters[of "(''temperature'', JNum 0) # ask q" "(''temperature'', JNum 1) # ask q"]
  by simp

end
