(* ===== verification/Inflight.thy ===== *)
theory Inflight
  imports Prelude "HOL-Library.Multiset"
begin

section \<open>The in-flight request registry (src/api/inflight.py)\<close>

text \<open>
  The module-level dictionary of running requests.  The lock makes each operation atomic, so a
  concurrent execution is a sequence of operations.  The random token is an argument of \<open>begin\<close>.
\<close>

record inflight_entry =
  fl_id :: string
  fl_profile :: string
  fl_model :: string
  fl_provider :: string
  fl_started_at :: real
  fl_prompt_tokens :: int
  fl_stream :: bool
  fl_conversation_id :: "string option"
  fl_tools :: int

type_synonym registry = "(string, inflight_entry) dict"

definition MAX_AGE_S :: real where
  "MAX_AGE_S = 6 * 3600"

definition or_unknown :: "string \<Rightarrow> string" where
  "or_unknown s = (if s = [] then ''unknown'' else s)"

definition inflight_begin ::
  "string \<Rightarrow> real \<Rightarrow> string \<Rightarrow> string \<Rightarrow> string \<Rightarrow> int \<Rightarrow> bool \<Rightarrow> string option \<Rightarrow> int \<Rightarrow> registry \<Rightarrow> registry" where
  "inflight_begin token now profile model provider prompt_tokens stream conversation tools reg =
     AList.update token
       \<lparr>fl_id = token, fl_profile = or_unknown profile, fl_model = or_unknown model,
        fl_provider = or_unknown provider, fl_started_at = now, fl_prompt_tokens = prompt_tokens,
        fl_stream = stream, fl_conversation_id = conversation, fl_tools = tools\<rparr> reg"

definition inflight_end :: "string option \<Rightarrow> registry \<Rightarrow> registry" where
  "inflight_end token reg = (case token of
      None \<Rightarrow> reg
    | Some t \<Rightarrow> if t = [] then reg else AList.delete t reg)"

definition sweep :: "real \<Rightarrow> real \<Rightarrow> registry \<Rightarrow> nat \<times> registry" where
  "sweep now max_age reg =
     (let cutoff = now - max_age;
          stale = map fst (filter (\<lambda>(k, v). fl_started_at v < cutoff) reg)
      in (length stale, fold AList.delete stale reg))"

text \<open>A row of the snapshot is the entry with its age; \<open>round1\<close> is \<open>round(x, 1)\<close>.\<close>

definition snapshot :: "(real \<Rightarrow> real) \<Rightarrow> real \<Rightarrow> registry \<Rightarrow> (inflight_entry \<times> real) list" where
  "snapshot round1 now reg =
     sort_key (\<lambda>(v, elapsed). - elapsed) (map (\<lambda>(k, v). (v, round1 (now - fl_started_at v))) reg)"

definition inflight_clear :: "registry \<Rightarrow> registry" where
  "inflight_clear reg = []"

definition inflight_count :: "registry \<Rightarrow> nat" where
  "inflight_count reg = length reg"

subsection \<open>Histories\<close>

datatype inflight_op =
    Begin string real string string string int bool "string option" int
  | End "string option"
  | Sweep real real
  | ClearAll

fun inflight_step :: "inflight_op \<Rightarrow> registry \<Rightarrow> registry" where
  "inflight_step (Begin tok now p m pr n s c ts) reg = inflight_begin tok now p m pr n s c ts reg"
| "inflight_step (End tok) reg = inflight_end tok reg"
| "inflight_step (Sweep now age) reg = snd (sweep now age reg)"
| "inflight_step ClearAll reg = inflight_clear reg"

text \<open>
  The specification, one token at a time: when the request with this token started, if it is
  running.  A sweep forgets a request that started before the cutoff.
\<close>

definition running :: "string \<Rightarrow> inflight_op \<Rightarrow> real option \<Rightarrow> real option" where
  "running k e st = (case e of
      Begin tok now p m pr n s c ts \<Rightarrow> (if tok = k then Some now else st)
    | End tok \<Rightarrow> (if tok = Some k \<and> k \<noteq> [] then None else st)
    | Sweep now age \<Rightarrow> (case st of None \<Rightarrow> None | Some t \<Rightarrow> if t < now - age then None else Some t)
    | ClearAll \<Rightarrow> None)"

definition since :: "string \<Rightarrow> registry \<Rightarrow> real option" where
  "since k reg = map_option fl_started_at (map_of reg k)"

lemma since_fold_delete:
  "since k (fold AList.delete ks reg) = (if k \<in> set ks then None else since k reg)"
  by (simp add: since_def pd.get_fold_del)

lemma stale_iff:
  assumes "dict_ok reg"
  shows "k \<in> set (map fst (filter (\<lambda>(k, v). P v) reg)) \<longleftrightarrow> (\<exists>v. map_of reg k = Some v \<and> P v)"
proof
  assume "k \<in> set (map fst (filter (\<lambda>(k, v). P v) reg))"
  then obtain v where "(k, v) \<in> set reg" and "P v" by auto
  with assms show "\<exists>v. map_of reg k = Some v \<and> P v" by (blast intro: map_of_is_SomeI)
next
  assume "\<exists>v. map_of reg k = Some v \<and> P v"
  then obtain v where "(k, v) \<in> set reg" and "P v" by (blast dest: map_of_SomeD)
  then show "k \<in> set (map fst (filter (\<lambda>(k, v). P v) reg))" by force
qed

lemma since_sweep:
  assumes "dict_ok reg"
  shows "since k (snd (sweep now age reg)) = running k (Sweep now age) (since k reg)"
proof -
  have "since k (snd (sweep now age reg)) =
      (if \<exists>v. map_of reg k = Some v \<and> fl_started_at v < now - age then None else since k reg)"
    using stale_iff[OF assms, of k "\<lambda>v. fl_started_at v < now - age"]
    by (simp only: sweep_def since_fold_delete Let_def snd_conv)
  then show ?thesis by (cases "map_of reg k") (auto simp: running_def since_def)
qed

lemma inflight_ok: "dict_ok reg \<Longrightarrow> dict_ok (inflight_step e reg)"
  by (cases e)
    (auto simp: inflight_begin_def inflight_end_def sweep_def inflight_clear_def Let_def
      intro: wf_intros split: option.split)

lemma since_step:
  assumes "dict_ok reg"
  shows "since k (inflight_step e reg) = running k e (since k reg)"
proof (cases e)
  case (Sweep now age)
  then show ?thesis using since_sweep[OF assms] by simp
next
  case (End tok)
  then show ?thesis
    by (auto simp: inflight_end_def since_def running_def dict_simps split: option.split)
qed (simp_all add: inflight_begin_def inflight_clear_def since_def running_def dict_simps)

lemma history_ok: "dict_ok reg \<Longrightarrow> dict_ok (fold inflight_step es reg)"
  by (induction es arbitrary: reg) (auto intro: inflight_ok)

lemma since_history:
  assumes "dict_ok reg"
  shows "since k (fold inflight_step es reg) = fold (running k) es (since k reg)"
  using assms
  by (induction es arbitrary: reg) (auto simp: since_step inflight_ok)

text \<open>
  Also: the registry shows exactly what is running.  For every interleaving of the operations of any
  number of handler threads, the snapshot lists, once each and longest-running first, the requests
  that have begun and have neither ended nor been swept as leaked: the ones whose own operations,
  taken alone, leave them running.
\<close>

theorem snapshot_shows_running_requests:
  "mset (map fst (snapshot round1 now (fold inflight_step es []))) =
      mset (map snd (fold inflight_step es [])) \<and>
   sorted (map (\<lambda>(v, elapsed). - elapsed) (snapshot round1 now (fold inflight_step es []))) \<and>
   inflight_count (fold inflight_step es []) = card {k. fold (running k) es None \<noteq> None} \<and>
   since k (fold inflight_step es []) = fold (running k) es None"
proof (intro conjI)
  define reg where "reg = fold inflight_step es []"
  have ok: "dict_ok reg" by (simp add: reg_def history_ok)
  have sin: "since k reg = fold (running k) es None" for k
    using since_history[of "[]" k es] by (simp add: reg_def since_def)
  show "since k (fold inflight_step es []) = fold (running k) es None"
    using sin[of k] by (simp add: reg_def)
  have "mset (map fst (snapshot round1 now reg)) =
      mset (map fst (map (\<lambda>(k, v). (v, round1 (now - fl_started_at v))) reg))"
    unfolding snapshot_def mset_map by simp
  also have "map fst (map (\<lambda>(k, v). (v, round1 (now - fl_started_at v))) reg) = map snd reg"
    by auto
  finally show "mset (map fst (snapshot round1 now (fold inflight_step es []))) =
      mset (map snd (fold inflight_step es []))" by (simp add: reg_def)
  show "sorted (map (\<lambda>(v, elapsed). - elapsed) (snapshot round1 now (fold inflight_step es [])))"
    unfolding snapshot_def by (rule sorted_sort_key)
  have "{k. fold (running k) es None \<noteq> None} = set (keys reg)"
    unfolding set_keys_dom by (auto simp: sin[symmetric] since_def dom_def)
  then show "inflight_count (fold inflight_step es []) = card {k. fold (running k) es None \<noteq> None}"
    using ok distinct_card[of "keys reg"] by (simp add: inflight_count_def reg_def)
qed

end
