(* ===== verification/Model_Registry.thy ===== *)
theory Model_Registry
  imports Py_Text
begin

section \<open>Model names (src/api/router.py: registry, logical names)\<close>

text \<open>
  Every provider has its own spelling of a model.  The registry maps the spellings to one logical
  name, pins the logical name to a benchmark key, and gives the spelling to use with a provider.
  The registry rows come from the database and are an argument here.
\<close>

record registry_entry =
  benchmark_key :: string
  provider_mappings :: "(string, string) dict"
  active_release :: "string option"
  benchmark_release :: "string option"
  quantization :: "string option"

type_synonym model_registry = "(string, registry_entry) dict"

text \<open>\<open>s.rsplit("/", 1)[-1]\<close>\<close>

definition last_segment :: "string \<Rightarrow> string" where
  "last_segment s = rev (takeWhile (\<lambda>c. c \<noteq> CHR ''/'') (rev s))"

definition normalize_model_id :: "string \<Rightarrow> string" where
  "normalize_model_id model =
     (if model = [] then model
      else let name0 = strip model;
               name1 = (if starts_with name0 ''/models/'' then drop 8 name0
                        else if starts_with name0 ''/'' then dropWhile (\<lambda>c. c = CHR ''/'') name0
                        else name0);
               name2 = last_segment name1;
               name3 = (if ends_with (lower name2) ''.gguf'' then take (length name2 - 5) name2 else name2)
           in lower (strip name3))"

text \<open>\<open>index.setdefault(k, v)\<close> keeps an existing value.\<close>

definition set_default :: "'k \<Rightarrow> 'v \<Rightarrow> ('k, 'v) dict \<Rightarrow> ('k, 'v) dict" where
  "set_default k v d = (if map_of d k = None then AList.update k v d else d)"

definition index_entry :: "string \<times> registry_entry \<Rightarrow> (string, string) dict \<Rightarrow> (string, string) dict" where
  "index_entry = (\<lambda>(logical, entry) index.
     let i1 = AList.update (lower logical) logical index;
         i2 = (if benchmark_key entry \<noteq> [] then set_default (lower (benchmark_key entry)) logical i1 else i1)
     in fold (\<lambda>(p, side) i. if side \<noteq> [] then set_default (lower side) logical i else i)
          (provider_mappings entry) i2)"

definition index_segments :: "string \<times> registry_entry \<Rightarrow> (string, string) dict \<Rightarrow> (string, string) dict" where
  "index_segments = (\<lambda>(logical, entry) index.
     fold (\<lambda>(p, side) i.
         if side = [] \<or> CHR ''/'' \<notin> set side then i
         else set_default (lower (strip (last_segment side))) logical i)
       (provider_mappings entry) index)"

definition alias_to_logical :: "model_registry \<Rightarrow> (string, string) dict" where
  "alias_to_logical reg = fold index_segments reg (fold index_entry reg [])"

text \<open>A mapped name is used when it is not empty, as in the code.\<close>

definition lookup_alias :: "(string, string) dict \<Rightarrow> string \<Rightarrow> string" where
  "lookup_alias index model =
     (if model = [] then model
      else let key = lower (strip model); mapped = dget index key []
           in if mapped \<noteq> [] then mapped
              else let mapped2 = (if CHR ''/'' \<in> set key
                                  then dget index (strip (last_segment key)) [] else [])
                   in if mapped2 \<noteq> [] then mapped2 else normalize_model_id key)"

definition logical_model_name :: "model_registry \<Rightarrow> string \<Rightarrow> string" where
  "logical_model_name reg model = lookup_alias (alias_to_logical reg) model"

definition benchmark_model_name :: "model_registry \<Rightarrow> string \<Rightarrow> string" where
  "benchmark_model_name reg logical = (case map_of reg logical of
      None \<Rightarrow> logical | Some entry \<Rightarrow> benchmark_key entry)"

definition provider_model_name :: "model_registry \<Rightarrow> string \<Rightarrow> string \<Rightarrow> string" where
  "provider_model_name reg logical provider = (case map_of reg logical of
      None \<Rightarrow> logical
    | Some entry \<Rightarrow> dget (provider_mappings entry) provider logical)"

subsection \<open>The alias index\<close>

text \<open>The logical names that claim a (lower-case) spelling in the first pass.\<close>

definition entry_claims :: "string \<Rightarrow> string \<times> registry_entry \<Rightarrow> bool" where
  "entry_claims k = (\<lambda>(logical, entry). k = lower logical \<or>
     (benchmark_key entry \<noteq> [] \<and> k = lower (benchmark_key entry)) \<or>
     (\<exists>(p, side) \<in> set (provider_mappings entry). side \<noteq> [] \<and> k = lower side))"

lemma map_of_set_default:
  "map_of (set_default k v d) k' = (if k' = k \<and> map_of d k = None then Some v else map_of d k')"
  by (simp add: set_default_def dict_simps)

lemma map_of_sides:
  "map_of (fold (\<lambda>(p, side) i. if side \<noteq> [] then set_default (lower side) l i else i) ms d) k =
     (if map_of d k = None \<and> (\<exists>(p, side) \<in> set ms. side \<noteq> [] \<and> k = lower side)
      then Some l else map_of d k)"
proof (induction ms arbitrary: d)
  case Nil
  then show ?case by simp
next
  case (Cons m ms)
  obtain p side where m: "m = (p, side)" by (cases m)
  show ?case
    by (auto simp: m Cons.IH map_of_set_default)
qed

lemma map_of_index_entry:
  "map_of (index_entry (l, e) d) k =
     (if k = lower l then Some l
      else if map_of d k = None \<and> entry_claims k (l, e) then Some l else map_of d k)"
  by (auto simp: index_entry_def Let_def map_of_sides map_of_set_default dict_simps entry_claims_def)

lemma index_first_pass:
  assumes "\<And>l' e'. (l', e') \<in> set reg \<Longrightarrow> entry_claims k (l', e') \<Longrightarrow> l' = l"
    and "map_of d k \<in> {None, Some l}"
  shows "map_of (fold index_entry reg d) k =
    (if \<exists>x \<in> set reg. entry_claims k x then Some l else map_of d k)"
  using assms
proof (induction reg arbitrary: d)
  case Nil
  then show ?case by simp
next
  case (Cons x reg)
  obtain l' e' where x: "x = (l', e')" by (cases x)
  have own: "entry_claims k (l', e') \<Longrightarrow> l' = l" using Cons.prems(1)[of l' e'] by (simp add: x)
  have "k = lower l' \<Longrightarrow> entry_claims k (l', e')" by (simp add: entry_claims_def)
  with own Cons.prems(2) have step: "map_of (index_entry x d) k =
      (if entry_claims k x then Some l else map_of d k)"
    by (auto simp: x map_of_index_entry)
  moreover have "map_of (index_entry x d) k \<in> {None, Some l}"
    using step Cons.prems(2) by auto
  moreover have "\<And>l' e'. (l', e') \<in> set reg \<Longrightarrow> entry_claims k (l', e') \<Longrightarrow> l' = l"
    using Cons.prems(1) by (meson list.set_intros(2))
  ultimately have "map_of (fold index_entry reg (index_entry x d)) k =
      (if \<exists>x \<in> set reg. entry_claims k x then Some l else map_of (index_entry x d) k)"
    by (intro Cons.IH)
  with step show ?case by simp
qed

lemma index_segments_keep:
  assumes "map_of d k = Some v"
  shows "map_of (index_segments x d) k = Some v"
proof -
  have "map_of (fold (\<lambda>(p, side) i. if side = [] \<or> CHR ''/'' \<notin> set side then i
      else set_default (lower (strip (last_segment side))) l i) ms d) k = Some v" for l ms
    using assms
  proof (induction ms arbitrary: d)
    case Nil
    then show ?case by simp
  next
    case (Cons m ms)
    obtain p side where m: "m = (p, side)" by (cases m)
    have "map_of (if side = [] \<or> CHR ''/'' \<notin> set side then d
        else set_default (lower (strip (last_segment side))) l d) k = Some v"
      using Cons.prems by (auto simp: map_of_set_default)
    from Cons.IH[OF this] show ?case by (simp add: m)
  qed
  then show ?thesis by (cases x) (simp add: index_segments_def)
qed

lemma fold_segments_keep: "map_of d k = Some v \<Longrightarrow> map_of (fold index_segments reg d) k = Some v"
  by (induction reg arbitrary: d) (simp_all add: index_segments_keep)

lemma alias_unique:
  assumes "\<And>l' e'. (l', e') \<in> set reg \<Longrightarrow> entry_claims k (l', e') \<Longrightarrow> l' = l"
    and "(l, e) \<in> set reg" and "entry_claims k (l, e)"
  shows "map_of (alias_to_logical reg) k = Some l"
proof -
  have "map_of (fold index_entry reg []) k =
      (if \<exists>x \<in> set reg. entry_claims k x then Some l else map_of [] k)"
    by (rule index_first_pass[OF assms(1)]) simp_all
  moreover have "\<exists>x \<in> set reg. entry_claims k x" using assms(2,3) by (rule bexI[rotated])
  ultimately have "map_of (fold index_entry reg []) k = Some l" by simp
  then show ?thesis unfolding alias_to_logical_def by (rule fold_segments_keep)
qed

text \<open>
  Also: every provider spelling resolves back.  When a spelling is claimed by one logical model only
  (the registry is unambiguous for it), the name the gateway sends to a provider for that model maps
  back to the same logical model, whatever its letter case and surrounding blanks; so pricing and
  scoring find the same row for every spelling.
\<close>

theorem provider_spelling_resolves_back:
  assumes "map_of reg l = Some e" and "l \<noteq> []"
    and "map_of (provider_mappings e) p = Some side" and "side \<noteq> []"
    and "\<forall>(l', e') \<in> set reg. entry_claims (lower side) (l', e') \<longrightarrow> l' = l"
    and "lower (strip spelling) = lower side"
  shows "logical_model_name reg spelling = l \<and> provider_model_name reg l p = side"
proof
  have e: "(l, e) \<in> set reg" "(p, side) \<in> set (provider_mappings e)"
    using assms(1,3) by (auto dest: map_of_SomeD)
  then have "entry_claims (lower side) (l, e)" using assms(4) by (auto simp: entry_claims_def)
  with e(1) assms(5) have "map_of (alias_to_logical reg) (lower side) = Some l"
    by (intro alias_unique) auto
  moreover have "spelling \<noteq> []"
  proof
    assume "spelling = []"
    then have "length (lower side) = 0" using assms(6) by (simp add: strip_def lstrip_def)
    with assms(4) show False by simp
  qed
  ultimately show "logical_model_name reg spelling = l"
    using assms(2,6) by (simp add: logical_model_name_def lookup_alias_def Let_def)
  show "provider_model_name reg l p = side"
    using assms(1,3) by (simp add: provider_model_name_def)
qed

subsection \<open>The curated registry\<close>

definition reg_row ::
  "string \<Rightarrow> string \<Rightarrow> (string, string) dict \<Rightarrow> string option \<Rightarrow> string option \<Rightarrow> string \<times> registry_entry" where
  "reg_row l b ms active bench = (l, \<lparr>benchmark_key = b, provider_mappings = ms,
     active_release = active, benchmark_release = bench, quantization = None\<rparr>)"

definition DEFAULT_MODEL_REGISTRY :: model_registry where
  "DEFAULT_MODEL_REGISTRY =
    [reg_row ''deepseek-v4-pro'' ''deepseek-v4-pro''
       [(''deepseek'', ''deepseek-v4-pro''), (''opencode'', ''deepseek-v4-pro''),
        (''commandcode'', ''deepseek/deepseek-v4-pro'')] (Some ''2026-08-13'') (Some ''2026-06-25''),
     reg_row ''deepseek-v4-flash'' ''deepseek-v4-flash''
       [(''deepseek'', ''deepseek-v4-flash''), (''opencode'', ''deepseek-v4-flash''),
        (''commandcode'', ''deepseek/deepseek-v4-flash'')] (Some ''2026-07-31'') (Some ''2026-06-25''),
     reg_row ''claude-sonnet-5'' ''claude-sonnet-5'' [(''commandcode'', ''claude-sonnet-5'')] None None,
     reg_row ''claude-fable-5'' ''claude-fable-5'' [(''commandcode'', ''claude-fable-5'')] None None,
     reg_row ''claude-opus-5'' ''claude-opus-5'' [(''commandcode'', ''claude-opus-5'')] None None,
     reg_row ''gpt-5.6-sol'' ''gpt-5.6-sol'' [] None None,
     reg_row ''gpt-5.6-terra'' ''gpt-5.6-terra'' [(''commandcode'', ''gpt-5.6-terra'')] None None,
     reg_row ''gpt-5.6-luna'' ''gpt-5.6-luna'' [(''commandcode'', ''gpt-5.6-luna'')] None None,
     reg_row ''kimi-k3'' ''kimi-k3'' [(''commandcode'', ''moonshotai/Kimi-K3'')] None None,
     reg_row ''minimax-m3'' ''minimax-m3'' [(''commandcode'', ''MiniMaxAI/MiniMax-M3'')] None None,
     reg_row ''qwen3.8-max'' ''qwen-3.8-max'' [(''commandcode'', ''Qwen/Qwen3.8-Max'')] None None,
     reg_row ''grok-4.5'' ''grok-4.5'' [] None None,
     reg_row ''gemini-3.6-flash'' ''gemini-3.6-flash'' [] None None,
     reg_row ''qwen3.8-flash-next'' ''qwen3.8-flash-next'' [(''llamacpp'', ''qwen3.8-flash-next'')]
       (Some ''2026-08-25'') (Some ''2026-08-25'')]"

theorem provider_spelling_resolves_back_witness:
  "logical_model_name DEFAULT_MODEL_REGISTRY '' DeepSeek/DeepSeek-V4-Pro '' = ''deepseek-v4-pro''"
proof -
  have "list_all (\<lambda>(l', e'). entry_claims (lower ''deepseek/deepseek-v4-pro'') (l', e') \<longrightarrow>
      l' = ''deepseek-v4-pro'') DEFAULT_MODEL_REGISTRY"
    unfolding entry_claims_def by code_simp
  then have "\<forall>(l', e') \<in> set DEFAULT_MODEL_REGISTRY.
      entry_claims (lower ''deepseek/deepseek-v4-pro'') (l', e') \<longrightarrow> l' = ''deepseek-v4-pro''"
    by (simp only: list_all_iff)
  moreover have "map_of DEFAULT_MODEL_REGISTRY ''deepseek-v4-pro'' = Some (snd (hd DEFAULT_MODEL_REGISTRY))"
    by (simp add: DEFAULT_MODEL_REGISTRY_def reg_row_def)
  moreover have "map_of (provider_mappings (snd (hd DEFAULT_MODEL_REGISTRY))) ''commandcode'' =
      Some ''deepseek/deepseek-v4-pro''"
    by (simp add: DEFAULT_MODEL_REGISTRY_def reg_row_def)
  moreover have "lower (strip '' DeepSeek/DeepSeek-V4-Pro '') = lower ''deepseek/deepseek-v4-pro''"
    by code_simp
  ultimately show ?thesis using provider_spelling_resolves_back by blast
qed

lemma DEFAULT_index:
  "alias_to_logical DEFAULT_MODEL_REGISTRY =
    [(''deepseek-v4-pro'', ''deepseek-v4-pro''), (''deepseek/deepseek-v4-pro'', ''deepseek-v4-pro''),
     (''deepseek-v4-flash'', ''deepseek-v4-flash''),
     (''deepseek/deepseek-v4-flash'', ''deepseek-v4-flash''),
     (''claude-sonnet-5'', ''claude-sonnet-5''), (''claude-fable-5'', ''claude-fable-5''),
     (''claude-opus-5'', ''claude-opus-5''), (''gpt-5.6-sol'', ''gpt-5.6-sol''),
     (''gpt-5.6-terra'', ''gpt-5.6-terra''), (''gpt-5.6-luna'', ''gpt-5.6-luna''),
     (''kimi-k3'', ''kimi-k3''), (''moonshotai/kimi-k3'', ''kimi-k3''),
     (''minimax-m3'', ''minimax-m3''), (''minimaxai/minimax-m3'', ''minimax-m3''),
     (''qwen3.8-max'', ''qwen3.8-max''), (''qwen-3.8-max'', ''qwen3.8-max''),
     (''qwen/qwen3.8-max'', ''qwen3.8-max''), (''grok-4.5'', ''grok-4.5''),
     (''gemini-3.6-flash'', ''gemini-3.6-flash''), (''qwen3.8-flash-next'', ''qwen3.8-flash-next'')]"
  by code_simp

text \<open>
  Also: the curated registry is unambiguous.  In the registry the gateway is seeded with, every
  logical name, every provider spelling and every bare last segment of a provider spelling resolves
  to its own model.
\<close>

theorem curated_registry_resolves:
  "list_all (\<lambda>(l, e). logical_model_name DEFAULT_MODEL_REGISTRY l = l \<and>
     list_all (\<lambda>(p, side). logical_model_name DEFAULT_MODEL_REGISTRY side = l \<and>
       logical_model_name DEFAULT_MODEL_REGISTRY (last_segment side) = l) (provider_mappings e))
   DEFAULT_MODEL_REGISTRY"
  unfolding logical_model_name_def DEFAULT_index by code_simp

subsection \<open>Seeding the registry table (src/api/seed_capabilities.py)\<close>

text \<open>
  \<open>seed_model_registry\<close> inserts the curated rows that are missing; with \<open>sync\<close> it also
  overwrites the curated columns of the existing ones.  The table has one row per logical name, so it
  is the registry itself; the result carries the number of rows written.
\<close>

definition seed_registry_row ::
  "bool \<Rightarrow> string \<times> registry_entry \<Rightarrow> model_registry \<times> nat \<Rightarrow> model_registry \<times> nat" where
  "seed_registry_row sync = (\<lambda>(logical, entry) (db, count).
     if map_of db logical = None \<or> sync then (AList.update logical entry db, count + 1) else (db, count))"

definition seed_model_registry :: "bool \<Rightarrow> model_registry \<Rightarrow> model_registry \<times> nat" where
  "seed_model_registry sync db = fold (seed_registry_row sync) DEFAULT_MODEL_REGISTRY (db, 0)"

lemma seed_rows_lookup:
  assumes "distinct (map fst rows)"
  shows "map_of (fst (fold (seed_registry_row sync) rows (db, n))) l =
    (if map_of rows l \<noteq> None \<and> (sync \<or> map_of db l = None) then map_of rows l else map_of db l)"
  using assms
proof (induction rows arbitrary: db n)
  case Nil
  then show ?case by simp
next
  case (Cons x rows)
  obtain l' e where x: "x = (l', e)" by (cases x)
  have "map_of rows l' = None" using Cons.prems x by (simp add: map_of_eq_None_iff)
  then show ?case
    using Cons.IH Cons.prems x by (auto simp: seed_registry_row_def dict_simps)
qed

lemma seed_rows_present:
  assumes "\<forall>(l, e) \<in> set rows. map_of db l \<noteq> None"
  shows "fold (seed_registry_row False) rows (db, n) = (db, n)"
  using assms by (induction rows) (auto simp: seed_registry_row_def)

lemma curated_names_distinct: "distinct (map fst DEFAULT_MODEL_REGISTRY)"
  by code_simp

text \<open>
  Also: seeding is insert-only and idempotent.  Without \<open>sync\<close> every row already in the table keeps
  its content, every curated model that was missing gets its curated row, no other row appears, and
  a second run writes nothing.
\<close>

theorem registry_seed_insert_only:
  "(\<forall>l. map_of (fst (seed_model_registry False db)) l =
      (case map_of db l of Some e \<Rightarrow> Some e | None \<Rightarrow> map_of DEFAULT_MODEL_REGISTRY l)) \<and>
   seed_model_registry False (fst (seed_model_registry False db)) =
      (fst (seed_model_registry False db), 0)"
proof -
  have look: "\<forall>l. map_of (fst (seed_model_registry False db)) l =
      (case map_of db l of Some e \<Rightarrow> Some e | None \<Rightarrow> map_of DEFAULT_MODEL_REGISTRY l)"
    unfolding seed_model_registry_def
    by (auto simp: seed_rows_lookup[OF curated_names_distinct] split: option.split)
  have "map_of (fst (seed_model_registry False db)) l \<noteq> None"
    if "(l, e) \<in> set DEFAULT_MODEL_REGISTRY" for l e
  proof -
    have "map_of DEFAULT_MODEL_REGISTRY l = Some e"
      using that curated_names_distinct by (simp add: map_of_is_SomeI)
    with look show ?thesis by (auto split: option.splits)
  qed
  then have "\<forall>(l, e) \<in> set DEFAULT_MODEL_REGISTRY.
      map_of (fst (seed_model_registry False db)) l \<noteq> None" by blast
  then have "seed_model_registry False (fst (seed_model_registry False db)) =
      (fst (seed_model_registry False db), 0)"
    unfolding seed_model_registry_def by (rule seed_rows_present)
  with look show ?thesis by blast
qed

end
