(* ===== verification/Capability_Matrix.thy ===== *)
theory Capability_Matrix
  imports Model_Registry
begin

section \<open>Capability scores (src/api/seed_capabilities.py)\<close>

text \<open>
  The \<open>model_capabilities\<close> table holds scores per model, task, source and release.  The router
  ranks on a matrix task, model, score that is drawn from it: \<open>resolve_active_rows\<close> keeps the
  rows of the release in force, \<open>load_capability_matrix\<close> keeps the best source and fills the
  derived tasks.  The table is the list of its rows in primary-key order; the \<open>updated_at\<close>
  stamps are left out.
\<close>

record capability_row =
  row_model :: string
  task_type :: string
  row_source :: string
  release_label :: "string option"
  row_score :: real
  benchmark_category :: "string option"
  raw_score :: "real option"

definition DERIVED_TASKS :: "(string \<times> string) list" where
  "DERIVED_TASKS = [(''debugging'', ''code_generation''), (''unit_tests'', ''code_generation'')]"

definition SOURCE_PRIORITY :: "(string, nat) dict" where
  "SOURCE_PRIORITY = [(''gateway_yaml'', 0), (''manual'', 1), (''lcp_benchmark'', 2),
     (''livebench'', 3), (''arena'', 4)]"

definition source_rank :: "string \<Rightarrow> nat" where
  "source_rank s = dget SOURCE_PRIORITY s 99"

subsection \<open>Which release counts\<close>

definition by_key :: "model_registry \<Rightarrow> (string, registry_entry) dict" where
  "by_key reg = fold (\<lambda>(l, e) d.
     fold (\<lambda>k d. if k \<noteq> [] then set_default (lower k) e d else d)
       (benchmark_key e # map snd (provider_mappings e)) d) reg []"

text \<open>\<open>entry.get("active_release")\<close> of the entry found for a row's model, an empty one if none.\<close>

definition active_of :: "model_registry \<Rightarrow> string \<Rightarrow> string option" where
  "active_of reg model = (case map_of (by_key reg) (lower model) of
      Some e \<Rightarrow> active_release e
    | None \<Rightarrow> (case map_of reg model of Some e \<Rightarrow> active_release e | None \<Rightarrow> None))"

definition add_row ::
  "capability_row \<Rightarrow> (string, (string option, capability_row list) dict) dict \<Rightarrow>
   (string, (string option, capability_row list) dict) dict" where
  "add_row r d = (let buckets = dget d (row_model r) [] in
     AList.update (row_model r)
       (AList.update (release_label r) (dget buckets (release_label r) [] @ [r]) buckets) d)"

definition by_model ::
  "capability_row list \<Rightarrow> (string, (string option, capability_row list) dict) dict" where
  "by_model rows = fold add_row rows []"

definition selected_release :: "string option \<Rightarrow> string option list \<Rightarrow> string option" where
  "selected_release active labels = (let dated = List.map_filter id labels in
     if active \<in> set labels then active
     else if active \<in> {None, Some ''latest'', Some ''''} \<or> dated = []
       then (if dated \<noteq> [] then Some (Max (set dated)) else None)
     else Some (Max (set dated)))"

definition resolve_active_rows ::
  "capability_row list \<Rightarrow> model_registry \<Rightarrow> string option \<Rightarrow> capability_row list" where
  "resolve_active_rows rows reg release = (case release of
      Some rel \<Rightarrow> filter (\<lambda>r. release_label r = Some rel \<or> release_label r = None) rows
    | None \<Rightarrow> concat (map (\<lambda>(model, buckets).
        dget buckets (selected_release (active_of reg model) (keys buckets)) [] @ dget buckets None [])
        (by_model rows)))"

definition add_release ::
  "capability_row \<Rightarrow> (string, string list) dict \<Rightarrow> (string, string list) dict" where
  "add_release r d = (case release_label r of
      Some rel \<Rightarrow> if rel \<noteq> [] then AList.update (row_model r) (List.insert rel (dget d (row_model r) [])) d else d
    | None \<Rightarrow> d)"

definition effective_releases ::
  "capability_row list \<Rightarrow> model_registry \<Rightarrow> (string, string) dict" where
  "effective_releases rows reg = map (\<lambda>(model, rels). (model,
      case active_of reg model of
        Some a \<Rightarrow> if a \<in> set rels then a else Max (set rels)
      | None \<Rightarrow> Max (set rels))) (fold add_release rows [])"

subsection \<open>The matrix\<close>

definition better_row ::
  "capability_row \<Rightarrow> (string \<times> string, real \<times> string) dict \<Rightarrow> (string \<times> string, real \<times> string) dict" where
  "better_row r best = (let key = (task_type r, row_model r) in
     case map_of best key of
       Some (score, source) \<Rightarrow>
         if source_rank source \<le> source_rank (row_source r) then best
         else AList.update key (row_score r, row_source r) best
     | None \<Rightarrow> AList.update key (row_score r, row_source r) best)"

type_synonym matrix = "(string, (string, real) dict) dict"

definition put_score :: "(string \<times> string) \<times> (real \<times> string) \<Rightarrow> matrix \<Rightarrow> matrix" where
  "put_score = (\<lambda>((task, model), (score, source)) mx.
     AList.update task (AList.update model score (dget mx task [])) mx)"

definition derive_task :: "string \<times> string \<Rightarrow> matrix \<Rightarrow> matrix" where
  "derive_task = (\<lambda>(derived, source) mx. case map_of mx source of
      None \<Rightarrow> mx
    | Some scores \<Rightarrow> AList.update derived
        (fold (\<lambda>(m, s) d. AList.update m s d) scores (dget mx derived [])) mx)"

definition best_rows :: "capability_row list \<Rightarrow> (string \<times> string, real \<times> string) dict" where
  "best_rows rows = fold better_row rows []"

definition load_capability_matrix ::
  "capability_row list \<Rightarrow> model_registry \<Rightarrow> string option \<Rightarrow> matrix" where
  "load_capability_matrix rows reg release =
     (let candidate_rows = resolve_active_rows rows (if release = None then reg else []) release;
          matrix = fold put_score (best_rows candidate_rows) []
      in fold derive_task DERIVED_TASKS matrix)"

definition score_in :: "matrix \<Rightarrow> string \<Rightarrow> string \<Rightarrow> real option" where
  "score_in mx task model = map_of (dget mx task []) model"

subsection \<open>Seeding the scores\<close>

definition row_key :: "capability_row \<Rightarrow> string \<times> string \<times> string \<times> string option" where
  "row_key r = (row_model r, task_type r, row_source r, release_label r)"

fun upsert :: "capability_row \<Rightarrow> capability_row list \<Rightarrow> capability_row list" where
  "upsert r [] = [r]"
| "upsert r (x # xs) = (if row_key x = row_key r then r # xs else x # upsert r xs)"

definition seed_capabilities :: "capability_row list \<Rightarrow> capability_row list \<Rightarrow> capability_row list" where
  "seed_capabilities seed db = fold upsert seed db"

subsection \<open>Lemmas: buckets\<close>

lemma add_row_lookup:
  "dget (dget (add_row r d) m []) l [] =
     (if m = row_model r \<and> l = release_label r then dget (dget d m []) l [] @ [r] else dget (dget d m []) l [])"
  by (auto simp: add_row_def Let_def dict_simps)

lemma by_model_fold_lookup:
  "dget (dget (fold add_row rows d) m []) l [] =
     dget (dget d m []) l [] @ filter (\<lambda>r. row_model r = m \<and> release_label r = l) rows"
  by (induction rows arbitrary: d) (auto simp: add_row_lookup)

lemma by_model_bucket:
  "dget (dget (by_model rows) m []) l [] = filter (\<lambda>r. row_model r = m \<and> release_label r = l) rows"
  by (simp add: by_model_def by_model_fold_lookup)

lemma add_row_labels:
  "set (keys (dget (add_row r d) m [])) =
     (if m = row_model r then insert (release_label r) (set (keys (dget d m []))) else set (keys (dget d m [])))"
  by (auto simp: add_row_def Let_def dict_simps dom_update)

lemma by_model_labels:
  "set (keys (dget (by_model rows) m [])) = release_label ` {r \<in> set rows. row_model r = m}"
proof -
  have "set (keys (dget (fold add_row rows d) m [])) =
      set (keys (dget d m [])) \<union> release_label ` {r \<in> set rows. row_model r = m}" for d
  proof (induction rows arbitrary: d)
    case Nil
    then show ?case by simp
  next
    case (Cons r rows)
    show ?case unfolding fold_simps Cons.IH add_row_labels by auto
  qed
  then show ?thesis by (simp add: by_model_def)
qed

lemma by_model_models: "dict_ok (by_model rows) \<and> set (keys (by_model rows)) = row_model ` set rows"
proof -
  have "dict_ok d \<Longrightarrow> dict_ok (fold add_row rows d) \<and>
      set (keys (fold add_row rows d)) = set (keys d) \<union> row_model ` set rows" for d
    by (induction rows arbitrary: d)
      (auto simp: add_row_def Let_def distinct_update dom_update)
  from this[of "[]"] show ?thesis by (simp add: by_model_def)
qed

lemma resolve_rows_set:
  "set (resolve_active_rows rows reg None) =
     {r \<in> set rows. release_label r = None \<or>
        release_label r = selected_release (active_of reg (row_model r)) (keys (dget (by_model rows) (row_model r) []))}"
    (is "?L = ?R")
proof -
  have bucket: "b = dget (by_model rows) m []" if "(m, b) \<in> set (by_model rows)" for m b
    using that by_model_models[of rows] by (simp add: map_of_is_SomeI)
  let ?sel = "\<lambda>m b. selected_release (active_of reg m) (keys b)"
  let ?F = "\<lambda>m. {r \<in> set rows. row_model r = m \<and>
    (release_label r = None \<or> release_label r = ?sel m (dget (by_model rows) m []))}"
  have piece: "set (dget b (?sel m b) [] @ dget b None []) = ?F m"
    if "(m, b) \<in> set (by_model rows)" for m b
    unfolding bucket[OF that] by_model_bucket set_append set_filter by blast
  have "?L = (\<Union>(m, b) \<in> set (by_model rows). set (dget b (?sel m b) [] @ dget b None []))"
    by (simp add: resolve_active_rows_def case_prod_beta)
  also have "\<dots> = (\<Union>(m, b) \<in> set (by_model rows). ?F m)"
    using piece by blast
  also have "\<dots> = (\<Union>m \<in> set (keys (by_model rows)). ?F m)"
    by (simp add: case_prod_beta)
  also have "\<dots> = ?R"
    using by_model_models[of rows] by blast
  finally show ?thesis .
qed

text \<open>The labels of a model, and what is chosen among them.\<close>

definition dated_labels :: "capability_row list \<Rightarrow> string \<Rightarrow> string set" where
  "dated_labels rows m = {l. \<exists>r \<in> set rows. row_model r = m \<and> release_label r = Some l}"

lemma set_dated: "set (List.map_filter id ls) = {l. Some l \<in> set ls}"
proof (induction ls)
  case Nil
  then show ?case by (simp add: map_filter_simps)
next
  case (Cons x ls)
  then show ?case by (cases x) (auto simp: map_filter_simps)
qed

lemma selected_release_general:
  assumes "{l. Some l \<in> set ls} = D" and "active \<in> set ls \<longleftrightarrow> P"
  shows "selected_release active ls =
    (if P then active else if D = {} then None else Some (Max D))"
proof -
  have D: "set (List.map_filter id ls) = D" using assms(1) by (simp add: set_dated)
  then have "List.map_filter id ls = [] \<longleftrightarrow> D = {}" by (metis set_empty)
  with D assms(2) show ?thesis unfolding selected_release_def Let_def by simp
qed

lemma selected_release_eq:
  "selected_release active (keys (dget (by_model rows) m [])) =
    (if \<exists>r \<in> set rows. row_model r = m \<and> release_label r = active then active
     else if dated_labels rows m = {} then None else Some (Max (dated_labels rows m)))"
proof (rule selected_release_general)
  show "{l. Some l \<in> set (keys (dget (by_model rows) m []))} = dated_labels rows m"
    unfolding by_model_labels dated_labels_def by (rule Collect_cong) (force simp: image_iff)
  show "active \<in> set (keys (dget (by_model rows) m [])) \<longleftrightarrow>
      (\<exists>r \<in> set rows. row_model r = m \<and> release_label r = active)"
    unfolding by_model_labels by (force simp: image_iff)
qed

text \<open>
  Also: one release per model feeds the router.  A row survives the selection exactly when it carries
  no release label, or its label is the one in force for its model: the release the registry pins if
  there are rows for it, and otherwise the newest label the model has rows for.
\<close>

theorem active_release_rows:
  "r \<in> set (resolve_active_rows rows reg None) \<longleftrightarrow>
     r \<in> set rows \<and> (release_label r = None \<or>
       release_label r =
         (if \<exists>r' \<in> set rows. row_model r' = row_model r \<and> release_label r' = active_of reg (row_model r)
          then active_of reg (row_model r)
          else Some (Max (dated_labels rows (row_model r)))))"
proof -
  have "dated_labels rows (row_model r) \<noteq> {}" if "r \<in> set rows" "release_label r \<noteq> None"
    using that by (auto simp: dated_labels_def)
  then show ?thesis
    unfolding resolve_rows_set selected_release_eq by (cases "release_label r") auto
qed

subsection \<open>Lemmas: the releases shown\<close>

lemma add_release_labels:
  "set (dget (fold add_release rows d) m []) = set (dget d m []) \<union> (dated_labels rows m - {[]})"
proof (induction rows arbitrary: d)
  case Nil
  then show ?case by (simp add: dated_labels_def)
next
  case (Cons r rows)
  have "set (dget (add_release r d) m []) = set (dget d m []) \<union> (dated_labels [r] m - {[]})"
    by (auto simp: add_release_def dated_labels_def dict_simps split: option.split)
  moreover have "dated_labels (r # rows) m = dated_labels [r] m \<union> dated_labels rows m"
    by (auto simp: dated_labels_def)
  ultimately show ?case using Cons.IH by (simp add: Un_Diff Un_assoc)
qed

lemma effective_release_newest:
  assumes "active_of reg m = None" and "dated_labels rows m - {[]} \<noteq> {}"
  shows "map_of (effective_releases rows reg) m = Some (Max (dated_labels rows m - {[]}))"
proof -
  let ?d = "fold add_release rows []"
  have d: "set (dget ?d m []) = dated_labels rows m - {[]}"
    using add_release_labels[of rows "[]" m] by simp
  with assms(2) obtain rels where rels: "map_of ?d m = Some rels"
    by (cases "map_of ?d m") auto
  with d have "set rels = dated_labels rows m - {[]}" by simp
  with rels assms(1) show ?thesis by (simp add: effective_releases_def map_of_map_key)
qed

text \<open>
  an unversioned row hides every release of an unpinned model.  When the registry pins no
  release for a model and the table has one row without a label for it, the selection finds "no
  pin" among the labels and keeps only the unversioned rows: no dated row of the model reaches the
  matrix, for any task, although the selection promises the newest release and the list of effective
  releases shows the newest label as the one in force.
\<close>

theorem legacy_row_hides_releases:
  assumes "active_of reg m = None"
    and "legacy \<in> set rows" and "row_model legacy = m" and "release_label legacy = None"
    and "r \<in> set rows" and "row_model r = m" and "release_label r = Some l" and "l \<noteq> []"
  shows "r \<notin> set (resolve_active_rows rows reg None) \<and>
    map_of (effective_releases rows reg) m = Some (Max (dated_labels rows m - {[]}))"
proof
  have "\<exists>r' \<in> set rows. row_model r' = row_model r \<and> release_label r' = active_of reg (row_model r)"
    using assms(1-4,6) by auto
  then have "selected_release (active_of reg (row_model r))
      (keys (dget (by_model rows) (row_model r) [])) = None"
    unfolding selected_release_eq using assms(1,6) by simp
  then show "r \<notin> set (resolve_active_rows rows reg None)"
    unfolding resolve_rows_set using assms(7) by simp
  have "l \<in> dated_labels rows m"
    using assms(5-7) by (auto simp: dated_labels_def)
  then show "map_of (effective_releases rows reg) m = Some (Max (dated_labels rows m - {[]}))"
    using assms(1,8) by (intro effective_release_newest) auto
qed

definition score_row :: "string \<Rightarrow> string \<Rightarrow> string \<Rightarrow> string option \<Rightarrow> real \<Rightarrow> capability_row" where
  "score_row m t src rel s = \<lparr>row_model = m, task_type = t, row_source = src, release_label = rel,
     row_score = s, benchmark_category = None, raw_score = None\<rparr>"

theorem legacy_row_hides_releases_witness:
  "score_row ''kimi-k3'' ''planning'' ''livebench'' (Some ''2026-06-25'') (9/10) \<notin>
     set (resolve_active_rows
       [score_row ''kimi-k3'' ''planning'' ''livebench'' (Some ''2026-06-25'') (9/10),
        score_row ''kimi-k3'' ''casual_chat'' ''arena'' None (1/2)] [] None)"
  by (rule conjunct1[OF legacy_row_hides_releases[where m = "''kimi-k3''" and l = "''2026-06-25''"
        and legacy = "score_row ''kimi-k3'' ''casual_chat'' ''arena'' None (1/2)"]])
    (simp_all add: score_row_def active_of_def by_key_def)

subsection \<open>Lemmas: the matrix\<close>

text \<open>\<open>r\<close> is a row of the cell with the best source rank.\<close>

definition best_of_cell :: "capability_row list \<Rightarrow> string \<times> string \<Rightarrow> capability_row \<Rightarrow> bool" where
  "best_of_cell rows key r \<longleftrightarrow> r \<in> set rows \<and> (task_type r, row_model r) = key \<and>
     (\<forall>r' \<in> set rows. (task_type r', row_model r') = key \<longrightarrow>
        source_rank (row_source r) \<le> source_rank (row_source r'))"

lemma best_rows_invariant:
  "dict_ok (best_rows rows) \<and>
   (case map_of (best_rows rows) key of
      None \<Rightarrow> \<forall>r \<in> set rows. (task_type r, row_model r) \<noteq> key
    | Some (s, src) \<Rightarrow> \<exists>r. best_of_cell rows key r \<and> row_score r = s \<and> row_source r = src)"
proof (induction rows rule: rev_induct)
  case Nil
  then show ?case by (simp add: best_rows_def)
next
  case (snoc r rows)
  let ?b = "best_rows rows"
  have step: "best_rows (rows @ [r]) = better_row r ?b" by (simp add: best_rows_def)
  have ok: "dict_ok (better_row r ?b)"
    using snoc by (auto simp: better_row_def Let_def distinct_update split: option.split)
  show ?case
  proof (cases "(task_type r, row_model r) = key")
    case other: False
    then have same: "map_of (better_row r ?b) key = map_of ?b key"
      by (auto simp: better_row_def Let_def dict_simps split: option.split)
    have "best_of_cell (rows @ [r]) key x \<longleftrightarrow> best_of_cell rows key x" for x
      using other by (auto simp: best_of_cell_def)
    with ok same snoc.IH other show ?thesis unfolding step same
      by (cases "map_of ?b key") (auto simp del: map_of_eq_Some_iff)
  next
    case True
    show ?thesis
    proof (cases "map_of ?b key")
      case None
      then have "map_of (better_row r ?b) key = Some (row_score r, row_source r)"
        using True by (simp add: better_row_def Let_def dict_simps)
      moreover have "best_of_cell (rows @ [r]) key r"
        using None True snoc.IH by (auto simp: best_of_cell_def)
      ultimately show ?thesis using ok unfolding step by auto
    next
      case (Some p)
      obtain s src where p: "p = (s, src)" by (cases p)
      with Some snoc.IH obtain x where x: "best_of_cell rows key x" "row_score x = s" "row_source x = src"
        by auto
      show ?thesis
      proof (cases "source_rank src \<le> source_rank (row_source r)")
        case True
        with \<open>_ = key\<close> Some p have "map_of (better_row r ?b) key = Some (s, src)"
          by (simp add: better_row_def Let_def)
        moreover have "best_of_cell (rows @ [r]) key x"
          using x True by (auto simp: best_of_cell_def)
        ultimately show ?thesis using ok x unfolding step by auto
      next
        case False
        with \<open>_ = key\<close> Some p have "map_of (better_row r ?b) key = Some (row_score r, row_source r)"
          by (simp add: better_row_def Let_def dict_simps)
        moreover have "best_of_cell (rows @ [r]) key r"
          using x False \<open>_ = key\<close> by (fastforce simp: best_of_cell_def)
        ultimately show ?thesis using ok unfolding step by auto
      qed
    qed
  qed
qed

lemma score_in_put:
  "score_in (put_score ((t', m'), (s, src)) mx) t m =
     (if t = t' \<and> m = m' then Some s else score_in mx t m)"
  by (auto simp: score_in_def put_score_def dict_simps)

lemma score_in_fold_put:
  "dict_ok best \<Longrightarrow> score_in (fold put_score best mx) t m =
     (case map_of best (t, m) of Some (s, src) \<Rightarrow> Some s | None \<Rightarrow> score_in mx t m)"
proof (induction best arbitrary: mx)
  case Nil
  then show ?case by simp
next
  case (Cons b best)
  obtain t' m' s src where b: "b = ((t', m'), (s, src))" by (metis prod.exhaust)
  have "map_of best (t', m') = None" using Cons.prems b by (simp add: map_of_eq_None_iff)
  then show ?case using Cons b by (auto simp: score_in_put split: option.split)
qed

definition rows_ok :: "matrix \<Rightarrow> bool" where
  "rows_ok mx \<longleftrightarrow> (\<forall>t. dict_ok (dget mx t []))"

lemma rows_ok_put: "rows_ok mx \<Longrightarrow> rows_ok (put_score b mx)"
proof -
  assume ok: "rows_ok mx"
  obtain t' m' s src where b: "b = ((t', m'), (s, src))" by (metis prod.exhaust)
  have "dget (put_score b mx) t [] =
      (if t = t' then AList.update m' s (dget mx t' []) else dget mx t [])" for t
    by (simp add: b put_score_def dict_simps)
  moreover have "dict_ok (dget mx t [])" for t using ok unfolding rows_ok_def by (rule spec)
  ultimately have "dict_ok (dget (put_score b mx) t [])" for t
    using distinct_update[of "dget mx t' []" m' s] by presburger
  then show ?thesis unfolding rows_ok_def by (rule allI)
qed

lemma rows_ok_fold_put: "rows_ok mx \<Longrightarrow> rows_ok (fold put_score best mx)"
  by (induction best arbitrary: mx) (simp_all add: rows_ok_put)

lemma map_of_fold_update:
  "dict_ok src \<Longrightarrow> map_of (fold (\<lambda>(m, s) d. AList.update m s d) src d) m =
     (case map_of src m of Some s \<Rightarrow> Some s | None \<Rightarrow> map_of d m)"
proof (induction src arbitrary: d)
  case Nil
  then show ?case by simp
next
  case (Cons x src)
  obtain m' s where x: "x = (m', s)" by (cases x)
  have "map_of src m' = None" using Cons.prems x by (simp add: map_of_eq_None_iff)
  then show ?case using Cons x by (auto simp: dict_simps split: option.split)
qed

lemma score_in_derive:
  assumes "dict_ok (dget mx source [])"
  shows "score_in (derive_task (d, source) mx) t m =
    (if t = d \<and> score_in mx source m \<noteq> None then score_in mx source m else score_in mx t m)"
proof (cases "map_of mx source")
  case None
  then show ?thesis by (simp add: derive_task_def score_in_def)
next
  case (Some scores)
  with assms have "dict_ok scores" by simp
  with Some show ?thesis
    by (auto simp: derive_task_def score_in_def dict_simps map_of_fold_update split: option.split)
qed

lemma dget_derive_other: "t \<noteq> d \<Longrightarrow> dget (derive_task (d, source) mx) t [] = dget mx t []"
  by (simp add: derive_task_def dict_simps split: option.split)

text \<open>The matrix before the derived tasks are filled in.\<close>

definition declared_scores ::
  "capability_row list \<Rightarrow> model_registry \<Rightarrow> string option \<Rightarrow> matrix" where
  "declared_scores rows reg release =
     fold put_score (best_rows (resolve_active_rows rows (if release = None then reg else []) release)) []"

lemma load_matrix_scores:
  "score_in (load_capability_matrix rows reg release) t m =
    (if t \<in> {''debugging'', ''unit_tests''} \<and>
        score_in (declared_scores rows reg release) ''code_generation'' m \<noteq> None
     then score_in (declared_scores rows reg release) ''code_generation'' m
     else score_in (declared_scores rows reg release) t m)"
proof -
  let ?mx = "declared_scores rows reg release"
  have "rows_ok ?mx"
    unfolding declared_scores_def by (rule rows_ok_fold_put) (simp add: rows_ok_def)
  then have ok: "dict_ok (dget ?mx ''code_generation'' [])" unfolding rows_ok_def by blast
  have ok': "dict_ok (dget (derive_task (''debugging'', ''code_generation'') ?mx) ''code_generation'' [])"
    unfolding dget_derive_other[of "''code_generation''" "''debugging''", simplified] by (rule ok)
  have "load_capability_matrix rows reg release =
      derive_task (''unit_tests'', ''code_generation'') (derive_task (''debugging'', ''code_generation'') ?mx)"
    by (simp add: load_capability_matrix_def declared_scores_def DERIVED_TASKS_def Let_def)
  then show ?thesis
    by (simp only: score_in_derive[OF ok'] score_in_derive[OF ok]) auto
qed

lemma declared_score_best:
  "(case score_in (declared_scores rows reg None) t m of
      None \<Rightarrow> \<forall>r \<in> set (resolve_active_rows rows reg None). (task_type r, row_model r) \<noteq> (t, m)
    | Some s \<Rightarrow> \<exists>r. best_of_cell (resolve_active_rows rows reg None) (t, m) r \<and> row_score r = s)"
proof -
  let ?best = "best_rows (resolve_active_rows rows reg None)"
  have inv: "dict_ok ?best" "case map_of ?best (t, m) of
      None \<Rightarrow> \<forall>r \<in> set (resolve_active_rows rows reg None). (task_type r, row_model r) \<noteq> (t, m)
    | Some (s, src) \<Rightarrow> \<exists>r. best_of_cell (resolve_active_rows rows reg None) (t, m) r \<and>
        row_score r = s \<and> row_source r = src"
    using best_rows_invariant[of "resolve_active_rows rows reg None" "(t, m)"] by blast+
  have "score_in [] t m = None" by (simp add: score_in_def)
  then have "score_in (declared_scores rows reg None) t m =
      (case map_of ?best (t, m) of Some (s, src) \<Rightarrow> Some s | None \<Rightarrow> None)"
    by (simp add: declared_scores_def score_in_fold_put[OF inv(1)] cong: option.case_cong)
  with inv(2) show ?thesis by (auto split: option.splits)
qed

text \<open>
  Also: the best source wins.  A score of the matrix for a task with rows of its own is the score of a
  row of the release in force, for that model and task, and no such row comes from a source of higher
  priority (gateway file, manual, own benchmark, LiveBench, arena); a cell is empty exactly when there
  is no such row.
\<close>

theorem matrix_keeps_best_source:
  assumes "task \<notin> {''debugging'', ''unit_tests''}"
  shows "case score_in (load_capability_matrix rows reg None) task m of
     None \<Rightarrow> \<forall>r \<in> set (resolve_active_rows rows reg None). (task_type r, row_model r) \<noteq> (task, m)
   | Some s \<Rightarrow> \<exists>r. best_of_cell (resolve_active_rows rows reg None) (task, m) r \<and> row_score r = s"
  using assms declared_score_best[of rows reg task m] unfolding load_matrix_scores by auto

theorem matrix_keeps_best_source_witness:
  "case score_in (load_capability_matrix
       [score_row ''kimi-k3'' ''planning'' ''livebench'' (Some ''2026-06-25'') (9/10),
        score_row ''kimi-k3'' ''planning'' ''manual'' (Some ''2026-06-25'') (1/2)] [] None) ''planning'' ''kimi-k3'' of
     None \<Rightarrow> False
   | Some s \<Rightarrow> True"
proof -
  let ?rows = "[score_row ''kimi-k3'' ''planning'' ''livebench'' (Some ''2026-06-25'') (9/10),
        score_row ''kimi-k3'' ''planning'' ''manual'' (Some ''2026-06-25'') (1/2)]"
  have "hd ?rows \<in> set (resolve_active_rows ?rows [] None) \<and>
      (task_type (hd ?rows), row_model (hd ?rows)) = (''planning'', ''kimi-k3'')"
    by (simp add: resolve_active_rows_def by_model_def add_row_def score_row_def
        selected_release_def active_of_def by_key_def map_filter_simps)
  then show ?thesis
    using matrix_keeps_best_source[of "''planning''" ?rows "[]" "''kimi-k3''"]
    by (auto split: option.splits)
qed

text \<open>
  Also: a score declared for debugging or unit tests is ignored.  As soon as the rows in force hold a
  code-generation score for a model, the matrix answers that score for debugging and unit tests too,
  whatever rows the table has for those tasks: the fallback for missing scores overwrites declared
  ones, so a manual debugging score has no effect.
\<close>

theorem derived_task_overwrites:
  assumes "task \<in> {''debugging'', ''unit_tests''}"
    and "r \<in> set (resolve_active_rows rows reg None)"
    and "task_type r = ''code_generation''" and "row_model r = m"
  shows "score_in (load_capability_matrix rows reg None) task m =
      score_in (load_capability_matrix rows reg None) ''code_generation'' m \<and>
    score_in (load_capability_matrix rows reg None) task m \<noteq> None"
proof -
  have "score_in (declared_scores rows reg None) ''code_generation'' m \<noteq> None"
    using assms(2-4) declared_score_best[of rows reg "''code_generation''" m] by (auto split: option.splits)
  with assms(1) show ?thesis unfolding load_matrix_scores by auto
qed

theorem derived_task_overwrites_witness:
  "score_in (load_capability_matrix
     [score_row ''kimi-k3'' ''code_generation'' ''livebench'' (Some ''2026-06-25'') (9/10),
      score_row ''kimi-k3'' ''debugging'' ''manual'' (Some ''2026-06-25'') (1/5)] [] None)
     ''debugging'' ''kimi-k3'' =
   score_in (load_capability_matrix
     [score_row ''kimi-k3'' ''code_generation'' ''livebench'' (Some ''2026-06-25'') (9/10),
      score_row ''kimi-k3'' ''debugging'' ''manual'' (Some ''2026-06-25'') (1/5)] [] None)
     ''code_generation'' ''kimi-k3''"
  by (rule conjunct1[OF derived_task_overwrites[where
        r = "score_row ''kimi-k3'' ''code_generation'' ''livebench'' (Some ''2026-06-25'') (9/10)"]])
    (simp_all add: resolve_active_rows_def by_model_def add_row_def score_row_def
        selected_release_def active_of_def by_key_def map_filter_simps)

subsection \<open>Lemmas: seeding\<close>

lemma upsert_dict:
  "map (\<lambda>r. (row_key r, r)) (upsert r db) = AList.update (row_key r) r (map (\<lambda>r. (row_key r, r)) db)"
  by (induction db) auto

lemma seed_dict:
  "map (\<lambda>r. (row_key r, r)) (seed_capabilities seed db) =
     fold (\<lambda>(k, r) d. AList.update k r d) (map (\<lambda>r. (row_key r, r)) seed) (map (\<lambda>r. (row_key r, r)) db)"
  unfolding seed_capabilities_def by (induction seed arbitrary: db) (simp_all add: upsert_dict)

lemma upsert_present: "map_of (map (\<lambda>r. (row_key r, r)) db) (row_key r) = Some r \<Longrightarrow> upsert r db = db"
proof (induction db)
  case Nil
  then show ?case by simp
next
  case (Cons x db)
  then show ?case by (cases "row_key x = row_key r") (simp_all del: map_of_eq_Some_iff)
qed

lemma seed_lookup:
  assumes "distinct (map row_key seed)"
  shows "map_of (map (\<lambda>r. (row_key r, r)) (seed_capabilities seed db)) k =
    (case map_of (map (\<lambda>r. (row_key r, r)) seed) k of Some r \<Rightarrow> Some r
     | None \<Rightarrow> map_of (map (\<lambda>r. (row_key r, r)) db) k)"
  unfolding seed_dict
  using assms by (subst map_of_fold_update) (simp_all add: comp_def)

lemma seed_present:
  assumes "\<forall>r \<in> set seed. map_of (map (\<lambda>r. (row_key r, r)) db) (row_key r) = Some r"
  shows "seed_capabilities seed db = db"
  using assms unfolding seed_capabilities_def
  by (induction seed) (simp_all add: upsert_present del: map_of_eq_Some_iff)

lemma upsert_other_rows:
  "k \<noteq> row_key r \<Longrightarrow> filter (\<lambda>x. row_key x = k) (upsert r db) = filter (\<lambda>x. row_key x = k) db"
  by (induction db) auto

lemma seed_other_rows:
  "k \<notin> row_key ` set seed \<Longrightarrow>
   filter (\<lambda>x. row_key x = k) (seed_capabilities seed db) = filter (\<lambda>x. row_key x = k) db"
  unfolding seed_capabilities_def by (induction seed arbitrary: db) (simp_all add: upsert_other_rows)

text \<open>
  Also: seeding the scores is idempotent and non-destructive.  For bundled rows with distinct keys
  (model, task, source, release), a second run changes nothing, every bundled row is in the table
  afterwards, and the rows under every other key (a manual score, another release) are untouched.
\<close>

theorem score_seed_idempotent:
  assumes "distinct (map row_key seed)"
  shows "seed_capabilities seed (seed_capabilities seed db) = seed_capabilities seed db \<and>
    (\<forall>k. k \<notin> row_key ` set seed \<longrightarrow>
       filter (\<lambda>r. row_key r = k) (seed_capabilities seed db) = filter (\<lambda>r. row_key r = k) db) \<and>
    set seed \<subseteq> set (seed_capabilities seed db)"
proof -
  have found: "map_of (map (\<lambda>r. (row_key r, r)) (seed_capabilities seed db)) (row_key r) = Some r"
    if "r \<in> set seed" for r
  proof -
    have "map_of (map (\<lambda>r. (row_key r, r)) seed) (row_key r) = Some r"
      using that assms by (intro map_of_is_SomeI) (auto simp: comp_def)
    then show ?thesis by (simp add: seed_lookup[OF assms] del: map_of_eq_Some_iff)
  qed
  then have "seed_capabilities seed (seed_capabilities seed db) = seed_capabilities seed db"
    by (intro seed_present ballI)
  moreover have "r \<in> set (seed_capabilities seed db)" if "r \<in> set seed" for r
    using map_of_SomeD[OF found[OF that]] by auto
  ultimately show ?thesis using seed_other_rows[of _ seed db] by blast
qed

theorem score_seed_idempotent_witness:
  "seed_capabilities [score_row ''kimi-k3'' ''planning'' ''livebench'' (Some ''2026-06-25'') (9/10)]
     (seed_capabilities [score_row ''kimi-k3'' ''planning'' ''livebench'' (Some ''2026-06-25'') (9/10)]
       [score_row ''kimi-k3'' ''planning'' ''manual'' (Some ''2026-06-25'') (1/10)]) =
   seed_capabilities [score_row ''kimi-k3'' ''planning'' ''livebench'' (Some ''2026-06-25'') (9/10)]
     [score_row ''kimi-k3'' ''planning'' ''manual'' (Some ''2026-06-25'') (1/10)]"
  by (rule conjunct1[OF score_seed_idempotent]) simp

end
