(* ===== verification/Routing_Settings.thy ===== *)
theory Routing_Settings
  imports Py_Text
begin

section \<open>Routing settings (src/api/cost\_cache.py, router.py)\<close>

text \<open>
  The settings table maps keys to text; \<open>base:profile\<close> is the key of a per-profile override.
  The write-through cache of the store always equals the table, so both are the one dictionary.
  The number and JSON readers of the standard library are arguments.  The router combines the
  settings with the \<open>dynamic_routing\<close> section of the configuration.
\<close>

type_synonym settings = "(string, string) dict"

definition ROUTING_POLICY_KEY :: string where "ROUTING_POLICY_KEY = ''routing_policy''"
definition ROUTING_MIN_SCORE_KEY :: string where "ROUTING_MIN_SCORE_KEY = ''routing_min_score''"
definition ROUTING_ENABLED_KEY :: string where "ROUTING_ENABLED_KEY = ''routing_enabled''"
definition ROUTING_RULES_KEY :: string where "ROUTING_RULES_KEY = ''routing_rules''"

definition VALID_POLICIES :: "string list" where
  "VALID_POLICIES = [''eager'', ''cost_first'', ''explore'']"

text \<open>An absent profile and an empty one mean the global scope.\<close>

definition profile_key :: "string \<Rightarrow> string \<Rightarrow> string" where
  "profile_key base profile = (if profile \<noteq> [] then base @ '':'' @ profile else base)"

definition raw_setting :: "settings \<Rightarrow> string \<Rightarrow> string \<Rightarrow> string option" where
  "raw_setting st base profile = (case map_of st (profile_key base profile) of
      Some v \<Rightarrow> Some v
    | None \<Rightarrow> if profile \<noteq> [] then map_of st base else None)"

definition get_routing_policy :: "settings \<Rightarrow> string \<Rightarrow> string \<Rightarrow> string" where
  "get_routing_policy st dflt profile = (case raw_setting st ROUTING_POLICY_KEY profile of
      None \<Rightarrow> dflt
    | Some raw \<Rightarrow> if raw \<in> set VALID_POLICIES then raw else dflt)"

definition get_routing_min_score :: "(string \<Rightarrow> real option) \<Rightarrow> settings \<Rightarrow> real \<Rightarrow> string \<Rightarrow> real" where
  "get_routing_min_score to_float st dflt profile = (case raw_setting st ROUTING_MIN_SCORE_KEY profile of
      None \<Rightarrow> dflt
    | Some raw \<Rightarrow> (case to_float raw of Some x \<Rightarrow> x | None \<Rightarrow> dflt))"

definition reads_on :: "string \<Rightarrow> bool" where
  "reads_on raw \<longleftrightarrow> lower (strip raw) \<in> {''1'', ''true'', ''yes'', ''on''}"

definition get_routing_enabled :: "settings \<Rightarrow> string \<Rightarrow> bool option" where
  "get_routing_enabled st profile = (case raw_setting st ROUTING_ENABLED_KEY profile of
      None \<Rightarrow> None
    | Some raw \<Rightarrow> Some (reads_on raw))"

text \<open>\<open>loads\<close> reads a JSON text: None when it is malformed, an empty list when it is no list.\<close>

definition get_routing_rules :: "(string \<Rightarrow> 'r list option) \<Rightarrow> settings \<Rightarrow> string \<Rightarrow> 'r list" where
  "get_routing_rules loads st profile = (case raw_setting st ROUTING_RULES_KEY profile of
      None \<Rightarrow> []
    | Some raw \<Rightarrow> (case loads raw of Some rules \<Rightarrow> rules | None \<Rightarrow> []))"

datatype settings_error = InvalidPolicy string

definition set_routing_policy :: "string \<Rightarrow> string \<Rightarrow> settings \<Rightarrow> settings_error + settings" where
  "set_routing_policy policy profile st =
     (if policy \<notin> set VALID_POLICIES then Inl (InvalidPolicy policy)
      else Inr (AList.update (profile_key ROUTING_POLICY_KEY profile) policy st))"

definition clear_routing_policy :: "string \<Rightarrow> settings \<Rightarrow> settings" where
  "clear_routing_policy profile st = AList.delete (profile_key ROUTING_POLICY_KEY profile) st"

definition set_routing_enabled :: "bool \<Rightarrow> string \<Rightarrow> settings \<Rightarrow> settings" where
  "set_routing_enabled enabled profile st =
     AList.update (profile_key ROUTING_ENABLED_KEY profile) (if enabled then ''1'' else ''0'') st"

definition clear_routing_enabled :: "string \<Rightarrow> settings \<Rightarrow> settings" where
  "clear_routing_enabled profile st = AList.delete (profile_key ROUTING_ENABLED_KEY profile) st"

definition set_routing_min_score ::
  "(real \<Rightarrow> string) \<Rightarrow> real \<Rightarrow> string \<Rightarrow> settings \<Rightarrow> settings" where
  "set_routing_min_score show_float x profile st =
     AList.update (profile_key ROUTING_MIN_SCORE_KEY profile) (show_float x) st"

definition clear_routing_min_score :: "string \<Rightarrow> settings \<Rightarrow> settings" where
  "clear_routing_min_score profile st = AList.delete (profile_key ROUTING_MIN_SCORE_KEY profile) st"

definition set_routing_rules :: "('r list \<Rightarrow> string) \<Rightarrow> 'r list \<Rightarrow> string \<Rightarrow> settings \<Rightarrow> settings" where
  "set_routing_rules dumps rules profile st =
     AList.update (profile_key ROUTING_RULES_KEY profile) (dumps rules) st"

definition clear_routing_rules :: "string \<Rightarrow> settings \<Rightarrow> settings" where
  "clear_routing_rules profile st = AList.delete (profile_key ROUTING_RULES_KEY profile) st"

subsection \<open>What the router makes of them\<close>

record 'r routing_section =
  rs_policy :: "string option"
  rs_min_score :: "real option"
  rs_rules :: "'r list"

definition effective_policy ::
  "(string \<Rightarrow> real option) \<Rightarrow> settings option \<Rightarrow> 'r routing_section option \<Rightarrow> string \<Rightarrow> string \<times> real" where
  "effective_policy to_float settings config profile =
     (let (policy0, min0) = (case settings of
             None \<Rightarrow> (''eager'', 0)
           | Some st \<Rightarrow> (get_routing_policy st ''eager'' profile, get_routing_min_score to_float st 0 profile))
      in case config of
           None \<Rightarrow> (policy0, min0)
         | Some dr \<Rightarrow>
             ((case rs_policy dr of Some p \<Rightarrow> p | None \<Rightarrow> policy0),
              (case rs_min_score dr of Some x \<Rightarrow> x | None \<Rightarrow> min0)))"

definition router_is_enabled :: "bool \<Rightarrow> settings option \<Rightarrow> string \<Rightarrow> bool" where
  "router_is_enabled boot settings profile = (case settings of
      None \<Rightarrow> boot
    | Some st \<Rightarrow> (case get_routing_enabled st profile of Some e \<Rightarrow> e | None \<Rightarrow> boot))"

definition effective_rules ::
  "(string \<Rightarrow> 'r list option) \<Rightarrow> settings option \<Rightarrow> 'r routing_section option \<Rightarrow> string \<Rightarrow> 'r list" where
  "effective_rules loads settings config profile =
     (let stored = (case settings of None \<Rightarrow> [] | Some st \<Rightarrow> get_routing_rules loads st profile)
      in if stored \<noteq> [] then stored
         else case config of Some dr \<Rightarrow> rs_rules dr | None \<Rightarrow> [])"

subsection \<open>Scopes\<close>

lemma profile_key_eq [simp]: "profile_key base p = profile_key base p' \<longleftrightarrow> p = p'"
  by (auto simp: profile_key_def)

lemma profile_key_empty [simp]: "profile_key base [] = base"
  by (simp add: profile_key_def)

lemma profile_key_base [simp]: "base = profile_key base p \<longleftrightarrow> p = []"
  by (auto simp: profile_key_def)

lemma raw_setting_update:
  "raw_setting (AList.update (profile_key base p) v st) base q =
    (if q = p \<or> p = [] \<and> map_of st (profile_key base q) = None then Some v else raw_setting st base q)"
  by (auto simp: raw_setting_def dict_simps split: option.split)

lemma raw_setting_delete:
  "raw_setting (AList.delete (profile_key base p) st) base q =
    (if q = p then (if p = [] then None else map_of st base)
     else if p = [] then map_of st (profile_key base q) else raw_setting st base q)"
  by (auto simp: raw_setting_def dict_simps split: option.split)

text \<open>
  Also: a profile's routing policy is its own.  Setting a valid policy for a profile makes it that
  profile's policy and leaves every other profile and the global policy as they were; clearing it
  afterwards gives the profile the global policy back; an invalid policy is refused and nothing is
  written.
\<close>

theorem profile_policy_scoped:
  assumes "profile \<noteq> []" and "policy \<in> set VALID_POLICIES"
  shows "\<exists>st'. set_routing_policy policy profile st = Inr st' \<and>
    get_routing_policy st' dflt profile = policy \<and>
    (\<forall>q. q \<noteq> profile \<longrightarrow> get_routing_policy st' dflt q = get_routing_policy st dflt q) \<and>
    get_routing_policy (clear_routing_policy profile st') dflt profile = get_routing_policy st dflt []"
  using assms
  by (auto simp: set_routing_policy_def get_routing_policy_def clear_routing_policy_def
      raw_setting_update raw_setting_delete)
    (auto simp: raw_setting_def dict_simps split: option.split)

theorem profile_policy_scoped_witness:
  "get_routing_policy
     (case set_routing_policy ''explore'' ''l2'' [(''routing_policy'', ''cost_first'')] of
        Inr st \<Rightarrow> st | Inl _ \<Rightarrow> []) ''eager'' ''l2'' = ''explore''"
  using profile_policy_scoped[of "''l2''" "''explore''" "[(''routing_policy'', ''cost_first'')]" "''eager''"]
  by (auto simp: VALID_POLICIES_def)

text \<open>
  Also: a policy set at run time is ignored when the configuration section has one.  After an operator
  has set a valid policy for a profile, the router uses it for that profile if the stored
  \<open>dynamic_routing\<close> section names no policy, and otherwise keeps using the section's policy, although
  the router documents that a per-profile override wins over the configuration.
\<close>

theorem section_overrides_settings:
  assumes "set_routing_policy policy profile st = Inr st'"
  shows "fst (effective_policy to_float (Some st') (Some dr) profile) =
     (case rs_policy dr of Some p \<Rightarrow> p | None \<Rightarrow> policy)"
  using assms
  by (auto simp: effective_policy_def set_routing_policy_def get_routing_policy_def raw_setting_update
      split: if_splits option.splits)

theorem section_overrides_settings_witness:
  "fst (effective_policy (\<lambda>_. None) (Some [(''routing_policy:l2'', ''explore'')])
     (Some \<lparr>rs_policy = Some ''cost_first'', rs_min_score = None, rs_rules = [] :: nat list\<rparr>) ''l2'') = ''cost_first''"
proof -
  have "set_routing_policy ''explore'' ''l2'' [] = Inr [(''routing_policy:l2'', ''explore'')]"
    by (simp add: set_routing_policy_def VALID_POLICIES_def profile_key_def ROUTING_POLICY_KEY_def)
  from section_overrides_settings[OF this, where to_float = "\<lambda>_. None"
      and dr = "\<lparr>rs_policy = Some ''cost_first'', rs_min_score = None, rs_rules = [] :: nat list\<rparr>"]
  show ?thesis by simp
qed

text \<open>
  Also: the routing switch.  A profile's switch decides for the profile, the global switch for the
  profiles without one, and the boot value only where no switch is set; clearing both gives the boot
  value back.
\<close>

theorem routing_switch_precedence:
  assumes "profile \<noteq> []"
  shows "router_is_enabled boot (Some (set_routing_enabled on profile st)) profile = on \<and>
    (map_of st (profile_key ROUTING_ENABLED_KEY profile) = None \<longrightarrow>
       router_is_enabled boot (Some (set_routing_enabled on [] st)) profile = on) \<and>
    router_is_enabled boot
      (Some (clear_routing_enabled [] (clear_routing_enabled profile st))) profile = boot"
proof -
  let ?K = ROUTING_ENABLED_KEY
  have on: "reads_on (if on then ''1'' else ''0'') = on"
  proof (cases on)
    case True
    have "reads_on ''1''" by code_simp
    with True show ?thesis by simp
  next
    case False
    have "\<not> reads_on ''0''" by code_simp
    with False show ?thesis by simp
  qed
  have own: "raw_setting (AList.update (profile_key ?K profile) v st) ?K profile = Some v" for v
    by (simp add: raw_setting_update)
  have glob: "raw_setting (AList.update (profile_key ?K []) v st) ?K profile = Some v"
    if "map_of st (profile_key ?K profile) = None" for v
    unfolding raw_setting_update using that by simp
  have gone: "raw_setting (AList.delete (profile_key ?K []) (AList.delete (profile_key ?K profile) st)) ?K profile = None"
    unfolding raw_setting_delete using assms by (simp add: dict_simps)
  show ?thesis
    unfolding router_is_enabled_def get_routing_enabled_def set_routing_enabled_def
      clear_routing_enabled_def option.case own gone on
    by (intro conjI impI refl) (simp only: glob option.case on)
qed

theorem routing_switch_precedence_witness:
  "router_is_enabled False (Some (set_routing_enabled True ''l2'' [])) ''l2'' = True"
  by (rule conjunct1[OF routing_switch_precedence]) simp

end
