(* ===== verification/Reasoning_Store.thy ===== *)
theory Reasoning_Store
  imports Json_Values "HOL-Library.Multiset"
begin

section \<open>The reasoning store (src/api/reasoning_store.py)\<close>

text \<open>
  Reasoning texts remembered under the identifiers of the tool calls they came with, in two parallel
  dictionaries as in the code.  Identifiers are JSON values: the code accepts any hashable one and
  raises on the others in the middle of a capture, which the callers swallow.
\<close>

record reasoning_store =
  rs_text :: "(json, json) dict"
  rs_stored :: "(json, real) dict"
  rs_ttl :: real
  rs_max :: int

definition new_reasoning_store :: "real \<Rightarrow> int \<Rightarrow> reasoning_store" where
  "new_reasoning_store ttl n = \<lparr>rs_text = [], rs_stored = [], rs_ttl = ttl, rs_max = n\<rparr>"

definition rs_forget :: "json \<Rightarrow> reasoning_store \<Rightarrow> reasoning_store" where
  "rs_forget i s = s\<lparr>rs_text := AList.delete i (rs_text s), rs_stored := AList.delete i (rs_stored s)\<rparr>"

text \<open>The identifiers \<open>_prune\<close> drops: the expired ones, then the oldest beyond the limit.\<close>

definition rs_expired :: "real \<Rightarrow> reasoning_store \<Rightarrow> json list" where
  "rs_expired now s = map fst (filter (\<lambda>(k, t). rs_ttl s < now - t) (rs_stored s))"

definition rs_oldest :: "nat \<Rightarrow> reasoning_store \<Rightarrow> json list" where
  "rs_oldest n s = take n (map fst (sort_key snd (rs_stored s)))"

definition prune :: "real \<Rightarrow> reasoning_store \<Rightarrow> reasoning_store" where
  "prune now s =
     (let s1 = fold rs_forget (rs_expired now s) s;
          overflow = int (length (rs_text s1)) - rs_max s1
      in if 0 < overflow then fold rs_forget (rs_oldest (nat overflow) s1) s1 else s1)"

definition rs_put :: "real \<Rightarrow> json \<Rightarrow> json \<Rightarrow> reasoning_store \<Rightarrow> reasoning_store" where
  "rs_put now i rc s = s\<lparr>rs_text := AList.update i rc (rs_text s),
     rs_stored := AList.update i now (rs_stored s)\<rparr>"

text \<open>The loop of \<open>capture\<close>; False when an identifier was not hashable.\<close>

fun capture_ids :: "real \<Rightarrow> json \<Rightarrow> json list \<Rightarrow> reasoning_store \<Rightarrow> reasoning_store \<times> bool" where
  "capture_ids now rc [] s = (s, True)"
| "capture_ids now rc (i # is) s =
     (if \<not> truthy i then capture_ids now rc is s
      else if \<not> hashable i then (s, False)
      else capture_ids now rc is (rs_put now i rc s))"

definition capture :: "real \<Rightarrow> json list \<Rightarrow> json \<Rightarrow> reasoning_store \<Rightarrow> reasoning_store" where
  "capture now is rc s =
     (if is = [] then s
      else case capture_ids now (if truthy rc then rc else JStr []) is s of (s', ok) \<Rightarrow> if ok then prune now s' else s')"

text \<open>A lookup of an unhashable identifier raises; an expired entry is dropped by the lookup.\<close>

definition get_for_tool_call_id ::
  "real \<Rightarrow> json \<Rightarrow> reasoning_store \<Rightarrow> json option res \<times> reasoning_store" where
  "get_for_tool_call_id now i s =
     (if \<not> truthy i then (Inr None, s)
      else if \<not> hashable i then (Inl TypeError, s)
      else case map_of (rs_stored s) i of
        None \<Rightarrow> (Inr None, s)
      | Some t \<Rightarrow> if rs_ttl s < now - t then (Inr None, rs_forget i s)
                  else (Inr (map_of (rs_text s) i), s))"

text \<open>\<open>tc.get("id", tc.get("tool_call_id"))\<close>\<close>

fun call_id :: "json \<Rightarrow> json res" where
  "call_id (JObj d) = Inr (dget d ''id'' (dget d ''tool_call_id'' JNull))"
| "call_id _ = Inl AttributeError"

text \<open>The inner loop: the first call with a stored, non-empty text.\<close>

fun first_stored :: "real \<Rightarrow> json list \<Rightarrow> reasoning_store \<Rightarrow> json option res \<times> reasoning_store" where
  "first_stored now [] s = (Inr None, s)"
| "first_stored now (tc # tcs) s =
     (case call_id tc of
        Inl e \<Rightarrow> (Inl e, s)
      | Inr i \<Rightarrow>
          if \<not> truthy i then first_stored now tcs s
          else case get_for_tool_call_id now i s of
            (Inl e, s') \<Rightarrow> (Inl e, s')
          | (Inr rc, s') \<Rightarrow>
              if \<not> truthy_opt rc then first_stored now tcs s' else (Inr rc, s'))"

definition needs_reasoning :: "obj \<Rightarrow> bool" where
  "needs_reasoning msg \<longleftrightarrow> map_of msg ''role'' = Some (JStr ''assistant'') \<and>
     truthy_opt (map_of msg ''tool_calls'') \<and> map_of msg ''reasoning_content'' = None"

definition rehydrate_one :: "real \<Rightarrow> obj \<Rightarrow> reasoning_store \<Rightarrow> obj res \<times> reasoning_store" where
  "rehydrate_one now msg s =
     (if \<not> needs_reasoning msg then (Inr msg, s)
      else case py_iter (dget msg ''tool_calls'' JNull) of
        Inl e \<Rightarrow> (Inl e, s)
      | Inr tcs \<Rightarrow> (case first_stored now tcs s of
            (Inl e, s') \<Rightarrow> (Inl e, s')
          | (Inr None, s') \<Rightarrow> (Inr msg, s')
          | (Inr (Some t), s') \<Rightarrow> (Inr (AList.update ''reasoning_content'' t msg), s')))"

text \<open>
  The code changes the messages in place, so what it changed before an exception stays changed:
  the result is the messages, the store and the exception, if any.
\<close>

fun rehydrate :: "real \<Rightarrow> obj list \<Rightarrow> reasoning_store \<Rightarrow> obj list \<times> reasoning_store \<times> py_exn option" where
  "rehydrate now [] s = ([], s, None)"
| "rehydrate now (m # ms) s =
     (case rehydrate_one now m s of
        (Inl e, s1) \<Rightarrow> (m # ms, s1, Some e)
      | (Inr m', s1) \<Rightarrow> (case rehydrate now ms s1 of (ms', s2, e) \<Rightarrow> (m' # ms', s2, e)))"

definition rs_clear :: "reasoning_store \<Rightarrow> reasoning_store" where
  "rs_clear s = s\<lparr>rs_text := [], rs_stored := []\<rparr>"

definition rs_len :: "reasoning_store \<Rightarrow> nat" where
  "rs_len s = length (rs_text s)"

subsection \<open>The two dictionaries agree\<close>

definition rs_ok :: "reasoning_store \<Rightarrow> bool" where
  "rs_ok s \<longleftrightarrow> keys (rs_text s) = keys (rs_stored s) \<and> dict_ok (rs_stored s)"

lemma rs_forget_sel [simp]:
  "rs_ttl (rs_forget i s) = rs_ttl s" "rs_max (rs_forget i s) = rs_max s"
  "rs_text (rs_forget i s) = AList.delete i (rs_text s)"
  "rs_stored (rs_forget i s) = AList.delete i (rs_stored s)"
  by (simp_all add: rs_forget_def)

lemma fold_forget_sel [simp]:
  "rs_ttl (fold rs_forget is s) = rs_ttl s" "rs_max (fold rs_forget is s) = rs_max s"
  "rs_text (fold rs_forget is s) = fold AList.delete is (rs_text s)"
  "rs_stored (fold rs_forget is s) = fold AList.delete is (rs_stored s)"
  by (induction "is" arbitrary: s) simp_all

lemma rs_ok_forget [wf_intros]: "rs_ok s \<Longrightarrow> rs_ok (rs_forget i s)"
  by (simp add: rs_ok_def keys_delete)

lemma rs_ok_fold_forget [wf_intros]: "rs_ok s \<Longrightarrow> rs_ok (fold rs_forget is s)"
  by (induction "is" arbitrary: s) (auto intro: wf_intros)

lemma rs_ok_prune [wf_intros]: "rs_ok s \<Longrightarrow> rs_ok (prune now s)"
  by (simp add: prune_def Let_def wf_intros)

lemma rs_put_sel [simp]:
  "rs_ttl (rs_put now i rc s) = rs_ttl s" "rs_max (rs_put now i rc s) = rs_max s"
  "rs_text (rs_put now i rc s) = AList.update i rc (rs_text s)"
  "rs_stored (rs_put now i rc s) = AList.update i now (rs_stored s)"
  by (simp_all add: rs_put_def)

lemma rs_ok_put:
  assumes "rs_ok s"
  shows "rs_ok (rs_put now i rc s)"
proof -
  have k: "keys (rs_text s) = keys (rs_stored s)" and d: "dict_ok (rs_stored s)"
    using assms by (simp_all add: rs_ok_def)
  have "keys (AList.update i rc (rs_text s)) = keys (AList.update i now (rs_stored s))"
    unfolding keys_update k by simp
  then show ?thesis unfolding rs_ok_def rs_put_sel using pd.ok_put[OF d] by blast
qed

lemma rs_ok_capture_ids: "rs_ok s \<Longrightarrow> rs_ok (fst (capture_ids now rc is s))"
  by (induction now rc "is" s rule: capture_ids.induct) (simp_all add: rs_ok_put)

lemma rs_ok_capture [wf_intros]: "rs_ok s \<Longrightarrow> rs_ok (capture now is rc s)"
  using rs_ok_capture_ids[of s now "if truthy rc then rc else JStr []" "is"]
  by (cases "capture_ids now (if truthy rc then rc else JStr []) is s") (simp add: capture_def wf_intros)

lemma rs_ok_get [wf_intros]: "rs_ok s \<Longrightarrow> rs_ok (snd (get_for_tool_call_id now i s))"
  by (simp add: get_for_tool_call_id_def wf_intros split: option.split)

lemma rs_ok_first_stored: "rs_ok s \<Longrightarrow> rs_ok (snd (first_stored now tcs s))"
proof (induction now tcs s rule: first_stored.induct)
  case (1 now s)
  then show ?case by simp
next
  case (2 now tc tcs s)
  show ?case
  proof (cases "call_id tc")
    case (Inr i)
    obtain rc s' where g: "get_for_tool_call_id now i s = (rc, s')"
      by (cases "get_for_tool_call_id now i s")
    then have "rs_ok s'" using rs_ok_get[OF 2(3), of now i] by simp
    with 2 Inr g show ?thesis by (cases rc) auto
  qed (simp add: 2(3))
qed

lemma rs_ok_rehydrate_one: "rs_ok s \<Longrightarrow> rs_ok (snd (rehydrate_one now m s))"
  using rs_ok_first_stored[of s now]
  by (auto simp: rehydrate_one_def split: sum.split option.split prod.split) (metis snd_conv)+

lemma rs_ok_rehydrate [wf_intros]: "rs_ok s \<Longrightarrow> rs_ok (fst (snd (rehydrate now ms s)))"
proof (induction now ms s rule: rehydrate.induct)
  case (1 now s)
  then show ?case by simp
next
  case (2 now m ms s)
  then show ?case
    using rs_ok_rehydrate_one[of s now m]
    by (auto split: sum.split prod.split)
qed

subsection \<open>Bounds\<close>

lemma rs_ok_length: "rs_ok s \<Longrightarrow> length (rs_text s) = length (rs_stored s)"
  unfolding rs_ok_def by (metis length_map)

lemma capture_ids_sel [simp]:
  "rs_ttl (fst (capture_ids now rc is s)) = rs_ttl s"
  "rs_max (fst (capture_ids now rc is s)) = rs_max s"
  by (induction now rc "is" s rule: capture_ids.induct) simp_all

lemma capture_ids_ok: "\<forall>i \<in> set is. hashable i \<Longrightarrow> snd (capture_ids now rc is s)"
  by (induction now rc "is" s rule: capture_ids.induct) simp_all

lemma set_rs_oldest: "set (rs_oldest n s) \<subseteq> set (keys (rs_stored s))"
  unfolding rs_oldest_def by (rule order_trans[OF set_take_subset]) simp

lemma distinct_rs_oldest: "dict_ok (rs_stored s) \<Longrightarrow> distinct (rs_oldest n s)"
proof -
  assume "dict_ok (rs_stored s)"
  moreover have "mset (map fst (sort_key snd (rs_stored s))) = mset (keys (rs_stored s))" by simp
  ultimately have "dict_ok (sort_key snd (rs_stored s))" using mset_eq_imp_distinct_iff by blast
  then show ?thesis unfolding rs_oldest_def by (rule distinct_take)
qed

lemma length_rs_oldest: "n \<le> length (rs_stored s) \<Longrightarrow> length (rs_oldest n s) = n"
  by (simp add: rs_oldest_def)

lemma prune_bound:
  assumes "rs_ok s" and "0 \<le> rs_max s"
  shows "int (rs_len (prune now s)) \<le> rs_max s"
proof -
  define s1 where "s1 = fold rs_forget (rs_expired now s) s"
  have ok: "rs_ok s1" unfolding s1_def by (rule rs_ok_fold_forget[OF assms(1)])
  have mx: "rs_max s1 = rs_max s" by (simp add: s1_def)
  let ?n = "nat (int (length (rs_text s1)) - rs_max s)"
  have p: "prune now s = (if 0 < int (length (rs_text s1)) - rs_max s
      then fold rs_forget (rs_oldest ?n s1) s1 else s1)"
    by (simp add: prune_def s1_def Let_def)
  have "length (fold AList.delete (rs_oldest ?n s1) (rs_text s1)) = length (rs_text s1) - ?n"
  proof -
    have d: "dict_ok (rs_text s1)" and st: "dict_ok (rs_stored s1)"
      and k: "keys (rs_text s1) = keys (rs_stored s1)" using ok by (simp_all add: rs_ok_def)
    have "\<forall>k \<in> set (rs_oldest ?n s1). map_of (rs_text s1) k \<noteq> None"
      using set_rs_oldest[of ?n s1] unfolding map_of_eq_None_keys k by blast
    from pd.sz_fold_del[OF d distinct_rs_oldest[OF st] this]
    show ?thesis using length_rs_oldest[of ?n s1] rs_ok_length[OF ok] assms(2) by simp
  qed
  with assms(2) show ?thesis by (simp add: p rs_len_def)
qed

text \<open>
  Also: the store stays bounded and its two dictionaries agree.  After any capture of well-formed
  identifiers the store holds at most \<open>max_entries\<close> texts, each with its time.
\<close>

theorem capture_bounded:
  assumes "rs_ok s" and "0 \<le> rs_max s" and "is \<noteq> []" and "\<forall>i \<in> set is. hashable i"
  shows "int (rs_len (capture now is rc s)) \<le> rs_max s \<and> rs_ok (capture now is rc s)"
proof
  let ?rc = "if truthy rc then rc else JStr []"
  obtain s' where s': "capture_ids now ?rc is s = (s', True)"
    using capture_ids_ok[OF assms(4), of now ?rc s] by (cases "capture_ids now ?rc is s") auto
  have "rs_ok s'" "rs_max s' = rs_max s"
    using rs_ok_capture_ids[OF assms(1), of now ?rc "is"] capture_ids_sel(2)[of now ?rc "is" s]
    by (simp_all only: s' fst_conv)
  with prune_bound[of s' now] assms(2,3) show "int (rs_len (capture now is rc s)) \<le> rs_max s"
    by (simp add: capture_def s')
  show "rs_ok (capture now is rc s)" by (rule rs_ok_capture[OF assms(1)])
qed

definition demo_rs :: reasoning_store where
  "demo_rs = (new_reasoning_store 3600 1)\<lparr>rs_text := [(JStr ''call_0'', JStr ''old'')],
     rs_stored := [(JStr ''call_0'', 5)]\<rparr>"

lemma demo_rs_ok: "rs_ok demo_rs"
  by (simp add: rs_ok_def demo_rs_def new_reasoning_store_def)

theorem capture_bounded_witness:
  "int (rs_len (capture 10 [JStr ''call_1'', JStr ''call_2''] (JStr ''why'') demo_rs)) \<le> 1"
  using capture_bounded[OF demo_rs_ok, of "[JStr ''call_1'', JStr ''call_2'']" 10 "JStr ''why''"]
  by (simp add: demo_rs_def new_reasoning_store_def)

subsection \<open>What was captured is found again\<close>

lemma capture_ids_lookup:
  assumes "\<forall>i \<in> set is. hashable i"
  shows "map_of (rs_text (fst (capture_ids now rc is s))) k =
      (if k \<in> set is \<and> truthy k then Some rc else map_of (rs_text s) k) \<and>
    map_of (rs_stored (fst (capture_ids now rc is s))) k =
      (if k \<in> set is \<and> truthy k then Some now else map_of (rs_stored s) k)"
  using assms
proof (induction now rc "is" s rule: capture_ids.induct)
  case (1 now rc s)
  then show ?case by simp
next
  case (2 now rc i "is" s)
  then show ?case by (cases "truthy i") (auto simp: dict_simps)
qed

lemma take_sorted_less:
  assumes "sorted (map f xs)"
  shows "take (length (filter (\<lambda>x. f x < c) xs)) xs = filter (\<lambda>x. f x < (c::real)) xs"
  using assms
proof (induction xs)
  case Nil
  then show ?case by simp
next
  case (Cons x xs)
  show ?case
  proof (cases "f x < c")
    case True
    with Cons show ?thesis by simp
  next
    case False
    with Cons.prems have "filter (\<lambda>x. f x < c) xs = []"
      by (auto simp: filter_empty_conv)
    with False show ?thesis by simp
  qed
qed

text \<open>Entries of the present moment are not among the oldest while older ones suffice.\<close>

lemma oldest_spares_newest:
  assumes "dict_ok (rs_stored s)" and "n \<le> length (filter (\<lambda>(k, t). t < now) (rs_stored s))"
    and "map_of (rs_stored s) k = Some now"
  shows "k \<notin> set (rs_oldest n s)"
proof
  let ?L = "sort_key snd (rs_stored s)"
  assume "k \<in> set (rs_oldest n s)"
  then obtain t where kt: "(k, t) \<in> set (take n ?L)" by (auto simp: rs_oldest_def take_map)
  have n: "n \<le> length (filter (\<lambda>x. snd x < now) ?L)"
    using assms(2) by (simp add: filter_sort case_prod_unfold)
  have "set (take n ?L) \<subseteq> set (take (length (filter (\<lambda>x. snd x < now) ?L)) ?L)"
    by (rule set_take_subset_set_take[OF n])
  also have "\<dots> = set (filter (\<lambda>x. snd x < now) ?L)"
    by (subst take_sorted_less[OF sorted_sort_key]) (rule refl)
  finally have "set (take n ?L) \<subseteq> set (filter (\<lambda>x. snd x < now) ?L)" .
  with kt have "t < now" and "(k, t) \<in> set ?L" by auto
  then have "map_of (rs_stored s) k = Some t" using assms(1) by simp
  with assms(3) \<open>t < now\<close> show False by simp
qed

lemma length_filter_split: "length xs = length (filter P xs) + length (filter (\<lambda>x. \<not> P x) xs)"
  by (rule sum_length_filter_compl[symmetric])

lemma capture_found:
  assumes "rs_ok s" and "\<forall>(k, t) \<in> set (rs_stored s). t < now" and "0 \<le> rs_ttl s"
    and "\<forall>i \<in> set is. hashable i" and "int (length is) \<le> rs_max s"
    and "i \<in> set is" and "truthy i" and "truthy rc"
  shows "map_of (rs_text (capture now is rc s)) i = Some rc \<and>
    map_of (rs_stored (capture now is rc s)) i = Some now"
proof -
  obtain s1 where s1: "capture_ids now rc is s = (s1, True)"
    using capture_ids_ok[OF assms(4), of now rc s] by (cases "capture_ids now rc is s") auto
  have ok1: "rs_ok s1" using rs_ok_capture_ids[OF assms(1), of now rc "is"] by (simp add: s1)
  have sel: "rs_ttl s1 = rs_ttl s" "rs_max s1 = rs_max s"
    using capture_ids_sel[of now rc "is" s] by (simp_all add: s1)
  have look: "map_of (rs_text s1) k = (if k \<in> set is \<and> truthy k then Some rc else map_of (rs_text s) k)"
    "map_of (rs_stored s1) k = (if k \<in> set is \<and> truthy k then Some now else map_of (rs_stored s) k)" for k
    using capture_ids_lookup[OF assms(4), of now rc s k] by (simp_all add: s1)
  define s2 where "s2 = fold rs_forget (rs_expired now s1) s1"
  have ok2: "rs_ok s2" unfolding s2_def by (rule rs_ok_fold_forget[OF ok1])
  have notexp: "i \<notin> set (rs_expired now s1)"
  proof
    assume "i \<in> set (rs_expired now s1)"
    then obtain t where "(i, t) \<in> set (rs_stored s1)" "rs_ttl s < now - t"
      by (auto simp: rs_expired_def sel)
    with ok1 look(2)[of i] assms(3,6,7) show False by (auto simp: rs_ok_def)
  qed
  have st2: "map_of (rs_stored s2) k = (if k \<in> set (rs_expired now s1) then None else map_of (rs_stored s1) k)"
    and tx2: "map_of (rs_text s2) k = (if k \<in> set (rs_expired now s1) then None else map_of (rs_text s1) k)" for k
    by (simp_all add: s2_def pd.get_fold_del)
  have d2: "dict_ok (rs_stored s2)" using ok2 by (simp add: rs_ok_def)
  have new_in: "set (map fst (filter (\<lambda>x. \<not> snd x < now) (rs_stored s2))) \<subseteq> set is"
  proof
    fix k assume "k \<in> set (map fst (filter (\<lambda>x. \<not> snd x < now) (rs_stored s2)))"
    then obtain t where "(k, t) \<in> set (rs_stored s2)" and t: "\<not> t < now" by auto
    with d2 have "map_of (rs_stored s2) k = Some t" by simp
    then have "map_of (rs_stored s1) k = Some t" by (simp add: st2 split: if_splits)
    moreover have "map_of (rs_stored s) k \<noteq> Some t" using t assms(2) map_of_SomeD by fast
    ultimately show "k \<in> set is" using look(2)[of k] by (auto split: if_splits)
  qed
  have "length (filter (\<lambda>x. \<not> snd x < now) (rs_stored s2)) \<le> length is"
  proof -
    have "distinct (map fst (filter (\<lambda>x. \<not> snd x < now) (rs_stored s2)))"
      by (rule distinct_map_filter[OF d2])
    from distinct_card[OF this] card_mono[OF finite_set new_in] card_length[of "is"]
    show ?thesis by simp
  qed
  then have "int (length (rs_text s2)) - rs_max s \<le>
      int (length (filter (\<lambda>(k, t). t < now) (rs_stored s2)))"
    using assms(5) rs_ok_length[OF ok2] length_filter_split[of "rs_stored s2" "\<lambda>x. snd x < now"]
    by (simp add: case_prod_unfold)
  then have spared: "i \<notin> set (rs_oldest (nat (int (length (rs_text s2)) - rs_max s)) s2)"
    using oldest_spares_newest[OF d2, of _ now i] st2[of i] notexp look(2)[of i] assms(6,7)
    by (simp add: nat_le_iff)
  have "capture now is rc s = prune now s1"
    using assms(6,8) by (auto simp: capture_def s1)
  also have "prune now s1 = (if 0 < int (length (rs_text s2)) - rs_max s
      then fold rs_forget (rs_oldest (nat (int (length (rs_text s2)) - rs_max s)) s2) s2 else s2)"
    by (simp add: prune_def s2_def Let_def sel)
  finally show ?thesis
    using spared notexp look[of i] assms(6,7)
    by (simp add: pd.get_fold_del st2 tx2)
qed

lemma get_found:
  assumes "truthy i" and "hashable i" and "map_of (rs_stored s) i = Some t"
    and "map_of (rs_text s) i = Some rc" and "now \<le> t + rs_ttl s"
  shows "get_for_tool_call_id now i s = (Inr (Some rc), s)"
  using assms by (simp add: get_for_tool_call_id_def)

lemma fold_forget_rs: "rs_ttl (capture now is rc s) = rs_ttl s"
  using capture_ids_sel(1)[of now "if truthy rc then rc else JStr []" "is" s]
  by (cases "capture_ids now (if truthy rc then rc else JStr []) is s")
    (simp add: capture_def prune_def Let_def)

text \<open>
  Also: reasoning comes back.  The text captured with a response whose calls fit the store is
  re-attached, within the time to live, to any later assistant turn that carries one of these calls
  first and has lost its text; nothing else of the message changes.
\<close>

theorem capture_then_rehydrate:
  assumes "rs_ok s" and "\<forall>(k, t) \<in> set (rs_stored s). t < now" and "0 \<le> rs_ttl s"
    and "\<forall>i \<in> set is. hashable i" and "int (length is) \<le> rs_max s" and "truthy rc"
    and "call_id tc = Inr i" and "i \<in> set is" and "truthy i"
    and "needs_reasoning msg" and "map_of msg ''tool_calls'' = Some (JList (tc # tcs))"
    and "later \<le> now + rs_ttl s"
  shows "rehydrate_one later msg (capture now is rc s) =
    (Inr (AList.update ''reasoning_content'' rc msg), capture now is rc s)"
proof -
  have "get_for_tool_call_id later i (capture now is rc s) = (Inr (Some rc), capture now is rc s)"
    using capture_found[OF assms(1-5,8,9,6)] assms(4,8,9,12)
    by (intro get_found) (simp_all add: fold_forget_rs)
  with assms(6,7,9-11) show ?thesis by (simp add: rehydrate_one_def)
qed

definition demo_turn :: obj where
  "demo_turn = [(''role'', JStr ''assistant''), (''content'', JStr []),
     (''tool_calls'', JList [JObj [(''id'', JStr ''call_1'')]])]"

theorem capture_then_rehydrate_witness:
  "fst (rehydrate_one 20 demo_turn (capture 10 [JStr ''call_1''] (JStr ''why'') demo_rs)) =
    Inr (AList.update ''reasoning_content'' (JStr ''why'') demo_turn)"
proof -
  have "rehydrate_one 20 demo_turn (capture 10 [JStr ''call_1''] (JStr ''why'') demo_rs) =
      (Inr (AList.update ''reasoning_content'' (JStr ''why'') demo_turn),
       capture 10 [JStr ''call_1''] (JStr ''why'') demo_rs)"
    by (rule capture_then_rehydrate[where tc = "JObj [(''id'', JStr ''call_1'')]" and tcs = "[]"
          and i = "JStr ''call_1''", OF demo_rs_ok])
      (simp_all add: demo_rs_def new_reasoning_store_def demo_turn_def needs_reasoning_def)
  then show ?thesis by simp
qed

subsection \<open>Rehydration only fills gaps\<close>

definition filled_from :: "reasoning_store \<Rightarrow> obj \<Rightarrow> obj \<Rightarrow> bool" where
  "filled_from s m m' \<longleftrightarrow> m' = m \<or> (needs_reasoning m \<and>
     (\<exists>t \<in> set (map snd (rs_text s)). truthy t \<and> m' = m @ [(''reasoning_content'', t)]))"

lemma get_text_subset:
  "get_for_tool_call_id now i s = (r, s') \<Longrightarrow> set (rs_text s') \<subseteq> set (rs_text s) \<and>
   (\<forall>t. r = Inr (Some t) \<longrightarrow> t \<in> snd ` set (rs_text s))"
  by (auto simp: get_for_tool_call_id_def AList.delete_eq rev_image_eqI dest: map_of_SomeD
      split: if_splits option.splits)

lemma first_stored_text:
  "first_stored now tcs s = (r, s') \<Longrightarrow> set (rs_text s') \<subseteq> set (rs_text s) \<and>
   (\<forall>t. r = Inr (Some t) \<longrightarrow> truthy t \<and> t \<in> snd ` set (rs_text s))"
proof (induction now tcs s arbitrary: r s' rule: first_stored.induct)
  case (1 now s)
  then show ?case by auto
next
  case (2 now tc tcs s)
  show ?case
  proof (cases "call_id tc")
    case (Inl e)
    with 2(3) show ?thesis by auto
  next
    case (Inr i)
    obtain g s1 where g: "get_for_tool_call_id now i s = (g, s1)"
      by (cases "get_for_tool_call_id now i s")
    note sub = get_text_subset[OF g]
    consider (skip) "\<not> truthy i" | (exn) e where "truthy i" "g = Inl e"
      | (empty) rc where "truthy i" "g = Inr rc" "\<not> truthy_opt rc"
      | (found) t where "truthy i" "g = Inr (Some t)" "truthy t"
      by (cases "truthy i"; cases g; cases "projr g") auto
    then show ?thesis
    proof cases
      case skip
      then show ?thesis using 2(1)[OF Inr] 2(3) Inr by simp
    next
      case exn
      then show ?thesis using sub 2(3) Inr g by auto
    next
      case empty
      then have "first_stored now tcs s1 = (r, s')" using 2(3) Inr g by auto
      with 2(2)[OF Inr] empty g have "set (rs_text s') \<subseteq> set (rs_text s1) \<and>
          (\<forall>t. r = Inr (Some t) \<longrightarrow> truthy t \<and> t \<in> snd ` set (rs_text s1))" by simp
      moreover from sub have "set (rs_text s1) \<subseteq> set (rs_text s)" by simp
      then have "snd ` set (rs_text s1) \<subseteq> snd ` set (rs_text s)" by (rule image_mono)
      ultimately show ?thesis using \<open>set (rs_text s1) \<subseteq> set (rs_text s)\<close> by blast
    next
      case found
      then show ?thesis using sub 2(3) Inr g by auto
    qed
  qed
qed

lemma rehydrate_one_filled:
  assumes "rehydrate_one now m s = (Inr m', s')"
  shows "filled_from s m m' \<and> set (rs_text s') \<subseteq> set (rs_text s)"
proof (cases "needs_reasoning m")
  case False
  with assms show ?thesis by (simp add: rehydrate_one_def filled_from_def)
next
  case True
  then obtain tcs where tcs: "py_iter (dget m ''tool_calls'' JNull) = Inr tcs"
    using assms by (cases "py_iter (dget m ''tool_calls'' JNull)") (auto simp: rehydrate_one_def)
  obtain r s1 where fs: "first_stored now tcs s = (r, s1)" by (cases "first_stored now tcs s")
  then obtain rc where rc: "r = Inr rc" using assms True tcs by (cases r) (auto simp: rehydrate_one_def)
  note sub = first_stored_text[OF fs]
  show ?thesis
  proof (cases rc)
    case None
    with assms True tcs fs rc sub show ?thesis by (simp add: rehydrate_one_def filled_from_def)
  next
    case (Some t)
    have "''reasoning_content'' \<notin> set (keys m)"
      using True by (simp add: needs_reasoning_def map_of_eq_None_iff)
    then have "m' = m @ [(''reasoning_content'', t)]" "s' = s1"
      using assms True tcs fs rc Some by (simp_all add: rehydrate_one_def update_fresh)
    with sub True rc Some show ?thesis by (auto simp: filled_from_def)
  qed
qed

lemma filled_from_mono:
  "set (rs_text s') \<subseteq> set (rs_text s) \<Longrightarrow> filled_from s' m m' \<Longrightarrow> filled_from s m m'"
  unfolding filled_from_def by auto

lemma rehydrate_fills:
  "list_all2 (filled_from s) ms (fst (rehydrate now ms s))"
proof (induction now ms s rule: rehydrate.induct)
  case (1 now s)
  then show ?case by simp
next
  case (2 now m ms s)
  obtain r s1 where r: "rehydrate_one now m s = (r, s1)" by (cases "rehydrate_one now m s")
  show ?case
  proof (cases r)
    case (Inl e)
    then show ?thesis by (simp add: r filled_from_def list_all2_refl)
  next
    case (Inr m')
    note one = rehydrate_one_filled[OF r[unfolded Inr]]
    have "list_all2 (filled_from s1) ms (fst (rehydrate now ms s1))"
      using 2[OF r[symmetric] Inr] by simp
    then have "list_all2 (filled_from s) ms (fst (rehydrate now ms s1))"
      by (rule list_all2_mono) (use one filled_from_mono in blast)
    with one Inr show ?thesis by (simp add: r case_prod_beta)
  qed
qed

text \<open>
  Also: rehydration only fills gaps.  Whatever the messages and the store, and even when it stops at a
  malformed call, every message comes back unchanged or, if it is a tool-calling assistant turn
  without reasoning, extended by a non-empty text that was stored; none is added, lost or reordered.
\<close>

theorem rehydrate_only_fills:
  "list_all2 (filled_from s) ms (fst (rehydrate now ms s))"
  by (rule rehydrate_fills)

end
