(* ===== verification/Messages.thy ===== *)
theory Messages
  imports Reasoning_Store Py_Text
begin

section \<open>Preparing the conversation (src/api/request\_pipeline.py)\<close>

text \<open>
  What the pipeline does to the messages and tools of a request before it forwards them: tool
  stripping, normalisation for the provider's prefix cache, repair of dangling tool calls, and the
  reasoning field DeepSeek's thinking mode demands.  A message is an object; the values of its
  fields are arbitrary JSON, so iterating or hashing them may raise.
\<close>

abbreviation role_of :: "obj \<Rightarrow> json" where
  "role_of m \<equiv> dget m ''role'' JNull"

subsection \<open>Tool stripping\<close>

text \<open>\<open>t.get("function", \{\}).get("name", dflt)\<close>\<close>

definition tool_name :: "json \<Rightarrow> json \<Rightarrow> json res" where
  "tool_name dflt t = rbind (py_get t ''function'' (JObj [])) (\<lambda>f. py_get f ''name'' dflt)"

definition strip_forbidden_tools :: "obj \<Rightarrow> string list option \<Rightarrow> (obj \<times> json list) res" where
  "strip_forbidden_tools body forbidden =
     (if \<not> truthy_opt (map_of body ''tools'') then Inr (body, [])
      else case forbidden of
        None \<Rightarrow>
          rbind (py_iter (dget body ''tools'' JNull)) (\<lambda>ts.
          rbind (rmap (tool_name (JStr ''unknown'')) ts) (\<lambda>ns.
            Inr (AList.update ''tools'' (JList []) body, ns)))
      | Some fs \<Rightarrow>
          if fs = [] then Inr (body, [])
          else rbind (py_iter (dget body ''tools'' JNull)) (\<lambda>ts.
               rbind (rmap (tool_name (JStr [])) ts) (\<lambda>ns.
                 let forb = (\<lambda>n. n \<in> JStr ` set fs) in
                 Inr (AList.update ''tools''
                        (JList (map fst (filter (\<lambda>(t, n). \<not> forb n) (zip ts ns)))) body,
                      filter forb ns))))"

subsection \<open>Normalisation for the prefix cache\<close>

definition norm_content :: "json \<Rightarrow> json \<Rightarrow> json" where
  "norm_content role c = (case c of
      JStr s \<Rightarrow> JStr (if role = JStr ''system'' then rstrip s else s)
    | _ \<Rightarrow> c)"

definition normalize_message :: "obj \<Rightarrow> obj" where
  "normalize_message msg =
     (let role = dget msg ''role'' (JStr ''user'');
          content = norm_content role (dget msg ''content'' (JStr []));
          reasoning = (case map_of msg ''reasoning_content'' of
              None \<Rightarrow> [] | Some r \<Rightarrow> [(''reasoning_content'', r)]);
          name = (if truthy_opt (map_of msg ''name'') then [(''name'', dget msg ''name'' JNull)] else [])
      in if role = JStr ''tool''
         then [(''role'', role), (''content'', content),
               (''tool_call_id'', dget msg ''tool_call_id'' (JStr []))]
         else if role = JStr ''assistant'' \<and> truthy_opt (map_of msg ''tool_calls'')
         then [(''role'', role), (''content'', content),
               (''tool_calls'', dget msg ''tool_calls'' JNull)] @ reasoning @ name
         else [(''role'', role), (''content'', content)] @
              (if role = JStr ''assistant'' then reasoning else []) @ name)"

definition normalize_messages_for_cache :: "obj list \<Rightarrow> obj list" where
  "normalize_messages_for_cache ms = map normalize_message ms"

text \<open>
  \<open>sorted(tools, key=name)\<close>: a stable sort; names of different types cannot be compared.  Names
  that are booleans or lists, which Python could still order, are not distinguished.
\<close>

definition py_sorted :: "(json \<times> 'a) list \<Rightarrow> 'a list res" where
  "py_sorted kxs =
     (if length kxs \<le> 1 then Inr (map snd kxs)
      else if \<forall>k \<in> set (map fst kxs). is_str k
      then Inr (map snd (sort_key (\<lambda>(k, x). case k of JStr s \<Rightarrow> s | _ \<Rightarrow> []) kxs))
      else if \<forall>k \<in> set (map fst kxs). case k of JNum n \<Rightarrow> True | _ \<Rightarrow> False
      then Inr (map snd (sort_key (\<lambda>(k, x). case k of JNum n \<Rightarrow> n | _ \<Rightarrow> 0) kxs))
      else Inl TypeError)"

definition normalize_tools_for_cache :: "json list \<Rightarrow> json list res" where
  "normalize_tools_for_cache tools =
     rbind (rmap (tool_name (JStr [])) tools) (\<lambda>ns. py_sorted (zip ns tools))"

fun has_image_blocks :: "json list \<Rightarrow> bool res" where
  "has_image_blocks [] = Inr False"
| "has_image_blocks (b # bs) =
     rbind (py_get b ''type'' JNull) (\<lambda>t.
       if t = JStr ''image_url'' then Inr True else has_image_blocks bs)"

fun has_image_content :: "json list \<Rightarrow> bool res" where
  "has_image_content [] = Inr False"
| "has_image_content (m # ms) =
     rbind (py_get m ''content'' JNull) (\<lambda>c. case c of
         JList bs \<Rightarrow> rbind (has_image_blocks bs) (\<lambda>b. if b then Inr True else has_image_content ms)
       | _ \<Rightarrow> has_image_content ms)"

subsection \<open>Repairing tool calls\<close>

definition has_calls :: "obj \<Rightarrow> bool" where
  "has_calls m \<longleftrightarrow> map_of m ''role'' = Some (JStr ''assistant'') \<and> truthy_opt (map_of m ''tool_calls'')"

definition is_tool :: "obj \<Rightarrow> bool" where
  "is_tool m \<longleftrightarrow> map_of m ''role'' = Some (JStr ''tool'')"

text \<open>The identifiers added to the set for one assistant message; unhashable ones raise.\<close>

fun add_ids :: "json list \<Rightarrow> json list res" where
  "add_ids [] = Inr []"
| "add_ids (tc # tcs) =
     rbind (call_id tc) (\<lambda>i.
       if \<not> truthy i then add_ids tcs
       else if \<not> hashable i then Inl TypeError
       else rbind (add_ids tcs) (\<lambda>is. Inr (i # is)))"

fun declared_ids :: "obj list \<Rightarrow> json list res" where
  "declared_ids [] = Inr []"
| "declared_ids (m # ms) =
     (if has_calls m
      then rbind (py_iter (dget m ''tool_calls'' JNull)) (\<lambda>tcs. rbind (add_ids tcs) (\<lambda>a.
           rbind (declared_ids ms) (\<lambda>b. Inr (a @ b))))
      else declared_ids ms)"

fun referenced_ids :: "obj list \<Rightarrow> json list res" where
  "referenced_ids [] = Inr []"
| "referenced_ids (m # ms) =
     (if is_tool m \<and> truthy_opt (map_of m ''tool_call_id'')
      then let i = dget m ''tool_call_id'' JNull in
           if \<not> hashable i then Inl TypeError
           else rbind (referenced_ids ms) (\<lambda>is. Inr (i # is))
      else referenced_ids ms)"

definition in_ids :: "json list \<Rightarrow> json \<Rightarrow> bool res" where
  "in_ids is i = (if hashable i then Inr (i \<in> set is) else Inl TypeError)"

fun kept_calls :: "json list \<Rightarrow> json list \<Rightarrow> json list res" where
  "kept_calls rem [] = Inr []"
| "kept_calls rem (tc # tcs) =
     rbind (call_id tc) (\<lambda>i. rbind (in_ids rem i) (\<lambda>b.
     rbind (kept_calls rem tcs) (\<lambda>ks. Inr (if b then ks else tc # ks))))"

fun sanitize_loop :: "json list \<Rightarrow> obj list \<Rightarrow> obj list res" where
  "sanitize_loop rem [] = Inr []"
| "sanitize_loop rem (m # ms) =
     (if is_tool m
      then rbind (in_ids rem (dget m ''tool_call_id'' JNull)) (\<lambda>b.
           rbind (sanitize_loop rem ms) (\<lambda>ms'.
             Inr ((if b then [(''role'', JStr ''user''), (''content'', dget m ''content'' (JStr []))] else m)
                  # ms')))
      else if has_calls m
      then rbind (py_iter (dget m ''tool_calls'' JNull)) (\<lambda>tcs. rbind (kept_calls rem tcs) (\<lambda>ks.
           rbind (sanitize_loop rem ms) (\<lambda>ms'.
             Inr (if ks \<noteq> [] then AList.update ''tool_calls'' (JList ks) m # ms'
                  else if truthy_opt (map_of m ''content'')
                  then AList.update ''tool_calls'' JNull m # ms'
                  else ms'))))
      else rbind (sanitize_loop rem ms) (\<lambda>ms'. Inr (m # ms')))"

definition sanitize_messages :: "obj list \<Rightarrow> obj list res" where
  "sanitize_messages ms =
     (if ms = [] then Inr []
      else rbind (declared_ids ms) (\<lambda>d. rbind (referenced_ids ms) (\<lambda>r.
        let dangling = filter (\<lambda>i. i \<notin> set r) d;
            orphaned = filter (\<lambda>i. i \<notin> set d) r
        in if dangling = [] \<and> orphaned = [] then Inr ms
           else sanitize_loop (dangling @ orphaned) ms)))"

subsection \<open>Reasoning content\<close>

text \<open>
  \<open>supports\<close> is the model's \<open>supports_thinking\<close> flag; an exception of the store is swallowed, and
  what it already attached stays.
\<close>

definition ensure_thinking_reasoning_content ::
  "bool \<Rightarrow> real \<Rightarrow> obj list \<Rightarrow> reasoning_store \<Rightarrow> obj list \<times> reasoning_store" where
  "ensure_thinking_reasoning_content supports now ms s =
     (if \<not> supports then (ms, s)
      else case rehydrate now ms s of (ms', s', e) \<Rightarrow>
        (map (\<lambda>m. if needs_reasoning m
                  then AList.update ''reasoning_content'' (JStr []) m else m) ms', s'))"

text \<open>
  Capturing the reasoning of a response; any exception is swallowed and captures nothing.
  \<open>first_item\<close> is \<open>x[0]\<close>.
\<close>

fun first_item :: "json \<Rightarrow> json res" where
  "first_item (JList (x # xs)) = Inr x"
| "first_item (JList []) = Inl IndexError"
| "first_item (JStr (c # cs)) = Inr (JStr [c])"
| "first_item (JStr []) = Inl IndexError"
| "first_item (JObj d) = Inl KeyError"
| "first_item _ = Inl TypeError"

definition or_else :: "json \<Rightarrow> json \<Rightarrow> json" where
  "or_else j d = (if truthy j then j else d)"

definition truthy_ids :: "json list \<Rightarrow> json list res" where
  "truthy_ids tcs = rbind (rmap call_id tcs) (\<lambda>is. Inr (filter truthy is))"

definition capture_reasoning_from_response :: "real \<Rightarrow> json \<Rightarrow> reasoning_store \<Rightarrow> reasoning_store" where
  "capture_reasoning_from_response now response s =
     (case rbind (py_get (or_else response (JObj [])) ''choices'' (JList [JObj []])) (\<lambda>cs.
           rbind (first_item cs) (\<lambda>c. rbind (py_get c ''message'' (JObj [])) (\<lambda>msg.
           rbind (py_get msg ''reasoning_content'' JNull) (\<lambda>reasoning.
           rbind (py_get msg ''tool_calls'' JNull) (\<lambda>tcs.
           rbind (py_iter (or_else tcs (JList []))) (\<lambda>calls.
           rbind (truthy_ids calls) (\<lambda>is. Inr (is, reasoning)))))))) of
        Inl e \<Rightarrow> s
      | Inr (is, reasoning) \<Rightarrow> if is \<noteq> [] \<and> truthy reasoning then capture now is reasoning s else s)"

text \<open>
  The streamed form: the parsed events of the stream (\<open>loads\<close> is \<open>json.loads\<close>, None when it
  raises), the reasoning pieces and call identifiers gathered over all of them.
\<close>

fun split_lines :: "string \<Rightarrow> string list" where
  "split_lines [] = [[]]"
| "split_lines (c # cs) = (if c = CHR 0x0A then [] # split_lines cs
     else case split_lines cs of [] \<Rightarrow> [[c]] | l # ls \<Rightarrow> (c # l) # ls)"

definition sse_objects :: "(string \<Rightarrow> json option) \<Rightarrow> string \<Rightarrow> json list" where
  "sse_objects loads text =
     concat (map (\<lambda>line. if \<not> starts_with line ''data:'' then []
        else let d = strip (drop 5 line) in
          if d = [] \<or> d = ''[DONE]'' then []
          else case loads d of None \<Rightarrow> [] | Some j \<Rightarrow> [j]) (split_lines text))"

definition choice_pieces :: "json \<Rightarrow> (json list \<times> json list) res" where
  "choice_pieces choice =
     rbind (py_get choice ''delta'' JNull) (\<lambda>d0. let delta = or_else d0 (JObj []) in
     rbind (py_get delta ''reasoning_content'' JNull) (\<lambda>rc.
     rbind (py_get delta ''tool_calls'' JNull) (\<lambda>tcs.
     rbind (py_iter (or_else tcs (JList []))) (\<lambda>calls.
     rbind (truthy_ids calls) (\<lambda>is. Inr (if truthy rc then [rc] else [], is))))))"

definition event_pieces :: "json \<Rightarrow> (json list \<times> json list) res" where
  "event_pieces ev =
     rbind (py_get ev ''choices'' (JList [])) (\<lambda>cs. rbind (py_iter cs) (\<lambda>choices.
     rbind (rmap choice_pieces choices) (\<lambda>ps. Inr (concat (map fst ps), concat (map snd ps)))))"

fun join_texts :: "json list \<Rightarrow> string res" where
  "join_texts [] = Inr []"
| "join_texts (JStr s # js) = rbind (join_texts js) (\<lambda>t. Inr (s @ t))"
| "join_texts (_ # js) = Inl TypeError"

definition capture_reasoning_from_sse ::
  "(string \<Rightarrow> json option) \<Rightarrow> real \<Rightarrow> string \<Rightarrow> reasoning_store \<Rightarrow> reasoning_store" where
  "capture_reasoning_from_sse loads now text s =
     (case rbind (rmap event_pieces (sse_objects loads text)) (\<lambda>ps.
           let buf = concat (map fst ps); is = concat (map snd ps) in
           if is \<noteq> [] \<and> buf \<noteq> []
           then rbind (join_texts buf) (\<lambda>t. Inr (Some (is, t))) else Inr None) of
        Inl e \<Rightarrow> s
      | Inr None \<Rightarrow> s
      | Inr (Some (is, t)) \<Rightarrow> capture now is (JStr t) s)"

text \<open>The preparation of one attempt, as the chain loop composes it.\<close>

definition prepare_messages ::
  "bool \<Rightarrow> real \<Rightarrow> obj list \<Rightarrow> reasoning_store \<Rightarrow> (obj list \<times> reasoning_store) res" where
  "prepare_messages supports now ms s =
     rbind (sanitize_messages (normalize_messages_for_cache ms)) (\<lambda>ms'.
       Inr (ensure_thinking_reasoning_content supports now ms' s))"

subsection \<open>Normalisation is a canonical form\<close>

lemma norm_content_idem [simp]: "norm_content r (norm_content r c) = norm_content r c"
  by (cases c) (simp_all add: norm_content_def)

lemma normalize_tool:
  "dget m ''role'' (JStr ''user'') = JStr ''tool'' \<Longrightarrow> normalize_message m =
     [(''role'', JStr ''tool''), (''content'', norm_content (JStr ''tool'') (dget m ''content'' (JStr []))),
      (''tool_call_id'', dget m ''tool_call_id'' (JStr []))]"
  by (simp add: normalize_message_def Let_def)

lemma normalize_other:
  "dget m ''role'' (JStr ''user'') = r \<Longrightarrow> r \<noteq> JStr ''tool'' \<Longrightarrow> normalize_message m =
     [(''role'', r), (''content'', norm_content r (dget m ''content'' (JStr [])))] @
     (if r = JStr ''assistant'' \<and> truthy_opt (map_of m ''tool_calls'')
      then [(''tool_calls'', dget m ''tool_calls'' JNull)] else []) @
     (if r = JStr ''assistant''
      then (case map_of m ''reasoning_content'' of None \<Rightarrow> [] | Some x \<Rightarrow> [(''reasoning_content'', x)])
      else []) @
     (if truthy_opt (map_of m ''name'') then [(''name'', dget m ''name'' JNull)] else [])"
  by (simp add: normalize_message_def Let_def)

lemma normalize_message_idem: "normalize_message (normalize_message m) = normalize_message m"
proof (cases "dget m ''role'' (JStr ''user'') = JStr ''tool''")
  case True
  from normalize_tool[OF True] show ?thesis by (simp add: normalize_tool)
next
  case False
  let ?r = "dget m ''role'' (JStr ''user'')"
  note n = normalize_other[OF refl False]
  have r: "dget (normalize_message m) ''role'' (JStr ''user'') = ?r" by (simp add: n)
  have c: "dget (normalize_message m) ''content'' (JStr []) = norm_content ?r (dget m ''content'' (JStr []))"
    by (simp add: n)
  have t: "map_of (normalize_message m) ''tool_calls'' =
      (if ?r = JStr ''assistant'' \<and> truthy_opt (map_of m ''tool_calls'')
       then Some (dget m ''tool_calls'' JNull) else None)"
    by (cases "truthy_opt (map_of m ''tool_calls'')"; cases "map_of m ''reasoning_content''";
        cases "truthy_opt (map_of m ''name'')"; cases "?r = JStr ''assistant''") (simp_all add: n)
  have rc: "map_of (normalize_message m) ''reasoning_content'' =
      (if ?r = JStr ''assistant'' then map_of m ''reasoning_content'' else None)"
    by (cases "truthy_opt (map_of m ''tool_calls'')"; cases "map_of m ''reasoning_content''";
        cases "truthy_opt (map_of m ''name'')"; cases "?r = JStr ''assistant''") (simp_all add: n)
  have nm: "map_of (normalize_message m) ''name'' =
      (if truthy_opt (map_of m ''name'') then Some (dget m ''name'' JNull) else None)"
    by (cases "truthy_opt (map_of m ''tool_calls'')"; cases "map_of m ''reasoning_content''";
        cases "truthy_opt (map_of m ''name'')"; cases "?r = JStr ''assistant''") (simp_all add: n)
  have tt: "truthy_opt v \<Longrightarrow> truthy (case v of None \<Rightarrow> JNull | Some x \<Rightarrow> x)" for v
    by (cases v) simp_all
  show ?thesis
    unfolding normalize_other[OF r False] c t rc nm
    by (simp add: n tt)
qed

text \<open>
  Also: normalisation is idempotent, so a conversation has one cacheable form: preparing an
  already prepared history again, on a later attempt of the chain, sends the same prefix.
\<close>

theorem normalize_messages_idempotent:
  "normalize_messages_for_cache (normalize_messages_for_cache ms) = normalize_messages_for_cache ms"
  by (simp add: normalize_messages_for_cache_def normalize_message_idem)

subsection \<open>Repair leaves every call answered\<close>

lemma add_ids_Cons_Inr:
  "add_ids (tc # tcs) = Inr d \<longleftrightarrow> (\<exists>i. call_id tc = Inr i \<and>
     (if truthy i then hashable i \<and> (\<exists>d'. add_ids tcs = Inr d' \<and> d = i # d') else add_ids tcs = Inr d))"
  by (auto simp: rbind_eq_Inr)

lemma kept_calls_ids:
  assumes "add_ids tcs = Inr d" and "kept_calls rem tcs = Inr ks"
  shows "\<exists>d'. add_ids ks = Inr d' \<and> set d' = set d - set rem"
  using assms
proof (induction tcs arbitrary: d ks)
  case Nil
  then show ?case by simp
next
  case (Cons tc tcs)
  from Cons.prems obtain i b ks0 where i: "call_id tc = Inr i" and b: "in_ids rem i = Inr b"
    and ks0: "kept_calls rem tcs = Inr ks0" and ks: "ks = (if b then ks0 else tc # ks0)"
    by (auto simp: rbind_eq_Inr)
  have b': "b \<longleftrightarrow> i \<in> set rem" using b by (auto simp: in_ids_def split: if_splits)
  show ?case
  proof (cases "truthy i")
    case True
    with Cons.prems(1) i obtain d0 where d0: "add_ids tcs = Inr d0" "d = i # d0" "hashable i"
      by (auto simp: rbind_eq_Inr split: if_splits)
    from Cons.IH[OF d0(1) ks0] obtain d' where "add_ids ks0 = Inr d'" "set d' = set d0 - set rem"
      by blast
    with i True d0 b' ks show ?thesis by (cases b) auto
  next
    case False
    with Cons.prems(1) i have "add_ids tcs = Inr d" by simp
    from Cons.IH[OF this ks0] obtain d' where "add_ids ks0 = Inr d'" "set d' = set d - set rem"
      by blast
    with i False ks show ?thesis by (cases b) auto
  qed
qed

lemma role_after_calls_update:
  "map_of (AList.update ''tool_calls'' v m) ''role'' = map_of m ''role''"
  "map_of (AList.update ''tool_calls'' v m) ''tool_calls'' = Some v"
  by (simp_all add: dict_simps)

lemma py_iter_list: "py_iter (JList xs) = Inr xs"
  by simp

lemma sanitize_loop_declared:
  assumes "declared_ids ms = Inr d" and "sanitize_loop rem ms = Inr ms'"
  shows "\<exists>d'. declared_ids ms' = Inr d' \<and> set d' = set d - set rem"
  using assms
proof (induction ms arbitrary: d ms')
  case Nil
  then show ?case by simp
next
  case (Cons m ms)
  consider (tool) "is_tool m" | (calls) "\<not> is_tool m" "has_calls m" | (plain) "\<not> is_tool m" "\<not> has_calls m"
    by blast
  then show ?case
  proof cases
    case tool
    then have nc: "\<not> has_calls m" by (auto simp: is_tool_def has_calls_def)
    with tool Cons.prems obtain b ms1 where ms1: "sanitize_loop rem ms = Inr ms1"
      and ms': "ms' = (if b then [(''role'', JStr ''user''), (''content'', dget m ''content'' (JStr []))]
                       else m) # ms1"
      and d: "declared_ids ms = Inr d"
      by (auto simp: rbind_eq_Inr)
    moreover have "\<not> has_calls [(''role'', JStr ''user''), (''content'', c)]" for c
      by (simp add: has_calls_def)
    ultimately show ?thesis using Cons.IH[OF d ms1] nc by (cases b) auto
  next
    case calls
    with Cons.prems obtain tcs a d0 ks ms1 where tcs: "py_iter (dget m ''tool_calls'' JNull) = Inr tcs"
      and a: "add_ids tcs = Inr a" and d0: "declared_ids ms = Inr d0" "d = a @ d0"
      and ks: "kept_calls rem tcs = Inr ks" and ms1: "sanitize_loop rem ms = Inr ms1"
      and ms': "ms' = (if ks \<noteq> [] then AList.update ''tool_calls'' (JList ks) m # ms1
                       else if truthy_opt (map_of m ''content'')
                       then AList.update ''tool_calls'' JNull m # ms1 else ms1)"
      by (auto simp: rbind_eq_Inr)
    obtain a' where a': "add_ids ks = Inr a'" "set a' = set a - set rem"
      using kept_calls_ids[OF a ks] by blast
    obtain d1 where d1: "declared_ids ms1 = Inr d1" "set d1 = set d0 - set rem"
      using Cons.IH[OF d0(1) ms1] by blast
    have upd: "has_calls (AList.update ''tool_calls'' v m) = truthy v" for v
      using calls by (simp add: has_calls_def role_after_calls_update)
    show ?thesis
    proof (cases "ks = []")
      case True
      with a' have "set a - set rem = {}" by auto
      with True ms' d1 d0(2) upd show ?thesis by auto
    next
      case False
      then have "declared_ids ms' = Inr (a' @ d1)"
        using ms' a'(1) d1(1) upd by (simp add: role_after_calls_update)
      with a'(2) d1(2) d0(2) show ?thesis by auto
    qed
  next
    case plain
    with Cons show ?thesis by (auto simp: rbind_eq_Inr)
  qed
qed

lemma sanitize_loop_referenced:
  assumes "referenced_ids ms = Inr r" and "sanitize_loop rem ms = Inr ms'"
  shows "\<exists>r'. referenced_ids ms' = Inr r' \<and> set r' = set r - set rem"
  using assms
proof (induction ms arbitrary: r ms')
  case Nil
  then show ?case by simp
next
  case (Cons m ms)
  consider (tool) "is_tool m" | (calls) "\<not> is_tool m" "has_calls m" | (plain) "\<not> is_tool m" "\<not> has_calls m"
    by blast
  then show ?case
  proof cases
    case tool
    let ?i = "dget m ''tool_call_id'' JNull"
    from tool Cons.prems(2) obtain b ms1 where b: "in_ids rem ?i = Inr b"
      and ms1: "sanitize_loop rem ms = Inr ms1"
      and ms': "ms' = (if b then [(''role'', JStr ''user''), (''content'', dget m ''content'' (JStr []))]
                       else m) # ms1"
      by (auto simp: rbind_eq_Inr)
    have b': "b \<longleftrightarrow> ?i \<in> set rem" using b by (auto simp: in_ids_def split: if_splits)
    have user: "\<not> is_tool [(''role'', JStr ''user''), (''content'', c)]" for c
      by (simp add: is_tool_def)
    show ?thesis
    proof (cases "truthy_opt (map_of m ''tool_call_id'')")
      case True
      with tool Cons.prems(1) obtain r0 where r0: "referenced_ids ms = Inr r0" "r = ?i # r0"
          "hashable ?i"
        by (auto simp: rbind_eq_Inr Let_def split: if_splits)
      obtain r1 where "referenced_ids ms1 = Inr r1" "set r1 = set r0 - set rem"
        using Cons.IH[OF r0(1) ms1] by blast
      with True tool r0 b' ms' user show ?thesis by (cases b) (auto simp: Let_def)
    next
      case False
      with Cons.prems(1) have "referenced_ids ms = Inr r" by simp
      from Cons.IH[OF this ms1] False ms' user show ?thesis by (cases b) auto
    qed
  next
    case calls
    with Cons.prems obtain ks ms1 where ms1: "sanitize_loop rem ms = Inr ms1"
      and ms': "ms' = (if ks \<noteq> [] then AList.update ''tool_calls'' (JList ks) m # ms1
                       else if truthy_opt (map_of m ''content'')
                       then AList.update ''tool_calls'' JNull m # ms1 else ms1)"
      by (auto simp: rbind_eq_Inr)
    from calls Cons.prems(1) have "referenced_ids ms = Inr r" by simp
    moreover have "\<not> is_tool (AList.update ''tool_calls'' v m)" for v
      using calls by (simp add: is_tool_def role_after_calls_update)
    ultimately show ?thesis using Cons.IH[OF _ ms1] ms' by auto
  next
    case plain
    with Cons show ?thesis by (auto simp: rbind_eq_Inr)
  qed
qed

lemma filter_Nil_iff_subset: "filter (\<lambda>i. i \<notin> set r) d = [] \<longleftrightarrow> set d \<subseteq> set r"
  by (auto simp: filter_empty_conv)

lemma sanitize_closed:
  assumes "sanitize_messages ms = Inr ms'"
  shows "\<exists>d r d' r'. declared_ids ms = Inr d \<and> referenced_ids ms = Inr r \<and>
    declared_ids ms' = Inr d' \<and> referenced_ids ms' = Inr r' \<and>
    set d' = set d \<inter> set r \<and> set r' = set d \<inter> set r"
proof (cases "ms = []")
  case True
  with assms show ?thesis by (simp add: sanitize_messages_def)
next
  case False
  with assms obtain d r where d: "declared_ids ms = Inr d" and r: "referenced_ids ms = Inr r"
    by (auto simp: sanitize_messages_def rbind_eq_Inr)
  let ?dang = "filter (\<lambda>i. i \<notin> set r) d" and ?orph = "filter (\<lambda>i. i \<notin> set d) r"
  show ?thesis
  proof (cases "?dang = [] \<and> ?orph = []")
    case True
    then have "set d = set r" by (auto simp: filter_Nil_iff_subset)
    with False True assms d r show ?thesis by (simp add: sanitize_messages_def Let_def)
  next
    case closed: False
    with False assms d r have loop: "sanitize_loop (?dang @ ?orph) ms = Inr ms'"
      by (auto simp: sanitize_messages_def Let_def)
    have "set d - set (?dang @ ?orph) = set d \<inter> set r" "set r - set (?dang @ ?orph) = set d \<inter> set r"
      by auto
    with sanitize_loop_declared[OF d loop] sanitize_loop_referenced[OF r loop] d r
    show ?thesis by metis
  qed
qed

text \<open>
  C16: repair leaves every call answered.  In the sanitised history the tool calls declared by
  assistant turns are exactly the ones tool messages answer: those that were both declared and
  answered before.  Nothing is dangling, nothing is orphaned, and a second pass changes nothing.
\<close>

theorem sanitize_answers_every_call:
  assumes "sanitize_messages ms = Inr ms'"
  shows "\<exists>d r d' r'. declared_ids ms = Inr d \<and> referenced_ids ms = Inr r \<and>
    declared_ids ms' = Inr d' \<and> referenced_ids ms' = Inr r' \<and>
    set d' = set d \<inter> set r \<and> set r' = set d \<inter> set r \<and> sanitize_messages ms' = Inr ms'"
proof -
  obtain d r d' r' where c: "declared_ids ms = Inr d" "referenced_ids ms = Inr r"
    "declared_ids ms' = Inr d'" "referenced_ids ms' = Inr r'"
    "set d' = set d \<inter> set r" "set r' = set d \<inter> set r"
    using sanitize_closed[OF assms] by blast
  moreover from c have "sanitize_messages ms' = Inr ms'"
    by (simp add: sanitize_messages_def Let_def filter_Nil_iff_subset filter_empty_conv)
  ultimately show ?thesis by blast
qed

definition demo_history_msgs :: "obj list" where
  "demo_history_msgs =
    [[(''role'', JStr ''user''), (''content'', JStr ''hi'')],
     [(''role'', JStr ''assistant''), (''content'', JStr []), (''tool_calls'', JList
        [JObj [(''id'', JStr ''a'')], JObj [(''id'', JStr ''b'')]])],
     [(''role'', JStr ''tool''), (''content'', JStr ''42''), (''tool_call_id'', JStr ''a'')],
     [(''role'', JStr ''tool''), (''content'', JStr ''late''), (''tool_call_id'', JStr ''z'')]]"

definition demo_repaired :: "obj list" where
  "demo_repaired =
    [[(''role'', JStr ''user''), (''content'', JStr ''hi'')],
     [(''role'', JStr ''assistant''), (''content'', JStr []), (''tool_calls'', JList
        [JObj [(''id'', JStr ''a'')]])],
     [(''role'', JStr ''tool''), (''content'', JStr ''42''), (''tool_call_id'', JStr ''a'')],
     [(''role'', JStr ''user''), (''content'', JStr ''late'')]]"

lemma demo_sanitize: "sanitize_messages demo_history_msgs = Inr demo_repaired"
  by (simp add: sanitize_messages_def demo_history_msgs_def demo_repaired_def has_calls_def
      is_tool_def in_ids_def Let_def)

theorem sanitize_answers_every_call_witness:
  "sanitize_messages demo_repaired = Inr demo_repaired"
  using sanitize_answers_every_call[OF demo_sanitize] by blast

subsection \<open>What repair keeps\<close>

text \<open>
  Also: repair never touches the rest of the conversation.  System and user messages, and assistant
  turns without tool calls, come through unchanged and in order, and no message is added.
\<close>

theorem sanitize_keeps_plain_messages:
  assumes "sanitize_messages ms = Inr ms'"
  shows "subseq (filter (\<lambda>m. \<not> is_tool m \<and> \<not> has_calls m) ms) ms' \<and> length ms' \<le> length ms"
proof -
  have loop: "subseq (filter (\<lambda>m. \<not> is_tool m \<and> \<not> has_calls m) l) l' \<and> length l' \<le> length l"
    if "sanitize_loop rem l = Inr l'" for rem l l'
    using that
  proof (induction l arbitrary: l')
    case Nil
    then show ?case by simp
  next
    case (Cons m l)
    from Cons.prems obtain l1 where l1: "sanitize_loop rem l = Inr l1"
      and l': "l' = l1 \<or> (\<exists>x. l' = x # l1)" "\<not> is_tool m \<and> \<not> has_calls m \<Longrightarrow> l' = m # l1"
      by (auto simp: rbind_eq_Inr split: if_splits)
    note IH = Cons.IH[OF l1]
    show ?case
    proof (cases "\<not> is_tool m \<and> \<not> has_calls m")
      case True
      with l'(2) IH show ?thesis by simp
    next
      case False
      with l'(1) IH show ?thesis by (auto intro: list_emb_Cons)
    qed
  qed
  show ?thesis
    using assms by (auto simp: sanitize_messages_def rbind_eq_Inr Let_def dest: loop split: if_splits)
qed

theorem sanitize_keeps_plain_messages_witness:
  "subseq [hd demo_history_msgs] demo_repaired"
  using sanitize_keeps_plain_messages[OF demo_sanitize]
  by (simp add: demo_history_msgs_def is_tool_def has_calls_def)

text \<open>
  Also: two shapes providers reject pass the repair unchanged.  A tool message without an identifier
  is left in the history (and normalised to the empty identifier), and so is a tool message that
  comes before the assistant turn that declares its call.
\<close>

theorem sanitize_passes_missing_id_and_early_answer:
  "sanitize_messages (normalize_messages_for_cache [[(''role'', JStr ''tool''), (''content'', JStr c)]]) =
     Inr [[(''role'', JStr ''tool''), (''content'', JStr c), (''tool_call_id'', JStr [])]] \<and>
   (let ans = [(''role'', JStr ''tool''), (''content'', JStr c), (''tool_call_id'', JStr ''x'')];
        ask = [(''role'', JStr ''assistant''), (''content'', JStr []),
               (''tool_calls'', JList [JObj [(''id'', JStr ''x'')]])]
    in sanitize_messages [ans, ask] = Inr [ans, ask])"
  by (simp add: sanitize_messages_def normalize_messages_for_cache_def normalize_message_def
      norm_content_def has_calls_def is_tool_def Let_def)

subsection \<open>Thinking mode\<close>

text \<open>
  Also: for a thinking model every tool-calling assistant turn carries the reasoning field, whatever
  the store holds and even if the store raises; every other message is unchanged.
\<close>

theorem thinking_turns_carry_reasoning:
  "list_all (\<lambda>m. \<not> needs_reasoning m) (fst (ensure_thinking_reasoning_content True now ms s)) \<and>
   list_all2 (\<lambda>m m'. m' = m \<or> needs_reasoning m \<and> (\<exists>t. m' = AList.update ''reasoning_content'' t m))
     ms (fst (ensure_thinking_reasoning_content True now ms s))"
proof
  obtain ms' s' e where r: "rehydrate now ms s = (ms', s', e)" by (cases "rehydrate now ms s")
  show "list_all (\<lambda>m. \<not> needs_reasoning m) (fst (ensure_thinking_reasoning_content True now ms s))"
    by (auto simp: ensure_thinking_reasoning_content_def r list_all_iff needs_reasoning_def dict_simps)
  have "list_all2 (filled_from s) ms ms'" using rehydrate_fills[of s ms now] by (simp add: r)
  then show "list_all2 (\<lambda>m m'. m' = m \<or> needs_reasoning m \<and>
      (\<exists>t. m' = AList.update ''reasoning_content'' t m)) ms
      (fst (ensure_thinking_reasoning_content True now ms s))"
    unfolding ensure_thinking_reasoning_content_def r list_all2_map2
    by (simp add: list_all2_map2, elim list_all2_mono)
      (auto simp: filled_from_def needs_reasoning_def map_of_eq_None_iff update_fresh)
qed

subsection \<open>Tools\<close>

lemma rmap_mset_eq:
  assumes "rmap f xs = Inr ns"
  shows "ns = map (projr \<circ> f) xs"
  using assms
proof (induction xs arbitrary: ns)
  case Nil
  then show ?case by simp
next
  case (Cons x xs)
  then obtain n ns0 where "f x = Inr n" "rmap f xs = Inr ns0" "ns = n # ns0"
    by (auto simp: rbind_eq_Inr)
  with Cons.IH show ?case by simp
qed

lemma rmap_perm:
  assumes "rmap f xs = Inr ns" and "mset ys = mset xs"
  shows "rmap f ys = Inr (map (projr \<circ> f) ys)"
proof -
  have "\<forall>x \<in> set xs. f x = Inr (projr (f x))"
    using assms(1) by (induction xs arbitrary: ns) (auto simp: rbind_eq_Inr)
  moreover have "set ys = set xs" using assms(2) by (rule mset_eq_setD)
  ultimately have "rmap f ys = rmap (\<lambda>x. Inr (projr (f x))) ys" by (intro rmap_cong) auto
  then show ?thesis by (simp add: comp_def)
qed

lemma zip_map_self: "zip (map f xs) xs = map (\<lambda>x. (f x, x)) xs"
  by (induction xs) simp_all

text \<open>
  Also: the tool order of the client does not matter.  Two requests that offer the same tools, with
  distinct names, in any order are normalised to the same tool list, and normalising never adds or
  drops a tool.
\<close>

theorem normalize_tools_order_independent:
  assumes "rmap (tool_name (JStr [])) ts = Inr (map JStr ns)" and "distinct ns"
    and "mset ts' = mset ts"
  shows "normalize_tools_for_cache ts' = normalize_tools_for_cache ts \<and>
    (\<exists>out. normalize_tools_for_cache ts = Inr out \<and> mset out = mset ts)"
proof -
  let ?nm = "projr \<circ> tool_name (JStr [])"
  let ?key = "\<lambda>(k, x). case k of JStr s \<Rightarrow> s | _ \<Rightarrow> []"
  let ?ps = "\<lambda>l. map (\<lambda>x. (?nm x, x)) l"
  have nms: "map ?nm ts = map JStr ns" using rmap_mset_eq[OF assms(1)] by simp
  have n: "normalize_tools_for_cache l = py_sorted (?ps l)" if "mset l = mset ts" for l
    using rmap_perm[OF assms(1) that] by (simp add: normalize_tools_for_cache_def zip_map_self)
  have str: "\<forall>k \<in> set (map fst (?ps l)). is_str k" if "mset l = mset ts" for l
  proof -
    have "set (map fst (?ps l)) = set (map ?nm ts)"
      using mset_eq_setD[OF that] by (auto simp: comp_def)
    then show ?thesis unfolding nms by auto
  qed
  have keys_ts: "map ?key (?ps ts) = ns"
  proof -
    have "map ?key (?ps ts) = map (\<lambda>k. case k of JStr s \<Rightarrow> s | _ \<Rightarrow> []) (map ?nm ts)" by simp
    then show ?thesis unfolding nms by (simp add: comp_def)
  qed
  have "distinct (map ?key (?ps ts))" unfolding keys_ts by (rule assms(2))
  then have "inj_on ?key (set (?ps ts))" unfolding distinct_map by (rule conjunct2)
  moreover have "mset (?ps ts) = mset (sort_key ?key (?ps ts'))"
    using assms(3) by simp
  ultimately have eq: "sort_key ?key (?ps ts') = sort_key ?key (?ps ts)"
    using sort_key_inj_key_eq[of "?ps ts" "sort_key ?key (?ps ts')" ?key] sorted_sort_key[of ?key "?ps ts'"]
    by simp
  have len: "length ts' = length ts" using assms(3) by (rule mset_eq_length)
  have "py_sorted (?ps ts') = py_sorted (?ps ts)"
  proof (cases "length ts \<le> 1")
    case True
    then consider "ts = []" | t where "ts = [t]" by (cases ts) auto
    then have "ts' = ts" by cases (use assms(3) in auto)
    then show ?thesis by simp
  next
    case False
    with str[OF assms(3)] str[OF refl] len eq show ?thesis by (simp add: py_sorted_def)
  qed
  moreover have "\<exists>out. py_sorted (?ps ts) = Inr out \<and> mset out = mset ts"
    using str[OF refl] by (auto simp: py_sorted_def comp_def multiset.map_comp)
  ultimately show ?thesis using n[OF assms(3)] n[OF refl] by simp
qed

definition tool_def :: "string \<Rightarrow> json" where
  "tool_def n = JObj [(''type'', JStr ''function''), (''function'', JObj [(''name'', JStr n)])]"

theorem normalize_tools_order_independent_witness:
  "normalize_tools_for_cache [tool_def ''write'', tool_def ''read''] =
   normalize_tools_for_cache [tool_def ''read'', tool_def ''write'']"
  using normalize_tools_order_independent[of "[tool_def ''read'', tool_def ''write'']"
      "[''read'', ''write'']" "[tool_def ''write'', tool_def ''read'']"]
  by (simp add: tool_def_def tool_name_def add_mset_commute)

lemma filter_zip_names:
  "map fst (filter (\<lambda>(t, n). \<not> P n) (zip ts (map f ts))) = filter (\<lambda>t. \<not> P (f t)) ts"
  by (induction ts) auto

text \<open>
  Also: forbidden tools do not get through.  After stripping, the forwarded tools are exactly the
  offered ones, in order, whose name is not forbidden (none at all when every tool is forbidden),
  the blocked names are reported, and no other field of the request changes.
\<close>

theorem strip_forbidden_exact:
  assumes "map_of body ''tools'' = Some (JList ts)" and "ts \<noteq> []"
    and "strip_forbidden_tools body forbidden = Inr (body', blocked)"
    and "forbidden \<noteq> Some []"
  shows "map_of body' ''tools'' = Some (JList (case forbidden of None \<Rightarrow> []
      | Some fs \<Rightarrow> filter (\<lambda>t. tool_name (JStr []) t \<notin> Inr ` JStr ` set fs) ts)) \<and>
    length blocked + length (case forbidden of None \<Rightarrow> []
      | Some fs \<Rightarrow> filter (\<lambda>t. tool_name (JStr []) t \<notin> Inr ` JStr ` set fs) ts) = length ts \<and>
    (map_of body')(''tools'' := None) = (map_of body)(''tools'' := None)"
proof (cases forbidden)
  case None
  with assms obtain ns where "rmap (tool_name (JStr ''unknown'')) ts = Inr ns"
    "body' = AList.update ''tools'' (JList []) body" "blocked = ns"
    by (auto simp: strip_forbidden_tools_def rbind_eq_Inr)
  with None show ?thesis using rmap_mset_eq[of "tool_name (JStr ''unknown'')" ts ns]
    by (simp add: pd.get_put)
next
  case (Some fs)
  with assms obtain ns where ns: "rmap (tool_name (JStr [])) ts = Inr ns"
    and b: "body' = AList.update ''tools''
        (JList (map fst (filter (\<lambda>(t, n). n \<notin> JStr ` set fs) (zip ts ns)))) body"
      "blocked = filter (\<lambda>n. n \<in> JStr ` set fs) ns"
    by (auto simp: strip_forbidden_tools_def rbind_eq_Inr Let_def)
  let ?nm = "projr \<circ> tool_name (JStr [])"
  have nsm: "ns = map ?nm ts" by (rule rmap_mset_eq[OF ns])
  have "\<forall>t \<in> set ts. tool_name (JStr []) t = Inr (?nm t)"
    using ns by (induction ts arbitrary: ns) (auto simp: rbind_eq_Inr)
  then have f: "filter (\<lambda>t. tool_name (JStr []) t \<notin> Inr ` JStr ` set fs) ts =
      filter (\<lambda>t. ?nm t \<notin> JStr ` set fs) ts"
    by (intro filter_cong) auto
  have "length blocked = length (filter (\<lambda>t. ?nm t \<in> JStr ` set fs) ts)"
    by (simp add: b(2) nsm filter_map comp_def)
  moreover have "length (filter (\<lambda>t. ?nm t \<in> JStr ` set fs) ts) +
      length (filter (\<lambda>t. ?nm t \<notin> JStr ` set fs) ts) = length ts"
    by (rule sum_length_filter_compl)
  ultimately show ?thesis
    unfolding Some option.case f b(1) nsm
    using filter_zip_names[of "\<lambda>n. n \<in> JStr ` set fs" ts ?nm] by (simp add: pd.get_put)
qed

theorem strip_forbidden_exact_witness:
  "\<exists>body' blocked. strip_forbidden_tools [(''tools'', JList [tool_def ''rm'', tool_def ''ls''])]
      (Some [''rm'']) = Inr (body', blocked) \<and>
    map_of body' ''tools'' = Some (JList [tool_def ''ls''])"
proof -
  have "strip_forbidden_tools [(''tools'', JList [tool_def ''rm'', tool_def ''ls''])] (Some [''rm'']) =
      Inr ([(''tools'', JList [tool_def ''ls''])], [JStr ''rm''])"
    by (simp add: strip_forbidden_tools_def tool_def_def tool_name_def Let_def)
  from this strip_forbidden_exact[OF _ _ this] show ?thesis by (simp add: tool_def_def tool_name_def)
qed

end
