(* ===== verification/Forwarding.thy ===== *)
theory Forwarding
  imports Exceptions Py_Text
begin

section \<open>One upstream call (src/api/request\_pipeline.py: forward\_request, call\_with\_retry)\<close>

text \<open>
  The HTTP exchange itself is an argument: a reply of the upstream, in the shapes \<open>urllib\<close> gives
  it.  What is modelled is everything the gateway does around it: the request it builds, how it
  classifies each reply, and when it tries again.
\<close>

subsection \<open>Classifying an error body\<close>

definition CREDITS_MARKERS :: "string list" where
  "CREDITS_MARKERS = [''creditserror'', ''insufficient balance'', ''insufficient funds'',
     ''insufficient credits'', ''out of credits'', ''no credits'', ''billing'', ''payment required'']"

definition is_credits_error :: "string \<Rightarrow> nat \<Rightarrow> bool" where
  "is_credits_error error_body status \<longleftrightarrow>
     (\<exists>marker \<in> set CREDITS_MARKERS. contains (lower error_body) marker) \<or> status = 402"

text \<open>\<open>loads\<close> is \<open>json.loads\<close>, None when it raises.\<close>

definition is_bare_4xx :: "(string \<Rightarrow> json option) \<Rightarrow> string \<Rightarrow> bool" where
  "is_bare_4xx loads error_body =
     (let body = strip error_body in
      if body = [] then True
      else case loads body of
          None \<Rightarrow> length body < 20
        | Some (JObj d) \<Rightarrow> map_of d ''error'' = None \<and> map_of d ''message'' = None
        | Some _ \<Rightarrow> False)"

definition mk_exn :: "exn_class \<Rightarrow> string \<Rightarrow> lcp_exn" where
  "mk_exn c m = \<lparr>exn_cls = c, exn_msg = m, exn_details = []\<rparr>"

definition classify_http_error :: "(string \<Rightarrow> json option) \<Rightarrow> string \<Rightarrow> nat \<Rightarrow> string \<Rightarrow> lcp_exn" where
  "classify_http_error loads provider status body =
     (let full = ''Provider '' @ provider @ '' HTTP '' @ show_nat status @ '': '' @ body in
      if is_credits_error body status
      then mk_exn ProviderCreditsError (''Provider '' @ provider @ '' out of credits: '' @ body)
      else if status = 401 \<or> status = 403
      then mk_exn ProviderAuthError (''Provider '' @ provider @ '' rejected auth: '' @
             (if strip body \<noteq> [] then strip body else ''HTTP '' @ show_nat status))
      else if status = 429
      then mk_exn ProviderRateLimitError (''Provider '' @ provider @ '' rate limited'')
      else if 400 \<le> status \<and> status < 500
      then (if is_bare_4xx loads body then mk_exn ProviderInternalError full
            else mk_exn ProviderBadRequestError full)
      else if 500 \<le> status then mk_exn ProviderInternalError full
      else mk_exn ProviderAuthError full)"

subsection \<open>Building and sending the request\<close>

text \<open>
  The reply of the upstream: an answer (its body in the pieces read, and how reading it ended), an
  HTTP error, an unreachable host, a timeout before the first byte of the body, or any other exception
  of the socket layer.  Reading a body ends with its last byte, with a timeout, with a connection that
  was reset, aborted or closed (the three exceptions the handler takes for a client that left), or with
  any other exception, such as \<open>IncompleteRead\<close>.
\<close>

datatype read_end = Complete | Timed_out | Connection_lost | Read_failed string

datatype upstream_reply =
    Answer nat "string list" read_end
  | HttpError nat string
  | UrlError string
  | ReadTimeout
  | SocketError string

datatype relay = Body json | Stream "string list" read_end

text \<open>What may leave the routine: a typed exception, or one the interpreter raises.\<close>

datatype escape = Typed lcp_exn | Untyped py_exn | Foreign string

record upstream_request =
  rq_url :: string
  rq_body :: json
  rq_headers :: "(string, string) dict"

record forward_env =
  fe_credential :: "string \<Rightarrow> string option" \<comment> \<open>the credential store\<close>
  fe_loads :: "string \<Rightarrow> json option"
  fe_timeout_text :: string

definition provider_needs_key :: "string \<Rightarrow> bool" where
  "provider_needs_key name \<longleftrightarrow> name \<in> {''deepseek'', ''opencode'', ''commandcode''}"

definition api_key_of :: "forward_env \<Rightarrow> string \<Rightarrow> string" where
  "api_key_of env provider = (case fe_credential env provider of None \<Rightarrow> [] | Some k \<Rightarrow> k)"

definition upstream_request ::
  "forward_env \<Rightarrow> string \<Rightarrow> string \<Rightarrow> obj \<Rightarrow> string \<Rightarrow> upstream_request" where
  "upstream_request env provider base_url body session =
     \<lparr>rq_url = base_url @ ''/chat/completions'', rq_body = JObj body,
      rq_headers = [(''Content-Type'', ''application/json''), (''User-Agent'', ''LLMControlPlane/1.0'')] @
        (if session \<noteq> [] then [(''x-opencode-session'', session)] else []) @
        (if api_key_of env provider \<noteq> []
         then [(''Authorization'', ''Bearer '' @ api_key_of env provider)] else [])\<rparr>"

definition timeout_exn :: "forward_env \<Rightarrow> string \<Rightarrow> lcp_exn" where
  "timeout_exn env provider = mk_exn ProviderTimeoutError
     (''Provider '' @ provider @ '' read timed out after '' @ fe_timeout_text env @ ''s'')"

definition forward_request ::
  "forward_env \<Rightarrow> string \<Rightarrow> string \<Rightarrow> obj \<Rightarrow> string \<Rightarrow> (upstream_request \<Rightarrow> upstream_reply) \<Rightarrow>
   escape + relay \<times> nat" where
  "forward_request env provider base_url body session send =
     (if api_key_of env provider = [] \<and> provider_needs_key provider
      then Inl (Typed (mk_exn ConfigError
             (''No API key found for provider '' @ [CHR 0x27] @ provider @ [CHR 0x27] @
              ''. Add it in Models -> Providers -> Configuration.'')))
      else case send (upstream_request env provider base_url body session) of
          Answer status chunks fin \<Rightarrow>
            if truthy (dget body ''stream'' (JBool False)) then Inr (Stream chunks fin, status)
            else (case fin of
                Complete \<Rightarrow> (case fe_loads env (concat chunks) of
                    None \<Rightarrow> Inl (Untyped ValueError)
                  | Some j \<Rightarrow> Inr (Body j, status))
              | Timed_out \<Rightarrow> Inl (Typed (timeout_exn env provider))
              | Connection_lost \<Rightarrow> Inl (Foreign ''ConnectionResetError'')
              | Read_failed e \<Rightarrow> Inl (Foreign e))
        | HttpError status error_body \<Rightarrow>
            Inl (Typed (classify_http_error (fe_loads env) provider status (take 500 error_body)))
        | UrlError reason \<Rightarrow>
            Inl (Typed (mk_exn ProviderTimeoutError
              (''Provider '' @ provider @ '' unreachable: '' @ reason)))
        | ReadTimeout \<Rightarrow> Inl (Typed (timeout_exn env provider))
        | SocketError e \<Rightarrow> Inl (Foreign e))"

subsection \<open>Retrying transient failures\<close>

record retry_cfg =
  max_attempts :: int
  backoff_base :: real
  backoff_multiplier :: real
  max_backoff :: real
  jitter :: bool

text \<open>The defaults an empty configuration stands for.\<close>

definition no_retry :: retry_cfg where
  "no_retry = \<lparr>max_attempts = 1, backoff_base = 1 / 2, backoff_multiplier = 2, max_backoff = 10,
     jitter = True\<rparr>"

definition retryable :: "escape \<Rightarrow> bool" where
  "retryable e = (case e of
      Typed x \<Rightarrow> exn_cls x \<in> {ProviderInternalError, ProviderRateLimitError}
    | _ \<Rightarrow> False)"

text \<open>\<open>rnd n\<close> is the random factor drawn before the wait that follows attempt \<open>n\<close>.\<close>

definition backoff_delay :: "retry_cfg \<Rightarrow> (nat \<Rightarrow> real) \<Rightarrow> nat \<Rightarrow> real" where
  "backoff_delay cfg rnd attempt =
     min (backoff_base cfg * backoff_multiplier cfg ^ (attempt - 1)) (max_backoff cfg) *
     (if jitter cfg then rnd attempt else 1)"

text \<open>
  The loop: attempt number, attempts left; the result with the number of calls made and the waits.
  \<open>request n\<close> is the outcome of the \<open>n\<close>-th call.
\<close>

fun retry_loop ::
  "retry_cfg \<Rightarrow> (nat \<Rightarrow> real) \<Rightarrow> (nat \<Rightarrow> escape + 'a) \<Rightarrow> nat \<Rightarrow> nat \<Rightarrow>
   (escape + 'a) \<times> nat \<times> real list" where
  "retry_loop cfg rnd request attempt 0 = (Inl (Foreign ''retry loop exited unexpectedly''), attempt - 1, [])"
| "retry_loop cfg rnd request attempt (Suc left) =
     (case request attempt of
        Inr x \<Rightarrow> (Inr x, attempt, [])
      | Inl e \<Rightarrow>
          if \<not> retryable e \<or> left = 0 then (Inl e, attempt, [])
          else case retry_loop cfg rnd request (Suc attempt) left of
            (r, n, ws) \<Rightarrow> (r, n, backoff_delay cfg rnd attempt # ws))"

definition call_with_retry ::
  "retry_cfg \<Rightarrow> (nat \<Rightarrow> real) \<Rightarrow> (nat \<Rightarrow> escape + 'a) \<Rightarrow> (escape + 'a) \<times> nat \<times> real list" where
  "call_with_retry cfg rnd request = retry_loop cfg rnd request 1 (nat (max 1 (max_attempts cfg)))"

subsection \<open>Every error is classified\<close>

lemma classify_provider_error:
  "base_class (exn_cls (classify_http_error loads p status b)) = Some ProviderError"
  by (simp add: classify_http_error_def mk_exn_def Let_def)

text \<open>
  Also: what an HTTP error of an upstream leads to.  It always becomes a typed provider error.  The
  chain is cut short (a bad request) exactly for a 4xx other than 401, 402, 403 and 429 whose body
  explains itself and names no credit problem; the call is repeated exactly for 429, for 5xx, and
  for a 4xx with a body that says nothing, and never when credit is the problem.
\<close>

theorem http_error_outcome:
  assumes "api_key_of env p \<noteq> [] \<or> \<not> provider_needs_key p"
  defines "marked b \<equiv> list_ex (contains (lower (take 500 b))) CREDITS_MARKERS"
  shows "\<exists>e. forward_request env p url body session (\<lambda>r. HttpError status b) = Inl (Typed e) \<and>
    base_class (exn_cls e) = Some ProviderError \<and>
    (exn_cls e = ProviderBadRequestError \<longleftrightarrow> 400 \<le> status \<and> status < 500 \<and>
      status \<notin> {401, 402, 403, 429} \<and> \<not> marked b \<and> \<not> is_bare_4xx (fe_loads env) (take 500 b)) \<and>
    (retryable (Typed e) \<longleftrightarrow> \<not> marked b \<and> (status = 429 \<or> 500 \<le> status \<or>
      400 \<le> status \<and> status \<notin> {401, 402, 403} \<and> is_bare_4xx (fe_loads env) (take 500 b)))"
proof (intro exI conjI)
  let ?e = "classify_http_error (fe_loads env) p status (take 500 b)"
  have m: "is_credits_error (take 500 b) status \<longleftrightarrow> marked b \<or> status = 402"
    by (simp only: is_credits_error_def marked_def list_ex_iff)
  show "forward_request env p url body session (\<lambda>r. HttpError status b) = Inl (Typed ?e)"
    using assms(1) by (auto simp: forward_request_def)
  show "base_class (exn_cls ?e) = Some ProviderError" by (rule classify_provider_error)
  show "exn_cls ?e = ProviderBadRequestError \<longleftrightarrow> 400 \<le> status \<and> status < 500 \<and>
      status \<notin> {401, 402, 403, 429} \<and> \<not> marked b \<and> \<not> is_bare_4xx (fe_loads env) (take 500 b)"
    by (auto simp: classify_http_error_def mk_exn_def Let_def m)
  show "retryable (Typed ?e) \<longleftrightarrow> \<not> marked b \<and> (status = 429 \<or> 500 \<le> status \<or>
      400 \<le> status \<and> status \<notin> {401, 402, 403} \<and> is_bare_4xx (fe_loads env) (take 500 b))"
    by (auto simp: classify_http_error_def mk_exn_def Let_def m retryable_def)
qed

definition demo_env :: forward_env where
  "demo_env = \<lparr>fe_credential = (\<lambda>p. if p = ''opencode'' then Some ''sk'' else None),
     fe_loads = (\<lambda>s. if s = ''{}'' then Some (JObj []) else None), fe_timeout_text = ''900''\<rparr>"

theorem http_error_outcome_witness:
  "\<exists>e. forward_request demo_env ''local'' ''u'' [] [] (\<lambda>r. HttpError 503 ''busy'') = Inl (Typed e) \<and>
     retryable (Typed e)"
  using http_error_outcome[of demo_env "''local''" "''u''" "[]" "[]" 503 "''busy''"]
  by (auto simp: demo_env_def provider_needs_key_def CREDITS_MARKERS_def lower_def lower_char_def code_def)

subsection \<open>Sending\<close>

text \<open>
  Also: credentials stay where they belong.  A provider that needs a key is never called without one;
  a request carries an Authorization header exactly when the store has a key for that provider, with
  that provider's key, and it always carries the session header when there is a session.
\<close>

theorem forwarded_request_credentials:
  "(api_key_of env p = [] \<and> provider_needs_key p \<longrightarrow>
      (\<exists>e. forward_request env p url body session send = Inl (Typed e) \<and> exn_cls e = ConfigError \<and>
        forward_request env p url body session send' = Inl (Typed e))) \<and>
   map_of (rq_headers (upstream_request env p url body session)) ''Authorization'' =
     (case fe_credential env p of None \<Rightarrow> None
      | Some k \<Rightarrow> if k = [] then None else Some (''Bearer '' @ k)) \<and>
   map_of (rq_headers (upstream_request env p url body session)) ''x-opencode-session'' =
     (if session = [] then None else Some session)"
  by (auto simp: forward_request_def upstream_request_def api_key_of_def mk_exn_def
      split: option.split)

theorem forwarded_request_credentials_witness:
  "\<exists>e. forward_request demo_env ''deepseek'' ''u'' [] [] (\<lambda>r. ReadTimeout) = Inl (Typed e) \<and>
     exn_cls e = ConfigError"
  using forwarded_request_credentials[of demo_env "''deepseek''" "''u''" "[]" "[]" "\<lambda>r. ReadTimeout"
      "\<lambda>r. ReadTimeout"]
  by (auto simp: demo_env_def api_key_of_def provider_needs_key_def)

text \<open>
  Also: three failures of an upstream escape the classification.  An answer whose body is not JSON, a
  connection that is lost or breaks while the body is read, and one that breaks before, leave
  \<open>forward_request\<close> as untyped exceptions, which are neither retried nor (being no provider error)
  handled by the chain.
\<close>

theorem untyped_upstream_failures:
  assumes "api_key_of env p \<noteq> [] \<or> \<not> provider_needs_key p"
    and "\<not> truthy (dget body ''stream'' (JBool False))" and "fe_loads env (concat chunks) = None"
  shows "forward_request env p url body session (\<lambda>r. Answer 200 chunks Complete) = Inl (Untyped ValueError) \<and>
    forward_request env p url body session (\<lambda>r. Answer 200 chunks (Read_failed w)) = Inl (Foreign w) \<and>
    forward_request env p url body session (\<lambda>r. SocketError w) = Inl (Foreign w) \<and>
    \<not> retryable (Untyped ValueError) \<and> \<not> retryable (Foreign w)"
  using assms by (auto simp: forward_request_def retryable_def)

theorem untyped_upstream_failures_witness:
  "forward_request demo_env ''local'' ''u'' [] [] (\<lambda>r. Answer 200 [''<html>''] Complete) =
     Inl (Untyped ValueError)"
  using untyped_upstream_failures[of demo_env "''local''" "[]" "[''<html>'']" "''u''" "[]" "[]"]
  by (simp add: demo_env_def provider_needs_key_def)

subsection \<open>Retrying\<close>

lemma retry_loop_spec:
  assumes "retry_loop cfg rnd request a left = (r, n, ws)" and "0 < left"
  shows "r = request n \<and> a \<le> n \<and> n < a + left \<and> length ws = n - a \<and>
    ws = map (backoff_delay cfg rnd) [a..<n] \<and>
    (\<forall>m \<in> {a..<n}. \<exists>e. request m = Inl e \<and> retryable e) \<and>
    (\<forall>e. r = Inl e \<longrightarrow> \<not> retryable e \<or> n = a + left - 1)"
  using assms
proof (induction left arbitrary: a r n ws)
  case 0
  then show ?case by simp
next
  case (Suc left)
  show ?case
  proof (cases "request a")
    case (Inr x)
    with Suc.prems show ?thesis by auto
  next
    case (Inl e)
    show ?thesis
    proof (cases "\<not> retryable e \<or> left = 0")
      case True
      with Inl Suc.prems show ?thesis by auto
    next
      case False
      obtain r' n' ws' where rec: "retry_loop cfg rnd request (Suc a) left = (r', n', ws')"
        by (cases "retry_loop cfg rnd request (Suc a) left")
      with Inl False Suc.prems have eq: "r = r'" "n = n'" "ws = backoff_delay cfg rnd a # ws'" by auto
      from Suc.IH[OF rec] False have IH: "r' = request n'" "Suc a \<le> n'" "n' < Suc a + left"
        "length ws' = n' - Suc a" "ws' = map (backoff_delay cfg rnd) [Suc a..<n']"
        "\<forall>m \<in> {Suc a..<n'}. \<exists>e. request m = Inl e \<and> retryable e"
        "\<forall>e. r' = Inl e \<longrightarrow> \<not> retryable e \<or> n' = Suc a + left - 1" by auto
      have "\<forall>m \<in> {a..<n'}. \<exists>e. request m = Inl e \<and> retryable e"
      proof
        fix m assume "m \<in> {a..<n'}"
        then show "\<exists>e. request m = Inl e \<and> retryable e"
          using Inl False IH(6) by (cases "m = a") auto
      qed
      moreover have "[a..<n'] = a # [Suc a..<n']" using IH(2) by (simp add: upt_conv_Cons)
      ultimately show ?thesis unfolding eq using IH by auto
    qed
  qed
qed

lemma backoff_delay_bound:
  fixes cfg :: retry_cfg
  assumes "0 \<le> backoff_base cfg" and "0 \<le> backoff_multiplier cfg" and "0 \<le> max_backoff cfg"
    and "0 \<le> rnd a" and "rnd a \<le> 3 / 2"
  shows "0 \<le> backoff_delay cfg rnd a \<and> backoff_delay cfg rnd a \<le> 3 / 2 * max_backoff cfg"
proof -
  define x where "x = min (backoff_base cfg * backoff_multiplier cfg ^ (a - 1)) (max_backoff cfg)"
  have d: "backoff_delay cfg rnd a = x * (if jitter cfg then rnd a else 1)"
    by (simp only: backoff_delay_def x_def)
  have x: "0 \<le> x" "x \<le> max_backoff cfg" using assms(1-3) by (simp_all add: x_def)
  have "x * rnd a \<le> max_backoff cfg * (3 / 2)" using x assms(4,5) by (intro mult_mono) auto
  moreover have "0 \<le> x * rnd a" using x assms(4) by simp
  ultimately show ?thesis using x by (simp add: d)
qed

text \<open>
  C26: retrying is bounded and only for transient failures.  The call is made at most
  \<open>max_attempts\<close> times (once when that is not positive); the result is the last call's; every call
  before it failed with a server error or a rate limit; a failure is returned only when it is
  permanent or the attempts are used up; and each wait in between is at most 1.5 times
  \<open>max_backoff\<close>.
\<close>

theorem retry_bounded_and_transient_only:
  assumes "call_with_retry cfg rnd request = (r, n, ws)"
    and "0 \<le> backoff_base cfg" and "0 \<le> backoff_multiplier cfg" and "0 \<le> max_backoff cfg"
    and "\<forall>a. 0 \<le> rnd a \<and> rnd a \<le> 3 / 2"
  shows "r = request n \<and> 1 \<le> n \<and> int n \<le> max 1 (max_attempts cfg) \<and>
    (\<forall>m \<in> {1..<n}. \<exists>e. request m = Inl e \<and> retryable e) \<and>
    (\<forall>e. r = Inl e \<longrightarrow> \<not> retryable e \<or> int n = max 1 (max_attempts cfg)) \<and>
    length ws = n - 1 \<and> (\<forall>w \<in> set ws. 0 \<le> w \<and> w \<le> 3 / 2 * max_backoff cfg)"
proof -
  let ?k = "nat (max 1 (max_attempts cfg))"
  have "0 < ?k" by simp
  note spec = retry_loop_spec[OF assms(1)[unfolded call_with_retry_def] this]
  have "\<forall>w \<in> set ws. 0 \<le> w \<and> w \<le> 3 / 2 * max_backoff cfg"
    using spec backoff_delay_bound[OF assms(2-4)] assms(5) by auto
  moreover have "int n \<le> max 1 (max_attempts cfg)" using spec by linarith
  moreover have "int n = max 1 (max_attempts cfg)" if "n = 1 + ?k - 1" using that by simp
  ultimately show ?thesis using spec by auto
qed

definition demo_retry :: retry_cfg where
  "demo_retry = no_retry\<lparr>max_attempts := 3, jitter := False\<rparr>"

definition flaky :: "nat \<Rightarrow> escape + nat" where
  "flaky n = (if n = 1 then Inl (Typed (mk_exn ProviderInternalError ''HTTP 503'')) else Inr n)"

lemma demo_flaky: "call_with_retry demo_retry (\<lambda>n. 1) flaky = (Inr 2, 2, [1 / 2])"
  by (simp add: call_with_retry_def demo_retry_def no_retry_def flaky_def retryable_def mk_exn_def
      backoff_delay_def numeral_3_eq_3 numeral_2_eq_2)

theorem retry_bounded_and_transient_only_witness:
  "\<exists>e. flaky 1 = Inl e \<and> retryable e"
  using retry_bounded_and_transient_only[OF demo_flaky] by (force simp: demo_retry_def no_retry_def)

end
