(* ===== verification/Chain.thy ===== *)
theory Chain
  imports Circuit_Breaker Messages Forwarding
begin

section \<open>The provider chain (src/api/request\_pipeline.py: try\_chain)\<close>

text \<open>
  A request is offered to the steps of a chain in order until one answers.  The loop reads and
  writes the circuit breaker, the reasoning store and the request body; the upstream, the memory
  recall, the token count and the configuration tables are arguments.  The clock is read twice per
  step, before and after the call.
\<close>

record step =
  st_provider :: string
  st_model :: string
  st_base_url :: string \<comment> \<open>empty when the step has none\<close>

record chain_env =
  ce_forward :: forward_env
  ce_api_base :: "string \<Rightarrow> string"
  ce_vision :: "string \<Rightarrow> bool"
  ce_thinking :: "string \<Rightarrow> bool"
  ce_api_model :: "string \<Rightarrow> string \<Rightarrow> string" \<comment> \<open>the plugin's translation of a model name\<close>
  ce_breaker :: cb_config
  ce_retry :: retry_cfg
  ce_jitter :: "nat \<Rightarrow> real"
  ce_clock :: "nat \<Rightarrow> real"
  ce_upstream :: "nat \<Rightarrow> upstream_request \<Rightarrow> upstream_reply" \<comment> \<open>the n-th call of this request\<close>
  ce_session :: string

record chain_state =
  ch_body :: obj
  ch_breaker :: breaker
  ch_reasoning :: reasoning_store
  ch_calls :: nat
  ch_errors :: "string list"

type_synonym chain_result = "escape + relay \<times> nat \<times> string \<times> string"

definition base_url_of :: "chain_env \<Rightarrow> step \<Rightarrow> string" where
  "base_url_of env s = (if st_base_url s \<noteq> [] then st_base_url s else ce_api_base env (st_provider s))"

definition step_key :: "chain_env \<Rightarrow> string \<Rightarrow> step \<Rightarrow> hkey" where
  "step_key env profile s = (st_provider s, base_url_of env s, profile)"

definition has_healthy_alternative :: "chain_env \<Rightarrow> string \<Rightarrow> step list \<Rightarrow> breaker \<Rightarrow> bool" where
  "has_healthy_alternative env profile later cb \<longleftrightarrow>
     list_ex (\<lambda>s. status_of (step_key env profile s) cb = Healthy) later"

definition as_objs :: "json list \<Rightarrow> obj list res" where
  "as_objs = rmap (\<lambda>j. case j of JObj d \<Rightarrow> Inr d | _ \<Rightarrow> Inl AttributeError)"

definition body_messages :: "obj \<Rightarrow> json list res" where
  "body_messages body = py_iter (dget body ''messages'' (JList []))"

text \<open>What one step does to the body before forwarding it.\<close>

definition prepare_tools :: "obj \<Rightarrow> obj res" where
  "prepare_tools body =
     (if truthy_opt (map_of body ''tools'')
      then rbind (py_iter (dget body ''tools'' JNull)) (\<lambda>ts.
           rbind (normalize_tools_for_cache ts) (\<lambda>ts'. Inr (AList.update ''tools'' (JList ts') body)))
      else Inr body)"

definition prepare_body ::
  "bool \<Rightarrow> real \<Rightarrow> string \<Rightarrow> obj \<Rightarrow> reasoning_store \<Rightarrow> (obj \<times> reasoning_store) res" where
  "prepare_body thinking now api_model body0 rs =
     (let body = AList.update ''model'' (JStr api_model) body0 in
      if map_of body ''messages'' = None then rbind (prepare_tools body) (\<lambda>b. Inr (b, rs))
      else rbind (body_messages body) (\<lambda>ms0. rbind (as_objs ms0) (\<lambda>ms1.
        let ms2 = normalize_messages_for_cache ms1 in
        rbind (prepare_tools body) (\<lambda>body1.
        rbind (sanitize_messages ms2) (\<lambda>ms3.
          case ensure_thinking_reasoning_content thinking now ms3 rs of (ms4, rs') \<Rightarrow>
            Inr (AList.update ''messages'' (JList (map JObj ms4)) body1, rs'))))))"

definition fallback_class :: "exn_class \<Rightarrow> bool" where
  "fallback_class c \<longleftrightarrow> c \<in> {ProviderTimeoutError, ProviderAuthError, ProviderCreditsError,
     ProviderRateLimitError, ProviderInternalError}"

definition failover_event :: "string \<Rightarrow> string \<Rightarrow> string \<Rightarrow> string \<Rightarrow> string \<Rightarrow> failover" where
  "failover_event profile p q reason msg = \<lparr>fo_profile = profile, fo_from = p, fo_to = q,
     fo_reason = reason, fo_error = Some msg, fo_request = None\<rparr>"

text \<open>
  The bookkeeping of a failed step: the failover event names the next step of the chain in use,
  while the test that there is one uses the length of the chain before routing, so reading it may
  raise.
\<close>

definition note_failover ::
  "string \<Rightarrow> nat \<Rightarrow> nat \<Rightarrow> string \<Rightarrow> step list \<Rightarrow> string \<Rightarrow> string \<Rightarrow> breaker \<Rightarrow> breaker res" where
  "note_failover profile chain_len i p later reason msg cb =
     (if i + 1 < chain_len
      then (case later of
              [] \<Rightarrow> Inl IndexError
            | s # _ \<Rightarrow> Inr (record_failover (failover_event profile p (st_provider s) reason msg) cb))
      else Inr cb)"

definition attempt ::
  "chain_env \<Rightarrow> string \<Rightarrow> string \<Rightarrow> obj \<Rightarrow> nat \<Rightarrow> (escape + relay \<times> nat) \<times> nat \<times> real list" where
  "attempt env p url body calls = call_with_retry (ce_retry env) (ce_jitter env)
     (\<lambda>n. forward_request (ce_forward env) p url body (ce_session env) (ce_upstream env (calls + n)))"

definition all_failed :: "string \<Rightarrow> string list \<Rightarrow> lcp_exn" where
  "all_failed profile errors = mk_exn AllProvidersFailedError
     (''All providers failed for '' @ profile @ '': '' @ join ''; '' errors)"

definition rejected :: "string \<Rightarrow> lcp_exn \<Rightarrow> lcp_exn" where
  "rejected p e = mk_exn AllProvidersFailedError
     (''Provider '' @ p @ '' rejected the request as invalid: '' @ exn_msg e)"

text \<open>What becomes of one step: the request is served, the chain stops, or the loop goes on.\<close>

datatype step_outcome = Done chain_result | Next string

definition after_failure ::
  "chain_env \<Rightarrow> string \<Rightarrow> nat \<Rightarrow> nat \<Rightarrow> step \<Rightarrow> step list \<Rightarrow> lcp_exn \<Rightarrow> chain_state \<Rightarrow>
   step_outcome \<times> chain_state" where
  "after_failure env profile chain_len i s later e st =
     (let p = st_provider s; go_on = (\<lambda>reason cb.
            case note_failover profile chain_len i p later reason (exn_msg e) cb of
              Inl x \<Rightarrow> (Done (Inl (Untyped x)), st\<lparr>ch_breaker := cb\<rparr>)
            | Inr cb' \<Rightarrow> (Next (p @ '': '' @ exn_msg e), st\<lparr>ch_breaker := cb'\<rparr>))
      in if exn_cls e = ProviderBadRequestError then (Done (Inl (Typed (rejected p e))), st)
         else if fallback_class (exn_cls e)
         then go_on (class_name (exn_cls e))
                (record_failure (ce_breaker env) (ce_clock env (2 * i + 1)) (step_key env profile s)
                   (Some (class_name (exn_cls e))) (Some (exn_msg e)) (ch_breaker st))
         else if exn_cls e = ConfigError then go_on ''ConfigError'' (ch_breaker st)
         else (Done (Inl (Typed e)), st))"

definition call_step ::
  "chain_env \<Rightarrow> string \<Rightarrow> nat \<Rightarrow> nat \<Rightarrow> step \<Rightarrow> step list \<Rightarrow> chain_state \<Rightarrow> step_outcome \<times> chain_state" where
  "call_step env profile chain_len i s later st =
     (let p = st_provider s; m = st_model s in
      case prepare_body (ce_thinking env m) (ce_clock env (2 * i)) (ce_api_model env p m)
             (ch_body st) (ch_reasoning st) of
        Inl x \<Rightarrow> (Done (Inl (Untyped x)), st)
      | Inr (body, rs) \<Rightarrow>
          let (r, n, waits) = attempt env p (base_url_of env s) body (ch_calls st);
              st1 = st\<lparr>ch_body := body, ch_reasoning := rs, ch_calls := ch_calls st + n\<rparr>
          in case r of
               Inr (resp, status) \<Rightarrow>
                 (Done (Inr (resp, status, p, m)), st1\<lparr>ch_breaker :=
                    record_success (ce_clock env (2 * i + 1)) (step_key env profile s) (ch_breaker st1)\<rparr>)
             | Inl (Typed e) \<Rightarrow> after_failure env profile chain_len i s later e st1
             | Inl x \<Rightarrow> (Done (Inl x), st1))"

definition try_step ::
  "chain_env \<Rightarrow> string \<Rightarrow> nat \<Rightarrow> nat \<Rightarrow> step \<Rightarrow> step list \<Rightarrow> chain_state \<Rightarrow> step_outcome \<times> chain_state" where
  "try_step env profile chain_len i s later st =
     (let p = st_provider s; m = st_model s; k = step_key env profile s in
      case rbind (body_messages (ch_body st)) has_image_content of
        Inl x \<Rightarrow> (Done (Inl (Untyped x)), st)
      | Inr img \<Rightarrow>
          if img \<and> \<not> ce_vision env m
          then (Next (p @ ''/'' @ m @ '': model does not support vision/image input''), st)
          else let (ok, cb) = is_available (ce_clock env (2 * i)) k (ch_breaker st);
                   st1 = st\<lparr>ch_breaker := cb\<rparr>
               in if \<not> ok then (Next (p @ '': circuit breaker open''), st1)
                  else if status_of k cb = Degraded \<and> has_healthy_alternative env profile later cb
                  then (Next (p @ '': degraded (healthy alternative available)''), st1)
                  else call_step env profile chain_len i s later st1)"

fun chain_loop ::
  "chain_env \<Rightarrow> string \<Rightarrow> nat \<Rightarrow> nat \<Rightarrow> step list \<Rightarrow> chain_state \<Rightarrow> chain_result \<times> chain_state" where
  "chain_loop env profile chain_len i [] st = (Inl (Typed (all_failed profile (ch_errors st))), st)"
| "chain_loop env profile chain_len i (s # later) st =
     (case try_step env profile chain_len i s later st of
        (Done r, st1) \<Rightarrow> (r, st1)
      | (Next err, st1) \<Rightarrow>
          chain_loop env profile chain_len (Suc i) later (st1\<lparr>ch_errors := ch_errors st1 @ [err]\<rparr>))"

text \<open>
  The whole routine.  \<open>recall\<close> is the memory injection (None when it is off or raises, which is
  swallowed), \<open>route\<close> the dynamic router, \<open>preflight\<close> the token count with the largest context of
  the chain (None when counting raises); a warning is kept as this pair.
\<close>

record chain_request =
  cr_recall :: "json \<Rightarrow> json option"
  cr_routing :: bool
  cr_route :: "obj \<Rightarrow> step list \<Rightarrow> breaker \<Rightarrow> (step list \<times> breaker) res"
  cr_preflight :: "obj \<Rightarrow> step list \<Rightarrow> (int \<times> int) option"

definition CONTEXT_OUTPUT_RESERVE :: int where
  "CONTEXT_OUTPUT_RESERVE = 8192"

definition context_warning :: "chain_request \<Rightarrow> obj \<Rightarrow> step list \<Rightarrow> (int \<times> int) list" where
  "context_warning rq body chain = (case cr_preflight rq body chain of
      None \<Rightarrow> []
    | Some (tokens, max_ctx) \<Rightarrow>
        if 0 < tokens \<and> max_ctx < tokens + CONTEXT_OUTPUT_RESERVE then [(tokens, max_ctx)] else [])"

definition routed_chain :: "chain_request \<Rightarrow> obj \<Rightarrow> step list \<Rightarrow> breaker \<Rightarrow> (step list \<times> breaker) res" where
  "routed_chain rq body chain cb =
     (if cr_routing rq \<and> chain \<noteq> []
      then rbind (cr_route rq body chain cb) (\<lambda>(reordered, cb').
             Inr (if reordered \<noteq> [] then reordered else chain, cb'))
      else Inr (chain, cb))"

definition try_chain ::
  "chain_env \<Rightarrow> chain_request \<Rightarrow> string \<Rightarrow> step list \<Rightarrow> obj \<Rightarrow> breaker \<Rightarrow> reasoning_store \<Rightarrow>
   chain_result \<times> (int \<times> int) list \<times> chain_state" where
  "try_chain env rq profile chain body0 cb rs =
     (let body = (case cr_recall rq (dget body0 ''messages'' (JList [])) of
             None \<Rightarrow> body0 | Some ms \<Rightarrow> AList.update ''messages'' ms body0);
          st = \<lparr>ch_body = body, ch_breaker = cb, ch_reasoning = rs, ch_calls = 0, ch_errors = []\<rparr>
      in case routed_chain rq body chain cb of
           Inl x \<Rightarrow> (Inl (Untyped x), [], st)
         | Inr (chain', cb') \<Rightarrow>
             (case chain_loop env profile (length chain) 0 chain' (st\<lparr>ch_breaker := cb'\<rparr>) of
                (r, st') \<Rightarrow> (r, context_warning rq body chain', st')))"

subsection \<open>Well-formed text conversations are always prepared\<close>

text \<open>
  The shape clients of the chat API send: every message has a text (or no) content, tool calls are a
  list of objects with hashable identifiers, tool definitions have a textual name.
\<close>

definition call_ok :: "json \<Rightarrow> bool" where
  "call_ok tc \<longleftrightarrow> (case call_id tc of Inl _ \<Rightarrow> False | Inr i \<Rightarrow> hashable i)"

definition calls_ok :: "json \<Rightarrow> bool" where
  "calls_ok j \<longleftrightarrow> (case j of JNull \<Rightarrow> True | JList tcs \<Rightarrow> list_all call_ok tcs | _ \<Rightarrow> False)"

definition msg_ok :: "obj \<Rightarrow> bool" where
  "msg_ok m \<longleftrightarrow> (case dget m ''content'' JNull of JNull \<Rightarrow> True | JStr _ \<Rightarrow> True | _ \<Rightarrow> False) \<and>
     calls_ok (dget m ''tool_calls'' JNull) \<and> hashable (dget m ''tool_call_id'' JNull)"

definition tool_ok :: "json \<Rightarrow> bool" where
  "tool_ok t \<longleftrightarrow> (case tool_name (JStr []) t of Inr (JStr _) \<Rightarrow> True | _ \<Rightarrow> False)"

definition body_ok :: "obj \<Rightarrow> bool" where
  "body_ok b \<longleftrightarrow>
     (case map_of b ''messages'' of Some (JList ms) \<Rightarrow>
        list_all (\<lambda>j. case j of JObj m \<Rightarrow> msg_ok m | _ \<Rightarrow> False) ms | _ \<Rightarrow> False) \<and>
     (case map_of b ''tools'' of None \<Rightarrow> True | Some JNull \<Rightarrow> True
        | Some (JList ts) \<Rightarrow> list_all tool_ok ts | _ \<Rightarrow> False)"

lemma body_ok_messages:
  assumes "body_ok b"
  obtains ms where "map_of b ''messages'' = Some (JList (map JObj ms))" and "list_all msg_ok ms"
proof -
  obtain js where js: "map_of b ''messages'' = Some (JList js)"
    and ok: "list_all (\<lambda>j. case j of JObj m \<Rightarrow> msg_ok m | _ \<Rightarrow> False) js"
    using assms by (auto simp: body_ok_def split: option.splits json.splits)
  have "\<exists>ms. js = map JObj ms \<and> list_all msg_ok ms"
    using ok
  proof (induction js)
    case Nil
    then show ?case by simp
  next
    case (Cons j js)
    then obtain ms m where "js = map JObj ms" "list_all msg_ok ms" "j = JObj m" "msg_ok m"
      by (cases j) auto
    then show ?case by (intro exI[of _ "m # ms"]) simp
  qed
  with js that show thesis by blast
qed

lemma as_objs_JObj [simp]: "as_objs (map JObj ms) = Inr ms"
  unfolding as_objs_def by (induction ms) simp_all

lemma has_image_text: "list_all msg_ok ms \<Longrightarrow> has_image_content (map JObj ms) = Inr False"
proof (induction ms)
  case Nil
  then show ?case by simp
next
  case (Cons m ms)
  then show ?case
    by (cases "dget m ''content'' JNull") (auto simp: msg_ok_def)
qed

lemma msg_ok_normalize:
  assumes "msg_ok m"
  shows "msg_ok (normalize_message m)"
proof (cases "dget m ''role'' (JStr ''user'') = JStr ''tool''")
  case True
  have "hashable (dget m ''tool_call_id'' (JStr []))"
    using assms by (auto simp: msg_ok_def split: option.splits)
  with assms show ?thesis
    unfolding normalize_tool[OF True]
    by (auto simp: msg_ok_def calls_ok_def norm_content_def split: option.splits json.splits)
next
  case False
  let ?r = "dget m ''role'' (JStr ''user'')"
  note n = normalize_other[OF refl False]
  have c: "dget (normalize_message m) ''content'' JNull = norm_content ?r (dget m ''content'' (JStr []))"
    by (simp add: n)
  have i: "map_of (normalize_message m) ''tool_call_id'' = None"
    by (cases "truthy_opt (map_of m ''tool_calls'')"; cases "map_of m ''reasoning_content''";
        cases "truthy_opt (map_of m ''name'')"; cases "?r = JStr ''assistant''") (simp_all add: n)
  have t: "dget (normalize_message m) ''tool_calls'' JNull \<in> {dget m ''tool_calls'' JNull, JNull}"
    by (cases "truthy_opt (map_of m ''tool_calls'')"; cases "map_of m ''reasoning_content''";
        cases "truthy_opt (map_of m ''name'')"; cases "?r = JStr ''assistant''") (simp_all add: n)
  have "case norm_content ?r (dget m ''content'' (JStr [])) of JNull \<Rightarrow> True | JStr _ \<Rightarrow> True | _ \<Rightarrow> False"
    using assms by (auto simp: msg_ok_def norm_content_def split: option.splits json.splits)
  with assms t show ?thesis by (auto simp: msg_ok_def c i calls_ok_def)
qed

lemma add_ids_ok: "list_all call_ok tcs \<Longrightarrow> \<exists>is. add_ids tcs = Inr is"
  by (induction tcs) (auto simp: call_ok_def split: sum.splits)

lemma kept_calls_ok: "list_all call_ok tcs \<Longrightarrow> \<exists>ks. kept_calls rem tcs = Inr ks \<and> list_all call_ok ks"
proof (induction tcs)
  case Nil
  then show ?case by simp
next
  case (Cons tc tcs)
  then obtain ks where ks: "kept_calls rem tcs = Inr ks" "list_all call_ok ks" and tc: "call_ok tc" by auto
  from tc obtain i where "call_id tc = Inr i" "hashable i" by (auto simp: call_ok_def split: sum.splits)
  with ks tc show ?case by (simp add: in_ids_def)
qed

lemma calls_list:
  assumes "msg_ok m" and "has_calls m"
  obtains tcs where "dget m ''tool_calls'' JNull = JList tcs" and "list_all call_ok tcs"
  using assms
  by (cases "dget m ''tool_calls'' JNull")
    (auto simp: msg_ok_def has_calls_def calls_ok_def split: option.splits)

lemma declared_ids_ok: "list_all msg_ok ms \<Longrightarrow> \<exists>d. declared_ids ms = Inr d"
proof (induction ms)
  case Nil
  then show ?case by simp
next
  case (Cons m ms)
  then obtain d where d: "declared_ids ms = Inr d" by auto
  show ?case
  proof (cases "has_calls m")
    case True
    with Cons.prems obtain tcs where "dget m ''tool_calls'' JNull = JList tcs" "list_all call_ok tcs"
      by (auto elim: calls_list)
    with True d add_ids_ok show ?thesis by fastforce
  qed (simp add: d)
qed

lemma referenced_ids_ok: "list_all msg_ok ms \<Longrightarrow> \<exists>r. referenced_ids ms = Inr r"
  by (induction ms) (auto simp: msg_ok_def Let_def)

lemma msg_ok_update_calls: "msg_ok m \<Longrightarrow> calls_ok v \<Longrightarrow> msg_ok (AList.update ''tool_calls'' v m)"
  by (simp add: msg_ok_def dict_simps)

lemma sanitize_loop_ok:
  "list_all msg_ok ms \<Longrightarrow> \<exists>ms'. sanitize_loop rem ms = Inr ms' \<and> list_all msg_ok ms'"
proof (induction ms)
  case Nil
  then show ?case by simp
next
  case (Cons m ms)
  then obtain ms' where IH: "sanitize_loop rem ms = Inr ms'" "list_all msg_ok ms'" and m: "msg_ok m"
    by auto
  consider (tool) "is_tool m" | (calls) "\<not> is_tool m" "has_calls m" | (plain) "\<not> is_tool m" "\<not> has_calls m"
    by blast
  then show ?case
  proof cases
    case tool
    have "hashable (dget m ''tool_call_id'' JNull)" using m by (simp add: msg_ok_def)
    moreover have "msg_ok [(''role'', JStr ''user''), (''content'', dget m ''content'' (JStr []))]"
      using m by (auto simp: msg_ok_def calls_ok_def split: option.splits)
    ultimately show ?thesis using tool IH m by (simp add: in_ids_def)
  next
    case calls
    then obtain tcs where tcs: "dget m ''tool_calls'' JNull = JList tcs" "list_all call_ok tcs"
      using calls_list[OF m] by blast
    obtain ks where ks: "kept_calls rem tcs = Inr ks" "list_all call_ok ks"
      using kept_calls_ok[OF tcs(2)] by blast
    have "msg_ok (AList.update ''tool_calls'' (JList ks) m)" "msg_ok (AList.update ''tool_calls'' JNull m)"
      using m ks(2) by (simp_all add: msg_ok_update_calls calls_ok_def)
    with calls tcs(1) ks(1) IH show ?thesis by simp
  next
    case plain
    with IH m show ?thesis by simp
  qed
qed

lemma sanitize_ok:
  assumes "list_all msg_ok ms"
  shows "\<exists>ms'. sanitize_messages ms = Inr ms' \<and> list_all msg_ok ms'"
proof -
  obtain d r where "declared_ids ms = Inr d" "referenced_ids ms = Inr r"
    using declared_ids_ok[OF assms] referenced_ids_ok[OF assms] by blast
  with assms sanitize_loop_ok[OF assms] show ?thesis by (simp add: sanitize_messages_def Let_def)
qed

lemma msg_ok_ensure:
  assumes "list_all msg_ok ms"
  shows "list_all msg_ok (fst (ensure_thinking_reasoning_content thinking now ms s))"
proof (cases thinking)
  case False
  with assms show ?thesis by (simp add: ensure_thinking_reasoning_content_def)
next
  case True
  obtain ms' s' e where r: "rehydrate now ms s = (ms', s', e)" by (cases "rehydrate now ms s")
  have upd: "msg_ok m \<Longrightarrow> msg_ok (AList.update ''reasoning_content'' v m)" for m v
    by (simp add: msg_ok_def dict_simps)
  have "list_all2 (filled_from s) ms ms'" using rehydrate_fills[of s ms now] by (simp add: r)
  then have "list_all msg_ok ms'" using assms
  proof (induction rule: list_all2_induct)
    case Nil
    then show ?case by simp
  next
    case (Cons m ms m' ms')
    have "msg_ok (m @ [(''reasoning_content'', v)])" if "needs_reasoning m" for v
      using upd[of m v] Cons.prems that
      by (simp add: update_fresh needs_reasoning_def map_of_eq_None_iff)
    with Cons show ?case by (auto simp: filled_from_def)
  qed
  then show ?thesis
    using True by (auto simp: ensure_thinking_reasoning_content_def r list_all_iff upd)
qed

lemma tools_list:
  assumes "body_ok b"
  shows "map_of b ''tools'' = None \<or> map_of b ''tools'' = Some JNull \<or>
    (\<exists>ts. map_of b ''tools'' = Some (JList ts) \<and> list_all tool_ok ts)"
  using assms by (auto simp: body_ok_def split: option.splits json.splits)

lemma normalize_tools_ok:
  assumes "list_all tool_ok ts"
  shows "\<exists>ts'. normalize_tools_for_cache ts = Inr ts' \<and> list_all tool_ok ts'"
proof -
  have nm: "\<forall>t \<in> set ts. tool_name (JStr []) t = Inr (projr (tool_name (JStr []) t)) \<and>
      is_str (projr (tool_name (JStr []) t))"
  proof
    fix t assume "t \<in> set ts"
    with assms have "tool_ok t" by (simp add: list_all_iff)
    then show "tool_name (JStr []) t = Inr (projr (tool_name (JStr []) t)) \<and>
        is_str (projr (tool_name (JStr []) t))"
      by (auto simp: tool_ok_def split: sum.splits json.splits)
  qed
  then have "rmap (tool_name (JStr [])) ts = rmap (\<lambda>t. Inr (projr (tool_name (JStr []) t))) ts"
    by (intro rmap_cong) auto
  then have n: "normalize_tools_for_cache ts =
      py_sorted (map (\<lambda>t. (projr (tool_name (JStr []) t), t)) ts)"
    by (simp add: normalize_tools_for_cache_def zip_map_self)
  have "\<forall>k \<in> set (map fst (map (\<lambda>t. (projr (tool_name (JStr []) t), t)) ts)). is_str k"
    using nm by auto
  then have "\<exists>ts'. py_sorted (map (\<lambda>t. (projr (tool_name (JStr []) t), t)) ts) = Inr ts' \<and> set ts' = set ts"
    by (auto simp: py_sorted_def image_image)
  with assms show ?thesis by (auto simp: n list_all_iff)
qed

lemma prepare_body_ok:
  assumes "body_ok b"
  shows "\<exists>b' rs'. prepare_body thinking now m b rs = Inr (b', rs') \<and> body_ok b'"
proof -
  let ?b = "AList.update ''model'' (JStr m) b"
  obtain ms where ms: "map_of b ''messages'' = Some (JList (map JObj ms))" "list_all msg_ok ms"
    using body_ok_messages[OF assms] .
  have "list_all msg_ok (normalize_messages_for_cache ms)"
    using ms(2) by (auto simp: normalize_messages_for_cache_def list_all_iff msg_ok_normalize)
  then obtain ms3 where ms3: "sanitize_messages (normalize_messages_for_cache ms) = Inr ms3"
    "list_all msg_ok ms3" using sanitize_ok by blast
  obtain ms4 rs' where e: "ensure_thinking_reasoning_content thinking now ms3 rs = (ms4, rs')"
    by (cases "ensure_thinking_reasoning_content thinking now ms3 rs")
  have ms4: "list_all msg_ok ms4" using msg_ok_ensure[OF ms3(2), of thinking now rs] by (simp add: e)
  have b: "map_of ?b ''messages'' = map_of b ''messages''" "map_of ?b ''tools'' = map_of b ''tools''"
    by (simp_all add: dict_simps)
  have "\<exists>b1. prepare_tools ?b = Inr b1 \<and> map_of b1 ''messages'' = map_of b ''messages'' \<and>
      (map_of b1 ''tools'' = None \<or> map_of b1 ''tools'' = Some JNull \<or>
        (\<exists>ts. map_of b1 ''tools'' = Some (JList ts) \<and> list_all tool_ok ts))"
    using tools_list[OF assms] normalize_tools_ok
    by (elim disjE exE conjE) (fastforce simp: prepare_tools_def b dict_simps)+
  then obtain b1 where b1: "prepare_tools ?b = Inr b1"
    "map_of b1 ''tools'' = None \<or> map_of b1 ''tools'' = Some JNull \<or>
        (\<exists>ts. map_of b1 ''tools'' = Some (JList ts) \<and> list_all tool_ok ts)" by blast
  have "prepare_body thinking now m b rs =
      Inr (AList.update ''messages'' (JList (map JObj ms4)) b1, rs')"
    using ms(1) b ms3(1) b1(1) by (simp add: prepare_body_def Let_def body_messages_def e)
  moreover have "body_ok (AList.update ''messages'' (JList (map JObj ms4)) b1)"
    using b1(2) ms4 by (auto simp: body_ok_def dict_simps list_all_iff)
  ultimately show ?thesis by blast
qed

text \<open>
  Also: a well-formed conversation is always prepared.  For a request of the shape the chat API
  documents, no step of the chain fails while preparing the body, and the prepared body is again
  well-formed, so the next step can prepare it too.
\<close>

theorem well_formed_requests_are_prepared:
  assumes "body_ok b"
  shows "\<exists>b' rs'. prepare_body thinking now m b rs = Inr (b', rs') \<and> body_ok b' \<and>
    rbind (body_messages b') has_image_content = Inr False"
proof -
  obtain b' rs' where p: "prepare_body thinking now m b rs = Inr (b', rs')" and ok: "body_ok b'"
    using prepare_body_ok[OF assms] by blast
  obtain ms where "map_of b' ''messages'' = Some (JList (map JObj ms))" "list_all msg_ok ms"
    using body_ok_messages[OF ok] .
  with p ok show ?thesis by (simp add: body_messages_def has_image_text)
qed

definition demo_body :: obj where
  "demo_body = [(''messages'', JList (map JObj demo_history_msgs)), (''stream'', JBool False)]"

lemma demo_body_ok: "body_ok demo_body"
  by (simp add: body_ok_def demo_body_def demo_history_msgs_def msg_ok_def calls_ok_def call_ok_def)

theorem well_formed_requests_are_prepared_witness:
  "\<exists>b' rs'. prepare_body True 0 ''m'' demo_body (new_reasoning_store 3600 10) = Inr (b', rs')"
  using well_formed_requests_are_prepared[OF demo_body_ok] by blast

subsection \<open>Fallback reaches the first working provider\<close>

text \<open>A provider that answers, or fails in a way the chain falls back from, whatever it is sent.\<close>

definition serves :: "chain_env \<Rightarrow> step \<Rightarrow> bool" where
  "serves env s \<longleftrightarrow> (\<forall>body calls. \<exists>x.
     fst (attempt env (st_provider s) (base_url_of env s) body calls) = Inr x)"

definition fails_over :: "chain_env \<Rightarrow> step \<Rightarrow> bool" where
  "fails_over env s \<longleftrightarrow> (\<forall>body calls. \<exists>e.
     fst (attempt env (st_provider s) (base_url_of env s) body calls) = Inl (Typed e) \<and>
     fallback_class (exn_cls e))"

lemma try_step_healthy:
  assumes "body_ok (ch_body st)" and "status_of (step_key env profile s) (ch_breaker st) = Healthy"
  shows "try_step env profile n i s later st = call_step env profile n i s later st"
proof -
  obtain ms where "map_of (ch_body st) ''messages'' = Some (JList (map JObj ms))" "list_all msg_ok ms"
    using body_ok_messages[OF assms(1)] .
  then have "rbind (body_messages (ch_body st)) has_image_content = Inr False"
    by (simp add: body_messages_def has_image_text)
  moreover have "is_available now (step_key env profile s) (ch_breaker st) = (True, ch_breaker st)" for now
    by (rule breaker_gate.avail_healthy[OF assms(2)])
  ultimately show ?thesis using assms(2) by (simp add: try_step_def Let_def)
qed

lemma call_step_served:
  assumes "body_ok (ch_body st)" and "serves env s"
  shows "\<exists>resp status st'. call_step env profile n i s later st =
      (Done (Inr (resp, status, st_provider s, st_model s)), st') \<and>
    ch_breaker st' =
      record_success (ce_clock env (2 * i + 1)) (step_key env profile s) (ch_breaker st)"
proof -
  obtain b rs where p: "prepare_body (ce_thinking env (st_model s)) (ce_clock env (2 * i))
      (ce_api_model env (st_provider s) (st_model s)) (ch_body st) (ch_reasoning st) = Inr (b, rs)"
    using prepare_body_ok[OF assms(1)] by blast
  obtain r k ws where a: "attempt env (st_provider s) (base_url_of env s) b (ch_calls st) = (r, k, ws)"
    by (cases "attempt env (st_provider s) (base_url_of env s) b (ch_calls st)")
  with assms(2) obtain resp status where "r = Inr (resp, status)"
    unfolding serves_def by (metis fst_conv surj_pair)
  with p a show ?thesis by (simp add: call_step_def Let_def)
qed

lemma peek_record_failover [cb_simps]: "peek k (record_failover f b) = peek k b"
proof -
  have "entries (record_failover f b) = entries b"
    by (simp add: record_failover_def split: option.split)
  then show ?thesis by (simp add: peek_def)
qed

lemma call_step_fails_over:
  assumes "body_ok (ch_body st)" and "fails_over env s" and "later \<noteq> []"
  shows "\<exists>err st' (e::lcp_exn). call_step env profile n i s later st = (Next err, st') \<and> body_ok (ch_body st') \<and>
    (\<forall>k. peek k (ch_breaker st') = peek k (record_failure (ce_breaker env) (ce_clock env (2 * i + 1))
       (step_key env profile s) (Some (class_name (exn_cls e))) (Some (exn_msg e)) (ch_breaker st)))"
proof -
  obtain b rs where p: "prepare_body (ce_thinking env (st_model s)) (ce_clock env (2 * i))
      (ce_api_model env (st_provider s) (st_model s)) (ch_body st) (ch_reasoning st) = Inr (b, rs)"
    and ok: "body_ok b"
    using prepare_body_ok[OF assms(1)] by blast
  obtain r k ws where a: "attempt env (st_provider s) (base_url_of env s) b (ch_calls st) = (r, k, ws)"
    by (cases "attempt env (st_provider s) (base_url_of env s) b (ch_calls st)")
  with assms(2) obtain e where e: "r = Inl (Typed e)" "fallback_class (exn_cls e)"
    unfolding fails_over_def by (metis fst_conv)
  then have "exn_cls e \<noteq> ProviderBadRequestError" by (auto simp: fallback_class_def)
  moreover obtain s' ls where "later = s' # ls" using assms(3) by (cases later) auto
  ultimately have "\<exists>err st'. call_step env profile n i s later st = (Next err, st') \<and> body_ok (ch_body st') \<and>
    (\<forall>k. peek k (ch_breaker st') = peek k (record_failure (ce_breaker env) (ce_clock env (2 * i + 1))
       (step_key env profile s) (Some (class_name (exn_cls e))) (Some (exn_msg e)) (ch_breaker st)))"
    using p a e ok by (auto simp: call_step_def Let_def after_failure_def note_failover_def cb_simps)
  then obtain err st' where "call_step env profile n i s later st = (Next err, st')"
    and "body_ok (ch_body st')"
    and "\<forall>k. peek k (ch_breaker st') = peek k (record_failure (ce_breaker env) (ce_clock env (2 * i + 1))
       (step_key env profile s) (Some (class_name (exn_cls e))) (Some (exn_msg e)) (ch_breaker st))"
    by blast
  then show ?thesis by (intro exI[of _ err] exI[of _ st'] exI[of _ e] conjI)
qed

lemma status_of_peek: "status_of k b = (if fst k = [] then Healthy else hstatus (peek k b))"
  by (simp add: status_of_def)

text \<open>
  What a step that fails over does to the breaker, whether it is called or skipped: its own count never falls, and
  grows when the step was healthy; nothing else changes.
\<close>

lemma probe_keeps_failures:
  "consecutive_failures (peek k' (snd (is_available now k b))) = consecutive_failures (peek k' b) \<and>
   (k' \<noteq> k \<longrightarrow> peek k' (snd (is_available now k b)) = peek k' b)"
  by (simp add: is_available_store[of _ _ _ undefined] cb_simps ladder_def)

lemma try_step_fails_over:
  assumes "body_ok (ch_body st)" and "fails_over env s" and "later \<noteq> []"
  obtains err st' where "try_step env profile n i s later st = (Next err, st')" and "body_ok (ch_body st')"
    and "\<And>k. k \<noteq> step_key env profile s \<Longrightarrow> peek k (ch_breaker st') = peek k (ch_breaker st)"
    and "\<And>k. consecutive_failures (peek k (ch_breaker st)) \<le> consecutive_failures (peek k (ch_breaker st'))"
    and "status_of (step_key env profile s) (ch_breaker st) = Healthy \<Longrightarrow>
      consecutive_failures (peek (step_key env profile s) (ch_breaker st)) <
        consecutive_failures (peek (step_key env profile s) (ch_breaker st'))"
proof -
  let ?k = "step_key env profile s"
  obtain ok cb where av: "is_available (ce_clock env (2 * i)) ?k (ch_breaker st) = (ok, cb)"
    by (cases "is_available (ce_clock env (2 * i)) ?k (ch_breaker st)")
  have cb: "consecutive_failures (peek k cb) = consecutive_failures (peek k (ch_breaker st))"
    "k \<noteq> ?k \<Longrightarrow> peek k cb = peek k (ch_breaker st)" for k
    using probe_keeps_failures[of k "ce_clock env (2 * i)" ?k "ch_breaker st"] by (simp_all add: av)
  let ?st = "st\<lparr>ch_breaker := cb\<rparr>"
  obtain err st1 and e :: lcp_exn where c: "call_step env profile n i s later ?st = (Next err, st1)" and ok1: "body_ok (ch_body st1)"
    and b: "\<And>k. peek k (ch_breaker st1) = peek k (record_failure (ce_breaker env)
       (ce_clock env (2 * i + 1)) ?k (Some (class_name (exn_cls e))) (Some (exn_msg e)) cb)"
    using call_step_fails_over[of ?st env s later profile n i] assms by auto
  have grown: "consecutive_failures (peek ?k (ch_breaker st)) < consecutive_failures (peek ?k (ch_breaker st1))"
    using error_weight_pos[of "Some (class_name (exn_cls e))"]
    by (simp add: b record_failure_store cb_simps ladder_Failure_sel cb)
  have others: "peek k (ch_breaker st1) = peek k (ch_breaker st)" if "k \<noteq> ?k" for k
    using that by (simp add: b record_failure_store cb_simps cb)
  have counts: "consecutive_failures (peek k (ch_breaker st)) \<le> consecutive_failures (peek k (ch_breaker st1))" for k
    using grown others by (cases "k = ?k") auto
  obtain ms where "map_of (ch_body st) ''messages'' = Some (JList (map JObj ms))" "list_all msg_ok ms"
    using body_ok_messages[OF assms(1)] .
  then have img: "rbind (body_messages (ch_body st)) has_image_content = Inr False"
    by (simp add: body_messages_def has_image_text)
  show thesis
  proof (cases "status_of ?k (ch_breaker st) = Healthy \<or>
      ok \<and> \<not> (status_of ?k cb = Degraded \<and> has_healthy_alternative env profile later cb)")
    case True
    have "try_step env profile n i s later st = (Next err, st1)"
    proof (cases "status_of ?k (ch_breaker st) = Healthy")
      case True
      then have "is_available (ce_clock env (2 * i)) ?k (ch_breaker st) = (True, ch_breaker st)"
        by (rule breaker_gate.avail_healthy)
      with av have "cb = ch_breaker st" by simp
      then have "?st = st" by simp
      with c try_step_healthy[OF assms(1) True, of n i later] show ?thesis by simp
    next
      case False
      with \<open>_ \<or> _\<close> c show ?thesis by (auto simp: try_step_def Let_def img av)
    qed
    from that[OF this ok1 others counts grown] show ?thesis .
  next
    case False
    then obtain err' where "try_step env profile n i s later st = (Next err', ?st)"
      by (cases ok) (auto simp: try_step_def Let_def img av)
    from that[OF this] False assms(1) cb show ?thesis by simp
  qed
qed

lemma chain_fallback:
  assumes "body_ok (ch_body st)" and "step_key env profile g \<notin> step_key env profile ` set pre"
    and "status_of (step_key env profile g) (ch_breaker st) = Healthy"
    and "\<forall>s \<in> set pre. fails_over env s" and "serves env g"
  shows "\<exists>resp status st'.
    chain_loop env profile n i (pre @ g # post) st =
      (Inr (resp, status, st_provider g, st_model g), st') \<and>
    status_of (step_key env profile g) (ch_breaker st') = Healthy \<and>
    (\<forall>s \<in> set pre. status_of (step_key env profile s) (ch_breaker st) = Healthy \<longrightarrow>
       consecutive_failures (peek (step_key env profile s) (ch_breaker st)) <
       consecutive_failures (peek (step_key env profile s) (ch_breaker st'))) \<and>
    (\<forall>k. k \<noteq> step_key env profile g \<longrightarrow>
       consecutive_failures (peek k (ch_breaker st)) \<le> consecutive_failures (peek k (ch_breaker st'))) \<and>
    (\<forall>k. k \<notin> step_key env profile ` set (pre @ [g]) \<longrightarrow> peek k (ch_breaker st') = peek k (ch_breaker st))"
  using assms
proof (induction pre arbitrary: st i)
  case Nil
  obtain resp status st' where c: "call_step env profile n i g post st =
      (Done (Inr (resp, status, st_provider g, st_model g)), st')"
    and b: "ch_breaker st' = record_success (ce_clock env (2 * i + 1)) (step_key env profile g) (ch_breaker st)"
    using call_step_served[OF Nil.prems(1,5)] by blast
  have "try_step env profile n i g post st = call_step env profile n i g post st"
    using try_step_healthy[OF Nil.prems(1)] Nil.prems(3) by simp
  with c b show ?case
    by (simp add: record_success_store[of _ _ _ undefined] status_of_peek cb_simps ladder_def cleared_def)
next
  case (Cons s pre)
  let ?k = "step_key env profile s" and ?g = "step_key env profile g"
  have f: "fails_over env s" "pre @ g # post \<noteq> []" using Cons.prems(4) by simp_all
  obtain err st1 where t: "try_step env profile n i s (pre @ g # post) st = (Next err, st1)" and ok1: "body_ok (ch_body st1)"
    and other: "\<And>k. k \<noteq> ?k \<Longrightarrow> peek k (ch_breaker st1) = peek k (ch_breaker st)"
    and counts: "\<And>k. consecutive_failures (peek k (ch_breaker st)) \<le> consecutive_failures (peek k (ch_breaker st1))"
    and grown: "status_of ?k (ch_breaker st) = Healthy \<Longrightarrow>
      consecutive_failures (peek ?k (ch_breaker st)) < consecutive_failures (peek ?k (ch_breaker st1))"
    by (rule try_step_fails_over[OF Cons.prems(1) f, of profile n i]) (rule that)
  define st2 where "st2 = st1\<lparr>ch_errors := ch_errors st1 @ [err]\<rparr>"
  have ne: "?g \<noteq> ?k" using Cons.prems(2) by auto
  have "status_of ?g (ch_breaker st2) = Healthy"
    using Cons.prems(3) other[OF ne] by (simp add: st2_def status_of_peek split: if_splits)
  moreover have "body_ok (ch_body st2)" "?g \<notin> step_key env profile ` set pre" "\<forall>s \<in> set pre. fails_over env s"
    using ok1 Cons.prems(2,4) by (auto simp: st2_def)
  ultimately obtain resp status st' where
    r: "chain_loop env profile n (Suc i) (pre @ g # post) st2 = (Inr (resp, status, st_provider g, st_model g), st')"
      "status_of ?g (ch_breaker st') = Healthy"
    and up: "\<And>s'. s' \<in> set pre \<Longrightarrow> status_of (step_key env profile s') (ch_breaker st2) = Healthy \<Longrightarrow>
      consecutive_failures (peek (step_key env profile s') (ch_breaker st2)) <
      consecutive_failures (peek (step_key env profile s') (ch_breaker st'))"
    and mono: "\<And>k. k \<noteq> ?g \<Longrightarrow> consecutive_failures (peek k (ch_breaker st2)) \<le> consecutive_failures (peek k (ch_breaker st'))"
    and same: "\<And>k. k \<notin> step_key env profile ` set (pre @ [g]) \<Longrightarrow> peek k (ch_breaker st') = peek k (ch_breaker st2)"
    using Cons.IH[of st2 "Suc i"] Cons.prems(5) by blast
  have "chain_loop env profile n i ((s # pre) @ g # post) st = (Inr (resp, status, st_provider g, st_model g), st')"
    using t r(1) by (simp add: st2_def)
  moreover have "consecutive_failures (peek (step_key env profile s') (ch_breaker st)) <
      consecutive_failures (peek (step_key env profile s') (ch_breaker st'))"
    if s': "s' \<in> set (s # pre)" and h: "status_of (step_key env profile s') (ch_breaker st) = Healthy" for s'
  proof (cases "step_key env profile s' = ?k")
    case True
    with h grown mono[of ?k] ne show ?thesis by (simp add: st2_def)
  next
    case False
    with s' have "s' \<in> set pre" by auto
    moreover have p: "peek (step_key env profile s') (ch_breaker st2) = peek (step_key env profile s') (ch_breaker st)"
      using other[OF False] by (simp add: st2_def)
    moreover have "status_of (step_key env profile s') (ch_breaker st2) = Healthy"
      using h by (simp only: status_of_peek p)
    ultimately show ?thesis using up[of s'] by simp
  qed
  moreover have "consecutive_failures (peek k (ch_breaker st)) \<le> consecutive_failures (peek k (ch_breaker st'))"
    if "k \<noteq> ?g" for k
    using counts[of k] mono[OF that] by (simp add: st2_def)
  moreover have "peek k (ch_breaker st') = peek k (ch_breaker st)"
    if "k \<notin> step_key env profile ` set ((s # pre) @ [g])" for k
    using that same[of k] other[of k] by (simp add: st2_def)
  ultimately show ?case using r(2) by (intro exI[of _ resp] exI[of _ status] exI[of _ st']) simp
qed

text \<open>
  C1: fallback works.  For a well-formed request on a chain whose providers are healthy, if the steps
  before a working one all fail (timeout, rate limit, server error, rejected key, no credit) and none of
  them goes to the working step's provider at the same address (the breaker counts per provider, address
  and profile, not per model), the request is served by that working step; the failure count of each
  failed provider has grown, also when it stands in the chain several times, the serving one is healthy,
  and the health of every other key is untouched.
\<close>

theorem fallback_reaches_first_working:
  assumes "body_ok (ch_body st)" and "step_key env profile g \<notin> step_key env profile ` set pre"
    and "\<forall>s \<in> set (pre @ [g]). status_of (step_key env profile s) (ch_breaker st) = Healthy"
    and "\<forall>s \<in> set pre. fails_over env s" and "serves env g"
  shows "\<exists>resp status st'.
    chain_loop env profile n i (pre @ g # post) st =
      (Inr (resp, status, st_provider g, st_model g), st') \<and>
    status_of (step_key env profile g) (ch_breaker st') = Healthy \<and>
    (\<forall>s \<in> set pre. consecutive_failures (peek (step_key env profile s) (ch_breaker st)) <
       consecutive_failures (peek (step_key env profile s) (ch_breaker st'))) \<and>
    (\<forall>k. k \<notin> set (map (step_key env profile) (pre @ [g])) \<longrightarrow> peek k (ch_breaker st') = peek k (ch_breaker st))"
proof -
  have "status_of (step_key env profile g) (ch_breaker st) = Healthy" using assms(3) by simp
  from chain_fallback[OF assms(1,2) this assms(4,5), of n i post] assms(3) show ?thesis
    by (elim exE conjE, intro exI conjI) auto
qed

definition step_a :: step where
  "step_a = \<lparr>st_provider = ''alpha'', st_model = ''m1'', st_base_url = ''https://a''\<rparr>"

definition step_b :: step where
  "step_b = \<lparr>st_provider = ''beta'', st_model = ''m2'', st_base_url = ''https://b''\<rparr>"

text \<open>A gateway whose first upstream is unreachable and whose second one answers.\<close>

definition demo_chain_env :: chain_env where
  "demo_chain_env = \<lparr>ce_forward = \<lparr>fe_credential = (\<lambda>p. None), fe_loads = (\<lambda>s. if s = ''{}'' then Some (JObj []) else None),
       fe_timeout_text = ''900''\<rparr>,
     ce_api_base = (\<lambda>p. []), ce_vision = (\<lambda>m. False), ce_thinking = (\<lambda>m. False),
     ce_api_model = (\<lambda>p m. m), ce_breaker = default_cb_config, ce_retry = no_retry,
     ce_jitter = (\<lambda>n. 1), ce_clock = (\<lambda>n. real n),
     ce_upstream = (\<lambda>n rq. if rq_url rq = ''https://a/chat/completions'' then UrlError ''refused''
                           else Answer 200 [''{}''] Complete), ce_session = ''s''\<rparr>"

definition demo_state :: chain_state where
  "demo_state = \<lparr>ch_body = demo_body, ch_breaker = new_breaker,
     ch_reasoning = new_reasoning_store 3600 10, ch_calls = 0, ch_errors = []\<rparr>"

lemma demo_fails_over: "fails_over demo_chain_env step_a"
  by (simp add: fails_over_def attempt_def demo_chain_env_def step_a_def base_url_of_def no_retry_def
      call_with_retry_def forward_request_def api_key_of_def provider_needs_key_def
      upstream_request_def retryable_def mk_exn_def fallback_class_def numeral_eq_Suc)

lemma demo_serves: "serves demo_chain_env step_b"
  by (simp add: serves_def attempt_def demo_chain_env_def step_b_def base_url_of_def no_retry_def
      call_with_retry_def forward_request_def api_key_of_def provider_needs_key_def
      upstream_request_def numeral_eq_Suc)

theorem fallback_reaches_first_working_witness:
  "\<exists>resp status st'. chain_loop demo_chain_env ''plan'' 3 0 [step_a, step_a\<lparr>st_model := ''m9''\<rparr>, step_b] demo_state =
     (Inr (resp, status, ''beta'', ''m2''), st')"
proof -
  have a: "fails_over demo_chain_env (step_a\<lparr>st_model := ''m9''\<rparr>)"
  proof -
    have "base_url_of demo_chain_env (step_a\<lparr>st_model := ''m9''\<rparr>) = base_url_of demo_chain_env step_a"
      by (simp add: base_url_of_def)
    with demo_fails_over show ?thesis by (simp add: fails_over_def)
  qed
  have "status_of k (ch_breaker demo_state) = Healthy" for k
    by (simp add: demo_state_def status_of_def peek_def new_breaker_def default_health_def)
  moreover have "step_key demo_chain_env ''plan'' step_b \<notin>
      step_key demo_chain_env ''plan'' ` set [step_a, step_a\<lparr>st_model := ''m9''\<rparr>]"
    by (simp add: step_key_def step_a_def step_b_def)
  ultimately show ?thesis
    using fallback_reaches_first_working[of demo_state demo_chain_env "''plan''" step_b "[step_a, step_a\<lparr>st_model := ''m9''\<rparr>]" 3 0 "[]"]
      demo_fails_over a demo_serves demo_body_ok
    by (auto simp: demo_state_def step_b_def)
qed

subsection \<open>The other ways a chain ends\<close>

lemma call_step_attempt:
  assumes "body_ok (ch_body st)"
  obtains b rs r k ws where "prepare_body (ce_thinking env (st_model s)) (ce_clock env (2 * i))
      (ce_api_model env (st_provider s) (st_model s)) (ch_body st) (ch_reasoning st) = Inr (b, rs)"
    and "body_ok b"
    and "attempt env (st_provider s) (base_url_of env s) b (ch_calls st) = (r, k, ws)"
    and "\<And>resp status. r = Inr (resp, status) \<Longrightarrow> call_step env profile n i s later st =
      (Done (Inr (resp, status, st_provider s, st_model s)),
       st\<lparr>ch_body := b, ch_reasoning := rs, ch_calls := ch_calls st + k, ch_breaker := record_success
         (ce_clock env (2 * i + 1)) (step_key env profile s) (ch_breaker st)\<rparr>)"
    and "\<And>e. r = Inl (Typed e) \<Longrightarrow> call_step env profile n i s later st =
      after_failure env profile n i s later e
        (st\<lparr>ch_body := b, ch_reasoning := rs, ch_calls := ch_calls st + k\<rparr>)"
proof -
  obtain b rs where p: "prepare_body (ce_thinking env (st_model s)) (ce_clock env (2 * i))
      (ce_api_model env (st_provider s) (st_model s)) (ch_body st) (ch_reasoning st) = Inr (b, rs)"
    and ok: "body_ok b"
    using prepare_body_ok[OF assms] by blast
  obtain r k ws where a: "attempt env (st_provider s) (base_url_of env s) b (ch_calls st) = (r, k, ws)"
    by (cases "attempt env (st_provider s) (base_url_of env s) b (ch_calls st)")
  show thesis
    by (rule that[OF p ok a]) (simp_all add: call_step_def Let_def p a)
qed

definition rejects :: "chain_env \<Rightarrow> step \<Rightarrow> bool" where
  "rejects env s \<longleftrightarrow> (\<forall>body calls. \<exists>e.
     fst (attempt env (st_provider s) (base_url_of env s) body calls) = Inl (Typed e) \<and>
     exn_cls e = ProviderBadRequestError)"

text \<open>
  Also: a bad request stops the chain and blames nobody.  When the provider in turn rejects the body,
  no later step is called and no provider's health changes; but the exception that leaves the chain
  is the one for a failed chain, whose payload is the same 502 text whatever the provider said.
\<close>

theorem bad_request_stops_chain:
  assumes "body_ok (ch_body st)" and "status_of (step_key env profile s) (ch_breaker st) = Healthy"
    and "rejects env s"
  shows "\<exists>x st'. chain_loop env profile n i (s # later) st = (Inl (Typed x), st') \<and>
    ch_breaker st' = ch_breaker st \<and> exn_cls x = AllProvidersFailedError \<and>
    status_code (exn_cls x) = 502 \<and> to_dict x = to_dict (all_failed profile [])"
proof -
  obtain b rs r k ws where
    a: "attempt env (st_provider s) (base_url_of env s) b (ch_calls st) = (r, k, ws)"
    and c: "\<And>e. r = Inl (Typed e) \<Longrightarrow> call_step env profile n i s later st =
      after_failure env profile n i s later e
        (st\<lparr>ch_body := b, ch_reasoning := rs, ch_calls := ch_calls st + k\<rparr>)"
    using call_step_attempt[OF assms(1)] by metis
  from a assms(3) obtain e where e: "r = Inl (Typed e)" "exn_cls e = ProviderBadRequestError"
    unfolding rejects_def by (metis fst_conv)
  have "chain_loop env profile n i (s # later) st = (Inl (Typed (rejected (st_provider s) e)),
      st\<lparr>ch_body := b, ch_reasoning := rs, ch_calls := ch_calls st + k\<rparr>)"
    using try_step_healthy[OF assms(1,2)] c[OF e(1)] e(2) by (simp add: after_failure_def Let_def)
  then show ?thesis
    by (simp add: rejected_def all_failed_def mk_exn_def to_dict_def)
qed

theorem bad_request_stops_chain_witness:
  "\<exists>x st'. chain_loop (demo_chain_env\<lparr>ce_upstream := \<lambda>n rq. HttpError 400 ''x'',
        ce_forward := demo_env\<lparr>fe_loads := \<lambda>t. Some (JObj [(''error'', JStr ''bad'')])\<rparr>\<rparr>) ''plan'' 2 0
      [step_a, step_b] demo_state = (Inl (Typed x), st') \<and> exn_cls x = AllProvidersFailedError"
proof -
  let ?env = "demo_chain_env\<lparr>ce_upstream := \<lambda>n rq. HttpError 400 ''x'',
    ce_forward := demo_env\<lparr>fe_loads := \<lambda>t. Some (JObj [(''error'', JStr ''bad'')])\<rparr>\<rparr>"
  have "rejects ?env step_a"
    by (simp add: rejects_def attempt_def demo_chain_env_def step_a_def base_url_of_def no_retry_def
        call_with_retry_def forward_request_def api_key_of_def provider_needs_key_def demo_env_def
        retryable_def mk_exn_def classify_http_error_def is_credits_error_def CREDITS_MARKERS_def
        lower_def lower_char_def code_def is_bare_4xx_def strip_def lstrip_def rstrip_def
        is_space_def Let_def numeral_eq_Suc)
  moreover have "status_of (step_key ?env ''plan'' step_a) (ch_breaker demo_state) = Healthy"
    by (simp add: demo_state_def status_of_def peek_def new_breaker_def default_health_def)
  ultimately show ?thesis
    using bad_request_stops_chain[of demo_state ?env "''plan''" step_a 2 0 "[step_b]"] demo_body_ok
    by (auto simp: demo_state_def)
qed

lemma call_step_fails_last:
  assumes "body_ok (ch_body st)" and "fails_over env s"
  shows "(i + 1 < n \<longrightarrow> fst (call_step env profile n i s [] st) = Done (Inl (Untyped IndexError))) \<and>
    (n \<le> i + 1 \<longrightarrow> (\<exists>err. fst (call_step env profile n i s [] st) = Next err))"
proof -
  obtain b rs r k ws where
    a: "attempt env (st_provider s) (base_url_of env s) b (ch_calls st) = (r, k, ws)"
    and c: "\<And>e. r = Inl (Typed e) \<Longrightarrow> call_step env profile n i s [] st =
      after_failure env profile n i s [] e
        (st\<lparr>ch_body := b, ch_reasoning := rs, ch_calls := ch_calls st + k\<rparr>)"
    using call_step_attempt[OF assms(1)] by metis
  from a assms(2) obtain e where e: "r = Inl (Typed e)" "fallback_class (exn_cls e)"
    unfolding fails_over_def by (metis fst_conv)
  then have "exn_cls e \<noteq> ProviderBadRequestError" by (auto simp: fallback_class_def)
  with e c[OF e(1)] show ?thesis by (simp add: after_failure_def note_failover_def Let_def)
qed

text \<open>
  Also: a shortened chain crashes on failure.  When the router hands back fewer steps than the profile
  has and the last of them fails over, the failure handler reads past the end of the new chain: the
  request ends in an untyped \<open>IndexError\<close>, not in the exception for a failed chain.
\<close>

theorem shortened_chain_raises_index_error:
  assumes "body_ok body" and "2 \<le> length chain" and "cr_routing rq"
    and "cr_recall rq (dget body ''messages'' (JList [])) = None"
    and "cr_route rq body chain cb = Inr ([s], cb)"
    and "status_of (step_key env profile s) cb = Healthy" and "fails_over env s"
  shows "fst (try_chain env rq profile chain body cb rs) = Inl (Untyped IndexError)"
proof -
  let ?st = "\<lparr>ch_body = body, ch_breaker = cb, ch_reasoning = rs, ch_calls = 0, ch_errors = []\<rparr>"
  have "fst (call_step env profile (length chain) 0 s [] ?st) = Done (Inl (Untyped IndexError))"
    using call_step_fails_last[of ?st env s 0 "length chain" profile] assms(1,2,7) by simp
  moreover have "try_step env profile (length chain) 0 s [] ?st = call_step env profile (length chain) 0 s [] ?st"
    by (rule try_step_healthy) (simp_all add: assms(1,6))
  ultimately have "fst (chain_loop env profile (length chain) 0 [s] ?st) = Inl (Untyped IndexError)"
    by (cases "call_step env profile (length chain) 0 s [] ?st") simp
  moreover have "chain \<noteq> []" using assms(2) by auto
  ultimately show ?thesis
    using assms(3-5) by (simp add: try_chain_def routed_chain_def case_prod_beta Let_def del: chain_loop.simps)
qed

theorem shortened_chain_raises_index_error_witness:
  "fst (try_chain demo_chain_env \<lparr>cr_recall = \<lambda>j. None, cr_routing = True,
      cr_route = \<lambda>b c cb. Inr ([step_a], cb), cr_preflight = \<lambda>b c. None\<rparr>
     ''plan'' [step_a, step_b] demo_body new_breaker (new_reasoning_store 3600 10)) =
   Inl (Untyped IndexError)"
  using demo_fails_over demo_body_ok
  by (intro shortened_chain_raises_index_error)
    (simp_all add: status_of_def peek_def new_breaker_def default_health_def)

subsection \<open>Degraded providers\<close>

lemma degraded_step_skipped:
  assumes "body_ok (ch_body st)"
    and "status_of (step_key env profile s) (ch_breaker st) = Degraded"
    and "\<not> expired (ce_clock env (2 * i)) (peek (step_key env profile s) (ch_breaker st))"
    and "has_healthy_alternative env profile later (ch_breaker st)"
  shows "\<exists>err. chain_loop env profile n i (s # later) st =
    chain_loop env profile n (Suc i) later (st\<lparr>ch_errors := ch_errors st @ [err]\<rparr>)"
proof -
  let ?k = "step_key env profile s"
  obtain ms where ms: "map_of (ch_body st) ''messages'' = Some (JList (map JObj ms))" "list_all msg_ok ms"
    using body_ok_messages[OF assms(1)] .
  have "fst ?k \<noteq> []" "hstatus (peek ?k (ch_breaker st)) = Degraded"
    using assms(2) by (auto simp: status_of_peek split: if_splits)
  then have av: "snd (is_available (ce_clock env (2 * i)) ?k (ch_breaker st)) = ch_breaker st"
    using assms(3) by (simp add: is_available_store[of _ _ _ undefined])
  obtain ok where "is_available (ce_clock env (2 * i)) ?k (ch_breaker st) = (ok, ch_breaker st)"
    using av by (cases "is_available (ce_clock env (2 * i)) ?k (ch_breaker st)") auto
  with ms assms(2,4) show ?thesis
    by (cases ok) (auto simp: try_step_def Let_def body_messages_def has_image_text)
qed

text \<open>
  Also: a degraded provider gets no second look.  When a degraded provider is followed by a healthy
  one, it is skipped for good: if the healthy one then fails, the request fails, although the
  degraded provider was open for traffic and would have answered.
\<close>

theorem degraded_provider_gets_no_second_look:
  assumes "body_ok (ch_body st)" and "distinct (map (step_key env profile) [s, g])"
    and "status_of (step_key env profile s) (ch_breaker st) = Degraded"
    and "tripped_until (peek (step_key env profile s) (ch_breaker st)) = None"
    and "status_of (step_key env profile g) (ch_breaker st) = Healthy"
    and "serves env s" and "fails_over env g"
  shows "fst (is_available now (step_key env profile s) (ch_breaker st)) \<and>
    (\<exists>x. fst (chain_loop env profile 2 0 [s, g] st) = Inl (Typed x) \<and> exn_cls x = AllProvidersFailedError)"
proof
  have k: "fst (step_key env profile s) \<noteq> []" "hstatus (peek (step_key env profile s) (ch_breaker st)) = Degraded"
    using assms(3) by (auto simp: status_of_peek split: if_splits)
  then show "fst (is_available now (step_key env profile s) (ch_breaker st))"
    using assms(4) by (simp add: is_available_def)
  have "\<not> expired (ce_clock env (2 * 0)) (peek (step_key env profile s) (ch_breaker st))"
    using assms(4) by (simp add: expired_def)
  moreover have "has_healthy_alternative env profile [g] (ch_breaker st)"
    using assms(5) by (simp add: has_healthy_alternative_def)
  ultimately obtain err where skip: "chain_loop env profile 2 0 [s, g] st =
      chain_loop env profile 2 (Suc 0) [g] (st\<lparr>ch_errors := ch_errors st @ [err]\<rparr>)"
    using degraded_step_skipped[OF assms(1,3), of 0 "[g]" 2] by blast
  let ?st = "st\<lparr>ch_errors := ch_errors st @ [err]\<rparr>"
  have t: "try_step env profile 2 (Suc 0) g [] ?st = call_step env profile 2 (Suc 0) g [] ?st"
    by (rule try_step_healthy) (simp_all add: assms(1,5))
  obtain err' where "fst (call_step env profile 2 (Suc 0) g [] ?st) = Next err'"
    using call_step_fails_last[of ?st env g "Suc 0" 2 profile] assms(1,7) by auto
  then show "\<exists>x. fst (chain_loop env profile 2 0 [s, g] st) = Inl (Typed x) \<and>
      exn_cls x = AllProvidersFailedError"
    unfolding skip by (cases "call_step env profile 2 (Suc 0) g [] ?st")
      (simp add: t all_failed_def mk_exn_def)
qed

definition demo_degraded :: breaker where
  "demo_degraded = new_breaker\<lparr>entries := [((''beta'', ''https://b'', ''plan''),
     default_health\<lparr>consecutive_failures := 6, hstatus := Degraded\<rparr>)]\<rparr>"

theorem degraded_provider_gets_no_second_look_witness:
  "\<exists>x. fst (chain_loop demo_chain_env ''plan'' 2 0 [step_b, step_a]
     (demo_state\<lparr>ch_breaker := demo_degraded\<rparr>)) = Inl (Typed x) \<and> exn_cls x = AllProvidersFailedError"
proof -
  let ?st = "demo_state\<lparr>ch_breaker := demo_degraded\<rparr>"
  have "body_ok (ch_body ?st)" by (simp add: demo_state_def demo_body_ok)
  from degraded_provider_gets_no_second_look[OF this _ _ _ _ demo_serves demo_fails_over, of "''plan''" 0]
  show ?thesis
    by (simp add: demo_state_def demo_degraded_def step_key_def step_a_def step_b_def base_url_of_def
        status_of_def peek_def new_breaker_def default_health_def)
qed

subsection \<open>A chain ends in an answer or in the failed-chain exception\<close>














subsection \<open>Streaming\<close>

lemma prepare_body_stream:
  assumes "prepare_body thinking now m b rs = Inr (b', rs')"
  shows "map_of b' ''stream'' = map_of b ''stream''"
proof -
  have tools: "map_of x ''stream'' = map_of y ''stream''" if "prepare_tools y = Inr x" for x y
    using that by (auto simp: prepare_tools_def rbind_eq_Inr dict_simps split: if_splits)
  have model: "map_of (AList.update ''model'' (JStr m) b) ''stream'' = map_of b ''stream''"
    by (simp add: dict_simps)
  obtain b1 where "prepare_tools (AList.update ''model'' (JStr m) b) = Inr b1"
    and "b' = b1 \<or> (\<exists>v. b' = AList.update ''messages'' v b1)"
    using assms
    by (auto simp: prepare_body_def Let_def rbind_eq_Inr case_prod_beta split: if_splits)
  with tools model show ?thesis by (auto simp: dict_simps)
qed

text \<open>
  Also: a stream that dies counts as a success.  For a streamed request the chain returns, and records
  a success for the provider, as soon as the upstream has answered with its headers; however reading the
  stream ends later changes nothing, and no fallback can take place any more.
\<close>

theorem broken_stream_counts_as_success:
  assumes "body_ok (ch_body st)" and "status_of (step_key env profile s) (ch_breaker st) = Healthy"
    and "truthy (dget (ch_body st) ''stream'' (JBool False))"
    and "\<forall>n rq. ce_upstream env n rq = Answer 200 chunks fin"
    and "\<not> provider_needs_key (st_provider s)"
  shows "\<exists>st'. chain_loop env profile n i (s # later) st =
      (Inr (Stream chunks fin, 200, st_provider s, st_model s), st') \<and>
    last_success (peek (step_key env profile s) (ch_breaker st')) = Some (ce_clock env (2 * i + 1)) \<and>
    consecutive_failures (peek (step_key env profile s) (ch_breaker st')) = 0"
proof -
  obtain b rs r k ws where p: "prepare_body (ce_thinking env (st_model s)) (ce_clock env (2 * i))
      (ce_api_model env (st_provider s) (st_model s)) (ch_body st) (ch_reasoning st) = Inr (b, rs)"
    and a: "attempt env (st_provider s) (base_url_of env s) b (ch_calls st) = (r, k, ws)"
    and ok: "\<And>resp status. r = Inr (resp, status) \<Longrightarrow> call_step env profile n i s later st =
      (Done (Inr (resp, status, st_provider s, st_model s)),
       st\<lparr>ch_body := b, ch_reasoning := rs, ch_calls := ch_calls st + k, ch_breaker := record_success
         (ce_clock env (2 * i + 1)) (step_key env profile s) (ch_breaker st)\<rparr>)"
    using call_step_attempt[OF assms(1)] by metis
  have "truthy (dget b ''stream'' (JBool False))"
    using prepare_body_stream[OF p] assms(3) by simp
  then have "forward_request (ce_forward env) (st_provider s) (base_url_of env s) b (ce_session env)
      (ce_upstream env n) = Inr (Stream chunks fin, 200)" for n
    using assms(4,5) by (simp add: forward_request_def)
  then have "retry_loop (ce_retry env) (ce_jitter env) (\<lambda>n. Inr (Stream chunks fin, 200)) 1
      (nat (max 1 (max_attempts (ce_retry env)))) = (r, k, ws)"
    using a by (simp add: attempt_def call_with_retry_def)
  from retry_loop_spec[OF this] have "r = Inr (Stream chunks fin, 200)" by simp
  from ok[OF this] try_step_healthy[OF assms(1,2)]
  show ?thesis
    by (simp add: record_success_store[of _ _ _ undefined] cb_simps ladder_def cleared_def)
qed

theorem broken_stream_counts_as_success_witness:
  "\<exists>st'. chain_loop (demo_chain_env\<lparr>ce_upstream := \<lambda>n rq. Answer 200 [''data: 1''] Timed_out\<rparr>) ''plan'' 1 0
      [step_a] (demo_state\<lparr>ch_body := AList.update ''stream'' (JBool True) demo_body\<rparr>) =
     (Inr (Stream [''data: 1''] Timed_out, 200, ''alpha'', ''m1''), st')"
proof -
  let ?env = "demo_chain_env\<lparr>ce_upstream := \<lambda>n rq. Answer 200 [''data: 1''] Timed_out\<rparr>"
  let ?st = "demo_state\<lparr>ch_body := AList.update ''stream'' (JBool True) demo_body\<rparr>"
  have "\<exists>st'. chain_loop ?env ''plan'' 1 0 [step_a] ?st =
      (Inr (Stream [''data: 1''] Timed_out, 200, st_provider step_a, st_model step_a), st') \<and>
    last_success (peek (step_key ?env ''plan'' step_a) (ch_breaker st')) = Some (ce_clock ?env (2 * 0 + 1)) \<and>
    consecutive_failures (peek (step_key ?env ''plan'' step_a) (ch_breaker st')) = 0"
  proof (rule broken_stream_counts_as_success)
    show "body_ok (ch_body ?st)" using demo_body_ok by (simp add: body_ok_def dict_simps)
    show "status_of (step_key ?env ''plan'' step_a) (ch_breaker ?st) = Healthy"
      by (simp add: demo_state_def status_of_def peek_def new_breaker_def default_health_def)
  qed (simp_all add: dict_simps step_a_def provider_needs_key_def)
  then show ?thesis by (auto simp: step_a_def)
qed

end
