(* ===== verification/Py_Numbers.thy ===== *)
theory Py_Numbers
  imports Py_Text Json_Values
begin

section \<open>Reading and rounding numbers\<close>

text \<open>
  Python's \<open>int(text)\<close>, the truncation \<open>int(x)\<close> of a float and \<open>round(x, n)\<close>.  Floats
  are reals here, so \<open>round\<close> rounds the exact value, half to even as Python does.  The limit of
  4300 digits on \<open>int(text)\<close> is not modelled.
\<close>

definition is_digit :: "char \<Rightarrow> bool" where
  "is_digit c \<longleftrightarrow> c \<in> set ''0123456789''"

definition digits_value :: "string \<Rightarrow> int" where
  "digits_value s = foldl (\<lambda>n c. 10 * n + (of_char c - 48)) 0 s"

text \<open>Digits, with single underscores between them.\<close>

definition unsigned_text :: "string \<Rightarrow> int option" where
  "unsigned_text s =
     (if s \<noteq> [] \<and> is_digit (hd s) \<and> is_digit (last s) \<and>
         list_all (\<lambda>c. is_digit c \<or> c = CHR ''_'') s \<and> \<not> contains s ''__''
      then Some (digits_value (filter is_digit s)) else None)"

definition py_int :: "string \<Rightarrow> int option" where
  "py_int s = (case strip s of
      [] \<Rightarrow> None
    | c # cs \<Rightarrow>
        if c = CHR ''-'' then map_option uminus (unsigned_text cs)
        else if c = CHR ''+'' then unsigned_text cs
        else unsigned_text (c # cs))"

definition truncate_real :: "real \<Rightarrow> int" where
  "truncate_real x = (if 0 \<le> x then \<lfloor>x\<rfloor> else \<lceil>x\<rceil>)"

text \<open>\<open>int(v)\<close> on a decoded JSON value, and the number an arithmetic operator reads.\<close>

fun int_of_json :: "json \<Rightarrow> int res" where
  "int_of_json (JNum x) = Inr (truncate_real x)"
| "int_of_json (JBool b) = Inr (if b then 1 else 0)"
| "int_of_json (JStr s) = (case py_int s of None \<Rightarrow> Inl ValueError | Some i \<Rightarrow> Inr i)"
| "int_of_json _ = Inl TypeError"

fun num_of :: "json \<Rightarrow> real res" where
  "num_of (JNum x) = Inr x"
| "num_of (JBool b) = Inr (if b then 1 else 0)"
| "num_of _ = Inl TypeError"

text \<open>\<open>s.split(sep)\<close> for a one-character separator: the empty text gives one empty piece.\<close>

fun split_on :: "char \<Rightarrow> string \<Rightarrow> string list" where
  "split_on sep [] = [[]]"
| "split_on sep (c # cs) =
     (case split_on sep cs of
        [] \<Rightarrow> []
      | piece # pieces \<Rightarrow> if c = sep then [] # piece # pieces else (c # piece) # pieces)"

lemma length_split_on: "length (split_on c s) = Suc (count_list s c)"
proof (induction s)
  case (Cons a s)
  then show ?case by (cases "split_on c s") auto
qed simp

lemma split_on_free: "c \<notin> set a \<Longrightarrow> split_on c (a @ c # b) = a # split_on c b"
proof (induction a)
  case Nil
  then show ?case by (cases "split_on c b") (use length_split_on [of c b] in auto)
qed auto

lemma split_on_word: "c \<notin> set a \<Longrightarrow> split_on c a = [a]"
  by (induction a) auto

subsection \<open>Rounding\<close>

definition round_even :: "real \<Rightarrow> int" where
  "round_even x =
     (let f = \<lfloor>x\<rfloor>; d = x - of_int f in
      if d < 1 / 2 then f else if 1 / 2 < d then f + 1 else if even f then f else f + 1)"

definition py_round :: "nat \<Rightarrow> real \<Rightarrow> real" where
  "py_round n x = of_int (round_even (x * 10 ^ n)) / 10 ^ n"

lemma round_even_error: "\<bar>of_int (round_even x) - x\<bar> \<le> 1 / 2"
proof -
  have "of_int \<lfloor>x\<rfloor> \<le> x" "x < of_int \<lfloor>x\<rfloor> + 1" by linarith+
  then show ?thesis unfolding round_even_def Let_def by (simp add: abs_le_iff; linarith)
qed

lemma round_even_of_int [simp]: "round_even (of_int k) = k"
  by (simp add: round_even_def)

lemma round_even_mono: "x \<le> y \<Longrightarrow> round_even x \<le> round_even y"
proof -
  assume le: "x \<le> y"
  have x: "\<bar>of_int (round_even x) - x\<bar> \<le> 1 / 2" and y: "\<bar>of_int (round_even y) - y\<bar> \<le> 1 / 2"
    by (rule round_even_error)+
  show ?thesis
  proof (rule ccontr)
    assume "\<not> round_even x \<le> round_even y"
    then have less: "real_of_int (round_even y) + 1 \<le> real_of_int (round_even x)" by linarith
    with x y le have "x = y" by linarith
    with less show False by simp
  qed
qed

lemma py_round_error: "\<bar>py_round n x - x\<bar> \<le> 1 / (2 * 10 ^ n)"
proof -
  have p: "(0::real) < 10 ^ n" by simp
  have "py_round n x - x = (of_int (round_even (x * 10 ^ n)) - x * 10 ^ n) / 10 ^ n"
    by (simp add: py_round_def field_simps)
  then have "\<bar>py_round n x - x\<bar> = \<bar>of_int (round_even (x * 10 ^ n)) - x * 10 ^ n\<bar> / 10 ^ n"
    by (simp add: abs_divide)
  also have "\<dots> \<le> (1 / 2) / 10 ^ n"
    using round_even_error p by (intro divide_right_mono) auto
  finally show ?thesis by simp
qed

lemma py_round_mono: "x \<le> y \<Longrightarrow> py_round n x \<le> py_round n y"
  unfolding py_round_def by (intro divide_right_mono) (auto intro: round_even_mono)

lemma py_round_0 [simp]: "py_round n 0 = 0"
  using round_even_of_int[of 0] by (simp add: py_round_def)

lemma py_round_nonneg: "0 \<le> x \<Longrightarrow> 0 \<le> py_round n x"
  using py_round_mono[of 0 x n] by simp

lemma py_round_idem [simp]: "py_round n (py_round n x) = py_round n x"
  by (simp add: py_round_def)

text \<open>Adding something non-negative to a rounded value and rounding again never decreases it.\<close>

lemma py_round_add: "py_round n x = x \<Longrightarrow> 0 \<le> c \<Longrightarrow> x \<le> py_round n (x + c)"
  using py_round_mono[of x "x + c" n] by simp

end
