(* ===== verification/Router.thy ===== *)
theory Router
  imports Capability_Matrix Routing_Settings Chain Py_Numbers
begin

section \<open>The capability router (src/api/router.py: CapabilityRouter)\<close>

text \<open>
  Before the chain is walked, the router may reorder it: the request is classified, unavailable and
  blocked steps are dropped, a rule or the capability scores choose a target model, and the chain is
  rebuilt with the steps that serve the target first.  Registry, matrix, prices of the configuration,
  rules, policy and the credit status of the providers are arguments; the circuit breaker is the real
  one, since the availability test may promote a provider.  Python iterates over a \<open>set\<close> of model
  names and draws at random under the policy \<open>explore\<close>: the order and the draw are arguments
  (\<open>re_order\<close>, \<open>re_pick\<close>).  The scores of the decision log are not rounded.
\<close>

datatype task_pattern = TaskIs string | TaskIn "string list"

text \<open>
  A rule of the settings.  An absent provider or model is the empty text, an absent profile or task
  the pattern \<open>*\<close>.
\<close>

record rule =
  rl_action :: string
  rl_enabled :: bool
  rl_provider :: string
  rl_model :: string
  rl_profile :: string
  rl_task :: task_pattern
  rl_min_score :: "real option"
  rl_policy :: "string option"

record router_env =
  re_registry :: model_registry
  re_matrix :: matrix
  re_cost_bias :: real
  re_api_base :: "string \<Rightarrow> string"
  re_drained :: "string \<Rightarrow> bool"
  re_limits :: "string \<Rightarrow> obj option list" \<comment> \<open>the answers of \<open>get_model_limits\<close>, \<open>model_limits\<close>\<close>
  re_rules :: "rule list"
  re_intents :: "string list"
  re_margin_gate :: real
  re_order :: "string list \<Rightarrow> string list"
  re_pick :: "string list \<Rightarrow> real list \<Rightarrow> string"

record classification =
  cl_task :: string
  cl_path :: string
  cl_semantic :: "(string \<times> real) list" \<comment> \<open>empty when the classifier did not score\<close>
  cl_token_count :: int

record decision =
  de_action :: string
  de_provider :: string
  de_model :: string
  de_score :: real
  de_task :: string
  de_policy :: string
  de_fired :: "string list"
  de_from :: "(string \<times> string) option"

subsection \<open>Scores\<close>

definition DEFAULT_CAPABILITY :: "(string, real) dict" where
  "DEFAULT_CAPABILITY = [(''deepseek-v4-pro'', 85/100), (''deepseek-v4-flash'', 65/100)]"

definition HYSTERESIS :: real where "HYSTERESIS = 5/100"

definition MODEL_PRICES :: "(string, real) dict" where
  "MODEL_PRICES = [(''deepseek-v4-pro'', 198/100), (''deepseek-v4-flash'', 27/100)]"

fun HEALTH_BONUS :: "status \<Rightarrow> real" where
  "HEALTH_BONUS Healthy = 5/100"
| "HEALTH_BONUS Degraded = - 3/100"
| "HEALTH_BONUS Dead = - 25/100"

definition LOW_CREDIT_PENALTY :: real where "LOW_CREDIT_PENALTY = - 10/100"

definition DEFAULT_CONTEXT_WINDOW :: int where "DEFAULT_CONTEXT_WINDOW = 128000"

definition get_model_score :: "router_env \<Rightarrow> string \<Rightarrow> string \<Rightarrow> real" where
  "get_model_score env model task =
     (let task_scores = dget (re_matrix env) task [];
          logical = logical_model_name (re_registry env) model;
          benchmark = benchmark_model_name (re_registry env) logical
      in dget task_scores benchmark (dget DEFAULT_CAPABILITY logical (5/10)))"

text \<open>
  The breaker key of a step; \<open>config\<close> is the \<open>api_base\<close> of the configured providers, None when
  no configuration is passed.
\<close>

definition gate_key :: "(string \<Rightarrow> string) option \<Rightarrow> string \<Rightarrow> step \<Rightarrow> hkey" where
  "gate_key config profile s =
     (st_provider s,
      (if st_base_url s \<noteq> [] then st_base_url s
       else case config of Some api_base \<Rightarrow> api_base (st_provider s) | None \<Rightarrow> []),
      profile)"

definition score_step ::
  "router_env \<Rightarrow> breaker \<Rightarrow> (string \<Rightarrow> string) option \<Rightarrow> string \<Rightarrow> step \<Rightarrow> string \<Rightarrow> real option \<Rightarrow> real" where
  "score_step env cb config profile s task bias =
     (let capability = get_model_score env (st_model s) task;
          price = dget MODEL_PRICES (st_model s) 1;
          max_price = 198/100;
          cost_factor = price / max_price;
          b = (case bias of None \<Rightarrow> re_cost_bias env | Some x \<Rightarrow> x)
      in capability + b * (1 - cost_factor)
         + HEALTH_BONUS (status_of (gate_key config profile s) cb)
         + (if re_drained env (st_provider s) then LOW_CREDIT_PENALTY else 0))"

text \<open>A logical model is scored as a step of the provider with the empty name.\<close>

definition score_model :: "router_env \<Rightarrow> breaker \<Rightarrow> string \<Rightarrow> real option \<Rightarrow> string \<Rightarrow> real" where
  "score_model env cb task bias m =
     score_step env cb None [] \<lparr>st_provider = [], st_model = m, st_base_url = []\<rparr> task bias"

subsection \<open>Context windows\<close>

text \<open>\<open>str.isdigit\<close> also accepts the superscripts two, three and one; \<open>int\<close> rejects them.\<close>

definition isdigit_char :: "char \<Rightarrow> bool" where
  "isdigit_char c \<longleftrightarrow> is_digit c \<or> c \<in> {CHR 0xB2, CHR 0xB3, CHR 0xB9}"

definition int_of_text :: "string \<Rightarrow> int option" where
  "int_of_text s = (case strip s of
      [] \<Rightarrow> None
    | c # cs \<Rightarrow>
        if c = CHR ''-'' then (if cs \<noteq> [] \<and> list_all is_digit cs then Some (- digits_value cs) else None)
        else if list_all is_digit (c # cs) then Some (digits_value (c # cs)) else None)"

fun coerce_context :: "json \<Rightarrow> int option" where
  "coerce_context (JNum x) = Some (truncate_real x)"
| "coerce_context (JStr s) =
     (let t = dropWhile (\<lambda>c. c = CHR ''-'') (strip s)
      in if t \<noteq> [] \<and> list_all isdigit_char t then int_of_text s else None)"
| "coerce_context _ = None"

fun first_window :: "obj option list \<Rightarrow> int" where
  "first_window [] = DEFAULT_CONTEXT_WINDOW"
| "first_window (limits # rest) = (case limits of
      None \<Rightarrow> first_window rest
    | Some d \<Rightarrow> (case coerce_context (dget d ''context_window'' JNull) of
        Some ctx \<Rightarrow> if ctx \<noteq> 0 then ctx else first_window rest
      | None \<Rightarrow> first_window rest))"

definition context_window_for :: "router_env \<Rightarrow> string \<Rightarrow> int" where
  "context_window_for env logical_model = first_window (re_limits env logical_model)"

definition fits_context :: "router_env \<Rightarrow> string \<Rightarrow> int \<Rightarrow> bool" where
  "fits_context env logical_model request_tokens \<longleftrightarrow>
     request_tokens \<le> 0 \<or> request_tokens + CONTEXT_OUTPUT_RESERVE \<le> context_window_for env logical_model"

definition logical_of :: "router_env \<Rightarrow> step \<Rightarrow> string" where
  "logical_of env s = logical_model_name (re_registry env) (st_model s)"

definition max_routable_context :: "router_env \<Rightarrow> step list \<Rightarrow> int" where
  "max_routable_context env chain = (case map (\<lambda>s. context_window_for env (logical_of env s)) chain of
      [] \<Rightarrow> DEFAULT_CONTEXT_WINDOW
    | c # cs \<Rightarrow> fold max cs c)"

subsection \<open>Choosing a model\<close>

definition candidate_models :: "router_env \<Rightarrow> step list \<Rightarrow> string list \<Rightarrow> int \<Rightarrow> string list" where
  "candidate_models env chain blocked_models request_tokens =
     filter (\<lambda>m. m \<notin> set blocked_models \<and> (0 < request_tokens \<longrightarrow> fits_context env m request_tokens))
       (remdups (map (logical_of env) chain))"

definition choose_target_model ::
  "router_env \<Rightarrow> breaker \<Rightarrow> string list \<Rightarrow> string \<Rightarrow> string \<Rightarrow> real \<Rightarrow> real option \<Rightarrow> string \<Rightarrow> string option" where
  "choose_target_model env cb candidates task policy min_score bias default_logical =
     (let score = score_model env cb task bias;
          scored = sort_key (\<lambda>(s, m). - s) (map (\<lambda>m. (score m, m)) (re_order env candidates))
      in case scored of
           [] \<Rightarrow> None
         | (best_score, best_model) # _ \<Rightarrow>
             if best_score < min_score then None
             else
               let pool = map snd (filter (\<lambda>(s, m). best_score - HYSTERESIS \<le> s) scored)
               in if policy = ''explore'' \<and> 1 < length scored \<and> 1 < length pool
                  then Some (re_pick env pool (map (\<lambda>m. max (score m) 0 + 5/100) pool))
                  else if best_model \<noteq> default_logical \<and> best_score \<le> score default_logical + HYSTERESIS
                  then Some default_logical
                  else Some best_model)"

subsection \<open>Building the chain for a model\<close>

definition health_rank :: "router_env \<Rightarrow> breaker \<Rightarrow> string \<Rightarrow> step \<Rightarrow> nat" where
  "health_rank env cb profile s = severity (status_of (gate_key (Some (re_api_base env)) profile s) cb)"

definition credit_rank :: "router_env \<Rightarrow> string \<Rightarrow> nat" where
  "credit_rank env provider = (if re_drained env provider then 1 else 0)"

definition order_key ::
  "router_env \<Rightarrow> breaker \<Rightarrow> string \<Rightarrow> string option \<Rightarrow> step \<Rightarrow> nat \<times> nat \<times> nat" where
  "order_key env cb profile preferred s =
     ((if preferred \<noteq> None \<and> preferred \<noteq> Some [] \<and> preferred = Some (st_provider s) then 0 else 1),
      health_rank env cb profile s, credit_rank env (st_provider s))"

fun target_steps :: "router_env \<Rightarrow> string \<Rightarrow> string list \<Rightarrow> step list \<Rightarrow> step list" where
  "target_steps env target seen [] = []"
| "target_steps env target seen (s # chain) =
     (let p = st_provider s in
      if p \<in> set seen then target_steps env target seen chain
      else if logical_of env s = target
      then s\<lparr>st_model := provider_model_name (re_registry env) target p\<rparr>
             # target_steps env target (p # seen) chain
      else target_steps env target seen chain)"

definition step_tuple :: "step \<Rightarrow> string \<times> string" where
  "step_tuple s = (st_provider s, st_model s)"

definition build_chain_for_model ::
  "router_env \<Rightarrow> breaker \<Rightarrow> string \<Rightarrow> step list \<Rightarrow> string \<Rightarrow> string option \<Rightarrow> int \<Rightarrow> step list" where
  "build_chain_for_model env cb profile chain target preferred request_tokens =
     (let targets = target_steps env target [] chain;
          fallbacks = filter (\<lambda>s. step_tuple s \<notin> step_tuple ` set targets) chain;
          fallbacks' = (if 0 < request_tokens
                        then filter (\<lambda>s. fits_context env (logical_of env s) request_tokens) fallbacks
                        else fallbacks);
          key = order_key env cb profile preferred
      in sort_key key targets @ sort_key key fallbacks')"

subsection \<open>Rules\<close>

definition wildcard :: "string \<Rightarrow> bool" where
  "wildcard s \<longleftrightarrow> s = [] \<or> s = ''*''"

definition rule_matches :: "rule \<Rightarrow> string \<Rightarrow> string \<Rightarrow> bool" where
  "rule_matches r task profile \<longleftrightarrow>
     rl_enabled r \<and>
     (wildcard (rl_profile r) \<or> rl_profile r = profile) \<and>
     (case rl_task r of
        TaskIs t \<Rightarrow> wildcard t \<or> t = task
      | TaskIn ts \<Rightarrow> task \<in> set ts)"

definition rule_target :: "router_env \<Rightarrow> rule \<Rightarrow> step \<Rightarrow> bool" where
  "rule_target env r s \<longleftrightarrow>
     (wildcard (rl_provider r) \<or> rl_provider r = st_provider s) \<and>
     (wildcard (rl_model r) \<or> logical_model_name (re_registry env) (rl_model r) = logical_of env s) \<and>
     (\<not> wildcard (rl_provider r) \<or> \<not> wildcard (rl_model r))"

definition names_target :: "rule \<Rightarrow> bool" where
  "names_target r \<longleftrightarrow> rl_provider r \<noteq> [] \<or> rl_model r \<noteq> []"

definition is_block :: "rule \<Rightarrow> string \<Rightarrow> string \<Rightarrow> bool" where
  "is_block r task profile \<longleftrightarrow> rl_action r = ''block'' \<and> rule_matches r task profile \<and> names_target r"

record block_state =
  bs_chain :: "step list"
  bs_fired :: "string list"
  bs_providers :: "string list"
  bs_models :: "string list"

definition apply_block :: "router_env \<Rightarrow> string \<Rightarrow> string \<Rightarrow> rule \<Rightarrow> block_state \<Rightarrow> block_state" where
  "apply_block env task profile r st =
     (if \<not> is_block r task profile then st
      else let chain' = filter (\<lambda>s. \<not> rule_target env r s) (bs_chain st)
           in if length chain' < length (bs_chain st)
              then st\<lparr>bs_chain := chain', bs_fired := bs_fired st @ [''block''],
                bs_providers := (if rl_provider r \<noteq> [] \<and> rl_model r = []
                                 then List.insert (rl_provider r) (bs_providers st) else bs_providers st),
                bs_models := (if rl_model r \<noteq> [] \<and> rl_provider r = []
                              then List.insert (logical_model_name (re_registry env) (rl_model r)) (bs_models st)
                              else bs_models st)\<rparr>
              else st\<lparr>bs_chain := chain'\<rparr>)"

definition apply_blocks :: "router_env \<Rightarrow> step list \<Rightarrow> string \<Rightarrow> string \<Rightarrow> block_state" where
  "apply_blocks env chain task profile = fold (apply_block env task profile) (re_rules env)
     \<lparr>bs_chain = chain, bs_fired = [], bs_providers = [], bs_models = []\<rparr>"

definition or_star :: "string \<Rightarrow> string" where
  "or_star s = (if s = [] then ''*'' else s)"

definition provider_pin :: "rule \<Rightarrow> string option" where
  "provider_pin r = (if wildcard (or_star (rl_provider r)) then None else Some (rl_provider r))"

fun resolve_prefer ::
  "router_env \<Rightarrow> step list \<Rightarrow> string \<Rightarrow> string \<Rightarrow> rule list \<Rightarrow> string list \<Rightarrow>
   string option \<times> string option \<times> string list" where
  "resolve_prefer env chain task profile [] fired = (None, None, fired)"
| "resolve_prefer env chain task profile (r # rules) fired =
     (if rl_action r \<noteq> ''prefer'' \<or> \<not> rule_matches r task profile \<or> \<not> names_target r
      then resolve_prefer env chain task profile rules fired
      else if \<not> wildcard (or_star (rl_model r))
      then let pref = logical_model_name (re_registry env) (rl_model r);
               serving = filter (\<lambda>s. (provider_pin r = None \<or> provider_pin r = Some (st_provider s))
                            \<and> logical_of env s = pref) chain
           in if (case rl_min_score r of None \<Rightarrow> False | Some gate \<Rightarrow> get_model_score env pref task < gate)
              then resolve_prefer env chain task profile rules (fired @ [''prefer_skipped_low_score''])
              else if serving \<noteq> [] then (Some pref, provider_pin r, fired @ [''prefer''])
              else resolve_prefer env chain task profile rules (fired @ [''prefer_unserved''])
      else if \<not> list_ex (rule_target env r) chain
      then resolve_prefer env chain task profile rules fired
      else (None, provider_pin r, fired @ [''prefer'']))"

text \<open>Rules of action \<open>policy\<close>: the last valid one wins.\<close>

definition policy_after_rules :: "router_env \<Rightarrow> string \<Rightarrow> string \<Rightarrow> string \<Rightarrow> string" where
  "policy_after_rules env task profile policy = fold (\<lambda>r p.
     if rl_action r = ''policy'' \<and> rule_matches r task profile then
       (case rl_policy r of Some q \<Rightarrow> if q \<in> set VALID_POLICIES then q else p | None \<Rightarrow> p)
     else p) (re_rules env) policy"

subsection \<open>Intents\<close>

definition narrow_to_intents :: "router_env \<Rightarrow> classification \<Rightarrow> classification" where
  "narrow_to_intents env cl =
     (let intents = re_intents env in
      if intents = [] then cl
      else if strip (cl_task cl) \<in> set intents then cl
      else case filter (\<lambda>(t, s). t \<in> set intents) (cl_semantic cl) of
             (t, s) # _ \<Rightarrow> cl\<lparr>cl_task := t, cl_path := ''intent_narrowed''\<rparr>
           | [] \<Rightarrow> cl\<lparr>cl_task := hd intents, cl_path := ''intent_declared''\<rparr>)"

fun intent_margin :: "(string \<times> real) list \<Rightarrow> real option" where
  "intent_margin ((t1, s1) # (t2, s2) # rest) = Some (s1 - s2)"
| "intent_margin _ = None"

subsection \<open>Selecting a chain\<close>

record selection =
  sl_chain :: "step list option"
  sl_decision :: "decision option"

definition no_selection :: selection where
  "no_selection = \<lparr>sl_chain = None, sl_decision = None\<rparr>"

definition bias_for :: "router_env \<Rightarrow> string \<Rightarrow> real option" where
  "bias_for env policy = (if policy = ''cost_first'' then Some (min (re_cost_bias env + 15/100) (5/10)) else None)"

text \<open>
  The part after the rules: \<open>chain\<close> is the available and unblocked chain, not empty; \<open>prefer\<close>
  the outcome of the preference rules.
\<close>

definition target_for ::
  "router_env \<Rightarrow> breaker \<Rightarrow> step list \<Rightarrow> string list \<Rightarrow> classification \<Rightarrow> string \<Rightarrow> real \<Rightarrow> string option" where
  "target_for env cb chain blocked_models cl policy min_score =
     choose_target_model env cb (candidate_models env chain blocked_models (cl_token_count cl))
       (cl_task cl) policy min_score (bias_for env policy) (logical_of env (hd chain))"

definition margin_closed :: "router_env \<Rightarrow> classification \<Rightarrow> real option" where
  "margin_closed env cl = (if 0 < re_margin_gate env then
      (case intent_margin (cl_semantic cl) of
         Some m \<Rightarrow> if m < re_margin_gate env then Some m else None
       | None \<Rightarrow> None)
    else None)"

definition finish_selection ::
  "router_env \<Rightarrow> breaker \<Rightarrow> string \<Rightarrow> step list \<Rightarrow> classification \<Rightarrow> string \<Rightarrow> string list \<Rightarrow>
   string \<Rightarrow> string option \<Rightarrow> selection" where
  "finish_selection env cb profile chain cl policy fired target preferred =
     (let result = build_chain_for_model env cb profile chain target preferred (cl_token_count cl);
          prefer_fired = (''prefer'' \<in> set fired);
          head_score = score_model env cb (cl_task cl) (bias_for env policy) target
      in case result of
           [] \<Rightarrow> no_selection
         | h # _ \<Rightarrow>
             let unchanged = (step_tuple h = step_tuple (hd chain));
                 action = (if prefer_fired then ''prefer''
                           else if unchanged then ''keep_default''
                           else if policy = ''explore'' then ''explore'' else ''reorder'');
                 entry = \<lparr>de_action = action, de_provider = st_provider h, de_model = st_model h,
                    de_score = head_score, de_task = cl_task cl, de_policy = policy, de_fired = fired,
                    de_from = (if unchanged \<and> \<not> prefer_fired then None else Some (step_tuple (hd chain)))\<rparr>
             in if unchanged \<and> \<not> prefer_fired
                then \<lparr>sl_chain = None, sl_decision = Some entry\<rparr>
                else \<lparr>sl_chain = Some result, sl_decision = Some entry\<rparr>)"

definition select_in ::
  "router_env \<Rightarrow> breaker \<Rightarrow> string \<Rightarrow> step list \<Rightarrow> classification \<Rightarrow> string \<Rightarrow> real \<Rightarrow> selection" where
  "select_in env cb profile chain cl policy min_score =
     (let st = apply_blocks env chain (cl_task cl) profile; chain' = bs_chain st in
      if chain' = [] then no_selection
      else case resolve_prefer env chain' (cl_task cl) profile (re_rules env) [] of (target0, pref0, fired0) \<Rightarrow>
        let excluded = (case target0 of None \<Rightarrow> False
              | Some t \<Rightarrow> 0 < cl_token_count cl \<and> \<not> fits_context env t (cl_token_count cl));
            target = (if excluded then None else target0);
            preferred = (if excluded then None else pref0);
            fired = bs_fired st @ fired0 @ (if excluded then [''prefer_context_excluded''] else [])
        in case target of
             Some t \<Rightarrow> finish_selection env cb profile chain' cl policy fired t preferred
           | None \<Rightarrow>
               let note = (\<lambda>action score. Some \<lparr>de_action = action, de_provider = st_provider (hd chain'),
                     de_model = st_model (hd chain'), de_score = score, de_task = cl_task cl,
                     de_policy = policy, de_fired = fired, de_from = None\<rparr>)
               in case margin_closed env cl of
                    Some m \<Rightarrow> \<lparr>sl_chain = None, sl_decision = note ''margin_gate'' m\<rparr>
                  | None \<Rightarrow>
                      (case target_for env cb chain' (bs_models st) cl policy min_score of
                         None \<Rightarrow> \<lparr>sl_chain = None, sl_decision = note ''below_min_score''
                           (score_model env cb (cl_task cl) (bias_for env policy) (logical_of env (hd chain')))\<rparr>
                       | Some t \<Rightarrow> finish_selection env cb profile chain' cl policy fired t preferred))"

definition select_step ::
  "router_env \<Rightarrow> bool \<Rightarrow> string \<times> real \<Rightarrow> real \<Rightarrow> string \<Rightarrow> step list \<Rightarrow> classification \<Rightarrow> breaker \<Rightarrow>
   selection \<times> breaker" where
  "select_step env enabled policy now profile chain cl0 cb =
     (if \<not> enabled \<or> chain = [] then (no_selection, cb)
      else let cl = narrow_to_intents env cl0;
               (chain', cb') = probe_all is_available now (gate_key (Some (re_api_base env)) profile) chain cb
           in if chain' = [] then (no_selection, cb')
              else (select_in env cb' profile chain' cl
                      (policy_after_rules env (cl_task cl) profile (fst policy)) (snd policy), cb'))"

text \<open>The decision log keeps the last 50.\<close>

definition record_decision :: "decision \<Rightarrow> decision list \<Rightarrow> decision list" where
  "record_decision d ds = (let ds' = ds @ [d] in
     if 50 < length ds' then drop (length ds' - 50) ds' else ds')"

text \<open>The in-memory answer of \<open>recent_decisions\<close>: \<open>self._decisions[-limit:]\<close>, 0 means all.\<close>

definition recent_decisions :: "nat \<Rightarrow> decision list \<Rightarrow> decision list" where
  "recent_decisions limit ds = (if limit = 0 then ds else drop (length ds - limit) ds)"

text \<open>The router as \<open>try_chain\<close> calls it; the classification is that of the request.\<close>

definition router_route ::
  "router_env \<Rightarrow> bool \<Rightarrow> string \<times> real \<Rightarrow> real \<Rightarrow> string \<Rightarrow> (obj \<Rightarrow> classification) \<Rightarrow>
   obj \<Rightarrow> step list \<Rightarrow> breaker \<Rightarrow> (step list \<times> breaker) res" where
  "router_route env enabled policy now profile classify body chain cb =
     (case select_step env enabled policy now profile chain (classify body) cb of
        (sel, cb') \<Rightarrow> Inr (case sl_chain sel of Some c \<Rightarrow> c | None \<Rightarrow> [], cb'))"

subsection \<open>Lemmas: rules and targets\<close>

definition permitted :: "router_env \<Rightarrow> string \<Rightarrow> string \<Rightarrow> step \<Rightarrow> bool" where
  "permitted env task profile s \<longleftrightarrow>
     list_all (\<lambda>r. \<not> (is_block r task profile \<and> rule_target env r s)) (re_rules env)"

lemma apply_block_chain:
  "bs_chain (apply_block env task profile r st) =
     filter (\<lambda>s. \<not> (is_block r task profile \<and> rule_target env r s)) (bs_chain st)"
  by (auto simp: apply_block_def Let_def)

lemma apply_blocks_chain:
  "bs_chain (apply_blocks env chain task profile) = filter (permitted env task profile) chain"
proof -
  have "bs_chain (fold (apply_block env task profile) rs st) =
      filter (\<lambda>s. list_all (\<lambda>r. \<not> (is_block r task profile \<and> rule_target env r s)) rs) (bs_chain st)" for rs st
    by (induction rs arbitrary: st) (simp_all add: apply_block_chain conj_commute)
  then show ?thesis by (simp add: apply_blocks_def permitted_def[abs_def])
qed

lemma target_steps_mem:
  "t \<in> set (target_steps env target seen chain) \<Longrightarrow>
   \<exists>s \<in> set chain. logical_of env s = target \<and> st_provider s \<notin> set seen \<and>
     t = s\<lparr>st_model := provider_model_name (re_registry env) target (st_provider s)\<rparr>"
  by (induction env target seen chain rule: target_steps.induct) (auto simp: Let_def split: if_splits)

lemma target_steps_nonempty:
  assumes "s \<in> set chain" and "logical_of env s = target" and "st_provider s \<notin> set seen"
  shows "st_provider s \<in> st_provider ` set (target_steps env target seen chain)"
  using assms
  by (induction env target seen chain rule: target_steps.induct) (auto simp: Let_def)

lemma target_steps_distinct:
  "distinct (map st_provider (target_steps env target seen chain))"
proof (induction env target seen chain rule: target_steps.induct)
  case (2 env target seen s chain)
  have "st_provider s \<notin> st_provider ` set (target_steps env target (st_provider s # seen) chain)"
    by (auto dest!: target_steps_mem)
  with 2 show ?case by (auto simp: Let_def)
qed simp

lemma build_chain_set:
  "t \<in> set (build_chain_for_model env cb profile chain target preferred n) \<Longrightarrow>
   t \<in> set (target_steps env target [] chain) \<or> t \<in> set chain"
  by (auto simp: build_chain_for_model_def Let_def split: if_splits)

lemma resolve_prefer_served:
  "resolve_prefer env chain task profile rs fired = (Some t, p, f) \<Longrightarrow> t \<in> logical_of env ` set chain"
proof (induction env chain task profile rs fired rule: resolve_prefer.induct)
  case (1 env chain task profile fired)
  then show ?case by simp
next
  case (2 env chain task profile r rules fired)
  let ?pref = "logical_model_name (re_registry env) (rl_model r)"
  let ?serving = "filter (\<lambda>s. (provider_pin r = None \<or> provider_pin r = Some (st_provider s))
      \<and> logical_of env s = ?pref) chain"
  have "?serving \<noteq> [] \<Longrightarrow> ?pref \<in> logical_of env ` set chain"
    by (force simp: filter_empty_conv)
  with 2 show ?case by (auto simp: Let_def split: if_splits)
qed

text \<open>What the arguments standing for the set order and the random draw must do.\<close>

definition fair_choices :: "router_env \<Rightarrow> bool" where
  "fair_choices env \<longleftrightarrow> (\<forall>xs. set (re_order env xs) = set xs) \<and>
     (\<forall>xs ws. xs \<noteq> [] \<longrightarrow> re_pick env xs ws \<in> set xs)"

lemma sorted_scores:
  assumes "sort_key (\<lambda>(s, m). - s) (map (\<lambda>m. (score m, m)) ms) = (bs, bm) # rest"
  shows "bm \<in> set ms" "bs = score bm" "\<forall>m \<in> set ms. score m \<le> (bs :: real)"
proof -
  let ?l = "map (\<lambda>m. (score m, m)) ms"
  have "set ((bs, bm) # rest) = set ?l" unfolding assms[symmetric] by simp
  then have "(bs, bm) \<in> set ?l" by (metis list.set_intros(1))
  then show "bm \<in> set ms" "bs = score bm" by auto
  have "sorted (map (\<lambda>(s, m). - s) ((bs, bm) # rest))" unfolding assms[symmetric] by simp
  then have "\<forall>(s, m) \<in> set ((bs, bm) # rest). s \<le> bs" by auto
  with \<open>set ((bs, bm) # rest) = set ?l\<close> have "\<forall>(s, m) \<in> set ?l. s \<le> bs" by metis
  then show "\<forall>m \<in> set ms. score m \<le> bs" by auto
qed

lemma pool_of_scores:
  "set (map snd (filter (\<lambda>(s, m). c \<le> s) (sort_key f (map (\<lambda>m. (score m, m)) ms)))) =
     {m \<in> set ms. (c :: real) \<le> score m}"
proof -
  have "set (filter (\<lambda>(s, m). c \<le> s) (map (\<lambda>m. (score m, m)) ms)) =
      (\<lambda>m. (score m, m)) ` {m \<in> set ms. c \<le> score m}"
    by auto
  then show ?thesis by (simp add: image_image)
qed

lemma choose_target_spec:
  assumes "fair_choices env"
  shows "(choose_target_model env cb cands task policy min_score bias dflt = None \<longleftrightarrow>
      (\<forall>m \<in> set cands. score_model env cb task bias m < min_score)) \<and>
    (\<forall>t. choose_target_model env cb cands task policy min_score bias dflt = Some t \<longrightarrow>
      t \<in> set (dflt # cands) \<and>
      (\<forall>m \<in> set cands. score_model env cb task bias m - HYSTERESIS \<le> score_model env cb task bias t) \<and>
      (policy \<noteq> ''explore'' \<and> t \<noteq> dflt \<longrightarrow>
        (\<forall>m \<in> set cands. score_model env cb task bias m \<le> score_model env cb task bias t)))"
proof -
  let ?score = "score_model env cb task bias"
  let ?scored = "sort_key (\<lambda>(s, m). - s) (map (\<lambda>m. (?score m, m)) (re_order env cands))"
  have order: "set (re_order env cands) = set cands"
    and pick: "\<And>xs ws. xs \<noteq> [] \<Longrightarrow> re_pick env xs ws \<in> set xs"
    using assms by (auto simp: fair_choices_def)
  show ?thesis
  proof (cases ?scored)
    case Nil
    then have "set (map (\<lambda>m. (?score m, m)) (re_order env cands)) = {}" by (metis set_empty set_sort)
    with order have "set cands = {}" by auto
    with Nil show ?thesis by (simp add: choose_target_model_def)
  next
    case (Cons x rest)
    obtain bs bm where x: "x = (bs, bm)" by (cases x)
    note best = sorted_scores[OF Cons[unfolded x], unfolded order]
    let ?pool = "map snd (filter (\<lambda>(s, m). bs - HYSTERESIS \<le> s) ?scored)"
    have pool: "set ?pool = {m \<in> set cands. bs - HYSTERESIS \<le> ?score m}"
      unfolding pool_of_scores order by (rule refl)
    have none: "bs < min_score \<longleftrightarrow> (\<forall>m \<in> set cands. ?score m < min_score)"
      using best(1,3) unfolding best(2) by (meson le_less_trans)
    have hyst: "0 < HYSTERESIS" by (simp add: HYSTERESIS_def)
    let ?pickm = "re_pick env ?pool (map (\<lambda>m. max (?score m) 0 + 5/100) ?pool)"
    have picked: "?pickm \<in> {m \<in> set cands. bs - HYSTERESIS \<le> ?score m}" if "1 < length ?pool"
    proof -
      have "?pool \<noteq> []" using that by (rule contrapos_pn) (simp only: list.size(3) not_less_zero not_False_eq_True)
      from pick[OF this] show ?thesis unfolding pool .
    qed
    have eq: "choose_target_model env cb cands task policy min_score bias dflt =
        (if bs < min_score then None
         else if policy = ''explore'' \<and> 1 < length ?scored \<and> 1 < length ?pool then Some ?pickm
         else if bm \<noteq> dflt \<and> bs \<le> ?score dflt + HYSTERESIS then Some dflt else Some bm)"
      unfolding choose_target_model_def Let_def by (simp add: Cons x)
    show ?thesis
    proof (intro conjI allI impI)
      show "choose_target_model env cb cands task policy min_score bias dflt = None \<longleftrightarrow>
          (\<forall>m \<in> set cands. ?score m < min_score)"
        unfolding eq none by simp
    next
      fix t
      assume t: "choose_target_model env cb cands task policy min_score bias dflt = Some t"
      then consider (picked) "policy = ''explore''" "1 < length ?pool" "t = ?pickm"
        | (dflt) "bm \<noteq> dflt" "bs \<le> ?score dflt + HYSTERESIS" "t = dflt" | (best) "t = bm"
        unfolding eq by (auto split: if_splits)
      note cases = this
      show "t \<in> set (dflt # cands)"
        using cases picked best(1) by (cases; simp)
      have le: "bs - HYSTERESIS \<le> ?score t"
        using cases picked best(2) hyst by (cases; simp)
      show "\<forall>m \<in> set cands. ?score m - HYSTERESIS \<le> ?score t"
      proof
        fix m
        assume "m \<in> set cands"
        from le bspec[OF best(3) this] show "?score m - HYSTERESIS \<le> ?score t" by linarith
      qed
      assume pol: "policy \<noteq> ''explore'' \<and> t \<noteq> dflt"
      have "t = bm" by (rule cases) (use pol in simp_all)
      with best(2) have "?score t = bs" by (simp only:)
      with best(3) show "\<forall>m \<in> set cands. ?score m \<le> ?score t" by simp
    qed
  qed
qed

text \<open>
  C21: the chosen model is the best one, up to the hysteresis.  With a fair set order and a fair
  draw, a choice fails exactly when there is no candidate or the best score is below the floor; the
  chosen model is a candidate or the default; under the eager and cost-first policies it either is a
  best candidate or is the default, scoring within the hysteresis of every candidate; under the
  explore policy it also never scores more than the hysteresis below any candidate.
\<close>

theorem chosen_model_is_best:
  assumes "fair_choices env"
  shows "(choose_target_model env cb cands task policy min_score bias dflt = None \<longleftrightarrow>
      (\<forall>m \<in> set cands. score_model env cb task bias m < min_score)) \<and>
    (\<forall>t. choose_target_model env cb cands task policy min_score bias dflt = Some t \<longrightarrow>
      t \<in> set (dflt # cands) \<and>
      (\<forall>m \<in> set cands. score_model env cb task bias m - HYSTERESIS \<le> score_model env cb task bias t) \<and>
      (policy \<noteq> ''explore'' \<and> t \<noteq> dflt \<longrightarrow>
        (\<forall>m \<in> set cands. score_model env cb task bias m \<le> score_model env cb task bias t)))"
  using assms by (rule choose_target_spec)

subsection \<open>Lemmas: selections\<close>

lemma finish_selection_built:
  "sl_chain (finish_selection env cb profile chain cl policy fired target preferred) = Some result \<Longrightarrow>
   result = build_chain_for_model env cb profile chain target preferred (cl_token_count cl) \<and> result \<noteq> []"
  by (auto simp: finish_selection_def no_selection_def Let_def split: list.splits if_splits)

lemma choice_among:
  assumes "fair_choices env"
    and "choose_target_model env cb cands task policy min_score bias dflt = Some t"
  shows "t \<in> set (dflt # cands)"
  using choose_target_spec[OF assms(1)] assms(2) by blast

lemma candidates_served:
  "m \<in> set (candidate_models env chain blocked n) \<Longrightarrow> m \<in> logical_of env ` set chain"
  by (auto simp: candidate_models_def)

lemma select_in_built:
  assumes "fair_choices env"
    and "sl_chain (select_in env cb profile chain cl policy min_score) = Some result"
  shows "\<exists>target preferred.
    result = build_chain_for_model env cb profile (filter (permitted env (cl_task cl) profile) chain)
               target preferred (cl_token_count cl) \<and>
    target \<in> logical_of env ` set (filter (permitted env (cl_task cl) profile) chain) \<and> result \<noteq> []"
proof -
  define chain' where "chain' = filter (permitted env (cl_task cl) profile) chain"
  define st where "st = apply_blocks env chain (cl_task cl) profile"
  have st: "bs_chain st = chain'" by (simp add: st_def chain'_def apply_blocks_chain)
  obtain t0 p0 f0 where pref: "resolve_prefer env chain' (cl_task cl) profile (re_rules env) [] = (t0, p0, f0)"
    by (metis prod_cases3)
  have ne: "chain' \<noteq> []"
    using assms(2) by (auto simp: select_in_def Let_def st st_def[symmetric] no_selection_def)
  define ex where "ex = (case t0 of None \<Rightarrow> False
      | Some t \<Rightarrow> 0 < cl_token_count cl \<and> \<not> fits_context env t (cl_token_count cl))"
  define fired where "fired = bs_fired st @ f0 @ (if ex then [''prefer_context_excluded''] else [])"
  have sel: "select_in env cb profile chain cl policy min_score =
      (case (if ex then None else t0) of
         Some t \<Rightarrow> finish_selection env cb profile chain' cl policy fired t (if ex then None else p0)
       | None \<Rightarrow>
           (case margin_closed env cl of
              Some m \<Rightarrow> \<lparr>sl_chain = None, sl_decision = Some \<lparr>de_action = ''margin_gate'',
                 de_provider = st_provider (hd chain'), de_model = st_model (hd chain'), de_score = m,
                 de_task = cl_task cl, de_policy = policy, de_fired = fired, de_from = None\<rparr>\<rparr>
            | None \<Rightarrow>
               (case target_for env cb chain' (bs_models st) cl policy min_score of
                  None \<Rightarrow> \<lparr>sl_chain = None, sl_decision = Some \<lparr>de_action = ''below_min_score'',
                     de_provider = st_provider (hd chain'), de_model = st_model (hd chain'),
                     de_score = score_model env cb (cl_task cl) (bias_for env policy) (logical_of env (hd chain')),
                     de_task = cl_task cl, de_policy = policy, de_fired = fired, de_from = None\<rparr>\<rparr>
                | Some t \<Rightarrow> finish_selection env cb profile chain' cl policy fired t (if ex then None else p0))))"
    unfolding select_in_def Let_def st_def[symmetric] st pref prod.case ex_def[symmetric] fired_def[symmetric]
    using ne by (simp only: if_False)
  obtain t where t: "sl_chain (finish_selection env cb profile chain' cl policy fired t (if ex then None else p0)) = Some result"
    and "t0 = Some t \<or> target_for env cb chain' (bs_models st) cl policy min_score = Some t"
    using assms(2) unfolding sel by (auto split: option.splits if_splits)
  moreover have "t \<in> logical_of env ` set chain'" if "t0 = Some t"
    using resolve_prefer_served pref that by metis
  moreover have "t \<in> logical_of env ` set chain'"
    if "target_for env cb chain' (bs_models st) cl policy min_score = Some t"
  proof -
    have "t = logical_of env (hd chain') \<or> t \<in> logical_of env ` set chain'"
      using choice_among[OF assms(1) that[unfolded target_for_def]] candidates_served by auto
    then show ?thesis using ne by auto
  qed
  ultimately show ?thesis
    using finish_selection_built[OF t] unfolding chain'_def by blast
qed

lemma build_chain_members:
  assumes "t \<in> set (build_chain_for_model env cb profile chain target preferred n)"
  shows "\<exists>s \<in> set chain. st_provider t = st_provider s \<and> st_base_url t = st_base_url s \<and>
    (t = s \<or> logical_of env s = target \<and> st_model t = provider_model_name (re_registry env) target (st_provider s))"
  using build_chain_set[OF assms] by (auto dest!: target_steps_mem)

lemma select_step_cases:
  assumes "select_step env enabled policy now profile chain cl0 cb = (sel, cb')"
    and "sl_chain sel = Some result"
  shows "sel = select_in env cb' profile
      (filter (\<lambda>s. fst (is_available now (gate_key (Some (re_api_base env)) profile s) cb)) chain)
      (narrow_to_intents env cl0)
      (policy_after_rules env (cl_task (narrow_to_intents env cl0)) profile (fst policy)) (snd policy)"
proof -
  obtain ch cb1 where pr: "probe_all is_available now (gate_key (Some (re_api_base env)) profile) chain cb = (ch, cb1)"
    by (cases "probe_all is_available now (gate_key (Some (re_api_base env)) profile) chain cb")
  have "ch = filter (\<lambda>s. fst (is_available now (gate_key (Some (re_api_base env)) profile s) cb)) chain"
    using breaker_gate.probe_all_is_filter[of now "gate_key (Some (re_api_base env)) profile" chain cb]
    by (simp add: pr)
  with assms show ?thesis
    by (auto simp: select_step_def Let_def pr no_selection_def split: if_splits)
qed

text \<open>
  C10: the router only reorders.  Whatever it returns, every step is a step of the profile's chain
  whose provider the circuit breaker lets through at that moment and that no matching block rule
  names; it keeps provider and base URL, and its model is the step's own or the provider's spelling
  of the same logical model.
\<close>

theorem routed_steps_are_permitted:
  assumes "fair_choices env"
    and "select_step env enabled policy now profile chain cl cb = (sel, cb')"
    and "sl_chain sel = Some result" and "t \<in> set result"
  shows "\<exists>s \<in> set chain. st_provider t = st_provider s \<and> st_base_url t = st_base_url s \<and>
    fst (is_available now (gate_key (Some (re_api_base env)) profile s) cb) \<and>
    permitted env (cl_task (narrow_to_intents env cl)) profile s \<and>
    (t = s \<or> st_model t = provider_model_name (re_registry env) (logical_of env s) (st_provider s))"
proof -
  note sel = select_step_cases[OF assms(2,3)]
  from select_in_built[OF assms(1) assms(3)[unfolded sel]] obtain target preferred where
    r: "result = build_chain_for_model env cb' profile
      (filter (permitted env (cl_task (narrow_to_intents env cl)) profile)
        (filter (\<lambda>s. fst (is_available now (gate_key (Some (re_api_base env)) profile s) cb)) chain))
      target preferred (cl_token_count (narrow_to_intents env cl))"
    by blast
  from build_chain_members[OF assms(4)[unfolded r]] show ?thesis by auto
qed

subsection \<open>A worked example\<close>

definition demo_router :: router_env where
  "demo_router = \<lparr>re_registry = take 2 DEFAULT_MODEL_REGISTRY,
     re_matrix = [(''planning'', [(''deepseek-v4-pro'', 9/10), (''deepseek-v4-flash'', 6/10)])],
     re_cost_bias = 15/100, re_api_base = (\<lambda>_. ''https://api''), re_drained = (\<lambda>p. p = ''commandcode''),
     re_limits = (\<lambda>_. []),
     re_rules = [\<lparr>rl_action = ''block'', rl_enabled = True, rl_provider = ''commandcode'', rl_model = [],
       rl_profile = ''*'', rl_task = TaskIs ''*'', rl_min_score = None, rl_policy = None\<rparr>],
     re_intents = [], re_margin_gate = 0, re_order = (\<lambda>xs. xs), re_pick = (\<lambda>xs ws. hd xs)\<rparr>"

definition demo_step :: "string \<Rightarrow> string \<Rightarrow> step" where
  "demo_step p m = \<lparr>st_provider = p, st_model = m, st_base_url = []\<rparr>"

definition demo_chain :: "step list" where
  "demo_chain = [demo_step ''commandcode'' ''deepseek/deepseek-v4-pro'',
     demo_step ''deepseek'' ''deepseek-v4-flash'', demo_step ''opencode'' ''deepseek-v4-pro'']"

definition demo_task :: classification where
  "demo_task = \<lparr>cl_task = ''planning'', cl_path = ''semantic'', cl_semantic = [(''planning'', 8/10)], cl_token_count = 0\<rparr>"
lemma demo_selection: "sl_chain (fst (select_step demo_router True (''eager'', 0) 0 ''l2'' demo_chain demo_task new_breaker)) =
  Some [demo_step ''opencode'' ''deepseek-v4-pro'', demo_step ''deepseek'' ''deepseek-v4-flash'']" by code_simp

lemma demo_fair: "fair_choices demo_router"
  by (auto simp: fair_choices_def demo_router_def)

theorem chosen_model_is_best_witness:
  "choose_target_model demo_router new_breaker [''deepseek-v4-pro'', ''deepseek-v4-flash''] ''planning''
     ''eager'' 2 None ''deepseek-v4-flash'' = None \<longleftrightarrow>
   (\<forall>m \<in> set [''deepseek-v4-pro'', ''deepseek-v4-flash''].
      score_model demo_router new_breaker ''planning'' None m < 2)"
  by (rule conjunct1[OF chosen_model_is_best[OF demo_fair]])

theorem routed_steps_are_permitted_witness:
  "\<exists>s \<in> set demo_chain. st_provider s = ''opencode'' \<and>
     permitted demo_router ''planning'' ''l2'' s"
proof -
  obtain sel cb' where sel: "select_step demo_router True (''eager'', 0) 0 ''l2'' demo_chain demo_task new_breaker = (sel, cb')"
    by (cases "select_step demo_router True (''eager'', 0) 0 ''l2'' demo_chain demo_task new_breaker")
  then have "sl_chain sel = Some [demo_step ''opencode'' ''deepseek-v4-pro'', demo_step ''deepseek'' ''deepseek-v4-flash'']"
    using demo_selection by simp
  moreover have "cl_task (narrow_to_intents demo_router demo_task) = ''planning''"
    by (simp add: narrow_to_intents_def demo_router_def demo_task_def)
  moreover have "st_provider (demo_step ''opencode'' ''deepseek-v4-pro'') = ''opencode''"
    by (simp add: demo_step_def)
  ultimately show ?thesis
    using routed_steps_are_permitted[OF demo_fair sel, of _ "demo_step ''opencode'' ''deepseek-v4-pro''"]
    by (metis list.set_intros(1))
qed

subsection \<open>The order of the rebuilt chain\<close>

text \<open>
  Also: the rebuilt chain serves the target first.  It is the steps that serve the target model, one
  per provider, followed by the other steps, each part sorted by (preferred provider, health, credit)
  and stable within equal keys; when no step is dropped for its context window, every (provider,
  model) pair of the chain is still there; and when some step of the chain serves the target, the
  head of the result is a step for the target with the smallest key among them.
\<close>

theorem build_chain_order:
  "\<exists>targets fallbacks.
     build_chain_for_model env cb profile chain target preferred n = targets @ fallbacks \<and>
     sorted (map (order_key env cb profile preferred) targets) \<and>
     sorted (map (order_key env cb profile preferred) fallbacks) \<and>
     (\<forall>k. filter (\<lambda>t. order_key env cb profile preferred t = k) targets =
        filter (\<lambda>t. order_key env cb profile preferred t = k) (target_steps env target [] chain)) \<and>
     distinct (map st_provider targets) \<and>
     st_provider ` set targets = st_provider ` {s \<in> set chain. logical_of env s = target} \<and>
     (n \<le> 0 \<longrightarrow> step_tuple ` set chain \<subseteq> step_tuple ` set (targets @ fallbacks)) \<and>
     (target \<in> logical_of env ` set chain \<longrightarrow> targets \<noteq> [] \<and>
        (\<forall>t \<in> set targets. order_key env cb profile preferred (hd targets) \<le> order_key env cb profile preferred t))"
proof -
  let ?key = "order_key env cb profile preferred"
  let ?ts = "target_steps env target [] chain"
  let ?fb = "filter (\<lambda>s. step_tuple s \<notin> step_tuple ` set ?ts) chain"
  let ?fb' = "if 0 < n then filter (\<lambda>s. fits_context env (logical_of env s) n) ?fb else ?fb"
  have build: "build_chain_for_model env cb profile chain target preferred n = sort_key ?key ?ts @ sort_key ?key ?fb'"
    by (simp add: build_chain_for_model_def Let_def)
  have providers: "st_provider ` set ?ts = st_provider ` {s \<in> set chain. logical_of env s = target}"
    using target_steps_mem[of _ env target "[]" chain] target_steps_nonempty[of _ chain env target "[]"]
    by fastforce
  have ne: "?ts \<noteq> []" if "target \<in> logical_of env ` set chain"
    using that providers by auto
  have minimal: "?key (hd xs) \<le> ?key t" if "sorted (map ?key xs)" "t \<in> set xs" for xs t
    using that by (cases xs) auto
  show ?thesis
  proof (rule exI[of _ "sort_key ?key ?ts"], rule exI[of _ "sort_key ?key ?fb'"], intro conjI impI allI)
    show "distinct (map st_provider (sort_key ?key ?ts))"
      using target_steps_distinct[of env target "[]" chain]
      by (simp add: distinct_map)
    show "step_tuple ` set chain \<subseteq> step_tuple ` set (sort_key ?key ?ts @ sort_key ?key ?fb')" if "n \<le> 0"
    proof (rule image_subsetI)
      fix x
      assume "x \<in> set chain"
      then show "step_tuple x \<in> step_tuple ` set (sort_key ?key ?ts @ sort_key ?key ?fb')"
        using that by (cases "step_tuple x \<in> step_tuple ` set ?ts") auto
    qed
    show "sort_key ?key ?ts \<noteq> []" if "target \<in> logical_of env ` set chain"
      using ne[OF that] by (metis set_empty set_sort)
    show "\<forall>t \<in> set (sort_key ?key ?ts). ?key (hd (sort_key ?key ?ts)) \<le> ?key t"
      using minimal[OF sorted_sort_key] by blast
  qed (simp_all add: build providers sort_key_stable)
qed

theorem build_chain_order_witness:
  "\<exists>targets fallbacks.
     build_chain_for_model demo_router new_breaker ''l2'' demo_chain ''deepseek-v4-flash'' None 0 = targets @ fallbacks \<and>
     step_tuple ` set demo_chain \<subseteq> step_tuple ` set (targets @ fallbacks)"
  using build_chain_order[of demo_router new_breaker "''l2''" demo_chain "''deepseek-v4-flash''" None 0]
  by blast

end
