(* ===== verification/Routing.thy ===== *)
theory Routing
  imports Router
begin

section \<open>Routing decisions and their effect on the chain\<close>

text \<open>
  What the router's answer does to a request: the intents of a profile, the margin gate, the decision
  log, and the hand-over to the provider chain, where \<open>None\<close> means "use the profile's chain".
\<close>

subsection \<open>Intents and the margin gate\<close>

text \<open>
  Also: a profile with declared intents is routed inside them.  The task used is the classified one
  when it is declared; otherwise it is a declared task that scored for the message, and no declared
  task scored before it in the classifier's list; only when none scored it is the first declared
  one.  Nothing else of the classification changes, and without declared intents nothing does.
\<close>

theorem narrowed_task_is_declared:
  "(re_intents env = [] \<longrightarrow> narrow_to_intents env cl = cl) \<and>
   (re_intents env \<noteq> [] \<longrightarrow>
      (let cl' = narrow_to_intents env cl in
       cl_semantic cl' = cl_semantic cl \<and> cl_token_count cl' = cl_token_count cl \<and>
       (if strip (cl_task cl) \<in> set (re_intents env) then cl' = cl
        else cl_task cl' \<in> set (re_intents env) \<and>
          (if set (map fst (cl_semantic cl)) \<inter> set (re_intents env) = {}
           then cl_task cl' = hd (re_intents env) \<and> cl_path cl' = ''intent_declared''
           else \<exists>before after s. cl_semantic cl = before @ (cl_task cl', s) # after \<and>
             set (map fst before) \<inter> set (re_intents env) = {} \<and> cl_path cl' = ''intent_narrowed''))))"
proof (cases "re_intents env = [] \<or> strip (cl_task cl) \<in> set (re_intents env)")
  case True
  then show ?thesis by (auto simp: narrow_to_intents_def Let_def)
next
  case False
  let ?P = "\<lambda>(t, s). t \<in> set (re_intents env)"
  show ?thesis
  proof (cases "filter ?P (cl_semantic cl)")
    case Nil
    then have "set (map fst (cl_semantic cl)) \<inter> set (re_intents env) = {}"
      by (force simp: filter_empty_conv)
    with Nil False show ?thesis by (simp add: narrow_to_intents_def Let_def)
  next
    case (Cons x rest)
    obtain t s where x: "x = (t, s)" by (cases x)
    with Cons obtain before after where split: "cl_semantic cl = before @ (t, s) # after"
        and P: "t \<in> set (re_intents env)" and none: "\<forall>u \<in> set before. \<not> ?P u"
      by (auto simp: filter_eq_Cons_iff)
    have none': "set (map fst before) \<inter> set (re_intents env) = {}" using none by auto
    have some: "set (map fst (cl_semantic cl)) \<inter> set (re_intents env) \<noteq> {}" using split P by auto
    have cl': "narrow_to_intents env cl = cl\<lparr>cl_task := t, cl_path := ''intent_narrowed''\<rparr>"
      using False Cons x by (simp add: narrow_to_intents_def)
    show ?thesis
      unfolding cl' Let_def using False some P split none' by auto
  qed
qed

theorem narrowed_task_is_declared_witness:
  "cl_task (narrow_to_intents (demo_router\<lparr>re_intents := [''planning'']\<rparr>)
     \<lparr>cl_task = ''casual_chat'', cl_path = ''default'', cl_semantic = [], cl_token_count = 0\<rparr>) \<in> {''planning''}"
proof -
  have "strip ''casual_chat'' = ''casual_chat''" by code_simp
  then show ?thesis
    using narrowed_task_is_declared[of "demo_router\<lparr>re_intents := [''planning'']\<rparr>"
        "\<lparr>cl_task = ''casual_chat'', cl_path = ''default'', cl_semantic = [], cl_token_count = 0\<rparr>"]
    by (auto simp: Let_def)
qed

subsection \<open>The decision log\<close>

text \<open>
  Also: the decision log is the last fifty decisions.  After any sequence of recorded decisions the
  log holds the latest fifty in the order they were made, and asking for the recent ones gives a
  suffix of it of the requested length.
\<close>

theorem decision_log_is_last_fifty:
  "let ds' = fold record_decision ds [] in
     ds' = drop (length ds - 50) ds \<and> length ds' \<le> 50 \<and>
     (\<exists>older. ds' = older @ recent_decisions limit ds') \<and>
     (0 < limit \<longrightarrow> length (recent_decisions limit ds') = min limit (length ds'))"
proof -
  have log: "fold record_decision ds [] = drop (length ds - 50) ds"
  proof (induction ds rule: rev_induct)
    case Nil
    then show ?case by simp
  next
    case (snoc d ds)
    then show ?case
      by (auto simp: record_decision_def Let_def intro!: arg_cong[of _ _ "\<lambda>n. drop n ds"])
  qed
  have "\<exists>older. ds' = older @ recent_decisions limit ds'" for ds'
    by (auto simp: recent_decisions_def intro: exI[of _ "take (length ds' - limit) ds'"])
  moreover have "length (drop (length ds - 50) ds) \<le> 50" by simp
  moreover have "length (recent_decisions limit ds') = min limit (length ds')" if "0 < limit" for ds'
    using that by (simp add: recent_decisions_def min_def)
  ultimately show ?thesis unfolding Let_def log by blast
qed

theorem decision_log_is_last_fifty_witness:
  "(0 :: nat) < 1 \<longrightarrow> length (recent_decisions 1 (fold record_decision
     [\<lparr>de_action = ''reorder'', de_provider = ''p'', de_model = ''m'', de_score = 1, de_task = ''planning'',
        de_policy = ''eager'', de_fired = [], de_from = None\<rparr>] [])) = 1"
  using decision_log_is_last_fifty[of "[\<lparr>de_action = ''reorder'', de_provider = ''p'', de_model = ''m'',
      de_score = 1, de_task = ''planning'', de_policy = ''eager'', de_fired = [], de_from = None\<rparr>]" 1]
  by (simp add: Let_def record_decision_def)

subsection \<open>The default model and the candidate set\<close>

text \<open>
  Also: the hysteresis can choose an excluded model.  When the default model of the chain is not among
  the candidates (the context gate excluded it) and no candidate beats it by more than the
  hysteresis, the default is chosen all the same, under every policy but explore.
\<close>

theorem hysteresis_returns_excluded_default:
  assumes "fair_choices env" and "policy \<noteq> ''explore''" and "dflt \<notin> set cands"
    and "m \<in> set cands" and "min_score \<le> score_model env cb task bias m"
    and "\<forall>m' \<in> set cands. score_model env cb task bias m' \<le> score_model env cb task bias dflt + HYSTERESIS"
  shows "choose_target_model env cb cands task policy min_score bias dflt = Some dflt"
proof -
  let ?score = "score_model env cb task bias"
  have order: "set (re_order env cands) = set cands"
    using assms(1) by (auto simp: fair_choices_def)
  obtain bs bm rest where scored: "sort_key (\<lambda>(s, m). - s) (map (\<lambda>m. (?score m, m)) (re_order env cands)) = (bs, bm) # rest"
  proof (cases "sort_key (\<lambda>(s, m). - s) (map (\<lambda>m. (?score m, m)) (re_order env cands))")
    case Nil
    then have "set (map (\<lambda>m. (?score m, m)) (re_order env cands)) = {}" by (metis set_empty set_sort)
    with order assms(4) show thesis by auto
  qed (use that in \<open>metis prod.exhaust\<close>)
  note best = sorted_scores[OF scored, unfolded order]
  have "\<not> bs < min_score" using best(3) assms(4,5) by fastforce
  moreover have "bm \<noteq> dflt" using best(1) assms(3) by metis
  moreover have "bs \<le> ?score dflt + HYSTERESIS" using best(1,2) assms(6) by metis
  ultimately show ?thesis
    using assms(2) by (simp add: choose_target_model_def Let_def scored)
qed

theorem hysteresis_returns_excluded_default_witness:
  "choose_target_model demo_router new_breaker [''deepseek-v4-flash''] ''casual_chat'' ''eager'' 0 None
     ''deepseek-v4-pro'' = Some ''deepseek-v4-pro''"
proof (rule hysteresis_returns_excluded_default[OF demo_fair, where m = "''deepseek-v4-flash''"])
  have pro: "score_model demo_router new_breaker ''casual_chat'' None ''deepseek-v4-pro'' = 90/100"
    by code_simp
  have flash: "score_model demo_router new_breaker ''casual_chat'' None ''deepseek-v4-flash'' = 65/100 + 171/1320 + 5/100"
    by code_simp
  show "0 \<le> score_model demo_router new_breaker ''casual_chat'' None ''deepseek-v4-flash''"
    by (simp add: flash)
  show "\<forall>m' \<in> set [''deepseek-v4-flash'']. score_model demo_router new_breaker ''casual_chat'' None m'
      \<le> score_model demo_router new_breaker ''casual_chat'' None ''deepseek-v4-pro'' + HYSTERESIS"
    by (simp add: flash pro HYSTERESIS_def)
qed simp_all

subsection \<open>No answer means the whole chain\<close>

lemma no_prefer_rules:
  "list_all (\<lambda>r. rl_action r \<noteq> ''prefer'') rs \<Longrightarrow> resolve_prefer env chain task profile rs fired = (None, None, fired)"
  by (induction rs) simp_all

lemma blocks_fired: "set (bs_fired (apply_blocks env chain task profile)) \<subseteq> {''block''}"
proof -
  have "set (bs_fired st) \<subseteq> {''block''} \<Longrightarrow>
      set (bs_fired (fold (apply_block env task profile) rs st)) \<subseteq> {''block''}" for rs st
    by (induction rs arbitrary: st) (auto simp: apply_block_def Let_def)
  then show ?thesis by (simp add: apply_blocks_def)
qed

lemma single_step_kept:
  assumes "st_model s = provider_model_name (re_registry env) (logical_of env s) (st_provider s)"
    and "''prefer'' \<notin> set fired"
  shows "sl_chain (finish_selection env cb profile [s] cl policy fired (logical_of env s) preferred) = None"
  using assms
  by (simp add: finish_selection_def build_chain_for_model_def Let_def step_tuple_def)

text \<open>One permitted step, spelled as the registry spells it, or none: the router gives no answer.\<close>

lemma few_steps_no_answer:
  assumes fair: "fair_choices env" and noprefer: "list_all (\<lambda>r. rl_action r \<noteq> ''prefer'') (re_rules env)"
    and few: "filter (permitted env (cl_task cl) profile) chain = take 1 (filter (permitted env (cl_task cl) profile) chain)"
    and spelled: "\<forall>s \<in> set chain. permitted env (cl_task cl) profile s \<longrightarrow>
      st_model s = provider_model_name (re_registry env) (logical_of env s) (st_provider s)"
  shows "sl_chain (select_in env cb profile chain cl policy min_score) = None"
proof (cases "filter (permitted env (cl_task cl) profile) chain")
  case Nil
  then show ?thesis by (simp add: select_in_def Let_def apply_blocks_chain no_selection_def)
next
  case (Cons s rest)
  with few have one: "filter (permitted env (cl_task cl) profile) chain = [s]" by simp
  have "s \<in> set chain \<and> permitted env (cl_task cl) profile s"
    using arg_cong[OF one, of set] by auto
  then have s: "st_model s = provider_model_name (re_registry env) (logical_of env s) (st_provider s)"
    using spelled by blast
  have target: "t = logical_of env s"
    if "target_for env cb [s] blocked cl policy min_score = Some t" for t blocked
    using choice_among[OF fair that[unfolded target_for_def]] candidates_served by fastforce
  have fired: "''prefer'' \<notin> set (bs_fired (apply_blocks env chain (cl_task cl) profile))"
    using blocks_fired[of env chain "cl_task cl" profile] by auto
  show ?thesis
    using single_step_kept[OF s fired] target
    by (auto simp: select_in_def Let_def apply_blocks_chain one no_prefer_rules[OF noprefer]
        split: option.split)
qed

lemma filter_swap: "filter P (filter Q xs) = filter Q (filter P xs)"
  by (simp add: conj_commute)

lemma no_answer_whole_chain:
  assumes "cr_route rq = router_route env enabled policy now profile classify"
    and "sl_chain (fst (select_step env enabled policy now profile chain (classify body) cb)) = None"
  shows "\<exists>cb'. routed_chain rq body chain cb = Inr (chain, cb')"
  using assms by (auto simp: routed_chain_def router_route_def split: prod.split)

text \<open>
  Also: block rules are not enforced when the router gives no answer.  When the block rules leave at
  most one step of the chain (spelled as the registry spells it) and no rule prefers a model, the
  router answers nothing and the request is offered to the profile's whole chain in its own order,
  blocked steps included; a blocked first step is the first one tried.
\<close>

theorem blocked_steps_still_tried:
  assumes "fair_choices env" and "list_all (\<lambda>r. rl_action r \<noteq> ''prefer'') (re_rules env)"
    and "cr_route rq = router_route env True policy now profile classify"
    and "length (filter (permitted env (cl_task (narrow_to_intents env (classify body))) profile) chain) \<le> 1"
    and "\<forall>s \<in> set chain. permitted env (cl_task (narrow_to_intents env (classify body))) profile s \<longrightarrow>
      st_model s = provider_model_name (re_registry env) (logical_of env s) (st_provider s)"
  shows "\<exists>cb'. routed_chain rq body chain cb = Inr (chain, cb')"
proof (rule no_answer_whole_chain[OF assms(3)], rule ccontr)
  let ?cl = "narrow_to_intents env (classify body)"
  let ?avail = "\<lambda>s. fst (is_available now (gate_key (Some (re_api_base env)) profile s) cb)"
  assume some: "sl_chain (fst (select_step env True policy now profile chain (classify body) cb)) \<noteq> None"
  then obtain result where result: "sl_chain (fst (select_step env True policy now profile chain (classify body) cb)) = Some result"
    by auto
  obtain sel cb' where sel: "select_step env True policy now profile chain (classify body) cb = (sel, cb')"
    by (cases "select_step env True policy now profile chain (classify body) cb")
  have in_sel: "sel = select_in env cb' profile (filter ?avail chain) ?cl
      (policy_after_rules env (cl_task ?cl) profile (fst policy)) (snd policy)"
    using result by (intro select_step_cases[OF sel]) (simp add: sel)
  have "length (filter (permitted env (cl_task ?cl) profile) (filter ?avail chain)) \<le> 1"
    unfolding filter_swap[of "permitted env (cl_task ?cl) profile"]
    using assms(4) length_filter_le order_trans by blast
  then have "sl_chain sel = None"
    unfolding in_sel using assms(1,2,5) by (intro few_steps_no_answer) simp_all
  with result sel show False by simp
qed

definition demo_request :: chain_request where
  "demo_request = \<lparr>cr_recall = (\<lambda>_. None), cr_routing = True,
     cr_route = router_route demo_router True (''eager'', 0) 0 ''l2'' (\<lambda>_. demo_task),
     cr_preflight = (\<lambda>_ _. None)\<rparr>"

definition blocked_chain :: "step list" where
  "blocked_chain = [demo_step ''commandcode'' ''deepseek/deepseek-v4-pro'',
     demo_step ''deepseek'' ''deepseek-v4-flash'']"

theorem blocked_steps_still_tried_witness:
  "\<not> permitted demo_router ''planning'' ''l2'' (hd blocked_chain) \<and>
   (\<exists>cb'. routed_chain demo_request [] blocked_chain new_breaker = Inr (blocked_chain, cb'))"
proof
  have task: "cl_task (narrow_to_intents demo_router demo_task) = ''planning''"
    by (simp add: narrow_to_intents_def demo_router_def demo_task_def)
  show "\<not> permitted demo_router ''planning'' ''l2'' (hd blocked_chain)"
    by code_simp
  have one: "filter (permitted demo_router ''planning'' ''l2'') blocked_chain = [demo_step ''deepseek'' ''deepseek-v4-flash'']"
    by code_simp
  have spelled: "st_model (demo_step ''deepseek'' ''deepseek-v4-flash'') =
      provider_model_name (re_registry demo_router) (logical_of demo_router (demo_step ''deepseek'' ''deepseek-v4-flash''))
        (st_provider (demo_step ''deepseek'' ''deepseek-v4-flash''))"
    by code_simp
  show "\<exists>cb'. routed_chain demo_request [] blocked_chain new_breaker = Inr (blocked_chain, cb')"
  proof (rule blocked_steps_still_tried[OF demo_fair, where profile = "''l2''" and classify = "\<lambda>_. demo_task"
        and policy = "(''eager'', 0)" and now = 0], unfold task)
    show "list_all (\<lambda>r. rl_action r \<noteq> ''prefer'') (re_rules demo_router)" by (simp add: demo_router_def)
    show "cr_route demo_request = router_route demo_router True (''eager'', 0) 0 ''l2'' (\<lambda>_. demo_task)"
      by (simp add: demo_request_def)
    show "length (filter (permitted demo_router ''planning'' ''l2'') blocked_chain) \<le> 1"
      by (simp add: one)
    show "\<forall>s \<in> set blocked_chain. permitted demo_router ''planning'' ''l2'' s \<longrightarrow>
        st_model s = provider_model_name (re_registry demo_router) (logical_of demo_router s) (st_provider s)"
    proof (intro ballI impI)
      fix s
      assume "s \<in> set blocked_chain" "permitted demo_router ''planning'' ''l2'' s"
      then have "s \<in> set (filter (permitted demo_router ''planning'' ''l2'') blocked_chain)" by simp
      then have "s = demo_step ''deepseek'' ''deepseek-v4-flash''" unfolding one by simp
      with spelled show "st_model s = provider_model_name (re_registry demo_router)
          (logical_of demo_router s) (st_provider s)" by simp
    qed
  qed
qed

subsection \<open>Preference rules\<close>

lemma build_chain_head:
  assumes "s \<in> set chain" and "logical_of env s = target"
  shows "\<exists>h rest. build_chain_for_model env cb profile chain target preferred n = h # rest \<and>
    (\<exists>s \<in> set chain. logical_of env s = target \<and>
       h = s\<lparr>st_model := provider_model_name (re_registry env) target (st_provider s)\<rparr>)"
proof -
  let ?sorted = "sort_key (order_key env cb profile preferred) (target_steps env target [] chain)"
  have "set ?sorted \<noteq> {}" using target_steps_nonempty[OF assms, of "[]"] by auto
  then obtain h rest where h: "?sorted = h # rest" by (cases ?sorted) auto
  then have "h \<in> set (target_steps env target [] chain)" by (metis list.set_intros(1) set_sort)
  with target_steps_mem h show ?thesis
    unfolding build_chain_for_model_def Let_def by fastforce
qed

text \<open>
  Also: a preference rule decides the model.  When the first rule of a scope prefers a model for any
  provider and some available, unblocked step of the chain serves it, the router answers, whatever
  the scores, and the first step of its answer is such a step under the provider's own spelling.
\<close>

theorem preferred_model_served_first:
  assumes "re_rules env = r # rules" and "rl_action r = ''prefer''"
    and "rule_matches r (cl_task cl) profile" and "\<not> wildcard (rl_model r)"
    and "wildcard (rl_provider r)" and "rl_min_score r = None" and "cl_token_count cl = 0"
    and "s \<in> set chain" and "permitted env (cl_task cl) profile s"
    and "logical_of env s = logical_model_name (re_registry env) (rl_model r)"
  shows "\<exists>h rest. sl_chain (select_in env cb profile chain cl policy min_score) = Some (h # rest) \<and>
    (\<exists>s \<in> set chain. permitted env (cl_task cl) profile s \<and>
       logical_of env s = logical_model_name (re_registry env) (rl_model r) \<and>
       h = s\<lparr>st_model := provider_model_name (re_registry env) (logical_of env s) (st_provider s)\<rparr>)"
proof -
  let ?pref = "logical_model_name (re_registry env) (rl_model r)"
  let ?chain = "filter (permitted env (cl_task cl) profile) chain"
  have s: "s \<in> set ?chain" using assms(8,9) by simp
  have star: "\<not> wildcard (or_star (rl_model r))" "wildcard (or_star (rl_provider r))"
    using assms(4,5) by (auto simp: wildcard_def or_star_def)
  have names: "names_target r" using assms(4) by (auto simp: names_target_def wildcard_def)
  have serving: "filter (\<lambda>x. logical_of env x = ?pref) ?chain \<noteq> []"
    using s assms(10) by (auto simp: filter_empty_conv)
  have pref: "resolve_prefer env ?chain (cl_task cl) profile (r # rules) [] = (Some ?pref, None, [''prefer''])"
    using star names assms(2,3,6) serving by (simp add: provider_pin_def Let_def)
  obtain h rest where built: "build_chain_for_model env cb profile ?chain ?pref None 0 = h # rest"
    and h: "\<exists>s \<in> set ?chain. logical_of env s = ?pref \<and>
       h = s\<lparr>st_model := provider_model_name (re_registry env) ?pref (st_provider s)\<rparr>"
    using build_chain_head[OF s assms(10)] by blast
  have ne: "?chain \<noteq> []" using s by (metis empty_iff empty_set)
  have "sl_chain (select_in env cb profile chain cl policy min_score) = Some (h # rest)"
    unfolding select_in_def Let_def apply_blocks_chain assms(1) pref prod.case option.case assms(7)
    using ne by (simp add: finish_selection_def Let_def built assms(7))
  with h show ?thesis by auto
qed

theorem preferred_model_served_first_witness:
  "\<exists>h rest. sl_chain (select_in (demo_router\<lparr>re_rules := [\<lparr>rl_action = ''prefer'', rl_enabled = True,
       rl_provider = [], rl_model = ''deepseek-v4-flash'', rl_profile = ''*'', rl_task = TaskIs ''planning'',
       rl_min_score = None, rl_policy = None\<rparr>]\<rparr>) new_breaker ''l2'' demo_chain demo_task ''eager'' 0) = Some (h # rest)"
proof -
  define r where "r = \<lparr>rl_action = ''prefer'', rl_enabled = True, rl_provider = [],
    rl_model = ''deepseek-v4-flash'', rl_profile = ''*'', rl_task = TaskIs ''planning'',
    rl_min_score = None, rl_policy = None\<rparr>"
  let ?env = "demo_router\<lparr>re_rules := [r]\<rparr>"
  have "logical_of ?env (demo_step ''deepseek'' ''deepseek-v4-flash'') =
      logical_model_name (re_registry ?env) (rl_model r)"
    by (simp add: logical_of_def demo_step_def r_def)
  moreover have "demo_step ''deepseek'' ''deepseek-v4-flash'' \<in> set demo_chain"
    by (simp add: demo_chain_def)
  moreover have "permitted ?env (cl_task demo_task) ''l2'' (demo_step ''deepseek'' ''deepseek-v4-flash'')"
    by (simp add: permitted_def is_block_def r_def)
  ultimately show ?thesis
    using preferred_model_served_first[of ?env r "[]" demo_task "''l2''"] unfolding r_def
    by (simp add: rule_matches_def wildcard_def demo_task_def) blast
qed

end
