(* ===== verification/Costs.thy ===== *)
theory Costs
  imports Py_Numbers Model_Registry
begin

section \<open>The cost of a request (src/api/cost\_plugins, request\_pipeline.py, config.py)\<close>

text \<open>
  Peak and off-peak rates, the price tables of the four built-in provider plugins, the registry of
  plugins, the price rows of the configuration, the reading of a provider's usage block, and the cost
  of a completion.  An instant is a number of seconds since 1970 in UTC; prices are per million
  tokens; token counts are the JSON values the provider sent, so a value that is not a number raises.
\<close>

subsection \<open>Peak hours\<close>

definition DEEPSEEK_PEAK_BANDS :: "(int \<times> int) list" where
  "DEEPSEEK_PEAK_BANDS = [(1, 4), (6, 10)]"

definition weekday :: "int \<Rightarrow> int" where
  "weekday t = (t div 86400 + 3) mod 7"

definition hour :: "int \<Rightarrow> int" where
  "hour t = t mod 86400 div 3600"

definition is_deepseek_peak :: "int \<Rightarrow> bool" where
  "is_deepseek_peak ts \<longleftrightarrow> weekday ts < 5 \<and> list_ex (\<lambda>(lo, hi). lo \<le> hour ts \<and> hour ts < hi) DEEPSEEK_PEAK_BANDS"

text \<open>A price row, or nothing; an empty row counts as nothing.\<close>

definition select_rates :: "obj option \<Rightarrow> int \<Rightarrow> obj option" where
  "select_rates pricing ts = (case pricing of
      None \<Rightarrow> None
    | Some row \<Rightarrow>
        if row = [] \<or> map_of row ''peak_cache_miss'' = None \<or> \<not> is_deepseek_peak ts then Some row
        else Some [(''cache_hit'', dget row ''peak_cache_hit'' (dget row ''cache_hit'' (JNum 0))),
                   (''cache_miss'', dget row ''peak_cache_miss'' (dget row ''cache_miss'' (JNum 0))),
                   (''output'', dget row ''peak_output'' (dget row ''output'' (JNum 0)))])"

subsection \<open>The plugins and their tables\<close>

definition flat :: "real \<Rightarrow> real \<Rightarrow> real \<Rightarrow> obj" where
  "flat h m out = [(''cache_hit'', JNum h), (''cache_miss'', JNum m), (''output'', JNum out)]"

definition two_tier :: "real \<Rightarrow> real \<Rightarrow> real \<Rightarrow> real \<Rightarrow> real \<Rightarrow> real \<Rightarrow> obj" where
  "two_tier h m out ph pm pout = flat h m out @
     [(''peak_cache_hit'', JNum ph), (''peak_cache_miss'', JNum pm), (''peak_output'', JNum pout)]"

definition FLASH_PRICING :: obj where
  "FLASH_PRICING = two_tier (3/1000) (15/100) (6/10) (6/1000) (30/100) (120/100)"

definition V4_PRO_PRICING :: obj where
  "V4_PRO_PRICING = two_tier (22/1000) (66/100) (198/100) (44/1000) (132/100) (396/100)"

text \<open>The deepseek and the opencode plugin have the same table.\<close>

definition DEEPSEEK_PRICING :: "(string, obj) dict" where
  "DEEPSEEK_PRICING =
    [(''deepseek-v4-pro'', V4_PRO_PRICING), (''deepseek-flash'', FLASH_PRICING),
     (''deepseek-v4-flash'', FLASH_PRICING), (''deepseek-v4.1-flash'', FLASH_PRICING),
     (''deepseek-v4-flash-vision-exp'', FLASH_PRICING)]"

definition OPENCODE_PRICING :: "(string, obj) dict" where
  "OPENCODE_PRICING =
    [(''deepseek-v4-pro'', two_tier (22/1000) (66/100) (198/100) (44/1000) (132/100) (396/100)),
     (''deepseek-flash'', FLASH_PRICING), (''deepseek-v4-flash'', FLASH_PRICING),
     (''deepseek-v4.1-flash'', FLASH_PRICING), (''deepseek-v4-flash-vision-exp'', FLASH_PRICING)]"

definition FREE_MODELS :: "string list" where
  "FREE_MODELS = [''qwen3-coder'', ''glm-4.7-free'', ''minimax-m2.1-free'']"

definition COMMANDCODE_PRICING :: "(string, obj) dict" where
  "COMMANDCODE_PRICING =
    [(''deepseek-v4-pro'', two_tier (22/1000) (66/100) (198/100) (44/1000) (132/100) (396/100)),
     (''deepseek-flash'', FLASH_PRICING), (''deepseek-v4-flash'', FLASH_PRICING),
     (''deepseek-v4.1-flash'', FLASH_PRICING), (''deepseek-v4-flash-vision-exp'', FLASH_PRICING),
     (''deepseek-v4.1-flash-fast'', two_tier (16/1000) (16/100) (58/100) (32/1000) (32/100) (116/100)),
     (''claude-sonnet-4-6'', flat (30/100) 3 15), (''claude-sonnet-5'', flat (30/100) 3 15),
     (''claude-opus-5'', flat (375/1000) 15 75), (''claude-haiku-4-5'', flat (8/100) (80/100) 4),
     (''gpt-5.6-luna'', flat (1/100) (10/100) (60/100)), (''gpt-5.6-terra'', flat (10/100) 1 6),
     (''kimi-k3'', flat (30/100) 3 15), (''kimi-k2.7-code'', flat (19/100) (95/100) 4),
     (''minimax-m3'', flat (6/100) (30/100) (120/100)), (''qwen3.8-max'', flat (10/100) 1 4)]"

text \<open>The name a catalogue id is priced under.\<close>

definition logical_model :: "string \<Rightarrow> string" where
  "logical_model m = (if m = [] then m else lower (strip (last_segment m)))"

datatype plugin = DeepSeek | OpenCode | LlamaCpp | CommandCode

definition registered :: "(string, plugin) dict" where
  "registered = [(''deepseek'', DeepSeek), (''opencode'', OpenCode), (''llamacpp'', LlamaCpp),
     (''commandcode'', CommandCode)]"

definition for_provider :: "string \<Rightarrow> plugin option" where
  "for_provider p = map_of registered p"

text \<open>The row a plugin charges by; the free models and the local server have none.\<close>

fun table_row :: "plugin \<Rightarrow> string \<Rightarrow> obj option" where
  "table_row DeepSeek m = map_of DEEPSEEK_PRICING m"
| "table_row OpenCode m = map_of OPENCODE_PRICING m"
| "table_row CommandCode m = map_of COMMANDCODE_PRICING (logical_model m)"
| "table_row LlamaCpp m = None"

definition is_free :: "plugin \<Rightarrow> string \<Rightarrow> bool" where
  "is_free p m \<longleftrightarrow> p = LlamaCpp \<or> p = OpenCode \<and> m \<in> set FREE_MODELS"

definition opencode_get_pricing :: "string \<Rightarrow> obj option" where
  "opencode_get_pricing m = (if m \<in> set FREE_MODELS then Some (flat 0 0 0) else map_of OPENCODE_PRICING m)"

definition commandcode_get_pricing :: "string \<Rightarrow> obj option" where
  "commandcode_get_pricing m = map_of COMMANDCODE_PRICING (logical_model m)"

fun plugin_get_pricing :: "plugin \<Rightarrow> string \<Rightarrow> obj option" where
  "plugin_get_pricing DeepSeek m = map_of DEEPSEEK_PRICING m"
| "plugin_get_pricing OpenCode m = opencode_get_pricing m"
| "plugin_get_pricing CommandCode m = commandcode_get_pricing m"
| "plugin_get_pricing LlamaCpp m = Some (flat 0 0 0)"

record token_usage =
  tu_prompt :: json
  tu_completion :: json
  tu_hit :: int
  tu_miss :: json

definition rate :: "obj \<Rightarrow> string \<Rightarrow> real res" where
  "rate rates k = (case map_of rates k of None \<Rightarrow> Inl KeyError | Some v \<Rightarrow> num_of v)"

definition token_cost :: "obj \<Rightarrow> real \<Rightarrow> real \<Rightarrow> real \<Rightarrow> real res" where
  "token_cost rates hit miss out =
     rbind (rate rates ''cache_hit'') (\<lambda>h. rbind (rate rates ''cache_miss'') (\<lambda>m. rbind (rate rates ''output'') (\<lambda>r.
       Inr (hit / 1000000 * h + miss / 1000000 * m + out / 1000000 * r))))"

definition is_zero :: "json \<Rightarrow> bool" where
  "is_zero v \<longleftrightarrow> v = JNum 0 \<or> v = JBool False"

text \<open>
  The three priced plugins repeat one calculation: when neither hits nor misses are reported, the
  whole prompt is a miss.  The prompt count must be a number, because the default of the missing miss
  count is computed first.
\<close>

definition priced_usage :: "int \<Rightarrow> obj option \<Rightarrow> token_usage \<Rightarrow> real option res" where
  "priced_usage ts row u = (case select_rates row ts of
      None \<Rightarrow> Inr None
    | Some rates \<Rightarrow>
        rbind (num_of (tu_prompt u)) (\<lambda>prompt.
        rbind (num_of (if tu_hit u = 0 \<and> is_zero (tu_miss u) then tu_prompt u else tu_miss u)) (\<lambda>miss.
        rbind (num_of (tu_completion u)) (\<lambda>out.
        rbind (token_cost rates (of_int (tu_hit u)) miss out) (\<lambda>c. Inr (Some (py_round 8 c)))))))"

definition deepseek_calculate_cost :: "int \<Rightarrow> string \<Rightarrow> token_usage \<Rightarrow> real option res" where
  "deepseek_calculate_cost ts m u = priced_usage ts (map_of DEEPSEEK_PRICING m) u"

definition opencode_calculate_cost :: "int \<Rightarrow> string \<Rightarrow> token_usage \<Rightarrow> real option res" where
  "opencode_calculate_cost ts m u =
     (if m \<in> set FREE_MODELS then Inr (Some 0) else priced_usage ts (map_of OPENCODE_PRICING m) u)"

definition commandcode_calculate_cost :: "int \<Rightarrow> string \<Rightarrow> token_usage \<Rightarrow> real option res" where
  "commandcode_calculate_cost ts m u = priced_usage ts (map_of COMMANDCODE_PRICING (logical_model m)) u"

definition llamacpp_calculate_cost :: "int \<Rightarrow> string \<Rightarrow> token_usage \<Rightarrow> real option res" where
  "llamacpp_calculate_cost ts m u = Inr (Some 0)"

fun plugin_calculate_cost :: "plugin \<Rightarrow> int \<Rightarrow> string \<Rightarrow> token_usage \<Rightarrow> real option res" where
  "plugin_calculate_cost DeepSeek = deepseek_calculate_cost"
| "plugin_calculate_cost OpenCode = opencode_calculate_cost"
| "plugin_calculate_cost CommandCode = commandcode_calculate_cost"
| "plugin_calculate_cost LlamaCpp = llamacpp_calculate_cost"

lemma plugin_calculate_cost_def:
  "plugin_calculate_cost p ts m u =
     (if is_free p m then Inr (Some 0)
      else case select_rates (table_row p m) ts of
        None \<Rightarrow> Inr None
      | Some rates \<Rightarrow>
          rbind (num_of (tu_prompt u)) (\<lambda>prompt.
          rbind (num_of (if tu_hit u = 0 \<and> is_zero (tu_miss u) then tu_prompt u else tu_miss u)) (\<lambda>miss.
          rbind (num_of (tu_completion u)) (\<lambda>out.
          rbind (token_cost rates (of_int (tu_hit u)) miss out) (\<lambda>c. Inr (Some (py_round 8 c)))))))"
  by (cases p)
    (simp_all add: deepseek_calculate_cost_def opencode_calculate_cost_def commandcode_calculate_cost_def
      llamacpp_calculate_cost_def is_free_def priced_usage_def)

text \<open>The prices shown agree with the prices charged.\<close>

lemma plugin_get_pricing_row: "plugin_get_pricing p m = (if is_free p m then Some (flat 0 0 0) else table_row p m)"
  by (cases p) (simp_all add: is_free_def opencode_get_pricing_def commandcode_get_pricing_def)

declare plugin_calculate_cost.simps [simp del]

definition registry_calculate_cost :: "string \<Rightarrow> int \<Rightarrow> string \<Rightarrow> token_usage \<Rightarrow> real option res" where
  "registry_calculate_cost provider ts m u = (case for_provider provider of
      None \<Rightarrow> Inr None
    | Some p \<Rightarrow> plugin_calculate_cost p ts m u)"

subsection \<open>Price rows of the configuration\<close>

record price_row =
  pr_model :: "string option"
  pr_provider :: "string option"
  pr_rates :: obj

text \<open>The registry-resolved names of a model, most specific first.\<close>

definition canonical_names :: "model_registry \<Rightarrow> string \<Rightarrow> string list" where
  "canonical_names reg model =
     (let logical = logical_model_name reg model in
      if logical = [] then []
      else let benchmark = benchmark_model_name reg logical in
        if benchmark \<noteq> [] \<and> benchmark \<noteq> logical then [logical, benchmark] else [logical])"

definition provider_matches :: "string \<Rightarrow> string option \<Rightarrow> bool" where
  "provider_matches provider rp = (case rp of
      None \<Rightarrow> True | Some p \<Rightarrow> p = [] \<or> p = ''*'' \<or> p = provider)"

definition find_pricing_row :: "(string option \<Rightarrow> bool) \<Rightarrow> price_row list \<Rightarrow> string \<Rightarrow> price_row option" where
  "find_pricing_row matcher rows model =
     (let target = strip model in
      if target = [] then None
      else find (\<lambda>r. let rm = (case pr_model r of None \<Rightarrow> [] | Some s \<Rightarrow> s)
          in (rm = target \<or> lower rm = lower target) \<and> matcher (pr_provider r)) rows)"

fun first_found :: "('a \<Rightarrow> 'b option) \<Rightarrow> 'a list \<Rightarrow> 'b option" where
  "first_found f [] = None"
| "first_found f (x # xs) = (case f x of Some y \<Rightarrow> Some y | None \<Rightarrow> first_found f xs)"

definition resolve_pricing :: "model_registry \<Rightarrow> price_row list \<Rightarrow> string \<Rightarrow> string \<Rightarrow> price_row option" where
  "resolve_pricing reg rows provider model =
     (case find_pricing_row (provider_matches provider) rows model of
        Some r \<Rightarrow> Some r
      | None \<Rightarrow>
          (case first_found (find_pricing_row (provider_matches provider) rows) (canonical_names reg model) of
             Some r \<Rightarrow> Some r
           | None \<Rightarrow> first_found (find_pricing_row (\<lambda>rp. True) rows) (canonical_names reg model)))"

subsection \<open>Reading the usage block\<close>

definition CACHE_HIT_FIELDS :: "string list" where
  "CACHE_HIT_FIELDS =
    [''prompt_cache_hit_tokens'', ''prompt_tokens_details.cached_tokens'', ''cache_read_input_tokens'']"

fun read_parts :: "json \<Rightarrow> string list \<Rightarrow> json option" where
  "read_parts node [] = Some node"
| "read_parts (JObj d) (part # parts) = (case map_of d part of
      None \<Rightarrow> None
    | Some v \<Rightarrow> if v = JNull then None else read_parts v parts)"
| "read_parts _ (part # parts) = None"

definition read_path :: "json \<Rightarrow> string \<Rightarrow> json option" where
  "read_path container path = read_parts container (split_on (CHR ''.'') path)"

fun first_hit_count :: "json \<Rightarrow> string list \<Rightarrow> int" where
  "first_hit_count usage [] = 0"
| "first_hit_count usage (f # fs) = (case read_path usage f of
      None \<Rightarrow> first_hit_count usage fs
    | Some v \<Rightarrow> (case int_of_json v of Inl e \<Rightarrow> first_hit_count usage fs | Inr i \<Rightarrow> max 0 i))"

definition usage_of :: "obj option \<Rightarrow> json" where
  "usage_of response = (case response of
      None \<Rightarrow> JObj []
    | Some d \<Rightarrow> if d = [] then JObj [] else dget d ''usage'' (JObj []))"

text \<open>The configured field of the provider comes first.\<close>

definition read_cache_hit_tokens :: "string option \<Rightarrow> obj option \<Rightarrow> int" where
  "read_cache_hit_tokens hit_field response = (case usage_of response of
      JObj d \<Rightarrow> first_hit_count (JObj d)
        ((case hit_field of None \<Rightarrow> [] | Some f \<Rightarrow> if f = [] then [] else [f]) @ CACHE_HIT_FIELDS)
    | _ \<Rightarrow> 0)"

subsection \<open>The cost of a completion\<close>

record cost_env =
  ce_registry :: model_registry
  ce_rows :: "price_row list"
  ce_hit_field :: "string \<Rightarrow> string option"
  ce_now :: int

record cost_info =
  ci_prompt :: json
  ci_completion :: json
  ci_hit :: int
  ci_miss :: json
  ci_cost :: real
  ci_priced :: bool

definition calculate_cost :: "cost_env \<Rightarrow> string \<Rightarrow> string \<Rightarrow> obj option \<Rightarrow> cost_info res" where
  "calculate_cost env provider model response =
     rbind (py_get (usage_of response) ''prompt_tokens'' (JNum 0)) (\<lambda>prompt.
     rbind (py_get (usage_of response) ''completion_tokens'' (JNum 0)) (\<lambda>completion.
     let hit = read_cache_hit_tokens (ce_hit_field env provider) response in
     rbind (num_of prompt) (\<lambda>p.
     rbind (py_get (usage_of response) ''prompt_cache_miss_tokens''
         (JNum (if of_int hit < p then p - of_int hit else 0))) (\<lambda>miss.
     let info = \<lparr>ci_prompt = prompt, ci_completion = completion, ci_hit = hit, ci_miss = miss, ci_cost = 0,
           ci_priced = True\<rparr>;
         u = \<lparr>tu_prompt = prompt, tu_completion = completion, tu_hit = hit, tu_miss = miss\<rparr>
     in rbind (registry_calculate_cost provider (ce_now env) model u) (\<lambda>pc. case pc of
          Some c \<Rightarrow> Inr (info\<lparr>ci_cost := py_round 8 c\<rparr>)
        | None \<Rightarrow>
            (case resolve_pricing (ce_registry env) (ce_rows env) provider model of
               None \<Rightarrow> Inr (info\<lparr>ci_priced := False\<rparr>)
             | Some row \<Rightarrow>
                 rbind (num_of miss) (\<lambda>m. rbind (num_of completion) (\<lambda>out.
                 rbind (token_cost (the (select_rates (Some (pr_rates row)) (ce_now env))) (of_int hit) m out) (\<lambda>c.
                 Inr (info\<lparr>ci_cost := py_round 8 c\<rparr>))))))))))"

subsection \<open>The tables are consistent\<close>

text \<open>
  Every row has three non-negative rates, a cached token is never dearer than an uncached one, and a
  row with peak rates has exactly twice the off-peak ones.
\<close>

fun rate_num :: "json option \<Rightarrow> real" where
  "rate_num (Some (JNum x)) = x"
| "rate_num _ = 0"

definition three_rates :: "obj \<Rightarrow> bool" where
  "three_rates row \<longleftrightarrow> list_all (\<lambda>k. map_of row k = Some (JNum (rate_num (map_of row k))) \<and> 0 \<le> rate_num (map_of row k))
     [''cache_hit'', ''cache_miss'', ''output'']"

definition doubled_peak :: "obj \<Rightarrow> bool" where
  "doubled_peak row \<longleftrightarrow> map_of row ''peak_cache_miss'' \<noteq> None \<longrightarrow>
     list_all (\<lambda>k. map_of row (''peak_'' @ k) = Some (JNum (2 * rate_num (map_of row k))))
       [''cache_hit'', ''cache_miss'', ''output'']"

definition fair_row :: "obj \<Rightarrow> bool" where
  "fair_row row \<longleftrightarrow> three_rates row \<and> doubled_peak row \<and>
     rate_num (map_of row ''cache_hit'') \<le> rate_num (map_of row ''cache_miss'')"

lemma fair_flat: "0 \<le> h \<Longrightarrow> h \<le> m \<Longrightarrow> 0 \<le> out \<Longrightarrow> fair_row (flat h m out)"
  by (simp add: fair_row_def three_rates_def doubled_peak_def flat_def)

lemma fair_two_tier:
  "0 \<le> h \<Longrightarrow> h \<le> m \<Longrightarrow> 0 \<le> out \<Longrightarrow> ph = 2 * h \<Longrightarrow> pm = 2 * m \<Longrightarrow> pout = 2 * out \<Longrightarrow>
   fair_row (two_tier h m out ph pm pout)"
  by (simp add: fair_row_def three_rates_def doubled_peak_def flat_def two_tier_def)

lemma table_row_fair: "table_row p m = Some row \<Longrightarrow> fair_row row"
proof -
  assume row: "table_row p m = Some row"
  have "\<forall>(m, r) \<in> set DEEPSEEK_PRICING. fair_row r" "\<forall>(m, r) \<in> set OPENCODE_PRICING. fair_row r"
    "\<forall>(m, r) \<in> set COMMANDCODE_PRICING. fair_row r"
    by (simp_all add: DEEPSEEK_PRICING_def OPENCODE_PRICING_def COMMANDCODE_PRICING_def FLASH_PRICING_def
      V4_PRO_PRICING_def fair_flat fair_two_tier)
  with row show ?thesis by (cases p) (auto dest!: map_of_SomeD)
qed

lemma rate_of_num:
  "map_of row k = Some (JNum (rate_num (map_of row k))) \<Longrightarrow> rate row k = Inr (rate_num (map_of row k))"
  unfolding rate_def by (metis num_of.simps(1) option.simps(5))

lemma three_rates_cost:
  "three_rates row \<Longrightarrow> token_cost row hit miss out =
     Inr (hit / 1000000 * rate_num (map_of row ''cache_hit'') + miss / 1000000 * rate_num (map_of row ''cache_miss'') +
       out / 1000000 * rate_num (map_of row ''output''))"
  by (simp add: token_cost_def three_rates_def rate_of_num)

definition off_peak_cost :: "obj \<Rightarrow> real \<Rightarrow> real \<Rightarrow> real \<Rightarrow> real" where
  "off_peak_cost row hit miss out =
     hit / 1000000 * rate_num (map_of row ''cache_hit'') + miss / 1000000 * rate_num (map_of row ''cache_miss'') +
       out / 1000000 * rate_num (map_of row ''output'')"

definition peak_factor :: "obj \<Rightarrow> int \<Rightarrow> real" where
  "peak_factor row ts = (if map_of row ''peak_cache_miss'' \<noteq> None \<and> is_deepseek_peak ts then 2 else 1)"

text \<open>The cost under a fair row: the off-peak cost, doubled in a peak hour when the row has peak rates.\<close>

lemma fair_cost:
  assumes "fair_row row"
  shows "\<exists>rates. select_rates (Some row) ts = Some rates \<and>
     token_cost rates hit miss out = Inr (peak_factor row ts * off_peak_cost row hit miss out)"
proof (cases "map_of row ''peak_cache_miss'' \<noteq> None \<and> is_deepseek_peak ts")
  case True
  have d: "doubled_peak row" using assms by (simp add: fair_row_def)
  have ne: "row \<noteq> []" using True by auto
  have p: "map_of row ''peak_cache_hit'' = Some (JNum (2 * rate_num (map_of row ''cache_hit'')))"
    "map_of row ''peak_cache_miss'' = Some (JNum (2 * rate_num (map_of row ''cache_miss'')))"
    "map_of row ''peak_output'' = Some (JNum (2 * rate_num (map_of row ''output'')))"
    using d True by (simp_all add: doubled_peak_def)
  have "select_rates (Some row) ts = Some
      [(''cache_hit'', JNum (2 * rate_num (map_of row ''cache_hit''))),
       (''cache_miss'', JNum (2 * rate_num (map_of row ''cache_miss''))),
       (''output'', JNum (2 * rate_num (map_of row ''output'')))]"
    using True ne p by (simp add: select_rates_def)
  then show ?thesis using True
    by (simp add: token_cost_def rate_def peak_factor_def off_peak_cost_def algebra_simps)
next
  case False
  then have "select_rates (Some row) ts = Some row" by (auto simp: select_rates_def)
  moreover have "three_rates row" using assms by (simp add: fair_row_def)
  ultimately show ?thesis using False
    by (auto simp: three_rates_cost peak_factor_def off_peak_cost_def)
qed

lemma off_peak_mono:
  assumes "fair_row row" and "0 \<le> hit"
  shows "off_peak_cost row hit (p - hit) out \<le> off_peak_cost row 0 p out"
proof -
  have "hit / 1000000 * rate_num (map_of row ''cache_hit'') \<le> hit / 1000000 * rate_num (map_of row ''cache_miss'')"
    using assms by (intro mult_left_mono) (simp_all add: fair_row_def)
  then show ?thesis by (simp add: off_peak_cost_def diff_divide_distrib left_diff_distrib)
qed

lemma plugin_cost_fair:
  assumes "\<not> is_free p m" and "table_row p m = Some row"
    and "num_of (tu_prompt u) = Inr prompt" and "num_of (tu_completion u) = Inr out"
    and "num_of (if tu_hit u = 0 \<and> is_zero (tu_miss u) then tu_prompt u else tu_miss u) = Inr miss"
  shows "plugin_calculate_cost p ts m u =
     Inr (Some (py_round 8 (peak_factor row ts * off_peak_cost row (of_int (tu_hit u)) miss out)))"
proof -
  obtain rates where "select_rates (Some row) ts = Some rates"
    "token_cost rates (of_int (tu_hit u)) miss out =
       Inr (peak_factor row ts * off_peak_cost row (of_int (tu_hit u)) miss out)"
    using fair_cost[OF table_row_fair[OF assms(2)]] by blast
  with assms show ?thesis by (simp add: plugin_calculate_cost_def)
qed

text \<open>
  Also: off-peak rates are half of the peak rates.  For every plugin, model and usage, if a request
  can be priced outside the peak hours it can be priced inside them, and the price is twice as high up
  to the rounding when the model has peak rates, and the same otherwise.
\<close>

theorem peak_price_is_double:
  assumes "is_deepseek_peak t1" and "\<not> is_deepseek_peak t2"
    and "plugin_calculate_cost p t2 m u = Inr (Some c2)"
  shows "\<exists>c1. plugin_calculate_cost p t1 m u = Inr (Some c1) \<and>
     (if \<not> is_free p m \<and> (\<exists>row. table_row p m = Some row \<and> map_of row ''peak_cache_miss'' \<noteq> None)
      then \<bar>c1 - 2 * c2\<bar> \<le> 3 / 200000000 else c1 = c2)"
proof (cases "is_free p m")
  case True
  with assms(3) show ?thesis by (simp add: plugin_calculate_cost_def)
next
  case False
  then obtain row where row: "table_row p m = Some row"
    using assms(3) by (cases "table_row p m") (auto simp: plugin_calculate_cost_def select_rates_def)
  have nums: "\<exists>prompt miss out. num_of (tu_prompt u) = Inr prompt \<and> num_of (tu_completion u) = Inr out \<and>
      num_of (if tu_hit u = 0 \<and> is_zero (tu_miss u) then tu_prompt u else tu_miss u) = Inr miss"
    using assms(3) False row
    by (auto simp: plugin_calculate_cost_def rbind_eq_Inr split: option.splits)
  then obtain prompt miss out where n: "num_of (tu_prompt u) = Inr prompt" "num_of (tu_completion u) = Inr out"
    "num_of (if tu_hit u = 0 \<and> is_zero (tu_miss u) then tu_prompt u else tu_miss u) = Inr miss" by blast
  let ?x = "off_peak_cost row (of_int (tu_hit u)) miss out"
  have c: "plugin_calculate_cost p t m u = Inr (Some (py_round 8 (peak_factor row t * ?x)))" for t
    by (rule plugin_cost_fair[OF False row n])
  have c2: "c2 = py_round 8 ?x" using c[of t2] assms(2,3) by (simp add: peak_factor_def)
  show ?thesis
  proof (cases "map_of row ''peak_cache_miss'' = None")
    case True
    then show ?thesis using c[of t1] c2 row by (simp add: peak_factor_def)
  next
    case has_peak: False
    have "\<bar>py_round 8 (2 * ?x) - 2 * ?x\<bar> \<le> 1 / 200000000" "\<bar>c2 - ?x\<bar> \<le> 1 / 200000000"
      using py_round_error[of 8 "2 * ?x"] py_round_error[of 8 ?x] by (simp_all add: c2)
    then have "\<bar>py_round 8 (2 * ?x) - 2 * c2\<bar> \<le> 3 / 200000000" by linarith
    then show ?thesis using c[of t1] assms(1) row has_peak False by (simp add: peak_factor_def)
  qed
qed

definition cost_usage :: "real \<Rightarrow> real \<Rightarrow> token_usage" where
  "cost_usage p c = \<lparr>tu_prompt = JNum p, tu_completion = JNum c, tu_hit = 0, tu_miss = JNum p\<rparr>"

text \<open>Monday 5 January 1970, 02:00 and 00:00 UTC.\<close>

lemma demo_peak: "is_deepseek_peak 352800" "\<not> is_deepseek_peak 345600"
  by (simp_all add: is_deepseek_peak_def weekday_def hour_def DEEPSEEK_PEAK_BANDS_def)

lemma flash_row: "table_row DeepSeek ''deepseek-flash'' = Some FLASH_PRICING"
  by (simp add: DEEPSEEK_PRICING_def)

theorem peak_price_is_double_witness:
  "\<exists>c1 c2. plugin_calculate_cost DeepSeek 352800 ''deepseek-flash'' (cost_usage 1000000 0) = Inr (Some c1) \<and>
     plugin_calculate_cost DeepSeek 345600 ''deepseek-flash'' (cost_usage 1000000 0) = Inr (Some c2) \<and>
     \<bar>c1 - 2 * c2\<bar> \<le> 3 / 200000000"
proof -
  have "plugin_calculate_cost DeepSeek 345600 ''deepseek-flash'' (cost_usage 1000000 0) =
      Inr (Some (py_round 8 (peak_factor FLASH_PRICING 345600 * off_peak_cost FLASH_PRICING 0 1000000 0)))"
    using plugin_cost_fair[OF _ flash_row, of "cost_usage 1000000 0" 1000000 0 1000000 345600]
    by (simp add: is_free_def cost_usage_def is_zero_def)
  from peak_price_is_double[OF demo_peak this] flash_row this show ?thesis
    by (auto simp: is_free_def FLASH_PRICING_def two_tier_def flat_def split: if_splits)
qed

subsection \<open>A completion with a plugin price\<close>

lemma first_hit_nonneg: "0 \<le> first_hit_count usage fs"
  by (induction fs) (simp_all split: option.split sum.split)

lemma cache_hit_nonneg: "0 \<le> read_cache_hit_tokens f response"
  by (simp add: read_cache_hit_tokens_def first_hit_nonneg split: json.split)

lemma usage_of_Some: "map_of d ''usage'' = Some v \<Longrightarrow> usage_of (Some d) = v"
  by (auto simp: usage_of_def)

lemma calculate_cost_numbers:
  assumes "usage_of response = JObj us" and "dget us ''prompt_tokens'' (JNum 0) = JNum p"
    and "dget us ''completion_tokens'' (JNum 0) = JNum c"
    and "hit = read_cache_hit_tokens (ce_hit_field env provider) response"
    and "dget us ''prompt_cache_miss_tokens'' (JNum (if of_int hit < p then p - of_int hit else 0)) = JNum m"
  shows "calculate_cost env provider model response =
     (let info = \<lparr>ci_prompt = JNum p, ci_completion = JNum c, ci_hit = hit, ci_miss = JNum m, ci_cost = 0, ci_priced = True\<rparr>
      in rbind (registry_calculate_cost provider (ce_now env) model
          \<lparr>tu_prompt = JNum p, tu_completion = JNum c, tu_hit = hit, tu_miss = JNum m\<rparr>) (\<lambda>pc. case pc of
          Some c \<Rightarrow> Inr (info\<lparr>ci_cost := py_round 8 c\<rparr>)
        | None \<Rightarrow>
            (case resolve_pricing (ce_registry env) (ce_rows env) provider model of
               None \<Rightarrow> Inr (info\<lparr>ci_priced := False\<rparr>)
             | Some row \<Rightarrow>
                 rbind (token_cost (the (select_rates (Some (pr_rates row)) (ce_now env))) (of_int hit) m c) (\<lambda>c.
                 Inr (info\<lparr>ci_cost := py_round 8 c\<rparr>)))))"
  unfolding calculate_cost_def Let_def
  by (simp only: assms(1) py_get.simps assms(2,3) rbind_simps num_of.simps assms(4)[symmetric] assms(5))

text \<open>
  Also: every prompt token is priced once.  When a provider reports its prompt and completion tokens
  and at most that many cache hits, but no misses, the misses are the rest of the prompt, hits and
  misses are priced at their own rates, and caching never makes the request dearer.
\<close>

theorem prompt_tokens_priced_once:
  assumes "usage_of response = JObj us" and "map_of us ''prompt_tokens'' = Some (JNum p)"
    and "map_of us ''completion_tokens'' = Some (JNum c)" and "map_of us ''prompt_cache_miss_tokens'' = None"
    and "hit = read_cache_hit_tokens (ce_hit_field env provider) response" and "of_int hit \<le> p"
    and "for_provider provider = Some pl" and "\<not> is_free pl model" and "table_row pl model = Some row"
  shows "\<exists>info. calculate_cost env provider model response = Inr info \<and> ci_hit info = hit \<and>
     ci_miss info = JNum (p - of_int hit) \<and> ci_priced info \<and>
     ci_cost info = py_round 8 (peak_factor row (ce_now env) * off_peak_cost row (of_int hit) (p - of_int hit) c) \<and>
     ci_cost info \<le> py_round 8 (peak_factor row (ce_now env) * off_peak_cost row 0 p c)"
proof -
  have miss: "(if of_int hit < p then p - of_int hit else 0) = p - of_int hit" using assms(6) by simp
  let ?u = "\<lparr>tu_prompt = JNum p, tu_completion = JNum c, tu_hit = hit, tu_miss = JNum (p - of_int hit)\<rparr>"
  have "num_of (if tu_hit ?u = 0 \<and> is_zero (tu_miss ?u) then tu_prompt ?u else tu_miss ?u) = Inr (p - of_int hit)"
    by (simp add: is_zero_def)
  then have plug: "registry_calculate_cost provider (ce_now env) model ?u =
      Inr (Some (py_round 8 (peak_factor row (ce_now env) * off_peak_cost row (of_int hit) (p - of_int hit) c)))"
    using plugin_cost_fair[OF assms(8,9), of ?u p c "p - of_int hit" "ce_now env"] assms(7)
    by (simp add: registry_calculate_cost_def)
  have calc: "calculate_cost env provider model response = Inr \<lparr>ci_prompt = JNum p, ci_completion = JNum c,
      ci_hit = hit, ci_miss = JNum (p - of_int hit),
      ci_cost = py_round 8 (peak_factor row (ce_now env) * off_peak_cost row (of_int hit) (p - of_int hit) c),
      ci_priced = True\<rparr>"
    using calculate_cost_numbers[of response us p c hit env provider "p - of_int hit" model] assms(1-5) plug miss
    by simp
  have "0 \<le> hit" unfolding assms(5) by (rule cache_hit_nonneg)
  then have "off_peak_cost row (of_int hit) (p - of_int hit) c \<le> off_peak_cost row 0 p c"
    by (intro off_peak_mono table_row_fair[OF assms(9)]) simp
  moreover have "0 \<le> peak_factor row (ce_now env)" by (simp add: peak_factor_def)
  ultimately have "py_round 8 (peak_factor row (ce_now env) * off_peak_cost row (of_int hit) (p - of_int hit) c) \<le>
      py_round 8 (peak_factor row (ce_now env) * off_peak_cost row 0 p c)"
    by (intro py_round_mono mult_left_mono)
  with calc show ?thesis by simp
qed

definition demo_cost_env :: cost_env where
  "demo_cost_env = \<lparr>ce_registry = [], ce_rows = [], ce_hit_field = (\<lambda>p. None), ce_now = 345600\<rparr>"

definition demo_usage :: obj where
  "demo_usage = [(''prompt_tokens'', JNum 1000), (''completion_tokens'', JNum 200),
     (''prompt_tokens_details'', JObj [(''cached_tokens'', JNum 900)])]"

lemma demo_hits: "read_cache_hit_tokens None (Some [(''usage'', JObj demo_usage)]) = 900"
proof -
  have s: "split_on (CHR ''.'') ''prompt_cache_hit_tokens'' = [''prompt_cache_hit_tokens'']"
    "split_on (CHR ''.'') ''prompt_tokens_details.cached_tokens'' = [''prompt_tokens_details'', ''cached_tokens'']"
    by code_simp+
  show ?thesis
    by (simp add: read_cache_hit_tokens_def usage_of_def CACHE_HIT_FIELDS_def read_path_def demo_usage_def s
      truncate_real_def)
qed

theorem prompt_tokens_priced_once_witness:
  "\<exists>info. calculate_cost demo_cost_env ''deepseek'' ''deepseek-flash'' (Some [(''usage'', JObj demo_usage)]) = Inr info \<and>
     ci_hit info = 900 \<and> ci_miss info = JNum 100"
proof -
  have "usage_of (Some [(''usage'', JObj demo_usage)]) = JObj demo_usage" by (simp add: usage_of_def)
  moreover have "map_of demo_usage ''prompt_tokens'' = Some (JNum 1000)"
    "map_of demo_usage ''completion_tokens'' = Some (JNum 200)"
    "map_of demo_usage ''prompt_cache_miss_tokens'' = None"
    by (simp_all add: demo_usage_def)
  moreover have "900 = read_cache_hit_tokens (ce_hit_field demo_cost_env ''deepseek'') (Some [(''usage'', JObj demo_usage)])"
    by (simp add: demo_cost_env_def demo_hits)
  moreover have "for_provider ''deepseek'' = Some DeepSeek" "\<not> is_free DeepSeek ''deepseek-flash''"
    by (simp_all add: for_provider_def registered_def is_free_def)
  ultimately show ?thesis
    using prompt_tokens_priced_once[where hit = 900 and p = 1000, OF _ _ _ _ _ _ _ _ flash_row] by fastforce
qed

subsection \<open>Pricing never fails on a readable usage block\<close>

definition priceable :: "obj \<Rightarrow> bool" where
  "priceable row \<longleftrightarrow> row \<noteq> [] \<and>
     list_all (\<lambda>k. case map_of row k of Some (JNum x) \<Rightarrow> True | _ \<Rightarrow> False) [''cache_hit'', ''cache_miss'', ''output''] \<and>
     list_all (\<lambda>k. case map_of row k of Some (JNum x) \<Rightarrow> True | None \<Rightarrow> True | _ \<Rightarrow> False)
       [''peak_cache_hit'', ''peak_cache_miss'', ''peak_output'']"

definition readable_usage :: "obj option \<Rightarrow> bool" where
  "readable_usage response \<longleftrightarrow> (case usage_of response of
      JObj us \<Rightarrow> list_all (\<lambda>k. case map_of us k of Some (JNum x) \<Rightarrow> True | None \<Rightarrow> True | _ \<Rightarrow> False)
        [''prompt_tokens'', ''completion_tokens'', ''prompt_cache_miss_tokens'']
    | _ \<Rightarrow> False)"

lemma num_case: "(case v of Some (JNum x) \<Rightarrow> True | _ \<Rightarrow> False) \<longleftrightarrow> (\<exists>x. v = Some (JNum x))"
  by (cases v) (auto split: json.split)

lemma num_case_opt: "(case v of Some (JNum x) \<Rightarrow> True | None \<Rightarrow> True | _ \<Rightarrow> False) \<longleftrightarrow> v = None \<or> (\<exists>x. v = Some (JNum x))"
  by (cases v) (auto split: json.split)

lemma dget_num: "v = None \<or> (\<exists>x. v = Some (JNum x)) \<Longrightarrow> \<exists>y. (case v of None \<Rightarrow> JNum d | Some w \<Rightarrow> w) = JNum y"
  by auto

lemma priceable_cost:
  assumes "priceable row"
  shows "\<exists>rates c. select_rates (Some row) ts = Some rates \<and> token_cost rates hit miss out = Inr c"
proof -
  from assms obtain h m r where b: "map_of row ''cache_hit'' = Some (JNum h)"
    "map_of row ''cache_miss'' = Some (JNum m)" "map_of row ''output'' = Some (JNum r)"
    by (auto simp: priceable_def num_case)
  show ?thesis
  proof (cases "map_of row ''peak_cache_miss'' \<noteq> None \<and> is_deepseek_peak ts")
    case True
    have p: "map_of row ''peak_cache_hit'' = None \<or> (\<exists>x. map_of row ''peak_cache_hit'' = Some (JNum x))"
      "map_of row ''peak_cache_miss'' = None \<or> (\<exists>x. map_of row ''peak_cache_miss'' = Some (JNum x))"
      "map_of row ''peak_output'' = None \<or> (\<exists>x. map_of row ''peak_output'' = Some (JNum x))"
      using assms by (simp_all add: priceable_def num_case_opt)
    obtain h' m' r' where d: "dget row ''peak_cache_hit'' (JNum h) = JNum h'"
      "dget row ''peak_cache_miss'' (JNum m) = JNum m'" "dget row ''peak_output'' (JNum r) = JNum r'"
      using dget_num[OF p(1), of h] dget_num[OF p(2), of m] dget_num[OF p(3), of r] by blast
    have "select_rates (Some row) ts = Some [(''cache_hit'', JNum h'), (''cache_miss'', JNum m'), (''output'', JNum r')]"
      using True b d assms by (auto simp: select_rates_def priceable_def cong: option.case_cong)
    then show ?thesis by (simp add: token_cost_def rate_def)
  next
    case False
    then have "select_rates (Some row) ts = Some row" by (auto simp: select_rates_def)
    then show ?thesis using b by (simp add: token_cost_def rate_def)
  qed
qed

lemma num_field:
  "map_of us k = None \<or> (\<exists>x. map_of us k = Some (JNum x)) \<Longrightarrow> \<exists>y. dget us k (JNum d) = JNum y"
  by auto

lemma plugin_total:
  "\<exists>r. plugin_calculate_cost p ts m \<lparr>tu_prompt = JNum a, tu_completion = JNum b, tu_hit = h, tu_miss = JNum e\<rparr> = Inr r \<and>
     (r = None \<longleftrightarrow> \<not> is_free p m \<and> table_row p m = None)"
proof (cases "is_free p m")
  case True
  then show ?thesis by (simp add: plugin_calculate_cost_def)
next
  case False
  show ?thesis
  proof (cases "table_row p m")
    case None
    with False show ?thesis by (simp add: plugin_calculate_cost_def select_rates_def)
  next
    case (Some row)
    let ?u = "\<lparr>tu_prompt = JNum a, tu_completion = JNum b, tu_hit = h, tu_miss = JNum e\<rparr>"
    have "num_of (tu_prompt ?u) = Inr a" "num_of (tu_completion ?u) = Inr b"
      "num_of (if tu_hit ?u = 0 \<and> is_zero (tu_miss ?u) then tu_prompt ?u else tu_miss ?u) =
        Inr (if h = 0 \<and> is_zero (JNum e) then a else e)"
      by simp_all
    from plugin_cost_fair[OF False Some this, of ts]
    have "\<exists>x. plugin_calculate_cost p ts m ?u = Inr (Some x)" by (rule exI)
    with Some show ?thesis by auto
  qed
qed

lemma find_pricing_row_mem: "find_pricing_row f rows m = Some r \<Longrightarrow> r \<in> set rows"
  by (auto simp: find_pricing_row_def Let_def find_Some_iff split: if_splits)

lemma first_found_mem: "first_found (find_pricing_row f rows) ms = Some r \<Longrightarrow> r \<in> set rows"
  by (induction ms) (auto split: option.splits dest: find_pricing_row_mem)

lemma resolve_pricing_mem: "resolve_pricing reg rows provider m = Some r \<Longrightarrow> r \<in> set rows"
  by (auto simp: resolve_pricing_def split: option.splits dest: find_pricing_row_mem first_found_mem)

definition plugin_prices :: "string \<Rightarrow> string \<Rightarrow> bool" where
  "plugin_prices provider model = (case for_provider provider of
      None \<Rightarrow> False | Some p \<Rightarrow> is_free p model \<or> table_row p model \<noteq> None)"

text \<open>
  Also: a missing price is not an error.  When the token counts the provider reports are numbers and
  the configured rows have numeric rates, the cost of a completion is always computed; it is marked
  unpriced, and is zero, exactly when neither a plugin nor a configured row prices the model.
\<close>

theorem cost_is_total_on_readable_usage:
  assumes "readable_usage response" and "\<forall>r \<in> set (ce_rows env). priceable (pr_rates r)"
  shows "\<exists>info. calculate_cost env provider model response = Inr info \<and>
     (ci_priced info \<longleftrightarrow> plugin_prices provider model \<or>
        resolve_pricing (ce_registry env) (ce_rows env) provider model \<noteq> None) \<and>
     (\<not> ci_priced info \<longrightarrow> ci_cost info = 0)"
proof -
  obtain us where us: "usage_of response = JObj us"
    using assms(1) by (auto simp: readable_usage_def split: json.splits)
  let ?h = "read_cache_hit_tokens (ce_hit_field env provider) response"
  have f: "map_of us ''prompt_tokens'' = None \<or> (\<exists>x. map_of us ''prompt_tokens'' = Some (JNum x))"
    "map_of us ''completion_tokens'' = None \<or> (\<exists>x. map_of us ''completion_tokens'' = Some (JNum x))"
    "map_of us ''prompt_cache_miss_tokens'' = None \<or> (\<exists>x. map_of us ''prompt_cache_miss_tokens'' = Some (JNum x))"
    using assms(1) us by (simp_all add: readable_usage_def num_case_opt)
  obtain p c where pc: "dget us ''prompt_tokens'' (JNum 0) = JNum p" "dget us ''completion_tokens'' (JNum 0) = JNum c"
    using num_field[OF f(1), of 0] num_field[OF f(2), of 0] by blast
  obtain m where m: "dget us ''prompt_cache_miss_tokens'' (JNum (if of_int ?h < p then p - of_int ?h else 0)) = JNum m"
    using num_field[OF f(3)] by blast
  let ?u = "\<lparr>tu_prompt = JNum p, tu_completion = JNum c, tu_hit = ?h, tu_miss = JNum m\<rparr>"
  have calc: "calculate_cost env provider model response =
     (let info = \<lparr>ci_prompt = JNum p, ci_completion = JNum c, ci_hit = ?h, ci_miss = JNum m, ci_cost = 0, ci_priced = True\<rparr>
      in rbind (registry_calculate_cost provider (ce_now env) model ?u) (\<lambda>pc. case pc of
          Some c \<Rightarrow> Inr (info\<lparr>ci_cost := py_round 8 c\<rparr>)
        | None \<Rightarrow>
            (case resolve_pricing (ce_registry env) (ce_rows env) provider model of
               None \<Rightarrow> Inr (info\<lparr>ci_priced := False\<rparr>)
             | Some row \<Rightarrow>
                 rbind (token_cost (the (select_rates (Some (pr_rates row)) (ce_now env))) (of_int ?h) m c) (\<lambda>c.
                 Inr (info\<lparr>ci_cost := py_round 8 c\<rparr>)))))"
    by (rule calculate_cost_numbers[OF us pc refl m])
  obtain r where reg: "registry_calculate_cost provider (ce_now env) model ?u = Inr r"
    and r: "r = None \<longleftrightarrow> \<not> plugin_prices provider model"
  proof (cases "for_provider provider")
    case None
    then show thesis by (intro that[of None]) (simp_all add: registry_calculate_cost_def plugin_prices_def)
  next
    case (Some pl)
    then show thesis
      using plugin_total[of pl "ce_now env" model p c ?h m] that
      by (auto simp: registry_calculate_cost_def plugin_prices_def)
  qed
  show ?thesis
  proof (cases r)
    case (Some x)
    then show ?thesis using reg r unfolding calc by simp
  next
    case None
    show ?thesis
    proof (cases "resolve_pricing (ce_registry env) (ce_rows env) provider model")
      case None
      then show ?thesis using reg r \<open>r = None\<close> unfolding calc by simp
    next
      case (Some row)
      then have "row \<in> set (ce_rows env)" by (rule resolve_pricing_mem)
      with assms(2) have "priceable (pr_rates row)" by blast
      from priceable_cost[OF this] obtain rates x where "select_rates (Some (pr_rates row)) (ce_now env) = Some rates"
        "token_cost rates (of_int ?h) m c = Inr x" by blast
      then show ?thesis using reg r \<open>r = None\<close> Some unfolding calc by simp
    qed
  qed
qed

theorem cost_is_total_on_readable_usage_witness:
  "\<exists>info. calculate_cost demo_cost_env ''acme'' ''house-model'' (Some [(''usage'', JObj demo_usage)]) = Inr info \<and>
     \<not> ci_priced info \<and> ci_cost info = 0"
proof -
  have "readable_usage (Some [(''usage'', JObj demo_usage)])"
    by (simp add: readable_usage_def usage_of_def demo_usage_def)
  moreover have "\<forall>r \<in> set (ce_rows demo_cost_env). priceable (pr_rates r)" by (simp add: demo_cost_env_def)
  moreover have "\<not> plugin_prices ''acme'' ''house-model''"
    by (simp add: plugin_prices_def for_provider_def registered_def)
  moreover have "resolve_pricing reg [] provider m = None" for reg provider m
  proof -
    have "find_pricing_row f [] m = None" for f m by (simp add: find_pricing_row_def Let_def)
    moreover from this have "first_found (find_pricing_row f []) ms = None" for f ms by (induction ms) simp_all
    ultimately show ?thesis by (simp add: resolve_pricing_def)
  qed
  ultimately show ?thesis
    using cost_is_total_on_readable_usage[of "Some [(''usage'', JObj demo_usage)]" demo_cost_env "''acme''" "''house-model''"]
    by (auto simp: demo_cost_env_def)
qed

subsection \<open>Which row prices a model\<close>

lemma first_found_SomeD: "first_found f xs = Some y \<Longrightarrow> \<exists>x \<in> set xs. f x = Some y"
  by (induction xs) (auto split: option.splits)

definition row_prices :: "price_row \<Rightarrow> string \<Rightarrow> bool" where
  "row_prices r m \<longleftrightarrow> strip m \<noteq> [] \<and>
     lower (case pr_model r of None \<Rightarrow> [] | Some s \<Rightarrow> s) = lower (strip m)"

lemma find_pricing_row_Some:
  "find_pricing_row f rows m = Some r \<Longrightarrow> r \<in> set rows \<and> row_prices r m \<and> f (pr_provider r)"
  by (auto simp: find_pricing_row_def row_prices_def Let_def find_Some_iff split: if_splits)

lemma find_pricing_row_None:
  "find_pricing_row f rows m = None \<longleftrightarrow> (\<forall>r \<in> set rows. row_prices r m \<longrightarrow> \<not> f (pr_provider r))"
  by (auto simp: find_pricing_row_def row_prices_def Let_def find_None_iff)

text \<open>
  Also: which configured row prices a model.  A row for the very name, valid for the provider, wins
  over every row for the model's registry names; a row valid for the provider wins over rows of other
  providers; and the model is unpriced only when no row names it or one of its registry names (rows
  of other providers count for the registry names only).
\<close>

theorem pricing_row_precedence:
  "case resolve_pricing reg rows provider model of
     Some r \<Rightarrow> r \<in> set rows \<and>
       (if \<exists>x \<in> set rows. row_prices x model \<and> provider_matches provider (pr_provider x)
        then row_prices r model \<and> provider_matches provider (pr_provider r)
        else (\<exists>n \<in> set (canonical_names reg model). row_prices r n) \<and>
          ((\<exists>x \<in> set rows. \<exists>n \<in> set (canonical_names reg model). row_prices x n \<and> provider_matches provider (pr_provider x))
             \<longrightarrow> provider_matches provider (pr_provider r)))
   | None \<Rightarrow>
       (\<forall>x \<in> set rows. \<not> (row_prices x model \<and> provider_matches provider (pr_provider x)) \<and>
          (\<forall>n \<in> set (canonical_names reg model). \<not> row_prices x n))"
proof -
  let ?own = "find_pricing_row (provider_matches provider) rows"
  let ?any = "find_pricing_row (\<lambda>rp. True) rows"
  let ?ns = "canonical_names reg model"
  have none: "first_found f ns = None \<longleftrightarrow> (\<forall>n \<in> set ns. f n = None)" for f :: "string \<Rightarrow> price_row option" and ns
    by (induction ns) (auto split: option.split)
  show ?thesis
  proof (cases "?own model")
    case (Some r)
    then have "resolve_pricing reg rows provider model = Some r" by (simp add: resolve_pricing_def)
    with find_pricing_row_Some[OF Some] show ?thesis by auto
  next
    case own: None
    then have no: "\<not> (\<exists>x \<in> set rows. row_prices x model \<and> provider_matches provider (pr_provider x))"
      by (simp add: find_pricing_row_None)
    show ?thesis
    proof (cases "first_found ?own ?ns")
      case (Some r)
      then obtain n where "n \<in> set ?ns" "?own n = Some r" by (blast dest: first_found_SomeD)
      moreover have "resolve_pricing reg rows provider model = Some r" using own Some by (simp add: resolve_pricing_def)
      ultimately show ?thesis using no find_pricing_row_Some[of "provider_matches provider" rows n r] by auto
    next
      case canon: None
      then have noc: "\<not> (\<exists>x \<in> set rows. \<exists>n \<in> set ?ns. row_prices x n \<and> provider_matches provider (pr_provider x))"
        unfolding none find_pricing_row_None by blast
      have res: "resolve_pricing reg rows provider model = first_found ?any ?ns"
        using own canon by (simp add: resolve_pricing_def)
      show ?thesis
      proof (cases "first_found ?any ?ns")
        case (Some r)
        then obtain n where "n \<in> set ?ns" "?any n = Some r" by (blast dest: first_found_SomeD)
        then show ?thesis using res Some no noc find_pricing_row_Some[of "\<lambda>rp. True" rows n r] by auto
      next
        case None
        then have "\<forall>n \<in> set ?ns. \<forall>x \<in> set rows. \<not> row_prices x n"
          unfolding none find_pricing_row_None by simp
        then show ?thesis using res None no by auto
      qed
    qed
  qed
qed

definition shared_row :: "string \<Rightarrow> price_row" where
  "shared_row p = \<lparr>pr_model = Some ''kimi-k3'', pr_provider = Some p, pr_rates = flat 1 2 3\<rparr>"

theorem pricing_row_precedence_witness:
  "resolve_pricing [] [shared_row ''opencode'', shared_row ''commandcode''] ''commandcode'' ''kimi-k3'' =
     Some (shared_row ''commandcode'')"
proof -
  have s: "strip ''kimi-k3'' = ''kimi-k3''" by code_simp
  have ex: "\<exists>x \<in> set [shared_row ''opencode'', shared_row ''commandcode''].
      row_prices x ''kimi-k3'' \<and> provider_matches ''commandcode'' (pr_provider x)"
    by (simp add: row_prices_def s provider_matches_def shared_row_def)
  have "\<not> provider_matches ''commandcode'' (pr_provider (shared_row ''opencode''))"
    by (simp add: provider_matches_def shared_row_def)
  with ex pricing_row_precedence[where reg = "[]" and provider = "''commandcode''"
      and rows = "[shared_row ''opencode'', shared_row ''commandcode'']" and model = "''kimi-k3''"]
  show ?thesis by (auto split: option.splits)
qed

text \<open>
  A usage block that is present but null is not readable.  OpenAI-compatible servers may send
  it; the cost computation then raises instead of falling back to zero.
\<close>

lemma null_usage_raises:
  "map_of d ''usage'' = Some JNull \<Longrightarrow> calculate_cost env provider model (Some d) = Inl AttributeError"
  by (simp add: calculate_cost_def usage_of_Some)

end
