(* ===== verification/Tables.thy ===== *)
theory Tables
  imports Main
begin

section \<open>Database tables\<close>

text \<open>
  A table of the SQLite database is the list of its rows in the order of their ids, which is the
  order an unordered query reads them in.  \<open>query(...).filter(p).first()\<close> is \<open>find p\<close>;
  changing the row it returns and committing is \<open>update_first\<close>; an added row gets the next id.
\<close>

fun update_first :: "('r \<Rightarrow> bool) \<Rightarrow> ('r \<Rightarrow> 'r) \<Rightarrow> 'r list \<Rightarrow> 'r list" where
  "update_first p f [] = []"
| "update_first p f (r # rs) = (if p r then f r # rs else r # update_first p f rs)"

definition next_id :: "('r \<Rightarrow> int) \<Rightarrow> 'r list \<Rightarrow> int" where
  "next_id rid rows = fold (\<lambda>r m. max (rid r) m) rows 0 + 1"

lemma length_update_first [simp]: "length (update_first p f rows) = length rows"
  by (induction rows) simp_all

lemma update_first_none: "\<forall>r \<in> set rows. \<not> p r \<Longrightarrow> update_first p f rows = rows"
  by (induction rows) simp_all

lemma update_first_find_None: "find p rows = None \<Longrightarrow> update_first p f rows = rows"
  by (induction rows) (auto split: if_splits)

lemma update_first_append_hit:
  "\<exists>r \<in> set xs. p r \<Longrightarrow> update_first p f (xs @ ys) = update_first p f xs @ ys"
  by (induction xs) auto

lemma map_update_first:
  "(\<And>r. p r \<Longrightarrow> g (f r) = g r) \<Longrightarrow> map g (update_first p f rows) = map g rows"
  by (induction rows) auto

lemma set_update_first:
  "r' \<in> set (update_first p f rows) \<Longrightarrow> r' \<in> set rows \<or> (\<exists>r \<in> set rows. p r \<and> r' = f r)"
  by (induction rows) (auto split: if_splits)

text \<open>Only the first matching row is changed.\<close>

lemma update_first_nth:
  "j < length rows \<Longrightarrow> update_first p f rows ! j =
     (if p (rows ! j) \<and> (\<forall>i < j. \<not> p (rows ! i)) then f (rows ! j) else rows ! j)"
proof (induction rows arbitrary: j)
  case Nil
  then show ?case by simp
next
  case (Cons r rs)
  show ?case
  proof (cases j)
    case 0
    then show ?thesis by simp
  next
    case (Suc n)
    with Cons show ?thesis by (auto simp: All_less_Suc2)
  qed
qed

text \<open>A fact about single rows that the change keeps holds of every row afterwards.\<close>

lemma update_first_all:
  "(\<And>r. q r \<Longrightarrow> q (f r)) \<Longrightarrow> \<forall>r \<in> set rows. q r \<Longrightarrow> \<forall>r \<in> set (update_first p f rows). q r"
  by (induction rows) auto

text \<open>The first matching row splits the table.\<close>

lemma find_split:
  assumes "find p rows = Some r"
  obtains before after where "rows = before @ r # after" and "p r" and "\<forall>x \<in> set before. \<not> p x"
proof -
  from assms have "\<exists>before after. rows = before @ r # after \<and> p r \<and> (\<forall>x \<in> set before. \<not> p x)"
  proof (induction rows)
    case Nil
    then show ?case by simp
  next
    case (Cons x xs)
    show ?case
    proof (cases "p x")
      case True
      with Cons.prems show ?thesis by (metis append_Nil empty_iff empty_set find.simps(2) option.inject)
    next
      case False
      with Cons obtain b a where "xs = b @ r # a" "p r" "\<forall>x \<in> set b. \<not> p x" by auto
      with False have "x # xs = (x # b) @ r # a" "p r" "\<forall>y \<in> set (x # b). \<not> p y" by auto
      then show ?thesis by blast
    qed
  qed
  with that show thesis by blast
qed

lemma update_first_split:
  "p r \<Longrightarrow> \<forall>x \<in> set before. \<not> p x \<Longrightarrow>
   update_first p f (before @ r # after) = before @ f r # after"
  by (induction before) simp_all

lemma fold_max_ge: "(m :: int) \<le> fold (\<lambda>r m. max (rid r) m) rows m"
proof (induction rows arbitrary: m)
  case (Cons x xs)
  have "m \<le> max (rid x) m" by simp
  also have "\<dots> \<le> fold (\<lambda>r m. max (rid r) m) xs (max (rid x) m)" by (rule Cons)
  finally show ?case by simp
qed simp

lemma next_id_pos: "0 < next_id rid rows"
  using fold_max_ge[of 0 rid rows] by (simp add: next_id_def)

lemma fold_max_mem: "r \<in> set rows \<Longrightarrow> rid r \<le> fold (\<lambda>r m. max (rid r) m) rows (m :: int)"
proof (induction rows arbitrary: m)
  case (Cons x xs)
  then show ?case using fold_max_ge[of "max (rid x) m" rid xs] by auto
qed simp

lemma next_id_gt: "r \<in> set rows \<Longrightarrow> rid r < next_id rid rows"
  using fold_max_mem[of r rows rid 0] by (simp add: next_id_def)

subsection \<open>Facts that survive every operation\<close>

text \<open>
  Several components promise that a fact, once true, stays true whatever is done afterwards (a
  revoked key stays revoked, an exhausted budget keeps blocking).  The interface asks for one step.
\<close>

locale stable_fact =
  fixes step :: "'o \<Rightarrow> 's \<Rightarrow> 's"
    and holds :: "'s \<Rightarrow> bool"
    and allowed :: "'o \<Rightarrow> bool"
  assumes step_keeps: "allowed x \<Longrightarrow> holds s \<Longrightarrow> holds (step x s)"
begin

lemma run_keeps: "\<forall>x \<in> set xs. allowed x \<Longrightarrow> holds s \<Longrightarrow> holds (fold step xs s)"
  by (induction xs arbitrary: s) (auto intro: step_keeps)

end

end
