(* ===== verification/Key_Manager.thy ===== *)
theory Key_Manager
  imports Py_Text Tables
begin

section \<open>Client API keys (src/api/key\_manager.py)\<close>

text \<open>
  The table of client keys: creation, rotation, revocation, validation, listing, and the migration of
  the old JSON file.  The raw key is never stored; the table holds its hash, which is unique.  What
  the operations take from outside is an argument: the hash (SHA-256), the random token, the clock
  (one reading per operation, with its ISO text) and the reader of ISO dates, which answers
  \<open>None\<close> where \<open>datetime.fromisoformat\<close> raises \<open>ValueError\<close> and reads a naive date as
  UTC.  An insertion that violates the uniqueness of the hash raises and changes nothing.
\<close>

record api_key =
  kid :: int
  key_hash :: string
  key_prefix :: string
  kname :: string
  allowed_profiles :: "string option"
  spend_limit :: real
  total_spend :: real
  kstatus :: string
  created_at :: string
  last_used_at :: "string option"
  expires_at :: "string option"
  revoked_at :: "string option"
  metadata_tags :: "string option"

record legacy_key =
  lk_hash :: "string option"
  lk_id :: "string option"
  lk_label :: "string option"
  lk_profile :: "string option"
  lk_created :: "string option"
  lk_last_used :: "string option"

record key_store =
  key_rows :: "api_key list"
  legacy_file :: "legacy_key list option"

record key_env =
  ke_hash :: "string \<Rightarrow> string"
  ke_iso :: "real \<Rightarrow> string"
  ke_fromiso :: "string \<Rightarrow> real option"

datatype db_error = IntegrityError

record created_key =
  ck_key :: string
  ck_id :: int
  ck_prefix :: string
  ck_name :: string
  ck_profiles :: "string option"
  ck_limit :: real

record rotated_key =
  rk_key :: string
  rk_id :: int
  rk_prefix :: string
  rk_name :: string
  rk_old_id :: int

record key_info =
  ki_id :: int
  ki_name :: string
  ki_profiles :: "string option"
  ki_limit :: real
  ki_spend :: real

record key_view =
  kv_id :: int
  kv_prefix :: string
  kv_name :: string
  kv_profiles :: "string option"
  kv_limit :: real
  kv_spend :: real
  kv_status :: string
  kv_created :: string
  kv_last_used :: "string option"
  kv_expires :: "string option"
  kv_revoked :: "string option"
  kv_tags :: "string option"

definition none_if_empty :: "string \<Rightarrow> string option" where
  "none_if_empty s = (if s = [] then None else Some s)"

definition raw_key_of :: "string \<Rightarrow> string" where
  "raw_key_of token = ''lcp_'' @ token"

definition key_of_id :: "int \<Rightarrow> key_store \<Rightarrow> api_key option" where
  "key_of_id i ks = find (\<lambda>k. kid k = i) (key_rows ks)"

text \<open>\<open>session.add\<close> and \<open>commit\<close>.\<close>

definition insert_key :: "api_key \<Rightarrow> key_store \<Rightarrow> db_error + key_store" where
  "insert_key k ks =
     (if \<exists>r \<in> set (key_rows ks). key_hash r = key_hash k then Inl IntegrityError
      else Inr (ks\<lparr>key_rows := key_rows ks @ [k]\<rparr>))"

definition create_key :: "key_env \<Rightarrow> real \<Rightarrow> string \<Rightarrow> string \<Rightarrow> string \<Rightarrow> real \<Rightarrow> string \<Rightarrow> string
    \<Rightarrow> key_store \<Rightarrow> db_error + created_key \<times> key_store" where
  "create_key env now token name profiles limit expires tags ks =
     (let raw_key = raw_key_of token;
          pre = take 12 raw_key;
          entry = \<lparr>kid = next_id kid (key_rows ks), key_hash = ke_hash env raw_key, key_prefix = pre,
            kname = (if name = [] then ''Key '' @ pre else name),
            allowed_profiles = none_if_empty profiles, spend_limit = limit, total_spend = 0,
            kstatus = ''active'', created_at = ke_iso env now, last_used_at = None,
            expires_at = none_if_empty expires, revoked_at = None, metadata_tags = none_if_empty tags\<rparr>
      in case insert_key entry ks of
           Inl e \<Rightarrow> Inl e
         | Inr ks' \<Rightarrow> Inr (\<lparr>ck_key = raw_key, ck_id = kid entry, ck_prefix = pre, ck_name = kname entry,
               ck_profiles = allowed_profiles entry, ck_limit = spend_limit entry\<rparr>, ks'))"

definition revoked :: "string \<Rightarrow> api_key \<Rightarrow> api_key" where
  "revoked stamp k = k\<lparr>kstatus := ''revoked'', revoked_at := Some stamp\<rparr>"

text \<open>The old row is changed and the new one added in one transaction.\<close>

definition rotate_key :: "key_env \<Rightarrow> real \<Rightarrow> string \<Rightarrow> int \<Rightarrow> key_store
    \<Rightarrow> db_error + rotated_key option \<times> key_store" where
  "rotate_key env now token i ks = (case key_of_id i ks of
      None \<Rightarrow> Inr (None, ks)
    | Some old \<Rightarrow>
        let raw_key = raw_key_of token;
            pre = take 12 raw_key;
            new_key = \<lparr>kid = next_id kid (key_rows ks), key_hash = ke_hash env raw_key, key_prefix = pre,
              kname = kname old, allowed_profiles = allowed_profiles old, spend_limit = spend_limit old,
              total_spend = 0, kstatus = ''active'', created_at = ke_iso env now, last_used_at = None,
              expires_at = expires_at old, revoked_at = None, metadata_tags = metadata_tags old\<rparr>;
            ks1 = ks\<lparr>key_rows := update_first (\<lambda>k. kid k = i) (revoked (ke_iso env now)) (key_rows ks)\<rparr>
        in case insert_key new_key ks1 of
             Inl e \<Rightarrow> Inl e
           | Inr ks' \<Rightarrow> Inr (Some \<lparr>rk_key = raw_key, rk_id = kid new_key, rk_prefix = pre,
                 rk_name = kname new_key, rk_old_id = i\<rparr>, ks'))"

definition revoke_key :: "key_env \<Rightarrow> real \<Rightarrow> int \<Rightarrow> key_store \<Rightarrow> bool \<times> key_store" where
  "revoke_key env now i ks = (case key_of_id i ks of
      None \<Rightarrow> (False, ks)
    | Some k \<Rightarrow> (True, ks\<lparr>key_rows :=
        update_first (\<lambda>k. kid k = i) (revoked (ke_iso env now)) (key_rows ks)\<rparr>))"

definition view_key :: "api_key \<Rightarrow> key_view" where
  "view_key k = \<lparr>kv_id = kid k, kv_prefix = key_prefix k, kv_name = kname k,
     kv_profiles = allowed_profiles k, kv_limit = spend_limit k, kv_spend = total_spend k,
     kv_status = kstatus k, kv_created = created_at k, kv_last_used = last_used_at k,
     kv_expires = expires_at k, kv_revoked = revoked_at k, kv_tags = metadata_tags k\<rparr>"

definition get_key :: "int \<Rightarrow> key_store \<Rightarrow> key_view option" where
  "get_key i ks = map_option view_key (key_of_id i ks)"

definition list_keys :: "key_store \<Rightarrow> key_view list" where
  "list_keys ks = map view_key (rev (sort_key kid (key_rows ks)))"

definition expired_key :: "key_env \<Rightarrow> real \<Rightarrow> api_key \<Rightarrow> bool" where
  "expired_key env now k = (case expires_at k of
      None \<Rightarrow> False
    | Some t \<Rightarrow> t \<noteq> [] \<and> (case ke_fromiso env t of None \<Rightarrow> False | Some limit \<Rightarrow> limit < now))"

definition info_of :: "api_key \<Rightarrow> key_info" where
  "info_of k = \<lparr>ki_id = kid k, ki_name = kname k, ki_profiles = allowed_profiles k,
     ki_limit = spend_limit k, ki_spend = total_spend k\<rparr>"

abbreviation live_hash :: "string \<Rightarrow> api_key \<Rightarrow> bool" where
  "live_hash h k \<equiv> key_hash k = h \<and> kstatus k = ''active''"

definition validate_key :: "key_env \<Rightarrow> real \<Rightarrow> string \<Rightarrow> key_store \<Rightarrow> key_info option \<times> key_store" where
  "validate_key env now raw ks =
     (let h = ke_hash env raw in
      case find (live_hash h) (key_rows ks) of
        None \<Rightarrow> (None, ks)
      | Some k \<Rightarrow>
          if expired_key env now k then (None, ks)
          else (Some (info_of k), ks\<lparr>key_rows :=
            update_first (live_hash h) (\<lambda>k. k\<lparr>last_used_at := Some (ke_iso env now)\<rparr>) (key_rows ks)\<rparr>))"

subsection \<open>Migration of the JSON file\<close>

text \<open>
  Every entry whose hash is not in the table yet becomes an active key without a limit; the pending
  rows count, since the query flushes them.  The file is renamed, so the migration runs once.
\<close>

definition or_empty :: "string option \<Rightarrow> string" where
  "or_empty s = (case s of None \<Rightarrow> [] | Some t \<Rightarrow> t)"

definition migrate_entry :: "key_env \<Rightarrow> real \<Rightarrow> legacy_key \<Rightarrow> api_key list \<Rightarrow> api_key list" where
  "migrate_entry env now l rows =
     (if \<exists>r \<in> set rows. key_hash r = or_empty (lk_hash l) then rows
      else rows @ [\<lparr>kid = next_id kid rows, key_hash = or_empty (lk_hash l),
        key_prefix = take 8 (or_empty (lk_id l)),
        kname = (case lk_label l of Some t \<Rightarrow> t | None \<Rightarrow> ''Key for '' @ or_empty (lk_profile l)),
        allowed_profiles = Some (or_empty (lk_profile l)), spend_limit = 0, total_spend = 0,
        kstatus = ''active'',
        created_at = (case lk_created l of Some t \<Rightarrow> t | None \<Rightarrow> ke_iso env now),
        last_used_at = lk_last_used l, expires_at = None, revoked_at = None, metadata_tags = None\<rparr>])"

definition migrate_legacy_keys :: "key_env \<Rightarrow> real \<Rightarrow> key_store \<Rightarrow> key_store" where
  "migrate_legacy_keys env now ks = (case legacy_file ks of
      None \<Rightarrow> ks
    | Some [] \<Rightarrow> ks
    | Some ls \<Rightarrow> \<lparr>key_rows = fold (migrate_entry env now) ls (key_rows ks), legacy_file = None\<rparr>)"

subsection \<open>The table stays well formed\<close>

datatype key_op =
    CreateKey real string string string real string string
  | RotateKey real string int
  | RevokeKey real int
  | ValidateKey real string
  | MigrateKeys real

fun key_step :: "key_env \<Rightarrow> key_op \<Rightarrow> key_store \<Rightarrow> key_store" where
  "key_step env (CreateKey now token name profiles limit expires tags) ks =
     (case create_key env now token name profiles limit expires tags ks of Inl e \<Rightarrow> ks | Inr (r, ks') \<Rightarrow> ks')"
| "key_step env (RotateKey now token i) ks =
     (case rotate_key env now token i ks of Inl e \<Rightarrow> ks | Inr (r, ks') \<Rightarrow> ks')"
| "key_step env (RevokeKey now i) ks = snd (revoke_key env now i ks)"
| "key_step env (ValidateKey now raw) ks = snd (validate_key env now raw ks)"
| "key_step env (MigrateKeys now) ks = migrate_legacy_keys env now ks"

lemma revoked_sel [simp]:
  "kid (revoked t k) = kid k" "key_hash (revoked t k) = key_hash k" "kstatus (revoked t k) = ''revoked''"
  by (simp_all add: revoked_def)

text \<open>
  Two shapes of change make up every operation: a row is changed in place, keeping id and hash and
  not coming back to life, or a row with a fresh id and a fresh hash is appended.
\<close>

definition row_kept :: "(api_key \<Rightarrow> api_key) \<Rightarrow> bool" where
  "row_kept f \<longleftrightarrow> (\<forall>r. kid (f r) = kid r \<and> key_hash (f r) = key_hash r \<and>
     (kstatus (f r) = ''active'' \<longrightarrow> kstatus r = ''active''))"

lemma row_kept_simps [simp]:
  "row_kept (revoked t)"
  "row_kept (\<lambda>k. k\<lparr>last_used_at := v\<rparr>)"
  by (simp_all add: row_kept_def)

definition rows_ok :: "api_key list \<Rightarrow> bool" where
  "rows_ok rows \<longleftrightarrow> distinct (map kid rows) \<and> distinct (map key_hash rows)"

definition rows_dead :: "string \<Rightarrow> api_key list \<Rightarrow> bool" where
  "rows_dead h rows \<longleftrightarrow> h \<in> key_hash ` set rows \<and> (\<forall>r \<in> set rows. \<not> live_hash h r)"

lemma rows_ok_update: "row_kept f \<Longrightarrow> rows_ok (update_first p f rows) = rows_ok rows"
  by (simp add: rows_ok_def row_kept_def map_update_first)

lemma rows_dead_update:
  assumes "row_kept f" and "rows_dead h rows"
  shows "rows_dead h (update_first p f rows)"
proof -
  have "map key_hash (update_first p f rows) = map key_hash rows"
    using assms(1) by (simp add: row_kept_def map_update_first)
  then have "key_hash ` set (update_first p f rows) = key_hash ` set rows"
    by (metis list.set_map)
  moreover have "\<forall>r \<in> set (update_first p f rows). \<not> live_hash h r"
    using assms by (intro update_first_all) (auto simp: row_kept_def rows_dead_def)
  ultimately show ?thesis using assms(2) by (simp add: rows_dead_def)
qed

lemma fresh_kid: "next_id kid rows \<notin> kid ` set rows"
  using next_id_gt[of _ rows kid] by fastforce

lemma rows_ok_append:
  "rows_ok rows \<Longrightarrow> kid a \<notin> kid ` set rows \<Longrightarrow> key_hash a \<notin> key_hash ` set rows \<Longrightarrow> rows_ok (rows @ [a])"
  by (auto simp: rows_ok_def)

lemma rows_dead_append:
  "rows_dead h rows \<Longrightarrow> key_hash a \<notin> key_hash ` set rows \<Longrightarrow> rows_dead h (rows @ [a])"
  by (auto simp: rows_dead_def)

lemma kids_update: "row_kept f \<Longrightarrow> kid ` set (update_first p f rows) = kid ` set rows"
  by (metis (mono_tags, lifting) list.set_map map_update_first row_kept_def)

lemma next_id_update: "row_kept f \<Longrightarrow> next_id kid (update_first p f rows) = next_id kid rows"
proof -
  assume "row_kept f"
  then have "map kid (update_first p f rows) = map kid rows"
    by (simp add: row_kept_def map_update_first)
  then have "fold (\<lambda>i m. max i m) (map kid (update_first p f rows)) 0 = fold (\<lambda>i m. max i m) (map kid rows) 0"
    by simp
  then show ?thesis by (simp add: next_id_def fold_map comp_def)
qed

lemma insert_key_Inr:
  "insert_key k ks = Inr ks' \<longleftrightarrow>
     ks' = ks\<lparr>key_rows := key_rows ks @ [k]\<rparr> \<and> key_hash k \<notin> key_hash ` set (key_rows ks)"
  by (auto simp: insert_key_def image_iff) metis

text \<open>What an operation does to the rows: \<open>key_effect\<close> is closed under the two shapes.\<close>

inductive key_effect :: "api_key list \<Rightarrow> api_key list \<Rightarrow> bool" where
  same: "key_effect rows rows"
| change: "key_effect rows rows' \<Longrightarrow> row_kept f \<Longrightarrow> key_effect rows (update_first p f rows')"
| append: "key_effect rows rows' \<Longrightarrow> kid a = next_id kid rows' \<Longrightarrow> key_hash a \<notin> key_hash ` set rows' \<Longrightarrow>
    key_effect rows (rows' @ [a])"

lemma key_effect_migrate: "key_effect rows (fold (migrate_entry env now) ls rows)"
proof -
  have "key_effect rows rows' \<Longrightarrow> key_effect rows (fold (migrate_entry env now) ls rows')" for rows'
  proof (induction ls arbitrary: rows')
    case Nil
    then show ?case by simp
  next
    case (Cons l ls)
    have "key_effect rows (migrate_entry env now l rows')"
      using Cons.prems by (auto simp: migrate_entry_def image_iff intro!: key_effect.append)
    then show ?case by (simp add: Cons.IH)
  qed
  then show ?thesis by (blast intro: key_effect.same)
qed

lemma key_step_effect: "key_effect (key_rows ks) (key_rows (key_step env x ks))"
proof (cases x)
  case (CreateKey now token name profiles limit expires tags)
  then show ?thesis
    by (auto simp: create_key_def Let_def insert_key_Inr split: sum.splits intro!: key_effect.intros)
next
  case (RotateKey now token i)
  show ?thesis
  proof (cases "key_of_id i ks")
    case None
    then show ?thesis using RotateKey by (simp add: rotate_key_def key_effect.same)
  next
    case (Some old)
    then show ?thesis using RotateKey
      by (auto simp: rotate_key_def Let_def insert_key_Inr next_id_update split: sum.splits
        intro!: key_effect.intros)
  qed
next
  case (RevokeKey now i)
  then show ?thesis
    by (auto simp: revoke_key_def split: option.splits intro!: key_effect.intros)
next
  case (ValidateKey now raw)
  then show ?thesis
    by (auto simp: validate_key_def Let_def split: option.splits intro!: key_effect.intros)
next
  case (MigrateKeys now)
  then show ?thesis
    using key_effect_migrate[of "key_rows ks" env now "the (legacy_file ks)"]
    by (auto simp: migrate_legacy_keys_def split: option.splits list.splits intro: key_effect.same)
qed

lemma key_effect_ok: "key_effect rows rows' \<Longrightarrow> rows_ok rows \<Longrightarrow> rows_ok rows'"
  by (induction rule: key_effect.induct) (simp_all add: rows_ok_update rows_ok_append fresh_kid)

lemma key_effect_dead: "key_effect rows rows' \<Longrightarrow> rows_dead h rows \<Longrightarrow> rows_dead h rows'"
  by (induction rule: key_effect.induct) (auto intro: rows_dead_update rows_dead_append)

interpretation key_table: stable_fact "key_step env" "\<lambda>ks. rows_ok (key_rows ks)" "\<lambda>_. True" for env
  by unfold_locales (blast intro: key_effect_ok key_step_effect)

interpretation dead_key: stable_fact "key_step env" "\<lambda>ks. rows_dead h (key_rows ks)" "\<lambda>_. True" for env h
  by unfold_locales (blast intro: key_effect_dead key_step_effect)

subsection \<open>What the table answers\<close>

lemma find_live_unique:
  assumes ok: "rows_ok rows" and k: "k \<in> set rows" "live_hash h k"
  shows "find (live_hash h) rows = Some k"
proof (cases "find (live_hash h) rows")
  case None
  with k show ?thesis by (auto simp: find_None_iff)
next
  case (Some x)
  then have "x \<in> set rows" "key_hash x = key_hash k"
    using k by (auto simp: find_Some_iff)
  with ok k have "x = k" by (auto simp: rows_ok_def distinct_map inj_on_def)
  with Some show ?thesis by simp
qed

lemma dead_not_valid: "rows_dead (ke_hash env raw) (key_rows ks) \<Longrightarrow> validate_key env t raw ks = (None, ks)"
proof -
  assume "rows_dead (ke_hash env raw) (key_rows ks)"
  then have "find (live_hash (ke_hash env raw)) (key_rows ks) = None"
    by (auto simp: rows_dead_def find_None_iff)
  then show ?thesis by (simp add: validate_key_def)
qed

lemma key_of_id_SomeD: "key_of_id i ks = Some k \<Longrightarrow> k \<in> set (key_rows ks) \<and> kid k = i"
  by (auto simp: key_of_id_def find_Some_iff)

lemma revoking_kills:
  assumes ok: "rows_ok (key_rows ks)" and k: "key_of_id i ks = Some k"
  shows "rows_dead (key_hash k) (update_first (\<lambda>k. kid k = i) (revoked t) (key_rows ks))"
proof -
  obtain before after where split: "key_rows ks = before @ k # after" and i: "kid k = i"
      and none: "\<forall>x \<in> set before. kid x \<noteq> i"
    using k unfolding key_of_id_def by (rule find_split) simp
  have upd: "update_first (\<lambda>k. kid k = i) (revoked t) (key_rows ks) = before @ revoked t k # after"
    unfolding split using i none by (simp add: update_first_split)
  have "\<forall>x \<in> set before \<union> set after. key_hash x \<noteq> key_hash k"
    using ok by (auto simp: split rows_ok_def image_iff)
  then show ?thesis unfolding upd rows_dead_def by auto
qed

text \<open>
  Also: what validation answers, exactly.  A raw key is accepted when the table has an active row
  with its hash that has not expired, and then the answer is that row's permissions and the only
  change is its last-used stamp; in every other case the table is untouched, and every active row
  with that hash has expired.
\<close>

theorem validate_key_exact:
  assumes "rows_ok (key_rows ks)"
  shows "case validate_key env now raw ks of
      (Some info, ks') \<Rightarrow> (\<exists>k \<in> set (key_rows ks). live_hash (ke_hash env raw) k \<and> \<not> expired_key env now k \<and>
          info = info_of k \<and> legacy_file ks' = legacy_file ks \<and>
          key_rows ks' = map (\<lambda>x. if kid x = kid k then x\<lparr>last_used_at := Some (ke_iso env now)\<rparr> else x) (key_rows ks))
    | (None, ks') \<Rightarrow> ks' = ks \<and>
          (\<forall>k \<in> set (key_rows ks). live_hash (ke_hash env raw) k \<longrightarrow> expired_key env now k)"
proof (cases "find (live_hash (ke_hash env raw)) (key_rows ks)")
  case None
  then have "\<forall>k \<in> set (key_rows ks). \<not> live_hash (ke_hash env raw) k"
    by (auto simp: find_None_iff)
  with None show ?thesis by (auto simp: validate_key_def Let_def)
next
  case (Some k)
  obtain before after where split: "key_rows ks = before @ k # after" and live: "live_hash (ke_hash env raw) k"
      and none: "\<forall>x \<in> set before. \<not> live_hash (ke_hash env raw) x"
    using Some by (rule find_split) simp
  have others: "\<forall>x \<in> set before \<union> set after. kid x \<noteq> kid k"
    using assms by (auto simp: split rows_ok_def image_iff)
  show ?thesis
  proof (cases "expired_key env now k")
    case True
    have "\<forall>x \<in> set (key_rows ks). live_hash (ke_hash env raw) x \<longrightarrow> x = k"
      using find_live_unique[OF assms] Some by fastforce
    with Some True show ?thesis by (auto simp: validate_key_def Let_def)
  next
    case False
    have "update_first (live_hash (ke_hash env raw)) (\<lambda>k. k\<lparr>last_used_at := Some (ke_iso env now)\<rparr>) (key_rows ks) =
        before @ k\<lparr>last_used_at := Some (ke_iso env now)\<rparr> # after"
      unfolding split using live none by (rule update_first_split)
    also have "\<dots> = map (\<lambda>x. if kid x = kid k then x\<lparr>last_used_at := Some (ke_iso env now)\<rparr> else x) (key_rows ks)"
      using others by (simp add: split map_idI)
    finally show ?thesis
      using Some False live split by (auto simp: validate_key_def Let_def intro!: bexI[of _ k])
  qed
qed

lemma validate_SomeE:
  assumes "validate_key env now raw ks = (Some info, ks')"
  obtains k where "k \<in> set (key_rows ks)" "live_hash (ke_hash env raw) k" "\<not> expired_key env now k"
    "info = info_of k"
proof (cases "find (live_hash (ke_hash env raw)) (key_rows ks)")
  case None
  with assms show thesis by (simp add: validate_key_def)
next
  case (Some k)
  then have "k \<in> set (key_rows ks) \<and> live_hash (ke_hash env raw) k" by (auto simp: find_Some_iff)
  with assms Some show thesis by (intro that[of k]) (auto simp: validate_key_def split: if_splits)
qed

definition demo_key_env :: key_env where
  "demo_key_env = \<lparr>ke_hash = rev, ke_iso = (\<lambda>t. if t = 0 then ''epoch'' else ''later''),
     ke_fromiso = (\<lambda>s. if s = ''soon'' then Some 10 else None)\<rparr>"

definition demo_keys :: key_store where
  "demo_keys = (case create_key demo_key_env 0 ''ab'' ''ci'' ''default'' 5 ''soon'' [] \<lparr>key_rows = [], legacy_file = None\<rparr> of
     Inr (r, ks) \<Rightarrow> ks | Inl e \<Rightarrow> \<lparr>key_rows = [], legacy_file = None\<rparr>)"

lemma demo_keys_rows: "key_rows demo_keys =
   [\<lparr>kid = 1, key_hash = rev ''lcp_ab'', key_prefix = ''lcp_ab'', kname = ''ci'', allowed_profiles = Some ''default'',
     spend_limit = 5, total_spend = 0, kstatus = ''active'', created_at = ''epoch'', last_used_at = None,
     expires_at = Some ''soon'', revoked_at = None, metadata_tags = None\<rparr>]"
  by (simp add: demo_keys_def create_key_def insert_key_def demo_key_env_def raw_key_of_def
    next_id_def none_if_empty_def Let_def)

lemma demo_keys_ok: "rows_ok (key_rows demo_keys)"
  by (simp add: demo_keys_rows rows_ok_def)

theorem validate_key_exact_witness:
  "fst (validate_key demo_key_env 3 ''lcp_ab'' demo_keys) =
     Some \<lparr>ki_id = 1, ki_name = ''ci'', ki_profiles = Some ''default'', ki_limit = 5, ki_spend = 0\<rparr> \<and>
   fst (validate_key demo_key_env 11 ''lcp_ab'' demo_keys) = None"
  using validate_key_exact[OF demo_keys_ok, where env = demo_key_env and now = 3 and raw = "''lcp_ab''"]
    validate_key_exact[OF demo_keys_ok, where env = demo_key_env and now = 11 and raw = "''lcp_ab''"]
  by (simp add: demo_keys_rows validate_key_def demo_key_env_def expired_key_def info_of_def)

text \<open>
  C20: a revoked key is dead for good.  Once a key has been revoked, or rotated away, its raw key is
  refused after any sequence of creations, rotations, revocations, validations and migrations.
\<close>

theorem revoked_key_stays_dead:
  assumes "rows_ok (key_rows ks)" and "key_of_id i ks = Some k" and "ke_hash env raw = key_hash k"
    and "ks1 = snd (revoke_key env now i ks) \<or> (\<exists>r. rotate_key env now token i ks = Inr (r, ks1))"
  shows "fst (validate_key env t raw (fold (key_step env) ops ks1)) = None"
proof -
  have dead: "rows_dead (ke_hash env raw) (update_first (\<lambda>k. kid k = i) (revoked (ke_iso env now)) (key_rows ks))"
    using revoking_kills[OF assms(1,2)] assms(3) by simp
  have "rows_dead (ke_hash env raw) (key_rows ks1)"
    using assms(2,4) dead
    by (auto simp: revoke_key_def rotate_key_def Let_def insert_key_Inr split: sum.splits intro!: rows_dead_append)
  then show ?thesis using dead_not_valid dead_key.run_keeps by fastforce
qed

theorem revoked_key_stays_dead_witness:
  "fst (validate_key demo_key_env 4 ''lcp_ab'' (fold (key_step demo_key_env)
     [MigrateKeys 3, ValidateKey 3 ''lcp_ab''] (snd (revoke_key demo_key_env 2 1 demo_keys)))) = None"
  by (rule revoked_key_stays_dead[OF demo_keys_ok, where i = 1 and k = "hd (key_rows demo_keys)" and now = 2])
    (simp_all add: demo_keys_rows key_of_id_def demo_key_env_def)

text \<open>
  Rotation does not ask whether the key it replaces is still good: for every row with the id, a
  revoked one included, it answers with a new active key, which is accepted with the same permissions
  and expiry, a fresh id and no spend; only a clash of the new hash stops it.
\<close>

lemma rotation_validates:
  assumes "rows_ok (key_rows ks)" and "key_of_id i ks = Some k"
    and "ke_hash env (raw_key_of token) \<notin> key_hash ` set (key_rows ks)"
  shows "\<exists>r ks1. rotate_key env now token i ks = Inr (Some r, ks1) \<and> rk_key r = raw_key_of token \<and>
     rk_id r \<notin> kid ` set (key_rows ks) \<and>
     fst (validate_key env t (rk_key r) ks1) =
       (if expired_key env t k then None
        else Some \<lparr>ki_id = rk_id r, ki_name = kname k, ki_profiles = allowed_profiles k,
               ki_limit = spend_limit k, ki_spend = 0\<rparr>)"
proof -
  let ?rows = "update_first (\<lambda>k. kid k = i) (revoked (ke_iso env now)) (key_rows ks)"
  let ?new = "\<lparr>kid = next_id kid (key_rows ks), key_hash = ke_hash env (raw_key_of token),
      key_prefix = take 12 (raw_key_of token), kname = kname k, allowed_profiles = allowed_profiles k,
      spend_limit = spend_limit k, total_spend = 0, kstatus = ''active'', created_at = ke_iso env now,
      last_used_at = None, expires_at = expires_at k, revoked_at = None, metadata_tags = metadata_tags k\<rparr>"
  have hashes: "key_hash ` set ?rows = key_hash ` set (key_rows ks)"
    by (metis (no_types, lifting) list.set_map map_update_first revoked_sel(2))
  have fresh: "key_hash ?new \<notin> key_hash ` set ?rows" using assms(3) by (simp add: hashes)
  have kids: "kid ?new \<notin> kid ` set ?rows"
    using fresh_kid[of "key_rows ks"] by (simp add: kids_update)
  have rot: "rotate_key env now token i ks = Inr (Some \<lparr>rk_key = raw_key_of token, rk_id = kid ?new,
      rk_prefix = take 12 (raw_key_of token), rk_name = kname k, rk_old_id = i\<rparr>,
      ks\<lparr>key_rows := ?rows @ [?new]\<rparr>)"
    using fresh assms(2) by (auto simp: rotate_key_def Let_def insert_key_def image_iff)
  have "rows_ok (?rows @ [?new])"
    using assms(1) fresh kids by (intro rows_ok_append) (simp_all add: rows_ok_update)
  then have "find (live_hash (ke_hash env (raw_key_of token))) (?rows @ [?new]) = Some ?new"
    by (rule find_live_unique) simp_all
  then have "fst (validate_key env t (raw_key_of token) (ks\<lparr>key_rows := ?rows @ [?new]\<rparr>)) =
      (if expired_key env t ?new then None else Some (info_of ?new))"
    by (simp add: validate_key_def Let_def)
  moreover have "expired_key env t ?new = expired_key env t k"
    by (simp add: expired_key_def)
  ultimately show ?thesis using rot fresh_kid[of "key_rows ks"] by (simp add: info_of_def)
qed

end
