(* ===== verification/Budgets.thy ===== *)
theory Budgets
  imports Key_Manager Py_Numbers
begin

section \<open>Spending budgets (src/server/handler.py, src/server/endpoints.py)\<close>

text \<open>
  The budget table: what blocks a request, how the spend of a request is added, which thresholds it
  crosses, and the endpoints that create, change and delete budgets.  Amounts are reals; the rounding
  to six decimals is the code's.  A request body reaches an endpoint with fields of the declared
  types (a value \<open>float\<close> rejects is answered with 500 and changes nothing); \<open>name.upper()\<close> of
  the profile endpoint is an argument.  A failing database is the flag \<open>up\<close>.
\<close>

record budget =
  bid :: int
  bname :: string
  bkey_id :: "int option"
  bprofile :: "string option"
  amount :: real
  current_spend :: real
  period :: string
  threshold_pct :: string
  action :: string
  bstatus :: string
  bcreated_at :: string
  last_alert_at :: "string option"

record billing =
  budgets :: "budget list"
  client_keys :: key_store

record breach =
  br_budget_id :: int
  br_budget_name :: string
  br_threshold :: int
  br_spend_pct :: real
  br_limit :: real
  br_current_spend :: real

text \<open>The profile and key filter of both queries.\<close>

definition budget_matches :: "string \<Rightarrow> int option \<Rightarrow> budget \<Rightarrow> bool" where
  "budget_matches profile key_id b \<longleftrightarrow>
     (bprofile b = Some profile \<or> bprofile b = None) \<and>
     (case key_id of
        Some i \<Rightarrow> bkey_id b = Some i \<or> bkey_id b = None
      | None \<Rightarrow> bkey_id b = None)"

definition exhausted :: "budget \<Rightarrow> bool" where
  "exhausted b \<longleftrightarrow> 0 < amount b \<and> amount b \<le> current_spend b"

definition blocking :: "string \<Rightarrow> int option \<Rightarrow> budget \<Rightarrow> bool" where
  "blocking profile key_id b \<longleftrightarrow>
     action b = ''block'' \<and> bstatus b \<in> {''active'', ''exceeded''} \<and> budget_matches profile key_id b \<and> exhausted b"

text \<open>The answer is the name of the first exhausted budget; the callers test it for truth.\<close>

definition check_budget_block :: "bool \<Rightarrow> string \<Rightarrow> int option \<Rightarrow> billing \<Rightarrow> string option" where
  "check_budget_block up profile key_id bl =
     (if up then map_option bname (find (blocking profile key_id) (budgets bl)) else None)"

definition is_blocked :: "bool \<Rightarrow> string \<Rightarrow> int option \<Rightarrow> billing \<Rightarrow> bool" where
  "is_blocked up profile key_id bl = (case check_budget_block up profile key_id bl of
      None \<Rightarrow> False | Some name \<Rightarrow> name \<noteq> [])"

text \<open>\<open>[int(t) for t in threshold_pct.split(",") if t]\<close>; \<open>None\<close> is the \<open>ValueError\<close>.\<close>

definition thresholds :: "string \<Rightarrow> int list option" where
  "thresholds s = those (map py_int (filter (\<lambda>t. t \<noteq> []) (split_on (CHR '','') s)))"

definition crossed :: "budget \<Rightarrow> real \<Rightarrow> int list \<Rightarrow> breach list" where
  "crossed b old ts =
     (let old_pct = old / amount b * 100; new_pct = current_spend b / amount b * 100 in
      map (\<lambda>t. \<lparr>br_budget_id = bid b, br_budget_name = bname b, br_threshold = t,
             br_spend_pct = py_round 1 new_pct, br_limit = amount b, br_current_spend = current_spend b\<rparr>)
        (filter (\<lambda>t. old_pct < of_int t \<and> of_int t \<le> new_pct) ts))"

definition charged :: "string \<Rightarrow> real \<Rightarrow> budget \<Rightarrow> budget" where
  "charged stamp cost b =
     (let b1 = b\<lparr>current_spend := py_round 6 (current_spend b + cost)\<rparr>
      in if exhausted b1 then b1\<lparr>bstatus := ''exceeded'', last_alert_at := Some stamp\<rparr> else b1)"

definition charge_budget :: "string \<Rightarrow> real \<Rightarrow> budget \<Rightarrow> (budget \<times> breach list) option" where
  "charge_budget stamp cost b =
     (let b' = charged stamp cost b in
      if 0 < amount b
      then (case thresholds (threshold_pct b) of
          None \<Rightarrow> None
        | Some ts \<Rightarrow> Some (b', crossed b' (current_spend b) ts))
      else Some (b', []))"

definition sync_key :: "budget \<Rightarrow> key_store \<Rightarrow> key_store" where
  "sync_key b ks = (case bkey_id b of
      None \<Rightarrow> ks
    | Some i \<Rightarrow> ks\<lparr>key_rows := update_first (\<lambda>k. kid k = i) (\<lambda>k. k\<lparr>total_spend := current_spend b\<rparr>) (key_rows ks)\<rparr>)"

definition counted :: "string \<Rightarrow> int option \<Rightarrow> budget \<Rightarrow> bool" where
  "counted profile key_id b \<longleftrightarrow> bstatus b = ''active'' \<and> budget_matches profile key_id b"

fun charge_all :: "string \<Rightarrow> string \<Rightarrow> real \<Rightarrow> int option \<Rightarrow> budget list \<Rightarrow> key_store
    \<Rightarrow> (budget list \<times> breach list \<times> key_store) option" where
  "charge_all stamp profile cost key_id [] ks = Some ([], [], ks)"
| "charge_all stamp profile cost key_id (b # bs) ks =
     (if counted profile key_id b then
        (case charge_budget stamp cost b of
           None \<Rightarrow> None
         | Some (b', fired) \<Rightarrow>
             (case charge_all stamp profile cost key_id bs (sync_key b' ks) of
                None \<Rightarrow> None
              | Some (bs', fired', ks') \<Rightarrow> Some (b' # bs', fired @ fired', ks')))
      else map_option (\<lambda>(bs', fired', ks'). (b # bs', fired', ks')) (charge_all stamp profile cost key_id bs ks))"

text \<open>An exception anywhere in the loop leaves the transaction uncommitted and is only logged.\<close>

definition increment_budget_spend :: "bool \<Rightarrow> string \<Rightarrow> string \<Rightarrow> real \<Rightarrow> int option \<Rightarrow> billing
    \<Rightarrow> breach list \<times> billing" where
  "increment_budget_spend up stamp profile cost key_id bl =
     (if up then
        (case charge_all stamp profile cost key_id (budgets bl) (client_keys bl) of
           None \<Rightarrow> ([], bl)
         | Some (bs, fired, ks) \<Rightarrow> (fired, bl\<lparr>budgets := bs, client_keys := ks\<rparr>))
      else ([], bl))"

subsection \<open>The endpoints\<close>

text \<open>
  The fields present in a request body, each with the value it gets: an empty or null key and
  profile become \<open>None\<close>.
\<close>

record budget_patch =
  p_name :: "string option"
  p_key_id :: "int option option"
  p_profile :: "string option option"
  p_amount :: "real option"
  p_period :: "string option"
  p_threshold_pct :: "string option"
  p_action :: "string option"
  p_status :: "string option"

definition or_default :: "'a option \<Rightarrow> 'a \<Rightarrow> 'a" where
  "or_default x d = (case x of None \<Rightarrow> d | Some y \<Rightarrow> y)"

definition new_budget :: "string \<Rightarrow> string \<Rightarrow> budget_patch \<Rightarrow> int option \<Rightarrow> string option \<Rightarrow> budget list \<Rightarrow> budget" where
  "new_budget stamp default_name p key_id profile bs =
     \<lparr>bid = next_id bid bs, bname = or_default (p_name p) default_name, bkey_id = key_id, bprofile = profile,
      amount = or_default (p_amount p) 0, current_spend = 0, period = or_default (p_period p) ''monthly'',
      threshold_pct = or_default (p_threshold_pct p) ''80'', action = or_default (p_action p) ''log'',
      bstatus = ''active'', bcreated_at = stamp, last_alert_at = None\<rparr>"

definition serve_budget_create :: "string \<Rightarrow> budget_patch \<Rightarrow> billing \<Rightarrow> int \<times> billing" where
  "serve_budget_create stamp p bl =
     (let b = new_budget stamp [] p (or_default (p_key_id p) None) (or_default (p_profile p) None) (budgets bl)
      in (bid b, bl\<lparr>budgets := budgets bl @ [b]\<rparr>))"

definition patch_common :: "budget_patch \<Rightarrow> budget \<Rightarrow> budget" where
  "patch_common p b = b\<lparr>bname := or_default (p_name p) (bname b), amount := or_default (p_amount p) (amount b),
     period := or_default (p_period p) (period b),
     threshold_pct := or_default (p_threshold_pct p) (threshold_pct b),
     action := or_default (p_action p) (action b), bstatus := or_default (p_status p) (bstatus b)\<rparr>"

definition patch_budget :: "budget_patch \<Rightarrow> budget \<Rightarrow> budget" where
  "patch_budget p b = (patch_common p b)\<lparr>bkey_id := or_default (p_key_id p) (bkey_id b),
     bprofile := or_default (p_profile p) (bprofile b)\<rparr>"

text \<open>The answer is the HTTP status.\<close>

definition serve_budget_update :: "string \<Rightarrow> budget_patch \<Rightarrow> billing \<Rightarrow> nat \<times> billing" where
  "serve_budget_update budget_id p bl = (case py_int budget_id of
      None \<Rightarrow> (400, bl)
    | Some i \<Rightarrow>
        (case find (\<lambda>b. bid b = i) (budgets bl) of
           None \<Rightarrow> (404, bl)
         | Some b \<Rightarrow> (200, bl\<lparr>budgets := update_first (\<lambda>b. bid b = i) (patch_budget p) (budgets bl)\<rparr>)))"

definition serve_budget_delete :: "string \<Rightarrow> billing \<Rightarrow> nat \<times> billing" where
  "serve_budget_delete budget_id bl = (case py_int budget_id of
      None \<Rightarrow> (400, bl)
    | Some i \<Rightarrow>
        (case find (\<lambda>b. bid b = i) (budgets bl) of
           None \<Rightarrow> (404, bl)
         | Some b \<Rightarrow> (200, bl\<lparr>budgets := remove1 b (budgets bl)\<rparr>)))"

abbreviation profile_budget :: "string \<Rightarrow> budget \<Rightarrow> bool" where
  "profile_budget name b \<equiv> bprofile b = Some name \<and> bkey_id b = None"

definition serve_profile_budget :: "string \<Rightarrow> billing \<Rightarrow> (budget \<times> real) option" where
  "serve_profile_budget name bl = map_option
     (\<lambda>b. (b, py_round 1 (if 0 < amount b then current_spend b / amount b * 100 else 0)))
     (find (profile_budget name) (budgets bl))"

definition serve_profile_budget_update :: "(string \<Rightarrow> string) \<Rightarrow> string \<Rightarrow> string \<Rightarrow> budget_patch \<Rightarrow> billing
    \<Rightarrow> int \<times> billing" where
  "serve_profile_budget_update upper stamp name p bl = (case find (profile_budget name) (budgets bl) of
      Some b \<Rightarrow> (bid b, bl\<lparr>budgets := update_first (profile_budget name) (patch_common p) (budgets bl)\<rparr>)
    | None \<Rightarrow>
        let b = new_budget stamp (upper name @ '' Budget'') p None (Some name) (budgets bl)
        in (bid b, bl\<lparr>budgets := budgets bl @ [b]\<rparr>))"

text \<open>The status page: a budget with an unreadable threshold list turns the answer into a 500.\<close>

definition serve_budgets_status :: "billing \<Rightarrow> (budget \<times> real \<times> int list) list option" where
  "serve_budgets_status bl = those (map
     (\<lambda>b. map_option (\<lambda>ts. (b, py_round 1 (if 0 < amount b then current_spend b / amount b * 100 else 0), ts))
        (thresholds (threshold_pct b)))
     (filter (\<lambda>b. bstatus b = ''active'') (budgets bl)))"

subsection \<open>A run of spends\<close>

record spend =
  sp_up :: bool
  sp_stamp :: string
  sp_profile :: string
  sp_cost :: real
  sp_key :: "int option"

definition spend_step :: "spend \<Rightarrow> billing \<Rightarrow> breach list \<times> billing" where
  "spend_step s = increment_budget_spend (sp_up s) (sp_stamp s) (sp_profile s) (sp_cost s) (sp_key s)"

fun spend_run :: "spend list \<Rightarrow> billing \<Rightarrow> breach list \<times> billing" where
  "spend_run [] bl = ([], bl)"
| "spend_run (s # ss) bl =
     (let (fired, bl') = spend_step s bl; (fired', bl'') = spend_run ss bl' in (fired @ fired', bl''))"

lemma snd_spend_run: "snd (spend_run ss bl) = fold (\<lambda>s bl. snd (spend_step s bl)) ss bl"
  by (induction ss arbitrary: bl) (simp_all add: split_beta Let_def)

lemma charged_sel [simp]:
  "bid (charged t c b) = bid b" "bname (charged t c b) = bname b" "bkey_id (charged t c b) = bkey_id b"
  "bprofile (charged t c b) = bprofile b" "amount (charged t c b) = amount b"
  "action (charged t c b) = action b" "threshold_pct (charged t c b) = threshold_pct b"
  "current_spend (charged t c b) = py_round 6 (current_spend b + c)"
  by (simp_all add: charged_def Let_def)

lemma budget_matches_charged [simp]: "budget_matches profile k (charged t c b) = budget_matches profile k b"
  by (simp add: budget_matches_def split: option.split)

lemma exhausted_charged: "exhausted (charged t c b) \<longleftrightarrow> 0 < amount b \<and> amount b \<le> py_round 6 (current_spend b + c)"
  by (simp add: exhausted_def)

lemma bstatus_charged: "bstatus (charged t c b) = (if exhausted (charged t c b) then ''exceeded'' else bstatus b)"
  by (auto simp: charged_def Let_def exhausted_def)

text \<open>What one spend does to a row: the loop is a map over the table.\<close>

definition after_spend :: "string \<Rightarrow> string \<Rightarrow> real \<Rightarrow> int option \<Rightarrow> budget \<Rightarrow> budget" where
  "after_spend stamp profile cost key_id b =
     (if counted profile key_id b then charged stamp cost b else b)"

definition fired_by :: "string \<Rightarrow> string \<Rightarrow> real \<Rightarrow> int option \<Rightarrow> budget \<Rightarrow> breach list" where
  "fired_by stamp profile cost key_id b =
     (if counted profile key_id b \<and> 0 < amount b
      then (case thresholds (threshold_pct b) of
          None \<Rightarrow> [] | Some ts \<Rightarrow> crossed (charged stamp cost b) (current_spend b) ts)
      else [])"

definition unreadable :: "budget \<Rightarrow> bool" where
  "unreadable b \<longleftrightarrow> 0 < amount b \<and> thresholds (threshold_pct b) = None"

lemma charge_all_Some:
  "charge_all stamp profile cost key_id bs ks = Some (bs', fired, ks') \<Longrightarrow>
   bs' = map (after_spend stamp profile cost key_id) bs \<and>
   fired = concat (map (fired_by stamp profile cost key_id) bs)"
proof (induction bs arbitrary: ks bs' fired ks')
  case Nil
  then show ?case by simp
next
  case (Cons b bs)
  show ?case
  proof (cases "counted profile key_id b")
    case True
    with Cons.prems obtain b1 f1 bs1 f2 where c: "charge_budget stamp cost b = Some (b1, f1)"
      and r: "charge_all stamp profile cost key_id bs (sync_key b1 ks) = Some (bs1, f2, ks')"
      and out: "bs' = b1 # bs1" "fired = f1 @ f2"
      by (auto split: option.splits)
    have "b1 = charged stamp cost b" "f1 = fired_by stamp profile cost key_id b"
      using c True by (auto simp: charge_budget_def fired_by_def Let_def split: if_splits option.splits)
    with Cons.IH[OF r] out True show ?thesis by (simp add: after_spend_def)
  next
    case False
    with Cons.prems obtain bs1 where r: "charge_all stamp profile cost key_id bs ks = Some (bs1, fired, ks')"
      and out: "bs' = b # bs1" by auto
    with Cons.IH[OF r] False show ?thesis by (simp add: after_spend_def fired_by_def)
  qed
qed

lemma charge_budget_None: "charge_budget stamp cost b = None \<longleftrightarrow> unreadable b"
  by (simp add: charge_budget_def unreadable_def Let_def split: option.split)

lemma charge_all_None:
  "charge_all stamp profile cost key_id bs ks = None \<longleftrightarrow> (\<exists>b \<in> set bs. counted profile key_id b \<and> unreadable b)"
proof (induction bs arbitrary: ks)
  case Nil
  then show ?case by simp
next
  case (Cons b bs)
  show ?case
  proof (cases "counted profile key_id b")
    case True
    show ?thesis
    proof (cases "charge_budget stamp cost b")
      case None
      with True charge_budget_None[of stamp cost b] show ?thesis by simp
    next
      case (Some x)
      obtain b' f where x: "x = (b', f)" by (cases x)
      have "\<not> unreadable b" using Some charge_budget_None[of stamp cost b] by auto
      then show ?thesis
        using True Some x Cons.IH[of "sync_key b' ks"] by (auto split: option.split)
    qed
  next
    case False
    with Cons.IH[of ks] show ?thesis by simp
  qed
qed

text \<open>A spend either has no effect at all or maps every row.\<close>

lemma spend_step_cases:
  obtains "spend_step s bl = ([], bl)"
  | ks where "spend_step s bl =
      (concat (map (fired_by (sp_stamp s) (sp_profile s) (sp_cost s) (sp_key s)) (budgets bl)),
       bl\<lparr>budgets := map (after_spend (sp_stamp s) (sp_profile s) (sp_cost s) (sp_key s)) (budgets bl), client_keys := ks\<rparr>)"
proof (cases "sp_up s")
  case True
  note up = True
  show ?thesis
  proof (cases "charge_all (sp_stamp s) (sp_profile s) (sp_cost s) (sp_key s) (budgets bl) (client_keys bl)")
    case None
    with up show ?thesis by (intro that(1)) (simp add: spend_step_def increment_budget_spend_def)
  next
    case (Some x)
    obtain bs fired ks where x: "x = (bs, fired, ks)" by (cases x)
    with up Some charge_all_Some[OF Some[unfolded x]] show ?thesis
      by (intro that(2)[of ks]) (simp add: spend_step_def increment_budget_spend_def)
  qed
next
  case False
  then show ?thesis by (intro that(1)) (simp add: spend_step_def increment_budget_spend_def)
qed

lemma spend_step_readable:
  assumes "sp_up s" and "\<forall>b \<in> set (budgets bl). \<not> unreadable b"
  shows "budgets (snd (spend_step s bl)) =
     map (after_spend (sp_stamp s) (sp_profile s) (sp_cost s) (sp_key s)) (budgets bl)"
proof (cases "charge_all (sp_stamp s) (sp_profile s) (sp_cost s) (sp_key s) (budgets bl) (client_keys bl)")
  case None
  with assms(2) show ?thesis by (auto simp: charge_all_None)
next
  case (Some x)
  obtain bs fired ks where x: "x = (bs, fired, ks)" by (cases x)
  with assms(1) Some charge_all_Some[OF Some[unfolded x]] show ?thesis
    by (simp add: spend_step_def increment_budget_spend_def)
qed

lemma unreadable_after [simp]: "unreadable (after_spend t p c k b) = unreadable b"
  by (simp add: unreadable_def after_spend_def)

subsection \<open>An exhausted budget keeps blocking\<close>

definition held_blocking :: "string \<Rightarrow> int option \<Rightarrow> budget \<Rightarrow> bool" where
  "held_blocking profile key_id b \<longleftrightarrow> blocking profile key_id b \<and> py_round 6 (current_spend b) = current_spend b"

lemma held_blocking_after:
  assumes "held_blocking profile key_id b" and "0 \<le> c"
  shows "held_blocking profile key_id (after_spend t p c k b)"
proof -
  have "current_spend b \<le> py_round 6 (current_spend b + c)"
    using assms by (intro py_round_add) (simp_all add: held_blocking_def)
  with assms show ?thesis
    by (auto simp: held_blocking_def blocking_def after_spend_def bstatus_charged exhausted_charged exhausted_def)
qed

definition named :: "billing \<Rightarrow> bool" where
  "named bl \<longleftrightarrow> (\<forall>b \<in> set (budgets bl). bname b \<noteq> [])"

lemma spend_keeps_named: "named bl \<Longrightarrow> named (snd (spend_step s bl))"
  by (rule spend_step_cases[of s bl]) (auto simp: named_def after_spend_def)

lemma spend_keeps_blocking:
  assumes "0 \<le> sp_cost s" and "\<exists>b \<in> set (budgets bl). held_blocking profile key_id b"
  shows "\<exists>b \<in> set (budgets (snd (spend_step s bl))). held_blocking profile key_id b"
proof (rule spend_step_cases[of s bl])
  assume "spend_step s bl = ([], bl)"
  with assms(2) show ?thesis by simp
next
  fix ks
  assume e: "spend_step s bl =
      (concat (map (fired_by (sp_stamp s) (sp_profile s) (sp_cost s) (sp_key s)) (budgets bl)),
       bl\<lparr>budgets := map (after_spend (sp_stamp s) (sp_profile s) (sp_cost s) (sp_key s)) (budgets bl), client_keys := ks\<rparr>)"
  from assms(2) obtain b where "b \<in> set (budgets bl)" "held_blocking profile key_id b" by blast
  with assms(1) show ?thesis unfolding e by (auto intro: held_blocking_after)
qed

interpretation full_budget: stable_fact "\<lambda>s bl. snd (spend_step s bl)"
  "\<lambda>bl. named bl \<and> (\<exists>b \<in> set (budgets bl). held_blocking profile key_id b)" "\<lambda>s. 0 \<le> sp_cost s"
  for profile key_id
  by unfold_locales (blast intro: spend_keeps_named spend_keeps_blocking)

lemma blocked_if_blocking:
  assumes "named bl" and "b \<in> set (budgets bl)" and "blocking profile key_id b"
  shows "is_blocked True profile key_id bl"
proof (cases "find (blocking profile key_id) (budgets bl)")
  case None
  with assms show ?thesis by (auto simp: find_None_iff)
next
  case (Some x)
  then have "x \<in> set (budgets bl)" by (auto simp: find_Some_iff)
  with assms(1) Some show ?thesis by (simp add: is_blocked_def check_budget_block_def named_def)
qed

text \<open>
  C7: a blocking budget, once exhausted, refuses every further request in its scope, whatever is
  spent meanwhile and by whom, as long as the database answers and every budget has a name.
\<close>

theorem exhausted_budget_blocks:
  assumes "b \<in> set (budgets bl)" and "blocking profile key_id b"
    and "py_round 6 (current_spend b) = current_spend b"
    and "\<forall>x \<in> set (budgets bl). bname x \<noteq> []" and "\<forall>s \<in> set ss. 0 \<le> sp_cost s"
  shows "is_blocked True profile key_id (snd (spend_run ss bl))"
proof -
  have "named bl \<and> (\<exists>b \<in> set (budgets bl). held_blocking profile key_id b)"
    using assms by (auto simp: named_def held_blocking_def)
  from full_budget.run_keeps[OF assms(5) this] show ?thesis
    unfolding snd_spend_run by (auto simp: held_blocking_def intro: blocked_if_blocking)
qed

definition demo_budget :: budget where
  "demo_budget = \<lparr>bid = 1, bname = ''team'', bkey_id = None, bprofile = Some ''default'', amount = 10,
     current_spend = 8, period = ''monthly'', threshold_pct = ''80,100'', action = ''block'',
     bstatus = ''active'', bcreated_at = ''epoch'', last_alert_at = None\<rparr>"

definition demo_billing :: "budget list \<Rightarrow> billing" where
  "demo_billing bs = \<lparr>budgets = bs, client_keys = demo_keys\<rparr>"

definition demo_spend :: "real \<Rightarrow> spend" where
  "demo_spend c = \<lparr>sp_up = True, sp_stamp = ''later'', sp_profile = ''default'', sp_cost = c, sp_key = None\<rparr>"

lemma thresholds_demo: "thresholds ''80,100'' = Some [80, 100]" "thresholds ''80%'' = None"
  by code_simp+

lemma round_int [simp]: "py_round n (of_int k) = of_int k"
proof -
  have "of_int k * (10::real) ^ n = of_int (k * 10 ^ n)" by simp
  then show ?thesis unfolding py_round_def by (simp only: round_even_of_int) simp
qed

lemma round_numeral [simp]: "py_round n (numeral k) = numeral k"
  using round_int[of n "numeral k"] by simp

theorem exhausted_budget_blocks_witness:
  "is_blocked True ''default'' None
     (snd (spend_run [demo_spend 1, demo_spend 7] (demo_billing [demo_budget\<lparr>current_spend := 11\<rparr>])))"
  by (rule exhausted_budget_blocks[where b = "demo_budget\<lparr>current_spend := 11\<rparr>"])
    (simp_all add: demo_billing_def demo_spend_def demo_budget_def blocking_def budget_matches_def exhausted_def)

text \<open>
  a budget without a name, which is what the create endpoint makes of a request that gives
  none, blocks nothing: the check answers with its empty name and the callers test the answer for
  truth.  As the check stops at the first exhausted budget, it also hides every later one.
\<close>

theorem unnamed_budget_never_blocks:
  assumes "budgets bl = before @ b # after" and "\<forall>x \<in> set before. \<not> blocking profile key_id x"
    and "blocking profile key_id b" and "bname b = []"
  shows "check_budget_block True profile key_id bl = Some [] \<and> \<not> is_blocked up profile key_id bl"
proof -
  have "find (blocking profile key_id) (before @ b # after) = Some b"
    using assms(2,3) by (induction before) auto
  with assms(1,4) show ?thesis
    by (cases up) (simp_all add: is_blocked_def check_budget_block_def)
qed

definition demo_patch :: budget_patch where
  "demo_patch = \<lparr>p_name = None, p_key_id = None, p_profile = Some (Some ''default''), p_amount = Some 10,
     p_period = None, p_threshold_pct = None, p_action = Some ''block'', p_status = None\<rparr>"

lemma demo_created:
  "snd (serve_budget_create ''epoch'' demo_patch (demo_billing [])) = demo_billing [demo_budget\<lparr>bname := [],
     current_spend := 0, threshold_pct := ''80''\<rparr>]"
  by (simp add: serve_budget_create_def new_budget_def demo_patch_def demo_billing_def demo_budget_def
    or_default_def next_id_def Let_def)

lemma thresholds_80: "thresholds ''80'' = Some [80]"
  by code_simp

lemma demo_created_spent:
  "budgets (snd (spend_run [demo_spend 12] (demo_billing [demo_budget\<lparr>bname := [], current_spend := 0,
       threshold_pct := ''80''\<rparr>]))) =
     [demo_budget\<lparr>bname := [], current_spend := 12, threshold_pct := ''80'', bstatus := ''exceeded'',
       last_alert_at := Some ''later''\<rparr>]"
proof -
  have "budgets (snd (spend_step (demo_spend 12) (demo_billing [demo_budget\<lparr>bname := [], current_spend := 0,
       threshold_pct := ''80''\<rparr>]))) = map (after_spend ''later'' ''default'' 12 None)
      [demo_budget\<lparr>bname := [], current_spend := 0, threshold_pct := ''80''\<rparr>]"
    by (subst spend_step_readable)
      (simp_all add: demo_spend_def demo_billing_def demo_budget_def unreadable_def thresholds_80)
  then show ?thesis
    by (simp add: split_beta Let_def after_spend_def counted_def budget_matches_def charged_def exhausted_def
      demo_budget_def)
qed

theorem unnamed_budget_never_blocks_witness:
  "\<not> is_blocked True ''default'' None
     (snd (spend_run [demo_spend 12] (snd (serve_budget_create ''epoch'' demo_patch (demo_billing [])))))"
  using unnamed_budget_never_blocks[where before = "[]" and after = "[]" and profile = "''default''"
      and key_id = None and up = True,
      OF trans[OF demo_created_spent append_Nil[symmetric]]]
  unfolding demo_created
  by (simp add: demo_budget_def blocking_def budget_matches_def exhausted_def)

subsection \<open>A budget stops counting when it is exceeded\<close>

lemma frozen_after: "bstatus b \<noteq> ''active'' \<Longrightarrow> after_spend t p c k b = b"
  by (simp add: after_spend_def counted_def)

lemma spend_keeps_frozen:
  "bstatus b \<noteq> ''active'' \<Longrightarrow> b \<in> set (budgets bl) \<Longrightarrow> b \<in> set (budgets (snd (spend_step s bl)))"
  by (rule spend_step_cases[of s bl]) (force simp: frozen_after)+

interpretation frozen_budget: stable_fact "\<lambda>s bl. snd (spend_step s bl)"
  "\<lambda>bl. bstatus b \<noteq> ''active'' \<and> b \<in> set (budgets bl)" "\<lambda>_. True" for b
  by unfold_locales (blast intro: spend_keeps_frozen)

text \<open>
  Also: raising the limit of an exceeded budget switches it off.  The update endpoint changes the
  amount and leaves the status, spends count active budgets only, and the check compares the frozen
  spend with the new amount: whatever is spent afterwards, the row never changes and never blocks.
\<close>

theorem raised_budget_never_counts_again:
  assumes "find (\<lambda>b. bid b = i) (budgets bl) = Some b" and "py_int budget_id = Some i"
    and "bstatus b = ''exceeded''" and "current_spend b < a"
    and "p = \<lparr>p_name = None, p_key_id = None, p_profile = None, p_amount = Some a, p_period = None,
           p_threshold_pct = None, p_action = None, p_status = None\<rparr>"
  shows "fst (serve_budget_update budget_id p bl) = 200 \<and>
     b\<lparr>amount := a\<rparr> \<in> set (budgets (snd (spend_run ss (snd (serve_budget_update budget_id p bl))))) \<and>
     \<not> blocking profile key_id (b\<lparr>amount := a\<rparr>)"
proof -
  obtain before after where split: "budgets bl = before @ b # after" and i: "bid b = i"
      and none: "\<forall>x \<in> set before. bid x \<noteq> i"
    using assms(1) by (rule find_split) simp
  have upd: "serve_budget_update budget_id p bl = (200, bl\<lparr>budgets := before @ patch_budget p b # after\<rparr>)"
    using assms(1,2) split i none by (simp add: serve_budget_update_def update_first_split)
  have patched: "patch_budget p b = b\<lparr>amount := a\<rparr>"
    by (simp add: assms(5) patch_budget_def patch_common_def or_default_def)
  have "bstatus (b\<lparr>amount := a\<rparr>) \<noteq> ''active'' \<and>
      b\<lparr>amount := a\<rparr> \<in> set (budgets (fold (\<lambda>s bl. snd (spend_step s bl)) ss
        (bl\<lparr>budgets := before @ patch_budget p b # after\<rparr>)))"
    by (rule frozen_budget.run_keeps) (simp_all add: patched assms(3))
  then show ?thesis
    unfolding upd snd_spend_run using assms(4) by (simp add: blocking_def exhausted_def)
qed

lemma py_int_1: "py_int ''1'' = Some 1"
  by code_simp

theorem raised_budget_never_counts_again_witness:
  "demo_budget\<lparr>current_spend := 12, bstatus := ''exceeded'', amount := 20\<rparr> \<in>
     set (budgets (snd (spend_run [demo_spend 1000] (snd (serve_budget_update ''1''
       \<lparr>p_name = None, p_key_id = None, p_profile = None, p_amount = Some 20, p_period = None,
           p_threshold_pct = None, p_action = None, p_status = None\<rparr>
       (demo_billing [demo_budget\<lparr>current_spend := 12, bstatus := ''exceeded''\<rparr>]))))))"
  using raised_budget_never_counts_again[where i = 1 and budget_id = "''1''" and a = 20
      and bl = "demo_billing [demo_budget\<lparr>current_spend := 12, bstatus := ''exceeded''\<rparr>]"
      and b = "demo_budget\<lparr>current_spend := 12, bstatus := ''exceeded''\<rparr>" and ss = "[demo_spend 1000]",
      OF _ py_int_1 _ _ refl]
  by (simp add: demo_billing_def demo_budget_def)

subsection \<open>Until then every spend is counted\<close>










text \<open>
  Also: one unreadable threshold list stops the accounting of everybody.  If an active budget without
  a profile and a key has a limit and a threshold that is not an integer, the exception it raises
  rolls the whole transaction back: no spend of any request changes any budget or fires anything.
\<close>

theorem unreadable_threshold_stops_accounting:
  assumes "b \<in> set (budgets bl)" and "unreadable b" and "bstatus b = ''active''"
    and "bprofile b = None" and "bkey_id b = None"
  shows "spend_run ss bl = ([], bl)"
proof (induction ss)
  case Nil
  then show ?case by simp
next
  case (Cons s ss)
  have "counted (sp_profile s) (sp_key s) b"
    using assms by (simp add: counted_def budget_matches_def split: option.split)
  then have "charge_all (sp_stamp s) (sp_profile s) (sp_cost s) (sp_key s) (budgets bl) (client_keys bl) = None"
    using assms(1,2) charge_all_None by blast
  then have "spend_step s bl = ([], bl)"
    by (simp add: spend_step_def increment_budget_spend_def)
  with Cons show ?case by simp
qed

theorem unreadable_threshold_stops_accounting_witness:
  "spend_run [demo_spend 1] (demo_billing [demo_budget, demo_budget\<lparr>bid := 2, bprofile := None, threshold_pct := ''80%''\<rparr>]) =
     ([], demo_billing [demo_budget, demo_budget\<lparr>bid := 2, bprofile := None, threshold_pct := ''80%''\<rparr>])"
  by (rule unreadable_threshold_stops_accounting[where b = "demo_budget\<lparr>bid := 2, bprofile := None, threshold_pct := ''80%''\<rparr>"])
    (simp_all add: demo_billing_def demo_budget_def unreadable_def thresholds_demo)

subsection \<open>A threshold fires once\<close>

definition hits :: "int \<Rightarrow> int \<Rightarrow> breach list \<Rightarrow> nat" where
  "hits i t fired = length (filter (\<lambda>r. br_budget_id r = i \<and> br_threshold r = t) fired)"

definition passed :: "int \<Rightarrow> int \<Rightarrow> budget list \<Rightarrow> bool" where
  "passed i t bs \<longleftrightarrow> (\<exists>b \<in> set bs. bid b = i \<and> 0 < amount b \<and> of_int t \<le> current_spend b / amount b * 100)"

definition budgets_ok :: "budget list \<Rightarrow> bool" where
  "budgets_ok bs \<longleftrightarrow> distinct (map bid bs) \<and>
     (\<forall>b \<in> set bs. py_round 6 (current_spend b) = current_spend b \<and>
        (case thresholds (threshold_pct b) of None \<Rightarrow> True | Some ts \<Rightarrow> distinct ts))"

lemma hits_simps [simp]:
  "hits i t [] = 0"
  "hits i t (xs @ ys) = hits i t xs + hits i t ys"
  by (simp_all add: hits_def)

lemma after_spend_sel [simp]:
  "bid (after_spend st p c k b) = bid b" "amount (after_spend st p c k b) = amount b"
  "threshold_pct (after_spend st p c k b) = threshold_pct b"
  by (simp_all add: after_spend_def)

lemma after_spend_rounded:
  "py_round 6 (current_spend b) = current_spend b \<Longrightarrow>
   py_round 6 (current_spend (after_spend st p c k b)) = current_spend (after_spend st p c k b)"
  by (simp add: after_spend_def)

lemma after_spend_mono:
  "py_round 6 (current_spend b) = current_spend b \<Longrightarrow> 0 \<le> c \<Longrightarrow>
   current_spend b \<le> current_spend (after_spend st p c k b)"
  by (simp add: after_spend_def py_round_add)

lemma hits_crossed:
  "hits i t (crossed b old ts) =
     (if bid b = i \<and> old / amount b * 100 < of_int t \<and> of_int t \<le> current_spend b / amount b * 100
      then count_list ts t else 0)"
  by (induction ts) (auto simp: hits_def crossed_def Let_def)

lemma hits_other: "bid b \<noteq> i \<Longrightarrow> hits i t (fired_by st p c k b) = 0"
  by (simp add: fired_by_def hits_crossed split: option.split)

lemma count_list_distinct: "distinct ts \<Longrightarrow> count_list ts t \<le> 1"
  by (induction ts) (auto simp: count_list_0_iff)

lemma hits_row:
  assumes "case thresholds (threshold_pct b) of None \<Rightarrow> True | Some ts \<Rightarrow> distinct ts"
  shows "hits i t (fired_by st p c k b) \<le>
    (if bid b = i \<and> 0 < amount b \<and> current_spend b / amount b * 100 < of_int t \<and>
        of_int t \<le> current_spend (after_spend st p c k b) / amount b * 100 then 1 else 0)"
  using assms count_list_distinct[of _ t]
  by (auto simp: fired_by_def after_spend_def hits_crossed split: option.splits)

lemma hits_rows:
  assumes "budgets_ok bs"
  shows "hits i t (concat (map (fired_by st p c k) bs)) \<le>
    (if \<not> passed i t bs \<and> passed i t (map (after_spend st p c k) bs) then 1 else 0)"
proof (cases "\<exists>b \<in> set bs. bid b = i")
  case False
  then have "\<forall>b \<in> set bs. hits i t (fired_by st p c k b) = 0" by (auto intro: hits_other)
  then have "hits i t (concat (map (fired_by st p c k) bs)) = 0" by (induction bs) simp_all
  then show ?thesis by simp
next
  case True
  then obtain b before after where bs: "bs = before @ b # after" and b: "bid b = i"
    by (metis split_list)
  have others: "\<forall>x \<in> set before \<union> set after. bid x \<noteq> i"
    using assms b by (auto simp: bs budgets_ok_def image_iff)
  have none: "hits i t (concat (map (fired_by st p c k) xs)) = 0" if "\<forall>x \<in> set xs. bid x \<noteq> i" for xs
    using that by (induction xs) (simp_all add: hits_other)
  have eq: "hits i t (concat (map (fired_by st p c k) bs)) = hits i t (fired_by st p c k b)"
    unfolding bs using others none[of before] none[of after] by simp
  have p1: "passed i t bs \<longleftrightarrow> 0 < amount b \<and> of_int t \<le> current_spend b / amount b * 100"
    unfolding bs passed_def using others b by auto
  have p2: "passed i t (map (after_spend st p c k) bs) \<longleftrightarrow>
      0 < amount b \<and> of_int t \<le> current_spend (after_spend st p c k b) / amount b * 100"
    unfolding bs passed_def using others b by auto
  have "case thresholds (threshold_pct b) of None \<Rightarrow> True | Some ts \<Rightarrow> distinct ts"
    using assms by (simp add: bs budgets_ok_def)
  from hits_row[OF this, of i t st p c k] show ?thesis
    unfolding eq p1 p2 by (auto split: if_splits)
qed

lemma budgets_ok_after: "budgets_ok bs \<Longrightarrow> budgets_ok (map (after_spend st p c k) bs)"
  by (simp add: budgets_ok_def comp_def after_spend_rounded)

lemma passed_after:
  assumes "budgets_ok bs" and "0 \<le> c" and "passed i t bs"
  shows "passed i t (map (after_spend st p c k) bs)"
proof -
  obtain b where b: "b \<in> set bs" "bid b = i" "0 < amount b" "of_int t \<le> current_spend b / amount b * 100"
    using assms(3) by (auto simp: passed_def)
  have "current_spend b \<le> current_spend (after_spend st p c k b)"
    using assms(1,2) b(1) by (intro after_spend_mono) (auto simp: budgets_ok_def)
  then have "current_spend b / amount b * 100 \<le> current_spend (after_spend st p c k b) / amount b * 100"
    using b(3) by (intro mult_right_mono divide_right_mono) simp_all
  with b(4) have le: "of_int t \<le> current_spend (after_spend st p c k b) / amount b * 100" by linarith
  with b show ?thesis unfolding passed_def by (auto intro!: bexI[of _ b])
qed

lemma hits_run:
  assumes "budgets_ok (budgets bl)" and "\<forall>s \<in> set ss. 0 \<le> sp_cost s"
  shows "hits i t (fst (spend_run ss bl)) \<le> (if passed i t (budgets bl) then 0 else 1)"
  using assms
proof (induction ss arbitrary: bl)
  case Nil
  then show ?case by simp
next
  case (Cons s ss)
  have pos: "0 \<le> sp_cost s" "\<forall>s \<in> set ss. 0 \<le> sp_cost s" using Cons.prems(2) by simp_all
  have unf: "hits i t (fst (spend_run (s # ss) bl)) =
      hits i t (fst (spend_step s bl)) + hits i t (fst (spend_run ss (snd (spend_step s bl))))"
    by (simp add: split_beta Let_def)
  show ?case
  proof (rule spend_step_cases[of s bl])
    assume "spend_step s bl = ([], bl)"
    with Cons.IH[OF Cons.prems(1) pos(2)] show ?thesis unfolding unf by simp
  next
    fix ks
    let ?f = "after_spend (sp_stamp s) (sp_profile s) (sp_cost s) (sp_key s)"
    assume e: "spend_step s bl =
      (concat (map (fired_by (sp_stamp s) (sp_profile s) (sp_cost s) (sp_key s)) (budgets bl)),
       bl\<lparr>budgets := map ?f (budgets bl), client_keys := ks\<rparr>)"
    have now: "hits i t (fst (spend_step s bl)) \<le>
        (if \<not> passed i t (budgets bl) \<and> passed i t (map ?f (budgets bl)) then 1 else 0)"
      unfolding e using hits_rows[OF Cons.prems(1)] by simp
    have later: "hits i t (fst (spend_run ss (snd (spend_step s bl)))) \<le>
        (if passed i t (map ?f (budgets bl)) then 0 else 1)"
      using Cons.IH[of "snd (spend_step s bl)"] Cons.prems(1) pos(2)
      unfolding e by (simp add: budgets_ok_after)
    have "passed i t (budgets bl) \<Longrightarrow> passed i t (map ?f (budgets bl))"
      using Cons.prems(1) pos(1) by (rule passed_after)
    with now later show ?thesis unfolding unf by (auto split: if_splits)
  qed
qed

text \<open>
  Also: over any run of spends a threshold of a budget is reported at most once, and not at all when
  the budget had passed it before, whatever else is spent and however the database fails.
\<close>

theorem threshold_fires_once:
  assumes "budgets_ok (budgets bl)" and "\<forall>s \<in> set ss. 0 \<le> sp_cost s"
  shows "hits i t (fst (spend_run ss bl)) \<le> 1 \<and>
     (passed i t (budgets bl) \<longrightarrow> hits i t (fst (spend_run ss bl)) = 0)"
  using hits_run[OF assms, of i t] by (auto split: if_splits)

theorem threshold_fires_once_witness:
  "hits 1 80 (fst (spend_run [demo_spend 1, demo_spend 1, demo_spend 1] (demo_billing [demo_budget\<lparr>current_spend := 7\<rparr>]))) \<le> 1"
  using threshold_fires_once[where bl = "demo_billing [demo_budget\<lparr>current_spend := 7\<rparr>]"
      and ss = "[demo_spend 1, demo_spend 1, demo_spend 1]" and i = 1 and t = 80]
  by (simp add: demo_billing_def demo_spend_def demo_budget_def budgets_ok_def thresholds_demo)

end
