(* ===== verification/Alert_Manager.thy ===== *)
theory Alert_Manager
  imports Json_Values Py_Numbers Tables
begin

section \<open>Alerts (src/api/alert\_manager.py)\<close>

text \<open>
  Firing with its three gates (rule, severity, cooldown), the bounded history, the active alerts, the
  alert table, resolution, acknowledgement, listing and the webhook.  The history and the active map
  share one dictionary per alert, which resolving and acknowledging change in place: alerts live in an
  object store and both structures hold references.  One clock reading serves an operation, with its
  ISO text; a failing database is a flag; the webhook's background thread is an outbox.
\<close>

record alert =
  al_id :: "int option"
  al_dedup :: string
  al_rule :: string
  al_severity :: string
  al_title :: string
  al_message :: string
  al_metadata :: obj
  al_status :: string
  al_ack :: bool
  al_ack_at :: "string option"
  al_resolved_at :: "string option"
  al_timestamp :: string

record alert_config =
  webhook_url :: json
  webhook_secret :: json
  hooks_enabled :: json
  rules :: "(string, obj) dict"

record alert_db =
  alert_rows :: "alert list"
  alerts_up :: bool

record alert_mgr =
  engine :: "alert_db option"
  aconfig :: alert_config
  objs :: "alert list"
  history :: "nat list"
  active :: "(string, nat) dict"
  last_fire :: "(string, real) dict"
  cooldown_seconds :: int
  outbox :: "(string \<times> json \<times> obj) list"

definition default_rules :: "(string, obj) dict" where
  "default_rules =
    [(''budget_breach'', [(''enabled'', JBool True), (''min_severity'', JStr ''warning'')]),
     (''provider_dead'', [(''enabled'', JBool True), (''min_severity'', JStr ''critical'')]),
     (''provider_degraded'', [(''enabled'', JBool True), (''min_severity'', JStr ''warning'')]),
     (''error_spike'', [(''enabled'', JBool False), (''min_severity'', JStr ''warning''),
        (''threshold'', JNum 10), (''window_minutes'', JNum 5)]),
     (''circuit_breaker_trip'', [(''enabled'', JBool True), (''min_severity'', JStr ''warning'')]),
     (''circuit_breaker_recovery'', [(''enabled'', JBool True), (''min_severity'', JStr ''info'')])]"

definition new_alert_mgr :: "alert_db option \<Rightarrow> alert_mgr" where
  "new_alert_mgr db = \<lparr>engine = db,
     aconfig = \<lparr>webhook_url = JStr [], webhook_secret = JStr [], hooks_enabled = JBool False, rules = default_rules\<rparr>,
     objs = [], history = [], active = [], last_fire = [], cooldown_seconds = 300, outbox = []\<rparr>"

subsection \<open>Configuration\<close>

text \<open>The fields present in an update; the rule updates are objects.\<close>

record config_patch =
  cp_url :: "json option"
  cp_secret :: "json option"
  cp_enabled :: "json option"
  cp_rules :: "(string, obj) dict option"
  cp_cooldown :: "json option"

definition merge_rule :: "string \<times> obj \<Rightarrow> (string, obj) dict \<Rightarrow> (string, obj) dict" where
  "merge_rule u rs = (case map_of rs (fst u) of
      None \<Rightarrow> rs
    | Some cfg \<Rightarrow> AList.update (fst u) (fold (\<lambda>(k, v). AList.update k v) (snd u) cfg) rs)"

definition update_config :: "config_patch \<Rightarrow> alert_mgr \<Rightarrow> py_exn option \<times> alert_mgr" where
  "update_config p am =
     (let c = aconfig am;
          c' = c\<lparr>webhook_url := (case cp_url p of None \<Rightarrow> webhook_url c | Some v \<Rightarrow> v),
                 webhook_secret := (case cp_secret p of None \<Rightarrow> webhook_secret c | Some v \<Rightarrow> v),
                 hooks_enabled := (case cp_enabled p of None \<Rightarrow> hooks_enabled c | Some v \<Rightarrow> v),
                 rules := (case cp_rules p of None \<Rightarrow> rules c | Some us \<Rightarrow> fold merge_rule us (rules c))\<rparr>;
          am' = am\<lparr>aconfig := c'\<rparr>
      in case cp_cooldown p of
           None \<Rightarrow> (None, am')
         | Some v \<Rightarrow> (case int_of_json v of
             Inl e \<Rightarrow> (Some e, am')
           | Inr i \<Rightarrow> (None, am'\<lparr>cooldown_seconds := i\<rparr>)))"

subsection \<open>Firing\<close>

definition severities :: "(string, nat) dict" where
  "severities = [(''info'', 0), (''warning'', 1), (''critical'', 2)]"

text \<open>\<open>severities.get(v, 0)\<close> for the configured value, which need not be a string.\<close>

definition severity_rank :: "json \<Rightarrow> nat res" where
  "severity_rank v = (if \<not> hashable v then Inl TypeError
     else Inr (case v of JStr s \<Rightarrow> dget severities s 0 | _ \<Rightarrow> 0))"

definition alert_obj :: "alert \<Rightarrow> obj" where
  "alert_obj a =
    [(''dedup_key'', JStr (al_dedup a)), (''rule'', JStr (al_rule a)), (''severity'', JStr (al_severity a)),
     (''title'', JStr (al_title a)), (''message'', JStr (al_message a)), (''metadata'', JObj (al_metadata a)),
     (''status'', JStr (al_status a)), (''acknowledged'', JBool (al_ack a)),
     (''timestamp'', JStr (al_timestamp a))]"

definition dispatch_webhook :: "obj \<Rightarrow> alert_mgr \<Rightarrow> py_exn option \<times> alert_mgr" where
  "dispatch_webhook payload am =
     (if \<not> truthy (hooks_enabled (aconfig am)) then (None, am)
      else case webhook_url (aconfig am) of
        JStr u \<Rightarrow> (if strip u = [] then (None, am)
                  else (None, am\<lparr>outbox := outbox am @ [(strip u, webhook_secret (aconfig am), payload)]\<rparr>))
      | _ \<Rightarrow> (Some AttributeError, am))"

definition persist_alert :: "alert \<Rightarrow> alert_mgr \<Rightarrow> alert_mgr" where
  "persist_alert a am = (case engine am of
      None \<Rightarrow> am
    | Some db \<Rightarrow> if alerts_up db
        then am\<lparr>engine := Some (db\<lparr>alert_rows := alert_rows db @
          [a\<lparr>al_id := Some (int (length (alert_rows db)) + 1)\<rparr>]\<rparr>)\<rparr>
        else am)"

definition keep_last :: "nat \<Rightarrow> 'a list \<Rightarrow> 'a list" where
  "keep_last n xs = (if n < length xs then drop (length xs - n) xs else xs)"

record fire_request =
  fr_now :: real
  fr_stamp :: string
  fr_rule :: string
  fr_severity :: string
  fr_title :: string
  fr_message :: string
  fr_dedup :: string
  fr_metadata :: obj

definition rule_cfg :: "string \<Rightarrow> alert_mgr \<Rightarrow> obj" where
  "rule_cfg rule am = dget (rules (aconfig am)) rule []"

definition cooling :: "fire_request \<Rightarrow> alert_mgr \<Rightarrow> bool" where
  "cooling r am \<longleftrightarrow> fr_dedup r \<noteq> [] \<and>
     fr_now r - dget (last_fire am) (fr_dedup r) 0 < of_int (cooldown_seconds am)"

definition alert_of :: "fire_request \<Rightarrow> alert" where
  "alert_of r = \<lparr>al_id = None,
     al_dedup = (if fr_dedup r = []
       then fr_rule r @ '':'' @ fr_title r @ '':'' @ show_nat (nat (truncate_real (fr_now r))) else fr_dedup r),
     al_rule = fr_rule r, al_severity = fr_severity r, al_title = fr_title r, al_message = fr_message r,
     al_metadata = fr_metadata r, al_status = ''firing'', al_ack = False, al_ack_at = None,
     al_resolved_at = None, al_timestamp = fr_stamp r\<rparr>"

definition record_alert :: "fire_request \<Rightarrow> alert_mgr \<Rightarrow> alert_mgr" where
  "record_alert r am =
     (let am1 = (if fr_dedup r = [] then am
                 else am\<lparr>last_fire := AList.update (fr_dedup r) (fr_now r) (last_fire am)\<rparr>);
          ref = length (objs am1);
          am2 = am1\<lparr>objs := objs am1 @ [alert_of r], history := history am1 @ [ref],
                    active := AList.update (al_dedup (alert_of r)) ref (active am1)\<rparr>;
          am3 = persist_alert (alert_of r) am2
      in am3\<lparr>history := keep_last 500 (history am3)\<rparr>)"

definition fire :: "fire_request \<Rightarrow> alert_mgr \<Rightarrow> (py_exn + alert option) \<times> alert_mgr" where
  "fire r am =
     (let cfg = rule_cfg (fr_rule r) am in
      if \<not> truthy (dget cfg ''enabled'' (JBool True)) then (Inr None, am)
      else case severity_rank (dget cfg ''min_severity'' (JStr ''info'')) of
        Inl e \<Rightarrow> (Inl e, am)
      | Inr min_sev \<Rightarrow>
          if dget severities (fr_severity r) 0 < min_sev then (Inr None, am)
          else if cooling r am then (Inr None, am)
          else (case dispatch_webhook (alert_obj (alert_of r)) (record_alert r am) of
              (Some e, am') \<Rightarrow> (Inl e, am')
            | (None, am') \<Rightarrow> (Inr (Some (alert_of r)), am')))"

subsection \<open>Resolving and acknowledging\<close>

definition change_obj :: "nat \<Rightarrow> (alert \<Rightarrow> alert) \<Rightarrow> alert_mgr \<Rightarrow> alert_mgr" where
  "change_obj i f am = am\<lparr>objs := (objs am)[i := f (objs am ! i)]\<rparr>"

definition resolved :: "string \<Rightarrow> alert \<Rightarrow> alert" where
  "resolved stamp a = a\<lparr>al_status := ''resolved'', al_resolved_at := Some stamp\<rparr>"

definition acked :: "string \<Rightarrow> alert \<Rightarrow> alert" where
  "acked stamp a = a\<lparr>al_ack := True, al_ack_at := Some stamp\<rparr>"

definition resolve_memory :: "string \<Rightarrow> string \<Rightarrow> alert_mgr \<Rightarrow> bool \<times> alert_mgr" where
  "resolve_memory stamp k am = (case map_of (active am) k of
      None \<Rightarrow> (False, am)
    | Some i \<Rightarrow> (True, change_obj i (resolved stamp) (am\<lparr>active := AList.delete k (active am)\<rparr>)))"

text \<open>
  \<open>committed\<close> is what the row object's dictionary holds after the commit, which is what the
  webhook gets.  An exception of the webhook is caught by the handler of the database.
\<close>

definition resolve_alert :: "(alert \<Rightarrow> obj) \<Rightarrow> string \<Rightarrow> string \<Rightarrow> alert_mgr \<Rightarrow> bool \<times> alert_mgr" where
  "resolve_alert committed stamp k am =
     (let (found, am1) = resolve_memory stamp k am in
      case engine am1 of
        None \<Rightarrow> (found, am1)
      | Some db \<Rightarrow>
          if \<not> alerts_up db then (False, am1)
          else (case find (\<lambda>a. al_dedup a = k) (alert_rows db) of
              None \<Rightarrow> (found, am1)
            | Some a \<Rightarrow>
                let am2 = am1\<lparr>engine := Some (db\<lparr>alert_rows :=
                      update_first (\<lambda>a. al_dedup a = k) (resolved stamp) (alert_rows db)\<rparr>)\<rparr>
                in (case dispatch_webhook (committed (resolved stamp a)) am2 of
                    (Some e, am3) \<Rightarrow> (False, am3)
                  | (None, am3) \<Rightarrow> (True, am3))))"

definition acknowledge :: "string \<Rightarrow> string \<Rightarrow> alert_mgr \<Rightarrow> bool \<times> alert_mgr" where
  "acknowledge stamp k am =
     (let am1 = (case map_of (active am) k of None \<Rightarrow> am | Some i \<Rightarrow> change_obj i (acked stamp) am);
          known = (map_of (active am1) k \<noteq> None)
      in case engine am1 of
        None \<Rightarrow> (known, am1)
      | Some db \<Rightarrow>
          if \<not> alerts_up db then (False, am1)
          else (case find (\<lambda>a. al_dedup a = k) (alert_rows db) of
              None \<Rightarrow> (known, am1)
            | Some a \<Rightarrow> (True, am1\<lparr>engine := Some (db\<lparr>alert_rows :=
                update_first (\<lambda>a. al_dedup a = k) (acked stamp) (alert_rows db)\<rparr>)\<rparr>)))"

subsection \<open>Reading\<close>

text \<open>\<open>xs[:n]\<close> for an integer \<open>n\<close>.\<close>

definition slice_to :: "int \<Rightarrow> 'a list \<Rightarrow> 'a list" where
  "slice_to n xs = (if 0 \<le> n then take (nat n) xs else take (length xs - nat (- n)) xs)"

text \<open>Newest first; equal stamps keep their order in memory, as \<open>sorted(reverse=True)\<close> does.  In SQL
  a negative limit is no limit, and the order of equal stamps is not defined: the row order stands for it.\<close>

definition newest_first :: "alert list \<Rightarrow> alert list" where
  "newest_first as = rev (sort_key al_timestamp (rev as))"

definition with_status :: "string option \<Rightarrow> alert list \<Rightarrow> alert list" where
  "with_status st as = (case st of None \<Rightarrow> as | Some s \<Rightarrow> if s = [] then as else filter (\<lambda>a. al_status a = s) as)"

definition list_alerts :: "int \<Rightarrow> string option \<Rightarrow> alert_mgr \<Rightarrow> alert list" where
  "list_alerts limit st am = (case engine am of
      None \<Rightarrow> slice_to limit (newest_first (with_status st (map ((!) (objs am)) (history am))))
    | Some db \<Rightarrow> if alerts_up db
        then (let as = newest_first (with_status st (alert_rows db))
              in if limit < 0 then as else take (nat limit) as)
        else [])"

definition get_active_alerts :: "alert_mgr \<Rightarrow> alert list" where
  "get_active_alerts am = map (\<lambda>(k, i). objs am ! i) (active am)"

definition test_webhook :: "string \<Rightarrow> alert_mgr \<Rightarrow> py_exn option \<times> alert_mgr" where
  "test_webhook stamp am = dispatch_webhook
     [(''dedup_key'', JStr ''test''), (''rule'', JStr ''test''), (''severity'', JStr ''info''),
      (''title'', JStr ''Test Alert''), (''message'', JStr ''This is a test alert from LCP webhook.''),
      (''status'', JStr ''firing''), (''timestamp'', JStr stamp)] am"

subsection \<open>The state stays consistent\<close>

datatype alert_op =
    Fire fire_request
  | Resolve string string
  | Ack string string
  | Configure config_patch
  | TestHook string

fun alert_step :: "(alert \<Rightarrow> obj) \<Rightarrow> alert_op \<Rightarrow> alert_mgr \<Rightarrow> alert_mgr" where
  "alert_step committed (Fire r) am = snd (fire r am)"
| "alert_step committed (Resolve stamp k) am = snd (resolve_alert committed stamp k am)"
| "alert_step committed (Ack stamp k) am = snd (acknowledge stamp k am)"
| "alert_step committed (Configure p) am = snd (update_config p am)"
| "alert_step committed (TestHook stamp) am = snd (test_webhook stamp am)"

lemma dispatch_sel [simp]:
  "objs (snd (dispatch_webhook p am)) = objs am" "history (snd (dispatch_webhook p am)) = history am"
  "active (snd (dispatch_webhook p am)) = active am" "last_fire (snd (dispatch_webhook p am)) = last_fire am"
  "engine (snd (dispatch_webhook p am)) = engine am"
  "cooldown_seconds (snd (dispatch_webhook p am)) = cooldown_seconds am"
  "aconfig (snd (dispatch_webhook p am)) = aconfig am"
  by (simp_all add: dispatch_webhook_def split: json.split)

lemma persist_sel [simp]:
  "objs (persist_alert a am) = objs am" "history (persist_alert a am) = history am"
  "active (persist_alert a am) = active am" "last_fire (persist_alert a am) = last_fire am"
  "cooldown_seconds (persist_alert a am) = cooldown_seconds am" "aconfig (persist_alert a am) = aconfig am"
  by (simp_all add: persist_alert_def split: option.split)

lemma record_alert_sel:
  "objs (record_alert r am) = objs am @ [alert_of r]"
  "history (record_alert r am) = keep_last 500 (history am @ [length (objs am)])"
  "active (record_alert r am) = AList.update (al_dedup (alert_of r)) (length (objs am)) (active am)"
  "last_fire (record_alert r am) =
     (if fr_dedup r = [] then last_fire am else AList.update (fr_dedup r) (fr_now r) (last_fire am))"
  "cooldown_seconds (record_alert r am) = cooldown_seconds am"
  by (simp_all add: record_alert_def Let_def)

text \<open>A call of \<open>fire\<close> changes nothing, or records the alert and then calls the webhook.\<close>

definition gates_open :: "fire_request \<Rightarrow> alert_mgr \<Rightarrow> bool" where
  "gates_open r am \<longleftrightarrow> truthy (dget (rule_cfg (fr_rule r) am) ''enabled'' (JBool True)) \<and>
     (case severity_rank (dget (rule_cfg (fr_rule r) am) ''min_severity'' (JStr ''info'')) of
        Inl e \<Rightarrow> False | Inr m \<Rightarrow> m \<le> dget severities (fr_severity r) 0) \<and>
     \<not> cooling r am"

lemma fire_open:
  "gates_open r am \<Longrightarrow> snd (fire r am) = snd (dispatch_webhook (alert_obj (alert_of r)) (record_alert r am))"
  by (cases "severity_rank (dget (rule_cfg (fr_rule r) am) ''min_severity'' (JStr ''info''))")
    (simp_all add: fire_def gates_open_def Let_def split_beta split: option.split)

lemma fire_shut: "\<not> gates_open r am \<Longrightarrow> snd (fire r am) = am"
  by (cases "severity_rank (dget (rule_cfg (fr_rule r) am) ''min_severity'' (JStr ''info''))")
    (auto simp: fire_def gates_open_def Let_def)

lemma resolve_sel:
  "objs (snd (resolve_alert c t k am)) = objs (snd (resolve_memory t k am))"
  "history (snd (resolve_alert c t k am)) = history (snd (resolve_memory t k am))"
  "active (snd (resolve_alert c t k am)) = active (snd (resolve_memory t k am))"
  "last_fire (snd (resolve_alert c t k am)) = last_fire (snd (resolve_memory t k am))"
  "cooldown_seconds (snd (resolve_alert c t k am)) = cooldown_seconds (snd (resolve_memory t k am))"
proof -
  have fld: "f (snd (case p of (None, am3) \<Rightarrow> (True, am3) | (Some (e :: py_exn), am3) \<Rightarrow> (False, am3))) = f (snd p)"
    for f :: "alert_mgr \<Rightarrow> 'z" and p
    by (cases p) (simp split: option.split)
  show
    "objs (snd (resolve_alert c t k am)) = objs (snd (resolve_memory t k am))"
    "history (snd (resolve_alert c t k am)) = history (snd (resolve_memory t k am))"
    "active (snd (resolve_alert c t k am)) = active (snd (resolve_memory t k am))"
    "last_fire (snd (resolve_alert c t k am)) = last_fire (snd (resolve_memory t k am))"
    "cooldown_seconds (snd (resolve_alert c t k am)) = cooldown_seconds (snd (resolve_memory t k am))"
    by (simp_all add: resolve_alert_def Let_def split_beta fld split: option.split)
qed

definition alerts_inv :: "alert_mgr \<Rightarrow> bool" where
  "alerts_inv am \<longleftrightarrow> length (history am) \<le> 500 \<and> (\<forall>i \<in> set (history am). i < length (objs am)) \<and>
     dict_ok (active am) \<and>
     (\<forall>k i. map_of (active am) k = Some i \<longrightarrow>
        i < length (objs am) \<and> al_dedup (objs am ! i) = k \<and> al_status (objs am ! i) = ''firing'')"

lemma set_keep_last: "x \<in> set (keep_last n xs) \<Longrightarrow> x \<in> set xs"
  by (auto simp: keep_last_def split: if_splits dest: in_set_dropD)

lemma length_keep_last: "length (keep_last n xs) \<le> n"
  by (simp add: keep_last_def)

lemma alert_of_sel [simp]: "al_status (alert_of r) = ''firing''"
  by (simp add: alert_of_def)

lemma record_alert_inv: "alerts_inv am \<Longrightarrow> alerts_inv (record_alert r am)"
  unfolding alerts_inv_def record_alert_sel
  by (auto simp: length_keep_last update_conv' nth_append distinct_update less_Suc_eq split: if_splits
    dest!: set_keep_last)

lemma change_obj_sel [simp]:
  "history (change_obj i f am) = history am" "active (change_obj i f am) = active am"
  "last_fire (change_obj i f am) = last_fire am" "engine (change_obj i f am) = engine am"
  "cooldown_seconds (change_obj i f am) = cooldown_seconds am"
  "objs (change_obj i f am) = (objs am)[i := f (objs am ! i)]"
  by (simp_all add: change_obj_def)

lemma acked_sel [simp]: "al_dedup (acked t a) = al_dedup a" "al_status (acked t a) = al_status a"
  by (simp_all add: acked_def)

lemma resolve_memory_inv:
  assumes "alerts_inv am"
  shows "alerts_inv (snd (resolve_memory t k am))"
proof (cases "map_of (active am) k")
  case None
  with assms show ?thesis by (simp add: resolve_memory_def)
next
  case (Some i)
  have di: "al_dedup (objs am ! i) = k" using assms Some by (simp add: alerts_inv_def)
  have other: "j < length (objs am) \<and> al_dedup (objs am ! j) = k' \<and> al_status (objs am ! j) = ''firing'' \<and> j \<noteq> i"
    if "map_of (active am) k' = Some j" "k' \<noteq> k" for k' j
    using assms that di by (auto simp: alerts_inv_def)
  have upd: "(objs am)[i := a] ! j = objs am ! j" if "map_of (active am) k' = Some j" "k' \<noteq> k" for k' j a
    using other[OF that] by simp
  show ?thesis
    using assms other upd Some unfolding alerts_inv_def
    by (auto simp: resolve_memory_def delete_conv' distinct_delete simp del: map_of_eq_Some_iff split: if_splits)
qed

lemma ack_memory_inv:
  "alerts_inv am \<Longrightarrow> alerts_inv (case map_of (active am) k of None \<Rightarrow> am | Some i \<Rightarrow> change_obj i (acked t) am)"
  by (cases "map_of (active am) k") (auto simp: alerts_inv_def nth_list_update)

lemma acknowledge_inv:
  "alerts_inv (snd (acknowledge t k am)) =
   alerts_inv (case map_of (active am) k of None \<Rightarrow> am | Some i \<Rightarrow> change_obj i (acked t) am)"
  by (auto simp: acknowledge_def Let_def alerts_inv_def split: option.split)

lemma acknowledge_frame [simp]:
  "last_fire (snd (acknowledge t k am)) = last_fire am"
  "cooldown_seconds (snd (acknowledge t k am)) = cooldown_seconds am"
  by (auto simp: acknowledge_def Let_def split: option.split)

lemma resolve_memory_frame [simp]:
  "last_fire (snd (resolve_memory t k am)) = last_fire am"
  "cooldown_seconds (snd (resolve_memory t k am)) = cooldown_seconds am"
  by (auto simp: resolve_memory_def split: option.split)

lemma update_config_sel [simp]:
  "objs (snd (update_config p am)) = objs am" "history (snd (update_config p am)) = history am"
  "active (snd (update_config p am)) = active am" "last_fire (snd (update_config p am)) = last_fire am"
  "engine (snd (update_config p am)) = engine am"
  by (auto simp: update_config_def Let_def split: option.split sum.split)

lemma alerts_inv_cong:
  "objs a = objs b \<Longrightarrow> history a = history b \<Longrightarrow> active a = active b \<Longrightarrow> alerts_inv a = alerts_inv b"
  by (simp add: alerts_inv_def)

lemma alert_step_inv:
  assumes "alerts_inv am"
  shows "alerts_inv (alert_step committed x am)"
proof (cases x)
  case (Fire r)
  show ?thesis
  proof (cases "gates_open r am")
    case True
    have "alerts_inv (snd (dispatch_webhook (alert_obj (alert_of r)) (record_alert r am))) =
        alerts_inv (record_alert r am)"
      by (rule alerts_inv_cong) simp_all
    with True Fire record_alert_inv[OF assms] show ?thesis by (simp add: fire_open)
  next
    case False
    with Fire assms show ?thesis by (simp add: fire_shut)
  qed
next
  case (Resolve t k)
  have "alerts_inv (snd (resolve_alert committed t k am)) = alerts_inv (snd (resolve_memory t k am))"
    by (rule alerts_inv_cong) (simp_all add: resolve_sel)
  with Resolve resolve_memory_inv[OF assms] show ?thesis by simp
next
  case (Ack t k)
  with ack_memory_inv[OF assms] show ?thesis by (simp add: acknowledge_inv)
next
  case (Configure p)
  have "alerts_inv (snd (update_config p am)) = alerts_inv am" by (rule alerts_inv_cong) simp_all
  with Configure assms show ?thesis by simp
next
  case (TestHook t)
  have "alerts_inv (snd (test_webhook t am)) = alerts_inv am"
    unfolding test_webhook_def by (rule alerts_inv_cong) simp_all
  with TestHook assms show ?thesis by simp
qed

interpretation alert_state: stable_fact "alert_step committed" alerts_inv "\<lambda>_. True" for committed
  by unfold_locales (rule alert_step_inv)

lemma new_alert_mgr_inv: "alerts_inv (new_alert_mgr db)"
  by (simp add: alerts_inv_def new_alert_mgr_def)

text \<open>
  Also: after any sequence of operations the history holds at most 500 references to alerts that
  exist, and what is shown as active under a key is an alert with that key whose status is firing.
\<close>

theorem active_alerts_are_firing:
  "let am = fold (alert_step committed) ops (new_alert_mgr db) in
     length (history am) \<le> 500 \<and>
     list_all (\<lambda>a. al_status a = ''firing'') (get_active_alerts am) \<and>
     map al_dedup (get_active_alerts am) = keys (active am) \<and> distinct (keys (active am))"
proof -
  let ?am = "fold (alert_step committed) ops (new_alert_mgr db)"
  have inv: "alerts_inv ?am" by (rule alert_state.run_keeps) (simp_all add: new_alert_mgr_inv)
  have each: "al_dedup (objs ?am ! i) = k \<and> al_status (objs ?am ! i) = ''firing''"
    if "(k, i) \<in> set (active ?am)" for k i
    using inv that by (simp add: alerts_inv_def)
  show ?thesis
    unfolding Let_def get_active_alerts_def list_all_iff using inv each
    by (auto simp: alerts_inv_def)
qed

subsection \<open>Cooldown\<close>

text \<open>The times at which the alert of a key was fired, in a run.\<close>

fun fire_times :: "(alert \<Rightarrow> obj) \<Rightarrow> string \<Rightarrow> alert_op list \<Rightarrow> alert_mgr \<Rightarrow> real list" where
  "fire_times c k [] am = []"
| "fire_times c k (x # xs) am =
     (case x of
        Fire r \<Rightarrow> (if fr_dedup r = k \<and> gates_open r am then [fr_now r] else [])
      | _ \<Rightarrow> []) @ fire_times c k xs (alert_step c x am)"

definition keeps_cooldown :: "alert_op \<Rightarrow> bool" where
  "keeps_cooldown x \<longleftrightarrow> (case x of Configure p \<Rightarrow> cp_cooldown p = None | _ \<Rightarrow> True)"

lemma alert_step_last_fire:
  "last_fire (alert_step c x am) =
     (case x of
        Fire r \<Rightarrow> (if gates_open r am \<and> fr_dedup r \<noteq> [] then AList.update (fr_dedup r) (fr_now r) (last_fire am)
                  else last_fire am)
      | _ \<Rightarrow> last_fire am)"
proof (cases x)
  case (Fire r)
  then show ?thesis by (cases "gates_open r am") (simp_all add: fire_open fire_shut record_alert_sel)
qed (simp_all add: resolve_sel test_webhook_def)

lemma alert_step_cooldown:
  "keeps_cooldown x \<Longrightarrow> cooldown_seconds (alert_step c x am) = cooldown_seconds am"
proof (cases x)
  case (Fire r)
  then show ?thesis by (cases "gates_open r am") (simp_all add: fire_open fire_shut record_alert_sel)
qed (auto simp: resolve_sel test_webhook_def keeps_cooldown_def update_config_def Let_def)

lemma fire_times_spaced:
  assumes "k \<noteq> []" and "\<forall>x \<in> set xs. keeps_cooldown x" and "0 \<le> cooldown_seconds am"
  shows "sorted_wrt (\<lambda>a b. a + of_int (cooldown_seconds am) \<le> b) (fire_times c k xs am) \<and>
    (\<forall>t \<in> set (fire_times c k xs am). dget (last_fire am) k 0 + of_int (cooldown_seconds am) \<le> t)"
  using assms
proof (induction xs arbitrary: am)
  case Nil
  then show ?case by simp
next
  case (Cons x xs)
  let ?am = "alert_step c x am"
  have cool: "cooldown_seconds ?am = cooldown_seconds am"
    using Cons.prems by (intro alert_step_cooldown) simp
  have IH: "sorted_wrt (\<lambda>a b. a + of_int (cooldown_seconds am) \<le> b) (fire_times c k xs ?am)"
    "\<forall>t \<in> set (fire_times c k xs ?am). dget (last_fire ?am) k 0 + of_int (cooldown_seconds am) \<le> t"
    using Cons.IH[of ?am] Cons.prems cool by auto
  show ?case
  proof (cases "\<exists>r. x = Fire r \<and> fr_dedup r = k \<and> gates_open r am")
    case True
    then obtain r where x: "x = Fire r" "fr_dedup r = k" "gates_open r am" by blast
    have last: "dget (last_fire ?am) k 0 = fr_now r"
      unfolding alert_step_last_fire using x Cons.prems(1) by (simp add: update_conv')
    have "dget (last_fire am) k 0 + of_int (cooldown_seconds am) \<le> fr_now r"
      using x Cons.prems(1) by (simp add: gates_open_def cooling_def)
    with IH last x Cons.prems(3) show ?thesis by fastforce
  next
    case False
    have last: "dget (last_fire ?am) k 0 = dget (last_fire am) k 0"
      unfolding alert_step_last_fire using False Cons.prems(1)
      by (auto simp: update_conv' split: alert_op.split)
    have "fire_times c k (x # xs) am = fire_times c k xs ?am"
      using False by (auto split: alert_op.split)
    with IH last show ?thesis by simp
  qed
qed

text \<open>
  Also: the alerts of one key are at least the cooldown apart.  In any run that does not reconfigure
  the cooldown, any two firings of a non-empty key are separated by it.
\<close>

theorem alerts_of_a_key_are_spaced:
  assumes "k \<noteq> []" and "\<forall>x \<in> set ops. keeps_cooldown x" and "0 \<le> cooldown_seconds am"
  shows "sorted_wrt (\<lambda>a b. a + of_int (cooldown_seconds am) \<le> b) (fire_times committed k ops am)"
  using fire_times_spaced[OF assms, of committed] by blast

definition demo_fire :: "real \<Rightarrow> fire_request" where
  "demo_fire t = \<lparr>fr_now = t, fr_stamp = ''t'', fr_rule = ''budget_breach'', fr_severity = ''critical'',
     fr_title = ''over'', fr_message = ''over'', fr_dedup = ''b1'', fr_metadata = []\<rparr>"

definition demo_alerts :: alert_mgr where
  "demo_alerts = new_alert_mgr (Some \<lparr>alert_rows = [], alerts_up = True\<rparr>)"

lemma demo_gates:
  "300 \<le> t \<Longrightarrow> gates_open (demo_fire t) demo_alerts"
  by (simp add: gates_open_def demo_alerts_def new_alert_mgr_def rule_cfg_def default_rules_def demo_fire_def
    cooling_def severity_rank_def severities_def)

theorem alerts_of_a_key_are_spaced_witness:
  "sorted_wrt (\<lambda>a b. a + 300 \<le> b) (fire_times (\<lambda>a. []) ''b1''
     [Fire (demo_fire 1000), Fire (demo_fire 1100), Resolve ''t'' ''b1'', Fire (demo_fire 1300)] demo_alerts)"
  using alerts_of_a_key_are_spaced[where k = "''b1''" and am = demo_alerts and committed = "\<lambda>a. []"
      and ops = "[Fire (demo_fire 1000), Fire (demo_fire 1100), Resolve ''t'' ''b1'', Fire (demo_fire 1300)]"]
  by (simp add: keeps_cooldown_def demo_alerts_def new_alert_mgr_def)

text \<open>
  Also: what \<open>fire\<close> does, exactly.  It fires when the rule is enabled (unknown rules are), the
  severity reaches the rule's threshold and the key is not cooling down; then the alert is the newest
  of the history, active under its key, the last row of the table when the database works, and posted
  when webhooks are on.  Otherwise nothing at all changes.
\<close>

theorem fire_outcome:
  assumes "hashable (dget (rule_cfg (fr_rule r) am) ''min_severity'' (JStr ''info''))"
    and "webhook_url (aconfig am) = JStr u"
  shows "if gates_open r am
    then fst (fire r am) = Inr (Some (alert_of r)) \<and>
      objs (snd (fire r am)) = objs am @ [alert_of r] \<and>
      last (history (snd (fire r am))) = length (objs am) \<and>
      map_of (active (snd (fire r am))) (al_dedup (alert_of r)) = Some (length (objs am)) \<and>
      engine (snd (fire r am)) = engine (persist_alert (alert_of r) am) \<and>
      outbox (snd (fire r am)) = outbox am @ (if truthy (hooks_enabled (aconfig am)) \<and> strip u \<noteq> []
        then [(strip u, webhook_secret (aconfig am), alert_obj (alert_of r))] else [])
    else fire r am = (Inr None, am)"
proof -
  obtain m where m: "severity_rank (dget (rule_cfg (fr_rule r) am) ''min_severity'' (JStr ''info'')) = Inr m"
    using assms(1) by (simp add: severity_rank_def)
  have rec: "aconfig (record_alert r am) = aconfig am" "outbox (record_alert r am) = outbox am"
    "engine (record_alert r am) = engine (persist_alert (alert_of r) am)"
    by (auto simp: record_alert_def Let_def persist_alert_def split: option.split)
  have hist: "last (keep_last 500 (xs @ [n])) = n" for xs :: "nat list" and n
    by (simp add: keep_last_def last_drop)
  show ?thesis
  proof (cases "gates_open r am")
    case True
    then have fire: "fire r am = (case dispatch_webhook (alert_obj (alert_of r)) (record_alert r am) of
        (Some e, am') \<Rightarrow> (Inl e, am') | (None, am') \<Rightarrow> (Inr (Some (alert_of r)), am'))"
      using m by (simp add: fire_def gates_open_def Let_def)
    have "dispatch_webhook (alert_obj (alert_of r)) (record_alert r am) =
        (None, (record_alert r am)\<lparr>outbox := outbox am @ (if truthy (hooks_enabled (aconfig am)) \<and> strip u \<noteq> []
        then [(strip u, webhook_secret (aconfig am), alert_obj (alert_of r))] else [])\<rparr>)"
      using assms(2) rec by (simp add: dispatch_webhook_def)
    with True fire show ?thesis by (simp add: record_alert_sel rec hist update_conv')
  next
    case False
    then show ?thesis using m by (auto simp: fire_def gates_open_def Let_def)
  qed
qed

theorem fire_outcome_witness:
  "fst (fire (demo_fire 1000) demo_alerts) = Inr (Some (alert_of (demo_fire 1000)))"
proof -
  have "hashable (dget (rule_cfg (fr_rule (demo_fire 1000)) demo_alerts) ''min_severity'' (JStr ''info''))"
    "webhook_url (aconfig demo_alerts) = JStr []"
    by (simp_all add: demo_alerts_def new_alert_mgr_def rule_cfg_def default_rules_def demo_fire_def)
  from fire_outcome[OF this] demo_gates[of 1000] show ?thesis by simp
qed

subsection \<open>Rows of the alert table that stay open\<close>

text \<open>Two rows with one key: the later one is beyond the reach of every operation.\<close>

definition second_row :: "nat \<Rightarrow> nat \<Rightarrow> alert \<Rightarrow> alert_mgr \<Rightarrow> bool" where
  "second_row i j a am \<longleftrightarrow> i < j \<and> (\<exists>db. engine am = Some db \<and> j < length (alert_rows db) \<and>
     alert_rows db ! j = a \<and> al_dedup (alert_rows db ! i) = al_dedup a)"

lemma resolved_sel [simp]: "al_dedup (resolved t a) = al_dedup a"
  by (simp add: resolved_def)

lemma second_row_update:
  assumes "second_row i j a am" and "engine am = Some db" and "\<And>r. al_dedup (f r) = al_dedup r"
  shows "second_row i j a (am\<lparr>engine := Some (db\<lparr>alert_rows := update_first (\<lambda>a. al_dedup a = k) f (alert_rows db)\<rparr>)\<rparr>)"
proof -
  from assms have ij: "i < j" and j: "j < length (alert_rows db)" and a: "alert_rows db ! j = a"
    and d: "al_dedup (alert_rows db ! i) = al_dedup a"
    by (auto simp: second_row_def)
  show ?thesis
    using ij j a d assms(3) by (auto simp: second_row_def update_first_nth)
qed

lemma engine_cases:
  "engine (snd (resolve_alert c t k am)) = engine am \<or>
   (\<exists>db f. engine am = Some db \<and> (\<forall>r. al_dedup (f r) = al_dedup r) \<and>
     engine (snd (resolve_alert c t k am)) =
       Some (db\<lparr>alert_rows := update_first (\<lambda>a. al_dedup a = k) f (alert_rows db)\<rparr>))"
proof -
  have mem: "engine (snd (resolve_memory t k am)) = engine am"
    by (simp add: resolve_memory_def split: option.split)
  show ?thesis
  proof (cases "engine am")
    case None
    then show ?thesis by (simp add: resolve_alert_def split_beta Let_def mem)
  next
    case (Some db)
    show ?thesis
    proof (cases "alerts_up db \<and> find (\<lambda>a. al_dedup a = k) (alert_rows db) \<noteq> None")
      case True
      then have "engine (snd (resolve_alert c t k am)) =
          Some (db\<lparr>alert_rows := update_first (\<lambda>a. al_dedup a = k) (resolved t) (alert_rows db)\<rparr>)"
        using Some by (auto simp: resolve_alert_def split_beta Let_def mem split: option.split)
      moreover have "\<forall>r. al_dedup (resolved t r) = al_dedup r" by simp
      ultimately show ?thesis using Some by blast
    next
      case False
      then show ?thesis using Some mem by (auto simp: resolve_alert_def split_beta Let_def)
    qed
  qed
qed

lemma second_row_engine:
  assumes "second_row i j a am"
    and "engine am' = engine am \<or> (\<exists>db f. engine am = Some db \<and> (\<forall>r. al_dedup (f r) = al_dedup r) \<and>
       engine am' = Some (db\<lparr>alert_rows := update_first (\<lambda>a. al_dedup a = k) f (alert_rows db)\<rparr>))"
  shows "second_row i j a am'"
  using assms(2)
proof
  assume "engine am' = engine am"
  with assms(1) show ?thesis by (simp add: second_row_def)
next
  assume "\<exists>db f. engine am = Some db \<and> (\<forall>r. al_dedup (f r) = al_dedup r) \<and>
      engine am' = Some (db\<lparr>alert_rows := update_first (\<lambda>a. al_dedup a = k) f (alert_rows db)\<rparr>)"
  then obtain db f where e: "engine am = Some db" and f: "\<And>r. al_dedup (f r) = al_dedup r"
    and e': "engine am' = Some (db\<lparr>alert_rows := update_first (\<lambda>a. al_dedup a = k) f (alert_rows db)\<rparr>)"
    by blast
  have "second_row i j a (am\<lparr>engine := Some (db\<lparr>alert_rows := update_first (\<lambda>a. al_dedup a = k) f (alert_rows db)\<rparr>)\<rparr>)"
    by (rule second_row_update[OF assms(1) e f])
  then show ?thesis using e' by (simp add: second_row_def)
qed

lemma second_row_step:
  assumes "second_row i j a am"
  shows "second_row i j a (alert_step c x am)"
proof (cases x)
  case (Fire r)
  show ?thesis
  proof (cases "gates_open r am")
    case True
    have "engine (alert_step c x am) = engine (persist_alert (alert_of r) am)"
      using True Fire
      by (auto simp: fire_open record_alert_def Let_def persist_alert_def split: option.split)
    with assms show ?thesis
      by (auto simp: second_row_def persist_alert_def nth_append split: option.split)
  next
    case False
    with Fire assms show ?thesis by (simp add: fire_shut)
  qed
next
  case (Resolve t k)
  then show ?thesis using second_row_engine[OF assms engine_cases[of c t k am]] by simp
next
  case (Ack t k)
  have "engine (snd (acknowledge t k am)) = engine am \<or>
    (\<exists>db f. engine am = Some db \<and> (\<forall>r. al_dedup (f r) = al_dedup r) \<and>
       engine (snd (acknowledge t k am)) =
         Some (db\<lparr>alert_rows := update_first (\<lambda>a. al_dedup a = k) f (alert_rows db)\<rparr>))"
  proof -
    have mem: "engine (case map_of (active am) k of None \<Rightarrow> am | Some i \<Rightarrow> change_obj i (acked t) am) = engine am"
      by (simp split: option.split)
    show ?thesis
    proof (cases "engine am")
      case None
      then show ?thesis using mem by (simp add: acknowledge_def Let_def)
    next
      case (Some db)
      show ?thesis
      proof (cases "alerts_up db \<and> find (\<lambda>a. al_dedup a = k) (alert_rows db) \<noteq> None")
        case True
        then have "engine (snd (acknowledge t k am)) =
            Some (db\<lparr>alert_rows := update_first (\<lambda>a. al_dedup a = k) (acked t) (alert_rows db)\<rparr>)"
          using Some mem by (auto simp: acknowledge_def Let_def)
        moreover have "\<forall>r. al_dedup (acked t r) = al_dedup r" by simp
        ultimately show ?thesis using Some by blast
      next
        case False
        then show ?thesis using Some mem by (auto simp: acknowledge_def Let_def split: option.split)
      qed
    qed
  qed
  from second_row_engine[OF assms this] Ack show ?thesis by simp
next
  case (Configure p)
  with assms show ?thesis by (simp add: second_row_def)
next
  case (TestHook t)
  with assms show ?thesis by (simp add: second_row_def test_webhook_def)
qed

interpretation open_row: stable_fact "alert_step c" "second_row i j a" "\<lambda>_. True" for c i j a
  by unfold_locales (rule second_row_step)

text \<open>
  an alert that fires again after its cooldown gets a second row, and no operation ever changes
  that row again: resolving and acknowledging reach the oldest row of the key only.  It stays firing
  in the table, whatever is resolved afterwards.
\<close>

theorem second_row_never_resolved:
  assumes "engine am = Some db" and "i < j" and "j < length (alert_rows db)"
    and "al_dedup (alert_rows db ! i) = al_dedup (alert_rows db ! j)"
  shows "\<exists>db'. engine (fold (alert_step committed) ops am) = Some db' \<and> j < length (alert_rows db') \<and>
     alert_rows db' ! j = alert_rows db ! j"
proof -
  have "second_row i j (alert_rows db ! j) am" using assms by (auto simp: second_row_def)
  from open_row.run_keeps[OF _ this, of ops committed] show ?thesis by (auto simp: second_row_def)
qed

theorem second_row_never_resolved_witness:
  "\<exists>db'. engine (fold (alert_step (\<lambda>a. [])) [Resolve ''t'' ''b1'', Resolve ''t'' ''b1'']
      (fold (alert_step (\<lambda>a. [])) [Fire (demo_fire 1000), Fire (demo_fire 1300)] demo_alerts)) = Some db' \<and>
     al_status (alert_rows db' ! 1) = ''firing''"
proof -
  let ?am = "fold (alert_step (\<lambda>a. [])) [Fire (demo_fire 1000), Fire (demo_fire 1300)] demo_alerts"
  let ?a = "\<lambda>t i. (alert_of (demo_fire t))\<lparr>al_id := Some i\<rparr>"
  have db: "engine ?am = Some \<lparr>alert_rows = [?a 1000 1, ?a 1300 2], alerts_up = True\<rparr>"
    by (simp add: fire_def demo_alerts_def new_alert_mgr_def rule_cfg_def default_rules_def demo_fire_def
      cooling_def severity_rank_def severities_def dispatch_webhook_def record_alert_def persist_alert_def
      Let_def keep_last_def)
  from second_row_never_resolved[OF this, where i = 0 and j = 1 and committed = "\<lambda>a. []"
      and ops = "[Resolve ''t'' ''b1'', Resolve ''t'' ''b1'']"]
  show ?thesis by (auto simp: alert_of_def demo_fire_def)
qed

end
