(* ===== verification/Admission.thy ===== *)
theory Admission
  imports Budgets Alert_Manager Exceptions
begin

section \<open>Admission of a request and the accounting of its cost (src/server/handler.py)\<close>

text \<open>
  The authentication of a chat request, the budget check before the provider chain, and the spend
  bookkeeping after it, which composes the key table, the budgets and the alerts.  The key manager is
  \<open>None\<close> when it cannot be resolved.  The dash in the message of that case is written as a hyphen.
\<close>

definition lcp_error :: "exn_class \<Rightarrow> string \<Rightarrow> lcp_exn" where
  "lcp_error c m = \<lparr>exn_cls = c, exn_msg = m, exn_details = []\<rparr>"

definition quoted :: "string \<Rightarrow> string" where
  "quoted s = [CHR 0x27] @ s @ [CHR 0x27]"

text \<open>The profiles a key may use: stripped, empty pieces dropped.\<close>

definition allowed_list :: "string \<Rightarrow> string list" where
  "allowed_list s = filter (\<lambda>p. p \<noteq> []) (map strip (split_on (CHR '','') s))"

definition profile_allowed :: "string \<Rightarrow> key_info \<Rightarrow> bool" where
  "profile_allowed profile info = (case ki_profiles info of
      None \<Rightarrow> True
    | Some s \<Rightarrow> s = [] \<or> profile \<in> set (allowed_list s))"

record request_ctx =
  rc_profile :: string
  rc_auth_required :: "json option"
  rc_authorization :: "string option"
  rc_now :: real
  rc_db_up :: bool

text \<open>
  The answer is the error sent, or the key id that is remembered for the accounting; the second
  component is the billing state with the key's last-used stamp.
\<close>

definition authenticate :: "key_env \<Rightarrow> bool \<Rightarrow> request_ctx \<Rightarrow> billing \<Rightarrow> (lcp_exn + int option) \<times> billing" where
  "authenticate env manager rc bl =
     (if \<not> truthy (case rc_auth_required rc of None \<Rightarrow> JBool True | Some v \<Rightarrow> v) then (Inr None, bl)
      else let auth_header = (case rc_authorization rc of None \<Rightarrow> [] | Some h \<Rightarrow> h) in
      if \<not> starts_with auth_header ''Bearer ''
      then (Inl (lcp_error AuthError ''API key required for this profile. Use Authorization: Bearer <key>''), bl)
      else if \<not> manager
      then (Inl (lcp_error AuthError
        ''Key manager unavailable - authentication cannot be verified. Try again later.''), bl)
      else (case validate_key env (rc_now rc) (drop 7 auth_header) (client_keys bl) of
          (None, ks) \<Rightarrow> (Inl (lcp_error AuthError ''invalid or revoked API key''), bl\<lparr>client_keys := ks\<rparr>)
        | (Some info, ks) \<Rightarrow>
            let bl' = bl\<lparr>client_keys := ks\<rparr> in
            if \<not> profile_allowed (rc_profile rc) info
            then (Inl (lcp_error ForbiddenError
              (''key does not have access to profile '' @ quoted (rc_profile rc))), bl')
            else if ki_id info \<noteq> 0 \<and> is_blocked (rc_db_up rc) (rc_profile rc) (Some (ki_id info)) bl'
            then (Inl (lcp_error CreditExhaustedError
              (''Budget '' @ quoted (case check_budget_block (rc_db_up rc) (rc_profile rc) (Some (ki_id info)) bl' of
                  None \<Rightarrow> [] | Some n \<Rightarrow> n) @ '' has been exceeded for this key/profile'')), bl')
            else (Inr (Some (ki_id info)), bl')))"

datatype admission =
    Admitted "int option"
  | Refused lcp_exn
  | OverBudget string

definition admit_request :: "key_env \<Rightarrow> bool \<Rightarrow> request_ctx \<Rightarrow> billing \<Rightarrow> admission \<times> billing" where
  "admit_request env manager rc bl = (case authenticate env manager rc bl of
      (Inl e, bl') \<Rightarrow> (Refused e, bl')
    | (Inr key_id, bl') \<Rightarrow>
        (case check_budget_block (rc_db_up rc) (rc_profile rc) key_id bl' of
           None \<Rightarrow> (Admitted key_id, bl')
         | Some n \<Rightarrow> (if n = [] then Admitted key_id else OverBudget n, bl')))"

subsection \<open>Spend and alerts\<close>

text \<open>
  \<open>show_float\<close> is the text Python gives a float (plain, or with a number of decimals).  An exception
  of \<open>fire\<close> ends the loop.
\<close>

record alert_text =
  at_float :: "real \<Rightarrow> string"
  at_fixed :: "nat \<Rightarrow> real \<Rightarrow> string"

definition show_int :: "int \<Rightarrow> string" where
  "show_int i = (if i < 0 then CHR ''-'' # show_nat (nat (- i)) else show_nat (nat i))"

definition breach_request :: "alert_text \<Rightarrow> real \<Rightarrow> string \<Rightarrow> breach \<Rightarrow> fire_request" where
  "breach_request tx now stamp b =
     (let pct = at_float tx (br_spend_pct b) in
      \<lparr>fr_now = now, fr_stamp = stamp, fr_rule = ''budget_breach'',
       fr_severity = (if 100 \<le> br_spend_pct b then ''critical''
         else if 80 \<le> br_spend_pct b then ''warning'' else ''info''),
       fr_title = ''Budget '' @ quoted (br_budget_name b) @ '' at '' @ pct @ ''%'',
       fr_message = ''Budget '' @ quoted (br_budget_name b) @ '' has reached '' @ pct @ ''% of its $'' @
         at_fixed tx 2 (br_limit b) @ '' limit ($'' @ at_fixed tx 4 (br_current_spend b) @ '' spent).'',
       fr_dedup = ''budget:'' @ show_int (br_budget_id b) @ '':t'' @ show_int (br_threshold b),
       fr_metadata = [(''budget_id'', JNum (of_int (br_budget_id b))), (''budget_name'', JStr (br_budget_name b)),
         (''threshold'', JNum (of_int (br_threshold b))), (''spend_pct'', JNum (br_spend_pct b)),
         (''limit'', JNum (br_limit b)), (''current_spend'', JNum (br_current_spend b))]\<rparr>)"

fun fire_breaches :: "alert_text \<Rightarrow> real \<Rightarrow> string \<Rightarrow> breach list \<Rightarrow> alert_mgr \<Rightarrow> py_exn option \<times> alert_mgr" where
  "fire_breaches tx now stamp [] am = (None, am)"
| "fire_breaches tx now stamp (b # bs) am = (case fire (breach_request tx now stamp b) am of
      (Inl e, am') \<Rightarrow> (Some e, am')
    | (Inr r, am') \<Rightarrow> fire_breaches tx now stamp bs am')"

definition track_budget_spend :: "alert_text \<Rightarrow> real \<Rightarrow> spend \<Rightarrow> billing \<Rightarrow> alert_mgr
    \<Rightarrow> py_exn option \<times> billing \<times> alert_mgr" where
  "track_budget_spend tx now s bl am =
     (let (breaches, bl') = spend_step s bl;
          (err, am') = fire_breaches tx now (sp_stamp s) breaches am
      in (err, bl', am'))"

subsection \<open>What admission guarantees\<close>

lemma admitted_cases:
  assumes "admit_request env manager rc bl = (Admitted key_id, bl')"
  shows "(\<not> truthy (case rc_auth_required rc of None \<Rightarrow> JBool True | Some v \<Rightarrow> v) \<and> key_id = None \<and> bl' = bl \<or>
      (\<exists>h info ks. manager \<and> rc_authorization rc = Some h \<and> starts_with h ''Bearer '' \<and>
        validate_key env (rc_now rc) (drop 7 h) (client_keys bl) = (Some info, ks) \<and>
        key_id = Some (ki_id info) \<and> bl' = bl\<lparr>client_keys := ks\<rparr> \<and> profile_allowed (rc_profile rc) info)) \<and>
    \<not> is_blocked (rc_db_up rc) (rc_profile rc) key_id bl'"
proof -
  obtain r bl1 where auth: "authenticate env manager rc bl = (r, bl1)" by (cases "authenticate env manager rc bl")
  from assms auth obtain k where r: "r = Inr k"
    by (cases r) (auto simp: admit_request_def)
  have k: "k = key_id" "bl1 = bl'" and nb: "\<not> is_blocked (rc_db_up rc) (rc_profile rc) key_id bl'"
    using assms auth r
    by (auto simp: admit_request_def is_blocked_def split: option.splits if_splits)
  have "starts_with [] ''Bearer '' = False" by (simp add: starts_with_def)
  then have "\<not> truthy (case rc_auth_required rc of None \<Rightarrow> JBool True | Some v \<Rightarrow> v) \<and> key_id = None \<and> bl' = bl \<or>
      (\<exists>h info ks. manager \<and> rc_authorization rc = Some h \<and> starts_with h ''Bearer '' \<and>
        validate_key env (rc_now rc) (drop 7 h) (client_keys bl) = (Some info, ks) \<and>
        key_id = Some (ki_id info) \<and> bl' = bl\<lparr>client_keys := ks\<rparr> \<and> profile_allowed (rc_profile rc) info)"
    using auth unfolding r k authenticate_def Let_def
    by (cases "validate_key env (rc_now rc) (drop 7 (case rc_authorization rc of None \<Rightarrow> [] | Some h \<Rightarrow> h)) (client_keys bl)")
      (auto split: if_splits option.splits)
  with nb show ?thesis by blast
qed

text \<open>
  C3: who is let in.  For a profile that asks for authentication, which is the default, an admitted
  request carries the raw key of an active, unexpired key that may use the profile, the key is the one
  charged afterwards, and no budget check stands against it; without a key manager nobody is let in.
\<close>

theorem admitted_requests_are_authorised:
  assumes "rows_ok (key_rows (client_keys bl))"
    and "truthy (case rc_auth_required rc of None \<Rightarrow> JBool True | Some v \<Rightarrow> v)"
    and "admit_request env manager rc bl = (Admitted key_id, bl')"
  shows "manager \<and> (\<exists>k \<in> set (key_rows (client_keys bl)). \<exists>token.
     rc_authorization rc = Some (''Bearer '' @ token) \<and> key_hash k = ke_hash env token \<and>
     kstatus k = ''active'' \<and> \<not> expired_key env (rc_now rc) k \<and> key_id = Some (kid k) \<and>
     (case allowed_profiles k of None \<Rightarrow> True | Some s \<Rightarrow> s = [] \<or> rc_profile rc \<in> set (allowed_list s))) \<and>
     \<not> is_blocked (rc_db_up rc) (rc_profile rc) key_id bl'"
proof -
  from admitted_cases[OF assms(3)] assms(2) obtain h info ks where m: "manager"
    and h: "rc_authorization rc = Some h" "starts_with h ''Bearer ''"
    and v: "validate_key env (rc_now rc) (drop 7 h) (client_keys bl) = (Some info, ks)"
    and kid: "key_id = Some (ki_id info)" and p: "profile_allowed (rc_profile rc) info"
    and nb: "\<not> is_blocked (rc_db_up rc) (rc_profile rc) key_id bl'"
    by blast
  obtain token where token: "h = ''Bearer '' @ token" using h(2) by (auto simp: starts_with_def prefix_def)
  then have drop: "drop 7 h = token" by simp
  obtain k where k: "k \<in> set (key_rows (client_keys bl))" "live_hash (ke_hash env token) k"
    "\<not> expired_key env (rc_now rc) k" "info = info_of k"
    using v unfolding drop by (rule validate_SomeE)
  with m h token kid p nb show ?thesis
    by (auto simp: profile_allowed_def info_of_def intro!: bexI[of _ k])
qed

definition demo_ctx :: request_ctx where
  "demo_ctx = \<lparr>rc_profile = ''default'', rc_auth_required = None, rc_authorization = Some ''Bearer lcp_ab'',
     rc_now = 3, rc_db_up = True\<rparr>"

lemma strip_default: "strip ''default'' = ''default''"
  by code_simp

lemma demo_profile_allowed: "profile_allowed ''default'' (info_of (hd (key_rows demo_keys)))"
  by (simp add: profile_allowed_def info_of_def demo_keys_rows allowed_list_def strip_default)

lemma demo_admitted:
  "fst (admit_request demo_key_env True demo_ctx (demo_billing [demo_budget])) = Admitted (Some 1)"
  using demo_profile_allowed
  by (simp add: admit_request_def authenticate_def demo_ctx_def starts_with_def validate_key_def
    demo_billing_def demo_keys_rows demo_key_env_def expired_key_def is_blocked_def check_budget_block_def
    blocking_def budget_matches_def exhausted_def demo_budget_def info_of_def Let_def)

theorem admitted_requests_are_authorised_witness:
  "kstatus (hd (key_rows (client_keys (demo_billing [demo_budget])))) = ''active'' \<and>
   \<not> is_blocked True ''default'' (Some 1) (snd (admit_request demo_key_env True demo_ctx (demo_billing [demo_budget])))"
proof -
  have "rows_ok (key_rows (client_keys (demo_billing [demo_budget])))"
    by (simp add: demo_billing_def demo_keys_ok)
  moreover have "truthy (case rc_auth_required demo_ctx of None \<Rightarrow> JBool True | Some v \<Rightarrow> v)"
    by (simp add: demo_ctx_def)
  moreover have "admit_request demo_key_env True demo_ctx (demo_billing [demo_budget]) =
      (Admitted (Some 1), snd (admit_request demo_key_env True demo_ctx (demo_billing [demo_budget])))"
    using demo_admitted by (simp add: prod_eq_iff)
  ultimately have "\<not> is_blocked (rc_db_up demo_ctx) (rc_profile demo_ctx) (Some 1)
      (snd (admit_request demo_key_env True demo_ctx (demo_billing [demo_budget])))"
    using admitted_requests_are_authorised by blast
  then show ?thesis by (simp add: demo_ctx_def demo_billing_def demo_keys_rows)
qed

subsection \<open>What admission does not look at\<close>

lemma find_mapped: "(\<And>x. p (f x) = p x) \<Longrightarrow> find p (map f xs) = map_option f (find p xs)"
  by (induction xs) simp_all

definition relimited :: "(api_key \<Rightarrow> real) \<Rightarrow> (api_key \<Rightarrow> real) \<Rightarrow> billing \<Rightarrow> billing" where
  "relimited limit spent bl = bl\<lparr>client_keys := (client_keys bl)\<lparr>key_rows :=
     map (\<lambda>k. k\<lparr>spend_limit := limit k, total_spend := spent k\<rparr>) (key_rows (client_keys bl))\<rparr>\<rparr>"

lemma check_budgets_only: "budgets bl = budgets bl' \<Longrightarrow> check_budget_block up p k bl = check_budget_block up p k bl'"
  by (simp add: check_budget_block_def)

lemma is_blocked_budgets_only: "budgets bl = budgets bl' \<Longrightarrow> is_blocked up p k bl = is_blocked up p k bl'"
  by (simp add: is_blocked_def check_budget_block_def)

lemma validate_relimited:
  "fst (validate_key env t raw (client_keys (relimited limit spent bl))) =
   map_option (\<lambda>i. i\<lparr>ki_limit := limit (the (find (live_hash (ke_hash env raw)) (key_rows (client_keys bl)))),
     ki_spend := spent (the (find (live_hash (ke_hash env raw)) (key_rows (client_keys bl))))\<rparr>)
     (fst (validate_key env t raw (client_keys bl)))"
  by (simp add: validate_key_def Let_def relimited_def find_mapped expired_key_def info_of_def
    split: option.split)

definition gate_of :: "request_ctx \<Rightarrow> key_info option \<Rightarrow> billing \<Rightarrow> lcp_exn + int option" where
  "gate_of rc info bl = (case info of
      None \<Rightarrow> Inl (lcp_error AuthError ''invalid or revoked API key'')
    | Some info \<Rightarrow>
        if \<not> profile_allowed (rc_profile rc) info
        then Inl (lcp_error ForbiddenError (''key does not have access to profile '' @ quoted (rc_profile rc)))
        else if ki_id info \<noteq> 0 \<and> is_blocked (rc_db_up rc) (rc_profile rc) (Some (ki_id info)) bl
        then Inl (lcp_error CreditExhaustedError
          (''Budget '' @ quoted (case check_budget_block (rc_db_up rc) (rc_profile rc) (Some (ki_id info)) bl of
              None \<Rightarrow> [] | Some n \<Rightarrow> n) @ '' has been exceeded for this key/profile''))
        else Inr (Some (ki_id info)))"

lemma fst_authenticate:
  "fst (authenticate env manager rc bl) =
     (if \<not> truthy (case rc_auth_required rc of None \<Rightarrow> JBool True | Some v \<Rightarrow> v) then Inr None
      else let h = (case rc_authorization rc of None \<Rightarrow> [] | Some h \<Rightarrow> h) in
      if \<not> starts_with h ''Bearer ''
      then Inl (lcp_error AuthError ''API key required for this profile. Use Authorization: Bearer <key>'')
      else if \<not> manager
      then Inl (lcp_error AuthError ''Key manager unavailable - authentication cannot be verified. Try again later.'')
      else gate_of rc (fst (validate_key env (rc_now rc) (drop 7 h) (client_keys bl))) bl)"
proof -
  have b: "is_blocked up p k (bl\<lparr>client_keys := ks\<rparr>) = is_blocked up p k bl"
    "check_budget_block up p k (bl\<lparr>client_keys := ks\<rparr>) = check_budget_block up p k bl" for up p k ks
    by (rule is_blocked_budgets_only check_budgets_only, simp)+
  show ?thesis
    unfolding authenticate_def Let_def gate_of_def
    by (simp add: b split_beta split: option.split)
qed

lemma budgets_authenticate: "budgets (snd (authenticate env manager rc bl)) = budgets bl"
  by (auto simp: authenticate_def Let_def split: option.split prod.split)

lemma fst_admit:
  "fst (admit_request env manager rc bl) = (case fst (authenticate env manager rc bl) of
      Inl e \<Rightarrow> Refused e
    | Inr key_id \<Rightarrow> (case check_budget_block (rc_db_up rc) (rc_profile rc) key_id bl of
           None \<Rightarrow> Admitted key_id
         | Some n \<Rightarrow> if n = [] then Admitted key_id else OverBudget n))"
proof (cases "authenticate env manager rc bl")
  case (Pair r bl1)
  then have "budgets bl1 = budgets bl" using budgets_authenticate[of env manager rc bl] by simp
  from check_budgets_only[OF this] Pair show ?thesis
    by (auto simp: admit_request_def split: sum.split option.split)
qed

text \<open>
  Also: the spend limit of a key is not enforced.  Changing the limits and the recorded spend of all
  keys in any way changes the outcome of no request: only the budget table can stop a key.
\<close>

theorem key_spend_limit_not_enforced:
  "fst (admit_request env manager rc (relimited limit spent bl)) = fst (admit_request env manager rc bl)"
proof -
  have b: "is_blocked up p k (relimited limit spent bl) = is_blocked up p k bl"
    "check_budget_block up p k (relimited limit spent bl) = check_budget_block up p k bl" for up p k
    by (rule is_blocked_budgets_only check_budgets_only, simp add: relimited_def)+
  have "gate_of rc (fst (validate_key env t raw (client_keys (relimited limit spent bl)))) (relimited limit spent bl) =
      gate_of rc (fst (validate_key env t raw (client_keys bl))) bl" for t raw
    unfolding validate_relimited gate_of_def b
    by (simp add: profile_allowed_def split: option.split)
  then show ?thesis unfolding fst_admit fst_authenticate Let_def b by simp
qed

text \<open>
  Also: rotating a key takes it out of its budgets.  A budget names a key by its id and the new key
  has another one; when every budget belongs to some existing key, the new key is admitted at once,
  also when the old one was over its budget or had been revoked.
\<close>

theorem rotation_escapes_key_budgets:
  assumes "rows_ok (key_rows (client_keys bl))" and "key_of_id i (client_keys bl) = Some k"
    and "ke_hash env (raw_key_of token) \<notin> key_hash ` set (key_rows (client_keys bl))"
    and "\<forall>b \<in> set (budgets bl). \<exists>x \<in> set (key_rows (client_keys bl)). bkey_id b = Some (kid x)"
    and "\<not> expired_key env (rc_now rc) k" and "profile_allowed (rc_profile rc) (info_of k)"
    and "rc_authorization rc = Some (''Bearer '' @ raw_key_of token)"
    and "truthy (case rc_auth_required rc of None \<Rightarrow> JBool True | Some v \<Rightarrow> v)"
  shows "\<exists>r ks. rotate_key env now token i (client_keys bl) = Inr (Some r, ks) \<and>
     fst (admit_request env True rc (bl\<lparr>client_keys := ks\<rparr>)) = Admitted (Some (rk_id r))"
proof -
  obtain r ks where rot: "rotate_key env now token i (client_keys bl) = Inr (Some r, ks)"
    and raw: "rk_key r = raw_key_of token" and fresh: "rk_id r \<notin> kid ` set (key_rows (client_keys bl))"
    and v: "fst (validate_key env (rc_now rc) (rk_key r) ks) = Some \<lparr>ki_id = rk_id r, ki_name = kname k,
      ki_profiles = allowed_profiles k, ki_limit = spend_limit k, ki_spend = 0\<rparr>"
    using rotation_validates[OF assms(1-3), of now "rc_now rc"] assms(5) by auto
  let ?bl = "bl\<lparr>client_keys := ks\<rparr>"
  have "\<not> budget_matches (rc_profile rc) (Some (rk_id r)) b" if "b \<in> set (budgets bl)" for b
  proof -
    from assms(4) that have "\<exists>x \<in> set (key_rows (client_keys bl)). bkey_id b = Some (kid x)" by (rule bspec)
    then obtain x where x: "x \<in> set (key_rows (client_keys bl))" and b: "bkey_id b = Some (kid x)" ..
    from x have "kid x \<in> kid ` set (key_rows (client_keys bl))" by (rule imageI)
    with fresh have "kid x \<noteq> rk_id r" by metis
    with b show ?thesis by (simp add: budget_matches_def)
  qed
  then have "find (blocking (rc_profile rc) (Some (rk_id r))) (budgets bl) = None"
    by (auto simp: find_None_iff blocking_def)
  then have free: "check_budget_block (rc_db_up rc) (rc_profile rc) (Some (rk_id r)) ?bl = None"
    by (simp add: check_budget_block_def)
  then have "\<not> is_blocked (rc_db_up rc) (rc_profile rc) (Some (rk_id r)) ?bl"
    by (simp add: is_blocked_def)
  moreover have "starts_with (''Bearer '' @ raw_key_of token) ''Bearer ''" by (simp add: starts_with_def)
  moreover have "drop 7 (''Bearer '' @ raw_key_of token) = rk_key r" by (simp add: raw)
  ultimately have "fst (authenticate env True rc ?bl) = Inr (Some (rk_id r))"
    using v assms(6-8) by (simp add: fst_authenticate gate_of_def profile_allowed_def info_of_def)
  with rot free show ?thesis by (simp add: fst_admit)
qed

theorem rotation_escapes_key_budgets_witness:
  "(case fst (admit_request demo_key_env True demo_ctx (demo_billing [demo_budget\<lparr>bkey_id := Some 1, current_spend := 11\<rparr>])) of
      Refused e \<Rightarrow> exn_cls e = CreditExhaustedError | _ \<Rightarrow> False) \<and>
   (\<exists>r ks. rotate_key demo_key_env 2 ''cd'' 1 demo_keys = Inr (Some r, ks) \<and>
     fst (admit_request demo_key_env True (demo_ctx\<lparr>rc_authorization := Some ''Bearer lcp_cd''\<rparr>)
       ((demo_billing [demo_budget\<lparr>bkey_id := Some 1, current_spend := 11\<rparr>])\<lparr>client_keys := ks\<rparr>)) = Admitted (Some (rk_id r)))"
proof
  let ?bl = "demo_billing [demo_budget\<lparr>bkey_id := Some 1, current_spend := 11\<rparr>]"
  show "case fst (admit_request demo_key_env True demo_ctx ?bl) of
      Refused e \<Rightarrow> exn_cls e = CreditExhaustedError | _ \<Rightarrow> False"
    using demo_profile_allowed
    by (simp add: fst_admit fst_authenticate gate_of_def demo_ctx_def starts_with_def validate_key_def
      demo_billing_def demo_keys_rows demo_key_env_def expired_key_def is_blocked_def check_budget_block_def
      blocking_def budget_matches_def exhausted_def demo_budget_def info_of_def Let_def lcp_error_def)
  show "\<exists>r ks. rotate_key demo_key_env 2 ''cd'' 1 demo_keys = Inr (Some r, ks) \<and>
     fst (admit_request demo_key_env True (demo_ctx\<lparr>rc_authorization := Some ''Bearer lcp_cd''\<rparr>)
       (?bl\<lparr>client_keys := ks\<rparr>)) = Admitted (Some (rk_id r))"
    using rotation_escapes_key_budgets[where bl = ?bl and i = 1 and k = "hd (key_rows demo_keys)"
        and env = demo_key_env and token = "''cd''" and now = 2
        and rc = "demo_ctx\<lparr>rc_authorization := Some ''Bearer lcp_cd''\<rparr>"] demo_profile_allowed
    by (simp add: demo_billing_def demo_keys_rows rows_ok_def key_of_id_def demo_key_env_def raw_key_of_def
      expired_key_def demo_ctx_def demo_budget_def)
qed

end
