(* ===== verification/Accounting.thy ===== *)
theory Accounting
  imports Costs Admission
begin

section \<open>Token verification and the books of a completion (token\_verifier.py, request\_pipeline.py, handler.py)\<close>

text \<open>
  What happens after a provider answered a non-streaming request: the reported usage is compared with
  a local estimate, the cost is computed, a row is written to the request log (with the token hook of
  the local plugin), budgets are charged and alerts fired, and the answer is sent.  The conversation
  stamping of \<open>record_cost\<close> is best effort on another table and not modelled.
\<close>

subsection \<open>Token verification\<close>

record verifier =
  tv_threshold :: real
  tv_warnings :: nat
  tv_checks :: nat

definition new_verifier :: verifier where
  "new_verifier = \<lparr>tv_threshold = 1 / 4, tv_warnings = 0, tv_checks = 0\<rparr>"

record verification =
  vf_prompt :: real
  vf_estimated :: int
  vf_pct :: real
  vf_completion :: json
  vf_suspicious :: bool

definition estimate_tokens :: "string \<Rightarrow> int" where
  "estimate_tokens t = max 1 (int (length t div 4))"

fun estimated_prompt :: "json list \<Rightarrow> int res" where
  "estimated_prompt [] = Inr 0"
| "estimated_prompt (m # ms) =
     rbind (py_get m ''content'' (JStr [])) (\<lambda>c.
     rbind (estimated_prompt ms) (\<lambda>n.
     Inr ((case c of JStr t \<Rightarrow> estimate_tokens t | _ \<Rightarrow> 0) + 4 + n)))"

definition verify :: "json list \<Rightarrow> json \<Rightarrow> verifier \<Rightarrow> verification res \<times> verifier" where
  "verify messages usage tv =
     (let tv1 = tv\<lparr>tv_checks := Suc (tv_checks tv)\<rparr>;
          r = rbind (py_get usage ''prompt_tokens'' (JNum 0)) (\<lambda>prompt.
              rbind (py_get usage ''completion_tokens'' (JNum 0)) (\<lambda>completion.
              rbind (estimated_prompt messages) (\<lambda>est.
              rbind (num_of prompt) (\<lambda>p.
              let pct = (if 0 < p then \<bar>p - of_int est\<bar> / max p 1 else 0)
              in Inr \<lparr>vf_prompt = p, vf_estimated = est, vf_pct = py_round 4 pct, vf_completion = completion,
                   vf_suspicious = (tv_threshold tv < pct)\<rparr>))))
      in case r of
           Inl e \<Rightarrow> (Inl e, tv1)
         | Inr v \<Rightarrow> (Inr v, if vf_suspicious v then tv1\<lparr>tv_warnings := Suc (tv_warnings tv)\<rparr> else tv1))"

definition verifier_stats :: "verifier \<Rightarrow> nat \<times> nat \<times> real" where
  "verifier_stats tv = (tv_checks tv, tv_warnings tv,
     py_round 4 (real (tv_warnings tv) / real (max (tv_checks tv) 1)))"

subsection \<open>The token counts of the local server (cost\_plugins/llamacpp.py)\<close>

record local_entry =
  le_prompt :: real
  le_completion :: real
  le_hits :: real
  le_requests :: nat
  le_latency :: real

type_synonym local_usage = "(string, (string, local_entry) dict) dict"

definition empty_entry :: local_entry where
  "empty_entry = \<lparr>le_prompt = 0, le_completion = 0, le_hits = 0, le_requests = 0, le_latency = 0\<rparr>"

text \<open>A completion count that is not a number raises after the prompt has been added.\<close>

definition record_tokens :: "string \<Rightarrow> string \<Rightarrow> real \<Rightarrow> json \<Rightarrow> int \<Rightarrow> real \<Rightarrow> local_usage \<Rightarrow> local_usage" where
  "record_tokens today model prompt completion cached latency lu =
     (let models = dget lu today []; e = dget models model empty_entry;
          e1 = e\<lparr>le_prompt := le_prompt e + prompt\<rparr>;
          e2 = (case num_of completion of
              Inl x \<Rightarrow> e1
            | Inr c \<Rightarrow> e1\<lparr>le_completion := le_completion e + c, le_hits := le_hits e + of_int cached,
                le_requests := Suc (le_requests e), le_latency := le_latency e + latency\<rparr>)
      in AList.update today (AList.update model e2 models) lu)"

subsection \<open>The request log\<close>

record request_row =
  rq_timestamp :: string
  rq_profile :: string
  rq_model :: string
  rq_provider :: string
  rq_cost :: cost_info
  rq_latency :: real
  rq_success :: bool
  rq_error :: "string option"
  rq_blocked :: "string option"

record books =
  bk_verifier :: verifier
  bk_requests :: "request_row list"
  bk_local :: local_usage
  bk_billing :: billing
  bk_alerts :: alert_mgr

record call_ctx =
  cc_profile :: string
  cc_key :: "int option"
  cc_model :: string
  cc_provider :: string
  cc_latency :: real
  cc_blocked :: "string list"
  cc_now :: real
  cc_stamp :: string
  cc_today :: string
  cc_log_up :: bool
  cc_budget_up :: bool

datatype book_error = DatabaseError | PyError py_exn

definition record_cost :: "call_ctx \<Rightarrow> cost_info \<Rightarrow> bool \<Rightarrow> string option \<Rightarrow> books \<Rightarrow> book_error option \<times> books" where
  "record_cost cc info success error bk =
     (if \<not> cc_log_up cc then (Some DatabaseError, bk)
      else let row = \<lparr>rq_timestamp = cc_stamp cc, rq_profile = cc_profile cc, rq_model = cc_model cc,
             rq_provider = cc_provider cc, rq_cost = info, rq_latency = cc_latency cc, rq_success = success,
             rq_error = error,
             rq_blocked = (if cc_blocked cc = [] then None else Some (join '','' (cc_blocked cc)))\<rparr>;
           bk1 = bk\<lparr>bk_requests := bk_requests bk @ [row]\<rparr>
      in (None,
          if success \<and> for_provider (cc_provider cc) = Some LlamaCpp
          then (case rbind (num_of (ci_prompt info)) (\<lambda>p. rbind (num_of (ci_miss info)) (\<lambda>m. Inr (p + m))) of
              Inl e \<Rightarrow> bk1
            | Inr n \<Rightarrow> bk1\<lparr>bk_local := record_tokens (cc_today cc) (cc_model cc) n (ci_completion info) (ci_hit info)
                (cc_latency cc) (bk_local bk)\<rparr>)
          else bk1))"

subsection \<open>After the answer\<close>

datatype reply =
    Sent nat obj
  | Failed py_exn

definition spend_of :: "call_ctx \<Rightarrow> cost_info \<Rightarrow> spend" where
  "spend_of cc info = \<lparr>sp_up = cc_budget_up cc, sp_stamp = cc_stamp cc, sp_profile = cc_profile cc,
     sp_cost = ci_cost info, sp_key = cc_key cc\<rparr>"

text \<open>
  The guarded block: cost, log, budgets, alerts; an exception keeps what was done before it.  The second half
  is shared with the streaming tail.
\<close>

definition book :: "alert_text \<Rightarrow> call_ctx \<Rightarrow> cost_info \<Rightarrow> books \<Rightarrow> book_error option \<times> books" where
  "book tx cc info bk =
     (case record_cost cc info True None bk of
        (Some e, bk') \<Rightarrow> (Some e, bk')
      | (None, bk') \<Rightarrow>
          (case track_budget_spend tx (cc_now cc) (spend_of cc info) (bk_billing bk') (bk_alerts bk') of
             (err, bl, am) \<Rightarrow> (map_option PyError err, bk'\<lparr>bk_billing := bl, bk_alerts := am\<rparr>)))"

definition account :: "alert_text \<Rightarrow> cost_env \<Rightarrow> call_ctx \<Rightarrow> obj \<Rightarrow> books \<Rightarrow> book_error option \<times> books" where
  "account tx env cc response bk = (case calculate_cost env (cc_provider cc) (cc_model cc) (Some response) of
      Inl e \<Rightarrow> (Some (PyError e), bk)
    | Inr info \<Rightarrow> book tx cc info bk)"

definition finish_completion :: "alert_text \<Rightarrow> cost_env \<Rightarrow> call_ctx \<Rightarrow> json list \<Rightarrow> nat \<Rightarrow> obj \<Rightarrow> books \<Rightarrow> reply \<times> books" where
  "finish_completion tx env cc messages status response bk =
     (let (v, tv) = verify messages (dget response ''usage'' (JObj [])) (bk_verifier bk);
          bk1 = bk\<lparr>bk_verifier := tv\<rparr>
      in case v of
           Inl e \<Rightarrow> (Failed e, bk1)
         | Inr _ \<Rightarrow> (Sent status response, snd (account tx env cc response bk1)))"

subsection \<open>Verification flags exactly the gross mismatches\<close>

lemma verify_numbers:
  assumes "usage = JObj us" and "dget us ''prompt_tokens'' (JNum 0) = JNum p" and "estimated_prompt messages = Inr est"
  shows "\<exists>v. verify messages usage tv = (Inr v, tv\<lparr>tv_checks := Suc (tv_checks tv),
       tv_warnings := tv_warnings tv + (if vf_suspicious v then 1 else 0)\<rparr>) \<and>
     vf_suspicious v = (tv_threshold tv < (if 0 < p then \<bar>p - of_int est\<bar> / max p 1 else 0))"
  unfolding verify_def Let_def assms(1) py_get.simps rbind_simps assms(2,3) num_of.simps by simp

lemma mismatch_iff:
  "0 \<le> th \<Longrightarrow> th < (if 0 < p then \<bar>p - e\<bar> / max p 1 else 0) \<longleftrightarrow> 0 < p \<and> th * max p 1 < \<bar>p - e\<bar>" for th p e :: real
proof -
  assume "0 \<le> th"
  moreover have "0 < max p 1" by simp
  ultimately show ?thesis by (simp add: pos_less_divide_eq)
qed

text \<open>
  Also: a check of a numeric prompt count is counted, and it is flagged and counted as a warning
  exactly when the provider reports tokens that differ from the estimate by more than the threshold's
  share of what it reports.
\<close>

theorem verification_flags_mismatch:
  assumes "usage = JObj us" and "dget us ''prompt_tokens'' (JNum 0) = JNum p" and "estimated_prompt messages = Inr est"
    and "0 \<le> tv_threshold tv"
  shows "\<exists>v. verify messages usage tv = (Inr v, tv\<lparr>tv_checks := Suc (tv_checks tv),
       tv_warnings := tv_warnings tv + (if vf_suspicious v then 1 else 0)\<rparr>) \<and>
     vf_suspicious v = (0 < p \<and> tv_threshold tv * max p 1 < \<bar>p - of_int est\<bar>)"
  using verify_numbers[OF assms(1-3), of tv] mismatch_iff[OF assms(4)] by simp

definition demo_messages :: "json list" where
  "demo_messages = [JObj [(''role'', JStr ''user''), (''content'', JStr ''hi'')]]"

lemma demo_estimate: "estimated_prompt demo_messages = Inr 5"
  by (simp add: demo_messages_def estimate_tokens_def)

theorem verification_flags_mismatch_witness:
  "\<exists>v. verify demo_messages (JObj demo_usage) new_verifier =
     (Inr v, new_verifier\<lparr>tv_checks := 1, tv_warnings := 1\<rparr>) \<and> vf_suspicious v"
  using verification_flags_mismatch[OF refl _ demo_estimate, of demo_usage 1000 new_verifier]
  by (auto simp: demo_usage_def new_verifier_def)

subsection \<open>The answer and the books\<close>

lemma record_cost_up:
  "cc_log_up cc \<Longrightarrow> fst (record_cost cc info success error bk) = None \<and>
     bk_billing (snd (record_cost cc info success error bk)) = bk_billing bk \<and>
     bk_alerts (snd (record_cost cc info success error bk)) = bk_alerts bk \<and>
     bk_requests (snd (record_cost cc info success error bk)) = bk_requests bk @
       [\<lparr>rq_timestamp = cc_stamp cc, rq_profile = cc_profile cc, rq_model = cc_model cc,
             rq_provider = cc_provider cc, rq_cost = info, rq_latency = cc_latency cc, rq_success = success,
             rq_error = error,
             rq_blocked = (if cc_blocked cc = [] then None else Some (join '','' (cc_blocked cc)))\<rparr>]"
  by (simp add: record_cost_def Let_def split: sum.split)

text \<open>What one spend leaves of the budget table, on every path.\<close>

lemma spend_step_budgets:
  "budgets (snd (spend_step s bl)) =
     (if sp_up s \<and> \<not> list_ex (\<lambda>b. counted (sp_profile s) (sp_key s) b \<and> unreadable b) (budgets bl)
      then map (\<lambda>b. if counted (sp_profile s) (sp_key s) b then charged (sp_stamp s) (sp_cost s) b else b) (budgets bl)
      else budgets bl)"
proof (cases "charge_all (sp_stamp s) (sp_profile s) (sp_cost s) (sp_key s) (budgets bl) (client_keys bl)")
  case None
  then have "list_ex (\<lambda>b. counted (sp_profile s) (sp_key s) b \<and> unreadable b) (budgets bl)"
    by (simp only: charge_all_None list_ex_iff)
  then show ?thesis by (simp add: spend_step_def increment_budget_spend_def None)
next
  case (Some x)
  obtain bs fired ks where x: "x = (bs, fired, ks)" by (cases x)
  have "\<not> list_ex (\<lambda>b. counted (sp_profile s) (sp_key s) b \<and> unreadable b) (budgets bl)"
    using Some charge_all_None[of "sp_stamp s" "sp_profile s" "sp_cost s" "sp_key s" "budgets bl" "client_keys bl"]
    by (auto simp: list_ex_iff)
  with Some charge_all_Some[OF Some[unfolded x]] show ?thesis
    by (simp add: spend_step_def increment_budget_spend_def x after_spend_def)
qed

text \<open>
  C8: bookkeeping never loses a completion whose usage can be verified.  When the messages are
  objects and the usage is an object with a numeric prompt count, the answer is sent with its status,
  whatever the accounting does; the log gets a row with its cost, and the same cost is added to every
  active budget in the request's scope and to no other.  The exceptions are these: when the usage cannot
  be priced or the log cannot be written there is neither row nor charge, and when the budget table
  cannot be reached or an active budget in the scope has an unreadable threshold list there is the row
  but no budget is charged.
\<close>

theorem verified_completion_is_sent_and_booked:
  assumes "dget response ''usage'' (JObj []) = JObj us" and "dget us ''prompt_tokens'' (JNum 0) = JNum p"
    and "estimated_prompt messages = Inr est"
  shows "\<exists>bk'. finish_completion tx env cc messages status response bk = (Sent status response, bk') \<and>
     (case calculate_cost env (cc_provider cc) (cc_model cc) (Some response) of
        Inr info \<Rightarrow>
          (if cc_log_up cc
           then map rq_cost (bk_requests bk') = map rq_cost (bk_requests bk) @ [info] \<and>
             budgets (bk_billing bk') =
               (if cc_budget_up cc \<and>
                  \<not> list_ex (\<lambda>b. counted (cc_profile cc) (cc_key cc) b \<and> unreadable b) (budgets (bk_billing bk))
                then map (\<lambda>b. if counted (cc_profile cc) (cc_key cc) b then charged (cc_stamp cc) (ci_cost info) b else b)
                  (budgets (bk_billing bk))
                else budgets (bk_billing bk))
           else bk_requests bk' = bk_requests bk \<and> bk_billing bk' = bk_billing bk)
      | Inl e \<Rightarrow> bk_requests bk' = bk_requests bk \<and> bk_billing bk' = bk_billing bk)"
proof -
  obtain v tv where v: "verify messages (JObj us) (bk_verifier bk) = (Inr v, tv)"
    using verify_numbers[OF refl assms(2,3)] by blast
  let ?bk = "bk\<lparr>bk_verifier := tv\<rparr>"
  have fin: "finish_completion tx env cc messages status response bk = (Sent status response, snd (account tx env cc response ?bk))"
    by (simp add: finish_completion_def assms(1) v)
  show ?thesis
  proof (cases "calculate_cost env (cc_provider cc) (cc_model cc) (Some response)")
    case (Inl e)
    then show ?thesis using fin by (simp add: account_def book_def)
  next
    case (Inr info)
    show ?thesis
    proof (cases "cc_log_up cc")
      case False
      then show ?thesis using fin Inr by (simp add: account_def book_def record_cost_def)
    next
      case True
      obtain bk1 where rec: "record_cost cc info True None ?bk = (None, bk1)"
        using record_cost_up[OF True, of info True None ?bk] by (cases "record_cost cc info True None ?bk") simp
      have bk1: "bk_billing bk1 = bk_billing bk" "map rq_cost (bk_requests bk1) = map rq_cost (bk_requests bk) @ [info]"
        using record_cost_up[OF True, of info True None ?bk] rec by simp_all
      obtain err bl am where tr: "track_budget_spend tx (cc_now cc) (spend_of cc info) (bk_billing bk1) (bk_alerts bk1) = (err, bl, am)"
        by (cases "track_budget_spend tx (cc_now cc) (spend_of cc info) (bk_billing bk1) (bk_alerts bk1)")
      have "bl = snd (spend_step (spend_of cc info) (bk_billing bk))"
        using tr bk1(1) by (auto simp: track_budget_spend_def split_beta Let_def)
      then show ?thesis using fin Inr rec tr bk1 True by (simp add: account_def book_def spend_step_budgets spend_of_def)
    qed
  qed
qed

text \<open>
  Also: a completion whose usage is null, or whose prompt count is null, is lost.  The verification
  before the guarded block raises, the client gets a server error for an answer the provider produced
  and billed, and neither the log nor the budgets learn of it.
\<close>

theorem null_usage_loses_completion:
  assumes "map_of response ''usage'' = Some JNull \<or>
     (\<exists>us. map_of response ''usage'' = Some (JObj us) \<and> map_of us ''prompt_tokens'' = Some JNull \<and>
       estimated_prompt messages = Inr est)"
  shows "\<exists>e. finish_completion tx env cc messages status response bk =
     (Failed e, bk\<lparr>bk_verifier := (bk_verifier bk)\<lparr>tv_checks := Suc (tv_checks (bk_verifier bk))\<rparr>\<rparr>)"
  using assms
proof
  assume "map_of response ''usage'' = Some JNull"
  then show ?thesis by (simp add: finish_completion_def verify_def Let_def)
next
  assume "\<exists>us. map_of response ''usage'' = Some (JObj us) \<and> map_of us ''prompt_tokens'' = Some JNull \<and>
       estimated_prompt messages = Inr est"
  then obtain us where "map_of response ''usage'' = Some (JObj us)" "map_of us ''prompt_tokens'' = Some JNull"
    "estimated_prompt messages = Inr est" by blast
  then show ?thesis by (simp add: finish_completion_def verify_def Let_def)
qed

definition demo_call :: call_ctx where
  "demo_call = \<lparr>cc_profile = ''default'', cc_key = None, cc_model = ''qwen'', cc_provider = ''llamacpp'',
     cc_latency = 10, cc_blocked = [], cc_now = 1000, cc_stamp = ''t'', cc_today = ''1970-01-01'',
     cc_log_up = True, cc_budget_up = True\<rparr>"

definition demo_books :: books where
  "demo_books = \<lparr>bk_verifier = new_verifier, bk_requests = [], bk_local = [],
     bk_billing = demo_billing [demo_budget], bk_alerts = demo_alerts\<rparr>"

definition demo_text :: alert_text where
  "demo_text = \<lparr>at_float = (\<lambda>x. ''x''), at_fixed = (\<lambda>n x. ''x'')\<rparr>"

theorem verified_completion_is_sent_and_booked_witness:
  "fst (finish_completion demo_text demo_cost_env demo_call demo_messages 200 [(''usage'', JObj demo_usage)] demo_books) =
     Sent 200 [(''usage'', JObj demo_usage)]"
  using verified_completion_is_sent_and_booked[where response = "[(''usage'', JObj demo_usage)]" and us = demo_usage
      and p = 1000 and messages = demo_messages and est = 5 and tx = demo_text and env = demo_cost_env
      and cc = demo_call and status = 200 and bk = demo_books, OF _ _ demo_estimate]
  by (auto simp: demo_usage_def)

theorem null_usage_loses_completion_witness:
  "\<exists>e. fst (finish_completion demo_text demo_cost_env demo_call demo_messages 200 [(''usage'', JNull)] demo_books) = Failed e"
  using null_usage_loses_completion[where response = "[(''usage'', JNull)]" and messages = demo_messages
      and tx = demo_text and env = demo_cost_env and cc = demo_call and status = 200 and bk = demo_books]
  by fastforce

definition local_prompt :: "string \<Rightarrow> string \<Rightarrow> books \<Rightarrow> real" where
  "local_prompt day model bk = le_prompt (dget (dget (bk_local bk) day []) model empty_entry)"

lemma account_local:
  assumes "calculate_cost env (cc_provider cc) (cc_model cc) (Some response) = Inr info" and "cc_log_up cc"
  shows "bk_local (snd (account tx env cc response bk)) = bk_local (snd (record_cost cc info True None bk))"
  using assms record_cost_up[OF assms(2), of info True None bk]
  by (cases "record_cost cc info True None bk") (auto simp: account_def book_def split: prod.split)

text \<open>
  Also: the local server's prompt tokens are counted twice.  The hook is given prompt plus misses,
  and without reported cache hits the misses are the whole prompt: every such completion adds twice
  its prompt tokens to the day's count.
\<close>

theorem local_prompt_counted_twice:
  assumes "dget response ''usage'' (JObj []) = JObj us" and "map_of us ''prompt_tokens'' = Some (JNum p)"
    and "map_of us ''completion_tokens'' = Some (JNum c)" and "map_of us ''prompt_cache_miss_tokens'' = None"
    and "read_cache_hit_tokens (ce_hit_field env ''llamacpp'') (Some response) = 0" and "0 < p"
    and "estimated_prompt messages = Inr est" and "cc_provider cc = ''llamacpp''" and "cc_log_up cc"
  shows "local_prompt (cc_today cc) (cc_model cc) (snd (finish_completion tx env cc messages status response bk)) =
     local_prompt (cc_today cc) (cc_model cc) bk + 2 * p"
proof -
  have ne: "response \<noteq> []" using assms(1,2) by auto
  then have us: "usage_of (Some response) = JObj us" using assms(1) by (simp add: usage_of_def)
  have llama: "for_provider ''llamacpp'' = Some LlamaCpp" by (simp add: for_provider_def registered_def)
  have "calculate_cost env ''llamacpp'' (cc_model cc) (Some response) =
      Inr \<lparr>ci_prompt = JNum p, ci_completion = JNum c, ci_hit = 0, ci_miss = JNum p, ci_cost = 0, ci_priced = True\<rparr>"
    using calculate_cost_numbers[OF us, of p c 0 env "''llamacpp''" p "cc_model cc"] assms(2-6) llama
    by (simp add: registry_calculate_cost_def plugin_calculate_cost_def is_free_def)
  then have info: "calculate_cost env (cc_provider cc) (cc_model cc) (Some response) =
      Inr \<lparr>ci_prompt = JNum p, ci_completion = JNum c, ci_hit = 0, ci_miss = JNum p, ci_cost = 0, ci_priced = True\<rparr>"
    by (simp add: assms(8))
  obtain v tv where v: "verify messages (JObj us) (bk_verifier bk) = (Inr v, tv)"
    using verify_numbers[OF refl _ assms(7), of us p "bk_verifier bk"] assms(2) by auto
  let ?bk = "bk\<lparr>bk_verifier := tv\<rparr>"
  have "snd (finish_completion tx env cc messages status response bk) = snd (account tx env cc response ?bk)"
    by (simp add: finish_completion_def assms(1) v)
  then have "bk_local (snd (finish_completion tx env cc messages status response bk)) =
      record_tokens (cc_today cc) (cc_model cc) (p + p) (JNum c) 0 (cc_latency cc) (bk_local bk)"
    using account_local[OF info assms(9), of tx ?bk] assms(8,9) llama
    by (simp add: record_cost_def Let_def)
  then show ?thesis
    by (simp add: local_prompt_def record_tokens_def Let_def update_conv')
qed

lemma demo_no_hits: "read_cache_hit_tokens None
    (Some [(''usage'', JObj [(''prompt_tokens'', JNum 12), (''completion_tokens'', JNum 3)])]) = 0"
proof -
  have s: "split_on (CHR ''.'') ''prompt_cache_hit_tokens'' = [''prompt_cache_hit_tokens'']"
    "split_on (CHR ''.'') ''prompt_tokens_details.cached_tokens'' = [''prompt_tokens_details'', ''cached_tokens'']"
    "split_on (CHR ''.'') ''cache_read_input_tokens'' = [''cache_read_input_tokens'']"
    by code_simp+
  show ?thesis by (simp add: read_cache_hit_tokens_def usage_of_def CACHE_HIT_FIELDS_def read_path_def s)
qed

theorem local_prompt_counted_twice_witness:
  "local_prompt ''1970-01-01'' ''qwen'' (snd (finish_completion demo_text demo_cost_env demo_call demo_messages 200
     [(''usage'', JObj [(''prompt_tokens'', JNum 12), (''completion_tokens'', JNum 3)])] demo_books)) = 24"
  using local_prompt_counted_twice[where response = "[(''usage'', JObj [(''prompt_tokens'', JNum 12), (''completion_tokens'', JNum 3)])]"
      and p = 12 and c = 3 and env = demo_cost_env and cc = demo_call and messages = demo_messages
      and tx = demo_text and status = 200 and bk = demo_books, OF _ _ _ _ _ _ demo_estimate] demo_no_hits
  by (simp add: demo_call_def demo_cost_env_def demo_books_def local_prompt_def empty_entry_def)

end
