(* ===== verification/Route_Table.thy ===== *)
theory Route_Table
  imports Py_Text Py_Numbers
begin

section \<open>The routes of the server (src/server/router.py, src/server/handler.py)\<close>

text \<open>
  The matchers, the ordered rule table with its dispatch, the table the handler builds, and the
  dispatch of the four methods.  An action is the handler method it calls and the path segments it
  passes.  The regular expressions of the table are all anchored sequences of segments: a literal, a
  named group of one or more characters without a slash, or a choice of words; \<open>Segments\<close> is that
  language.  A request path has no newline.  The paths of the model list come from the environment and
  are passed in sorted order.
\<close>

subsection \<open>Matchers\<close>

datatype segment = Lit string | Group string | Choice string "string list"

datatype matcher =
    Exact "string list"
  | Prefix string
  | Suffix string
  | PrefixSuffix string string
  | Segments "segment list"
  | AnyOf "matcher list"

type_synonym params = "(string \<times> string) list"

text \<open>\<open>path.split("?", 1)[0]\<close>\<close>

definition no_query :: "string \<Rightarrow> string" where
  "no_query path = takeWhile (\<lambda>c. c \<noteq> CHR ''?'') path"

fun match_segments :: "segment list \<Rightarrow> string list \<Rightarrow> params option" where
  "match_segments [] [] = Some []"
| "match_segments (Lit s # segs) (p # ps) = (if p = s then match_segments segs ps else None)"
| "match_segments (Group n # segs) (p # ps) =
     (if p = [] then None else map_option ((#) (n, p)) (match_segments segs ps))"
| "match_segments (Choice n ws # segs) (p # ps) =
     (if p \<in> set ws then map_option ((#) (n, p)) (match_segments segs ps) else None)"
| "match_segments _ _ = None"

fun matches :: "matcher \<Rightarrow> string \<Rightarrow> params option" where
  "matches (Exact paths) p = (if p \<in> set paths then Some [] else None)"
| "matches (Prefix pre) p = (if starts_with p pre then Some [] else None)"
| "matches (Suffix suf) p = (if ends_with p suf then Some [] else None)"
| "matches (PrefixSuffix pre suf) p = (if starts_with p pre \<and> ends_with p suf then Some [] else None)"
| "matches (Segments segs) p = (case split_on (CHR ''/'') p of
      [] \<Rightarrow> None
    | first # rest \<Rightarrow> if first = [] then match_segments segs rest else None)"
| "matches (AnyOf []) p = None"
| "matches (AnyOf (m # ms)) p = (case matches m p of Some r \<Rightarrow> Some r | None \<Rightarrow> matches (AnyOf ms) p)"

subsection \<open>The table\<close>

datatype route_action =
    Serve string "nat list"
  | ProfileDashboard
  | ProfileModels
  | MemoryCount
  | MemoryWrite

record route =
  r_method :: string
  r_name :: string
  r_matcher :: matcher
  r_action :: route_action

definition route :: "string \<Rightarrow> string \<Rightarrow> matcher \<Rightarrow> route_action \<Rightarrow> route" where
  "route m n mt a = \<lparr>r_method = m, r_name = n, r_matcher = mt, r_action = a\<rparr>"

definition upper_ascii :: "string \<Rightarrow> string" where
  "upper_ascii s = map (\<lambda>c. if 97 \<le> code c \<and> code c \<le> 122 then char_of (code c - 32) else c) s"

definition add_route :: "string \<Rightarrow> string \<Rightarrow> matcher \<Rightarrow> route_action \<Rightarrow> route list \<Rightarrow> route list" where
  "add_route m n mt a t = t @ [route (upper_ascii m) n mt a]"

definition describe :: "string option \<Rightarrow> route list \<Rightarrow> string list" where
  "describe m t =
     map (\<lambda>r. r_method r @ replicate (6 - length (r_method r)) (CHR '' '') @ '' '' @ r_name r)
       (filter (\<lambda>r. case m of None \<Rightarrow> True | Some w \<Rightarrow> r_method r = upper_ascii w) t)"

definition count_routes :: "string option \<Rightarrow> route list \<Rightarrow> nat" where
  "count_routes m t = length (filter (\<lambda>r. case m of None \<Rightarrow> True | Some w \<Rightarrow> r_method r = upper_ascii w) t)"

text \<open>The rule that runs and the parameters it gets; the method is in upper case.\<close>

fun dispatch :: "string \<Rightarrow> string \<Rightarrow> route list \<Rightarrow> (route \<times> params) option" where
  "dispatch m path [] = None"
| "dispatch m path (r # rs) =
     (if r_method r \<noteq> m then dispatch m path rs
      else case matches (r_matcher r) (no_query path) of
        Some ps \<Rightarrow> Some (r, ps)
      | None \<Rightarrow> dispatch m path rs)"

definition page_routes :: "route list" where
  "page_routes =
    [route ''GET'' ''page.activity'' (Exact [''/activity'']) (Serve ''_serve_activity_page'' []),
     route ''GET'' ''page.conversations'' (Exact [''/conversations'']) (Serve ''_serve_conversations_page'' []),
     route ''GET'' ''page.in_progress'' (Exact [''/in-progress'']) (Serve ''_serve_in_progress_page'' []),
     route ''GET'' ''page.dashboard'' (Exact [''/'', ''/dashboard'']) (Serve ''_serve_dashboard'' []),
     route ''GET'' ''page.keys'' (Exact [''/keys'', ''/keys/dashboard'']) (Serve ''_serve_keys_dashboard'' []),
     route ''GET'' ''page.providers'' (Exact [''/providers'']) (Serve ''_serve_providers_page'' []),
     route ''GET'' ''page.profiles'' (Exact [''/profiles'']) (Serve ''_serve_profiles_page'' []),
     route ''GET'' ''page.profile.detail'' (Segments [Lit ''profiles'', Group ''name'']) (Serve ''_serve_profile_detail_page'' [2]),
     route ''GET'' ''api.profile.avatar'' (Segments [Lit ''api'', Lit ''profiles'', Group ''name'', Lit ''avatar'']) (Serve ''_serve_profile_avatar'' [3]),
     route ''GET'' ''page.models'' (Exact [''/models'']) (Serve ''_serve_models_page'' []),
     route ''GET'' ''page.setup'' (Exact [''/setup'']) (Serve ''_serve_setup_page'' []),
     route ''GET'' ''page.work.tasks'' (Exact [''/work/tasks'']) (Serve ''_serve_work_tasks_page'' []),
     route ''GET'' ''page.work.fleet'' (Exact [''/work/fleet'']) (Serve ''_serve_work_fleet_page'' []),
     route ''GET'' ''page.work.cron'' (Exact [''/work/cron'']) (Serve ''_serve_work_cron_page'' []),
     route ''GET'' ''page.work.config'' (Exact [''/work/config'']) (Serve ''_serve_work_config_page'' []),
     route ''GET'' ''page.usage'' (Exact [''/usage'']) (Serve ''_serve_usage_page'' []),
     route ''GET'' ''page.logs'' (Exact [''/logs'']) (Serve ''_serve_logs_page'' []),
     route ''GET'' ''page.alerts'' (Exact [''/alerts'']) (Serve ''_serve_alerts_page'' []),
     route ''GET'' ''page.dashboard.profile'' (Suffix ''/dashboard'') (ProfileDashboard)]"

definition read_routes :: "string list \<Rightarrow> route list" where
  "read_routes models_paths =
    [route ''GET'' ''api.in_progress'' (Exact [''/api/in-progress'']) (Serve ''_serve_in_progress_json'' []),
     route ''GET'' ''api.conversations'' (Exact [''/api/conversations'']) (Serve ''_serve_conversations_json'' []),
     route ''GET'' ''api.conversation.messages'' (Exact [''/api/conversations/messages'']) (Serve ''_serve_conversation_messages_json'' []),
     route ''GET'' ''api.conversation.audit'' (Exact [''/api/conversations/audit'']) (Serve ''_serve_conversation_audit_json'' []),
     route ''GET'' ''health'' (Exact [''/health'']) (Serve ''_serve_health'' []),
     route ''GET'' ''models.list'' (Exact models_paths) (Serve ''_serve_models'' []),
     route ''GET'' ''models.list.profile'' (AnyOf (map (\<lambda>q. Suffix (CHR ''/'' # dropWhile (\<lambda>c. c = CHR ''/'') q)) models_paths)) (ProfileModels),
     route ''GET'' ''static'' (Prefix ''/static/'') (Serve ''_serve_static'' []),
     route ''GET'' ''errors'' (Prefix ''/errors'') (Serve ''_serve_errors'' []),
     route ''GET'' ''cache.stats'' (Exact [''/cache/stats'']) (Serve ''_serve_cache_stats'' []),
     route ''GET'' ''metrics'' (Exact [''/metrics'']) (Serve ''_serve_metrics'' []),
     route ''GET'' ''export'' (Exact [''/export'']) (Serve ''_serve_export'' []),
     route ''GET'' ''api.settings'' (Exact [''/api/settings'']) (Serve ''_serve_settings_api'' []),
     route ''GET'' ''api.routing.status'' (Exact [''/api/routing/status'']) (Serve ''_serve_routing_status_api'' []),
     route ''GET'' ''api.setup'' (Exact [''/api/setup'']) (Serve ''_serve_setup_api'' []),
     route ''GET'' ''api.setup.progress'' (Exact [''/api/setup/progress'']) (Serve ''_serve_setup_progress_api'' []),
     route ''GET'' ''api.work.decisions'' (Exact [''/api/work/decisions'']) (Serve ''_serve_work_decisions_api'' []),
     route ''GET'' ''api.work.tasks'' (Exact [''/api/work/tasks'']) (Serve ''_serve_work_tasks_api'' []),
     route ''GET'' ''api.work.tasks.detail'' (Exact [''/api/work/tasks/detail'']) (Serve ''_serve_work_tasks_detail_api'' []),
     route ''GET'' ''api.work.fleet'' (Exact [''/api/work/fleet'']) (Serve ''_serve_work_fleet_api'' []),
     route ''GET'' ''api.work.cron'' (Exact [''/api/work/cron'']) (Serve ''_serve_work_cron_api'' []),
     route ''GET'' ''api.work.cron.ops'' (Exact [''/api/work/cron/ops'']) (Serve ''_serve_work_cron_ops_get'' []),
     route ''POST'' ''api.work.cron.ops'' (Exact [''/api/work/cron/ops'']) (Serve ''_serve_work_cron_ops_post'' []),
     route ''GET'' ''api.work.sources'' (Exact [''/api/work/sources'']) (Serve ''_serve_work_sources_get'' []),
     route ''PUT'' ''api.work.sources'' (Exact [''/api/work/sources'']) (Serve ''_serve_work_sources_put'' []),
     route ''GET'' ''api.work.conversations'' (Exact [''/api/work/conversations'']) (Serve ''_serve_work_conversations_api'' []),
     route ''GET'' ''api.work.conversations.detail'' (Exact [''/api/work/conversations/detail'']) (Serve ''_serve_work_conversations_detail_api'' []),
     route ''GET'' ''api.work.requests'' (Exact [''/api/work/requests'']) (Serve ''_serve_work_requests_api'' []),
     route ''GET'' ''api.work.provider-decisions'' (Exact [''/api/work/provider-decisions'']) (Serve ''_serve_work_provider_decisions_api'' []),
     route ''GET'' ''api.work.status'' (Exact [''/api/work/status'']) (Serve ''_serve_work_status_api'' []),
     route ''GET'' ''api.daily-costs'' (Exact [''/api/daily-costs'']) (Serve ''_serve_daily_costs_api'' []),
     route ''GET'' ''api.recent-requests'' (Exact [''/api/recent-requests'']) (Serve ''_serve_recent_requests_api'' []),
     route ''GET'' ''api.logs'' (Exact [''/api/logs'']) (Serve ''_serve_logs_api'' []),
     route ''GET'' ''api.usage.stats'' (Exact [''/api/usage/stats'']) (Serve ''_serve_usage_stats_api'' []),
     route ''GET'' ''api.usage.totals'' (Exact [''/api/usage/totals'']) (Serve ''_serve_usage_totals_api'' []),
     route ''GET'' ''api.providers.presets'' (Exact [''/api/providers/presets'']) (Serve ''_serve_provider_presets'' []),
     route ''GET'' ''api.providers.health'' (Exact [''/api/providers/health'']) (Serve ''_serve_providers_health_api'' []),
     route ''GET'' ''api.providers.failovers'' (Exact [''/api/providers/failovers'']) (Serve ''_serve_providers_failovers_api'' []),
     route ''GET'' ''api.providers.failures'' (Segments [Lit ''api'', Lit ''providers'', Group ''name'', Lit ''failures'']) (Serve ''_serve_provider_failures_api'' [3]),
     route ''GET'' ''api.providers'' (Exact [''/api/providers'']) (Serve ''_serve_providers_list'' []),
     route ''GET'' ''api.profiles.budget'' (Segments [Lit ''api'', Lit ''profiles'', Group ''name'', Lit ''budget'']) (Serve ''_serve_profile_budget'' [3]),
     route ''GET'' ''api.profiles'' (Exact [''/api/profiles'']) (Serve ''_serve_profiles_list'' []),
     route ''GET'' ''api.keys.detail'' (Segments [Lit ''api'', Lit ''keys'', Group ''id'']) (Serve ''_serve_key_detail'' [3]),
     route ''GET'' ''api.keys'' (Exact [''/api/keys'']) (Serve ''_serve_keys_list'' []),
     route ''GET'' ''api.alerts.config'' (Exact [''/api/alerts/config'']) (Serve ''_serve_alerts_config'' []),
     route ''GET'' ''api.alerts.active'' (Exact [''/api/alerts/active'']) (Serve ''_serve_alerts_active'' []),
     route ''GET'' ''api.alerts'' (Exact [''/api/alerts'']) (Serve ''_serve_alerts_list'' []),
     route ''GET'' ''api.budgets.status'' (Exact [''/api/budgets/status'']) (Serve ''_serve_budgets_status'' []),
     route ''GET'' ''api.budgets'' (Exact [''/api/budgets'']) (Serve ''_serve_budgets_list'' []),
     route ''GET'' ''api.cost-plugins.usage'' (Exact [''/api/cost-plugins/usage'']) (Serve ''_serve_plugin_usage'' []),
     route ''GET'' ''api.cost-plugins.balances'' (Exact [''/api/cost-plugins/balances'']) (Serve ''_serve_plugin_balances'' []),
     route ''GET'' ''api.cost-plugins.summary'' (Exact [''/api/cost-plugins/summary'']) (Serve ''_serve_plugin_summary'' []),
     route ''GET'' ''api.cost-plugins.subscriptions'' (Exact [''/api/cost-plugins/subscriptions'']) (Serve ''_serve_plugin_subscriptions'' []),
     route ''GET'' ''api.cost-plugins.cookie'' (Segments [Lit ''api'', Lit ''cost-plugins'', Lit ''cookie'', Group ''provider'']) (Serve ''_serve_plugin_cookie_get'' [4]),
     route ''GET'' ''api.cost-plugins.workspace-id'' (Segments [Lit ''api'', Lit ''cost-plugins'', Lit ''workspace-id'', Group ''provider'']) (Serve ''_serve_plugin_workspace_id_get'' [4]),
     route ''GET'' ''api.models.capability'' (Exact [''/api/models/capability'']) (Serve ''_serve_capability_api'' []),
     route ''GET'' ''api.models.registry'' (Exact [''/api/models/registry'']) (Serve ''_serve_registry_api'' []),
     route ''GET'' ''memory.count'' (Segments [Group ''profile'', Lit ''memory'', Lit ''count'']) (MemoryCount)]"

definition write_routes :: "route list" where
  "write_routes =
    [route ''POST'' ''api.providers.test'' (Exact [''/api/providers/test'']) (Serve ''_serve_provider_test'' []),
     route ''POST'' ''api.providers.discover'' (Exact [''/api/providers/discover'']) (Serve ''_serve_provider_discover'' []),
     route ''POST'' ''api.providers.toggle'' (PrefixSuffix ''/api/providers/'' ''/toggle'') (Serve ''_serve_provider_toggle'' [3]),
     route ''POST'' ''api.providers.rename'' (PrefixSuffix ''/api/providers/'' ''/rename'') (Serve ''_serve_provider_rename'' [3]),
     route ''POST'' ''api.providers'' (Exact [''/api/providers'']) (Serve ''_serve_provider_create'' []),
     route ''POST'' ''api.profile.avatar'' (Segments [Lit ''api'', Lit ''profiles'', Group ''name'', Lit ''avatar'']) (Serve ''_serve_profile_avatar_put'' [3]),
     route ''POST'' ''api.profile.mapping.seed'' (Exact [''/api/profiles/mapping/seed'']) (Serve ''_serve_profile_mapping_seed'' []),
     route ''POST'' ''api.profiles'' (Exact [''/api/profiles'']) (Serve ''_serve_profile_create'' []),
     route ''POST'' ''api.keys.rotate'' (PrefixSuffix ''/api/keys/'' ''/rotate'') (Serve ''_serve_key_rotate'' [3]),
     route ''POST'' ''api.keys'' (Exact [''/api/keys'']) (Serve ''_serve_key_create'' []),
     route ''POST'' ''api.alerts.test-webhook'' (Exact [''/api/alerts/webhook/test'']) (Serve ''_serve_alerts_test_webhook'' []),
     route ''POST'' ''api.alerts.acknowledge'' (PrefixSuffix ''/api/alerts/'' ''/acknowledge'') (Serve ''_serve_alert_acknowledge'' [3]),
     route ''POST'' ''api.budgets'' (Exact [''/api/budgets'']) (Serve ''_serve_budget_create'' []),
     route ''POST'' ''api.setup.skip'' (Exact [''/api/setup/skip'']) (Serve ''_serve_setup_skip_api'' []),
     route ''POST'' ''api.setup.install'' (Segments [Lit ''api'', Lit ''setup'', Lit ''install'', Group ''kind'', Group ''name'']) (Serve ''_serve_setup_install_api'' [4, 5]),
     route ''POST'' ''api.settings.cache.refresh'' (Exact [''/api/settings/cache/refresh'']) (Serve ''_serve_settings_refresh_api'' []),
     route ''POST'' ''api.settings.cache.clear'' (Exact [''/api/settings/cache/clear'']) (Serve ''_serve_settings_cache_clear'' []),
     route ''POST'' ''api.settings'' (Exact [''/api/settings'']) (Serve ''_serve_settings_update_api'' []),
     route ''POST'' ''api.routing.policy'' (Exact [''/api/routing/policy'']) (Serve ''_serve_routing_policy_api'' []),
     route ''POST'' ''api.routing.rules'' (Exact [''/api/routing/rules'']) (Serve ''_serve_routing_rules_api'' []),
     route ''POST'' ''api.circuit-breaker.reset'' (Prefix ''/api/circuit-breaker/reset'') (Serve ''_serve_circuit_breaker_reset'' []),
     route ''POST'' ''api.models.registry'' (Exact [''/api/models/registry'']) (Serve ''_serve_registry_upsert_api'' []),
     route ''POST'' ''api.models.capability.manual'' (Exact [''/api/models/capability/manual'']) (Serve ''_serve_capability_manual_api'' []),
     route ''POST'' ''api.models.capability.seed'' (Exact [''/api/models/capability/seed'']) (Serve ''_serve_capability_seed_api'' []),
     route ''POST'' ''api.cost-plugins.cookie'' (Segments [Lit ''api'', Lit ''cost-plugins'', Lit ''cookie'', Group ''provider'']) (Serve ''_serve_plugin_cookie_set'' [4]),
     route ''POST'' ''api.cost-plugins.workspace-id'' (Segments [Lit ''api'', Lit ''cost-plugins'', Lit ''workspace-id'', Group ''provider'']) (Serve ''_serve_plugin_workspace_id_set'' [4]),
     route ''POST'' ''memory.write'' (Segments [Group ''profile'', Lit ''memory'', Choice ''action'' [''retain'', ''recall'', ''forget'']]) (MemoryWrite)]"

definition build_routes :: "string list \<Rightarrow> route list" where
  "build_routes models_paths = page_routes @ read_routes models_paths @ write_routes"

definition default_models_paths :: "string list" where
  "default_models_paths = [''/models'', ''/v1/models'']"

subsection \<open>The four methods\<close>

text \<open>
  What a request runs: a handler method with its arguments, the proxy, a 404, or an uncaught
  \<open>IndexError\<close>.  \<open>Decoded s\<close> stands for the result of \<open>_path_part\<close>, which is
  \<open>unquote(s)\<close> with non-breaking spaces replaced; \<open>Raw s\<close> is the segment as it was sent.
\<close>

datatype path_arg = Decoded string | Raw string

datatype served =
    Runs string "path_arg list"
  | RunsFor string "string option"
  | Memory string string
  | ProxyRequest
  | NotFound
  | SegmentMissing

definition strip_slashes :: "string \<Rightarrow> string" where
  "strip_slashes path = rev (dropWhile (\<lambda>c. c = CHR ''/'') (rev path))"

definition segments_of :: "string \<Rightarrow> string list" where
  "segments_of path = split_on (CHR ''/'') path"

definition resolve_profile :: "string list \<Rightarrow> string \<Rightarrow> string option" where
  "resolve_profile profiles path =
     (let parts = segments_of (strip_slashes path) in
      if 2 \<le> length parts \<and> parts ! 1 \<in> set profiles then Some (parts ! 1) else None)"

definition memory_profile :: "string list \<Rightarrow> string \<Rightarrow> string option" where
  "memory_profile profiles path =
     (let parts = segments_of (strip_slashes path) in
      if 4 \<le> length parts \<and> parts ! 1 \<in> set profiles \<and> parts ! 2 = ''memory'' then Some (parts ! 1)
      else None)"

definition path_part :: "string \<Rightarrow> nat \<Rightarrow> path_arg option" where
  "path_part path i =
     (let parts = segments_of (no_query path) in if i < length parts then Some (Decoded (parts ! i)) else None)"

fun path_parts :: "string \<Rightarrow> nat list \<Rightarrow> path_arg list option" where
  "path_parts path [] = Some []"
| "path_parts path (i # is) = (case path_part path i of
      None \<Rightarrow> None
    | Some a \<Rightarrow> map_option ((#) a) (path_parts path is))"

fun run_action :: "string list \<Rightarrow> string \<Rightarrow> route_action \<Rightarrow> params \<Rightarrow> served" where
  "run_action profiles path (Serve f is) ps = (case path_parts path is of
      None \<Rightarrow> SegmentMissing
    | Some args \<Rightarrow> Runs f args)"
| "run_action profiles path ProfileDashboard ps =
     RunsFor ''_serve_dashboard'' (case resolve_profile profiles path of
        None \<Rightarrow> None | Some p \<Rightarrow> if p = [] then None else Some p)"
| "run_action profiles path ProfileModels ps = (case resolve_profile profiles path of
      None \<Rightarrow> NotFound
    | Some p \<Rightarrow> if p = [] then NotFound else RunsFor ''_serve_models'' (Some p))"
| "run_action profiles path MemoryCount ps = (case memory_profile profiles path of
      None \<Rightarrow> NotFound
    | Some p \<Rightarrow> if p = [] then NotFound else Memory p ''count'')"
| "run_action profiles path MemoryWrite ps = (case memory_profile profiles path of
      None \<Rightarrow> NotFound
    | Some p \<Rightarrow> if p = [] then NotFound else (case map_of ps ''action'' of
        None \<Rightarrow> SegmentMissing
      | Some a \<Rightarrow> Memory p a))"

definition do_GET :: "route list \<Rightarrow> string list \<Rightarrow> string \<Rightarrow> served" where
  "do_GET t profiles path = (case dispatch ''GET'' path t of
      None \<Rightarrow> NotFound
    | Some (r, ps) \<Rightarrow> run_action profiles path (r_action r) ps)"

definition do_POST :: "route list \<Rightarrow> string list \<Rightarrow> string \<Rightarrow> served" where
  "do_POST t profiles path = (case dispatch ''POST'' path t of
      None \<Rightarrow> if contains path ''/chat/completions'' then ProxyRequest else NotFound
    | Some (r, ps) \<Rightarrow> run_action profiles path (r_action r) ps)"

text \<open>A segment by its index, under a guard on the number of segments or not.\<close>

definition raw_part :: "string \<Rightarrow> string \<Rightarrow> nat \<Rightarrow> served" where
  "raw_part f path i =
     (let parts = segments_of path in if i < length parts then Runs f [Raw (parts ! i)] else SegmentMissing)"

definition decoded_part :: "string \<Rightarrow> string \<Rightarrow> nat \<Rightarrow> served" where
  "decoded_part f path i = (case path_part path i of None \<Rightarrow> SegmentMissing | Some a \<Rightarrow> Runs f [a])"

definition do_PUT :: "string \<Rightarrow> served" where
  "do_PUT path =
     (if starts_with path ''/api/providers/'' \<and> length (segments_of (no_query path)) = 4
        then decoded_part ''_serve_provider_update'' path 3
      else if starts_with path ''/api/chains/'' \<and> length (segments_of path) = 4
        then raw_part ''_serve_chain_reorder'' path 3
      else if starts_with path ''/api/profiles/'' \<and> ends_with path ''/budget''
        then raw_part ''_serve_profile_budget_update'' path 3
      else if starts_with path ''/api/profiles/'' \<and> length (segments_of path) = 4
        then raw_part ''_serve_profile_update'' path 3
      else if path = ''/api/alerts/config'' then Runs ''_serve_alerts_config_update'' []
      else if path = ''/api/work/sources'' then Runs ''_serve_work_sources_put'' []
      else if starts_with path ''/api/budgets/'' \<and> length (segments_of path) = 4
        then raw_part ''_serve_budget_update'' path 3
      else NotFound)"

definition do_DELETE :: "string \<Rightarrow> served" where
  "do_DELETE path =
     (if starts_with path ''/api/providers/'' \<and> length (segments_of (no_query path)) = 4
        then decoded_part ''_serve_provider_delete'' path 3
      else if starts_with path ''/api/keys/'' \<and> length (segments_of path) = 4
        then raw_part ''_serve_key_delete'' path 3
      else if starts_with (no_query path) ''/api/profiles/'' \<and> ends_with (no_query path) ''/avatar'' \<and>
              length (segments_of (no_query path)) = 5
        then decoded_part ''_serve_profile_avatar_delete'' path 3
      else if starts_with path ''/api/profiles/'' \<and> length (segments_of path) = 4
        then raw_part ''_serve_profile_delete'' path 3
      else if starts_with path ''/api/budgets/'' \<and> length (segments_of path) = 4
        then raw_part ''_serve_budget_delete'' path 3
      else if starts_with path ''/api/models/registry/'' \<and> length (segments_of path) = 5
        then raw_part ''_serve_registry_delete_api'' path 4
      else if starts_with path ''/api/setup/'' \<and> length (segments_of path) = 5
        then (let parts = segments_of path in Runs ''_serve_setup_remove_api'' [Raw (parts ! 3), Raw (parts ! 4)])
      else NotFound)"

subsection \<open>No handler is called with a missing segment\<close>

lemma segments_of_prefix:
  assumes "starts_with path pre"
  shows "count_list pre (CHR ''/'') < length (segments_of path)"
  using assms by (auto simp: starts_with_def prefix_def segments_of_def length_split_on)

lemma match_segments_length: "match_segments segs ps = Some r \<Longrightarrow> length ps = length segs"
  by (induction segs ps arbitrary: r rule: match_segments.induct) (auto split: if_splits)

lemma starts_with_no_query:
  assumes "starts_with (no_query path) pre"
  shows "starts_with path pre"
  using assms unfolding starts_with_def no_query_def
  by (meson prefix_order.trans takeWhile_is_prefix)

text \<open>The number of segments a matcher promises.\<close>

fun promised :: "matcher \<Rightarrow> nat" where
  "promised (Prefix p) = Suc (count_list p (CHR ''/''))"
| "promised (PrefixSuffix p s) = Suc (count_list p (CHR ''/''))"
| "promised (Segments segs) = Suc (length segs)"
| "promised _ = 0"

definition memory_write_matcher :: matcher where
  "memory_write_matcher =
     Segments [Group ''profile'', Lit ''memory'', Choice ''action'' [''retain'', ''recall'', ''forget'']]"

definition indices_promised :: "route \<Rightarrow> bool" where
  "indices_promised r = (case r_action r of
      Serve f is \<Rightarrow> list_all (\<lambda>i. i < promised (r_matcher r)) is
    | MemoryWrite \<Rightarrow> r_matcher r = memory_write_matcher
    | _ \<Rightarrow> True)"

lemma matches_promised:
  assumes "matches m p = Some r"
  shows "promised m \<le> length (segments_of p)"
  using assms
  by (cases m)
    (auto simp: Suc_le_eq segments_of_prefix [unfolded segments_of_def] segments_of_def
      split: if_splits list.splits dest!: match_segments_length)

lemma path_parts_in_range:
  "list_all (\<lambda>i. i < length (segments_of (no_query path))) is \<Longrightarrow> path_parts path is \<noteq> None"
  by (induction "is") (auto simp: path_part_def Let_def)

lemma dispatch_Some:
  "dispatch m p t = Some (r, ps) \<Longrightarrow> r \<in> set t \<and> r_method r = m \<and> matches (r_matcher r) (no_query p) = Some ps"
  by (induction t) (auto split: if_splits option.splits)

lemma indices_promised_table: "r \<in> set (build_routes mp) \<Longrightarrow> indices_promised r"
  by (auto simp: build_routes_def page_routes_def read_routes_def write_routes_def route_def
      indices_promised_def memory_write_matcher_def)

lemma memory_write_action:
  assumes "matches memory_write_matcher p = Some ps"
  shows "map_of ps ''action'' \<noteq> None"
proof -
  obtain parts where parts: "match_segments
      [Group ''profile'', Lit ''memory'', Choice ''action'' [''retain'', ''recall'', ''forget'']] parts = Some ps"
    using assms unfolding memory_write_matcher_def by (auto split: list.splits if_splits)
  show ?thesis
  proof (cases parts)
    case (Cons x xs)
    then show ?thesis using parts
      by (cases xs; cases "tl xs"; cases "tl (tl xs)") (auto split: if_splits)
  qed (use parts in simp)
qed

lemma run_action_complete:
  assumes "dispatch m path (build_routes mp) = Some (r, ps)"
  shows "run_action profiles path (r_action r) ps \<noteq> SegmentMissing"
proof -
  have r: "indices_promised r" and m: "matches (r_matcher r) (no_query path) = Some ps"
    using dispatch_Some [OF assms] indices_promised_table by auto
  show ?thesis
  proof (cases "r_action r")
    case (Serve f idx)
    have "path_parts path idx \<noteq> None"
      using r matches_promised [OF m] Serve
      by (intro path_parts_in_range) (fastforce simp: indices_promised_def list_all_iff)
    then show ?thesis using Serve by auto
  next
    case MemoryWrite
    then show ?thesis using r m memory_write_action [of "no_query path" ps]
      by (auto simp: indices_promised_def split: option.splits)
  qed (auto split: option.splits)
qed

lemma raw_part_complete: "i < length (segments_of path) \<Longrightarrow> raw_part f path i \<noteq> SegmentMissing"
  by (simp add: raw_part_def Let_def)

lemma decoded_part_complete:
  "i < length (segments_of (no_query path)) \<Longrightarrow> decoded_part f path i \<noteq> SegmentMissing"
  by (simp add: decoded_part_def path_part_def Let_def)

lemma profile_path_has_name: "starts_with path ''/api/profiles/'' \<Longrightarrow> 3 < length (segments_of path)"
  using segments_of_prefix [of path "''/api/profiles/''"] by simp

text \<open>
  Also: Whatever the path and the method, no admin route indexes past the segments of the path: the pattern
  of every rule, and every guard of the PUT and DELETE chains, promises the segments its action reads,
  so a request ends in a handler, the proxy or a 404 and never in an uncaught IndexError.
\<close>

theorem every_handler_gets_its_segments:
  "do_GET (build_routes mp) profiles path \<noteq> SegmentMissing \<and>
   do_POST (build_routes mp) profiles path \<noteq> SegmentMissing \<and>
   do_PUT path \<noteq> SegmentMissing \<and> do_DELETE path \<noteq> SegmentMissing"
proof (intro conjI)
  show "do_GET (build_routes mp) profiles path \<noteq> SegmentMissing"
    by (auto simp: do_GET_def run_action_complete split: option.split)
  show "do_POST (build_routes mp) profiles path \<noteq> SegmentMissing"
    by (auto simp: do_POST_def run_action_complete split: option.split)
  show "do_PUT path \<noteq> SegmentMissing"
    by (simp add: do_PUT_def raw_part_complete decoded_part_complete profile_path_has_name)
  show "do_DELETE path \<noteq> SegmentMissing"
    by (simp add: do_DELETE_def raw_part_complete decoded_part_complete Let_def)
qed

subsection \<open>A completion request is never taken by an admin rule\<close>

definition completion_path :: "string \<Rightarrow> string \<Rightarrow> string" where
  "completion_path p v = ''/'' @ p @ v @ ''/chat/completions''"

lemma completion_segments:
  assumes "CHR ''/'' \<notin> set p"
  shows "split_on (CHR ''/'') (completion_path p '''') = ['''', p, ''chat'', ''completions'']"
    and "split_on (CHR ''/'') (completion_path p ''/v1'') = ['''', p, ''v1'', ''chat'', ''completions'']"
  using split_on_free [OF assms, of "''chat/completions''"]
    split_on_free [OF assms, of "''v1/chat/completions''"]
  by (simp_all add: completion_path_def)

lemma completion_not_exact: "\<not> ends_with l ''/chat/completions'' \<Longrightarrow> completion_path p v \<noteq> l"
  by (auto simp: ends_with_def completion_path_def suffix_def)

lemma completion_not_reset:
  assumes "CHR ''/'' \<notin> set p" "v \<in> {'''', ''/v1''}"
  shows "\<not> starts_with (completion_path p v) ''/api/circuit-breaker/reset''"
proof
  assume "starts_with (completion_path p v) ''/api/circuit-breaker/reset''"
  then obtain z where z: "completion_path p v = ''/api/circuit-breaker/reset'' @ z"
    by (auto simp: starts_with_def prefix_def)
  have "split_on (CHR ''/'') (''/api/circuit-breaker/reset'' @ z) ! 2 = ''circuit-breaker''"
    using split_on_free [of "CHR ''/''" "''''" "''api/circuit-breaker/reset'' @ z"]
      split_on_free [of "CHR ''/''" "''api''" "''circuit-breaker/reset'' @ z"]
      split_on_free [of "CHR ''/''" "''circuit-breaker''" "''reset'' @ z"]
    by simp
  then show False using completion_segments [OF assms(1)] assms(2) unfolding z [symmetric] by auto
qed

definition passes_completions :: "route \<Rightarrow> bool" where
  "passes_completions r \<longleftrightarrow> (case r_matcher r of
      Exact ls \<Rightarrow> list_all (\<lambda>l. \<not> ends_with l ''/chat/completions'') ls
    | Prefix pre \<Rightarrow> pre = ''/api/circuit-breaker/reset''
    | PrefixSuffix pre suf \<Rightarrow> \<not> ends_with ''/chat/completions'' suf \<and> length suf \<le> 17
    | Segments segs \<Rightarrow> (case segs of
          Lit a # Lit b # _ \<Rightarrow> b \<notin> {''chat'', ''v1''}
        | Group n # Lit b # _ \<Rightarrow> b = ''memory''
        | _ \<Rightarrow> False)
    | _ \<Rightarrow> False)"

lemma write_routes_pass: "list_all passes_completions write_routes"
  by code_simp

lemma other_routes_not_POST:
  "list_all (\<lambda>r. r_method r = ''POST'' \<longrightarrow> passes_completions r) (page_routes @ read_routes mp)"
  by (simp add: page_routes_def read_routes_def route_def passes_completions_def ends_with_def suffix_def)

lemma completion_not_suffix:
  assumes "\<not> ends_with ''/chat/completions'' suf" "length suf \<le> 17"
  shows "\<not> ends_with (completion_path p v) suf"
proof
  assume "ends_with (completion_path p v) suf"
  moreover have "suffix ''/chat/completions'' (completion_path p v)"
    by (auto simp: completion_path_def suffix_def)
  ultimately have "suffix suf ''/chat/completions''"
    unfolding ends_with_def by (rule suffix_length_suffix) (use assms(2) in simp)
  then show False using assms(1) by (simp add: ends_with_def)
qed

lemma passes_completions_sound:
  assumes "passes_completions r" "CHR ''/'' \<notin> set p" "v \<in> {'''', ''/v1''}"
  shows "matches (r_matcher r) (completion_path p v) = None"
proof (cases "r_matcher r")
  case (Exact ls)
  then show ?thesis using assms(1) completion_not_exact
    by (auto simp: passes_completions_def list_all_iff)
next
  case (Prefix pre)
  then show ?thesis using assms(1) completion_not_reset [OF assms(2,3)]
    by (auto simp: passes_completions_def)
next
  case (PrefixSuffix pre suf)
  then show ?thesis using assms(1) completion_not_suffix
    by (auto simp: passes_completions_def)
next
  case (Segments segs)
  then show ?thesis using assms(1,3) completion_segments [OF assms(2)]
    by (auto simp: passes_completions_def split: list.splits segment.splits)
qed (use assms(1) in \<open>auto simp: passes_completions_def\<close>)

lemma dispatch_None:
  "(\<And>r. r \<in> set t \<Longrightarrow> r_method r = m \<Longrightarrow> matches (r_matcher r) (no_query p) = None) \<Longrightarrow> dispatch m p t = None"
  by (induction t) auto

lemma completion_no_query:
  assumes "CHR ''?'' \<notin> set p" "v \<in> {'''', ''/v1''}"
  shows "no_query (completion_path p v) = completion_path p v"
  using assms by (auto simp: no_query_def completion_path_def takeWhile_eq_all_conv)

lemma completion_profile:
  assumes "CHR ''/'' \<notin> set p" "v \<in> {'''', ''/v1''}"
  shows "resolve_profile profiles (completion_path p v) = (if p \<in> set profiles then Some p else None)"
proof -
  have "strip_slashes (completion_path p v) = completion_path p v"
    by (simp add: strip_slashes_def completion_path_def)
  then show ?thesis
    using assms(2) completion_segments [OF assms(1)]
    by (auto simp: resolve_profile_def segments_of_def Let_def)
qed

lemma completion_contains: "contains (completion_path p v) ''/chat/completions''"
  by (auto simp: contains_sublist sublist_def completion_path_def intro: exI [of _ "''/'' @ p @ v"])

text \<open>
  C13: A chat request to one path segment, with or without \<open>/v1\<close> after it, is taken by no admin rule, whatever the
  segment is (the text between the slashes as the client sent it, so without a slash and a question mark) and
  whatever model paths the environment names: it reaches the proxy, which finds the profile of exactly that name in
  the path, and none when no profile is called so.  The segment is not decoded: a profile whose name has to be encoded
  in a URL is never found by its path.
\<close>

theorem completions_reach_the_proxy:
  assumes "CHR ''/'' \<notin> set p" "CHR ''?'' \<notin> set p" "v \<in> {'''', ''/v1''}"
  shows "do_POST (build_routes mp) profiles (completion_path p v) = ProxyRequest \<and>
         resolve_profile profiles (completion_path p v) = (if p \<in> set profiles then Some p else None)"
proof -
  have "dispatch ''POST'' (completion_path p v) (build_routes mp) = None"
  proof (rule dispatch_None)
    fix r assume "r \<in> set (build_routes mp)" "r_method r = ''POST''"
    then have "passes_completions r"
      using write_routes_pass other_routes_not_POST [of mp]
      by (auto simp: build_routes_def list_all_iff)
    then show "matches (r_matcher r) (no_query (completion_path p v)) = None"
      using passes_completions_sound assms(1,3) by (simp add: completion_no_query assms(2,3))
  qed
  then show ?thesis
    using completion_contains [of p v] completion_profile [OF assms(1,3)] by (simp add: do_POST_def)
qed

theorem completions_reach_the_proxy_witness:
  "do_POST (build_routes default_models_paths) [''coder'', ''local llm''] ''/coder/v1/chat/completions'' = ProxyRequest \<and>
   resolve_profile [''coder'', ''local llm''] ''/coder/v1/chat/completions'' = Some ''coder'' \<and>
   do_POST (build_routes default_models_paths) [''coder'', ''local llm''] ''/local%20llm/chat/completions'' = ProxyRequest \<and>
   resolve_profile [''coder'', ''local llm''] ''/local%20llm/chat/completions'' = None"
  using completions_reach_the_proxy [of "''coder''" "''/v1''" default_models_paths "[''coder'', ''local llm'']"]
    completions_reach_the_proxy [of "''local%20llm''" "''''" default_models_paths "[''coder'', ''local llm'']"]
  by (simp add: completion_path_def)

subsection \<open>Every rule is reached\<close>

text \<open>A path for every way a rule is written to be reached.\<close>

fun segment_sample :: "segment \<Rightarrow> string" where
  "segment_sample (Lit s) = s"
| "segment_sample (Group n) = ''x''"
| "segment_sample (Choice n ws) = hd ws"

fun samples :: "matcher \<Rightarrow> string list" where
  "samples (Exact ps) = ps"
| "samples (Prefix p) = [p]"
| "samples (Suffix s) = [''/coder'' @ s]"
| "samples (PrefixSuffix p s) = [p @ ''x'' @ s]"
| "samples (Segments segs) = [concat (map (\<lambda>s. CHR ''/'' # segment_sample s) segs)]"
| "samples (AnyOf ms) = concat (map samples ms)"

definition reaches :: "route list \<Rightarrow> route \<Rightarrow> string \<Rightarrow> bool" where
  "reaches t r path = (case dispatch (r_method r) path t of None \<Rightarrow> False | Some (r', ps) \<Rightarrow> r_name r' = r_name r)"

definition unreached :: "route list \<Rightarrow> route list \<Rightarrow> (string \<times> string) list" where
  "unreached t rs =
     concat (map (\<lambda>r. map (\<lambda>p. (r_name r, p)) (filter (\<lambda>p. \<not> reaches t r p) (samples (r_matcher r)))) rs)"

lemma unreached_append: "unreached t (a @ b) = unreached t a @ unreached t b"
  by (simp add: unreached_def)

text \<open>The rules of one method decide its requests.\<close>

lemma dispatch_method: "dispatch m p (filter (\<lambda>r. r_method r = m) t) = dispatch m p t"
  by (induction t) (auto split: option.splits)

lemma unreached_method:
  assumes "\<And>r. r \<in> set rs \<Longrightarrow> r_method r = m"
  shows "unreached (filter (\<lambda>r. r_method r = m) t) rs = unreached t rs"
proof -
  have "reaches (filter (\<lambda>r. r_method r = m) t) r p = reaches t r p" if "r \<in> set rs" for r p
    using assms [OF that] by (simp add: reaches_def dispatch_method)
  then show ?thesis by (induction rs) (simp_all add: unreached_def assms)
qed


text \<open>The table with the model paths the server uses when the environment names none.\<close>

definition default_routes :: "route list" where
  "default_routes = build_routes default_models_paths"

definition get_routes :: "route list" where
  "get_routes = filter (\<lambda>r. r_method r = ''GET'') default_routes"

lemma unreached_page: "unreached get_routes page_routes = []"
  by code_simp

lemma unreached_read_1:
  "unreached get_routes (filter (\<lambda>r. r_method r = ''GET'') (take 20 (read_routes default_models_paths))) =
     [(''models.list'', ''/models'')]"
  by code_simp

lemma unreached_read_2:
  "unreached get_routes
     (filter (\<lambda>r. r_method r = ''GET'') (take 20 (drop 20 (read_routes default_models_paths)))) = []"
  by code_simp

lemma unreached_read_3:
  "unreached get_routes
     (filter (\<lambda>r. r_method r = ''GET'') (drop 40 (read_routes default_models_paths))) = []"
  by code_simp

lemma unreached_write: "unreached (filter (\<lambda>r. r_method r = ''POST'') default_routes) write_routes = []"
  by code_simp

lemma unreached_GET:
  "unreached default_routes (filter (\<lambda>r. r_method r = ''GET'') default_routes) = [(''models.list'', ''/models'')]"
proof -
  let ?get = "filter (\<lambda>r. r_method r = ''GET'')"
  let ?reads = "read_routes default_models_paths"
  have reads: "?reads = take 20 ?reads @ take 20 (drop 20 ?reads) @ drop 40 ?reads"
    by (metis append_take_drop_id drop_drop add_2_eq_Suc' numeral_Bit0)
  have pages: "?get page_routes = page_routes" and writes: "?get write_routes = []"
    by (simp_all add: page_routes_def write_routes_def route_def)
  have "?get default_routes = page_routes @ ?get ?reads"
    by (simp add: default_routes_def build_routes_def pages writes)
  moreover have "?get ?reads = ?get (take 20 ?reads) @ ?get (take 20 (drop 20 ?reads)) @ ?get (drop 40 ?reads)"
    by (subst reads) (simp only: filter_append)
  ultimately have "unreached get_routes (?get default_routes) = [(''models.list'', ''/models'')]"
    by (simp only: unreached_append unreached_page unreached_read_1 unreached_read_2 unreached_read_3
        append_Nil append_Nil2)
  then show ?thesis
    unfolding get_routes_def by (subst (asm) unreached_method) auto
qed

lemma unreached_POST: "unreached default_routes (filter (\<lambda>r. r_method r = ''POST'') default_routes) = []"
proof -
  let ?post = "filter (\<lambda>r. r_method r = ''POST'')"
  have pages: "?post page_routes = []" and writes: "?post write_routes = write_routes"
    by (simp_all add: page_routes_def write_routes_def route_def)
  have cron: "unreached (?post default_routes) (?post (read_routes default_models_paths)) = []"
    by code_simp
  have "unreached (?post default_routes) (?post default_routes) = []"
    using cron unreached_write
    by (simp add: default_routes_def build_routes_def pages writes unreached_append)
  then show ?thesis by (subst (asm) unreached_method) auto
qed

text \<open>
  Also: Every GET and POST rule of the table is reached by every path written for it, so no rule is
  shadowed by an earlier one, with one exception: /models is answered by the models page, and the
  model list registered for it never is.
\<close>

theorem rules_are_reached:
  "unreached default_routes (filter (\<lambda>r. r_method r = ''GET'') default_routes) = [(''models.list'', ''/models'')] \<and>
   unreached default_routes (filter (\<lambda>r. r_method r = ''POST'') default_routes) = []"
  using unreached_GET unreached_POST by (rule conjI)

text \<open>The budget of a profile is read under the decoded name and written under the encoded one.\<close>

theorem profile_budget_written_under_encoded_name:
  "do_GET default_routes [''local llm''] ''/api/profiles/local%20llm/budget'' =
     Runs ''_serve_profile_budget'' [Decoded ''local%20llm''] \<and>
   do_PUT ''/api/profiles/local%20llm/budget'' =
     Runs ''_serve_profile_budget_update'' [Raw ''local%20llm'']"
  by code_simp

end
