(* ===== verification/Gateway_Config.thy ===== *)
theory Gateway_Config
  imports Py_Numbers
begin

section \<open>The configuration of the gateway (src/api/config.py)\<close>

text \<open>
  The configuration is a dictionary of sections.  It is read from the settings table at start, every
  missing or invalid section is taken from the seed, and an edit writes all sections back.  The table
  holds JSON text: a row is the decoded value, or \<open>None\<close> when the text cannot be decoded.  A number
  is not NaN and not infinite.  A failed write of a section is a flag of the store.
\<close>

datatype config_error =
    BadAgentProfile | BadRouting | BadIntents | EmptyIntent | LongIntent | BadGate | GateOutOfRange
  | BadDescription | MissingPort | MissingDefaultProfile | ProfilesNotDict | MissingChain string
  | EmptyChain string | PricingNotList | NotDict string

subsection \<open>The optional fields of a profile\<close>

definition INTENT_MAX_LEN :: nat where "INTENT_MAX_LEN = 64"
definition INTENTS_MAX :: nat where "INTENTS_MAX = 32"
definition PROFILE_DESC_MAX :: nat where "PROFILE_DESC_MAX = 120"
definition ROUTING_MODES :: "string list" where "ROUTING_MODES = ['''', ''static'', ''dynamic'']"

definition name_char :: "char \<Rightarrow> bool" where
  "name_char c \<longleftrightarrow> c \<in> set ''ABCDEFGHIJKLMNOPQRSTUVWXYZabcdefghijklmnopqrstuvwxyz0123456789._-''"

text \<open>\<open>profile_data.validate_name\<close>: the name without white space around it, or a refusal.\<close>

definition validate_name :: "string \<Rightarrow> string option" where
  "validate_name n =
     (let name = strip n in
      if name \<noteq> [] \<and> length name \<le> 64 \<and> list_all name_char name \<and> name \<noteq> ''.'' \<and> name \<noteq> ''..''
      then Some name else None)"

fun agent_field :: "json \<Rightarrow> config_error + string" where
  "agent_field JNull = Inr []"
| "agent_field (JStr s) =
     (if strip s = [] then Inr []
      else case validate_name (strip s) of None \<Rightarrow> Inl BadAgentProfile | Some a \<Rightarrow> Inr a)"
| "agent_field _ = Inl BadAgentProfile"

definition routing_field :: "json \<Rightarrow> config_error + string" where
  "routing_field v =
     (if \<not> truthy v then Inr []
      else case v of
        JStr s \<Rightarrow> (let r = lower (strip s) in if r \<in> set ROUTING_MODES then Inr r else Inl BadRouting)
      | _ \<Rightarrow> Inl BadRouting)"

fun clean_intents :: "string list \<Rightarrow> json list \<Rightarrow> config_error + string list" where
  "clean_intents cleaned [] = Inr cleaned"
| "clean_intents cleaned (it # its) = (case it of
      JStr s \<Rightarrow>
        if strip s = [] then Inl EmptyIntent
        else if INTENT_MAX_LEN < length (strip s) then Inl LongIntent
        else clean_intents (if strip s \<in> set cleaned then cleaned else cleaned @ [strip s]) its
    | _ \<Rightarrow> Inl EmptyIntent)"

fun intents_field :: "json \<Rightarrow> config_error + string list" where
  "intents_field JNull = Inr []"
| "intents_field (JList its) = (if INTENTS_MAX < length its then Inl BadIntents else clean_intents [] its)"
| "intents_field _ = Inl BadIntents"

fun gate_field :: "json \<Rightarrow> config_error + real" where
  "gate_field JNull = Inr 0"
| "gate_field (JNum x) = (if 0 \<le> x \<and> x \<le> 1 then Inr x else Inl GateOutOfRange)"
| "gate_field _ = Inl BadGate"

fun description_field :: "json \<Rightarrow> config_error + string" where
  "description_field JNull = Inr []"
| "description_field (JStr s) = Inr (take PROFILE_DESC_MAX (strip s))"
| "description_field _ = Inl BadDescription"

definition validate_profile_fields :: "obj \<Rightarrow> config_error + obj" where
  "validate_profile_fields prof =
     rbind (agent_field (dget prof ''agent_profile'' (JStr []))) (\<lambda>agent.
     rbind (routing_field (dget prof ''routing'' (JStr []))) (\<lambda>routing.
     rbind (intents_field (dget prof ''intents'' (JList []))) (\<lambda>intents.
     rbind (gate_field (dget prof ''intent_margin_gate'' (JNum 0))) (\<lambda>gate.
     rbind (description_field (dget prof ''description'' (JStr []))) (\<lambda>desc.
       Inr (AList.update ''description'' (JStr desc)
           (AList.update ''intent_margin_gate'' (JNum gate)
           (AList.update ''intents'' (JList (map JStr intents))
           (AList.update ''routing'' (JStr routing)
           (AList.update ''agent_profile'' (JStr agent) prof))))))))))"

subsection \<open>Sections\<close>

definition REQUIRED_SECTIONS :: "string list" where
  "REQUIRED_SECTIONS = [''server'', ''profiles'', ''providers'', ''pricing'', ''circuit_breaker'', ''database'']"

definition ALL_SECTIONS :: "string list" where
  "ALL_SECTIONS = [''server'', ''profiles'', ''providers'', ''pricing'', ''circuit_breaker'', ''retry'',
     ''database'', ''dynamic_routing'', ''model_limits'', ''plugins'']"

fun is_obj :: "json \<Rightarrow> bool" where
  "is_obj (JObj d) = True"
| "is_obj _ = False"

fun is_list :: "json \<Rightarrow> bool" where
  "is_list (JList xs) = True"
| "is_list _ = False"

definition validate_profile :: "string \<Rightarrow> json \<Rightarrow> config_error option" where
  "validate_profile name prof = (case prof of
      JObj d \<Rightarrow> (case map_of d ''chain'' of
          None \<Rightarrow> Some (MissingChain name)
        | Some chain \<Rightarrow>
            if \<not> truthy chain then Some (EmptyChain name)
            else (case validate_profile_fields d of Inl e \<Rightarrow> Some e | Inr _ \<Rightarrow> None))
    | _ \<Rightarrow> Some (MissingChain name))"

fun validate_profiles :: "(string \<times> json) list \<Rightarrow> config_error option" where
  "validate_profiles [] = None"
| "validate_profiles ((n, p) # ps) = (case validate_profile n p of
      Some e \<Rightarrow> Some e
    | None \<Rightarrow> validate_profiles ps)"

definition validate_section :: "string \<Rightarrow> json \<Rightarrow> config_error option" where
  "validate_section section data =
     (if section = ''server'' then (case data of
          JObj d \<Rightarrow>
            if ''port'' \<notin> set (keys d) then Some MissingPort
            else if ''default_profile'' \<notin> set (keys d) then Some MissingDefaultProfile
            else None
        | _ \<Rightarrow> Some MissingPort)
      else if section = ''profiles'' then (case data of
          JObj d \<Rightarrow> validate_profiles d
        | _ \<Rightarrow> Some ProfilesNotDict)
      else if section = ''pricing'' then (if is_list data then None else Some PricingNotList)
      else if section \<in> {''providers'', ''circuit_breaker'', ''database''} then
        (if is_obj data then None else Some (NotDict section))
      else None)"

subsection \<open>The settings table\<close>

type_synonym section_rows = "(string, json option) dict"

record section_store =
  st_rows :: section_rows
  st_fails :: "string list" \<comment> \<open>keys whose write fails\<close>

definition config_section_key :: "string \<Rightarrow> string" where
  "config_section_key section = ''gateway_config:'' @ section"

definition get_config_section :: "string \<Rightarrow> section_store \<Rightarrow> json option" where
  "get_config_section section st = (case map_of (st_rows st) (config_section_key section) of
      Some (Some v) \<Rightarrow> if is_obj v \<or> is_list v then Some v else None
    | _ \<Rightarrow> None)"

definition set_config_section :: "string \<Rightarrow> json \<Rightarrow> section_store \<Rightarrow> section_store" where
  "set_config_section section v st =
     (if config_section_key section \<in> set (st_fails st) then st
      else st\<lparr>st_rows := AList.update (config_section_key section)
                 (Some (if truthy v then v else JObj [])) (st_rows st)\<rparr>)"

subsection \<open>Loading and saving\<close>

record config =
  cfg_store :: "section_store option"
  cfg_seed :: obj
  cfg_data :: obj

definition hydrate_section :: "section_store option \<Rightarrow> obj \<Rightarrow> string \<Rightarrow> json" where
  "hydrate_section store seed section =
     (case Option.bind store (get_config_section section) of
        Some v \<Rightarrow> if truthy v then v
          else (case map_of seed section of Some j \<Rightarrow> if j \<noteq> JNull then j else JObj [] | None \<Rightarrow> JObj [])
      | None \<Rightarrow> (case map_of seed section of Some j \<Rightarrow> if j \<noteq> JNull then j else JObj [] | None \<Rightarrow> JObj []))"

definition fall_back :: "obj \<Rightarrow> string \<Rightarrow> obj \<Rightarrow> obj" where
  "fall_back seed section data =
     (case validate_section section (dget data section JNull) of
        None \<Rightarrow> data
      | Some e \<Rightarrow> (case map_of seed section of None \<Rightarrow> data | Some j \<Rightarrow> AList.update section j data))"

text \<open>\<open>data[section][key] = v\<close>, where a failure is swallowed.\<close>

definition override_section :: "string \<Rightarrow> string \<Rightarrow> json \<Rightarrow> obj \<Rightarrow> obj" where
  "override_section section key v data = (case map_of data section of
      Some (JObj d) \<Rightarrow> AList.update section (JObj (AList.update key v d)) data
    | _ \<Rightarrow> data)"

definition apply_env :: "string option \<Rightarrow> string option \<Rightarrow> obj \<Rightarrow> obj" where
  "apply_env listen_port cost_db data =
     (let port = (case listen_port of
              None \<Rightarrow> data
            | Some p \<Rightarrow> if p = [] then data
                else (case py_int p of None \<Rightarrow> data
                  | Some i \<Rightarrow> override_section ''server'' ''port'' (JNum (of_int i)) data))
      in case cost_db of
          None \<Rightarrow> port
        | Some p \<Rightarrow> if p = [] then port else override_section ''database'' ''path'' (JStr p) port)"

definition hydrate :: "string option \<Rightarrow> string option \<Rightarrow> config \<Rightarrow> config" where
  "hydrate listen_port cost_db c =
     (let loaded = map (\<lambda>s. (s, hydrate_section (cfg_store c) (cfg_seed c) s)) ALL_SECTIONS;
          valid = fold (fall_back (cfg_seed c)) REQUIRED_SECTIONS loaded
      in c\<lparr>cfg_data := apply_env listen_port cost_db valid\<rparr>)"

definition new_config :: "section_store option \<Rightarrow> obj \<Rightarrow> string option \<Rightarrow> string option \<Rightarrow> config" where
  "new_config store seed listen_port cost_db =
     hydrate listen_port cost_db \<lparr>cfg_store = store, cfg_seed = seed, cfg_data = []\<rparr>"

fun save_sections :: "string list \<Rightarrow> obj \<Rightarrow> section_store \<Rightarrow> section_store" where
  "save_sections [] data st = st"
| "save_sections (s # ss) data st = (case map_of data s of
      None \<Rightarrow> save_sections ss data st
    | Some v \<Rightarrow> if v = JNull then save_sections ss data st
        else save_sections ss data (set_config_section s v st))"

definition save :: "config \<Rightarrow> config" where
  "save c = (case cfg_store c of
      None \<Rightarrow> c
    | Some st \<Rightarrow> c\<lparr>cfg_store := Some (save_sections ALL_SECTIONS (cfg_data c) st)\<rparr>)"

text \<open>What a restart makes of the stored sections.\<close>

definition restart :: "string option \<Rightarrow> string option \<Rightarrow> config \<Rightarrow> config" where
  "restart listen_port cost_db c = new_config (cfg_store c) (cfg_seed c) listen_port cost_db"

subsection \<open>Accessors\<close>

definition section_of :: "config \<Rightarrow> string \<Rightarrow> json" where
  "section_of c s = dget (cfg_data c) s JNull"

definition profiles_of :: "config \<Rightarrow> obj" where
  "profiles_of c = (case section_of c ''profiles'' of JObj d \<Rightarrow> d | _ \<Rightarrow> [])"

definition providers_of :: "config \<Rightarrow> obj" where
  "providers_of c = (case section_of c ''providers'' of JObj d \<Rightarrow> d | _ \<Rightarrow> [])"

definition default_retry :: json where
  "default_retry = JObj [(''max_attempts'', JNum 3), (''backoff_base'', JNum 0.5), (''backoff_multiplier'', JNum 2),
     (''max_backoff'', JNum 10), (''jitter'', JBool True)]"

definition retry_of :: "config \<Rightarrow> json" where
  "retry_of c = dget (cfg_data c) ''retry'' default_retry"

definition dynamic_routing_of :: "config \<Rightarrow> json" where
  "dynamic_routing_of c =
     dget (cfg_data c) ''dynamic_routing'' (JObj [(''enabled'', JBool False), (''cost_bias'', JNum 0.15)])"

definition get_profile :: "string \<Rightarrow> config \<Rightarrow> json option" where
  "get_profile name c = map_of (profiles_of c) name"

definition no_cache_config :: json where
  "no_cache_config = JObj [(''strategy'', JStr ''none''), (''savings'', JStr ''none''), (''hit_field'', JNull)]"

definition get_provider_cache_config :: "string \<Rightarrow> config \<Rightarrow> json res" where
  "get_provider_cache_config name c =
     py_get (dget (providers_of c) name (JObj [])) ''cache'' no_cache_config"

subsection \<open>The seed\<close>

text \<open>
  The sections a fresh database gets, but \<open>model_limits\<close>, whose descriptions leave the code points of
  the model; it is an argument.
\<close>

definition seed_profiles :: json where
  "seed_profiles = JObj [
      (''l2'', JObj [
          (''forbidden_tools'', JList [JStr ''write_file'', JStr ''patch'', JStr ''cronjob'']),
          (''chain'', JList [
              JObj [(''provider'', JStr ''opencode''), (''model'', JStr ''deepseek-v4-pro''), (''base_url'', JStr ''https://opencode.ai/inference/openai/v1'')],
              JObj [(''provider'', JStr ''deepseek''), (''model'', JStr ''deepseek-v4-pro''), (''base_url'', JStr ''https://api.deepseek.com/v1'')]]),
          (''auth_required'', JBool False)]),
      (''l1'', JObj [
          (''forbidden_tools'', JList [JStr ''write_file'', JStr ''patch'', JStr ''terminal'', JStr ''execute_code'', JStr ''cronjob'', JStr ''process'', JStr ''delegate_task'', JStr ''memory'', JStr ''send_message'', JStr ''vision_analyze'']),
          (''chain'', JList [
              JObj [(''provider'', JStr ''opencode''), (''model'', JStr ''deepseek-v4-flash''), (''base_url'', JStr ''https://opencode.ai/inference/openai/v1'')],
              JObj [(''provider'', JStr ''deepseek''), (''model'', JStr ''deepseek-v4-flash''), (''base_url'', JStr ''https://api.deepseek.com/v1'')]]),
          (''auth_required'', JBool False)]),
      (''career'', JObj [
          (''forbidden_tools'', JList [
              JStr ''write_file'',
              JStr ''patch'',
              JStr ''terminal'',
              JStr ''execute_code'',
              JStr ''cronjob'',
              JStr ''process'',
              JStr ''delegate_task'',
              JStr ''memory'',
              JStr ''vision_analyze'',
              JStr ''read_file'',
              JStr ''search_files'',
              JStr ''skill_manage'',
              JStr ''todo'']),
          (''chain'', JList [JObj [(''provider'', JStr ''deepseek''), (''model'', JStr ''deepseek-v4-flash''), (''base_url'', JStr ''https://api.deepseek.com/v1'')]]),
          (''auth_required'', JBool False)]),
      (''cron'', JObj [
          (''chain'', JList [JObj [(''provider'', JStr ''deepseek''), (''model'', JStr ''deepseek-v4-flash''), (''base_url'', JStr ''https://api.deepseek.com/v1'')]]),
          (''forbidden_tools'', JNull),
          (''auth_required'', JBool False)]),
      (''coder'', JObj [
          (''chain'', JList [
              JObj [(''provider'', JStr ''opencode''), (''model'', JStr ''deepseek-v4-pro''), (''base_url'', JStr ''https://opencode.ai/inference/openai/v1'')],
              JObj [(''provider'', JStr ''deepseek''), (''model'', JStr ''deepseek-v4-flash''), (''base_url'', JStr ''https://api.deepseek.com/v1'')]]),
          (''forbidden_tools'', JList []),
          (''auth_required'', JBool True)])]"

definition seed_providers :: json where
  "seed_providers = JObj [
      (''opencode'', JObj [
          (''api_key_env'', JStr ''OPENCODE_API_KEY''),
          (''api_base'', JStr ''https://opencode.ai/inference/openai/v1''),
          (''models'', JList [JStr ''deepseek-v4-pro'', JStr ''deepseek-v4-flash'']),
          (''cache'', JObj [(''strategy'', JStr ''prefix''), (''savings'', JStr ''cost''), (''hit_field'', JStr ''prompt_tokens_details.cached_tokens'')])]),
      (''deepseek'', JObj [
          (''api_key_env'', JStr ''DEEPSEEK_API_KEY''),
          (''api_base'', JStr ''https://api.deepseek.com/v1''),
          (''models'', JList [JStr ''deepseek-v4-pro'', JStr ''deepseek-v4-flash'']),
          (''cache'', JObj [(''strategy'', JStr ''prefix''), (''savings'', JStr ''cost''), (''hit_field'', JStr ''prompt_cache_hit_tokens'')])]),
      (''commandcode'', JObj [
          (''api_base'', JStr ''https://api.commandcode.ai/provider/v1''),
          (''models'', JList [JStr ''deepseek-v4-pro'', JStr ''deepseek-v4-flash'', JStr ''claude-sonnet-5'', JStr ''gpt-5.6-luna'', JStr ''kimi-k3'', JStr ''minimax-m3'', JStr ''qwen3.8-max'']),
          (''cache'', JObj [(''strategy'', JStr ''prefix''), (''savings'', JStr ''cost''), (''hit_field'', JStr ''prompt_tokens_details.cached_tokens'')])])]"

definition seed_pricing :: json where
  "seed_pricing = JList [
      JObj [
        (''provider'', JStr ''deepseek''),
        (''model'', JStr ''deepseek-v4-pro''),
        (''cache_hit'', JNum 0.022),
        (''cache_miss'', JNum 0.66),
        (''output'', JNum 1.98),
        (''peak_cache_hit'', JNum 0.044),
        (''peak_cache_miss'', JNum 1.32),
        (''peak_output'', JNum 3.96)],
      JObj [
        (''provider'', JStr ''deepseek''),
        (''model'', JStr ''deepseek-flash''),
        (''cache_hit'', JNum 0.003),
        (''cache_miss'', JNum 0.15),
        (''output'', JNum 0.6),
        (''peak_cache_hit'', JNum 0.006),
        (''peak_cache_miss'', JNum 0.3),
        (''peak_output'', JNum 1.2)],
      JObj [
        (''provider'', JStr ''deepseek''),
        (''model'', JStr ''deepseek-v4-flash''),
        (''cache_hit'', JNum 0.003),
        (''cache_miss'', JNum 0.15),
        (''output'', JNum 0.6),
        (''peak_cache_hit'', JNum 0.006),
        (''peak_cache_miss'', JNum 0.3),
        (''peak_output'', JNum 1.2)],
      JObj [
        (''provider'', JStr ''deepseek''),
        (''model'', JStr ''deepseek-v4.1-flash''),
        (''cache_hit'', JNum 0.003),
        (''cache_miss'', JNum 0.15),
        (''output'', JNum 0.6),
        (''peak_cache_hit'', JNum 0.006),
        (''peak_cache_miss'', JNum 0.3),
        (''peak_output'', JNum 1.2)],
      JObj [
        (''provider'', JStr ''opencode''),
        (''model'', JStr ''deepseek-v4-pro''),
        (''cache_hit'', JNum 0.022),
        (''cache_miss'', JNum 0.66),
        (''output'', JNum 1.98),
        (''peak_cache_hit'', JNum 0.044),
        (''peak_cache_miss'', JNum 1.32),
        (''peak_output'', JNum 3.96)],
      JObj [
        (''provider'', JStr ''opencode''),
        (''model'', JStr ''deepseek-flash''),
        (''cache_hit'', JNum 0.003),
        (''cache_miss'', JNum 0.15),
        (''output'', JNum 0.6),
        (''peak_cache_hit'', JNum 0.006),
        (''peak_cache_miss'', JNum 0.3),
        (''peak_output'', JNum 1.2)],
      JObj [
        (''provider'', JStr ''opencode''),
        (''model'', JStr ''deepseek-v4-flash''),
        (''cache_hit'', JNum 0.003),
        (''cache_miss'', JNum 0.15),
        (''output'', JNum 0.6),
        (''peak_cache_hit'', JNum 0.006),
        (''peak_cache_miss'', JNum 0.3),
        (''peak_output'', JNum 1.2)],
      JObj [
        (''provider'', JStr ''opencode''),
        (''model'', JStr ''deepseek-v4.1-flash''),
        (''cache_hit'', JNum 0.003),
        (''cache_miss'', JNum 0.15),
        (''output'', JNum 0.6),
        (''peak_cache_hit'', JNum 0.006),
        (''peak_cache_miss'', JNum 0.3),
        (''peak_output'', JNum 1.2)],
      JObj [
        (''provider'', JStr ''commandcode''),
        (''model'', JStr ''deepseek/deepseek-v4-pro''),
        (''cache_hit'', JNum 0.022),
        (''cache_miss'', JNum 0.66),
        (''output'', JNum 1.98),
        (''peak_cache_hit'', JNum 0.044),
        (''peak_cache_miss'', JNum 1.32),
        (''peak_output'', JNum 3.96)],
      JObj [
        (''provider'', JStr ''commandcode''),
        (''model'', JStr ''deepseek/deepseek-v4.1-flash''),
        (''cache_hit'', JNum 0.003),
        (''cache_miss'', JNum 0.15),
        (''output'', JNum 0.6),
        (''peak_cache_hit'', JNum 0.006),
        (''peak_cache_miss'', JNum 0.3),
        (''peak_output'', JNum 1.2)],
      JObj [
        (''provider'', JStr ''commandcode''),
        (''model'', JStr ''deepseek/deepseek-v4-flash''),
        (''cache_hit'', JNum 0.003),
        (''cache_miss'', JNum 0.15),
        (''output'', JNum 0.6),
        (''peak_cache_hit'', JNum 0.006),
        (''peak_cache_miss'', JNum 0.3),
        (''peak_output'', JNum 1.2)],
      JObj [
        (''provider'', JStr ''commandcode''),
        (''model'', JStr ''deepseek/deepseek-v4.1-flash-fast''),
        (''cache_hit'', JNum 0.016),
        (''cache_miss'', JNum 0.16),
        (''output'', JNum 0.58),
        (''peak_cache_hit'', JNum 0.032),
        (''peak_cache_miss'', JNum 0.32),
        (''peak_output'', JNum 1.16)],
      JObj [(''provider'', JStr ''local-zgx''), (''model'', JStr ''qwen3.8-flash-next''), (''cache_hit'', JNum 0.0), (''cache_miss'', JNum 0.0), (''output'', JNum 0.0)],
      JObj [(''provider'', JStr ''local-sparks''), (''model'', JStr ''GLM-5.3-Flash-EXL3''), (''cache_hit'', JNum 0.0), (''cache_miss'', JNum 0.0), (''output'', JNum 0.0)]]"

definition SEED_CONFIG :: "json \<Rightarrow> obj" where
  "SEED_CONFIG limits = [
    (''server'', JObj [(''port'', JNum 8734), (''default_profile'', JStr ''l2'')]),
    (''dynamic_routing'', JObj [(''enabled'', JBool False), (''cost_bias'', JNum 0.15)]),
    (''profiles'', seed_profiles),
    (''providers'', seed_providers),
    (''pricing'', seed_pricing),
    (''circuit_breaker'', JObj [(''failures_degraded'', JNum 3), (''failures_dead'', JNum 6), (''degraded_cooldown_seconds'', JNum 30), (''dead_cooldown_seconds'', JNum 120)]),
    (''retry'', JObj [(''max_attempts'', JNum 3), (''backoff_base'', JNum 0.5), (''backoff_multiplier'', JNum 2), (''max_backoff'', JNum 10), (''jitter'', JBool True)]),
    (''model_limits'', limits),
    (''database'', JObj [(''path'', JStr ''/app/data/costs.db''), (''wal_mode'', JBool True)]),
    (''plugins'', JObj [
        (''memory'', JObj [
            (''enabled'', JBool True),
            (''auto_recall'', JBool False),
            (''top_k'', JNum 3),
            (''min_score'', JNum 0.0),
            (''embedding'', JObj [(''model'', JStr ''BAAI/bge-small-en-v1.5''), (''dim'', JNum 384), (''device'', JStr ''cpu'')])]),
        (''router'', JObj [(''enabled'', JBool True), (''min_score'', JNum 0.35), (''embedding'', JObj [(''model'', JStr ''BAAI/bge-small-en-v1.5''), (''dim'', JNum 384), (''device'', JStr ''cpu'')])])])]"


subsection \<open>What the loader accepts\<close>

lemma validate_profiles_iff:
  "validate_profiles ps = None \<longleftrightarrow> (\<forall>(n, p) \<in> set ps. validate_profile n p = None)"
  by (induction ps rule: validate_profiles.induct) (auto split: option.splits)

lemma dropWhile_none: "\<forall>x \<in> set s. \<not> P x \<Longrightarrow> dropWhile P s = s"
  by (cases s) auto

lemma strip_no_space: "\<forall>c \<in> set s. \<not> is_space c \<Longrightarrow> strip s = s"
  by (simp add: strip_def lstrip_def rstrip_def dropWhile_none)

lemma dropWhile_rev_dropWhile:
  "dropWhile P (rev (dropWhile P (rev (dropWhile P s)))) = rev (dropWhile P (rev (dropWhile P s)))"
proof (cases "dropWhile P s")
  case (Cons c cs)
  then have c: "\<not> P c" by (metis hd_dropWhile list.distinct(1) list.sel(1))
  then have "\<exists>xs. dropWhile P (rev (c # cs)) = xs @ [c]"
    by (cases "\<forall>x \<in> set cs. P x") (auto simp: dropWhile_append)
  then show ?thesis using c Cons by auto
next
  case Nil
  then show ?thesis by (simp del: dropWhile_eq_Nil_conv)
qed

lemma strip_idem [simp]: "strip (strip s) = strip s"
  by (simp add: strip_def lstrip_def rstrip_def dropWhile_rev_dropWhile dropWhile_idem)

lemma strip_Nil [simp]: "strip [] = []"
  by (simp add: strip_def lstrip_def)

text \<open>Each field, written as the loader normalised it, is accepted again and means the same.\<close>

lemma name_char_no_space: "name_char c \<Longrightarrow> \<not> is_space c"
  by (auto simp: name_char_def is_space_code)

lemma validate_name_again:
  assumes "validate_name n = Some m"
  shows "validate_name m = Some m" "m \<noteq> []" "strip m = m"
proof -
  have m: "strip m = m" "m \<noteq> []" "length m \<le> 64" "list_all name_char m" "m \<noteq> ''.''" "m \<noteq> ''..''"
    using assms by (auto simp: validate_name_def Let_def split: if_splits)
  then show "validate_name m = Some m" "m \<noteq> []" "strip m = m"
    by (simp_all add: validate_name_def)
qed

lemma agent_field_again: "agent_field v = Inr a \<Longrightarrow> agent_field (JStr a) = Inr a"
  by (cases v rule: agent_field.cases)
    (auto simp: validate_name_again split: if_splits option.splits)

lemma routing_modes_fixed: "r \<in> set ROUTING_MODES \<Longrightarrow> lower (strip r) = r"
  unfolding ROUTING_MODES_def by (auto; code_simp)

lemma routing_field_again: "routing_field v = Inr r \<Longrightarrow> routing_field (JStr r) = Inr r"
  by (cases v) (auto simp: routing_field_def Let_def routing_modes_fixed split: if_splits)

definition label_ok :: "string \<Rightarrow> bool" where
  "label_ok s \<longleftrightarrow> strip s = s \<and> s \<noteq> [] \<and> length s \<le> INTENT_MAX_LEN"

lemma clean_intents_sound:
  "clean_intents cleaned its = Inr out \<Longrightarrow> distinct cleaned \<Longrightarrow> list_all label_ok cleaned \<Longrightarrow>
   distinct out \<and> list_all label_ok out \<and> length out \<le> length cleaned + length its"
proof (induction its arbitrary: cleaned)
  case (Cons it its)
  obtain s where s: "it = JStr s" "strip s \<noteq> []" "length (strip s) \<le> INTENT_MAX_LEN"
    using Cons(2) by (auto split: json.splits if_splits)
  define cleaned' where "cleaned' = (if strip s \<in> set cleaned then cleaned else cleaned @ [strip s])"
  have run: "clean_intents cleaned' its = Inr out" using Cons(2) s by (simp add: cleaned'_def)
  have "distinct cleaned'" "list_all label_ok cleaned'" "length cleaned' \<le> Suc (length cleaned)"
    using Cons(3,4) s by (simp_all add: cleaned'_def label_ok_def [of "strip s"])
  with Cons(1) [OF run] show ?case by simp
qed simp

lemma clean_intents_again:
  "list_all label_ok out \<Longrightarrow> distinct (cleaned @ out) \<Longrightarrow>
   clean_intents cleaned (map JStr out) = Inr (cleaned @ out)"
proof (induction out arbitrary: cleaned)
  case (Cons s out)
  have "clean_intents cleaned (map JStr (s # out)) = clean_intents (cleaned @ [s]) (map JStr out)"
    using Cons(2,3) by (simp add: label_ok_def)
  with Cons(1) [of "cleaned @ [s]"] Cons(2,3) show ?case by simp
qed simp

lemma intents_field_again:
  assumes "intents_field v = Inr out"
  shows "intents_field (JList (map JStr out)) = Inr out"
proof (cases v)
  case (JList its)
  then have its: "clean_intents [] its = Inr out" "length its \<le> INTENTS_MAX"
    using assms by (auto split: if_splits)
  then show ?thesis
    using clean_intents_sound [OF its(1)] clean_intents_again [of out "[]"] by simp
qed (use assms in auto)

lemma gate_field_again: "gate_field v = Inr x \<Longrightarrow> gate_field (JNum x) = Inr x"
  by (cases v rule: gate_field.cases) (auto split: if_splits)

lemma validated_again:
  assumes "validate_profile_fields prof = Inr out"
  shows "\<exists>out'. validate_profile_fields out = Inr out' \<and>
    (\<forall>k. k \<noteq> ''description'' \<longrightarrow> map_of out' k = map_of out k)"
proof -
  obtain a r its g d where f:
      "agent_field (dget prof ''agent_profile'' (JStr [])) = Inr a"
      "routing_field (dget prof ''routing'' (JStr [])) = Inr r"
      "intents_field (dget prof ''intents'' (JList [])) = Inr its"
      "gate_field (dget prof ''intent_margin_gate'' (JNum 0)) = Inr g"
      "description_field (dget prof ''description'' (JStr [])) = Inr d"
    and out: "out = AList.update ''description'' (JStr d)
       (AList.update ''intent_margin_gate'' (JNum g)
       (AList.update ''intents'' (JList (map JStr its))
       (AList.update ''routing'' (JStr r)
       (AList.update ''agent_profile'' (JStr a) prof))))"
    using assms by (auto simp: validate_profile_fields_def rbind_eq_Inr)
  note fields = agent_field_again [OF f(1)] routing_field_again [OF f(2)] intents_field_again [OF f(3)]
    gate_field_again [OF f(4)]
  show ?thesis
    unfolding validate_profile_fields_def out
    by (simp add: dict_simps fields del: agent_field.simps intents_field.simps gate_field.simps)
qed

subsection \<open>What a start loads\<close>

lemma map_of_override:
  "s' \<noteq> s \<Longrightarrow> map_of (override_section s k v data) s' = map_of data s'"
  by (auto simp: override_section_def dict_simps split: option.split json.split)

lemma map_of_fall_back:
  "map_of (fall_back seed s data) s' =
    (if s' = s \<and> validate_section s (dget data s JNull) \<noteq> None \<and> map_of seed s \<noteq> None
     then map_of seed s else map_of data s')"
  by (auto simp: fall_back_def dict_simps split: option.split)

lemma map_of_fold_fall_back:
  "distinct ss \<Longrightarrow> map_of (fold (fall_back seed) ss data) s =
    (if s \<in> set ss \<and> validate_section s (dget data s JNull) \<noteq> None \<and> map_of seed s \<noteq> None
     then map_of seed s else map_of data s)"
  by (induction ss arbitrary: data) (auto simp: map_of_fall_back)

lemma map_of_loaded: "map_of (map (\<lambda>s. (s, f s)) ss) s = (if s \<in> set ss then Some (f s) else None)"
  by (induction ss) auto

lemma map_of_apply_env:
  assumes "s \<notin> {''server'', ''database''}"
  shows "map_of (apply_env p d data) s = map_of data s"
proof -
  have "map_of (override_section ''server'' k v data') s = map_of data' s"
    and "map_of (override_section ''database'' k v data') s = map_of data' s" for k v data'
    using assms by (simp_all add: map_of_override)
  then show ?thesis by (simp add: apply_env_def split: option.split)
qed

lemma map_of_hydrate:
  assumes "s \<in> set ALL_SECTIONS" "s \<notin> {''server'', ''database''}"
  shows "map_of (cfg_data (hydrate p d c)) s =
    (if s \<in> set REQUIRED_SECTIONS \<and>
        validate_section s (hydrate_section (cfg_store c) (cfg_seed c) s) \<noteq> None \<and> map_of (cfg_seed c) s \<noteq> None
     then map_of (cfg_seed c) s else Some (hydrate_section (cfg_store c) (cfg_seed c) s))"
proof -
  have "distinct REQUIRED_SECTIONS" by (simp add: REQUIRED_SECTIONS_def)
  then show ?thesis
    by (simp add: hydrate_def Let_def map_of_apply_env [OF assms(2)] map_of_fold_fall_back
        map_of_loaded assms(1) del: not_None_eq)
qed

lemma section_key_inj: "config_section_key s = config_section_key s' \<longleftrightarrow> s = s'"
  by (simp add: config_section_key_def)

lemma get_set_config_section:
  assumes "config_section_key s \<notin> set (st_fails st)" "is_obj v \<or> is_list v"
  shows "get_config_section s (set_config_section s v st) = Some (if truthy v then v else JObj [])"
  using assms by (simp add: get_config_section_def set_config_section_def dict_simps)

lemma get_set_other: "s' \<noteq> s \<Longrightarrow> get_config_section s' (set_config_section s v st) = get_config_section s' st"
  by (simp add: get_config_section_def set_config_section_def dict_simps section_key_inj)

lemma fails_set_section [simp]: "st_fails (set_config_section s v st) = st_fails st"
  by (simp add: set_config_section_def)

lemma get_save_other: "s \<notin> set ss \<Longrightarrow> get_config_section s (save_sections ss data st) = get_config_section s st"
  by (induction ss arbitrary: st) (auto simp: get_set_other split: option.split)

lemma get_save_sections:
  assumes "distinct ss" "s \<in> set ss" "config_section_key s \<notin> set (st_fails st)"
    "map_of data s = Some v" "is_obj v \<or> is_list v"
  shows "get_config_section s (save_sections ss data st) = Some (if truthy v then v else JObj [])"
  using assms
proof (induction ss arbitrary: st)
  case (Cons s' ss)
  show ?case
  proof (cases "s' = s")
    case True
    then have "s \<notin> set ss" using Cons.prems(1) by simp
    then show ?thesis
      using True Cons.prems by (auto simp: get_save_other get_set_config_section)
  next
    case False
    then show ?thesis using Cons by (auto split: option.split)
  qed
qed simp

lemma ALL_SECTIONS_distinct: "distinct ALL_SECTIONS"
  by (simp add: ALL_SECTIONS_def)

text \<open>The sections a restart reads back after a save.\<close>

lemma hydrate_saved:
  assumes "cfg_store c = Some st" "st_fails st = []" "s \<in> set ALL_SECTIONS" "s \<notin> {''server'', ''database''}"
    and "map_of (cfg_data c) s = Some v" "is_obj v \<or> is_list v" "truthy v"
  shows "map_of (cfg_data (restart p d (save c))) s =
    (if s \<in> set REQUIRED_SECTIONS \<and> validate_section s v \<noteq> None \<and> map_of (cfg_seed c) s \<noteq> None
     then map_of (cfg_seed c) s else Some v)"
proof -
  have "get_config_section s (save_sections ALL_SECTIONS (cfg_data c) st) = Some v"
    using get_save_sections [OF ALL_SECTIONS_distinct assms(3) _ assms(5,6)] assms(2,7) by simp
  then have "hydrate_section (Some (save_sections ALL_SECTIONS (cfg_data c) st)) seed s = v" for seed
    using assms(7) by (simp add: hydrate_section_def)
  then show ?thesis
    using assms(1) by (simp add: restart_def new_config_def map_of_hydrate [OF assms(3,4)] save_def del: not_None_eq)
qed

subsection \<open>The loader always has a valid configuration\<close>

definition section_ok :: "obj \<Rightarrow> string \<Rightarrow> bool" where
  "section_ok data s \<longleftrightarrow> validate_section s (dget data s JNull) = None"

lemma seed_profiles_valid: "validate_section ''profiles'' seed_profiles = None"
  by code_simp

lemma seed_providers_valid: "validate_section ''providers'' seed_providers = None"
  by (simp add: validate_section_def seed_providers_def)

lemma seed_pricing_valid: "validate_section ''pricing'' seed_pricing = None"
  by (simp add: validate_section_def seed_pricing_def)

lemma seed_lookups:
  "map_of (SEED_CONFIG limits) ''profiles'' = Some seed_profiles"
  "map_of (SEED_CONFIG limits) ''providers'' = Some seed_providers"
  "map_of (SEED_CONFIG limits) ''pricing'' = Some seed_pricing"
  by (simp_all add: SEED_CONFIG_def)

lemma seed_entries:
  "\<exists>v. map_of (SEED_CONFIG limits) ''server'' = Some v \<and> validate_section ''server'' v = None"
  "\<exists>v. map_of (SEED_CONFIG limits) ''profiles'' = Some v \<and> validate_section ''profiles'' v = None"
  "\<exists>v. map_of (SEED_CONFIG limits) ''providers'' = Some v \<and> validate_section ''providers'' v = None"
  "\<exists>v. map_of (SEED_CONFIG limits) ''pricing'' = Some v \<and> validate_section ''pricing'' v = None"
  "\<exists>v. map_of (SEED_CONFIG limits) ''circuit_breaker'' = Some v \<and> validate_section ''circuit_breaker'' v = None"
  "\<exists>v. map_of (SEED_CONFIG limits) ''database'' = Some v \<and> validate_section ''database'' v = None"
  by (simp_all only: seed_lookups seed_profiles_valid seed_providers_valid seed_pricing_valid
      option.inject simp_thms) (simp_all add: SEED_CONFIG_def validate_section_def)

lemma seed_required:
  "list_all (\<lambda>s. \<exists>v. map_of (SEED_CONFIG limits) s = Some v \<and> validate_section s v = None) REQUIRED_SECTIONS"
  unfolding REQUIRED_SECTIONS_def list.pred_inject by (intro conjI TrueI list.pred_inject(1) seed_entries)

lemma seed_section_ok:
  "s \<in> set REQUIRED_SECTIONS \<Longrightarrow> \<exists>v. map_of (SEED_CONFIG limits) s = Some v \<and> validate_section s v = None"
  using seed_required [of limits] unfolding list_all_iff by (rule bspec)

lemma server_ok_update:
  "validate_section ''server'' (JObj d) = None \<Longrightarrow> validate_section ''server'' (JObj (AList.update k v d)) = None"
  by (simp add: validate_section_def keys_update split: if_splits)

lemma database_ok_update: "validate_section ''database'' (JObj d) = None"
  by (simp add: validate_section_def)

lemma section_ok_override:
  assumes "section_ok data s" "s' \<in> {''server'', ''database''}"
  shows "section_ok (override_section s' k v data) s"
proof (cases "s' = s \<and> (\<exists>d. map_of data s = Some (JObj d))")
  case True
  then obtain d where d: "map_of data s = Some (JObj d)" and s: "s' = s" by blast
  then have "override_section s' k v data = AList.update s (JObj (AList.update k v d)) data"
    by (simp add: override_section_def)
  then have "section_ok (override_section s' k v data) s \<longleftrightarrow>
      validate_section s (JObj (AList.update k v d)) = None"
    by (simp add: section_ok_def dict_simps)
  moreover have "validate_section s (JObj d) = None"
    using assms(1) d by (simp add: section_ok_def)
  ultimately show ?thesis
    using assms(2) unfolding s by (elim insertE emptyE) (simp_all only: server_ok_update database_ok_update simp_thms)
next
  case False
  have "map_of (override_section s' k v data) s = map_of data s"
  proof (cases "s' = s")
    case True
    with False show ?thesis by (auto simp: override_section_def split: option.split json.split)
  qed (simp add: map_of_override)
  then show ?thesis using assms(1) by (simp add: section_ok_def)
qed

lemma section_ok_apply_env:
  assumes "section_ok data s"
  shows "section_ok (apply_env p d data) s"
  using assms by (simp add: apply_env_def section_ok_override split: option.split)

lemma section_ok_fall_back:
  assumes "distinct ss" "s \<in> set ss" "map_of seed s = Some v" "validate_section s v = None"
  shows "section_ok (fold (fall_back seed) ss data) s"
  using assms by (auto simp: section_ok_def map_of_fold_fall_back)

text \<open>
  Also: whatever the settings table holds, rows missing, undecodable or of the wrong shape, and whatever
  the two environment variables are, a start ends with every required section present and passing
  its own validation.
\<close>

theorem start_is_always_valid:
  "list_all (section_ok (cfg_data (new_config store (SEED_CONFIG limits) listen_port cost_db))) REQUIRED_SECTIONS"
  unfolding list_all_iff
proof
  fix s assume s: "s \<in> set REQUIRED_SECTIONS"
  have "distinct REQUIRED_SECTIONS" by (simp add: REQUIRED_SECTIONS_def)
  then show "section_ok (cfg_data (new_config store (SEED_CONFIG limits) listen_port cost_db)) s"
    using seed_section_ok [OF s, of limits] section_ok_fall_back s
    by (auto simp: new_config_def hydrate_def Let_def intro!: section_ok_apply_env)
qed

text \<open>
  Also: an edit survives a restart: a section that is stored by \<open>save\<close> and that the loader accepts (an object
  or a list, not empty, valid where it is required) is the one the next start reads back.
\<close>

theorem saved_section_survives_restart:
  assumes "cfg_store c = Some st" "st_fails st = []" "s \<in> set ALL_SECTIONS" "s \<notin> {''server'', ''database''}"
    and "map_of (cfg_data c) s = Some v" "is_obj v \<or> is_list v" "truthy v"
    and "s \<in> set REQUIRED_SECTIONS \<Longrightarrow> validate_section s v = None"
  shows "map_of (cfg_data (restart p d (save c))) s = Some v"
  using hydrate_saved [OF assms(1-7), of p d] assms(8) by (cases "s \<in> set REQUIRED_SECTIONS") simp_all

definition example_store :: section_store where
  "example_store = \<lparr>st_rows = [], st_fails = []\<rparr>"

theorem saved_section_survives_restart_witness:
  "map_of (cfg_data (restart None None (save \<lparr>cfg_store = Some example_store, cfg_seed = [],
      cfg_data = [(''providers'', JObj [(''zgx'', JObj [])])]\<rparr>))) ''providers'' = Some (JObj [(''zgx'', JObj [])])"
  by (rule saved_section_survives_restart [where st = example_store])
    (simp_all add: example_store_def ALL_SECTIONS_def validate_section_def)

text \<open>
  Also: what the profile endpoints store the loader can load: the fields a validation normalised pass the
  validation again and keep their meaning, so a profile stored from them with a chain is accepted.
\<close>

theorem stored_profile_is_loadable:
  assumes "validate_profile_fields prof = Inr stored" "truthy_opt (map_of prof ''chain'')"
  shows "validate_profile name (JObj stored) = None \<and>
    (\<exists>again. validate_profile_fields stored = Inr again \<and>
       list_all (\<lambda>k. map_of again k = map_of stored k) [''agent_profile'', ''routing'', ''intents'', ''intent_margin_gate'', ''chain''])"
proof -
  obtain again where again: "validate_profile_fields stored = Inr again"
    "\<And>k. k \<noteq> ''description'' \<Longrightarrow> map_of again k = map_of stored k"
    using validated_again [OF assms(1)] by blast
  have "map_of stored ''chain'' = map_of prof ''chain''"
    using assms(1) by (auto simp: validate_profile_fields_def rbind_eq_Inr dict_simps)
  then show ?thesis
    using again assms(2) by (auto simp: validate_profile_def split: option.splits)
qed

theorem stored_profile_is_loadable_witness:
  "validate_profile ''coder'' (JObj [(''chain'', JList [JObj []]), (''agent_profile'', JStr ''coder''), (''routing'', JStr ''dynamic''),
      (''intents'', JList [JStr ''code planning'']), (''intent_margin_gate'', JNum 0), (''description'', JStr [])]) = None"
proof -
  have "validate_profile_fields [(''chain'', JList [JObj []]), (''agent_profile'', JStr '' coder''),
      (''routing'', JStr ''Dynamic ''), (''intents'', JList [JStr ''code planning'', JStr '' code planning''])] =
    Inr [(''chain'', JList [JObj []]), (''agent_profile'', JStr ''coder''), (''routing'', JStr ''dynamic''),
      (''intents'', JList [JStr ''code planning'']), (''intent_margin_gate'', JNum 0), (''description'', JStr [])]"
    by code_simp
  from stored_profile_is_loadable [OF this] show ?thesis by simp
qed

end
