(* ===== verification/Credentials.thy ===== *)
theory Credentials
  imports Prelude
begin

section \<open>Stored provider credentials (src/api/credential\_store.py, crypto.py)\<close>

text \<open>
  Secrets are encrypted with Fernet under a key derived from a master secret, which is an environment
  variable or a random key in a file.  The library functions are the fields of \<open>fernet\<close>: the key
  derivation (SHA-256 and base64), the encryption with its fresh randomness, and the decryption, which
  fails on a token of another key.  The table has one row per provider name.
\<close>

record fernet =
  derive_fernet_key :: "string \<Rightarrow> string"
  fernet_encrypt :: "string \<Rightarrow> string \<Rightarrow> string \<Rightarrow> string" \<comment> \<open>randomness, key, plain text\<close>
  fernet_decrypt :: "string \<Rightarrow> string \<Rightarrow> string option"

record secret_env =
  env_secret :: "string option" \<comment> \<open>\<open>LCP_SECRET_KEY\<close>\<close>
  key_file :: "string option"
  disk_ok :: bool

text \<open>\<open>fresh\<close> is the random key made when there is no file.\<close>

definition load_or_create_fallback_key :: "string \<Rightarrow> secret_env \<Rightarrow> string option \<times> secret_env" where
  "load_or_create_fallback_key fresh e =
     (if \<not> disk_ok e then (None, e)
      else case key_file e of
        Some k \<Rightarrow> (Some k, e)
      | None \<Rightarrow> (Some fresh, e\<lparr>key_file := Some fresh\<rparr>))"

definition get_secret_key :: "string \<Rightarrow> secret_env \<Rightarrow> string option \<times> secret_env" where
  "get_secret_key fresh e = (case env_secret e of
      Some s \<Rightarrow> if s \<noteq> [] then (Some s, e) else load_or_create_fallback_key fresh e
    | None \<Rightarrow> load_or_create_fallback_key fresh e)"

text \<open>\<open>None\<close>: no master secret can be had, which raises.\<close>

definition encrypt_secret :: "fernet \<Rightarrow> string \<Rightarrow> string \<Rightarrow> string \<Rightarrow> secret_env \<Rightarrow> string option \<times> secret_env" where
  "encrypt_secret f fresh nonce plaintext e =
     (if plaintext = [] then (Some [], e)
      else case get_secret_key fresh e of
        (None, e') \<Rightarrow> (None, e')
      | (Some k, e') \<Rightarrow> (Some (fernet_encrypt f nonce (derive_fernet_key f k) plaintext), e'))"

definition decrypt_secret :: "fernet \<Rightarrow> string \<Rightarrow> string \<Rightarrow> secret_env \<Rightarrow> string \<times> secret_env" where
  "decrypt_secret f fresh token e =
     (if token = [] then ([], e)
      else case get_secret_key fresh e of
        (None, e') \<Rightarrow> ([], e')
      | (Some k, e') \<Rightarrow> (case fernet_decrypt f (derive_fernet_key f k) token of
            None \<Rightarrow> ([], e')
          | Some p \<Rightarrow> (p, e')))"

subsection \<open>The store\<close>

record credential_row =
  encrypted_key :: string
  created_at :: string
  updated_at :: string

record credential_store =
  cred_rows :: "(string, credential_row) dict"
  cred_env :: secret_env

text \<open>What a call needs from outside: the clock and the randomness.\<close>

record cred_call =
  now_iso :: string
  fresh_key :: string
  nonce_of :: string

text \<open>\<open>False\<close>: the call raised, the table is as it was.\<close>

definition cred_set :: "fernet \<Rightarrow> cred_call \<Rightarrow> string \<Rightarrow> string \<Rightarrow> credential_store \<Rightarrow> bool \<times> credential_store" where
  "cred_set f call provider plaintext cs =
     (if plaintext = [] then (True, cs\<lparr>cred_rows := AList.delete provider (cred_rows cs)\<rparr>)
      else case encrypt_secret f (fresh_key call) (nonce_of call) plaintext (cred_env cs) of
        (None, e) \<Rightarrow> (False, cs\<lparr>cred_env := e\<rparr>)
      | (Some token, e) \<Rightarrow>
          (let row = (case map_of (cred_rows cs) provider of
                None \<Rightarrow> \<lparr>encrypted_key = token, created_at = now_iso call, updated_at = now_iso call\<rparr>
              | Some r \<Rightarrow> r\<lparr>encrypted_key := token, updated_at := now_iso call\<rparr>)
           in (True, \<lparr>cred_rows = AList.update provider row (cred_rows cs), cred_env = e\<rparr>)))"

definition cred_get :: "fernet \<Rightarrow> cred_call \<Rightarrow> string \<Rightarrow> credential_store \<Rightarrow> string option \<times> credential_store" where
  "cred_get f call provider cs = (case map_of (cred_rows cs) provider of
      None \<Rightarrow> (None, cs)
    | Some r \<Rightarrow> (let (p, e) = decrypt_secret f (fresh_key call) (encrypted_key r) (cred_env cs) in
          (if p = [] then None else Some p, cs\<lparr>cred_env := e\<rparr>)))"

definition cred_has :: "string \<Rightarrow> credential_store \<Rightarrow> bool" where
  "cred_has provider cs \<longleftrightarrow> map_of (cred_rows cs) provider \<noteq> None"

definition cookie_key :: "string \<Rightarrow> string" where
  "cookie_key provider = ''cookie:'' @ provider"

definition set_cookie where "set_cookie f call provider cookie = cred_set f call (cookie_key provider) cookie"
definition get_cookie where "get_cookie f call provider = cred_get f call (cookie_key provider)"
definition has_cookie where "has_cookie provider = cred_has (cookie_key provider)"

definition ws_id_key :: "string \<Rightarrow> string" where
  "ws_id_key provider = ''wsid:'' @ provider"

definition set_workspace_id where "set_workspace_id f call provider w = cred_set f call (ws_id_key provider) w"
definition get_workspace_id where "get_workspace_id f call provider = cred_get f call (ws_id_key provider)"
definition has_workspace_id where "has_workspace_id provider = cred_has (ws_id_key provider)"

subsection \<open>Reading after writing\<close>

text \<open>The master secret that is found once is found again.\<close>

lemma get_secret_key_again:
  assumes "get_secret_key fresh e = (Some k, e')"
  shows "get_secret_key fresh' e' = (Some k, e')"
  using assms
  by (auto simp: get_secret_key_def load_or_create_fallback_key_def split: option.splits if_splits)

lemma cred_set_other:
  assumes "cred_set f call p x cs = (ok, cs')" "q \<noteq> p"
  shows "map_of (cred_rows cs') q = map_of (cred_rows cs) q"
  using assms by (auto simp: cred_set_def Let_def dict_simps split: if_splits prod.splits option.splits)

lemma cred_has_set:
  assumes "cred_set f call p x cs = (True, cs')"
  shows "cred_has q cs' \<longleftrightarrow> (if q = p then x \<noteq> [] else cred_has q cs)"
  using assms by (auto simp: cred_set_def cred_has_def Let_def dict_simps split: if_splits prod.splits option.splits)

lemma cred_get_set:
  assumes "cred_set f call p x cs = (True, cs')" "x \<noteq> []"
    and "\<And>n k t. fernet_decrypt f k (fernet_encrypt f n k t) = Some t"
    and "\<And>n k t. fernet_encrypt f n k t \<noteq> []"
  shows "cred_get f call' p cs' = (Some x, cs')"
proof -
  obtain k e where k: "get_secret_key (fresh_key call) (cred_env cs) = (Some k, e)"
    and env: "cred_env cs' = e"
    and row: "\<exists>r. map_of (cred_rows cs') p = Some r \<and>
      encrypted_key r = fernet_encrypt f (nonce_of call) (derive_fernet_key f k) x"
    using assms(1,2)
    by (auto simp: cred_set_def encrypt_secret_def Let_def dict_simps split: prod.splits option.splits)
  have "cs'\<lparr>cred_env := e\<rparr> = cs'" unfolding env [symmetric] by simp
  then show ?thesis
    using row env assms(2-4) get_secret_key_again [OF k]
    by (auto simp: cred_get_def decrypt_secret_def)
qed

lemma namespaces_apart: "cookie_key p \<noteq> ws_id_key q"
  by (simp add: cookie_key_def ws_id_key_def)

text \<open>
  Also: a credential that was stored is read back exactly, later and by any call, as long as the Fernet
  library decrypts what it encrypted: the master secret is the same at both times, whether it comes from
  the environment or from the key file that the first call created.  No other entry changes, and a
  provider's cookie and workspace id never touch each other.
\<close>

theorem stored_credential_reads_back:
  assumes "cred_set f call p x cs = (True, cs')" "x \<noteq> []"
    and "\<And>n k t. fernet_decrypt f k (fernet_encrypt f n k t) = Some t"
    and "\<And>n k t. fernet_encrypt f n k t \<noteq> []"
  shows "fst (cred_get f call' p cs') = Some x \<and> cred_has p cs' \<and>
    (\<forall>q. q = p \<or> map_of (cred_rows cs') q = map_of (cred_rows cs) q)"
  using cred_get_set [OF assms] cred_has_set [OF assms(1)] cred_set_other [OF assms(1)] assms(2) by auto

definition toy_fernet :: fernet where
  "toy_fernet = \<lparr>derive_fernet_key = (\<lambda>s. s), fernet_encrypt = (\<lambda>n k t. CHR ''g'' # t),
     fernet_decrypt = (\<lambda>k t. case t of [] \<Rightarrow> None | c # cs \<Rightarrow> Some cs)\<rparr>"

theorem stored_credential_reads_back_witness:
  "\<exists>cs'. cred_set toy_fernet \<lparr>now_iso = ''t'', fresh_key = ''k'', nonce_of = []\<rparr> ''deepseek'' ''sk-1''
      \<lparr>cred_rows = [], cred_env = \<lparr>env_secret = None, key_file = None, disk_ok = True\<rparr>\<rparr> = (True, cs') \<and>
    fst (cred_get toy_fernet \<lparr>now_iso = ''u'', fresh_key = ''z'', nonce_of = []\<rparr> ''deepseek'' cs') = Some ''sk-1''"
proof -
  let ?call = "\<lparr>now_iso = ''t'', fresh_key = ''k'', nonce_of = []\<rparr>"
  let ?cs = "\<lparr>cred_rows = [], cred_env = \<lparr>env_secret = None, key_file = None, disk_ok = True\<rparr>\<rparr>"
  obtain cs' where s: "cred_set toy_fernet ?call ''deepseek'' ''sk-1'' ?cs = (True, cs')"
    by (simp add: cred_set_def encrypt_secret_def get_secret_key_def load_or_create_fallback_key_def Let_def)
  show ?thesis
    using s stored_credential_reads_back [OF s, of "\<lparr>now_iso = ''u'', fresh_key = ''z'', nonce_of = []\<rparr>"]
    by (auto simp: toy_fernet_def)
qed

end
