(* ===== verification/Gateway_Admin.thy ===== *)
theory Gateway_Admin
  imports Gateway_Config Credentials Circuit_Breaker
begin

section \<open>Editing providers and profiles (src/server/endpoints.py)\<close>

text \<open>
  The endpoints change the live configuration and save it.  A request body is an object, or absent when
  it cannot be read; other JSON values as a body are not modelled, and neither is a chain step that is
  a list.  Exceptions that leave a handler are \<open>Crash\<close>; the state then is what was
  changed up to there.  \<open>Outside\<close> is the reply where the live configuration has a shape the loader
  refuses, or a name is no text.  What a provider answers to the discovery of its models is an argument.
\<close>

record gateway =
  gw_config :: config
  gw_creds :: "credential_store option"
  gw_breaker :: breaker
  gw_refresher :: "string list option" \<comment> \<open>the refreshes requested\<close>

record admin_env =
  ae_fernet :: fernet
  ae_call :: "nat \<Rightarrow> cred_call"
  ae_discover :: "string \<Rightarrow> json \<Rightarrow> json list option"

datatype reply =
    Answer nat obj
  | Rejected config_error
  | Crash py_exn
  | CrashNoSecret
  | Outside

definition quoted :: "string \<Rightarrow> string" where
  "quoted s = CHR 0x27 # s @ [CHR 0x27]"

definition refuse :: "nat \<Rightarrow> string \<Rightarrow> reply" where
  "refuse status message = Answer status [(''error'', JStr message)]"

definition invalid_body :: reply where
  "invalid_body = refuse 400 ''invalid JSON body''"

definition put_section :: "string \<Rightarrow> json \<Rightarrow> config \<Rightarrow> config" where
  "put_section s v c = c\<lparr>cfg_data := AList.update s v (cfg_data c)\<rparr>"

definition put_provider :: "string \<Rightarrow> json \<Rightarrow> config \<Rightarrow> config" where
  "put_provider n p c = put_section ''providers'' (JObj (AList.update n p (providers_of c))) c"

definition put_profile :: "string \<Rightarrow> json \<Rightarrow> config \<Rightarrow> config" where
  "put_profile n p c = put_section ''profiles'' (JObj (AList.update n p (profiles_of c))) c"

definition request_refresh :: "string \<Rightarrow> gateway \<Rightarrow> gateway" where
  "request_refresh n g = g\<lparr>gw_refresher := map_option (\<lambda>ns. ns @ [n]) (gw_refresher g)\<rparr>"

text \<open>\<open>x or []\<close>, \<open>x or ""\<close> for a value that may be absent.\<close>

definition or_else :: "json option \<Rightarrow> json \<Rightarrow> json" where
  "or_else v dflt = (case v of None \<Rightarrow> dflt | Some j \<Rightarrow> if truthy j then j else dflt)"

subsection \<open>Learning the context windows\<close>

text \<open>The flag is False when the loop raised.\<close>

fun learn_models :: "json list \<Rightarrow> obj \<Rightarrow> nat \<Rightarrow> bool \<times> obj \<times> nat" where
  "learn_models [] limits n = (True, limits, n)"
| "learn_models (m # ms) limits n = (case m of
      JObj d \<Rightarrow> (case (if truthy_opt (map_of d ''id'') then dget d ''id'' JNull else JStr []) of
          JStr s \<Rightarrow>
            (let mid = strip s;
                 ctx = (if truthy_opt (map_of d ''context_length'') then dget d ''context_length'' JNull
                        else dget d ''n_ctx'' JNull)
             in if mid = [] \<or> \<not> truthy ctx then learn_models ms limits n
                else case int_of_json ctx of
                  Inl e \<Rightarrow> learn_models ms limits n
                | Inr i \<Rightarrow> (case dget limits mid (JObj []) of
                    JObj entry \<Rightarrow>
                      learn_models ms
                        (AList.update mid (JObj (AList.update ''context_window'' (JNum (of_int i)) entry)) limits)
                        (Suc n)
                  | _ \<Rightarrow> (False, limits, n)))
        | _ \<Rightarrow> (False, limits, n))
    | _ \<Rightarrow> learn_models ms limits n)"

definition auto_learn_model_contexts :: "admin_env \<Rightarrow> string \<Rightarrow> json \<Rightarrow> config \<Rightarrow> config" where
  "auto_learn_model_contexts env provider api_base c = (case ae_discover env provider api_base of
      None \<Rightarrow> c
    | Some models \<Rightarrow>
        if models = [] then c
        else (case dget (cfg_data c) ''model_limits'' (JObj []) of
          JObj limits \<Rightarrow>
            (case learn_models models limits 0 of (done, limits', learned) \<Rightarrow>
               (let c' = put_section ''model_limits'' (JObj limits') c
                in if done \<and> 0 < learned then save c' else c'))
        | _ \<Rightarrow> c))"

subsection \<open>Providers\<close>

text \<open>Storing an API key: a refusal or an exception, or none, and the new store.\<close>

definition store_key ::
  "admin_env \<Rightarrow> string \<Rightarrow> json \<Rightarrow> credential_store option \<Rightarrow> reply option \<times> credential_store option" where
  "store_key env name v creds = (case creds of
      None \<Rightarrow> (Some (refuse 500 ''credential store not initialized''), creds)
    | Some cs \<Rightarrow> (case v of
        JStr k \<Rightarrow>
          (case cred_set (ae_fernet env) (ae_call env 0) name k cs of
            (False, cs') \<Rightarrow> (Some CrashNoSecret, Some cs')
          | (True, cs') \<Rightarrow> (None, Some cs'))
      | _ \<Rightarrow> (Some (Crash AttributeError), creds)))"

definition created_config :: "admin_env \<Rightarrow> string \<Rightarrow> obj \<Rightarrow> config \<Rightarrow> config" where
  "created_config env name b c =
     (let api_base = dget b ''api_base'' (JStr []);
          data = JObj [(''api_base'', api_base), (''models'', dget b ''models'' (JList []))]
      in auto_learn_model_contexts env name api_base (save (put_provider name data c)))"

definition serve_provider_create :: "admin_env \<Rightarrow> obj option \<Rightarrow> gateway \<Rightarrow> reply \<times> gateway" where
  "serve_provider_create env body g = (case body of
      None \<Rightarrow> (invalid_body, g)
    | Some b \<Rightarrow>
        if \<not> truthy_opt (map_of b ''name'') then (refuse 400 (''missing '' @ quoted ''name'' @ '' field''), g)
        else (case dget b ''name'' JNull of
          JStr name \<Rightarrow>
            (let g1 = g\<lparr>gw_config := created_config env name b (gw_config g)\<rparr>
             in case (if truthy_opt (map_of b ''api_key'')
                      then store_key env name (dget b ''api_key'' JNull) (gw_creds g1)
                      else (None, gw_creds g1)) of
                  (Some r, creds) \<Rightarrow> (r, g1\<lparr>gw_creds := creds\<rparr>)
                | (None, creds) \<Rightarrow>
                    (Answer 200 [(''ok'', JBool True), (''provider'', JStr name)],
                     request_refresh name (g1\<lparr>gw_creds := creds\<rparr>)))
        | JList xs \<Rightarrow> (Crash TypeError, g)
        | JObj d \<Rightarrow> (Crash TypeError, g)
        | _ \<Rightarrow> (Outside, g)))"

definition update_api_key ::
  "admin_env \<Rightarrow> string \<Rightarrow> obj \<Rightarrow> credential_store option \<Rightarrow> reply option \<times> credential_store option" where
  "update_api_key env name b creds =
     (if ''api_key'' \<notin> set (keys b) then (None, creds)
      else store_key env name (or_else (map_of b ''api_key'') (JStr [])) creds)"

text \<open>\<open>if key in body: d[key] = body[key]\<close>\<close>

definition patch :: "string \<Rightarrow> obj \<Rightarrow> obj \<Rightarrow> obj" where
  "patch k b d = (case map_of b k of None \<Rightarrow> d | Some v \<Rightarrow> AList.update k v d)"

definition serve_provider_update :: "admin_env \<Rightarrow> string \<Rightarrow> obj option \<Rightarrow> gateway \<Rightarrow> reply \<times> gateway" where
  "serve_provider_update env name body g = (case body of
      None \<Rightarrow> (invalid_body, g)
    | Some b \<Rightarrow> (case map_of (providers_of (gw_config g)) name of
          None \<Rightarrow> (refuse 404 (''provider '' @ quoted name @ '' not found''), g)
        | Some (JObj pdata) \<Rightarrow>
            (case update_api_key env name b (gw_creds g) of
              (Some r, creds) \<Rightarrow> (r, g\<lparr>gw_creds := creds\<rparr>)
            | (None, creds) \<Rightarrow>
                (let d = patch ''models'' b (patch ''api_base'' b pdata);
                     c1 = save (put_provider name (JObj d) (gw_config g));
                     c2 = auto_learn_model_contexts env name (dget d ''api_base'' (JStr [])) c1
                 in (Answer 200 [(''ok'', JBool True), (''provider'', JStr name)],
                     request_refresh name (g\<lparr>gw_creds := creds, gw_config := c2\<rparr>))))
        | Some _ \<Rightarrow> (Outside, g)))"

text \<open>\<open>[c for c in chain if c.get("provider") != name]\<close>\<close>

fun keep_steps :: "string \<Rightarrow> json list \<Rightarrow> json list res" where
  "keep_steps name [] = Inr []"
| "keep_steps name (s # ss) = (case s of
      JObj d \<Rightarrow> rbind (keep_steps name ss)
        (\<lambda>rest. Inr (if dget d ''provider'' JNull = JStr name then rest else s # rest))
    | _ \<Rightarrow> Inl AttributeError)"

fun drop_provider :: "string \<Rightarrow> obj \<Rightarrow> py_exn option \<times> obj" where
  "drop_provider name [] = (None, [])"
| "drop_provider name ((p, v) # ps) = (case v of
      JObj d \<Rightarrow>
        (case rbind (py_iter (dget d ''chain'' (JList []))) (keep_steps name) of
          Inl e \<Rightarrow> (Some e, (p, v) # ps)
        | Inr steps \<Rightarrow> (case drop_provider name ps of (e, ps') \<Rightarrow>
            (e, (p, JObj (AList.update ''chain'' (JList steps) d)) # ps')))
    | _ \<Rightarrow> (Some AttributeError, (p, v) # ps))"

definition serve_provider_delete :: "string \<Rightarrow> gateway \<Rightarrow> reply \<times> gateway" where
  "serve_provider_delete name g =
     (let c = gw_config g in
      if name \<notin> set (keys (providers_of c)) then
        (refuse 404 (''provider '' @ quoted name @ '' not found''), g)
      else
        (case drop_provider name (profiles_of c) of (e, profiles) \<Rightarrow>
          (let c1 = put_section ''profiles'' (JObj profiles)
                 (put_section ''providers'' (JObj (AList.delete name (providers_of c))) c)
           in case e of
             Some exn \<Rightarrow> (Crash exn, g\<lparr>gw_config := c1\<rparr>)
           | None \<Rightarrow> (case forget_provider name (gw_breaker g) of (n, br) \<Rightarrow>
               (Answer 200 [(''ok'', JBool True), (''deleted'', JStr name), (''health_rows_removed'', JNum (of_nat n))],
                g\<lparr>gw_config := save c1,
                  gw_creds := map_option (\<lambda>cs. cs\<lparr>cred_rows := AList.delete name (cred_rows cs)\<rparr>) (gw_creds g),
                  gw_breaker := br\<rparr>)))))"

text \<open>Renaming: the chain steps are changed in place.\<close>

fun repoint_steps :: "string \<Rightarrow> string \<Rightarrow> json list \<Rightarrow> py_exn option \<times> json list \<times> nat" where
  "repoint_steps name new [] = (None, [], 0)"
| "repoint_steps name new (s # ss) = (case s of
      JObj d \<Rightarrow> (case repoint_steps name new ss of (e, ss', n) \<Rightarrow>
        if dget d ''provider'' JNull = JStr name
        then (e, JObj (AList.update ''provider'' (JStr new) d) # ss', Suc n)
        else (e, s # ss', n))
    | _ \<Rightarrow> (Some AttributeError, s # ss, 0))"

definition repoint_chain :: "string \<Rightarrow> string \<Rightarrow> obj \<Rightarrow> py_exn option \<times> obj \<times> nat" where
  "repoint_chain name new d = (case map_of d ''chain'' of
      None \<Rightarrow> (None, d, 0)
    | Some (JList ss) \<Rightarrow> (case repoint_steps name new ss of (e, ss', n) \<Rightarrow>
        (e, AList.update ''chain'' (JList ss') d, n))
    | Some v \<Rightarrow> (case py_iter v of
          Inl e \<Rightarrow> (Some e, d, 0)
        | Inr vs \<Rightarrow> (if vs = [] then None else Some AttributeError, d, 0)))"

fun repoint_profiles :: "string \<Rightarrow> string \<Rightarrow> obj \<Rightarrow> py_exn option \<times> obj \<times> nat" where
  "repoint_profiles name new [] = (None, [], 0)"
| "repoint_profiles name new ((p, v) # ps) = (case v of
      JObj d \<Rightarrow> (case repoint_chain name new d of (e, d', n) \<Rightarrow>
        (case e of
          Some exn \<Rightarrow> (Some exn, (p, JObj d') # ps, n)
        | None \<Rightarrow> (case repoint_profiles name new ps of (e', ps', n') \<Rightarrow> (e', (p, JObj d') # ps', n + n'))))
    | _ \<Rightarrow> (Some AttributeError, (p, v) # ps, 0))"

text \<open>One kind of credential; \<open>i\<close> numbers the calls.  False: the store raised and the rest is skipped.\<close>

definition move_credential ::
  "admin_env \<Rightarrow> nat \<Rightarrow> string \<Rightarrow> string \<Rightarrow> credential_store \<Rightarrow> bool \<times> credential_store" where
  "move_credential env i old new cs =
     (if \<not> cred_has old cs then (True, cs)
      else case cred_get (ae_fernet env) (ae_call env i) old cs of (v, cs1) \<Rightarrow>
        (case cred_set (ae_fernet env) (ae_call env (Suc i)) new (case v of None \<Rightarrow> [] | Some x \<Rightarrow> x) cs1 of
          (False, cs2) \<Rightarrow> (False, cs2)
        | (True, cs2) \<Rightarrow> cred_set (ae_fernet env) (ae_call env (Suc (Suc i))) old [] cs2))"

definition move_credentials :: "admin_env \<Rightarrow> string \<Rightarrow> string \<Rightarrow> credential_store \<Rightarrow> credential_store" where
  "move_credentials env old new cs =
     (case move_credential env 0 old new cs of
        (False, cs1) \<Rightarrow> cs1
      | (True, cs1) \<Rightarrow> (case move_credential env 3 (cookie_key old) (cookie_key new) cs1 of
          (False, cs2) \<Rightarrow> cs2
        | (True, cs2) \<Rightarrow> snd (move_credential env 6 (ws_id_key old) (ws_id_key new) cs2)))"

definition serve_provider_rename :: "admin_env \<Rightarrow> string \<Rightarrow> obj option \<Rightarrow> gateway \<Rightarrow> reply \<times> gateway" where
  "serve_provider_rename env name body g = (case body of
      None \<Rightarrow> (invalid_body, g)
    | Some b \<Rightarrow> (case (if truthy_opt (map_of b ''new_name'') then dget b ''new_name'' JNull else JStr []) of
        JStr raw_name \<Rightarrow>
          (let new_name = strip raw_name; c = gw_config g; ps = providers_of c in
           if new_name = [] then (refuse 400 (''missing '' @ quoted ''new_name'' @ '' field''), g)
           else if name \<notin> set (keys ps) then (refuse 404 (''provider '' @ quoted name @ '' not found''), g)
           else if new_name = name then
             (Answer 200 [(''ok'', JBool True), (''provider'', JStr name), (''renamed'', JBool False)], g)
           else if new_name \<in> set (keys ps) then
             (refuse 409 (''provider '' @ quoted new_name @ '' already exists''), g)
           else
             (let c1 = put_section ''providers''
                    (JObj (AList.update new_name (dget ps name JNull) (AList.delete name ps))) c
              in case repoint_profiles name new_name (profiles_of c) of (e, profiles, n) \<Rightarrow>
                (let c2 = put_section ''profiles'' (JObj profiles) c1 in
                 case e of
                   Some exn \<Rightarrow> (Crash exn, g\<lparr>gw_config := c2\<rparr>)
                 | None \<Rightarrow>
                     (Answer 200 [(''ok'', JBool True), (''provider'', JStr new_name), (''renamed'', JBool True),
                        (''chain_steps_updated'', JNum (of_nat n))],
                      request_refresh new_name (g\<lparr>gw_config := save c2,
                        gw_creds := map_option (move_credentials env name new_name) (gw_creds g)\<rparr>)))))
      | _ \<Rightarrow> (Crash AttributeError, g)))"


subsection \<open>The chain of a profile\<close>

type_synonym step_key = "json \<times> json"

definition step_key_of :: "obj \<Rightarrow> step_key" where
  "step_key_of d = (dget d ''provider'' JNull, dget d ''model'' JNull)"

definition key_hashable :: "step_key \<Rightarrow> bool" where
  "key_hashable k \<longleftrightarrow> hashable (fst k) \<and> hashable (snd k)"

fun old_base_urls :: "json list \<Rightarrow> (step_key, json) dict \<Rightarrow> (step_key, json) dict res" where
  "old_base_urls [] acc = Inr acc"
| "old_base_urls (s # ss) acc = (case s of
      JObj d \<Rightarrow>
        if key_hashable (step_key_of d)
        then old_base_urls ss (AList.update (step_key_of d) (dget d ''base_url'' (JStr [])) acc)
        else Inl TypeError
    | _ \<Rightarrow> Inl AttributeError)"

fun merge_steps :: "(step_key, json) dict \<Rightarrow> json list \<Rightarrow> json list res" where
  "merge_steps old [] = Inr []"
| "merge_steps old (s # ss) = (case s of
      JObj d \<Rightarrow>
        (let key = step_key_of d;
             entry = [(''provider'', fst key), (''model'', snd key)];
             own = truthy_opt (map_of d ''base_url'')
         in if \<not> own \<and> \<not> key_hashable key then Inl TypeError
            else rbind (merge_steps old ss) (\<lambda>rest. Inr (JObj (
              if own then AList.update ''base_url'' (dget d ''base_url'' JNull) entry
              else if truthy_opt (map_of old key) then AList.update ''base_url'' (dget old key JNull) entry
              else entry) # rest)))
    | _ \<Rightarrow> Inl AttributeError)"

definition merged_chain :: "obj \<Rightarrow> json list \<Rightarrow> json list res" where
  "merged_chain d new_chain =
     rbind (py_iter (dget d ''chain'' (JList []))) (\<lambda>old_chain.
     rbind (old_base_urls old_chain []) (\<lambda>old. merge_steps old new_chain))"

definition serve_chain_reorder :: "string \<Rightarrow> obj option \<Rightarrow> gateway \<Rightarrow> reply \<times> gateway" where
  "serve_chain_reorder profile body g = (case body of
      None \<Rightarrow> (invalid_body, g)
    | Some b \<Rightarrow> (case map_of (profiles_of (gw_config g)) profile of
        None \<Rightarrow> (refuse 404 (''profile '' @ quoted profile @ '' not found''), g)
      | Some prof \<Rightarrow> (case dget b ''chain'' JNull of
          JList new_chain \<Rightarrow>
            if new_chain = [] then
              (refuse 400 (''a profile needs at least one model in its chain; '' @
                 ''add a step instead of removing the last one''), g)
            else (case prof of
              JObj d \<Rightarrow> (case merged_chain d new_chain of
                  Inl e \<Rightarrow> (Crash e, g)
                | Inr merged \<Rightarrow>
                    (Answer 200 [(''ok'', JBool True), (''profile'', JStr profile), (''chain'', JList merged)],
                     g\<lparr>gw_config := save (put_profile profile
                         (JObj (AList.update ''chain'' (JList merged) d)) (gw_config g))\<rparr>))
            | _ \<Rightarrow> (Outside, g))
        | _ \<Rightarrow> (refuse 400 (''missing '' @ quoted ''chain'' @ '' list''), g))))"

text \<open>Forcing the health of a provider in a profile; the first step that names it gives the URL.\<close>

definition first_base_url :: "string \<Rightarrow> obj \<Rightarrow> obj \<Rightarrow> json res" where
  "first_base_url name providers pcfg =
     rbind (py_iter (dget pcfg ''chain'' (JList []))) (\<lambda>steps.
     rbind (rmap (\<lambda>s. py_get s ''provider'' JNull)
              (takeWhile (\<lambda>s. py_get s ''provider'' JNull \<noteq> Inr (JStr name)) steps)) (\<lambda>_.
       case dropWhile (\<lambda>s. py_get s ''provider'' JNull \<noteq> Inr (JStr name)) steps of
         JObj d # _ \<Rightarrow>
           if truthy_opt (map_of d ''base_url'') then Inr (dget d ''base_url'' JNull)
           else py_get (dget providers name (JObj [])) ''api_base'' (JStr [])
       | _ \<Rightarrow> Inr JNull))"

definition status_text :: "status \<Rightarrow> string" where
  "status_text st = (case st of Healthy \<Rightarrow> ''healthy'' | Degraded \<Rightarrow> ''degraded'' | Dead \<Rightarrow> ''dead'')"

definition force_at ::
  "cb_config \<Rightarrow> real \<Rightarrow> string \<Rightarrow> string \<Rightarrow> string \<Rightarrow> string \<Rightarrow> gateway \<Rightarrow> reply \<times> gateway" where
  "force_at cfg now name base_url profile action g =
     (case force_status cfg now (name, base_url, profile) action (gw_breaker g) of
        (Inl e, br) \<Rightarrow> (Crash ValueError, g\<lparr>gw_breaker := br\<rparr>)
      | (Inr st, br) \<Rightarrow>
          (Answer 200 [(''ok'', JBool True), (''provider'', JStr name), (''profile'', JStr profile),
             (''action'', JStr action), (''status'', JStr (status_text st))],
           g\<lparr>gw_breaker := br\<rparr>))"

definition toggle_in_profile ::
  "cb_config \<Rightarrow> real \<Rightarrow> string \<Rightarrow> string \<Rightarrow> string \<Rightarrow> gateway \<Rightarrow> reply \<times> gateway" where
  "toggle_in_profile cfg now name profile action g =
     (case dget (profiles_of (gw_config g)) profile (JObj []) of
        JObj pcfg \<Rightarrow> (case first_base_url name (providers_of (gw_config g)) pcfg of
            Inl e \<Rightarrow> (Crash e, g)
          | Inr url \<Rightarrow>
              if \<not> truthy url then
                (refuse 404 (''provider '' @ quoted name @ '' not found in profile '' @ quoted profile), g)
              else (case url of
                JStr base_url \<Rightarrow> force_at cfg now name base_url profile action g
              | _ \<Rightarrow> (Outside, g)))
      | _ \<Rightarrow> (Outside, g))"

definition toggle_actions :: "string list" where
  "toggle_actions = [''degrade'', ''resume'', ''kill'']"

definition bad_action :: reply where
  "bad_action = refuse 400 (''action must be '' @ quoted ''degrade'' @ '', '' @ quoted ''resume'' @ '', or '' @
     quoted ''kill'')"

definition serve_provider_toggle ::
  "cb_config \<Rightarrow> real \<Rightarrow> string \<Rightarrow> obj option \<Rightarrow> gateway \<Rightarrow> reply \<times> gateway" where
  "serve_provider_toggle cfg now name body g = (case body of
      None \<Rightarrow> (invalid_body, g)
    | Some b \<Rightarrow>
        if \<not> truthy_opt (map_of b ''profile'') \<or> \<not> truthy_opt (map_of b ''action'') then
          (refuse 400 (''missing '' @ quoted ''profile'' @ '' or '' @ quoted ''action'' @ '' field''), g)
        else (case dget b ''action'' JNull of
          JStr action \<Rightarrow>
            if action \<notin> set toggle_actions then (bad_action, g)
            else (case dget b ''profile'' JNull of
              JStr profile \<Rightarrow> toggle_in_profile cfg now name profile action g
            | _ \<Rightarrow> (Outside, g))
        | _ \<Rightarrow> (bad_action, g)))"

subsection \<open>Profiles\<close>

fun copy_step :: "json \<Rightarrow> json res" where
  "copy_step (JObj d) = Inr (JObj d)"
| "copy_step (JStr s) = (if s = [] then Inr (JObj []) else Inl ValueError)"
| "copy_step _ = Inl TypeError"

definition seeded_chain :: "obj \<Rightarrow> json list res" where
  "seeded_chain donor = rbind (py_iter (or_else (map_of donor ''chain'') (JList []))) (rmap copy_step)"

definition default_profile_name :: "config \<Rightarrow> json" where
  "default_profile_name c =
     or_else (map_of (case section_of c ''server'' of JObj d \<Rightarrow> d | _ \<Rightarrow> []) ''default_profile'') (JStr [])"

definition default_donor :: "config \<Rightarrow> string \<Rightarrow> obj res" where
  "default_donor c n = (case or_else (map_of (profiles_of c) n) (JObj []) of
      JObj d \<Rightarrow> Inr d
    | _ \<Rightarrow> Inl AttributeError)"

definition draft_profile :: "obj \<Rightarrow> json list \<Rightarrow> json list \<Rightarrow> obj" where
  "draft_profile b chain forbidden =
     [(''chain'', JList chain), (''forbidden_tools'', JList forbidden),
      (''agent_profile'', or_else (map_of b ''agent_profile'') (JStr [])),
      (''routing'', or_else (Some (dget b ''routing'' (JStr ''static''))) (JStr ''static'')),
      (''intents'', or_else (map_of b ''intents'') (JList [])),
      (''description'', or_else (map_of b ''description'') (JStr []))]"

definition create_from :: "string \<Rightarrow> string \<Rightarrow> obj \<Rightarrow> gateway \<Rightarrow> reply \<times> gateway" where
  "create_from name default_name b g =
     (let c = gw_config g in
      case rbind (default_donor c default_name) (\<lambda>donor. rbind (seeded_chain donor) (\<lambda>chain.
             rbind (py_iter (or_else (map_of donor ''forbidden_tools'') (JList []))) (\<lambda>forbidden.
               Inr (chain, draft_profile b chain forbidden)))) of
        Inl e \<Rightarrow> (Crash e, g)
      | Inr (chain, draft) \<Rightarrow>
          if chain = [] then
            (refuse 409 (''cannot create a profile: no chain to seed it with (default profile '' @
               quoted (if default_name = [] then ''unset'' else default_name) @ '' has none)''), g)
          else (case validate_profile_fields draft of
              Inl e \<Rightarrow> (Rejected e, g)
            | Inr stored \<Rightarrow>
                (Answer 200 [(''ok'', JBool True), (''profile'', JStr name)],
                 g\<lparr>gw_config := save (put_profile name (JObj stored) c)\<rparr>)))"

definition serve_profile_create :: "obj option \<Rightarrow> gateway \<Rightarrow> reply \<times> gateway" where
  "serve_profile_create body g = (case body of
      None \<Rightarrow> (invalid_body, g)
    | Some b \<Rightarrow> (case dget b ''name'' (JStr []) of
        JStr raw_name \<Rightarrow>
          (let name = lower (strip raw_name); c = gw_config g in
           if name = [] then (refuse 400 (''missing '' @ quoted ''name'' @ '' field''), g)
           else if name \<in> set (keys (profiles_of c)) then
             (refuse 409 (''profile '' @ quoted name @ '' already exists''), g)
           else (case default_profile_name c of
                JStr n \<Rightarrow> create_from name n b g
              | JList xs \<Rightarrow> (Crash TypeError, g)
              | JObj d \<Rightarrow> (Crash TypeError, g)
              | _ \<Rightarrow> (Outside, g)))
      | _ \<Rightarrow> (Crash AttributeError, g)))"

definition update_fields :: "string list" where
  "update_fields = [''agent_profile'', ''routing'', ''intents'', ''intent_margin_gate'']"

text \<open>The live profile after the description, or a refusal.\<close>

definition patch_description :: "obj \<Rightarrow> obj \<Rightarrow> reply + obj" where
  "patch_description b d = (case map_of b ''description'' of
      None \<Rightarrow> Inr d
    | Some JNull \<Rightarrow> Inr (AList.update ''description'' (JStr []) d)
    | Some (JStr s) \<Rightarrow> Inr (AList.update ''description'' (JStr (take 120 (strip s))) d)
    | Some _ \<Rightarrow> Inl (refuse 400 ''description must be a string''))"

definition serve_profile_update :: "string \<Rightarrow> obj option \<Rightarrow> gateway \<Rightarrow> reply \<times> gateway" where
  "serve_profile_update name body g = (case body of
      None \<Rightarrow> (invalid_body, g)
    | Some b \<Rightarrow> (let c = gw_config g in
       case map_of (profiles_of c) name of
        None \<Rightarrow> (refuse 404 (''profile '' @ quoted name @ '' not found''), g)
      | Some (JObj pcfg) \<Rightarrow>
          (let d1 = patch ''auth_required'' b (patch ''chain'' b (patch ''forbidden_tools'' b pcfg));
               live = (\<lambda>d. g\<lparr>gw_config := put_profile name (JObj d) c\<rparr>);
               done = (\<lambda>d. (Answer 200 [(''ok'', JBool True), (''profile'', JStr name)],
                            g\<lparr>gw_config := save (put_profile name (JObj d) c)\<rparr>))
           in case patch_description b d1 of
             Inl r \<Rightarrow> (r, live d1)
           | Inr d2 \<Rightarrow>
               if \<not> list_ex (\<lambda>k. k \<in> set (keys b)) update_fields then done d2
               else (case validate_profile_fields (fold (\<lambda>k. patch k b) update_fields d2) of
                  Inl e \<Rightarrow> (Rejected e, live d2)
                | Inr stored \<Rightarrow> done (fold (\<lambda>k. AList.update k (dget stored k JNull)) update_fields d2)))
      | Some _ \<Rightarrow> (Outside, g)))"

definition serve_profile_delete :: "string \<Rightarrow> gateway \<Rightarrow> reply \<times> gateway" where
  "serve_profile_delete name g =
     (let c = gw_config g in
      if name \<notin> set (keys (profiles_of c)) then (refuse 404 (''profile '' @ quoted name @ '' not found''), g)
      else (Answer 200 [(''ok'', JBool True), (''deleted'', JStr name)],
            g\<lparr>gw_config := save (put_section ''profiles'' (JObj (AList.delete name (profiles_of c))) c)\<rparr>))"

text \<open>
  The seeding of the declared agent profiles (with src/api/profile_data.py).  Every directory of the agents' side
  with a configuration is an agent, named as the directory is; the lane its configuration names, empty where it
  names none, is read from a file, so the directories with their lanes are an argument.
\<close>

type_synonym agents = "(string \<times> string) list"

definition by_convention :: "string \<Rightarrow> string \<Rightarrow> bool" where
  "by_convention lane n \<longleftrightarrow> ends_with (lower n) (''-'' @ lower lane) \<or> lower n = lower lane"

definition primary_agent_for_lane :: "string \<Rightarrow> agents \<Rightarrow> string" where
  "primary_agent_for_lane lane agents =
     (if lane = [] then []
      else let sharing = map fst (filter (\<lambda>(n, l). l = lane) agents);
               exact = filter (by_convention lane) sharing
           in case sort_key (\<lambda>n. (n \<noteq> lower n, n)) (if exact \<noteq> [] then exact else sharing) of
                [] \<Rightarrow> []
              | n # ns \<Rightarrow> n)"

definition mapping_suggestions :: "string list \<Rightarrow> agents \<Rightarrow> (string, string) dict" where
  "mapping_suggestions lanes agents = fold (\<lambda>lane out.
     (let found = primary_agent_for_lane lane agents in if found = [] then out else AList.update lane found out)) lanes []"

record seeding =
  sd_applied :: obj
  sd_kept :: obj
  sd_blank :: "string list"
  sd_profiles :: obj

definition seed_lane :: "(string \<Rightarrow> string) \<Rightarrow> bool \<Rightarrow> string \<Rightarrow> seeding \<Rightarrow> seeding" where
  "seed_lane proposals apply_changes lane s =
     (let d = (case or_else (map_of (sd_profiles s) lane) (JObj []) of JObj d \<Rightarrow> d | _ \<Rightarrow> []);
          current = or_else (map_of d ''agent_profile'') (JStr []);
          proposal = proposals lane
      in if truthy current then s\<lparr>sd_kept := AList.update lane current (sd_kept s)\<rparr>
         else if proposal = [] then s\<lparr>sd_blank := sd_blank s @ [lane]\<rparr>
         else s\<lparr>sd_applied := AList.update lane (JStr proposal) (sd_applied s),
                sd_profiles := (if apply_changes
                  then AList.update lane (JObj (AList.update ''agent_profile'' (JStr proposal) d)) (sd_profiles s)
                  else sd_profiles s)\<rparr>)"

definition serve_profile_mapping_seed ::
  "agents \<Rightarrow> obj option \<Rightarrow> gateway \<Rightarrow> reply \<times> gateway" where
  "serve_profile_mapping_seed agents body g =
     (let c = gw_config g; lanes = keys (profiles_of c); suggestions = mapping_suggestions lanes agents;
          apply_changes = (case body of None \<Rightarrow> False | Some b \<Rightarrow> truthy_opt (map_of b ''apply''))
      in if \<not> list_all (\<lambda>(n, p). is_obj p) (profiles_of c) then (Outside, g)
         else
           (let s = fold (seed_lane (\<lambda>lane. dget suggestions lane []) apply_changes) lanes
                  \<lparr>sd_applied = [], sd_kept = [], sd_blank = [], sd_profiles = profiles_of c\<rparr>;
                written = (apply_changes \<and> sd_applied s \<noteq> []);
                c1 = put_section ''profiles'' (JObj (sd_profiles s)) c
            in (Answer 200 [(''ok'', JBool True), (''applied'', JObj (sd_applied s)),
                  (''already_declared'', JObj (sd_kept s)), (''no_agent_found'', JList (map JStr (sd_blank s))),
                  (''applied_to_disk'', JBool written)],
                if written then g\<lparr>gw_config := save c1\<rparr> else g)))"

end
