(* ===== verification/Gateway_Edits.thy ===== *)
theory Gateway_Edits
  imports Gateway_Admin
begin

section \<open>What a history of configuration edits keeps\<close>

text \<open>
  Which edits keep the stored profiles acceptable to the loader, what a rename keeps of references and
  credentials, and the edits that lose data.
\<close>

subsection \<open>Which profiles the loader accepts\<close>

definition profile_keys :: "string list" where
  "profile_keys = [''agent_profile'', ''routing'', ''intents'', ''intent_margin_gate'', ''description'']"

definition fields_ok :: "obj \<Rightarrow> bool" where
  "fields_ok d \<longleftrightarrow> (case validate_profile_fields d of Inl e \<Rightarrow> False | Inr out \<Rightarrow> True)"

lemma fields_ok_iff:
  "fields_ok d \<longleftrightarrow>
    (\<exists>x. agent_field (dget d ''agent_profile'' (JStr [])) = Inr x) \<and>
    (\<exists>x. routing_field (dget d ''routing'' (JStr [])) = Inr x) \<and>
    (\<exists>x. intents_field (dget d ''intents'' (JList [])) = Inr x) \<and>
    (\<exists>x. gate_field (dget d ''intent_margin_gate'' (JNum 0)) = Inr x) \<and>
    (\<exists>x. description_field (dget d ''description'' (JStr [])) = Inr x)"
  unfolding fields_ok_def validate_profile_fields_def
  by (auto simp: rbind_def split: sum.splits)

lemma fields_ok_cong:
  assumes "list_all (\<lambda>k. map_of d k = map_of d' k) profile_keys"
  shows "fields_ok d = fields_ok d'"
  using assms unfolding fields_ok_iff by (simp add: profile_keys_def)

lemma fields_ok_update:
  "k \<notin> set profile_keys \<Longrightarrow> fields_ok (AList.update k v d) = fields_ok d"
  by (rule fields_ok_cong) (auto simp: profile_keys_def dict_simps)

definition loadable_profile :: "json \<Rightarrow> bool" where
  "loadable_profile p \<longleftrightarrow> (case p of
      JObj d \<Rightarrow> truthy_opt (map_of d ''chain'') \<and> fields_ok d
    | _ \<Rightarrow> False)"

lemma validate_profile_None: "validate_profile n p = None \<longleftrightarrow> loadable_profile p"
  by (auto simp: validate_profile_def loadable_profile_def fields_ok_def split: json.splits option.splits sum.splits)

definition loadable :: "gateway \<Rightarrow> bool" where
  "loadable g \<longleftrightarrow> section_ok (cfg_data (gw_config g)) ''profiles''"

lemma loadable_iff:
  "loadable g \<longleftrightarrow> (\<exists>d. map_of (cfg_data (gw_config g)) ''profiles'' = Some (JObj d) \<and>
     (\<forall>(n, p) \<in> set d. loadable_profile p))"
  by (auto simp: loadable_def section_ok_def validate_section_def validate_profiles_iff validate_profile_None
      split: option.splits json.splits)

lemma loadable_profiles_of:
  assumes "loadable g"
  shows "\<forall>(n, p) \<in> set (profiles_of (gw_config g)). loadable_profile p"
  using assms by (auto simp: loadable_iff profiles_of_def section_of_def)

lemma save_data [simp]: "cfg_data (save c) = cfg_data c"
  by (simp add: save_def split: option.split)

lemma loadable_put:
  assumes "\<forall>(n, p) \<in> set d. loadable_profile p"
  shows "loadable (g\<lparr>gw_config := put_section ''profiles'' (JObj d) c\<rparr>)"
  using assms by (simp add: loadable_iff put_section_def dict_simps)

lemma set_alist_update: "set (AList.update k v d) \<subseteq> insert (k, v) (set d)"
  by (induction d) auto

lemma loadable_put_profile:
  assumes "loadable g" "loadable_profile p"
  shows "loadable (g'\<lparr>gw_config := put_profile n p (gw_config g)\<rparr>)"
  unfolding put_profile_def
  by (rule loadable_put) (use loadable_profiles_of [OF assms(1)] assms(2) set_alist_update in fastforce)

lemma loadable_cong:
  "map_of (cfg_data (gw_config g)) ''profiles'' = map_of (cfg_data (gw_config g')) ''profiles'' \<Longrightarrow>
   loadable g = loadable g'"
  by (simp add: loadable_iff)

lemma profiles_after_learning:
  "map_of (cfg_data (auto_learn_model_contexts env n a c)) ''profiles'' = map_of (cfg_data c) ''profiles''"
  by (simp add: auto_learn_model_contexts_def put_section_def dict_simps Let_def
      split: option.split json.split prod.split)

lemma profiles_after_put_provider:
  "map_of (cfg_data (put_provider n p c)) ''profiles'' = map_of (cfg_data c) ''profiles''"
  by (simp add: put_provider_def put_section_def dict_simps)

lemma gw_config_refresh [simp]: "gw_config (request_refresh n g) = gw_config g"
  by (simp add: request_refresh_def)

lemma profiles_after_create:
  "map_of (cfg_data (created_config env n b c)) ''profiles'' = map_of (cfg_data c) ''profiles''"
  by (simp add: created_config_def Let_def profiles_after_learning profiles_after_put_provider)

lemma create_keeps_profiles:
  "map_of (cfg_data (gw_config (snd (serve_provider_create env b g)))) ''profiles'' =
   map_of (cfg_data (gw_config g)) ''profiles''"
  by (simp add: serve_provider_create_def Let_def profiles_after_create
      split: option.split json.split prod.split)

lemma update_keeps_profiles:
  "map_of (cfg_data (gw_config (snd (serve_provider_update env n b g)))) ''profiles'' =
   map_of (cfg_data (gw_config g)) ''profiles''"
  by (simp add: serve_provider_update_def Let_def profiles_after_learning profiles_after_put_provider
      split: option.split json.split prod.split)

lemma toggle_in_profile_config: "gw_config (snd (toggle_in_profile cfg now n p a g)) = gw_config g"
  by (simp add: toggle_in_profile_def force_at_def split: option.split json.split prod.split sum.split)

lemma toggle_keeps_config: "gw_config (snd (serve_provider_toggle cfg now n b g)) = gw_config g"
  by (simp add: serve_provider_toggle_def toggle_in_profile_config split: option.split json.split)

lemma loadable_save: "loadable (g\<lparr>gw_config := save c\<rparr>) = loadable (g\<lparr>gw_config := c\<rparr>)"
  by (rule loadable_cong) simp

lemma loadable_lookup:
  assumes "loadable g" "map_of (profiles_of (gw_config g)) n = Some p"
  shows "loadable_profile p"
  using loadable_profiles_of [OF assms(1)] map_of_SomeD [OF assms(2)] by auto

lemma loadable_profile_update:
  "loadable_profile (JObj d) \<Longrightarrow> k \<noteq> ''chain'' \<Longrightarrow> k \<notin> set profile_keys \<Longrightarrow>
   loadable_profile (JObj (AList.update k v d))"
  by (simp add: loadable_profile_def fields_ok_update dict_simps)

lemma loadable_profile_chain:
  "loadable_profile (JObj d) \<Longrightarrow> truthy v \<Longrightarrow> loadable_profile (JObj (AList.update ''chain'' v d))"
  by (simp add: loadable_profile_def fields_ok_update dict_simps profile_keys_def)

lemma validated_loadable:
  assumes "validate_profile_fields d = Inr stored" "truthy_opt (map_of d ''chain'')"
  shows "loadable_profile (JObj stored)"
proof -
  obtain again where "validate_profile_fields stored = Inr again"
    using validated_again [OF assms(1)] by blast
  moreover have "map_of stored ''chain'' = map_of d ''chain''"
    using assms(1) by (auto simp: validate_profile_fields_def rbind_eq_Inr dict_simps)
  ultimately show ?thesis using assms(2) by (simp add: loadable_profile_def fields_ok_def)
qed

subsubsection \<open>Operations on profiles\<close>

lemma merge_steps_length: "merge_steps old ss = Inr ms \<Longrightarrow> length ms = length ss"
  by (induction ss arbitrary: ms) (auto simp: Let_def rbind_eq_Inr split: json.splits if_splits)

lemma reorder_loadable:
  assumes "loadable g"
  shows "loadable (snd (serve_chain_reorder n body g))"
proof -
  have "loadable (g\<lparr>gw_config := save (put_profile n (JObj (AList.update ''chain'' (JList ms) d)) (gw_config g))\<rparr>)"
    if "map_of (profiles_of (gw_config g)) n = Some (JObj d)" "ms \<noteq> []" for d ms
    unfolding loadable_save
    by (rule loadable_put_profile [OF assms]) (use that loadable_lookup [OF assms] in \<open>auto intro: loadable_profile_chain\<close>)
  moreover have "ms \<noteq> []" if "merged_chain d ss = Inr ms" "ss \<noteq> []" for d ss ms
    using that merge_steps_length by (fastforce simp: merged_chain_def rbind_eq_Inr)
  ultimately show ?thesis
    using assms by (auto simp: serve_chain_reorder_def split: option.split json.split sum.split)
qed

lemma create_from_loadable:
  assumes "loadable g"
  shows "loadable (snd (create_from name dn b g))"
proof -
  have "loadable (g\<lparr>gw_config := save (put_profile name (JObj stored) (gw_config g))\<rparr>)"
    if "validate_profile_fields (draft_profile b chain forbidden) = Inr stored" "chain \<noteq> []" for stored chain forbidden
    unfolding loadable_save
    by (rule loadable_put_profile [OF assms], rule validated_loadable [OF that(1)])
      (use that(2) in \<open>simp add: draft_profile_def\<close>)
  then show ?thesis
    using assms by (auto simp: create_from_def Let_def rbind_eq_Inr split: sum.split)
qed

lemma create_loadable: "loadable g \<Longrightarrow> loadable (snd (serve_profile_create b g))"
  by (simp add: serve_profile_create_def Let_def create_from_loadable split: option.split json.split)

lemma delete_loadable:
  assumes "loadable g"
  shows "loadable (snd (serve_profile_delete n g))"
  using assms loadable_put [of "AList.delete n (profiles_of (gw_config g))" "gw_config g" g]
    loadable_profiles_of [OF assms]
  by (auto simp: serve_profile_delete_def Let_def loadable_save AList.delete_eq)

lemma loadable_profile_description:
  "loadable_profile (JObj d) \<Longrightarrow> loadable_profile (JObj (AList.update ''description'' (JStr s) d))"
  unfolding loadable_profile_def fields_ok_iff by (simp add: dict_simps)

lemma patch_loadable:
  assumes "loadable_profile (JObj d)" "k \<notin> set profile_keys" "k = ''chain'' \<Longrightarrow> map_of b k \<noteq> None \<Longrightarrow> truthy_opt (map_of b k)"
  shows "loadable_profile (JObj (patch k b d))"
proof (cases "map_of b k")
  case None
  then show ?thesis using assms(1) by (simp add: patch_def)
next
  case (Some v)
  then show ?thesis
    using assms by (cases "k = ''chain''") (auto simp: patch_def loadable_profile_chain loadable_profile_update)
qed

lemma patch_description_loadable:
  "patch_description b d = Inr d' \<Longrightarrow> loadable_profile (JObj d) \<Longrightarrow> loadable_profile (JObj d')"
  by (auto simp: patch_description_def loadable_profile_description split: option.splits json.splits)

lemma stored_fields_loadable:
  assumes "validate_profile_fields d' = Inr stored" "loadable_profile (JObj d)"
  shows "loadable_profile (JObj (fold (\<lambda>k. AList.update k (dget stored k JNull)) update_fields d))"
proof -
  obtain a r its g t where f:
      "agent_field (dget d' ''agent_profile'' (JStr [])) = Inr a"
      "routing_field (dget d' ''routing'' (JStr [])) = Inr r"
      "intents_field (dget d' ''intents'' (JList [])) = Inr its"
      "gate_field (dget d' ''intent_margin_gate'' (JNum 0)) = Inr g"
    and stored: "stored = AList.update ''description'' (JStr t)
       (AList.update ''intent_margin_gate'' (JNum g)
       (AList.update ''intents'' (JList (map JStr its))
       (AList.update ''routing'' (JStr r)
       (AList.update ''agent_profile'' (JStr a) d'))))"
    using assms(1) unfolding validate_profile_fields_def rbind_eq_Inr by blast
  note again = agent_field_again [OF f(1)] routing_field_again [OF f(2)] intents_field_again [OF f(3)]
    gate_field_again [OF f(4)]
  show ?thesis
    using assms(2) unfolding loadable_profile_def fields_ok_iff update_fields_def stored
    by (simp add: dict_simps again del: agent_field.simps intents_field.simps gate_field.simps description_field.simps)
qed

definition keeps_chain :: "obj \<Rightarrow> bool" where
  "keeps_chain b \<longleftrightarrow> (case map_of b ''chain'' of None \<Rightarrow> True | Some v \<Rightarrow> truthy v)"

lemma update_loadable:
  assumes "loadable g" "case body of None \<Rightarrow> True | Some b \<Rightarrow> keeps_chain b"
  shows "loadable (snd (serve_profile_update n body g))"
proof (cases "\<exists>b d. body = Some b \<and> map_of (profiles_of (gw_config g)) n = Some (JObj d)")
  case False
  then show ?thesis
    using assms(1) by (auto simp: serve_profile_update_def Let_def split: option.split json.split)
next
  case True
  then obtain b d where b: "body = Some b" and d: "map_of (profiles_of (gw_config g)) n = Some (JObj d)"
    by blast
  define d1 where "d1 = patch ''auth_required'' b (patch ''chain'' b (patch ''forbidden_tools'' b d))"
  have d1: "loadable_profile (JObj d1)"
    unfolding d1_def using assms(2) b loadable_lookup [OF assms(1) d]
    by (intro patch_loadable) (auto simp: profile_keys_def keeps_chain_def split: option.splits)
  have live: "loadable (g\<lparr>gw_config := put_profile n (JObj d') (gw_config g)\<rparr>)"
    and kept: "loadable (g\<lparr>gw_config := save (put_profile n (JObj d') (gw_config g))\<rparr>)"
    if "loadable_profile (JObj d')" for d'
    using loadable_put_profile [OF assms(1) that] by (simp_all add: loadable_save)
  show ?thesis
  proof (cases "patch_description b d1")
    case (Inl r)
    then show ?thesis using b d live [OF d1] by (simp add: serve_profile_update_def Let_def d1_def)
  next
    case (Inr d2)
    note d2 = patch_description_loadable [OF Inr d1]
    show ?thesis
    proof (cases "validate_profile_fields (fold (\<lambda>k. patch k b) update_fields d2)")
      case (Inl e)
      then show ?thesis
        using b d Inr live [OF d2] kept [OF d2] by (simp add: serve_profile_update_def Let_def d1_def)
    next
      case s: (Inr stored)
      then show ?thesis
        using b d Inr kept [OF d2] kept [OF stored_fields_loadable [OF s d2]]
        by (simp add: serve_profile_update_def Let_def d1_def)
    qed
  qed
qed

subsubsection \<open>Operations on providers\<close>

lemma repoint_steps_length: "repoint_steps n new ss = (e, ss', k) \<Longrightarrow> length ss' = length ss"
  by (induction ss arbitrary: e ss' k) (auto split: json.splits prod.splits if_splits)

lemma repoint_chain_loadable:
  assumes "repoint_chain n new d = (e, d', k)" "loadable_profile (JObj d)"
  shows "loadable_profile (JObj d')"
proof (cases "\<exists>ss. map_of d ''chain'' = Some (JList ss)")
  case True
  then obtain ss where ss: "map_of d ''chain'' = Some (JList ss)" by blast
  then obtain ss' where "d' = AList.update ''chain'' (JList ss') d" "length ss' = length ss"
    using assms(1) repoint_steps_length by (auto simp: repoint_chain_def split: prod.splits)
  moreover have "ss \<noteq> []" using assms(2) ss by (auto simp: loadable_profile_def)
  ultimately show ?thesis using assms(2) loadable_profile_chain [of d "JList ss'"] by (cases ss') auto
next
  case False
  then have "d' = d" using assms(1) by (auto simp: repoint_chain_def split: option.splits json.splits sum.splits)
  then show ?thesis using assms(2) by simp
qed

lemma repoint_profiles_loadable:
  "repoint_profiles n new ps = (e, ps', k) \<Longrightarrow> \<forall>(m, p) \<in> set ps. loadable_profile p \<Longrightarrow>
   \<forall>(m, p) \<in> set ps'. loadable_profile p"
proof (induction ps arbitrary: e ps' k)
  case (Cons q ps)
  obtain m p where q: "q = (m, p)" by (cases q)
  then obtain d where p: "p = JObj d" using Cons.prems(2) by (auto simp: loadable_profile_def split: json.splits)
  obtain e1 d' k1 where c: "repoint_chain n new d = (e1, d', k1)" by (metis prod_cases3)
  have "loadable_profile (JObj d')" using repoint_chain_loadable [OF c] Cons.prems(2) q p by simp
  then show ?case
    using Cons q p c by (cases e1; cases "repoint_profiles n new ps") auto
qed simp

lemma rename_loadable:
  assumes "loadable g"
  shows "loadable (snd (serve_provider_rename env n body g))"
proof -
  have "loadable (g'\<lparr>gw_config := put_section ''profiles'' (JObj ps') c\<rparr>)"
    if "repoint_profiles n new (profiles_of (gw_config g)) = (e, ps', k)" for new e ps' k c g'
    using repoint_profiles_loadable [OF that loadable_profiles_of [OF assms]] by (rule loadable_put)
  moreover have "loadable (request_refresh m (h\<lparr>gw_config := save c, gw_creds := x\<rparr>)) =
      loadable (h\<lparr>gw_config := c\<rparr>)" for m h c x
    by (rule loadable_cong) (simp add: request_refresh_def)
  ultimately show ?thesis
    using assms by (auto simp: serve_provider_rename_def Let_def split: option.split json.split prod.split)
qed

definition spares_chains :: "string \<Rightarrow> config \<Rightarrow> bool" where
  "spares_chains name c = list_all (\<lambda>(n, p). case p of
      JObj d \<Rightarrow> rbind (py_iter (dget d ''chain'' (JList []))) (keep_steps name) \<noteq> Inr []
    | _ \<Rightarrow> True) (profiles_of c)"

lemma drop_provider_loadable:
  "drop_provider n ps = (e, ps') \<Longrightarrow> \<forall>(m, p) \<in> set ps. loadable_profile p \<Longrightarrow>
   \<forall>(m, p) \<in> set ps. case p of JObj d \<Rightarrow> rbind (py_iter (dget d ''chain'' (JList []))) (keep_steps n) \<noteq> Inr [] | _ \<Rightarrow> True \<Longrightarrow>
   \<forall>(m, p) \<in> set ps'. loadable_profile p"
proof (induction ps arbitrary: e ps')
  case (Cons q ps)
  obtain m p where q: "q = (m, p)" by (cases q)
  then obtain d where p: "p = JObj d" using Cons.prems(2) by (auto simp: loadable_profile_def split: json.splits)
  show ?case
  proof (cases "rbind (py_iter (dget d ''chain'' (JList []))) (keep_steps n)")
    case (Inl x)
    then show ?thesis using Cons.prems q p by auto
  next
    case (Inr steps)
    then have "loadable_profile (JObj (AList.update ''chain'' (JList steps) d))"
      using Cons.prems(2,3) q p by (intro loadable_profile_chain) auto
    then show ?thesis using Cons q p Inr by (cases "drop_provider n ps") auto
  qed
qed simp

lemma provider_delete_loadable:
  assumes "loadable g" "spares_chains n (gw_config g)"
  shows "loadable (snd (serve_provider_delete n g))"
proof -
  have "loadable (g\<lparr>gw_config := put_section ''profiles'' (JObj ps') c\<rparr>)"
    if "drop_provider n (profiles_of (gw_config g)) = (e, ps')" for e ps' c
    using drop_provider_loadable [OF that loadable_profiles_of [OF assms(1)]] assms(2)
    by (intro loadable_put) (auto simp: spares_chains_def list_all_iff)
  moreover have "loadable (h\<lparr>gw_config := save c, gw_creds := x, gw_breaker := y\<rparr>) =
      loadable (h\<lparr>gw_config := c\<rparr>)" for h c x y
    by (rule loadable_cong) simp
  ultimately show ?thesis
    using assms by (auto simp: serve_provider_delete_def Let_def split: option.split prod.split)
qed

lemma seed_lane_loadable:
  assumes "\<forall>(n, p) \<in> set (sd_profiles s). loadable_profile p" "agent_field (JStr (proposals lane)) \<noteq> Inl BadAgentProfile"
    "lane \<in> set (keys (sd_profiles s))"
  shows "\<forall>(n, p) \<in> set (sd_profiles (seed_lane proposals apply_changes lane s)). loadable_profile p"
proof -
  obtain p where p: "map_of (sd_profiles s) lane = Some p"
    using assms(3) by (metis map_of_eq_None_iff list.set_map not_Some_eq)
  have "loadable_profile p" using map_of_SomeD [OF p] assms(1) by auto
  then obtain d where d: "p = JObj d" "loadable_profile (JObj d)"
    by (auto simp: loadable_profile_def split: json.splits)
  then have "d \<noteq> []" by (auto simp: loadable_profile_def)
  obtain x where "agent_field (JStr (proposals lane)) = Inr x"
    using assms(2) by (auto split: if_splits option.splits)
  then have "loadable_profile (JObj (AList.update ''agent_profile'' (JStr (proposals lane)) d))"
    using d(2) unfolding loadable_profile_def fields_ok_iff by (simp add: dict_simps del: agent_field.simps)
  moreover have "sd_profiles (seed_lane proposals apply_changes lane s) \<in>
      {sd_profiles s, AList.update lane (JObj (AList.update ''agent_profile'' (JStr (proposals lane)) d)) (sd_profiles s)}"
    using p d(1) \<open>d \<noteq> []\<close> by (simp add: seed_lane_def Let_def or_else_def)
  ultimately show ?thesis
    using assms(1) set_alist_update [of lane _ "sd_profiles s"] by (elim insertE emptyE) fastforce+
qed

lemma seed_lane_keys:
  "set (keys (sd_profiles s)) \<subseteq> set (keys (sd_profiles (seed_lane proposals a lane s)))"
  by (simp add: seed_lane_def Let_def keys_update subset_insertI del: set_map)

lemma seed_lanes_loadable:
  "\<forall>(n, p) \<in> set (sd_profiles s). loadable_profile p \<Longrightarrow>
   \<forall>l. agent_field (JStr (proposals l)) \<noteq> Inl BadAgentProfile \<Longrightarrow> set lanes \<subseteq> set (keys (sd_profiles s)) \<Longrightarrow>
   \<forall>(n, p) \<in> set (sd_profiles (fold (seed_lane proposals a) lanes s)). loadable_profile p"
proof (induction lanes arbitrary: s)
  case (Cons lane lanes)
  have "\<forall>(n, p) \<in> set (sd_profiles (seed_lane proposals a lane s)). loadable_profile p"
    using Cons.prems by (intro seed_lane_loadable) simp_all
  moreover have "set lanes \<subseteq> set (keys (sd_profiles (seed_lane proposals a lane s)))"
    using Cons.prems(3) seed_lane_keys by fastforce
  ultimately show ?case using Cons.IH Cons.prems(2) by simp
qed simp

text \<open>A suggestion is the name of an agent's directory, and every agent's directory may become one.\<close>

lemma sort_key_Cons_mem: "sort_key f xs = n # ns \<Longrightarrow> n \<in> set xs"
  by (metis list.set_intros(1) set_sort)

lemma primary_agent_is_agent:
  "primary_agent_for_lane lane agents = [] \<or> primary_agent_for_lane lane agents \<in> fst ` set agents"
proof (cases "lane = []")
  case False
  let ?sharing = "map fst (filter (\<lambda>(n, l). l = lane) agents)"
  let ?picked = "if filter (by_convention lane) ?sharing \<noteq> [] then filter (by_convention lane) ?sharing else ?sharing"
  have sub: "set ?picked \<subseteq> fst ` set agents" by auto
  have picked: "primary_agent_for_lane lane agents = (case sort_key (\<lambda>n. (n \<noteq> lower n, n)) ?picked of [] \<Rightarrow> [] | n # ns \<Rightarrow> n)"
    using False by (simp only: primary_agent_for_lane_def Let_def if_False)
  show ?thesis
  proof (cases "sort_key (\<lambda>n. (n \<noteq> lower n, n)) ?picked")
    case Nil
    then show ?thesis unfolding picked by simp
  next
    case (Cons n ns)
    then have "n \<in> set ?picked" by (rule sort_key_Cons_mem)
    then have "n \<in> fst ` set agents" by (rule subsetD [OF sub])
    then show ?thesis unfolding picked Cons by simp
  qed
qed (simp add: primary_agent_for_lane_def)

lemma suggestions_are_agents:
  "dget (mapping_suggestions lanes agents) l [] \<in> insert [] (fst ` set agents)"
proof -
  have "\<forall>(k, v) \<in> set (fold (\<lambda>lane out. (let found = primary_agent_for_lane lane agents in
      if found = [] then out else AList.update lane found out)) lanes out). v \<in> fst ` set agents"
    if "\<forall>(k, v) \<in> set out. v \<in> fst ` set agents" for out
    using that
  proof (induction lanes arbitrary: out)
    case (Cons lane lanes)
    have "\<forall>(k, v) \<in> set (if primary_agent_for_lane lane agents = [] then out
        else AList.update lane (primary_agent_for_lane lane agents) out). v \<in> fst ` set agents"
      using Cons.prems primary_agent_is_agent [of lane agents] set_alist_update [of lane "primary_agent_for_lane lane agents" out]
      by (auto split: if_splits)
    from Cons.IH [OF this] show ?case by (simp add: Let_def)
  qed simp
  from this [of "[]"] show ?thesis
    unfolding mapping_suggestions_def by (auto split: option.split dest!: map_of_SomeD)
qed

definition loadable_names :: "agents \<Rightarrow> bool" where
  "loadable_names agents \<longleftrightarrow> list_all (\<lambda>(n, l). agent_field (JStr n) \<noteq> Inl BadAgentProfile) agents"

lemma mapping_seed_loadable:
  assumes "loadable g" "loadable_names agents"
  shows "loadable (snd (serve_profile_mapping_seed agents body g))"
proof -
  let ?p = "\<lambda>l. dget (mapping_suggestions (keys (profiles_of (gw_config g))) agents) l []"
  have names: "agent_field (JStr n) \<noteq> Inl BadAgentProfile" if "n \<in> insert [] (fst ` set agents)" for n
    using assms(2) that by (auto simp: loadable_names_def list_all_iff strip_def lstrip_def rstrip_def simp del: agent_field.simps)
      simp
  then have ok: "\<forall>l. agent_field (JStr (?p l)) \<noteq> Inl BadAgentProfile"
    using suggestions_are_agents by blast
  have "loadable (g\<lparr>gw_config := put_section ''profiles'' (JObj (sd_profiles (fold (seed_lane ?p a)
      (keys (profiles_of (gw_config g)))
      \<lparr>sd_applied = [], sd_kept = [], sd_blank = [], sd_profiles = profiles_of (gw_config g)\<rparr>))) c\<rparr>)" for a c
    by (rule loadable_put, rule seed_lanes_loadable)
      (use loadable_profiles_of [OF assms(1)] ok in auto)
  then show ?thesis
    using assms(1) by (simp add: serve_profile_mapping_seed_def Let_def loadable_save)
qed

subsection \<open>Histories of edits\<close>

datatype admin_op =
    CreateProvider "obj option"
  | UpdateProvider string "obj option"
  | DeleteProvider string
  | RenameProvider string "obj option"
  | ToggleProvider string "obj option"
  | ReorderChain string "obj option"
  | CreateProfile "obj option"
  | UpdateProfile string "obj option"
  | DeleteProfile string
  | SeedMapping "obj option"

record admin_world =
  aw_env :: admin_env
  aw_breaker_cfg :: cb_config
  aw_now :: real
  aw_agents :: agents

fun admin_call :: "admin_world \<Rightarrow> admin_op \<Rightarrow> gateway \<Rightarrow> reply \<times> gateway" where
  "admin_call w (CreateProvider b) g = serve_provider_create (aw_env w) b g"
| "admin_call w (UpdateProvider n b) g = serve_provider_update (aw_env w) n b g"
| "admin_call w (DeleteProvider n) g = serve_provider_delete n g"
| "admin_call w (RenameProvider n b) g = serve_provider_rename (aw_env w) n b g"
| "admin_call w (ToggleProvider n b) g = serve_provider_toggle (aw_breaker_cfg w) (aw_now w) n b g"
| "admin_call w (ReorderChain p b) g = serve_chain_reorder p b g"
| "admin_call w (CreateProfile b) g = serve_profile_create b g"
| "admin_call w (UpdateProfile n b) g = serve_profile_update n b g"
| "admin_call w (DeleteProfile n) g = serve_profile_delete n g"
| "admin_call w (SeedMapping b) g = serve_profile_mapping_seed (aw_agents w) b g"

text \<open>
  The three edits the code does not guard: a provider that is all of some chain is deleted, a chain that is falsy is
  written, and the seeding meets a directory whose name the loader refuses.
\<close>

fun guarded :: "admin_world \<Rightarrow> admin_op \<Rightarrow> gateway \<Rightarrow> bool" where
  "guarded w (DeleteProvider n) g = spares_chains n (gw_config g)"
| "guarded w (UpdateProfile n b) g = (case b of None \<Rightarrow> True | Some d \<Rightarrow> keeps_chain d)"
| "guarded w (SeedMapping b) g = loadable_names (aw_agents w)"
| "guarded w _ g = True"

inductive edits :: "gateway \<Rightarrow> gateway \<Rightarrow> bool" where
  edits_none: "edits g g"
| edits_step: "edits g g' \<Longrightarrow> guarded w op g' \<Longrightarrow> edits g (snd (admin_call w op g'))"

lemma admin_call_loadable:
  assumes "loadable g" "guarded w op g"
  shows "loadable (snd (admin_call w op g))"
proof (cases op)
  case (CreateProvider b)
  then show ?thesis
    using assms(1) loadable_cong [OF create_keeps_profiles, of "aw_env w" b g] by simp
next
  case (UpdateProvider n b)
  then show ?thesis
    using assms(1) loadable_cong [OF update_keeps_profiles, of "aw_env w" n b g] by simp
next
  case (ToggleProvider n b)
  have "loadable (snd (serve_provider_toggle (aw_breaker_cfg w) (aw_now w) n b g)) = loadable g"
    by (rule loadable_cong) (simp add: toggle_keeps_config)
  then show ?thesis using assms(1) ToggleProvider by simp
next
  case (UpdateProfile n b)
  then show ?thesis using assms(2) update_loadable [OF assms(1), of b n] by simp
qed (use assms in \<open>simp_all add: provider_delete_loadable rename_loadable reorder_loadable create_loadable
    delete_loadable mapping_seed_loadable\<close>)

text \<open>
  C11: no sequence of edits makes the loader refuse the profiles.  Creating, updating, renaming and toggling
  providers, reordering chains, creating and deleting profiles, seeding the declared agents and every rejected
  or crashed call keep the profiles section one that passes the validation of the loader, except for the three
  edits the code does not guard: deleting a provider that is the whole chain of a profile, an update that writes
  an empty chain, and the seeding while some agent's directory has a name that is no agent name for the loader.
\<close>

theorem edits_keep_profiles_loadable:
  assumes "edits g g'" "section_ok (cfg_data (gw_config g)) ''profiles''"
  shows "section_ok (cfg_data (gw_config g')) ''profiles''"
  using assms
proof induction
  case (edits_step g g' w op)
  then show ?case using admin_call_loadable by (simp add: loadable_def)
qed

definition example_gateway :: gateway where
  "example_gateway = \<lparr>gw_config = new_config (Some example_store) (SEED_CONFIG JNull) None None, gw_creds = None,
     gw_breaker = new_breaker, gw_refresher = None\<rparr>"

definition example_world :: admin_world where
  "example_world = \<lparr>aw_env = \<lparr>ae_fernet = toy_fernet, ae_call = (\<lambda>i. \<lparr>now_iso = [], fresh_key = ''k'', nonce_of = []\<rparr>),
     ae_discover = (\<lambda>n a. None)\<rparr>, aw_breaker_cfg = default_cb_config, aw_now = 0, aw_agents = [(''homelab-expert'', ''default'')]\<rparr>"

lemma example_loadable: "section_ok (cfg_data (gw_config example_gateway)) ''profiles''"
  using seed_entries(2) [of JNull] section_ok_fall_back [of REQUIRED_SECTIONS "''profiles''" "SEED_CONFIG JNull"]
  by (auto simp: example_gateway_def new_config_def hydrate_def Let_def REQUIRED_SECTIONS_def intro!: section_ok_apply_env)

theorem edits_keep_profiles_loadable_witness:
  "section_ok (cfg_data (gw_config (snd (admin_call example_world
      (ReorderChain ''cron'' (Some [(''chain'', JList [JObj [(''provider'', JStr ''opencode''), (''model'', JStr ''glm'')]])]))
      (snd (admin_call example_world (SeedMapping (Some [(''apply'', JBool True)])) example_gateway)))))) ''profiles''"
proof -
  have "loadable_names (aw_agents example_world)"
    unfolding loadable_names_def example_world_def by code_simp
  then show ?thesis
    by (intro edits_keep_profiles_loadable [OF edits_step [OF edits_step [OF edits_none]] example_loadable]) simp_all
qed

text \<open>
  Also: seeding can lock the profiles out.  An agent whose directory has a name with a blank in it, and whose
  configuration names a profile without a declared agent, is stored as that profile's agent without a check; the
  loader then refuses the whole section, and with it every profile.
\<close>

theorem seeding_locks_profiles_out:
  assumes "profiles_of (gw_config g) = [(lane, JObj d)]" and "d \<noteq> []" and "lane \<noteq> []"
    and "\<not> truthy_opt (map_of d ''agent_profile'')" and "agent_field (JStr name) = Inl BadAgentProfile"
  shows "\<not> section_ok (cfg_data (gw_config (snd
    (serve_profile_mapping_seed [(name, lane)] (Some [(''apply'', JBool True)]) g)))) ''profiles''"
proof -
  let ?g = "snd (serve_profile_mapping_seed [(name, lane)] (Some [(''apply'', JBool True)]) g)"
  have name: "name \<noteq> []" using assms(5) by (auto simp: strip_def lstrip_def rstrip_def)
  have "primary_agent_for_lane lane [(name, lane)] = name"
    using assms(3) by (simp add: primary_agent_for_lane_def Let_def)
  then have "mapping_suggestions [lane] [(name, lane)] = [(lane, name)]"
    using name by (simp add: mapping_suggestions_def)
  then have "profiles_of (gw_config ?g) = [(lane, JObj (AList.update ''agent_profile'' (JStr name) d))]"
    using assms(1-4) name
    by (auto simp: serve_profile_mapping_seed_def seed_lane_def or_else_def Let_def profiles_of_def section_of_def
        put_section_def dict_simps split: option.splits if_splits)
  moreover have "\<not> loadable_profile (JObj (AList.update ''agent_profile'' (JStr name) d))"
    using assms(5) unfolding loadable_profile_def fields_ok_iff by (simp add: dict_simps del: agent_field.simps)
  ultimately have "\<not> loadable ?g" using loadable_profiles_of [of ?g] by auto
  then show ?thesis by (simp add: loadable_def)
qed

theorem seeding_locks_profiles_out_witness:
  "\<not> section_ok (cfg_data (gw_config (snd (serve_profile_mapping_seed [(''My Agent'', ''l2'')] (Some [(''apply'', JBool True)])
     (example_gateway\<lparr>gw_config := put_section ''profiles'' (JObj [(''l2'', JObj [(''chain'', JList [JObj []])])])
        (gw_config example_gateway)\<rparr>))))) ''profiles''"
proof (rule seeding_locks_profiles_out)
  show "\<not> truthy_opt (map_of [(''chain'', JList [JObj []])] ''agent_profile'')" by simp
  show "agent_field (JStr ''My Agent'') = Inl BadAgentProfile" by code_simp
qed (simp_all add: profiles_of_def section_of_def put_section_def dict_simps)

subsection \<open>What a rename keeps\<close>

definition step_provider :: "json \<Rightarrow> json" where
  "step_provider s = (case s of JObj d \<Rightarrow> dget d ''provider'' JNull | _ \<Rightarrow> JNull)"

definition chain_of :: "json \<Rightarrow> json list" where
  "chain_of p = (case p of
      JObj d \<Rightarrow> (case map_of d ''chain'' of Some (JList ss) \<Rightarrow> ss | _ \<Rightarrow> [])
    | _ \<Rightarrow> [])"

definition redirect :: "string \<Rightarrow> string \<Rightarrow> json \<Rightarrow> json" where
  "redirect n new s = (case s of
      JObj d \<Rightarrow> if dget d ''provider'' JNull = JStr n then JObj (AList.update ''provider'' (JStr new) d) else s
    | _ \<Rightarrow> s)"

definition references_ok :: "config \<Rightarrow> bool" where
  "references_ok c = list_all (\<lambda>(n, p). list_all
     (\<lambda>s. step_provider s \<in> JStr ` set (keys (providers_of c))) (chain_of p)) (profiles_of c)"

lemma step_provider_redirect:
  "step_provider (redirect n new s) = (if step_provider s = JStr n then JStr new else step_provider s)"
  by (cases s) (auto simp: step_provider_def redirect_def dict_simps)

lemma repoint_steps_None: "repoint_steps n new ss = (None, ss', k) \<Longrightarrow> ss' = map (redirect n new) ss"
  by (induction ss arbitrary: ss' k) (auto simp: redirect_def split: json.splits prod.splits if_splits)

lemma repoint_chain_None:
  "repoint_chain n new d = (None, d', k) \<Longrightarrow> chain_of (JObj d') = map (redirect n new) (chain_of (JObj d))"
  by (auto simp: repoint_chain_def chain_of_def dict_simps dest!: repoint_steps_None
      split: option.splits json.splits prod.splits sum.splits if_splits)

lemma repoint_profiles_None:
  "repoint_profiles n new ps = (None, ps', k) \<Longrightarrow>
   list_all2 (\<lambda>(m, p) (m', p'). m' = m \<and> chain_of p' = map (redirect n new) (chain_of p)) ps ps'"
proof (induction ps arbitrary: ps' k)
  case (Cons q ps)
  obtain m p where q: "q = (m, p)" by (cases q)
  then obtain d where p: "p = JObj d" using Cons.prems by (auto split: json.splits)
  obtain e1 d' k1 where c: "repoint_chain n new d = (e1, d', k1)" by (metis prod_cases3)
  then show ?case
    using Cons q p repoint_chain_None by (cases e1; cases "repoint_profiles n new ps") auto
qed simp

lemma profiles_of_put: "profiles_of (put_section ''profiles'' (JObj d) c) = d"
  by (simp add: profiles_of_def section_of_def put_section_def dict_simps)

lemma providers_of_put:
  "providers_of (put_section ''profiles'' v (put_section ''providers'' (JObj d) c)) = d"
  by (simp add: providers_of_def section_of_def put_section_def dict_simps)

lemma profiles_of_save [simp]: "profiles_of (save c) = profiles_of c"
  by (simp add: profiles_of_def section_of_def)

lemma providers_of_save [simp]: "providers_of (save c) = providers_of c"
  by (simp add: providers_of_def section_of_def)

text \<open>The state after a rename that was carried out.\<close>

lemma renamed_state:
  assumes "serve_provider_rename env n (Some b) g = (Answer 200 r, g')" "map_of b ''new_name'' = Some (JStr raw)"
    and "strip raw \<noteq> n"
  obtains ps k where "repoint_profiles n (strip raw) (profiles_of (gw_config g)) = (None, ps, k)"
    and "profiles_of (gw_config g') = ps"
    and "providers_of (gw_config g') = AList.update (strip raw) (dget (providers_of (gw_config g)) n JNull)
      (AList.delete n (providers_of (gw_config g)))"
    and "gw_creds g' = map_option (move_credentials env n (strip raw)) (gw_creds g)"
    and "n \<in> set (keys (providers_of (gw_config g)))" "strip raw \<notin> set (keys (providers_of (gw_config g)))"
proof -
  obtain e ps k where rp: "repoint_profiles n (strip raw) (profiles_of (gw_config g)) = (e, ps, k)"
    by (metis prod_cases3)
  have raw: "raw \<noteq> []" using assms(1,2) by (auto simp: serve_provider_rename_def refuse_def)
  have ok: "strip raw \<noteq> []" "n \<in> set (keys (providers_of (gw_config g)))" "strip raw \<notin> set (keys (providers_of (gw_config g)))"
    using assms raw by (auto simp: serve_provider_rename_def refuse_def Let_def split: if_splits)
  then have "e = None"
    using assms raw rp by (auto simp: serve_provider_rename_def Let_def split: option.splits)
  then show thesis
    using that [of ps k] assms raw ok rp
    by (auto simp: serve_provider_rename_def Let_def profiles_of_put providers_of_put request_refresh_def)
qed

lemma chains_transfer:
  assumes "list_all2 (\<lambda>(m, p) (m', p'). m' = m \<and> chain_of p' = map f (chain_of p)) xs ys"
    and "\<And>s. P s \<Longrightarrow> Q (f s)"
  shows "list_all (\<lambda>(n, p). list_all P (chain_of p)) xs \<Longrightarrow> list_all (\<lambda>(n, p). list_all Q (chain_of p)) ys"
  using assms(1) by (induction rule: list_all2_induct) (auto simp: list_all_iff assms(2))

text \<open>
  C22: a rename moves a provider and nothing else: its entry is found under the new name, every other entry
  is as it was, each profile keeps its name and the length and order of its chain, exactly the steps of
  the old name carry the new one, and so a configuration in which every step names a configured provider stays one.
\<close>

theorem rename_keeps_references:
  assumes "serve_provider_rename env n (Some b) g = (Answer 200 r, g')" "map_of b ''new_name'' = Some (JStr raw)"
    and "strip raw \<noteq> n"
  shows "map_of (providers_of (gw_config g')) =
      (map_of (providers_of (gw_config g)))(strip raw := map_of (providers_of (gw_config g)) n, n := None) \<and>
    list_all2 (\<lambda>(m, p) (m', p'). m' = m \<and> chain_of p' = map (redirect n (strip raw)) (chain_of p))
      (profiles_of (gw_config g)) (profiles_of (gw_config g')) \<and>
    (references_ok (gw_config g) \<longrightarrow> references_ok (gw_config g'))"
proof -
  let ?c = "gw_config g" and ?c' = "gw_config g'" and ?new = "strip raw"
  obtain ps k where rp: "repoint_profiles n ?new (profiles_of ?c) = (None, ps, k)" and ps: "profiles_of ?c' = ps"
    and prov: "providers_of ?c' = AList.update ?new (dget (providers_of ?c) n JNull) (AList.delete n (providers_of ?c))"
    and n: "n \<in> set (keys (providers_of ?c))" "?new \<notin> set (keys (providers_of ?c))"
    using renamed_state [OF assms] by metis
  have chains: "list_all2 (\<lambda>(m, p) (m', p'). m' = m \<and> chain_of p' = map (redirect n ?new) (chain_of p))
      (profiles_of ?c) (profiles_of ?c')"
    using repoint_profiles_None [OF rp] ps by simp
  have "map_of (providers_of ?c) n \<noteq> None" using n(1) by (simp add: map_of_eq_None_iff)
  then have entries: "map_of (providers_of ?c') = (map_of (providers_of ?c))(?new := map_of (providers_of ?c) n, n := None)"
    using assms(3) by (auto simp: prov dict_simps fun_eq_iff)
  have "set (keys (providers_of ?c')) = insert ?new (set (keys (providers_of ?c)) - {n})"
    unfolding prov by (auto simp: keys_update delete_keys)
  then have "step_provider (redirect n ?new s) \<in> JStr ` set (keys (providers_of ?c'))"
    if "step_provider s \<in> JStr ` set (keys (providers_of ?c))" for s
    using that by (auto simp: step_provider_redirect)
  then have "references_ok ?c \<longrightarrow> references_ok ?c'"
    unfolding references_ok_def by (intro impI) (rule chains_transfer [OF chains])
  with entries chains show ?thesis by blast
qed


definition renamed_gateway :: gateway where
  "renamed_gateway = \<lparr>gw_config = \<lparr>cfg_store = None, cfg_seed = [],
     cfg_data = [(''providers'', JObj [(''zgx'', JObj []), (''opencode'', JObj [])]),
       (''profiles'', JObj [(''coder'', JObj [(''chain'', JList [JObj [(''provider'', JStr ''opencode'')],
          JObj [(''provider'', JStr ''zgx'')]])])])]\<rparr>, gw_creds = None, gw_breaker = new_breaker, gw_refresher = None\<rparr>"

theorem rename_keeps_references_witness:
  "\<exists>r g'. serve_provider_rename (aw_env example_world) ''zgx'' (Some [(''new_name'', JStr '' spark '')]) renamed_gateway = (Answer 200 r, g') \<and>
    references_ok (gw_config renamed_gateway) \<and> references_ok (gw_config g')"
proof -
  have s: "strip '' spark '' = ''spark''" by code_simp
  obtain r g' where c: "serve_provider_rename (aw_env example_world) ''zgx'' (Some [(''new_name'', JStr '' spark '')])
      renamed_gateway = (Answer 200 r, g')"
    by (simp add: serve_provider_rename_def renamed_gateway_def s Let_def providers_of_def profiles_of_def section_of_def
        repoint_chain_def)
  have "references_ok (gw_config renamed_gateway)"
    by (simp add: references_ok_def renamed_gateway_def providers_of_def profiles_of_def section_of_def
        chain_of_def step_provider_def)
  with rename_keeps_references [OF c, of "'' spark ''"] c show ?thesis by (simp add: s)
qed

subsection \<open>Edits that are lost or half done\<close>

lemma keep_steps_all:
  "\<forall>s \<in> set ss. \<exists>e. s = JObj e \<and> map_of e ''provider'' = Some (JStr n) \<Longrightarrow> keep_steps n ss = Inr []"
  by (induction ss) auto

lemma drop_provider_entry:
  "drop_provider n ps = (None, ps') \<Longrightarrow> (m, JObj d) \<in> set ps \<Longrightarrow>
   \<exists>steps. rbind (py_iter (dget d ''chain'' (JList []))) (keep_steps n) = Inr steps \<and>
     (m, JObj (AList.update ''chain'' (JList steps) d)) \<in> set ps'"
  by (induction ps arbitrary: ps') (auto split: json.splits sum.splits prod.splits)

lemma empty_chain_not_loadable: "\<not> loadable_profile (JObj (AList.update ''chain'' (JList []) d))"
  by (simp add: loadable_profile_def dict_simps)

text \<open>
  Also: deleting a provider that is the whole chain of one profile loses every profile at the next start:
  the stored section has an empty chain, the loader refuses it and takes the profiles of the seed, so all
  profiles of the installation are replaced, those that never used the provider included.
\<close>

theorem deleting_a_sole_provider_resets_profiles:
  assumes "serve_provider_delete n g = (Answer 200 r, g')"
    and "cfg_store (gw_config g) = Some st" "st_fails st = []"
    and "map_of (profiles_of (gw_config g)) p = Some (JObj d)" "map_of d ''chain'' = Some (JList ss)"
    and "\<forall>s \<in> set ss. \<exists>e. s = JObj e \<and> map_of e ''provider'' = Some (JStr n)"
    and "map_of (cfg_seed (gw_config g)) ''profiles'' = Some seeds"
  shows "map_of (cfg_data (restart listen_port cost_db (gw_config g'))) ''profiles'' = Some seeds"
proof -
  let ?c = "gw_config g"
  obtain e ps where dp: "drop_provider n (profiles_of ?c) = (e, ps)" by (cases "drop_provider n (profiles_of ?c)")
  define c1 where "c1 = put_section ''profiles'' (JObj ps)
    (put_section ''providers'' (JObj (AList.delete n (providers_of ?c))) ?c)"
  have "e = None" and g': "gw_config g' = save c1"
    using assms(1) dp by (auto simp: serve_provider_delete_def refuse_def Let_def c1_def
        split: if_splits option.splits prod.splits)
  have "(p, JObj (AList.update ''chain'' (JList []) d)) \<in> set ps"
    using drop_provider_entry [OF dp [unfolded \<open>e = None\<close>] map_of_SomeD [OF assms(4)]]
      keep_steps_all [OF assms(6)] assms(5) by simp
  then have bad: "validate_section ''profiles'' (JObj ps) \<noteq> None" and "ps \<noteq> []"
    using empty_chain_not_loadable
    by (auto simp: validate_section_def validate_profiles_iff validate_profile_None)
  have c1: "cfg_store c1 = Some st" "cfg_seed c1 = cfg_seed ?c" "map_of (cfg_data c1) ''profiles'' = Some (JObj ps)"
    using assms(2) by (simp_all add: c1_def put_section_def dict_simps)
  show ?thesis
    unfolding g'
    using hydrate_saved [OF c1(1) assms(3) _ _ c1(3)] \<open>ps \<noteq> []\<close> bad assms(7) c1(2)
    by (simp add: ALL_SECTIONS_def REQUIRED_SECTIONS_def)
qed

definition two_profiles :: gateway where
  "two_profiles = renamed_gateway\<lparr>gw_config := \<lparr>cfg_store = Some example_store, cfg_seed = SEED_CONFIG JNull,
     cfg_data = [(''providers'', JObj [(''zgx'', JObj []), (''opencode'', JObj [])]),
       (''profiles'', JObj [(''mine'', JObj [(''chain'', JList [JObj [(''provider'', JStr ''opencode'')]])]),
          (''local'', JObj [(''chain'', JList [JObj [(''provider'', JStr ''zgx'')]])])])]\<rparr>\<rparr>"

theorem deleting_a_sole_provider_resets_profiles_witness:
  "\<exists>r g'. serve_provider_delete ''zgx'' two_profiles = (Answer 200 r, g') \<and>
     map_of (cfg_data (restart None None (gw_config g'))) ''profiles'' = Some seed_profiles"
proof -
  have p: "keys (providers_of (gw_config two_profiles)) = [''zgx'', ''opencode'']"
    and d: "fst (drop_provider ''zgx'' (profiles_of (gw_config two_profiles))) = None"
    by (simp_all add: two_profiles_def providers_of_def profiles_of_def section_of_def)
  obtain r g' where c: "serve_provider_delete ''zgx'' two_profiles = (Answer 200 r, g')"
    using d by (simp add: serve_provider_delete_def Let_def p case_prod_beta del: set_map)
  show ?thesis
    using c deleting_a_sole_provider_resets_profiles [OF c, of example_store "''local''"
        "[(''chain'', JList [JObj [(''provider'', JStr ''zgx'')]])]" _ seed_profiles None None]
    by (simp add: two_profiles_def example_store_def profiles_of_def section_of_def seed_lookups)
qed

text \<open>
  Also: an update that is rejected is half done: when the routing mode is none of the allowed ones the reply is
  an error, but the new list of forbidden tools of the same request is live at once, and the next save of
  any edit stores it.
\<close>

theorem rejected_update_takes_effect:
  assumes "map_of (profiles_of (gw_config g)) n = Some (JObj d)"
    and "map_of b ''forbidden_tools'' = Some tools" "map_of b ''description'' = None"
    and "map_of b ''routing'' = Some (JStr mode)" "mode \<noteq> []" "lower (strip mode) \<notin> set ROUTING_MODES"
  shows "(\<exists>e. fst (serve_profile_update n (Some b) g) = Rejected e) \<and>
    (\<exists>d'. map_of (profiles_of (gw_config (snd (serve_profile_update n (Some b) g)))) n = Some (JObj d') \<and>
       map_of d' ''forbidden_tools'' = Some tools)"
proof -
  define d1 where "d1 = patch ''auth_required'' b (patch ''chain'' b (patch ''forbidden_tools'' b d))"
  have d1: "map_of d1 ''forbidden_tools'' = Some tools"
    using assms(2) by (simp add: d1_def patch_def dict_simps split: option.split)
  have "map_of (fold (\<lambda>k. patch k b) update_fields d1) ''routing'' = Some (JStr mode)"
    using assms(4) by (simp add: update_fields_def patch_def dict_simps split: option.split)
  then have "\<exists>e. validate_profile_fields (fold (\<lambda>k. patch k b) update_fields d1) = Inl e"
    using assms(5,6) by (auto simp: validate_profile_fields_def rbind_def routing_field_def split: sum.splits)
  moreover have "list_ex (\<lambda>k. k \<in> set (keys b)) update_fields"
    using map_of_SomeD [OF assms(4)] by (force simp: update_fields_def)
  ultimately show ?thesis
    using assms(1,3) d1
    by (auto simp: serve_profile_update_def Let_def patch_description_def put_profile_def profiles_of_put dict_simps
        d1_def [symmetric])
qed

theorem rejected_update_takes_effect_witness:
  "\<exists>e. fst (serve_profile_update ''mine'' (Some [(''forbidden_tools'', JList []), (''routing'', JStr ''auto'')]) two_profiles) = Rejected e"
proof -
  have "lower (strip ''auto'') \<notin> set ROUTING_MODES" by code_simp
  then show ?thesis
    using rejected_update_takes_effect [of two_profiles "''mine''" "[(''chain'', JList [JObj [(''provider'', JStr ''opencode'')]])]"
        "[(''forbidden_tools'', JList []), (''routing'', JStr ''auto'')]" "JList []" "''auto''"]
    by (simp add: two_profiles_def profiles_of_def section_of_def)
qed

subsection \<open>Credentials of a provider that is renamed\<close>

text \<open>Once a master secret has been found the environment of the store stays as it is.\<close>

definition secret_found :: "credential_store \<Rightarrow> bool" where
  "secret_found cs \<longleftrightarrow> (\<exists>k. \<forall>fresh. get_secret_key fresh (cred_env cs) = (Some k, cred_env cs))"

lemma secret_found_get:
  assumes "cred_get f call p cs = (Some x, cs')"
  shows "secret_found cs' \<and> cred_rows cs' = cred_rows cs \<and> x \<noteq> []"
proof -
  obtain k e where "get_secret_key (fresh_key call) (cred_env cs) = (Some k, e)" "cred_env cs' = e" "x \<noteq> []"
    "cred_rows cs' = cred_rows cs"
    using assms by (auto simp: cred_get_def decrypt_secret_def Let_def split: option.splits prod.splits if_splits)
  then show ?thesis using get_secret_key_again by (auto simp: secret_found_def)
qed

lemma get_keeps_env: "secret_found cs \<Longrightarrow> cred_get f call p cs = (v, cs') \<Longrightarrow> cs' = cs"
  by (auto simp: secret_found_def cred_get_def decrypt_secret_def Let_def split: option.splits prod.splits if_splits)

lemma set_keeps_env:
  assumes "secret_found cs" "cred_set f call p x cs = (ok, cs')"
  shows "ok \<and> cred_env cs' = cred_env cs"
proof -
  obtain k where "get_secret_key (fresh_key call) (cred_env cs) = (Some k, cred_env cs)"
    using assms(1) by (auto simp: secret_found_def)
  then show ?thesis
    using assms(2) by (auto simp: cred_set_def encrypt_secret_def Let_def split: if_splits)
qed

lemma secret_found_cong: "cred_env cs' = cred_env cs \<Longrightarrow> secret_found cs' = secret_found cs"
  by (simp add: secret_found_def)

lemma cred_set_clear: "cred_set f call p [] cs = (True, cs\<lparr>cred_rows := AList.delete p (cred_rows cs)\<rparr>)"
  by (simp add: cred_set_def)

lemma move_credential_frame:
  assumes "secret_found cs" "move_credential env i old new cs = (ok, cs')"
  shows "ok \<and> cred_env cs' = cred_env cs \<and>
    (\<forall>q. q \<notin> {old, new} \<longrightarrow> map_of (cred_rows cs') q = map_of (cred_rows cs) q)"
proof (cases "cred_has old cs")
  case False
  then show ?thesis using assms(2) by (simp add: move_credential_def)
next
  case True
  obtain v cs1 where "cred_get (ae_fernet env) (ae_call env i) old cs = (v, cs1)" by fastforce
  then have g: "cred_get (ae_fernet env) (ae_call env i) old cs = (v, cs)"
    using get_keeps_env [OF assms(1)] by blast
  obtain ok2 cs2 where s: "cred_set (ae_fernet env) (ae_call env (Suc i)) new (case v of None \<Rightarrow> [] | Some x \<Rightarrow> x) cs = (ok2, cs2)"
    by fastforce
  note e = set_keeps_env [OF assms(1) s]
  have "map_of (cred_rows cs2) q = map_of (cred_rows cs) q" if "q \<noteq> new" for q
    by (rule cred_set_other [OF s that])
  then show ?thesis
    using assms(2) True g s e by (auto simp: move_credential_def cred_set_clear dict_simps)
qed

lemma move_credential_moved:
  assumes "old \<noteq> new" "fst (cred_get (ae_fernet env) (ae_call env i) old cs) = Some x"
    and law: "\<And>n k t. fernet_decrypt (ae_fernet env) k (fernet_encrypt (ae_fernet env) n k t) = Some t"
      "\<And>n k t. fernet_encrypt (ae_fernet env) n k t \<noteq> []"
  obtains cs' where "move_credential env i old new cs = (True, cs')" "secret_found cs'"
    and "\<And>call. fst (cred_get (ae_fernet env) call new cs') = Some x" "\<not> cred_has old cs'"
proof -
  obtain cs1 where g: "cred_get (ae_fernet env) (ae_call env i) old cs = (Some x, cs1)"
    using assms(2) by (cases "cred_get (ae_fernet env) (ae_call env i) old cs") auto
  then have has: "cred_has old cs" by (auto simp: cred_get_def cred_has_def split: option.splits)
  note found = secret_found_get [OF g]
  obtain cs2 where s: "cred_set (ae_fernet env) (ae_call env (Suc i)) new x cs1 = (True, cs2)"
    using set_keeps_env [of cs1] found by (metis surj_pair)
  have env2: "cred_env cs2 = cred_env cs1" using set_keeps_env [OF _ s] found by blast
  let ?cs' = "cs2\<lparr>cred_rows := AList.delete old (cred_rows cs2)\<rparr>"
  have get: "fst (cred_get (ae_fernet env) call new cs2) = Some x" for call
    using cred_get_set [OF s _ law] found by simp
  have "fst (cred_get (ae_fernet env) call new ?cs') = fst (cred_get (ae_fernet env) call new cs2)" for call
    using assms(1) by (simp add: cred_get_def dict_simps Let_def split: option.splits prod.splits)
  moreover have "move_credential env i old new cs = (True, ?cs')"
    using has g s by (simp add: move_credential_def cred_set_clear)
  moreover have "secret_found ?cs'" using found env2 secret_found_cong [of ?cs' cs1] by simp
  ultimately show thesis using that get by (simp add: cred_has_def dict_simps)
qed

lemma cred_get_cong:
  "cred_env cs' = cred_env cs \<Longrightarrow> map_of (cred_rows cs') p = map_of (cred_rows cs) p \<Longrightarrow>
   fst (cred_get f call p cs') = fst (cred_get f call p cs)"
  by (simp add: cred_get_def Let_def split: option.split prod.split)

text \<open>
  Also: a renamed provider keeps its API key: what was stored and readable under the old name is read under
  the new one, and nothing is left under the old name, whatever cookies and workspace ids are moved
  with it, as long as the two names are not themselves of the form the cookie and workspace entries use.
\<close>

theorem renamed_provider_keeps_its_key:
  assumes "serve_provider_rename env n (Some b) g = (Answer 200 r, g')" "map_of b ''new_name'' = Some (JStr raw)"
    and "strip raw \<noteq> n" "gw_creds g = Some cs"
    and "fst (cred_get (ae_fernet env) (ae_call env 0) n cs) = Some x"
    and names: "\<And>p. p \<in> {n, strip raw} \<Longrightarrow> p \<notin> {cookie_key n, cookie_key (strip raw), ws_id_key n, ws_id_key (strip raw)}"
    and law: "\<And>n k t. fernet_decrypt (ae_fernet env) k (fernet_encrypt (ae_fernet env) n k t) = Some t"
      "\<And>n k t. fernet_encrypt (ae_fernet env) n k t \<noteq> []"
  shows "\<exists>cs'. gw_creds g' = Some cs' \<and> fst (cred_get (ae_fernet env) call (strip raw) cs') = Some x \<and> \<not> cred_has n cs'"
proof -
  have creds: "gw_creds g' = Some (move_credentials env n (strip raw) cs)"
    using renamed_state [OF assms(1-3)] assms(4) by (metis option.simps(9))
  obtain cs1 where m1: "move_credential env 0 n (strip raw) cs = (True, cs1)" "secret_found cs1"
      "\<And>call. fst (cred_get (ae_fernet env) call (strip raw) cs1) = Some x" "\<not> cred_has n cs1"
    using move_credential_moved [OF _ assms(5) law, of "strip raw"] assms(3) by metis
  obtain ok2 cs2 where m2: "move_credential env 3 (cookie_key n) (cookie_key (strip raw)) cs1 = (ok2, cs2)" by fastforce
  note f2 = move_credential_frame [OF m1(2) m2]
  then have found2: "secret_found cs2" using m1(2) secret_found_cong by blast
  obtain ok3 cs3 where m3: "move_credential env 6 (ws_id_key n) (ws_id_key (strip raw)) cs2 = (ok3, cs3)" by fastforce
  note f3 = move_credential_frame [OF found2 m3]
  have "move_credentials env n (strip raw) cs = cs3"
    using m1(1) m2 m3 f2 by (simp add: move_credentials_def)
  moreover have "cred_env cs3 = cred_env cs1" using f2 f3 by simp
  moreover have "map_of (cred_rows cs3) p = map_of (cred_rows cs1) p"
    if "p \<in> {n, strip raw}" for p
    using f2 f3 names [OF that] by auto
  ultimately show ?thesis
    using creds m1(3,4) cred_get_cong [of cs3 cs1 "strip raw"] by (auto simp: cred_has_def)
qed

definition keyed_gateway :: gateway where
  "keyed_gateway = renamed_gateway\<lparr>gw_creds := Some \<lparr>
     cred_rows = [(''zgx'', \<lparr>encrypted_key = ''gsk'', created_at = [], updated_at = []\<rparr>)],
     cred_env = \<lparr>env_secret = Some ''m'', key_file = None, disk_ok = False\<rparr>\<rparr>\<rparr>"

theorem renamed_provider_keeps_its_key_witness:
  "\<exists>r g' cs'. serve_provider_rename (aw_env example_world) ''zgx'' (Some [(''new_name'', JStr ''spark'')]) keyed_gateway = (Answer 200 r, g') \<and>
     gw_creds g' = Some cs' \<and> fst (cred_get toy_fernet (ae_call (aw_env example_world) 9) ''spark'' cs') = Some ''sk'' \<and> \<not> cred_has ''zgx'' cs'"
proof -
  have s: "strip ''spark'' = ''spark''" by code_simp
  obtain r g' where c: "serve_provider_rename (aw_env example_world) ''zgx'' (Some [(''new_name'', JStr ''spark'')])
      keyed_gateway = (Answer 200 r, g')"
    by (simp add: serve_provider_rename_def keyed_gateway_def renamed_gateway_def s Let_def providers_of_def
        profiles_of_def section_of_def repoint_chain_def)
  have "\<exists>cs'. gw_creds g' = Some cs' \<and>
      fst (cred_get (ae_fernet (aw_env example_world)) (ae_call (aw_env example_world) 9) (strip ''spark'') cs') = Some ''sk'' \<and>
      \<not> cred_has ''zgx'' cs'"
    by (rule renamed_provider_keeps_its_key [OF c, of "''spark''"])
      (auto simp: s keyed_gateway_def cookie_key_def ws_id_key_def example_world_def toy_fernet_def cred_get_def
        decrypt_secret_def get_secret_key_def)
  with c show ?thesis by (simp add: s example_world_def)
qed

end
