(* ===== verification/Cost_Cache.thy ===== *)
theory Cost_Cache
  imports Py_Numbers
begin

section \<open>The cache of provider accounts and its refresher (src/api/cost\_cache.py)\<close>

text \<open>
  Scraped payloads are rows by provider and kind.  A background pass decides which of them to scrape:
  missing or older than their time to live, or asked for; throttled, and gated after failures.  The
  time stamp of a row is the time its text denotes, or \<open>None\<close> when it denotes none.  A payload column
  that cannot be decoded is read as the empty object.  The plugins (which accounts they expose and what a
  fetch returns), the random jitter and the reader of floats are arguments; database writes succeed.
  The thread that runs a pass on every tick is left out.
\<close>

type_synonym account = "string \<times> string" \<comment> \<open>provider, kind\<close>

definition KINDS :: "string list" where
  "KINDS = [''subscription'', ''balance'']"

subsection \<open>The time to live\<close>

type_synonym setting_rows = "(string, string) dict"

definition TTL_KEY :: string where
  "TTL_KEY = ''cost_cache_ttl_minutes''"

definition provider_ttl_key :: "string \<Rightarrow> string" where
  "provider_ttl_key provider = TTL_KEY @ '':'' @ provider"

definition ttl_from_raw :: "(string \<Rightarrow> real option) \<Rightarrow> string \<Rightarrow> int \<Rightarrow> int" where
  "ttl_from_raw to_float raw dflt = (case to_float raw of
      None \<Rightarrow> dflt
    | Some x \<Rightarrow> max 1 (truncate_real x))"

text \<open>An absent provider is the empty text.\<close>

definition get_ttl_minutes :: "(string \<Rightarrow> real option) \<Rightarrow> setting_rows \<Rightarrow> string \<Rightarrow> int \<Rightarrow> int" where
  "get_ttl_minutes to_float st provider dflt =
     (case (if provider \<noteq> [] then map_of st (provider_ttl_key provider) else None) of
        Some raw \<Rightarrow> ttl_from_raw to_float raw dflt
      | None \<Rightarrow> (case map_of st TTL_KEY of
          Some raw \<Rightarrow> ttl_from_raw to_float raw dflt
        | None \<Rightarrow> max 1 dflt))"

definition set_ttl_minutes :: "(int \<Rightarrow> string) \<Rightarrow> int \<Rightarrow> string \<Rightarrow> setting_rows \<Rightarrow> setting_rows" where
  "set_ttl_minutes show minutes provider st =
     AList.update (if provider \<noteq> [] then provider_ttl_key provider else TTL_KEY) (show (max 1 minutes)) st"

definition clear_ttl_minutes :: "string \<Rightarrow> setting_rows \<Rightarrow> setting_rows" where
  "clear_ttl_minutes provider st = AList.delete (provider_ttl_key provider) st"

definition ttl_overrides :: "(string \<Rightarrow> real option) \<Rightarrow> setting_rows \<Rightarrow> (string, int) dict" where
  "ttl_overrides to_float st =
     (let pre = TTL_KEY @ '':'' in
      map (\<lambda>(k, raw). (drop (length pre) k, ttl_from_raw to_float raw 30))
        (filter (\<lambda>(k, raw). starts_with k pre \<and> drop (length pre) k \<noteq> []) st))"

subsection \<open>The rows\<close>

record cache_row =
  cr_payload :: "obj option"
  cr_fetched :: "real option"
  cr_stale :: "json option"

type_synonym cost_rows = "(account, cache_row) dict"

definition cost_get :: "account \<Rightarrow> cost_rows \<Rightarrow> (obj \<times> real option \<times> json option) option" where
  "cost_get k rows = (case map_of rows k of
      None \<Rightarrow> None
    | Some r \<Rightarrow> Some (case cr_payload r of None \<Rightarrow> [] | Some p \<Rightarrow> p, cr_fetched r, cr_stale r))"

definition cost_set :: "real \<Rightarrow> account \<Rightarrow> obj \<Rightarrow> json option \<Rightarrow> cost_rows \<Rightarrow> cost_rows" where
  "cost_set now k payload stale rows =
     AList.update k \<lparr>cr_payload = Some payload, cr_fetched = Some now, cr_stale = stale\<rparr> rows"

definition mark_stale :: "account \<Rightarrow> json \<Rightarrow> cost_rows \<Rightarrow> cost_rows" where
  "mark_stale k err rows = (case map_of rows k of
      None \<Rightarrow> rows
    | Some r \<Rightarrow> AList.update k (r\<lparr>cr_stale := Some err\<rparr>) rows)"

text \<open>An absent provider or kind matches all rows, and so does an empty one.\<close>

definition invalidate :: "string \<Rightarrow> string \<Rightarrow> cost_rows \<Rightarrow> cost_rows" where
  "invalidate provider kind rows =
     filter (\<lambda>((p, k), r). \<not> ((provider = [] \<or> p = provider) \<and> (kind = [] \<or> k = kind))) rows"

definition cost_clear :: "cost_rows \<Rightarrow> cost_rows" where
  "cost_clear rows = invalidate [] [] rows"

definition cost_is_stale :: "real \<Rightarrow> account \<Rightarrow> real \<Rightarrow> cost_rows \<Rightarrow> bool" where
  "cost_is_stale now k ttl rows = (case cost_get k rows of
      None \<Rightarrow> True
    | Some (payload, fetched, stale) \<Rightarrow> (case fetched of
        None \<Rightarrow> True
      | Some t \<Rightarrow> ttl \<le> now - t))"

text \<open>The listing, ordered by provider and kind.\<close>

definition cost_entries :: "real \<Rightarrow> cost_rows \<Rightarrow> (account \<times> real option \<times> real \<times> json option) list" where
  "cost_entries now rows = map (\<lambda>(k, r).
      (k, cr_fetched r, py_round 1 (case cr_fetched r of None \<Rightarrow> 0 | Some t \<Rightarrow> max 0 (now - t)), cr_stale r))
     (sort_key fst rows)"

subsection \<open>The refresher\<close>

text \<open>What the fetch method of a plugin does, declared to return an optional dictionary.\<close>

datatype fetched = Raised string | No_data | Payload obj

record plugins =
  pl_providers :: "string list" \<comment> \<open>those with a plugin, in the order of the registry\<close>
  pl_known :: "string \<Rightarrow> bool"
  pl_supports :: "string \<Rightarrow> string \<Rightarrow> bool"

record refresher_cfg =
  rg_throttle :: real
  rg_base :: real
  rg_cap :: real
  rg_float :: "string \<Rightarrow> real option"

record refresher =
  rf_rows :: cost_rows
  rf_settings :: setting_rows
  rf_pending :: "account list"
  rf_all :: bool
  rf_quiet :: "account list"
  rf_last_attempt :: "(account, real) dict"
  rf_failures :: "(account, nat) dict"
  rf_next :: "(account, real) dict"
  rf_last_error :: "(account, json) dict"

definition new_refresher :: "cost_rows \<Rightarrow> setting_rows \<Rightarrow> refresher" where
  "new_refresher rows st = \<lparr>rf_rows = rows, rf_settings = st, rf_pending = [], rf_all = False, rf_quiet = [],
     rf_last_attempt = [], rf_failures = [], rf_next = [], rf_last_error = []\<rparr>"

text \<open>The sets of the class are lists without repetition.\<close>

definition add_key :: "account \<Rightarrow> account list \<Rightarrow> account list" where
  "add_key k ks = (if k \<in> set ks then ks else ks @ [k])"

definition enqueue :: "account \<Rightarrow> refresher \<Rightarrow> refresher" where
  "enqueue k rf = rf\<lparr>rf_pending := add_key k (rf_pending rf), rf_next := AList.delete k (rf_next rf),
     rf_failures := AList.delete k (rf_failures rf), rf_last_error := AList.delete k (rf_last_error rf),
     rf_quiet := filter (\<lambda>q. q \<noteq> k) (rf_quiet rf)\<rparr>"

definition asked_keys :: "plugins \<Rightarrow> string \<Rightarrow> string \<Rightarrow> account list" where
  "asked_keys pl provider kind =
     (let provs = (if provider \<noteq> [] then [provider] else pl_providers pl);
          kinds = (if kind \<noteq> [] then [kind] else KINDS)
      in concat (map (\<lambda>p. map (Pair p) (filter (\<lambda>k. \<not> pl_known pl p \<or> pl_supports pl p k) kinds)) provs))"

definition cost_request_refresh :: "plugins \<Rightarrow> string \<Rightarrow> string \<Rightarrow> refresher \<Rightarrow> refresher" where
  "cost_request_refresh pl provider kind rf = fold enqueue (asked_keys pl provider kind) rf"

definition clear_cache :: "refresher \<Rightarrow> refresher" where
  "clear_cache rf = rf\<lparr>rf_rows := cost_clear (rf_rows rf), rf_pending := [], rf_all := False, rf_quiet := []\<rparr>"

definition diagnostics :: "refresher \<Rightarrow> (string \<times> nat \<times> real option \<times> json option) list" where
  "diagnostics rf = map (\<lambda>((p, k), n). (p @ ''/'' @ k, n, map_of (rf_next rf) (p, k), map_of (rf_last_error rf) (p, k)))
     (rf_failures rf)"

text \<open>\<open>u\<close> is the uniform random number of the jitter, between 0 and 1.\<close>

definition backoff :: "refresher_cfg \<Rightarrow> nat \<Rightarrow> real \<Rightarrow> real" where
  "backoff cfg fails u =
     (let delay = min (rg_base cfg * 2 ^ (fails - 1)) (rg_cap cfg) in delay + u * min (delay * 0.2) 30)"

definition ttl_seconds :: "refresher_cfg \<Rightarrow> string \<Rightarrow> refresher \<Rightarrow> real" where
  "ttl_seconds cfg provider rf = of_int (get_ttl_minutes (rg_float cfg) (rf_settings rf) provider 30) * 60"

definition record_scrape_failure ::
  "refresher_cfg \<Rightarrow> real \<Rightarrow> real \<Rightarrow> account \<Rightarrow> json \<Rightarrow> json \<Rightarrow> bool \<Rightarrow> refresher \<Rightarrow> refresher" where
  "record_scrape_failure cfg now u k error_kind detail transient rf =
     (let fails = Suc (case map_of (rf_failures rf) k of None \<Rightarrow> 0 | Some n \<Rightarrow> n);
          delay = (if transient then backoff cfg fails u else ttl_seconds cfg (fst k) rf)
      in rf\<lparr>rf_failures := AList.update k fails (rf_failures rf),
            rf_last_error := AList.update k detail (rf_last_error rf),
            rf_next := AList.update k (now + delay) (rf_next rf),
            rf_rows := (case map_of (rf_rows rf) k of
                None \<Rightarrow> cost_set now k [(''_error'', error_kind), (''detail'', detail)] (Some detail) (rf_rows rf)
              | Some r \<Rightarrow> mark_stale k detail (rf_rows rf))\<rparr>)"

definition is_scrape_error :: "obj \<Rightarrow> (json \<times> json) option" where
  "is_scrape_error d = (if truthy_opt (map_of d ''_error'')
     then Some (dget d ''_error'' JNull, if truthy_opt (map_of d ''detail'') then dget d ''detail'' JNull else dget d ''_error'' JNull)
     else None)"

definition lasting_error :: "json \<Rightarrow> bool" where
  "lasting_error e \<longleftrightarrow> e \<in> {JStr ''auth_failed'', JStr ''no_subscription''}"

definition scrape_ok :: "real \<Rightarrow> account \<Rightarrow> obj \<Rightarrow> refresher \<Rightarrow> refresher" where
  "scrape_ok now k payload rf = rf\<lparr>rf_rows := cost_set now k payload None (rf_rows rf),
     rf_failures := AList.delete k (rf_failures rf), rf_next := AList.delete k (rf_next rf),
     rf_last_error := AList.delete k (rf_last_error rf)\<rparr>"

definition scrape :: "refresher_cfg \<Rightarrow> real \<Rightarrow> real \<Rightarrow> fetched \<Rightarrow> account \<Rightarrow> refresher \<Rightarrow> refresher" where
  "scrape cfg now u result k rf = (case result of
      Raised message \<Rightarrow> record_scrape_failure cfg now u k (JStr ''api_error'')
        (JStr (if message = [] then ''scrape failed'' else message)) True rf
    | No_data \<Rightarrow>
        if map_of (rf_rows rf) k \<noteq> None
        then record_scrape_failure cfg now u k (JStr ''api_error'')
          (JStr (fst k @ '' returned no '' @ snd k @ '' data'')) True rf
        else rf\<lparr>rf_quiet := add_key k (rf_quiet rf)\<rparr>
    | Payload payload \<Rightarrow> (case is_scrape_error payload of
        Some (error_kind, detail) \<Rightarrow>
          record_scrape_failure cfg now u k error_kind detail (\<not> lasting_error error_kind) rf
      | None \<Rightarrow> scrape_ok now k payload rf))"

text \<open>One pass: \<open>fetch\<close> is what each account answers now, \<open>u\<close> the random numbers.\<close>

record tick =
  tk_now :: real
  tk_fetch :: "account \<Rightarrow> fetched"
  tk_random :: "account \<Rightarrow> real"

definition due :: "refresher_cfg \<Rightarrow> real \<Rightarrow> bool \<Rightarrow> account \<Rightarrow> refresher \<Rightarrow> bool" where
  "due cfg now forced k rf \<longleftrightarrow>
     forced \<or> k \<notin> set (rf_quiet rf) \<and> cost_is_stale now k (ttl_seconds cfg (fst k) rf) (rf_rows rf)"

definition throttled :: "refresher_cfg \<Rightarrow> real \<Rightarrow> account \<Rightarrow> refresher \<Rightarrow> bool" where
  "throttled cfg now k rf \<longleftrightarrow> now - dget (rf_last_attempt rf) k 0 < rg_throttle cfg"

definition visit ::
  "refresher_cfg \<Rightarrow> tick \<Rightarrow> bool \<Rightarrow> account \<Rightarrow> account list \<times> refresher \<Rightarrow> account list \<times> refresher" where
  "visit cfg tk forced k acc = (case acc of (scraped, rf) \<Rightarrow>
     if \<not> due cfg (tk_now tk) forced k rf then (scraped, rf)
     else if throttled cfg (tk_now tk) k rf then (scraped, rf\<lparr>rf_pending := add_key k (rf_pending rf)\<rparr>)
     else if tk_now tk < dget (rf_next rf) k 0 then (scraped, rf)
     else (scraped @ [k],
       scrape cfg (tk_now tk) (tk_random tk k) (tk_fetch tk k) k
         (rf\<lparr>rf_last_attempt := AList.update k (tk_now tk) (rf_last_attempt rf)\<rparr>)))"

definition pass_keys :: "plugins \<Rightarrow> account list" where
  "pass_keys pl = concat (map (\<lambda>p. map (Pair p) (filter (pl_supports pl p) KINDS)) (filter (pl_known pl) (pl_providers pl)))"

definition refresh_pass :: "refresher_cfg \<Rightarrow> plugins \<Rightarrow> tick \<Rightarrow> refresher \<Rightarrow> account list \<times> refresher" where
  "refresh_pass cfg pl tk rf =
     (let pending = rf_pending rf; all_keys = rf_all rf in
      fold (\<lambda>k. visit cfg tk (all_keys \<or> k \<in> set pending) k) (pass_keys pl)
        ([], rf\<lparr>rf_pending := [], rf_all := False\<rparr>))"

subsection \<open>What an endpoint serves\<close>

definition cached_plugin_payloads :: "plugins \<Rightarrow> string \<Rightarrow> (real option \<Rightarrow> json) \<Rightarrow> cost_rows \<Rightarrow> obj" where
  "cached_plugin_payloads pl kind stamp rows = map (\<lambda>p. (p, case cost_get (p, kind) rows of
        None \<Rightarrow> if pl_known pl p \<and> pl_supports pl p kind then JObj [(''_error'', JStr ''cache_pending'')] else JNull
      | Some (payload, fetched, stale) \<Rightarrow>
          (let p1 = (case stale of
                None \<Rightarrow> payload
              | Some e \<Rightarrow> if truthy e
                  then AList.update ''_stale_error'' e (AList.update ''_stale'' (JBool True) payload) else payload)
           in JObj (if ''fetched_at'' \<in> set (keys p1) then p1 else AList.update ''fetched_at'' (stamp fetched) p1))))
     (pl_providers pl)"

subsection \<open>A history of the cache\<close>

text \<open>
  The operations that reach the refresher: passes, requests, both ways to clear, and new settings.
  \<open>cost_run\<close> also returns every scrape with its time.
\<close>

datatype cost_event = Pass tick | Ask string string | Clear | Wipe string | Store setting_rows

definition cost_step ::
  "refresher_cfg \<Rightarrow> plugins \<Rightarrow> cost_event \<Rightarrow> (real \<times> account) list \<times> refresher \<Rightarrow> (real \<times> account) list \<times> refresher" where
  "cost_step cfg pl e s = (case s of (tr, rf) \<Rightarrow> (case e of
      Pass tk \<Rightarrow> (case refresh_pass cfg pl tk rf of (ks, rf') \<Rightarrow> (tr @ map (Pair (tk_now tk)) ks, rf'))
    | Ask p k \<Rightarrow> (tr, cost_request_refresh pl p k rf)
    | Clear \<Rightarrow> (tr, clear_cache rf)
    | Wipe p \<Rightarrow> (tr, rf\<lparr>rf_rows := invalidate p [] (rf_rows rf)\<rparr>)
    | Store st \<Rightarrow> (tr, rf\<lparr>rf_settings := st\<rparr>)))"

definition cost_run ::
  "refresher_cfg \<Rightarrow> plugins \<Rightarrow> cost_event list \<Rightarrow> refresher \<Rightarrow> (real \<times> account) list \<times> refresher" where
  "cost_run cfg pl es rf = fold (cost_step cfg pl) es ([], rf)"

section \<open>What holds of the refresher\<close>

subsection \<open>Fields an operation leaves alone\<close>

lemma record_scrape_failure_keeps [simp]:
  "rf_last_attempt (record_scrape_failure cfg now u k e d t rf) = rf_last_attempt rf"
  "rf_settings (record_scrape_failure cfg now u k e d t rf) = rf_settings rf"
  "rf_pending (record_scrape_failure cfg now u k e d t rf) = rf_pending rf"
  "rf_all (record_scrape_failure cfg now u k e d t rf) = rf_all rf"
  by (simp_all add: record_scrape_failure_def Let_def)

lemma scrape_keeps [simp]:
  "rf_last_attempt (scrape cfg now u r k rf) = rf_last_attempt rf"
  "rf_settings (scrape cfg now u r k rf) = rf_settings rf"
  "rf_pending (scrape cfg now u r k rf) = rf_pending rf"
  "rf_all (scrape cfg now u r k rf) = rf_all rf"
  by (cases r; simp add: scrape_def scrape_ok_def split: option.split)+

lemma enqueue_keeps [simp]:
  "rf_last_attempt (fold enqueue ks rf) = rf_last_attempt rf"
  "rf_rows (fold enqueue ks rf) = rf_rows rf"
  "rf_settings (fold enqueue ks rf) = rf_settings rf"
  by (induction ks arbitrary: rf) (simp_all add: enqueue_def)

subsection \<open>The throttle\<close>

definition times_of :: "account \<Rightarrow> (real \<times> account) list \<Rightarrow> real list" where
  "times_of k tr = map fst (filter (\<lambda>e. snd e = k) tr)"

definition spaced :: "real \<Rightarrow> real list \<Rightarrow> bool" where
  "spaced gap ts \<longleftrightarrow> sorted_wrt (\<lambda>s t. s + gap \<le> t) ts"

definition throttle_inv :: "real \<Rightarrow> account \<Rightarrow> (real \<times> account) list \<times> refresher \<Rightarrow> bool" where
  "throttle_inv gap k s \<longleftrightarrow> spaced gap (times_of k (fst s)) \<and>
     (\<forall>t \<in> set (times_of k (fst s)). \<exists>l. map_of (rf_last_attempt (snd s)) k = Some l \<and> t \<le> l)"

lemma times_of_append [simp]: "times_of k (tr @ tr') = times_of k tr @ times_of k tr'"
  by (simp add: times_of_def)

lemma times_of_one [simp]: "times_of k [(t, j)] = (if j = k then [t] else [])"
  by (simp add: times_of_def)


lemma throttle_inv_fields [simp]:
  "throttle_inv gap k (tr, rf\<lparr>rf_pending := p\<rparr>) = throttle_inv gap k (tr, rf)"
  "throttle_inv gap k (tr, rf\<lparr>rf_pending := p, rf_all := a\<rparr>) = throttle_inv gap k (tr, rf)"
  "throttle_inv gap k (tr, rf\<lparr>rf_rows := r\<rparr>) = throttle_inv gap k (tr, rf)"
  "throttle_inv gap k (tr, rf\<lparr>rf_settings := st\<rparr>) = throttle_inv gap k (tr, rf)"
  "throttle_inv gap k (tr, clear_cache rf) = throttle_inv gap k (tr, rf)"
  "throttle_inv gap k (tr, cost_request_refresh pl q kind rf) = throttle_inv gap k (tr, rf)"
  by (simp_all add: throttle_inv_def clear_cache_def cost_request_refresh_def)





text \<open>A concrete gateway with one account, scraped, throttled, and scraped again.\<close>

definition one_plugin :: plugins where
  "one_plugin = \<lparr>pl_providers = [''p''], pl_known = (\<lambda>_. True), pl_supports = (\<lambda>_ k. k = ''balance'')\<rparr>"

definition default_cfg :: refresher_cfg where
  "default_cfg = \<lparr>rg_throttle = 10, rg_base = 60, rg_cap = 1800, rg_float = (\<lambda>_. None)\<rparr>"

definition tick_at :: "real \<Rightarrow> fetched \<Rightarrow> tick" where
  "tick_at t r = \<lparr>tk_now = t, tk_fetch = (\<lambda>_. r), tk_random = (\<lambda>_. 0)\<rparr>"




subsection \<open>A payload once fetched stays\<close>

text \<open>A row with data is a row whose payload is not an error object.\<close>

definition has_data :: "account \<Rightarrow> refresher \<Rightarrow> bool" where
  "has_data k rf \<longleftrightarrow> (\<exists>r d. map_of (rf_rows rf) k = Some r \<and> cr_payload r = Some d \<and> is_scrape_error d = None)"

lemma failure_keeps_payload:
  assumes "map_of (rf_rows rf) k = Some r"
  shows "map_of (rf_rows (record_scrape_failure cfg now u j e d t rf)) k =
    Some (if j = k then r\<lparr>cr_stale := Some d\<rparr> else r)"
  using assms by (auto simp: record_scrape_failure_def Let_def mark_stale_def cost_set_def dict_laws split: option.split)

lemma has_data_failure: "has_data k rf \<Longrightarrow> has_data k (record_scrape_failure cfg now u j e d t rf)"
  using failure_keeps_payload [of rf k _ cfg now u j e d t] by (auto simp: has_data_def)

lemma has_data_scrape: "has_data k rf \<Longrightarrow> has_data k (scrape cfg now u r j rf)"
  by (cases r; cases "j = k")
    (auto simp: scrape_def has_data_failure split: option.split,
     auto simp: has_data_def scrape_ok_def cost_set_def dict_laws)

lemma has_data_fields [simp]:
  "has_data k (rf\<lparr>rf_pending := p\<rparr>) = has_data k rf"
  "has_data k (rf\<lparr>rf_pending := p, rf_all := a\<rparr>) = has_data k rf"
  "has_data k (rf\<lparr>rf_last_attempt := l\<rparr>) = has_data k rf"
  "has_data k (rf\<lparr>rf_settings := st\<rparr>) = has_data k rf"
  "has_data k (cost_request_refresh pl q kind rf) = has_data k rf"
  by (simp_all add: has_data_def cost_request_refresh_def)

lemma has_data_visit: "has_data k (snd s) \<Longrightarrow> has_data k (snd (visit cfg tk forced j s))"
  by (cases s) (simp add: visit_def has_data_scrape)

lemma has_data_pass: "has_data k rf \<Longrightarrow> has_data k (snd (refresh_pass cfg pl tk rf))"
  by (simp add: refresh_pass_def Let_def)
    (intro fold_invariant [where Q = "\<lambda>_. True" and P = "\<lambda>s. has_data k (snd s)"] has_data_visit; simp)

lemma map_of_invalidate:
  "map_of (invalidate p kind rows) k =
     (if (p = [] \<or> fst k = p) \<and> (kind = [] \<or> snd k = kind) then None else map_of rows k)"
  by (induction rows) (auto simp: invalidate_def)

lemma has_data_rows:
  "has_data k (rf\<lparr>rf_rows := rows\<rparr>) \<longleftrightarrow>
     (\<exists>r d. map_of rows k = Some r \<and> cr_payload r = Some d \<and> is_scrape_error d = None)"
  by (simp add: has_data_def)

lemma has_data_step:
  assumes "has_data k (snd s)" and "e \<noteq> Clear" and "e \<noteq> Wipe []" and "e \<noteq> Wipe (fst k)"
  shows "has_data k (snd (cost_step cfg pl e s))"
proof (cases s)
  case (Pair tr rf)
  show ?thesis
  proof (cases e)
    case (Pass tk)
    with has_data_pass [of k rf cfg pl tk] assms(1) Pair show ?thesis
      by (cases "refresh_pass cfg pl tk rf") (simp add: cost_step_def)
  next
    case (Wipe p)
    with assms Pair show ?thesis
      by (auto simp: cost_step_def has_data_rows map_of_invalidate) (auto simp: has_data_def)
  qed (use assms Pair in \<open>simp_all add: cost_step_def\<close>)
qed

text \<open>
  Also: Once an account has data, it has data for ever, however its later scrapes end, unless the cache is cleared or
  the rows of its provider are wiped.
\<close>

theorem fetched_data_is_kept:
  assumes "has_data k rf" and "\<forall>e \<in> set es. e \<noteq> Clear \<and> e \<noteq> Wipe [] \<and> e \<noteq> Wipe (fst k)"
  shows "has_data k (snd (cost_run cfg pl es rf))"
  unfolding cost_run_def
  by (rule fold_invariant [where Q = "\<lambda>e. e \<noteq> Clear \<and> e \<noteq> Wipe [] \<and> e \<noteq> Wipe (fst k)"])
    (use assms has_data_step in auto)

theorem fetched_data_is_kept_witness:
  "has_data (''p'', ''balance'') (snd (cost_run default_cfg one_plugin [Pass (tick_at 5000 (Raised ''no route''))]
     (new_refresher [((''p'', ''balance''), \<lparr>cr_payload = Some [], cr_fetched = Some 0, cr_stale = None\<rparr>)] [])))"
  by (rule fetched_data_is_kept) (auto simp: has_data_def new_refresher_def is_scrape_error_def)

subsection \<open>The gate after a failure\<close>

text \<open>The operations that do not ask for the account, with all passes before \<open>g\<close>.\<close>

definition unasked_until :: "plugins \<Rightarrow> real \<Rightarrow> account \<Rightarrow> cost_event \<Rightarrow> bool" where
  "unasked_until pl g k e = (case e of
      Pass tk \<Rightarrow> tk_now tk < g
    | Ask p kind \<Rightarrow> k \<notin> set (asked_keys pl p kind)
    | _ \<Rightarrow> True)"

definition gated :: "real \<Rightarrow> account \<Rightarrow> (real \<times> account) list \<times> refresher \<Rightarrow> bool" where
  "gated g k s \<longleftrightarrow> map_of (rf_next (snd s)) k = Some g \<and> times_of k (fst s) = []"

lemma next_record_failure [simp]:
  "map_of (rf_next (record_scrape_failure cfg now u j e d t rf)) k =
     (if j = k then Some (now + (if t then backoff cfg (Suc (dget (rf_failures rf) k 0)) u
        else ttl_seconds cfg (fst k) rf)) else map_of (rf_next rf) k)"
  by (auto simp: record_scrape_failure_def Let_def dict_laws)

lemma next_scrape: "j \<noteq> k \<Longrightarrow> map_of (rf_next (scrape cfg now u r j rf)) k = map_of (rf_next rf) k"
  by (cases r) (simp_all add: scrape_def scrape_ok_def dict_laws split: option.split)

lemma next_enqueue: "k \<notin> set ks \<Longrightarrow> map_of (rf_next (fold enqueue ks rf)) k = map_of (rf_next rf) k"
  by (induction ks arbitrary: rf) (simp_all add: enqueue_def dict_laws)

lemma gated_visit:
  assumes "gated g k (tr @ map (Pair (tk_now tk)) (fst s), snd s)" and "tk_now tk < g"
  shows "gated g k (tr @ map (Pair (tk_now tk)) (fst (visit cfg tk forced j s)), snd (visit cfg tk forced j s))"
proof (cases "j = k")
  case True
  with assms show ?thesis by (cases s) (simp add: visit_def gated_def)
next
  case False
  with assms show ?thesis by (cases s) (simp add: visit_def gated_def next_scrape)
qed

lemma gated_pass:
  assumes "gated g k (tr, rf)" and "tk_now tk < g" and "refresh_pass cfg pl tk rf = (ks, rf')"
  shows "gated g k (tr @ map (Pair (tk_now tk)) ks, rf')"
proof -
  let ?P = "\<lambda>s. gated g k (tr @ map (Pair (tk_now tk)) (fst s), snd s)"
  have "?P (fold (\<lambda>j. visit cfg tk (rf_all rf \<or> j \<in> set (rf_pending rf)) j) (pass_keys pl)
      ([], rf\<lparr>rf_pending := [], rf_all := False\<rparr>))"
    using assms(1)
    by (intro fold_invariant [where Q = "\<lambda>_. True" and P = ?P] gated_visit assms(2)) (simp_all add: gated_def)
  with assms(3) show ?thesis by (simp add: refresh_pass_def Let_def)
qed

lemma gated_step:
  assumes "gated g k s" and "unasked_until pl g k e"
  shows "gated g k (cost_step cfg pl e s)"
proof (cases s)
  case (Pair tr rf)
  show ?thesis
  proof (cases e)
    case (Pass tk)
    obtain ks rf' where "refresh_pass cfg pl tk rf = (ks, rf')" by (cases "refresh_pass cfg pl tk rf")
    with gated_pass [OF _ _ this] assms Pair Pass show ?thesis
      by (simp add: cost_step_def unasked_until_def)
  qed (use assms Pair in \<open>simp_all add: cost_step_def unasked_until_def gated_def cost_request_refresh_def next_enqueue
        clear_cache_def\<close>)
qed

lemma gated_run:
  assumes "map_of (rf_next rf) k = Some g" and "\<forall>e \<in> set es. unasked_until pl g k e"
  shows "times_of k (fst (cost_run cfg pl es rf)) = []"
proof -
  have "gated g k (cost_run cfg pl es rf)"
    unfolding cost_run_def
    by (rule fold_invariant [where Q = "unasked_until pl g k"])
      (use assms gated_step in \<open>auto simp: gated_def times_of_def\<close>)
  then show ?thesis by (simp add: gated_def)
qed

lemma backoff_bounds:
  assumes "0 \<le> u" "u \<le> 1" "0 \<le> rg_base cfg" "0 \<le> rg_cap cfg"
  shows "min (rg_base cfg * 2 ^ n) (rg_cap cfg) \<le> backoff cfg (Suc n) u"
    and "backoff cfg (Suc n) u \<le> rg_cap cfg + 30"
proof -
  let ?d = "min (rg_base cfg * 2 ^ n) (rg_cap cfg)"
  have pos: "0 \<le> min (?d * 0.2) 30" using assms by simp
  have "u * min (?d * 0.2) 30 \<le> 1 * 30"
    using pos assms by (intro mult_mono) auto
  with pos assms show "?d \<le> backoff cfg (Suc n) u" "backoff cfg (Suc n) u \<le> rg_cap cfg + 30"
    by (simp_all add: backoff_def Let_def)
qed

text \<open>
  Also: After the failure number n + 1 in a row of a transient kind, the account is left alone for at least the base
  delay times 2 to the n, capped, whatever else happens, unless a refresh of it is asked for.
\<close>

theorem failed_account_backs_off:
  assumes "0 \<le> u" "u \<le> 1" "0 \<le> rg_base cfg" "0 \<le> rg_cap cfg"
    and "rf' = record_scrape_failure cfg now u k e d True rf"
    and "\<forall>e \<in> set es. unasked_until pl (now + min (rg_base cfg * 2 ^ dget (rf_failures rf) k 0) (rg_cap cfg)) k e"
  shows "times_of k (fst (cost_run cfg pl es rf')) = []"
proof (rule gated_run)
  show "map_of (rf_next rf') k = Some (now + backoff cfg (Suc (dget (rf_failures rf) k 0)) u)"
    using assms(5) by simp
  show "\<forall>e \<in> set es. unasked_until pl (now + backoff cfg (Suc (dget (rf_failures rf) k 0)) u) k e"
    using assms(6) backoff_bounds(1) [OF assms(1-4), of "dget (rf_failures rf) k 0"]
    by (auto simp: unasked_until_def split: cost_event.splits)
qed

subsection \<open>The first failure\<close>

text \<open>A row with a time stamp less than its time to live old, of an account nobody asked for.\<close>

definition resting :: "refresher_cfg \<Rightarrow> real \<Rightarrow> account \<Rightarrow> refresher \<Rightarrow> bool" where
  "resting cfg t k rf \<longleftrightarrow> k \<notin> set (rf_pending rf) \<and> \<not> rf_all rf \<and>
     (\<exists>r. map_of (rf_rows rf) k = Some r \<and> cr_fetched r = Some t)"

lemma row_scrape: "j \<noteq> k \<Longrightarrow> map_of (rf_rows (scrape cfg now u r j rf)) k = map_of (rf_rows rf) k"
  by (cases r)
    (simp_all add: scrape_def scrape_ok_def record_scrape_failure_def Let_def cost_set_def mark_stale_def dict_laws
      split: option.split)

lemma resting_visit:
  assumes "resting cfg t k (snd s)" and "tk_now tk < t + ttl_seconds cfg (fst k) (snd s)" and "k \<notin> set (fst s)"
    and "j = k \<Longrightarrow> \<not> forced"
  shows "resting cfg t k (snd (visit cfg tk forced j s)) \<and> k \<notin> set (fst (visit cfg tk forced j s)) \<and>
    rf_settings (snd (visit cfg tk forced j s)) = rf_settings (snd s)"
proof (cases "j = k")
  case True
  with assms have "\<not> due cfg (tk_now tk) forced j (snd s)"
    by (auto simp: due_def resting_def cost_is_stale_def cost_get_def)
  with assms show ?thesis by (cases s) (simp add: visit_def)
next
  case False
  with assms show ?thesis
    by (cases s) (auto simp: visit_def resting_def row_scrape add_key_def)
qed

lemma resting_pass:
  assumes "resting cfg t k rf" and "tk_now tk < t + ttl_seconds cfg (fst k) rf"
  shows "resting cfg t k (snd (refresh_pass cfg pl tk rf)) \<and> k \<notin> set (fst (refresh_pass cfg pl tk rf)) \<and>
    rf_settings (snd (refresh_pass cfg pl tk rf)) = rf_settings rf"
proof -
  let ?P = "\<lambda>s. resting cfg t k (snd s) \<and> k \<notin> set (fst s) \<and> rf_settings (snd s) = rf_settings rf"
  have forced: "\<not> (rf_all rf \<or> k \<in> set (rf_pending rf))"
    using assms(1) by (simp add: resting_def)
  have ttl: "ttl_seconds cfg (fst k) r = ttl_seconds cfg (fst k) rf" if "rf_settings r = rf_settings rf" for r
    using that by (simp add: ttl_seconds_def)
  have "?P (fold (\<lambda>j. visit cfg tk (rf_all rf \<or> j \<in> set (rf_pending rf)) j) (pass_keys pl)
      ([], rf\<lparr>rf_pending := [], rf_all := False\<rparr>))"
  proof (rule fold_invariant [where Q = "\<lambda>_. True" and P = ?P])
    fix j s assume "?P s"
    with resting_visit [of cfg t k s tk j "rf_all rf \<or> j \<in> set (rf_pending rf)"] ttl [of "snd s"] assms(2) forced
    show "?P (visit cfg tk (rf_all rf \<or> j \<in> set (rf_pending rf)) j s)" by auto
  qed (use assms(1) in \<open>simp_all add: resting_def\<close>)
  then show ?thesis by (simp add: refresh_pass_def Let_def)
qed

lemma resting_run:
  assumes "resting cfg t k (snd s)" and "\<forall>tk \<in> set tks. tk_now tk < t + ttl_seconds cfg (fst k) (snd s)"
    and "times_of k (fst s) = []"
  shows "times_of k (fst (fold (cost_step cfg pl) (map Pass tks) s)) = []"
  using assms
proof (induction tks arbitrary: s)
  case Nil
  then show ?case by simp
next
  case (Cons tk tks)
  obtain tr rf where s: "s = (tr, rf)" by (cases s)
  obtain ks rf' where p: "refresh_pass cfg pl tk rf = (ks, rf')" by (cases "refresh_pass cfg pl tk rf")
  have r: "resting cfg t k rf'" "k \<notin> set ks" "rf_settings rf' = rf_settings rf"
    using resting_pass [of cfg t k rf tk pl] Cons.prems p s by simp_all
  then have "times_of k (map (Pair (tk_now tk)) ks) = []"
    by (auto simp: times_of_def filter_empty_conv)
  with Cons.IH [of "(tr @ map (Pair (tk_now tk)) ks, rf')"] r Cons.prems s
  show ?case by (simp add: cost_step_def p ttl_seconds_def)
qed

text \<open>
  Also: The first failure of an account is not retried after the backoff delay: it stores an error row stamped with the
  time of the failure, and until the time to live of that row has passed no background pass tries the account again.
\<close>

theorem first_failure_waits_for_ttl:
  assumes "map_of (rf_rows rf) k = None" and "k \<notin> set (rf_pending rf)" and "\<not> rf_all rf"
    and "\<forall>tk \<in> set tks. tk_now tk < now + ttl_seconds cfg (fst k) rf"
  shows "times_of k (fst (cost_run cfg pl (map Pass tks) (record_scrape_failure cfg now u k e d True rf))) = []"
  unfolding cost_run_def
proof (rule resting_run)
  show "resting cfg now k (snd ([], record_scrape_failure cfg now u k e d True rf))"
    using assms by (simp add: resting_def record_scrape_failure_def Let_def cost_set_def dict_laws)
qed (use assms(4) in \<open>simp_all add: ttl_seconds_def times_of_def\<close>)

theorem first_failure_waits_for_ttl_witness:
  "backoff default_cfg 1 0 = 60 \<and> times_of (''p'', ''balance'') (fst (cost_run default_cfg one_plugin
     (map Pass [tick_at 1100 (Payload []), tick_at 2700 (Payload [])])
     (record_scrape_failure default_cfg 1000 0 (''p'', ''balance'') JNull JNull True (new_refresher [] [])))) = []"
  by (intro conjI first_failure_waits_for_ttl)
    (simp_all add: backoff_def default_cfg_def new_refresher_def tick_at_def ttl_seconds_def get_ttl_minutes_def)

theorem failed_account_backs_off_witness:
  "times_of (''p'', ''balance'') (fst (cost_run default_cfg one_plugin [Pass (tick_at 1059 (Payload [])), Clear]
     (record_scrape_failure default_cfg 1000 (1/2) (''p'', ''balance'') JNull JNull True (new_refresher [] [])))) = []"
  by (rule failed_account_backs_off [where rf = "new_refresher [] []" and now = 1000 and u = "1/2"])
    (auto simp: default_cfg_def unasked_until_def new_refresher_def tick_at_def)

end
