(* ===== verification/Stream_Tail.thy ===== *)
theory Stream_Tail
  imports Accounting Messages
begin

section \<open>Cost estimates and the text of a stream (api/cost\_estimator.py, server/sse\_helpers.py)\<close>

text \<open>
  Before a request is sent its tokens are counted and priced; afterwards the handler reads the last event and
  the assistant text out of the stream it relayed.  The tokenizer (\<open>None\<close> when it raises), \<open>str\<close> of a tool
  and \<open>json.loads\<close> (\<open>None\<close> when it raises) are arguments.  The bytes of a stream are given as the text they
  decode to.
\<close>

subsection \<open>Counting\<close>

type_synonym tokenizer = "string \<Rightarrow> nat option"

text \<open>A value that is not text makes the tokenizer raise; what is left is its length, if it has one.\<close>

definition quarter :: "nat \<Rightarrow> int" where
  "quarter n = int (max (n div 4) 1)"

fun count_text :: "tokenizer \<Rightarrow> json \<Rightarrow> int res" where
  "count_text tok (JStr s) = Inr (if s = [] then 0 else case tok s of Some n \<Rightarrow> int n | None \<Rightarrow> quarter (length s))"
| "count_text tok (JList xs) = Inr (if xs = [] then 0 else quarter (length xs))"
| "count_text tok (JObj d) = Inr (if d = [] then 0 else quarter (length d))"
| "count_text tok j = (if truthy j then Inl TypeError else Inr 0)"

fun count_blocks :: "tokenizer \<Rightarrow> json list \<Rightarrow> int res" where
  "count_blocks tok [] = Inr 0"
| "count_blocks tok (b # bs) =
     rbind (case b of
         JObj d \<Rightarrow> if map_of d ''type'' = Some (JStr ''text'') then count_text tok (dget d ''text'' (JStr [])) else Inr 0
       | _ \<Rightarrow> Inr 0) (\<lambda>n. rbind (count_blocks tok bs) (\<lambda>m. Inr (n + m)))"

definition count_content :: "tokenizer \<Rightarrow> json \<Rightarrow> int res" where
  "count_content tok c = (case c of
      JStr s \<Rightarrow> count_text tok c
    | JList bs \<Rightarrow> count_blocks tok bs
    | _ \<Rightarrow> Inr 0)"

fun count_messages :: "tokenizer \<Rightarrow> json list \<Rightarrow> int res" where
  "count_messages tok [] = Inr 0"
| "count_messages tok (m # ms) =
     rbind (py_get m ''content'' (JStr [])) (\<lambda>c. rbind (count_content tok c) (\<lambda>n.
     rbind (count_messages tok ms) (\<lambda>k. Inr (4 + n + k))))"

fun count_tools :: "tokenizer \<Rightarrow> (json \<Rightarrow> string) \<Rightarrow> json list \<Rightarrow> int res" where
  "count_tools tok str [] = Inr 0"
| "count_tools tok str (t # ts) =
     rbind (count_text tok (JStr (str t))) (\<lambda>n. rbind (count_tools tok str ts) (\<lambda>k. Inr (n + k)))"

definition count_tokens :: "tokenizer \<Rightarrow> (json \<Rightarrow> string) \<Rightarrow> json list \<Rightarrow> json \<Rightarrow> int res" where
  "count_tokens tok str messages tools =
     rbind (count_messages tok messages) (\<lambda>n.
     rbind (if truthy tools then rbind (py_iter tools) (count_tools tok str) else Inr 0) (\<lambda>k. Inr (n + k)))"

subsection \<open>Pricing the estimate\<close>

record estimation =
  es_input :: int
  es_output :: json
  es_input_cost :: real
  es_output_cost :: real
  es_total :: real

definition DEFAULT_PRICING :: "(string, obj) dict" where
  "DEFAULT_PRICING = [(''deepseek-v4-pro'', [(''cache_miss'', JNum (66/100)), (''output'', JNum (198/100))]),
     (''deepseek-v4-flash'', [(''cache_miss'', JNum (14/100)), (''output'', JNum (28/100))])]"

definition estimate_cost :: "string \<Rightarrow> int \<Rightarrow> json \<Rightarrow> obj option \<Rightarrow> estimation res" where
  "estimate_cost model input_tokens max_tokens pricing =
     (let rates = (case pricing of
            Some p \<Rightarrow> p
          | None \<Rightarrow> dget DEFAULT_PRICING model [(''cache_miss'', JNum (66/100)), (''output'', JNum (198/100))]) in
      rbind (num_of (dget rates ''cache_miss'' (dget rates ''input'' (JNum (66/100))))) (\<lambda>input_rate.
      rbind (num_of max_tokens) (\<lambda>mx.
      rbind (num_of (dget rates ''output'' (JNum (198/100)))) (\<lambda>output_rate.
      let input_cost = of_int input_tokens / 1000000 * input_rate; output_cost = mx / 1000000 * output_rate
      in Inr \<lparr>es_input = input_tokens, es_output = max_tokens, es_input_cost = py_round 8 input_cost,
           es_output_cost = py_round 8 output_cost, es_total = py_round 8 (input_cost + output_cost)\<rparr>))))"

definition estimate_from_request ::
  "tokenizer \<Rightarrow> (json \<Rightarrow> string) \<Rightarrow> string \<Rightarrow> json list \<Rightarrow> json \<Rightarrow> json \<Rightarrow> obj option \<Rightarrow> estimation res" where
  "estimate_from_request tok str model messages tools max_tokens pricing =
     rbind (count_tokens tok str messages tools) (\<lambda>n. estimate_cost model n max_tokens pricing)"

definition no_estimate :: estimation where
  "no_estimate = \<lparr>es_input = 0, es_output = JNum 0, es_input_cost = 0, es_output_cost = 0, es_total = 0\<rparr>"

text \<open>The price used for the estimate: the configuration, then the plugin, then nothing (default rates).\<close>

definition handler_pricing :: "cost_env \<Rightarrow> string \<Rightarrow> string \<Rightarrow> obj option" where
  "handler_pricing env provider model = (case resolve_pricing (ce_registry env) (ce_rows env) provider model of
      Some r \<Rightarrow> Some (pr_rates r)
    | None \<Rightarrow> (case for_provider provider of None \<Rightarrow> None | Some p \<Rightarrow> plugin_get_pricing p model))"

subsection \<open>Reading a relayed stream\<close>

definition data_lines :: "string \<Rightarrow> string list" where
  "data_lines text = filter (\<lambda>d. d \<noteq> [] \<and> d \<noteq> ''[DONE]'')
     (map (\<lambda>l. strip (drop 5 l)) (filter (\<lambda>l. starts_with l ''data:'') (split_lines text)))"

text \<open>The last event; nothing when a single one cannot be parsed.\<close>

definition extract_last_sse_chunk :: "(string \<Rightarrow> json option) \<Rightarrow> string \<Rightarrow> json option" where
  "extract_last_sse_chunk loads text =
     (if \<exists>d \<in> set (data_lines text). loads d = None then None
      else case rev (data_lines text) of [] \<Rightarrow> None | d # ds \<Rightarrow> loads d)"

definition choice_text :: "json \<Rightarrow> string res" where
  "choice_text choice =
     rbind (py_get choice ''delta'' JNull) (\<lambda>delta.
     rbind (py_get (or_else delta (JObj [])) ''content'' JNull) (\<lambda>piece.
     Inr (case piece of JStr s \<Rightarrow> s | _ \<Rightarrow> [])))"

definition event_text :: "json \<Rightarrow> string res" where
  "event_text payload =
     rbind (py_get payload ''choices'' JNull) (\<lambda>cs.
     rbind (py_iter (or_else cs (JList []))) (\<lambda>choices.
     rbind (rmap choice_text choices) (\<lambda>ts. Inr (concat ts))))"

definition extract_sse_text :: "(string \<Rightarrow> json option) \<Rightarrow> string \<Rightarrow> string res" where
  "extract_sse_text loads text =
     rbind (rmap event_text (sse_objects loads text)) (\<lambda>ts. Inr (concat ts))"

text \<open>Three kinds of exception are caught, a missing key is not.\<close>

definition extract_message_text :: "obj \<Rightarrow> string res" where
  "extract_message_text response =
     (case rbind (first_item (or_else (dget response ''choices'' JNull) (JList [JObj []]))) (\<lambda>c.
           rbind (py_get c ''message'' JNull) (\<lambda>msg.
           rbind (py_get (or_else msg (JObj [])) ''content'' JNull) (\<lambda>content.
           Inr (case content of JStr s \<Rightarrow> s | _ \<Rightarrow> [])))) of
        Inr t \<Rightarrow> Inr t
      | Inl e \<Rightarrow> if e \<in> {AttributeError, IndexError, TypeError} then Inr [] else Inl e)"

definition estimate_cost_from_tokens :: "cost_env \<Rightarrow> string \<Rightarrow> string \<Rightarrow> real \<Rightarrow> real \<Rightarrow> int \<Rightarrow> real \<Rightarrow> real res" where
  "estimate_cost_from_tokens env provider model prompt completion hit miss =
     rbind (registry_calculate_cost provider (ce_now env) model
         \<lparr>tu_prompt = JNum (prompt + miss), tu_completion = JNum completion, tu_hit = hit, tu_miss = JNum miss\<rparr>) (\<lambda>pc.
     case pc of
       Some c \<Rightarrow> Inr (py_round 8 c)
     | None \<Rightarrow> (case resolve_pricing (ce_registry env) (ce_rows env) provider model of
           None \<Rightarrow> Inr 0
         | Some r \<Rightarrow> (case select_rates (Some (pr_rates r)) (ce_now env) of
               None \<Rightarrow> Inl TypeError
             | Some rates \<Rightarrow> rbind (token_cost rates (of_int hit) miss completion) (\<lambda>c. Inr (py_round 8 c)))))"

section \<open>What holds of them\<close>

lemma sse_objects_data_lines:
  "sse_objects loads text = concat (map (\<lambda>d. case loads d of None \<Rightarrow> [] | Some j \<Rightarrow> [j]) (data_lines text))"
proof -
  have "concat (map (\<lambda>line. if \<not> starts_with line ''data:'' then []
        else let d = strip (drop 5 line) in
          if d = [] \<or> d = ''[DONE]'' then []
          else case loads d of None \<Rightarrow> [] | Some j \<Rightarrow> [j]) ls) =
      concat (map (\<lambda>d. case loads d of None \<Rightarrow> [] | Some j \<Rightarrow> [j])
        (filter (\<lambda>d. d \<noteq> [] \<and> d \<noteq> ''[DONE]'')
          (map (\<lambda>l. strip (drop 5 l)) (filter (\<lambda>l. starts_with l ''data:'') ls))))" for ls
    by (induction ls) (simp_all add: Let_def)
  then show ?thesis by (simp add: sse_objects_def data_lines_def)
qed

subsection \<open>Streams as providers write them\<close>

definition NL :: char where
  "NL = CHR 0x0A"

definition sse_event :: "string \<Rightarrow> string" where
  "sse_event d = ''data: '' @ d @ [NL, NL]"

definition delta_event :: "string \<Rightarrow> json" where
  "delta_event t = JObj [(''choices'', JList [JObj [(''delta'', JObj [(''content'', JStr t)])]])]"

lemma split_lines_line: "NL \<notin> set l \<Longrightarrow> split_lines (l @ NL # rest) = l # split_lines rest"
  by (induction l) (auto simp: NL_def)

lemma rstrip_snoc: "is_space c \<Longrightarrow> rstrip (s @ [c]) = rstrip s"
  by (simp add: rstrip_def)

lemma strip_space_left: "strip (CHR '' '' # d) = strip d"
proof (cases "rstrip d = []")
  case True
  then have "\<forall>c \<in> set d. is_space c" by (simp add: rstrip_def dropWhile_eq_Nil_conv)
  then have "rstrip (CHR '' '' # d) = []" by (auto simp: rstrip_def is_space_code dropWhile_eq_Nil_conv)
  with True show ?thesis by (simp add: strip_def)
next
  case False
  then have "\<not> (\<forall>c \<in> set (rev d). is_space c)" by (auto simp: rstrip_def dropWhile_eq_Nil_conv)
  then have "rstrip (CHR '' '' # d) = CHR '' '' # rstrip d"
    by (auto simp: rstrip_def dropWhile_append1)
  then show ?thesis by (simp add: strip_def lstrip_def is_space_code)
qed

lemma data_lines_event:
  assumes "NL \<notin> set d" and "strip d = d" and "d \<noteq> []" and "d \<noteq> ''[DONE]''"
  shows "data_lines (sse_event d @ rest) = d # data_lines rest"
proof -
  have "split_lines (sse_event d @ rest) = (''data: '' @ d) # [] # split_lines rest"
    using split_lines_line [of "''data: '' @ d" "NL # rest"] assms(1)
    by (simp add: sse_event_def NL_def)
  then show ?thesis
    using assms by (simp add: data_lines_def starts_with_def strip_space_left)
qed

lemma data_lines_done: "data_lines (''data: [DONE]'' @ [NL, NL]) = []"
  unfolding NL_def by code_simp

lemma data_lines_events:
  "\<forall>d \<in> set ds. NL \<notin> set d \<and> strip d = d \<and> d \<noteq> [] \<and> d \<noteq> ''[DONE]'' \<Longrightarrow>
   data_lines (concat (map sse_event ds) @ ''data: [DONE]'' @ [NL, NL]) = ds"
proof (induction ds)
  case Nil
  then show ?case using data_lines_done by simp
next
  case (Cons d ds)
  then show ?case by (simp add: data_lines_event)
qed

lemma event_text_delta: "event_text (delta_event t) = Inr t"
  by (simp add: event_text_def delta_event_def choice_text_def or_else_def)

text \<open>
  Also: What the assistant said is recovered from the relayed stream: when the provider writes each piece of text as
  an event in one line, the conversation store is given exactly the pieces joined together, however the stream
  was cut into chunks, and the last piece's event is the one the usage is read from.
\<close>

theorem relayed_text_is_recovered:
  assumes "\<forall>t \<in> set ts. loads (dumps (delta_event t)) = Some (delta_event t)"
    and "\<forall>t \<in> set ts. NL \<notin> set (dumps (delta_event t)) \<and> strip (dumps (delta_event t)) = dumps (delta_event t) \<and>
      dumps (delta_event t) \<noteq> [] \<and> dumps (delta_event t) \<noteq> ''[DONE]''"
    and "concat chunks = concat (map (\<lambda>t. sse_event (dumps (delta_event t))) ts) @ ''data: [DONE]'' @ [NL, NL]"
  shows "extract_sse_text loads (concat chunks) = Inr (concat ts) \<and>
    (ts \<noteq> [] \<longrightarrow> extract_last_sse_chunk loads (concat chunks) = Some (delta_event (last ts)))"
proof -
  let ?ds = "map (\<lambda>t. dumps (delta_event t)) ts"
  have lines: "data_lines (concat chunks) = ?ds"
    using data_lines_events [of ?ds] assms(2,3) by (simp add: comp_def)
  have "sse_objects loads (concat chunks) = map delta_event ts"
    unfolding sse_objects_data_lines lines using assms(1) by (induction ts) simp_all
  moreover have "rmap event_text (map delta_event ts) = Inr ts"
    by (induction ts) (simp_all add: event_text_delta)
  ultimately have joined: "extract_sse_text loads (concat chunks) = Inr (concat ts)"
    by (simp add: extract_sse_text_def)
  have "extract_last_sse_chunk loads (concat chunks) = Some (delta_event (last ts))" if "ts \<noteq> []"
    using assms(1) that unfolding extract_last_sse_chunk_def lines
    by (cases ts rule: rev_exhaust) auto
  with joined show ?thesis by blast
qed

lemma strip_H: "strip ''H'' = ''H''"
  by code_simp

theorem relayed_text_is_recovered_witness:
  "extract_sse_text (\<lambda>d. if d = ''H'' then Some (delta_event ''hi'') else None)
     (concat [''data: '', [CHR ''H'', NL, NL] @ ''data: H'' @ [NL, NL] @ ''data: [DONE]'', [NL, NL]]) = Inr ''hihi''"
  using relayed_text_is_recovered [of "[''hi'', ''hi'']" "\<lambda>d. if d = ''H'' then Some (delta_event ''hi'') else None" "\<lambda>j. ''H''"
      "[''data: '', [CHR ''H'', NL, NL] @ ''data: H'' @ [NL, NL] @ ''data: [DONE]'', [NL, NL]]"] strip_H
  by (simp add: sse_event_def NL_def)

text \<open>
  Not every stream is safe to read: an event that is JSON but no object raises, although the helper is documented
  never to raise.
\<close>

lemma scalar_event_raises:
  "data_lines text = [d] \<Longrightarrow> loads d = Some (JNum x) \<Longrightarrow> extract_sse_text loads text = Inl AttributeError"
  by (simp add: extract_sse_text_def sse_objects_data_lines event_text_def)

end
