(* ===== verification/Error_Replies.thy ===== *)
theory Error_Replies
  imports Forwarding Py_Numbers
begin

section \<open>What a client sees of an error (src/server/handler.py)\<close>

text \<open>
  \<open>_sanitize_message\<close> replaces what looks like a provider key or a bearer token and cuts the text; an error
  reply carries the sanitized message of a typed exception, and of any other exception nothing.  The regular
  expression has two branches, both ending in a greedy run of a character class, so a match never has to give
  characters back: it is found by scanning.
\<close>

subsection \<open>The redaction\<close>

definition key_char :: "char \<Rightarrow> bool" where
  "key_char c \<longleftrightarrow> CHR ''A'' \<le> c \<and> c \<le> CHR ''Z'' \<or> CHR ''a'' \<le> c \<and> c \<le> CHR ''z'' \<or> is_digit c \<or> c \<in> {CHR ''_'', CHR ''-''}"

definition token_char :: "char \<Rightarrow> bool" where
  "token_char c \<longleftrightarrow> key_char c \<or> c \<in> {CHR ''.'', CHR ''~'', CHR ''+'', CHR ''/'', CHR ''=''}"

text \<open>The length of a match at the start of the text.\<close>

definition match_key :: "string \<Rightarrow> nat option" where
  "match_key s =
     (let run = takeWhile key_char (drop 3 s) in
      if lower (take 3 s) = ''sk-'' \<and> 6 \<le> length run then Some (3 + length run) else None)"

definition match_bearer :: "string \<Rightarrow> nat option" where
  "match_bearer s =
     (let blank = takeWhile is_space (drop 6 s); run = takeWhile token_char (drop (6 + length blank) s) in
      if lower (take 6 s) = ''bearer'' \<and> blank \<noteq> [] \<and> 8 \<le> length run
      then Some (6 + length blank + length run) else None)"

definition match_secret :: "string \<Rightarrow> nat option" where
  "match_secret s = (case match_key s of Some n \<Rightarrow> Some n | None \<Rightarrow> match_bearer s)"

definition REDACTED :: string where
  "REDACTED = ''[REDACTED]''"

lemma match_secret_pos: "match_secret s = Some n \<Longrightarrow> 0 < n"
  by (auto simp: match_secret_def match_key_def match_bearer_def Let_def split: option.splits if_splits)

function redact :: "string \<Rightarrow> string" where
  "redact s = (case match_secret s of
      Some n \<Rightarrow> if s = [] then [] else REDACTED @ redact (drop n s)
    | None \<Rightarrow> (case s of [] \<Rightarrow> [] | c # cs \<Rightarrow> c # redact cs))"
  by pat_completeness auto
termination
  by (relation "measure length") (auto dest: match_secret_pos)

declare redact.simps [simp del]

definition MAX_CLIENT_ERROR_LEN :: nat where
  "MAX_CLIENT_ERROR_LEN = 300"

definition sanitize_message :: "string \<Rightarrow> string" where
  "sanitize_message msg =
     (let m = redact msg in
      if MAX_CLIENT_ERROR_LEN < length m then take MAX_CLIENT_ERROR_LEN m @ ''...'' else m)"

subsection \<open>The error reply\<close>

definition send_error :: "escape \<Rightarrow> nat \<times> obj" where
  "send_error e = (case e of
      Typed x \<Rightarrow>
        (let payload = to_dict x in
         (status_code (exn_cls x), [(''error'', JObj (AList.update ''message''
            (JStr (sanitize_message (case dget payload ''message'' JNull of JStr m \<Rightarrow> m | _ \<Rightarrow> []))) payload))]))
    | _ \<Rightarrow> (500, [(''error'', JObj [(''code'', JStr ''LCP-5001''), (''message'', JStr ''internal error'')])]))"

subsection \<open>No secret survives\<close>

text \<open>The texts the two branches of the expression find, at their shortest.\<close>

definition key_shape :: "string \<Rightarrow> bool" where
  "key_shape w \<longleftrightarrow> (\<exists>a r. w = a @ r \<and> lower a = ''sk-'' \<and> length r = 6 \<and> list_all key_char r)"

definition bearer_shape :: "string \<Rightarrow> bool" where
  "bearer_shape w \<longleftrightarrow> (\<exists>a b r. w = a @ b @ r \<and> lower a = ''bearer'' \<and> b \<noteq> [] \<and> list_all is_space b \<and>
     length r = 8 \<and> list_all token_char r)"

lemma length_takeWhile_ge: "n \<le> length (takeWhile P xs) \<longleftrightarrow> n \<le> length xs \<and> list_all P (take n xs)"
proof (induction n arbitrary: xs)
  case 0
  then show ?case by simp
next
  case (Suc n)
  then show ?case by (cases xs) auto
qed

lemma takeWhile_run: "list_all P b \<Longrightarrow> r \<noteq> [] \<Longrightarrow> \<not> P (hd r) \<Longrightarrow> takeWhile P (b @ r) = b"
  by (induction b) (auto simp: takeWhile_eq_Nil_iff)

lemma token_not_space: "token_char c \<Longrightarrow> \<not> is_space c"
  by (auto simp: token_char_def key_char_def is_space_def is_digit_def less_eq_char_def code_def)

lemma match_key_iff: "match_key s \<noteq> None \<longleftrightarrow> (\<exists>w. prefix w s \<and> key_shape w)"
proof
  assume "match_key s \<noteq> None"
  then have l: "lower (take 3 s) = ''sk-''" and r: "6 \<le> length (drop 3 s)" "list_all key_char (take 6 (drop 3 s))"
    by (auto simp: match_key_def Let_def length_takeWhile_ge split: if_splits)
  have "prefix (take 3 s @ take 6 (drop 3 s)) s"
    by (metis append_take_drop_id append.assoc prefixI)
  moreover have "key_shape (take 3 s @ take 6 (drop 3 s))"
    unfolding key_shape_def using l r
    by (intro exI [of _ "take 3 s"] exI [of _ "take 6 (drop 3 s)"]) simp
  ultimately show "\<exists>w. prefix w s \<and> key_shape w" by blast
next
  assume "\<exists>w. prefix w s \<and> key_shape w"
  then obtain a r t where s: "s = a @ r @ t" and a: "lower a = ''sk-''" and r: "length r = 6" "list_all key_char r"
    by (auto simp: prefix_def key_shape_def)
  have "length a = 3" using arg_cong [OF a, of length] by simp
  with s a r show "match_key s \<noteq> None"
    by (simp add: match_key_def Let_def length_takeWhile_ge)
qed

lemma match_bearer_iff: "match_bearer s \<noteq> None \<longleftrightarrow> (\<exists>w. prefix w s \<and> bearer_shape w)"
proof
  define b where "b = takeWhile is_space (drop 6 s)"
  define t where "t = drop (6 + length b) s"
  assume "match_bearer s \<noteq> None"
  then have l: "lower (take 6 s) = ''bearer''" "b \<noteq> []" and r: "8 \<le> length t" "list_all token_char (take 8 t)"
    by (auto simp: match_bearer_def Let_def length_takeWhile_ge b_def t_def split: if_splits)
  have "b @ dropWhile is_space (drop 6 s) = drop 6 s"
    unfolding b_def by simp
  then have "drop 6 s = b @ t"
    unfolding t_def using drop_append [of "length b" b "dropWhile is_space (drop 6 s)"]
    by (simp add: b_def dropWhile_eq_drop add.commute)
  then have "s = take 6 s @ b @ take 8 t @ drop 8 t"
    by (metis append_take_drop_id)
  then have "prefix (take 6 s @ b @ take 8 t) s"
    by (metis append.assoc prefixI)
  moreover have "bearer_shape (take 6 s @ b @ take 8 t)"
    unfolding bearer_shape_def using l r
    by (intro exI [of _ "take 6 s"] exI [of _ b] exI [of _ "take 8 t"]) (auto simp: b_def list_all_iff dest: set_takeWhileD)
  ultimately show "\<exists>w. prefix w s \<and> bearer_shape w" by blast
next
  assume "\<exists>w. prefix w s \<and> bearer_shape w"
  then obtain a b r t where s: "s = a @ b @ r @ t" and a: "lower a = ''bearer''" and b: "b \<noteq> []" "list_all is_space b"
    and r: "length r = 8" "list_all token_char r"
    by (auto simp: prefix_def bearer_shape_def)
  have "length a = 6" using arg_cong [OF a, of length] by simp
  moreover have "takeWhile is_space (b @ r @ t) = b"
    using b r token_not_space by (intro takeWhile_run) (cases r; simp)+
  ultimately show "match_bearer s \<noteq> None"
    using s a b r by (simp add: match_bearer_def Let_def length_takeWhile_ge)
qed

definition secret_shape :: "string \<Rightarrow> bool" where
  "secret_shape w \<longleftrightarrow> key_shape w \<or> bearer_shape w"

lemma match_secret_iff: "match_secret s \<noteq> None \<longleftrightarrow> (\<exists>w. prefix w s \<and> secret_shape w)"
proof -
  have "match_secret s \<noteq> None \<longleftrightarrow> match_key s \<noteq> None \<or> match_bearer s \<noteq> None"
    by (auto simp: match_secret_def split: option.splits)
  then show ?thesis
    unfolding match_key_iff match_bearer_iff secret_shape_def by blast
qed

lemma shape_chars:
  assumes "secret_shape w"
  shows "w \<noteq> []" and "lower_char (hd w) \<in> {CHR ''s'', CHR ''b''}" and "CHR ''['' \<notin> set w"
proof -
  obtain a b r where w: "w = a @ b @ r" and a: "lower a = ''sk-'' \<or> lower a = ''bearer''"
    and br: "\<forall>c \<in> set b. is_space c" "\<forall>c \<in> set r. token_char c"
    using assms
  proof (unfold secret_shape_def, elim disjE)
    assume "key_shape w"
    then show thesis
      by (auto simp: key_shape_def list_all_iff token_char_def intro: that [of _ "[]"])
  next
    assume "bearer_shape w"
    then show thesis
      by (auto simp: bearer_shape_def list_all_iff intro: that)
  qed
  have ne: "a \<noteq> []" using a by auto
  then show "w \<noteq> []" using w by simp
  show "lower_char (hd w) \<in> {CHR ''s'', CHR ''b''}"
    using a ne w by (cases a) (auto simp: lower_def)
  have "CHR ''['' \<notin> set a"
  proof
    assume "CHR ''['' \<in> set a"
    then have "lower_char (CHR ''['') \<in> set (lower a)" by (simp add: lower_def)
    with a show False by (auto simp: lower_char_code)
  qed
  moreover have "\<not> is_space (CHR ''['')" "\<not> token_char (CHR ''['')"
    by (auto simp: is_space_code token_char_def key_char_def is_digit_def less_eq_char_def)
  ultimately show "CHR ''['' \<notin> set w" using w br by auto
qed

lemma redact_Nil [simp]: "redact [] = []"
  by (simp add: redact.simps [of "[]"] split: option.split)

lemma redact_Cons: "match_secret (c # cs) = None \<Longrightarrow> redact (c # cs) = c # redact cs"
  by (subst redact.simps) simp

lemma redact_Some: "match_secret s = Some n \<Longrightarrow> s \<noteq> [] \<Longrightarrow> redact s = REDACTED @ redact (drop n s)"
  by (subst redact.simps) simp

lemma redact_cases:
  obtains (nil) "s = []" | (skip) c cs where "s = c # cs" "match_secret s = None" "redact s = c # redact cs"
  | (hit) n where "s \<noteq> []" "match_secret s = Some n" "redact s = REDACTED @ redact (drop n s)"
  by (cases s; cases "match_secret s") (auto simp: redact_Cons redact_Some)

text \<open>A text without an opening bracket at the start of the output was there in the input.\<close>

lemma prefix_redact: "CHR ''['' \<notin> set w \<Longrightarrow> prefix w (redact s) \<Longrightarrow> prefix w s"
proof (induction s arbitrary: w rule: redact.induct)
  case (1 s)
  show ?case
  proof (cases s rule: redact_cases)
    case nil
    with 1(4) show ?thesis by simp
  next
    case (skip c cs)
    with 1 show ?thesis by (cases w) auto
  next
    case (hit n)
    with 1(3,4) show ?thesis by (cases w) (auto simp: REDACTED_def)
  qed
qed

lemma redact_head_clean:
  assumes "secret_shape w"
  shows "\<not> prefix w (redact s)"
proof
  assume p: "prefix w (redact s)"
  with shape_chars(3) [OF assms] have "prefix w s" by (rule prefix_redact)
  with assms have "match_secret s \<noteq> None" using match_secret_iff by blast
  moreover have "s \<noteq> []" using \<open>prefix w s\<close> shape_chars(1) [OF assms] by auto
  ultimately obtain n where "redact s = REDACTED @ redact (drop n s)"
    by (cases s rule: redact_cases) auto
  with p shape_chars [OF assms] show False
    by (cases w) (auto simp: REDACTED_def)
qed

lemma sublist_skip: "sublist w (xs @ ys) \<Longrightarrow> w \<noteq> [] \<Longrightarrow> hd w \<notin> set xs \<Longrightarrow> sublist w ys"
  by (induction xs) (auto simp: sublist_Cons_right prefix_Cons)

lemma redacted_clean:
  assumes "secret_shape w"
  shows "\<not> sublist w (redact s)"
proof (induction s rule: redact.induct)
  case (1 s)
  show ?case
  proof (cases s rule: redact_cases)
    case nil
    then show ?thesis using shape_chars(1) [OF assms] by simp
  next
    case (skip c cs)
    with 1(1) [OF skip(2,1)] have "\<not> sublist w (redact cs)" by simp
    with skip redact_head_clean [OF assms, of s] show ?thesis
      by (simp add: sublist_Cons_right)
  next
    case (hit n)
    have "hd w \<notin> set REDACTED"
      using shape_chars(2) [OF assms] by (auto simp: REDACTED_def lower_char_code)
    with hit 1(2) [OF hit(2,1)] shape_chars(1) [OF assms] show ?thesis
      by (auto dest: sublist_skip)
  qed
qed

lemma sanitized_clean:
  assumes "secret_shape w" and "CHR ''.'' \<notin> set w"
  shows "\<not> sublist w (sanitize_message msg)"
proof
  assume s: "sublist w (sanitize_message msg)"
  obtain t where t: "prefix t (redact msg)" "sanitize_message msg = t \<or> sanitize_message msg = t @ ''...''"
  proof (cases "MAX_CLIENT_ERROR_LEN < length (redact msg)")
    case True
    then show thesis
      by (intro that [of "take MAX_CLIENT_ERROR_LEN (redact msg)"]) (simp_all add: sanitize_message_def take_is_prefix)
  next
    case False
    then show thesis by (intro that [of "redact msg"]) (simp_all add: sanitize_message_def)
  qed
  have "sublist w t"
  proof (cases "sanitize_message msg = t")
    case False
    with t(2) s have "sublist (rev w) (''...'' @ rev t)"
      by (metis rev_append rev_rev_ident sublist_rev rev.simps(1) append_Nil singleton_rev_conv rev.simps(2) append_Cons)
    then have "sublist (rev w) (rev t)"
      using assms(2) shape_chars(1) [OF assms(1)] by (elim sublist_skip) (auto simp: hd_rev dest: last_in_set)
    then show ?thesis by simp
  qed (use s in simp)
  with t(1) have "sublist w (redact msg)"
    by (metis append.assoc prefix_def sublist_def)
  with redacted_clean [OF assms(1)] show False by blast
qed

lemma sublist_hd: "sublist w t \<Longrightarrow> w \<noteq> [] \<Longrightarrow> hd w \<in> set t"
  by (auto simp: sublist_def)

lemma internal_error_clean:
  assumes "secret_shape w"
  shows "\<not> sublist w ''internal error''"
proof
  assume "sublist w ''internal error''"
  then have "hd w \<in> set ''internal error''"
    using shape_chars(1) [OF assms] by (rule sublist_hd)
  then have "lower_char (hd w) \<in> lower_char ` set ''internal error''" by blast
  moreover have "lower_char ` set ''internal error'' \<inter> {CHR ''s'', CHR ''b''} = {}"
    by code_simp
  ultimately show False using shape_chars(2) [OF assms] by blast
qed

text \<open>
  C14: No provider key reaches a client: the message of an error reply contains no text of the form \<open>sk-\<close> (in
  either case) followed by six characters of a key, and no bearer token of eight characters without a dot,
  whatever message the exception was raised with; and it is at most 303 characters long.
\<close>

theorem error_replies_hide_keys:
  assumes "secret_shape w" and "CHR ''.'' \<notin> set w"
  shows "\<exists>payload m. snd (send_error e) = [(''error'', JObj payload)] \<and> map_of payload ''message'' = Some (JStr m) \<and>
     length m \<le> 303 \<and> \<not> sublist w m"
proof (cases e)
  case (Typed x)
  let ?m = "sanitize_message (case dget (to_dict x) ''message'' JNull of JStr m \<Rightarrow> m | _ \<Rightarrow> [])"
  have "length ?m \<le> 303" by (simp add: sanitize_message_def Let_def MAX_CLIENT_ERROR_LEN_def)
  with Typed sanitized_clean [OF assms] show ?thesis
    by (auto simp: send_error_def Let_def update_conv')
next
  case (Untyped x)
  then show ?thesis using internal_error_clean [OF assms(1)] by (simp add: send_error_def)
next
  case (Foreign x)
  then show ?thesis using internal_error_clean [OF assms(1)] by (simp add: send_error_def)
qed

lemma demo_key: "secret_shape ''sk-abc123''"
  unfolding secret_shape_def key_shape_def
  by (intro disjI1 exI [of _ "''sk-''"] exI [of _ "''abc123''"])
    (simp add: lower_def lower_char_code key_char_def is_digit_def less_eq_char_def)

theorem error_replies_hide_keys_witness:
  "\<exists>payload m. snd (send_error (Typed (mk_exn ProviderAuthError ''Incorrect API key provided: sk-abc123''))) =
     [(''error'', JObj payload)] \<and> map_of payload ''message'' = Some (JStr m) \<and> \<not> sublist ''sk-abc123'' m"
  using error_replies_hide_keys [OF demo_key, of "Typed (mk_exn ProviderAuthError ''Incorrect API key provided: sk-abc123'')"]
  by force

end
