(* ===== verification/Completion.thy ===== *)
theory Completion
  imports Stream_Tail Chain Prompt_Cache Inflight Error_Replies Route_Table
begin

section \<open>A chat completion from the first byte to the last (src/server/handler.py)\<close>

text \<open>
  \<open>_serve_chat_completions\<close>, composed of the components it calls: admission, tool stripping, the estimate, the
  prompt cache, the in-flight registry, the provider chain, the two tails (stream and plain answer) with the
  books, and the exception clauses.  The state is everything the handler changes.  The body is one object that
  \<open>try_chain\<close> changes in place, so what comes after the chain reads the body the last step was sent.  A call
  of the conversation store is recorded with its arguments.  What is written to a closed connection is listed as
  if it had been sent, except for a stream, where the chunks that got through decide what is accounted.
\<close>

subsection \<open>The state and a request\<close>

record captured =
  cp_conversation :: "string option"
  cp_body :: obj
  cp_reply :: string
  cp_profile :: string
  cp_model :: string

record gateway_state =
  gw_books :: books
  gw_cache :: prompt_cache
  gw_inflight :: registry
  gw_breaker :: breaker
  gw_reasoning :: reasoning_store
  gw_captured :: "captured list"

record profile_cfg =
  pf_chain :: "step list"
  pf_forbidden :: "string list option"
  pf_auth :: "json option"

record completion_env =
  cm_keys :: key_env
  cm_manager :: bool
  cm_text :: alert_text
  cm_cost :: cost_env
  cm_codec :: codec
  cm_tok :: tokenizer
  cm_str :: "json \<Rightarrow> string"
  cm_chain :: chain_env
  cm_request :: chain_request

datatype client = Stays | Leaves_before_headers | Leaves_at nat

record chat =
  cq_profile :: string
  cq_authorization :: "string option"
  cq_body :: obj
  cq_conversation :: "string option"
  cq_token :: string
  cq_client :: client
  cq_now :: real
  cq_stamp :: string
  cq_today :: string
  cq_latency :: real
  cq_log_up :: bool
  cq_db_up :: bool

datatype response =
    Json_reply nat obj
  | Cache_reply string json
  | Completion_reply nat "(string, string) dict" obj
  | Stream_reply nat "(string, string) dict" "string list"

text \<open>How a part of the handler ends: what was sent, the exception that leaves it, the registry token.\<close>

record run =
  rn_out :: "response list"
  rn_escape :: "escape option"
  rn_token :: "string option"
  rn_gw :: gateway_state

subsection \<open>The books\<close>

definition call_of :: "chat \<Rightarrow> int option \<Rightarrow> string \<Rightarrow> string \<Rightarrow> string list \<Rightarrow> real \<Rightarrow> call_ctx" where
  "call_of cq key provider model blocked latency =
     \<lparr>cc_profile = cq_profile cq, cc_key = key, cc_model = model, cc_provider = provider, cc_latency = latency,
      cc_blocked = blocked, cc_now = cq_now cq, cc_stamp = cq_stamp cq, cc_today = cq_today cq,
      cc_log_up = cq_log_up cq, cc_budget_up = cq_db_up cq\<rparr>"

fun texts_of :: "json list \<Rightarrow> string list option" where
  "texts_of [] = Some []"
| "texts_of (JStr s # js) = map_option ((#) s) (texts_of js)"
| "texts_of (_ # js) = None"

text \<open>A blocked tool whose name is no text cannot be joined into the row.\<close>

definition guarded_book ::
  "completion_env \<Rightarrow> chat \<Rightarrow> int option \<Rightarrow> string \<Rightarrow> string \<Rightarrow> json list \<Rightarrow> cost_info res \<Rightarrow> books \<Rightarrow> books" where
  "guarded_book env cq key provider model blocked info bk = (case info of
      Inl e \<Rightarrow> bk
    | Inr i \<Rightarrow> (case texts_of blocked of
        None \<Rightarrow> bk
      | Some bs \<Rightarrow> snd (book (cm_text env) (call_of cq key provider model bs (cq_latency cq)) i bk)))"

definition estimated_info :: "estimation \<Rightarrow> cost_info" where
  "estimated_info est = \<lparr>ci_prompt = JNum (of_int (es_input est)), ci_completion = JNum 0, ci_hit = 0,
     ci_miss = JNum (of_int (es_input est)), ci_cost = es_total est, ci_priced = True\<rparr>"

definition stream_info :: "cost_env \<Rightarrow> estimation \<Rightarrow> string \<Rightarrow> string \<Rightarrow> json option \<Rightarrow> cost_info res" where
  "stream_info env est provider model event = (case event of
      None \<Rightarrow> Inr (estimated_info est)
    | Some j \<Rightarrow>
        if \<not> truthy j then Inr (estimated_info est)
        else rbind (py_get j ''usage'' JNull) (\<lambda>u.
          if truthy u then calculate_cost env provider model (case j of JObj d \<Rightarrow> Some d | _ \<Rightarrow> None)
          else Inr (estimated_info est)))"

definition capture_request :: "chat \<Rightarrow> obj \<Rightarrow> string \<Rightarrow> string \<Rightarrow> gateway_state \<Rightarrow> gateway_state" where
  "capture_request cq body words model gw = gw\<lparr>gw_captured := gw_captured gw @
     [\<lparr>cp_conversation = cq_conversation cq, cp_body = body, cp_reply = words, cp_profile = cq_profile cq,
       cp_model = model\<rparr>]\<rparr>"

subsection \<open>The two tails\<close>

fun deliver :: "client \<Rightarrow> string list \<Rightarrow> string list \<times> bool" where
  "deliver (Leaves_at n) chunks = (if n < length chunks then (take n chunks, True) else (chunks, False))"
| "deliver _ chunks = (chunks, False)"

definition warning_text :: "chat \<Rightarrow> int \<times> int \<Rightarrow> string" where
  "warning_text cq w = ''[lcp] request '' @ show_int (fst w) @ '' tokens is at/near the '' @ show_int (snd w) @
     ''-token context limit for profile '' @ quoted (cq_profile cq) @
     ''; history may be truncated and the model may forget earlier turns''"

definition miss_headers :: "completion_env \<Rightarrow> chat \<Rightarrow> estimation \<Rightarrow> (int \<times> int) list \<Rightarrow> (string, string) dict" where
  "miss_headers env cq est warnings =
     [(''X-LCP-Cache'', ''MISS''), (''X-Estimated-Cost'', at_float (cm_text env) (es_total est))] @
     (if warnings = [] then [] else [(''X-LCP-Context-Warning'', join '' | '' (map (warning_text cq) warnings))])"

text \<open>
  What reading the stream raises past the loop that relays it: a lost connection is caught there, as if the client
  had left.
\<close>

definition stream_failure :: "forward_env \<Rightarrow> string \<Rightarrow> read_end \<Rightarrow> escape option" where
  "stream_failure env provider fin = (case fin of
      Complete \<Rightarrow> None
    | Timed_out \<Rightarrow> Some (Typed (mk_exn ProviderTimeoutError
        (''Provider '' @ provider @ '' stream read timed out after '' @ fe_timeout_text env @ ''s'')))
    | Connection_lost \<Rightarrow> None
    | Read_failed e \<Rightarrow> Some (Foreign e))"

definition stream_tail ::
  "completion_env \<Rightarrow> chat \<Rightarrow> int option \<Rightarrow> estimation \<Rightarrow> json list \<Rightarrow> (int \<times> int) list \<Rightarrow> obj \<Rightarrow>
   string list \<Rightarrow> read_end \<Rightarrow> nat \<Rightarrow> string \<Rightarrow> string \<Rightarrow> gateway_state \<Rightarrow> run" where
  "stream_tail env cq key est blocked warnings body chunks fin status provider model gw =
     (let token = Some (cq_token cq); loads = fe_loads (ce_forward (cm_chain env)) in
      if cq_client cq = Leaves_before_headers
      then \<lparr>rn_out = [], rn_escape = Some (Foreign ''BrokenPipeError''), rn_token = token, rn_gw = gw\<rparr>
      else let (parts, gone) = deliver (cq_client cq) chunks;
               out = [Stream_reply status (miss_headers env cq est warnings) parts]
      in case (if gone then None else stream_failure (ce_forward (cm_chain env)) provider fin) of
           Some e \<Rightarrow> \<lparr>rn_out = out, rn_escape = Some e, rn_token = token, rn_gw = gw\<rparr>
         | None \<Rightarrow> let full = concat parts;
                  gw1 = gw\<lparr>gw_reasoning := capture_reasoning_from_sse loads (cq_now cq) full (gw_reasoning gw)\<rparr>;
                  info = stream_info (cm_cost env) est provider model (extract_last_sse_chunk loads full);
                  gw2 = gw1\<lparr>gw_books := guarded_book env cq key provider model blocked info (gw_books gw1)\<rparr>
         in (case extract_sse_text loads full of
               Inl e \<Rightarrow> \<lparr>rn_out = out, rn_escape = Some (Untyped e), rn_token = token, rn_gw = gw2\<rparr>
             | Inr words \<Rightarrow> \<lparr>rn_out = out, rn_escape = None, rn_token = token,
                 rn_gw = capture_request cq body words model gw2\<rparr>))"

definition list_or_empty :: "json \<Rightarrow> json list" where
  "list_or_empty j = (case j of JList xs \<Rightarrow> xs | _ \<Rightarrow> [])"

definition token_warning :: "completion_env \<Rightarrow> verification \<Rightarrow> (string, string) dict" where
  "token_warning env v = (if \<not> vf_suspicious v then [] else
     [(''X-LCP-Token-Warning'', ''suspicious: provider='' @ cx_str (cm_codec env) (JNum (vf_prompt v)) @
        '' estimated='' @ show_int (vf_estimated v) @ '' pct='' @ at_float (cm_text env) (vf_pct v))])"

text \<open>After the answer has been stored in the cache: verification, books, reply, capture.\<close>

definition answer_tail ::
  "completion_env \<Rightarrow> chat \<Rightarrow> int option \<Rightarrow> estimation \<Rightarrow> json list \<Rightarrow> (int \<times> int) list \<Rightarrow> obj \<Rightarrow>
   obj \<Rightarrow> nat \<Rightarrow> string \<Rightarrow> string \<Rightarrow> gateway_state \<Rightarrow> run" where
  "answer_tail env cq key est blocked warnings body d status provider model gw =
     (let token = Some (cq_token cq);
          (v, tv) = verify (list_or_empty (dget body ''messages'' (JList []))) (dget d ''usage'' (JObj []))
            (bk_verifier (gw_books gw));
          gw1 = gw\<lparr>gw_books := (gw_books gw)\<lparr>bk_verifier := tv\<rparr>\<rparr>
      in case v of
           Inl e \<Rightarrow> \<lparr>rn_out = [], rn_escape = Some (Untyped e), rn_token = token, rn_gw = gw1\<rparr>
         | Inr vf \<Rightarrow>
             let gw2 = gw1\<lparr>gw_books := guarded_book env cq key provider model blocked
                   (calculate_cost (cm_cost env) provider model (Some d)) (gw_books gw1)\<rparr>;
                 out = [Completion_reply status (miss_headers env cq est warnings @ token_warning env vf) d]
             in (case extract_message_text d of
                   Inl e \<Rightarrow> \<lparr>rn_out = out, rn_escape = Some (Untyped e), rn_token = token, rn_gw = gw2\<rparr>
                 | Inr words \<Rightarrow> \<lparr>rn_out = out, rn_escape = None, rn_token = token,
                     rn_gw = capture_request cq body words model gw2\<rparr>))"

definition plain_tail ::
  "completion_env \<Rightarrow> chat \<Rightarrow> int option \<Rightarrow> estimation \<Rightarrow> json list \<Rightarrow> (int \<times> int) list \<Rightarrow> obj \<Rightarrow>
   json \<Rightarrow> nat \<Rightarrow> string \<Rightarrow> string \<Rightarrow> gateway_state \<Rightarrow> run" where
  "plain_tail env cq key est blocked warnings body j status provider model gw =
     (let token = Some (cq_token cq);
          gw1 = gw\<lparr>gw_reasoning := capture_reasoning_from_response (cq_now cq) j (gw_reasoning gw)\<rparr>
      in case cache_set (cm_codec env) (cq_now cq) (cq_profile cq) model body j (gw_cache gw1) of
           Inl e \<Rightarrow> \<lparr>rn_out = [], rn_escape = Some (Untyped e), rn_token = token, rn_gw = gw1\<rparr>
         | Inr cache \<Rightarrow>
             let gw2 = gw1\<lparr>gw_cache := cache\<rparr>
             in (case j of
                   JObj d \<Rightarrow> answer_tail env cq key est blocked warnings body d status provider model gw2
                 | _ \<Rightarrow> \<lparr>rn_out = [], rn_escape = Some (Untyped AttributeError), rn_token = token, rn_gw = gw2\<rparr>))"

subsection \<open>From the lookup to the tails\<close>

definition py_len :: "json \<Rightarrow> nat res" where
  "py_len j = (case j of
      JList xs \<Rightarrow> Inr (length xs)
    | JStr s \<Rightarrow> Inr (length s)
    | JObj d \<Rightarrow> Inr (length d)
    | _ \<Rightarrow> Inl TypeError)"

definition session_of :: "chat \<Rightarrow> string" where
  "session_of cq = (case cq_conversation cq of
      Some c \<Rightarrow> if c \<noteq> [] then c else ''lcp-'' @ cq_profile cq
    | None \<Rightarrow> ''lcp-'' @ cq_profile cq)"

definition request_estimate :: "completion_env \<Rightarrow> step \<Rightarrow> obj \<Rightarrow> estimation" where
  "request_estimate env primary body =
     (case estimate_from_request (cm_tok env) (cm_str env) (st_model primary)
        (list_or_empty (dget body ''messages'' (JList []))) (dget body ''tools'' JNull)
        (dget body ''max_tokens'' (JNum 1024)) (handler_pricing (cm_cost env) (st_provider primary) (st_model primary)) of
        Inl e \<Rightarrow> no_estimate
      | Inr est \<Rightarrow> est)"

text \<open>
  The chain and what follows.  A stream is relayed exactly when the request asks for one; the two other
  combinations of answer and request cannot occur, because the body that is sent keeps the field.
\<close>

definition forward_stage ::
  "completion_env \<Rightarrow> profile_cfg \<Rightarrow> chat \<Rightarrow> int option \<Rightarrow> estimation \<Rightarrow> json list \<Rightarrow> obj \<Rightarrow> gateway_state \<Rightarrow> run" where
  "forward_stage env pf cq key est blocked body gw =
     (case try_chain ((cm_chain env)\<lparr>ce_session := session_of cq\<rparr>) (cm_request env) (cq_profile cq) (pf_chain pf)
        body (gw_breaker gw) (gw_reasoning gw) of
        (r, warnings, st) \<Rightarrow>
          let gw1 = gw\<lparr>gw_breaker := ch_breaker st, gw_reasoning := ch_reasoning st\<rparr>;
              raised = (\<lambda>e. \<lparr>rn_out = [], rn_escape = Some e, rn_token = Some (cq_token cq), rn_gw = gw1\<rparr>)
          in (case r of
                Inl e \<Rightarrow> raised e
              | Inr (Stream chunks fin, status, provider, model) \<Rightarrow>
                  if truthy (dget body ''stream'' (JBool False))
                  then stream_tail env cq key est blocked warnings (ch_body st) chunks fin status provider model gw1
                  else raised (Untyped AttributeError)
              | Inr (Body j, status, provider, model) \<Rightarrow>
                  if truthy (dget body ''stream'' (JBool False)) then raised (Untyped TypeError)
                  else plain_tail env cq key est blocked warnings (ch_body st) j status provider model gw1))"

definition failed_run :: "py_exn \<Rightarrow> gateway_state \<Rightarrow> run" where
  "failed_run e gw = \<lparr>rn_out = [], rn_escape = Some (Untyped e), rn_token = None, rn_gw = gw\<rparr>"

definition replied :: "response \<Rightarrow> gateway_state \<Rightarrow> run" where
  "replied r gw = \<lparr>rn_out = [r], rn_escape = None, rn_token = None, rn_gw = gw\<rparr>"

definition begin_request :: "chat \<Rightarrow> step \<Rightarrow> estimation \<Rightarrow> obj \<Rightarrow> nat \<Rightarrow> gateway_state \<Rightarrow> gateway_state" where
  "begin_request cq primary est body tools gw = gw\<lparr>gw_inflight := inflight_begin (cq_token cq) (cq_now cq)
     (cq_profile cq) (st_model primary) (st_provider primary) (es_input est)
     (truthy (dget body ''stream'' (JBool False))) (cq_conversation cq) (int tools) (gw_inflight gw)\<rparr>"

text \<open>A stored \<open>None\<close> counts as a miss.\<close>

definition cached_answer :: "completion_env \<Rightarrow> chat \<Rightarrow> step \<Rightarrow> obj \<Rightarrow> gateway_state \<Rightarrow> json option \<times> prompt_cache" where
  "cached_answer env cq primary body gw =
     (if truthy (dget body ''stream'' (JBool False)) then (None, gw_cache gw)
      else case cache_get (cm_codec env) (cq_now cq) (cq_profile cq) (st_model primary) body (gw_cache gw) of
        (found, cache) \<Rightarrow> (if found = Some JNull then None else found, cache))"

definition tool_count :: "obj \<Rightarrow> nat res" where
  "tool_count body = (if truthy_opt (map_of body ''tools'') then py_len (dget body ''tools'' JNull) else Inr 0)"

definition lookup_stage :: "completion_env \<Rightarrow> profile_cfg \<Rightarrow> chat \<Rightarrow> int option \<Rightarrow> step \<Rightarrow> json list \<Rightarrow> obj \<Rightarrow> gateway_state \<Rightarrow> run" where
  "lookup_stage env pf cq key primary blocked body gw =
     (let est = request_estimate env primary body in
      case cached_answer env cq primary body gw of
        (Some answer, cache) \<Rightarrow>
          replied (Cache_reply (at_float (cm_text env) (es_total est)) answer) (gw\<lparr>gw_cache := cache\<rparr>)
      | (None, cache) \<Rightarrow> (case tool_count body of
            Inl e \<Rightarrow> failed_run e (gw\<lparr>gw_cache := cache\<rparr>)
          | Inr n \<Rightarrow> forward_stage env pf cq key est blocked body
              (begin_request cq primary est body n (gw\<lparr>gw_cache := cache\<rparr>))))"

text \<open>The whole \<open>try\<close> block.\<close>

definition try_block :: "completion_env \<Rightarrow> profile_cfg \<Rightarrow> chat \<Rightarrow> int option \<Rightarrow> gateway_state \<Rightarrow> run" where
  "try_block env pf cq key gw =
     (case map_of (cq_body cq) ''messages'' of
        Some (JList (m # ms)) \<Rightarrow>
          (case strip_forbidden_tools (cq_body cq) (pf_forbidden pf) of
             Inl e \<Rightarrow> failed_run e gw
           | Inr (body, blocked) \<Rightarrow> (case pf_chain pf of
               [] \<Rightarrow> failed_run IndexError gw
             | primary # rest \<Rightarrow> lookup_stage env pf cq key primary blocked body gw))
      | _ \<Rightarrow> replied (Json_reply 400 [(''error'', JStr ''missing required field: messages'')]) gw)"

subsection \<open>The exception clauses\<close>

definition no_usage :: cost_info where
  "no_usage = \<lparr>ci_prompt = JNum 0, ci_completion = JNum 0, ci_hit = 0, ci_miss = JNum 0, ci_cost = 0, ci_priced = True\<rparr>"

definition is_provider_error :: "exn_class \<Rightarrow> bool" where
  "is_provider_error c \<longleftrightarrow> c = ProviderError \<or> base_class c = Some ProviderError"

text \<open>The error type a clause logs; nothing for a clause without a row.\<close>

definition logged_as :: "escape \<Rightarrow> string option" where
  "logged_as e = (case e of
      Typed x \<Rightarrow>
        if exn_cls x = ProviderBadRequestError then Some ''provider_bad_request''
        else if exn_cls x = AllProvidersFailedError then Some ''all_providers_failed''
        else if is_provider_error (exn_cls x) then Some (exn_code (exn_cls x)) else None
    | _ \<Rightarrow> None)"

text \<open>When the row cannot be written, the exception leaves the handler and nothing is sent.\<close>

definition handle_escape :: "chat \<Rightarrow> int option \<Rightarrow> escape \<Rightarrow> gateway_state \<Rightarrow> response list \<times> gateway_state" where
  "handle_escape cq key e gw =
     (let answer = (case send_error e of (status, d) \<Rightarrow> [Json_reply status d]) in
      case logged_as e of
        None \<Rightarrow> (answer, gw)
      | Some error \<Rightarrow>
          (case record_cost (call_of cq key ''unknown'' ''unknown'' [] 0) no_usage False (Some error) (gw_books gw) of
             (Some failure, bk) \<Rightarrow> ([], gw\<lparr>gw_books := bk\<rparr>)
           | (None, bk) \<Rightarrow> (answer, gw\<lparr>gw_books := bk\<rparr>)))"

definition serve_completion :: "completion_env \<Rightarrow> profile_cfg \<Rightarrow> chat \<Rightarrow> int option \<Rightarrow> gateway_state \<Rightarrow> response list \<times> gateway_state" where
  "serve_completion env pf cq key gw =
     (let r = try_block env pf cq key gw;
          (more, gw1) = (case rn_escape r of None \<Rightarrow> ([], rn_gw r) | Some e \<Rightarrow> handle_escape cq key e (rn_gw r))
      in (rn_out r @ more, gw1\<lparr>gw_inflight := inflight_end (rn_token r) (gw_inflight gw1)\<rparr>))"

subsection \<open>Admission before it\<close>

definition ctx_of :: "profile_cfg \<Rightarrow> chat \<Rightarrow> request_ctx" where
  "ctx_of pf cq = \<lparr>rc_profile = cq_profile cq, rc_auth_required = pf_auth pf, rc_authorization = cq_authorization cq,
     rc_now = cq_now cq, rc_db_up = cq_db_up cq\<rparr>"

definition serve_profile :: "completion_env \<Rightarrow> profile_cfg \<Rightarrow> chat \<Rightarrow> gateway_state \<Rightarrow> response list \<times> gateway_state" where
  "serve_profile env pf cq gw =
     (let (a, bl) = admit_request (cm_keys env) (cm_manager env) (ctx_of pf cq) (bk_billing (gw_books gw));
          gw1 = gw\<lparr>gw_books := (gw_books gw)\<lparr>bk_billing := bl\<rparr>\<rparr>
      in case a of
           Refused e \<Rightarrow> (case send_error (Typed e) of (status, d) \<Rightarrow> ([Json_reply status d], gw1))
         | OverBudget n \<Rightarrow> ([Json_reply 429 [(''error'', JObj [(''code'', JStr ''LCP-4290''),
             (''message'', JStr (''Budget '' @ quoted n @ '' has been exceeded. Further requests are blocked.''))])]], gw1)
         | Admitted key \<Rightarrow> serve_completion env pf cq key gw1)"

text \<open>
  The request line and the body: \<open>None\<close> is a body that is not JSON.  A model name that is no text raises before
  any clause, and nothing is sent.
\<close>

definition serve_chat_completions ::
  "completion_env \<Rightarrow> (string, profile_cfg) dict \<Rightarrow> string \<Rightarrow> obj option \<Rightarrow> chat \<Rightarrow> gateway_state \<Rightarrow> response list \<times> gateway_state" where
  "serve_chat_completions env profiles path body cq gw =
     (let error = (\<lambda>status m. ([Json_reply status [(''error'', JStr m)]], gw));
          serve = (\<lambda>p b. case map_of profiles p of
             None \<Rightarrow> error 400 (''profile not found: '' @ p)
           | Some pf \<Rightarrow> serve_profile env pf (cq\<lparr>cq_profile := p, cq_body := b\<rparr>) gw)
      in if \<not> contains path ''/chat/completions'' then error 404 ''not found''
         else (case body of
            None \<Rightarrow> error 400 ''invalid JSON body''
          | Some b \<Rightarrow> (case resolve_profile (keys profiles) path of
              Some p \<Rightarrow> serve p b
            | None \<Rightarrow> (case or_else (dget b ''model'' JNull) (JStr []) of
                JStr m \<Rightarrow>
                  if map_of profiles (strip m) \<noteq> None then serve (strip m) b
                  else error 400 (''unknown profile in path: '' @ path @
                    ''. Use /PROFILE/chat/completions or set model to a profile name.'')
              | _ \<Rightarrow> ([], gw)))))"

section \<open>What holds of a completion\<close>

subsection \<open>The registry\<close>

lemma capture_inflight [simp]: "gw_inflight (capture_request cq b w m gw) = gw_inflight gw"
  by (simp add: capture_request_def)

lemma stream_tail_registry:
  "rn_token (stream_tail env cq key est bl ws b cs fin st p m gw) = Some (cq_token cq) \<and>
   gw_inflight (rn_gw (stream_tail env cq key est bl ws b cs fin st p m gw)) = gw_inflight gw"
  by (simp add: stream_tail_def Let_def split: prod.split sum.split option.split)

lemma answer_tail_registry:
  "rn_token (answer_tail env cq key est bl ws b d st p m gw) = Some (cq_token cq) \<and>
   gw_inflight (rn_gw (answer_tail env cq key est bl ws b d st p m gw)) = gw_inflight gw"
  by (simp add: answer_tail_def Let_def split: prod.split sum.split)

lemma plain_tail_registry:
  "rn_token (plain_tail env cq key est bl ws b j st p m gw) = Some (cq_token cq) \<and>
   gw_inflight (rn_gw (plain_tail env cq key est bl ws b j st p m gw)) = gw_inflight gw"
  by (simp add: plain_tail_def Let_def answer_tail_registry split: sum.split json.split)

lemma forward_stage_registry:
  "rn_token (forward_stage env pf cq key est bl b gw) = Some (cq_token cq) \<and>
   gw_inflight (rn_gw (forward_stage env pf cq key est bl b gw)) = gw_inflight gw"
  by (simp add: forward_stage_def Let_def stream_tail_registry plain_tail_registry
      split: prod.split sum.split relay.split)

definition registers :: "chat \<Rightarrow> gateway_state \<Rightarrow> run \<Rightarrow> bool" where
  "registers cq gw r \<longleftrightarrow>
     rn_token r = None \<and> gw_inflight (rn_gw r) = gw_inflight gw \<or>
     rn_token r = Some (cq_token cq) \<and> (\<exists>v. gw_inflight (rn_gw r) = AList.update (cq_token cq) v (gw_inflight gw))"

lemma registers_early [simp]:
  "registers cq gw (failed_run e gw)" "registers cq gw (replied a gw)"
  "registers cq gw (failed_run e (gw\<lparr>gw_cache := c\<rparr>))" "registers cq gw (replied a (gw\<lparr>gw_cache := c\<rparr>))"
  by (simp_all add: registers_def failed_run_def replied_def)

lemma registers_forward [simp]:
  "registers cq gw (forward_stage env pf cq key est bl b (begin_request cq primary est b n (gw\<lparr>gw_cache := c\<rparr>)))"
  unfolding registers_def using forward_stage_registry
  by (auto simp: begin_request_def inflight_begin_def)

lemma registers_lookup [simp]: "registers cq gw (lookup_stage env pf cq key primary bl b gw)"
  by (simp add: lookup_stage_def Let_def split: sum.split prod.split option.split)

lemma try_block_registry: "registers cq gw (try_block env pf cq key gw)"
  by (simp add: try_block_def split: option.split json.split list.split sum.split prod.split)

lemma handle_escape_registry: "gw_inflight (snd (handle_escape cq key e gw)) = gw_inflight gw"
  by (simp add: handle_escape_def Let_def split: option.split prod.split)

text \<open>
  C12: Every way a completion can end takes its entry out of the registry of running requests: answered, served
  from the cache, refused, failed in the chain, broken off in the middle of the stream or while the failure is
  being logged, the registry is afterwards what it was before.
\<close>

theorem every_exit_deregisters:
  assumes "cq_token cq \<notin> set (keys (gw_inflight gw))" and "cq_token cq \<noteq> []"
  shows "gw_inflight (snd (serve_completion env pf cq key gw)) = gw_inflight gw"
proof -
  let ?r = "try_block env pf cq key gw"
  have "gw_inflight (snd (serve_completion env pf cq key gw)) = inflight_end (rn_token ?r) (gw_inflight (rn_gw ?r))"
  proof (cases "rn_escape ?r")
    case None
    then show ?thesis by (simp add: serve_completion_def Let_def)
  next
    case (Some e)
    with handle_escape_registry [of cq key e "rn_gw ?r"] show ?thesis
      by (cases "handle_escape cq key e (rn_gw ?r)") (simp add: serve_completion_def Let_def)
  qed
  then show ?thesis
    using try_block_registry [of cq gw env pf key] assms
    by (auto simp: registers_def inflight_end_def delete_update_same delete_idem)
qed

subsection \<open>The replies\<close>

text \<open>A run that ends has sent one reply, one that raises has sent none or one that was complete.\<close>

definition late_failure :: "response \<Rightarrow> bool" where
  "late_failure a \<longleftrightarrow> (case a of
      Stream_reply status hs parts \<Rightarrow> True
    | Completion_reply status hs d \<Rightarrow> (case extract_message_text d of Inl e \<Rightarrow> True | Inr t \<Rightarrow> False)
    | _ \<Rightarrow> False)"

definition one_reply :: "run \<Rightarrow> bool" where
  "one_reply r \<longleftrightarrow> (case rn_escape r of
      None \<Rightarrow> length (rn_out r) = 1
    | Some e \<Rightarrow> rn_out r = [] \<or> length (rn_out r) = 1 \<and> late_failure (hd (rn_out r)))"

lemma one_reply_early [simp]: "one_reply (failed_run e gw)" "one_reply (replied a gw)"
  by (simp_all add: one_reply_def failed_run_def replied_def)

lemma one_reply_stream [simp]: "one_reply (stream_tail env cq key est bl ws b cs fin st p m gw)"
  by (simp add: one_reply_def stream_tail_def late_failure_def Let_def split: prod.split sum.split option.split)

lemma one_reply_answer [simp]: "one_reply (answer_tail env cq key est bl ws b d st p m gw)"
  by (simp add: one_reply_def answer_tail_def late_failure_def Let_def split: prod.split sum.split)

lemma one_reply_plain [simp]: "one_reply (plain_tail env cq key est bl ws b j st p m gw)"
  by (cases j) (simp_all add: plain_tail_def Let_def one_reply_def [of "\<lparr>rn_out = [], rn_escape = Some _, rn_token = _, rn_gw = _\<rparr>"]
      split: sum.split)

lemma one_reply_forward [simp]: "one_reply (forward_stage env pf cq key est bl b gw)"
  by (simp add: forward_stage_def Let_def one_reply_def [of "\<lparr>rn_out = [], rn_escape = Some _, rn_token = _, rn_gw = _\<rparr>"]
      split: prod.split sum.split relay.split)

lemma one_reply_try_block: "one_reply (try_block env pf cq key gw)"
  by (simp add: try_block_def lookup_stage_def Let_def
      split: option.split json.split list.split sum.split prod.split)

lemma handle_escape_reply: "cq_log_up cq \<Longrightarrow> length (fst (handle_escape cq key e gw)) = 1"
  by (simp add: handle_escape_def Let_def record_cost_def call_of_def split: option.split prod.split)

text \<open>
  C4: Every request is answered.  As long as the request log can be written, a completion sends at least one reply
  whatever the upstreams do, and exactly one unless the first was a stream, or an answer whose choices are an
  object: only then is an error sent after it.
\<close>

theorem every_request_is_answered:
  assumes "cq_log_up cq" and "serve_completion env pf cq key gw = (outs, gw')"
  shows "\<exists>first more. outs = first # more \<and> (more = [] \<or> length more = 1 \<and> late_failure first)"
proof (cases "rn_escape (try_block env pf cq key gw)")
  case None
  with one_reply_try_block [of env pf cq key gw] assms(2) show ?thesis
    by (auto simp: serve_completion_def Let_def one_reply_def length_Suc_conv)
next
  case (Some e)
  obtain reply gw1 where h: "handle_escape cq key e (rn_gw (try_block env pf cq key gw)) = ([reply], gw1)"
    using handle_escape_reply [OF assms(1), of key e "rn_gw (try_block env pf cq key gw)"]
    by (cases "handle_escape cq key e (rn_gw (try_block env pf cq key gw))") (auto simp: length_Suc_conv)
  from assms(2) Some h have "outs = rn_out (try_block env pf cq key gw) @ [reply]"
    by (simp add: serve_completion_def Let_def)
  with Some one_reply_try_block [of env pf cq key gw] show ?thesis
    by (auto simp: one_reply_def length_Suc_conv)
qed

text \<open>
  Also: With the request log down, a failed chain is not answered at all: writing the row raises inside the
  exception clause, and the connection is closed without a reply.
\<close>

theorem unlogged_failure_is_unanswered:
  assumes "rn_escape (try_block env pf cq key gw) = Some e" and "logged_as e \<noteq> None"
    and "rn_out (try_block env pf cq key gw) = []" and "\<not> cq_log_up cq"
  shows "fst (serve_completion env pf cq key gw) = []"
  using assms by (auto simp: serve_completion_def handle_escape_def record_cost_def call_of_def Let_def)

subsection \<open>A stream that breaks\<close>

definition chain_run :: "completion_env \<Rightarrow> profile_cfg \<Rightarrow> chat \<Rightarrow> obj \<Rightarrow> gateway_state \<Rightarrow> chain_result \<times> (int \<times> int) list \<times> chain_state" where
  "chain_run env pf cq body gw = try_chain ((cm_chain env)\<lparr>ce_session := session_of cq\<rparr>) (cm_request env)
     (cq_profile cq) (pf_chain pf) body (gw_breaker gw) (gw_reasoning gw)"

text \<open>A well-formed request whose tools are stripped and counted; the body the chain is given.\<close>

definition accepted :: "profile_cfg \<Rightarrow> chat \<Rightarrow> step \<Rightarrow> json list \<Rightarrow> obj \<Rightarrow> bool" where
  "accepted pf cq primary blocked body \<longleftrightarrow>
     (\<exists>m ms n rest. map_of (cq_body cq) ''messages'' = Some (JList (m # ms)) \<and>
        strip_forbidden_tools (cq_body cq) (pf_forbidden pf) = Inr (body, blocked) \<and>
        tool_count body = Inr n \<and> pf_chain pf = primary # rest)"

lemma try_block_forward:
  assumes "accepted pf cq primary blocked body" and "cached_answer env cq primary body gw = (None, cache)"
  obtains n where "try_block env pf cq key gw = forward_stage env pf cq key (request_estimate env primary body) blocked body
    (begin_request cq primary (request_estimate env primary body) body n (gw\<lparr>gw_cache := cache\<rparr>))"
  using assms by (auto simp: accepted_def try_block_def lookup_stage_def Let_def)

lemma begin_request_fields [simp]:
  "gw_books (begin_request cq p est b n gw) = gw_books gw"
  "gw_breaker (begin_request cq p est b n gw) = gw_breaker gw"
  "gw_reasoning (begin_request cq p est b n gw) = gw_reasoning gw"
  "gw_cache (begin_request cq p est b n gw) = gw_cache gw"
  by (simp_all add: begin_request_def)

lemma forward_stage_chain:
  "chain_run env pf cq body gw = (Inr (Stream chunks fin, status, provider, model), ws, st) \<Longrightarrow>
   truthy (dget body ''stream'' (JBool False)) \<Longrightarrow>
   gw_breaker g = gw_breaker gw \<Longrightarrow> gw_reasoning g = gw_reasoning gw \<Longrightarrow>
   forward_stage env pf cq key est bl body g = stream_tail env cq key est bl ws (ch_body st) chunks fin status provider model
     (g\<lparr>gw_breaker := ch_breaker st, gw_reasoning := ch_reasoning st\<rparr>)"
  "chain_run env pf cq body gw = (Inr (Body j, status, provider, model), ws, st) \<Longrightarrow>
   \<not> truthy (dget body ''stream'' (JBool False)) \<Longrightarrow>
   gw_breaker g = gw_breaker gw \<Longrightarrow> gw_reasoning g = gw_reasoning gw \<Longrightarrow>
   forward_stage env pf cq key est bl body g = plain_tail env cq key est bl ws (ch_body st) j status provider model
     (g\<lparr>gw_breaker := ch_breaker st, gw_reasoning := ch_reasoning st\<rparr>)"
  by (simp_all add: forward_stage_def chain_run_def Let_def)

text \<open>
  C19: A stream whose upstream stops half-way is not paid for and not ended cleanly, when reading it timed out or broke
  with anything but a lost connection: the chunks have gone to the client, then the handler writes an error reply with
  its own status line after them (504 for the timeout, 500 for the rest); no budget is charged and no alert fires; the
  log gets a failed row without provider, tokens or cost for the timeout, and nothing for the rest.
\<close>

theorem broken_stream_is_not_charged:
  assumes "accepted pf cq primary blocked body" and "truthy (dget body ''stream'' (JBool False))"
    and "chain_run env pf cq body gw = (Inr (Stream chunks fin, status, provider, model), ws, st)"
    and "fin = Timed_out \<or> fin = Read_failed w" and "cq_client cq = Stays" and "cq_log_up cq"
    and "serve_completion env pf cq key gw = (outs, gw')"
  shows "\<exists>hs d rows. outs = [Stream_reply status hs chunks, Json_reply (if fin = Timed_out then 504 else 500) d] \<and>
    bk_billing (gw_books gw') = bk_billing (gw_books gw) \<and> bk_alerts (gw_books gw') = bk_alerts (gw_books gw) \<and>
    bk_requests (gw_books gw') = bk_requests (gw_books gw) @ rows \<and>
    length rows = (if fin = Timed_out then 1 else 0) \<and>
    list_all (\<lambda>row. rq_provider row = ''unknown'' \<and> rq_cost row = no_usage \<and> \<not> rq_success row) rows"
proof -
  have miss: "cached_answer env cq primary body gw = (None, gw_cache gw)"
    using assms(2) by (simp add: cached_answer_def)
  obtain n where t: "try_block env pf cq key gw = forward_stage env pf cq key (request_estimate env primary body) blocked
      body (begin_request cq primary (request_estimate env primary body) body n (gw\<lparr>gw_cache := gw_cache gw\<rparr>))"
    using assms(1) miss by (rule try_block_forward)
  from assms(4) show ?thesis
  proof
    assume fin: "fin = Timed_out"
    show ?thesis
      using assms(5-7)
      unfolding serve_completion_def t fin
      by (subst (asm) forward_stage_chain(1) [OF assms(3) [unfolded fin] assms(2)])
        (auto simp: Let_def stream_tail_def stream_failure_def handle_escape_def logged_as_def mk_exn_def send_error_def
          is_provider_error_def record_cost_def call_of_def)
  next
    assume fin: "fin = Read_failed w"
    show ?thesis
      using assms(5-7)
      unfolding serve_completion_def t fin
      by (subst (asm) forward_stage_chain(1) [OF assms(3) [unfolded fin] assms(2)])
        (auto simp: Let_def stream_tail_def stream_failure_def handle_escape_def logged_as_def send_error_def)
  qed
qed

text \<open>
  Also: An upstream that resets the connection in the middle of a stream is taken for a client that left: the part that
  arrived is booked, charged and captured like a whole stream, and the client gets no error.
\<close>

theorem lost_stream_is_booked_as_complete:
  "stream_tail env cq key est blocked ws body chunks Connection_lost status provider model gw =
   stream_tail env cq key est blocked ws body chunks Complete status provider model gw"
  by (simp add: stream_tail_def stream_failure_def Let_def split: prod.split)

subsection \<open>A stream is booked like an answer\<close>

lemma record_cost_verifier:
  "record_cost cc i ok err (bk\<lparr>bk_verifier := tv\<rparr>) =
     (case record_cost cc i ok err bk of (e, bk') \<Rightarrow> (e, bk'\<lparr>bk_verifier := tv\<rparr>))"
  by (simp add: record_cost_def Let_def split: sum.split)

lemma book_verifier: "snd (book tx cc i (bk\<lparr>bk_verifier := tv\<rparr>)) = (snd (book tx cc i bk))\<lparr>bk_verifier := tv\<rparr>"
  by (simp add: book_def record_cost_verifier split: prod.split option.split)

lemma guarded_book_verifier:
  "guarded_book env cq key p m bl info (bk\<lparr>bk_verifier := tv\<rparr>) = (guarded_book env cq key p m bl info bk)\<lparr>bk_verifier := tv\<rparr>"
  by (simp add: guarded_book_def book_verifier split: sum.split option.split)

text \<open>The plain tail does to the books what \<open>finish_completion\<close> does, whose properties therefore hold of it.\<close>

lemma answer_tail_books:
  assumes "texts_of blocked = Some bs"
  shows "gw_books (rn_gw (answer_tail env cq key est blocked ws body d status provider model gw)) =
    snd (finish_completion (cm_text env) (cm_cost env) (call_of cq key provider model bs (cq_latency cq))
      (list_or_empty (dget body ''messages'' (JList []))) status d (gw_books gw))"
  using assms
  by (simp add: answer_tail_def finish_completion_def account_def guarded_book_def call_of_def capture_request_def Let_def
      split: prod.split sum.split)

text \<open>
  C9: One price for both ways to answer: a stream whose last event is the object of a plain answer, with its usage,
  leaves in the log, the budgets, the alerts and the local counts exactly what that plain answer leaves, however
  the stream was cut into chunks.
\<close>

theorem stream_is_booked_like_an_answer:
  assumes "extract_last_sse_chunk (fe_loads (ce_forward (cm_chain env))) (concat chunks) = Some (JObj d)"
    and "truthy (dget d ''usage'' JNull)" and "cq_client cq = Stays" and "gw_books gw2 = gw_books gw1"
    and "fst (verify (list_or_empty (dget body ''messages'' (JList []))) (dget d ''usage'' (JObj [])) (bk_verifier (gw_books gw1))) = Inr v"
  shows "\<exists>tv. gw_books (rn_gw (answer_tail env cq key est blocked ws body d status provider model gw1)) =
    (gw_books (rn_gw (stream_tail env cq key est blocked ws body' chunks Complete status provider model gw2)))\<lparr>bk_verifier := tv\<rparr>"
proof -
  have ne: "d \<noteq> []" using assms(2) by auto
  have info: "stream_info (cm_cost env) est provider model (Some (JObj d)) = calculate_cost (cm_cost env) provider model (Some d)"
    using assms(2) ne by (simp add: stream_info_def)
  obtain tv where v: "verify (list_or_empty (dget body ''messages'' (JList []))) (dget d ''usage'' (JObj []))
      (bk_verifier (gw_books gw1)) = (Inr v, tv)"
    using assms(5) by (metis prod.collapse)
  show ?thesis
    by (rule exI [of _ tv])
      (simp add: answer_tail_def stream_tail_def stream_failure_def v assms(1,3,4) info Let_def capture_request_def guarded_book_verifier
        split: sum.split)
qed

subsection \<open>What a repeated request finds in the cache\<close>

lemma handle_escape_cache [simp]: "gw_cache (snd (handle_escape cq key e gw)) = gw_cache gw"
  by (simp add: handle_escape_def Let_def split: option.split prod.split)

lemma serve_completion_cache:
  "gw_cache (snd (serve_completion env pf cq key gw)) = gw_cache (rn_gw (try_block env pf cq key gw))"
proof (cases "rn_escape (try_block env pf cq key gw)")
  case None
  then show ?thesis by (simp add: serve_completion_def Let_def)
next
  case (Some e)
  with handle_escape_cache [of cq key e "rn_gw (try_block env pf cq key gw)"] show ?thesis
    by (cases "handle_escape cq key e (rn_gw (try_block env pf cq key gw))") (simp add: serve_completion_def Let_def)
qed

lemma plain_tail_cache:
  "gw_cache (rn_gw (plain_tail env cq key est bl ws b j st p m gw)) =
     (case cache_set (cm_codec env) (cq_now cq) (cq_profile cq) m b j (gw_cache gw) of
        Inl e \<Rightarrow> gw_cache gw | Inr c \<Rightarrow> c)"
  by (simp add: plain_tail_def answer_tail_def capture_request_def Let_def split: sum.split json.split prod.split)

text \<open>What a lookup that misses leaves under its key: nothing, or a stored \<open>None\<close>.\<close>

lemma missed_lookup:
  assumes "\<not> truthy (dget body ''stream'' (JBool False))" and "cached_answer env cq primary body gw = (None, cache)"
  shows "map_option snd (map_of (pc_entries cache) (make_key (cm_codec env) (cq_profile cq) (st_model primary) body)) \<in> {None, Some JNull}"
    and "pc_max cache = pc_max (gw_cache gw)" and "pc_ttl cache = pc_ttl (gw_cache gw)"
  using assms
  by (auto simp: cached_answer_def cache_get_def Let_def dict_simps split: option.splits prod.splits if_splits)

lemma cache_set_entries:
  assumes "1 \<le> pc_max c"
  obtains c' where "cache_set cx now p m b v c = Inr c'"
    and "map_of (pc_entries c') (make_key cx p m b) = Some (now + pc_ttl c, v)"
    and "\<And>k. k \<noteq> make_key cx p m b \<Longrightarrow> map_of (pc_entries c') k \<in> {None, map_of (pc_entries c) k}"
proof -
  have ne: "pc_entries c \<noteq> []" if "pc_max c \<le> int (length (pc_entries c))"
    using assms that by auto
  obtain es where es: "(if pc_max c \<le> int (length (pc_entries c))
      then rbind (min_key fst (pc_entries c)) (\<lambda>oldest. Inr (AList.delete oldest (pc_entries c)))
      else Inr (pc_entries c)) = Inr es" and sub: "\<And>k. map_of es k \<in> {None, map_of (pc_entries c) k}"
  proof (cases "pc_max c \<le> int (length (pc_entries c))")
    case True
    then obtain old where "min_key fst (pc_entries c) = Inr old" using min_key_total [OF ne] by blast
    with True show ?thesis by (intro that [of "AList.delete old (pc_entries c)"]) (auto simp: dict_simps)
  qed (use that [of "pc_entries c"] in simp)
  show thesis
    by (rule that [of "c\<lparr>pc_entries := AList.update (make_key cx p m b) (now + pc_ttl c, v) es\<rparr>"])
      (use es sub in \<open>auto simp: cache_set_def dict_simps\<close>)
qed

lemma completion_is_cached:
  assumes "accepted pf cq primary blocked body" and "\<not> truthy (dget body ''stream'' (JBool False))"
    and "cached_answer env cq primary body gw = (None, cache)"
    and "chain_run env pf cq body gw = (Inr (Body j, status, provider, model), ws, st)"
  shows "gw_cache (snd (serve_completion env pf cq key gw)) =
    (case cache_set (cm_codec env) (cq_now cq) (cq_profile cq) model (ch_body st) j cache of Inl e \<Rightarrow> cache | Inr c \<Rightarrow> c)"
proof -
  obtain n where t: "try_block env pf cq key gw = forward_stage env pf cq key (request_estimate env primary body) blocked
      body (begin_request cq primary (request_estimate env primary body) body n (gw\<lparr>gw_cache := cache\<rparr>))"
    using assms(1,3) by (rule try_block_forward)
  show ?thesis
    unfolding serve_completion_cache t
    by (subst forward_stage_chain(2) [OF assms(4,2)]) (simp_all add: plain_tail_cache split: sum.split)
qed

lemma no_cache_reply_escape: "Cache_reply cost a \<notin> set (fst (handle_escape cq key e gw))"
  by (simp add: handle_escape_def Let_def split: option.split prod.split)

lemma no_cache_reply_forward: "Cache_reply cost a \<notin> set (rn_out (forward_stage env pf cq key est bl b gw))"
  by (auto simp: forward_stage_def stream_tail_def plain_tail_def answer_tail_def Let_def
      split: prod.split sum.split relay.split option.split json.split)

lemma no_cache_reply_run:
  "rn_out (try_block env pf cq key gw) = rn_out (forward_stage env pf cq key est bl b g) \<Longrightarrow>
   Cache_reply cost a \<notin> set (fst (serve_completion env pf cq key gw))"
  using no_cache_reply_escape no_cache_reply_forward [of cost a env pf cq key est bl b g]
  by (auto simp: serve_completion_def Let_def split: option.split prod.split) (metis fst_conv)

text \<open>A request is served from the cache exactly when the lookup finds something else than \<open>None\<close>.\<close>

lemma served_from_cache:
  assumes "accepted pf cq primary blocked body"
  shows "fst (cached_answer env cq primary body gw) = Some j \<Longrightarrow> \<exists>cost. fst (serve_completion env pf cq key gw) = [Cache_reply cost j]"
    and "fst (cached_answer env cq primary body gw) = None \<Longrightarrow> Cache_reply cost a \<notin> set (fst (serve_completion env pf cq key gw))"
proof -
  assume "fst (cached_answer env cq primary body gw) = Some j"
  then obtain cache where "cached_answer env cq primary body gw = (Some j, cache)" by (metis prod.collapse)
  with assms show "\<exists>cost. fst (serve_completion env pf cq key gw) = [Cache_reply cost j]"
    by (auto simp: accepted_def serve_completion_def try_block_def lookup_stage_def replied_def Let_def)
next
  assume "fst (cached_answer env cq primary body gw) = None"
  then obtain cache where "cached_answer env cq primary body gw = (None, cache)" by (metis prod.collapse)
  from assms this obtain n where "try_block env pf cq key gw = forward_stage env pf cq key (request_estimate env primary body) blocked
      body (begin_request cq primary (request_estimate env primary body) body n (gw\<lparr>gw_cache := cache\<rparr>))"
    by (rule try_block_forward)
  then show "Cache_reply cost a \<notin> set (fst (serve_completion env pf cq key gw))"
    by (intro no_cache_reply_run) simp
qed

text \<open>
  C18: The cache files an answer under the body the chain sent and the model that answered, and looks it up under
  the body the client sent and the first model of the chain.  So when a request that missed the cache, whatever else
  was in it, has been answered by a provider, the same request made next is served from the cache, with that answer,
  exactly when these two keys agree, the entry has not expired and the answer is not \<open>null\<close>.
\<close>

theorem repeat_hits_iff_sent_unchanged:
  assumes "accepted pf cq primary blocked body" and "\<not> truthy (dget body ''stream'' (JBool False))"
    and "fst (cached_answer env cq primary body gw) = None"
    and "chain_run env pf cq body gw = (Inr (Body j, status, provider, model), ws, st)"
    and "1 \<le> pc_max (gw_cache gw)"
    and "serve_completion env pf cq key gw = (outs, gw')"
    and "cq_profile cq' = cq_profile cq" and "cq_body cq' = cq_body cq"
  shows "if j \<noteq> JNull \<and> cq_now cq' \<le> cq_now cq + pc_ttl (gw_cache gw) \<and>
        make_key (cm_codec env) (cq_profile cq) (st_model primary) body =
          make_key (cm_codec env) (cq_profile cq) model (ch_body st)
     then \<exists>cost. fst (serve_completion env pf cq' key' gw') = [Cache_reply cost j]
     else \<forall>cost a. Cache_reply cost a \<notin> set (fst (serve_completion env pf cq' key' gw'))"
proof -
  let ?K = "make_key (cm_codec env) (cq_profile cq) (st_model primary) body"
  let ?F = "make_key (cm_codec env) (cq_profile cq) model (ch_body st)"
  obtain cache where miss: "cached_answer env cq primary body gw = (None, cache)"
    using assms(3) by (metis prod.collapse)
  note left = missed_lookup [OF assms(2) miss]
  obtain c where c: "cache_set (cm_codec env) (cq_now cq) (cq_profile cq) model (ch_body st) j cache = Inr c"
    and here: "map_of (pc_entries c) ?F = Some (cq_now cq + pc_ttl (gw_cache gw), j)"
    and rest: "\<And>k. k \<noteq> ?F \<Longrightarrow> map_of (pc_entries c) k \<in> {None, map_of (pc_entries cache) k}"
    using cache_set_entries [of cache "cm_codec env" "cq_now cq" "cq_profile cq" model "ch_body st" j] assms(5) left(2,3)
    by metis
  have cache': "gw_cache gw' = c"
    using completion_is_cached [OF assms(1,2) miss assms(4), of key] assms(6) c by simp
  have acc: "accepted pf cq' primary blocked body" using assms(1,8) by (simp add: accepted_def)
  have "fst (cached_answer env cq' primary body gw') =
      (if j \<noteq> JNull \<and> cq_now cq' \<le> cq_now cq + pc_ttl (gw_cache gw) \<and> ?K = ?F then Some j else None)"
  proof (cases "?K = ?F")
    case True
    with here show ?thesis
      using assms(2) by (auto simp: cached_answer_def cache_get_def cache' assms(7) Let_def)
  next
    case False
    with rest [OF False] left(1) show ?thesis
      using assms(2) by (auto simp: cached_answer_def cache_get_def cache' assms(7) Let_def split: option.splits prod.splits)
  qed
  then show ?thesis
    using served_from_cache [OF acc, of env gw'] by (auto split: if_splits)
qed

subsection \<open>Only authorised requests do anything\<close>

text \<open>
  The state with another key table, and the tables a request may leave before it is let in: only last-used stamps
  differ.
\<close>

definition with_keys :: "key_store \<Rightarrow> gateway_state \<Rightarrow> gateway_state" where
  "with_keys ks gw = gw\<lparr>gw_books := (gw_books gw)\<lparr>bk_billing := (bk_billing (gw_books gw))\<lparr>client_keys := ks\<rparr>\<rparr>\<rparr>"

definition stamps_only :: "key_store \<Rightarrow> key_store \<Rightarrow> bool" where
  "stamps_only ks ks' \<longleftrightarrow> legacy_file ks' = legacy_file ks \<and>
     map (\<lambda>k. k\<lparr>last_used_at := None\<rparr>) (key_rows ks') = map (\<lambda>k. k\<lparr>last_used_at := None\<rparr>) (key_rows ks)"

lemma validate_stamps_only: "stamps_only ks (snd (validate_key env now raw ks))"
  by (simp add: stamps_only_def validate_key_def Let_def map_update_first split: option.split)

lemma authenticate_changes_keys_only:
  "snd (authenticate env manager rc bl) = bl\<lparr>client_keys := client_keys (snd (authenticate env manager rc bl))\<rparr>"
  by (simp add: authenticate_def Let_def split: option.split prod.split)

lemma authenticate_stamps_only: "stamps_only (client_keys bl) (client_keys (snd (authenticate env manager rc bl)))"
proof -
  let ?v = "validate_key env (rc_now rc) (drop 7 (case rc_authorization rc of None \<Rightarrow> [] | Some h \<Rightarrow> h)) (client_keys bl)"
  obtain info ks where v: "?v = (info, ks)" by (cases ?v)
  have "stamps_only (client_keys bl) ks" using validate_stamps_only [of "client_keys bl"] v by (metis snd_conv)
  moreover have "stamps_only (client_keys bl) (client_keys bl)" by (simp add: stamps_only_def)
  ultimately show ?thesis by (cases info) (simp_all add: authenticate_def Let_def v)
qed

lemma admission_changes_keys_only:
  "\<exists>ks. stamps_only (client_keys bl) ks \<and> snd (admit_request env manager rc bl) = bl\<lparr>client_keys := ks\<rparr>"
proof -
  have "snd (admit_request env manager rc bl) = snd (authenticate env manager rc bl)"
    by (simp add: admit_request_def split: prod.split sum.split option.split)
  then show ?thesis using authenticate_changes_keys_only authenticate_stamps_only by metis
qed

lemma refused_changes_keys_only:
  assumes "\<And>key. fst (admit_request (cm_keys env) (cm_manager env) (ctx_of pf cq) (bk_billing (gw_books gw))) \<noteq> Admitted key"
    and "serve_profile env pf cq gw = (outs, gw')"
  shows "\<exists>ks. stamps_only (client_keys (bk_billing (gw_books gw))) ks \<and> gw' = with_keys ks gw"
proof -
  obtain a bl where ab: "admit_request (cm_keys env) (cm_manager env) (ctx_of pf cq) (bk_billing (gw_books gw)) = (a, bl)"
    by (cases "admit_request (cm_keys env) (cm_manager env) (ctx_of pf cq) (bk_billing (gw_books gw))")
  then obtain ks where ks: "bl = (bk_billing (gw_books gw))\<lparr>client_keys := ks\<rparr>"
    and st: "stamps_only (client_keys (bk_billing (gw_books gw))) ks"
    using admission_changes_keys_only [of "bk_billing (gw_books gw)" "cm_keys env" "cm_manager env" "ctx_of pf cq"] by auto
  from assms(2) ab assms(1) have "gw' = gw\<lparr>gw_books := (gw_books gw)\<lparr>bk_billing := bl\<rparr>\<rparr>"
    by (cases a) (auto simp: serve_profile_def split: prod.splits)
  with ks st show ?thesis by (auto simp: with_keys_def)
qed

text \<open>
  C2: For a profile that asks for authentication, a request that changes anything but last-used stamps of keys
  (calls a provider and so the breaker, the cache, the logs, the budgets, the alerts, the conversation store, or adds,
  removes, revokes or otherwise changes a key) carries the raw key of an active, unexpired key that may use the
  profile, and the key manager was there.
\<close>

theorem only_authorised_requests_have_effects:
  assumes "rows_ok (key_rows (client_keys (bk_billing (gw_books gw))))"
    and "truthy (case pf_auth pf of None \<Rightarrow> JBool True | Some v \<Rightarrow> v)"
    and "serve_profile env pf cq gw = (outs, gw')" and "\<forall>ks. stamps_only (client_keys (bk_billing (gw_books gw))) ks \<longrightarrow> gw' \<noteq> with_keys ks gw"
  shows "cm_manager env \<and> (\<exists>k \<in> set (key_rows (client_keys (bk_billing (gw_books gw)))). \<exists>token.
     cq_authorization cq = Some (''Bearer '' @ token) \<and> key_hash k = ke_hash (cm_keys env) token \<and>
     kstatus k = ''active'' \<and> \<not> expired_key (cm_keys env) (cq_now cq) k \<and> profile_allowed (cq_profile cq) (info_of k))"
proof -
  obtain key bl where "admit_request (cm_keys env) (cm_manager env) (ctx_of pf cq) (bk_billing (gw_books gw)) = (Admitted key, bl)"
    using refused_changes_keys_only [OF _ assms(3)] assms(4) by (metis prod.collapse)
  from admitted_cases [OF this] assms(2) obtain h info ks where m: "cm_manager env"
    and h: "cq_authorization cq = Some h" "starts_with h ''Bearer ''" and p: "profile_allowed (cq_profile cq) info"
    and v: "validate_key (cm_keys env) (cq_now cq) (drop 7 h) (client_keys (bk_billing (gw_books gw))) = (Some info, ks)"
    by (auto simp: ctx_of_def)
  obtain token where token: "h = ''Bearer '' @ token" using h(2) by (auto simp: starts_with_def prefix_def)
  then have drop: "drop 7 h = token" by simp
  obtain k where k: "k \<in> set (key_rows (client_keys (bk_billing (gw_books gw))))" "live_hash (ke_hash (cm_keys env) token) k"
    "\<not> expired_key (cm_keys env) (cq_now cq) k" "info = info_of k"
    using v unfolding drop by (rule validate_SomeE)
  with m h token p show ?thesis by (auto intro!: bexI [of _ k])
qed

section \<open>A demonstration\<close>

text \<open>One upstream that answers at once, as a stream or plainly, or stops half-way.\<close>

definition demo_loads :: "string \<Rightarrow> json option" where
  "demo_loads s = (if s = ''ok'' then Some (JObj [(''usage'', JObj demo_usage)]) else None)"

definition demo_upstream :: "read_end \<Rightarrow> chain_env" where
  "demo_upstream fin = demo_chain_env\<lparr>
     ce_forward := \<lparr>fe_credential = (\<lambda>p. None), fe_loads = demo_loads, fe_timeout_text = ''900''\<rparr>,
     ce_upstream := (\<lambda>n rq. Answer 200 [''ok''] fin)\<rparr>"

definition plain_request :: chain_request where
  "plain_request = \<lparr>cr_recall = (\<lambda>ms. None), cr_routing = False, cr_route = (\<lambda>b ch cb. Inr (ch, cb)),
     cr_preflight = (\<lambda>b ch. None)\<rparr>"

definition demo_completion_env :: "read_end \<Rightarrow> completion_env" where
  "demo_completion_env fin = \<lparr>cm_keys = demo_key_env, cm_manager = True, cm_text = demo_text, cm_cost = demo_cost_env,
     cm_codec = demo_codec, cm_tok = (\<lambda>s. None), cm_str = (\<lambda>j. ''tool''), cm_chain = demo_upstream fin,
     cm_request = plain_request\<rparr>"

definition demo_profile :: profile_cfg where
  "demo_profile = \<lparr>pf_chain = [step_b], pf_forbidden = Some [], pf_auth = None\<rparr>"

definition demo_question :: "bool \<Rightarrow> obj" where
  "demo_question stream = [(''messages'', JList [JObj [(''role'', JStr ''user''), (''content'', JStr ''hi'')]]),
     (''stream'', JBool stream)]"

definition demo_chat :: "bool \<Rightarrow> chat" where
  "demo_chat stream = \<lparr>cq_profile = ''default'', cq_authorization = Some ''Bearer lcp_ab'', cq_body = demo_question stream,
     cq_conversation = None, cq_token = ''t1'', cq_client = Stays, cq_now = 3, cq_stamp = ''now'', cq_today = ''day'',
     cq_latency = 5, cq_log_up = True, cq_db_up = True\<rparr>"

definition demo_gateway :: gateway_state where
  "demo_gateway = \<lparr>gw_books = demo_books, gw_cache = new_cache 60 10, gw_inflight = [], gw_breaker = new_breaker,
     gw_reasoning = new_reasoning_store 3600 10, gw_captured = []\<rparr>"

lemma demo_accepted: "accepted demo_profile (demo_chat stream) step_b [] (demo_question stream)"
  by (simp add: accepted_def demo_profile_def demo_chat_def demo_question_def strip_forbidden_tools_def tool_count_def)

lemma demo_prepared:
  "prepare_body False t m (demo_question stream) rs =
     Inr (AList.update ''messages'' (dget (demo_question stream) ''messages'' JNull)
       (AList.update ''model'' (JStr m) (demo_question stream)), rs)"
  by (simp add: prepare_body_def Let_def demo_question_def body_messages_def as_objs_def prepare_tools_def
      normalize_messages_for_cache_def normalize_message_def norm_content_def sanitize_messages_def has_calls_def is_tool_def
      ensure_thinking_reasoning_content_def)

lemma one_step_chain:
  assumes "cr_recall rq (dget body ''messages'' (JList [])) = None" and "\<not> cr_routing rq" and "cr_preflight rq body [s] = None"
    and "body_ok body" and "status_of (step_key env profile s) cb = Healthy"
    and "prepare_body (ce_thinking env (st_model s)) (ce_clock env 0) (ce_api_model env (st_provider s) (st_model s)) body rs =
      Inr (b, rs')"
    and "attempt env (st_provider s) (base_url_of env s) b 0 = (Inr (resp, status), n, ws)"
  shows "\<exists>st. try_chain env rq profile [s] body cb rs = (Inr (resp, status, st_provider s, st_model s), [], st) \<and> ch_body st = b"
proof -
  let ?st = "\<lparr>ch_body = body, ch_breaker = cb, ch_reasoning = rs, ch_calls = 0, ch_errors = []\<rparr>"
  have "try_step env profile 1 0 s [] ?st = call_step env profile 1 0 s [] ?st"
    using assms(4,5) by (intro try_step_healthy) simp_all
  then show ?thesis
    using assms by (simp add: try_chain_def routed_chain_def context_warning_def Let_def call_step_def)
qed

lemma demo_question_ok: "body_ok (demo_question stream)"
  by (simp add: body_ok_def demo_question_def msg_ok_def calls_ok_def)

lemma demo_attempt:
  "attempt ((demo_upstream fin)\<lparr>ce_session := s\<rparr>) ''beta'' url body 0 =
     (forward_request (ce_forward (demo_upstream fin)) ''beta'' url body s (\<lambda>r. Answer 200 [''ok''] fin), 1, [])"
  if "truthy (dget body ''stream'' (JBool False)) \<or> fin = Complete"
  using that
  by (auto simp: attempt_def call_with_retry_def demo_upstream_def demo_chain_env_def no_retry_def numeral_eq_Suc
      forward_request_def api_key_of_def provider_needs_key_def demo_loads_def)

definition demo_sent :: "bool \<Rightarrow> obj" where
  "demo_sent stream = AList.update ''messages'' (dget (demo_question stream) ''messages'' JNull)
     (AList.update ''model'' (JStr ''m2'') (demo_question stream))"

lemma demo_try_chain:
  assumes "stream \<or> fin = Complete"
  shows "\<exists>st. try_chain ((demo_upstream fin)\<lparr>ce_session := s\<rparr>) plain_request profile [step_b] (demo_question stream) new_breaker rs =
     (Inr (if stream then Stream [''ok''] fin else Body (JObj [(''usage'', JObj demo_usage)]), 200, ''beta'', ''m2''), [], st) \<and>
     ch_body st = demo_sent stream"
proof -
  let ?env = "(demo_upstream fin)\<lparr>ce_session := s\<rparr>"
  have prep: "prepare_body (ce_thinking ?env (st_model step_b)) (ce_clock ?env 0)
      (ce_api_model ?env (st_provider step_b) (st_model step_b)) (demo_question stream) rs = Inr (demo_sent stream, rs)"
    by (simp add: demo_upstream_def demo_chain_env_def demo_prepared demo_sent_def step_b_def)
  have field: "dget (demo_sent stream) ''stream'' (JBool False) = JBool stream"
    by (simp add: demo_sent_def demo_question_def)
  then have "attempt ?env ''beta'' (base_url_of ?env step_b) (demo_sent stream) 0 =
      (forward_request (ce_forward (demo_upstream fin)) ''beta'' (base_url_of ?env step_b) (demo_sent stream) s
        (\<lambda>r. Answer 200 [''ok''] fin), 1, [])"
    using assms by (intro demo_attempt) auto
  also have "\<dots> = (Inr (if stream then Stream [''ok''] fin else Body (JObj [(''usage'', JObj demo_usage)]), 200), 1, [])"
    using assms field
    by (auto simp: forward_request_def api_key_of_def provider_needs_key_def demo_upstream_def demo_loads_def)
  finally have "attempt ?env (st_provider step_b) (base_url_of ?env step_b) (demo_sent stream) 0 =
      (Inr (if stream then Stream [''ok''] fin else Body (JObj [(''usage'', JObj demo_usage)]), 200), 1, [])"
    by (simp add: step_b_def)
  with prep have "\<exists>st. try_chain ?env plain_request profile [step_b] (demo_question stream) new_breaker rs =
     (Inr (if stream then Stream [''ok''] fin else Body (JObj [(''usage'', JObj demo_usage)]), 200,
        st_provider step_b, st_model step_b), [], st) \<and> ch_body st = demo_sent stream"
    by (intro one_step_chain demo_question_ok)
      (simp_all add: plain_request_def status_of_def peek_def new_breaker_def default_health_def)
  then show ?thesis by (simp add: step_b_def)
qed

lemma demo_chain_run:
  assumes "stream \<or> fin = Complete"
  shows "\<exists>st. chain_run (demo_completion_env fin) demo_profile (demo_chat stream) (demo_question stream) demo_gateway =
     (Inr (if stream then Stream [''ok''] fin else Body (JObj [(''usage'', JObj demo_usage)]), 200, ''beta'', ''m2''), [], st) \<and>
     ch_body st = demo_sent stream"
  unfolding chain_run_def using demo_try_chain [OF assms]
  by (simp add: demo_completion_env_def demo_profile_def demo_gateway_def)

theorem broken_stream_is_not_charged_witness:
  "\<exists>hs d. fst (serve_completion (demo_completion_env Timed_out) demo_profile (demo_chat True) (Some 1) demo_gateway) =
     [Stream_reply 200 hs [''ok''], Json_reply 504 d]"
proof -
  let ?r = "serve_completion (demo_completion_env Timed_out) demo_profile (demo_chat True) (Some 1) demo_gateway"
  obtain st where c: "chain_run (demo_completion_env Timed_out) demo_profile (demo_chat True) (demo_question True) demo_gateway =
      (Inr (Stream [''ok''] Timed_out, 200, ''beta'', ''m2''), [], st)"
    using demo_chain_run [of True Timed_out] by auto
  have "?r = (fst ?r, snd ?r)" by simp
  from broken_stream_is_not_charged [where w = "[]", OF demo_accepted _ c disjI1 [OF refl] _ _ this]
  show ?thesis by (auto simp: demo_question_def demo_chat_def)
qed

theorem repeat_hits_iff_sent_unchanged_witness:
  "\<exists>cost. fst (serve_completion (demo_completion_env Complete) demo_profile (demo_chat False\<lparr>cq_now := 60\<rparr>) (Some 1)
     (snd (serve_completion (demo_completion_env Complete) demo_profile (demo_chat False) (Some 1) demo_gateway))) =
     [Cache_reply cost (JObj [(''usage'', JObj demo_usage)])]"
proof -
  let ?env = "demo_completion_env Complete"
  let ?r = "serve_completion ?env demo_profile (demo_chat False) (Some 1) demo_gateway"
  obtain st where c: "chain_run ?env demo_profile (demo_chat False) (demo_question False) demo_gateway =
      (Inr (Body (JObj [(''usage'', JObj demo_usage)]), 200, ''beta'', ''m2''), [], st)" and b: "ch_body st = demo_sent False"
    using demo_chain_run [of False Complete] by auto
  have same: "make_key demo_codec p m (demo_sent False) = make_key demo_codec p m (demo_question False)" for p m
    by (simp add: make_key_def demo_sent_def demo_question_def)
  have miss: "fst (cached_answer ?env (demo_chat False) step_b (demo_question False) demo_gateway) = None"
    by (simp add: cached_answer_def cache_get_def demo_gateway_def new_cache_def Let_def)
  have "?r = (fst ?r, snd ?r)" by simp
  from repeat_hits_iff_sent_unchanged [where cq' = "demo_chat False\<lparr>cq_now := 60\<rparr>" and key' = "Some 1",
      OF demo_accepted _ miss c _ this] b same
  show ?thesis
    by (simp add: demo_question_def demo_chat_def demo_gateway_def new_cache_def demo_completion_env_def step_b_def)
qed

theorem every_exit_deregisters_witness:
  "gw_inflight (snd (serve_completion (demo_completion_env Timed_out) demo_profile (demo_chat True) (Some 1) demo_gateway)) = []"
  using every_exit_deregisters [of "demo_chat True" demo_gateway "demo_completion_env Timed_out" demo_profile "Some 1"]
  by (simp add: demo_chat_def demo_gateway_def)

theorem every_request_is_answered_witness:
  "fst (serve_completion (demo_completion_env Timed_out) demo_profile (demo_chat True) None demo_gateway) \<noteq> []"
  using every_request_is_answered [OF _ prod.collapse [symmetric], of "demo_chat True" "demo_completion_env Timed_out" demo_profile None demo_gateway]
  by (auto simp: demo_chat_def)

lemma demo_completion_cached:
  "pc_entries (gw_cache (snd (serve_completion (demo_completion_env Complete) demo_profile (demo_chat False) key demo_gateway))) \<noteq> []"
proof -
  obtain st where r: "chain_run (demo_completion_env Complete) demo_profile (demo_chat False) (demo_question False) demo_gateway =
      (Inr (Body (JObj [(''usage'', JObj demo_usage)]), 200, ''beta'', ''m2''), [], st)"
    using demo_chain_run [of False Complete] by auto
  have miss: "cached_answer (demo_completion_env Complete) (demo_chat False) step_b (demo_question False) demo_gateway =
      (None, (gw_cache demo_gateway)\<lparr>pc_misses := 1\<rparr>)"
    by (simp add: cached_answer_def cache_get_def demo_gateway_def new_cache_def demo_question_def Let_def)
  from completion_is_cached [OF demo_accepted _ miss r] show ?thesis
    by (simp add: demo_question_def demo_gateway_def new_cache_def cache_set_def)
qed

lemma demo_data_lines: "data_lines ''data: ok'' = [''ok'']"
  by code_simp

theorem stream_is_booked_like_an_answer_witness:
  "\<exists>tv. gw_books (rn_gw (answer_tail (demo_completion_env Complete) (demo_chat True) None no_estimate [] []
       [(''messages'', JList demo_messages)] [(''usage'', JObj demo_usage)] 200 ''beta'' ''m2'' demo_gateway)) =
   (gw_books (rn_gw (stream_tail (demo_completion_env Complete) (demo_chat True) None no_estimate [] [] []
       [''data: o'', ''k''] Complete 200 ''beta'' ''m2'' demo_gateway)))\<lparr>bk_verifier := tv\<rparr>"
proof -
  obtain v where v: "fst (verify demo_messages (JObj demo_usage) new_verifier) = Inr v"
    using verify_numbers [OF refl _ demo_estimate, of demo_usage 1000 new_verifier] by (auto simp: demo_usage_def)
  show ?thesis
    by (rule stream_is_booked_like_an_answer [where v = v])
      (use v in \<open>simp_all add: extract_last_sse_chunk_def demo_data_lines demo_completion_env_def demo_upstream_def demo_loads_def
        demo_chat_def demo_gateway_def demo_books_def list_or_empty_def\<close>, simp add: demo_usage_def)
qed

text \<open>The demonstration request is let in with the key of the demonstration table.\<close>

lemma demo_ctx_of: "ctx_of demo_profile (demo_chat stream) = demo_ctx"
  by (simp add: ctx_of_def demo_profile_def demo_chat_def demo_ctx_def)

theorem only_authorised_requests_have_effects_witness:
  "\<exists>k \<in> set (key_rows demo_keys). kstatus k = ''active'' \<and> profile_allowed ''default'' (info_of k)"
proof -
  let ?env = "demo_completion_env Complete"
  obtain outs gw' where run: "serve_profile ?env demo_profile (demo_chat False) demo_gateway = (outs, gw')"
    by (cases "serve_profile ?env demo_profile (demo_chat False) demo_gateway")
  obtain bl where adm: "admit_request demo_key_env True demo_ctx (demo_billing [demo_budget]) = (Admitted (Some 1), bl)"
    using demo_admitted by (metis prod.collapse)
  let ?gw = "demo_gateway\<lparr>gw_books := demo_books\<lparr>bk_billing := bl\<rparr>\<rparr>"
  have served: "serve_completion ?env demo_profile (demo_chat False) (Some 1) ?gw = (outs, gw')"
    using run adm by (simp add: serve_profile_def demo_ctx_of demo_completion_env_def demo_gateway_def demo_books_def)
  obtain st where r: "chain_run ?env demo_profile (demo_chat False) (demo_question False) ?gw =
      (Inr (Body (JObj [(''usage'', JObj demo_usage)]), 200, ''beta'', ''m2''), [], st)"
    using demo_chain_run [of False Complete] by (auto simp: chain_run_def demo_gateway_def)
  have miss: "cached_answer ?env (demo_chat False) step_b (demo_question False) ?gw =
      (None, (gw_cache demo_gateway)\<lparr>pc_misses := 1\<rparr>)"
    by (simp add: cached_answer_def cache_get_def demo_gateway_def new_cache_def demo_question_def Let_def)
  have "pc_entries (gw_cache gw') \<noteq> []"
    using completion_is_cached [OF demo_accepted _ miss r, of "Some 1"] served
    by (simp add: demo_question_def demo_gateway_def new_cache_def cache_set_def)
  then have "\<forall>ks. stamps_only (client_keys (bk_billing (gw_books demo_gateway))) ks \<longrightarrow> gw' \<noteq> with_keys ks demo_gateway"
    by (auto simp: with_keys_def demo_gateway_def new_cache_def)
  from only_authorised_requests_have_effects [OF _ _ run this] show ?thesis
    by (auto simp: demo_gateway_def demo_books_def demo_billing_def demo_keys_ok demo_profile_def demo_chat_def)
qed

end
