(* ===== verification/Provider_Probe.thy ===== *)
theory Provider_Probe
  imports Json_Values Py_Text Py_Numbers "HOL-Library.Word"
begin

section \<open>Testing a provider and discovering its models (src/server/endpoints.py)\<close>

text \<open>
  The two endpoints that fetch an address the caller names: the guard against internal destinations, the request
  they build, the reading of the answer.  Addresses are words.  Arguments: \<open>urlparse\<close>, the name resolution
  (\<open>None\<close> when it fails), the reader of a network in CIDR notation, the fetch, \<open>json.loads\<close>, \<open>str\<close> of a
  value, the number formatting, the reads of the credential store, and what two plugins learn from hosts of their own.  The
  fields of a request have their declared types, an absent one is empty.  A dash in a message is a hyphen.
\<close>

subsection \<open>Addresses and networks\<close>

datatype ip = V4 "32 word" | V6 "128 word"

text \<open>A network: its address and the length of its prefix.\<close>

datatype ip_net = Net4 "32 word" nat | Net6 "128 word" nat

text \<open>\<open>ip in net\<close>: an address of the other version is in no network.\<close>

fun in_net :: "ip \<Rightarrow> ip_net \<Rightarrow> bool" where
  "in_net (V4 x) (Net4 b n) = (drop_bit (32 - n) x = drop_bit (32 - n) b)"
| "in_net (V6 x) (Net6 b n) = (drop_bit (128 - n) x = drop_bit (128 - n) b)"
| "in_net _ _ = False"

definition ip4 :: "nat \<Rightarrow> nat \<Rightarrow> nat \<Rightarrow> nat \<Rightarrow> 32 word" where
  "ip4 a b c d = of_nat (((a * 256 + b) * 256 + c) * 256 + d)"

text \<open>The first two groups of an IPv6 address, the others zero.\<close>

definition ip6 :: "nat \<Rightarrow> nat \<Rightarrow> 128 word" where
  "ip6 g h = of_nat ((g * 65536 + h) * 2 ^ 96)"

definition PRIVATE_NETWORKS :: "ip_net list" where
  "PRIVATE_NETWORKS =
    [Net4 (ip4 0 0 0 0) 8, Net4 (ip4 10 0 0 0) 8, Net4 (ip4 100 64 0 0) 10, Net4 (ip4 127 0 0 0) 8,
     Net4 (ip4 169 254 0 0) 16, Net4 (ip4 172 16 0 0) 12, Net4 (ip4 192 0 0 0) 24, Net4 (ip4 192 168 0 0) 16,
     Net4 (ip4 198 18 0 0) 15, Net4 (ip4 224 0 0 0) 4, Net4 (ip4 240 0 0 0) 4,
     Net6 1 128, Net6 0 128, Net6 (ip6 0xFC00 0) 7, Net6 (ip6 0xFE80 0) 10, Net6 (ip6 0xFF00 0) 8,
     Net6 (ip6 0x2001 0xDB8) 32]"

subsection \<open>The allowlist\<close>

text \<open>
  Whether the IPv4 loopback network lies in one of the networks: the comparison with a network of the other
  version raises.
\<close>

fun covers_loopback :: "ip_net list \<Rightarrow> bool res" where
  "covers_loopback [] = Inr False"
| "covers_loopback (Net4 b n # ns) =
     (if n \<le> 8 \<and> drop_bit (32 - n) (ip4 127 0 0 0) = drop_bit (32 - n) b then Inr True else covers_loopback ns)"
| "covers_loopback (Net6 b n # ns) = Inl TypeError"

definition allowed_networks :: "(string \<Rightarrow> ip_net option) \<Rightarrow> string \<Rightarrow> ip_net list" where
  "allowed_networks cidr text =
     List.map_filter (\<lambda>token. if strip token = [] then None else cidr (strip token)) (split_on (CHR '','') text)"

definition ssrf_allowlist :: "(string \<Rightarrow> ip_net option) \<Rightarrow> string \<Rightarrow> ip_net list res" where
  "ssrf_allowlist cidr text =
     (let networks = allowed_networks cidr text in
      rbind (covers_loopback networks) (\<lambda>b. Inr (if b then networks @ [Net6 1 128] else networks)))"

subsection \<open>The guard\<close>

record url_parts =
  up_scheme :: string
  up_netloc :: string
  up_host :: "string option"
  up_port :: "int option option" \<comment> \<open>outer \<open>None\<close>: reading the port raises\<close>

record guard_env =
  ge_parse :: "string \<Rightarrow> url_parts option" \<comment> \<open>\<open>None\<close>: raises\<close>
  ge_resolve :: "string \<Rightarrow> int \<Rightarrow> ip list option"
  ge_cidr :: "string \<Rightarrow> ip_net option"
  ge_allow :: string
  ge_show :: "ip \<Rightarrow> string"

definition squoted :: "string \<Rightarrow> string" where
  "squoted s = [CHR 0x27] @ s @ [CHR 0x27]"

definition refused_ip :: "ip_net list \<Rightarrow> ip \<Rightarrow> bool" where
  "refused_ip allow ip \<longleftrightarrow> list_ex (in_net ip) PRIVATE_NETWORKS \<and> \<not> list_ex (in_net ip) allow"

definition port_or_default :: "url_parts \<Rightarrow> int option \<Rightarrow> int" where
  "port_or_default u port = (case port of Some p \<Rightarrow> p | None \<Rightarrow> if up_scheme u = ''https'' then 443 else 80)"

text \<open>\<open>Inr None\<close>: the destination may be fetched.\<close>

definition validate_api_base_destination :: "guard_env \<Rightarrow> string \<Rightarrow> string option res" where
  "validate_api_base_destination g api_base =
     (case ge_parse g api_base of None \<Rightarrow> Inl ValueError | Some u \<Rightarrow>
      if up_scheme u \<notin> set [''http'', ''https'']
      then Inr (Some (''unsupported scheme '' @ squoted (if up_scheme u = [] then ''none'' else up_scheme u) @
        '' - only http/https are allowed''))
      else (case up_host u of
          None \<Rightarrow> Inr (Some ''missing host'')
        | Some host \<Rightarrow>
            if host = [] then Inr (Some ''missing host'')
            else (case up_port u of
                None \<Rightarrow> Inr (Some ''invalid port'')
              | Some port \<Rightarrow>
                  if (case port of None \<Rightarrow> False | Some p \<Rightarrow> \<not> (1 \<le> p \<and> p \<le> 65535)) then Inr (Some ''invalid port'')
                  else (case ge_resolve g host (port_or_default u port) of
                      None \<Rightarrow> Inr None
                    | Some ips \<Rightarrow>
                        rbind (ssrf_allowlist (ge_cidr g) (ge_allow g)) (\<lambda>allow.
                        Inr (map_option (\<lambda>ip. ''destination '' @ squoted host @ '' resolves to non-public address '' @ ge_show g ip)
                          (find (refused_ip allow) ips)))))))"

subsection \<open>The requests\<close>

record probe_env =
  pe_guard :: guard_env
  pe_loads :: "string \<Rightarrow> json option"
  pe_str :: "json \<Rightarrow> string"
  pe_fixed1 :: "real \<Rightarrow> string" \<comment> \<open>one decimal\<close>
  pe_key :: "string \<Rightarrow> string option"
  pe_cookie :: "string \<Rightarrow> string option"
  pe_workspace :: "string \<Rightarrow> string option"

record probe_body =
  pb_api_base :: string
  pb_api_key :: string
  pb_model :: string
  pb_provider :: string

type_synonym headers = "(string, string) dict"

definition rstrip_slash :: "string \<Rightarrow> string" where
  "rstrip_slash s = rev (dropWhile (\<lambda>c. c = CHR ''/'') (rev s))"

definition browser_headers :: "guard_env \<Rightarrow> string \<Rightarrow> headers" where
  "browser_headers g api_base =
     [(''User-Agent'', ''Mozilla/5.0 (Macintosh; Intel Mac OS X 10_15_7) AppleWebKit/537.36 (KHTML, like Gecko) Chrome/143.0.0.0 Safari/537.36''),
      (''Accept'', ''application/json, text/plain, */*''), (''Content-Type'', ''application/json'')] @
     (case ge_parse g api_base of
        None \<Rightarrow> []
      | Some u \<Rightarrow> if up_netloc u = [] then [] else
          (let origin = up_scheme u @ ''://'' @ up_netloc u in [(''Origin'', origin), (''Referer'', origin @ ''/'')]))"

definition resolved_key :: "probe_env \<Rightarrow> probe_body \<Rightarrow> string" where
  "resolved_key env b =
     (if pb_api_key b = [] \<and> pb_provider b \<noteq> [] then (case pe_key env (pb_provider b) of None \<Rightarrow> [] | Some k \<Rightarrow> k)
      else pb_api_key b)"

definition with_key :: "string \<Rightarrow> headers \<Rightarrow> headers" where
  "with_key k hs = (if k = [] then hs else AList.update ''Authorization'' (''Bearer '' @ k) hs)"

record outgoing =
  og_url :: string
  og_headers :: headers
  og_body :: "json option"

definition test_request :: "probe_env \<Rightarrow> probe_body \<Rightarrow> outgoing" where
  "test_request env b =
     (let base = rstrip_slash (pb_api_base b) in
      \<lparr>og_url = base @ ''/chat/completions'',
       og_headers = with_key (resolved_key env b) (browser_headers (pe_guard env) base),
       og_body = Some (JObj [(''model'', JStr (if pb_model b = [] then ''gpt-3.5-turbo'' else pb_model b)),
         (''messages'', JList [JObj [(''role'', JStr ''user''), (''content'', JStr ''hi'')]]),
         (''max_tokens'', JNum 5)])\<rparr>)"

text \<open>The cookie and the workspace are those of one fixed provider, whatever is asked.\<close>

definition discover_headers :: "probe_env \<Rightarrow> probe_body \<Rightarrow> headers" where
  "discover_headers env b =
     (let hs = with_key (resolved_key env b) (browser_headers (pe_guard env) (rstrip_slash (pb_api_base b)));
          cookie = (case pe_cookie env ''opencode'' of None \<Rightarrow> [] | Some c \<Rightarrow> c);
          ws = (case pe_workspace env ''opencode'' of None \<Rightarrow> [] | Some w \<Rightarrow> w);
          hs1 = (if cookie = [] then hs
            else AList.update ''Referer'' ''https://opencode.ai/'' (AList.update ''Origin'' ''https://opencode.ai''
              (AList.update ''Cookie'' cookie hs)))
      in if ws = [] then hs1 else AList.update ''X-Workspace-Id'' ws hs1)"

definition discover_urls :: "string \<Rightarrow> string list" where
  "discover_urls api_base = (api_base @ ''/models'') #
     (if contains (lower api_base) ''/v1'' then [] else [api_base @ ''/v1/models''])"

definition discover_requests :: "probe_env \<Rightarrow> probe_body \<Rightarrow> outgoing list" where
  "discover_requests env b = map (\<lambda>u. \<lparr>og_url = u, og_headers = discover_headers env b, og_body = None\<rparr>)
     (discover_urls (rstrip_slash (pb_api_base b)))"

text \<open>What both endpoints do first: the reply that ends the request, or leave to fetch.\<close>

definition admit_probe :: "guard_env \<Rightarrow> string \<Rightarrow> (nat \<times> obj) option res" where
  "admit_probe g base =
     (if base = [] then Inr (Some (400, [(''error'', JStr (''missing '' @ squoted ''api_base''))]))
      else rbind (validate_api_base_destination g base) (\<lambda>r. Inr (case r of
          None \<Rightarrow> None
        | Some reason \<Rightarrow>
            if reason = [] then None
            else Some (400, [(''error'', JStr (''api_base not allowed: '' @ reason))]))))"

subsection \<open>Reading an error answer\<close>

definition first_text :: "string list \<Rightarrow> string" where
  "first_text ts = (case filter (\<lambda>t. t \<noteq> []) ts of [] \<Rightarrow> [] | t # rest \<Rightarrow> t)"

text \<open>\<open>str(v or "")\<close>\<close>

definition str_or_empty :: "probe_env \<Rightarrow> json option \<Rightarrow> string" where
  "str_or_empty env v = (case v of
      None \<Rightarrow> []
    | Some (JStr s) \<Rightarrow> s
    | Some j \<Rightarrow> if truthy j then pe_str env j else [])"

text \<open>The message must be text; another true value fails later, when it is lowered.\<close>

definition error_fields :: "probe_env \<Rightarrow> string \<Rightarrow> (json \<times> string \<times> string)" where
  "error_fields env body =
     (let raw = (JStr (take 300 body), [], []) in
      case pe_loads env body of
        Some (JObj d) \<Rightarrow>
          (let e = dget d ''error'' JNull in
           case (if truthy e then e else JObj []) of
             JObj err \<Rightarrow> ((let m = dget err ''message'' JNull in if truthy m then m else JStr (take 300 body)),
               str_or_empty env (map_of err ''code''), str_or_empty env (map_of err ''type''))
           | _ \<Rightarrow> raw)
      | _ \<Rightarrow> raw)"

definition default_codes :: "nat \<Rightarrow> string \<times> string \<Rightarrow> string \<times> string" where
  "default_codes status ce =
     (if fst ce \<noteq> [] then ce
      else if status = 401 then (''authentication_error'', ''authentication_error'')
      else if status = 403 then (''upgrade_required'', ''permission_error'')
      else ce)"

definition or_text :: "string \<Rightarrow> string \<Rightarrow> string" where
  "or_text s d = (if s = [] then d else s)"

text \<open>The cases in the order of the code: message, code, type.\<close>

definition classify_message :: "string \<Rightarrow> string \<Rightarrow> string \<Rightarrow> nat \<Rightarrow> string \<times> string \<times> string" where
  "classify_message message ecode etype status =
     (let low = lower message in
      if ecode = ''unsupported_model'' \<or> contains low ''must be called via /provider/v1/messages'' \<or>
         contains low ''anthropic'' \<and> contains low ''messages''
      then (message @ '' - this model uses the Anthropic /provider/v1/messages shape, not /chat/completions.'',
            or_text ecode ''unsupported_model'', or_text etype ''invalid_request_error'')
      else if ecode = ''MODEL_NOT_IN_PLAN'' \<or> ecode = ''permission_error'' \<or> contains low ''model_not_in_plan'' \<or>
         contains low ''not in plan''
      then (''Model not available on your current plan: '' @ message @
            ''. Pick another model, upgrade your plan, or use extra on-demand usage.'',
            or_text ecode ''MODEL_NOT_IN_PLAN'', or_text etype ''permission_error'')
      else if ecode = ''authentication_error'' \<or> contains low ''authentication_error'' \<or> contains low ''invalid api key''
      then (''Authentication failed - check your API key.'', ''authentication_error'', or_text etype ''authentication_error'')
      else if ecode = ''upgrade_required'' \<or> contains low ''upgrade_required'' \<or> contains low ''provider plan''
      then (''API access requires the Command Code Provider plan or higher.'', ''upgrade_required'', or_text etype ''permission_error'')
      else if ecode = ''rate_limit_error'' \<or> contains low ''rate_limit_error'' \<or> status = 429
      then (''Rate limited by the provider - retry in a moment.'', ''rate_limit_error'', or_text etype ''rate_limit_error'')
      else (message, ecode, etype))"

definition friendly_provider_error :: "probe_env \<Rightarrow> nat \<Rightarrow> string \<Rightarrow> (string \<times> string \<times> string) res" where
  "friendly_provider_error env status body =
     (case error_fields env body of (message, ce) \<Rightarrow>
        (case message of
           JStr m \<Rightarrow> Inr (case default_codes status ce of (c, t) \<Rightarrow> classify_message m c t status)
         | _ \<Rightarrow> Inl AttributeError))"

text \<open>The answer of a block page; the body is in lower case.\<close>

definition CLOUDFLARE_MARKS :: "string list" where
  "CLOUDFLARE_MARKS = [''cloudflare'', ''error 1010'', ''error code: 1010'', ''error code 1010'', ''error code=1010'', ''ray id:'']"

definition is_cloudflare :: "string \<Rightarrow> bool" where
  "is_cloudflare low \<longleftrightarrow> list_ex (contains low) CLOUDFLARE_MARKS"

definition ray_sep :: "char \<Rightarrow> bool" where
  "ray_sep c \<longleftrightarrow> c = CHR '':'' \<or> is_space c"

definition ray_char :: "char \<Rightarrow> bool" where
  "ray_char c \<longleftrightarrow> CHR ''a'' \<le> c \<and> c \<le> CHR ''z'' \<or> is_digit c \<or> c = CHR ''-''"

text \<open>Separators, then the identifier, at the start of the text; the classes are disjoint, so greedy runs match.\<close>

definition ray_after :: "string \<Rightarrow> string option" where
  "ray_after s = (let run = takeWhile ray_char (dropWhile ray_sep s) in
     if takeWhile ray_sep s = [] \<or> run = [] then None else Some run)"

definition match_cf_ray :: "string \<Rightarrow> string option" where
  "match_cf_ray s = (if starts_with s ''cf-ray'' then ray_after (drop 6 s) else None)"

definition match_ray_id :: "string \<Rightarrow> string option" where
  "match_ray_id s = (if \<not> starts_with s ''ray'' then None
     else let t = dropWhile is_space (drop 3 s) in if starts_with t ''id'' then ray_after (drop 2 t) else None)"

fun search :: "(string \<Rightarrow> string option) \<Rightarrow> string \<Rightarrow> string option" where
  "search f [] = f []"
| "search f (c # cs) = (case f (c # cs) of Some x \<Rightarrow> Some x | None \<Rightarrow> search f cs)"

definition ray_id :: "string \<Rightarrow> string" where
  "ray_id low =
     (let first = (if contains low ''cf-ray'' then (case search match_cf_ray low of Some r \<Rightarrow> r | None \<Rightarrow> []) else [])
      in if first = [] \<and> contains low ''ray id:'' then (case search match_ray_id low of Some r \<Rightarrow> r | None \<Rightarrow> []) else first)"

text \<open>
  The headers of the error answer are read only when they are a plain dictionary, which those of \<open>urllib\<close> never
  are, so they do not occur here.
\<close>

definition http_error_reply :: "probe_env \<Rightarrow> nat \<Rightarrow> string \<Rightarrow> obj res" where
  "http_error_reply env status body =
     (let low = lower body; base = [(''ok'', JBool False), (''status'', JNum (of_nat status))] in
      if is_cloudflare low
      then Inr (base @ [(''error'', JStr (''Cloudflare block (error 1010) - the request was rejected at the '' @
          ''TLS layer because it does not appear to come from a real browser.''))] @
        (if ray_id low = [] then [] else [(''cf_ray'', JStr (ray_id low))]))
      else rbind (friendly_provider_error env status body) (\<lambda>(m, c, t).
        Inr (base @ [(''error'', JStr m)] @ (if c = [] then [] else [(''code'', JStr c)]) @
          (if t = [] then [] else [(''type'', JStr t)]))))"

subsection \<open>The test endpoint\<close>

datatype fetched_page = Page nat json | Http_failed nat string | Broken string

text \<open>\<open>attr_error\<close> is the text of the exception raised for an answer that is no object.\<close>

definition test_reply :: "probe_env \<Rightarrow> string \<Rightarrow> fetched_page \<Rightarrow> obj res" where
  "test_reply env attr_error r = (case r of
      Page status (JObj d) \<Rightarrow> Inr [(''ok'', JBool True), (''model'', dget d ''model'' (JStr ''unknown'')), (''status'', JNum (of_nat status))]
    | Page status j \<Rightarrow> Inr [(''ok'', JBool False), (''error'', JStr attr_error)]
    | Http_failed status body \<Rightarrow> http_error_reply env status body
    | Broken e \<Rightarrow> Inr [(''ok'', JBool False), (''error'', JStr e)])"

text \<open>The reply, and the requests sent out.\<close>

definition serve_provider_test ::
  "probe_env \<Rightarrow> string \<Rightarrow> (outgoing \<Rightarrow> fetched_page) \<Rightarrow> probe_body \<Rightarrow> (nat \<times> obj) res \<times> outgoing list" where
  "serve_provider_test env attr_error fetch b =
     (case admit_probe (pe_guard env) (rstrip_slash (pb_api_base b)) of
        Inl e \<Rightarrow> (Inl e, [])
      | Inr (Some reply) \<Rightarrow> (Inr reply, [])
      | Inr None \<Rightarrow>
          (let rq = test_request env b in
           (rbind (test_reply env attr_error (fetch rq)) (\<lambda>d. Inr (200, d)), [rq])))"

subsection \<open>The discovery endpoint\<close>

definition fmt_params :: "probe_env \<Rightarrow> json \<Rightarrow> json res" where
  "fmt_params env v = rbind (num_of v) (\<lambda>n. Inr (JStr
     (if 1000000000 \<le> n then pe_fixed1 env (n / 1000000000) @ ''B''
      else if 1000000 \<le> n then pe_fixed1 env (n / 1000000) @ ''M''
      else pe_str env v)))"

definition copy_field :: "(json \<Rightarrow> bool) \<Rightarrow> obj \<Rightarrow> string \<Rightarrow> string \<Rightarrow> obj \<Rightarrow> obj" where
  "copy_field ok d from to entry = (let v = dget d from JNull in if ok v then AList.update to v entry else entry)"

definition meta_fields :: "probe_env \<Rightarrow> json \<Rightarrow> obj \<Rightarrow> obj res" where
  "meta_fields env meta entry = (case meta of
      JObj d \<Rightarrow>
        (let e1 = copy_field truthy d ''n_ctx_train'' ''context_train'' (copy_field truthy d ''n_ctx'' ''context_length'' entry) in
         rbind (if truthy_opt (map_of d ''n_params'')
           then rbind (fmt_params env (dget d ''n_params'' JNull)) (\<lambda>t. Inr (AList.update ''parameters'' t e1)) else Inr e1) (\<lambda>e2.
         Inr (copy_field truthy d ''size'' ''size_bytes'' (copy_field truthy d ''ftype'' ''quantization'' e2))))
    | _ \<Rightarrow> Inr entry)"

definition details_fields :: "json \<Rightarrow> obj \<Rightarrow> obj" where
  "details_fields details entry = (case details of
      JObj d \<Rightarrow> copy_field truthy d ''quantization_level'' ''quantization''
        (copy_field truthy d ''parameter_size'' ''parameters'' entry)
    | _ \<Rightarrow> entry)"

definition model_entry :: "probe_env \<Rightarrow> json \<Rightarrow> obj res" where
  "model_entry env m = (case m of
      JObj d \<Rightarrow>
        (let name = (if truthy_opt (map_of d ''id'') then dget d ''id'' JNull
             else if truthy_opt (map_of d ''name'') then dget d ''name'' JNull else JStr (pe_str env m));
             e1 = fold (\<lambda>f. copy_field (\<lambda>v. v \<noteq> JNull) d f f) [''created'', ''owned_by'', ''object''] [(''id'', name)];
             e2 = fold (\<lambda>f. copy_field truthy d f f) [''context_length'', ''max_model_len''] e1
         in rbind (meta_fields env (dget d ''meta'' (JObj [])) e2) (\<lambda>e3.
            Inr (case dget d ''pricing'' JNull of
                JObj p \<Rightarrow> AList.update ''pricing'' (JObj p) (details_fields (dget d ''details'' (JObj [])) e3)
              | _ \<Rightarrow> details_fields (dget d ''details'' (JObj [])) e3)))
    | _ \<Rightarrow> Inr [(''id'', JStr (pe_str env m))])"

definition raw_models :: "json \<Rightarrow> json list res" where
  "raw_models result = (case result of
      JList ms \<Rightarrow> Inr ms
    | JObj d \<Rightarrow> Inr (case (let v = dget d ''data'' JNull in if truthy v then v else dget d ''models'' JNull) of
        JList ms \<Rightarrow> ms | _ \<Rightarrow> [])
    | _ \<Rightarrow> Inl AttributeError)"

definition models_payload :: "obj list \<Rightarrow> obj" where
  "models_payload models = [(''ok'', JBool True), (''models'', JList (map JObj models)),
     (''has_metadata'', JBool (list_ex (\<lambda>m. 1 < length m) models)), (''count'', JNum (of_nat (length models)))]"

text \<open>The plan of the one provider that has a billing interface: \<open>plan\<close> is its subscription, \<open>None\<close> when there is none to read.\<close>

definition enrich_plan :: "string \<Rightarrow> obj option \<Rightarrow> obj \<Rightarrow> obj" where
  "enrich_plan provider plan payload =
     (if provider \<noteq> ''commandcode'' then payload else case plan of
        None \<Rightarrow> payload
      | Some sub \<Rightarrow>
          (let p1 = (if truthy_opt (map_of sub ''plan_id'')
               then payload @ [(''plan_id'', dget sub ''plan_id'' JNull), (''plan_status'',
                 (let v = dget sub ''plan_status'' JNull in if truthy v then v else JStr []))] else payload)
           in if truthy_opt (map_of sub ''_error'')
              then p1 @ [(''plan_error'', (let v = dget sub ''detail'' JNull in if truthy v then v else dget sub ''_error'' JNull))]
              else p1))"

text \<open>The addresses are tried until one answers; the last error is kept beside the answer.\<close>

fun try_urls :: "(outgoing \<Rightarrow> fetched_page) \<Rightarrow> string option \<Rightarrow> outgoing list \<Rightarrow>
    json option \<times> string option \<times> outgoing list" where
  "try_urls fetch err [] = (None, err, [])"
| "try_urls fetch err (rq # rqs) =
     (let next = (\<lambda>e. case try_urls fetch (Some e) rqs of (r, err', sent) \<Rightarrow> (r, err', rq # sent)) in
      case fetch rq of
        Page status j \<Rightarrow> (Some j, err, [rq])
      | Http_failed status body \<Rightarrow> next (''HTTP '' @ show_nat status)
      | Broken e \<Rightarrow> next e)"

definition no_models :: "string option \<Rightarrow> obj" where
  "no_models err = [(''ok'', JBool False), (''error'', JStr (case err of
      None \<Rightarrow> ''no models endpoint found''
    | Some e \<Rightarrow> if e = [] then ''no models endpoint found'' else e))]"

text \<open>
  An answer \<open>null\<close> counts as none.  \<open>plan\<close> is the subscription the billing interface tells, with the requests sent
  to it.
\<close>

definition discover_generic ::
  "probe_env \<Rightarrow> obj option \<times> outgoing list \<Rightarrow> (outgoing \<Rightarrow> fetched_page) \<Rightarrow> probe_body \<Rightarrow> (nat \<times> obj) res \<times> outgoing list" where
  "discover_generic env plan fetch b =
     (case try_urls fetch None (discover_requests env b) of (result, err, sent) \<Rightarrow>
        (case result of
           None \<Rightarrow> (Inr (200, no_models err), sent)
         | Some j \<Rightarrow> if j = JNull then (Inr (200, no_models err), sent)
             else (case rbind (raw_models j) (rmap (model_entry env)) of
                 Inl e \<Rightarrow> (Inl e, sent)
               | Inr models \<Rightarrow> (Inr (200, enrich_plan (pb_provider b) (fst plan) (models_payload models)),
                   sent @ (if pb_provider b = ''commandcode'' then snd plan else [])))))"

text \<open>
  Discovery by a plugin.  Two plugins have one: the local server's (src/api/cost\_plugins/llamacpp.py), which asks the
  given address, and the console's, which asks its own host; \<open>console\<close> is what the latter finds, with its requests.
\<close>

definition llama_entry :: "probe_env \<Rightarrow> json \<Rightarrow> obj res" where
  "llama_entry env m = (case m of
      JObj d \<Rightarrow>
        (let name = (if truthy_opt (map_of d ''id'') then dget d ''id'' JNull
             else if truthy_opt (map_of d ''name'') then dget d ''name'' JNull else JStr (pe_str env m))
         in meta_fields env (dget d ''meta'' (JObj []))
              (fold (\<lambda>f. copy_field truthy d f f) [''created'', ''owned_by'', ''object''] [(''id'', name)]))
    | _ \<Rightarrow> Inr [(''id'', JStr (pe_str env m))])"

definition llama_models :: "probe_env \<Rightarrow> json \<Rightarrow> obj list res" where
  "llama_models env raw = (case raw of
      JObj d \<Rightarrow>
        (let data = dget d ''data'' JNull; models = dget d ''models'' JNull
         in rbind (py_iter (if truthy data then data else if truthy models then models else JList []))
              (rmap (llama_entry env)))
    | _ \<Rightarrow> Inl AttributeError)"

fun llama_discover :: "probe_env \<Rightarrow> (outgoing \<Rightarrow> fetched_page) \<Rightarrow> string list \<Rightarrow> obj list option \<times> outgoing list" where
  "llama_discover env fetch [] = (None, [])"
| "llama_discover env fetch (u # us) =
     (let rq = \<lparr>og_url = u, og_headers = [], og_body = None\<rparr>;
          next = (case llama_discover env fetch us of (r, sent) \<Rightarrow> (r, rq # sent))
      in case fetch rq of
           Page status j \<Rightarrow> (case llama_models env j of Inr models \<Rightarrow> (Some models, [rq]) | Inl e \<Rightarrow> next)
         | _ \<Rightarrow> next)"

definition plugin_discover ::
  "probe_env \<Rightarrow> obj list option \<times> outgoing list \<Rightarrow> (outgoing \<Rightarrow> fetched_page) \<Rightarrow> string \<Rightarrow> string \<Rightarrow>
   obj list option \<times> outgoing list" where
  "plugin_discover env console fetch provider base =
     (if provider = ''llamacpp'' then llama_discover env fetch (discover_urls base)
      else if provider = ''opencode'' then console
      else (None, []))"

definition serve_provider_discover ::
  "probe_env \<Rightarrow> obj list option \<times> outgoing list \<Rightarrow> obj option \<times> outgoing list \<Rightarrow> (outgoing \<Rightarrow> fetched_page) \<Rightarrow> probe_body \<Rightarrow>
   (nat \<times> obj) res \<times> outgoing list" where
  "serve_provider_discover env console plan fetch b =
     (let base = rstrip_slash (pb_api_base b) in
      case admit_probe (pe_guard env) base of
        Inl e \<Rightarrow> (Inl e, [])
      | Inr (Some reply) \<Rightarrow> (Inr reply, [])
      | Inr None \<Rightarrow>
          (case plugin_discover env console fetch (pb_provider b) base of
             (Some models, sent) \<Rightarrow> (Inr (200, models_payload models), sent)
           | (None, sent) \<Rightarrow> (case discover_generic env plan fetch b of (reply, sent') \<Rightarrow> (reply, sent @ sent'))))"

section \<open>What the guard keeps out, and what it does not\<close>

subsection \<open>Networks in numbers\<close>

lemma drop_bit_unat: "drop_bit k x = drop_bit k y \<longleftrightarrow> unat x div 2 ^ k = unat y div 2 ^ k"
  for x y :: "'a::len word"
  unfolding word_unat_eq_iff unat_drop_bit_eq by (simp add: drop_bit_eq_div)

lemma unat_ip4: "a < 256 \<Longrightarrow> b < 256 \<Longrightarrow> c < 256 \<Longrightarrow> d < 256 \<Longrightarrow> unat (ip4 a b c d) = ((a * 256 + b) * 256 + c) * 256 + d"
  unfolding ip4_def unsigned_of_nat take_bit_eq_mod by simp

text \<open>The internal addresses by their first octets.\<close>

definition internal4 :: "32 word \<Rightarrow> bool" where
  "internal4 x \<longleftrightarrow>
     (let a = unat x div 2 ^ 24; b = unat x div 2 ^ 16 mod 256; c = unat x div 2 ^ 8 mod 256 in
      a = 0 \<or> a = 10 \<or> a = 127 \<or> a = 100 \<and> 64 \<le> b \<and> b < 128 \<or> a = 169 \<and> b = 254 \<or>
      a = 172 \<and> 16 \<le> b \<and> b < 32 \<or> a = 192 \<and> b = 0 \<and> c = 0 \<or> a = 192 \<and> b = 168 \<or>
      a = 198 \<and> (b = 18 \<or> b = 19) \<or> 224 \<le> a)"

lemma octets:
  fixes n :: nat
  defines "p \<equiv> n div 2 ^ 8"
  shows "n div 2 ^ 24 = p div 256 div 256" and "n div 2 ^ 16 = p div 256" and "n div 2 ^ 22 = p div 256 div 64"
    and "n div 2 ^ 20 = p div 256 div 16" and "n div 2 ^ 17 = p div 256 div 2" and "n div 2 ^ 28 = p div 256 div 256 div 16"
  by (simp_all add: p_def flip: div_mult2_eq)

lemma in_net4:
  "a < 256 \<Longrightarrow> b < 256 \<Longrightarrow> c < 256 \<Longrightarrow>
   in_net (V4 x) (Net4 (ip4 a b c 0) n) \<longleftrightarrow> unat x div 2 ^ (32 - n) = ((a * 256 + b) * 256 + c) * 256 div 2 ^ (32 - n)"
  by (simp add: drop_bit_unat unat_ip4)

lemma octet_cases:
  fixes q :: nat
  shows "q div 256 = 100 \<and> 64 \<le> q mod 256 \<and> q mod 256 < 128 \<Longrightarrow> q div 64 = 401"
    and "q div 256 = 169 \<and> q mod 256 = 254 \<Longrightarrow> q = 43518"
    and "q div 256 = 172 \<and> 16 \<le> q mod 256 \<and> q mod 256 < 32 \<Longrightarrow> q div 16 = 2753"
    and "q div 256 = 192 \<and> q mod 256 = 0 \<Longrightarrow> q = 49152"
    and "q div 256 = 192 \<and> q mod 256 = 168 \<Longrightarrow> q = 49320"
    and "q div 256 = 198 \<and> (q mod 256 = 18 \<or> q mod 256 = 19) \<Longrightarrow> q div 2 = 25353"
    and "224 \<le> q div 256 \<Longrightarrow> q div 256 < 256 \<Longrightarrow> q div 256 div 16 = 14 \<or> q div 256 div 16 = 15"
  using mult_div_mod_eq [of 256 q] by (auto intro!: div_nat_eqI)

lemma internal4_listed: "internal4 x \<Longrightarrow> list_ex (in_net (V4 x)) PRIVATE_NETWORKS"
proof -
  define p where "p = unat x div 2 ^ 8"
  define q where "q = p div 256"
  have a: "unat x div 2 ^ 24 = q div 256" and b: "unat x div 2 ^ 16 mod 256 = q mod 256"
    and c: "unat x div 2 ^ 8 mod 256 = p mod 256" and pq: "p = q * 256 + p mod 256"
    unfolding octets q_def p_def by simp_all
  have nums: "unat x div 16777216 = q div 256" "unat x div 65536 = q" "unat x div 4194304 = q div 64"
    "unat x div 1048576 = q div 16" "unat x div 131072 = q div 2" "unat x div 268435456 = q div 256 div 16"
    "unat x div 256 = p"
    unfolding q_def p_def by (simp_all flip: div_mult2_eq)
  assume "internal4 x"
  then have "q div 256 = 0 \<or> q div 256 = 10 \<or> q div 256 = 127 \<or> q div 256 = 100 \<and> 64 \<le> q mod 256 \<and> q mod 256 < 128 \<or>
      q div 256 = 169 \<and> q mod 256 = 254 \<or> q div 256 = 172 \<and> 16 \<le> q mod 256 \<and> q mod 256 < 32 \<or>
      q div 256 = 192 \<and> q mod 256 = 0 \<and> p mod 256 = 0 \<or> q div 256 = 192 \<and> q mod 256 = 168 \<or>
      q div 256 = 198 \<and> (q mod 256 = 18 \<or> q mod 256 = 19) \<or> 224 \<le> q div 256"
    unfolding internal4_def Let_def a b c .
  moreover have "q div 256 < 256"
  proof -
    have "unat x < 2 ^ 32" using unsigned_less [of x] by simp
    then have "unat x div 2 ^ 24 < 256" by (intro less_mult_imp_div_less) simp
    then show ?thesis unfolding a .
  qed
  moreover have "q = 49152 \<and> p mod 256 = 0 \<Longrightarrow> p = 12582912"
    using pq by simp
  ultimately have "q div 256 = 0 \<or> q div 256 = 10 \<or> q div 256 = 127 \<or>
      q div 64 = 401 \<or> q = 43518 \<or> q div 16 = 2753 \<or> p = 12582912 \<or> q = 49320 \<or>
      q div 2 = 25353 \<or> q div 256 div 16 = 14 \<or> q div 256 div 16 = 15"
    using octet_cases [of q] by argo
  then show ?thesis
    unfolding PRIVATE_NETWORKS_def
    by (simp add: in_net4 nums del: in_net.simps) argo
qed

subsection \<open>The guard\<close>

lemma public_only: "ge_allow g = [] \<Longrightarrow> ssrf_allowlist (ge_cidr g) (ge_allow g) = Inr []"
  by (simp add: ssrf_allowlist_def allowed_networks_def strip_def lstrip_def List.map_filter_def)

lemma admitted_ips:
  assumes "validate_api_base_destination g base = Inr None" and "ge_parse g base = Some u" and "up_host u = Some host"
    and "up_port u = Some port" and "ge_resolve g host (port_or_default u port) = Some ips"
    and "ssrf_allowlist (ge_cidr g) (ge_allow g) = Inr allow" and "ip \<in> set ips"
  shows "\<not> refused_ip allow ip"
proof -
  have "find (refused_ip allow) ips = None"
    using assms(1-6) by (auto simp: validate_api_base_destination_def split: if_splits)
  with assms(7) show ?thesis by (simp add: find_None_iff)
qed

lemma probe_admitted:
  assumes "snd (serve_provider_test env ae fetch b) \<noteq> [] \<or> snd (serve_provider_discover env console plan fetch b) \<noteq> []"
  shows "validate_api_base_destination (pe_guard env) (rstrip_slash (pb_api_base b)) = Inr None \<or>
    validate_api_base_destination (pe_guard env) (rstrip_slash (pb_api_base b)) = Inr (Some [])"
proof -
  have "admit_probe (pe_guard env) (rstrip_slash (pb_api_base b)) = Inr None"
    using assms by (auto simp: serve_provider_test_def serve_provider_discover_def Let_def split: sum.splits option.splits)
  then show ?thesis
    by (cases "validate_api_base_destination (pe_guard env) (rstrip_slash (pb_api_base b))")
      (auto simp: admit_probe_def split: if_splits option.splits)
qed

text \<open>A reason is never the empty text.\<close>

lemma reason_not_empty: "validate_api_base_destination g base \<noteq> Inr (Some [])"
  by (auto simp: validate_api_base_destination_def squoted_def rbind_eq_Inr split: option.splits if_splits)

text \<open>
  C23: With no allowlist, neither endpoint sends any request, those of a plugin's own discovery included, for an
  address whose host resolves, at the check, to an internal IPv4 address (unspecified, private, loopback, link-local
  with the metadata service, shared, benchmark, multicast or reserved), whatever the other addresses of the host are.
\<close>

theorem probes_stay_outside:
  assumes "ge_allow (pe_guard env) = []"
    and "snd (serve_provider_test env ae fetch b) \<noteq> [] \<or> snd (serve_provider_discover env console plan fetch b) \<noteq> []"
    and "ge_parse (pe_guard env) (rstrip_slash (pb_api_base b)) = Some u" and "up_host u = Some host" and "up_port u = Some port"
    and "ge_resolve (pe_guard env) host (port_or_default u port) = Some ips" and "V4 x \<in> set ips"
  shows "\<not> internal4 x"
proof
  assume "internal4 x"
  then have "list_ex (in_net (V4 x)) PRIVATE_NETWORKS" by (rule internal4_listed)
  moreover have "validate_api_base_destination (pe_guard env) (rstrip_slash (pb_api_base b)) = Inr None"
    using probe_admitted [OF assms(2)] reason_not_empty by blast
  ultimately show False
    using admitted_ips [OF _ assms(3-6) public_only [OF assms(1)] assms(7)] by (simp add: refused_ip_def)
qed

subsection \<open>Ways around it\<close>

text \<open>The IPv6 address that stands for an IPv4 address.\<close>

definition mapped :: "32 word \<Rightarrow> ip" where
  "mapped x = V6 (of_nat (0xFFFF * 2 ^ 32 + unat x))"

lemma mapped_in_no_network: "\<not> list_ex (in_net (mapped x)) PRIVATE_NETWORKS"
proof -
  define v :: "128 word" where "v = of_nat (0xFFFF * 2 ^ 32 + unat x)"
  have x: "unat x < 2 ^ 32" using unsigned_less [of x] by simp
  then have m: "unat v = 0xFFFF * 2 ^ 32 + unat x"
    unfolding v_def unsigned_of_nat take_bit_eq_mod by simp
  have six: "unat (ip6 g h) = (g * 65536 + h) * 2 ^ 96" if "g < 65536" "h < 65536" for g h
  proof -
    have "g * 65536 + h < 2 ^ 32" using that by simp
    then have "(g * 65536 + h) * 2 ^ 96 < 2 ^ 128" by simp
    then show ?thesis unfolding ip6_def unsigned_of_nat take_bit_eq_mod by simp
  qed
  have small: "(0xFFFF * 2 ^ 32 + unat x) div 2 ^ k = 0" if "48 \<le> k" for k
  proof -
    have "0xFFFF * 2 ^ 32 + unat x < 2 ^ 48" using x by simp
    also have "\<dots> \<le> 2 ^ k" using that by (intro power_increasing) simp_all
    finally show ?thesis by simp
  qed
  have "in_net (mapped x) (Net6 b n) \<longleftrightarrow> (0xFFFF * 2 ^ 32 + unat x) div 2 ^ (128 - n) = unat b div 2 ^ (128 - n)" for b n
    unfolding mapped_def v_def [symmetric] in_net.simps drop_bit_unat m ..
  moreover have "\<not> in_net (mapped x) (Net4 b n)" for b n
    by (simp add: mapped_def)
  ultimately show ?thesis
    unfolding PRIVATE_NETWORKS_def 
    by (simp add: six small [of 121, simplified] small [of 118, simplified] small [of 120, simplified] small [of 96, simplified])
qed

text \<open>
  Also: The guard does not know IPv4 addresses in IPv6 form: a host that resolves to the mapped form of any IPv4
  address, the loopback and the metadata service included, is admitted with no allowlist at all, and the test
  endpoint sends its request there.
\<close>

theorem mapped_addresses_pass:
  assumes "ge_allow (pe_guard env) = []" and "rstrip_slash (pb_api_base b) \<noteq> []"
    and "ge_parse (pe_guard env) (rstrip_slash (pb_api_base b)) = Some u" and "up_scheme u = ''http''"
    and "up_host u = Some host" and "host \<noteq> []" and "up_port u = Some None"
    and "ge_resolve (pe_guard env) host 80 = Some [mapped x]"
  shows "snd (serve_provider_test env ae fetch b) = [test_request env b]"
proof -
  have "\<not> refused_ip [] (mapped x)"
    using mapped_in_no_network by (simp add: refused_ip_def)
  then have "validate_api_base_destination (pe_guard env) (rstrip_slash (pb_api_base b)) = Inr None"
    using assms public_only [OF assms(1)] by (simp add: validate_api_base_destination_def port_or_default_def)
  then show ?thesis
    using assms(2) by (simp add: serve_provider_test_def admit_probe_def Let_def)
qed

text \<open>
  Also: A network of version 6 in the allowlist, unless one that contains the IPv4 loopback comes before it, makes the
  guard raise for every host that resolves: the comparison of networks of different versions is an error.
\<close>

theorem ipv6_allowlist_breaks_the_guard:
  assumes "allowed_networks (ge_cidr g) (ge_allow g) = Net6 b n # nets"
    and "ge_parse g base = Some u" and "up_scheme u = ''http'' \<or> up_scheme u = ''https''" and "up_host u = Some host" and "host \<noteq> []"
    and "up_port u = Some None" and "ge_resolve g host (port_or_default u None) = Some ips"
  shows "validate_api_base_destination g base = Inl TypeError"
  using assms by (auto simp: validate_api_base_destination_def ssrf_allowlist_def)

text \<open>
  Also: The stored key of a provider is sent wherever the caller says: a test that names a provider and gives an
  address of the caller's choice, but no key, sends that address the key in the credential store.
\<close>

theorem stored_key_goes_where_the_caller_says:
  assumes "pb_api_key b = []" and "pb_provider b \<noteq> []" and "pe_key env (pb_provider b) = Some k" and "k \<noteq> []"
    and "snd (serve_provider_test env ae fetch b) \<noteq> []"
  shows "\<exists>rq. snd (serve_provider_test env ae fetch b) = [rq] \<and>
    og_url rq = rstrip_slash (pb_api_base b) @ ''/chat/completions'' \<and>
    map_of (og_headers rq) ''Authorization'' = Some (''Bearer '' @ k)"
  using assms
  by (auto simp: serve_provider_test_def Let_def test_request_def resolved_key_def with_key_def update_conv'
      split: sum.splits option.splits)

subsection \<open>A demonstration\<close>

definition demo_url :: url_parts where
  "demo_url = \<lparr>up_scheme = ''http'', up_netloc = ''h'', up_host = Some ''h'', up_port = Some None\<rparr>"

definition demo_guard :: "ip list \<Rightarrow> guard_env" where
  "demo_guard ips = \<lparr>ge_parse = (\<lambda>u. Some demo_url),
     ge_resolve = (\<lambda>h p. Some ips), ge_cidr = (\<lambda>t. if t = ''fc00::/7'' then Some (Net6 (ip6 0xFC00 0) 7) else None),
     ge_allow = [], ge_show = (\<lambda>i. ''ip'')\<rparr>"

definition demo_probe :: "ip list \<Rightarrow> probe_env" where
  "demo_probe ips = \<lparr>pe_guard = demo_guard ips, pe_loads = (\<lambda>s. None), pe_str = (\<lambda>j. ''v''), pe_fixed1 = (\<lambda>x. ''1.0''),
     pe_key = (\<lambda>p. Some ''sk-stored''), pe_cookie = (\<lambda>p. None), pe_workspace = (\<lambda>p. None)\<rparr>"

definition demo_probe_body :: probe_body where
  "demo_probe_body = \<lparr>pb_api_base = ''http://h'', pb_api_key = [], pb_model = [], pb_provider = ''deepseek''\<rparr>"

lemma demo_base: "rstrip_slash ''http://h'' = ''http://h''"
  by (simp add: rstrip_slash_def)

theorem mapped_addresses_pass_witness:
  "snd (serve_provider_test (demo_probe [mapped (ip4 127 0 0 1)]) [] (\<lambda>r. Broken []) demo_probe_body) =
     [test_request (demo_probe [mapped (ip4 127 0 0 1)]) demo_probe_body]"
  by (rule mapped_addresses_pass [where u = demo_url and host = "''h''" and x = "ip4 127 0 0 1"])
    (simp_all add: demo_url_def demo_probe_def demo_guard_def demo_probe_body_def demo_base)

lemma public_address: "validate_api_base_destination (demo_guard [V4 (ip4 8 8 8 8)]) ''http://h'' = Inr None"
proof -
  have "\<not> list_ex (in_net (V4 (ip4 8 8 8 8))) PRIVATE_NETWORKS"
    unfolding PRIVATE_NETWORKS_def by (simp add: drop_bit_unat unat_ip4)
  moreover have "ssrf_allowlist (ge_cidr (demo_guard [V4 (ip4 8 8 8 8)])) [] = Inr []"
    using public_only [of "demo_guard [V4 (ip4 8 8 8 8)]"] by (simp add: demo_guard_def)
  ultimately show ?thesis
    by (simp add: validate_api_base_destination_def demo_url_def demo_guard_def port_or_default_def refused_ip_def)
qed

lemma demo_test_sends:
  "snd (serve_provider_test (demo_probe [V4 (ip4 8 8 8 8)]) [] fetch demo_probe_body) \<noteq> []"
  using public_address
  by (simp add: serve_provider_test_def admit_probe_def demo_probe_body_def demo_base demo_probe_def Let_def)

theorem probes_stay_outside_witness: "\<not> internal4 (ip4 8 8 8 8)"
  by (rule probes_stay_outside [where u = demo_url and host = "''h''" and port = None and ips = "[V4 (ip4 8 8 8 8)]",
      OF _ disjI1 [OF demo_test_sends]])
    (simp_all add: demo_url_def demo_probe_def demo_guard_def demo_probe_body_def demo_base)

theorem stored_key_goes_where_the_caller_says_witness:
  "\<exists>rq. snd (serve_provider_test (demo_probe [V4 (ip4 8 8 8 8)]) [] (\<lambda>r. Broken []) demo_probe_body) = [rq] \<and>
    og_url rq = ''http://h/chat/completions'' \<and> map_of (og_headers rq) ''Authorization'' = Some ''Bearer sk-stored''"
  using stored_key_goes_where_the_caller_says [OF _ _ _ _ demo_test_sends, of "''sk-stored''" "\<lambda>r. Broken []"]
  by (simp add: demo_probe_body_def demo_probe_def demo_base)

theorem ipv6_allowlist_breaks_the_guard_witness:
  "validate_api_base_destination ((demo_guard [V4 (ip4 8 8 8 8)])\<lparr>ge_allow := ''fc00::/7''\<rparr>) ''http://h'' = Inl TypeError"
proof -
  have "strip ''fc00::/7'' = ''fc00::/7''" "split_on (CHR '','') ''fc00::/7'' = [''fc00::/7'']"
    by code_simp+
  then have "allowed_networks (ge_cidr (demo_guard [V4 (ip4 8 8 8 8)])) ''fc00::/7'' = [Net6 (ip6 0xFC00 0) 7]"
    by (simp add: allowed_networks_def List.map_filter_def demo_guard_def)
  then show ?thesis
    by (intro ipv6_allowlist_breaks_the_guard [where u = demo_url and host = "''h''" and nets = "[]" and
      b = "ip6 0xFC00 0" and n = 7 and ips = "[V4 (ip4 8 8 8 8)]"])
      (simp_all add: demo_url_def demo_guard_def)
qed

end
