(* ===== verification/Settings_Api.thy ===== *)
theory Settings_Api
  imports Router Cost_Cache Gateway_Config
begin

section \<open>The settings and routing endpoints (src/server/endpoints.py)\<close>

text \<open>
  The rules an administrator may store, and the endpoints that change the routing settings and the time to live of
  the account cache.  The settings table maps keys to text; the JSON reader and writer, the float reader and the
  printers of numbers are arguments.  A request body is an object.  The settings store and the refresher exist, and
  database writes succeed.  The snapshot of the router that the routing endpoints send back is left out: it is
  \<open>Inr None\<close>.
\<close>

record settings_env =
  se_float :: "string \<Rightarrow> real option"
  se_show_float :: "real \<Rightarrow> string"
  se_show_int :: "int \<Rightarrow> string"
  se_str :: "json \<Rightarrow> string"
  se_loads :: "string \<Rightarrow> json option"
  se_dumps :: "json \<Rightarrow> string"

type_synonym 's handled = "'s \<times> (nat \<times> obj) option res"

definition error_reply :: "string \<Rightarrow> (nat \<times> obj) option res" where
  "error_reply message = Inr (Some (400, [(''error'', JStr message)]))"

text \<open>\<open>float(v)\<close> on a decoded value, and \<open>(body.get(k) or "").strip()\<close>.\<close>

fun float_of_json :: "(string \<Rightarrow> real option) \<Rightarrow> json \<Rightarrow> real res" where
  "float_of_json rd (JStr s) = (case rd s of None \<Rightarrow> Inl ValueError | Some x \<Rightarrow> Inr x)"
| "float_of_json rd v = num_of v"

definition text_field :: "obj \<Rightarrow> string \<Rightarrow> string res" where
  "text_field body k = (case dget body k JNull of
      JStr s \<Rightarrow> Inr (strip s)
    | v \<Rightarrow> if truthy v then Inl AttributeError else Inr [])"

subsection \<open>Routing rules\<close>

datatype task_key = OneTask string | TaskTuple "string list"

definition star_text :: "settings_env \<Rightarrow> json option \<Rightarrow> string" where
  "star_text env v =
     (let t = strip (case v of None \<Rightarrow> ''*''
        | Some (JStr s) \<Rightarrow> if s = [] then ''*'' else s
        | Some j \<Rightarrow> if truthy j then se_str env j else ''*'')
      in if t = [] then ''*'' else t)"

definition text_of :: "settings_env \<Rightarrow> json \<Rightarrow> string" where
  "text_of env v = (case v of JStr s \<Rightarrow> s | j \<Rightarrow> se_str env j)"

definition task_key_of :: "settings_env \<Rightarrow> obj \<Rightarrow> task_key" where
  "task_key_of env rule = (case map_of rule ''task'' of
      Some (JList ts) \<Rightarrow> TaskTuple (map (\<lambda>t. strip (text_of env t)) ts)
    | v \<Rightarrow> OneTask (star_text env v))"

definition rule_key :: "settings_env \<Rightarrow> obj \<Rightarrow> string \<times> task_key" where
  "rule_key env rule = (star_text env (map_of rule ''profile''), task_key_of env rule)"

definition rule_action_error :: "obj \<Rightarrow> string option" where
  "rule_action_error rule =
     (let action = dget rule ''action'' JNull in
      if action \<notin> set [JStr ''prefer'', JStr ''block'', JStr ''policy'']
      then Some '': action must be prefer | block | policy''
      else if action \<noteq> JStr ''policy'' \<and> \<not> truthy_opt (map_of rule ''provider'') \<and> \<not> truthy_opt (map_of rule ''model'')
      then Some '': prefer/block need provider and/or model''
      else if action = JStr ''policy'' \<and> dget rule ''policy'' JNull \<notin> set (map JStr VALID_POLICIES)
      then Some '': policy rule needs a valid policy''
      else None)"

definition min_score_error :: "settings_env \<Rightarrow> obj \<Rightarrow> string option" where
  "min_score_error env rule = (case dget rule ''min_score'' JNull of
      JNull \<Rightarrow> None
    | v \<Rightarrow> (case float_of_json (se_float env) v of
        Inl e \<Rightarrow> Some '': min_score must be a number'' | Inr x \<Rightarrow> None))"

definition shown_key :: "task_key \<Rightarrow> string" where
  "shown_key k = (case k of OneTask t \<Rightarrow> t | TaskTuple ts \<Rightarrow> join '', '' ts)"

definition second_rule_error :: "string \<times> task_key \<Rightarrow> nat \<Rightarrow> string" where
  "second_rule_error key first = '': intent '' @ [CHR 0x27] @ shown_key (snd key) @ [CHR 0x27] @ '' (profile '' @ fst key @
     '') already has a rule - rule '' @ show_nat first @
     ''. One rule per intent; edit that one instead of adding a second.''"

text \<open>The loop: \<open>seen\<close> maps the keys so far to the position of their rule.\<close>

fun check_rules :: "settings_env \<Rightarrow> nat \<Rightarrow> (string \<times> task_key, nat) dict \<Rightarrow> json list \<Rightarrow> string option" where
  "check_rules env i seen [] = None"
| "check_rules env i seen (JObj rule # rules) =
     (let numbered = (\<lambda>m. Some (''rule '' @ show_nat i @ m)) in
      case rule_action_error rule of Some m \<Rightarrow> numbered m | None \<Rightarrow>
      (case min_score_error env rule of Some m \<Rightarrow> numbered m | None \<Rightarrow>
      (let key = rule_key env rule in
       case map_of seen key of
         Some first \<Rightarrow> numbered (second_rule_error key first)
       | None \<Rightarrow> check_rules env (i + 1) ((key, i) # seen) rules)))"
| "check_rules env i seen (_ # rules) = Some (''rule '' @ show_nat i @ '' must be an object'')"

definition validate_routing_rules :: "settings_env \<Rightarrow> json \<Rightarrow> string option" where
  "validate_routing_rules env rules = (case rules of
      JList rs \<Rightarrow> check_rules env 0 [] rs
    | _ \<Rightarrow> Some ([CHR 0x27] @ ''rules'' @ [CHR 0x27] @ '' must be a list''))"

text \<open>How the router matches a stored rule: no stripping, and a field that is not text equals no text.\<close>

definition raw_rule_matches :: "obj \<Rightarrow> string \<Rightarrow> string \<Rightarrow> bool" where
  "raw_rule_matches rule task profile \<longleftrightarrow>
     truthy (dget rule ''enabled'' (JBool True)) \<and>
     (let rp = dget rule ''profile'' (JStr ''*'') in rp \<in> set [JStr ''*'', JStr [], JStr profile]) \<and>
     (let rt = dget rule ''task'' (JStr ''*'') in
      rt \<in> set [JStr ''*'', JStr []] \<or> (case rt of JList ts \<Rightarrow> JStr task \<in> set ts | _ \<Rightarrow> rt = JStr task))"

subsection \<open>The routing endpoints\<close>

text \<open>The switch of the stored configuration section follows the global switch.\<close>

definition sync_dynamic_routing_enabled :: "settings_env \<Rightarrow> bool \<Rightarrow> settings \<Rightarrow> settings" where
  "sync_dynamic_routing_enabled env enabled st =
     (let key = config_section_key ''dynamic_routing'';
          section = (case Option.bind (map_of st key) (se_loads env) of Some (JObj d) \<Rightarrow> d | _ \<Rightarrow> [])
      in AList.update key (se_dumps env (JObj (AList.update ''enabled'' (JBool enabled) section))) st)"

text \<open>The parts of the policy endpoint: \<open>Inr None\<close> goes on to the next part.\<close>

definition policy_part :: "obj \<Rightarrow> string \<Rightarrow> settings \<Rightarrow> settings handled" where
  "policy_part body profile st =
     (if map_of body ''policy'' = None then (st, Inr None)
      else case text_field body ''policy'' of Inl e \<Rightarrow> (st, Inl e) | Inr text \<Rightarrow>
        (let policy = lower text in
         if policy \<notin> set VALID_POLICIES then (st, error_reply ''policy must be eager | cost_first | explore'')
         else case set_routing_policy policy profile st of
            Inl e \<Rightarrow> (st, Inl ValueError)
          | Inr st' \<Rightarrow> (st', Inr None)))"

definition min_score_part :: "settings_env \<Rightarrow> obj \<Rightarrow> string \<Rightarrow> settings \<Rightarrow> settings handled" where
  "min_score_part env body profile st = (case map_of body ''min_score'' of
      None \<Rightarrow> (st, Inr None)
    | Some v \<Rightarrow> (case float_of_json (se_float env) v of
        Inl e \<Rightarrow> (st, error_reply ''min_score must be a number 0-1'')
      | Inr x \<Rightarrow> (set_routing_min_score (se_show_float env) (max 0 (min 1 x)) profile st, Inr None)))"

definition enabled_part :: "settings_env \<Rightarrow> obj \<Rightarrow> string \<Rightarrow> settings \<Rightarrow> settings handled" where
  "enabled_part env body profile st = (case map_of body ''enabled'' of
      None \<Rightarrow> (st, Inr None)
    | Some (JBool b) \<Rightarrow>
        (let st' = set_routing_enabled b profile st in
         (if profile = [] then sync_dynamic_routing_enabled env b st' else st', Inr None))
    | _ \<Rightarrow> (st, error_reply ''enabled must be a boolean''))"

definition clear_profile_routing :: "string \<Rightarrow> settings \<Rightarrow> settings" where
  "clear_profile_routing profile st =
     clear_routing_rules profile (clear_routing_min_score profile (clear_routing_policy profile
       (clear_routing_enabled profile st)))"

fun run_parts :: "('s \<Rightarrow> 's handled) list \<Rightarrow> 's \<Rightarrow> 's handled" where
  "run_parts [] st = (st, Inr None)"
| "run_parts (p # ps) st = (case p st of (st', r) \<Rightarrow> if r = Inr None then run_parts ps st' else (st', r))"

definition serve_routing_policy :: "settings_env \<Rightarrow> obj \<Rightarrow> settings \<Rightarrow> settings handled" where
  "serve_routing_policy env body st =
     (case text_field body ''profile'' of Inl e \<Rightarrow> (st, Inl e) | Inr profile \<Rightarrow>
      if map_of body ''clear_profile'' = Some (JBool True) \<and> profile \<noteq> []
      then (clear_profile_routing profile st, Inr None)
      else run_parts [policy_part body profile, min_score_part env body profile, enabled_part env body profile] st)"

definition serve_routing_rules :: "settings_env \<Rightarrow> obj \<Rightarrow> settings \<Rightarrow> settings handled" where
  "serve_routing_rules env body st =
     (let rules = dget body ''rules'' JNull in
      case validate_routing_rules env rules of
        Some e \<Rightarrow> (st, error_reply e)
      | None \<Rightarrow> (case text_field body ''profile'' of Inl e \<Rightarrow> (st, Inl e) | Inr profile \<Rightarrow>
          (set_routing_rules (\<lambda>rs. se_dumps env (JList rs)) (case rules of JList rs \<Rightarrow> rs | _ \<Rightarrow> []) profile st, Inr None)))"

subsection \<open>The settings of the account cache\<close>

definition overrides_json :: "settings_env \<Rightarrow> setting_rows \<Rightarrow> json" where
  "overrides_json env st = JObj (map (\<lambda>(p, n). (p, JNum (of_int n))) (ttl_overrides (se_float env) st))"

definition ttl_reply :: "settings_env \<Rightarrow> string \<Rightarrow> int \<Rightarrow> setting_rows \<Rightarrow> (nat \<times> obj) option res" where
  "ttl_reply env provider ttl st = Inr (Some (200, [(''ok'', JBool True),
     (''provider'', if provider = [] then JNull else JStr provider), (''ttl_minutes'', JNum (of_int ttl)),
     (''per_provider_ttl'', overrides_json env st)]))"

definition serve_settings_update :: "settings_env \<Rightarrow> plugins \<Rightarrow> obj \<Rightarrow> refresher \<Rightarrow> refresher handled" where
  "serve_settings_update env pl body rf =
     (case text_field body ''provider'' of Inl e \<Rightarrow> (rf, Inl e) | Inr name \<Rightarrow>
      (let provider = lower name in
       if provider \<noteq> [] \<and> map_of body ''ttl_minutes'' = None then
         (let st = clear_ttl_minutes provider (rf_settings rf) in
          (cost_request_refresh pl provider [] (rf\<lparr>rf_settings := st\<rparr>),
           ttl_reply env provider (get_ttl_minutes (se_float env) st provider 30) st))
       else case int_of_json (dget body ''ttl_minutes'' JNull) of
         Inl e \<Rightarrow> (rf, error_reply ''ttl_minutes must be an integer >= 1'')
       | Inr n \<Rightarrow>
           (let ttl = max 1 n; st = set_ttl_minutes (se_show_int env) ttl provider (rf_settings rf) in
            (cost_request_refresh pl provider [] (rf\<lparr>rf_settings := st\<rparr>), ttl_reply env provider ttl st))))"

definition serve_settings_refresh :: "plugins \<Rightarrow> refresher \<Rightarrow> refresher handled" where
  "serve_settings_refresh pl rf =
     (cost_request_refresh pl [] [] rf, Inr (Some (200, [(''ok'', JBool True), (''refreshing'', JBool True)])))"

definition serve_settings_cache_clear :: "plugins \<Rightarrow> refresher \<Rightarrow> refresher handled" where
  "serve_settings_cache_clear pl rf =
     (cost_request_refresh pl [] [] (clear_cache rf), Inr (Some (200, [(''ok'', JBool True)])))"

section \<open>What the validation promises\<close>

definition rule_ok :: "settings_env \<Rightarrow> json \<Rightarrow> bool" where
  "rule_ok env r = (case r of JObj rule \<Rightarrow> rule_action_error rule = None \<and> min_score_error env rule = None | _ \<Rightarrow> False)"

definition key_of :: "settings_env \<Rightarrow> json \<Rightarrow> string \<times> task_key" where
  "key_of env r = (case r of JObj rule \<Rightarrow> rule_key env rule | _ \<Rightarrow> ([], TaskTuple []))"

lemma rule_ok_simps [simp]:
  "rule_ok env (JObj rule) \<longleftrightarrow> rule_action_error rule = None \<and> min_score_error env rule = None"
  "key_of env (JObj rule) = rule_key env rule"
  by (simp_all add: rule_ok_def key_of_def)

lemma check_rules_None:
  "check_rules env i seen rs = None \<longleftrightarrow>
     (\<forall>r \<in> set rs. rule_ok env r) \<and> distinct (map (key_of env) rs) \<and> key_of env ` set rs \<inter> fst ` set seen = {}"
proof (induction rs arbitrary: i seen)
  case (Cons r rs)
  show ?case
  proof (cases "\<exists>rule. r = JObj rule")
    case True
    then obtain rule where r: "r = JObj rule" ..
    have "rule_key env rule \<in> fst ` set seen \<longleftrightarrow> (\<exists>j. map_of seen (rule_key env rule) = Some j)"
      by (metis map_of_eq_None_iff not_None_eq)
    then show ?thesis
      using Cons.IH [of "i + 1" "(rule_key env rule, i) # seen"]
      by (auto simp: r Let_def split: option.splits)
  next
    case False
    then have "check_rules env i seen (r # rs) \<noteq> None" "\<not> rule_ok env r"
      by (cases r; simp add: rule_ok_def)+
    then show ?thesis by simp
  qed
qed simp

text \<open>
  Also: The list of routing rules is accepted exactly when it is a list of objects with a known action, a target for
  \<open>prefer\<close> and \<open>block\<close>, a known policy for \<open>policy\<close>, a readable score, and no two rules for the same profile and
  the same task field.
\<close>

theorem rules_accepted_iff:
  "validate_routing_rules env rules = None \<longleftrightarrow>
     (\<exists>rs. rules = JList rs \<and> list_all (rule_ok env) rs \<and> distinct (map (key_of env) rs))"
  by (cases rules) (simp_all add: validate_routing_rules_def check_rules_None list_all_iff)

definition colliding_rules :: "string \<Rightarrow> string \<Rightarrow> string \<Rightarrow> obj \<times> obj" where
  "colliding_rules x task profile =
     ([(''action'', JStr ''prefer''), (''provider'', JStr x), (''profile'', JStr profile), (''task'', JList [JStr task])],
      [(''action'', JStr ''block''), (''provider'', JStr x), (''profile'', JStr profile), (''task'', JStr task)])"

text \<open>
  Also: The validation does not keep contradictory rules apart, although it is written to: for every provider, intent
  and profile there is an accepted list with a rule that prefers the provider and a rule that blocks it, and both
  match a request of that profile with that intent.
\<close>

theorem contradictory_rules_are_accepted:
  assumes "x \<noteq> []"
  shows "\<exists>prefer block. validate_routing_rules env (JList [JObj prefer, JObj block]) = None \<and>
    map_of prefer ''action'' = Some (JStr ''prefer'') \<and> map_of block ''action'' = Some (JStr ''block'') \<and>
    map_of prefer ''provider'' = Some (JStr x) \<and> map_of block ''provider'' = Some (JStr x) \<and>
    raw_rule_matches prefer task profile \<and> raw_rule_matches block task profile"
proof (intro exI conjI)
  let ?a = "fst (colliding_rules x task profile)" and ?b = "snd (colliding_rules x task profile)"
  show "validate_routing_rules env (JList [JObj ?a, JObj ?b]) = None"
    using assms by (simp add: validate_routing_rules_def colliding_rules_def rule_action_error_def min_score_error_def rule_key_def
      task_key_of_def Let_def)
qed (simp_all add: colliding_rules_def raw_rule_matches_def)

text \<open>A rule for an intent with a space at its end is accepted, and matches no intent written without.\<close>

lemma padded_rule_is_dead:
  "raw_rule_matches [(''action'', JStr ''policy''), (''policy'', JStr ''eager''), (''task'', JStr (t @ '' ''))] task profile \<Longrightarrow>
   task = t @ '' ''"
  by (cases t) (auto simp: raw_rule_matches_def)

text \<open>So is a rule whose profile is \<open>null\<close>, which the validation takes for any profile.\<close>

lemma null_profile_matches_nothing:
  "map_of rule ''profile'' = Some JNull \<Longrightarrow> \<not> raw_rule_matches rule task profile"
  by (simp add: raw_rule_matches_def)

section \<open>What the routing endpoints store\<close>

definition base_of :: "string \<Rightarrow> string" where
  "base_of k = takeWhile (\<lambda>c. c \<noteq> CHR '':'') k"

text \<open>A row that the router can read: of a routing key, a value in its range.\<close>

definition row_ok :: "settings_env \<Rightarrow> string \<times> string \<Rightarrow> bool" where
  "row_ok env kv \<longleftrightarrow>
     (base_of (fst kv) = ROUTING_POLICY_KEY \<longrightarrow> snd kv \<in> set VALID_POLICIES) \<and>
     (base_of (fst kv) = ROUTING_MIN_SCORE_KEY \<longrightarrow>
        (case se_float env (snd kv) of Some x \<Rightarrow> 0 \<le> x \<and> x \<le> 1 | None \<Rightarrow> False)) \<and>
     (base_of (fst kv) = ROUTING_ENABLED_KEY \<longrightarrow> snd kv = ''1'' \<or> snd kv = ''0'') \<and>
     (base_of (fst kv) = ROUTING_RULES_KEY \<longrightarrow>
        (case se_loads env (snd kv) of Some j \<Rightarrow> validate_routing_rules env j = None | None \<Rightarrow> False))"

definition rows_valid :: "settings_env \<Rightarrow> settings \<Rightarrow> bool" where
  "rows_valid env st = list_all (row_ok env) st"

lemma base_of_key [simp]:
  "CHR '':'' \<notin> set b \<Longrightarrow> base_of (profile_key b p) = b"
proof -
  assume "CHR '':'' \<notin> set b"
  then have "takeWhile (\<lambda>c. c \<noteq> CHR '':'') b = b" by (intro takeWhile_eq_all_conv [THEN iffD2]) auto
  moreover have "takeWhile (\<lambda>c. c \<noteq> CHR '':'') (b @ CHR '':'' # p) = takeWhile (\<lambda>c. c \<noteq> CHR '':'') b"
    using \<open>CHR '':'' \<notin> set b\<close> by (induction b) auto
  ultimately show ?thesis by (simp add: base_of_def profile_key_def)
qed

lemmas routing_keys = ROUTING_POLICY_KEY_def ROUTING_MIN_SCORE_KEY_def ROUTING_ENABLED_KEY_def ROUTING_RULES_KEY_def

lemma base_of_routing [simp]:
  "base_of (profile_key ROUTING_POLICY_KEY p) = ROUTING_POLICY_KEY"
  "base_of (profile_key ROUTING_MIN_SCORE_KEY p) = ROUTING_MIN_SCORE_KEY"
  "base_of (profile_key ROUTING_ENABLED_KEY p) = ROUTING_ENABLED_KEY"
  "base_of (profile_key ROUTING_RULES_KEY p) = ROUTING_RULES_KEY"
  "base_of (config_section_key s) = ''gateway_config''"
  by (simp_all add: routing_keys) (simp add: base_of_def config_section_key_def)

lemma rows_valid_update: "rows_valid env st \<Longrightarrow> row_ok env (k, v) \<Longrightarrow> rows_valid env (AList.update k v st)"
  unfolding rows_valid_def by (induction st) auto

lemma rows_valid_delete: "rows_valid env st \<Longrightarrow> rows_valid env (AList.delete k st)"
  unfolding rows_valid_def by (induction st) auto

lemma rows_valid_lookup: "rows_valid env st \<Longrightarrow> map_of st k = Some v \<Longrightarrow> row_ok env (k, v)"
  unfolding rows_valid_def by (auto simp: list_all_iff dest: map_of_SomeD)

lemma rows_valid_raw:
  "rows_valid env st \<Longrightarrow> raw_setting st base p = Some v \<Longrightarrow> \<exists>q. row_ok env (profile_key base q, v)"
proof -
  assume v: "rows_valid env st" and "raw_setting st base p = Some v"
  then have "map_of st (profile_key base p) = Some v \<or> map_of st (profile_key base []) = Some v"
    unfolding raw_setting_def by (simp split: option.splits if_splits)
  then show ?thesis using rows_valid_lookup [OF v] by blast
qed

lemma routing_keys_differ [simp]:
  "ROUTING_POLICY_KEY \<noteq> ROUTING_MIN_SCORE_KEY" "ROUTING_MIN_SCORE_KEY \<noteq> ROUTING_POLICY_KEY"
  "ROUTING_POLICY_KEY \<noteq> ROUTING_ENABLED_KEY" "ROUTING_ENABLED_KEY \<noteq> ROUTING_POLICY_KEY"
  "ROUTING_POLICY_KEY \<noteq> ROUTING_RULES_KEY" "ROUTING_RULES_KEY \<noteq> ROUTING_POLICY_KEY"
  "ROUTING_MIN_SCORE_KEY \<noteq> ROUTING_ENABLED_KEY" "ROUTING_ENABLED_KEY \<noteq> ROUTING_MIN_SCORE_KEY"
  "ROUTING_MIN_SCORE_KEY \<noteq> ROUTING_RULES_KEY" "ROUTING_RULES_KEY \<noteq> ROUTING_MIN_SCORE_KEY"
  "ROUTING_ENABLED_KEY \<noteq> ROUTING_RULES_KEY" "ROUTING_RULES_KEY \<noteq> ROUTING_ENABLED_KEY"
  by (simp_all add: routing_keys)

lemma row_ok_key [simp]:
  "row_ok env (profile_key ROUTING_POLICY_KEY p, v) \<longleftrightarrow> v \<in> set VALID_POLICIES"
  "row_ok env (profile_key ROUTING_MIN_SCORE_KEY p, v) \<longleftrightarrow>
     (case se_float env v of Some x \<Rightarrow> 0 \<le> x \<and> x \<le> 1 | None \<Rightarrow> False)"
  "row_ok env (profile_key ROUTING_ENABLED_KEY p, v) \<longleftrightarrow> v = ''1'' \<or> v = ''0''"
  "row_ok env (profile_key ROUTING_RULES_KEY p, v) \<longleftrightarrow>
     (case se_loads env v of Some j \<Rightarrow> validate_routing_rules env j = None | None \<Rightarrow> False)"
  by (simp_all add: row_ok_def)

lemmas row_ok_base [simp] = row_ok_key [where p = "[]", unfolded profile_key_empty]

lemma row_ok_section: "row_ok env (config_section_key section, v)"
  unfolding row_ok_def by (simp add: routing_keys)

text \<open>What is needed of the printers and readers: a printed score is read in its range, a printed value as it was.\<close>

definition scores_read_back :: "settings_env \<Rightarrow> bool" where
  "scores_read_back env \<longleftrightarrow>
     (\<forall>x. 0 \<le> x \<and> x \<le> 1 \<longrightarrow> (\<exists>y. se_float env (se_show_float env x) = Some y \<and> 0 \<le> y \<and> y \<le> 1))"

definition json_reads_back :: "settings_env \<Rightarrow> json \<Rightarrow> bool" where
  "json_reads_back env j \<longleftrightarrow> se_loads env (se_dumps env j) = Some j"

lemma clamp_reads_back:
  "scores_read_back env \<Longrightarrow> \<exists>y. se_float env (se_show_float env (max 0 (min 1 x))) = Some y \<and> 0 \<le> y \<and> y \<le> 1"
  unfolding scores_read_back_def by simp

lemma valid_policy_part: "rows_valid env st \<Longrightarrow> rows_valid env (fst (policy_part body p st))"
  by (cases "text_field body ''policy''") (simp_all add: policy_part_def set_routing_policy_def Let_def rows_valid_update)

lemma valid_min_score_part:
  assumes "scores_read_back env" and "rows_valid env st"
  shows "rows_valid env (fst (min_score_part env body p st))"
proof -
  have "row_ok env (profile_key ROUTING_MIN_SCORE_KEY p, se_show_float env (max 0 (min 1 x)))" for x
    using clamp_reads_back [OF assms(1), of x] by auto
  then show ?thesis
    using assms(2) by (simp add: min_score_part_def set_routing_min_score_def rows_valid_update split: option.split sum.split)
qed

lemma valid_sync: "rows_valid env st \<Longrightarrow> rows_valid env (sync_dynamic_routing_enabled env b st)"
  unfolding sync_dynamic_routing_enabled_def Let_def by (intro rows_valid_update row_ok_section)

lemma valid_set_enabled: "rows_valid env st \<Longrightarrow> rows_valid env (set_routing_enabled b p st)"
  unfolding set_routing_enabled_def by (rule rows_valid_update) simp_all

lemma valid_enabled_part: "rows_valid env st \<Longrightarrow> rows_valid env (fst (enabled_part env body p st))"
  by (simp add: enabled_part_def Let_def valid_sync valid_set_enabled split: option.split json.split)

lemma valid_run_parts:
  "(\<And>p st. p \<in> set ps \<Longrightarrow> rows_valid env st \<Longrightarrow> rows_valid env (fst (p st))) \<Longrightarrow>
   rows_valid env st \<Longrightarrow> rows_valid env (fst (run_parts ps st))"
proof (induction ps arbitrary: st)
  case (Cons p ps)
  then have "rows_valid env (fst (p st))" by simp
  with Cons show ?case by (simp split: prod.split) (metis fst_conv)
qed simp

lemma valid_serve_policy:
  "scores_read_back env \<Longrightarrow> rows_valid env st \<Longrightarrow> rows_valid env (fst (serve_routing_policy env body st))"
  by (cases "text_field body ''profile''")
    (auto simp: serve_routing_policy_def clear_profile_routing_def clear_routing_rules_def clear_routing_min_score_def
      clear_routing_policy_def clear_routing_enabled_def simp del: run_parts.simps
      intro!: valid_run_parts rows_valid_delete valid_policy_part valid_min_score_part valid_enabled_part)

lemma valid_serve_rules:
  assumes "json_reads_back env (dget body ''rules'' JNull)" and "rows_valid env st"
  shows "rows_valid env (fst (serve_routing_rules env body st))"
proof (cases "validate_routing_rules env (dget body ''rules'' JNull)")
  case None
  then obtain rs where rs: "dget body ''rules'' JNull = JList rs"
    unfolding rules_accepted_iff by blast
  have "row_ok env (profile_key ROUTING_RULES_KEY p, se_dumps env (JList rs))" for p
    using None assms(1) rs by (simp add: json_reads_back_def)
  with None rs assms(2) show ?thesis
    by (simp add: serve_routing_rules_def set_routing_rules_def rows_valid_update split: sum.split)
qed (simp add: serve_routing_rules_def assms)

datatype routing_request = PolicyRequest obj | RulesRequest obj

fun serve_routing :: "settings_env \<Rightarrow> routing_request \<Rightarrow> settings \<Rightarrow> settings" where
  "serve_routing env (PolicyRequest body) st = fst (serve_routing_policy env body st)"
| "serve_routing env (RulesRequest body) st = fst (serve_routing_rules env body st)"

fun printable :: "settings_env \<Rightarrow> routing_request \<Rightarrow> bool" where
  "printable env (PolicyRequest body) = True"
| "printable env (RulesRequest body) = json_reads_back env (dget body ''rules'' JNull)"

lemma rows_valid_fold:
  "scores_read_back env \<Longrightarrow> list_all (printable env) rqs \<Longrightarrow> rows_valid env st \<Longrightarrow>
   rows_valid env (fold (serve_routing env) rqs st)"
proof (induction rqs arbitrary: st)
  case (Cons rq rqs)
  then show ?case by (cases rq) (simp_all add: valid_serve_policy valid_serve_rules)
qed simp

definition read_rules :: "settings_env \<Rightarrow> string \<Rightarrow> json list option" where
  "read_rules env raw = map_option (\<lambda>j. case j of JList rs \<Rightarrow> rs | _ \<Rightarrow> []) (se_loads env raw)"

lemma valid_reads:
  assumes "rows_valid env st"
  shows "0 \<le> get_routing_min_score (se_float env) st 0 profile \<and> get_routing_min_score (se_float env) st 0 profile \<le> 1"
    and "validate_routing_rules env (JList (get_routing_rules (read_rules env) st profile)) = None"
proof -
  show "0 \<le> get_routing_min_score (se_float env) st 0 profile \<and> get_routing_min_score (se_float env) st 0 profile \<le> 1"
    using rows_valid_raw [OF assms, of ROUTING_MIN_SCORE_KEY profile]
    by (auto simp: get_routing_min_score_def split: option.splits)
  have nil: "validate_routing_rules env (JList []) = None"
    by (simp add: validate_routing_rules_def)
  show "validate_routing_rules env (JList (get_routing_rules (read_rules env) st profile)) = None"
  proof (cases "raw_setting st ROUTING_RULES_KEY profile")
    case (Some raw)
    then obtain j where j: "se_loads env raw = Some j" and ok: "validate_routing_rules env j = None"
      using rows_valid_raw [OF assms Some] by (auto split: option.splits)
    from ok obtain rs where "j = JList rs" unfolding rules_accepted_iff by blast
    with j ok Some show ?thesis by (simp add: get_routing_rules_def read_rules_def)
  qed (simp add: get_routing_rules_def nil)
qed

text \<open>
  Also: Whatever requests the routing endpoints have served since the settings were empty, rejected ones and ones for
  any profile included, what the router reads for any profile is in range: a score floor between 0 and 1 and a
  list of rules that the validation accepts.
\<close>

theorem routing_settings_stay_valid:
  assumes "scores_read_back env" and "list_all (printable env) requests" and "st = fold (serve_routing env) requests []"
  shows "0 \<le> get_routing_min_score (se_float env) st 0 profile \<and> get_routing_min_score (se_float env) st 0 profile \<le> 1 \<and>
    validate_routing_rules env (JList (get_routing_rules (read_rules env) st profile)) = None"
proof -
  have "rows_valid env st"
    unfolding assms(3) using assms(1,2) by (rule rows_valid_fold) (simp add: rows_valid_def)
  then show ?thesis by (simp add: valid_reads)
qed

text \<open>
  Also: A rejected policy request has taken effect in part: with a valid policy and a score that is no number the
  answer is an error, and the policy is stored and in force.
\<close>

theorem rejected_policy_request_takes_effect:
  assumes "text_field body ''profile'' = Inr profile" and "map_of body ''clear_profile'' = None"
    and "map_of body ''policy'' = Some (JStr p)" and "lower (strip p) \<in> set VALID_POLICIES"
    and "map_of body ''min_score'' = Some v" and "float_of_json (se_float env) v = Inl e"
  shows "snd (serve_routing_policy env body st) = error_reply ''min_score must be a number 0-1'' \<and>
    get_routing_policy (fst (serve_routing_policy env body st)) dflt profile = lower (strip p)"
proof -
  have "policy_part body profile st = (AList.update (profile_key ROUTING_POLICY_KEY profile) (lower (strip p)) st, Inr None)"
    using assms(3,4) by (simp add: policy_part_def text_field_def set_routing_policy_def)
  then show ?thesis
    using assms by (simp add: serve_routing_policy_def min_score_part_def error_reply_def get_routing_policy_def raw_setting_update)
qed

lemma colon_free [simp]:
  "CHR '':'' \<notin> set ROUTING_POLICY_KEY" "CHR '':'' \<notin> set ROUTING_MIN_SCORE_KEY"
  "CHR '':'' \<notin> set ROUTING_ENABLED_KEY" "CHR '':'' \<notin> set ROUTING_RULES_KEY"
  by (simp_all add: routing_keys)

lemma own_key_not_global: "p \<noteq> [] \<Longrightarrow> CHR '':'' \<notin> set b \<Longrightarrow> profile_key c p \<noteq> b"
  by (auto simp: profile_key_def)

lemma global_after_clear:
  "profile \<noteq> [] \<Longrightarrow> CHR '':'' \<notin> set base \<Longrightarrow> map_of (clear_profile_routing profile st) base = map_of st base"
  unfolding clear_profile_routing_def clear_routing_rules_def clear_routing_min_score_def clear_routing_policy_def
    clear_routing_enabled_def
  by (simp add: dict_simps own_key_not_global [THEN not_sym])

lemma own_after_clear:
  "base \<in> {ROUTING_POLICY_KEY, ROUTING_MIN_SCORE_KEY, ROUTING_ENABLED_KEY, ROUTING_RULES_KEY} \<Longrightarrow>
   map_of (clear_profile_routing profile st) (profile_key base profile) = None"
  unfolding clear_profile_routing_def clear_routing_rules_def clear_routing_min_score_def clear_routing_policy_def
    clear_routing_enabled_def
  by (elim insertE emptyE) (simp_all add: dict_simps)

lemma raw_setting_clear:
  assumes "profile \<noteq> []"
    and "base \<in> {ROUTING_POLICY_KEY, ROUTING_MIN_SCORE_KEY, ROUTING_ENABLED_KEY, ROUTING_RULES_KEY}"
  shows "raw_setting (clear_profile_routing profile st) base profile = raw_setting st base []"
proof -
  have "CHR '':'' \<notin> set base" using assms(2) by (elim insertE emptyE) simp_all
  then show ?thesis
    using own_after_clear [OF assms(2), of profile st] global_after_clear [OF assms(1)] assms(1)
    by (simp add: raw_setting_def split: option.split)
qed

text \<open>
  Also: Clearing a profile gives it the global routing back, whatever it had, in all four settings.
\<close>

theorem cleared_profile_inherits:
  assumes "text_field body ''profile'' = Inr profile" and "profile \<noteq> []" and "map_of body ''clear_profile'' = Some (JBool True)"
    and "st' = fst (serve_routing_policy env body st)"
  shows "get_routing_policy st' d profile = get_routing_policy st d [] \<and>
    get_routing_min_score rd st' x profile = get_routing_min_score rd st x [] \<and>
    get_routing_enabled st' profile = get_routing_enabled st [] \<and>
    get_routing_rules loads st' profile = get_routing_rules loads st []"
  using assms(1-3) raw_setting_clear [OF assms(2)]
  unfolding assms(4)
  by (simp add: serve_routing_policy_def get_routing_policy_def get_routing_min_score_def get_routing_enabled_def
      get_routing_rules_def)

subsection \<open>A demonstration\<close>

definition demo_settings_env :: settings_env where
  "demo_settings_env = \<lparr>se_float = (\<lambda>s. if s = ''0.5'' then Some (1 / 2) else None), se_show_float = (\<lambda>x. ''0.5''),
     se_show_int = (\<lambda>i. ''1''), se_str = (\<lambda>j. ''v''), se_loads = (\<lambda>s. Some (JList [])), se_dumps = (\<lambda>j. ''[]'')\<rparr>"

theorem contradictory_rules_are_accepted_witness:
  "\<exists>prefer block. validate_routing_rules demo_settings_env (JList [JObj prefer, JObj block]) = None \<and>
    map_of prefer ''action'' = Some (JStr ''prefer'') \<and> map_of block ''action'' = Some (JStr ''block'') \<and>
    map_of prefer ''provider'' = Some (JStr ''p'') \<and> map_of block ''provider'' = Some (JStr ''p'') \<and>
    raw_rule_matches prefer ''code'' ''l1'' \<and> raw_rule_matches block ''code'' ''l1''"
  by (rule contradictory_rules_are_accepted) simp

theorem routing_settings_stay_valid_witness:
  "get_routing_min_score (se_float demo_settings_env)
     (fold (serve_routing demo_settings_env)
       [PolicyRequest [(''min_score'', JNum 7)], RulesRequest [(''rules'', JList [])]] []) 0 ''l1'' \<le> 1"
proof -
  have "scores_read_back demo_settings_env" unfolding scores_read_back_def by (intro allI impI exI [of _ "1 / 2"]) (simp add: demo_settings_env_def)
  moreover have "list_all (printable demo_settings_env) [PolicyRequest [(''min_score'', JNum 7)], RulesRequest [(''rules'', JList [])]]"
    by (simp add: json_reads_back_def demo_settings_env_def)
  ultimately show ?thesis
    using routing_settings_stay_valid [OF _ _ refl] by blast
qed

theorem rejected_policy_request_takes_effect_witness:
  "get_routing_policy (fst (serve_routing_policy demo_settings_env
     [(''policy'', JStr ''explore''), (''min_score'', JStr ''high'')] [])) ''eager'' [] = ''explore''"
proof -
  have "lower (strip ''explore'') = ''explore''" by code_simp
  then show ?thesis
    using rejected_policy_request_takes_effect [of "[(''policy'', JStr ''explore''), (''min_score'', JStr ''high'')]" "[]"
        "''explore''" "JStr ''high''" demo_settings_env ValueError "[]" "''eager''"]
    by (simp add: text_field_def VALID_POLICIES_def demo_settings_env_def)
qed

end
