(* ===== verification/Py_Regex.thy ===== *)
theory Py_Regex
  imports Py_Text
begin

section \<open>Regular expressions (the subset of Python's re the sources use)\<close>

text \<open>
  A backtracking matcher: \<open>ends r pre rest\<close> lists, in the order in which the matcher of the standard library
  tries them, the positions where a match of \<open>r\<close> that starts between \<open>pre\<close> (what lies before, reversed) and
  \<open>rest\<close> can end.  The first of them is the match.  A repetition does not iterate over an empty match.
\<close>

datatype rx =
    One "char \<Rightarrow> bool"
  | Eps
  | Boundary
  | AtStart
  | Cat rx rx
  | Or rx rx
  | Star rx
  | Lazy rx

type_synonym position = "string \<times> string"

text \<open>\<open>\\w\<close>: letters, digits and the underscore, among the first 256 characters.\<close>

definition is_word :: "char \<Rightarrow> bool" where
  "is_word c \<longleftrightarrow>
     48 \<le> code c \<and> code c \<le> 57 \<or> 65 \<le> code c \<and> code c \<le> 90 \<or> code c = 95 \<or> 97 \<le> code c \<and> code c \<le> 122 \<or>
     code c \<in> {170, 178, 179, 181, 185, 186, 188, 189, 190} \<or> 192 \<le> code c \<and> code c \<noteq> 215 \<and> code c \<noteq> 247"

fun word_next :: "string \<Rightarrow> bool" where
  "word_next [] = False"
| "word_next (c # cs) = is_word c"

function (sequential) ends :: "rx \<Rightarrow> string \<Rightarrow> string \<Rightarrow> position list" where
  "ends (One p) pre (c # cs) = (if p c then [(c # pre, cs)] else [])"
| "ends (One p) pre [] = []"
| "ends Eps pre rest = [(pre, rest)]"
| "ends Boundary pre rest = (if word_next pre \<noteq> word_next rest then [(pre, rest)] else [])"
| "ends AtStart pre rest = (if pre = [] then [(pre, rest)] else [])"
| "ends (Cat a b) pre rest = concat (map (\<lambda>(p, q). ends b p q) (ends a pre rest))"
| "ends (Or a b) pre rest = ends a pre rest @ ends b pre rest"
| "ends (Star a) pre rest =
     concat (map (\<lambda>(p, q). if length q < length rest then ends (Star a) p q else []) (ends a pre rest)) @ [(pre, rest)]"
| "ends (Lazy a) pre rest =
     (pre, rest) # concat (map (\<lambda>(p, q). if length q < length rest then ends (Lazy a) p q else []) (ends a pre rest))"
  by pat_completeness auto
termination
  by (relation "measures [\<lambda>(r, pre, rest). size r, \<lambda>(r, pre, rest). length rest]") auto

declare ends.simps(8,9) [simp del]

subsection \<open>Building expressions\<close>

fun lit :: "string \<Rightarrow> rx" where
  "lit [] = Eps"
| "lit (c # cs) = Cat (One (\<lambda>d. d = c)) (lit cs)"

text \<open>Literal text whatever its case.\<close>

fun ilit :: "string \<Rightarrow> rx" where
  "ilit [] = Eps"
| "ilit (c # cs) = Cat (One (\<lambda>d. lower_char d = c)) (ilit cs)"

fun seq_of :: "rx list \<Rightarrow> rx" where
  "seq_of [] = Eps"
| "seq_of (r # rs) = Cat r (seq_of rs)"

fun any_of :: "rx list \<Rightarrow> rx" where
  "any_of [] = One (\<lambda>c. False)"
| "any_of [r] = r"
| "any_of (r # rs) = Or r (any_of rs)"

definition plus :: "rx \<Rightarrow> rx" where
  "plus r = Cat r (Star r)"

definition opt :: "rx \<Rightarrow> rx" where
  "opt r = Or r Eps"

subsection \<open>Searching and replacing\<close>

text \<open>\<open>re.search\<close>: what lies before the first match, the match, and what follows.\<close>

fun rx_search :: "rx \<Rightarrow> string \<Rightarrow> string \<Rightarrow> (string \<times> string \<times> string) option" where
  "rx_search r pre [] = (case ends r pre [] of [] \<Rightarrow> None | (p, q) # _ \<Rightarrow> Some (rev pre, [], q))"
| "rx_search r pre (c # cs) = (case ends r pre (c # cs) of
      [] \<Rightarrow> rx_search r (c # pre) cs
    | (p, q) # _ \<Rightarrow> Some (rev pre, take (length (c # cs) - length q) (c # cs), q))"

definition rx_found :: "rx \<Rightarrow> string \<Rightarrow> bool" where
  "rx_found r s \<longleftrightarrow> rx_search r [] s \<noteq> None"

text \<open>The text of the group \<open>g\<close> in the first match of \<open>a\<close>, \<open>g\<close>, \<open>b\<close> in sequence.\<close>

definition group_here :: "rx \<Rightarrow> rx \<Rightarrow> rx \<Rightarrow> string \<Rightarrow> string \<Rightarrow> string list" where
  "group_here a g b pre rest =
     concat (map (\<lambda>(p1, r1). concat (map (\<lambda>(p2, r2).
       if ends b p2 r2 = [] then [] else [take (length r1 - length r2) r1]) (ends g p1 r1))) (ends a pre rest))"

fun rx_group :: "rx \<Rightarrow> rx \<Rightarrow> rx \<Rightarrow> string \<Rightarrow> string \<Rightarrow> string option" where
  "rx_group a g b pre [] = (case group_here a g b pre [] of [] \<Rightarrow> None | x # _ \<Rightarrow> Some x)"
| "rx_group a g b pre (c # cs) = (case group_here a g b pre (c # cs) of
      [] \<Rightarrow> rx_group a g b (c # pre) cs
    | x # _ \<Rightarrow> Some x)"

text \<open>\<open>re.sub\<close> for an expression that does not match the empty text.\<close>

function (sequential) rx_sub :: "rx \<Rightarrow> string \<Rightarrow> string \<Rightarrow> string \<Rightarrow> string" where
  "rx_sub r new pre [] = []"
| "rx_sub r new pre (c # cs) = (case ends r pre (c # cs) of
      (p, q) # _ \<Rightarrow> if length q \<le> length cs then new @ rx_sub r new p q else c # rx_sub r new (c # pre) cs
    | [] \<Rightarrow> c # rx_sub r new (c # pre) cs)"
  by pat_completeness auto
termination
  by (relation "measure (\<lambda>(r, new, pre, rest). length rest)") auto

section \<open>What a match is\<close>

definition splits :: "string \<Rightarrow> string \<Rightarrow> string \<Rightarrow> string \<Rightarrow> bool" where
  "splits pre rest p q \<longleftrightarrow> (\<exists>m. rest = m @ q \<and> p = rev m @ pre)"

lemma splits_refl [simp]: "splits pre rest pre rest"
  unfolding splits_def by (rule exI [of _ "[]"]) simp

lemma splits_Cons [simp]: "splits pre (c # rest) (c # pre) rest"
  unfolding splits_def by (rule exI [of _ "[c]"]) simp

lemma splits_trans: "splits pre rest p1 q1 \<Longrightarrow> splits p1 q1 p q \<Longrightarrow> splits pre rest p q"
  unfolding splits_def by (metis append.assoc rev_append)

lemma in_ends_Cat: "(p, q) \<in> set (ends (Cat a b) pre rest) \<longleftrightarrow>
    (\<exists>p1 q1. (p1, q1) \<in> set (ends a pre rest) \<and> (p, q) \<in> set (ends b p1 q1))"
  by (simp only: ends.simps set_concat set_map) force

lemma in_ends_Star: "(p, q) \<in> set (ends (Star a) pre rest) \<longleftrightarrow> p = pre \<and> q = rest \<or>
    (\<exists>p1 q1. (p1, q1) \<in> set (ends a pre rest) \<and> length q1 < length rest \<and> (p, q) \<in> set (ends (Star a) p1 q1))"
  by (subst ends.simps(8), simp only: set_append set_concat set_map) (force split: if_splits)

lemma in_ends_Lazy: "(p, q) \<in> set (ends (Lazy a) pre rest) \<longleftrightarrow> p = pre \<and> q = rest \<or>
    (\<exists>p1 q1. (p1, q1) \<in> set (ends a pre rest) \<and> length q1 < length rest \<and> (p, q) \<in> set (ends (Lazy a) p1 q1))"
  by (subst ends.simps(9), simp only: set_simps set_concat set_map) (force split: if_splits)

lemma ends_splits: "(p, q) \<in> set (ends r pre rest) \<Longrightarrow> splits pre rest p q"
proof (induction r pre rest arbitrary: p q rule: ends.induct)
  case (6 a b pre rest)
  then obtain p1 q1 where 1: "(p1, q1) \<in> set (ends a pre rest)" and 2: "(p, q) \<in> set (ends b p1 q1)"
    unfolding in_ends_Cat by blast
  show ?case by (rule splits_trans [OF "6.IH"(1) [OF 1] "6.IH"(2) [OF 1 refl 2]])
next
  case (8 a pre rest)
  from "8.prems" consider "p = pre" "q = rest" | p1 q1 where "(p1, q1) \<in> set (ends a pre rest)" "length q1 < length rest"
    "(p, q) \<in> set (ends (Star a) p1 q1)"
    unfolding in_ends_Star [of p q a pre rest] by blast
  then show ?case
  proof cases
    case (2 p1 q1)
    show ?thesis by (rule splits_trans [OF "8.IH"(1) [OF 2(1)] "8.IH"(2) [OF 2(1) refl 2(2,3)]])
  qed simp
next
  case (9 a pre rest)
  from "9.prems" consider "p = pre" "q = rest" | p1 q1 where "(p1, q1) \<in> set (ends a pre rest)" "length q1 < length rest"
    "(p, q) \<in> set (ends (Lazy a) p1 q1)"
    unfolding in_ends_Lazy [of p q a pre rest] by blast
  then show ?case
  proof cases
    case (2 p1 q1)
    show ?thesis by (rule splits_trans [OF "9.IH"(1) [OF 2(1)] "9.IH"(2) [OF 2(1) refl 2(2,3)]])
  qed simp
qed (simp_all split: if_splits, blast)

lemma ends_shorter: "(p, q) \<in> set (ends r pre rest) \<Longrightarrow> length q \<le> length rest"
  by (drule ends_splits) (auto simp: splits_def)

lemma rx_sub_length: "length (rx_sub r [] pre s) \<le> length s"
proof (induction r "[]::string" pre s rule: rx_sub.induct)
  case (2 r pre c cs)
  show ?case
  proof (cases "ends r pre (c # cs)")
    case Nil
    with 2 show ?thesis by simp
  next
    case (Cons pq rest)
    obtain p q where pq: "pq = (p, q)" by force
    show ?thesis
    proof (cases "length q \<le> length cs")
      case True
      have "length (rx_sub r [] p q) \<le> length q" by (rule "2"(2) [OF Cons pq [symmetric] True])
      with True Cons pq show ?thesis by simp
    next
      case False
      with 2 Cons pq show ?thesis by simp
    qed
  qed
qed simp

text \<open>Deleting matches either deletes something or leaves the text as it is.\<close>

lemma rx_sub_same_length: "length (rx_sub r [] pre s) = length s \<Longrightarrow> rx_sub r [] pre s = s"
proof (induction r "[]::string" pre s rule: rx_sub.induct)
  case (2 r pre c cs)
  show ?case
  proof (cases "ends r pre (c # cs)")
    case Nil
    with 2 show ?thesis by simp
  next
    case (Cons pq rest)
    obtain p q where pq: "pq = (p, q)" by force
    show ?thesis
    proof (cases "length q \<le> length cs")
      case True
      with "2.prems" Cons pq rx_sub_length [of r p q] show ?thesis by simp
    next
      case False
      with 2 Cons pq show ?thesis by simp
    qed
  qed
qed simp

lemma rx_sub_shorter: "rx_sub r [] pre s \<noteq> s \<Longrightarrow> length (rx_sub r [] pre s) < length s"
  using rx_sub_same_length [of r pre s] rx_sub_length [of r pre s] by linarith

end
