(* ===== verification/Message_Norm.thy ===== *)
theory Message_Norm
  imports Py_Regex Py_Numbers Json_Values
begin

section \<open>The current intent of a conversation (src/api/message\_norm.py)\<close>

text \<open>
  Which text of a conversation says what the user wants: wrappers that clients inject, tool output sent under the
  user role, system prompts sent under the user role and acknowledgements are told apart by their shape.  Messages
  are objects with arbitrary fields.  The regular expressions are those of the source.
\<close>

subsection \<open>Tables\<close>

definition TASK_SIGNALS :: "(string \<times> string list) list" where
  "TASK_SIGNALS =
    [(''agentic_multi_step'',
      [''you are an ai agent'', ''you are a coding agent'', ''autonomous'', ''multi-step'', ''multi step'',
       ''tools:'', ''function call'', ''tool call'']),
     (''unit_tests'',
      [''unit test'', ''unit tests'', ''write tests'', ''write a test'', ''test case'', ''test cases'', ''test suite'',
       ''add tests'', ''create tests'', ''pytest'', ''unittest'', ''test coverage'', ''mocking'', ''mock object'', ''mock the'']),
     (''code_generation'',
      [''write a function'', ''implement'', ''create a script'', ''write code'', ''def '', ''class '', ''import '',
       ''write a program'', ''in python'', ''in javascript'', ''in rust'', ''in go'', ''html'', ''css'', ''react'']),
     (''debugging'',
      [''debug'', ''error'', ''exception'', ''traceback'', ''stack trace'', ''why does this fail'', ''not working'',
       ''bug'', ''fix this'', ''what'' @ [CHR 0x27] @ ''s wrong'']),
     (''research_deep'',
      [''explain'', ''analyze'', ''compare and contrast'', ''research'', ''literature review'', ''in detail'',
       ''comprehensive'', ''thorough'']),
     (''reasoning_chain'',
      [''solve'', ''proof'', ''prove'', ''calculate'', ''logic puzzle'', ''step by step'', ''mathematical'',
       ''equation'', ''theorem'']),
     (''planning'',
      [''design'', ''architecture'', ''architect'', ''system design'', ''how should i structure'', ''roadmap'',
       ''data model'', ''schema'', ''tech stack'', ''plan the'', ''make a plan'', ''create a plan''])]"

definition SPECIFIC_TASKS :: "string list" where
  "SPECIFIC_TASKS = [''unit_tests'', ''debugging'', ''code_generation'', ''planning'', ''reasoning_chain'', ''research_deep'']"

definition signals_of :: "string \<Rightarrow> string list" where
  "signals_of task = (case map_of TASK_SIGNALS task of Some ks \<Rightarrow> ks | None \<Rightarrow> [])"

definition TOOL_RESULT_PREFIXES :: "string list" where
  "TOOL_RESULT_PREFIXES =
    [''[tool'', ''[tool result'', ''[function result'', ''[file result'', ''<tool_result'', ''<result>'', ''tool result'',
     ''tool ran without output'', ''tool call:'', ''[tool_call'', ''tool output:'', ''tool response:'', ''terminal output:'']"

definition CLIENT_CONTEXT_PHRASES :: "string list" where
  "CLIENT_CONTEXT_PHRASES = [''you just executed tool calls but returned an empty response'']"

definition CONTINUATIONS :: "string list" where
  "CONTINUATIONS =
    [''continue'', ''please continue'', ''continue please'', ''yes'', ''yeah'', ''yep'', ''ok'', ''okay'', ''go on'',
     ''keep going'', ''and then'', ''next'', ''proceed'', ''sounds good'', ''thanks'', ''thank you'', ''perfect'',
     ''great'', ''go ahead'', ''sure'', ''alright'', ''got it'', ''cool'', ''more'', ''ok then'']"

definition SHORT_INSTRUCTION_STARTERS :: "string list" where
  "SHORT_INSTRUCTION_STARTERS =
    [''fix'', ''write'', ''make'', ''create'', ''do'', ''explain'', ''plan'', ''debug'', ''run'', ''show'', ''give'',
     ''add'', ''change'', ''update'', ''remove'', ''help'', ''implement'', ''test'', ''review'', ''refactor'',
     ''analyze'', ''solve'', ''design'']"

subsection \<open>Expressions\<close>

abbreviation digits :: rx where "digits \<equiv> plus (One is_digit)"
abbreviation spaces :: rx where "spaces \<equiv> Star (One is_space)"
abbreviation but :: "char \<Rightarrow> rx" where "but c \<equiv> Star (One (\<lambda>d. d \<noteq> c))"

definition TOOL_RESULT_PATTERNS :: "rx list" where
  "TOOL_RESULT_PATTERNS =
    [seq_of [lit ''ran '', digits, lit '' test'', opt (lit ''s'')],
     seq_of [digits, lit ''/'', digits, lit '' test'', opt (lit ''s'')],
     seq_of [lit ''all test'', opt (lit ''s''), lit '' passed''],
     seq_of [digits, lit '' test'', opt (lit ''s''), lit '' '', any_of [lit ''passed'', lit ''failed'', lit ''skipped'']],
     lit ''traceback (most recent call last)'',
     seq_of [lit ''exit code'', One (\<lambda>c. c = CHR '':'' \<or> is_space c), digits],
     lit ''command finished'',
     seq_of [digits, lit '' passed''],
     seq_of [digits, lit '' failed'']]"

definition is_letter :: "char \<Rightarrow> bool" where
  "is_letter c \<longleftrightarrow> 65 \<le> code c \<and> code c \<le> 90 \<or> 97 \<le> code c \<and> code c \<le> 122"

definition tag_name :: rx where
  "tag_name = Cat (One (\<lambda>c. is_letter c \<or> c = CHR ''_'')) (Star (One (\<lambda>c. is_word c \<or> c = CHR ''.'' \<or> c = CHR ''-'')))"

definition user_request_name :: rx where
  "user_request_name = seq_of [ilit ''user'', Star (One (\<lambda>c. is_space c \<or> c = CHR ''_'' \<or> c = CHR ''-'')), ilit ''request'']"

definition USER_REQUEST_OPEN :: rx where
  "USER_REQUEST_OPEN = seq_of [lit ''<'', spaces, user_request_name, Boundary, but (CHR ''>''), lit ''>'']"

definition USER_REQUEST_CLOSE :: rx where
  "USER_REQUEST_CLOSE = seq_of [lit ''<'', spaces, lit ''/'', spaces, user_request_name, spaces, lit ''>'']"

definition INNER_TAG_PAIR :: rx where
  "INNER_TAG_PAIR = seq_of [lit ''<'', spaces, tag_name, Boundary, but (CHR ''>''), lit ''>'', but (CHR ''<''),
     lit ''<'', spaces, lit ''/'', spaces, tag_name, spaces, lit ''>'']"

definition SELF_CLOSING_TAG :: rx where
  "SELF_CLOSING_TAG = seq_of [lit ''<'', spaces, tag_name, Boundary, but (CHR ''>''), lit ''/'', spaces, lit ''>'']"

definition OPENING_TAG :: rx where
  "OPENING_TAG = seq_of [lit ''<'', spaces, tag_name, Boundary, but (CHR ''>''), lit ''>'']"

definition MENTION_PREFIX :: rx where
  "MENTION_PREFIX = seq_of [AtStart, lit ''['', plus (One (\<lambda>c. c \<noteq> CHR '']'')), lit '']'', plus (One is_space)]"

definition CHAT_MENTION :: rx where
  "CHAT_MENTION = seq_of [lit ''@'', One is_letter, Star (One (\<lambda>c. is_word c \<or> c = CHR ''-'')), lit '':'',
     plus (One (\<lambda>c. \<not> is_space c))]"

definition ATTACHMENT_REF :: rx where
  "ATTACHMENT_REF = Cat (lit ''#attachment:'') (but (CHR 0x0A))"

definition BLANK_LINE :: rx where
  "BLANK_LINE = seq_of [lit [CHR 0x0A], spaces, lit [CHR 0x0A]]"

subsection \<open>Contents\<close>

definition sub_texts :: "json \<Rightarrow> string list" where
  "sub_texts sub = (case sub of
      JObj d \<Rightarrow> (case map_of d ''text'' of Some (JStr s) \<Rightarrow> [s] | _ \<Rightarrow> [])
    | _ \<Rightarrow> [])"

definition block_texts :: "json \<Rightarrow> string list" where
  "block_texts block = (case block of
      JObj d \<Rightarrow> (case map_of d ''text'' of
          Some (JStr s) \<Rightarrow> [s]
        | _ \<Rightarrow> if dget d ''type'' JNull = JStr ''tool_result''
               then (case dget d ''content'' JNull of
                   JStr s \<Rightarrow> [s]
                 | JList subs \<Rightarrow> concat (map sub_texts subs)
                 | _ \<Rightarrow> [])
               else [])
    | _ \<Rightarrow> [])"

definition content_text :: "obj \<Rightarrow> string" where
  "content_text msg = (case dget msg ''content'' JNull of
      JStr s \<Rightarrow> s
    | JList blocks \<Rightarrow> join '' '' (concat (map block_texts blocks))
    | _ \<Rightarrow> [])"

definition has_block :: "string list \<Rightarrow> obj \<Rightarrow> bool" where
  "has_block types msg = (case dget msg ''content'' JNull of
      JList blocks \<Rightarrow> list_ex (\<lambda>b. case b of
          JObj d \<Rightarrow> dget d ''type'' JNull \<in> set (map JStr types) | _ \<Rightarrow> False) blocks
    | _ \<Rightarrow> False)"

definition message_has_tool_calls :: "obj \<Rightarrow> bool" where
  "message_has_tool_calls msg \<longleftrightarrow> truthy_opt (map_of msg ''tool_calls'') \<or> has_block [''tool_use'', ''tool_call''] msg"

definition has_tool_result_blocks :: "obj \<Rightarrow> bool" where
  "has_tool_result_blocks msg = has_block [''tool_result''] msg"

definition matches_tool_result_patterns :: "string \<Rightarrow> bool" where
  "matches_tool_result_patterns text \<longleftrightarrow>
     (let low = lower (strip text) in
      low \<noteq> [] \<and>
      (list_ex (starts_with low) TOOL_RESULT_PREFIXES \<or>
       list_ex (\<lambda>r. rx_found r low) TOOL_RESULT_PATTERNS \<or>
       starts_with (lstrip low) ''diff --git'' \<or>
       starts_with low ''['' \<and> ends_with low '']'' \<and> contains low [CHR 0x22]))"

definition is_client_context :: "string \<Rightarrow> bool" where
  "is_client_context text =
     (let low = lower (strip text) in
      case low of
        [] \<Rightarrow> False
      | c # cs \<Rightarrow>
          if c = CHR ''<'' then True
          else if c = CHR ''['' then \<not> matches_tool_result_patterns text
          else list_ex (starts_with low) CLIENT_CONTEXT_PHRASES)"

subsection \<open>Taking a wrapper apart\<close>

text \<open>Each round deletes something, so the loop ends.\<close>

definition strip_round :: "string \<Rightarrow> string" where
  "strip_round raw = rx_sub SELF_CLOSING_TAG [] [] (rx_sub INNER_TAG_PAIR [] [] raw)"

lemma strip_round_shorter: "strip_round raw \<noteq> raw \<Longrightarrow> length (strip_round raw) < length raw"
proof -
  let ?a = "rx_sub INNER_TAG_PAIR [] [] raw"
  assume ne: "strip_round raw \<noteq> raw"
  show "length (strip_round raw) < length raw"
  proof (cases "?a = raw")
    case True
    then show ?thesis using ne rx_sub_shorter [of SELF_CLOSING_TAG "[]" raw] by (simp add: strip_round_def)
  next
    case False
    then show ?thesis
      using rx_sub_shorter [OF False] rx_sub_length [of SELF_CLOSING_TAG "[]" ?a] by (simp add: strip_round_def)
  qed
qed

function strip_complete_pairs :: "string \<Rightarrow> string" where
  "strip_complete_pairs raw = (if strip_round raw = raw then raw else strip_complete_pairs (strip_round raw))"
  by auto
termination by (relation "measure length") (auto dest: strip_round_shorter)

declare strip_complete_pairs.simps [simp del]

function strip_bracket_segments :: "string \<Rightarrow> string" where
  "strip_bracket_segments raw =
     (if starts_with raw ''['' \<and> CHR '']'' \<in> set raw
      then strip_bracket_segments (tl (dropWhile (\<lambda>c. c \<noteq> CHR '']'') raw)) else raw)"
  by auto
termination
proof (relation "measure length")
  fix raw :: string
  assume "starts_with raw ''['' \<and> CHR '']'' \<in> set raw"
  then have "raw \<noteq> []" by auto
  moreover have "length (dropWhile (\<lambda>c. c \<noteq> CHR '']'') raw) \<le> length raw" by (rule length_dropWhile_le)
  ultimately show "(tl (dropWhile (\<lambda>c. c \<noteq> CHR '']'') raw), raw) \<in> measure length" by (cases raw) auto
qed simp

declare strip_bracket_segments.simps [simp del]

definition strip_mention :: "string \<Rightarrow> string" where
  "strip_mention text = strip (case rx_search MENTION_PREFIX [] text of
      Some (before, m, after) \<Rightarrow> before @ after
    | None \<Rightarrow> text)"

definition strip_chat_mentions :: "string \<Rightarrow> string" where
  "strip_chat_mentions text =
     (if text = [] \<or> \<not> contains text ''@'' \<and> \<not> contains text ''#attachment'' then text
      else strip (rx_sub ATTACHMENT_REF [] [] (rx_sub CHAT_MENTION [] [] text)))"

definition edge_char :: "char \<Rightarrow> bool" where
  "edge_char c \<longleftrightarrow> c \<in> set [CHR '' '', CHR 0x0A, CHR 0x09, CHR '':'', CHR ''-'']"

definition strip_edges :: "string \<Rightarrow> string" where
  "strip_edges s = dropWhile edge_char (rev (dropWhile edge_char (rev s)))"

definition is_ack :: "string \<Rightarrow> bool" where
  "is_ack t \<longleftrightarrow> lstrip (lower t) \<in> set CONTINUATIONS"

definition instruction :: "string \<Rightarrow> string option" where
  "instruction t = (if t \<noteq> [] \<and> \<not> is_ack t then Some t else None)"

definition before_open_tag :: "string \<Rightarrow> string" where
  "before_open_tag rest = (case rx_search OPENING_TAG [] rest of Some (before, _, _) \<Rightarrow> before | None \<Rightarrow> rest)"

definition context_tail :: "string \<Rightarrow> string option" where
  "context_tail text =
     (if \<not> is_client_context text then None
      else let raw = strip text in
        case rx_group USER_REQUEST_OPEN (Lazy (One (\<lambda>c. True))) USER_REQUEST_CLOSE [] raw of
          Some content \<Rightarrow> instruction (strip_chat_mentions (strip_mention (strip_edges content)))
        | None \<Rightarrow>
            if starts_with raw ''['' then
              (let stripped = strip_bracket_segments raw in
               if stripped = raw then None else instruction (strip_edges (strip_chat_mentions stripped)))
            else instruction (strip_edges (strip_chat_mentions (before_open_tag (strip_complete_pairs raw)))))"

definition strip_client_context :: "obj list \<Rightarrow> obj list" where
  "strip_client_context messages = List.map_filter (\<lambda>msg.
     let text = content_text msg in
     if is_client_context text
     then (case context_tail text of
         None \<Rightarrow> None
       | Some t \<Rightarrow> if t = [] \<or> is_ack t then None else Some (AList.update ''content'' (JStr t) msg))
     else Some msg) messages"

subsection \<open>Acknowledgements and preambles\<close>

definition squeeze :: "string \<Rightarrow> string" where
  "squeeze s = rx_sub (plus (One is_space)) '' '' [] s"

definition ascii_alnum :: "char \<Rightarrow> bool" where
  "ascii_alnum c \<longleftrightarrow> 97 \<le> code c \<and> code c \<le> 122 \<or> is_digit c"

text \<open>\<open>s.split()\<close> of a text whose words are separated by single spaces.\<close>

definition words_of :: "string \<Rightarrow> string list" where
  "words_of s = filter (\<lambda>w. w \<noteq> []) (split_on (CHR '' '') s)"

definition is_continuation :: "string \<Rightarrow> bool" where
  "is_continuation text =
     (let norm = strip (squeeze (filter (\<lambda>c. ascii_alnum c \<or> is_space c) (lower (strip text)))); words = words_of norm in
      norm \<in> set CONTINUATIONS \<or>
      length words \<le> 3 \<and>
      \<not> list_ex (\<lambda>task. list_ex (contains norm) (signals_of task)) SPECIFIC_TASKS \<and>
      \<not> list_ex (\<lambda>w. w \<in> set SHORT_INSTRUCTION_STARTERS) words)"

definition preamble_parts :: "string \<Rightarrow> string \<times> string option" where
  "preamble_parts text = (case rx_search BLANK_LINE [] (strip text) of
      Some (before, _, after) \<Rightarrow> (before, Some after)
    | None \<Rightarrow> (strip text, None))"

definition preamble_head :: "string \<Rightarrow> string" where
  "preamble_head text = strip (fst (preamble_parts text))"

definition PREAMBLE_MIN_LEN :: nat where "PREAMBLE_MIN_LEN = 120"

definition telling :: "string \<Rightarrow> bool" where
  "telling kw \<longleftrightarrow> contains kw '' '' \<or> 6 < length kw"

definition is_preamble_like :: "string \<Rightarrow> bool" where
  "is_preamble_like text =
     (let head = preamble_head text; norm = squeeze (lower head) in
      head \<noteq> [] \<and> PREAMBLE_MIN_LEN \<le> length norm \<and> \<not> is_continuation head \<and>
      \<not> list_ex (\<lambda>task. list_ex (contains norm) (filter telling (signals_of task))) SPECIFIC_TASKS)"

definition preamble_tail :: "string \<Rightarrow> string option" where
  "preamble_tail text =
     (if \<not> is_preamble_like text then None
      else case snd (preamble_parts text) of None \<Rightarrow> None | Some after \<Rightarrow> instruction (strip_edges after))"

subsection \<open>The newest genuine instruction\<close>

text \<open>\<open>earlier\<close> is the conversation before the message, newest first.\<close>

definition is_tool_result :: "obj \<Rightarrow> obj list \<Rightarrow> bool" where
  "is_tool_result msg earlier \<longleftrightarrow>
     dget msg ''tool_call_id'' JNull \<noteq> JNull \<or> has_tool_result_blocks msg \<or>
     (case earlier of [] \<Rightarrow> False | m # _ \<Rightarrow> dget m ''role'' JNull = JStr ''assistant'' \<and> message_has_tool_calls m) \<or>
     matches_tool_result_patterns (content_text msg)"

datatype verdict = ToolEcho | Instruction string | ContextOnly | PreambleOnly | Acknowledgement

definition judge :: "obj \<Rightarrow> obj list \<Rightarrow> verdict" where
  "judge msg earlier =
     (let text = content_text msg; usable = (\<lambda>t dflt. case t of
          None \<Rightarrow> dflt | Some s \<Rightarrow> if s = [] \<or> is_ack s then dflt else Instruction s) in
      if is_tool_result msg earlier then ToolEcho
      else if is_client_context text then usable (context_tail text) ContextOnly
      else if is_preamble_like text then usable (preamble_tail text) PreambleOnly
      else if is_continuation text then Acknowledgement
      else let stripped = strip_chat_mentions (strip_mention text) in
        Instruction (strip (if stripped = [] then text else stripped)))"

record intent_meta =
  im_source :: string
  im_skipped_tool :: nat
  im_skipped_cont :: nat
  im_skipped_context :: nat
  im_skipped_preamble :: nat
  im_preamble :: bool

definition no_meta :: intent_meta where
  "no_meta = \<lparr>im_source = ''none'', im_skipped_tool = 0, im_skipped_cont = 0, im_skipped_context = 0,
     im_skipped_preamble = 0, im_preamble = False\<rparr>"

definition fallback_intent :: "string \<Rightarrow> string \<Rightarrow> intent_meta \<Rightarrow> string \<times> intent_meta" where
  "fallback_intent first_user last_preamble meta =
     (if last_preamble \<noteq> [] then (strip last_preamble, meta\<lparr>im_source := ''preamble''\<rparr>)
      else let stripped = strip_chat_mentions (strip_mention first_user) in
        (strip (if stripped = [] then first_user else stripped), meta\<lparr>im_source := ''first_user_fallback''\<rparr>))"

text \<open>The walk from the newest message back; any role but the three named ones is the user's.\<close>

fun walk :: "obj list \<Rightarrow> string \<Rightarrow> string \<Rightarrow> intent_meta \<Rightarrow> string \<times> intent_meta" where
  "walk [] first_user last_preamble meta = fallback_intent first_user last_preamble meta"
| "walk (msg # earlier) first_user last_preamble meta =
     (let role = dget msg ''role'' JNull; text = content_text msg;
          first = (if strip text \<noteq> [] \<and> \<not> is_client_context text \<and> \<not> is_preamble_like text then text else first_user) in
      if role = JStr ''system'' then walk earlier first_user last_preamble meta
      else if role = JStr ''assistant'' then walk earlier first_user last_preamble meta
      else if role = JStr ''tool''
      then walk earlier first_user last_preamble (meta\<lparr>im_skipped_tool := im_skipped_tool meta + 1\<rparr>)
      else case judge msg earlier of
        ToolEcho \<Rightarrow> walk earlier first last_preamble (meta\<lparr>im_skipped_tool := im_skipped_tool meta + 1\<rparr>)
      | Instruction t \<Rightarrow> (t, meta\<lparr>im_source := ''last_instruction''\<rparr>)
      | ContextOnly \<Rightarrow> walk earlier first last_preamble (meta\<lparr>im_skipped_context := im_skipped_context meta + 1\<rparr>)
      | PreambleOnly \<Rightarrow> walk earlier first text
          (meta\<lparr>im_skipped_preamble := im_skipped_preamble meta + 1, im_preamble := True\<rparr>)
      | Acknowledgement \<Rightarrow> walk earlier first last_preamble (meta\<lparr>im_skipped_cont := im_skipped_cont meta + 1\<rparr>))"

definition extract_intent_text :: "obj list \<Rightarrow> string \<times> intent_meta" where
  "extract_intent_text messages = (if messages = [] then ([], no_meta) else walk (rev messages) [] [] no_meta)"

section \<open>What the extraction depends on\<close>

text \<open>Two messages that cannot be told apart: of another role than the user's, and an assistant's calls tools or does not.\<close>

definition same_for_intent :: "obj \<Rightarrow> obj \<Rightarrow> bool" where
  "same_for_intent m m' \<longleftrightarrow> m = m' \<or>
     dget m ''role'' JNull = dget m' ''role'' JNull \<and>
     dget m ''role'' JNull \<in> set [JStr ''system'', JStr ''assistant'', JStr ''tool''] \<and>
     message_has_tool_calls m = message_has_tool_calls m'"

lemma same_role: "same_for_intent m m' \<Longrightarrow> dget m ''role'' JNull = dget m' ''role'' JNull"
  by (auto simp: same_for_intent_def)

lemma same_calls: "same_for_intent m m' \<Longrightarrow> message_has_tool_calls m = message_has_tool_calls m'"
  by (auto simp: same_for_intent_def)

lemma same_is_tool_result:
  "list_all2 same_for_intent earlier earlier' \<Longrightarrow> is_tool_result m earlier = is_tool_result m earlier'"
proof (cases earlier; cases earlier')
  fix a as b bs
  assume 1: "list_all2 same_for_intent earlier earlier'" and e: "earlier = a # as" "earlier' = b # bs"
  then have ab: "same_for_intent a b" by simp
  show ?thesis unfolding is_tool_result_def e list.case same_role [OF ab] same_calls [OF ab] ..
qed (simp_all add: is_tool_result_def)

lemma same_judge: "list_all2 same_for_intent earlier earlier' \<Longrightarrow> judge m earlier = judge m earlier'"
  by (simp add: judge_def same_is_tool_result)

lemma same_walk:
  "list_all2 same_for_intent ms ms' \<Longrightarrow> walk ms first pre meta = walk ms' first pre meta"
proof (induction ms ms' arbitrary: first pre meta rule: list_all2_induct)
  case (Cons m ms m' ms')
  show ?case
  proof (cases "m = m'")
    case True
    with Cons same_judge [OF Cons.hyps(2)] show ?thesis
      by (simp only: walk.simps Let_def)
  next
    case False
    then have r: "dget m ''role'' JNull = dget m' ''role'' JNull"
      and "dget m ''role'' JNull \<in> set [JStr ''system'', JStr ''assistant'', JStr ''tool'']"
      using Cons.hyps(1) by (auto simp: same_for_intent_def)
    then consider "dget m ''role'' JNull = JStr ''system''" | "dget m ''role'' JNull = JStr ''assistant''"
      | "dget m ''role'' JNull = JStr ''tool''" by (auto simp only: set_simps)
    then show ?thesis
      using r Cons.IH by cases (simp_all only: walk.simps Let_def if_True, simp_all)
  qed
qed simp

text \<open>
  Also: The intent does not depend on what the system, the assistant or a tool said: replacing the text of their
  messages, while an assistant's message keeps calling tools or not, changes neither the extracted text nor its
  account.
\<close>

theorem intent_ignores_other_roles:
  assumes "list_all2 same_for_intent messages messages'"
  shows "extract_intent_text messages = extract_intent_text messages'"
  using assms same_walk [of "rev messages" "rev messages'"] list_all2_rev [of same_for_intent messages messages']
  by (auto simp: extract_intent_text_def)

subsection \<open>The newest instruction\<close>

definition from_user :: "obj \<Rightarrow> bool" where
  "from_user m \<longleftrightarrow> dget m ''role'' JNull \<notin> set [JStr ''system'', JStr ''assistant'', JStr ''tool'']"

text \<open>The specification: the first instruction among the messages of the user, newest first.\<close>

fun newest_instruction :: "obj list \<Rightarrow> string option" where
  "newest_instruction [] = None"
| "newest_instruction (m # earlier) =
     (case (if from_user m then judge m earlier else ToolEcho) of
        Instruction t \<Rightarrow> Some t | _ \<Rightarrow> newest_instruction earlier)"

lemma walk_other: "\<not> from_user m \<Longrightarrow> \<exists>meta'. walk (m # earlier) first pre meta = walk earlier first pre meta' \<and>
    im_preamble meta' = im_preamble meta"
proof -
  assume "\<not> from_user m"
  then consider "dget m ''role'' JNull = JStr ''system''" | "dget m ''role'' JNull = JStr ''assistant''"
    | "dget m ''role'' JNull = JStr ''tool''" by (auto simp only: from_user_def set_simps)
  then show ?thesis
  proof cases
    case 3
    have "walk (m # earlier) first pre meta = walk earlier first pre (meta\<lparr>im_skipped_tool := im_skipped_tool meta + 1\<rparr>)"
      unfolding walk.simps Let_def 3 by simp
    then show ?thesis by (intro exI [of _ "meta\<lparr>im_skipped_tool := im_skipped_tool meta + 1\<rparr>"] conjI) (simp_all del: walk.simps)
  qed (intro exI [of _ meta], simp)+
qed

lemma walk_user: "from_user m \<Longrightarrow> \<exists>first'. walk (m # earlier) first pre meta = (case judge m earlier of
    ToolEcho \<Rightarrow> walk earlier first' pre (meta\<lparr>im_skipped_tool := im_skipped_tool meta + 1\<rparr>)
  | Instruction t \<Rightarrow> (t, meta\<lparr>im_source := ''last_instruction''\<rparr>)
  | ContextOnly \<Rightarrow> walk earlier first' pre (meta\<lparr>im_skipped_context := im_skipped_context meta + 1\<rparr>)
  | PreambleOnly \<Rightarrow> walk earlier first' (content_text m)
      (meta\<lparr>im_skipped_preamble := im_skipped_preamble meta + 1, im_preamble := True\<rparr>)
  | Acknowledgement \<Rightarrow> walk earlier first' pre (meta\<lparr>im_skipped_cont := im_skipped_cont meta + 1\<rparr>))"
  unfolding from_user_def walk.simps Let_def by (intro exI) (simp only: set_simps insert_iff de_Morgan_disj if_False)

lemma walk_newest:
  "newest_instruction ms = Some t \<Longrightarrow>
   fst (walk ms first pre meta) = t \<and> im_source (snd (walk ms first pre meta)) = ''last_instruction'' \<and>
   (im_preamble meta \<longrightarrow> im_preamble (snd (walk ms first pre meta)))"
proof (induction ms arbitrary: first pre meta)
  case (Cons m earlier)
  show ?case
  proof (cases "from_user m")
    case True
    then obtain first' where "walk (m # earlier) first pre meta = (case judge m earlier of
        ToolEcho \<Rightarrow> walk earlier first' pre (meta\<lparr>im_skipped_tool := im_skipped_tool meta + 1\<rparr>)
      | Instruction t \<Rightarrow> (t, meta\<lparr>im_source := ''last_instruction''\<rparr>)
      | ContextOnly \<Rightarrow> walk earlier first' pre (meta\<lparr>im_skipped_context := im_skipped_context meta + 1\<rparr>)
      | PreambleOnly \<Rightarrow> walk earlier first' (content_text m)
          (meta\<lparr>im_skipped_preamble := im_skipped_preamble meta + 1, im_preamble := True\<rparr>)
      | Acknowledgement \<Rightarrow> walk earlier first' pre (meta\<lparr>im_skipped_cont := im_skipped_cont meta + 1\<rparr>))"
      using walk_user by blast
    with Cons True show ?thesis by (cases "judge m earlier") (simp_all del: walk.simps)
  next
    case False
    then obtain meta' where "walk (m # earlier) first pre meta = walk earlier first pre meta'"
      and "im_preamble meta' = im_preamble meta" using walk_other by blast
    with Cons False show ?thesis by (simp del: walk.simps)
  qed
qed simp

definition known_source :: "intent_meta \<Rightarrow> bool" where
  "known_source meta \<longleftrightarrow> im_source meta \<in> set [''last_instruction'', ''preamble'', ''first_user_fallback'']"

lemma walk_source: "known_source (snd (walk ms first pre meta))"
proof (induction ms arbitrary: first pre meta)
  case Nil
  show ?case by (simp add: fallback_intent_def Let_def known_source_def)
next
  case (Cons m earlier)
  show ?case
  proof (cases "from_user m")
    case True
    obtain first' where "walk (m # earlier) first pre meta = (case judge m earlier of
        ToolEcho \<Rightarrow> walk earlier first' pre (meta\<lparr>im_skipped_tool := im_skipped_tool meta + 1\<rparr>)
      | Instruction t \<Rightarrow> (t, meta\<lparr>im_source := ''last_instruction''\<rparr>)
      | ContextOnly \<Rightarrow> walk earlier first' pre (meta\<lparr>im_skipped_context := im_skipped_context meta + 1\<rparr>)
      | PreambleOnly \<Rightarrow> walk earlier first' (content_text m)
          (meta\<lparr>im_skipped_preamble := im_skipped_preamble meta + 1, im_preamble := True\<rparr>)
      | Acknowledgement \<Rightarrow> walk earlier first' pre (meta\<lparr>im_skipped_cont := im_skipped_cont meta + 1\<rparr>))"
      using walk_user [OF True] by blast
    with Cons.IH show ?thesis by (cases "judge m earlier") (simp_all del: walk.simps, simp add: known_source_def)
  next
    case False
    obtain meta' where "walk (m # earlier) first pre meta = walk earlier first pre meta'"
      using walk_other [OF False] by blast
    with Cons.IH show ?thesis by (simp del: walk.simps)
  qed
qed

text \<open>
  Also: The extraction refines its specification: when some message of the user is judged an instruction, the text is
  that of the newest one, and the account says so.
\<close>

theorem newest_instruction_is_extracted:
  assumes "newest_instruction (rev messages) = Some t"
  shows "fst (extract_intent_text messages) = t \<and> im_source (snd (extract_intent_text messages)) = ''last_instruction''"
  using walk_newest [OF assms] assms by (auto simp: extract_intent_text_def)

text \<open>
  Also: A preamble after a genuine instruction marks the conversation as having nothing but a preamble: the text is
  the earlier instruction, and the flag that stands for \<open>no instruction\<close> is set as well.
\<close>

theorem preamble_flag_with_an_instruction:
  assumes "newest_instruction (rev messages) = Some t" and "from_user m" and "judge m (rev messages) = PreambleOnly"
  shows "fst (extract_intent_text (messages @ [m])) = t \<and> im_preamble (snd (extract_intent_text (messages @ [m])))"
proof -
  obtain first' where "walk (m # rev messages) [] [] no_meta = walk (rev messages) first' (content_text m)
      (no_meta\<lparr>im_skipped_preamble := im_skipped_preamble no_meta + 1, im_preamble := True\<rparr>)"
    using walk_user [OF assms(2), of "rev messages" "[]" "[]" no_meta] assms(3) by auto
  then show ?thesis
    using walk_newest [OF assms(1)] by (simp add: extract_intent_text_def del: walk.simps)
qed

subsection \<open>Acknowledgements\<close>

lemma squeeze_Nil [simp]: "squeeze [] = []"
  by (simp add: squeeze_def)

lemma rx_sub_chars: "set (rx_sub r new pre s) \<subseteq> set new \<union> set s"
proof (induction r new pre s rule: rx_sub.induct)
  case (2 r new pre c cs)
  show ?case
  proof (cases "ends r pre (c # cs)")
    case Nil
    with 2 show ?thesis by auto
  next
    case (Cons pq rest)
    obtain p q where pq: "pq = (p, q)" by force
    show ?thesis
    proof (cases "length q \<le> length cs")
      case True
      have "splits pre (c # cs) p q" using Cons pq by (intro ends_splits [of _ _ r]) simp
      then have "set q \<subseteq> set (c # cs)" unfolding splits_def by (metis Un_upper2 set_append)
      moreover have "set (rx_sub r new p q) \<subseteq> set new \<union> set q" by (rule "2.IH"(2) [OF Cons pq [symmetric] True])
      ultimately show ?thesis using True Cons pq by auto
    next
      case False
      have "set (rx_sub r new (c # pre) cs) \<subseteq> set new \<union> set cs" by (rule "2.IH"(3) [OF Cons pq [symmetric] False])
      with False Cons pq show ?thesis by auto
    qed
  qed
qed simp

lemma all_space_strip: "\<forall>c \<in> set s. is_space c \<Longrightarrow> strip s = []"
  by (auto simp: strip_def rstrip_def lstrip_def dropWhile_eq_Nil_conv dest!: set_dropWhileD)

text \<open>
  Also: A message without an ASCII letter or digit counts as an acknowledgement, however long it is: an instruction
  in another script is never the intent.
\<close>

theorem other_scripts_are_acknowledgements:
  assumes "\<forall>c \<in> set text. \<not> ascii_alnum (lower_char c)"
  shows "is_continuation text"
proof -
  let ?kept = "filter (\<lambda>c. ascii_alnum c \<or> is_space c) (lower (strip text))"
  have "set (strip text) \<subseteq> set text"
    unfolding strip_def rstrip_def lstrip_def by (auto dest!: set_dropWhileD)
  then have "\<forall>c \<in> set ?kept. is_space c"
    using assms by (auto simp: lower_def)
  then have "\<forall>c \<in> set (squeeze ?kept). is_space c"
    using rx_sub_chars [of "plus (One is_space)" "'' ''" "[]" ?kept] by (auto simp: squeeze_def is_space_def code_def)
  then have norm: "strip (squeeze ?kept) = []" by (rule all_space_strip)
  have "is_continuation text = (let norm = []; words = words_of norm in
      norm \<in> set CONTINUATIONS \<or> length words \<le> 3 \<and>
      \<not> list_ex (\<lambda>task. list_ex (contains norm) (signals_of task)) SPECIFIC_TASKS \<and>
      \<not> list_ex (\<lambda>w. w \<in> set SHORT_INSTRUCTION_STARTERS) words)"
    unfolding is_continuation_def norm Let_def ..
  also have "\<dots>" by code_simp
  finally show ?thesis by simp
qed

subsection \<open>Wrappers\<close>

text \<open>
  Also: The removal of tag pairs ends: after at most as many rounds as the text has characters there is nothing left
  to remove.
\<close>

theorem tag_removal_ends:
  "\<exists>n \<le> length raw. (strip_round ^^ n) raw = strip_complete_pairs raw \<and>
     strip_round (strip_complete_pairs raw) = strip_complete_pairs raw"
proof (induction raw rule: strip_complete_pairs.induct)
  case (1 raw)
  show ?case
  proof (cases "strip_round raw = raw")
    case True
    then have "strip_complete_pairs raw = raw" by (simp add: strip_complete_pairs.simps [of raw])
    with True show ?thesis by (intro exI [of _ 0]) simp
  next
    case False
    obtain n where n: "n \<le> length (strip_round raw)" "(strip_round ^^ n) (strip_round raw) = strip_complete_pairs (strip_round raw)"
      "strip_round (strip_complete_pairs (strip_round raw)) = strip_complete_pairs (strip_round raw)"
      using "1" [OF False] by blast
    have "strip_complete_pairs raw = strip_complete_pairs (strip_round raw)"
      using False by (simp add: strip_complete_pairs.simps [of raw])
    moreover have "(strip_round ^^ Suc n) raw = (strip_round ^^ n) (strip_round raw)" by (simp add: funpow_swap1)
    ultimately show ?thesis
      using n strip_round_shorter [OF False] by (intro exI [of _ "Suc n"]) simp
  qed
qed

text \<open>A request that begins with a tag name is taken for an unclosed wrapper, and nothing of it is an instruction.\<close>

lemma tag_first_request_is_dropped: "context_tail ''<div> is off, fix it'' = None"
  by code_simp

lemma pasted_failure_is_tool_output: "matches_tool_result_patterns ''please fix the 3 failed tests''"
  by code_simp

subsection \<open>A demonstration\<close>

definition user_says :: "string \<Rightarrow> obj" where
  "user_says t = [(''role'', JStr ''user''), (''content'', JStr t)]"

definition assistant_says :: "string \<Rightarrow> obj" where
  "assistant_says t = [(''role'', JStr ''assistant''), (''content'', JStr t)]"

definition long_notice :: string where
  "long_notice = ''this is a long and friendly notice that says nothing of any use to anyone at all and goes on and on '' @
     ''for quite a while until it stops''"

lemma demo_instruction: "newest_instruction (rev [user_says ''fix the login page'']) = Some ''fix the login page''"
  by code_simp

lemma demo_preamble: "judge (user_says long_notice) (rev [user_says ''fix the login page'']) = PreambleOnly"
  by code_simp

theorem newest_instruction_is_extracted_witness:
  "fst (extract_intent_text [user_says ''fix the login page'']) = ''fix the login page''"
  using newest_instruction_is_extracted [OF demo_instruction] by simp

theorem preamble_flag_with_an_instruction_witness:
  "im_preamble (snd (extract_intent_text ([user_says ''fix the login page''] @ [user_says long_notice])))"
  using preamble_flag_with_an_instruction [OF demo_instruction _ demo_preamble]
  by (simp add: user_says_def from_user_def)

theorem intent_ignores_other_roles_witness:
  "extract_intent_text [assistant_says ''pytest failed'', user_says ''go on please now do it''] =
   extract_intent_text [assistant_says ''all is well'', user_says ''go on please now do it'']"
  by (rule intent_ignores_other_roles) (simp add: same_for_intent_def assistant_says_def message_has_tool_calls_def has_block_def)

theorem other_scripts_are_acknowledgements_witness:
  "is_continuation [CHR 0xE9, CHR 0xE8, CHR '' '', CHR 0xE0, CHR '' '', CHR 0xE9, CHR '' '', CHR 0xE8, CHR '' '', CHR 0xE7]"
  by (rule other_scripts_are_acknowledgements) (simp add: ascii_alnum_def lower_char_def code_def is_digit_def)

end
