(* ===== verification/Task_Classifier.thy ===== *)
theory Task_Classifier
  imports Message_Norm Stream_Tail Router
begin

section \<open>Classifying a request (src/api/task\_classifier.py, src/api/router.py)\<close>

text \<open>
  The semantic classifier compares the embedding of a text with the mean embedding of each task's examples; the
  router falls back to structural signs when it does not decide.  The embedder is an argument of every operation,
  since it may fail at one call and work at another: \<open>None\<close> when it raises.  A dash in an example is a hyphen.
\<close>

subsection \<open>The examples\<close>

definition TASK_EXEMPLARS :: "(string \<times> string list) list" where
  "TASK_EXEMPLARS =
    [(''agentic_multi_step'',
      [''You are an AI agent. Use the available tools to complete this multi-step task.'',
       ''Use your tools to browse the web and gather information, then act on it.'',
       ''Call the functions provided to fulfill this request step by step.'',
       ''You have access to tools - delegate and execute the plan autonomously.'']),
     (''unit_tests'',
      [''Write a pytest suite covering this function'' @ [CHR 0x27] @ ''s edge cases.'',
       ''Add unit tests for the new module, including mocking the database.'',
       ''Create test cases for the API endpoint and assert the responses.'',
       ''Write a test for this bug to prevent regression.'',
       ''Run the test suite and report which tests fail.'']),
     (''code_generation'',
      [''Write a Python function that parses this CSV file.'',
       ''Implement a REST endpoint in FastAPI that returns JSON.'',
       ''Create a bash script to deploy this service.'',
       ''Write a React component that renders a list of items.'',
       ''Review this existing file and make the changes we discussed.'',
       ''Refactor this function to be cleaner and update the callers.'',
       ''Look at this code and fix the issue in this file.'',
       ''Implement a sorting algorithm in Python.'',
       ''Write a function that implements this algorithm.'',
       ''Implement the binary search algorithm in code.'',
       ''Start the implementation now.'',
       ''Go ahead and implement it.'',
       ''Implement this change.'',
       ''Let'' @ [CHR 0x27] @ ''s implement this feature.'',
       ''Proceed with writing the code.'']),
     (''debugging'',
      [''Why does this code throw a KeyError? Here is the traceback.'',
       ''Debug this failing test - it works locally but not in CI.'',
       ''This endpoint returns 500. Help me find the bug.'',
       ''The build is failing with an import error. What'' @ [CHR 0x27] @ ''s wrong?'']),
     (''research_deep'',
      [''Explain how attention mechanisms work in transformers, in detail.'',
       ''Analyze the trade-offs between SQL and NoSQL for this workload.'',
       ''Compare and contrast microservices and monoliths thoroughly.'',
       ''Research the latest approaches to vector databases and summarize.'']),
     (''reasoning_chain'',
      [''Solve this logic puzzle step by step.'',
       ''Prove that this algorithm has O(n log n) complexity.'',
       ''Calculate the time complexity of this recurrence relation.'',
       ''Work through this mathematical problem carefully.'']),
     (''planning'',
      [''Design the architecture for a multi-tenant SaaS product.'',
       ''How should I structure this microservice codebase?'',
       ''Create a roadmap and data model for this new feature.'',
       ''Plan the tech stack and schema for this application.'',
       ''Create a step-by-step plan for this feature.'',
       ''Plan out the approach for this component.'',
       ''Let'' @ [CHR 0x27] @ ''s plan the strategy for this change.'']),
     (''casual_chat'',
      [''hello'',
       ''hi, how are you?'',
       ''thanks!'',
       ''good morning'',
       ''what'' @ [CHR 0x27] @ ''s up?''])]"

subsection \<open>The semantic classifier\<close>

type_synonym embedder = "string list \<Rightarrow> real list list option"

type_synonym centroids = "(string, real list) dict"

record semantic_classifier =
  sc_min_score :: real
  sc_centroids :: "centroids option"

definition sq_sum :: "real list \<Rightarrow> real" where
  "sq_sum v = sum_list (map (\<lambda>x. x * x) v)"

text \<open>\<open>math.sqrt(...) or 1.0\<close>\<close>

definition norm_or_one :: "real list \<Rightarrow> real" where
  "norm_or_one v = (if sqrt (sq_sum v) = 0 then 1 else sqrt (sq_sum v))"

definition cosine :: "real list \<Rightarrow> real list \<Rightarrow> real" where
  "cosine a b =
     (if a = [] \<or> b = [] \<or> length a \<noteq> length b then 0
      else sum_list (map2 (*) a b) / (norm_or_one a * norm_or_one b))"

text \<open>The mean of the vectors, in the dimension of the first; a shorter one raises.\<close>

definition mean_vector :: "nat \<Rightarrow> real list list \<Rightarrow> real list res" where
  "mean_vector d vs =
     (if list_all (\<lambda>v. d \<le> length v) vs
      then Inr (map (\<lambda>i. sum_list (map (\<lambda>v. v ! i) vs) / real (length vs)) [0..<d])
      else Inl IndexError)"

definition unit_vector :: "real list \<Rightarrow> real list" where
  "unit_vector v = map (\<lambda>x. x / norm_or_one v) v"

fun centroids_of :: "embedder \<Rightarrow> (string \<times> string list) list \<Rightarrow> centroids res" where
  "centroids_of emb [] = Inr []"
| "centroids_of emb ((task, examples) # rest) =
     (case (if examples = [] then None else emb examples) of
        None \<Rightarrow> centroids_of emb rest
      | Some vs \<Rightarrow>
          if vs = [] \<or> hd vs = [] then centroids_of emb rest
          else rbind (mean_vector (length (hd vs)) vs) (\<lambda>m.
               rbind (centroids_of emb rest) (\<lambda>cs. Inr ((task, unit_vector m) # cs))))"

text \<open>The centroids are built once; \<open>emb\<close> is absent when the classifier has no embedder.\<close>

definition build_centroids :: "embedder option \<Rightarrow> semantic_classifier \<Rightarrow> semantic_classifier res" where
  "build_centroids emb c =
     (case (sc_centroids c, emb) of
        (None, Some e) \<Rightarrow> rbind (centroids_of e TASK_EXEMPLARS) (\<lambda>cs. Inr (c\<lparr>sc_centroids := Some cs\<rparr>))
      | _ \<Rightarrow> Inr c)"

definition scores_of :: "embedder \<Rightarrow> string \<Rightarrow> centroids \<Rightarrow> (string \<times> real) list res" where
  "scores_of emb text cs =
     (case emb [text] of
        None \<Rightarrow> Inr []
      | Some [] \<Rightarrow> Inr []
      | Some (vec # _) \<Rightarrow> Inr (sort_key (\<lambda>x. - snd x) (map (\<lambda>(task, centroid). (task, cosine vec centroid)) cs)))"

definition top_scores :: "embedder option \<Rightarrow> string \<Rightarrow> nat \<Rightarrow> semantic_classifier \<Rightarrow>
    ((string \<times> real) list \<times> semantic_classifier) res" where
  "top_scores emb text k c =
     (case emb of None \<Rightarrow> Inr ([], c) | Some e \<Rightarrow>
      if text = [] then Inr ([], c)
      else rbind (build_centroids emb c) (\<lambda>c'.
        (case sc_centroids c' of
           None \<Rightarrow> Inr ([], c')
         | Some cs \<Rightarrow> if cs = [] then Inr ([], c')
             else rbind (scores_of e text cs) (\<lambda>ss. Inr (take k ss, c')))))"

definition semantic_classify :: "embedder option \<Rightarrow> string \<Rightarrow> semantic_classifier \<Rightarrow> (string option \<times> semantic_classifier) res" where
  "semantic_classify emb text c =
     rbind (top_scores emb text 1 c) (\<lambda>(ss, c').
       Inr (case ss of [] \<Rightarrow> None | (task, score) # _ \<Rightarrow> if score < sc_min_score c' then None else Some task, c'))"

text \<open>Whether an embedder gives a signal at all.\<close>

definition probe_embed :: "embedder option \<Rightarrow> bool" where
  "probe_embed emb = (case emb of None \<Rightarrow> False | Some e \<Rightarrow>
     (case e [''semantic probe''] of
        Some (vec # _) \<Rightarrow> list_ex (\<lambda>x. 1 / 1000000000 < \<bar>x\<bar>) vec
      | _ \<Rightarrow> False))"

subsection \<open>The decision of the router\<close>

definition CASUAL_SIGNALS :: "string list" where
  "CASUAL_SIGNALS = [''hello'', ''hi '', ''hey'', ''thanks'', ''thank you'', ''how are you'',
     ''what'' @ [CHR 0x27] @ ''s up'', ''good morning'', ''good night'']"

record classify_result =
  cr_task :: string
  cr_path :: string
  cr_keyword :: "string option"
  cr_intent_text :: string
  cr_intent_meta :: intent_meta
  cr_semantic :: "(string \<times> real) list option"
  cr_min_score :: "real option"
  cr_sem_available :: bool
  cr_tool_count :: nat
  cr_token_count :: int

text \<open>What a message adds to the text of the conversation.\<close>

definition spoken :: "obj \<Rightarrow> string" where
  "spoken msg =
     (if dget msg ''role'' JNull = JStr ''system'' then []
      else let text = content_text msg in
        if is_client_context text
        then (case context_tail text of
            None \<Rightarrow> []
          | Some t \<Rightarrow> if t = [] \<or> is_ack t then [] else lower (strip_chat_mentions t) @ '' '')
        else lower (strip_chat_mentions text) @ '' '')"

definition combined_text :: "obj list \<Rightarrow> string" where
  "combined_text messages = concat (map spoken messages)"

definition user_text :: "obj list \<Rightarrow> string" where
  "user_text messages = concat (map spoken (filter (\<lambda>m. dget m ''role'' JNull = JStr ''user'') messages))"

definition system_text :: "obj list \<Rightarrow> string" where
  "system_text messages = (case messages of
      m # _ \<Rightarrow> if dget m ''role'' JNull = JStr ''system''
        then (case dget m ''content'' (JStr []) of JStr s \<Rightarrow> lower s | _ \<Rightarrow> []) else []
    | [] \<Rightarrow> [])"

definition or_else_text :: "string \<Rightarrow> string \<Rightarrow> string" where
  "or_else_text s d = (if s = [] then d else s)"

text \<open>
  The semantic part: the scores, rounded, whether there was a classifier and its gate, and the task when the best
  score reaches it.  Whatever the classifier raises is dropped; \<open>clf\<close> is absent when there is none.
\<close>

record semantic_part =
  sp_semantic :: "(string \<times> real) list option"
  sp_min_score :: "real option"
  sp_available :: bool
  sp_task :: "string option"

definition no_semantic :: semantic_part where
  "no_semantic = \<lparr>sp_semantic = None, sp_min_score = None, sp_available = False, sp_task = None\<rparr>"

definition semantic_part_of :: "embedder option \<Rightarrow> string \<Rightarrow> semantic_classifier option \<Rightarrow>
    semantic_part \<times> semantic_classifier option" where
  "semantic_part_of emb intent clf =
     (case clf of None \<Rightarrow> (no_semantic, None) | Some c \<Rightarrow>
      if strip intent = [] then (no_semantic, clf)
      else let seen = no_semantic\<lparr>sp_available := True, sp_min_score := Some (sc_min_score c)\<rparr> in
        case top_scores emb (strip intent) 5 c of
          Inl e \<Rightarrow> (seen, clf)
        | Inr (ss, c') \<Rightarrow> (case ss of
            [] \<Rightarrow> (seen, Some c')
          | (task, score) # _ \<Rightarrow>
              (seen\<lparr>sp_semantic := Some (map (\<lambda>(t, s). (t, py_round 4 s)) ss),
                    sp_task := if sc_min_score c' \<le> score then Some task else None\<rparr>, Some c')))"

record request_signs =
  sg_messages :: "obj list"
  sg_tools :: "json list"

definition result_for :: "string \<times> intent_meta \<Rightarrow> nat \<Rightarrow> semantic_part \<Rightarrow> string \<Rightarrow> string \<Rightarrow> string option \<Rightarrow> int \<Rightarrow> classify_result" where
  "result_for intent tool_count sp task path keyword tokens =
     \<lparr>cr_task = task, cr_path = path, cr_keyword = keyword, cr_intent_text = fst intent, cr_intent_meta = snd intent,
      cr_semantic = sp_semantic sp, cr_min_score = sp_min_score sp, cr_sem_available = sp_available sp,
      cr_tool_count = tool_count, cr_token_count = tokens\<rparr>"

text \<open>The structural signs, tried when the classifier has not decided.\<close>

definition structural_result :: "tokenizer \<Rightarrow> (json \<Rightarrow> string) \<Rightarrow> obj list \<Rightarrow> json list \<Rightarrow>
    (string \<Rightarrow> string \<Rightarrow> string option \<Rightarrow> int \<Rightarrow> classify_result) \<Rightarrow> classify_result res" where
  "structural_result tok str messages tools mk =
     (case find (contains (system_text messages)) (signals_of ''agentic_multi_step'') of
        Some kw \<Rightarrow> Inr (mk ''agentic_multi_step'' ''agentic_prompt'' (Some kw) 0)
      | None \<Rightarrow>
          if 5 < length tools then Inr (mk ''agentic_multi_step'' ''tool_count'' None 0)
          else rbind (count_tokens tok str (map JObj (strip_client_context messages)) (JList tools)) (\<lambda>n.
            Inr (if 8000 < n then mk ''research_deep'' ''token_count'' None n
              else case find (contains (combined_text messages)) CASUAL_SIGNALS of
                  Some kw \<Rightarrow> mk ''casual_chat'' ''casual'' (Some kw) 0
                | None \<Rightarrow> mk ''code_generation'' ''default'' None 0)))"

definition classify_task_detail :: "tokenizer \<Rightarrow> (json \<Rightarrow> string) \<Rightarrow> embedder option \<Rightarrow> obj list \<Rightarrow> json list \<Rightarrow>
    semantic_classifier option \<Rightarrow> classify_result res \<times> semantic_classifier option" where
  "classify_task_detail tok str emb messages tools clf =
     (let (raw, meta) = extract_intent_text messages;
          user = strip (user_text messages);
          intent = (or_else_text (strip raw) user, meta);
          n = length tools in
      if im_preamble meta
      then (Inr (result_for intent n no_semantic ''agentic_multi_step'' ''preamble'' None 0), clf)
      else let (sp, clf') = semantic_part_of emb (or_else_text (lower (strip raw)) user) clf in
        case sp_task sp of
          Some task \<Rightarrow> (Inr (result_for intent n sp task ''semantic'' None 0), clf')
        | None \<Rightarrow> (structural_result tok str messages tools (result_for intent n sp), clf'))"

definition classify_task :: "tokenizer \<Rightarrow> (json \<Rightarrow> string) \<Rightarrow> embedder option \<Rightarrow> obj list \<Rightarrow> json list \<Rightarrow>
    semantic_classifier option \<Rightarrow> string res" where
  "classify_task tok str emb messages tools clf =
     rbind (fst (classify_task_detail tok str emb messages tools clf)) (\<lambda>r. Inr (cr_task r))"

text \<open>What the selection of the router reads of it.\<close>

definition classification_of :: "classify_result \<Rightarrow> classification" where
  "classification_of r = \<lparr>cl_task = cr_task r, cl_path = cr_path r,
     cl_semantic = (case cr_semantic r of Some ss \<Rightarrow> ss | None \<Rightarrow> []), cl_token_count = cr_token_count r\<rparr>"

section \<open>The scores\<close>

lemma sq_sum_nonneg [simp]: "0 \<le> sq_sum v"
  by (induction v) (simp_all add: sq_sum_def)

lemma sq_sum_Cons [simp]: "sq_sum (x # v) = x * x + sq_sum v"
  by (simp add: sq_sum_def)

lemma two_products:
  fixes x y S A B :: real
  assumes "S * S \<le> A * B" and "0 \<le> A" and "0 \<le> B"
  shows "2 * (x * y * S) \<le> x * x * B + y * y * A"
proof -
  have "\<bar>S\<bar> \<le> sqrt A * sqrt B"
    using real_sqrt_le_mono [OF assms(1)] by (simp add: real_sqrt_mult)
  then have "\<bar>x * y\<bar> * \<bar>S\<bar> \<le> \<bar>x * y\<bar> * (sqrt A * sqrt B)" by (rule mult_left_mono) simp
  moreover have "2 * (\<bar>x * y\<bar> * (sqrt A * sqrt B)) \<le> x * x * B + y * y * A"
  proof -
    have "0 \<le> (\<bar>x\<bar> * sqrt B - \<bar>y\<bar> * sqrt A)\<^sup>2" by simp
    also have "\<dots> = x * x * (sqrt B * sqrt B) + y * y * (sqrt A * sqrt A) - 2 * (\<bar>x * y\<bar> * (sqrt A * sqrt B))"
      by (simp add: power2_eq_square algebra_simps abs_mult)
    finally show ?thesis using assms by simp
  qed
  moreover have "x * y * S \<le> \<bar>x * y\<bar> * \<bar>S\<bar>" by (metis abs_ge_self abs_mult)
  ultimately show ?thesis by linarith
qed

lemma cauchy_schwarz:
  "length a = length b \<Longrightarrow> (sum_list (map2 (*) a b)) * (sum_list (map2 (*) a b)) \<le> sq_sum a * sq_sum b"
proof (induction a b rule: list_induct2)
  case (Cons x a y b)
  let ?S = "sum_list (map2 (*) a b)"
  have "2 * (x * y * ?S) \<le> x * x * sq_sum b + y * y * sq_sum a"
    by (rule two_products [OF Cons.IH]) simp_all
  with Cons.IH show ?case by (simp add: algebra_simps)
qed (simp add: sq_sum_def)

text \<open>
  Also: The similarity of two vectors lies between -1 and 1, in particular for vectors of different lengths and for
  null vectors; a negative one is possible, so the documented range from 0 is not that of the code.
\<close>

theorem cosine_bounds: "\<bar>cosine a b\<bar> \<le> 1"
proof (cases "a = [] \<or> b = [] \<or> length a \<noteq> length b")
  case False
  let ?S = "sum_list (map2 (*) a b)"
  have "\<bar>?S\<bar> \<le> sqrt (sq_sum a) * sqrt (sq_sum b)"
    using real_sqrt_le_mono [OF cauchy_schwarz [of a b]] False by (simp add: real_sqrt_mult)
  also have "\<dots> \<le> norm_or_one a * norm_or_one b"
    by (intro mult_mono) (simp_all add: norm_or_one_def)
  finally have "\<bar>?S\<bar> \<le> norm_or_one a * norm_or_one b" .
  moreover have "0 < norm_or_one a * norm_or_one b"
    by (intro mult_pos_pos) (auto simp: norm_or_one_def less_le)
  ultimately have "\<bar>?S / (norm_or_one a * norm_or_one b)\<bar> \<le> 1"
    unfolding abs_divide by (simp only: abs_of_pos divide_le_eq_1_pos)
  with False show ?thesis by (simp add: cosine_def)
qed (simp add: cosine_def)

lemma negative_cosine: "cosine [1] [- 1] = - 1"
  by (simp add: cosine_def norm_or_one_def sq_sum_def)

section \<open>The classifier\<close>

definition task_names :: "string list" where
  "task_names = map fst TASK_EXEMPLARS"

text \<open>The invariant of a classifier: its centroids are those of known tasks.\<close>

definition known_task :: "string \<times> 'a \<Rightarrow> bool" where
  "known_task x \<longleftrightarrow> fst x \<in> set task_names"

definition knows_tasks :: "semantic_classifier \<Rightarrow> bool" where
  "knows_tasks c \<longleftrightarrow> (case sc_centroids c of None \<Rightarrow> True | Some cs \<Rightarrow> list_all known_task cs)"

lemma centroids_of_known: "centroids_of e ts = Inr cs \<Longrightarrow> list_all known_task ts \<Longrightarrow> list_all known_task cs"
proof (induction e ts arbitrary: cs rule: centroids_of.induct)
  case (2 e task examples rest)
  show ?case
  proof (cases "\<exists>vs. (if examples = [] then None else e examples) = Some vs \<and> vs \<noteq> [] \<and> hd vs \<noteq> []")
    case True
    then obtain vs where vs: "(if examples = [] then None else e examples) = Some vs" "\<not> (vs = [] \<or> hd vs = [])" by blast
    with "2.prems" obtain m cs' where "centroids_of e rest = Inr cs'" "cs = (task, unit_vector m) # cs'"
      by (auto simp: rbind_eq_Inr)
    with "2.IH"(3) [OF vs] "2.prems" show ?thesis by (auto simp: known_task_def)
  next
    case False
    then have "centroids_of e ((task, examples) # rest) = centroids_of e rest"
      by (auto split: option.splits)
    with 2 False show ?thesis by (cases "if examples = [] then None else e examples") auto
  qed
qed simp

lemma all_examples_known: "list_all known_task TASK_EXEMPLARS"
  by (simp add: list_all_iff known_task_def task_names_def)

lemma build_keeps:
  assumes "knows_tasks c" and "build_centroids e c = Inr c'"
  shows "knows_tasks c' \<and> sc_min_score c' = sc_min_score c"
proof (cases "sc_centroids c = None \<and> e \<noteq> None")
  case True
  then obtain e' cs where "centroids_of e' TASK_EXEMPLARS = Inr cs" "c' = c\<lparr>sc_centroids := Some cs\<rparr>"
    using assms(2) by (auto simp: build_centroids_def rbind_eq_Inr)
  with centroids_of_known [OF _ all_examples_known] show ?thesis by (simp add: knows_tasks_def)
next
  case False
  with assms show ?thesis by (auto simp: build_centroids_def split: option.splits)
qed

lemma scores_of_sorted:
  assumes "scores_of e t cs = Inr ss" and "list_all known_task cs"
  shows "sorted_wrt (\<lambda>x y. snd y \<le> snd x) ss" and "list_all known_task ss"
proof -
  from assms(1) consider "ss = []"
    | vec where "ss = sort_key (\<lambda>x. - snd x) (map (\<lambda>(task, centroid). (task, cosine vec centroid)) cs)"
    by (auto simp: scores_of_def split: option.splits list.splits)
  then have "sorted_wrt (\<lambda>x y. snd y \<le> snd x) ss \<and> list_all known_task ss"
  proof cases
    case (2 vec)
    have "sorted (map (\<lambda>x. - snd x) ss)" unfolding 2 by (rule sorted_sort_key)
    moreover have "list_all known_task ss"
      using assms(2) unfolding 2 by (auto simp: list_all_iff known_task_def)
    ultimately show ?thesis by (simp add: sorted_map)
  qed simp
  then show "sorted_wrt (\<lambda>x y. snd y \<le> snd x) ss" and "list_all known_task ss" by simp_all
qed

lemma top_scores_cases:
  assumes "top_scores e t k c = Inr (ss, c')" and "knows_tasks c"
  shows "knows_tasks c' \<and> sc_min_score c' = sc_min_score c" and "list_all known_task ss"
    and "sorted_wrt (\<lambda>x y. snd y \<le> snd x) ss"
proof -
  consider "c' = c" "ss = []" | "build_centroids e c = Inr c'" "ss = []"
    | e' cs all where "build_centroids e c = Inr c'" "sc_centroids c' = Some cs" "scores_of e' t cs = Inr all" "ss = take k all"
    using assms(1) by (auto simp: top_scores_def rbind_eq_Inr split: option.splits if_splits)
  then have "(knows_tasks c' \<and> sc_min_score c' = sc_min_score c) \<and> list_all known_task ss \<and>
    sorted_wrt (\<lambda>x y. snd y \<le> snd x) ss"
  proof cases
    case (3 e' cs all)
    have k: "knows_tasks c'" "sc_min_score c' = sc_min_score c" using build_keeps [OF assms(2) 3(1)] by simp_all
    then have "list_all known_task cs" using 3(2) by (simp add: knows_tasks_def)
    note scores_of_sorted [OF 3(3) this]
    with k show ?thesis unfolding 3(4) by (auto simp: list_all_iff dest: in_set_takeD intro: sorted_wrt_take)
  qed (use assms(2) build_keeps in auto)
  then show "knows_tasks c' \<and> sc_min_score c' = sc_min_score c" and "list_all known_task ss"
    and "sorted_wrt (\<lambda>x y. snd y \<le> snd x) ss" by simp_all
qed

abbreviation fine :: "semantic_classifier option \<Rightarrow> bool" where
  "fine clf \<equiv> (case clf of None \<Rightarrow> True | Some c \<Rightarrow> knows_tasks c)"

abbreviation task_or_none :: "string option \<Rightarrow> bool" where
  "task_or_none t \<equiv> (case t of None \<Rightarrow> True | Some task \<Rightarrow> task \<in> set task_names)"

lemma semantic_part_known:
  assumes "semantic_part_of e t clf = (sp, clf')" and "fine clf"
  shows "fine clf' \<and> task_or_none (sp_task sp)"
proof (cases "\<exists>c r. clf = Some c \<and> strip t \<noteq> [] \<and> top_scores e (strip t) 5 c = Inr r")
  case True
  then obtain c ss c' where c: "clf = Some c" "strip t \<noteq> []" and top: "top_scores e (strip t) 5 c = Inr (ss, c')"
    by (metis surj_pair)
  have k: "knows_tasks c'" "list_all known_task ss"
    using top_scores_cases [OF top] assms(2) c(1) by simp_all
  show ?thesis
  proof (cases ss)
    case Nil
    then show ?thesis
      using assms(1) c top k by (auto simp: semantic_part_of_def no_semantic_def)
  next
    case (Cons p rest)
    obtain task score where p: "p = (task, score)" by force
    have "task \<in> set task_names" using k(2) Cons p by (simp add: known_task_def)
    moreover have "clf' = Some c'" "sp_task sp = (if sc_min_score c' \<le> score then Some task else None)"
      using assms(1) c top Cons p by (auto simp: semantic_part_of_def no_semantic_def)
    ultimately show ?thesis using k(1) by simp
  qed
next
  case False
  then have "clf' = clf \<and> sp_task sp = None"
    using assms(1) by (cases clf) (auto simp: semantic_part_of_def no_semantic_def Let_def split: if_splits sum.splits)
  with assms(2) show ?thesis by simp
qed

lemma result_for_task [simp]: "cr_task (result_for i n sp task path kw k) = task" "cr_path (result_for i n sp task path kw k) = path"
  by (simp_all add: result_for_def)

lemma structural_tasks:
  "structural_result tok str messages tools (result_for i n sp) = Inr r \<Longrightarrow> cr_task r \<in> set task_names \<and> cr_path r \<noteq> ''semantic''"
proof -
  have "set [''agentic_multi_step'', ''research_deep'', ''casual_chat'', ''code_generation''] \<subseteq> set task_names"
    by (simp add: task_names_def TASK_EXEMPLARS_def)
  then show "structural_result tok str messages tools (result_for i n sp) = Inr r \<Longrightarrow>
      cr_task r \<in> set task_names \<and> cr_path r \<noteq> ''semantic''"
    by (auto simp: structural_result_def rbind_eq_Inr split: option.splits if_splits)
qed

text \<open>
  Also: Every request that is classified gets one of the eight task names, by whichever path, and the classifier goes
  on knowing these tasks only.
\<close>

theorem tasks_are_known:
  assumes "classify_task_detail tok str e messages tools clf = (Inr r, clf')"
    and "case clf of None \<Rightarrow> True | Some c \<Rightarrow> knows_tasks c"
  shows "cr_task r \<in> set task_names \<and> (case clf' of None \<Rightarrow> True | Some c \<Rightarrow> knows_tasks c)"
proof -
  obtain raw meta where x: "extract_intent_text messages = (raw, meta)" by force
  have a: "''agentic_multi_step'' \<in> set task_names" by (simp add: task_names_def TASK_EXEMPLARS_def)
  show ?thesis
  proof (cases "im_preamble meta")
    case True
    with assms x a show ?thesis by (auto simp: classify_task_detail_def)
  next
    case False
    obtain sp clf'' where s: "semantic_part_of e (or_else_text (lower (strip raw)) (strip (user_text messages))) clf = (sp, clf'')"
      by force
    have "fine clf''" "task_or_none (sp_task sp)" using semantic_part_known [OF s assms(2)] by simp_all
    with assms(1) x False s show ?thesis
      by (cases "sp_task sp") (auto simp: classify_task_detail_def Let_def dest: structural_tasks)
  qed
qed

text \<open>
  Also: The classifier names the task of the best score, and only when that score reaches the gate.
\<close>

theorem best_task_is_named:
  assumes "semantic_classify e text c = Inr (Some t, c')" and "top_scores e text k c = Inr (ss, c'')" and "0 < k"
    and "knows_tasks c"
  shows "\<exists>s. hd ss = (t, s) \<and> sc_min_score c \<le> s \<and> (\<forall>x \<in> set ss. snd x \<le> s)"
proof -
  from assms(1) obtain ss1 where top: "top_scores e text 1 c = Inr (ss1, c')"
    and named: "(case ss1 of [] \<Rightarrow> None | (task, score) # _ \<Rightarrow> if score < sc_min_score c' then None else Some task) = Some t"
    by (auto simp: semantic_classify_def rbind_eq_Inr)
  obtain s rest where one: "top_scores e text 1 c = Inr ((t, s) # rest, c')" and gate: "\<not> s < sc_min_score c'"
    using top named by (cases ss1) (auto split: if_splits)
  from one obtain e' cs all where "e = Some e'" "text \<noteq> []" "build_centroids e c = Inr c'" "sc_centroids c' = Some cs" "cs \<noteq> []"
    "scores_of e' text cs = Inr all" and all: "(t, s) # rest = take 1 all"
    by (auto simp: top_scores_def rbind_eq_Inr split: option.splits if_splits)
  with assms(2) have "ss = take k all" by (auto simp: top_scores_def)
  moreover obtain all' where "all = (t, s) # all'" using all by (cases all) auto
  ultimately have "hd ss = (t, s)" and "ss = (t, s) # take (k - 1) all'" using assms(3) by (cases k; simp)+
  moreover have "sorted_wrt (\<lambda>x y. snd y \<le> snd x) ss" by (rule top_scores_cases(3) [OF assms(2,4)])
  ultimately have "hd ss = (t, s)" "\<forall>x \<in> set ss. snd x \<le> s" by auto
  moreover have "sc_min_score c' = sc_min_score c" using top_scores_cases(1) [OF one assms(4)] by simp
  ultimately show ?thesis using gate by auto
qed

lemma failed_centroids: "centroids_of (\<lambda>xs. None) ts = Inr []"
  by (induction ts) auto

text \<open>
  Also: A first call at which the embedder fails switches the classifier off for good: no later call scores anything,
  whatever the embedder then does.
\<close>

theorem failed_first_call_is_final:
  assumes "sc_centroids c = None" and "\<And>xs. e xs = None" and "text \<noteq> []" and "top_scores (Some e) text k c = Inr (ss, c')"
  shows "top_scores e' text' k' c' = Inr ([], c')"
proof -
  have "centroids_of e ts = Inr []" for ts
    using assms(2) by (induction ts) auto
  then have "sc_centroids c' = Some []"
    using assms by (auto simp: top_scores_def build_centroids_def)
  then show ?thesis
    by (auto simp: top_scores_def build_centroids_def split: option.split)
qed

text \<open>
  C28: A request decided by its meaning is decided by the user alone.  Take two conversations that differ only in what
  the system, the assistant and the tools said: message by message they have the same role, the user's messages (and
  those of any other role) are the same, and a message that calls tools does so in both.  If the text extracted from
  the first is not blank and the first is classified by its meaning, the second gets the very same result.
\<close>

theorem meaning_is_the_users:
  assumes "list_all2 same_for_intent messages messages'" and "strip (fst (extract_intent_text messages)) \<noteq> []"
    and "fst (classify_task_detail tok str e messages tools clf) = Inr r" and "cr_path r = ''semantic''"
  shows "fst (classify_task_detail tok str e messages' tools clf) = Inr r"
proof -
  obtain raw meta where x: "extract_intent_text messages = (raw, meta)" by force
  have x': "extract_intent_text messages' = (raw, meta)"
    using intent_ignores_other_roles [OF assms(1)] x by simp
  have raw: "strip raw \<noteq> []" using assms(2) x by simp
  then have low: "lower (strip raw) \<noteq> []" by (simp add: lower_def)
  obtain sp clf'' where s: "semantic_part_of e (lower (strip raw)) clf = (sp, clf'')" by force
  show ?thesis
  proof (cases "im_preamble meta")
    case True
    with assms(3,4) x show ?thesis by (auto simp: classify_task_detail_def)
  next
    case False
    show ?thesis
    proof (cases "sp_task sp")
      case None
      with assms(3,4) x s raw low False show ?thesis
        by (auto simp: classify_task_detail_def or_else_text_def dest: structural_tasks)
    next
      case (Some task)
      with assms(3) x x' s raw low False show ?thesis
        by (simp add: classify_task_detail_def or_else_text_def)
    qed
  qed
qed

text \<open>
  Also: A long message without a telling keyword, sent after a genuine instruction, makes the router forget the
  instruction: the request is classified as a preamble, and the classifier is not asked.
\<close>

theorem later_preamble_hides_the_instruction:
  assumes "newest_instruction (rev messages) = Some t" and "from_user m" and "judge m (rev messages) = PreambleOnly"
  shows "\<exists>r. classify_task_detail tok str e (messages @ [m]) tools clf = (Inr r, clf) \<and>
    cr_task r = ''agentic_multi_step'' \<and> cr_path r = ''preamble''"
proof -
  obtain raw meta where x: "extract_intent_text (messages @ [m]) = (raw, meta)" by force
  then have "im_preamble meta"
    using preamble_flag_with_an_instruction [OF assms] by simp
  with x show ?thesis by (simp add: classify_task_detail_def Let_def)
qed

subsection \<open>A demonstration\<close>

text \<open>An embedder with one dimension.\<close>

definition flat_embedder :: embedder where
  "flat_embedder xs = Some (map (\<lambda>x. [1]) xs)"

definition fresh_classifier :: semantic_classifier where
  "fresh_classifier = \<lparr>sc_min_score = 35 / 100, sc_centroids = None\<rparr>"

definition built_classifier :: semantic_classifier where
  "built_classifier = \<lparr>sc_min_score = 35 / 100, sc_centroids = Some [(''planning'', [1])]\<rparr>"

lemma built_scores: "top_scores (Some flat_embedder) (c # cs) (Suc k) built_classifier = Inr ([(''planning'', 1)], built_classifier)"
  by (simp add: top_scores_def build_centroids_def built_classifier_def scores_of_def flat_embedder_def cosine_def
      norm_or_one_def sq_sum_def)

lemma built_knows: "knows_tasks built_classifier"
  by (simp add: knows_tasks_def built_classifier_def known_task_def task_names_def TASK_EXEMPLARS_def)

theorem best_task_is_named_witness: "\<exists>s. hd [(''planning'', 1 :: real)] = (''planning'', s) \<and> 35 / 100 \<le> s"
proof -
  have "semantic_classify (Some flat_embedder) ''plan it'' built_classifier = Inr (Some ''planning'', built_classifier)"
    using built_scores [of _ _ 0] by (simp add: semantic_classify_def) (simp add: built_classifier_def)
  from best_task_is_named [OF this built_scores [of _ _ 4] _ built_knows]
  obtain s where "hd [(''planning'', 1 :: real)] = (''planning'', s)" "sc_min_score built_classifier \<le> s" by auto
  then show ?thesis by (auto simp: built_classifier_def)
qed

theorem failed_first_call_is_final_witness:
  "top_scores (Some flat_embedder) ''plan it'' 5 (fresh_classifier\<lparr>sc_centroids := Some []\<rparr>) =
     Inr ([], fresh_classifier\<lparr>sc_centroids := Some []\<rparr>)"
  by (rule failed_first_call_is_final [of fresh_classifier "\<lambda>xs. None" "''x''" 5 "[]"])
    (simp_all add: fresh_classifier_def top_scores_def build_centroids_def failed_centroids)

theorem later_preamble_hides_the_instruction_witness:
  "\<exists>r. classify_task_detail (\<lambda>s. None) (\<lambda>j. []) None ([user_says ''fix the login page''] @ [user_says long_notice]) [] None =
     (Inr r, None) \<and> cr_task r = ''agentic_multi_step'' \<and> cr_path r = ''preamble''"
  by (rule later_preamble_hides_the_instruction [OF demo_instruction _ demo_preamble])
    (simp add: user_says_def from_user_def)

abbreviation after_answer :: "string \<Rightarrow> obj list" where
  "after_answer t \<equiv> [assistant_says t, user_says ''fix the login page'']"

lemma demo_intent: "extract_intent_text (after_answer ''pytest failed'') =
    (''fix the login page'', no_meta\<lparr>im_source := ''last_instruction''\<rparr>)"
  by code_simp

abbreviation demo_sp :: semantic_part where
  "demo_sp \<equiv> \<lparr>sp_semantic = Some [(''planning'', py_round 4 1)], sp_min_score = Some (35 / 100), sp_available = True,
     sp_task = Some ''planning''\<rparr>"

lemma demo_semantic: "strip (c # cs) = c # cs \<Longrightarrow>
    semantic_part_of (Some flat_embedder) (c # cs) (Some built_classifier) = (demo_sp, Some built_classifier)"
  using built_scores [of c cs 4]
  by (simp add: semantic_part_of_def no_semantic_def eval_nat_numeral) (simp add: built_classifier_def)

lemma demo_classified:
  "classify_task_detail (\<lambda>s. None) (\<lambda>j. []) (Some flat_embedder) (after_answer ''pytest failed'') [] (Some built_classifier) =
   (Inr (result_for (''fix the login page'', no_meta\<lparr>im_source := ''last_instruction''\<rparr>) 0 demo_sp ''planning'' ''semantic'' None 0),
    Some built_classifier)"
proof -
  have s: "strip ''fix the login page'' = ''fix the login page''" and l: "lower ''fix the login page'' = ''fix the login page''"
    by code_simp+
  show ?thesis
    using demo_semantic [OF s]
    by (simp add: classify_task_detail_def demo_intent or_else_text_def s l Let_def) (simp add: no_meta_def)
qed

theorem tasks_are_known_witness: "''planning'' \<in> set task_names"
  using tasks_are_known [OF demo_classified] built_knows by simp

text \<open>The same request after two different answers of the assistant.\<close>

theorem meaning_is_the_users_witness:
  "\<exists>r. fst (classify_task_detail (\<lambda>s. None) (\<lambda>j. []) (Some flat_embedder) (after_answer ''pytest failed'') [] (Some built_classifier)) = Inr r \<and>
    fst (classify_task_detail (\<lambda>s. None) (\<lambda>j. []) (Some flat_embedder) (after_answer ''all tests pass now'') [] (Some built_classifier)) = Inr r \<and>
    cr_task r = ''planning'' \<and> after_answer ''pytest failed'' \<noteq> after_answer ''all tests pass now''"
proof -
  have "list_all2 same_for_intent (after_answer ''pytest failed'') (after_answer ''all tests pass now'')"
    by (simp add: same_for_intent_def assistant_says_def message_has_tool_calls_def has_block_def)
  moreover have "strip ''fix the login page'' \<noteq> []" by code_simp
  ultimately show ?thesis
    using meaning_is_the_users [of "after_answer ''pytest failed''" "after_answer ''all tests pass now''"
      "\<lambda>s. None" "\<lambda>j. []" "Some flat_embedder" "[]" "Some built_classifier", OF _ _ _ result_for_task(2)]
      demo_classified demo_intent
    by (simp add: assistant_says_def)
qed

end
