(* ===== verification/Conv_Store.thy ===== *)
theory Conv_Store
  imports Json_Values Py_Text Py_Numbers
begin

section \<open>The conversation store (src/api/conv\_store.py)\<close>

text \<open>
  The messages of the conversations that passed through the gateway, one row per message, and a summary row per
  conversation.  Arguments: the digest, \<open>str\<close> and \<open>json.dumps\<close> of a value, the clock.  The tables have all their
  columns and database operations succeed.  The identity column of the message table is left out.
\<close>

record conv_env =
  cv_sha1 :: "string \<Rightarrow> string"
  cv_str :: "json \<Rightarrow> string"
  cv_dump :: "json \<Rightarrow> string"

definition MESSAGE_CAP :: nat where "MESSAGE_CAP = 64 * 1024"

subsection \<open>Rows\<close>

record message_row =
  mr_role :: json
  mr_content :: string
  mr_content_len :: nat
  mr_truncated :: bool
  mr_tool_name :: json
  mr_tool_call_id :: json
  mr_tool_calls :: json
  mr_reasoning :: json
  mr_ts :: json
  mr_active :: int
  mr_compacted :: int
  mr_hash :: string

record stored_row =
  sr_conversation :: string
  sr_seq :: nat
  sr_message :: message_row
  sr_origin :: string

text \<open>A field of the digest: \<open>(part or "").encode(...)\<close>, which only text has.\<close>

definition hash_part :: "json \<Rightarrow> string res" where
  "hash_part v = (case v of
      JStr s \<Rightarrow> Inr (s @ [CHR 0x00])
    | _ \<Rightarrow> if truthy v then Inl AttributeError else Inr [CHR 0x00])"

definition content_hash :: "conv_env \<Rightarrow> json \<Rightarrow> string \<Rightarrow> json \<Rightarrow> json \<Rightarrow> string res" where
  "content_hash env role content tool_name tool_call_id =
     rbind (rmap hash_part [role, JStr content, tool_name, tool_call_id]) (\<lambda>ps. Inr (cv_sha1 env (concat ps)))"

text \<open>\<open>int(message.get(k, dflt) or 0)\<close>\<close>

definition int_flag :: "obj \<Rightarrow> string \<Rightarrow> json \<Rightarrow> int res" where
  "int_flag m k dflt = (let v = dget m k dflt in if truthy v then int_of_json v else Inr 0)"

definition body_text :: "conv_env \<Rightarrow> obj \<Rightarrow> string" where
  "body_text env m = (case dget m ''content'' JNull of JStr s \<Rightarrow> s | JNull \<Rightarrow> [] | v \<Rightarrow> cv_str env v)"

definition prepare :: "conv_env \<Rightarrow> obj \<Rightarrow> message_row res" where
  "prepare env m =
     (let raw = body_text env m; body = take MESSAGE_CAP raw; field = (\<lambda>k. dget m k JNull) in
      rbind (int_flag m ''active'' (JNum 1)) (\<lambda>active.
      rbind (int_flag m ''compacted'' (JNum 0)) (\<lambda>compacted.
      rbind (content_hash env (field ''role'') body (field ''tool_name'') (field ''tool_call_id'')) (\<lambda>h.
        Inr \<lparr>mr_role = field ''role'', mr_content = body, mr_content_len = length raw,
             mr_truncated = (MESSAGE_CAP < length raw), mr_tool_name = field ''tool_name'',
             mr_tool_call_id = field ''tool_call_id'', mr_tool_calls = field ''tool_calls'',
             mr_reasoning = field ''reasoning'', mr_ts = field ''ts'', mr_active = active, mr_compacted = compacted,
             mr_hash = h\<rparr>))))"

subsection \<open>Appending\<close>

type_synonym message_table = "stored_row list"

definition transcript_of :: "string \<Rightarrow> message_table \<Rightarrow> stored_row list" where
  "transcript_of cid t = sort_key sr_seq (filter (\<lambda>r. sr_conversation r = cid) t)"

definition hashes :: "string \<Rightarrow> message_table \<Rightarrow> string list" where
  "hashes cid t = map (mr_hash \<circ> sr_message) (transcript_of cid t)"

text \<open>The pair of conversation and sequence number is unique: a row with the same one is replaced.\<close>

definition insert_or_replace :: "stored_row \<Rightarrow> message_table \<Rightarrow> message_table" where
  "insert_or_replace r t =
     filter (\<lambda>q. \<not> (sr_conversation q = sr_conversation r \<and> sr_seq q = sr_seq r)) t @ [r]"

fun common_prefix :: "string list \<Rightarrow> string list \<Rightarrow> nat" where
  "common_prefix (x # xs) (y # ys) = (if x = y then Suc (common_prefix xs ys) else 0)"
| "common_prefix _ _ = 0"

definition new_rows :: "string \<Rightarrow> string \<Rightarrow> nat \<Rightarrow> message_row list \<Rightarrow> stored_row list" where
  "new_rows cid origin first ms = map (\<lambda>(i, m). \<lparr>sr_conversation = cid, sr_seq = first + i, sr_message = m, sr_origin = origin\<rparr>)
     (enumerate 0 ms)"

text \<open>The number of rows written, and the table.\<close>

definition append_messages :: "conv_env \<Rightarrow> string \<Rightarrow> obj list \<Rightarrow> string \<Rightarrow> message_table \<Rightarrow> (nat \<times> message_table) res" where
  "append_messages env cid messages origin t =
     rbind (rmap (prepare env) messages) (\<lambda>prepared.
       let stored = hashes cid t;
           matched = common_prefix stored (map mr_hash prepared);
           rows = new_rows cid origin (length stored) (drop matched prepared)
       in if prepared = [] \<or> matched = length prepared then Inr (0, t)
          else Inr (length rows, fold insert_or_replace rows t))"

subsection \<open>The summaries\<close>

type_synonym rollups = "(string, obj) dict"

record conv_store =
  cs_messages :: message_table
  cs_rollups :: rollups

text \<open>An update of a column, for the conversation that has a row.\<close>

definition update_rollup :: "string \<Rightarrow> (obj \<Rightarrow> obj) \<Rightarrow> rollups \<Rightarrow> rollups" where
  "update_rollup cid f rs = map (\<lambda>(c, r). (c, if c = cid then f r else r)) rs"

definition set_columns :: "obj \<Rightarrow> obj \<Rightarrow> obj" where
  "set_columns cols r = fold (\<lambda>(c, v). AList.update c v) cols r"

text \<open>The window of activity only widens; time stamps are compared as texts.\<close>

definition earlier_of :: "string \<Rightarrow> json \<Rightarrow> json" where
  "earlier_of ts v = (case v of JStr s \<Rightarrow> if ts < s then JStr ts else v | _ \<Rightarrow> JStr ts)"

definition later_of :: "string \<Rightarrow> json \<Rightarrow> json" where
  "later_of ts v = (case v of JStr s \<Rightarrow> if s < ts then JStr ts else v | _ \<Rightarrow> JStr ts)"

definition widen :: "string option \<Rightarrow> string option \<Rightarrow> obj \<Rightarrow> obj" where
  "widen first latest r =
     (let r1 = (case first of None \<Rightarrow> r
          | Some ts \<Rightarrow> if ts = [] then r else AList.update ''first_seen'' (earlier_of ts (dget r ''first_seen'' JNull)) r)
      in (case latest of None \<Rightarrow> r1
          | Some ts \<Rightarrow> if ts = [] then r1 else AList.update ''last_seen'' (later_of ts (dget r1 ''last_seen'' JNull)) r1))"

text \<open>\<open>wanted\<close> holds the values given, in the order of the columns; an absent one is \<open>None\<close>.\<close>

definition upsert_conversation :: "string \<Rightarrow> (string \<times> json option) list \<Rightarrow> string option \<Rightarrow> rollups \<Rightarrow> rollups" where
  "upsert_conversation cid wanted ts rs =
     (let present = List.map_filter (\<lambda>(c, v). map_option (Pair c) v) wanted;
          rs1 = (if cid \<in> fst ` set rs then rs else rs @ [(cid, present)])
      in update_rollup cid (\<lambda>r. widen ts ts (set_columns present r)) rs1)"

fun stamp_of :: "json \<Rightarrow> string option" where
  "stamp_of (JStr s) = Some s"
| "stamp_of _ = None"

fun min_text :: "string list \<Rightarrow> string option" where
  "min_text [] = None"
| "min_text (x # xs) = (case min_text xs of None \<Rightarrow> Some x | Some y \<Rightarrow> Some (if x < y then x else y))"

fun max_text :: "string list \<Rightarrow> string option" where
  "max_text [] = None"
| "max_text (x # xs) = (case max_text xs of None \<Rightarrow> Some x | Some y \<Rightarrow> Some (if y < x then x else y))"

definition recount_conversation :: "string \<Rightarrow> conv_store \<Rightarrow> conv_store" where
  "recount_conversation cid s =
     (let ms = map sr_message (transcript_of cid (cs_messages s));
          stamps = List.map_filter (stamp_of \<circ> mr_ts) ms;
          count = (\<lambda>P. JNum (real (length (filter P ms))))
      in s\<lparr>cs_rollups := update_rollup cid (\<lambda>r. widen (min_text stamps) (max_text stamps) (set_columns
           [(''message_count'', count (\<lambda>m. True)), (''active_message_count'', count (\<lambda>m. mr_active m = 1)),
            (''tool_call_count'', count (\<lambda>m. mr_role m = JStr ''tool''))] r)) (cs_rollups s)\<rparr>)"

subsection \<open>Capturing a request\<close>

text \<open>The text of a part, and the join of the texts, which raises for one that is no text.\<close>

definition text_part :: "json \<Rightarrow> json option" where
  "text_part p = (case p of
      JObj d \<Rightarrow> if dget d ''type'' JNull = JStr ''text'' then Some (dget d ''text'' (JStr [])) else None
    | _ \<Rightarrow> None)"

fun joined :: "json list \<Rightarrow> string res" where
  "joined [] = Inr []"
| "joined (JStr s # xs) = rbind (joined xs) (\<lambda>t. Inr (s @ t))"
| "joined (_ # xs) = Inl TypeError"

definition stored_content :: "json \<Rightarrow> json res" where
  "stored_content c = (case c of
      JList ps \<Rightarrow>
        (let texts = List.map_filter text_part ps; extra = length ps - length texts in
         rbind (joined texts) (\<lambda>t. Inr (JStr (t @ (if extra = 0 then []
           else [CHR 0x0A] @ ''['' @ show_nat extra @ '' non-text part(s)]'')))))
    | _ \<Rightarrow> Inr c)"

definition first_true :: "obj \<Rightarrow> string \<Rightarrow> string \<Rightarrow> json" where
  "first_true m k k' = (if truthy_opt (map_of m k) then dget m k JNull else dget m k' JNull)"

definition extract_messages :: "conv_env \<Rightarrow> obj list \<Rightarrow> obj list res" where
  "extract_messages env messages =
     rmap (\<lambda>m. rbind (stored_content (dget m ''content'' JNull)) (\<lambda>content.
       Inr [(''role'', dget m ''role'' JNull), (''content'', content),
         (''tool_name'', first_true m ''name'' ''tool_name''), (''tool_call_id'', dget m ''tool_call_id'' JNull),
         (''tool_calls'', if truthy_opt (map_of m ''tool_calls'') then JStr (cv_dump env (dget m ''tool_calls'' JNull)) else JNull)]))
       (filter (\<lambda>m. dget m ''role'' JNull \<noteq> JStr ''system'') messages)"

definition with_reply :: "string \<Rightarrow> string \<Rightarrow> obj list \<Rightarrow> obj list" where
  "with_reply reply ts ms =
     (if reply = [] then ms else ms @ [[(''role'', JStr ''assistant''), (''content'', JStr reply), (''ts'', JStr ts)]])"

definition set_default_ts :: "string \<Rightarrow> obj \<Rightarrow> obj" where
  "set_default_ts ts m = (if map_of m ''ts'' = None then m @ [(''ts'', JStr ts)] else m)"

definition captured_messages :: "conv_env \<Rightarrow> obj list \<Rightarrow> string \<Rightarrow> string \<Rightarrow> obj list res" where
  "captured_messages env messages reply ts =
     rbind (extract_messages env messages) (\<lambda>ms. Inr (map (set_default_ts ts) (with_reply reply ts ms)))"

text \<open>A conversation without an id is not recorded; an exception loses the record and nothing else.\<close>

record turn =
  tn_messages :: "obj list"
  tn_reply :: string
  tn_ts :: string
  tn_profile :: "json option"
  tn_model :: "json option"

definition capture_turn :: "conv_env \<Rightarrow> string \<Rightarrow> turn \<Rightarrow> conv_store \<Rightarrow> nat \<times> conv_store" where
  "capture_turn env cid tn s =
     (if cid = [] then (0, s)
      else case rbind (captured_messages env (tn_messages tn) (tn_reply tn) (tn_ts tn)) (\<lambda>ms.
          append_messages env cid ms ''capture'' (cs_messages s)) of
        Inl e \<Rightarrow> (0, s)
      | Inr (n, t) \<Rightarrow>
          if n = 0 then (0, s\<lparr>cs_messages := t\<rparr>)
          else (n, recount_conversation cid (s\<lparr>cs_messages := t,
            cs_rollups := upsert_conversation cid
              [(''profile'', tn_profile tn), (''model'', tn_model tn), (''source'', Some (JStr ''live''))]
              (Some (tn_ts tn)) (cs_rollups s)\<rparr>)))"

subsection \<open>Reading\<close>

definition read_messages :: "string \<Rightarrow> nat \<Rightarrow> bool \<Rightarrow> bool \<Rightarrow> message_table \<Rightarrow> stored_row list" where
  "read_messages cid limit include_inactive newest t =
     (let rows = filter (\<lambda>r. include_inactive \<or> mr_active (sr_message r) = 1) (transcript_of cid t) in
      if newest then rev (take limit (rev rows)) else take limit rows)"

definition stored_count :: "string \<Rightarrow> message_table \<Rightarrow> nat" where
  "stored_count cid t = length (transcript_of cid t)"

record transcript_view =
  tv_messages :: "stored_row list"
  tv_truncated :: bool
  tv_total :: nat

definition messages_view :: "string \<Rightarrow> nat \<Rightarrow> bool \<Rightarrow> bool \<Rightarrow> message_table \<Rightarrow> transcript_view" where
  "messages_view cid limit include_inactive newest t =
     (let ms = read_messages cid (limit + 1) include_inactive newest t; cut = limit < length ms in
      \<lparr>tv_messages = (if cut \<and> newest then tl ms else take limit ms), tv_truncated = cut, tv_total = stored_count cid t\<rparr>)"

text \<open>The audit of a conversation: the tools that ran, the most frequent first, then by name, the turns, the first question.\<close>

record audit =
  au_user_turns :: nat
  au_assistant_turns :: nat
  au_tool_calls :: nat
  au_tools :: "(string \<times> nat) list"
  au_first_ask :: "string option"

definition tool_counts :: "stored_row list \<Rightarrow> (string option \<times> nat) list" where
  "tool_counts rows =
     (let names = map (stamp_of \<circ> mr_tool_name \<circ> sr_message) (filter (\<lambda>r. mr_role (sr_message r) = JStr ''tool'') rows);
          count = (\<lambda>n. length (filter (\<lambda>m. m = n) names));
          by_name = sort_key (\<lambda>n. case n of None \<Rightarrow> [] | Some s \<Rightarrow> CHR 0x00 # s) (remdups names)
      in map (\<lambda>n. (n, count n)) (sort_key (\<lambda>n. - int (count n)) by_name))"

definition shown_tool :: "string option \<Rightarrow> string" where
  "shown_tool n = (case n of None \<Rightarrow> ''(unnamed)'' | Some s \<Rightarrow> if s = [] then ''(unnamed)'' else s)"

definition conversation_audit :: "string \<Rightarrow> conv_store \<Rightarrow> (obj \<times> audit) option" where
  "conversation_audit cid s = (case map_of (cs_rollups s) cid of
      None \<Rightarrow> None
    | Some rollup \<Rightarrow>
        (let rows = transcript_of cid (cs_messages s); role = (\<lambda>r x. mr_role (sr_message r) = JStr x); tools = tool_counts rows in
         Some (rollup, \<lparr>au_user_turns = length (filter (\<lambda>r. role r ''user'') rows),
           au_assistant_turns = length (filter (\<lambda>r. role r ''assistant'') rows),
           au_tool_calls = sum_list (map snd tools), au_tools = map (\<lambda>(n, k). (shown_tool n, k)) tools,
           au_first_ask = map_option (mr_content \<circ> sr_message)
             (find (\<lambda>r. role r ''user'' \<and> mr_content (sr_message r) \<noteq> []) rows)\<rparr>)))"

section \<open>The stored sequence\<close>

lemma insort_key_snoc: "f a \<le> f x \<Longrightarrow> a \<noteq> x \<Longrightarrow> \<forall>y \<in> set ys. f y \<le> f x \<Longrightarrow> insort_key f a (ys @ [x]) = insort_key f a ys @ [x]"
  by (induction ys) auto

lemma sort_key_snoc: "\<forall>y \<in> set xs. f y < f x \<Longrightarrow> sort_key f (xs @ [x]) = sort_key f xs @ [x]"
proof (induction xs)
  case (Cons a xs)
  then have "f a < f x" "a \<noteq> x" by auto
  with Cons show ?case by (simp add: insort_key_snoc less_imp_le)
qed simp

text \<open>The rows of a conversation are numbered from zero without a gap.\<close>

definition dense :: "string \<Rightarrow> message_table \<Rightarrow> bool" where
  "dense cid t \<longleftrightarrow> map sr_seq (transcript_of cid t) = [0..<length (transcript_of cid t)]"

lemma length_hashes [simp]: "length (hashes cid t) = length (transcript_of cid t)"
  by (simp add: hashes_def)

lemma set_transcript_of [simp]: "set (transcript_of cid t) = {r \<in> set t. sr_conversation r = cid}"
  by (auto simp: transcript_of_def)

lemma dense_less: "dense cid t \<Longrightarrow> r \<in> set t \<Longrightarrow> sr_conversation r = cid \<Longrightarrow> sr_seq r < length (transcript_of cid t)"
proof -
  assume "dense cid t" "r \<in> set t" "sr_conversation r = cid"
  then have "sr_seq r \<in> set (map sr_seq (transcript_of cid t))" by auto
  with \<open>dense cid t\<close> show ?thesis unfolding dense_def by (metis atLeastLessThan_iff set_upt)
qed

lemma transcript_of_other: "sr_conversation r \<noteq> cid \<Longrightarrow> transcript_of cid (insert_or_replace r t) = transcript_of cid t"
  by (simp add: transcript_of_def insert_or_replace_def) (rule arg_cong [of _ _ "sort_key sr_seq"], induction t, auto)

lemma transcript_of_next:
  assumes "dense cid t" and "sr_conversation r = cid" and "sr_seq r = length (transcript_of cid t)"
  shows "transcript_of cid (insert_or_replace r t) = transcript_of cid t @ [r]" and "dense cid (insert_or_replace r t)"
proof -
  have "filter (\<lambda>q. \<not> (sr_conversation q = sr_conversation r \<and> sr_seq q = sr_seq r)) t = t"
    using dense_less [OF assms(1)] assms(2,3) by (intro filter_True) force
  then have "insert_or_replace r t = t @ [r]" by (simp add: insert_or_replace_def)
  then show rows: "transcript_of cid (insert_or_replace r t) = transcript_of cid t @ [r]"
    using dense_less [OF assms(1)] assms(2,3) by (auto simp: transcript_of_def intro!: sort_key_snoc)
  show "dense cid (insert_or_replace r t)"
    using assms unfolding dense_def rows by simp
qed

lemma new_rows_Cons: "new_rows cid o' first (m # ms) =
    \<lparr>sr_conversation = cid, sr_seq = first, sr_message = m, sr_origin = o'\<rparr> # new_rows cid o' (Suc first) ms"
  unfolding new_rows_def by (simp add: enumerate_Suc_eq split: prod.split)

lemma new_rows_simps [simp]: "new_rows cid o' first [] = []" "length (new_rows cid o' first ms) = length ms"
  "map sr_message (new_rows cid o' first ms) = ms"
proof -
  show "map sr_message (new_rows cid o' first ms) = ms"
    by (induction ms arbitrary: first) (simp_all add: new_rows_Cons, simp add: new_rows_def)
qed (simp_all add: new_rows_def)

lemma append_new_rows:
  "dense cid t \<Longrightarrow> first = length (transcript_of cid t) \<Longrightarrow>
   transcript_of cid (fold insert_or_replace (new_rows cid o' first ms) t) = transcript_of cid t @ new_rows cid o' first ms \<and>
   dense cid (fold insert_or_replace (new_rows cid o' first ms) t)"
proof (induction ms arbitrary: t first)
  case (Cons m ms)
  let ?r = "\<lparr>sr_conversation = cid, sr_seq = first, sr_message = m, sr_origin = o'\<rparr>"
  have r: "transcript_of cid (insert_or_replace ?r t) = transcript_of cid t @ [?r]" "dense cid (insert_or_replace ?r t)"
    using transcript_of_next [of cid t ?r] Cons.prems by simp_all
  show ?case
    using Cons.IH [OF r(2), of "Suc first"] r(1) Cons.prems(2) by (simp add: new_rows_Cons)
qed simp

lemma transcript_of_others: "c \<noteq> cid \<Longrightarrow> transcript_of c (fold insert_or_replace (new_rows cid o' first ms) t) = transcript_of c t"
proof (induction ms arbitrary: t first)
  case (Cons m ms)
  then show ?case by (simp add: new_rows_Cons transcript_of_other)
qed simp

lemma common_prefix_le: "common_prefix xs ys \<le> length ys" "common_prefix xs ys \<le> length xs"
  by (induction xs ys rule: common_prefix.induct) auto

lemma common_prefix_same [simp]: "common_prefix xs (xs @ ys) = length xs" "common_prefix (ys @ zs) ys = length ys"
  by (induction xs; simp) (induction ys; simp)

text \<open>What an append does to the stored digests.\<close>

lemma append_messages_hashes:
  assumes "dense cid t" and "rmap (prepare env) ms = Inr ps" and "append_messages env cid ms o' t = Inr (n, t')"
  shows "dense cid t'" and "hashes cid t' = hashes cid t @ drop (common_prefix (hashes cid t) (map mr_hash ps)) (map mr_hash ps)"
    and "n = length ps - common_prefix (hashes cid t) (map mr_hash ps)"
proof -
  let ?k = "common_prefix (hashes cid t) (map mr_hash ps)"
  have "dense cid t' \<and> hashes cid t' = hashes cid t @ drop ?k (map mr_hash ps) \<and> n = length ps - ?k"
  proof (cases "ps = [] \<or> ?k = length ps")
    case True
    with assms show ?thesis by (auto simp: append_messages_def)
  next
    case False
    let ?new = "new_rows cid o' (length (transcript_of cid t)) (drop ?k ps)"
    note hashes_def [simp]
    have n: "n = length ps - ?k" and t': "t' = fold insert_or_replace ?new t"
      using assms(2,3) False by (auto simp: append_messages_def Let_def)
    have "transcript_of cid t' = transcript_of cid t @ ?new \<and> dense cid t'"
      unfolding t' by (rule append_new_rows [OF assms(1) refl])
    moreover have "map (mr_hash \<circ> sr_message) ?new = drop ?k (map mr_hash ps)"
      by (simp only: map_map [symmetric] new_rows_simps drop_map)
    ultimately show ?thesis using n by simp
  qed
  then show "dense cid t'" and "hashes cid t' = hashes cid t @ drop ?k (map mr_hash ps)" and "n = length ps - ?k"
    by simp_all
qed

lemma append_messages_others:
  "append_messages env cid ms o' t = Inr (n, t') \<Longrightarrow> c \<noteq> cid \<Longrightarrow> transcript_of c t' = transcript_of c t"
  by (auto simp: append_messages_def rbind_eq_Inr Let_def transcript_of_others split: if_splits)

lemma append_messages_total: "rmap (prepare env) ms = Inr ps \<Longrightarrow> \<exists>n t'. append_messages env cid ms o' t = Inr (n, t')"
  by (simp add: append_messages_def Let_def)

section \<open>Captured conversations\<close>

text \<open>The digests of what a request would store.\<close>

definition digest_of :: "conv_env \<Rightarrow> turn \<Rightarrow> string list res" where
  "digest_of env tn =
     rbind (captured_messages env (tn_messages tn) (tn_reply tn) (tn_ts tn)) (\<lambda>ms.
     rbind (rmap (prepare env) ms) (\<lambda>ps. Inr (map mr_hash ps)))"

lemma recount_messages [simp]: "cs_messages (recount_conversation cid s) = cs_messages s"
  by (simp add: recount_conversation_def Let_def)

lemma capture_hashes:
  assumes "cid \<noteq> []" and "dense cid (cs_messages s)" and "digest_of env tn = Inr d"
  defines "k \<equiv> common_prefix (hashes cid (cs_messages s)) d" and "s' \<equiv> snd (capture_turn env cid tn s)"
  shows "dense cid (cs_messages s') \<and> hashes cid (cs_messages s') = hashes cid (cs_messages s) @ drop k d \<and>
    fst (capture_turn env cid tn s) = length d - k"
proof -
  obtain ms ps where ms: "captured_messages env (tn_messages tn) (tn_reply tn) (tn_ts tn) = Inr ms"
    and ps: "rmap (prepare env) ms = Inr ps" and d: "d = map mr_hash ps"
    using assms(3) by (auto simp: digest_of_def rbind_eq_Inr)
  obtain n t' where a: "append_messages env cid ms ''capture'' (cs_messages s) = Inr (n, t')"
    using append_messages_total [OF ps] by blast
  have "cs_messages s' = t' \<and> fst (capture_turn env cid tn s) = n"
    unfolding s'_def using assms(1) ms a by (simp add: capture_turn_def)
  then show ?thesis
    using append_messages_hashes [OF assms(2) ps a] unfolding k_def d by simp
qed

lemma capture_others: "c \<noteq> cid \<Longrightarrow> transcript_of c (cs_messages (snd (capture_turn env cid tn s))) = transcript_of c (cs_messages s)"
  by (auto simp: capture_turn_def rbind_def append_messages_others split: sum.split)

definition capture_all :: "conv_env \<Rightarrow> string \<Rightarrow> turn list \<Rightarrow> conv_store \<Rightarrow> conv_store" where
  "capture_all env cid tns s = fold (\<lambda>tn s. snd (capture_turn env cid tn s)) tns s"

lemma capture_growing:
  assumes "cid \<noteq> []" and "list_all2 (\<lambda>tn d. digest_of env tn = Inr d) tns ds" and "sorted_wrt prefix ds"
    and "\<forall>d \<in> set ds. prefix (hashes cid (cs_messages s)) d" and "dense cid (cs_messages s)"
  shows "hashes cid (cs_messages (capture_all env cid tns s)) = (if ds = [] then hashes cid (cs_messages s) else last ds)"
  using assms(2-5)
proof (induction tns ds arbitrary: s rule: list_all2_induct)
  case (Cons tn tns d ds)
  let ?s' = "snd (capture_turn env cid tn s)"
  have "prefix (hashes cid (cs_messages s)) d" using Cons.prems(2) by simp
  then obtain z where d: "d = hashes cid (cs_messages s) @ z" by (rule prefixE)
  have h: "dense cid (cs_messages ?s') \<and> hashes cid (cs_messages ?s') = d"
    using capture_hashes [OF assms(1) Cons.prems(3) Cons.hyps(1)] by (simp add: d)
  moreover have "\<forall>d' \<in> set ds. prefix d d'" "sorted_wrt prefix ds" using Cons.prems(1) by simp_all
  ultimately have "hashes cid (cs_messages (capture_all env cid tns ?s')) = (if ds = [] then d else last ds)"
    using Cons.IH [of ?s'] by simp
  then show ?case by (simp add: capture_all_def)
qed (simp add: capture_all_def)

lemma dense_empty [simp]: "dense cid []" "transcript_of cid [] = []" "hashes cid [] = []"
  by (simp_all add: dense_def transcript_of_def hashes_def)

text \<open>
  C30: A conversation that only grows is stored once: after any number of requests, each of which repeats the turns
  before and adds to them, the store holds the digests of the last request, in order and without a duplicate row.
\<close>

theorem growing_conversation_is_stored_once:
  assumes "cid \<noteq> []" and "list_all2 (\<lambda>tn d. digest_of env tn = Inr d) tns ds" and "sorted_wrt prefix ds" and "ds \<noteq> []"
    and "cs_messages s = []"
  shows "hashes cid (cs_messages (capture_all env cid tns s)) = last ds"
  using capture_growing [OF assms(1-3), of s] assms(4,5) by simp

lemma common_prefix_append:
  "common_prefix xs ys < length xs \<Longrightarrow> common_prefix (xs @ zs) ys = common_prefix xs ys"
  by (induction xs ys rule: common_prefix.induct) (auto split: if_splits)

text \<open>
  Also: A conversation that was rewritten is stored again at every request: when a request differs from the stored
  turns at some place (a compaction, an edit, a regenerated answer), everything from there on is appended, and
  appended once more each time the same request is captured, although the append is meant to be idempotent.
\<close>

theorem rewritten_conversation_is_stored_again:
  assumes "cid \<noteq> []" and "dense cid (cs_messages s)" and "digest_of env tn = Inr d"
    and "common_prefix (hashes cid (cs_messages s)) d = k"
    and "k < length (transcript_of cid (cs_messages s))"
  shows "hashes cid (cs_messages (capture_all env cid (replicate n tn) s)) =
    hashes cid (cs_messages s) @ concat (replicate n (drop k d))"
  using assms(2,4,5)
proof (induction n arbitrary: s)
  case (Suc n)
  let ?s' = "snd (capture_turn env cid tn s)"
  have h: "dense cid (cs_messages ?s')" "hashes cid (cs_messages ?s') = hashes cid (cs_messages s) @ drop k d"
    using capture_hashes [OF assms(1) Suc.prems(1) assms(3)] Suc.prems(2) by simp_all
  have l: "length (transcript_of cid (cs_messages ?s')) = length (transcript_of cid (cs_messages s)) + length (drop k d)"
    using arg_cong [OF h(2), of length] by simp
  have "common_prefix (hashes cid (cs_messages ?s')) d = k"
    unfolding h(2) using Suc.prems(2,3) common_prefix_append [of "hashes cid (cs_messages s)" d "drop k d"] by simp
  then have "hashes cid (cs_messages (capture_all env cid (replicate n tn) ?s')) =
      hashes cid (cs_messages ?s') @ concat (replicate n (drop k d))"
    using Suc.IH [OF h(1)] Suc.prems(3) l by simp
  then show ?case using h(2) by (simp add: capture_all_def)
qed (simp add: capture_all_def)

text \<open>
  Also: The digest sees the stored part of a message only: two messages that agree in role, tool fields and the first
  65536 characters have the same digest, so the second one is taken for the first and is not stored, although the
  digest is documented to cover the whole body.
\<close>

theorem long_messages_are_confused:
  assumes "prepare env m = Inr r" and "prepare env m' = Inr r'"
    and "take MESSAGE_CAP (body_text env m) = take MESSAGE_CAP (body_text env m')"
    and "dget m ''role'' JNull = dget m' ''role'' JNull" and "dget m ''tool_name'' JNull = dget m' ''tool_name'' JNull"
    and "dget m ''tool_call_id'' JNull = dget m' ''tool_call_id'' JNull"
    and "append_messages env cid [m] o' [] = Inr (1, t)"
  shows "append_messages env cid [m'] o' t = Inr (0, t)"
proof -
  have "mr_hash r = mr_hash r'"
    using assms(1-6) by (auto simp: prepare_def rbind_eq_Inr Let_def)
  moreover have "hashes cid t = [mr_hash r]"
    using append_messages_hashes(2) [of cid "[]" env "[m]" "[r]" o' 1 t] assms(1,7) by simp
  ultimately show ?thesis
    using assms(2) by (simp add: append_messages_def Let_def)
qed

section \<open>The invariant of the store\<close>

definition counts_agree :: "conv_store \<Rightarrow> bool" where
  "counts_agree s \<longleftrightarrow> (\<forall>cid r. (cid, r) \<in> set (cs_rollups s) \<longrightarrow>
     map_of r ''message_count'' = Some (JNum (real (length (transcript_of cid (cs_messages s))))))"

definition store_ok :: "conv_store \<Rightarrow> bool" where
  "store_ok s \<longleftrightarrow> (\<forall>cid. dense cid (cs_messages s)) \<and> counts_agree s"

lemma widen_count [simp]: "map_of (widen a b r) ''message_count'' = map_of r ''message_count''"
  by (auto simp: widen_def Let_def update_conv' split: option.split)

lemma set_columns_count: "map_of (set_columns [(''message_count'', a), (''active_message_count'', b), (''tool_call_count'', c)] r)
    ''message_count'' = Some a"
  by (simp add: set_columns_def update_conv')

lemma in_update_rollup: "(c, r) \<in> set (update_rollup cid f rs) \<longleftrightarrow>
    (c \<noteq> cid \<and> (c, r) \<in> set rs) \<or> (c = cid \<and> (\<exists>r'. (c, r') \<in> set rs \<and> r = f r'))"
  unfolding update_rollup_def set_map image_iff by (cases "c = cid") force+

lemma in_upsert_other: "(c, r) \<in> set (upsert_conversation cid w ts rs) \<Longrightarrow> c \<noteq> cid \<Longrightarrow> (c, r) \<in> set rs"
  by (auto simp: upsert_conversation_def Let_def in_update_rollup split: if_splits)

lemma capture_ok:
  assumes "store_ok s"
  shows "store_ok (snd (capture_turn env cid tn s))"
proof (cases "cid = []")
  case False
  show ?thesis
  proof (cases "rbind (captured_messages env (tn_messages tn) (tn_reply tn) (tn_ts tn)) (\<lambda>ms.
      append_messages env cid ms ''capture'' (cs_messages s))")
    case (Inl e)
    with assms False show ?thesis by (simp add: capture_turn_def)
  next
    case (Inr nt)
    obtain n t where nt: "nt = (n, t)" by force
    then obtain ms where "append_messages env cid ms ''capture'' (cs_messages s) = Inr (n, t)"
      using Inr by (auto simp: rbind_eq_Inr)
    note app = this
    then obtain ps where ps: "rmap (prepare env) ms = Inr ps" by (auto simp: append_messages_def rbind_eq_Inr)
    have other: "transcript_of c t = transcript_of c (cs_messages s)" if "c \<noteq> cid" for c
      by (rule append_messages_others [OF app that])
    have dn: "dense c t" for c
    proof (cases "c = cid")
      case True
      then show ?thesis using append_messages_hashes(1) [OF _ ps app] assms by (simp add: store_ok_def)
    next
      case False
      then show ?thesis using other [OF False] assms by (simp add: store_ok_def dense_def)
    qed
    show ?thesis
    proof (cases "n = 0")
      case True
      then have "t = cs_messages s" using app by (auto simp: append_messages_def rbind_eq_Inr Let_def split: if_splits)
      with assms Inr nt True False show ?thesis by (simp add: capture_turn_def)
    next
      case n: False
      let ?u = "upsert_conversation cid [(''profile'', tn_profile tn), (''model'', tn_model tn), (''source'', Some (JStr ''live''))]
              (Some (tn_ts tn)) (cs_rollups s)"
      let ?s' = "recount_conversation cid (s\<lparr>cs_messages := t, cs_rollups := ?u\<rparr>)"
      have s': "snd (capture_turn env cid tn s) = ?s'"
        using Inr nt n False by (simp add: capture_turn_def)
      have "map_of r ''message_count'' = Some (JNum (real (length (transcript_of c t))))" if "(c, r) \<in> set (cs_rollups ?s')" for c r
      proof (cases "c = cid")
        case True
        with that show ?thesis by (auto simp: recount_conversation_def Let_def in_update_rollup set_columns_count)
      next
        case c: False
        with that have "(c, r) \<in> set ?u" by (auto simp: recount_conversation_def Let_def in_update_rollup)
        then have "(c, r) \<in> set (cs_rollups s)" by (rule in_upsert_other) (rule c)
        then show ?thesis using assms other [OF c] by (auto simp: store_ok_def counts_agree_def)
      qed
      then show ?thesis using dn unfolding s' store_ok_def counts_agree_def by simp
    qed
  qed
qed (use assms in \<open>simp add: capture_turn_def\<close>)

text \<open>
  Also: Whatever requests were captured, for whatever conversations, the rows of every conversation are numbered from
  zero without a gap and every summary has the number of rows stored.
\<close>

theorem captured_store_is_consistent:
  "store_ok (fold (\<lambda>(cid, tn) s. snd (capture_turn env cid tn s)) captures \<lparr>cs_messages = [], cs_rollups = []\<rparr>)"
proof -
  have "store_ok s \<Longrightarrow> store_ok (fold (\<lambda>(cid, tn) s. snd (capture_turn env cid tn s)) captures s)" for s
    by (induction captures arbitrary: s) (auto simp: capture_ok)
  then show ?thesis by (simp add: store_ok_def counts_agree_def)
qed

section \<open>The window that is shown\<close>

text \<open>
  Also: The transcript view shows the newest rows (or the oldest), as many as the limit allows and in order, and says
  truthfully whether there are more.
\<close>

theorem view_is_a_window:
  fixes t cid include_inactive
  defines "rows \<equiv> filter (\<lambda>r. include_inactive \<or> mr_active (sr_message r) = 1) (transcript_of cid t)"
  shows "tv_messages (messages_view cid limit include_inactive newest t) =
      (if newest then drop (length rows - limit) rows else take limit rows) \<and>
    (tv_truncated (messages_view cid limit include_inactive newest t) \<longleftrightarrow> limit < length rows)"
proof -
  have r: "rev (take n (rev rows)) = drop (length rows - n) rows" for n
    by (simp add: take_rev)
  show ?thesis
    unfolding messages_view_def read_messages_def Let_def rows_def [symmetric]
    by (cases newest; cases "limit < length rows")
      (auto simp: r min_def tl_drop drop_Suc [symmetric] Suc_diff_Suc)
qed

subsection \<open>A demonstration\<close>

definition demo_conv_env :: conv_env where
  "demo_conv_env = \<lparr>cv_sha1 = (\<lambda>s. s), cv_str = (\<lambda>j. ''v''), cv_dump = (\<lambda>j. ''d'')\<rparr>"

definition says :: "string \<Rightarrow> string \<Rightarrow> obj" where
  "says role text = [(''role'', JStr role), (''content'', JStr text)]"

definition demo_captured :: "obj list \<Rightarrow> turn" where
  "demo_captured ms = \<lparr>tn_messages = ms, tn_reply = [], tn_ts = ''t'', tn_profile = None, tn_model = None\<rparr>"

definition digest_text :: "string \<Rightarrow> string \<Rightarrow> string" where
  "digest_text role text = role @ [CHR 0x00] @ text @ [CHR 0x00, CHR 0x00, CHR 0x00]"

lemma prepare_says:
  assumes "length text \<le> MESSAGE_CAP"
  shows "\<exists>r. prepare demo_conv_env (set_default_ts ts [(''role'', JStr role), (''content'', JStr text),
    (''tool_name'', JNull), (''tool_call_id'', JNull), (''tool_calls'', JNull)]) = Inr r \<and> mr_hash r = digest_text role text"
  using assms by (simp add: prepare_def Let_def body_text_def int_flag_def content_hash_def hash_part_def set_default_ts_def
      demo_conv_env_def digest_text_def truncate_real_def)

lemma digest_of_turn:
  assumes "\<forall>(role, text) \<in> set rts. role \<noteq> ''system'' \<and> length text \<le> MESSAGE_CAP"
  shows "digest_of demo_conv_env (demo_captured (map (\<lambda>(role, text). says role text) rts)) =
    Inr (map (\<lambda>(role, text). digest_text role text) rts)"
proof -
  let ?c = "\<lambda>(role, text). [(''role'', JStr role), (''content'', JStr text), (''tool_name'', JNull),
      (''tool_call_id'', JNull), (''tool_calls'', JNull)]"
  have e: "extract_messages demo_conv_env (map (\<lambda>(role, text). says role text) rts) = Inr (map ?c rts)"
    using assms unfolding extract_messages_def
    by (induction rts) (auto simp: says_def stored_content_def first_true_def)
  have "\<exists>ps. rmap (prepare demo_conv_env) (map (set_default_ts ''t'') (map ?c rts)) = Inr ps \<and>
      map mr_hash ps = map (\<lambda>(role, text). digest_text role text) rts"
    using assms
  proof (induction rts)
    case (Cons rt rts)
    obtain role body where rt: "rt = (role, body)" by force
    obtain r where "prepare demo_conv_env (set_default_ts ''t'' (?c rt)) = Inr r" "mr_hash r = digest_text role body"
      using prepare_says [of body "''t''" role] Cons.prems rt by auto
    with Cons rt show ?case by auto
  qed simp
  then show ?thesis
    by (auto simp: digest_of_def captured_messages_def demo_captured_def e with_reply_def)
qed

lemma demo_cap [simp]: "Suc (Suc 0) \<le> MESSAGE_CAP"
  by (simp add: MESSAGE_CAP_def)

theorem growing_conversation_is_stored_once_witness:
  "hashes ''c'' (cs_messages (capture_all demo_conv_env ''c'' [demo_captured [says ''user'' ''hi''],
      demo_captured [says ''user'' ''hi'', says ''assistant'' ''yo'']] \<lparr>cs_messages = [], cs_rollups = []\<rparr>)) =
   [digest_text ''user'' ''hi'', digest_text ''assistant'' ''yo'']"
proof -
  have "digest_of demo_conv_env (demo_captured [says ''user'' ''hi'']) = Inr [digest_text ''user'' ''hi'']"
    using digest_of_turn [of "[(''user'', ''hi'')]"] by simp
  moreover have "digest_of demo_conv_env (demo_captured [says ''user'' ''hi'', says ''assistant'' ''yo'']) =
      Inr [digest_text ''user'' ''hi'', digest_text ''assistant'' ''yo'']"
    using digest_of_turn [of "[(''user'', ''hi''), (''assistant'', ''yo'')]"] by simp
  ultimately show ?thesis
    using growing_conversation_is_stored_once [of "''c''" demo_conv_env
        "[demo_captured [says ''user'' ''hi''], demo_captured [says ''user'' ''hi'', says ''assistant'' ''yo'']]"
        "[[digest_text ''user'' ''hi''], [digest_text ''user'' ''hi'', digest_text ''assistant'' ''yo'']]"
        "\<lparr>cs_messages = [], cs_rollups = []\<rparr>"] by simp
qed

text \<open>The answer was regenerated: two repetitions store it twice.\<close>

theorem rewritten_conversation_is_stored_again_witness:
  "length (hashes ''c'' (cs_messages (capture_all demo_conv_env ''c''
     (replicate 2 (demo_captured [says ''user'' ''hi'', says ''assistant'' ''oh'']))
     (capture_all demo_conv_env ''c'' [demo_captured [says ''user'' ''hi'', says ''assistant'' ''yo'']]
        \<lparr>cs_messages = [], cs_rollups = []\<rparr>)))) = 4"
proof -
  let ?d1 = "[digest_text ''user'' ''hi'', digest_text ''assistant'' ''yo'']"
    and ?d2 = "[digest_text ''user'' ''hi'', digest_text ''assistant'' ''oh'']"
  let ?s = "capture_all demo_conv_env ''c'' [demo_captured [says ''user'' ''hi'', says ''assistant'' ''yo'']]
        \<lparr>cs_messages = [], cs_rollups = []\<rparr>"
  have d1: "digest_of demo_conv_env (demo_captured [says ''user'' ''hi'', says ''assistant'' ''yo'']) = Inr ?d1"
    using digest_of_turn [of "[(''user'', ''hi''), (''assistant'', ''yo'')]"] by simp
  have d2: "digest_of demo_conv_env (demo_captured [says ''user'' ''hi'', says ''assistant'' ''oh'']) = Inr ?d2"
    using digest_of_turn [of "[(''user'', ''hi''), (''assistant'', ''oh'')]"] by simp
  have s: "dense ''c'' (cs_messages ?s)" "hashes ''c'' (cs_messages ?s) = ?d1"
    using capture_hashes [of "''c''" "\<lparr>cs_messages = [], cs_rollups = []\<rparr>", OF _ _ d1] by (simp_all add: capture_all_def)
  have "length (transcript_of ''c'' (cs_messages ?s)) = 2" using arg_cong [OF s(2), of length] by simp
  then have "hashes ''c'' (cs_messages (capture_all demo_conv_env ''c''
      (replicate 2 (demo_captured [says ''user'' ''hi'', says ''assistant'' ''oh''])) ?s)) = ?d1 @ concat (replicate 2 (drop 1 ?d2))"
    using rewritten_conversation_is_stored_again [of "''c''" ?s demo_conv_env _ ?d2 1 2, OF _ s(1) d2] s(2)
    by (simp add: digest_text_def)
  then show ?thesis by (simp add: numeral_2_eq_2)
qed

definition long_text :: "string \<Rightarrow> string" where
  "long_text tail = replicate MESSAGE_CAP (CHR ''x'') @ tail"

lemma long_prepared: "\<exists>r. prepare demo_conv_env (says ''tool'' (long_text tail)) = Inr r"
  by (simp add: prepare_def Let_def body_text_def int_flag_def content_hash_def hash_part_def says_def
      demo_conv_env_def truncate_real_def)

theorem long_messages_are_confused_witness:
  "\<exists>t. append_messages demo_conv_env ''c'' [says ''tool'' (long_text ''all tests failed'')] ''capture'' t = Inr (0, t) \<and>
    append_messages demo_conv_env ''c'' [says ''tool'' (long_text ''all tests passed'')] ''capture'' [] = Inr (1, t)"
proof -
  obtain r r' where r: "prepare demo_conv_env (says ''tool'' (long_text ''all tests passed'')) = Inr r"
    and r': "prepare demo_conv_env (says ''tool'' (long_text ''all tests failed'')) = Inr r'"
    using long_prepared by metis
  have "\<exists>t. append_messages demo_conv_env ''c'' [says ''tool'' (long_text ''all tests passed'')] ''capture'' [] = Inr (1, t)"
    using r by (simp add: append_messages_def Let_def)
  then obtain t where t: "append_messages demo_conv_env ''c'' [says ''tool'' (long_text ''all tests passed'')] ''capture'' [] = Inr (1, t)" ..
  have "append_messages demo_conv_env ''c'' [says ''tool'' (long_text ''all tests failed'')] ''capture'' t = Inr (0, t)"
    by (rule long_messages_are_confused [OF r r' _ _ _ _ t]) (simp_all add: says_def body_text_def long_text_def)
  with t show ?thesis by blast
qed

end
