(* ===== verification/Registry_Api.thy ===== *)
theory Registry_Api
  imports Capability_Matrix Settings_Api Py_Regex Tables
begin

section \<open>The model endpoints (src/server/endpoints.py) and the caches of the router\<close>

text \<open>
  The endpoints that edit the model registry and the capability scores, the listing of the scores, and the two
  caches between the tables and the router: the registry (with its alias index, a function of it) and the score
  matrix.  There is one database; its reads and writes succeed.  A row holds its mappings decoded: a dictionary of
  texts comes back from JSON as it was.  The float reader and the date of today are arguments.
\<close>

record model_store =
  registry_rows :: model_registry
  score_rows :: "capability_row list"
  registry_cache :: "model_registry option"
  matrix_cache :: "matrix option"

subsection \<open>The caches (src/api/router.py)\<close>

definition get_model_registry :: "model_store \<Rightarrow> model_registry \<times> model_store" where
  "get_model_registry st = (case registry_cache st of
      Some reg \<Rightarrow> (reg, st)
    | None \<Rightarrow>
        (let rows = (if registry_rows st = [] then fst (seed_model_registry False []) else registry_rows st)
         in (rows, st\<lparr>registry_rows := rows, registry_cache := Some rows\<rparr>)))"

definition invalidate_registry_cache :: "model_store \<Rightarrow> model_store" where
  "invalidate_registry_cache st = st\<lparr>registry_cache := None\<rparr>"

text \<open>The matrix is read with the registry of the table, not with the cached one.\<close>

definition load_matrix :: "model_store \<Rightarrow> matrix \<times> model_store" where
  "load_matrix st = (case matrix_cache st of
      Some mx \<Rightarrow> (mx, st)
    | None \<Rightarrow> (let mx = load_capability_matrix (score_rows st) (registry_rows st) None
        in (mx, st\<lparr>matrix_cache := Some mx\<rparr>)))"

definition invalidate_router_matrix :: "model_store \<Rightarrow> model_store" where
  "invalidate_router_matrix st = st\<lparr>matrix_cache := None\<rparr>"

definition logical_name_now :: "model_store \<Rightarrow> string \<Rightarrow> string \<times> model_store" where
  "logical_name_now st model =
     (if model = [] then (model, st)
      else let (reg, st') = get_model_registry st in (lookup_alias (alias_to_logical reg) model, st'))"

subsection \<open>Quantization tags\<close>

definition az :: "char \<Rightarrow> bool" where
  "az c \<longleftrightarrow> 97 \<le> code c \<and> code c \<le> 122"

definition quant_rx :: rx where
  "quant_rx =
     (let digits = plus (One is_digit) in
      any_of
       [seq_of [lit ''q'', digits, Star (One az), Star (Cat (lit ''_'') (plus (One (\<lambda>c. az c \<or> is_digit c))))],
        lit ''f16'', lit ''f32'', lit ''bf16'', lit ''fp16'', lit ''fp32'',
        seq_of [opt (lit ''i''), lit ''q'', digits, lit ''_'', digits],
        seq_of [plus (One az), digits, opt (Cat (lit ''.'') digits), lit ''b'']])"

text \<open>\<open>upper\<close> on the characters a tag can hold.\<close>

definition tag_upper :: "string \<Rightarrow> string" where
  "tag_upper = map (\<lambda>c. if az c then char_of (code c - 32) else c)"

definition detect_quantization :: "string \<Rightarrow> string option" where
  "detect_quantization model =
     (if model = [] then None
      else let name0 = lower (strip model);
               name1 = (if ends_with name0 ''.gguf'' then take (length name0 - 5) name0 else name0)
           in case rx_search quant_rx [] (last_segment name1) of
                None \<Rightarrow> None
              | Some (before, found, after) \<Rightarrow> Some (tag_upper found))"

subsection \<open>Editing the registry\<close>

definition optional_field :: "obj \<Rightarrow> string \<Rightarrow> string option res" where
  "optional_field body k =
     (case text_field body k of Inl e \<Rightarrow> Inl e | Inr s \<Rightarrow> Inr (if s = [] then None else Some s))"

definition mappings_field :: "obj \<Rightarrow> (string, string) dict option" where
  "mappings_field body = (case dget body ''provider_mappings'' JNull of
      JObj d \<Rightarrow> if list_all (\<lambda>(k, v). is_str v) d
        then Some (map (\<lambda>(k, v). (k, case v of JStr s \<Rightarrow> s | _ \<Rightarrow> [])) d) else None
    | v \<Rightarrow> if truthy v then None else Some [])"

definition apostrophes :: "string \<Rightarrow> string" where
  "apostrophes s = [CHR 0x27] @ s @ [CHR 0x27]"

text \<open>The first pair of the new mappings that another entry already has.\<close>

fun taken_mapping :: "(string, string) dict \<Rightarrow> (string, string) dict \<Rightarrow> (string \<times> string) option" where
  "taken_mapping others [] = None"
| "taken_mapping others ((prov, mid) # ms) =
     (let other = dget others prov [] in
      if other \<noteq> [] \<and> normalize_model_id other = normalize_model_id mid then Some (prov, other)
      else taken_mapping others ms)"

fun entry_conflict :: "string \<Rightarrow> (string, string) dict \<Rightarrow> model_registry \<Rightarrow> string option" where
  "entry_conflict benchmark ms [] = None"
| "entry_conflict benchmark ms ((name, e) # others) =
     (if benchmark \<noteq> [] \<and> benchmark_key e \<noteq> [] \<and> benchmark_key e = benchmark
      then Some (''benchmark key '' @ apostrophes benchmark @ '' is already registered to '' @ apostrophes name)
      else case taken_mapping (provider_mappings e) ms of
        Some (prov, other) \<Rightarrow>
          Some (''provider '' @ apostrophes prov @ '' already maps '' @ apostrophes other @ '' to '' @ apostrophes name)
      | None \<Rightarrow> entry_conflict benchmark ms others)"

text \<open>The column values of an accepted request: what the request leaves out keeps its value.\<close>

definition keep_old :: "'a option \<Rightarrow> 'a option \<Rightarrow> 'a option" where
  "keep_old new old = (case new of None \<Rightarrow> old | _ \<Rightarrow> new)"

definition store_entry ::
  "string \<Rightarrow> string \<Rightarrow> (string, string) dict \<Rightarrow> string option \<Rightarrow> string option \<Rightarrow> string option \<Rightarrow> model_registry \<Rightarrow> model_registry" where
  "store_entry logical benchmark ms active bench_release quant rows =
     AList.update logical (case map_of rows logical of
        None \<Rightarrow> \<lparr>benchmark_key = benchmark, provider_mappings = ms, active_release = active,
                  benchmark_release = bench_release, quantization = quant\<rparr>
      | Some e \<Rightarrow> \<lparr>benchmark_key = benchmark, provider_mappings = ms,
                  active_release = keep_old active (active_release e),
                  benchmark_release = keep_old bench_release (benchmark_release e),
                  quantization = keep_old quant (quantization e)\<rparr>) rows"

definition upsert_entry ::
  "string \<Rightarrow> string \<Rightarrow> (string, string) dict \<Rightarrow> string option \<Rightarrow> string option \<Rightarrow> string option \<Rightarrow> model_store \<Rightarrow> model_store handled" where
  "upsert_entry logical benchmark ms active bench_release quant st =
     (case entry_conflict benchmark ms (filter (\<lambda>(l, e). l \<noteq> logical) (registry_rows st)) of
        Some message \<Rightarrow> (st, error_reply message)
      | None \<Rightarrow>
         (let rows = store_entry logical benchmark ms active bench_release quant (registry_rows st);
              action = (if map_of (registry_rows st) logical = None then ''created'' else ''updated'')
          in (invalidate_router_matrix (invalidate_registry_cache (st\<lparr>registry_rows := rows\<rparr>)),
              Inr (Some (200, [(''ok'', JBool True), (''action'', JStr action), (''logical_name'', JStr logical)])))))"

definition serve_registry_upsert :: "obj \<Rightarrow> model_store \<Rightarrow> model_store handled" where
  "serve_registry_upsert body st =
     (case text_field body ''logical_name'' of Inl e \<Rightarrow> (st, Inl e) | Inr logical0 \<Rightarrow>
      (case text_field body ''benchmark_key'' of Inl e \<Rightarrow> (st, Inl e) | Inr benchmark0 \<Rightarrow>
      (case optional_field body ''active_release'' of Inl e \<Rightarrow> (st, Inl e) | Inr active \<Rightarrow>
      (case optional_field body ''benchmark_release'' of Inl e \<Rightarrow> (st, Inl e) | Inr bench_release \<Rightarrow>
      (case optional_field body ''quantization'' of Inl e \<Rightarrow> (st, Inl e) | Inr quant0 \<Rightarrow>
       (let logical1 = lower logical0; benchmark1 = lower benchmark0 in
        if logical1 = [] then (st, error_reply (''missing '' @ apostrophes ''logical_name''))
        else if benchmark1 = [] then (st, error_reply (''missing '' @ apostrophes ''benchmark_key''))
        else case mappings_field body of
          None \<Rightarrow> (st, error_reply (apostrophes ''provider_mappings'' @ '' must be a {provider: model} object''))
        | Some ms \<Rightarrow>
           (let quant = (case quant0 of Some q \<Rightarrow> Some q
              | None \<Rightarrow> (case detect_quantization benchmark1 of
                  Some q \<Rightarrow> Some q | None \<Rightarrow> detect_quantization logical1))
            in upsert_entry (normalize_model_id logical1) (normalize_model_id benchmark1) ms active bench_release quant st)))))))"

definition serve_registry_delete :: "string \<Rightarrow> model_store \<Rightarrow> model_store handled" where
  "serve_registry_delete logical st =
     (if map_of (registry_rows st) logical = None
      then (st, Inr (Some (404, [(''error'', JStr ''entry not found'')])))
      else (invalidate_registry_cache (st\<lparr>registry_rows := AList.delete logical (registry_rows st)\<rparr>),
            Inr (Some (200, [(''ok'', JBool True), (''deleted'', JStr logical)]))))"

subsection \<open>Editing the scores\<close>

definition normalized_score :: "real \<Rightarrow> real" where
  "normalized_score raw = py_round 4 (max 0 (min 1 (if 1 < raw then raw / 100 else raw)))"

fun put_manual :: "string \<Rightarrow> string \<Rightarrow> string \<Rightarrow> real \<Rightarrow> capability_row list \<Rightarrow> capability_row list" where
  "put_manual model label task raw [] =
     [\<lparr>row_model = model, task_type = task, row_source = ''manual'', release_label = Some label,
       row_score = normalized_score raw, benchmark_category = None, raw_score = Some raw\<rparr>]"
| "put_manual model label task raw (r # rs) =
     (if row_key r = (model, task, ''manual'', Some label)
      then r\<lparr>row_score := normalized_score raw, raw_score := Some raw\<rparr> # rs
      else r # put_manual model label task raw rs)"

text \<open>One transaction: \<open>Inl task\<close> when the score of a task is not a number.\<close>

fun put_scores ::
  "(string \<Rightarrow> real option) \<Rightarrow> string \<Rightarrow> string \<Rightarrow> obj \<Rightarrow> capability_row list \<Rightarrow> string + capability_row list" where
  "put_scores rd model label [] rows = Inr rows"
| "put_scores rd model label ((task, v) # scores) rows = (case float_of_json rd v of
      Inl e \<Rightarrow> Inl task
    | Inr raw \<Rightarrow> put_scores rd model label scores (put_manual model label task raw rows))"

definition serve_capability_manual ::
  "(string \<Rightarrow> real option) \<Rightarrow> string \<Rightarrow> obj \<Rightarrow> model_store \<Rightarrow> model_store handled" where
  "serve_capability_manual rd today body st =
     (case text_field body ''model'' of Inl e \<Rightarrow> (st, Inl e) | Inr model0 \<Rightarrow>
      (case optional_field body ''release'' of Inl e \<Rightarrow> (st, Inl e) | Inr release \<Rightarrow>
       (let model = lower model0 in
        if model = [] then (st, error_reply (''missing '' @ apostrophes ''model''))
        else case dget body ''scores'' JNull of
          JObj scores \<Rightarrow>
            if scores = [] then (st, error_reply (apostrophes ''scores'' @ '' must be a non-empty object''))
            else (let label = (case release of Some r \<Rightarrow> r | None \<Rightarrow> today) in
              case put_scores rd model label scores (score_rows st) of
                Inl task \<Rightarrow> (st, error_reply (''score for '' @ task @ '' is not a number''))
              | Inr rows \<Rightarrow> (invalidate_registry_cache (st\<lparr>score_rows := rows\<rparr>),
                  Inr (Some (200, [(''ok'', JBool True), (''model'', JStr model),
                    (''release'', case release of Some r \<Rightarrow> JStr r | None \<Rightarrow> JNull)]))))
        | _ \<Rightarrow> (st, error_reply (apostrophes ''scores'' @ '' must be a non-empty object'')))))"

definition serve_capability_seed :: "capability_row list \<Rightarrow> model_store \<Rightarrow> model_store handled" where
  "serve_capability_seed declared st =
     (st\<lparr>score_rows := seed_capabilities declared (score_rows st)\<rparr>,
      Inr (Some (200, [(''ok'', JBool True), (''materialized'', JNum (of_nat (length declared)))])))"

subsection \<open>The listings\<close>

type_synonym cells = "(string, (string, string) dict) dict"

definition set_cell :: "string \<Rightarrow> string \<Rightarrow> 'v \<Rightarrow> (string, (string, 'v) dict) dict \<Rightarrow> (string, (string, 'v) dict) dict" where
  "set_cell task model v d = AList.update task (AList.update model v (dget d task [])) d"

record score_listing =
  li_tasks :: "(string, (string, real) dict) dict"
  li_sources :: cells
  li_benchmarks :: cells
  li_releases :: cells
  li_active :: "(string, string) dict"
  li_count :: nat

definition list_row :: "capability_row \<Rightarrow> score_listing \<Rightarrow> score_listing" where
  "list_row r li = (let task = task_type r; model = row_model r in
     li\<lparr>li_tasks := set_cell task model (row_score r) (li_tasks li),
        li_sources := set_cell task model (row_source r) (li_sources li),
        li_benchmarks := (case benchmark_category r of
            None \<Rightarrow> li_benchmarks li
          | Some c \<Rightarrow> if c = [] then li_benchmarks li else set_cell task model c (li_benchmarks li)),
        li_releases := (case release_label r of
            None \<Rightarrow> li_releases li
          | Some c \<Rightarrow> if c = [] then li_releases li else set_cell task model c (li_releases li))\<rparr>)"

definition serve_capability :: "string option \<Rightarrow> string option \<Rightarrow> model_store \<Rightarrow> score_listing" where
  "serve_capability source release st =
     (let all_rows = (case source of
            Some s \<Rightarrow> if s = [] then score_rows st else filter (\<lambda>r. row_source r = s) (score_rows st)
          | None \<Rightarrow> score_rows st);
          pinned = (case release of Some s \<Rightarrow> s \<noteq> [] | None \<Rightarrow> False);
          rows = (if pinned then filter (\<lambda>r. release_label r = release \<or> release_label r = None) all_rows
                  else resolve_active_rows all_rows (registry_rows st) None)
      in fold list_row rows \<lparr>li_tasks = [], li_sources = [], li_benchmarks = [], li_releases = [],
           li_active = (if pinned then [] else effective_releases all_rows (registry_rows st)),
           li_count = length rows\<rparr>)"

definition registry_entry_json :: "string \<times> registry_entry \<Rightarrow> json" where
  "registry_entry_json = (\<lambda>(logical, e).
     let shown = (\<lambda>v. case v of None \<Rightarrow> JNull | Some s \<Rightarrow> JStr s) in
     JObj [(''logical_name'', JStr logical), (''benchmark_key'', JStr (benchmark_key e)),
       (''providers'', JList (map (JStr \<circ> fst) (provider_mappings e))),
       (''provider_mappings'', JObj (map (\<lambda>(k, v). (k, JStr v)) (provider_mappings e))),
       (''active_release'', shown (active_release e)), (''benchmark_release'', shown (benchmark_release e)),
       (''quantization'', shown (quantization e))])"

section \<open>Histories of requests\<close>

datatype model_request =
    Upsert obj
  | Delete string
  | Manual string obj
  | Seed "capability_row list"
  | ResolveName string
  | ReadMatrix

fun serve_model :: "(string \<Rightarrow> real option) \<Rightarrow> model_request \<Rightarrow> model_store \<Rightarrow> model_store" where
  "serve_model rd (Upsert body) st = fst (serve_registry_upsert body st)"
| "serve_model rd (Delete logical) st = fst (serve_registry_delete logical st)"
| "serve_model rd (Manual today body) st = fst (serve_capability_manual rd today body st)"
| "serve_model rd (Seed declared) st = fst (serve_capability_seed declared st)"
| "serve_model rd (ResolveName model) st = snd (logical_name_now st model)"
| "serve_model rd ReadMatrix st = snd (load_matrix st)"

fun is_upsert :: "model_request \<Rightarrow> bool" where
  "is_upsert (Upsert body) = True"
| "is_upsert _ = False"

lemmas cache_defs = invalidate_router_matrix_def invalidate_registry_cache_def

subsection \<open>What the requests do to the store\<close>

lemma upsert_cases:
  obtains "fst (serve_registry_upsert body st) = st"
  | logical benchmark ms active bench_release quant where
      "serve_registry_upsert body st = upsert_entry logical benchmark ms active bench_release quant st"
  by (cases "fst (serve_registry_upsert body st) = st")
     (auto simp: serve_registry_upsert_def Let_def split: sum.splits option.splits if_splits)

lemma manual_store:
  "\<exists>rows cache. fst (serve_capability_manual rd today body st) = st\<lparr>score_rows := rows, registry_cache := cache\<rparr> \<and>
     cache \<in> {None, registry_cache st}"
proof -
  have "\<exists>rows cache. st = st\<lparr>score_rows := rows, registry_cache := cache\<rparr> \<and> cache \<in> {None, registry_cache st}"
    by (rule exI[of _ "score_rows st"], rule exI[of _ "registry_cache st"]) simp
  moreover have "\<exists>rows' cache. st\<lparr>score_rows := rows, registry_cache := None\<rparr> =
      st\<lparr>score_rows := rows', registry_cache := cache\<rparr> \<and> cache \<in> {None, registry_cache st}" for rows
    by (rule exI[of _ rows], rule exI[of _ None]) simp
  ultimately show ?thesis
    unfolding serve_capability_manual_def
    by (simp add: Let_def cache_defs split: sum.split json.split)
qed

lemma seeded_rows: "fst (seed_model_registry False []) = DEFAULT_MODEL_REGISTRY"
  by code_simp

definition table_in_use :: "model_store \<Rightarrow> model_registry" where
  "table_in_use st = (if registry_rows st = [] then DEFAULT_MODEL_REGISTRY else registry_rows st)"

definition cache_follows :: "model_store \<Rightarrow> bool" where
  "cache_follows st \<longleftrightarrow> registry_cache st = None \<or> registry_cache st = Some (registry_rows st) \<and> registry_rows st \<noteq> []"

lemma read_registry:
  assumes "cache_follows st"
  shows "fst (get_model_registry st) = table_in_use st"
    and "registry_rows (snd (get_model_registry st)) = table_in_use st"
    and "cache_follows (snd (get_model_registry st))"
proof -
  have [simp]: "DEFAULT_MODEL_REGISTRY \<noteq> []" by (simp add: DEFAULT_MODEL_REGISTRY_def)
  show "fst (get_model_registry st) = table_in_use st"
    "registry_rows (snd (get_model_registry st)) = table_in_use st"
    "cache_follows (snd (get_model_registry st))"
    using assms
    by (auto simp: get_model_registry_def cache_follows_def table_in_use_def seeded_rows Let_def split: option.splits)
qed

subsection \<open>The registry stays unambiguous\<close>

definition entries_clash :: "registry_entry \<Rightarrow> registry_entry \<Rightarrow> bool" where
  "entries_clash e e' \<longleftrightarrow>
     benchmark_key e \<noteq> [] \<and> benchmark_key e = benchmark_key e' \<or>
     (\<exists>p \<in> set (keys (provider_mappings e)).
        (let m = dget (provider_mappings e) p []; m' = dget (provider_mappings e') p []
         in m \<noteq> [] \<and> m' \<noteq> [] \<and> normalize_model_id m = normalize_model_id m'))"

definition registry_ok :: "model_registry \<Rightarrow> bool" where
  "registry_ok rows \<longleftrightarrow> distinct (map fst rows) \<and>
     (\<forall>x \<in> set rows. \<forall>y \<in> set rows. fst x \<noteq> fst y \<longrightarrow> \<not> entries_clash (snd x) (snd y))"

lemma dget_in: "dget d k [] \<noteq> [] \<Longrightarrow> (k, dget d k []) \<in> set d"
  by (auto split: option.splits dest: map_of_SomeD)

lemma clash_sym: "entries_clash e e' \<Longrightarrow> entries_clash e' e"
proof -
  have key: "dget d k [] \<noteq> [] \<Longrightarrow> k \<in> set (keys d)" for d :: "(string, string) dict" and k
    using dget_in[of d k] by force
  show "entries_clash e e' \<Longrightarrow> entries_clash e' e"
    unfolding entries_clash_def Let_def using key by metis
qed

lemma no_taken_mapping:
  assumes "taken_mapping others ms = None" "dget ms p [] \<noteq> []" "dget others p [] \<noteq> []"
  shows "normalize_model_id (dget others p []) \<noteq> normalize_model_id (dget ms p [])"
proof -
  have "\<forall>(q, mid) \<in> set ms. dget others q [] \<noteq> [] \<longrightarrow> normalize_model_id (dget others q []) \<noteq> normalize_model_id mid"
    using assms(1) by (induction others ms rule: taken_mapping.induct) (auto simp: Let_def split: if_splits)
  with dget_in[OF assms(2)] assms(3) show ?thesis by blast
qed

lemma no_conflict:
  assumes "entry_conflict benchmark ms others = None" "x \<in> set others"
    "benchmark_key e = benchmark" "provider_mappings e = ms"
  shows "\<not> entries_clash e (snd x)"
proof -
  have "\<not> (benchmark \<noteq> [] \<and> benchmark_key (snd x) = benchmark) \<and> taken_mapping (provider_mappings (snd x)) ms = None"
    using assms(1,2)
    by (induction benchmark ms others rule: entry_conflict.induct) (auto split: if_splits option.splits)
  then show ?thesis
    using assms(3,4) no_taken_mapping[of "provider_mappings (snd x)" ms] unfolding entries_clash_def Let_def by metis
qed

lemma registry_ok_update:
  assumes "registry_ok rows" "entry_conflict (benchmark_key e) (provider_mappings e) (filter (\<lambda>(l, e). l \<noteq> logical) rows) = None"
  shows "registry_ok (AList.update logical e rows)"
proof -
  have d: "distinct (map fst (AList.update logical e rows))"
    using assms(1) by (simp add: registry_ok_def distinct_update)
  have "x \<in> set (AList.update logical e rows) \<Longrightarrow> x = (logical, e) \<or> x \<in> set rows \<and> fst x \<noteq> logical" for x
    using d by (cases x) (auto simp flip: map_of_eq_Some_iff[OF d] simp: update_conv' fun_upd_apply dest: map_of_SomeD split: if_splits)
  moreover have "\<not> entries_clash e (snd x)" if "x \<in> set rows" "fst x \<noteq> logical" for x
    using that by (intro no_conflict[OF assms(2)]) (auto split: prod.split)
  ultimately show ?thesis
    using d assms(1) clash_sym unfolding registry_ok_def by (metis fst_conv snd_conv)
qed

lemma registry_ok_delete: "registry_ok rows \<Longrightarrow> registry_ok (AList.delete logical rows)"
  by (auto simp: registry_ok_def AList.delete_eq distinct_map inj_on_def)

definition tables_ok :: "model_store \<Rightarrow> bool" where
  "tables_ok st \<longleftrightarrow> registry_ok (registry_rows st) \<and> cache_follows st"

lemma curated_registry_ok: "registry_ok DEFAULT_MODEL_REGISTRY"
  by code_simp

lemma upsert_entry_effect:
  "fst (upsert_entry logical benchmark ms active bench_release quant st) = st \<or>
   (\<exists>e. benchmark_key e = benchmark \<and> provider_mappings e = ms \<and>
      entry_conflict benchmark ms (filter (\<lambda>(l, e). l \<noteq> logical) (registry_rows st)) = None \<and>
      fst (upsert_entry logical benchmark ms active bench_release quant st) =
        st\<lparr>registry_rows := AList.update logical e (registry_rows st), registry_cache := None, matrix_cache := None\<rparr>)"
proof (cases "entry_conflict benchmark ms (filter (\<lambda>(l, e). l \<noteq> logical) (registry_rows st))")
  case None
  obtain e where "store_entry logical benchmark ms active bench_release quant (registry_rows st) =
      AList.update logical e (registry_rows st)" "benchmark_key e = benchmark" "provider_mappings e = ms"
    by (cases "map_of (registry_rows st) logical") (auto simp: store_entry_def)
  with None show ?thesis
    by (intro disjI2 exI[of _ e]) (simp add: upsert_entry_def cache_defs Let_def)
qed (simp add: upsert_entry_def)

lemma tables_ok_upsert: "tables_ok st \<Longrightarrow> tables_ok (fst (serve_registry_upsert body st))"
proof (rule upsert_cases[of body st])
  fix logical benchmark ms active bench_release quant
  assume ok: "tables_ok st"
    and "serve_registry_upsert body st = upsert_entry logical benchmark ms active bench_release quant st"
  with upsert_entry_effect[of logical benchmark ms active bench_release quant st] show ?thesis
    using registry_ok_update by (auto simp: tables_ok_def cache_follows_def)
qed simp

lemma resolved_name:
  "fst (logical_name_now st model) = lookup_alias (alias_to_logical (fst (get_model_registry st))) model"
  "snd (logical_name_now st model) = (if model = [] then st else snd (get_model_registry st))"
  by (simp_all add: logical_name_now_def lookup_alias_def split_beta)

lemma tables_ok_resolve: "tables_ok st \<Longrightarrow> tables_ok (snd (logical_name_now st model))"
  using read_registry[of st] curated_registry_ok by (simp add: resolved_name tables_ok_def table_in_use_def)

lemma tables_ok_delete: "tables_ok st \<Longrightarrow> tables_ok (fst (serve_registry_delete logical st))"
  by (auto simp: serve_registry_delete_def tables_ok_def cache_follows_def cache_defs registry_ok_delete)

lemma tables_ok_manual: "tables_ok st \<Longrightarrow> tables_ok (fst (serve_capability_manual rd today body st))"
  using manual_store[of rd today body st] by (auto simp: tables_ok_def cache_follows_def)

lemma tables_ok_matrix: "tables_ok st \<Longrightarrow> tables_ok (snd (load_matrix st))"
  by (simp add: load_matrix_def tables_ok_def cache_follows_def Let_def split: option.split)

lemma tables_ok_step: "tables_ok st \<Longrightarrow> tables_ok (serve_model rd x st)"
  by (cases x)
     (simp_all add: tables_ok_upsert tables_ok_delete tables_ok_manual tables_ok_resolve tables_ok_matrix,
      simp add: serve_capability_seed_def tables_ok_def cache_follows_def)

interpretation model_tables: stable_fact "serve_model rd" tables_ok "\<lambda>x. True"
  by unfold_locales (rule tables_ok_step)

text \<open>
  C33: the registry stays unambiguous and its cache true.  From a registry in which no two models share a
  benchmark key or a provider's spelling, whatever requests follow (entries written, updated or deleted, scores
  set or seeded, names resolved, the matrix read), no two models share one, every name has one row, and a name is
  resolved by the rows of the table at that moment: the curated rows when the table is empty.
\<close>

theorem registry_stays_unambiguous:
  assumes "registry_ok (registry_rows st)" and "registry_cache st = None"
  shows "registry_ok (registry_rows (fold (serve_model rd) requests st)) \<and>
    fst (logical_name_now (fold (serve_model rd) requests st) model) =
      logical_model_name (table_in_use (fold (serve_model rd) requests st)) model"
proof -
  have "tables_ok (fold (serve_model rd) requests st)"
    using assms by (intro model_tables.run_keeps) (simp_all add: tables_ok_def cache_follows_def)
  with read_registry[of "fold (serve_model rd) requests st"] show ?thesis
    by (simp add: tables_ok_def resolved_name logical_model_name_def)
qed

definition curated_store :: model_store where
  "curated_store = \<lparr>registry_rows = DEFAULT_MODEL_REGISTRY, score_rows = [], registry_cache = None, matrix_cache = None\<rparr>"

theorem registry_stays_unambiguous_witness:
  "registry_ok (registry_rows (fold (serve_model (\<lambda>s. None)) [ResolveName ''glm-5'', Delete ''glm-5''] curated_store))"
  using registry_stays_unambiguous[of curated_store "\<lambda>s. None" "[ResolveName ''glm-5'', Delete ''glm-5'']" "[]"]
    curated_registry_ok by (simp add: curated_store_def)

section \<open>What an edit does\<close>

lemma upsert_entry_accepted:
  assumes "upsert_entry logical benchmark ms active bench_release quant st = (st', Inr (Some (200, answer)))"
  shows "st' = st\<lparr>registry_rows := store_entry logical benchmark ms active bench_release quant (registry_rows st),
      registry_cache := None, matrix_cache := None\<rparr>"
  using assms by (auto simp: upsert_entry_def cache_defs error_reply_def Let_def split: option.splits)

text \<open>
  Also: an accepted entry is in force at once.  After an answer 200 to a registry request the row of the named
  model, in its normalised spelling, has the requested benchmark key, every other row is as it was, the router reads
  both the names and the score matrix afresh, and a release that the request leaves empty keeps its pin: a pin can
  be replaced and not removed.
\<close>

theorem accepted_entry_is_in_force:
  assumes "serve_registry_upsert body st = (st', Inr (Some (200, answer)))"
    and "text_field body ''logical_name'' = Inr name" and "text_field body ''benchmark_key'' = Inr bench"
    and "text_field body ''active_release'' = Inr []"
  shows "let logical = normalize_model_id (lower name) in
     (\<exists>e. map_of (registry_rows st') logical = Some e \<and> benchmark_key e = normalize_model_id (lower bench) \<and>
        active_release e = Option.bind (map_of (registry_rows st) logical) active_release) \<and>
     (\<forall>l. l \<noteq> logical \<longrightarrow> map_of (registry_rows st') l = map_of (registry_rows st) l) \<and>
     fst (load_matrix st') = load_capability_matrix (score_rows st) (registry_rows st') None \<and>
     fst (get_model_registry st') = registry_rows st'"
proof -
  have "\<exists>ms bench_release quant. upsert_entry (normalize_model_id (lower name)) (normalize_model_id (lower bench)) ms
      None bench_release quant st = (st', Inr (Some (200, answer)))"
    using assms
    by (auto simp: serve_registry_upsert_def optional_field_def error_reply_def Let_def
        split: sum.splits option.splits if_splits)
  then obtain ms bench_release quant where
    st': "st' = st\<lparr>registry_rows := store_entry (normalize_model_id (lower name)) (normalize_model_id (lower bench)) ms
      None bench_release quant (registry_rows st), registry_cache := None, matrix_cache := None\<rparr>"
    using upsert_entry_accepted by blast
  have "registry_rows st' \<noteq> []" by (cases "registry_rows st") (auto simp: st' store_entry_def)
  then show ?thesis
    by (auto simp: st' store_entry_def load_matrix_def get_model_registry_def keep_old_def dict_simps Let_def
        split: option.split)
qed

section \<open>The scores\<close>

lemma normalized_score_bounds: "0 \<le> normalized_score x" "normalized_score x \<le> 1"
proof -
  have "py_round 4 0 \<le> py_round 4 y \<and> py_round 4 y \<le> py_round 4 1" if "0 \<le> y" "y \<le> 1" for y
    using that by (auto simp: py_round_def intro!: divide_right_mono round_even_mono)
  moreover have "py_round 4 0 = 0" "py_round 4 1 = 1"
    using round_even_of_int[of 0] round_even_of_int[of 10000] by (simp_all add: py_round_def)
  ultimately show "0 \<le> normalized_score x" "normalized_score x \<le> 1"
    unfolding normalized_score_def by (metis max.cobounded1 max_def min.cobounded1 min_def zero_le_one)+
qed

definition manual_score :: "string \<Rightarrow> capability_row \<Rightarrow> bool" where
  "manual_score model r \<longleftrightarrow> row_source r = ''manual'' \<and> row_model r = model \<and> 0 \<le> row_score r \<and> row_score r \<le> 1"

lemma put_manual_rows:
  "set (put_manual model label task raw rows) \<subseteq> set rows \<union> {r. manual_score model r}"
  "r \<in> set rows \<Longrightarrow> row_source r \<noteq> ''manual'' \<or> row_model r \<noteq> model \<Longrightarrow> r \<in> set (put_manual model label task raw rows)"
  by (induction rows) (auto simp: manual_score_def normalized_score_bounds row_key_def)

lemma put_scores_rows:
  "put_scores rd model label scores rows = Inr rows' \<Longrightarrow> set rows' \<subseteq> set rows \<union> {r. manual_score model r} \<and>
     (\<forall>r \<in> set rows. row_source r \<noteq> ''manual'' \<or> row_model r \<noteq> model \<longrightarrow> r \<in> set rows')"
proof (induction rd model label scores rows rule: put_scores.induct)
  case (2 rd model label task v scores rows)
  then show ?case
    using put_manual_rows(1) put_manual_rows(2)[of _ rows model] by (fastforce split: sum.splits)
qed simp

text \<open>
  Also: hand-set scores stay in bounds and clobber nothing.  A request that sets scores adds or changes only rows
  of source manual, of the named model, with a score between 0 and 1; every other row is kept as it was, and a
  request that is not answered 200, for instance because one score is not a number, stores nothing at all.
\<close>

theorem manual_scores_are_bounded:
  fixes rd :: "string \<Rightarrow> real option" and today :: string and body :: obj and st :: model_store
  defines "r \<equiv> serve_capability_manual rd today body st"
  shows "(\<forall>x \<in> set (score_rows (fst r)). x \<in> set (score_rows st) \<or> (\<exists>model. manual_score model x)) \<and>
    (\<forall>x \<in> set (score_rows st). row_source x \<noteq> ''manual'' \<longrightarrow> x \<in> set (score_rows (fst r))) \<and>
    ((\<exists>answer. snd r = Inr (Some (200, answer))) \<or> fst r = st)"
proof -
  have kept: "(\<forall>x \<in> set rows'. x \<in> set (score_rows st) \<or> (\<exists>model. manual_score model x)) \<and>
      (\<forall>x \<in> set (score_rows st). row_source x \<noteq> ''manual'' \<longrightarrow> x \<in> set rows')"
    if "put_scores rd model label scores (score_rows st) = Inr rows'" for model label scores rows'
    using put_scores_rows[OF that] by auto
  have "fst r = st \<or> (\<exists>model label scores rows'. put_scores rd model label scores (score_rows st) = Inr rows' \<and>
      score_rows (fst r) = rows' \<and> (\<exists>answer. snd r = Inr (Some (200, answer))))"
    unfolding r_def serve_capability_manual_def
    by (auto simp: Let_def cache_defs split: sum.split json.split option.split)
  with kept show ?thesis by fastforce
qed

lemma matrix_kept:
  assumes "\<not> is_upsert x" "matrix_cache st = Some mx"
  shows "matrix_cache (serve_model rd x st) = Some mx"
  using assms
proof (cases x)
  case (Manual today body)
  with assms(2) show ?thesis using manual_store[of rd today body st] by auto
next
  case (ResolveName model)
  with assms(2) show ?thesis by (simp add: resolved_name get_model_registry_def Let_def split: option.split)
qed (simp_all add: serve_registry_delete_def serve_capability_seed_def load_matrix_def cache_defs)

interpretation stale_matrix: stable_fact "serve_model rd" "\<lambda>st. matrix_cache st = Some mx" "\<lambda>x. \<not> is_upsert x"
  by unfold_locales (rule matrix_kept)

text \<open>
  C37: new scores do not reach the router.  Once the router has read its score matrix, no request but an accepted
  registry entry makes it read the table again: whatever scores are set by hand or seeded and whatever models are
  deleted, the router ranks on the matrix it had.  In particular scores seeded into an empty table, the action that
  is offered to give the router something to route by, are not used.
\<close>

theorem new_scores_do_not_reach_the_router:
  assumes "matrix_cache st = Some mx" and "\<forall>x \<in> set requests. \<not> is_upsert x"
  shows "fst (load_matrix (fold (serve_model rd) requests st)) = mx"
proof -
  have "matrix_cache (fold (serve_model rd) requests st) = Some mx"
    using assms(2,1) by (rule stale_matrix.run_keeps)
  then show ?thesis by (simp add: load_matrix_def)
qed

theorem new_scores_do_not_reach_the_router_witness:
  "let row = score_row ''kimi-k3'' ''planning'' ''arena'' None 1;
       st = fold (serve_model (\<lambda>s. None)) [ReadMatrix, Seed [row]] curated_store
   in score_rows st = [row] \<and> fst (load_matrix st) = [] \<and>
      load_capability_matrix (score_rows st) (registry_rows st) None \<noteq> []"
proof -
  let ?row = "score_row ''kimi-k3'' ''planning'' ''arena'' None 1"
  let ?read = "serve_model (\<lambda>s. None) ReadMatrix curated_store"
  have empty: "load_capability_matrix [] DEFAULT_MODEL_REGISTRY None = []"
    by (simp add: load_capability_matrix_def resolve_active_rows_def by_model_def best_rows_def derive_task_def DERIVED_TASKS_def)
  then have "fst (load_matrix (fold (serve_model (\<lambda>s. None)) [Seed [?row]] ?read)) = []"
    by (intro new_scores_do_not_reach_the_router) (simp_all add: load_matrix_def curated_store_def)
  moreover have "score_rows (serve_model (\<lambda>s. None) (Seed [?row]) ?read) = [?row]"
    using empty by (simp add: load_matrix_def curated_store_def serve_capability_seed_def seed_capabilities_def)
  moreover have "load_capability_matrix [?row] reg None \<noteq> []" for reg
    by (simp add: load_capability_matrix_def resolve_active_rows_def by_model_def add_row_def best_rows_def
        better_row_def put_score_def derive_task_def DERIVED_TASKS_def score_row_def selected_release_def map_filter_simps)
  ultimately show ?thesis by (simp add: Let_def)
qed

text \<open>
  Also: a score of one point counts as a perfect score.  Scores may be given from 0 to 1 or from 0 to 100 and the
  scale is told by the value alone, so that 1 out of 100 is stored as 1, above every other score up to 100.
\<close>

theorem one_point_is_perfect: "raw \<le> 100 \<Longrightarrow> normalized_score raw \<le> normalized_score 1 \<and> normalized_score 2 = 2 / 100"
proof -
  have "normalized_score 1 = 1"
    using round_even_of_int[of 10000] by (simp add: normalized_score_def py_round_def)
  moreover have "normalized_score 2 = 2 / 100"
    using round_even_of_int[of 200] by (simp add: normalized_score_def py_round_def)
  ultimately show ?thesis using normalized_score_bounds by simp
qed

theorem one_point_is_perfect_witness: "normalized_score 99 \<le> normalized_score 1"
  using one_point_is_perfect[of 99] by simp

section \<open>Names that two models share\<close>

definition plain_entry :: "string \<Rightarrow> (string, string) dict \<Rightarrow> registry_entry" where
  "plain_entry bench ms = \<lparr>benchmark_key = bench, provider_mappings = ms, active_release = None,
     benchmark_release = None, quantization = None\<rparr>"

text \<open>
  Also: a spelling used with two providers names the wrong model.  The guard compares the spellings of the same
  provider only.  When a model has the spelling \<open>m\<close> with one provider, a second model with the same spelling at
  another provider is accepted, and from then on \<open>m\<close>, the very id the gateway sends for the second model, is
  resolved to the first one, in pricing, rules and scores.
\<close>

theorem shared_spelling_names_the_first_model:
  assumes "registry_rows st = [(first, plain_entry bench1 [(p, m)])]" and "first \<noteq> second"
    and "bench1 \<noteq> bench2" and "p \<noteq> q" and "first \<noteq> []" and "lower (strip m) = lower m" and "m \<noteq> []"
    and "lower m \<noteq> lower second"
  defines "st' \<equiv> fst (upsert_entry second bench2 [(q, m)] None None None st)"
  shows "provider_model_name (registry_rows st') second q = m \<and> logical_model_name (registry_rows st') m = first"
proof -
  have rows: "registry_rows st' = [(first, plain_entry bench1 [(p, m)]), (second, plain_entry bench2 [(q, m)])]"
    using assms(1-4) by (auto simp: st'_def upsert_entry_def plain_entry_def store_entry_def cache_defs Let_def)
  have "map_of (fold index_entry (registry_rows st') []) (lower m) = Some first"
    using assms(7,8) by (simp add: rows map_of_index_entry entry_claims_def plain_entry_def)
  then have "map_of (alias_to_logical (registry_rows st')) (lower m) = Some first"
    unfolding alias_to_logical_def by (rule fold_segments_keep)
  then show ?thesis
    using assms(2,5-7) by (simp add: logical_model_name_def lookup_alias_def provider_model_name_def rows plain_entry_def)
qed

definition two_models :: model_store where
  "two_models = \<lparr>registry_rows = [(''glm-5'', plain_entry ''glm-5'' [(''zai'', ''glm'')])], score_rows = [],
     registry_cache = None, matrix_cache = None\<rparr>"

theorem shared_spelling_names_the_first_model_witness:
  "logical_model_name (registry_rows (fst (upsert_entry ''glm-6'' ''glm-6'' [(''opencode'', ''glm'')] None None None two_models)))
     ''glm'' = ''glm-5''"
proof -
  have "lower (strip ''glm'') = lower ''glm''" "lower ''glm'' \<noteq> lower ''glm-6''" by code_simp+
  then show ?thesis
    using shared_spelling_names_the_first_model[of two_models "''glm-5''" "''glm-5''" "''zai''" "''glm''" "''glm-6''" "''glm-6''"
        "''opencode''"] by (simp add: two_models_def)
qed

section \<open>The listing\<close>

text \<open>
  Also: the listing is not the matrix.  The listing of the scores, documented to be what the router uses, shows for
  a model and task the score of the last row in force, whatever its source; the router takes the row of the best
  source.  With a manual score followed by one of a benchmark the listing shows the benchmark and the router uses
  the manual score.
\<close>

theorem listing_shows_the_last_row:
  assumes "score_rows st = [score_row m task ''manual'' (Some rel) hand, score_row m task ''arena'' (Some rel) arena]"
    and "task \<notin> {''debugging'', ''unit_tests''}" and "registry_rows st = []"
  shows "map_of (dget (li_tasks (serve_capability None None st)) task []) m = Some arena \<and>
    score_in (fst (load_matrix (invalidate_router_matrix st))) task m = Some hand"
proof -
  let ?rows = "[score_row m task ''manual'' (Some rel) hand, score_row m task ''arena'' (Some rel) arena]"
  have active: "resolve_active_rows ?rows [] None = ?rows"
    by (simp add: resolve_active_rows_def by_model_def add_row_def score_row_def
        selected_release_def active_of_def by_key_def map_filter_simps)
  have "map_of (dget (li_tasks (serve_capability None None st)) task []) m = Some arena"
    using assms(1,3) active by (simp add: serve_capability_def list_row_def set_cell_def score_row_def Let_def)
  moreover have "score_in (load_capability_matrix ?rows [] None) task m = Some hand"
    using assms(2) active unfolding load_matrix_scores
    by (simp add: declared_scores_def best_rows_def better_row_def score_row_def put_score_def score_in_def
        source_rank_def SOURCE_PRIORITY_def)
  ultimately show ?thesis
    using assms(1,3) by (simp add: load_matrix_def cache_defs Let_def)
qed

definition two_sources :: model_store where
  "two_sources = \<lparr>registry_rows = [], score_rows = [score_row ''kimi-k3'' ''planning'' ''manual'' (Some ''2026'') (1 / 2),
     score_row ''kimi-k3'' ''planning'' ''arena'' (Some ''2026'') 1], registry_cache = None, matrix_cache = None\<rparr>"

theorem listing_shows_the_last_row_witness:
  "map_of (dget (li_tasks (serve_capability None None two_sources)) ''planning'' []) ''kimi-k3'' = Some 1"
  using listing_shows_the_last_row[of two_sources "''kimi-k3''" "''planning''" "''2026''" "1 / 2" 1]
  by (simp add: two_sources_def)

section \<open>Tags\<close>

text \<open>
  Also: a parameter count is taken for a quantization.  The tag of a file name is found, but a name with a size and
  no tag gets its own size as quantization, a size before the tag hides the tag, and the first letter of an iq tag is
  lost.
\<close>

theorem sizes_are_taken_for_tags:
  "detect_quantization ''/models/qwen3.6-27b-q4_k_m.gguf'' = Some ''Q4_K_M'' \<and>
   detect_quantization ''gemma2b'' = Some ''GEMMA2B'' \<and>
   detect_quantization ''coder7b-q4_0'' = Some ''CODER7B'' \<and>
   detect_quantization ''qwen-iq4_xs'' = Some ''Q4_XS'' \<and>
   detect_quantization ''kimi-k3'' = None"
  by code_simp

end
