(* ===== verification/Console_OAuth.thy ===== *)
theory Console_OAuth
  imports Credentials Settings_Api
begin

section \<open>Console sessions of a provider (src/api/cost\_plugins/console\_oauth.py)\<close>

text \<open>
  A session token is minted once, by the device flow or by a pasted callback, kept as one encrypted credential and
  refreshed before it expires.  The web is an argument: what a request is answered with, and how long the answer
  takes.  JSON reading and writing, \<open>str\<close> of a decoded value, \<open>urljoin\<close>, percent decoding and the random bytes are
  arguments as well.  Form fields are kept as decoded values.
\<close>

record oauth_env =
  oa_loads :: "string \<Rightarrow> json option"
  oa_dumps :: "json \<Rightarrow> string"
  oa_str :: "json \<Rightarrow> string"
  oa_float :: "string \<Rightarrow> real option"
  oa_join :: "string \<Rightarrow> string \<Rightarrow> string"
  oa_unquote :: "string \<Rightarrow> string"
  oa_fernet :: fernet

record oauth_error =
  oe_status :: nat
  oe_error :: string
  oe_description :: string

datatype web_request =
    PostJson string obj
  | PostForm string obj
  | GetBearer string json

datatype web_answer =
    Answered nat string
  | Refused nat string
  | Unreachable string

definition CONSOLE_WEB :: string where "CONSOLE_WEB = ''https://opencode.ai/console''"
definition REGISTER_URL :: string where "REGISTER_URL = CONSOLE_WEB @ ''/auth/oauth/register''"
definition TOKEN_URL :: string where "TOKEN_URL = CONSOLE_WEB @ ''/auth/oauth/token''"
definition REVOKE_URL :: string where "REVOKE_URL = CONSOLE_WEB @ ''/auth/oauth/revoke''"
definition LOOPBACK_REDIRECT :: string where "LOOPBACK_REDIRECT = ''http://127.0.0.1:8791/callback''"
definition SCOPE :: string where "SCOPE = ''usage:read org:manage''"
definition CREDENTIAL_KEY :: string where "CREDENTIAL_KEY = ''opencode_console''"
definition DEVICE_CODE_URL :: string where "DEVICE_CODE_URL = CONSOLE_WEB @ ''/auth/device/code''"
definition DEVICE_TOKEN_URL :: string where "DEVICE_TOKEN_URL = CONSOLE_WEB @ ''/auth/device/token''"
definition DEVICE_CLIENT_ID :: string where "DEVICE_CLIENT_ID = ''opencode-cli''"
definition DEVICE_GRANT :: string where "DEVICE_GRANT = ''urn:ietf:params:oauth:grant-type:device_code''"
definition DEVICE_POLL_INTERVAL :: real where "DEVICE_POLL_INTERVAL = 5"
definition DEVICE_TIMEOUT_SEC :: real where "DEVICE_TIMEOUT_SEC = 660"
definition REFRESH_SKEW_SEC :: real where "REFRESH_SKEW_SEC = 120"

text \<open>\<open>a or b\<close> on decoded values, and \<open>d.get(k)\<close>.\<close>

definition or_json :: "json \<Rightarrow> json \<Rightarrow> json" where
  "or_json a b = (if truthy a then a else b)"

definition field :: "obj \<Rightarrow> string \<Rightarrow> json" where
  "field d k = dget d k JNull"

definition text_in :: "oauth_env \<Rightarrow> json \<Rightarrow> string" where
  "text_in env v = (case v of JStr s \<Rightarrow> s | _ \<Rightarrow> oa_str env v)"

subsection \<open>Requests and answers\<close>

definition oauth_fault :: "nat \<Rightarrow> string \<Rightarrow> string \<Rightarrow> oauth_error" where
  "oauth_fault status err description = \<lparr>oe_status = status, oe_error = err, oe_description = description\<rparr>"

definition read_answer :: "oauth_env \<Rightarrow> web_answer \<Rightarrow> oauth_error + obj" where
  "read_answer env a = (case a of
      Unreachable reason \<Rightarrow> Inl (oauth_fault 0 ''network_error'' reason)
    | Refused status raw \<Rightarrow>
        (let parsed = (case oa_loads env (if raw = [] then ''{}'' else raw) of Some (JObj d) \<Rightarrow> d | _ \<Rightarrow> [])
         in Inl (oauth_fault status (text_in env (or_json (or_json (field parsed ''error'') (field parsed ''_tag'')) (JStr [])))
              (text_in env (or_json (or_json (field parsed ''error_description'') (field parsed ''message'')) (JStr [])))))
    | Answered status raw \<Rightarrow>
        if strip raw = [] then Inr []
        else (case oa_loads env raw of
            None \<Rightarrow> Inl (oauth_fault status ''bad_response'' ''non-JSON payload'')
          | Some (JObj d) \<Rightarrow> Inr d
          | Some v \<Rightarrow> Inr [(''data'', v)]))"

definition register_request :: "string \<Rightarrow> web_request" where
  "register_request redirect = PostJson REGISTER_URL
     [(''client_name'', JStr ''lcp-credit-reader''), (''redirect_uris'', JList [JStr redirect]),
      (''grant_types'', JList [JStr ''authorization_code'', JStr ''refresh_token'']),
      (''response_types'', JList [JStr ''code'']), (''token_endpoint_auth_method'', JStr ''none'')]"

definition register_client :: "oauth_env \<Rightarrow> (web_request \<Rightarrow> web_answer) \<Rightarrow> oauth_error + string" where
  "register_client env web = (case read_answer env (web (register_request LOOPBACK_REDIRECT)) of
      Inl e \<Rightarrow> Inl e
    | Inr d \<Rightarrow> (let client = or_json (field d ''client_id'') (JStr []) in
        if truthy client then Inr (text_in env client)
        else Inl (oauth_fault 0 ''no_client_id'' (take 200 (oa_dumps env (JObj d))))))"

definition exchange_request :: "string \<Rightarrow> string \<Rightarrow> string \<Rightarrow> web_request" where
  "exchange_request code_text verifier client = PostForm TOKEN_URL
     [(''grant_type'', JStr ''authorization_code''), (''code'', JStr code_text), (''code_verifier'', JStr verifier),
      (''client_id'', JStr client), (''redirect_uri'', JStr LOOPBACK_REDIRECT)]"

definition refresh_request :: "json \<Rightarrow> json \<Rightarrow> json \<Rightarrow> web_request" where
  "refresh_request client refresh_token flow =
     (if flow = JStr ''device''
      then PostJson DEVICE_TOKEN_URL [(''grant_type'', JStr ''refresh_token''), (''refresh_token'', refresh_token),
             (''client_id'', or_json client (JStr DEVICE_CLIENT_ID))]
      else PostForm TOKEN_URL [(''grant_type'', JStr ''refresh_token''), (''refresh_token'', refresh_token),
             (''client_id'', client)])"

definition revoke_token :: "oauth_env \<Rightarrow> (web_request \<Rightarrow> web_answer) \<Rightarrow> string \<Rightarrow> bool" where
  "revoke_token env web token =
     (if token = [] then False
      else case read_answer env (web (PostForm REVOKE_URL [(''token'', JStr token)])) of Inl e \<Rightarrow> False | Inr d \<Rightarrow> True)"

subsection \<open>The pasted callback\<close>

text \<open>\<open>s.strip(c)\<close> for one character.\<close>

definition strip_of :: "char \<Rightarrow> string \<Rightarrow> string" where
  "strip_of c s = rev (dropWhile (\<lambda>d. d = c) (rev (dropWhile (\<lambda>d. d = c) s)))"

text \<open>\<open>urlparse(s).query\<close> of an address without brackets or control characters, and \<open>s.split("?", 1)[-1]\<close>.\<close>

definition url_query :: "string \<Rightarrow> string" where
  "url_query s = drop 1 (dropWhile (\<lambda>c. c \<noteq> CHR ''?'') (takeWhile (\<lambda>c. c \<noteq> CHR ''#'') s))"

definition after_mark :: "string \<Rightarrow> string" where
  "after_mark s = (if CHR ''?'' \<in> set s then drop 1 (dropWhile (\<lambda>c. c \<noteq> CHR ''?'') s) else s)"

text \<open>\<open>parse_qs(query).get(key, [""])[0]\<close>: pieces without a value are dropped.\<close>

fun first_value :: "(string \<Rightarrow> string) \<Rightarrow> string \<Rightarrow> string list \<Rightarrow> string" where
  "first_value uq key [] = []"
| "first_value uq key (piece # pieces) =
     (let name = takeWhile (\<lambda>c. c \<noteq> CHR ''='') piece; val = drop 1 (dropWhile (\<lambda>c. c \<noteq> CHR ''='') piece)
      in if val \<noteq> [] \<and> uq name = key then uq val else first_value uq key pieces)"

definition query_value :: "(string \<Rightarrow> string) \<Rightarrow> string \<Rightarrow> string \<Rightarrow> string" where
  "query_value uq key query = first_value uq key (split_on (CHR ''&'') query)"

text \<open>\<open>Inl\<close> is the text of the \<open>ValueError\<close>.\<close>

definition parse_callback :: "(string \<Rightarrow> string) \<Rightarrow> string \<Rightarrow> string + string" where
  "parse_callback uq pasted =
     (let s = strip_of (CHR 0x27) (strip_of (CHR 0x22) (strip pasted)) in
      if s = [] then Inl ''empty callback value''
      else if contains s ''code='' then
        (let query = (if url_query s \<noteq> [] then url_query s else after_mark s);
             refused = query_value uq ''error'' query; code_text = query_value uq ''code'' query
         in if refused \<noteq> [] then Inl (''authorization was refused: '' @ refused)
            else if code_text = [] then Inl ''no code parameter in the pasted URL'' else Inr code_text)
      else if contains s ''://'' \<or> CHR ''?'' \<in> set s \<or> starts_with s ''/''
      then Inl ''no code parameter in the pasted URL''
      else Inr s)"

subsection \<open>The device flow\<close>

definition device_poll_request :: "string \<Rightarrow> web_request" where
  "device_poll_request device_code = PostJson DEVICE_TOKEN_URL
     [(''grant_type'', JStr DEVICE_GRANT), (''device_code'', JStr device_code), (''client_id'', JStr DEVICE_CLIENT_ID)]"

definition start_device_flow :: "oauth_env \<Rightarrow> web_answer \<Rightarrow> oauth_error + obj" where
  "start_device_flow env a = (case read_answer env a of
      Inl e \<Rightarrow> Inl e
    | Inr d \<Rightarrow>
        if \<not> truthy (field d ''device_code'')
        then Inl (oauth_fault 0 ''invalid_response'' ''device/code returned no device_code'')
        else (let path = or_json (or_json (field d ''verification_uri_complete'') (field d ''verification_uri'')) (JStr [])
              in Inr (AList.update ''verification_url'' (JStr (oa_join env (CONSOLE_WEB @ ''/'') (text_in env path))) d)))"

datatype poll_answer = Pending | SlowDown | Granted obj | Failed oauth_error

definition poll_verdict :: "oauth_env \<Rightarrow> web_answer \<Rightarrow> poll_answer" where
  "poll_verdict env a = (case read_answer env a of
      Inl e \<Rightarrow> if oe_error e = ''authorization_pending'' then Pending
        else if oe_error e = ''slow_down'' then SlowDown else Failed e
    | Inr d \<Rightarrow>
        if truthy (field d ''access_token'') then Granted d
        else if field d ''error'' = JStr ''authorization_pending'' then Pending
        else if field d ''error'' = JStr ''slow_down'' then SlowDown
        else Failed (oauth_fault 0
               (if truthy (field d ''error'') then text_in env (field d ''error'') else ''device_flow_failed'')
               ''device authorization did not complete''))"

text \<open>
  The loop: the answer to the i-th request and the time it takes are \<open>answers i\<close> and \<open>delay i\<close>; the result is the
  outcome and the number of requests sent.  Nothing but the clock ends it, so it is a partial function.
\<close>

partial_function (option) poll_loop ::
  "oauth_env \<Rightarrow> (nat \<Rightarrow> web_answer) \<Rightarrow> (nat \<Rightarrow> real) \<Rightarrow> real \<Rightarrow> real \<Rightarrow> real \<Rightarrow> nat \<Rightarrow>
   ((oauth_error + obj) \<times> nat) option" where
  "poll_loop env answers delay deadline wait now i =
     (if now < deadline then
        (case poll_verdict env (answers i) of
          Pending \<Rightarrow> poll_loop env answers delay deadline wait (now + wait + delay i) (i + 1)
        | SlowDown \<Rightarrow> poll_loop env answers delay deadline (wait + 5) (now + wait + delay i) (i + 1)
        | Granted d \<Rightarrow> Some (Inr d, i + 1)
        | Failed e \<Rightarrow> Some (Inl e, i + 1))
      else Some (Inl (oauth_fault 0 ''expired_token'' ''device code expired before it was approved''), i))"

definition poll_seconds :: "real \<Rightarrow> real" where
  "poll_seconds timeout = max 1 (if timeout = 0 then DEVICE_TIMEOUT_SEC else timeout)"

definition poll_interval :: "real \<Rightarrow> real" where
  "poll_interval interval = max 1 (if interval = 0 then DEVICE_POLL_INTERVAL else interval)"

definition poll_device_token ::
  "oauth_env \<Rightarrow> (nat \<Rightarrow> web_answer) \<Rightarrow> (nat \<Rightarrow> real) \<Rightarrow> real \<Rightarrow> real \<Rightarrow> real \<Rightarrow> ((oauth_error + obj) \<times> nat) option" where
  "poll_device_token env answers delay interval timeout now =
     poll_loop env answers delay (now + poll_seconds timeout) (poll_interval interval) now 0"

subsection \<open>The stored session\<close>

definition save_tokens :: "oauth_env \<Rightarrow> cred_call \<Rightarrow> obj \<Rightarrow> credential_store \<Rightarrow> bool \<times> credential_store" where
  "save_tokens env call state cs = cred_set (oa_fernet env) call CREDENTIAL_KEY (oa_dumps env (JObj state)) cs"

definition load_tokens :: "oauth_env \<Rightarrow> cred_call \<Rightarrow> credential_store \<Rightarrow> obj option \<times> credential_store" where
  "load_tokens env call cs = (let (stored, cs') = cred_get (oa_fernet env) call CREDENTIAL_KEY cs;
        raw = (case stored of None \<Rightarrow> [] | Some s \<Rightarrow> s)
     in (if strip raw = [] then None
         else case oa_loads env raw of Some (JObj d) \<Rightarrow> Some d | _ \<Rightarrow> None, cs'))"

definition clear_session :: "oauth_env \<Rightarrow> cred_call \<Rightarrow> credential_store \<Rightarrow> bool \<times> credential_store" where
  "clear_session env call cs = cred_set (oa_fernet env) call CREDENTIAL_KEY [] cs"

text \<open>\<open>float(v or 0)\<close>, 0 when it raises.\<close>

definition float_or_zero :: "oauth_env \<Rightarrow> json \<Rightarrow> real" where
  "float_or_zero env v = (case float_of_json (oa_float env) (or_json v (JNum 0)) of Inl e \<Rightarrow> 0 | Inr x \<Rightarrow> x)"

definition expiry :: "oauth_env \<Rightarrow> real \<Rightarrow> obj \<Rightarrow> real" where
  "expiry env now tokens = (let expires_in = float_or_zero env (field tokens ''expires_in'')
     in if expires_in \<noteq> 0 then now + expires_in else 0)"

definition newer :: "obj \<Rightarrow> obj \<Rightarrow> string \<Rightarrow> string \<Rightarrow> json" where
  "newer tokens state k dflt = or_json (or_json (field tokens k) (field state k)) (JStr dflt)"

definition merge_tokens :: "oauth_env \<Rightarrow> real \<Rightarrow> string \<Rightarrow> obj \<Rightarrow> obj \<Rightarrow> obj" where
  "merge_tokens env now stamp state tokens =
     fold (\<lambda>(k, v) d. AList.update k v d)
       [(''access_token'', newer tokens state ''access_token'' []),
        (''refresh_token'', newer tokens state ''refresh_token'' []),
        (''token_type'', newer tokens state ''token_type'' ''Bearer''),
        (''scope'', newer tokens state ''scope'' SCOPE),
        (''expires_at'', JNum (expiry env now tokens)),
        (''updated_at'', JStr stamp)] state"

definition is_fresh :: "oauth_env \<Rightarrow> real \<Rightarrow> obj \<Rightarrow> bool" where
  "is_fresh env now state \<longleftrightarrow> (let expires_at = float_or_zero env (field state ''expires_at'') in
     truthy (field state ''access_token'') \<and> (expires_at = 0 \<or> REFRESH_SKEW_SEC < expires_at - now))"

text \<open>The result, the requests sent and the store.  \<open>stamp\<close> is the text of the time.\<close>

definition current_access_token ::
  "oauth_env \<Rightarrow> cred_call \<Rightarrow> (web_request \<Rightarrow> web_answer) \<Rightarrow> real \<Rightarrow> string \<Rightarrow> bool \<Rightarrow> credential_store \<Rightarrow>
   json \<times> web_request list \<times> credential_store" where
  "current_access_token env call web now stamp force cs = (case load_tokens env call cs of
      (None, cs1) \<Rightarrow> (JStr [], [], cs1)
    | (Some state, cs1) \<Rightarrow>
        if state = [] then (JStr [], [], cs1)
        else (let access = or_json (field state ''access_token'') (JStr []);
                  refresh_token = or_json (field state ''refresh_token'') (JStr []);
                  client = or_json (field state ''client_id'') (JStr []) in
          if is_fresh env now state \<and> \<not> force then (access, [], cs1)
          else if \<not> truthy refresh_token \<or> \<not> truthy client then (access, [], cs1)
          else (let req = refresh_request client refresh_token (or_json (field state ''flow'') (JStr ''pkce'')) in
            case read_answer env (web req) of
              Inl e \<Rightarrow> (access, [req], cs1)
            | Inr tokens \<Rightarrow> (let merged = merge_tokens env now stamp state tokens
                in (or_json (field merged ''access_token'') access, [req], snd (save_tokens env call merged cs1))))))"

subsection \<open>The organisation\<close>

definition stored_org_id :: "oauth_env \<Rightarrow> cred_call \<Rightarrow> credential_store \<Rightarrow> string \<times> credential_store" where
  "stored_org_id env call cs = (let (loaded, cs1) = load_tokens env call cs;
        org = field (case loaded of None \<Rightarrow> [] | Some d \<Rightarrow> d) ''org_id''
     in (if truthy org then text_in env org else [], cs1))"

text \<open>\<open>False\<close>: the store raised.\<close>

definition remember_org_id :: "oauth_env \<Rightarrow> cred_call \<Rightarrow> json \<Rightarrow> credential_store \<Rightarrow> bool \<times> credential_store" where
  "remember_org_id env call org cs =
     (if \<not> truthy org then (True, cs)
      else let (loaded, cs1) = load_tokens env call cs; state = (case loaded of None \<Rightarrow> [] | Some d \<Rightarrow> d)
        in if field state ''org_id'' = JStr (text_in env org) then (True, cs1)
           else save_tokens env call (AList.update ''org_id'' (JStr (text_in env org)) state) cs1)"

text \<open>\<open>fetch_org_id\<close> is the web client's, \<open>None\<close> when it raises; the result is \<open>None\<close> when the store raises.\<close>

definition resolve_org_id ::
  "oauth_env \<Rightarrow> cred_call \<Rightarrow> (web_request \<Rightarrow> web_answer) \<Rightarrow> (json \<Rightarrow> string option) \<Rightarrow> real \<Rightarrow> string \<Rightarrow> json \<Rightarrow>
   credential_store \<Rightarrow> string option \<times> credential_store" where
  "resolve_org_id env call web fetch_org_id now stamp token cs =
     (let (org, cs1) = stored_org_id env call cs in
      if org \<noteq> [] then (Some org, cs1)
      else let (tok, reqs, cs2) = (if truthy token then (token, [], cs1) else current_access_token env call web now stamp False cs1)
        in if \<not> truthy tok then (Some [], cs2)
           else let found = (case fetch_org_id tok of None \<Rightarrow> [] | Some s \<Rightarrow> s);
                    (ok, cs3) = remember_org_id env call (JStr found) cs2
             in (if ok then Some found else None, cs3))"

subsection \<open>The command line\<close>

text \<open>A pending sign-in, kept in a file between the two halves of the callback flow.\<close>

record pending_flow =
  pf_client :: string
  pf_verifier :: string
  pf_state :: string

record session_files =
  sf_store :: credential_store
  sf_pending :: "pending_flow option"

datatype cli_end = Exit nat | Raised

text \<open>\<open>build_authorize_url\<close>: the query of the address; \<open>challenge\<close> is the hash of the verifier.\<close>

definition authorize_query :: "(string \<Rightarrow> string) \<Rightarrow> string \<Rightarrow> string \<Rightarrow> string \<Rightarrow> (string \<times> string) list" where
  "authorize_query challenge client verifier state =
     [(''client_id'', client), (''redirect_uri'', LOOPBACK_REDIRECT), (''response_type'', ''code''),
      (''code_challenge'', challenge verifier), (''code_challenge_method'', ''S256''), (''state'', state),
      (''scope'', SCOPE), (''resource'', ''https://opencode.ai/inference'')]"

definition cli_start ::
  "oauth_env \<Rightarrow> (web_request \<Rightarrow> web_answer) \<Rightarrow> string \<Rightarrow> string \<Rightarrow> session_files \<Rightarrow> cli_end \<times> session_files" where
  "cli_start env web verifier state sf = (case register_client env web of
      Inl e \<Rightarrow> (Raised, sf)
    | Inr client \<Rightarrow> (Exit 0, sf\<lparr>sf_pending := Some \<lparr>pf_client = client, pf_verifier = verifier, pf_state = state\<rparr>\<rparr>))"

text \<open>\<open>complete\<close> without options on the command line, with the requests it sends.\<close>

definition cli_complete ::
  "oauth_env \<Rightarrow> cred_call \<Rightarrow> (web_request \<Rightarrow> web_answer) \<Rightarrow> real \<Rightarrow> string \<Rightarrow> string \<Rightarrow> session_files \<Rightarrow>
   cli_end \<times> web_request list \<times> session_files" where
  "cli_complete env call web now stamp callback sf = (case sf_pending sf of
      None \<Rightarrow> (Exit 2, [], sf)
    | Some pf \<Rightarrow>
        if pf_client pf = [] \<or> pf_verifier pf = [] then (Exit 2, [], sf)
        else (case parse_callback (oa_unquote env) callback of
          Inl message \<Rightarrow> (Raised, [], sf)
        | Inr code_text \<Rightarrow> (let req = exchange_request code_text (pf_verifier pf) (pf_client pf) in
            case read_answer env (web req) of
              Inl e \<Rightarrow> (Raised, [req], sf)
            | Inr tokens \<Rightarrow>
               (let (ok, cs) = save_tokens env call
                      (merge_tokens env now stamp [(''client_id'', JStr (pf_client pf))] tokens) (sf_store sf)
                in if ok then (Exit 0, [req], \<lparr>sf_store = cs, sf_pending = None\<rparr>)
                   else (Raised, [req], sf\<lparr>sf_store := cs\<rparr>)))))"

text \<open>The two reads that prove a session, and what the answer of the second one lists.\<close>

definition read_bearer :: "oauth_env \<Rightarrow> web_answer \<Rightarrow> oauth_error + json" where
  "read_bearer env a = (case a of
      Unreachable reason \<Rightarrow> Inl (oauth_fault 0 ''network_error'' reason)
    | Refused status raw \<Rightarrow> Inl (oauth_fault status ''api_error'' (take 200 raw))
    | Answered status raw \<Rightarrow> if strip raw = [] then Inr (JObj [])
        else (case oa_loads env raw of None \<Rightarrow> Inl (oauth_fault 0 ''bad_response'' ''non-JSON payload'') | Some v \<Rightarrow> Inr v))"

definition fetch_account :: "oauth_env \<Rightarrow> (web_request \<Rightarrow> web_answer) \<Rightarrow> json \<Rightarrow> oauth_error + (json \<times> json list)" where
  "fetch_account env web token = (case read_bearer env (web (GetBearer (CONSOLE_WEB @ ''/api/user'') token)) of
      Inl e \<Rightarrow> Inl e
    | Inr user \<Rightarrow> (case read_bearer env (web (GetBearer (CONSOLE_WEB @ ''/api/orgs'') token)) of
        Inl e \<Rightarrow> Inl e
      | Inr orgs \<Rightarrow> Inr (user, case (case orgs of JObj d \<Rightarrow> or_json (field d ''data'') (JList []) | v \<Rightarrow> v) of
            JList xs \<Rightarrow> xs | _ \<Rightarrow> [])))"

text \<open>
  \<open>device\<close>: the interval of the answer is a number or absent, the account and the organisations are objects.
  \<open>None\<close> would be a loop that does not end; the times are those of the start and of the grant.
\<close>

definition cli_device ::
  "oauth_env \<Rightarrow> cred_call \<Rightarrow> (web_request \<Rightarrow> web_answer) \<Rightarrow> (nat \<Rightarrow> web_answer) \<Rightarrow> (nat \<Rightarrow> real) \<Rightarrow> real \<Rightarrow> real \<Rightarrow>
   string \<Rightarrow> real \<Rightarrow> credential_store \<Rightarrow> (cli_end \<times> credential_store) option" where
  "cli_device env call web answers delay timeout now stamp granted_at cs =
     (case start_device_flow env (web (PostJson DEVICE_CODE_URL [(''client_id'', JStr DEVICE_CLIENT_ID)])) of
       Inl e \<Rightarrow> Some (Raised, cs)
     | Inr flow \<Rightarrow>
         if map_of flow ''user_code'' = None then Some (Raised, cs)
         else (case poll_device_token env answers delay (float_or_zero env (field flow ''interval'')) timeout now of
           None \<Rightarrow> None
         | Some (Inl e, n) \<Rightarrow> Some (Raised, cs)
         | Some (Inr tokens, n) \<Rightarrow>
            (let state = merge_tokens env granted_at stamp
                   [(''client_id'', JStr DEVICE_CLIENT_ID), (''flow'', JStr ''device'')] tokens;
                 (ok, cs1) = save_tokens env call state cs
             in if \<not> ok then Some (Raised, cs1)
                else (case fetch_account env web (field state ''access_token'') of
                  Inl e \<Rightarrow> Some (Exit 0, cs1)
                | Inr (user, []) \<Rightarrow> Some (Exit 0, cs1)
                | Inr (user, org # orgs) \<Rightarrow>
                   (let (ok', cs2) = remember_org_id env call
                          (case org of JObj d \<Rightarrow> or_json (field d ''id'') (JStr []) | _ \<Rightarrow> JStr []) cs1
                    in Some (if ok' then Exit 0 else Raised, cs2))))))"

section \<open>The device loop\<close>

lemma poll_loop_ends:
  assumes "\<forall>j. 0 \<le> delay j" "0 < w" "w \<le> wait" "deadline - now \<le> real k * w"
  shows "\<exists>r n. poll_loop env answers delay deadline wait now i = Some (r, n) \<and> n \<le> i + k"
  using assms(3,4)
proof (induction k arbitrary: wait now i)
  case 0
  then show ?case by (simp add: poll_loop.simps[of env answers delay deadline wait now i])
next
  case (Suc k)
  have left: "deadline - (now + wait + delay i) \<le> real k * w"
    using Suc.prems assms(1) by (smt (verit) distrib_right mult_cancel_right1 of_nat_Suc)
  have "\<exists>r n. poll_loop env answers delay deadline wait (now + wait + delay i) (i + 1) = Some (r, n) \<and> n \<le> i + 1 + k"
    "\<exists>r n. poll_loop env answers delay deadline (wait + 5) (now + wait + delay i) (i + 1) = Some (r, n) \<and> n \<le> i + 1 + k"
    using Suc.IH[where wait = wait and now = "now + wait + delay i" and i = "i + 1"] Suc.IH[where wait = "wait + 5" and now = "now + wait + delay i" and i = "i + 1"]
      left Suc.prems(1) by simp_all
  then show ?case
    by (subst poll_loop.simps) (auto split: poll_answer.split)
qed

text \<open>
  C34: waiting for approval ends.  Whatever the server answers and however it delays, as long as time does not run
  backwards the device loop returns: with tokens, with an error, or with an expired code; and it sends at most one
  request per polling interval of the time allowed.
\<close>

theorem waiting_for_approval_ends:
  assumes "\<forall>i. 0 \<le> delay i"
  shows "\<exists>r n. poll_device_token env answers delay interval timeout now = Some (r, n) \<and>
    n \<le> nat \<lceil>poll_seconds timeout / poll_interval interval\<rceil>"
proof -
  let ?k = "nat \<lceil>poll_seconds timeout / poll_interval interval\<rceil>"
  have pos: "1 \<le> poll_interval interval" "1 \<le> poll_seconds timeout"
    by (simp_all add: poll_interval_def poll_seconds_def)
  have "poll_seconds timeout / poll_interval interval \<le> real ?k" by (rule real_nat_ceiling_ge)
  then have "poll_seconds timeout \<le> real ?k * poll_interval interval"
    using pos(1) pos_divide_le_eq[of "poll_interval interval" "poll_seconds timeout" "real ?k"] by linarith
  then show ?thesis
    using poll_loop_ends[of delay "poll_interval interval" "poll_interval interval" "now + poll_seconds timeout" now ?k
        env answers 0] assms pos(1)
    by (simp add: poll_device_token_def)
qed

text \<open>The wait and the clock after \<open>k\<close> unanswered tries.\<close>

fun poll_state :: "oauth_env \<Rightarrow> (nat \<Rightarrow> web_answer) \<Rightarrow> (nat \<Rightarrow> real) \<Rightarrow> real \<Rightarrow> real \<Rightarrow> nat \<Rightarrow> real \<times> real" where
  "poll_state env answers delay wait now 0 = (wait, now)"
| "poll_state env answers delay wait now (Suc k) =
     (let (w, t) = poll_state env answers delay wait now k
      in (if poll_verdict env (answers k) = SlowDown then w + 5 else w, t + w + delay k))"

lemma poll_loop_reaches:
  assumes "\<And>j. j < k \<Longrightarrow> poll_verdict env (answers j) \<in> {Pending, SlowDown} \<and> snd (poll_state env answers delay wait now j) < deadline"
  shows "poll_loop env answers delay deadline wait now 0 =
    (let (w, t) = poll_state env answers delay wait now k in poll_loop env answers delay deadline w t k)"
  using assms
proof (induction k)
  case (Suc k)
  obtain w t where s: "poll_state env answers delay wait now k = (w, t)" by (cases "poll_state env answers delay wait now k")
  have "poll_verdict env (answers k) \<in> {Pending, SlowDown}" "t < deadline" using Suc.prems[of k] s by simp_all
  then have "poll_loop env answers delay deadline w t k =
      poll_loop env answers delay deadline (if poll_verdict env (answers k) = SlowDown then w + 5 else w) (t + w + delay k) (Suc k)"
    by (subst poll_loop.simps) auto
  with Suc s show ?case by simp
qed simp

text \<open>
  Also: an approval is seen.  If every answer before the k-th says that the approval is pending or asks to slow
  down, the k-th brings the tokens and the clock before it has not passed the time allowed, the loop returns just
  these tokens after k+1 requests; each request to slow down has made the pauses five seconds longer.
\<close>

theorem approval_is_seen:
  assumes "\<forall>j < k. poll_verdict env (answers j) \<in> {Pending, SlowDown}"
    and "poll_verdict env (answers k) = Granted tokens"
    and "\<forall>j \<le> k. snd (poll_state env answers delay (poll_interval interval) now j) < now + poll_seconds timeout"
  shows "poll_device_token env answers delay interval timeout now = Some (Inr tokens, k + 1) \<and>
    fst (poll_state env answers delay (poll_interval interval) now k) =
      poll_interval interval + 5 * real (length (filter (\<lambda>j. poll_verdict env (answers j) = SlowDown) [0..<k]))"
proof
  obtain w t where s: "poll_state env answers delay (poll_interval interval) now k = (w, t)"
    by (cases "poll_state env answers delay (poll_interval interval) now k")
  have "poll_device_token env answers delay interval timeout now =
      poll_loop env answers delay (now + poll_seconds timeout) w t k"
    unfolding poll_device_token_def using assms(1,3) s by (subst poll_loop_reaches[of k]) simp_all
  also have "\<dots> = Some (Inr tokens, k + 1)"
    using assms(2,3) s by (subst poll_loop.simps) auto
  finally show "poll_device_token env answers delay interval timeout now = Some (Inr tokens, k + 1)" .
  show "fst (poll_state env answers delay (poll_interval interval) now k) =
      poll_interval interval + 5 * real (length (filter (\<lambda>j. poll_verdict env (answers j) = SlowDown) [0..<k]))"
    by (induction k) (auto simp: split_beta Let_def)
qed

section \<open>The stored session\<close>

text \<open>The session is written so that it reads back; Fernet decrypts what it encrypted.\<close>

definition reads_back :: "oauth_env \<Rightarrow> obj \<Rightarrow> bool" where
  "reads_back env state \<longleftrightarrow>
     oa_loads env (oa_dumps env (JObj state)) = Some (JObj state) \<and> strip (oa_dumps env (JObj state)) \<noteq> []"

definition fernet_ok :: "fernet \<Rightarrow> bool" where
  "fernet_ok f \<longleftrightarrow> (\<forall>n k t. fernet_decrypt f k (fernet_encrypt f n k t) = Some t \<and> fernet_encrypt f n k t \<noteq> [])"

lemma load_saved:
  assumes "save_tokens env call state cs = (True, cs')" "reads_back env state" "fernet_ok (oa_fernet env)"
  shows "load_tokens env call' cs' = (Some state, cs')"
proof -
  have "oa_dumps env (JObj state) \<noteq> []" using assms(2) by (auto simp: reads_back_def strip_def lstrip_def rstrip_def)
  then have "cred_get (oa_fernet env) call' CREDENTIAL_KEY cs' = (Some (oa_dumps env (JObj state)), cs')"
    using assms(1,3) unfolding save_tokens_def fernet_ok_def by (intro cred_get_set) auto
  then show ?thesis using assms(2) by (simp add: load_tokens_def reads_back_def)
qed

lemma field_merged:
  "field (merge_tokens env now stamp state tokens) ''access_token'' = newer tokens state ''access_token'' []"
  "field (merge_tokens env now stamp state tokens) ''refresh_token'' = newer tokens state ''refresh_token'' []"
  "field (merge_tokens env now stamp state tokens) ''expires_at'' = JNum (expiry env now tokens)"
  "k \<notin> {''access_token'', ''refresh_token'', ''token_type'', ''scope'', ''expires_at'', ''updated_at''} \<Longrightarrow>
     field (merge_tokens env now stamp state tokens) k = field state k"
  by (simp_all add: field_def merge_tokens_def dict_simps)

lemma float_of_num [simp]: "float_or_zero env (JNum x) = x"
  by (simp add: float_or_zero_def or_json_def)

lemma merged_not_empty [simp]: "merge_tokens env now stamp state tokens \<noteq> []"
  using field_merged(3)[of env now stamp state tokens] by (auto simp: field_def)

lemma current_when_fresh:
  assumes "load_tokens env call cs = (Some state, cs1)" "is_fresh env now state"
  shows "current_access_token env call web now stamp False cs = (field state ''access_token'', [], cs1)"
  using assms by (auto simp: current_access_token_def is_fresh_def field_def or_json_def Let_def)

definition refresh_of :: "obj \<Rightarrow> web_request" where
  "refresh_of state = refresh_request (field state ''client_id'') (field state ''refresh_token'')
     (or_json (field state ''flow'') (JStr ''pkce''))"

lemma current_when_stale:
  assumes "load_tokens env call cs = (Some state, cs1)" "\<not> is_fresh env now state"
    and "truthy (field state ''refresh_token'')" "truthy (field state ''client_id'')"
    and "read_answer env (web (refresh_of state)) = Inr tokens"
  shows "current_access_token env call web now stamp False cs =
    (let merged = merge_tokens env now stamp state tokens
     in (or_json (field merged ''access_token'') (or_json (field state ''access_token'') (JStr [])),
         [refresh_of state], snd (save_tokens env call merged cs1)))"
proof -
  have "state \<noteq> []" using assms(3) by (auto simp: field_def)
  with assms show ?thesis
    by (simp add: current_access_token_def refresh_of_def or_json_def [of "field state ''client_id''"]
        or_json_def [of "field state ''refresh_token''"] Let_def)
qed

text \<open>
  C40: a refresh that brings nothing ends all refreshing.  When a session is near its end, the refresh is
  answered with an object that has neither tokens nor an expiry (an error reported with status 200, an empty body),
  and the merged session is stored, then the old, expiring token is stored without an expiry: from then on it counts
  as fresh, at every later time it is returned without a request, and no refresh is tried again.
\<close>

theorem empty_refresh_freezes_the_session:
  assumes "load_tokens env call cs = (Some state, cs)" and "\<not> is_fresh env now state"
    and "truthy (field state ''access_token'')" and "truthy (field state ''refresh_token'')" and "truthy (field state ''client_id'')"
    and "read_answer env (web (refresh_of state)) = Inr tokens"
    and "field tokens ''access_token'' = JNull" and "field tokens ''expires_in'' = JNull"
    and "fst (save_tokens env call (merge_tokens env now stamp state tokens) cs)"
    and "reads_back env (merge_tokens env now stamp state tokens)" and "fernet_ok (oa_fernet env)"
  shows "let cs' = snd (snd (current_access_token env call web now stamp False cs)) in
    \<forall>call' web' later stamp'. current_access_token env call' web' later stamp' False cs' = (field state ''access_token'', [], cs')"
proof -
  let ?merged = "merge_tokens env now stamp state tokens"
  let ?cs' = "snd (save_tokens env call ?merged cs)"
  have now: "snd (snd (current_access_token env call web now stamp False cs)) = ?cs'"
    using assms(1-6) by (simp add: current_when_stale Let_def)
  have saved: "load_tokens env call' ?cs' = (Some ?merged, ?cs')" for call'
    using load_saved[of env call ?merged cs ?cs' call'] assms(9-11) by (metis prod.collapse)
  have "is_fresh env later ?merged" for later
    using assms(3,7,8) by (simp add: is_fresh_def field_merged newer_def or_json_def expiry_def float_or_zero_def)
  moreover have "field ?merged ''access_token'' = field state ''access_token''"
    using assms(3,7) by (simp add: field_merged newer_def or_json_def)
  ultimately show ?thesis
    by (simp add: now current_when_fresh[OF saved])
qed

text \<open>
  Also: a refresh keeps the session renewable.  Near the end of a session one refresh request is sent, to the
  server that minted it; when it brings a new token and a lifetime of more than two minutes, that token is returned,
  the next call returns it again without a request, and the stored session still has a refresh token, the client and
  the flow, also when the answer names no refresh token.
\<close>

theorem refreshed_session_is_renewable:
  assumes "load_tokens env call cs = (Some state, cs)" and "\<not> is_fresh env now state"
    and "truthy (field state ''refresh_token'')" and "truthy (field state ''client_id'')"
    and "read_answer env (web (refresh_of state)) = Inr tokens"
    and "truthy (field tokens ''access_token'')" and "field tokens ''expires_in'' = JNum life" and "REFRESH_SKEW_SEC < life"
    and "fst (save_tokens env call (merge_tokens env now stamp state tokens) cs)"
    and "reads_back env (merge_tokens env now stamp state tokens)" and "fernet_ok (oa_fernet env)"
  shows "case current_access_token env call web now stamp False cs of (token, requests, cs') \<Rightarrow>
    token = field tokens ''access_token'' \<and> length requests = 1 \<and>
    (\<exists>fields. if field state ''flow'' = JStr ''device'' then requests = [PostJson DEVICE_TOKEN_URL fields]
       else requests = [PostForm TOKEN_URL fields]) \<and>
    (\<forall>call' web' stamp'. current_access_token env call' web' now stamp' False cs' = (token, [], cs')) \<and>
    (\<exists>session. load_tokens env call cs' = (Some session, cs') \<and> truthy (field session ''refresh_token'') \<and>
       field session ''client_id'' = field state ''client_id'' \<and> field session ''flow'' = field state ''flow'')"
proof -
  let ?merged = "merge_tokens env now stamp state tokens"
  let ?cs' = "snd (save_tokens env call ?merged cs)"
  let ?req = "refresh_of state"
  have new: "field ?merged ''access_token'' = field tokens ''access_token''"
    using assms(6) by (simp add: field_merged newer_def or_json_def)
  have call: "current_access_token env call web now stamp False cs = (field tokens ''access_token'', [?req], ?cs')"
    using assms(1-6) new by (simp add: current_when_stale or_json_def[of "field tokens ''access_token''"] Let_def)
  have saved: "load_tokens env call' ?cs' = (Some ?merged, ?cs')" for call'
    using load_saved[of env call ?merged cs ?cs' call'] assms(9-11) by (metis prod.collapse)
  have "is_fresh env now ?merged"
    using assms(6-8) by (simp add: is_fresh_def new field_merged(3) expiry_def REFRESH_SKEW_SEC_def)
  then have again: "current_access_token env call' web' now stamp' False ?cs' = (field tokens ''access_token'', [], ?cs')"
    for call' web' stamp'
    using new by (simp add: current_when_fresh[OF saved])
  have "truthy (field ?merged ''refresh_token'')"
    using assms(3) by (simp add: field_merged newer_def or_json_def)
  moreover have "field ?merged ''client_id'' = field state ''client_id''" "field ?merged ''flow'' = field state ''flow''"
    by (simp_all add: field_merged)
  moreover have "\<exists>fields. if field state ''flow'' = JStr ''device'' then [?req] = [PostJson DEVICE_TOKEN_URL fields]
       else [?req] = [PostForm TOKEN_URL fields]"
    by (auto simp: refresh_of_def refresh_request_def or_json_def)
  ultimately show ?thesis
    using again saved by (simp add: call)
qed

section \<open>The callback flow\<close>

text \<open>Texts of letters, digits, hyphens and underscores, which percent decoding leaves alone.\<close>

definition url_safe :: "char \<Rightarrow> bool" where
  "url_safe c \<longleftrightarrow> 48 \<le> code c \<and> code c \<le> 57 \<or> 65 \<le> code c \<and> code c \<le> 90 \<or> 97 \<le> code c \<and> code c \<le> 122 \<or>
     code c = 45 \<or> code c = 95"

definition token_text :: "string \<Rightarrow> bool" where
  "token_text s \<longleftrightarrow> s \<noteq> [] \<and> list_all url_safe s"

definition callback :: "string \<Rightarrow> string \<Rightarrow> string" where
  "callback code_text state = LOOPBACK_REDIRECT @ ''?code='' @ code_text @ ''&state='' @ state"

lemma token_free:
  assumes "token_text s"
  shows "CHR ''&'' \<notin> set s" "CHR ''='' \<notin> set s" "CHR ''#'' \<notin> set s" "CHR ''?'' \<notin> set s"
  using assms by (auto simp: token_text_def list_all_iff url_safe_def code_def)

lemma dropWhile_first: "\<not> P c \<Longrightarrow> dropWhile P (c # cs) = c # cs"
  by simp

lemma token_end:
  assumes "token_text s"
  obtains u c where "s = u @ [c]" "\<not> is_space c" "c \<noteq> CHR 0x22" "c \<noteq> CHR 0x27"
proof -
  have "s \<noteq> []" using assms by (simp add: token_text_def)
  then obtain u c where s: "s = u @ [c]" by (metis rev_exhaust)
  then have "url_safe c" using assms by (simp add: token_text_def)
  then have "\<not> is_space c" "c \<noteq> CHR 0x22" "c \<noteq> CHR 0x27"
    by (auto simp: url_safe_def is_space_def code_def)
  with s show ?thesis using that by blast
qed

lemma callback_plain:
  assumes "token_text state"
  shows "strip_of (CHR 0x27) (strip_of (CHR 0x22) (strip (callback c state))) = callback c state"
proof -
  obtain u x where s: "state = u @ [x]" "\<not> is_space x" "x \<noteq> CHR 0x22" "x \<noteq> CHR 0x27"
    using token_end[OF assms] by metis
  have h: "\<not> is_space (CHR ''h'')" by code_simp
  have shape: "callback c state = CHR ''h'' # tl (callback c state)"
    "callback c state = (LOOPBACK_REDIRECT @ ''?code='' @ c @ ''&state='' @ u) @ [x]"
    by (simp_all add: callback_def LOOPBACK_REDIRECT_def s(1))
  have front: "dropWhile P (callback c state) = callback c state" if "\<not> P (CHR ''h'')" for P
    by (subst (1 2) shape(1)) (simp add: that)
  have rear: "rev (dropWhile P (rev (callback c state))) = callback c state" if "\<not> P x" for P
    unfolding shape(2) using that by simp
  have "strip (callback c state) = callback c state"
    by (simp add: strip_def lstrip_def rstrip_def rear[of is_space, OF s(2)] front[of is_space, OF h])
  moreover have "strip_of q (callback c state) = callback c state" if "x \<noteq> q" "CHR ''h'' \<noteq> q" for q
    using rear[of "\<lambda>d. d = q"] front[of "\<lambda>d. d = q"] that by (simp add: strip_of_def)
  ultimately show ?thesis using s(3,4) by simp
qed

lemma callback_query:
  assumes "token_text c" "token_text state"
  shows "url_query (callback c state) = ''code='' @ c @ ''&state='' @ state"
proof -
  have "takeWhile (\<lambda>x. x \<noteq> CHR ''#'') (callback c state) = callback c state"
    using token_free(3)[OF assms(1)] token_free(3)[OF assms(2)]
    by (auto simp: takeWhile_eq_all_conv callback_def LOOPBACK_REDIRECT_def)
  then show ?thesis by (simp add: url_query_def callback_def LOOPBACK_REDIRECT_def)
qed

lemma parsed_callback:
  assumes "token_text c" "token_text state" "\<And>t. token_text t \<Longrightarrow> uq t = t"
  shows "parse_callback uq (callback c state) = Inr c"
proof -
  let ?s = "callback c state" and ?q = "''code='' @ c @ ''&state='' @ state"
  have code: "contains ?s ''code=''"
  proof -
    have "?s = (LOOPBACK_REDIRECT @ ''?'') @ ''code='' @ (c @ ''&state='' @ state)" by (simp add: callback_def)
    then show ?thesis unfolding contains_sublist sublist_def by blast
  qed
  have pieces: "split_on (CHR ''&'') ?q = [''code='' @ c, ''state='' @ state]"
    using split_on_free[of "CHR ''&''" "''code='' @ c" "''state='' @ state"]
      split_on_word[of "CHR ''&''" "''state='' @ state"] token_free(1)[OF assms(1)] token_free(1)[OF assms(2)] by simp
  have names: "uq ''code'' = ''code''" "uq ''state'' = ''state''" "uq c = c"
    using assms(1,3) by (auto intro!: assms(3) simp: token_text_def url_safe_def code_def)
  have "c \<noteq> []" using assms(1) by (simp add: token_text_def)
  then have "query_value uq ''error'' ?q = []" "query_value uq ''code'' ?q = c"
    using names unfolding query_value_def pieces by simp_all
  moreover have "?s \<noteq> []" by (simp add: callback_def)
  moreover have "url_query ?s \<noteq> []" unfolding callback_query[OF assms(1,2)] by simp
  ultimately show ?thesis
    unfolding parse_callback_def Let_def callback_plain[OF assms(2)]
    using code \<open>c \<noteq> []\<close> by (simp add: callback_query[OF assms(1,2)])
qed

text \<open>
  Also: the state of a sign-in is not checked.  The sign-in that was started keeps a random state, which the callback
  must bring back; the second half never compares them.  Whatever state the pasted address carries, the code in it is
  exchanged, and the resulting session is stored as the operator's.
\<close>

theorem callback_state_is_not_checked:
  assumes "sf_pending sf = Some pf" and "pf_client pf \<noteq> []" and "pf_verifier pf \<noteq> []"
    and "token_text c" and "token_text state" and "\<And>t. token_text t \<Longrightarrow> oa_unquote env t = t"
    and "read_answer env (web (exchange_request c (pf_verifier pf) (pf_client pf))) = Inr tokens"
    and "fst (save_tokens env call (merge_tokens env now stamp [(''client_id'', JStr (pf_client pf))] tokens) (sf_store sf))"
    and "reads_back env (merge_tokens env now stamp [(''client_id'', JStr (pf_client pf))] tokens)"
    and "fernet_ok (oa_fernet env)" and "truthy (field tokens ''access_token'')"
  shows "case cli_complete env call web now stamp (callback c state) sf of (result, requests, sf') \<Rightarrow>
    result = Exit 0 \<and> requests = [exchange_request c (pf_verifier pf) (pf_client pf)] \<and>
    (\<exists>session. fst (load_tokens env call (sf_store sf')) = Some session \<and>
       field session ''access_token'' = field tokens ''access_token'')"
proof -
  let ?state = "merge_tokens env now stamp [(''client_id'', JStr (pf_client pf))] tokens"
  let ?saved = "save_tokens env call ?state (sf_store sf)"
  have "load_tokens env call (snd ?saved) = (Some ?state, snd ?saved)"
    using load_saved[of env call ?state "sf_store sf" "snd ?saved" call] assms(8-10) by (metis prod.collapse)
  moreover have "field ?state ''access_token'' = field tokens ''access_token''"
    using assms(11) by (simp add: field_merged newer_def or_json_def)
  moreover have "parse_callback (oa_unquote env) (callback c state) = Inr c"
    using assms(4-6) by (rule parsed_callback)
  ultimately show ?thesis
    using assms(1-3,7,8) by (simp add: cli_complete_def Let_def split_beta)
qed

section \<open>Examples\<close>

definition demo_tokens :: obj where
  "demo_tokens = [(''access_token'', JStr ''b''), (''expires_in'', JNum 3600)]"

definition demo_oauth :: "obj \<Rightarrow> obj \<Rightarrow> oauth_env" where
  "demo_oauth first second = \<lparr>oa_loads = (\<lambda>s. if s = ''1'' then Some (JObj first) else if s = ''2'' then Some (JObj second)
        else if s = ''3'' then Some (JObj demo_tokens) else None),
     oa_dumps = (\<lambda>v. if v = JObj first then ''1'' else ''2''), oa_str = (\<lambda>v. []), oa_float = (\<lambda>s. None),
     oa_join = (\<lambda>a b. a @ b), oa_unquote = (\<lambda>s. s), oa_fernet = toy_fernet\<rparr>"

definition session_call :: cred_call where
  "session_call = \<lparr>now_iso = ''t'', fresh_key = ''k'', nonce_of = []\<rparr>"

definition no_credentials :: credential_store where
  "no_credentials = \<lparr>cred_rows = [], cred_env = \<lparr>env_secret = Some ''s'', key_file = None, disk_ok = True\<rparr>\<rparr>"

definition demo_session :: obj where
  "demo_session = [(''access_token'', JStr ''a''), (''refresh_token'', JStr ''r''), (''client_id'', JStr ''opencode-cli''),
     (''flow'', JStr ''device''), (''expires_at'', JNum 100)]"

lemma toy_ok [simp]: "fernet_ok toy_fernet"
  by (simp add: fernet_ok_def toy_fernet_def)

lemma demo_save:
  "fst (save_tokens (demo_oauth first second) session_call state no_credentials)"
  "env_secret (cred_env cs) = Some ''s'' \<Longrightarrow> fst (save_tokens (demo_oauth first second) session_call state cs) \<and>
     cred_env (snd (save_tokens (demo_oauth first second) session_call state cs)) = cred_env cs"
  by (auto simp: save_tokens_def demo_oauth_def cred_set_def encrypt_secret_def get_secret_key_def no_credentials_def Let_def)

lemma demo_reads_back:
  "reads_back (demo_oauth first second) first" "first \<noteq> second \<Longrightarrow> reads_back (demo_oauth first second) second"
proof -
  have "strip ''1'' \<noteq> []" "strip ''2'' \<noteq> []" by code_simp+
  then show "reads_back (demo_oauth first second) first"
    "first \<noteq> second \<Longrightarrow> reads_back (demo_oauth first second) second"
    by (auto simp: reads_back_def demo_oauth_def)
qed

text \<open>The session stored, and what a refresh at time 50 makes of it.\<close>

definition demo_merged :: "obj \<Rightarrow> obj" where
  "demo_merged tokens = merge_tokens (demo_oauth [] []) 50 ''t'' demo_session tokens"

abbreviation session_env :: "obj \<Rightarrow> oauth_env" where
  "session_env tokens \<equiv> demo_oauth demo_session (demo_merged tokens)"

definition session_store :: "obj \<Rightarrow> credential_store" where
  "session_store tokens = snd (save_tokens (session_env tokens) session_call demo_session no_credentials)"

lemma demo_loaded: "load_tokens (session_env tokens) call (session_store tokens) = (Some demo_session, session_store tokens)"
  using demo_save(1)[of demo_session "demo_merged tokens" demo_session] demo_reads_back(1)
  by (intro load_saved) (auto simp: session_store_def demo_oauth_def simp flip: surjective_pairing
      intro!: prod_eqI)

lemma demo_merge: "merge_tokens (session_env tokens) 50 ''t'' demo_session tokens = demo_merged tokens"
  by (simp add: demo_merged_def merge_tokens_def expiry_def float_or_zero_def demo_oauth_def)

lemma demo_stale: "\<not> is_fresh env 50 demo_session"
  by (simp add: is_fresh_def field_def demo_session_def REFRESH_SKEW_SEC_def)

lemma demo_resave: "fst (save_tokens (session_env tokens) session_call (demo_merged tokens) (session_store tokens))"
proof -
  have "env_secret (cred_env no_credentials) = Some ''s''" by (simp add: no_credentials_def)
  then show ?thesis
    unfolding session_store_def using demo_save(2) by metis
qed

lemma demo_new: "demo_session \<noteq> demo_merged tokens"
proof
  assume "demo_session = demo_merged tokens"
  then have "field demo_session ''updated_at'' = field (demo_merged tokens) ''updated_at''" by simp
  moreover have "field (demo_merged tokens) ''updated_at'' = JStr ''t''"
    by (simp add: field_def demo_merged_def merge_tokens_def dict_simps)
  ultimately show False by (simp add: field_def demo_session_def)
qed

theorem empty_refresh_freezes_the_session_witness:
  "\<exists>cs. current_access_token (session_env []) session_call (\<lambda>r. Answered 200 []) 9000000 ''u'' False cs = (JStr ''a'', [], cs)"
proof -
  have "let cs' = snd (snd (current_access_token (session_env []) session_call (\<lambda>r. Answered 200 []) 50 ''t'' False (session_store []))) in
    \<forall>call' web' later stamp'. current_access_token (session_env []) call' web' later stamp' False cs' =
      (field demo_session ''access_token'', [], cs')"
    by (rule empty_refresh_freezes_the_session[where tokens = "[]"])
       (simp_all add: demo_loaded demo_stale demo_merge demo_resave demo_reads_back(2)[OF demo_new] read_answer_def,
        simp_all add: field_def demo_session_def demo_oauth_def strip_def lstrip_def)
  moreover have "field demo_session ''access_token'' = JStr ''a''" by (simp add: field_def demo_session_def)
  ultimately show ?thesis unfolding Let_def by metis
qed

lemma demo_answer: "read_answer (demo_oauth first second) (Answered 200 ''3'') = Inr demo_tokens"
proof -
  have "strip ''3'' \<noteq> []" by code_simp
  then show ?thesis by (simp add: read_answer_def demo_oauth_def)
qed

lemma demo_session_fields:
  "field demo_session ''access_token'' = JStr ''a''" "field demo_session ''refresh_token'' = JStr ''r''"
  "field demo_session ''client_id'' = JStr ''opencode-cli''" "field demo_tokens ''access_token'' = JStr ''b''"
  "field demo_tokens ''expires_in'' = JNum 3600"
  by (simp_all add: field_def demo_session_def demo_tokens_def)

theorem refreshed_session_is_renewable_witness:
  "fst (current_access_token (session_env demo_tokens) session_call (\<lambda>r. Answered 200 ''3'') 50 ''t'' False (session_store demo_tokens)) =
     JStr ''b''"
proof -
  have fernet: "fernet_ok (oa_fernet (session_env demo_tokens))" by (simp add: demo_oauth_def)
  show ?thesis
    using refreshed_session_is_renewable[OF demo_loaded[of demo_tokens] demo_stale _ _ demo_answer _ demo_session_fields(5) _ _ _ fernet,
        of session_call "''t''"] demo_resave[of demo_tokens] demo_reads_back(2)[OF demo_new[of demo_tokens]]
    by (simp add: demo_session_fields demo_merge REFRESH_SKEW_SEC_def split_beta)
qed

definition demo_pending :: session_files where
  "demo_pending = \<lparr>sf_store = no_credentials,
     sf_pending = Some \<lparr>pf_client = ''c'', pf_verifier = ''v'', pf_state = ''expected''\<rparr>\<rparr>"

definition demo_signed_in :: obj where
  "demo_signed_in = merge_tokens (demo_oauth [] []) 0 ''t'' [(''client_id'', JStr ''c'')] demo_tokens"

theorem callback_state_is_not_checked_witness:
  "fst (cli_complete (demo_oauth demo_signed_in []) session_call (\<lambda>r. Answered 200 ''3'') 0 ''t'' (callback ''x'' ''forged'') demo_pending) = Exit 0"
proof -
  let ?env = "demo_oauth demo_signed_in []"
  let ?pf = "\<lparr>pf_client = ''c'', pf_verifier = ''v'', pf_state = ''expected''\<rparr>"
  have merged: "merge_tokens ?env 0 ''t'' [(''client_id'', JStr ''c'')] demo_tokens = demo_signed_in"
    by (simp add: demo_signed_in_def merge_tokens_def expiry_def float_or_zero_def demo_oauth_def)
  have texts: "token_text ''x''" "token_text ''forged''" by code_simp+
  have pending: "sf_pending demo_pending = Some ?pf" "sf_store demo_pending = no_credentials"
    by (simp_all add: demo_pending_def)
  have plain: "oa_unquote ?env t = t" and fernet: "fernet_ok (oa_fernet ?env)" for t
    by (simp_all add: demo_oauth_def)
  show ?thesis
    using callback_state_is_not_checked[OF pending(1) _ _ texts plain demo_answer _ _ fernet, where now = 0 and call = session_call
        and stamp = "''t''"] demo_save(1)[of demo_signed_in "[]" demo_signed_in] demo_reads_back(1)[of demo_signed_in "[]"]
    by (simp add: merged pending(2) demo_session_fields split_beta del: One_nat_def)
qed

theorem waiting_for_approval_ends_witness:
  "\<exists>r n. poll_device_token (demo_oauth [] []) (\<lambda>i. Unreachable ''x'') (\<lambda>i. 1) 5 600 0 = Some (r, n) \<and> n \<le> 120"
  using waiting_for_approval_ends[of "\<lambda>i. 1" "demo_oauth [] []" "\<lambda>i. Unreachable ''x''" 5 600 0]
  by (simp add: poll_seconds_def poll_interval_def)

theorem approval_is_seen_witness:
  "poll_device_token (demo_oauth [] []) (\<lambda>i. Answered 200 ''3'') (\<lambda>i. 1) 5 600 0 = Some (Inr demo_tokens, 1)"
proof -
  have "poll_verdict (demo_oauth [] []) (Answered 200 ''3'') = Granted demo_tokens"
    by (simp add: poll_verdict_def demo_answer demo_session_fields)
  then show ?thesis
    using approval_is_seen[of 0 "demo_oauth [] []" "\<lambda>i. Answered 200 ''3''" demo_tokens "\<lambda>i. 1" 5 0 600]
    by (simp add: poll_seconds_def)
qed

end
