(* ===== verification/Cron_Ops.thy ===== *)
theory Cron_Ops
  imports Settings_Api
begin

section \<open>Scheduled jobs (src/api/work\_cron.py)\<close>

text \<open>
  The view of the scheduled jobs of every profile, drawn from a snapshot file, and the requests to change a job:
  a request is validated against the snapshot and written to a spool directory, from which a program on the host
  applies it.  A snapshot that is missing or unreadable is \<open>None\<close>; a job has an identifier and a status.  The ISO
  reader is an argument.  A value error carries its text; any other exception its class.
\<close>

record cron_profile =
  cp_name :: string
  cp_legacy :: bool
  cp_hidden :: bool
  cp_error :: json
  cp_jobs :: "obj list"

type_synonym cron_snapshot = "cron_profile list option"

datatype cron_fail = BadValue string | Other py_exn | DiskFailed

subsection \<open>The view\<close>

definition relative :: "(json \<Rightarrow> real option) \<Rightarrow> (int \<Rightarrow> string) \<Rightarrow> json \<Rightarrow> real \<Rightarrow> string option" where
  "relative rd_iso show ts now = (case (if truthy ts then rd_iso ts else None) of
      None \<Rightarrow> None
    | Some t \<Rightarrow>
       (let signed = truncate_real (now - t); future = signed < 0; secs = \<bar>signed\<bar>;
            unit = (if secs < 60 then (if future then ''under 1m'' else ''just now'')
                    else if secs < 3600 then show (secs div 60) @ ''m''
                    else if secs < 86400 then show (secs div 3600) @ ''h''
                    else show (secs div 86400) @ ''d'')
        in Some ((if future then ''in '' else []) @ unit)))"

definition WARN_STATUSES :: "string list" where
  "WARN_STATUSES = [''disabled'', ''paused'']"

definition job_warning :: "obj \<Rightarrow> json" where
  "job_warning job = (let execution = (case dget job ''last_execution'' JNull of JObj d \<Rightarrow> d | _ \<Rightarrow> []);
        status = dget job ''status'' JNull in
     if status \<in> set (map JStr WARN_STATUSES) then status
     else if truthy (dget job ''last_error'' JNull) \<or> truthy (dget job ''last_delivery_error'' JNull) then JStr ''error''
     else if dget execution ''status'' JNull = JStr ''failed'' then JStr ''error''
     else JNull)"

definition decorate_job :: "(json \<Rightarrow> real option) \<Rightarrow> (int \<Rightarrow> string) \<Rightarrow> real \<Rightarrow> obj \<Rightarrow> obj" where
  "decorate_job rd_iso show now job =
     (let shown = (\<lambda>v. case relative rd_iso show v now of None \<Rightarrow> JNull | Some s \<Rightarrow> JStr s);
          execution = (case dget job ''last_execution'' JNull of JObj d \<Rightarrow> d | _ \<Rightarrow> [])
      in fold (\<lambda>(k, v) d. AList.update k v d)
           [(''next_rel'', shown (dget job ''next_run_at'' JNull)), (''last_rel'', shown (dget job ''last_run_at'' JNull)),
            (''last_execution_status'', dget execution ''status'' JNull),
            (''last_execution_finished_rel'', shown (dget execution ''finished_at'' JNull)),
            (''warn'', job_warning job)] job)"

record profile_view =
  pv_profile :: cron_profile
  pv_total :: nat
  pv_active :: nat
  pv_warned :: nat

definition view_profile :: "(json \<Rightarrow> real option) \<Rightarrow> (int \<Rightarrow> string) \<Rightarrow> real \<Rightarrow> cron_profile \<Rightarrow> profile_view" where
  "view_profile rd_iso show now p =
     (let jobs = map (decorate_job rd_iso show now) (cp_jobs p)
      in \<lparr>pv_profile = p\<lparr>cp_jobs := jobs\<rparr>, pv_total = length jobs,
          pv_active = length (filter (\<lambda>j. dget j ''status'' JNull = JStr ''active'') jobs),
          pv_warned = length (filter (\<lambda>j. truthy (dget j ''warn'' JNull)) jobs)\<rparr>)"

text \<open>\<open>None\<close>: not available.\<close>

definition cron_view :: "(json \<Rightarrow> real option) \<Rightarrow> (int \<Rightarrow> string) \<Rightarrow> real \<Rightarrow> cron_snapshot \<Rightarrow> profile_view list option" where
  "cron_view rd_iso show now snap = map_option (map (view_profile rd_iso show now)) snap"

definition profile_names :: "cron_snapshot \<Rightarrow> string list" where
  "profile_names snap = (case snap of None \<Rightarrow> [] | Some ps \<Rightarrow> map cp_name ps)"

definition job_ids :: "cron_snapshot \<Rightarrow> string \<Rightarrow> json list" where
  "job_ids snap profile = (case snap of
      None \<Rightarrow> []
    | Some ps \<Rightarrow> (case find (\<lambda>p. cp_name p = profile) ps of
        None \<Rightarrow> [] | Some p \<Rightarrow> map (\<lambda>j. dget j ''id'' JNull) (cp_jobs p)))"

subsection \<open>The validation\<close>

definition ACTIONS :: "string list" where
  "ACTIONS = [''create'', ''edit'', ''pause'', ''resume'', ''run'', ''remove'']"

definition DELIVERS :: "string list" where
  "DELIVERS = [''origin'', ''local'', ''all'']"

definition word_or :: "string \<Rightarrow> char \<Rightarrow> bool" where
  "word_or extra c \<longleftrightarrow> 48 \<le> code c \<and> code c \<le> 57 \<or> 65 \<le> code c \<and> code c \<le> 90 \<or> 97 \<le> code c \<and> code c \<le> 122 \<or> c \<in> set extra"

definition full_match :: "string \<Rightarrow> nat \<Rightarrow> string \<Rightarrow> bool" where
  "full_match extra n s \<longleftrightarrow> 1 \<le> length s \<and> length s \<le> n \<and> list_all (word_or extra) s"

definition SCRIPT_RE :: "string \<Rightarrow> bool" where "SCRIPT_RE = full_match ''._-'' 80"
definition BASENAME_RE :: "string \<Rightarrow> bool" where "BASENAME_RE = full_match ''._-'' 80"
definition SCHEDULE_RE :: "string \<Rightarrow> bool" where "SCHEDULE_RE = full_match '' ,*/:+-'' 64"

definition one_line :: "string \<Rightarrow> bool" where
  "one_line s \<longleftrightarrow> CHR 0x0A \<notin> set s"

definition deliver_ok :: "string \<Rightarrow> bool" where
  "deliver_ok d \<longleftrightarrow> d \<in> set DELIVERS \<or> list_ex (starts_with d) [''telegram:'', ''discord:'', ''sms:'', ''signal:'']"

definition entry :: "obj \<Rightarrow> string \<Rightarrow> cron_fail + string" where
  "entry payload k = (case text_field payload k of Inl e \<Rightarrow> Inl (Other e) | Inr s \<Rightarrow> Inr s)"

definition refuse_if :: "bool \<Rightarrow> string \<Rightarrow> cron_fail + 'a \<Rightarrow> cron_fail + 'a" where
  "refuse_if b message k = (if b then Inl (BadValue message) else k)"

definition text_or_null :: "string \<Rightarrow> json" where
  "text_or_null s = (if s = [] then JNull else JStr s)"

definition repeat_field :: "obj \<Rightarrow> cron_fail + obj" where
  "repeat_field payload = (let v = dget payload ''repeat'' JNull in
     if v = JNull then Inr []
     else case int_of_json v of
       Inl e \<Rightarrow> Inl (BadValue ''repeat must be an integer'')
     | Inr n \<Rightarrow> refuse_if (n < 0 \<or> 1000 < n) ''repeat must be 0..1000'' (Inr [(''repeat'', JNum (of_int n))]))"

definition optional_text :: "string \<Rightarrow> string \<Rightarrow> obj" where
  "optional_text k s = (if s = [] then [] else [(k, JStr s)])"

definition validate_create :: "obj \<Rightarrow> string \<Rightarrow> cron_fail + obj" where
  "validate_create payload profile =
     rbind (entry payload ''name'') (\<lambda>name.
     refuse_if (name = [] \<or> 80 < length name \<or> \<not> one_line name) ''name is required (<= 80 chars, one line)'' (
     rbind (entry payload ''schedule'') (\<lambda>schedule.
     refuse_if (schedule = [] \<or> 64 < length schedule) ''schedule is required'' (
     rbind (entry payload ''prompt'') (\<lambda>prompt.
     rbind (entry payload ''script'') (\<lambda>script.
     refuse_if (prompt = [] \<and> script = []) ''provide a prompt or a script for the job'' (
     refuse_if (8000 < length prompt) ''prompt too long (max 8000 chars)'' (
     refuse_if (script \<noteq> [] \<and> \<not> SCRIPT_RE script) ''script must be a bare filename (no slashes)'' (
     refuse_if (truthy (dget payload ''no_agent'' JNull) \<and> script = []) ''no-agent jobs need a script'' (
     rbind (entry payload ''deliver'') (\<lambda>deliver0.
     let deliver = (if deliver0 = [] then ''origin'' else deliver0) in
     refuse_if (\<not> deliver_ok deliver) ''deliver must be origin|local|all or a platform id'' (
     rbind (repeat_field payload) (\<lambda>repeated.
     rbind (entry payload ''skill'') (\<lambda>skill.
     refuse_if (skill \<noteq> [] \<and> (64 < length skill \<or> \<not> BASENAME_RE skill)) ''skill must be a bare skill name'' (
     rbind (entry payload ''workdir'') (\<lambda>workdir.
     refuse_if (workdir \<noteq> [] \<and> \<not> starts_with workdir ''/your/data/'') ''workdir must live under /your/data/'' (
     Inr ([(''action'', JStr ''create''), (''profile'', JStr profile), (''name'', JStr name), (''schedule'', JStr schedule),
           (''prompt'', text_or_null prompt), (''script'', text_or_null script),
           (''no_agent'', JBool (truthy (dget payload ''no_agent'' JNull))), (''deliver'', JStr deliver)]
          @ repeated @ optional_text ''skill'' skill @ optional_text ''workdir'' workdir))))))))))))))))))"

text \<open>The fields of an edit in order, each with what makes its text bad; absent and empty fields are skipped.\<close>

fun edit_chain :: "obj \<Rightarrow> (string \<times> (string \<Rightarrow> bool) \<times> string) list \<Rightarrow> obj \<Rightarrow> cron_fail + obj" where
  "edit_chain flds [] new = (let v = dget flds ''no_agent'' JNull;
       new' = (if v = JNull then new else new @ [(''no_agent'', JBool (truthy v))])
     in refuse_if (new' = []) ''edit needs at least one field to change'' (Inr new'))"
| "edit_chain flds ((k, bad, message) # specs) new =
     rbind (entry flds k) (\<lambda>s.
       if s = [] then edit_chain flds specs new
       else refuse_if (bad s) message (edit_chain flds specs (new @ [(k, JStr s)])))"

definition edit_specs :: "(string \<times> (string \<Rightarrow> bool) \<times> string) list" where
  "edit_specs =
     [(''name'', \<lambda>s. \<not> one_line s \<or> 80 < length s, ''name must be one line, <= 80 chars''),
      (''schedule'', \<lambda>s. \<not> SCHEDULE_RE s, ''schedule looks invalid''),
      (''prompt'', \<lambda>s. 8000 < length s, ''prompt too long (max 8000 chars)''),
      (''script'', \<lambda>s. \<not> SCRIPT_RE s, ''script must be a bare filename''),
      (''deliver'', \<lambda>s. \<not> deliver_ok s, ''deliver must be origin|local|all or platform'')]"

definition edit_fields :: "obj \<Rightarrow> cron_fail + obj" where
  "edit_fields flds = edit_chain flds edit_specs []"

definition validate_target :: "cron_snapshot \<Rightarrow> obj \<Rightarrow> string \<Rightarrow> string \<Rightarrow> cron_fail + obj" where
  "validate_target snap payload action profile =
     rbind (entry payload ''job_id'') (\<lambda>job.
     refuse_if (job = [] \<or> 20 < length job) ''job_id is required'' (
     refuse_if (job_ids snap profile \<noteq> [] \<and> JStr job \<notin> set (job_ids snap profile)) ''job not found under profile'' (
     let op = [(''action'', JStr action), (''profile'', JStr profile), (''job_id'', JStr job)] in
     if action = ''edit''
     then rbind (edit_fields (case dget payload ''fields'' JNull of JObj d \<Rightarrow> d | _ \<Rightarrow> payload))
            (\<lambda>new. Inr (op @ [(''fields'', JObj new)]))
     else Inr op)))"

definition validate_op :: "cron_snapshot \<Rightarrow> obj \<Rightarrow> cron_fail + obj" where
  "validate_op snap payload =
     rbind (entry payload ''action'') (\<lambda>action0.
     let action = lower action0 in
     refuse_if (action \<notin> set ACTIONS) ''action must be one of create, edit, pause, resume, run, remove'' (
     rbind (entry payload ''profile'') (\<lambda>profile.
     refuse_if (profile = [] \<or> 64 < length profile) ''profile is required'' (
     refuse_if (profile_names snap \<noteq> [] \<and> profile \<notin> set (profile_names snap)) ''unknown profile'' (
     if action = ''create'' then validate_create payload profile
     else validate_target snap payload action profile)))))"

subsection \<open>The spool\<close>

text \<open>The files of the two directories by name; an unreadable file is \<open>None\<close>.\<close>

record cron_spool =
  sp_ops :: "(string, obj option) dict"
  sp_done :: "(string, obj option) dict"

definition spooled :: "string \<Rightarrow> string \<Rightarrow> obj \<Rightarrow> obj" where
  "spooled op_id now_text op =
     op @ [(''id'', JStr op_id), (''created_at'', JStr now_text), (''status'', JStr ''pending'')]"

definition submit_cron_op ::
  "cron_snapshot \<Rightarrow> string \<Rightarrow> string \<Rightarrow> bool \<Rightarrow> obj \<Rightarrow> cron_spool \<Rightarrow> cron_spool \<times> (cron_fail + obj)" where
  "submit_cron_op snap op_id now_text disk_ok payload sp = (case validate_op snap payload of
      Inl e \<Rightarrow> (sp, Inl e)
    | Inr op \<Rightarrow>
        if \<not> disk_ok then (sp, Inl DiskFailed)
        else (sp\<lparr>sp_ops := AList.update (op_id @ ''.json'') (Some (spooled op_id now_text op)) (sp_ops sp)\<rparr>,
              Inr (spooled op_id now_text op)))"

definition listed_ops :: "(string, obj option) dict \<Rightarrow> string list \<Rightarrow> obj list" where
  "listed_ops files names = List.map_filter (\<lambda>n. if ends_with n ''.json'' then Option.bind (map_of files n) id else None) names"

definition cron_ops_view :: "nat \<Rightarrow> cron_spool \<Rightarrow> obj list \<times> obj list" where
  "cron_ops_view limit sp =
     (let newest = (\<lambda>files. rev (sort (keys files)))
      in (listed_ops (sp_ops sp) (newest (sp_ops sp)), listed_ops (sp_done sp) (take limit (newest (sp_done sp)))))"

text \<open>The endpoint: status and, for a request that is taken, the operation.\<close>

definition serve_cron_ops_post ::
  "cron_snapshot \<Rightarrow> string \<Rightarrow> string \<Rightarrow> bool \<Rightarrow> obj \<Rightarrow> cron_spool \<Rightarrow> cron_spool \<times> nat \<times> obj option" where
  "serve_cron_ops_post snap op_id now_text disk_ok payload sp =
     (case submit_cron_op snap op_id now_text disk_ok payload sp of
        (sp', Inl (BadValue message)) \<Rightarrow> (sp', 400, None)
      | (sp', Inl _) \<Rightarrow> (sp', 500, None)
      | (sp', Inr op) \<Rightarrow> (sp', 201, Some op))"

section \<open>What an accepted request is\<close>

lemma refuse_if_Inr [simp]: "refuse_if b message k = Inr x \<longleftrightarrow> \<not> b \<and> k = Inr x"
  by (simp add: refuse_if_def)

lemma entry_Inr: "entry payload k = Inr s \<longleftrightarrow> text_field payload k = Inr s"
  by (auto simp: entry_def split: sum.splits)

text \<open>A name that is no path: no slash, no blank, no line end.\<close>

definition bare :: "string \<Rightarrow> bool" where
  "bare s \<longleftrightarrow> s \<noteq> [] \<and> length s \<le> 80 \<and> CHR ''/'' \<notin> set s \<and> CHR '' '' \<notin> set s \<and> CHR 0x0A \<notin> set s"

lemma script_bare: "SCRIPT_RE s \<Longrightarrow> bare s"
proof -
  have "\<not> word_or ''._-'' (CHR ''/'')" "\<not> word_or ''._-'' (CHR '' '')" "\<not> word_or ''._-'' (CHR 0x0A)"
    by (simp_all add: word_or_def code_def)
  then show "SCRIPT_RE s \<Longrightarrow> bare s"
    by (auto simp: SCRIPT_RE_def full_match_def bare_def list_all_iff)
qed

text \<open>
  A creation: the fields it has to have, and those it may leave out.  The working directory begins with the text of
  the data root.  The changes of an edit: some field, and every field one that can be changed.
\<close>

definition has_text :: "obj \<Rightarrow> string \<Rightarrow> (string \<Rightarrow> bool) \<Rightarrow> bool" where
  "has_text op k P = (case map_of op k of Some (JStr s) \<Rightarrow> P s | _ \<Rightarrow> False)"

definition may_have :: "obj \<Rightarrow> string \<Rightarrow> (string \<Rightarrow> bool) \<Rightarrow> bool" where
  "may_have op k P \<longleftrightarrow> map_of op k = None \<or> map_of op k = Some JNull \<or> has_text op k P"

definition name_ok :: "string \<Rightarrow> bool" where
  "name_ok s \<longleftrightarrow> s \<noteq> [] \<and> length s \<le> 80 \<and> one_line s"

definition prompt_ok :: "string \<Rightarrow> bool" where
  "prompt_ok s \<longleftrightarrow> s \<noteq> [] \<and> length s \<le> 8000"

definition repeat_ok :: "json option \<Rightarrow> bool" where
  "repeat_ok v = (case v of None \<Rightarrow> True | Some (JNum x) \<Rightarrow> 0 \<le> x \<and> x \<le> 1000 \<and> x = of_int \<lfloor>x\<rfloor> | _ \<Rightarrow> False)"

definition created_job :: "obj \<Rightarrow> bool" where
  "created_job op \<longleftrightarrow> has_text op ''name'' name_ok \<and> has_text op ''schedule'' (\<lambda>s. s \<noteq> [] \<and> length s \<le> 64) \<and>
     has_text op ''deliver'' deliver_ok \<and> may_have op ''prompt'' prompt_ok \<and> may_have op ''script'' bare \<and>
     (has_text op ''prompt'' prompt_ok \<or> has_text op ''script'' bare) \<and>
     (map_of op ''no_agent'' = Some (JBool True) \<longrightarrow> has_text op ''script'' bare) \<and>
     may_have op ''skill'' (\<lambda>s. bare s \<and> length s \<le> 64) \<and>
     may_have op ''workdir'' (\<lambda>s. starts_with s ''/your/data/'') \<and> repeat_ok (map_of op ''repeat'')"

definition changed_field :: "string \<times> json \<Rightarrow> bool" where
  "changed_field f = (case f of
      (k, JStr s) \<Rightarrow> k = ''name'' \<and> name_ok s \<or> k = ''schedule'' \<and> SCHEDULE_RE s \<or> k = ''prompt'' \<and> prompt_ok s \<or>
        k = ''script'' \<and> bare s \<or> k = ''deliver'' \<and> deliver_ok s
    | (k, JBool b) \<Rightarrow> k = ''no_agent''
    | _ \<Rightarrow> False)"

definition changed_job :: "obj \<Rightarrow> bool" where
  "changed_job new \<longleftrightarrow> new \<noteq> [] \<and> list_all changed_field new"

text \<open>An accepted creation, taken apart.\<close>

lemma create_parts:
  assumes "validate_create payload profile = Inr op"
  obtains name schedule prompt script deliver repeated skill workdir where
    "op = [(''action'', JStr ''create''), (''profile'', JStr profile), (''name'', JStr name), (''schedule'', JStr schedule),
       (''prompt'', text_or_null prompt), (''script'', text_or_null script),
       (''no_agent'', JBool (truthy (dget payload ''no_agent'' JNull))), (''deliver'', JStr deliver)]
      @ repeated @ optional_text ''skill'' skill @ optional_text ''workdir'' workdir"
    "name_ok name" "schedule \<noteq> [] \<and> length schedule \<le> 64" "length prompt \<le> 8000" "prompt \<noteq> [] \<or> script \<noteq> []"
    "script = [] \<or> SCRIPT_RE script" "truthy (dget payload ''no_agent'' JNull) \<longrightarrow> script \<noteq> []" "deliver_ok deliver"
    "repeat_field payload = Inr repeated" "skill = [] \<or> length skill \<le> 64 \<and> BASENAME_RE skill"
    "workdir = [] \<or> starts_with workdir ''/your/data/''"
proof -
  from assms obtain name schedule prompt script deliver0 repeated skill workdir where
    c: "\<not> (name = [] \<or> 80 < length name \<or> \<not> one_line name)" "\<not> (schedule = [] \<or> 64 < length schedule)"
      "\<not> (prompt = [] \<and> script = [])" "\<not> 8000 < length prompt" "\<not> (script \<noteq> [] \<and> \<not> SCRIPT_RE script)"
      "\<not> (truthy (dget payload ''no_agent'' JNull) \<and> script = [])"
      "\<not> \<not> deliver_ok (if deliver0 = [] then ''origin'' else deliver0)"
      "\<not> (skill \<noteq> [] \<and> (64 < length skill \<or> \<not> BASENAME_RE skill))"
      "\<not> (workdir \<noteq> [] \<and> \<not> starts_with workdir ''/your/data/'')"
    and repeated: "repeat_field payload = Inr repeated"
    and op: "Inr ([(''action'', JStr ''create''), (''profile'', JStr profile), (''name'', JStr name), (''schedule'', JStr schedule),
           (''prompt'', text_or_null prompt), (''script'', text_or_null script),
           (''no_agent'', JBool (truthy (dget payload ''no_agent'' JNull))),
           (''deliver'', JStr (if deliver0 = [] then ''origin'' else deliver0))]
          @ repeated @ optional_text ''skill'' skill @ optional_text ''workdir'' workdir) = (Inr op :: cron_fail + obj)"
    unfolding validate_create_def Let_def rbind_eq_Inr refuse_if_Inr
    by (elim exE conjE) (rule that; assumption)
  show ?thesis
    by (rule that[OF op[THEN Inr_inject, symmetric] _ _ _ _ _ _ _ repeated]) (use c in \<open>auto simp: name_ok_def\<close>)
qed

lemma repeat_number:
  assumes "repeat_field payload = Inr xs"
  shows "xs = [] \<or> (\<exists>n. 0 \<le> n \<and> n \<le> 1000 \<and> xs = [(''repeat'', JNum (of_int n))])"
  using assms by (auto simp: repeat_field_def Let_def split: if_splits sum.splits)

lemma map_of_optional: "map_of (optional_text k s) k' = (if k' = k \<and> s \<noteq> [] then Some (JStr s) else None)"
  by (simp add: optional_text_def)

lemma created_fields:
  assumes "validate_create payload profile = Inr op"
  shows "created_job op \<and> map_of op ''profile'' = Some (JStr profile) \<and> map_of op ''action'' = Some (JStr ''create'')"
  using assms
proof (rule create_parts)
  fix name schedule prompt script deliver repeated skill workdir
  assume op: "op = [(''action'', JStr ''create''), (''profile'', JStr profile), (''name'', JStr name), (''schedule'', JStr schedule),
      (''prompt'', text_or_null prompt), (''script'', text_or_null script),
      (''no_agent'', JBool (truthy (dget payload ''no_agent'' JNull))), (''deliver'', JStr deliver)]
      @ repeated @ optional_text ''skill'' skill @ optional_text ''workdir'' workdir"
    and c: "name_ok name" "schedule \<noteq> [] \<and> length schedule \<le> 64" "length prompt \<le> 8000" "prompt \<noteq> [] \<or> script \<noteq> []"
      "script = [] \<or> SCRIPT_RE script" "truthy (dget payload ''no_agent'' JNull) \<longrightarrow> script \<noteq> []" "deliver_ok deliver"
    and r: "repeat_field payload = Inr repeated"
    and o: "skill = [] \<or> length skill \<le> 64 \<and> BASENAME_RE skill" "workdir = [] \<or> starts_with workdir ''/your/data/''"
  have name: "BASENAME_RE s \<Longrightarrow> bare s" for s using script_bare by (simp add: BASENAME_RE_def SCRIPT_RE_def)
  have rep: "repeat_ok (map_of repeated ''repeat'')" "k \<noteq> ''repeat'' \<Longrightarrow> map_of repeated k = None" for k
    using repeat_number[OF r] by (auto simp: repeat_ok_def)
  have required: "has_text op ''name'' name_ok" "has_text op ''schedule'' (\<lambda>s. s \<noteq> [] \<and> length s \<le> 64)"
      "has_text op ''deliver'' deliver_ok" "map_of op ''profile'' = Some (JStr profile)" "map_of op ''action'' = Some (JStr ''create'')"
    using c by (simp_all add: op has_text_def)
  have work: "map_of op ''prompt'' = Some (text_or_null prompt)" "map_of op ''script'' = Some (text_or_null script)"
      "map_of op ''no_agent'' = Some (JBool (truthy (dget payload ''no_agent'' JNull)))"
    by (simp_all add: op)
  have script: "script \<noteq> [] \<Longrightarrow> bare script" using c(5) script_bare by blast
  have prompt: "prompt \<noteq> [] \<Longrightarrow> prompt_ok prompt" using c(3) by (simp add: prompt_ok_def)
  have extra: "map_of op ''skill'' = (if skill \<noteq> [] then Some (JStr skill) else None)"
      "map_of op ''workdir'' = (if workdir \<noteq> [] then Some (JStr workdir) else None)"
      "map_of op ''repeat'' = map_of repeated ''repeat''"
    by (simp_all add: op map_add_def map_of_optional rep(2) split: option.split)
  have given: "text_or_null t = (if t = [] then JNull else JStr t)" for t by (simp add: text_or_null_def)
  have main: "may_have op ''prompt'' prompt_ok" "may_have op ''script'' bare"
      "prompt \<noteq> [] \<Longrightarrow> has_text op ''prompt'' prompt_ok" "script \<noteq> [] \<Longrightarrow> has_text op ''script'' bare"
    using script prompt by (simp_all add: may_have_def has_text_def work given)
  then have either: "has_text op ''prompt'' prompt_ok \<or> has_text op ''script'' bare"
      "map_of op ''no_agent'' = Some (JBool True) \<longrightarrow> has_text op ''script'' bare"
    using c(4,6) unfolding work(3) by blast+
  have "may_have op ''skill'' (\<lambda>s. bare s \<and> length s \<le> 64)" "may_have op ''workdir'' (\<lambda>s. starts_with s ''/your/data/'')"
    using o name by (auto simp: may_have_def has_text_def extra)
  with required main(1,2) either rep(1) show ?thesis
    unfolding created_job_def extra(3) by blast
qed

lemma edit_chain_fields:
  assumes "edit_chain flds specs new = Inr r" "list_all P new" "\<And>b. P (''no_agent'', JBool b)"
    and "\<forall>(k, bad, message) \<in> set specs. \<forall>s. s \<noteq> [] \<and> \<not> bad s \<longrightarrow> P (k, JStr s)"
  shows "r \<noteq> [] \<and> list_all P r"
  using assms(1,2,4)
proof (induction flds specs new rule: edit_chain.induct)
  case (1 flds new)
  then show ?case using assms(3) by (auto simp: Let_def split: if_splits)
next
  case (2 flds k bad message specs new)
  from 2(3) obtain s where s: "entry flds k = Inr s"
    and r: "(if s = [] then edit_chain flds specs new
       else refuse_if (bad s) message (edit_chain flds specs (new @ [(k, JStr s)]))) = Inr r"
    unfolding edit_chain.simps rbind_eq_Inr by blast
  show ?case
  proof (cases "s = []")
    case True
    with 2 r show ?thesis by simp
  next
    case False
    with r 2(5) have "\<not> bad s" "edit_chain flds specs (new @ [(k, JStr s)]) = Inr r" "P (k, JStr s)" by auto
    with False 2 show ?thesis by simp
  qed
qed

lemma edited_fields:
  assumes "edit_fields flds = Inr new"
  shows "changed_job new"
  using assms unfolding edit_fields_def changed_job_def
  by (rule edit_chain_fields) (auto simp: edit_specs_def changed_field_def name_ok_def prompt_ok_def script_bare)

text \<open>
  C35: what is spooled was checked.  An operation that the validation lets through names one of the six actions and a
  profile of the snapshot, when the snapshot has any.  A creation has a name of one line and at most 80 characters, a
  schedule of at most 64, and a known kind of delivery; it has a prompt of at most 8000 characters or a script, and a
  script when it runs without an agent; script and skill are names without slash, blank and line end, the repeats are
  between 0 and 1000, and a working directory is a text that begins with that of the data root (which does not keep
  it inside).  An operation on a job names a job of the profile, when the profile has any, and an edit changes
  something, only fields that can be changed, and these to texts of the same kind, with a schedule of the permitted
  characters.
\<close>

theorem spooled_operations_are_checked:
  assumes "validate_op snap payload = Inr op"
  shows "\<exists>action profile. map_of op ''action'' = Some (JStr action) \<and> action \<in> set ACTIONS \<and>
    map_of op ''profile'' = Some (JStr profile) \<and> profile \<noteq> [] \<and> length profile \<le> 64 \<and>
    (profile_names snap \<noteq> [] \<longrightarrow> profile \<in> set (profile_names snap)) \<and>
    (if action = ''create'' then created_job op
     else \<exists>job. map_of op ''job_id'' = Some (JStr job) \<and> job \<noteq> [] \<and> length job \<le> 20 \<and>
       (job_ids snap profile \<noteq> [] \<longrightarrow> JStr job \<in> set (job_ids snap profile)) \<and>
       (action = ''edit'' \<longrightarrow> (\<exists>new. map_of op ''fields'' = Some (JObj new) \<and> changed_job new)))"
proof -
  from assms obtain action profile where
    a: "action \<in> set ACTIONS" and p: "profile \<noteq> []" "length profile \<le> 64"
      "profile_names snap \<noteq> [] \<longrightarrow> profile \<in> set (profile_names snap)"
    and rest: "(if action = ''create'' then validate_create payload profile
        else validate_target snap payload action profile) = Inr op"
    unfolding validate_op_def Let_def rbind_eq_Inr refuse_if_Inr by (elim exE conjE) (rule that; force)
  show ?thesis
  proof (cases "action = ''create''")
    case True
    with rest created_fields[of payload profile op] a p show ?thesis by auto
  next
    case False
    with rest have "validate_target snap payload action profile = Inr op" by simp
    then obtain job where j: "job \<noteq> []" "length job \<le> 20"
        "job_ids snap profile \<noteq> [] \<longrightarrow> JStr job \<in> set (job_ids snap profile)"
      and op: "(if action = ''edit''
        then rbind (edit_fields (case dget payload ''fields'' JNull of JObj d \<Rightarrow> d | _ \<Rightarrow> payload))
            (\<lambda>new. Inr ([(''action'', JStr action), (''profile'', JStr profile), (''job_id'', JStr job)] @ [(''fields'', JObj new)]))
        else Inr [(''action'', JStr action), (''profile'', JStr profile), (''job_id'', JStr job)]) = Inr op"
      unfolding validate_target_def Let_def rbind_eq_Inr refuse_if_Inr by (elim exE conjE) (rule that; (assumption | linarith | blast))
    have "map_of op ''action'' = Some (JStr action) \<and> map_of op ''profile'' = Some (JStr profile) \<and>
        map_of op ''job_id'' = Some (JStr job) \<and>
        (action = ''edit'' \<longrightarrow> (\<exists>new. map_of op ''fields'' = Some (JObj new) \<and> changed_job new))"
      using op edited_fields by (cases "action = ''edit''") (auto simp: rbind_eq_Inr)
    with False a p j show ?thesis by auto
  qed
qed

section \<open>What the validation lets through\<close>

definition creation :: "string \<Rightarrow> string \<Rightarrow> obj" where
  "creation schedule workdir =
     [(''action'', JStr ''create''), (''profile'', JStr ''ops''), (''name'', JStr ''job''), (''schedule'', JStr schedule),
      (''script'', JStr ''run.sh''), (''workdir'', JStr workdir)]"

definition on_job :: "string \<Rightarrow> string \<Rightarrow> obj \<Rightarrow> obj" where
  "on_job action job changes =
     [(''action'', JStr action), (''profile'', JStr ''ops''), (''job_id'', JStr job), (''fields'', JObj changes)]"

lemma strip_texts:
  "strip ''create'' = ''create''" "strip ''edit'' = ''edit''" "strip ''remove'' = ''remove''" "strip ''ops'' = ''ops''"
  "strip ''job'' = ''job''" "strip ''run.sh'' = ''run.sh''" "strip [] = []"
  "lower ''create'' = ''create''" "lower ''edit'' = ''edit''" "lower ''remove'' = ''remove''" "SCRIPT_RE ''run.sh''"
  by code_simp+

lemma entry_text: "entry [] k = Inr []" "entry ((k', JStr s) # d) k = (if k' = k then Inr (strip s) else entry d k)"
    "k \<noteq> k' \<Longrightarrow> entry ((k', v) # d) k = entry d k"
  by (simp_all add: entry_def text_field_def)

lemma origin_ok: "deliver_ok ''origin''" "one_line ''job''"
  by (simp_all add: deliver_ok_def DELIVERS_def one_line_def)

lemma creation_accepted:
  assumes "strip schedule = schedule" "schedule \<noteq> []" "length schedule \<le> 64"
    and "strip workdir = workdir" "workdir = [] \<or> starts_with workdir ''/your/data/''"
    and "profile_names snap = [] \<or> ''ops'' \<in> set (profile_names snap)"
  shows "\<exists>op. validate_op snap (creation schedule workdir) = Inr op \<and> map_of op ''schedule'' = Some (JStr schedule) \<and>
    (workdir \<noteq> [] \<longrightarrow> map_of op ''workdir'' = Some (JStr workdir))"
proof -
  have "validate_create (creation schedule workdir) ''ops'' =
    Inr ([(''action'', JStr ''create''), (''profile'', JStr ''ops''), (''name'', JStr ''job''), (''schedule'', JStr schedule),
      (''prompt'', JNull), (''script'', JStr ''run.sh''), (''no_agent'', JBool False), (''deliver'', JStr ''origin'')]
      @ optional_text ''workdir'' workdir)"
    using assms(1-5) unfolding validate_create_def creation_def
    by (simp add: entry_text strip_texts origin_ok refuse_if_def repeat_field_def optional_text_def text_or_null_def)
  moreover have "validate_op snap (creation schedule workdir) = validate_create (creation schedule workdir) ''ops''"
    using assms(6) unfolding validate_op_def creation_def Let_def
    by (auto simp: entry_text strip_texts refuse_if_def ACTIONS_def)
  ultimately show ?thesis by (simp add: optional_text_def)
qed

text \<open>
  Also: a creation takes a schedule that an edit refuses.  The pattern of a schedule is tested when a job is edited
  and not when it is created: any text of up to 64 characters is spooled as the schedule of a new job, for the host
  to apply, and the same text is refused as a change.
\<close>

theorem creation_takes_any_schedule:
  assumes "strip schedule = schedule" and "schedule \<noteq> []" and "length schedule \<le> 64" and "\<not> SCHEDULE_RE schedule"
  shows "(\<exists>op. validate_op None (creation schedule []) = Inr op \<and> map_of op ''schedule'' = Some (JStr schedule)) \<and>
    validate_op None (on_job ''edit'' ''job'' [(''schedule'', JStr schedule)]) = Inl (BadValue ''schedule looks invalid'')"
proof -
  have "validate_target None (on_job ''edit'' ''job'' [(''schedule'', JStr schedule)]) ''edit'' ''ops'' =
      Inl (BadValue ''schedule looks invalid'')"
    using assms unfolding validate_target_def on_job_def
    by (simp add: entry_text strip_texts refuse_if_def job_ids_def edit_fields_def edit_specs_def)
  moreover have "validate_op None (on_job ''edit'' ''job'' [(''schedule'', JStr schedule)]) =
      validate_target None (on_job ''edit'' ''job'' [(''schedule'', JStr schedule)]) ''edit'' ''ops''"
    unfolding validate_op_def on_job_def Let_def
    by (simp add: entry_text strip_texts refuse_if_def ACTIONS_def profile_names_def)
  ultimately show ?thesis
    using creation_accepted[of schedule "[]" None] assms by (simp add: strip_texts profile_names_def)
qed

theorem creation_takes_any_schedule_witness:
  "\<exists>op. validate_op None (creation ''$(reboot)'' []) = Inr op"
proof -
  have "strip ''$(reboot)'' = ''$(reboot)''" "\<not> SCHEDULE_RE ''$(reboot)''" by code_simp+
  then show ?thesis using creation_takes_any_schedule[of "''$(reboot)''"] by auto
qed

text \<open>The directory a path leads to: \<open>os.path.normpath\<close> of an absolute path.\<close>

fun resolve_pieces :: "string list \<Rightarrow> string list \<Rightarrow> string list" where
  "resolve_pieces done [] = rev done"
| "resolve_pieces done (p # ps) =
     (if p = [] \<or> p = ''.'' then resolve_pieces done ps
      else if p = ''..'' then resolve_pieces (drop 1 done) ps
      else resolve_pieces (p # done) ps)"

definition normal_path :: "string \<Rightarrow> string" where
  "normal_path path = concat (map (\<lambda>p. ''/'' @ p) (resolve_pieces [] (split_on (CHR ''/'') path)))"

text \<open>
  Also: the working directory can leave the data root.  The working directory is compared with the data root as
  text: a path that starts there and climbs out again is accepted and spooled as it is, and leads anywhere.
\<close>

theorem working_directory_escapes:
  assumes "CHR ''/'' \<notin> set dir" and "dir \<notin> {[], ''.'', ''..''}" and "strip (''/your/data/../../'' @ dir) = ''/your/data/../../'' @ dir"
  shows "\<exists>op workdir. validate_op None (creation ''30m'' workdir) = Inr op \<and>
    map_of op ''workdir'' = Some (JStr workdir) \<and> normal_path workdir = ''/'' @ dir"
proof -
  let ?w = "''/your/data/../../'' @ dir"
  have "strip ''30m'' = ''30m''" by code_simp
  then have "\<exists>op. validate_op None (creation ''30m'' ?w) = Inr op \<and> map_of op ''workdir'' = Some (JStr ?w)"
    using creation_accepted[of "''30m''" ?w None] assms(3) by (auto simp: profile_names_def starts_with_def)
  moreover have "split_on (CHR ''/'') ?w = [[], ''your'', ''data'', ''..'', ''..'', dir]"
    using split_on_word[OF assms(1)] by simp
  then have "normal_path ?w = ''/'' @ dir" using assms(2) by (simp add: normal_path_def)
  ultimately show ?thesis by blast
qed

theorem working_directory_escapes_witness:
  "\<exists>op workdir. validate_op None (creation ''30m'' workdir) = Inr op \<and>
    map_of op ''workdir'' = Some (JStr workdir) \<and> normal_path workdir = ''/etc''"
proof -
  have "strip (''/your/data/../../'' @ ''etc'') = ''/your/data/../../'' @ ''etc''" by code_simp
  then show ?thesis using working_directory_escapes[of "''etc''"] by simp
qed

text \<open>
  Also: a job that does not exist can be removed.  The job is looked up among those of the profile only if there are
  any: on a profile without jobs, and without a snapshot on any profile, an operation on any job is spooled.
\<close>

theorem unknown_jobs_are_accepted:
  assumes "snap = None \<or> snap = Some [p] \<and> cp_name p = ''ops'' \<and> cp_jobs p = []"
    and "strip job = job" and "job \<noteq> []" and "length job \<le> 20"
  shows "validate_op snap (on_job ''remove'' job []) =
    Inr [(''action'', JStr ''remove''), (''profile'', JStr ''ops''), (''job_id'', JStr job)]"
  using assms unfolding validate_op_def validate_target_def on_job_def Let_def
  by (auto simp: entry_text strip_texts refuse_if_def ACTIONS_def profile_names_def job_ids_def)

theorem unknown_jobs_are_accepted_witness:
  "\<exists>op. validate_op None (on_job ''remove'' ''job'' []) = Inr op"
  using unknown_jobs_are_accepted[of None _ "''job''"] by (simp add: strip_texts)

theorem spooled_operations_are_checked_witness:
  "\<exists>op. validate_op None (creation ''30m'' []) = Inr op \<and> created_job op"
proof -
  have "strip ''30m'' = ''30m''" by code_simp
  then obtain op where op: "validate_op None (creation ''30m'' []) = Inr op"
    using creation_accepted[of "''30m''" "[]" None] by (auto simp: profile_names_def strip_texts)
  moreover have "map_of op ''action'' = Some (JStr ''create'')"
    using op created_fields unfolding validate_op_def creation_def Let_def
    by (auto simp: entry_text strip_texts refuse_if_def ACTIONS_def profile_names_def)
  ultimately show ?thesis using spooled_operations_are_checked[OF op] by auto
qed

text \<open>
  Also: a refused operation leaves no file.  The endpoint answers 201 exactly when an operation was written, under its
  own name and pending, and otherwise the spool is as it was.
\<close>

theorem refused_operations_leave_no_file:
  "case serve_cron_ops_post snap op_id now_text disk_ok payload sp of (sp', status, answer) \<Rightarrow>
     (if status = 201 then (\<exists>op. answer = Some op \<and> map_of (sp_ops sp') (op_id @ ''.json'') = Some (Some op) \<and>
        sp_done sp' = sp_done sp \<and> (\<forall>n. n \<noteq> op_id @ ''.json'' \<longrightarrow> map_of (sp_ops sp') n = map_of (sp_ops sp) n))
      else sp' = sp \<and> answer = None)"
  by (simp add: serve_cron_ops_post_def submit_cron_op_def dict_simps split: sum.split cron_fail.split)

end
