(* ===== verification/Log_Tables.thy ===== *)
theory Log_Tables
  imports Py_Numbers Prelude
begin

section \<open>Ordering and pages of the log tables (src/ui/tables.py)\<close>

text \<open>
  Every log view takes its page and its order from here.  A parameter of the query is a text or absent; an order is
  one of the view's own, a key with a label and a fragment of SQL; the first one is the default.
\<close>

datatype per_page = AllRows | Rows int

definition PER_CHOICES :: "string list" where "PER_CHOICES = [''20'', ''50'', ''100'']"
definition DEFAULT_PER :: string where "DEFAULT_PER = ''20''"
definition PER_MAX :: int where "PER_MAX = 500"

type_synonym sort_spec = "string \<times> string \<times> string"

definition parse_per :: "string option \<Rightarrow> per_page" where
  "parse_per raw = (let v = lower (strip (case raw of None \<Rightarrow> DEFAULT_PER | Some s \<Rightarrow> s)) in
     if v = ''all'' then AllRows
     else case py_int v of Some n \<Rightarrow> Rows (max 1 (min PER_MAX n)) | None \<Rightarrow> Rows 20)"

definition parse_page :: "string option \<Rightarrow> int" where
  "parse_page raw = (case raw of
      None \<Rightarrow> 1
    | Some s \<Rightarrow> if s = [] then 1 else (case py_int (strip s) of Some n \<Rightarrow> max 1 n | None \<Rightarrow> 1))"

definition resolve_sort :: "sort_spec list \<Rightarrow> string option \<Rightarrow> sort_spec" where
  "resolve_sort sorts requested = (let key = strip (case requested of None \<Rightarrow> [] | Some s \<Rightarrow> s) in
     case find (\<lambda>spec. fst spec = key) sorts of Some spec \<Rightarrow> spec | None \<Rightarrow> hd sorts)"

text \<open>The page, the number of pages and the offset.\<close>

definition paginate :: "int \<Rightarrow> per_page \<Rightarrow> int \<Rightarrow> int \<times> int \<times> int" where
  "paginate n_rows per page = (let n = max 0 n_rows in
     case per of
       AllRows \<Rightarrow> (1, 1, 0)
     | Rows p \<Rightarrow> (let pages = max 1 (- ((- n) div p)); pg = max 1 (min page pages) in (pg, pages, (pg - 1) * p)))"

definition row_window :: "int \<Rightarrow> per_page \<Rightarrow> int \<Rightarrow> int \<times> int" where
  "row_window n_rows per page = (let n = max 0 n_rows in
     if n = 0 then (0, 0)
     else case per of AllRows \<Rightarrow> (1, n) | Rows p \<Rightarrow> (1 + (page - 1) * p, min n (page * p)))"

record table_state =
  ts_per :: per_page
  ts_page :: int
  ts_pages :: int
  ts_offset :: int
  ts_sort :: string
  ts_label :: string
  ts_order_sql :: string
  ts_sorts :: "(string \<times> string) list"
  ts_total :: int
  ts_first :: int
  ts_last :: int

text \<open>The view's parameters are its query dictionary.\<close>

definition table_state_of :: "(string, string) dict \<Rightarrow> sort_spec list \<Rightarrow> int \<Rightarrow> table_state" where
  "table_state_of params sorts n_rows =
     (let per = parse_per (map_of params ''per'');
          (sort_key, label, order_sql) = resolve_sort sorts (map_of params ''sort'');
          (page, pages, offset) = paginate n_rows per (parse_page (map_of params ''page''));
          (first, last) = row_window n_rows per page
      in \<lparr>ts_per = per, ts_page = page, ts_pages = pages, ts_offset = offset, ts_sort = sort_key, ts_label = label,
          ts_order_sql = order_sql, ts_sorts = map (\<lambda>(k, l, f). (k, l)) sorts, ts_total = n_rows,
          ts_first = first, ts_last = last\<rparr>)"

text \<open>The client sends \<open>per\<close> back as a text.\<close>

definition per_text :: "(int \<Rightarrow> string) \<Rightarrow> per_page \<Rightarrow> string" where
  "per_text shown per = (case per of AllRows \<Rightarrow> ''all'' | Rows p \<Rightarrow> shown p)"

text \<open>What the limit clause leaves of the ordered rows.\<close>

definition limit_clause :: "table_state \<Rightarrow> (int \<times> int) option" where
  "limit_clause st = (case ts_per st of AllRows \<Rightarrow> None | Rows p \<Rightarrow> Some (p, ts_offset st))"

definition limited :: "table_state \<Rightarrow> 'r list \<Rightarrow> 'r list" where
  "limited st rows = (case limit_clause st of
      None \<Rightarrow> rows | Some (p, offset) \<Rightarrow> take (nat p) (drop (nat offset) rows))"

subsection \<open>What the windows show\<close>

lemma concat_windows: "concat (map (\<lambda>i. take p (drop (i * p) xs)) [0..<n]) = take (n * p) xs"
proof (induction n)
  case (Suc n)
  have "take (Suc n * p) xs = take (n * p) xs @ take p (drop (n * p) xs)"
    by (metis add.commute mult_Suc take_add)
  with Suc show ?case by simp
qed simp

lemma per_bounds: "parse_per raw = Rows p \<Longrightarrow> 1 \<le> p \<and> p \<le> PER_MAX"
  by (auto simp: parse_per_def PER_MAX_def Let_def split: if_splits option.splits)

definition pages_needed :: "nat \<Rightarrow> int \<Rightarrow> nat" where
  "pages_needed n p = nat (max 1 (- ((- int n) div p)))"

lemma pages_cover:
  assumes "1 \<le> p"
  shows "n \<le> pages_needed n p * nat p" "i + 1 < pages_needed n p \<Longrightarrow> (i + 1) * nat p < n"
proof -
  let ?q = "- ((- int n) div p)"
  define d m where "d = (- int n) div p" and "m = (- int n) mod p"
  have "p * d + m = - int n" unfolding d_def m_def by (rule mult_div_mod_eq)
  moreover have "0 \<le> m" "m < p" using assms by (simp_all add: m_def)
  ultimately have "int n \<le> - d * p" "(- d - 1) * p < int n"
    by (simp_all add: left_diff_distrib mult.commute[of d p])
  then have q: "int n \<le> ?q * p" "(?q - 1) * p < int n" by (simp_all add: d_def)
  have pages: "int (pages_needed n p) = max 1 ?q" by (simp add: pages_needed_def)
  have "int n \<le> int (pages_needed n p) * p"
    unfolding pages using q(1) assms by (smt (verit) mult_right_mono)
  then show "n \<le> pages_needed n p * nat p" using assms by (simp add: nat_mult_distrib flip: of_nat_le_iff [where 'a = int])
  assume i: "i + 1 < pages_needed n p"
  then have "int i + 1 \<le> ?q - 1" using pages by linarith
  then have "(int i + 1) * p \<le> (?q - 1) * p" using assms by (intro mult_right_mono) auto
  then have "int ((i + 1) * nat p) < int n" using q(2) assms by (simp add: distrib_right)
  then show "(i + 1) * nat p < n" by linarith
qed

definition query_page :: "(int \<Rightarrow> string) \<Rightarrow> string \<Rightarrow> int \<Rightarrow> (string, string) dict" where
  "query_page shown per i = [(''per'', per), (''page'', shown i)]"

text \<open>A printed number reads back.\<close>

lemma digit_char: "k < 10 \<Longrightarrow> is_digit (char_of (48 + k)) \<and> of_char (char_of (48 + k) :: char) = 48 + int k"
proof -
  assume "k < 10"
  then have "k \<in> {0, 1, 2, 3, 4, 5, 6, 7, 8, 9}" by auto
  then show ?thesis by (auto simp: is_digit_def of_char_of char_of_def bit_Suc_0_iff)
qed

lemma show_nat_digits: "list_all is_digit (show_nat n) \<and> show_nat n \<noteq> [] \<and> digits_value (show_nat n) = int n"
proof (induction n rule: show_nat.induct)
  case (1 n)
  show ?case
  proof (cases "n < 10")
    case True
    then show ?thesis using digit_char[of n] by (simp add: show_nat.simps[of n] digits_value_def)
  next
    case False
    have "10 * int (n div 10) + int (n mod 10) = int n"
      by (metis mult_div_mod_eq of_nat_add of_nat_mult of_nat_numeral)
    then show ?thesis
      using 1[OF False] digit_char[of "n mod 10"] False by (simp add: show_nat.simps[of n] digits_value_def)
  qed
qed

lemma digits_strip: "list_all is_digit s \<Longrightarrow> strip s = s"
proof -
  assume d: "list_all is_digit s"
  have "dropWhile is_space t = t" if "list_all is_digit t" for t
    using that by (cases t) (auto simp: is_digit_def is_space_def code_def)
  with d show ?thesis by (simp add: strip_def lstrip_def rstrip_def list_all_iff)
qed

lemma number_reads_back: "show_nat n \<noteq> [] \<and> py_int (strip (show_nat n)) = Some (int n)"
proof -
  let ?s = "show_nat n"
  have d: "list_all is_digit ?s" "?s \<noteq> []" "digits_value ?s = int n" using show_nat_digits[of n] by auto
  have "CHR ''_'' \<notin> set ?s" using d(1) by (auto simp: list_all_iff is_digit_def)
  then have "\<not> contains ?s ''__''" by (auto simp: contains_sublist dest: set_mono_sublist)
  moreover have "filter is_digit ?s = ?s" using d(1) by (simp add: list_all_iff)
  ultimately have "unsigned_text ?s = Some (int n)"
    using d by (auto simp: unsigned_text_def list_all_iff)
  moreover obtain c cs where s: "?s = c # cs" using d(2) by (cases ?s) auto
  moreover have "is_digit c" using d(1) s by simp
  then have "c \<noteq> CHR ''-''" "c \<noteq> CHR ''+''" by (auto simp: is_digit_def)
  ultimately show ?thesis
    using digits_strip[OF d(1)] by (simp add: py_int_def)
qed

lemma state_of_page:
  fixes n :: nat and sorts :: "sort_spec list"
  assumes "1 \<le> i" "shown i \<noteq> [] \<and> py_int (strip (shown i)) = Some i" "parse_per (Some per) = Rows p"
  defines "st \<equiv> table_state_of (query_page shown per i) sorts (int n)"
  shows "ts_per st = Rows p" "ts_pages st = int (pages_needed n p)"
    "ts_page st = min i (int (pages_needed n p))" "ts_offset st = (min i (int (pages_needed n p)) - 1) * p"
  using assms
  by (simp_all add: table_state_of_def query_page_def parse_page_def paginate_def pages_needed_def split_beta Let_def)

lemma state_past_the_end:
  assumes "1 \<le> i" "1 \<le> j" "\<And>i. 1 \<le> i \<Longrightarrow> shown i \<noteq> [] \<and> py_int (strip (shown i)) = Some i"
    and "paginate (int n) (parse_per (Some per)) i = paginate (int n) (parse_per (Some per)) j"
  shows "table_state_of (query_page shown per i) sorts (int n) = table_state_of (query_page shown per j) sorts (int n)"
  using assms by (simp add: table_state_of_def query_page_def parse_page_def split_beta Let_def)

lemma limited_page:
  assumes "ts_per st = Rows p" "1 \<le> p" "ts_offset st = int k * p"
  shows "limited st rows = take (nat p) (drop (k * nat p) rows)"
  using assms by (simp add: limited_def limit_clause_def nat_mult_distrib)

lemma page_text: "1 \<le> i \<Longrightarrow> show_nat (nat i) \<noteq> [] \<and> py_int (strip (show_nat (nat i))) = Some i"
  using number_reads_back[of "nat i"] by simp

text \<open>
  Also: the pages of a log show every row once.  For any page size a client may ask for, the windows of the pages 1
  to the last, one after the other, are exactly the rows of the table in their order: nothing is dropped or shown
  twice, no page but an only one is empty, and a page past the end is the last page.
\<close>

theorem pages_show_every_row_once:
  fixes per :: string and rows :: "'r list" and sorts :: "sort_spec list"
  defines "st \<equiv> \<lambda>i. table_state_of (query_page (\<lambda>i. show_nat (nat i)) per i) sorts (int (length rows))"
  shows "concat (map (\<lambda>i. limited (st (int i + 1)) rows) [0..<nat (ts_pages (st 1))]) = rows \<and>
    (\<forall>i. 1 \<le> i \<and> i \<le> ts_pages (st 1) \<and> rows \<noteq> [] \<longrightarrow> limited (st i) rows \<noteq> []) \<and>
    (\<forall>i. ts_pages (st 1) \<le> i \<longrightarrow> st i = st (ts_pages (st 1)))"
proof (cases "parse_per (Some per)")
  case AllRows
  have all: "ts_per (st i) = AllRows \<and> ts_pages (st i) = 1" for i
    by (simp add: st_def table_state_of_def query_page_def paginate_def AllRows split_beta Let_def)
  then have rows: "limited (st i) rows = rows" for i
    by (simp add: limited_def limit_clause_def)
  have same: "1 \<le> i \<Longrightarrow> st i = st 1" for i
    unfolding st_def by (rule state_past_the_end[OF _ _ page_text]) (simp_all add: paginate_def AllRows)
  have pages: "ts_pages (st 1) = 1" using all by blast
  then have "\<forall>i. ts_pages (st 1) \<le> i \<longrightarrow> st i = st (ts_pages (st 1))"
    unfolding pages by (intro allI impI) (rule same)
  moreover have "concat (map (\<lambda>i. limited (st (int i + 1)) rows) [0..<nat (ts_pages (st 1))]) = rows"
    using rows pages by simp
  moreover have "\<forall>i. 1 \<le> i \<and> i \<le> ts_pages (st 1) \<and> rows \<noteq> [] \<longrightarrow> limited (st i) rows \<noteq> []" by (simp add: rows)
  ultimately show ?thesis by blast
next
  case (Rows p)
  then have p: "1 \<le> p" by (auto dest: per_bounds)
  let ?n = "length rows" and ?pages = "pages_needed (length rows) p"
  have state: "ts_per (st i) = Rows p" "ts_pages (st i) = int ?pages"
      "ts_offset (st i) = (min i (int ?pages) - 1) * p" if "1 \<le> i" for i
    using state_of_page[where i = i and shown = "\<lambda>i. show_nat (nat i)" and per = per and p = p and sorts = sorts and n = "length rows",
        OF that page_text[OF that] Rows] by (simp_all add: st_def)
  have page: "limited (st (int k + 1)) rows = take (nat p) (drop (k * nat p) rows)" if "k < ?pages" for k
    using that by (intro limited_page) (simp_all add: state p)
  have "concat (map (\<lambda>k. limited (st (int k + 1)) rows) [0..<?pages]) = take (?pages * nat p) rows"
    by (subst concat_windows[symmetric]) (intro arg_cong [where f = concat] map_cong refl page, simp)
  also have "\<dots> = rows" using pages_cover(1)[OF p] by simp
  finally have "concat (map (\<lambda>k. limited (st (int k + 1)) rows) [0..<nat (ts_pages (st 1))]) = rows"
    by (simp add: state)
  moreover have "limited (st i) rows \<noteq> []" if "1 \<le> i" "i \<le> ts_pages (st 1)" "rows \<noteq> []" for i
  proof -
    define k where "k = nat (i - 1)"
    have k: "i = int k + 1" using that(1) by (simp add: k_def)
    have "k < ?pages" using that(2) by (simp add: state k)
    moreover have "k * nat p < ?n"
      using pages_cover(2)[OF p, of "k - 1" ?n] \<open>k < ?pages\<close> that(3) by (cases k) auto
    ultimately show ?thesis using page[of k] p by (simp add: k)
  qed
  moreover have "st i = st (ts_pages (st 1))" if "ts_pages (st 1) \<le> i" for i
  proof -
    have pos: "1 \<le> ts_pages (st 1)" by (simp add: state pages_needed_def)
    moreover have "paginate (int ?n) (Rows p) i = paginate (int ?n) (Rows p) (ts_pages (st 1))"
    proof -
      have q: "ts_pages (st 1) = max 1 (- ((- int ?n) div p))" by (simp add: state pages_needed_def)
      with that have "max 1 (min i (ts_pages (st 1))) = ts_pages (st 1)" by simp
      then show ?thesis unfolding paginate_def Let_def per_page.case by (simp flip: q)
    qed
    ultimately have "table_state_of (query_page (\<lambda>i. show_nat (nat i)) per i) sorts (int ?n) =
        table_state_of (query_page (\<lambda>i. show_nat (nat i)) per (ts_pages (st 1))) sorts (int ?n)"
      using that Rows by (intro state_past_the_end[OF _ _ page_text]) simp_all
    then show ?thesis by (simp only: st_def)
  qed
  ultimately show ?thesis by blast
qed

theorem pages_show_every_row_once_witness:
  "let st = \<lambda>i. table_state_of (query_page (\<lambda>i. show_nat (nat i)) ''2'' i) [] 3 in
    concat (map (\<lambda>i. limited (st (int i + 1)) [10, 20, 30 :: int]) [0..<nat (ts_pages (st 1))]) = [10, 20, 30]"
  using pages_show_every_row_once[of "''2''" "[]" "[10, 20, 30 :: int]"] by (simp add: Let_def)

text \<open>
  Also: the order is never the request's.  Whatever the parameter holds, the fragment of SQL a view orders by is one of
  the fragments it declared, the page size lies between 1 and 500 unless all rows are asked for, and the page number
  is one of the pages there are.
\<close>

theorem order_is_declared:
  assumes "sorts \<noteq> []"
  shows "case table_state_of params sorts n of st \<Rightarrow>
    ts_order_sql st \<in> (snd \<circ> snd) ` set sorts \<and>
    (case ts_per st of AllRows \<Rightarrow> True | Rows p \<Rightarrow> 1 \<le> p \<and> p \<le> PER_MAX) \<and>
    1 \<le> ts_page st \<and> ts_page st \<le> ts_pages st"
proof -
  have "resolve_sort sorts requested \<in> set sorts" for requested
    using assms by (auto simp: resolve_sort_def Let_def find_Some_iff split: option.splits)
  then have "snd (snd (resolve_sort sorts requested)) \<in> (snd \<circ> snd) ` set sorts" for requested by force
  then show ?thesis
    by (auto simp: table_state_of_def paginate_def split_beta Let_def dest: per_bounds split: per_page.split)
qed

definition CONVERSATION_SORTS :: "sort_spec list" where
  "CONVERSATION_SORTS =
     [(''newest'', ''Newest activity first'', ''last_seen DESC, conversation_id DESC''),
      (''oldest'', ''Oldest activity first'', ''last_seen ASC, conversation_id DESC'')]"

definition REQUEST_SORTS :: "sort_spec list" where
  "REQUEST_SORTS = [(''newest'', ''Newest first'', ''id DESC''), (''oldest'', ''Oldest first'', ''id ASC'')]"

theorem order_is_declared_witness:
  "ts_order_sql (table_state_of [(''sort'', ''id; DROP TABLE requests'')] REQUEST_SORTS 5) \<in> {''id DESC'', ''id ASC''}"
  using order_is_declared[of REQUEST_SORTS "[(''sort'', ''id; DROP TABLE requests'')]" 5] by (simp add: REQUEST_SORTS_def)

end
