(* ===== verification/Memory_Bank.thy ===== *)
theory Memory_Bank
  imports Settings_Api Admission Chain
begin

section \<open>The memory bank (src/api/memory, and its endpoints in src/server/endpoints.py)\<close>

text \<open>
  Every profile has a table of facts with their vectors.  The vector database (LanceDB), the embedder, the fresh
  identifiers, the clock and the JSON printer and reader are arguments; \<open>'db\<close> is the state of the database and
  \<open>'v\<close> the type of vectors.  What the database documents of its operations is \<open>lance_laws\<close>.  An operation of a
  library that raises gives the text of the exception.
\<close>

datatype mem_fail =
    MemErr string
  | Raised string
  | Builtin py_exn

record 'v memory_row =
  mr_id :: string
  mr_content :: string
  mr_metadata :: string
  mr_tags :: "string list"
  mr_vector :: 'v
  mr_created_at :: real

record 'v lance_hit =
  lh_row :: "'v memory_row"
  lh_distance :: real

record ('db, 'v) lance =
  lc_names :: "'db \<Rightarrow> string + string list"
  lc_open :: "string \<Rightarrow> 'db \<Rightarrow> string + unit"
  lc_create :: "string \<Rightarrow> 'db \<Rightarrow> string + 'db"
  lc_add :: "string \<Rightarrow> 'v memory_row \<Rightarrow> 'db \<Rightarrow> string + 'db"
  lc_search :: "string \<Rightarrow> 'v \<Rightarrow> string option \<Rightarrow> int \<Rightarrow> 'db \<Rightarrow> string + 'v lance_hit list"
  lc_delete :: "string \<Rightarrow> string \<Rightarrow> 'db \<Rightarrow> string + 'db"
  lc_count :: "string \<Rightarrow> 'db \<Rightarrow> string + nat"
  lc_index :: "string \<Rightarrow> 'db \<Rightarrow> string + 'db"

record ('db, 'v) memory_env =
  me_lance :: "('db, 'v) lance"
  me_embed :: "string \<Rightarrow> mem_fail + 'v"
  me_fresh :: "'db \<Rightarrow> string"
  me_now :: "'db \<Rightarrow> real"
  me_dumps :: "obj \<Rightarrow> string"
  me_loads :: "string \<Rightarrow> json option"
  me_str :: "json \<Rightarrow> string"
  me_threshold :: int

subsection \<open>The backend (memory/lancedb\_backend.py)\<close>

definition table_names :: "('db, 'v) lance \<Rightarrow> 'db \<Rightarrow> string list" where
  "table_names lc db = (case lc_names lc db of Inl _ \<Rightarrow> [] | Inr names \<Rightarrow> names)"

definition table_failure :: "string \<Rightarrow> string \<Rightarrow> string" where
  "table_failure profile text = ''failed to access memory table '' @ quoted profile @ '': '' @ text"

definition open_bank :: "('db, 'v) lance \<Rightarrow> string \<Rightarrow> bool \<Rightarrow> 'db \<Rightarrow> string + 'db" where
  "open_bank lc profile create db =
     (if create \<and> profile \<notin> set (table_names lc db)
      then (case lc_create lc profile db of Inl t \<Rightarrow> Inl (table_failure profile t) | Inr db' \<Rightarrow> Inr db')
      else (case lc_open lc profile db of Inl t \<Rightarrow> Inl (table_failure profile t) | Inr _ \<Rightarrow> Inr db))"

text \<open>\<open>str(t).strip()\<close> of the items, the empty ones dropped; any value that can be iterated will do.\<close>

definition str_of :: "('db, 'v) memory_env \<Rightarrow> json \<Rightarrow> string" where
  "str_of env t = (case t of JStr s \<Rightarrow> s | _ \<Rightarrow> me_str env t)"

definition tag_list :: "('db, 'v) memory_env \<Rightarrow> json \<Rightarrow> string list res" where
  "tag_list env tags =
     (if \<not> truthy tags then Inr []
      else rbind (py_iter tags) (\<lambda>ts. Inr (filter (\<lambda>t. t \<noteq> []) (map (\<lambda>t. strip (str_of env t)) ts))))"

text \<open>
  \<open>dict(v or {})\<close>: an object, or a sequence of pairs.  A key that is no text is printed, as the JSON printer does
  when the metadata is stored; keys that are equal as numbers (1 and true) stay apart here.
\<close>

definition pair_of :: "('db, 'v) memory_env \<Rightarrow> json \<Rightarrow> (string \<times> json) res" where
  "pair_of env x = (case x of
      JStr [a, b] \<Rightarrow> Inr ([a], JStr [b])
    | JList [k, v] \<Rightarrow> if hashable k then Inr (str_of env k, v) else Inl TypeError
    | JObj [(k, _), (l, _)] \<Rightarrow> Inr (k, JStr l)
    | JStr _ \<Rightarrow> Inl ValueError | JList _ \<Rightarrow> Inl ValueError | JObj _ \<Rightarrow> Inl ValueError
    | _ \<Rightarrow> Inl TypeError)"

definition dict_of :: "('db, 'v) memory_env \<Rightarrow> json \<Rightarrow> obj res" where
  "dict_of env v =
     (if \<not> truthy v then Inr []
      else case v of
        JObj d \<Rightarrow> Inr d
      | _ \<Rightarrow> rbind (py_iter v) (\<lambda>xs. rbind (rmap (pair_of env) xs) (\<lambda>ps.
               Inr (fold (\<lambda>(k, w) d. AList.update k w d) ps []))))"

definition sanitize_memory ::
  "('db, 'v) memory_env \<Rightarrow> string \<Rightarrow> json \<Rightarrow> json \<Rightarrow> mem_fail + (string \<times> obj \<times> string list)" where
  "sanitize_memory env content metadata tags =
     (if strip content = [] then Inl (MemErr ''memory content must be non-empty'')
      else case rbind (dict_of env metadata) (\<lambda>meta. rbind (tag_list env tags) (\<lambda>ts. Inr (strip content, meta, ts))) of
        Inl e \<Rightarrow> Inl (Builtin e) | Inr r \<Rightarrow> Inr r)"

text \<open>The text of a built-in exception is left out of the error.\<close>

definition embed_text :: "('db, 'v) memory_env \<Rightarrow> string \<Rightarrow> mem_fail + 'v" where
  "embed_text env text = (case me_embed env text of
      Inr v \<Rightarrow> Inr v
    | Inl (MemErr m) \<Rightarrow> Inl (MemErr m)
    | Inl (Raised m) \<Rightarrow> Inl (MemErr (''embedding failed: '' @ m))
    | Inl (Builtin e) \<Rightarrow> Inl (MemErr ''embedding failed: ''))"

definition memory_retain ::
  "('db, 'v) memory_env \<Rightarrow> string \<Rightarrow> json \<Rightarrow> json \<Rightarrow> string \<Rightarrow> 'db \<Rightarrow> (mem_fail + string) \<times> 'db" where
  "memory_retain env content metadata tags profile db =
     (case sanitize_memory env content metadata tags of
        Inl e \<Rightarrow> (Inl e, db)
      | Inr (content', meta, ts) \<Rightarrow>
         (case embed_text env content' of
            Inl e \<Rightarrow> (Inl e, db)
          | Inr vec \<Rightarrow>
             (let memory_id = me_fresh env db;
                  row = \<lparr>mr_id = memory_id, mr_content = content', mr_metadata = me_dumps env meta, mr_tags = ts,
                         mr_vector = vec, mr_created_at = me_now env db\<rparr>
              in case open_bank (me_lance env) profile True db of
                   Inl t \<Rightarrow> (Inl (MemErr (''failed to retain memory: '' @ t)), db)
                 | Inr db1 \<Rightarrow>
                    (case lc_add (me_lance env) profile row db1 of
                       Inl t \<Rightarrow> (Inl (MemErr (''failed to retain memory: '' @ t)), db1)
                     | Inr db2 \<Rightarrow> (Inr memory_id, db2)))))"

definition ensure_index :: "('db, 'v) memory_env \<Rightarrow> string \<Rightarrow> 'db \<Rightarrow> 'db" where
  "ensure_index env profile db =
     (if me_threshold env \<le> 0 then db
      else case lc_count (me_lance env) profile db of
        Inl _ \<Rightarrow> db
      | Inr n \<Rightarrow> if int n < me_threshold env then db
                else (case lc_index (me_lance env) profile db of Inl _ \<Rightarrow> db | Inr db' \<Rightarrow> db'))"

definition tag_literal :: "string list \<Rightarrow> string" where
  "tag_literal ts = ''['' @ join '', '' (map quoted ts) @ '']''"

definition tag_where :: "string list \<Rightarrow> string" where
  "tag_where ts = ''array_has_all(tags, '' @ tag_literal ts @ '')''"

definition decode_meta :: "('db, 'v) memory_env \<Rightarrow> string \<Rightarrow> json" where
  "decode_meta env raw = (case me_loads env raw of None \<Rightarrow> JObj [] | Some j \<Rightarrow> j)"

record memory_hit =
  mh_id :: string
  mh_content :: string
  mh_metadata :: json
  mh_tags :: "string list"
  mh_score :: real

definition similarity :: "real \<Rightarrow> real" where
  "similarity d = 1 / (1 + max d 0)"

definition hit_of :: "('db, 'v) memory_env \<Rightarrow> 'v lance_hit \<Rightarrow> memory_hit" where
  "hit_of env h = \<lparr>mh_id = mr_id (lh_row h), mh_content = mr_content (lh_row h),
     mh_metadata = decode_meta env (mr_metadata (lh_row h)), mh_tags = mr_tags (lh_row h),
     mh_score = py_round 4 (similarity (lh_distance h))\<rparr>"

text \<open>
  The search: with the filter when there is one and it is accepted, and otherwise, after any exception on the way,
  without.
\<close>

definition filtered_search ::
  "('db, 'v) memory_env \<Rightarrow> 'v \<Rightarrow> int \<Rightarrow> json \<Rightarrow> string \<Rightarrow> 'db \<Rightarrow> (string + 'v lance_hit list)" where
  "filtered_search env vec top_k tag_filter profile db =
     (let plain = lc_search (me_lance env) profile vec None top_k db in
      case tag_list env tag_filter of
        Inl _ \<Rightarrow> plain
      | Inr [] \<Rightarrow> plain
      | Inr ts \<Rightarrow> (case lc_search (me_lance env) profile vec (Some (tag_where ts)) top_k db of
          Inl _ \<Rightarrow> plain | Inr found \<Rightarrow> Inr found))"

definition memory_recall ::
  "('db, 'v) memory_env \<Rightarrow> string \<Rightarrow> int \<Rightarrow> json \<Rightarrow> string \<Rightarrow> 'db \<Rightarrow> (mem_fail + memory_hit list) \<times> 'db" where
  "memory_recall env query top_k tag_filter profile db =
     (if top_k \<le> 0 \<or> profile \<notin> set (table_names (me_lance env) db) then (Inr [], db)
      else case embed_text env query of
        Inl e \<Rightarrow> (Inl e, db)
      | Inr vec \<Rightarrow>
         (case open_bank (me_lance env) profile False db of
            Inl t \<Rightarrow> (Inl (MemErr t), db)
          | Inr _ \<Rightarrow>
             (let db1 = ensure_index env profile db in
              case filtered_search env vec top_k tag_filter profile db1 of
                Inl t \<Rightarrow> (Inl (MemErr (''memory recall failed: '' @ t)), db1)
              | Inr found \<Rightarrow> (Inr (map (hit_of env) found), db1))))"

definition id_where :: "string \<Rightarrow> string" where
  "id_where memory_id = ''id = '' @ quoted memory_id"

definition memory_forget :: "('db, 'v) memory_env \<Rightarrow> string \<Rightarrow> string \<Rightarrow> 'db \<Rightarrow> bool \<times> 'db" where
  "memory_forget env memory_id profile db =
     (let lc = me_lance env in
      if memory_id = [] \<or> profile \<notin> set (table_names lc db) then (False, db)
      else case open_bank lc profile False db of
        Inl _ \<Rightarrow> (False, db)
      | Inr _ \<Rightarrow>
         (case lc_count lc profile db of
            Inl _ \<Rightarrow> (False, db)
          | Inr before \<Rightarrow>
             (case lc_delete lc profile (id_where memory_id) db of
                Inl _ \<Rightarrow> (False, db)
              | Inr db' \<Rightarrow> (case lc_count lc profile db' of
                  Inl _ \<Rightarrow> (False, db') | Inr after \<Rightarrow> (after < before, db')))))"

definition memory_count :: "('db, 'v) memory_env \<Rightarrow> string \<Rightarrow> 'db \<Rightarrow> nat" where
  "memory_count env profile db =
     (if profile \<notin> set (table_names (me_lance env) db) then 0
      else case open_bank (me_lance env) profile False db of
        Inl _ \<Rightarrow> 0
      | Inr _ \<Rightarrow> (case lc_count (me_lance env) profile db of Inl _ \<Rightarrow> 0 | Inr n \<Rightarrow> n))"

subsection \<open>The harness (memory/harness.py)\<close>

text \<open>
  The newest text of a user message, the block of facts, and its injection.  The backend is absent when memory is
  off.  Only the search is guarded; a message that is no object raises, and the caller drops the whole injection.
\<close>

definition part_texts :: "json list \<Rightarrow> json list" where
  "part_texts bs = map (\<lambda>b. case b of JObj d \<Rightarrow> dget d ''text'' JNull | _ \<Rightarrow> JNull)
     (filter (\<lambda>b. case b of JObj d \<Rightarrow> truthy (dget d ''text'' JNull) | _ \<Rightarrow> False) bs)"

definition join_parts :: "json list \<Rightarrow> string res" where
  "join_parts ts = (if list_all is_str ts then Inr (strip (join '' '' (map (\<lambda>t. case t of JStr s \<Rightarrow> s | _ \<Rightarrow> []) ts)))
     else Inl TypeError)"

fun newest_user_text :: "json list \<Rightarrow> string res" where
  "newest_user_text [] = Inr []"
| "newest_user_text (JObj d # ms) =
     (if dget d ''role'' JNull \<noteq> JStr ''user'' then newest_user_text ms
      else case dget d ''content'' (JStr []) of
        JStr s \<Rightarrow> if strip s \<noteq> [] then Inr (strip s) else newest_user_text ms
      | JList bs \<Rightarrow> if part_texts bs \<noteq> [] then join_parts (part_texts bs) else newest_user_text ms
      | _ \<Rightarrow> newest_user_text ms)"
| "newest_user_text (_ # ms) = Inl AttributeError"

definition message_list :: "json \<Rightarrow> json list res" where
  "message_list messages = (if truthy messages then py_iter messages else Inr [])"

definition latest_user_text :: "json \<Rightarrow> string res" where
  "latest_user_text messages = rbind (message_list messages) (\<lambda>ms. newest_user_text (rev ms))"

text \<open>The metadata of a fact may be any JSON value; one that has no \<open>get\<close> raises.  The host is printed.\<close>

definition fact_line :: "('db, 'v) memory_env \<Rightarrow> memory_hit \<Rightarrow> string list res" where
  "fact_line env m =
     (if strip (mh_content m) = [] then Inr []
      else rbind (py_get (if truthy (mh_metadata m) then mh_metadata m else JObj []) ''host'' JNull) (\<lambda>host.
        Inr [''- '' @ (if truthy host then ''['' @ str_of env host @ ''] '' else []) @ strip (mh_content m)]))"

definition context_block :: "('db, 'v) memory_env \<Rightarrow> memory_hit list \<Rightarrow> string res" where
  "context_block env memories = rbind (rmap (fact_line env) memories) (\<lambda>lines.
     Inr (if concat lines = [] then []
          else ''The following facts were recalled from this profile'' @ [CHR 0x27] @ ''s memory and may be relevant:'' @
            [CHR 0x0A] @ join [CHR 0x0A] (concat lines)))"

record recall_settings =
  rs_enabled :: bool
  rs_top_k :: int
  rs_min_score :: real
  rs_tag_filter :: json

definition recall_for_request ::
  "('db, 'v) memory_env \<Rightarrow> bool \<Rightarrow> recall_settings \<Rightarrow> string \<Rightarrow> json \<Rightarrow> 'db \<Rightarrow> memory_hit list res \<times> 'db" where
  "recall_for_request env up rs profile messages db =
     (if \<not> up then (Inr [], db)
      else case latest_user_text messages of
        Inl e \<Rightarrow> (Inl e, db)
      | Inr query \<Rightarrow>
         if query = [] then (Inr [], db)
         else (case memory_recall env query (rs_top_k rs) (rs_tag_filter rs) profile db of
            (Inl _, db') \<Rightarrow> (Inr [], db')
          | (Inr found, db') \<Rightarrow>
              (Inr (if 0 < rs_min_score rs then filter (\<lambda>m. rs_min_score rs \<le> mh_score m) found else found), db')))"

definition with_context :: "string \<Rightarrow> json list \<Rightarrow> json res" where
  "with_context block ms =
     (let leading = JObj [(''role'', JStr ''system''), (''content'', JStr block)] in
      case ms of
        [] \<Rightarrow> Inr (JList [leading])
      | m # rest \<Rightarrow> rbind (py_get m ''role'' JNull) (\<lambda>role.
          case (if role = JStr ''system'' then py_get m ''content'' (JStr []) else Inr JNull) of
            Inr (JStr existing) \<Rightarrow>
              (case m of
                 JObj d \<Rightarrow> Inr (JList (JObj (AList.update ''content''
                   (JStr (if existing = [] then block else block @ [CHR 0x0A, CHR 0x0A] @ existing)) d) # rest))
               | _ \<Rightarrow> Inl AttributeError)
          | _ \<Rightarrow> Inr (JList (leading # ms))))"

definition inject_memory_context ::
  "('db, 'v) memory_env \<Rightarrow> bool \<Rightarrow> recall_settings \<Rightarrow> string \<Rightarrow> json \<Rightarrow> 'db \<Rightarrow> json res \<times> 'db" where
  "inject_memory_context env up rs profile messages db =
     (if \<not> rs_enabled rs then (Inr messages, db)
      else case recall_for_request env up rs profile messages db of
        (Inl e, db') \<Rightarrow> (Inl e, db')
      | (Inr memories, db') \<Rightarrow>
         (if memories = [] then Inr messages
          else rbind (context_block env memories) (\<lambda>block.
            if block = [] then Inr messages
            else rbind (message_list messages) (with_context block)), db'))"

text \<open>
  The settings under \<open>plugins.memory\<close>; \<open>read_float\<close> is \<open>float(text)\<close>.  And what \<open>try_chain\<close> gets of it: the new
  messages, or nothing when the harness is off or anything raises.
\<close>

definition read_real :: "(string \<Rightarrow> real option) \<Rightarrow> json \<Rightarrow> real res" where
  "read_real read_float v = (case v of
      JStr s \<Rightarrow> (case read_float s of None \<Rightarrow> Inl ValueError | Some x \<Rightarrow> Inr x)
    | _ \<Rightarrow> num_of v)"

definition config_for :: "(string \<Rightarrow> real option) \<Rightarrow> json \<Rightarrow> recall_settings res" where
  "config_for read_float plugins =
     (let p = (if truthy plugins then plugins else JObj []);
          m = (case p of JObj d \<Rightarrow> dget d ''memory'' JNull | _ \<Rightarrow> JNull);
          mem = (if truthy m then m else JObj []) in
      rbind (py_get mem ''auto_recall'' (JBool False)) (\<lambda>auto.
      rbind (py_get mem ''top_k'' (JNum 3)) (\<lambda>k. rbind (int_of_json (if truthy k then k else JNum 3)) (\<lambda>top_k.
      rbind (py_get mem ''min_score'' (JNum 0)) (\<lambda>s. rbind (read_real read_float (if truthy s then s else JNum 0)) (\<lambda>min_score.
      rbind (py_get mem ''tag_filter'' JNull) (\<lambda>tags.
      Inr \<lparr>rs_enabled = truthy auto, rs_top_k = top_k, rs_min_score = min_score, rs_tag_filter = tags\<rparr>)))))))"

definition chain_recall ::
  "('db, 'v) memory_env \<Rightarrow> (string \<Rightarrow> real option) \<Rightarrow> bool \<Rightarrow> json \<Rightarrow> string \<Rightarrow> 'db \<Rightarrow> json \<Rightarrow> json option" where
  "chain_recall env read_float up plugins profile db messages = (case config_for read_float plugins of
      Inl _ \<Rightarrow> None
    | Inr rs \<Rightarrow>
        if \<not> rs_enabled rs then None
        else (case fst (inject_memory_context env up rs profile messages db) of
          Inl _ \<Rightarrow> None | Inr ms \<Rightarrow> Some ms))"

subsection \<open>The start (memory/\_\_init\_\_.py)\<close>

text \<open>
  Where the facts are kept; \<open>cost_db\<close> is the environment's path of the cost database.  Starting may fail, which
  \<open>connect\<close> tells; any other exception switches memory off as well.
\<close>

definition path_dirname :: "string \<Rightarrow> string" where
  "path_dirname p =
     (let head = rev (dropWhile (\<lambda>c. c \<noteq> CHR ''/'') (rev p))
      in if list_all (\<lambda>c. c = CHR ''/'') head then head else rev (dropWhile (\<lambda>c. c = CHR ''/'') (rev head)))"

definition path_join :: "string \<Rightarrow> string \<Rightarrow> string" where
  "path_join base leaf = (if base = [] \<or> last base = CHR ''/'' then base @ leaf else base @ ''/'' @ leaf)"

datatype memory_start = MemoryOff | MemoryOn string int

definition init_memory :: "string \<Rightarrow> (string \<Rightarrow> int \<Rightarrow> bool) \<Rightarrow> obj \<Rightarrow> memory_start" where
  "init_memory cost_db connect plugins =
     (let m = dget plugins ''memory'' JNull;
          mem = (if truthy m then m else JObj []) in
      case mem of
        JObj cfg \<Rightarrow>
         (let raw = dget cfg ''storage_path'' JNull in
          if \<not> truthy (dget cfg ''enabled'' (JBool True)) then MemoryOff
          else if raw \<noteq> JNull \<and> \<not> is_str raw then MemoryOff
          else let given = (case raw of JStr t \<Rightarrow> strip t | _ \<Rightarrow> []);
                   storage = (if given \<noteq> [] then given
                     else path_join (if cost_db = [] then ''data'' else path_dirname cost_db) ''memory'');
                   e = dget cfg ''embedding'' JNull;
                   emb = (if truthy e then e else JObj []);
                   dim = rbind (py_get emb ''dim'' (JNum 384)) (\<lambda>d. int_of_json (if truthy d then d else JNum 384))
               in case dim of
                    Inl _ \<Rightarrow> MemoryOff
                  | Inr n \<Rightarrow> if connect storage n then MemoryOn storage n else MemoryOff)
      | _ \<Rightarrow> MemoryOff)"

text \<open>
  What the set-up page shows: \<open>importable site\<close> tells whether the packages can be imported with that directory in
  front of the path.
\<close>

record module_status =
  ms_available :: bool
  ms_removable :: bool
  ms_active :: bool
  ms_site :: string

definition modules_root :: "string \<Rightarrow> string" where
  "modules_root dir = (if strip dir = [] then ''/opt/lcp-modules'' else strip dir)"

definition memory_site :: "string \<Rightarrow> string" where
  "memory_site dir = path_join (modules_root dir) ''memory''"

definition memory_status :: "(string option \<Rightarrow> bool) \<Rightarrow> string \<Rightarrow> bool \<Rightarrow> module_status" where
  "memory_status importable dir up =
     (let available = importable (Some (memory_site dir))
      in \<lparr>ms_available = available, ms_removable = available \<and> \<not> importable None, ms_active = up,
          ms_site = memory_site dir\<rparr>)"

definition router_site :: "string \<Rightarrow> string" where
  "router_site dir = path_join (modules_root dir) ''router''"

definition router_status :: "(string option \<Rightarrow> bool) \<Rightarrow> string \<Rightarrow> module_status" where
  "router_status importable dir =
     (let available = importable (Some (router_site dir))
      in \<lparr>ms_available = available, ms_removable = available \<and> \<not> importable None, ms_active = available,
          ms_site = router_site dir\<rparr>)"

subsection \<open>The endpoints (server/endpoints.py)\<close>

datatype memory_answer =
    CountIs nat
  | StoredAs string
  | Results "memory_hit list"
  | Deleted bool
  | Problem string
  | Coded string string

text \<open>\<open>None\<close>: let through.  The key manager may be missing.  A dash in a message is written as a hyphen.\<close>

definition memory_auth ::
  "key_env \<Rightarrow> bool \<Rightarrow> request_ctx \<Rightarrow> key_store \<Rightarrow> (int \<times> memory_answer) option \<times> key_store" where
  "memory_auth kenv manager rc ks =
     (if \<not> truthy (case rc_auth_required rc of None \<Rightarrow> JBool True | Some v \<Rightarrow> v) then (None, ks)
      else let auth_header = (case rc_authorization rc of None \<Rightarrow> [] | Some h \<Rightarrow> h) in
      if \<not> starts_with auth_header ''Bearer ''
      then (Some (401, Coded ''LCP-4010'' ''API key required for this profile.''), ks)
      else if \<not> manager then (Some (500, Coded ''LCP-5001'' ''internal error''), ks)
      else (case validate_key kenv (rc_now rc) (drop 7 auth_header) ks of
          (None, ks') \<Rightarrow> (Some (401, Coded ''LCP-4011'' ''invalid or revoked API key''), ks')
        | (Some info, ks') \<Rightarrow>
            if \<not> profile_allowed (rc_profile rc) info
            then (Some (403, Coded ''LCP-4030'' (''key does not have access to profile '' @ quoted (rc_profile rc))), ks')
            else (None, ks')))"

definition memory_failure :: "mem_fail \<Rightarrow> int \<times> memory_answer" where
  "memory_failure e = (case e of
      MemErr m \<Rightarrow> (400, Problem m) | _ \<Rightarrow> (500, Coded ''LCP-5001'' ''internal error''))"

definition either_text :: "obj \<Rightarrow> string \<Rightarrow> string \<Rightarrow> string res" where
  "either_text body k k' = (if truthy (dget body k JNull) then text_field body k else text_field body k')"

text \<open>The body is \<open>None\<close> when it cannot be read; one that is no object has no \<open>get\<close>.\<close>

definition memory_write ::
  "('db, 'v) memory_env \<Rightarrow> string \<Rightarrow> string \<Rightarrow> obj \<Rightarrow> 'db \<Rightarrow> (int \<times> memory_answer) \<times> 'db" where
  "memory_write env profile act body db =
     (let broken = (\<lambda>e. (memory_failure (Builtin e), db)) in
      if act = ''retain'' then
        (case text_field body ''content'' of
           Inl e \<Rightarrow> broken e
         | Inr content \<Rightarrow>
            if content = [] then ((400, Problem (''missing '' @ quoted ''content'' @ '' field'')), db)
            else (case memory_retain env content (dget body ''metadata'' JNull) (dget body ''tags'' JNull) profile db of
                (Inl e, db') \<Rightarrow> (memory_failure e, db')
              | (Inr memory_id, db') \<Rightarrow> ((200, StoredAs memory_id), db')))
      else if act = ''recall'' then
        (case either_text body ''query'' ''content'' of
           Inl e \<Rightarrow> broken e
         | Inr query \<Rightarrow>
            if query = [] then ((400, Problem (''missing '' @ quoted ''query'' @ '' field'')), db)
            else let k = dget body ''top_k'' (JNum 10) in
              (case int_of_json (if truthy k then k else JNum 10) of
                 Inl e \<Rightarrow> broken e
               | Inr top_k \<Rightarrow>
                  (case memory_recall env query top_k (dget body ''tag_filter'' JNull) profile db of
                      (Inl e, db') \<Rightarrow> (memory_failure e, db')
                    | (Inr found, db') \<Rightarrow> ((200, Results found), db'))))
      else
        (case text_field body ''memory_id'' of
           Inl e \<Rightarrow> broken e
         | Inr memory_id \<Rightarrow>
            if memory_id = [] then ((400, Problem (''missing '' @ quoted ''memory_id'' @ '' field'')), db)
            else (case memory_forget env memory_id profile db of (gone, db') \<Rightarrow> ((200, Deleted gone), db'))))"

definition MEMORY_ACTIONS :: "string list" where
  "MEMORY_ACTIONS = [''retain'', ''recall'', ''forget'', ''count'']"

definition serve_memory_api ::
  "('db, 'v) memory_env \<Rightarrow> key_env \<Rightarrow> bool \<Rightarrow> bool \<Rightarrow> request_ctx \<Rightarrow> string \<Rightarrow> json option \<Rightarrow>
   key_store \<times> 'db \<Rightarrow> (int \<times> memory_answer) \<times> key_store \<times> 'db" where
  "serve_memory_api env kenv manager up rc act body st =
     (case st of (ks, db) \<Rightarrow>
      if act \<notin> set MEMORY_ACTIONS then ((404, Problem (''unknown memory action: '' @ act)), ks, db)
      else case memory_auth kenv manager rc ks of
        (Some refusal, ks') \<Rightarrow> (refusal, ks', db)
      | (None, ks') \<Rightarrow>
         if \<not> up then ((501, Coded ''LCP-5010'' 
           (''Memory plugin is not installed or disabled - '' @
            ''install the Memory (LanceDB) module from the Setup page.'')), ks', db)
         else if act = ''count'' then ((200, CountIs (memory_count env (rc_profile rc) db)), ks', db)
         else (case body of
             None \<Rightarrow> ((400, Problem ''invalid JSON body''), ks', db)
           | Some (JObj b) \<Rightarrow> (case memory_write env (rc_profile rc) act b db of (r, db') \<Rightarrow> (r, ks', db'))
           | Some _ \<Rightarrow> (memory_failure (Builtin AttributeError), ks', db)))"

subsection \<open>What the database promises\<close>

text \<open>
  \<open>rows p db\<close> are the facts in the table of \<open>p\<close> and \<open>means w\<close> is the set of rows a condition of SQL describes.
  Only the operation's own table changes; a search gives rows of the table that meet the condition, at most as many
  as asked for and the nearest first.  \<open>lance_up\<close>: no operation on a listed table fails.
\<close>

type_synonym ('db, 'v) table_rows = "string \<Rightarrow> 'db \<Rightarrow> 'v memory_row list"
type_synonym 'v meaning = "string \<Rightarrow> 'v memory_row \<Rightarrow> bool"

definition changes_only :: "('db, 'v) table_rows \<Rightarrow> string \<Rightarrow> 'v memory_row list \<Rightarrow> 'db \<Rightarrow> 'db \<Rightarrow> bool" where
  "changes_only rows p new db db' \<longleftrightarrow> rows p db' = new \<and> (\<forall>q. q \<noteq> p \<longrightarrow> rows q db' = rows q db)"

definition good_hits :: "'v memory_row list \<Rightarrow> (string \<Rightarrow> 'v memory_row \<Rightarrow> bool) \<Rightarrow> string option \<Rightarrow> int \<Rightarrow>
    'v lance_hit list \<Rightarrow> bool" where
  "good_hits table means cond k found \<longleftrightarrow> int (length found) \<le> max k 0 \<and> sorted (map lh_distance found) \<and>
     (\<forall>h \<in> set found. lh_row h \<in> set table \<and> (\<forall>w. cond = Some w \<longrightarrow> means w (lh_row h)))"

definition lance_laws :: "('db, 'v) lance \<Rightarrow> ('db, 'v) table_rows \<Rightarrow> 'v meaning \<Rightarrow> bool" where
  "lance_laws lc rows means \<longleftrightarrow>
     (\<forall>db names p. lc_names lc db = Inr names \<longrightarrow> rows p db \<noteq> [] \<longrightarrow> p \<in> set names) \<and>
     (\<forall>p db db'. lc_create lc p db = Inr db' \<longrightarrow> changes_only rows p [] db db') \<and>
     (\<forall>p r db db'. lc_add lc p r db = Inr db' \<longrightarrow> changes_only rows p (rows p db @ [r]) db db') \<and>
     (\<forall>p w db db'. lc_delete lc p w db = Inr db' \<longrightarrow>
        changes_only rows p (filter (\<lambda>r. \<not> means w r) (rows p db)) db db') \<and>
     (\<forall>p db db'. lc_index lc p db = Inr db' \<longrightarrow> changes_only rows p (rows p db) db db') \<and>
     (\<forall>p db n. lc_count lc p db = Inr n \<longrightarrow> n = length (rows p db)) \<and>
     (\<forall>p v cond k db found. lc_search lc p v cond k db = Inr found \<longrightarrow> good_hits (rows p db) means cond k found)"

definition lance_up :: "('db, 'v) lance \<Rightarrow> bool" where
  "lance_up lc \<longleftrightarrow> (\<forall>db. \<exists>names. lc_names lc db = Inr names \<and> (\<forall>p \<in> set names. lc_open lc p db = Inr () \<and>
     (\<exists>n. lc_count lc p db = Inr n) \<and> (\<forall>w. \<exists>db'. lc_delete lc p w db = Inr db' \<and> (\<exists>n. lc_count lc p db' = Inr n))))"

text \<open>A condition that compares the identifier with a text in which no quote occurs.\<close>

definition id_meaning :: "'v meaning \<Rightarrow> bool" where
  "id_meaning means \<longleftrightarrow> (\<forall>i r. CHR 0x27 \<notin> set i \<longrightarrow> (means (id_where i) r \<longleftrightarrow> mr_id r = i))"

definition always_true_id :: string where
  "always_true_id = ''x'' @ [CHR 0x27] @ '' OR '' @ quoted ''a'' @ '' = '' @ [CHR 0x27] @ ''a''"

lemmas lance_lawsD =
  lance_laws_def[THEN iffD1, THEN conjunct1, rule_format]
  lance_laws_def[THEN iffD1, THEN conjunct2, THEN conjunct1, rule_format]
  lance_laws_def[THEN iffD1, THEN conjunct2, THEN conjunct2, THEN conjunct1, rule_format]
  lance_laws_def[THEN iffD1, THEN conjunct2, THEN conjunct2, THEN conjunct2, THEN conjunct1, rule_format]
  lance_laws_def[THEN iffD1, THEN conjunct2, THEN conjunct2, THEN conjunct2, THEN conjunct2, THEN conjunct1, rule_format]
  lance_laws_def[THEN iffD1, THEN conjunct2, THEN conjunct2, THEN conjunct2, THEN conjunct2, THEN conjunct2, THEN conjunct1, rule_format]
  lance_laws_def[THEN iffD1, THEN conjunct2, THEN conjunct2, THEN conjunct2, THEN conjunct2, THEN conjunct2, THEN conjunct2, rule_format]

lemma changes_only_trans:
  "changes_only rows p new db db1 \<Longrightarrow> changes_only rows p newer db1 db2 \<Longrightarrow> changes_only rows p newer db db2"
  by (simp add: changes_only_def)

lemma changes_only_refl [simp]: "changes_only rows p (rows p db) db db"
  by (simp add: changes_only_def)

lemma up_table:
  assumes "lance_up lc" and "lance_laws lc rows means" and "rows p db \<noteq> []"
  shows "p \<in> set (table_names lc db) \<and> lc_open lc p db = Inr () \<and> lc_count lc p db = Inr (length (rows p db)) \<and>
    (\<forall>w. \<exists>db'. lc_delete lc p w db = Inr db' \<and> lc_count lc p db' = Inr (length (rows p db')))"
proof -
  obtain names where names: "lc_names lc db = Inr names"
    "\<forall>p \<in> set names. lc_open lc p db = Inr () \<and> (\<exists>n. lc_count lc p db = Inr n) \<and>
      (\<forall>w. \<exists>db'. lc_delete lc p w db = Inr db' \<and> (\<exists>n. lc_count lc p db' = Inr n))"
    using assms(1) unfolding lance_up_def by blast
  have "p \<in> set names" using lance_lawsD(1)[OF assms(2) names(1) assms(3)] .
  then show ?thesis
    using names lance_lawsD(6)[OF assms(2)] by (fastforce simp: table_names_def)
qed

subsection \<open>How the operations change the tables\<close>

lemma open_bank_changes:
  assumes "lance_laws lc rows means" and "open_bank lc p create db = Inr db'"
  shows "changes_only rows p (if create \<and> p \<notin> set (table_names lc db) then [] else rows p db) db db'"
  using assms lance_lawsD(2)[OF assms(1)] by (auto simp: open_bank_def split: if_splits sum.splits)

definition new_row :: "('db, 'v) memory_env \<Rightarrow> string \<Rightarrow> obj \<Rightarrow> string list \<Rightarrow> 'v \<Rightarrow> 'db \<Rightarrow> 'v memory_row" where
  "new_row env content meta ts vec db = \<lparr>mr_id = me_fresh env db, mr_content = content, mr_metadata = me_dumps env meta,
     mr_tags = ts, mr_vector = vec, mr_created_at = me_now env db\<rparr>"

lemma retain_cases:
  assumes "memory_retain env content metadata tags p db = (r, db')"
  obtains (Failed) e where "r = Inl e" "db' = db \<or> open_bank (me_lance env) p True db = Inr db'"
  | (Stored) meta ts vec db1 where "r = Inr (me_fresh env db)" "strip content \<noteq> []"
      "dict_of env metadata = Inr meta" "tag_list env tags = Inr ts" "embed_text env (strip content) = Inr vec"
      "open_bank (me_lance env) p True db = Inr db1"
      "lc_add (me_lance env) p (new_row env (strip content) meta ts vec db) db1 = Inr db'"
proof (cases "sanitize_memory env content metadata tags")
  case (Inl e)
  then show ?thesis using assms by (intro Failed[of e]) (simp_all add: memory_retain_def)
next
  case (Inr t)
  then obtain meta ts where t: "t = (strip content, meta, ts)" "strip content \<noteq> []"
      "dict_of env metadata = Inr meta" "tag_list env tags = Inr ts"
    by (auto simp: sanitize_memory_def rbind_def split: sum.splits if_splits)
  show ?thesis
  proof (cases "embed_text env (strip content)")
    case (Inl e)
    then show ?thesis using assms Inr t(1) by (intro Failed[of e]) (simp_all add: memory_retain_def)
  next
    case vec: (Inr vec)
    show ?thesis
    proof (cases "open_bank (me_lance env) p True db")
      case (Inl e)
      then show ?thesis
        using assms Inr t(1) vec by (intro Failed[of "MemErr (''failed to retain memory: '' @ e)"]) (simp_all add: memory_retain_def Let_def)
    next
      case db1: (Inr db1)
      then show ?thesis
        using assms Failed Stored Inr t vec
        by (cases "lc_add (me_lance env) p (new_row env (strip content) meta ts vec db) db1")
          (auto simp: memory_retain_def Let_def new_row_def)
    qed
  qed
qed

lemma retain_changes:
  assumes laws: "lance_laws (me_lance env) rows means" and run: "memory_retain env content metadata tags p db = (r, db')"
  shows "\<exists>new. changes_only rows p new db db'"
proof -
  have opened: "\<exists>new. changes_only rows p new db db1" if "open_bank (me_lance env) p True db = Inr db1" for db1
    using open_bank_changes[OF laws that] by (rule exI)
  from run show ?thesis
  proof (cases rule: retain_cases)
    case (Failed e)
    then show ?thesis using opened[of db'] changes_only_refl[of rows p db] by metis
  next
    case (Stored meta ts vec db1)
    obtain new where "changes_only rows p new db db1" using opened[OF Stored(6)] by (elim exE)
    from changes_only_trans[OF this lance_lawsD(3)[OF laws Stored(7)]] show ?thesis by (rule exI)
  qed
qed

lemma ensure_index_changes:
  "lance_laws (me_lance env) rows means \<Longrightarrow> changes_only rows p (rows p db) db (ensure_index env p db)"
  using lance_lawsD(5) by (auto simp: ensure_index_def split: sum.split)

lemma recall_changes:
  assumes "lance_laws (me_lance env) rows means" and "memory_recall env query k tags p db = (r, db')"
  shows "changes_only rows p (rows p db) db db'"
  using assms ensure_index_changes[OF assms(1), of p db]
  by (auto simp: memory_recall_def Let_def split: if_splits sum.splits)

lemma forget_changes:
  assumes "lance_laws (me_lance env) rows means" and "memory_forget env i p db = (gone, db')"
  shows "changes_only rows p (rows p db) db db' \<or>
    changes_only rows p (filter (\<lambda>r. \<not> means (id_where i) r) (rows p db)) db db'"
  using assms(2) lance_lawsD(4)[OF assms(1)]
  by (auto simp: memory_forget_def Let_def split: if_splits sum.splits)

lemma write_changes:
  assumes laws: "lance_laws (me_lance env) rows means" and run: "memory_write env p act body db = (r, db')"
  shows "\<exists>new. changes_only rows p new db db'"
proof -
  have same: "\<exists>new. changes_only rows p new db db" by (rule exI, rule changes_only_refl)
  have recalls: "\<exists>new. changes_only rows p new db d" if "memory_recall env q k tags p db = (x, d)" for q k tags x d
    using recall_changes[OF laws that] by (rule exI)
  have forgets: "\<exists>new. changes_only rows p new db d" if "memory_forget env i p db = (x, d)" for i x d
    using forget_changes[OF laws that] by (elim disjE) (rule exI, assumption)+
  show ?thesis
    using run same retain_changes[OF laws] recalls forgets
    unfolding memory_write_def Let_def by (auto split: if_splits sum.splits prod.splits)
qed

lemma auth_passed:
  assumes "memory_auth kenv manager rc ks = (None, ks')"
  shows "\<not> truthy (case rc_auth_required rc of None \<Rightarrow> JBool True | Some v \<Rightarrow> v) \<or>
    (\<exists>h info. manager \<and> rc_authorization rc = Some h \<and> starts_with h ''Bearer '' \<and>
      fst (validate_key kenv (rc_now rc) (drop 7 h) ks) = Some info \<and> profile_allowed (rc_profile rc) info)"
proof -
  have "starts_with [] ''Bearer '' = False" by (simp add: starts_with_def)
  with assms show ?thesis
    unfolding memory_auth_def Let_def by (auto split: if_splits option.splits prod.splits)
qed

text \<open>An in-memory database that meets the laws.\<close>

type_synonym demo_db = "(string, unit memory_row list) dict"

definition demo_means :: "unit meaning" where
  "demo_means w r \<longleftrightarrow> w = id_where (mr_id r) \<or> w = id_where always_true_id \<or> (\<exists>t \<in> set (mr_tags r). w = tag_where [t])"

definition demo_lance :: "(demo_db, unit) lance" where
  "demo_lance = \<lparr>lc_names = (\<lambda>db. Inr (keys db)),
     lc_open = (\<lambda>p db. if p \<in> set (keys db) then Inr () else Inl ''no table''),
     lc_create = (\<lambda>p db. Inr (AList.update p [] db)),
     lc_add = (\<lambda>p r db. Inr (AList.update p (dget db p [] @ [r]) db)),
     lc_search = (\<lambda>p v w k db. Inr (map (\<lambda>r. \<lparr>lh_row = r, lh_distance = 1\<rparr>) (take (nat k)
        (filter (\<lambda>r. case w of None \<Rightarrow> True | Some t \<Rightarrow> demo_means t r) (dget db p []))))),
     lc_delete = (\<lambda>p w db. Inr (AList.update p (filter (\<lambda>r. \<not> demo_means w r) (dget db p [])) db)),
     lc_count = (\<lambda>p db. Inr (length (dget db p []))),
     lc_index = (\<lambda>p db. Inr db)\<rparr>"

definition demo_rows :: "(demo_db, unit) table_rows" where
  "demo_rows p db = dget db p []"

definition demo_bank :: "(demo_db, unit) memory_env" where
  "demo_bank = \<lparr>me_lance = demo_lance, me_embed = (\<lambda>t. Inr ()),
     me_fresh = (\<lambda>db. CHR ''f'' # show_nat (length (concat (map snd db)))), me_now = (\<lambda>db. 0), me_dumps = (\<lambda>d. ''{}''),
     me_loads = (\<lambda>s. Some (JObj [])), me_str = (\<lambda>j. []), me_threshold = 10000\<rparr>"

lemma demo_bank_sel [simp]:
  "me_lance demo_bank = demo_lance" "me_embed demo_bank t = Inr ()" "me_threshold demo_bank = 10000"
  "me_fresh demo_bank db = CHR ''f'' # show_nat (length (concat (map snd db)))"
  by (simp_all add: demo_bank_def)

lemma in_dict: "map_of db p = Some v \<Longrightarrow> p \<in> fst ` set db"
  by (metis domI dom_map_of_conv_image_fst)

lemma constant_sorted: "\<forall>h \<in> set hs. lh_distance h = c \<Longrightarrow> sorted_wrt (\<lambda>x y. lh_distance x \<le> lh_distance y) hs"
  by (induction hs) simp_all

lemma demo_lance_laws: "lance_laws demo_lance demo_rows demo_means"
  by (auto simp: lance_laws_def demo_lance_def demo_rows_def changes_only_def good_hits_def update_conv' sorted_map
      intro!: constant_sorted[of _ 1] dest!: in_set_takeD dest: in_dict split: option.splits)

lemma demo_lance_up: "lance_up demo_lance"
  by (simp add: lance_up_def demo_lance_def)

subsection \<open>Properties\<close>

text \<open>
  C24: memories stay with their profile and behind its key.  Whatever a request to the memory endpoints does, the
  facts of every other profile are as they were; and it changes a fact, or answers 200, only when the profile asks
  for no key or the request carries a valid key that is allowed on this very profile.
\<close>

theorem memory_requests_stay_in_their_profile:
  assumes "lance_laws (me_lance env) rows means"
    and "serve_memory_api env kenv manager up rc act body (ks, db) = ((status, answer), ks', db')"
  shows "(\<forall>q. q \<noteq> rc_profile rc \<longrightarrow> rows q db' = rows q db) \<and>
    (status = 200 \<or> db' \<noteq> db \<longrightarrow>
      \<not> truthy (case rc_auth_required rc of None \<Rightarrow> JBool True | Some v \<Rightarrow> v) \<or>
      (\<exists>h info. manager \<and> rc_authorization rc = Some h \<and> starts_with h ''Bearer '' \<and>
        fst (validate_key kenv (rc_now rc) (drop 7 h) ks) = Some info \<and> profile_allowed (rc_profile rc) info))"
proof -
  obtain refusal k where auth: "memory_auth kenv manager rc ks = (refusal, k)" by (cases "memory_auth kenv manager rc ks")
  have written: "rows q d = rows q db" if "memory_write env (rc_profile rc) act b db = (r, d)" "q \<noteq> rc_profile rc" for b r d q
    using write_changes[OF assms(1) that(1)] that(2) by (auto simp: changes_only_def)
  have frame: "\<forall>q. q \<noteq> rc_profile rc \<longrightarrow> rows q db' = rows q db"
    using assms(2) auth written
    by (auto simp: serve_memory_api_def split: if_splits option.splits json.splits prod.splits)
  have refused: "status \<noteq> 200 \<and> db' = db" if "refusal = Some x" for x
    using assms(2) auth that
    by (auto simp: serve_memory_api_def memory_auth_def Let_def split: if_splits option.splits prod.splits)
  show ?thesis
    using frame refused auth_passed[of kenv manager rc ks k] auth by (cases refusal) auto
qed

definition remember :: "string \<Rightarrow> json option" where
  "remember said = Some (JObj [(''content'', JStr said)])"

definition open_ctx :: request_ctx where
  "open_ctx = demo_ctx\<lparr>rc_auth_required := Some (JBool False)\<rparr>"

definition two_facts :: demo_db where
  "two_facts = snd (memory_retain demo_bank ''b'' JNull JNull ''p'' (snd (memory_retain demo_bank ''a'' JNull JNull ''p'' [])))"

lemma demo_retain:
  "fst (serve_memory_api demo_bank demo_key_env True True open_ctx ''retain'' (remember ''tea'') (demo_keys, two_facts)) =
    (200, StoredAs ''f2'')"
  by code_simp

theorem memory_requests_stay_in_their_profile_witness:
  "demo_rows ''p'' (snd (snd (serve_memory_api demo_bank demo_key_env True True open_ctx ''retain''
     (remember ''tea'') (demo_keys, two_facts)))) = demo_rows ''p'' two_facts"
  using memory_requests_stay_in_their_profile[of demo_bank demo_rows demo_means demo_key_env True True open_ctx "''retain''"
      "remember ''tea''" demo_keys two_facts "200" "StoredAs ''f2''" _ _] demo_lance_laws demo_retain
  by (cases "serve_memory_api demo_bank demo_key_env True True open_ctx ''retain'' (remember ''tea'') (demo_keys, two_facts)")
    (auto simp: open_ctx_def demo_ctx_def)

text \<open>
  While a table is below the threshold of the index it has none, and the database searches it exhaustively: a search
  that asks for as many facts as there are gives all of them.
\<close>

definition flat_search :: "('db, 'v) lance \<Rightarrow> ('db, 'v) table_rows \<Rightarrow> string \<Rightarrow> 'db \<Rightarrow> bool" where
  "flat_search lc rows p db \<longleftrightarrow> (\<forall>v k. int (length (rows p db)) \<le> k \<longrightarrow>
     (\<exists>found. lc_search lc p v None k db = Inr found \<and> set (rows p db) \<subseteq> lh_row ` set found))"

lemma flat_recall:
  assumes "flat_search (me_lance env) rows p db" and "ensure_index env p db = db"
    and "p \<in> set (table_names (me_lance env) db)" and "lc_open (me_lance env) p db = Inr ()"
    and "r \<in> set (rows p db)" and "embed_text env query = Inr v" and "int (length (rows p db)) \<le> top_k"
  shows "\<exists>found. fst (memory_recall env query top_k JNull p db) = Inr found \<and>
    (\<exists>m \<in> set found. mh_id m = mr_id r \<and> mh_content m = mr_content r \<and> mh_tags m = mr_tags r)"
proof -
  obtain hs where hs: "lc_search (me_lance env) p v None top_k db = Inr hs" "set (rows p db) \<subseteq> lh_row ` set hs"
    using assms(1,7) unfolding flat_search_def by blast
  have "0 < length (rows p db)" using assms(5) by (rule length_pos_if_in_set)
  then have "0 < top_k" using assms(7) by linarith
  then have run: "fst (memory_recall env query top_k JNull p db) = Inr (map (hit_of env) hs)"
    using assms(2-4,6) hs(1) by (simp add: memory_recall_def open_bank_def filtered_search_def tag_list_def Let_def)
  obtain h where "h \<in> set hs" "lh_row h = r" using hs(2) assms(5) by auto
  then have "\<exists>m \<in> set (map (hit_of env) hs). mh_id m = mr_id r \<and> mh_content m = mr_content r \<and> mh_tags m = mr_tags r"
    by (auto simp: hit_of_def intro!: bexI[of _ h])
  then show ?thesis unfolding run by blast
qed

lemma retain_appends:
  assumes "lance_laws (me_lance env) rows means" and "lance_up (me_lance env)"
    and "memory_retain env content metadata tags p db = (Inr i, db')"
  obtains meta ts vec where "tag_list env tags = Inr ts" "dict_of env metadata = Inr meta"
    "rows p db' = rows p db @ [new_row env (strip content) meta ts vec db]"
    "mr_id (new_row env (strip content) meta ts vec db) = i"
  using assms(3)
proof (cases rule: retain_cases)
  case (Stored meta ts vec db1)
  have "rows p db = []" if "p \<notin> set (table_names (me_lance env) db)"
    using that up_table[OF assms(2,1), of p db] by blast
  then have "rows p db1 = rows p db"
    using open_bank_changes[OF assms(1) Stored(6)] by (auto simp: changes_only_def split: if_splits)
  then have "rows p db' = rows p db @ [new_row env (strip content) meta ts vec db]"
    using lance_lawsD(3)[OF assms(1) Stored(7)] by (simp add: changes_only_def)
  with Stored(1,3,4) that show ?thesis by (simp add: new_row_def)
qed simp

text \<open>
  C32: a fact that is stored can be counted, found and forgotten.  While the database works, a stored fact, the
  first of its profile too, is appended to the profile's table under the identifier that is returned, with its text
  and its tags stripped, and the count grows by one.  As long as the table stays below the threshold of the index, so
  that the search is exhaustive, a recall without a filter that asks for as many facts as there are finds it, whatever
  the question, if it can be embedded.
  Forgetting the identifier removes just this fact and says so; the identifier is assumed to be a fresh one, not
  empty and without a quote, as \<open>uuid4\<close> gives.
\<close>

theorem stored_fact_is_forgotten:
  assumes "lance_laws (me_lance env) rows means" and "id_meaning means" and "lance_up (me_lance env)"
    and "memory_retain env content metadata tags p db = (Inr i, db')"
    and "CHR 0x27 \<notin> set i" and "i \<noteq> []" and "\<forall>r \<in> set (rows p db). mr_id r \<noteq> i"
  shows "(\<exists>ts vec meta. tag_list env tags = Inr ts \<and> dict_of env metadata = Inr meta \<and>
      rows p db' = rows p db @ [new_row env (strip content) meta ts vec db] \<and>
      (\<forall>query v top_k. flat_search (me_lance env) rows p db' \<and> int (length (rows p db')) < me_threshold env \<and>
          embed_text env query = Inr v \<and> int (length (rows p db')) \<le> top_k \<longrightarrow>
        (\<exists>found. fst (memory_recall env query top_k JNull p db') = Inr found \<and>
          (\<exists>m \<in> set found. mh_id m = i \<and> mh_content m = strip content \<and> mh_tags m = ts)))) \<and>
    memory_count env p db' = Suc (length (rows p db)) \<and>
    fst (memory_forget env i p db') \<and> rows p (snd (memory_forget env i p db')) = rows p db"
proof -
  obtain meta ts vec where new: "tag_list env tags = Inr ts" "dict_of env metadata = Inr meta"
      "rows p db' = rows p db @ [new_row env (strip content) meta ts vec db]"
      "mr_id (new_row env (strip content) meta ts vec db) = i"
    by (rule retain_appends[OF assms(1,3,4)])
  let ?row = "new_row env (strip content) meta ts vec db"
  have table: "p \<in> set (table_names (me_lance env) db')" "lc_open (me_lance env) p db' = Inr ()"
      "lc_count (me_lance env) p db' = Inr (length (rows p db'))"
    using up_table[OF assms(3,1), of p db'] new(3) by auto
  obtain db2 where db2: "lc_delete (me_lance env) p (id_where i) db' = Inr db2"
      "lc_count (me_lance env) p db2 = Inr (length (rows p db2))"
    using up_table[OF assms(3,1), of p db'] new(3) by auto
  have "rows p db2 = filter (\<lambda>r. \<not> means (id_where i) r) (rows p db')"
    using lance_lawsD(4)[OF assms(1) db2(1)] by (simp add: changes_only_def)
  also have "\<dots> = filter (\<lambda>r. mr_id r \<noteq> i) (rows p db')"
    using assms(2,5) by (simp add: id_meaning_def)
  also have "\<dots> = rows p db" using new(3,4) assms(7) by simp
  finally have gone: "rows p db2 = rows p db" .
  have forgotten: "memory_forget env i p db' = (True, db2)"
    using table db2 gone new(3) assms(6) by (simp add: memory_forget_def open_bank_def Let_def)
  have found: "\<exists>found. fst (memory_recall env query top_k JNull p db') = Inr found \<and>
      (\<exists>m \<in> set found. mh_id m = i \<and> mh_content m = strip content \<and> mh_tags m = ts)"
    if "flat_search (me_lance env) rows p db'" "int (length (rows p db')) < me_threshold env"
      "embed_text env query = Inr v" "int (length (rows p db')) \<le> top_k" for query v top_k
    using flat_recall[OF that(1) _ table(1,2) _ that(3,4), of ?row] that(2) table(3) new(3,4)
    by (simp add: ensure_index_def new_row_def)
  have count: "memory_count env p db' = Suc (length (rows p db))"
    using table new(3) by (simp add: memory_count_def open_bank_def)
  show ?thesis
    using new(1-3) found forgotten gone count by (intro conjI exI[of _ ts] exI[of _ vec] exI[of _ meta] allI impI) auto
qed

lemma demo_id_meaning: "id_meaning demo_means"
proof -
  have "id_where i = id_where j \<longleftrightarrow> i = j" for i j by (simp add: id_where_def quoted_def)
  moreover have "CHR 0x27 \<in> set always_true_id" by (simp add: always_true_id_def)
  moreover have "id_where i \<noteq> tag_where [t]" for i t by (simp add: id_where_def tag_where_def)
  ultimately show ?thesis by (auto simp: id_meaning_def demo_means_def)
qed

theorem stored_fact_is_forgotten_witness:
  "fst (memory_forget demo_bank ''f0'' ''p'' (snd (memory_retain demo_bank ''tea'' JNull JNull ''p'' []))) \<and>
   (\<exists>found. fst (memory_recall demo_bank ''what to drink?'' 1 JNull ''p'' (snd (memory_retain demo_bank ''tea'' JNull JNull ''p'' []))) =
      Inr found \<and> (\<exists>m \<in> set found. mh_id m = ''f0'' \<and> mh_content m = ''tea''))"
proof -
  let ?db = "snd (memory_retain demo_bank ''tea'' JNull JNull ''p'' [])"
  have "fst (memory_retain demo_bank ''tea'' JNull JNull ''p'' []) = Inr ''f0''" and tea: "strip ''tea'' = ''tea''" by code_simp+
  then have run: "memory_retain demo_bank ''tea'' JNull JNull ''p'' [] = (Inr ''f0'', ?db)"
    by (simp add: prod_eq_iff)
  have flat: "flat_search demo_lance demo_rows ''p'' d" for d
    by (auto simp: flat_search_def demo_lance_def demo_rows_def image_image)
  have one: "length (demo_rows ''p'' ?db) = 1" by code_simp
  note kept = stored_fact_is_forgotten[of demo_bank demo_rows demo_means, OF _ demo_id_meaning _ run]
  have "embed_text demo_bank ''what to drink?'' = Inr ()" by (simp add: embed_text_def)
  moreover have "lance_laws (me_lance demo_bank) demo_rows demo_means" "lance_up (me_lance demo_bank)"
      "flat_search (me_lance demo_bank) demo_rows ''p'' ?db" "int (length (demo_rows ''p'' ?db)) < me_threshold demo_bank"
      "int (length (demo_rows ''p'' ?db)) \<le> 1"
    using demo_lance_laws demo_lance_up flat[of ?db] one by simp_all
  moreover have "CHR 0x27 \<notin> set ''f0''" "''f0'' \<noteq> []" "\<forall>r \<in> set (demo_rows ''p'' []). mr_id r \<noteq> ''f0''"
    by (simp_all add: demo_rows_def)
  ultimately show ?thesis using kept unfolding tea by blast
qed

text \<open>
  C29: an identifier with a quote forgets everything.  The identifier of a request to forget is put between quotes
  into the condition of the deletion as it is.  With an identifier that closes the quote and adds a condition that is
  always true, every fact of the profile is deleted, and the answer says that a memory was removed.
\<close>

theorem quoted_identifier_forgets_everything:
  assumes "lance_laws (me_lance env) rows means" and "lance_up (me_lance env)" and "rows p db \<noteq> []"
    and "\<forall>r. means (id_where always_true_id) r"
  shows "case memory_write env p ''forget'' [(''memory_id'', JStr always_true_id)] db of (reply, db') \<Rightarrow>
    reply = (200, Deleted True) \<and> rows p db' = []"
proof -
  have field: "text_field [(''memory_id'', JStr always_true_id)] ''memory_id'' = Inr always_true_id" "always_true_id \<noteq> []"
    by code_simp+
  note table = up_table[where lc = "me_lance env" and p = p and db = db, OF assms(2,1,3)]
  obtain db' where db': "lc_delete (me_lance env) p (id_where always_true_id) db = Inr db'"
      "lc_count (me_lance env) p db' = Inr (length (rows p db'))"
    using table by blast
  have gone: "rows p db' = []"
    using lance_lawsD(4)[OF assms(1) db'(1)] assms(4) by (simp add: changes_only_def)
  have "memory_forget env always_true_id p db = (True, db')"
    using table db' gone field(2) assms(3) by (simp add: memory_forget_def open_bank_def Let_def)
  then show ?thesis using field gone by (simp add: memory_write_def)
qed

theorem quoted_identifier_forgets_everything_witness:
  "case memory_write demo_bank ''p'' ''forget'' [(''memory_id'', JStr always_true_id)] two_facts of (reply, db') \<Rightarrow>
    reply = (200, Deleted True) \<and> demo_rows ''p'' two_facts \<noteq> [] \<and> demo_rows ''p'' db' = []"
proof -
  have "demo_rows ''p'' two_facts \<noteq> []" by code_simp
  moreover from this have "case memory_write demo_bank ''p'' ''forget'' [(''memory_id'', JStr always_true_id)] two_facts of
      (reply, db') \<Rightarrow> reply = (200, Deleted True) \<and> demo_rows ''p'' db' = []"
    using demo_lance_laws demo_lance_up
    by (intro quoted_identifier_forgets_everything[of demo_bank demo_rows demo_means]) (simp_all add: demo_means_def)
  ultimately show ?thesis by auto
qed

text \<open>
  Also: a bank that is not listed is overwritten.  A table is opened when the listing of the tables names it and created
  otherwise, replacing what is there; a listing that fails counts as empty.  So a fact that is stored while the
  listing fails replaces every earlier fact of the profile.
\<close>

theorem unlisted_bank_is_overwritten:
  assumes "lance_laws (me_lance env) rows means" and "lc_names (me_lance env) db = Inl failure"
    and "memory_retain env content metadata tags p db = (Inr i, db')"
  shows "map mr_id (rows p db') = [i]"
  using assms(3)
proof (cases rule: retain_cases)
  case (Stored meta ts vec db1)
  have "rows p db1 = []"
    using open_bank_changes[OF assms(1) Stored(6)] assms(2) by (simp add: changes_only_def table_names_def)
  then show ?thesis
    using lance_lawsD(3)[OF assms(1) Stored(7)] Stored(1) by (simp add: changes_only_def new_row_def)
qed simp

definition blind_bank :: "(demo_db, unit) memory_env" where
  "blind_bank = demo_bank\<lparr>me_lance := demo_lance\<lparr>lc_names := (\<lambda>db. Inl ''timed out'')\<rparr>\<rparr>"

theorem unlisted_bank_is_overwritten_witness:
  "length (demo_rows ''p'' two_facts) = 2 \<and>
   map mr_id (demo_rows ''p'' (snd (memory_retain blind_bank ''c'' JNull JNull ''p'' two_facts))) = [''f2'']"
proof -
  have "lance_laws (me_lance blind_bank) demo_rows demo_means"
    using demo_lance_laws by (simp add: lance_laws_def blind_bank_def)
  moreover have "memory_retain blind_bank ''c'' JNull JNull ''p'' two_facts =
      (Inr ''f2'', snd (memory_retain blind_bank ''c'' JNull JNull ''p'' two_facts))"
  proof -
    have "fst (memory_retain blind_bank ''c'' JNull JNull ''p'' two_facts) = Inr ''f2''" by code_simp
    then show ?thesis by (simp add: prod_eq_iff)
  qed
  moreover have "length (demo_rows ''p'' two_facts) = 2" by code_simp
  ultimately show ?thesis
    using unlisted_bank_is_overwritten[of blind_bank demo_rows demo_means two_facts "''timed out''"]
    by (simp add: blind_bank_def)
qed

lemma similarity_mono: "d \<le> d' \<Longrightarrow> similarity d' \<le> similarity d"
  by (auto simp: similarity_def intro!: divide_left_mono mult_pos_pos)

lemma score_bounds: "0 \<le> mh_score (hit_of env h) \<and> mh_score (hit_of env h) \<le> 1"
proof -
  have "0 \<le> similarity d" "similarity d \<le> 1" for d by (simp_all add: similarity_def)
  moreover have "py_round 4 1 = 1" using round_even_of_int[of 10000] by (simp add: py_round_def)
  ultimately show ?thesis
    using py_round_mono[of "similarity (lh_distance h)" 1 4] by (simp add: hit_of_def py_round_nonneg)
qed

lemma scores_sorted:
  "sorted (map lh_distance hs) \<Longrightarrow> sorted_wrt (\<ge>) (map (\<lambda>h. mh_score (hit_of env h)) hs)"
  by (induction hs) (auto simp: hit_of_def intro!: py_round_mono similarity_mono)

lemma recalled_rows:
  assumes "lance_laws (me_lance env) rows means" and "memory_recall env query top_k tags p db = (Inr found, db')"
  shows "int (length found) \<le> max top_k 0 \<and> sorted_wrt (\<ge>) (map mh_score found) \<and> rows p db' = rows p db \<and>
    (\<forall>m \<in> set found. 0 \<le> mh_score m \<and> mh_score m \<le> 1 \<and>
      (\<exists>r \<in> set (rows p db). mh_id m = mr_id r \<and> mh_content m = mr_content r \<and> mh_tags m = mr_tags r \<and>
        mh_metadata m = decode_meta env (mr_metadata r)))"
proof -
  have same: "rows p (ensure_index env p db) = rows p db" "rows p db' = rows p db"
    using ensure_index_changes[OF assms(1)] recall_changes[OF assms] by (auto simp: changes_only_def)
  consider "found = []" | cond vec hs where "found = map (hit_of env) hs"
      "lc_search (me_lance env) p vec cond top_k (ensure_index env p db) = Inr hs"
    using assms(2) unfolding memory_recall_def filtered_search_def Let_def
    by (auto split: if_splits sum.splits list.splits)
  then show ?thesis
  proof cases
    case 2
    have "good_hits (rows p db) means cond top_k hs"
      using lance_lawsD(7)[OF assms(1) 2(2)] same by simp
    then show ?thesis
      using scores_sorted[of hs env] score_bounds[of env] same
      by (force simp: 2(1) good_hits_def hit_of_def comp_def)
  qed (simp add: same)
qed

text \<open>
  Also: what is recalled belongs to the profile, best first.  A recall gives at most as many facts as asked for, each of
  them stored in the table of the profile with just this text, with scores between 0 and 1 that do not increase; and
  it changes no fact.
\<close>

theorem recalled_facts_belong_to_the_profile:
  assumes "lance_laws (me_lance env) rows means" and "memory_recall env query top_k tags p db = (Inr found, db')"
  shows "int (length found) \<le> max top_k 0 \<and> sorted_wrt (\<ge>) (map mh_score found) \<and> rows p db' = rows p db \<and>
    (\<forall>m \<in> set found. 0 \<le> mh_score m \<and> mh_score m \<le> 1 \<and>
      (\<exists>r \<in> set (rows p db). mh_id m = mr_id r \<and> mh_content m = mr_content r \<and> mh_tags m = mr_tags r))"
  using recalled_rows[OF assms] by blast

theorem recalled_facts_belong_to_the_profile_witness:
  "list_all (\<lambda>m. mh_score m \<le> 1) (projr (fst (memory_recall demo_bank ''q'' 5 JNull ''p'' two_facts)))"
proof -
  obtain found db' where run: "memory_recall demo_bank ''q'' 5 JNull ''p'' two_facts = (Inr found, db')"
  proof -
    have "\<not> isl (fst (memory_recall demo_bank ''q'' 5 JNull ''p'' two_facts))" by code_simp
    then show ?thesis
      using that by (cases "memory_recall demo_bank ''q'' 5 JNull ''p'' two_facts"; cases "fst (memory_recall demo_bank ''q'' 5 JNull ''p'' two_facts)") auto
  qed
  then show ?thesis
    using recalled_facts_belong_to_the_profile[of demo_bank demo_rows demo_means "''q''" 5 JNull "''p''" two_facts found db']
      demo_lance_laws by (simp add: list_all_iff)
qed

definition heading :: string where
  "heading = ''The following facts were recalled from this profile'' @ [CHR 0x27] @ ''s memory and may be relevant:'' @ [CHR 0x0A]"

definition led_by :: "string \<Rightarrow> json list \<Rightarrow> json \<Rightarrow> bool" where
  "led_by block ms new \<longleftrightarrow> new = JList (JObj [(''role'', JStr ''system''), (''content'', JStr block)] # ms) \<or>
     (\<exists>d later existing. ms = JObj d # later \<and> dget d ''role'' JNull = JStr ''system'' \<and>
        dget d ''content'' (JStr []) = JStr existing \<and>
        new = JList (JObj (AList.update ''content''
          (JStr (if existing = [] then block else block @ [CHR 0x0A, CHR 0x0A] @ existing)) d) # later))"

lemma with_context_led: "with_context block ms = Inr new \<Longrightarrow> led_by block ms new"
  by (cases ms; cases "hd ms")
    (auto simp: with_context_def led_by_def rbind_def Let_def split: sum.splits json.splits if_splits)

text \<open>The line of a fact: a dash, the host of its metadata in brackets when there is one, and its text, stripped.\<close>

definition host_mark :: "('db, 'v) memory_env \<Rightarrow> json \<Rightarrow> string" where
  "host_mark env meta = (case meta of
      JObj d \<Rightarrow> (let host = dget d ''host'' JNull in if truthy host then ''['' @ str_of env host @ ''] '' else [])
    | _ \<Rightarrow> [])"

definition line_of :: "('db, 'v) memory_env \<Rightarrow> 'v memory_row \<Rightarrow> string" where
  "line_of env r = ''- '' @ host_mark env (decode_meta env (mr_metadata r)) @ strip (mr_content r)"

lemma fact_line_of:
  assumes "fact_line env m = Inr ls" and "line \<in> set ls"
  shows "line = ''- '' @ host_mark env (mh_metadata m) @ strip (mh_content m) \<and> strip (mh_content m) \<noteq> []"
  using assms
  by (cases "strip (mh_content m) = []"; cases "mh_metadata m")
    (auto simp: fact_line_def host_mark_def rbind_def Let_def split: sum.splits if_splits)

abbreviation fact_lines :: "('db, 'v) memory_env \<Rightarrow> 'v memory_row list \<Rightarrow> string set" where
  "fact_lines env table \<equiv> line_of env ` {r \<in> set table. strip (mr_content r) \<noteq> []}"

lemma context_block_lines:
  assumes "context_block env memories = Inr block" and "block \<noteq> []"
    and "\<forall>m \<in> set memories. \<exists>r \<in> set table. mh_content m = mr_content r \<and> mh_metadata m = decode_meta env (mr_metadata r)"
  shows "\<exists>lines. lines \<noteq> [] \<and> block = heading @ join [CHR 0x0A] lines \<and> set lines \<subseteq> fact_lines env table"
proof -
  obtain lss where lss: "rmap (fact_line env) memories = Inr lss" "concat lss \<noteq> []"
      "block = heading @ join [CHR 0x0A] (concat lss)"
    using assms(1,2) by (auto simp: context_block_def heading_def rbind_def split: sum.splits if_splits)
  have "list_all2 (\<lambda>m ls. fact_line env m = Inr ls) memories lss" using lss(1) by (simp add: rmap_Inr)
  then have src: "\<exists>m \<in> set memories. fact_line env m = Inr ls" if "ls \<in> set lss" for ls
    using that by (induction rule: list_all2_induct) auto
  have "line \<in> fact_lines env table" if mem: "line \<in> set (concat lss)" for line
  proof -
    obtain ls m where m: "line \<in> set ls" "m \<in> set memories" "fact_line env m = Inr ls"
      using mem src unfolding set_concat by blast
    obtain r where r: "r \<in> set table" "mh_content m = mr_content r" "mh_metadata m = decode_meta env (mr_metadata r)"
      using assms(3) m(2) by blast
    have "line = line_of env r" "strip (mr_content r) \<noteq> []"
      using fact_line_of[OF m(3,1)] unfolding r(2,3) line_of_def by (rule conjunct1, rule conjunct2)
    with r(1) show ?thesis by blast
  qed
  then have "set (concat lss) \<subseteq> fact_lines env table" by blast
  with lss(2,3) show ?thesis by blast
qed

text \<open>
  C38: what is injected are facts of the profile.  With the harness on, the chain gets the messages of the client
  unchanged, but for one block of text at the front: a new leading system message, or the beginning of the text of
  the system message that leads already.  Every entry of the block below its heading is a fact of the profile's own
  table, written as a dash, the host that the fact's metadata names, in brackets, if it names one, and the fact's
  text, stripped.
\<close>

theorem injected_facts_are_the_profiles:
  assumes "lance_laws (me_lance env) rows means" and "chain_recall env read_float up plugins p db (JList ms) = Some new"
  shows "new = JList ms \<or> (\<exists>lines. lines \<noteq> [] \<and>
    set lines \<subseteq> line_of env ` {r \<in> set (rows p db). strip (mr_content r) \<noteq> []} \<and>
    led_by (heading @ join [CHR 0x0A] lines) ms new)"
proof -
  obtain rs where rs: "fst (inject_memory_context env up rs p (JList ms) db) = Inr new"
    using assms(2) by (auto simp: chain_recall_def split: sum.splits if_splits)
  have recalled: "\<forall>m \<in> set memories. \<exists>r \<in> set (rows p db).
      mh_content m = mr_content r \<and> mh_metadata m = decode_meta env (mr_metadata r)"
    if run: "recall_for_request env up rs p (JList ms) db = (Inr memories, db')" for memories db'
  proof -
    consider "memories = []" | query found where
        "memory_recall env query (rs_top_k rs) (rs_tag_filter rs) p db = (Inr found, db')" "set memories \<subseteq> set found"
      using run unfolding recall_for_request_def by (auto split: if_splits sum.splits prod.splits)
    then show ?thesis
    proof cases
      case (2 query found)
      then show ?thesis using recalled_rows[OF assms(1) 2(1)] by blast
    qed simp
  qed
  obtain r db' where run: "recall_for_request env up rs p (JList ms) db = (r, db')"
    by (cases "recall_for_request env up rs p (JList ms) db")
  show ?thesis
  proof (cases r)
    case (Inl e)
    then show ?thesis using rs run by (auto simp: inject_memory_context_def split: if_splits)
  next
    case (Inr memories)
    have kept: "message_list (JList ms) = Inr ms" by (simp add: message_list_def)
    consider "new = JList ms" | block where "context_block env memories = Inr block" "block \<noteq> []" "with_context block ms = Inr new"
      using rs run Inr kept unfolding inject_memory_context_def
      by (auto simp: rbind_def split: if_splits sum.splits)
    then show ?thesis
    proof cases
      case 2
      then show ?thesis
        using context_block_lines[OF 2(1,2) recalled[OF run[unfolded Inr]]] with_context_led by blast
    qed simp
  qed
qed

theorem injected_facts_are_the_profiles_witness:
  "\<exists>new lines. chain_recall demo_bank (\<lambda>t. None) True (JObj [(''memory'', JObj [(''auto_recall'', JBool True)])]) ''p'' two_facts
      (JList [JObj [(''role'', JStr ''user''), (''content'', JStr ''hi'')]]) = Some new \<and> lines \<noteq> [] \<and>
    set lines \<subseteq> {''- a'', ''- b''} \<and>
    led_by (heading @ join [CHR 0x0A] lines) [JObj [(''role'', JStr ''user''), (''content'', JStr ''hi'')]] new"
proof -
  let ?ms = "[JObj [(''role'', JStr ''user''), (''content'', JStr ''hi'')]]"
  let ?run = "chain_recall demo_bank (\<lambda>t. None) True (JObj [(''memory'', JObj [(''auto_recall'', JBool True)])]) ''p'' two_facts
      (JList ?ms)"
  have "?run \<noteq> None \<and> ?run \<noteq> Some (JList ?ms)" by code_simp
  then obtain new where new: "?run = Some new" "new \<noteq> JList ?ms" by auto
  have lines: "line_of demo_bank ` {r \<in> set (demo_rows ''p'' two_facts). strip (mr_content r) \<noteq> []} \<subseteq> {''- a'', ''- b''}"
  proof -
    have "list_all (\<lambda>r. line_of demo_bank r \<in> {''- a'', ''- b''}) (demo_rows ''p'' two_facts)" by code_simp
    then show ?thesis by (auto simp: list_all_iff)
  qed
  have "lance_laws (me_lance demo_bank) demo_rows demo_means" using demo_lance_laws by simp
  from injected_facts_are_the_profiles[OF this new(1)] obtain ls where ls: "ls \<noteq> []"
      "set ls \<subseteq> line_of demo_bank ` {r \<in> set (demo_rows ''p'' two_facts). strip (mr_content r) \<noteq> []}"
      "led_by (heading @ join [CHR 0x0A] ls) ?ms new"
    using new(2) by blast
  from subset_trans[OF ls(2) lines] ls(1,3) new(1) show ?thesis by blast
qed

text \<open>
  Also: the memory endpoints and the chat ask for the same key.  A request passes the check of the memory endpoints
  exactly when the chat would authenticate it, a chat that is only refused for a spent budget included; both leave the
  same stamp on the key.
\<close>

theorem memory_asks_for_the_same_key:
  "(fst (memory_auth kenv manager rc (client_keys bl)) = None \<longleftrightarrow>
     (case fst (authenticate kenv manager rc bl) of Inr _ \<Rightarrow> True | Inl e \<Rightarrow> exn_cls e = CreditExhaustedError)) \<and>
   client_keys (snd (authenticate kenv manager rc bl)) = snd (memory_auth kenv manager rc (client_keys bl))"
  unfolding memory_auth_def authenticate_def Let_def
  by (simp add: lcp_error_def split: option.split prod.split)

text \<open>
  Also: a blank part hides the question.  The newest user message that has text counts, says the documentation; a
  message of parts whose texts are only space is taken as well, and its empty text means that nothing is recalled.
\<close>

lemma blank_parts_hide_the_question:
  "latest_user_text (JList [JObj [(''role'', JStr ''user''), (''content'', JStr ''where are the keys?'')],
     JObj [(''role'', JStr ''user''), (''content'', JList [JObj [(''text'', JStr '' '')]])]]) = Inr [] \<and>
   latest_user_text (JList [JObj [(''role'', JStr ''user''), (''content'', JStr ''where are the keys?'')],
     JObj [(''role'', JStr ''user''), (''content'', JStr '' '')]]) = Inr ''where are the keys?''"
  by code_simp

text \<open>
  Also: a filter that is refused filters nothing.  When the database refuses the condition for the tags, as for a tag
  that contains a quote, or the tags cannot be iterated, the recall is the recall without a filter.
\<close>

theorem refused_filter_filters_nothing:
  assumes "case tag_list env tags of Inl _ \<Rightarrow> True
    | Inr ts \<Rightarrow> \<forall>v d. \<exists>t. lc_search (me_lance env) p v (Some (tag_where ts)) top_k d = Inl t"
  shows "memory_recall env query top_k tags p db = memory_recall env query top_k JNull p db"
proof -
  have "filtered_search env v top_k tags p d = filtered_search env v top_k JNull p d" for v d
  proof (cases "tag_list env tags")
    case (Inr ts)
    then obtain t where "lc_search (me_lance env) p v (Some (tag_where ts)) top_k d = Inl t" using assms by auto
    then show ?thesis using Inr by (cases ts) (simp_all add: filtered_search_def tag_list_def[of env JNull] Let_def)
  qed (simp add: filtered_search_def tag_list_def[of env JNull])
  then show ?thesis by (simp only: memory_recall_def)
qed

theorem refused_filter_filters_nothing_witness:
  "memory_recall demo_bank ''q'' 5 (JNum 7) ''p'' two_facts = memory_recall demo_bank ''q'' 5 JNull ''p'' two_facts"
  by (rule refused_filter_filters_nothing) (simp add: tag_list_def)

end
