(* ===== verification/Conversations.thy ===== *)
theory Conversations
  imports Log_Tables Json_Values
begin

section \<open>Conversations of the request log (src/api/work\_conversations.py)\<close>

text \<open>
  The key that ties requests and routing decisions of the cost database to conversations: the stamp of a call that has
  just been logged, the assignment of older rows, the table of conversations that is drawn from the requests, and the
  views.  The readers of times (Python's for ISO texts, with the flag that tells whether a zone was given, and those of
  SQLite), the hash and the printing of a cost are arguments.  Texts are ordered by their characters, and rows with
  equal keys keep their order.  A count or a price that is NULL is \<open>None\<close>.
\<close>

record log_env =
  ct_iso :: "string \<Rightarrow> (bool \<times> real) option"
  ct_seconds :: "string \<Rightarrow> int option"
  ct_julian :: "string \<Rightarrow> real option"
  ct_hash :: "string \<Rightarrow> string"
  ct_fixed4 :: "real \<Rightarrow> string"

record conv_request =
  cq_id :: int
  cq_conv :: "string option"
  cq_ts :: string
  cq_profile :: string
  cq_model :: string
  cq_prompt :: "int option"
  cq_completion :: "int option"
  cq_cost :: "real option"
  cq_failed :: bool

record conv_decision =
  cd_id :: int
  cd_conv :: "string option"
  cd_ts :: string
  cd_profile :: string
  cd_task :: string

record conversation =
  cc_name :: string
  cc_summary :: string
  cc_profile :: string
  cc_model :: string
  cc_calls :: nat
  cc_tokens :: int
  cc_cost :: real
  cc_errors :: nat
  cc_first :: string
  cc_last :: string
  cc_generated :: string

record conv_db =
  cv_requests :: "conv_request list"
  cv_decisions :: "conv_decision list"
  cv_conversations :: "(string, conversation) dict"

subsection \<open>Older rows\<close>

definition BURST_GAP_SECONDS :: real where
  "BURST_GAP_SECONDS = 300"

definition burstable :: "conv_request \<Rightarrow> conv_request option \<Rightarrow> real \<Rightarrow> bool" where
  "burstable r prev gap = (case prev of
      None \<Rightarrow> True
    | Some p \<Rightarrow> cq_profile r \<noteq> cq_profile p \<or> cq_model r \<noteq> cq_model p \<or> BURST_GAP_SECONDS < gap)"

definition backfill_id :: "log_env \<Rightarrow> string \<Rightarrow> string \<Rightarrow> string \<Rightarrow> string" where
  "backfill_id env profile model first_ts = CHR ''c'' # take 10 (ct_hash env (profile @ ''|'' @ model @ ''|'' @ first_ts))"

text \<open>A time with a zone cannot be subtracted from one without.\<close>

definition gap_of :: "log_env \<Rightarrow> conv_request option \<Rightarrow> conv_request \<Rightarrow> real res" where
  "gap_of env prev r = (case prev of
      None \<Rightarrow> Inr 0
    | Some p \<Rightarrow> (case (ct_iso env (cq_ts r), ct_iso env (cq_ts p)) of
        (Some (zone, t), Some (zone', u)) \<Rightarrow> if zone = zone' then Inr (t - u) else Inl TypeError
      | _ \<Rightarrow> Inr (BURST_GAP_SECONDS + 1)))"

fun assign_bursts :: "log_env \<Rightarrow> conv_request option \<Rightarrow> string \<Rightarrow> conv_request list \<Rightarrow> (int \<times> string) list res" where
  "assign_bursts env prev cur [] = Inr []"
| "assign_bursts env prev cur (r # rows) =
     rbind (gap_of env prev r) (\<lambda>gap.
       let cur' = (if burstable r prev gap then backfill_id env (cq_profile r) (cq_model r) (cq_ts r) else cur)
       in rbind (assign_bursts env (Some r) cur' rows) (\<lambda>ids. Inr ((cq_id r, cur') # ids)))"

definition legacy_order :: "conv_request list \<Rightarrow> conv_request list" where
  "legacy_order rows = sort_key cq_profile (sort_key cq_model (sort_key cq_ts rows))"

definition stamp_requests :: "(int \<times> string) list \<Rightarrow> conv_request list \<Rightarrow> conv_request list" where
  "stamp_requests ids rows = map (\<lambda>r. case map_of ids (cq_id r) of None \<Rightarrow> r | Some c \<Rightarrow> r\<lparr>cq_conv := Some c\<rparr>) rows"

text \<open>The nearest request of the profile that has a conversation, within ten minutes; a distance that is NULL is first.\<close>

definition in_window :: "log_env \<Rightarrow> int \<Rightarrow> string \<Rightarrow> string \<Rightarrow> bool" where
  "in_window env delta mid ts = (case (ct_seconds env mid, ct_seconds env ts) of
      (Some s, Some t) \<Rightarrow> s - delta \<le> t \<and> t \<le> s + delta | _ \<Rightarrow> False)"

definition julian_gap :: "log_env \<Rightarrow> string \<Rightarrow> string \<Rightarrow> real" where
  "julian_gap env a b = (case (ct_julian env a, ct_julian env b) of (Some x, Some y) \<Rightarrow> \<bar>x - y\<bar> | _ \<Rightarrow> - 1)"

definition nearest_conversation :: "log_env \<Rightarrow> conv_request list \<Rightarrow> conv_decision \<Rightarrow> string option" where
  "nearest_conversation env reqs d =
     (case sort_key (\<lambda>r. julian_gap env (cq_ts r) (cd_ts d)) (filter (\<lambda>r. cq_profile r = cd_profile d \<and>
        cq_conv r \<noteq> None \<and> in_window env 600 (cd_ts d) (cq_ts r)) reqs) of
        [] \<Rightarrow> None | r # _ \<Rightarrow> cq_conv r)"

definition stamp_decision :: "log_env \<Rightarrow> conv_request list \<Rightarrow> conv_decision \<Rightarrow> conv_decision" where
  "stamp_decision env reqs d =
     (if cd_conv d \<noteq> None then d
      else d\<lparr>cd_conv := Some (case nearest_conversation env reqs d of
        Some c \<Rightarrow> c | None \<Rightarrow> backfill_id env (cd_profile d) ''__routing__'' (cd_ts d))\<rparr>)"

definition backfill_conversations :: "log_env \<Rightarrow> conv_db \<Rightarrow> (nat \<times> nat) res \<times> conv_db" where
  "backfill_conversations env db =
     (case assign_bursts env None [] (legacy_order (filter (\<lambda>r. cq_conv r = None) (cv_requests db))) of
        Inl e \<Rightarrow> (Inl e, db)
      | Inr ids \<Rightarrow>
         (let reqs = stamp_requests ids (cv_requests db)
          in (Inr (length ids, length (filter (\<lambda>d. cd_conv d = None) (cv_decisions db))),
              db\<lparr>cv_requests := reqs, cv_decisions := map (stamp_decision env reqs) (cv_decisions db)\<rparr>)))"

subsection \<open>The stamp of a call\<close>

definition stamp_new :: "log_env \<Rightarrow> int \<Rightarrow> string \<Rightarrow> string \<Rightarrow> string \<Rightarrow> conv_db \<Rightarrow> conv_db" where
  "stamp_new env request_id cid profile ts db =
     db\<lparr>cv_requests := map (\<lambda>r. if cq_id r = request_id \<and> cq_conv r = None then r\<lparr>cq_conv := Some cid\<rparr> else r)
          (cv_requests db),
        cv_decisions := map (\<lambda>d. if cd_conv d = None \<and> cd_profile d = profile \<and> in_window env 30 ts (cd_ts d)
          then d\<lparr>cd_conv := Some cid\<rparr> else d) (cv_decisions db)\<rparr>"

subsection \<open>The table of conversations\<close>

definition CONV_SUMMARY_CAP :: nat where
  "CONV_SUMMARY_CAP = 240"

text \<open>\<open>text.split()\<close>.  Collapsing spaces before it changes nothing.\<close>

fun split_words :: "string \<Rightarrow> string list" where
  "split_words [] = []"
| "split_words (c # cs) =
     (if is_space c then split_words cs
      else case cs of
        [] \<Rightarrow> [[c]]
      | d # _ \<Rightarrow> if is_space d then [c] # split_words cs
                 else (case split_words cs of [] \<Rightarrow> [[c]] | w # ws \<Rightarrow> (c # w) # ws))"

definition generate_name :: "string option \<Rightarrow> string \<Rightarrow> string option \<Rightarrow> string \<Rightarrow> string" where
  "generate_name head cid task last_seen =
     (let words = (case head of None \<Rightarrow> []
            | Some h \<Rightarrow> take 7 (split_words (filter (\<lambda>c. c \<notin> set ''*_`~#>'') h)));
          date = take 10 last_seen
      in if words \<noteq> [] then take 48 (join '' '' words)
         else case task of
           Some t \<Rightarrow> if t = [] then ''Conversation '' @ cid else if date \<noteq> [] then t @ '' '' @ date else t
         | None \<Rightarrow> ''Conversation '' @ cid)"

definition latest_task :: "conv_decision list \<Rightarrow> string \<Rightarrow> string option" where
  "latest_task decs cid = (case sort_key cd_ts (filter (\<lambda>d. cd_conv d = Some cid) decs) of
      [] \<Rightarrow> None | ds \<Rightarrow> Some (cd_task (last ds)))"

type_synonym group_key = "string \<times> string \<times> string"

definition group_key_of :: "conv_request \<Rightarrow> group_key option" where
  "group_key_of r = map_option (\<lambda>c. (c, cq_profile r, cq_model r)) (cq_conv r)"

definition group_rows :: "conv_request list \<Rightarrow> group_key \<Rightarrow> conv_request list" where
  "group_rows reqs k = filter (\<lambda>r. group_key_of r = Some k) reqs"

text \<open>The groups in the order of their keys, as SQLite makes them; \<open>sum_known\<close> is \<open>SUM(...) or 0\<close>.\<close>

definition group_keys :: "conv_request list \<Rightarrow> group_key list" where
  "group_keys reqs = sort (remdups (List.map_filter group_key_of reqs))"

definition sum_known :: "'a::comm_monoid_add option list \<Rightarrow> 'a" where
  "sum_known xs = sum_list (List.map_filter id xs)"

definition row_tokens :: "conv_request \<Rightarrow> int option" where
  "row_tokens r = (case (cq_prompt r, cq_completion r) of (Some p, Some c) \<Rightarrow> Some (p + c) | _ \<Rightarrow> None)"

text \<open>The columns every sync writes.\<close>

definition with_totals :: "conv_request list \<Rightarrow> group_key \<Rightarrow> conversation \<Rightarrow> conversation" where
  "with_totals reqs k c =
     (let g = group_rows reqs k; times = sort (map cq_ts g)
      in c\<lparr>cc_profile := fst (snd k), cc_model := snd (snd k), cc_calls := length g,
           cc_tokens := sum_known (map row_tokens g), cc_cost := sum_known (map cq_cost g),
           cc_errors := length (filter cq_failed g), cc_first := hd times, cc_last := last times\<rparr>)"

definition generated :: "log_env \<Rightarrow> string \<Rightarrow> conv_db \<Rightarrow> group_key \<Rightarrow> conversation \<Rightarrow> conversation" where
  "generated env now db k c =
     (let t = with_totals (cv_requests db) k c
      in t\<lparr>cc_name := generate_name None (fst k) (latest_task (cv_decisions db) (fst k)) (cc_last t),
           cc_summary := ''no user or assistant text captured'' @ [CHR '' '', CHR 0xB7, CHR '' ''] @ show_nat (cc_calls t) @
             '' calls '' @ [CHR 0xB7] @ '' $'' @ ct_fixed4 env (cc_cost t),
           cc_generated := now\<rparr>)"

definition blank_conversation :: conversation where
  "blank_conversation = \<lparr>cc_name = [], cc_summary = [], cc_profile = [], cc_model = [], cc_calls = 0, cc_tokens = 0,
     cc_cost = 0, cc_errors = 0, cc_first = [], cc_last = [], cc_generated = []\<rparr>"

definition sync_group :: "log_env \<Rightarrow> bool \<Rightarrow> string \<Rightarrow> conv_db \<Rightarrow> group_key \<Rightarrow>
    (string, conversation) dict \<times> nat \<times> nat \<Rightarrow> (string, conversation) dict \<times> nat \<times> nat" where
  "sync_group env force now db k acc = (case acc of (cs, created, updated) \<Rightarrow>
     (case map_of cs (fst k) of
        Some c \<Rightarrow> (AList.update (fst k) (if force then generated env now db k c else with_totals (cv_requests db) k c) cs,
                    created, Suc updated)
      | None \<Rightarrow> (AList.update (fst k) (generated env now db k blank_conversation) cs, Suc created, updated)))"

definition sync_conversations :: "log_env \<Rightarrow> bool \<Rightarrow> string \<Rightarrow> conv_db \<Rightarrow> (nat \<times> nat) \<times> conv_db" where
  "sync_conversations env force now db =
     (case fold (sync_group env force now db) (group_keys (cv_requests db)) (cv_conversations db, 0, 0) of
        (cs, created, updated) \<Rightarrow> ((created, updated), db\<lparr>cv_conversations := cs\<rparr>))"

subsection \<open>The lazy sync and the views\<close>

text \<open>The stored time of the last sync, and \<open>stamp_time\<close>, its reader; an unreadable one counts as stale.\<close>

definition SYNC_STALE_SECONDS :: real where
  "SYNC_STALE_SECONDS = 300"

definition maybe_sync :: "log_env \<Rightarrow> (string \<Rightarrow> real option) \<Rightarrow> real \<Rightarrow> string \<Rightarrow> string option \<times> conv_db \<Rightarrow> string option \<times> conv_db" where
  "maybe_sync env stamp_time now now_text st = (case st of (stored, db) \<Rightarrow>
     (case Option.bind stored stamp_time of
        Some t \<Rightarrow> if now - t < SYNC_STALE_SECONDS then st
                  else (Some now_text, snd (sync_conversations env False now_text db))
      | None \<Rightarrow> (Some now_text, snd (sync_conversations env False now_text db))))"

definition query_text :: "(string, string) dict \<Rightarrow> string \<Rightarrow> string" where
  "query_text params k = strip (dget params k [])"

text \<open>The order a view declares, \<open>id DESC\<close> or \<open>id ASC\<close>; and the rows with the state of the page.\<close>

definition by_id :: "('r \<Rightarrow> int) \<Rightarrow> string \<Rightarrow> 'r list \<Rightarrow> 'r list" where
  "by_id ident order_sql rows = (let up = sort_key ident rows in if order_sql = ''id DESC'' then rev up else up)"

definition requests_view :: "(string, string) dict \<Rightarrow> conv_db \<Rightarrow> conv_request list \<times> table_state" where
  "requests_view params db =
     (let profile = query_text params ''profile'';
          rows = filter (\<lambda>r. profile = [] \<or> cq_profile r = profile) (cv_requests db);
          st = table_state_of params REQUEST_SORTS (int (length rows))
      in (limited st (by_id cq_id (ts_order_sql st) rows), st))"

definition provider_decisions_view :: "(string, string) dict \<Rightarrow> conv_db \<Rightarrow> conv_decision list \<times> table_state" where
  "provider_decisions_view params db =
     (let st = table_state_of params REQUEST_SORTS (int (length (cv_decisions db)))
      in (limited st (by_id cd_id (ts_order_sql st) (cv_decisions db)), st))"

definition by_last_seen :: "string \<Rightarrow> (string \<times> conversation) list \<Rightarrow> (string \<times> conversation) list" where
  "by_last_seen order_sql rows =
     (let named = rev (sort_key fst rows)
      in if order_sql = ''last_seen DESC, conversation_id DESC'' then rev (sort_key (\<lambda>x. cc_last (snd x)) (rev named))
         else sort_key (\<lambda>x. cc_last (snd x)) named)"

definition conversations_view :: "(string, string) dict \<Rightarrow> conv_db \<Rightarrow>
    (string \<times> conversation \<times> string option) list \<times> table_state" where
  "conversations_view params db =
     (let profile = query_text params ''profile''; qid = query_text params ''qid'';
          rows = filter (\<lambda>(cid, c). (profile = [] \<or> cc_profile c = profile) \<and> (qid = [] \<or> cid = qid)) (cv_conversations db);
          st = table_state_of params CONVERSATION_SORTS (int (length rows))
      in (map (\<lambda>(cid, c). (cid, c\<lparr>cc_cost := py_round 6 (cc_cost c)\<rparr>, latest_task (cv_decisions db) cid))
            (limited st (by_last_seen (ts_order_sql st) rows)), st))"

datatype log_event = RequestEvent conv_request | RoutingEvent conv_decision

fun event_ts :: "log_event \<Rightarrow> string" where
  "event_ts (RequestEvent r) = cq_ts r"
| "event_ts (RoutingEvent d) = cd_ts d"

record conv_detail =
  dt_events :: "log_event list"
  dt_truncated :: bool
  dt_calls :: nat
  dt_cost :: real
  dt_errors :: nat

definition events_of :: "conv_db \<Rightarrow> string \<Rightarrow> log_event list" where
  "events_of db cid = sort_key event_ts
     (map RequestEvent (sort_key cq_ts (filter (\<lambda>r. cq_conv r = Some cid) (cv_requests db))) @
      map RoutingEvent (sort_key cd_ts (filter (\<lambda>d. cd_conv d = Some cid) (cv_decisions db))))"

definition conversation_detail :: "conv_db \<Rightarrow> string \<Rightarrow> nat \<Rightarrow> conv_detail" where
  "conversation_detail db cid limit =
     (let mine = filter (\<lambda>r. cq_conv r = Some cid) (cv_requests db); events = events_of db cid
      in \<lparr>dt_events = take limit events, dt_truncated = limit < length events, dt_calls = length mine,
          dt_cost = py_round 6 (sum_known (map cq_cost mine)), dt_errors = length (filter cq_failed mine)\<rparr>)"

subsection \<open>Bursts\<close>

text \<open>The reference: the longest runs of neighbours in which each is related to the one before.\<close>

fun runs :: "('a \<Rightarrow> 'a \<Rightarrow> bool) \<Rightarrow> 'a list \<Rightarrow> 'a list list" where
  "runs R [] = []"
| "runs R [x] = [[x]]"
| "runs R (x # y # ys) = (if R x y then (x # hd (runs R (y # ys))) # tl (runs R (y # ys)) else [x] # runs R (y # ys))"

definition together :: "log_env \<Rightarrow> conv_request \<Rightarrow> conv_request \<Rightarrow> bool" where
  "together env p r \<longleftrightarrow> cq_profile r = cq_profile p \<and> cq_model r = cq_model p \<and>
     (\<exists>zone t u. ct_iso env (cq_ts r) = Some (zone, t) \<and> ct_iso env (cq_ts p) = Some (zone, u) \<and> t - u \<le> BURST_GAP_SECONDS)"

definition burst_name :: "log_env \<Rightarrow> conv_request \<Rightarrow> string" where
  "burst_name env r = backfill_id env (cq_profile r) (cq_model r) (cq_ts r)"

definition named_run :: "string \<Rightarrow> conv_request list \<Rightarrow> (int \<times> string) list" where
  "named_run c g = map (\<lambda>r. (cq_id r, c)) g"

lemma runs_ne: "xs \<noteq> [] \<Longrightarrow> runs R xs \<noteq> [] \<and> hd (runs R xs) \<noteq> [] \<and> hd (hd (runs R xs)) = hd xs"
  by (induction R xs rule: runs.induct) auto

lemma burst_step:
  assumes "gap_of env (Some p) r = Inr gap"
  shows "burstable r (Some p) gap \<longleftrightarrow> \<not> together env p r"
  using assms by (auto simp: gap_of_def burstable_def together_def BURST_GAP_SECONDS_def split: option.splits if_splits)

lemma assign_runs:
  assumes "assign_bursts env (Some p) cur rows = Inr ids"
  shows "ids = concat (named_run cur (tl (hd (runs (together env) (p # rows)))) #
    map (\<lambda>g. named_run (burst_name env (hd g)) g) (tl (runs (together env) (p # rows))))"
  using assms
proof (induction rows arbitrary: p cur ids)
  case (Cons r rows)
  then obtain gap where gap: "gap_of env (Some p) r = Inr gap"
    by (auto simp: rbind_def split: sum.splits)
  let ?cur = "if together env p r then cur else burst_name env r"
  obtain later where later: "assign_bursts env (Some r) ?cur rows = Inr later" "ids = (cq_id r, ?cur) # later"
    using Cons.prems gap burst_step[OF gap] by (auto simp: rbind_def burst_name_def Let_def split: sum.splits if_splits)
  have ne: "runs (together env) (r # rows) \<noteq> []" "hd (runs (together env) (r # rows)) \<noteq> []"
      "hd (hd (runs (together env) (r # rows))) = r"
    using runs_ne[of "r # rows"] by simp_all
  then obtain g gs where g: "runs (together env) (r # rows) = (r # g) # gs"
    by (metis list.exhaust_sel)
  show ?case using Cons.IH[OF later(1)] later(2) g by (simp add: named_run_def)
qed (simp add: named_run_def)

text \<open>
  Also: older requests are assigned by bursts.  In the order of profile, model and time, the requests without a
  conversation are cut into the longest runs in which each is at most five minutes after the one before it, of the
  same profile and model and with readable times; all requests of a run get the same name, made from its first one.
\<close>

theorem bursts_are_conversations:
  assumes "assign_bursts env None cur rows = Inr ids"
  shows "ids = concat (map (\<lambda>g. named_run (burst_name env (hd g)) g) (runs (together env) rows))"
proof (cases rows)
  case (Cons r later)
  then obtain more where more: "assign_bursts env (Some r) (burst_name env r) later = Inr more"
      "ids = (cq_id r, burst_name env r) # more"
    using assms by (auto simp: rbind_def gap_of_def burstable_def burst_name_def Let_def split: sum.splits)
  have ne: "runs (together env) (r # later) \<noteq> []" "hd (runs (together env) (r # later)) \<noteq> []"
      "hd (hd (runs (together env) (r # later))) = r"
    using runs_ne[of "r # later"] by simp_all
  then obtain g gs where g: "runs (together env) (r # later) = (r # g) # gs"
    by (metis list.exhaust_sel)
  show ?thesis using assign_runs[OF more(1)] more(2) g Cons by (simp add: named_run_def)
qed (use assms in simp)

subsection \<open>The assignment of older rows\<close>

lemma assign_ids: "assign_bursts env prev cur rows = Inr ids \<Longrightarrow> map fst ids = map cq_id rows"
  by (induction rows arbitrary: prev cur ids) (auto simp: rbind_def Let_def split: sum.splits if_splits)

lemma set_legacy [simp]: "set (legacy_order rows) = set rows"
  by (simp add: legacy_order_def)

lemma length_legacy [simp]: "length (legacy_order rows) = length rows"
  by (simp add: legacy_order_def)

lemma stamped_once:
  assumes "distinct (map cq_id reqs)" and "r \<in> set reqs"
    and "assign_bursts env None [] (legacy_order (filter (\<lambda>r. cq_conv r = None) reqs)) = Inr ids"
  shows "map_of ids (cq_id r) = None \<longleftrightarrow> cq_conv r \<noteq> None"
proof -
  have "fst ` set ids = cq_id ` {x \<in> set reqs. cq_conv x = None}"
    using arg_cong[OF assign_ids[OF assms(3)], of set] by simp
  moreover have "inj_on cq_id (set reqs)" using assms(1) by (simp add: distinct_map)
  ultimately show ?thesis using assms(2) by (auto simp: map_of_eq_None_iff inj_on_def)
qed

definition only_stamped :: "conv_request \<Rightarrow> conv_request \<Rightarrow> bool" where
  "only_stamped r r' \<longleftrightarrow> r' = r\<lparr>cq_conv := cq_conv r'\<rparr> \<and> cq_conv r' \<noteq> None \<and> (cq_conv r \<noteq> None \<longrightarrow> r' = r)"

definition only_joined :: "conv_decision \<Rightarrow> conv_decision \<Rightarrow> bool" where
  "only_joined d d' \<longleftrightarrow> d' = d\<lparr>cd_conv := cd_conv d'\<rparr> \<and> cd_conv d' \<noteq> None \<and> (cd_conv d \<noteq> None \<longrightarrow> d' = d)"

lemma stamp_requests_only:
  assumes "\<And>r. r \<in> set rows \<Longrightarrow> map_of ids (cq_id r) = None \<longleftrightarrow> cq_conv r \<noteq> None"
  shows "list_all2 only_stamped rows (stamp_requests ids rows)"
proof -
  have "only_stamped r (case map_of ids (cq_id r) of None \<Rightarrow> r | Some c \<Rightarrow> r\<lparr>cq_conv := Some c\<rparr>)" if "r \<in> set rows" for r
    using assms[OF that] by (cases "cq_conv r") (auto simp: only_stamped_def)
  then show ?thesis by (auto simp: stamp_requests_def list.rel_map intro!: list.rel_refl_strong)
qed

lemma stamp_decisions_only: "list_all2 only_joined decs (map (stamp_decision env reqs) decs)"
  by (auto simp: stamp_decision_def list.rel_map only_joined_def intro!: list.rel_refl_strong split: option.split)

lemma none_left: "list_all2 only_stamped rows rows' \<Longrightarrow> filter (\<lambda>r. cq_conv r = None) rows' = []"
  by (induction rule: list_all2_induct) (auto simp: only_stamped_def)

lemma none_left_to_join:
  "list_all2 only_joined decs decs' \<Longrightarrow> filter (\<lambda>d. cd_conv d = None) decs' = [] \<and> map (stamp_decision env reqs) decs' = decs'"
  by (induction rule: list_all2_induct) (auto simp: only_joined_def stamp_decision_def)

text \<open>
  C31: the assignment fills gaps only and is done once.  A run that succeeds keeps every row in its place with all
  its columns, and changes the conversation of the rows that had none and no other; afterwards every request and every
  decision has a conversation, the counts are the numbers of rows that had none, and a second run finds nothing to do.
\<close>

theorem backfill_fills_gaps_only:
  assumes "distinct (map cq_id (cv_requests db))" and "backfill_conversations env db = (Inr (n, m), db')"
  shows "list_all2 only_stamped (cv_requests db) (cv_requests db') \<and>
    list_all2 only_joined (cv_decisions db) (cv_decisions db') \<and>
    n = length (filter (\<lambda>r. cq_conv r = None) (cv_requests db)) \<and>
    m = length (filter (\<lambda>d. cd_conv d = None) (cv_decisions db)) \<and> backfill_conversations env db' = (Inr (0, 0), db')"
proof -
  obtain ids where ids: "assign_bursts env None [] (legacy_order (filter (\<lambda>r. cq_conv r = None) (cv_requests db))) = Inr ids"
      "n = length ids" "m = length (filter (\<lambda>d. cd_conv d = None) (cv_decisions db))"
      "db' = db\<lparr>cv_requests := stamp_requests ids (cv_requests db),
        cv_decisions := map (stamp_decision env (stamp_requests ids (cv_requests db))) (cv_decisions db)\<rparr>"
    using assms(2) by (auto simp: backfill_conversations_def Let_def split: sum.splits)
  have reqs: "list_all2 only_stamped (cv_requests db) (cv_requests db')"
    using stamp_requests_only stamped_once[OF assms(1) _ ids(1)] by (simp add: ids(4))
  have decs: "list_all2 only_joined (cv_decisions db) (cv_decisions db')"
    using stamp_decisions_only by (simp add: ids(4))
  have "stamp_requests [] rows = rows" for rows by (simp add: stamp_requests_def)
  then have again: "backfill_conversations env db' = (Inr (0, 0), db')"
    using none_left[OF reqs] none_left_to_join[OF decs] by (simp add: backfill_conversations_def legacy_order_def)
  have "length ids = length (filter (\<lambda>r. cq_conv r = None) (cv_requests db))"
    using arg_cong[OF assign_ids[OF ids(1)], of length] by simp
  then show ?thesis using reqs decs ids(2,3) again by simp
qed

definition log_of :: "conv_request list \<Rightarrow> conv_db" where
  "log_of rows = \<lparr>cv_requests = rows, cv_decisions = [], cv_conversations = []\<rparr>"

definition logged :: "conv_request \<Rightarrow> conv_db \<Rightarrow> conv_db" where
  "logged r db = db\<lparr>cv_requests := cv_requests db @ [r]\<rparr>"

text \<open>
  Also: a run between two requests of a burst splits it.  Two requests of one burst get one name when they are assigned
  together; when the assignment runs after the first one, the second starts a conversation of its own.
\<close>

theorem growing_burst_is_split:
  assumes "together env p r" and "cq_ts p \<le> cq_ts r" and "cq_id p \<noteq> cq_id r" and "cq_conv p = None" and "cq_conv r = None"
  shows "map cq_conv (cv_requests (snd (backfill_conversations env (log_of [p, r])))) =
      [Some (burst_name env p), Some (burst_name env p)] \<and>
    map cq_conv (cv_requests (snd (backfill_conversations env (logged r (snd (backfill_conversations env (log_of [p]))))))) =
      [Some (burst_name env p), Some (burst_name env r)]"
proof -
  obtain zone t u where z: "ct_iso env (cq_ts r) = Some (zone, t)" "ct_iso env (cq_ts p) = Some (zone, u)"
      "t - u \<le> BURST_GAP_SECONDS" and same: "cq_profile r = cq_profile p" "cq_model r = cq_model p"
    using assms(1) unfolding together_def by blast
  have order: "legacy_order [p, r] = [p, r]" "legacy_order [x] = [x]" for x
    using assms(2) same by (simp_all add: legacy_order_def)
  have both: "assign_bursts env None [] [p, r] = Inr [(cq_id p, burst_name env p), (cq_id r, burst_name env p)]"
    using z same by (simp add: rbind_def gap_of_def burstable_def burst_name_def Let_def)
  have one: "assign_bursts env None [] [x] = Inr [(cq_id x, burst_name env x)]" for x
    by (simp add: rbind_def gap_of_def burstable_def burst_name_def Let_def)
  show ?thesis
    using assms(3-5) both one order
    by (simp add: backfill_conversations_def log_of_def logged_def stamp_requests_def)
qed

subsection \<open>The table of conversations\<close>

lemma with_totals_twice [simp]: "with_totals reqs k (with_totals reqs k c) = with_totals reqs k c"
  by (simp add: with_totals_def Let_def)

lemma with_totals_generated [simp]: "with_totals (cv_requests db) k (generated env now db k c) = generated env now db k c"
  by (simp add: with_totals_def generated_def Let_def)

lemma with_totals_keeps [simp]:
  "cc_name (with_totals reqs k c) = cc_name c" "cc_summary (with_totals reqs k c) = cc_summary c"
  by (simp_all add: with_totals_def Let_def)

lemma sync_group_other: "fst k \<noteq> cid \<Longrightarrow> map_of (fst (sync_group env force now db k acc)) cid = map_of (fst acc) cid"
  by (auto simp: sync_group_def update_conv' split: prod.split option.split)

lemma sync_group_own:
  "\<exists>c. map_of (fst (sync_group env force now db k acc)) (fst k) = Some c \<and> with_totals (cv_requests db) k c = c \<and>
     (\<forall>c0. \<not> force \<longrightarrow> map_of (fst acc) (fst k) = Some c0 \<longrightarrow> cc_name c = cc_name c0 \<and> cc_summary c = cc_summary c0)"
  by (auto simp: sync_group_def update_conv' split: prod.split option.split)

lemma fold_sync_other:
  "\<forall>k \<in> set ks. fst k \<noteq> cid \<Longrightarrow> map_of (fst (fold (sync_group env force now db) ks acc)) cid = map_of (fst acc) cid"
  by (induction ks arbitrary: acc) (simp_all add: sync_group_other)

lemma fold_sync:
  assumes "filter (\<lambda>k. fst k = cid) ks \<noteq> []"
  shows "\<exists>c. map_of (fst (fold (sync_group env force now db) ks acc)) cid = Some c \<and>
    with_totals (cv_requests db) (last (filter (\<lambda>k. fst k = cid) ks)) c = c \<and>
    (\<forall>c0. \<not> force \<longrightarrow> map_of (fst acc) cid = Some c0 \<longrightarrow> cc_name c = cc_name c0 \<and> cc_summary c = cc_summary c0)"
  using assms
proof (induction ks rule: rev_induct)
  case (snoc k ks)
  let ?acc = "fold (sync_group env force now db) ks acc"
  show ?case
  proof (cases "fst k = cid")
    case True
    obtain c where c: "map_of (fst (sync_group env force now db k ?acc)) cid = Some c" "with_totals (cv_requests db) k c = c"
        "\<And>c0. \<not> force \<Longrightarrow> map_of (fst ?acc) cid = Some c0 \<Longrightarrow> cc_name c = cc_name c0 \<and> cc_summary c = cc_summary c0"
      using sync_group_own[of env force now db k ?acc] True by blast
    have "cc_name c = cc_name c0 \<and> cc_summary c = cc_summary c0" if "\<not> force" "map_of (fst acc) cid = Some c0" for c0
    proof (cases "filter (\<lambda>k. fst k = cid) ks = []")
      case True
      then have "\<forall>k \<in> set ks. fst k \<noteq> cid" by (simp add: filter_empty_conv)
      then show ?thesis using c(3)[OF that(1)] fold_sync_other[of ks cid env force now db acc] that(2) by simp
    next
      case False
      then show ?thesis using snoc.IH c(3)[OF that(1)] that by fastforce
    qed
    with c(1,2) True show ?thesis by simp
  next
    case False
    then show ?thesis using snoc by (simp add: sync_group_other)
  qed
qed simp

lemma group_keys_of: "k \<in> set (group_keys reqs) \<longleftrightarrow> (\<exists>r \<in> set reqs. group_key_of r = Some k)"
proof -
  have "set (List.map_filter group_key_of reqs) = {k. \<exists>r \<in> set reqs. group_key_of r = Some k}"
    by (induction reqs) (auto simp: List.map_filter_simps split: option.splits)
  then show ?thesis by (simp add: group_keys_def)
qed

lemma sync_value:
  assumes "r \<in> set (cv_requests db)" and "cq_conv r = Some cid"
  shows "\<exists>c k r'. map_of (cv_conversations (snd (sync_conversations env force now db))) cid = Some c \<and>
    r' \<in> set (cv_requests db) \<and> group_key_of r' = Some k \<and> fst k = cid \<and> with_totals (cv_requests db) k c = c \<and>
    (\<forall>c0. \<not> force \<longrightarrow> map_of (cv_conversations db) cid = Some c0 \<longrightarrow> cc_name c = cc_name c0 \<and> cc_summary c = cc_summary c0)"
proof -
  let ?mine = "filter (\<lambda>k. fst k = cid) (group_keys (cv_requests db))"
  have "(cid, cq_profile r, cq_model r) \<in> set ?mine"
    using assms by (auto simp: group_keys_of group_key_of_def)
  then have ne: "?mine \<noteq> []" by (metis empty_iff empty_set)
  then have "last ?mine \<in> set ?mine" by (rule last_in_set)
  then obtain r' where "r' \<in> set (cv_requests db)" "group_key_of r' = Some (last ?mine)" "fst (last ?mine) = cid"
    by (auto simp: group_keys_of)
  moreover have "cv_conversations (snd (sync_conversations env force now db)) =
      fst (fold (sync_group env force now db) (group_keys (cv_requests db)) (cv_conversations db, 0, 0))"
    by (simp add: sync_conversations_def split: prod.split)
  ultimately show ?thesis
    using fold_sync[OF ne, of env force now db "(cv_conversations db, 0, 0)"] by (metis fst_conv)
qed

lemma ends_of_sorted: "sorted xs \<Longrightarrow> x \<in> set xs \<Longrightarrow> hd xs \<le> x \<and> x \<le> last xs"
  by (induction xs) auto

text \<open>
  C36: the table agrees with the requests.  For a conversation whose requests have one profile and one model, the
  sync stores the number of its requests, the sums of their tokens and costs, the number of failures, and times that
  enclose them all; and a name and a summary that are there already stay, unless new ones are asked for.
\<close>

theorem synced_totals_are_the_requests:
  fixes cid :: string and db :: conv_db and env :: log_env and force :: bool and now p m :: string
  defines "mine \<equiv> filter (\<lambda>r. cq_conv r = Some cid) (cv_requests db)"
  assumes "mine \<noteq> []" and "\<forall>r \<in> set mine. cq_profile r = p \<and> cq_model r = m"
  shows "\<exists>c. map_of (cv_conversations (snd (sync_conversations env force now db))) cid = Some c \<and>
    cc_profile c = p \<and> cc_model c = m \<and> cc_calls c = length mine \<and> cc_tokens c = sum_known (map row_tokens mine) \<and>
    cc_cost c = sum_known (map cq_cost mine) \<and> cc_errors c = length (filter cq_failed mine) \<and>
    (\<forall>r \<in> set mine. cc_first c \<le> cq_ts r \<and> cq_ts r \<le> cc_last c) \<and>
    (\<forall>c0. \<not> force \<longrightarrow> map_of (cv_conversations db) cid = Some c0 \<longrightarrow> cc_name c = cc_name c0 \<and> cc_summary c = cc_summary c0)"
proof -
  obtain r where "r \<in> set mine" using assms(2) by (cases mine) auto
  then have r: "r \<in> set (cv_requests db)" "cq_conv r = Some cid" by (simp_all add: mine_def)
  obtain c k r' where c: "map_of (cv_conversations (snd (sync_conversations env force now db))) cid = Some c"
      "r' \<in> set (cv_requests db)" "group_key_of r' = Some k" "fst k = cid" "with_totals (cv_requests db) k c = c"
      "\<forall>c0. \<not> force \<longrightarrow> map_of (cv_conversations db) cid = Some c0 \<longrightarrow> cc_name c = cc_name c0 \<and> cc_summary c = cc_summary c0"
    using sync_value[OF r, of env force now] by (elim exE conjE) (rule that; assumption)
  have k: "k = (cid, p, m)" using c(2-4) assms(3) by (auto simp: group_key_of_def mine_def)
  have g: "group_rows (cv_requests db) k = mine"
    unfolding group_rows_def mine_def
    using assms(3) by (intro filter_cong refl) (auto simp: group_key_of_def k mine_def)
  let ?times = "sort (map cq_ts mine)"
  have tot: "c = with_totals (cv_requests db) k c" using c(5) by (rule sym)
  have times: "cc_first c = hd ?times" "cc_last c = last ?times"
    by (subst tot, simp add: with_totals_def g Let_def)+
  have vals: "cc_profile c = p" "cc_model c = m" "cc_calls c = length mine" "cc_tokens c = sum_known (map row_tokens mine)"
      "cc_cost c = sum_known (map cq_cost mine)" "cc_errors c = length (filter cq_failed mine)"
    by (subst tot, simp add: with_totals_def g g[unfolded k] k Let_def)+
  have "hd ?times \<le> cq_ts x \<and> cq_ts x \<le> last ?times" if "x \<in> set mine" for x
    using that ends_of_sorted[of ?times "cq_ts x"] by simp
  then show ?thesis using c(1,6) vals times by auto
qed

text \<open>
  Also: a second model hides calls.  The requests are grouped by conversation, profile and model, and the table has one
  row for a conversation.  When a conversation has used two models, for instance because the router changed its choice,
  the row has the totals of one group only: fewer calls than were made.
\<close>

theorem second_model_hides_calls:
  assumes "r1 \<in> set (cv_requests db)" and "r2 \<in> set (cv_requests db)"
    and "cq_conv r1 = Some cid" and "cq_conv r2 = Some cid" and "cq_model r1 \<noteq> cq_model r2"
  shows "\<exists>c. map_of (cv_conversations (snd (sync_conversations env force now db))) cid = Some c \<and>
    cc_calls c < length (filter (\<lambda>r. cq_conv r = Some cid) (cv_requests db))"
proof -
  obtain c k r' where c: "map_of (cv_conversations (snd (sync_conversations env force now db))) cid = Some c"
      "r' \<in> set (cv_requests db)" "group_key_of r' = Some k" "fst k = cid" "with_totals (cv_requests db) k c = c"
    using sync_value[OF assms(1,3), of env force now] by (elim exE conjE) (rule that; assumption)
  have tot: "c = with_totals (cv_requests db) k c" using c(5) by (rule sym)
  have calls: "cc_calls c = length (group_rows (cv_requests db) k)"
    by (subst tot) (simp add: with_totals_def Let_def)
  obtain r where r: "r \<in> set (cv_requests db)" "cq_conv r = Some cid" "group_key_of r \<noteq> Some k"
    using assms by (cases "group_key_of r1 = Some k") (auto simp: group_key_of_def)
  have "group_rows (cv_requests db) k = filter (\<lambda>r. group_key_of r = Some k) (filter (\<lambda>r. cq_conv r = Some cid) (cv_requests db))"
    unfolding group_rows_def filter_filter using c(4) by (intro filter_cong refl) (auto simp: group_key_of_def)
  then have "length (group_rows (cv_requests db) k) < length (filter (\<lambda>r. cq_conv r = Some cid) (cv_requests db))"
    using r by (simp only:) (rule length_filter_less[where x = r], simp_all)
  then show ?thesis using c(1) calls by auto
qed

subsection \<open>The stamp of a call\<close>

text \<open>
  Also: the stamp of a call keeps what is there.  It gives the logged request and the decisions of its profile within
  thirty seconds the conversation, if they have none; every other column, and every row that has a conversation,
  belongs to another profile or lies outside the window, stays as it is.
\<close>

theorem stamp_keeps_what_is_there:
  "list_all2 (\<lambda>r r'. r' = (if cq_id r = i \<and> cq_conv r = None then r\<lparr>cq_conv := Some cid\<rparr> else r))
     (cv_requests db) (cv_requests (stamp_new env i cid p ts db)) \<and>
   list_all2 (\<lambda>d d'. d' = (if cd_conv d' = cd_conv d then d else d\<lparr>cd_conv := Some cid\<rparr>) \<and>
       (cd_conv d' \<noteq> cd_conv d \<longrightarrow> cd_conv d = None \<and> cd_profile d = p \<and> in_window env 30 ts (cd_ts d)))
     (cv_decisions db) (cv_decisions (stamp_new env i cid p ts db)) \<and>
   cv_conversations (stamp_new env i cid p ts db) = cv_conversations db"
  by (auto simp: stamp_new_def list.rel_map intro!: list.rel_refl_strong)

text \<open>
  Also: the first of two calls takes the decisions of both.  When two calls of one profile, of different conversations,
  end within thirty seconds of a decision of the second, the decision gets the conversation of the call that is
  stamped first and keeps it.
\<close>

theorem first_stamp_takes_all:
  assumes "d \<in> set (cv_decisions db)" and "cd_conv d = None" and "cd_profile d = p" and "in_window env 30 ts (cd_ts d)"
  shows "d\<lparr>cd_conv := Some cid\<rparr> \<in> set (cv_decisions (stamp_new env i' cid' p ts' (stamp_new env i cid p ts db)))"
  using assms by (force simp: stamp_new_def image_iff)

text \<open>
  Also: a slow call loses its decision.  The call is logged, and stamped, when it ends.  A decision that was made more
  than thirty seconds before that is not stamped.
\<close>

theorem slow_call_loses_its_decision:
  assumes "d \<in> set (cv_decisions db)" and "ct_seconds env ts = Some t" and "ct_seconds env (cd_ts d) = Some s" and "s + 30 < t"
  shows "d \<in> set (cv_decisions (stamp_new env i cid p ts db))"
  using assms by (force simp: stamp_new_def in_window_def image_iff)

subsection \<open>The views\<close>

text \<open>
  Also: a conversation is shown in order.  The events are the requests and decisions of the conversation, all of them
  and no others, by their times; what is shown is the beginning, and it is marked as cut exactly when something is
  missing.
\<close>

theorem detail_is_chronological:
  "sorted (map event_ts (events_of db cid)) \<and>
   set (events_of db cid) = RequestEvent ` {r \<in> set (cv_requests db). cq_conv r = Some cid} \<union>
     RoutingEvent ` {d \<in> set (cv_decisions db). cd_conv d = Some cid} \<and>
   (\<exists>later. events_of db cid = dt_events (conversation_detail db cid limit) @ later \<and>
      (dt_truncated (conversation_detail db cid limit) \<longleftrightarrow> later \<noteq> []))"
proof -
  have "events_of db cid = dt_events (conversation_detail db cid limit) @ drop limit (events_of db cid) \<and>
      (dt_truncated (conversation_detail db cid limit) \<longleftrightarrow> drop limit (events_of db cid) \<noteq> [])"
    by (simp add: conversation_detail_def Let_def not_le)
  moreover have "sorted (map event_ts (events_of db cid)) \<and>
      set (events_of db cid) = RequestEvent ` {r \<in> set (cv_requests db). cq_conv r = Some cid} \<union>
        RoutingEvent ` {d \<in> set (cv_decisions db). cd_conv d = Some cid}"
    by (simp add: events_of_def)
  ultimately show ?thesis by blast
qed

text \<open>
  Also: the request log shows what it counts.  With a profile in the query only its requests are shown, and the total is
  their number; a page has at most as many rows as it says, all of them logged, with decreasing numbers unless the
  oldest are asked for first.
\<close>

lemma sorted_window: "sorted xs \<Longrightarrow> sorted (take n (drop m xs))" "sorted_wrt (\<ge>) xs \<Longrightarrow> sorted_wrt (\<ge>) (take n (drop m xs))"
  by (simp_all add: sorted_wrt_take sorted_wrt_drop)

theorem request_log_shows_what_it_counts:
  "case requests_view params db of (rows, st) \<Rightarrow>
    ts_total st = int (length (filter (\<lambda>r. query_text params ''profile'' = [] \<or>
      cq_profile r = query_text params ''profile'') (cv_requests db))) \<and>
    (\<forall>r \<in> set rows. r \<in> set (cv_requests db) \<and>
      (query_text params ''profile'' = [] \<or> cq_profile r = query_text params ''profile'')) \<and>
    (case ts_per st of AllRows \<Rightarrow> int (length rows) = ts_total st | Rows n \<Rightarrow> int (length rows) \<le> n) \<and>
    (if ts_order_sql st = ''id DESC'' then sorted_wrt (\<ge>) (map cq_id rows) else sorted (map cq_id rows))"
proof -
  let ?rows = "filter (\<lambda>r. query_text params ''profile'' = [] \<or> cq_profile r = query_text params ''profile'') (cv_requests db)"
  let ?st = "table_state_of params REQUEST_SORTS (int (length ?rows))"
  have members: "set (limited ?st (by_id cq_id (ts_order_sql ?st) ?rows)) \<subseteq> set ?rows"
    by (auto simp: limited_def by_id_def Let_def dest!: in_set_takeD in_set_dropD split: option.splits if_splits)
  have size: "case ts_per ?st of AllRows \<Rightarrow> length (limited ?st (by_id cq_id (ts_order_sql ?st) ?rows)) = length ?rows
      | Rows n \<Rightarrow> 1 \<le> n \<longrightarrow> int (length (limited ?st (by_id cq_id (ts_order_sql ?st) ?rows))) \<le> n"
    by (auto simp: limited_def limit_clause_def by_id_def Let_def split: per_page.split)
  have "ts_per ?st = parse_per (map_of params ''per'')" by (simp add: table_state_of_def Let_def split: prod.split)
  then have bounds: "ts_per ?st = Rows n \<Longrightarrow> 1 \<le> n" for n using per_bounds[of "map_of params ''per''" n] by simp
  have order: "if ts_order_sql ?st = ''id DESC'' then sorted_wrt (\<ge>) (map cq_id (by_id cq_id (ts_order_sql ?st) ?rows))
      else sorted (map cq_id (by_id cq_id (ts_order_sql ?st) ?rows))"
    by (simp add: by_id_def Let_def rev_map[symmetric] sorted_wrt_rev)
  have "if ts_order_sql ?st = ''id DESC'' then sorted_wrt (\<ge>) (map cq_id (limited ?st (by_id cq_id (ts_order_sql ?st) ?rows)))
      else sorted (map cq_id (limited ?st (by_id cq_id (ts_order_sql ?st) ?rows)))"
    using order sorted_window by (auto simp: limited_def take_map[symmetric] drop_map[symmetric] split: option.split if_splits)
  moreover have "ts_total ?st = int (length ?rows)" by (simp add: table_state_of_def Let_def split: prod.split)
  ultimately show ?thesis
    using members size bounds by (auto simp: requests_view_def Let_def split: per_page.split per_page.splits)
qed

subsection \<open>Instances\<close>

text \<open>Times in unary, a minute for each character.\<close>

definition unary_env :: log_env where
  "unary_env = \<lparr>ct_iso = (\<lambda>t. Some (True, 60 * real (length t))), ct_seconds = (\<lambda>t. Some (60 * int (length t))),
     ct_julian = (\<lambda>t. Some (real (length t))), ct_hash = (\<lambda>t. t), ct_fixed4 = (\<lambda>x. [])\<rparr>"

definition a_call :: "int \<Rightarrow> string option \<Rightarrow> string \<Rightarrow> string \<Rightarrow> conv_request" where
  "a_call i c ts m = \<lparr>cq_id = i, cq_conv = c, cq_ts = ts, cq_profile = ''p'', cq_model = m, cq_prompt = Some 5,
     cq_completion = Some 2, cq_cost = Some 1, cq_failed = False\<rparr>"

definition a_decision :: "string \<Rightarrow> conv_decision" where
  "a_decision ts = \<lparr>cd_id = 1, cd_conv = None, cd_ts = ts, cd_profile = ''p'', cd_task = ''coding''\<rparr>"

definition decided :: "conv_decision \<Rightarrow> conv_db" where
  "decided d = \<lparr>cv_requests = [], cv_decisions = [d], cv_conversations = []\<rparr>"

lemma a_call_sel [simp]:
  "cq_id (a_call i c ts m) = i" "cq_conv (a_call i c ts m) = c" "cq_ts (a_call i c ts m) = ts"
  "cq_profile (a_call i c ts m) = ''p''" "cq_model (a_call i c ts m) = m"
  by (simp_all add: a_call_def)

theorem bursts_are_conversations_witness:
  "\<exists>ids. assign_bursts unary_env None [] [a_call 1 None ''a'' ''m'', a_call 2 None ''aa'' ''m''] = Inr ids \<and>
    ids = concat (map (\<lambda>g. named_run (burst_name unary_env (hd g)) g)
      (runs (together unary_env) [a_call 1 None ''a'' ''m'', a_call 2 None ''aa'' ''m'']))"
proof -
  obtain ids where "assign_bursts unary_env None [] [a_call 1 None ''a'' ''m'', a_call 2 None ''aa'' ''m''] = Inr ids"
    by (simp add: rbind_def gap_of_def unary_env_def Let_def)
  from bursts_are_conversations[OF this] this show ?thesis by blast
qed

lemma two_calls_assigned:
  "fst (backfill_conversations unary_env (log_of [a_call 1 None ''a'' ''m'', a_call 2 (Some ''x'') ''aa'' ''m''])) = Inr (1, 0)"
  by code_simp

theorem backfill_fills_gaps_only_witness:
  "map cq_conv (filter (\<lambda>r. cq_id r = 2) (cv_requests (snd (backfill_conversations unary_env
     (log_of [a_call 1 None ''a'' ''m'', a_call 2 (Some ''x'') ''aa'' ''m'']))))) = [Some ''x'']"
proof -
  let ?db = "log_of [a_call 1 None ''a'' ''m'', a_call 2 (Some ''x'') ''aa'' ''m'']"
  have "backfill_conversations unary_env ?db = (Inr (1, 0), snd (backfill_conversations unary_env ?db))"
    using two_calls_assigned by (simp add: prod_eq_iff)
  from backfill_fills_gaps_only[OF _ this] show ?thesis
    by (auto simp: log_of_def only_stamped_def list_all2_Cons1)
qed

theorem growing_burst_is_split_witness:
  "map cq_conv (cv_requests (snd (backfill_conversations unary_env
     (log_of [a_call 1 None ''a'' ''m'', a_call 2 None ''aa'' ''m''])))) =
   [Some (burst_name unary_env (a_call 1 None ''a'' ''m'')), Some (burst_name unary_env (a_call 1 None ''a'' ''m''))]"
proof -
  have "together unary_env (a_call 1 None ''a'' ''m'') (a_call 2 None ''aa'' ''m'')"
    by (auto simp: together_def unary_env_def BURST_GAP_SECONDS_def)
  moreover have "''a'' \<le> ''aa''" by code_simp
  ultimately show ?thesis
    using growing_burst_is_split[of unary_env "a_call 1 None ''a'' ''m''" "a_call 2 None ''aa'' ''m''"] by simp
qed

theorem synced_totals_are_the_requests_witness:
  "\<exists>c. map_of (cv_conversations (snd (sync_conversations unary_env False ''t''
     (log_of [a_call 1 (Some ''x'') ''a'' ''m'', a_call 2 (Some ''x'') ''aa'' ''m''])))) ''x'' = Some c \<and> cc_calls c = 2"
  using synced_totals_are_the_requests[where db = "log_of [a_call 1 (Some ''x'') ''a'' ''m'', a_call 2 (Some ''x'') ''aa'' ''m'']"
    and cid = "''x''" and p = "''p''" and m = "''m''" and env = unary_env and force = False and now = "''t''"]
  by (fastforce simp: log_of_def)

theorem second_model_hides_calls_witness:
  "\<exists>c. map_of (cv_conversations (snd (sync_conversations unary_env False ''t''
     (log_of [a_call 1 (Some ''x'') ''a'' ''m'', a_call 2 (Some ''x'') ''aa'' ''n''])))) ''x'' = Some c \<and> cc_calls c < 2"
  using second_model_hides_calls[where db = "log_of [a_call 1 (Some ''x'') ''a'' ''m'', a_call 2 (Some ''x'') ''aa'' ''n'']"
    and cid = "''x''" and ?r1.0 = "a_call 1 (Some ''x'') ''a'' ''m''" and ?r2.0 = "a_call 2 (Some ''x'') ''aa'' ''n''"
    and env = unary_env and force = False and now = "''t''"]
  by (simp add: log_of_def numeral_2_eq_2)

theorem stamp_keeps_what_is_there_witness:
  "cv_conversations (stamp_new unary_env 1 ''x'' ''p'' ''a'' (log_of [a_call 1 None ''a'' ''m''])) = []"
  using stamp_keeps_what_is_there[of 1 "''x''" "log_of [a_call 1 None ''a'' ''m'']" unary_env "''p''" "''a''"]
  by (simp add: log_of_def)

theorem first_stamp_takes_all_witness:
  "(a_decision ''aa'')\<lparr>cd_conv := Some ''x''\<rparr> \<in>
     set (cv_decisions (stamp_new unary_env 2 ''y'' ''p'' ''aa'' (stamp_new unary_env 1 ''x'' ''p'' ''aa'' (decided (a_decision ''aa'')))))"
  by (rule first_stamp_takes_all) (simp_all add: decided_def a_decision_def in_window_def unary_env_def)

theorem slow_call_loses_its_decision_witness:
  "a_decision ''a'' \<in> set (cv_decisions (stamp_new unary_env 1 ''x'' ''p'' ''aaa'' (decided (a_decision ''a''))))"
  by (rule slow_call_loses_its_decision[where t = 180 and s = 60]) (simp_all add: decided_def a_decision_def unary_env_def)

theorem request_log_shows_what_it_counts_witness:
  "ts_total (snd (requests_view [(''profile'', ''q'')] (log_of [a_call 1 None ''a'' ''m'']))) = 0"
proof -
  have "query_text [(''profile'', ''q'')] ''profile'' = ''q''" by code_simp
  then show ?thesis
    using request_log_shows_what_it_counts[of "[(''profile'', ''q'')]" "log_of [a_call 1 None ''a'' ''m'']"]
    by (simp add: log_of_def split: prod.splits)
qed

end
