(* ===== verification/Usage_Api.thy ===== *)
theory Usage_Api
  imports Log_Tables Circuit_Breaker Costs "HOL-Library.Multiset"
begin

section \<open>Statistics of the request log (server/endpoints.py)\<close>

text \<open>
  The endpoints that read the request log: usage by day, model and profile, totals, the log itself with its filters,
  uptime and failures of a provider, the health listing, the failover log, the metrics and the export.  The log is a
  list of rows; the columns with a default are never NULL.  The query is the first value of every parameter, blank
  ones dropped.  The calendar (\<open>strptime\<close> and \<open>strftime\<close> of a date, the days numbered), the price lookup and the
  printing of numbers are arguments.  \<open>LIMIT\<close> with a negative number is no limit, as SQLite documents it, and rows
  with equal sums keep their order.
\<close>

record usage_row =
  ur_id :: int
  ur_ts :: string
  ur_profile :: string
  ur_model :: string
  ur_provider :: string
  ur_prompt :: int
  ur_completion :: int
  ur_hit :: int
  ur_miss :: int
  ur_cost :: real
  ur_latency :: int
  ur_ok :: bool
  ur_error :: "string option"

record usage_env =
  ue_day :: "string \<Rightarrow> int option"
  ue_date :: "int \<Rightarrow> string"
  ue_pricing :: "string \<Rightarrow> string \<Rightarrow> obj res"
  ue_int :: "int \<Rightarrow> string"
  ue_float :: "real \<Rightarrow> string"

type_synonym query = "(string, string) dict"

text \<open>A parameter that is not a number raises before the handler guards anything.\<close>

datatype 'a stats_reply = Uncaught py_exn | Broken | Served 'a

definition query_int :: "query \<Rightarrow> string \<Rightarrow> string \<Rightarrow> int option" where
  "query_int q k dflt = py_int (dget q k dflt)"

definition sql_limit :: "int \<Rightarrow> 'a list \<Rightarrow> 'a list" where
  "sql_limit n xs = (if n < 0 then xs else take (nat n) xs)"

subsection \<open>Sums\<close>

text \<open>The sums of every query over the rows of a group; the sums over no rows are 0.\<close>

record usage_sum =
  su_cost :: real
  su_requests :: nat
  su_prompt :: int
  su_completion :: int
  su_hit :: int
  su_miss :: int
  su_latency :: int

definition sums_of :: "usage_row list \<Rightarrow> usage_sum" where
  "sums_of rows = \<lparr>su_cost = sum_list (map ur_cost rows), su_requests = length rows,
     su_prompt = sum_list (map ur_prompt rows), su_completion = sum_list (map ur_completion rows),
     su_hit = sum_list (map ur_hit rows), su_miss = sum_list (map ur_miss rows),
     su_latency = sum_list (map ur_latency rows)\<rparr>"

record model_usage =
  mu_cost :: real
  mu_requests :: nat
  mu_prompt :: int
  mu_completion :: int
  mu_hit :: int
  mu_miss :: int

definition model_sums :: "usage_row list \<Rightarrow> model_usage" where
  "model_sums rows = \<lparr>mu_cost = sum_list (map ur_cost rows), mu_requests = length rows,
     mu_prompt = sum_list (map ur_prompt rows), mu_completion = sum_list (map ur_completion rows),
     mu_hit = sum_list (map ur_hit rows), mu_miss = sum_list (map ur_miss rows)\<rparr>"

record profile_usage =
  pu_cost :: real
  pu_requests :: nat
  pu_prompt :: int
  pu_completion :: int

definition profile_sums :: "usage_row list \<Rightarrow> profile_usage" where
  "profile_sums rows = \<lparr>pu_cost = sum_list (map ur_cost rows), pu_requests = length rows,
     pu_prompt = sum_list (map ur_prompt rows), pu_completion = sum_list (map ur_completion rows)\<rparr>"

record total_usage =
  tu_cost :: real
  tu_requests :: nat
  tu_tokens :: int

definition total_sums :: "usage_row list \<Rightarrow> total_usage" where
  "total_sums rows = \<lparr>tu_cost = sum_list (map ur_cost rows), tu_requests = length rows,
     tu_tokens = sum_list (map (\<lambda>r. ur_prompt r + ur_completion r) rows)\<rparr>"

text \<open>\<open>GROUP BY\<close> a column, and the groups by descending cost.\<close>

definition group_by :: "(usage_row \<Rightarrow> string) \<Rightarrow> (usage_row list \<Rightarrow> 'a) \<Rightarrow> usage_row list \<Rightarrow> (string, 'a) dict" where
  "group_by col agg rows = map (\<lambda>k. (k, agg (filter (\<lambda>r. col r = k) rows))) (remdups (map col rows))"

definition by_cost :: "('a \<Rightarrow> real) \<Rightarrow> (string, 'a) dict \<Rightarrow> (string, 'a) dict" where
  "by_cost cost gs = sort_key (\<lambda>g. - cost (snd g)) gs"

subsection \<open>Usage\<close>

definition given :: "query \<Rightarrow> string \<Rightarrow> bool" where
  "given q k \<longleftrightarrow> dget q k [] \<noteq> []"

definition has_range :: "query \<Rightarrow> bool" where
  "has_range q \<longleftrightarrow> given q ''start'' \<and> given q ''end''"

definition end_of_day :: "string \<Rightarrow> string" where
  "end_of_day d = d @ ''T23:59:59''"

definition in_usage :: "query \<Rightarrow> usage_row \<Rightarrow> bool" where
  "in_usage q r \<longleftrightarrow> ur_ok r \<and> (given q ''provider'' \<longrightarrow> ur_provider r = dget q ''provider'' []) \<and>
     (has_range q \<longrightarrow> dget q ''start'' [] \<le> ur_ts r \<and> ur_ts r \<le> end_of_day (dget q ''end'' []))"

definition base_rows :: "query \<Rightarrow> usage_row list \<Rightarrow> usage_row list" where
  "base_rows q rows = filter (in_usage q) rows"

definition day_of :: "usage_row \<Rightarrow> string" where
  "day_of r = take 10 (ur_ts r)"

definition newest_by_day :: "(usage_row list \<Rightarrow> 'a) \<Rightarrow> usage_row list \<Rightarrow> (string, 'a) dict" where
  "newest_by_day agg rows = rev (sort_key fst (group_by day_of agg rows))"

abbreviation newest_days :: "usage_row list \<Rightarrow> (string, usage_sum) dict" where
  "newest_days \<equiv> newest_by_day sums_of"

text \<open>The range that is shown: the one asked for, or the last days up to today.\<close>

definition shown_days :: "usage_env \<Rightarrow> int \<Rightarrow> int \<Rightarrow> query \<Rightarrow> (int \<times> int) option" where
  "shown_days env today days q =
     (if has_range q
      then (case (ue_day env (dget q ''end'' []), ue_day env (dget q ''start'' [])) of
        (Some e, Some s) \<Rightarrow> Some (s, e) | _ \<Rightarrow> None)
      else Some (today - (days - 1), today))"

definition daily_usage :: "usage_env \<Rightarrow> int \<Rightarrow> int \<Rightarrow> int \<Rightarrow> usage_row list \<Rightarrow> (string \<times> usage_sum) list" where
  "daily_usage env days lo hi rows =
     (let known = sql_limit days (newest_days rows)
      in map (\<lambda>d. (ue_date env d, dget known (ue_date env d) (sums_of []))) [lo..hi])"

text \<open>The query by model, by profile and for the totals, each with the conditions of the request on its own.\<close>

definition model_query :: "query \<Rightarrow> usage_row list \<Rightarrow> (string, model_usage) dict" where
  "model_query q hist = by_cost mu_cost (group_by ur_model model_sums (base_rows q hist))"

definition profile_query :: "query \<Rightarrow> usage_row list \<Rightarrow> (string, profile_usage) dict" where
  "profile_query q hist = by_cost pu_cost (group_by ur_profile profile_sums (base_rows q hist))"

definition total_query :: "query \<Rightarrow> usage_row list \<Rightarrow> total_usage \<times> int" where
  "total_query q hist = (total_sums (base_rows q hist), sum_list (map ur_latency (base_rows q hist)))"

definition model_saving :: "usage_env \<Rightarrow> string \<Rightarrow> string \<times> model_usage \<Rightarrow> real" where
  "model_saving env provider g = (case ue_pricing env provider (fst g) of
      Inl _ \<Rightarrow> 0
    | Inr pricing \<Rightarrow>
        if pricing \<noteq> [] \<and> 0 < mu_hit (snd g)
        then (case rbind (rate pricing ''cache_miss'') (\<lambda>m. rbind (rate pricing ''cache_hit'') (\<lambda>h. Inr (m - h))) of
            Inl _ \<Rightarrow> 0 | Inr d \<Rightarrow> of_int (mu_hit (snd g)) / 1000000 * d)
        else 0)"

text \<open>In the totals, the tokens of the prompts and of the answers and the hits and misses are added up from the models.\<close>

record usage_stats =
  us_daily :: "(string \<times> usage_sum) list"
  us_by_model :: "(string, model_usage) dict"
  us_by_profile :: "(string, profile_usage) dict"
  us_total :: total_usage
  us_latency :: int
  us_prompt :: int
  us_completion :: int
  us_hit :: int
  us_miss :: int
  us_savings :: real

definition serve_usage_stats :: "usage_env \<Rightarrow> int \<Rightarrow> query \<Rightarrow> usage_row list \<Rightarrow> usage_stats stats_reply" where
  "serve_usage_stats env today q hist =
     (case query_int q ''days'' ''30'' of
        None \<Rightarrow> Uncaught ValueError
      | Some days \<Rightarrow>
         (let provider = (if given q ''provider'' then dget q ''provider'' [] else ''deepseek'') in
          case shown_days env today days q of
            None \<Rightarrow> Broken
          | Some (lo, hi) \<Rightarrow>
             (let models = model_query q hist; (whole, latency) = total_query q hist in
              Served \<lparr>us_daily = daily_usage env days lo hi (base_rows q hist), us_by_model = models,
                us_by_profile = profile_query q hist, us_total = whole, us_latency = latency,
                us_prompt = sum_list (map (mu_prompt \<circ> snd) models),
                us_completion = sum_list (map (mu_completion \<circ> snd) models),
                us_hit = sum_list (map (mu_hit \<circ> snd) models), us_miss = sum_list (map (mu_miss \<circ> snd) models),
                us_savings = py_round 6 (sum_list (map (model_saving env provider) models))\<rparr>)))"

definition serve_usage_totals :: "query \<Rightarrow> usage_row list \<Rightarrow> total_usage" where
  "serve_usage_totals q hist = total_sums (base_rows q hist)"

definition serve_daily_costs :: "usage_row list \<Rightarrow> (string, real \<times> nat) dict" where
  "serve_daily_costs hist = sql_limit 90 (newest_by_day (\<lambda>rows. (sum_list (map ur_cost rows), length rows)) hist)"

subsection \<open>The log\<close>

definition newest_rows :: "usage_row list \<Rightarrow> usage_row list" where
  "newest_rows rows = rev (sort_key ur_id rows)"

definition log_filter :: "query \<Rightarrow> usage_row \<Rightarrow> bool" where
  "log_filter q r \<longleftrightarrow> (given q ''profile'' \<longrightarrow> ur_profile r = dget q ''profile'' []) \<and>
     (given q ''provider'' \<longrightarrow> ur_provider r = dget q ''provider'' []) \<and>
     (dget q ''status'' ''all'' = ''success'' \<longrightarrow> ur_ok r) \<and> (dget q ''status'' ''all'' = ''error'' \<longrightarrow> \<not> ur_ok r)"

record log_page =
  lp_total :: nat
  lp_limit :: int
  lp_offset :: int
  lp_rows :: "usage_row list"

definition serve_logs :: "query \<Rightarrow> usage_row list \<Rightarrow> log_page stats_reply" where
  "serve_logs q hist =
     (case (query_int q ''limit'' ''100'', query_int q ''offset'' ''0'') of
        (Some n, Some offset) \<Rightarrow>
         (let limit = min n 1000; rows = filter (log_filter q) hist;
              ordered = (if lower (dget q ''sort'' ''desc'') = ''desc'' then newest_rows rows else sort_key ur_id rows)
          in Served \<lparr>lp_total = length rows, lp_limit = limit, lp_offset = offset,
               lp_rows = sql_limit limit (drop (nat offset) ordered)\<rparr>)
      | _ \<Rightarrow> Uncaught ValueError)"

definition serve_errors :: "usage_row list \<Rightarrow> usage_row list" where
  "serve_errors hist = take 50 (newest_rows (filter (\<lambda>r. \<not> ur_ok r) hist))"

text \<open>The savings of a row, by the first provider that lists the model.\<close>

fun savings_for_model :: "usage_env \<Rightarrow> (string \<times> string list) list \<Rightarrow> string \<Rightarrow> int \<Rightarrow> real" where
  "savings_for_model env [] model hits = 0"
| "savings_for_model env ((p, models) # ps) model hits =
     (if hits \<le> 0 then 0
      else if model \<in> set models
      then (case rbind (ue_pricing env p model) (\<lambda>pricing.
              rbind (rate pricing ''cache_miss'') (\<lambda>m. rbind (rate pricing ''cache_hit'') (\<lambda>h. Inr (m - h)))) of
          Inl _ \<Rightarrow> savings_for_model env ps model hits
        | Inr d \<Rightarrow> of_int hits / 1000000 * d)
      else savings_for_model env ps model hits)"

definition serve_recent_requests :: "usage_env \<Rightarrow> (string \<times> string list) list \<Rightarrow> usage_row list \<Rightarrow> (usage_row \<times> real) list" where
  "serve_recent_requests env providers hist =
     map (\<lambda>r. (r, savings_for_model env providers (ur_model r) (ur_hit r))) (take 100 (newest_rows hist))"

definition export_line :: "usage_env \<Rightarrow> usage_row \<Rightarrow> string" where
  "export_line env r = join '','' [ur_ts r, ur_profile r, ur_model r, ur_provider r, ue_int env (ur_prompt r),
     ue_int env (ur_completion r), ue_int env (ur_hit r), ue_int env (ur_miss r), ue_float env (ur_cost r),
     ue_int env (ur_latency r), (if ur_ok r then ''1'' else ''0''), (case ur_error r of None \<Rightarrow> [] | Some e \<Rightarrow> e)]"

definition EXPORT_HEADER :: string where
  "EXPORT_HEADER = ''timestamp,profile,model,provider,prompt_tokens,completion_tokens,'' @
     ''cache_hit_tokens,cache_miss_tokens,cost,latency_ms,success,error_type''"

definition serve_export :: "usage_env \<Rightarrow> usage_row list \<Rightarrow> string" where
  "serve_export env hist = join [CHR 0x0A] (EXPORT_HEADER # map (export_line env) (take 1000 (newest_rows hist)))"

subsection \<open>Providers\<close>

text \<open>
  The rows of a provider from a time on; \<open>db_ok\<close> is false when the database raises.  \<open>cutoff hours\<close> is the text of
  the time so many hours ago.
\<close>

definition recent_of :: "string \<Rightarrow> string \<Rightarrow> string \<Rightarrow> usage_row list \<Rightarrow> usage_row list" where
  "recent_of provider profile cutoff hist =
     filter (\<lambda>r. ur_provider r = provider \<and> ur_profile r = profile \<and> cutoff \<le> ur_ts r) hist"

definition uptime_for :: "bool \<Rightarrow> string \<Rightarrow> string \<Rightarrow> string \<Rightarrow> usage_row list \<Rightarrow> real" where
  "uptime_for db_ok provider profile cutoff hist =
     (let rows = recent_of provider profile cutoff hist; total = length rows; ok = length (filter ur_ok rows)
      in if \<not> db_ok \<or> total = 0 then 100 else py_round 2 (real ok / real total * 100))"

text \<open>Rows without an error type are a group of their own; the name of a group that has none is \<open>unknown\<close>, and of two groups of one name the later one counts.\<close>

definition type_name :: "string option \<Rightarrow> string" where
  "type_name e = (case e of None \<Rightarrow> ''unknown'' | Some t \<Rightarrow> if t = [] then ''unknown'' else t)"

definition breakdown_of :: "usage_row list \<Rightarrow> (string, nat) dict" where
  "breakdown_of failed = fold (\<lambda>e d. AList.update (type_name e) (length (filter (\<lambda>r. ur_error r = e) failed)) d)
     (remdups (map ur_error failed)) []"

definition failure_breakdown :: "bool \<Rightarrow> string \<Rightarrow> string \<Rightarrow> string \<Rightarrow> usage_row list \<Rightarrow> (string, nat) dict" where
  "failure_breakdown db_ok provider profile cutoff hist =
     (if \<not> db_ok then [] else breakdown_of (filter (\<lambda>r. \<not> ur_ok r) (recent_of provider profile cutoff hist)))"

definition BUCKETS :: "string list" where
  "BUCKETS = [''timeout'', ''internal_error'', ''rate_limit'', ''auth'', ''bad_request'', ''credits'', ''other'']"

definition bucket :: "string \<Rightarrow> string" where
  "bucket et = (let e = lower et in
     if contains e ''timeout'' then ''timeout''
     else if list_ex (\<lambda>w. contains e w) [''credit'', ''balance'', ''insufficient'', ''funds''] then ''credits''
     else if list_ex (\<lambda>w. contains e w) [''rate'', ''429''] then ''rate_limit''
     else if list_ex (\<lambda>w. contains e w) [''auth'', ''401'', ''403''] then ''auth''
     else if list_ex (\<lambda>w. contains e w) [''bad'', ''400'', ''invalid''] then ''bad_request''
     else if list_ex (\<lambda>w. contains e w) [''internal'', ''5'', ''server''] then ''internal_error''
     else ''other'')"

definition bucket_counts :: "(string, nat) dict \<Rightarrow> (string, nat) dict" where
  "bucket_counts breakdown = map (\<lambda>b. (b, sum_list (map snd (filter (\<lambda>x. bucket (fst x) = b) breakdown)))) BUCKETS"

record failure_report =
  fr_breakdown :: "(string, nat) dict"
  fr_buckets :: "(string, nat) dict"
  fr_total :: nat

definition window_hours :: "query \<Rightarrow> int" where
  "window_hours q = dget [(''24h'', 24), (''7d'', 24 * 7), (''30d'', 24 * 30)] (dget q ''window'' ''24h'') 24"

definition serve_provider_failures :: "(int \<Rightarrow> string) \<Rightarrow> string \<Rightarrow> query \<Rightarrow> usage_row list \<Rightarrow> failure_report" where
  "serve_provider_failures cutoff name q hist =
     (let breakdown = breakdown_of (filter (\<lambda>r. ur_provider r = name \<and> cutoff (window_hours q) \<le> ur_ts r \<and> \<not> ur_ok r \<and>
            (given q ''profile'' \<longrightarrow> ur_profile r = dget q ''profile'' [])) hist)
      in \<lparr>fr_breakdown = breakdown, fr_buckets = bucket_counts breakdown, fr_total = sum_list (map snd breakdown)\<rparr>)"

record health_entry =
  he_provider :: string
  he_profile :: string
  he_base_url :: string
  he_health :: health
  he_uptime :: "real list"
  he_failures :: "(string, nat) dict"

record health_summary =
  hs_total :: nat
  hs_healthy :: nat
  hs_degraded :: nat
  hs_dead :: nat

definition health_entry_of :: "bool \<Rightarrow> (int \<Rightarrow> string) \<Rightarrow> usage_row list \<Rightarrow> hkey \<times> health \<Rightarrow> health_entry" where
  "health_entry_of db_ok cutoff hist x = (case x of ((provider, url, profile), h) \<Rightarrow>
     \<lparr>he_provider = provider, he_profile = profile, he_base_url = url, he_health = h,
      he_uptime = map (\<lambda>hours. uptime_for db_ok provider profile (cutoff hours) hist) [24, 24 * 7, 24 * 30],
      he_failures = failure_breakdown db_ok provider profile (cutoff 24) hist\<rparr>)"

definition health_name :: "hkey \<Rightarrow> string" where
  "health_name k = fst k @ ''/'' @ snd (snd k)"

definition serve_providers_health ::
  "bool \<Rightarrow> (int \<Rightarrow> string) \<Rightarrow> usage_row list \<Rightarrow> breaker \<Rightarrow> health_summary \<times> (string, health_entry) dict" where
  "serve_providers_health db_ok cutoff hist cb =
     (let all = entries cb; counting = (\<lambda>s. length (filter (\<lambda>x. hstatus (snd x) = s) all))
      in (\<lparr>hs_total = length all, hs_healthy = counting Healthy, hs_degraded = counting Degraded, hs_dead = counting Dead\<rparr>,
          fold (\<lambda>x d. AList.update (health_name (fst x)) (health_entry_of db_ok cutoff hist x) d) all []))"

text \<open>The public listing: no address and no reason.\<close>

record public_health =
  ph_status :: status
  ph_failures :: int
  ph_last_success :: "real option"
  ph_last_failure :: "real option"
  ph_tripped_until :: "real option"

definition serve_health :: "breaker \<Rightarrow> (string, public_health) dict" where
  "serve_health cb = fold (\<lambda>(k, h) d. AList.update (health_name k)
     \<lparr>ph_status = hstatus h, ph_failures = consecutive_failures h, ph_last_success = last_success h,
      ph_last_failure = last_failure h,
      ph_tripped_until = (case tripped_until h of Some t \<Rightarrow> if t = 0 then None else Some t | None \<Rightarrow> None)\<rparr> d)
     (entries cb) []"

definition serve_failovers :: "query \<Rightarrow> failover list \<Rightarrow> failover list" where
  "serve_failovers q hist =
     (let limit = max 1 (min (case query_int q ''limit'' ''20'' of Some n \<Rightarrow> n | None \<Rightarrow> 20) 200)
      in take (nat limit) (rev (filter (\<lambda>f. (given q ''profile'' \<longrightarrow> fo_profile f = dget q ''profile'' []) \<and>
           (given q ''from'' \<longrightarrow> fo_from f = dget q ''from'' []) \<and> (given q ''to'' \<longrightarrow> fo_to f = dget q ''to'' [])) hist)))"

text \<open>The counters of the metrics page.\<close>

record metrics =
  mt_requests :: nat
  mt_cost :: real
  mt_failed :: nat

definition serve_metrics :: "bool \<Rightarrow> usage_row list \<Rightarrow> metrics" where
  "serve_metrics db_ok hist =
     (if db_ok then \<lparr>mt_requests = length hist, mt_cost = sum_list (map ur_cost hist),
        mt_failed = length (filter (\<lambda>r. \<not> ur_ok r) hist)\<rparr>
      else \<lparr>mt_requests = 0, mt_cost = 0, mt_failed = 0\<rparr>)"

subsection \<open>The model list (GET /v1/models)\<close>

text \<open>A step of a chain is a pair of provider and model; a model's limits are an object, with numbers where numbers belong.\<close>

record virtual_model =
  vm_id :: string
  vm_context :: real
  vm_vision :: bool
  vm_description :: string
  vm_providers :: "(string \<times> string \<times> real) list"

definition context_length :: "(string, obj) dict \<Rightarrow> string \<Rightarrow> real" where
  "context_length limits mid = (case dget (dget limits mid []) ''context_window'' (JNum 128000) of JNum x \<Rightarrow> x | _ \<Rightarrow> 0)"

definition limit_text :: "(string, obj) dict \<Rightarrow> string \<Rightarrow> string" where
  "limit_text limits mid = (case dget (dget limits mid []) ''description'' JNull of JStr s \<Rightarrow> s | _ \<Rightarrow> [])"

definition virtual_model_of :: "(string, obj) dict \<Rightarrow> string \<times> (string \<times> string) list \<Rightarrow> virtual_model" where
  "virtual_model_of limits p = (case p of (name, chain) \<Rightarrow>
     (let texts = filter (\<lambda>t. t \<noteq> []) (map (\<lambda>s. limit_text limits (snd s)) chain)
      in \<lparr>vm_id = name, vm_context = fold (\<lambda>s m. max m (context_length limits (snd s))) chain 0,
          vm_vision = list_ex (\<lambda>s. truthy (dget (dget limits (snd s) []) ''supports_vision'' (JBool False))) chain,
          vm_description = (if texts = [] then ''Profile with '' @ show_nat (length chain) @ '' provider(s) in chain'' else hd texts),
          vm_providers = map (\<lambda>s. (fst s, snd s, context_length limits (snd s))) chain\<rparr>))"

definition serve_models :: "(string, obj) dict \<Rightarrow> (string, (string \<times> string) list) dict \<Rightarrow> string option \<Rightarrow> virtual_model list" where
  "serve_models limits profiles profile =
     map (virtual_model_of limits) (filter (\<lambda>p. snd p \<noteq> [])
       (case profile of None \<Rightarrow> profiles | Some n \<Rightarrow> [(n, dget profiles n [])]))"

subsection \<open>Sums by groups\<close>

lemma sum_list_at: "distinct ks \<Longrightarrow> k \<in> set ks \<Longrightarrow> (\<Sum>x\<leftarrow>ks. if k = x then c else 0) = (c :: 'a::comm_monoid_add)"
proof (induction ks)
  case (Cons x ks)
  have "(\<Sum>y\<leftarrow>ks. if k = y then c else 0) = 0" if "k \<notin> set ks"
    using that by (induction ks) auto
  with Cons show ?case by auto
qed simp

lemma sum_by_groups:
  assumes "distinct ks" and "col ` set rows \<subseteq> set ks"
  shows "(\<Sum>k\<leftarrow>ks. \<Sum>r\<leftarrow>filter (\<lambda>r. col r = k) rows. h r) = (\<Sum>r\<leftarrow>rows. h r :: 'a::comm_monoid_add)"
  using assms(2)
proof (induction rows)
  case (Cons r rows)
  have "(\<Sum>k\<leftarrow>ks. \<Sum>x\<leftarrow>filter (\<lambda>x. col x = k) (r # rows). h x) =
      (\<Sum>k\<leftarrow>ks. (if col r = k then h r else 0) + (\<Sum>x\<leftarrow>filter (\<lambda>x. col x = k) rows. h x))"
    by (intro arg_cong[where f = sum_list] map_cong) auto
  also have "\<dots> = h r + (\<Sum>x\<leftarrow>rows. h x)"
    using Cons sum_list_at[OF assms(1), of "col r" "h r"] by (simp add: sum_list_addf)
  finally show ?case by simp
qed simp

lemma length_as_sum: "length xs = (\<Sum>x\<leftarrow>xs. 1)"
  by (induction xs) auto

lemma group_sum:
  assumes "\<And>rows. f (agg rows) = sum_list (map h rows :: 'b::comm_monoid_add list)"
  shows "sum_list (map (f \<circ> snd) (group_by col agg rows)) = sum_list (map h rows)"
  using sum_by_groups[of "remdups (map col rows)" col rows h] assms by (simp add: group_by_def comp_def)

lemma sum_perm: "mset xs = mset ys \<Longrightarrow> sum_list (map f xs) = sum_list (map f ys :: 'b::comm_monoid_add list)"
  by (metis mset_map sum_mset_sum_list)

lemma by_cost_sum:
  assumes "\<And>rows. f (agg rows) = sum_list (map h rows :: 'b::comm_monoid_add list)"
  shows "sum_list (map (f \<circ> snd) (by_cost cost (group_by col agg rows))) = sum_list (map h rows)"
  using sum_perm[of "by_cost cost (group_by col agg rows)" "group_by col agg rows" "f \<circ> snd"] group_sum[of f agg h, OF assms]
  by (simp add: by_cost_def)

text \<open>The requests that count: successful, of the provider if one is named, and in the range if both its ends are.\<close>

abbreviation counted_requests :: "query \<Rightarrow> usage_row list \<Rightarrow> usage_row list" where
  "counted_requests q hist \<equiv> filter (\<lambda>r. ur_ok r \<and> (dget q ''provider'' [] \<noteq> [] \<longrightarrow> ur_provider r = dget q ''provider'' []) \<and>
     (dget q ''start'' [] \<noteq> [] \<and> dget q ''end'' [] \<noteq> [] \<longrightarrow>
        dget q ''start'' [] \<le> ur_ts r \<and> ur_ts r \<le> dget q ''end'' [] @ ''T23:59:59'')) hist"

lemma counted_base: "base_rows q hist = counted_requests q hist"
  unfolding base_rows_def by (rule filter_cong) (simp_all only: in_usage_def has_range_def given_def end_of_day_def)

text \<open>
  Also: the breakdowns add up.  What usage statistics count are the successful requests of the provider and the range;
  the totals of both endpoints are their sums, and the groups by model, and those by profile, add up to them.
\<close>

theorem usage_breakdowns_add_up:
  assumes "serve_usage_stats env today q hist = Served u"
  shows "us_total u = total_sums (counted_requests q hist) \<and> serve_usage_totals q hist = us_total u \<and>
    us_latency u = sum_list (map ur_latency (counted_requests q hist)) \<and>
    us_hit u = sum_list (map ur_hit (counted_requests q hist)) \<and> us_miss u = sum_list (map ur_miss (counted_requests q hist)) \<and>
    us_prompt u + us_completion u = tu_tokens (us_total u) \<and>
    sum_list (map (mu_cost \<circ> snd) (us_by_model u)) = tu_cost (us_total u) \<and>
    sum_list (map (mu_requests \<circ> snd) (us_by_model u)) = tu_requests (us_total u) \<and>
    sum_list (map (pu_cost \<circ> snd) (us_by_profile u)) = tu_cost (us_total u) \<and>
    sum_list (map (pu_requests \<circ> snd) (us_by_profile u)) = tu_requests (us_total u) \<and>
    sum_list (map (\<lambda>g. pu_prompt (snd g) + pu_completion (snd g)) (us_by_profile u)) = tu_tokens (us_total u)"
proof -
  let ?rows = "base_rows q hist"
  obtain days lo hi where "query_int q ''days'' ''30'' = Some days" "shown_days env today days q = Some (lo, hi)"
    using assms by (auto simp: serve_usage_stats_def Let_def split: option.splits prod.splits)
  then have u: "us_total u = total_sums ?rows" "us_latency u = sum_list (map ur_latency ?rows)"
      "us_by_model u = model_query q hist" "us_by_profile u = profile_query q hist"
      "us_prompt u = sum_list (map ur_prompt ?rows)" "us_completion u = sum_list (map ur_completion ?rows)"
      "us_hit u = sum_list (map ur_hit ?rows)" "us_miss u = sum_list (map ur_miss ?rows)"
    using assms by (auto simp: serve_usage_stats_def Let_def total_query_def model_query_def model_sums_def
        by_cost_sum[of mu_prompt model_sums ur_prompt] by_cost_sum[of mu_completion model_sums ur_completion]
        by_cost_sum[of mu_hit model_sums ur_hit] by_cost_sum[of mu_miss model_sums ur_miss])
  have m: "sum_list (map (mu_cost \<circ> snd) (model_query q hist)) = sum_list (map ur_cost ?rows)"
      "sum_list (map (mu_requests \<circ> snd) (model_query q hist)) = length ?rows"
    using by_cost_sum[of mu_cost model_sums ur_cost] by_cost_sum[of mu_requests model_sums "\<lambda>r. 1"]
    by (simp_all add: model_query_def model_sums_def length_as_sum)
  have p: "sum_list (map (pu_cost \<circ> snd) (profile_query q hist)) = sum_list (map ur_cost ?rows)"
      "sum_list (map (pu_requests \<circ> snd) (profile_query q hist)) = length ?rows"
      "sum_list (map (pu_prompt \<circ> snd) (profile_query q hist)) = sum_list (map ur_prompt ?rows)"
      "sum_list (map (pu_completion \<circ> snd) (profile_query q hist)) = sum_list (map ur_completion ?rows)"
    using by_cost_sum[of pu_cost profile_sums ur_cost] by_cost_sum[of pu_requests profile_sums "\<lambda>r. 1"]
      by_cost_sum[of pu_prompt profile_sums ur_prompt] by_cost_sum[of pu_completion profile_sums ur_completion]
    by (simp_all add: profile_query_def profile_sums_def length_as_sum)
  show ?thesis
    using m p unfolding u serve_usage_totals_def counted_base[symmetric]
    by (simp add: total_sums_def sum_list_addf comp_def)
qed

subsection \<open>Days\<close>

lemma keys_group_by [simp]: "keys (group_by col agg rows) = remdups (map col rows)"
  by (simp add: group_by_def comp_def)

lemma keys_newest: "keys (newest_days rows) = rev (sort (remdups (map day_of rows)))"
proof -
  have "map fst (sort_key fst gs) = sort (map fst gs)" for gs :: "(string, usage_sum) dict"
    by (rule properties_for_sort[symmetric]) simp_all
  then show ?thesis by (simp add: newest_by_day_def rev_map[symmetric])
qed

lemma newest_value: "map_of (newest_days rows) k = (if k \<in> day_of ` set rows then Some (sums_of (filter (\<lambda>r. day_of r = k) rows)) else None)"
proof -
  have "set (newest_days rows) = (\<lambda>k. (k, sums_of (filter (\<lambda>r. day_of r = k) rows))) ` day_of ` set rows"
    by (auto simp: newest_by_day_def group_by_def)
  moreover have "distinct (keys (newest_days rows))" by (simp add: keys_newest)
  ultimately show ?thesis
    by (auto simp: map_of_eq_None_iff image_iff dest: map_of_SomeD intro!: map_of_is_SomeI)
qed

lemma newest_or_zero: "dget (newest_days rows) k (sums_of []) = sums_of (filter (\<lambda>r. day_of r = k) rows)"
proof -
  have "filter (\<lambda>r. day_of r = k) rows = []" if "k \<notin> day_of ` set rows"
    using that by (auto simp: filter_empty_conv)
  then show ?thesis by (simp add: newest_value)
qed

lemma served_parts:
  assumes "serve_usage_stats env today q hist = Served u"
  obtains n lo hi where "query_int q ''days'' ''30'' = Some n" "shown_days env today n q = Some (lo, hi)"
    "us_daily u = daily_usage env n lo hi (base_rows q hist)" "us_total u = total_sums (base_rows q hist)"
  using assms by (auto simp: serve_usage_stats_def Let_def total_query_def split: option.splits prod.splits)

text \<open>
  Also: the days add up.  When every counted request lies on a day that is shown and there are not more days with
  requests than the limit on days, the costs and the requests of the days add up to the totals.
\<close>

theorem daily_usage_adds_up:
  assumes "serve_usage_stats env today q hist = Served u" and "query_int q ''days'' ''30'' = Some n"
    and "shown_days env today n q = Some (lo, hi)" and "inj_on (ue_date env) {lo..hi}"
    and "\<forall>r \<in> set (base_rows q hist). day_of r \<in> ue_date env ` {lo..hi}"
    and "n < 0 \<or> length (remdups (map day_of (base_rows q hist))) \<le> nat n"
  shows "sum_list (map (su_cost \<circ> snd) (us_daily u)) = tu_cost (us_total u) \<and>
    sum_list (map (su_requests \<circ> snd) (us_daily u)) = tu_requests (us_total u)"
proof -
  let ?rows = "base_rows q hist"
  have u: "us_daily u = daily_usage env n lo hi ?rows" "us_total u = total_sums ?rows"
    using assms(1-3) by (elim served_parts, simp)+
  have "length (newest_days ?rows) = length (remdups (map day_of ?rows))"
    using arg_cong[OF keys_newest[of ?rows], of length] by simp
  then have all: "sql_limit n (newest_days ?rows) = newest_days ?rows"
    using assms(6) by (auto simp: sql_limit_def)
  have daily: "us_daily u = map (\<lambda>k. (k, sums_of (filter (\<lambda>r. day_of r = k) ?rows))) (map (ue_date env) [lo..hi])"
    unfolding u daily_usage_def all Let_def newest_or_zero by simp
  have "distinct (map (ue_date env) [lo..hi])"
    using assms(4) by (simp add: distinct_map)
  moreover have "day_of ` set ?rows \<subseteq> set (map (ue_date env) [lo..hi])" using assms(5) by auto
  ultimately show ?thesis
    using sum_by_groups[of "map (ue_date env) [lo..hi]" day_of ?rows ur_cost]
      sum_by_groups[of "map (ue_date env) [lo..hi]" day_of ?rows "\<lambda>r. 1 :: nat"]
    unfolding daily u(2) by (simp add: sums_of_def total_sums_def comp_def length_as_sum)
qed

lemma later_days_first:
  assumes "sorted_wrt (>) ks" and "x \<in> set (take m ks)"
  shows "m \<ge> Suc (card {y \<in> set ks. x < (y :: 'a::linorder)})"
proof -
  have "y \<in> set (take m ks)" if "y \<in> set ks" "x < y" for y
  proof (rule ccontr)
    assume "y \<notin> set (take m ks)"
    then have "y \<in> set (drop m ks)" using that(1) by (metis append_take_drop_id in_set_conv_decomp Un_iff set_append)
    moreover have "sorted_wrt (>) (take m ks @ drop m ks)" using assms(1) by simp
    ultimately have "y < x" using assms(2) by (auto simp only: sorted_wrt_append)
    with that(2) show False by simp
  qed
  then have "insert x {y \<in> set ks. x < y} \<subseteq> set (take m ks)" using assms(2) by auto
  then have "card (insert x {y \<in> set ks. x < y}) \<le> length (take m ks)"
    by (meson card_length card_mono finite_set le_trans)
  then show ?thesis by simp
qed

lemma sorted_rev_days: "sorted_wrt (>) (rev (sort (remdups xs)))"
proof -
  have "sorted_wrt (<) (sort (remdups xs))" by (simp add: strict_sorted_iff)
  then show ?thesis by (simp add: sorted_wrt_rev)
qed

text \<open>
  C27: a long range shows days with requests as empty.  The limit on days, 30 if the request names none, also cuts a
  range with a start and an end.  A day of the range with counted requests after which so many days with requests
  follow is shown with zero cost and zero requests, while the totals count it.
\<close>

theorem long_range_shows_empty_days:
  assumes "serve_usage_stats env today q hist = Served u" and "query_int q ''days'' ''30'' = Some n" and "0 \<le> n"
    and "shown_days env today n q = Some (lo, hi)" and "d \<in> {lo..hi}"
    and "r \<in> set (base_rows q hist)" and "day_of r = ue_date env d"
    and "nat n \<le> card {day \<in> day_of ` set (base_rows q hist). day_of r < day}"
  shows "(day_of r, sums_of []) \<in> set (us_daily u)"
proof -
  let ?rows = "base_rows q hist"
  have u: "us_daily u = daily_usage env n lo hi ?rows"
    using assms(1,2,4) by (elim served_parts, simp)
  have "day_of r \<notin> set (take (nat n) (keys (newest_days ?rows)))"
    using later_days_first[of "keys (newest_days ?rows)" "day_of r" "nat n"] assms(8) sorted_rev_days
    by (auto simp: keys_newest)
  then have "map_of (take (nat n) (newest_days ?rows)) (day_of r) = None"
    by (simp add: map_of_eq_None_iff take_map)
  then show ?thesis
    using assms(3,5,7) by (force simp: u daily_usage_def sql_limit_def Let_def image_iff)
qed

subsection \<open>The request log\<close>

lemma length_ordered: "length (newest_rows rows) = length rows"
  by (simp add: newest_rows_def)

text \<open>
  Also: a negative limit lifts the cap.  A page of the log has at most 1000 rows, unless the limit is negative: then it
  is the whole log, as far as the filters let it through.
\<close>

theorem negative_limit_lifts_the_cap:
  assumes "serve_logs q hist = Served p"
  shows "(0 \<le> lp_limit p \<longrightarrow> length (lp_rows p) \<le> 1000) \<and>
    (lp_limit p < 0 \<and> lp_offset p \<le> 0 \<longrightarrow> length (lp_rows p) = lp_total p) \<and> set (lp_rows p) \<subseteq> set (filter (log_filter q) hist)"
  using assms length_ordered
  by (auto simp: serve_logs_def Let_def sql_limit_def newest_rows_def split: option.splits if_splits
      dest!: in_set_takeD in_set_dropD)

lemma longer_is_greater: "\<not> xs @ c # cs \<le> (xs :: string)"
  by (induction xs) simp_all

text \<open>
  Also: the last second of a range is lost.  Stored times go on after the seconds, with a fraction or a zone; as texts
  they are greater than the end of the range, 23:59:59, so a request in that second is not counted.
\<close>

theorem last_second_is_lost:
  assumes "has_range q" and "ur_ts r = end_of_day (dget q ''end'' []) @ c # later"
  shows "r \<notin> set (base_rows q hist)"
  using assms longer_is_greater[of "end_of_day (dget q ''end'' [])" c later] by (auto simp: base_rows_def in_usage_def)

subsection \<open>Failures and uptime\<close>

lemma bucket_in: "bucket e \<in> set BUCKETS"
  by (simp add: bucket_def BUCKETS_def Let_def)

lemma bucket_sum: "sum_list (map snd (bucket_counts d)) = sum_list (map snd d)"
proof -
  have "distinct BUCKETS" by (simp add: BUCKETS_def)
  moreover have "(bucket \<circ> fst) ` set d \<subseteq> set BUCKETS" using bucket_in by auto
  ultimately have "(\<Sum>b\<leftarrow>BUCKETS. \<Sum>x\<leftarrow>filter (\<lambda>x. (bucket \<circ> fst) x = b) d. snd x) = (\<Sum>x\<leftarrow>d. snd x)"
    by (rule sum_by_groups)
  then show ?thesis by (simp add: bucket_counts_def comp_def)
qed

lemma fold_update_fresh:
  assumes "distinct (map f es)" and "\<forall>e \<in> set es. f e \<notin> set (keys d)"
  shows "fold (\<lambda>e d. AList.update (f e) (g e) d) es d = d @ map (\<lambda>e. (f e, g e)) es"
  using assms
proof (induction es arbitrary: d)
  case (Cons e es)
  have "AList.update (f e) (g e) d = d @ [(f e, g e)]"
    using Cons.prems(2) by (simp add: update_conv' AList.update_Some_unfold) (induction d; auto)
  moreover have "\<forall>e' \<in> set es. f e' \<notin> set (keys (d @ [(f e, g e)]))" using Cons.prems by (simp add: image_iff) metis
  ultimately show ?case using Cons.IH[of "d @ [(f e, g e)]"] Cons.prems(1) by simp
qed simp

lemma breakdown_total:
  assumes "inj_on type_name (set (map ur_error failed))"
  shows "sum_list (map snd (breakdown_of failed)) = length failed"
proof -
  let ?es = "remdups (map ur_error failed)"
  have "breakdown_of failed = map (\<lambda>e. (type_name e, length (filter (\<lambda>r. ur_error r = e) failed))) ?es"
    unfolding breakdown_of_def using assms by (subst fold_update_fresh) (simp_all add: distinct_map)
  then have "sum_list (map snd (breakdown_of failed)) = (\<Sum>e\<leftarrow>?es. \<Sum>r\<leftarrow>filter (\<lambda>r. ur_error r = e) failed. 1)"
    by (simp add: comp_def length_as_sum)
  also have "\<dots> = (\<Sum>r\<leftarrow>failed. 1)" by (rule sum_by_groups) auto
  finally show ?thesis by (simp add: length_as_sum)
qed

definition failed_of :: "(int \<Rightarrow> string) \<Rightarrow> string \<Rightarrow> query \<Rightarrow> usage_row list \<Rightarrow> usage_row list" where
  "failed_of cutoff name q hist = filter (\<lambda>r. ur_provider r = name \<and> cutoff (window_hours q) \<le> ur_ts r \<and> \<not> ur_ok r \<and>
     (given q ''profile'' \<longrightarrow> ur_profile r = dget q ''profile'' [])) hist"

text \<open>
  Also: every failure is in one bucket.  The buckets add up to the total of the report.  The total is the number of
  failed requests in the window, provided that no two error types have one name, as NULL, the empty text and
  \<open>unknown\<close> do.
\<close>

theorem every_failure_is_in_one_bucket:
  shows "case serve_provider_failures cutoff name q hist of rep \<Rightarrow>
    sum_list (map snd (fr_buckets rep)) = fr_total rep \<and> keys (fr_buckets rep) = BUCKETS \<and>
    (inj_on type_name (ur_error ` set (failed_of cutoff name q hist)) \<longrightarrow>
      fr_total rep = length (failed_of cutoff name q hist))"
  using bucket_sum breakdown_total[of "failed_of cutoff name q hist"]
  by (auto simp: serve_provider_failures_def failed_of_def Let_def bucket_counts_def comp_def)

text \<open>
  Also: uptime is a share.  It lies between 0 and 100; it is 100 when nothing is logged or nothing failed, and 0 when
  everything failed.
\<close>

theorem uptime_is_a_share:
  fixes provider profile cutoff :: string and hist :: "usage_row list"
  defines "rows \<equiv> recent_of provider profile cutoff hist"
  shows "0 \<le> uptime_for db_ok provider profile cutoff hist \<and> uptime_for db_ok provider profile cutoff hist \<le> 100 \<and>
    (list_all ur_ok rows \<longrightarrow> uptime_for db_ok provider profile cutoff hist = 100) \<and>
    (db_ok \<and> rows \<noteq> [] \<and> list_all (Not \<circ> ur_ok) rows \<longrightarrow> uptime_for db_ok provider profile cutoff hist = 0)"
proof -
  let ?share = "real (length (filter ur_ok rows)) / real (length rows) * 100"
  have hundred: "py_round 2 100 = 100" using round_even_of_int[of 10000] by (simp add: py_round_def)
  have "length (filter ur_ok rows) \<le> length rows" by (rule length_filter_le)
  then have "0 \<le> ?share" "?share \<le> 100" by (cases "rows = []"; simp add: divide_simps)+
  then have bounds: "0 \<le> py_round 2 ?share" "py_round 2 ?share \<le> 100"
    using py_round_nonneg[of ?share 2] py_round_mono[of ?share 100 2] hundred by auto
  have all: "filter ur_ok rows = rows" if "list_all ur_ok rows" using that by (simp add: list_all_iff filter_id_conv)
  have none: "filter ur_ok rows = []" if "list_all (Not \<circ> ur_ok) rows" using that by (simp add: list_all_iff filter_empty_conv)
  show ?thesis
    using bounds all none hundred
    by (auto simp: uptime_for_def Let_def rows_def[symmetric])
qed

subsection \<open>Health\<close>

lemma keys_fold_named: "set (keys (fold (\<lambda>x d. AList.update (f x) (g x) d) xs d)) = set (keys d) \<union> f ` set xs"
  by (induction xs arbitrary: d) (auto simp: dom_update)

lemma distinct_fold_update: "distinct (keys d) \<Longrightarrow> distinct (keys (fold (\<lambda>x d. AList.update (f x) (g x) d) xs d))"
  by (induction xs arbitrary: d) (auto simp: distinct_update)

text \<open>
  Also: the health listing may hide providers.  The summary counts every entry of the breaker, each of them healthy,
  degraded or dead; the listing has one line for a provider and profile and leaves the address out of its key.  It
  shows as many lines as are counted only when no provider has two addresses in a profile.
\<close>

theorem health_listing_may_hide_providers:
  assumes "dict_ok (entries cb)" and "serve_providers_health db_ok cutoff hist cb = (s, listing)"
  shows "hs_total s = length (entries cb) \<and> hs_total s = hs_healthy s + hs_degraded s + hs_dead s \<and>
    length listing \<le> hs_total s \<and> (length listing = hs_total s \<longleftrightarrow> inj_on health_name (set (keys (entries cb))))"
proof -
  let ?names = "health_name ` set (keys (entries cb))"
  have listing: "listing = fold (\<lambda>x d. AList.update (health_name (fst x)) (health_entry_of db_ok cutoff hist x) d) (entries cb) []"
    using assms(2) by (simp add: serve_providers_health_def Let_def)
  have s: "s = \<lparr>hs_total = length (entries cb), hs_healthy = length (filter (\<lambda>x. hstatus (snd x) = Healthy) (entries cb)),
      hs_degraded = length (filter (\<lambda>x. hstatus (snd x) = Degraded) (entries cb)),
      hs_dead = length (filter (\<lambda>x. hstatus (snd x) = Dead) (entries cb))\<rparr>"
    using assms(2) by (simp add: serve_providers_health_def Let_def)
  have "set (keys listing) = ?names"
    using keys_fold_named[of "\<lambda>x. health_name (fst x)" "health_entry_of db_ok cutoff hist" "entries cb" "[]"]
    by (simp add: listing image_image)
  moreover have "distinct (keys listing)" unfolding listing by (rule distinct_fold_update) simp
  ultimately have n: "length listing = card ?names"
    using distinct_card[of "keys listing"] by simp
  have m: "length (entries cb) = card (set (keys (entries cb)))"
    using distinct_card[OF assms(1)] by simp
  have three: "length (filter (\<lambda>x. hstatus (snd x) = Healthy) xs) + length (filter (\<lambda>x. hstatus (snd x) = Degraded) xs) +
      length (filter (\<lambda>x. hstatus (snd x) = Dead) xs) = length xs" for xs :: "(hkey \<times> health) list"
  proof (induction xs)
    case (Cons x xs)
    then show ?case by (cases "hstatus (snd x)") auto
  qed simp
  have "card ?names \<le> card (set (keys (entries cb)))" by (rule card_image_le) simp
  moreover have "card ?names = card (set (keys (entries cb))) \<longleftrightarrow> inj_on health_name (set (keys (entries cb)))"
    using inj_on_iff_eq_card[of "set (keys (entries cb))" health_name] by simp
  ultimately show ?thesis using three[of "entries cb"] n m by (simp add: s)
qed

subsection \<open>The export\<close>

lemma commas_of_join: "ws \<noteq> [] \<Longrightarrow> count_list (join '','' ws) CHR '','' = length ws - 1 + (\<Sum>w\<leftarrow>ws. count_list w CHR '','')"
proof (induction ws)
  case (Cons w ws)
  then show ?case by (cases ws) (auto simp: count_list_append)
qed simp

text \<open>
  Also: a comma in a name breaks the export.  The fields of a line are joined by commas as they are.  Read back by
  commas, a line has its twelve columns exactly when none of its texts contains a comma (printed numbers contain
  none).
\<close>

theorem comma_breaks_the_export:
  assumes "\<And>i. CHR '','' \<notin> set (ue_int env i)" and "\<And>x. CHR '','' \<notin> set (ue_float env x)"
  shows "length (split_on CHR '','' (export_line env r)) = 12 \<longleftrightarrow>
    CHR '','' \<notin> set (ur_ts r @ ur_profile r @ ur_model r @ ur_provider r @ (case ur_error r of None \<Rightarrow> [] | Some e \<Rightarrow> e))"
proof -
  have none: "count_list w CHR '','' = 0 \<longleftrightarrow> CHR '','' \<notin> set w" for w by (simp add: count_list_0_iff)
  have "count_list (if ur_ok r then ''1'' else ''0'') CHR '','' = 0" by simp
  then show ?thesis
    using assms none by (simp add: length_split_on export_line_def commas_of_join)
qed

subsection \<open>The model list\<close>

lemma fold_max: "fold (\<lambda>s m. max m (f s)) xs (a :: real) = (if xs = [] then a else max a (Max (f ` set xs)))"
proof (induction xs arbitrary: a)
  case (Cons x xs)
  then show ?case by (cases "xs = []") (simp_all add: max.assoc)
qed simp

text \<open>
  Also: a profile is listed with its largest context.  The list has one entry for every profile with a chain, and its
  context is the largest of the models in the chain: a step to which the gateway may fall back may take less.
\<close>

theorem listed_context_is_the_largest:
  assumes "vm \<in> set (serve_models limits profiles profile)" and "\<forall>m. 0 \<le> context_length limits m"
  shows "vm_providers vm \<noteq> [] \<and> vm_context vm = Max ((\<lambda>x. snd (snd x)) ` set (vm_providers vm))"
proof -
  obtain name chain where vm: "vm = virtual_model_of limits (name, chain)" "chain \<noteq> []"
    using assms(1) by (auto simp: serve_models_def)
  have "context_length limits (snd (hd chain)) \<le> Max ((\<lambda>s. context_length limits (snd s)) ` set chain)"
    using vm(2) by (intro Max_ge) auto
  then have "0 \<le> Max ((\<lambda>s. context_length limits (snd s)) ` set chain)"
    using assms(2) order_trans by blast
  then show ?thesis
    using vm(2) by (simp add: vm(1) virtual_model_of_def Let_def fold_max image_image)
qed

subsection \<open>Instances\<close>

text \<open>A calendar in unary.\<close>

definition unary_days :: usage_env where
  "unary_days = \<lparr>ue_day = (\<lambda>t. Some (int (length t))), ue_date = (\<lambda>d. replicate (nat d) CHR ''a''),
     ue_pricing = (\<lambda>p m. Inl KeyError), ue_int = (\<lambda>i. ''7''), ue_float = (\<lambda>x. ''0.5'')\<rparr>"

definition a_row :: "string \<Rightarrow> string \<Rightarrow> usage_row" where
  "a_row ts m = \<lparr>ur_id = 1, ur_ts = ts, ur_profile = ''p'', ur_model = m, ur_provider = ''x'', ur_prompt = 5,
     ur_completion = 2, ur_hit = 0, ur_miss = 0, ur_cost = 1, ur_latency = 9, ur_ok = True, ur_error = None\<rparr>"

definition ranged :: "string \<Rightarrow> query" where
  "ranged days = [(''start'', ''a''), (''end'', ''aa''), (''days'', days)]"

lemma ranged_days: "query_int (ranged ''1'') ''days'' ''30'' = Some 1" "query_int (ranged ''9'') ''days'' ''30'' = Some 9"
  by code_simp+

lemma ranged_shown: "shown_days unary_days 0 n (ranged days) = Some (1, 2)"
  by (simp add: shown_days_def ranged_def has_range_def given_def unary_days_def)

lemma ranged_rows: "base_rows (ranged days) [a_row ''a'' ''m'', a_row ''aa'' ''n''] = [a_row ''a'' ''m'', a_row ''aa'' ''n'']"
  by (simp add: base_rows_def in_usage_def ranged_def has_range_def given_def end_of_day_def a_row_def)

lemma ranged_served:
  "query_int (ranged days) ''days'' ''30'' = Some n \<Longrightarrow> \<exists>u. serve_usage_stats unary_days 0 (ranged days) hist = Served u"
  by (simp add: serve_usage_stats_def ranged_shown Let_def split: prod.split)

theorem usage_breakdowns_add_up_witness:
  "\<exists>u. serve_usage_stats unary_days 0 (ranged ''9'') [a_row ''a'' ''m'', a_row ''aa'' ''n''] = Served u \<and>
    sum_list (map (mu_cost \<circ> snd) (us_by_model u)) = 2"
proof -
  obtain u where u: "serve_usage_stats unary_days 0 (ranged ''9'') [a_row ''a'' ''m'', a_row ''aa'' ''n''] = Served u"
    using ranged_served[OF ranged_days(2)] by blast
  then have "sum_list (map (mu_cost \<circ> snd) (us_by_model u)) =
      tu_cost (total_sums (counted_requests (ranged ''9'') [a_row ''a'' ''m'', a_row ''aa'' ''n'']))"
    using usage_breakdowns_add_up[OF u] by presburger
  also have "\<dots> = 2" unfolding counted_base[symmetric] ranged_rows by (simp add: total_sums_def a_row_def)
  finally show ?thesis using u by blast
qed

theorem daily_usage_adds_up_witness:
  "\<exists>u. serve_usage_stats unary_days 0 (ranged ''9'') [a_row ''a'' ''m'', a_row ''aa'' ''n''] = Served u \<and>
    sum_list (map (su_cost \<circ> snd) (us_daily u)) = tu_cost (us_total u)"
proof -
  obtain u where u: "serve_usage_stats unary_days 0 (ranged ''9'') [a_row ''a'' ''m'', a_row ''aa'' ''n''] = Served u"
    using ranged_served[OF ranged_days(2)] by blast
  have "inj_on (ue_date unary_days) {1..2}"
    by (auto simp: inj_on_def unary_days_def dest: arg_cong[where f = length])
  moreover have "\<forall>r \<in> set (base_rows (ranged ''9'') [a_row ''a'' ''m'', a_row ''aa'' ''n'']). day_of r \<in> ue_date unary_days ` {1..2}"
  proof -
    have "ue_date unary_days 1 = ''a''" "ue_date unary_days 2 = ''aa''" by (simp_all add: unary_days_def numeral_2_eq_2)
    then show ?thesis
      unfolding ranged_rows by (auto simp: day_of_def a_row_def intro: image_eqI[of _ _ 1] image_eqI[of _ _ 2])
  qed
  moreover have "length (remdups (map day_of (base_rows (ranged ''9'') [a_row ''a'' ''m'', a_row ''aa'' ''n'']))) \<le> nat 9"
    unfolding ranged_rows by (simp add: day_of_def a_row_def)
  ultimately have "sum_list (map (su_cost \<circ> snd) (us_daily u)) = tu_cost (us_total u)"
    using daily_usage_adds_up[OF u ranged_days(2) ranged_shown] by blast
  with u show ?thesis by blast
qed

theorem long_range_shows_empty_days_witness:
  "\<exists>u. serve_usage_stats unary_days 0 (ranged ''1'') [a_row ''a'' ''m'', a_row ''aa'' ''n''] = Served u \<and>
    (''a'', sums_of []) \<in> set (us_daily u)"
proof -
  obtain u where u: "serve_usage_stats unary_days 0 (ranged ''1'') [a_row ''a'' ''m'', a_row ''aa'' ''n''] = Served u"
    using ranged_served[OF ranged_days(1)] by blast
  have day: "day_of (a_row ts m) = take 10 ts" for ts m by (simp add: day_of_def a_row_def)
  have "{d. (d = ''a'' \<or> d = ''aa'') \<and> ''a'' < d} = {''aa''}" by auto
  then have "(day_of (a_row ''a'' ''m''), sums_of []) \<in> set (us_daily u)"
    by (intro long_range_shows_empty_days[OF u ranged_days(1) _ ranged_shown, of 1])
      (simp_all add: ranged_rows day unary_days_def)
  then show ?thesis using u by (auto simp: day)
qed

theorem negative_limit_lifts_the_cap_witness:
  "\<exists>p. serve_logs [(''limit'', ''-1'')] (replicate 2000 (a_row ''a'' ''m'')) = Served p \<and> length (lp_rows p) = 2000"
proof -
  have ints: "query_int [(''limit'', ''-1'')] ''limit'' ''100'' = Some (- 1)" "query_int [(''limit'', ''-1'')] ''offset'' ''0'' = Some 0"
    by code_simp+
  then obtain p where p: "serve_logs [(''limit'', ''-1'')] (replicate 2000 (a_row ''a'' ''m'')) = Served p"
      "lp_limit p = - 1" "lp_offset p = 0" "lp_total p = 2000"
    by (simp add: serve_logs_def Let_def log_filter_def given_def)
  then show ?thesis using negative_limit_lifts_the_cap[OF p(1)] by simp
qed

theorem last_second_is_lost_witness:
  "a_row ''aaT23:59:59.5'' ''m'' \<notin> set (base_rows (ranged ''9'') [a_row ''aaT23:59:59.5'' ''m''])"
  by (rule last_second_is_lost[of _ _ "CHR ''.''" "''5''"])
    (simp_all add: has_range_def given_def ranged_def a_row_def end_of_day_def)

theorem every_failure_is_in_one_bucket_witness:
  "fr_total (serve_provider_failures (\<lambda>h. []) ''x'' [] [(a_row ''a'' ''m'')\<lparr>ur_ok := False\<rparr>]) = 1"
  using every_failure_is_in_one_bucket[of "\<lambda>h. []" "''x''" "[]" "[(a_row ''a'' ''m'')\<lparr>ur_ok := False\<rparr>]"]
  by (simp add: failed_of_def a_row_def given_def Let_def)

theorem uptime_is_a_share_witness:
  "uptime_for True ''x'' ''p'' [] [(a_row ''a'' ''m'')\<lparr>ur_ok := False\<rparr>] = 0"
  using uptime_is_a_share[of True "''x''" "''p''" "[]" "[(a_row ''a'' ''m'')\<lparr>ur_ok := False\<rparr>]"]
  by (simp add: recent_of_def a_row_def)

definition two_addresses :: breaker where
  "two_addresses = new_breaker\<lparr>entries := [((''x'', ''u1'', ''p''), default_health), ((''x'', ''u2'', ''p''), default_health)]\<rparr>"

theorem health_listing_may_hide_providers_witness:
  "length (snd (serve_providers_health True (\<lambda>h. []) [] two_addresses)) < 2"
proof -
  have d: "dict_ok (entries two_addresses)" "\<not> inj_on health_name (set (keys (entries two_addresses)))"
      "length (entries two_addresses) = 2"
    by (simp_all add: two_addresses_def health_name_def)
  then show ?thesis
    using health_listing_may_hide_providers[OF d(1), of True "\<lambda>h. []" "[]"]
    by (cases "serve_providers_health True (\<lambda>h. []) [] two_addresses") (auto simp: less_le)
qed

theorem comma_breaks_the_export_witness:
  "length (split_on CHR '','' (export_line unary_days (a_row ''a'' ''m,n''))) \<noteq> 12"
  using comma_breaks_the_export[of unary_days "a_row ''a'' ''m,n''"] by (simp add: unary_days_def a_row_def)

theorem listed_context_is_the_largest_witness:
  "vm_context (hd (serve_models [] [(''p'', [(''x'', ''m'')])] None)) = 128000"
  using listed_context_is_the_largest[of "hd (serve_models [] [(''p'', [(''x'', ''m'')])] None)" "[]" "[(''p'', [(''x'', ''m'')])]" None]
  by (simp add: serve_models_def virtual_model_of_def Let_def context_length_def)

end
