(* ===== verification/Spec2Isabelle.thy ===== *)
theory Spec2Isabelle
  imports Component_Runtime Exceptions Circuit_Breaker Prompt_Cache Inflight Routing Accounting Route_Table Gateway_Edits
    Cost_Cache Completion Provider_Probe Settings_Api Task_Classifier Conv_Store Registry_Api
    Console_OAuth Cron_Ops Log_Tables Memory_Bank Conversations Usage_Api
begin

text \<open>
  Verification of the LLM gateway (Python, src/src).

  The program.  A client sends a chat request to a profile.  The handler (server/handler.py)
  authenticates the client's key, checks the budgets, strips forbidden tools and looks in the prompt
  cache.  On a miss the provider chain of the profile is tried (api/request\_pipeline.py): the
  capability router (api/router.py) may reorder or shorten the chain and choose another model, the
  circuit breaker (api/circuit\_breaker.py) says which steps may be called, the messages are prepared
  for the step, the request is forwarded with retries, and a failed step gives way to the next one.
  The answer goes back to the client, reasoning text is kept for later turns
  (api/reasoning\_store.py), and the books are kept: token verification, cost, request log, budgets,
  alerts.  The components are started in dependency order by a runtime (api/runtime.py).

  The theories.
  \<^item> Prelude, Json\_Values, Py\_Text, Py\_Numbers, Tables: dictionaries with their order, JSON values and
    exceptions as sums, string methods, number reading and rounding, database tables; the locales
    \<open>dict_store\<close>, \<open>sized_store\<close> and \<open>stable_fact\<close> (a fact no operation destroys).
  \<^item> Component\_Runtime: \<open>Runtime\<close> (register, start, reload, shutdown) and the component list of
    main.py.  Set-up follows the dependencies, in any order of registration; what is left out is
    unsatisfied.
  \<^item> Exceptions: the hierarchy of api/exceptions.py and what a client sees of an exception.
  \<^item> Circuit\_Breaker: \<open>CircuitBreaker\<close> and the \<open>provider_health\<close> table.  It refines an abstract
    ladder per provider; a restart loads the health that was held.
  \<^item> Prompt\_Cache, Inflight, Reasoning\_Store: the three stores, with their bounds and the
    specifications they meet (latest entry set, running requests, captured reasoning).
  \<^item> Messages, Forwarding, Chain: the preparation of a request, one upstream call with its error
    classes, the retry loop, and \<open>try_chain\<close>.  An answer is the pieces that were read and how the reading ended.
    The chain ends in an answer or in the error for a failed chain, and reaches the first step that works.
  \<^item> Model\_Registry, Capability\_Matrix, Routing\_Settings, Router, Routing: names of models, the score
    matrix, the stored routing settings, \<open>CapabilityRouter\<close>, and what follows for the chain.
  \<^item> Key\_Manager: \<open>KeyManager\<close>.  \<open>key_store\<close> is the table of api/models.py \<open>ApiKey\<close>;
    \<open>create_key\<close>, \<open>rotate_key\<close>, \<open>revoke_key\<close>, \<open>validate_key\<close> are its methods.
  \<^item> Budgets: the budget methods of the handler and the budget endpoints of server/endpoints.py;
    \<open>billing\<close> is the budget table with the keys whose spend it updates.
  \<^item> Alert\_Manager: \<open>AlertManager\<close>, with an object store because the history and the active map share
    their dictionaries.
  \<^item> Admission: the gate of \<open>_serve_chat_completions\<close> and \<open>_track_budget_spend\<close>, over the three
    theories before it.
  \<^item> Costs: peak hours, the price tables and \<open>calculate_cost\<close> of the plugins, \<open>resolve_pricing\<close>, and
    \<open>calculate_cost\<close> of the pipeline.
  \<^item> Accounting: \<open>TokenVerifier\<close>, \<open>record_cost\<close>, the local token counts, and the tail of a
    non-streaming completion, which composes Costs and Admission.
  \<^item> Route\_Table: server/router.py and \<open>_build_routes\<close>: the matchers, the ordered table and the
    dispatch of the four methods up to the handler method that runs.  Every rule but one is reached,
    and no completion request is taken by an admin rule.
  \<^item> Gateway\_Config: validation, loading, saving and accessors of api/config.py, and the seed of
    api/profile\_data.py.  Gateway\_Admin and Gateway\_Edits: the endpoints that change providers, profiles
    and chains, and the seeding of agents from their directories; all but three edits, which the code does not
    guard, end in a configuration that loads again.
  \<^item> Credentials: the encrypted store of api/credential\_store.py and the master secret of api/crypto.py.
  \<^item> Cost\_Cache: the stored payloads of api/cost\_cache.py, the refresher and what the endpoints serve.
  \<^item> Error\_Replies, Stream\_Tail, Completion: the error replies, the streaming tail and the whole of
    \<open>_serve_chat_completions\<close> over the components it calls.
  \<^item> Provider\_Probe: provider test and model discovery, the discovery of api/cost\_plugins/llamacpp.py included,
    with the guard on the destination.
  \<^item> Settings\_Api: the endpoints that change routing rules and settings.
  \<^item> Py\_Regex, Message\_Norm, Task\_Classifier: a backtracking matcher for the patterns the code uses,
    the filters of api/message\_norm.py that find the newest instruction, and api/task\_classifier.py.
  \<^item> Conv\_Store: api/conv\_store.py, the positional store of conversation messages with its audit.
  \<^item> Registry\_Api: the registry and score endpoints with the registry and matrix caches of the router.
  \<^item> Console\_OAuth: the sign-in flows and the stored session of api/cost\_plugins/console\_oauth.py.
  \<^item> Cron\_Ops: the view of the job snapshot and the operation spool of api/work\_cron.py.
  \<^item> Memory\_Bank: the memory of a profile (api/memory) with its endpoints, and what the chain gets of it.
  \<^item> Conversations: api/work\_conversations.py, the key that ties requests and decisions together.
  \<^item> Usage\_Api: the statistics endpoints over the request log, query by query, and the model list.
  \<^item> Log\_Tables: paging and ordering of the log views (ui/tables.py).

  What the lemmas show.  Each theory first proves how its operations read and change its state, then
  that its invariant is kept, and then its properties, by induction over a sequence of operations where
  the property speaks of a history.  The locales carry the parts that repeat: \<open>stable_fact\<close> is
  interpreted on the keys (a dead hash, a well-formed table), the budgets (an exhausted or a frozen
  budget) and the alerts (the state invariant, a row nothing reaches).  Properties of kind error state
  behaviour that contradicts a comment, a document or the evident purpose; the manifest lists them as
  findings.

  Idealisations.  A float is a real number, so no rounding error of arithmetic is modelled, but
  \<open>round(x, n)\<close> is (half to even); router scores are not rounded.  Text covers the code points 0 to
  255.  An operation that reads the clock more than once gets one reading.  A commit is atomic and its
  failure is a flag; a transaction that raises changes nothing.  Threads do not interleave inside an
  operation.  Loops are structural recursions over lists; the start loop of the runtime terminates by
  the number of components not yet set up, the tag removal by the length of the text, and the polling
  loop of the device flow is a partial function that is proved to return; nothing uses fuel.

  Arguments of the model.  Code that is not in the repository or not determined by it: the HTTP client,
  the tokenizer, SHA-256 and the random tokens, the reader of ISO dates, float formatting, the JSON
  printer where digests depend on it, the embedder behind the task classifier, Fernet, the URL parser
  and the resolver, the console's discovery and plan (with the requests they send), the agents' directories and
  the profiles their configurations name, the vector database, what an SQLAlchemy object holds after a commit.  Hypotheses about
  them are in the statements that need them.

  Not modelled.  Pages and HTML (src/ui apart from the table views), the plugin web clients that read
  balances and usage, the remaining endpoints of server/endpoints.py (avatars, uploads, redirects), the
  work board, installation and logging.  Most of it is input and output.
\<close>

end
